(* ===== verification/Prelude.thy ===== *)
theory Prelude imports Main "HOL-Library.Word" begin

text \<open>
  What every component shares: Go's byte slices and readers, errors as values, big-endian
  integers (encoding/binary), the interface of a prefix decoder (locale codec) and the
  lemma collections codec_simps and go_defs.

  A \<open>[]byte\<close> and a Go string on the wire are byte lists. A \<open>*bytes.Reader\<close> is the list of the
  bytes it has not handed out yet. A function returning \<open>(T, error)\<close> has the result type
  \<open>go_error + 'a\<close>; a panic is the error Panic.
\<close>

type_synonym byte = "8 word"
type_synonym reader = "byte list"

named_theorems codec_simps \<open>equations that run a decoder on the output of an encoder\<close>

section \<open>Errors\<close>

text \<open>
  \<open>Errorf m\<close> is \<open>fmt.Errorf(m)\<close> or \<open>errors.New(m)\<close>; \<open>Wrap m e\<close> is \<open>fmt.Errorf("m: %w", e)\<close>, where
  e is None when the wrapped error is nil. Numbers formatted into a message are left out of m.
\<close>

datatype go_error =
    EOF
  | ErrUnexpectedEOF
  | Errorf string
  | Wrap string "go_error option"
  | Panic string

text \<open>\<open>chk m f\<close> is \<open>x, err := m; if err != nil { return err }; f(x)\<close>.\<close>

definition chk :: "'e + 'a \<Rightarrow> ('a \<Rightarrow> 'e + 'b) \<Rightarrow> 'e + 'b" where
  "chk m f = (case m of Inl e \<Rightarrow> Inl e | Inr x \<Rightarrow> f x)"

definition wrap :: "string \<Rightarrow> go_error + 'a \<Rightarrow> go_error + 'a" where
  "wrap msg m = (case m of Inl e \<Rightarrow> Inl (Wrap msg (Some e)) | Inr x \<Rightarrow> Inr x)"

text \<open>\<open>or_err e m\<close> is \<open>if err != nil { return e }\<close> with an error of its own, not wrapping err.\<close>

definition or_err :: "go_error \<Rightarrow> go_error + 'a \<Rightarrow> go_error + 'a" where
  "or_err e m = (case m of Inl _ \<Rightarrow> Inl e | Inr x \<Rightarrow> Inr x)"

text \<open>\<open>guard_err b e\<close> is \<open>if b { return e }\<close>.\<close>

definition guard_err :: "bool \<Rightarrow> go_error \<Rightarrow> go_error + unit" where
  "guard_err b e = (if b then Inl e else Inr ())"

text \<open>\<open>for_each f xs\<close> is a loop \<open>for _, x := range xs { if err := f(x); err != nil { return err } }\<close>.\<close>

fun for_each :: "('a \<Rightarrow> 'e + unit) \<Rightarrow> 'a list \<Rightarrow> 'e + unit" where
  "for_each f [] = Inr ()"
| "for_each f (x # xs) = chk (f x) (\<lambda>_. for_each f xs)"

text \<open>\<open>map_err f xs\<close> collects the results of a loop whose body may return an error.\<close>

fun map_err :: "('a \<Rightarrow> 'e + 'b) \<Rightarrow> 'a list \<Rightarrow> 'e + 'b list" where
  "map_err f [] = Inr []"
| "map_err f (x # xs) = chk (f x) (\<lambda>y. chk (map_err f xs) (\<lambda>ys. Inr (y # ys)))"

lemma chk_simps [simp]:
  "chk (Inl e) f = Inl e"
  "chk (Inr x) f = f x"
  by (simp_all add: chk_def)

lemma chk_eq_Inr: "chk m f = Inr y \<longleftrightarrow> (\<exists>x. m = Inr x \<and> f x = Inr y)"
  by (cases m) auto

lemma wrap_simps [simp]:
  "wrap msg (Inl e) = Inl (Wrap msg (Some e))"
  "wrap msg (Inr x) = Inr x"
  by (simp_all add: wrap_def)

lemma wrap_eq_Inr [simp]: "wrap msg m = Inr x \<longleftrightarrow> m = Inr x"
  by (cases m) auto

lemma or_err_simps [simp]:
  "or_err e (Inl e') = Inl e"
  "or_err e (Inr x) = Inr x"
  by (simp_all add: or_err_def)

lemma or_err_eq_Inr [simp]: "or_err e m = Inr x \<longleftrightarrow> m = Inr x"
  by (cases m) auto

lemma guard_err_simps [simp]:
  "guard_err True e = Inl e"
  "guard_err False e = Inr ()"
  by (simp_all add: guard_err_def)

lemma guard_err_eq_Inr [simp]: "guard_err b e = Inr u \<longleftrightarrow> \<not> b"
  by (simp add: guard_err_def)

lemma for_each_eq_Inr: "for_each f xs = Inr u \<longleftrightarrow> (\<forall>x \<in> set xs. f x = Inr ())"
  by (induction xs) (auto simp: chk_eq_Inr)

lemma map_err_eq_Inr: "map_err f xs = Inr ys \<longleftrightarrow> list_all2 (\<lambda>x y. f x = Inr y) xs ys"
  by (induction xs arbitrary: ys) (auto simp: chk_eq_Inr list_all2_Cons1)

lemma map_err_Inr: "(\<And>x. x \<in> set xs \<Longrightarrow> f x = Inr (g x)) \<Longrightarrow> map_err f xs = Inr (map g xs)"
  by (induction xs) auto

section \<open>Big-endian integers\<close>

fun be_nat :: "nat \<Rightarrow> nat \<Rightarrow> byte list" where
  "be_nat 0 n = []"
| "be_nat (Suc k) n = be_nat k (n div 256) @ [word_of_nat n]"

definition nat_of_be :: "byte list \<Rightarrow> nat" where
  "nat_of_be bs = foldl (\<lambda>acc b. acc * 256 + unat b) 0 bs"

lemma length_be_nat [simp]: "length (be_nat k n) = k"
  by (induction k arbitrary: n) auto

lemma nat_of_be_snoc [simp]: "nat_of_be (bs @ [b]) = nat_of_be bs * 256 + unat b"
  by (simp add: nat_of_be_def)

lemma nat_of_be_Nil [simp]: "nat_of_be [] = 0"
  by (simp add: nat_of_be_def)

lemma unat_byte_of_nat: "unat (word_of_nat n :: byte) = n mod 256"
  by (simp add: unat_of_nat)

lemma nat_of_be_nat: "nat_of_be (be_nat k n) = n mod 256 ^ k"
proof (induction k arbitrary: n)
  case 0
  then show ?case by simp
next
  case (Suc k)
  have "nat_of_be (be_nat (Suc k) n) = (n div 256 mod 256 ^ k) * 256 + n mod 256"
    by (simp add: Suc.IH unat_byte_of_nat)
  also have "\<dots> = n mod 256 ^ Suc k"
    using mod_mult2_eq [of n 256 "256 ^ k"] by simp
  finally show ?case .
qed

lemma be_nat_of_be: "be_nat (length bs) (nat_of_be bs) = bs"
proof (induction bs rule: rev_induct)
  case Nil
  then show ?case by simp
next
  case (snoc b bs)
  have lt: "unat b < 256"
    using unsigned_less [of b] by simp
  have "unat (word_of_nat (nat_of_be bs * 256 + unat b) :: byte) = unat b"
    using lt by (simp only: unat_byte_of_nat) simp
  then have "word_of_nat (nat_of_be bs * 256 + unat b) = (b :: byte)"
    by (rule unsigned_word_eqI)
  then show ?case
    using snoc.IH lt by (simp add: div_mult_self3)
qed

lemma nat_of_be_less: "nat_of_be bs < 256 ^ length bs"
proof (induction bs rule: rev_induct)
  case Nil
  then show ?case by simp
next
  case (snoc b bs)
  have "unat b < 256"
    using unsigned_less [of b] by simp
  with snoc.IH show ?case by simp
qed

text \<open>
  \<open>put w\<close> is what \<open>binary.Write(buf, binary.BigEndian, w)\<close> appends for a fixed-size unsigned
  integer; \<open>binary_read\<close> is \<open>binary.Read(reader, binary.BigEndian, &w)\<close>, which reads with
  io.ReadFull: EOF when nothing is left, ErrUnexpectedEOF when too little is left.
\<close>

definition put :: "'a::len word \<Rightarrow> byte list" where
  "put w = be_nat (LENGTH('a) div 8) (unat w)"

definition read_full :: "nat \<Rightarrow> reader \<Rightarrow> go_error + byte list \<times> reader" where
  "read_full k r = (if k = 0 then Inr ([], r) else if r = [] then Inl EOF
     else if length r < k then Inl ErrUnexpectedEOF else Inr (take k r, drop k r))"

definition binary_read :: "reader \<Rightarrow> go_error + 'a::len word \<times> reader" where
  "binary_read r = chk (read_full (LENGTH('a) div 8) r)
     (\<lambda>(bs, r). Inr (word_of_nat (nat_of_be bs), r))"

lemma read_full_append [codec_simps]: "length bs = k \<Longrightarrow> read_full k (bs @ r) = Inr (bs, r)"
  by (auto simp: read_full_def)

lemma read_full_eq_Inr: "read_full k b = Inr (bs, r) \<longleftrightarrow> length bs = k \<and> b = bs @ r"
  by (auto simp: read_full_def append_eq_conv_conj)

lemma length_put [simp]: "length (put (w :: 'a::len word)) = LENGTH('a) div 8"
  by (simp add: put_def)

lemma word_of_be_put:
  fixes w :: "'a::len word"
  assumes "8 dvd LENGTH('a)"
  shows "word_of_nat (nat_of_be (put w)) = w"
proof -
  have "(256::nat) ^ (LENGTH('a) div 8) = (2 ^ 8) ^ (LENGTH('a) div 8)"
    by simp
  also have "\<dots> = 2 ^ LENGTH('a)"
    using assms by (simp only: power_mult [symmetric] dvd_mult_div_cancel)
  finally have "(256::nat) ^ (LENGTH('a) div 8) = 2 ^ LENGTH('a)" .
  moreover have "unat w < 2 ^ LENGTH('a)"
    by (rule unsigned_less)
  ultimately show ?thesis
    by (simp add: put_def nat_of_be_nat)
qed

lemma put_word_of_be:
  fixes w :: "'a::len word"
  assumes "8 dvd LENGTH('a)" and "length bs = LENGTH('a) div 8"
  shows "put (word_of_nat (nat_of_be bs) :: 'a word) = bs"
proof -
  have "(256::nat) ^ (LENGTH('a) div 8) = (2 ^ 8) ^ (LENGTH('a) div 8)"
    by simp
  also have "\<dots> = 2 ^ LENGTH('a)"
    using assms(1) by (simp only: power_mult [symmetric] dvd_mult_div_cancel)
  finally have "nat_of_be bs < 2 ^ LENGTH('a)"
    using nat_of_be_less [of bs] assms(2) by simp
  then have "unat (word_of_nat (nat_of_be bs) :: 'a word) = nat_of_be bs"
    by (simp add: unat_of_nat)
  then show ?thesis
    using assms(2) be_nat_of_be [of bs] by (simp add: put_def)
qed

lemma put_inj: "8 dvd LENGTH('a) \<Longrightarrow> put (a :: 'a::len word) = put b \<longleftrightarrow> a = b"
  by (metis word_of_be_put)

lemma binary_read_put:
  fixes w :: "'a::len word"
  assumes "8 dvd LENGTH('a)"
  shows "binary_read (put w @ r) = Inr (w, r)"
  using assms by (simp add: binary_read_def read_full_append word_of_be_put)

lemma binary_read_eq_Inr:
  fixes w :: "'a::len word"
  assumes "8 dvd LENGTH('a)"
  shows "binary_read b = Inr (w, r) \<longleftrightarrow> b = put w @ r"
proof
  assume "binary_read b = Inr (w, r)"
  then obtain bs where "read_full (LENGTH('a) div 8) b = Inr (bs, r)"
    and w: "w = word_of_nat (nat_of_be bs)"
    by (auto simp: binary_read_def chk_eq_Inr)
  then have "length bs = LENGTH('a) div 8" and "b = bs @ r"
    by (simp_all add: read_full_eq_Inr)
  with w show "b = put w @ r"
    using put_word_of_be [OF assms, of bs] by simp
next
  assume "b = put w @ r"
  then show "binary_read b = Inr (w, r)"
    by (simp add: binary_read_put [OF assms])
qed

lemma binary_read_sizes [codec_simps]:
  "binary_read (put (w8 :: 8 word) @ r) = Inr (w8, r)"
  "binary_read (put (w16 :: 16 word) @ r) = Inr (w16, r)"
  "binary_read (put (w32 :: 32 word) @ r) = Inr (w32, r)"
  "binary_read (put (w64 :: 64 word) @ r) = Inr (w64, r)"
  by (rule binary_read_put, simp)+

lemma binary_read_inv:
  "binary_read b = Inr (w8 :: 8 word, r) \<longleftrightarrow> b = put w8 @ r"
  "binary_read b = Inr (w16 :: 16 word, r) \<longleftrightarrow> b = put w16 @ r"
  "binary_read b = Inr (w32 :: 32 word, r) \<longleftrightarrow> b = put w32 @ r"
  "binary_read b = Inr (w64 :: 64 word, r) \<longleftrightarrow> b = put w64 @ r"
  by (rule binary_read_eq_Inr, simp)+

lemma put_not_Nil [simp]:
  "put (w8 :: 8 word) \<noteq> []" "put (w16 :: 16 word) \<noteq> []"
  "put (w32 :: 32 word) \<noteq> []" "put (w64 :: 64 word) \<noteq> []"
  by (simp_all add: length_0_conv [symmetric] del: length_0_conv)

lemma put_byte [simp]: "put (w :: 8 word) = [w]"
  by (simp add: put_def)

lemma unat_cancel: "unat (a :: 'a::len word) = unat b \<longleftrightarrow> a = b"
  using unsigned_word_eqI by blast

lemma unat_bounds: "unat (b8 :: 8 word) \<le> 255" "unat (b16 :: 16 word) \<le> 65535" "unat (b32 :: 32 word) \<le> 4294967295"
  using unsigned_less [of b8, where 'a = nat] unsigned_less [of b16, where 'a = nat]
    unsigned_less [of b32, where 'a = nat] by simp_all

lemma unat_len8 [simp]: "n \<le> 255 \<Longrightarrow> unat (word_of_nat n :: 8 word) = n"
  by (simp add: unat_of_nat)

lemma unat_len16 [simp]: "n \<le> 65535 \<Longrightarrow> unat (word_of_nat n :: 16 word) = n"
  by (simp add: unat_of_nat)

lemma unat_len32 [simp]: "n \<le> 4294967295 \<Longrightarrow> unat (word_of_nat n :: 32 word) = n"
  by (simp add: unat_of_nat)

section \<open>Reading byte arrays and booleans\<close>

text \<open>
  \<open>reader_read k\<close> is \<open>(*bytes.Reader).Read\<close> into a buffer of k bytes: io.EOF when no byte is
  left (even for k = 0), otherwise as many of the k bytes as there are, with no error.
  \<open>read_buf msg k\<close> is \<open>if n, err := reader.Read(buf[:]); err != nil || n != k { return
  fmt.Errorf(msg, err) }\<close>, and \<open>read_byte\<close> is \<open>(*bytes.Reader).ReadByte\<close>.
\<close>

definition reader_read :: "nat \<Rightarrow> reader \<Rightarrow> byte list \<times> go_error option \<times> reader" where
  "reader_read k r = (if r = [] then ([], Some EOF, []) else (take k r, None, drop k r))"

definition read_buf :: "string \<Rightarrow> nat \<Rightarrow> reader \<Rightarrow> go_error + byte list \<times> reader" where
  "read_buf msg k r = (case reader_read k r of (bs, err, r') \<Rightarrow>
     if err \<noteq> None \<or> length bs \<noteq> k then Inl (Wrap msg err) else Inr (bs, r'))"

definition read_byte :: "reader \<Rightarrow> go_error + byte \<times> reader" where
  "read_byte r = (case r of [] \<Rightarrow> Inl EOF | b # r' \<Rightarrow> Inr (b, r'))"

definition put_bool :: "bool \<Rightarrow> byte list" where
  "put_bool b = [if b then 1 else 0]"

definition binary_read_bool :: "reader \<Rightarrow> go_error + bool \<times> reader" where
  "binary_read_bool r = chk (read_full 1 r) (\<lambda>(bs, r). Inr (hd bs \<noteq> 0, r))"

lemma read_buf_append [codec_simps]:
  "length bs = k \<Longrightarrow> 0 < k \<Longrightarrow> read_buf msg k (bs @ r) = Inr (bs, r)"
  "length bs = k \<Longrightarrow> r \<noteq> [] \<Longrightarrow> read_buf msg k (bs @ r) = Inr (bs, r)"
  by (auto simp: read_buf_def reader_read_def)

lemma read_buf_eq_Inr:
  "read_buf msg k b = Inr (bs, r) \<longleftrightarrow> b \<noteq> [] \<and> length bs = k \<and> b = bs @ r"
proof (cases "b = []")
  case True
  then show ?thesis by (simp add: read_buf_def reader_read_def)
next
  case False
  then show ?thesis
    by (auto simp: read_buf_def reader_read_def append_eq_conv_conj)
qed

lemma read_byte_Cons [codec_simps]: "read_byte (b # r) = Inr (b, r)"
  by (simp add: read_byte_def)

lemma read_byte_eq_Inr: "read_byte b = Inr (x, r) \<longleftrightarrow> b = x # r"
  by (auto simp: read_byte_def split: list.splits)

lemma binary_read_bool_put [codec_simps]: "binary_read_bool (put_bool b @ r) = Inr (b, r)"
  using read_full_append [of "put_bool b" 1 r]
  by (simp add: binary_read_bool_def put_bool_def)

lemma length_put_bool [simp]: "length (put_bool b) = 1"
  by (simp add: put_bool_def)

lemma put_bool_not_Nil [simp]: "put_bool b \<noteq> []"
  by (simp add: put_bool_def)

text \<open>\<open>read_times n rd\<close> is \<open>for i := 0; i < n; i++ { x, err := rd(); if err != nil {return err}; xs = append(xs, x) }\<close>.\<close>

fun read_times :: "nat \<Rightarrow> (reader \<Rightarrow> go_error + 'a \<times> reader) \<Rightarrow> reader \<Rightarrow> go_error + 'a list \<times> reader" where
  "read_times 0 rd r = Inr ([], r)"
| "read_times (Suc n) rd r = chk (rd r) (\<lambda>(x, r). chk (read_times n rd r) (\<lambda>(xs, r). Inr (x # xs, r)))"

lemma read_times_length: "read_times n rd b = Inr (xs, r) \<Longrightarrow> length xs = n"
  by (induction n arbitrary: b xs) (auto simp: chk_eq_Inr)

lemma read_times_set:
  assumes "\<And>b x r. rd b = Inr (x, r) \<Longrightarrow> P x"
  shows "read_times n rd b = Inr (xs, r) \<Longrightarrow> \<forall>x \<in> set xs. P x"
  using assms by (induction n arbitrary: b xs) (auto simp: chk_eq_Inr)

section \<open>The interface of a prefix decoder\<close>

text \<open>
  Every message format of the node is an encoder enc and a decoder dec that reads one value off
  the front of the input and hands the rest back. The one law is that dec undoes enc on values
  that satisfy ok, whatever follows. A canonical codec also accepts nothing but encodings.
\<close>

locale codec =
  fixes enc :: "'a \<Rightarrow> byte list"
    and dec :: "reader \<Rightarrow> go_error + 'a \<times> reader"
    and ok :: "'a \<Rightarrow> bool"
  assumes dec_enc: "ok x \<Longrightarrow> dec (enc x @ r) = Inr (x, r)"
begin

lemma prefix_free:
  assumes "ok x" and "ok y" and "enc x @ r = enc y @ s"
  shows "x = y \<and> r = s"
proof -
  have "Inr (x, r) = dec (enc x @ r)"
    by (rule dec_enc [OF assms(1), symmetric])
  also have "\<dots> = Inr (y, s)"
    unfolding assms(3) by (rule dec_enc [OF assms(2)])
  finally show ?thesis by simp
qed

lemma enc_inj: "ok x \<Longrightarrow> ok y \<Longrightarrow> enc x = enc y \<Longrightarrow> x = y"
  by (drule (1) prefix_free [of x y "[]" "[]"]) simp_all

lemma dec_times:
  "\<forall>x \<in> set xs. ok x \<Longrightarrow> read_times (length xs) dec (concat (map enc xs) @ r) = Inr (xs, r)"
  by (induction xs) (simp_all add: dec_enc)

end

text \<open>
  An exact codec reads nothing but encodings, though it may read values that are not ok (an empty
  byte string at the end of the input is written but not read). A canonical codec reads ok values only.
\<close>

locale exact_codec = codec +
  assumes dec_exact: "dec b = Inr (x, r) \<Longrightarrow> b = enc x @ r"
begin

lemma times_exact:
  "read_times n dec b = Inr (xs, r) \<Longrightarrow> length xs = n \<and> b = concat (map enc xs) @ r"
  by (induction n arbitrary: b xs) (auto simp: chk_eq_Inr dest: dec_exact)

end

locale canonical_codec = exact_codec +
  assumes dec_ok: "dec b = Inr (x, r) \<Longrightarrow> ok x"
begin

lemma dec_iff: "dec b = Inr (x, r) \<longleftrightarrow> ok x \<and> b = enc x @ r"
  using dec_exact dec_ok dec_enc by blast

lemma times_dec:
  "read_times n dec b = Inr (xs, r) \<Longrightarrow>
     length xs = n \<and> (\<forall>x \<in> set xs. ok x) \<and> b = concat (map enc xs) @ r"
  by (induction n arbitrary: b xs) (auto simp: chk_eq_Inr dest: dec_exact dec_ok)

end

text \<open>A length-prefixed byte string: \<open>MustWrite(buf, uint32(len(b))); buf.Write(b)\<close>.\<close>

definition put_blob :: "byte list \<Rightarrow> byte list" where
  "put_blob b = put (word_of_nat (length b) :: 32 word) @ b"

definition read_blob :: "string \<Rightarrow> string \<Rightarrow> reader \<Rightarrow> go_error + byte list \<times> reader" where
  "read_blob lenmsg msg r =
     chk (wrap lenmsg (binary_read r)) (\<lambda>(n :: 32 word, r). read_buf msg (unat n) r)"

lemma read_blob_append [codec_simps]:
  "length b \<le> 4294967295 \<Longrightarrow> b \<noteq> [] \<Longrightarrow> read_blob m1 m2 (put_blob b @ r) = Inr (b, r)"
  "length b \<le> 4294967295 \<Longrightarrow> r \<noteq> [] \<Longrightarrow> read_blob m1 m2 (put_blob b @ r) = Inr (b, r)"
  by (simp_all add: read_blob_def put_blob_def codec_simps)

lemma read_blob_exact: "read_blob m1 m2 b = Inr (x, r) \<Longrightarrow> b = put_blob x @ r"
  by (auto simp: read_blob_def put_blob_def chk_eq_Inr binary_read_inv read_buf_eq_Inr)

lemma put_blob_not_Nil [simp]: "put_blob b \<noteq> []"
  by (simp add: put_blob_def)

text \<open>
  A list with a one byte count: \<open>MustWrite(buf, uint8(len(xs)))\<close> and the elements, read by a loop
  of that many iterations.
\<close>

definition put_list8 :: "('a \<Rightarrow> byte list) \<Rightarrow> 'a list \<Rightarrow> byte list" where
  "put_list8 enc xs = put (word_of_nat (length xs) :: 8 word) @ concat (map enc xs)"

definition read_list8 ::
  "string \<Rightarrow> (reader \<Rightarrow> go_error + 'a \<times> reader) \<Rightarrow> reader \<Rightarrow> go_error + 'a list \<times> reader" where
  "read_list8 msg rd r =
     chk (wrap msg (binary_read r)) (\<lambda>(n :: 8 word, r). read_times (unat n) rd r)"

lemma read_times_wrap: "read_times n (\<lambda>r. wrap m (rd r)) b = Inr x \<longleftrightarrow> read_times n rd b = Inr x"
  by (induction n arbitrary: b x) (auto simp: chk_eq_Inr)

lemma read_list8_wrap: "read_list8 msg (\<lambda>r. wrap m (rd r)) b = Inr x \<longleftrightarrow> read_list8 msg rd b = Inr x"
  by (auto simp: read_list8_def chk_eq_Inr read_times_wrap)

lemma put_list8_not_Nil [simp]: "put_list8 enc xs \<noteq> []"
  by (simp add: put_list8_def)

context codec begin

lemma read_list8_put:
  "length xs \<le> 255 \<Longrightarrow> list_all ok xs \<Longrightarrow> read_list8 msg dec (put_list8 enc xs @ r) = Inr (xs, r)"
  using binary_read_sizes(1) [of "word_of_nat (length xs)"]
  by (simp add: read_list8_def put_list8_def dec_times list_all_iff)

end

context exact_codec begin

lemma read_list8_exact: "read_list8 msg dec b = Inr (xs, r) \<Longrightarrow> b = put_list8 enc xs @ r"
  by (auto simp: read_list8_def put_list8_def chk_eq_Inr binary_read_inv dest!: times_exact)

end

text \<open>
  Comparison of two slices of equal length, \<open>for idx := range left { if !f(left[idx], right[idx]) {
  return false } }\<close>; an index beyond the right slice panics, as does f where it has no case.
\<close>

fun equal_loop :: "('a \<Rightarrow> 'b \<Rightarrow> go_error + bool) \<Rightarrow> 'a list \<Rightarrow> 'b list \<Rightarrow> go_error + bool" where
  "equal_loop f [] ys = Inr True"
| "equal_loop f (x # xs) [] = Inl (Panic ''index out of range'')"
| "equal_loop f (x # xs) (y # ys) = chk (f x y) (\<lambda>b. if \<not> b then Inr False else equal_loop f xs ys)"

lemma equal_loop_eq:
  "length xs = length ys \<Longrightarrow> (\<And>x y. x \<in> set xs \<Longrightarrow> f x y = Inr (x = y)) \<Longrightarrow>
     equal_loop f xs ys = Inr (xs = ys)"
  by (induction xs ys rule: list_induct2) auto

text \<open>Go string literals as bytes.\<close>

definition bytes_of :: "string \<Rightarrow> byte list" where
  "bytes_of s = map of_char s"

lemma length_bytes_of [simp]: "length (bytes_of s) = length s"
  by (simp add: bytes_of_def)

lemma bytes_of_Nil [simp]: "bytes_of [] = []" "bytes_of s = [] \<longleftrightarrow> s = []"
  by (simp_all add: bytes_of_def)

lemma bytes_of_append [simp]: "bytes_of (s @ t) = bytes_of s @ bytes_of t"
  by (simp add: bytes_of_def)

definition has_prefix :: "byte list \<Rightarrow> byte list \<Rightarrow> bool" where
  "has_prefix p s = (take (length p) s = p)"

text \<open>
  Instants are nanoseconds since the Unix epoch. \<open>unix_secs\<close> and \<open>unix_micros\<close> are time.Unix and
  time.UnixMicro on a Time; \<open>time_unix\<close> and \<open>time_unix_micro\<close> build a Time from a count.
\<close>

type_synonym time = int

definition unix_secs :: "time \<Rightarrow> int" where "unix_secs t = t div 1000000000"
definition unix_micros :: "time \<Rightarrow> int" where "unix_micros t = t div 1000"
definition time_unix :: "int \<Rightarrow> time" where "time_unix s = s * 1000000000"
definition time_unix_micro :: "int \<Rightarrow> time" where "time_unix_micro s = s * 1000"

text \<open>Times that survive a \<open>uint32(t.Unix())\<close> and an \<open>int64\<close> count of microseconds.\<close>

definition secs_time :: "time \<Rightarrow> bool" where
  "secs_time t \<longleftrightarrow> t mod 1000000000 = 0 \<and> 0 \<le> t \<and> t < 2 ^ 32 * 1000000000"

definition micros_time :: "time \<Rightarrow> bool" where
  "micros_time t \<longleftrightarrow> t mod 1000 = 0 \<and> - (2 ^ 63) \<le> t div 1000 \<and> t div 1000 < 2 ^ 63"

lemma secs_time_roundtrip [simp]:
  "secs_time t \<Longrightarrow> time_unix (uint (word_of_int (unix_secs t) :: 32 word)) = t"
  by (auto simp: secs_time_def time_unix_def unix_secs_def unsigned_of_int take_bit_int_eq_self_iff)

lemma secs_time_of_word: "secs_time (time_unix (uint (w :: 32 word)))"
  using unsigned_less [of w] by (simp add: secs_time_def time_unix_def)

lemma unix_secs_time_unix [simp]: "unix_secs (time_unix s) = s"
  by (simp add: unix_secs_def time_unix_def)

lemma micros_time_roundtrip [simp]:
  "micros_time t \<Longrightarrow> time_unix_micro (sint (word_of_int (unix_micros t) :: 64 word)) = t"
  by (auto simp: micros_time_def time_unix_micro_def unix_micros_def signed_of_int
      signed_take_bit_int_eq_self_iff)

lemma micros_time_of_word: "micros_time (time_unix_micro (sint (w :: 64 word)))"
  using sint_ge [of w] sint_less [of w] by (simp add: micros_time_def time_unix_micro_def)

lemma unix_micros_time_unix_micro [simp]: "unix_micros (time_unix_micro s) = s"
  by (simp add: unix_micros_def time_unix_micro_def)

end
