(* ===== verification/GoText.thy ===== *)
theory GoText imports Prelude begin

text \<open>
  Text formatting of Go's standard library that the node's identifiers use: decimal numbers
  (fmt's %d and strconv.ParseUint in base 10), encoding/hex, strings.ToLower on ASCII and
  strings.Split. A Go string that is only used as text is an Isabelle string.
\<close>

section \<open>Decimal numbers\<close>

definition digit_char :: "nat \<Rightarrow> char" where
  "digit_char d = char_of (48 + d)"

definition char_digit :: "char \<Rightarrow> nat option" where
  "char_digit c = (let n = of_char c :: nat in if 48 \<le> n \<and> n \<le> 57 then Some (n - 48) else None)"

fun dec_string :: "nat \<Rightarrow> string" where
  "dec_string n = (if n < 10 then [digit_char n] else dec_string (n div 10) @ [digit_char (n mod 10)])"

declare dec_string.simps [simp del]

text \<open>
  \<open>parse_uint bits s\<close> is \<open>strconv.ParseUint(s, 10, bits)\<close>: a non-empty string of digits whose
  value fits in the given number of bits. (Underscores are only accepted in base 0.)
\<close>

fun parse_digits :: "nat \<Rightarrow> string \<Rightarrow> nat option" where
  "parse_digits acc [] = Some acc"
| "parse_digits acc (c # cs) = (case char_digit c of None \<Rightarrow> None | Some d \<Rightarrow> parse_digits (acc * 10 + d) cs)"

definition parse_uint :: "nat \<Rightarrow> string \<Rightarrow> go_error + nat" where
  "parse_uint bits s = (if s = [] then Inl (Errorf ''invalid syntax'') else
     case parse_digits 0 s of
       None \<Rightarrow> Inl (Errorf ''invalid syntax'')
     | Some n \<Rightarrow> if n < 2 ^ bits then Inr n else Inl (Errorf ''value out of range''))"

lemma of_char_digit: "d < 10 \<Longrightarrow> (of_char (digit_char d) :: nat) = 48 + d"
  by (simp add: digit_char_def)

lemma char_digit_digit [simp]: "d < 10 \<Longrightarrow> char_digit (digit_char d) = Some d"
  by (simp add: char_digit_def of_char_digit)

lemma dec_string_not_Nil [simp]: "dec_string n \<noteq> []"
  by (subst dec_string.simps) simp

lemma parse_digits_append:
  "parse_digits acc (s @ t) = (case parse_digits acc s of None \<Rightarrow> None | Some a \<Rightarrow> parse_digits a t)"
  by (induction s arbitrary: acc) (auto split: option.splits)

lemma parse_dec_string: "parse_digits 0 (dec_string n) = Some n"
proof (induction n rule: dec_string.induct)
  case (1 n)
  show ?case
  proof (cases "n < 10")
    case True
    then show ?thesis by (subst dec_string.simps) simp
  next
    case False
    with 1 have "parse_digits 0 (dec_string (n div 10)) = Some (n div 10)" by simp
    with False show ?thesis
      by (subst dec_string.simps) (simp add: parse_digits_append)
  qed
qed

lemma parse_uint_dec_string: "n < 2 ^ bits \<Longrightarrow> parse_uint bits (dec_string n) = Inr n"
  by (simp add: parse_uint_def parse_dec_string)

lemma dec_string_inj: "dec_string m = dec_string n \<longleftrightarrow> m = n"
  by (metis parse_dec_string option.inject)

lemma dec_string_chars: "c \<in> set (dec_string n) \<Longrightarrow> char_digit c \<noteq> None"
proof (induction n rule: dec_string.induct)
  case (1 n)
  show ?case
  proof (cases "n < 10")
    case True
    with "1.prems" show ?thesis by (simp add: dec_string.simps [of n])
  next
    case False
    with 1 show ?thesis by (auto simp: dec_string.simps [of n])
  qed
qed

section \<open>Hexadecimal\<close>

definition hex_digit :: "nat \<Rightarrow> char" where
  "hex_digit d = char_of (if d < 10 then 48 + d else 87 + d)"

definition char_hex :: "char \<Rightarrow> nat option" where
  "char_hex c = (let n = of_char c :: nat in
     if 48 \<le> n \<and> n \<le> 57 then Some (n - 48)
     else if 97 \<le> n \<and> n \<le> 102 then Some (n - 87)
     else if 65 \<le> n \<and> n \<le> 70 then Some (n - 55) else None)"

definition hex_encode :: "byte list \<Rightarrow> string" where
  "hex_encode bs = concat (map (\<lambda>b. [hex_digit (unat b div 16), hex_digit (unat b mod 16)]) bs)"

fun hex_decode :: "string \<Rightarrow> go_error + byte list" where
  "hex_decode [] = Inr []"
| "hex_decode [c] = (case char_hex c of None \<Rightarrow> Inl (Errorf ''encoding/hex: invalid byte'')
     | Some _ \<Rightarrow> Inl (Errorf ''encoding/hex: odd length hex string''))"
| "hex_decode (c # d # cs) =
     (case char_hex c of None \<Rightarrow> Inl (Errorf ''encoding/hex: invalid byte'')
      | Some h \<Rightarrow> (case char_hex d of None \<Rightarrow> Inl (Errorf ''encoding/hex: invalid byte'')
      | Some l \<Rightarrow> chk (hex_decode cs) (\<lambda>bs. Inr (word_of_nat (h * 16 + l) # bs))))"

lemma char_hex_digit [simp]: "d < 16 \<Longrightarrow> char_hex (hex_digit d) = Some d"
  by (simp add: char_hex_def hex_digit_def Let_def)

lemma hex_encode_simps [simp]:
  "hex_encode [] = []"
  "hex_encode (b # bs) = hex_digit (unat b div 16) # hex_digit (unat b mod 16) # hex_encode bs"
  by (simp_all add: hex_encode_def)

lemma hex_decode_encode: "hex_decode (hex_encode bs) = Inr bs"
proof (induction bs)
  case Nil
  then show ?case by simp
next
  case (Cons b bs)
  have "unat b < 256"
    using unsigned_less [of b] by simp
  then have "unat b div 16 < 16" by simp
  with Cons.IH show ?case by (simp flip: of_nat_mult of_nat_add)
qed

lemma length_hex_encode [simp]: "length (hex_encode bs) = 2 * length bs"
  by (induction bs) simp_all

lemma hex_encode_inj: "hex_encode a = hex_encode b \<longleftrightarrow> a = b"
  by (metis hex_decode_encode sum.inject(2))

lemma hex_encode_chars: "c \<in> set (hex_encode bs) \<Longrightarrow> char_hex c \<noteq> None"
proof (induction bs)
  case Nil
  then show ?case by simp
next
  case (Cons b bs)
  have "unat b < 256"
    using unsigned_less [of b] by simp
  then have "unat b div 16 < 16" by simp
  with Cons show ?case by auto
qed

section \<open>Case folding and splitting\<close>

definition to_lower_char :: "char \<Rightarrow> char" where
  "to_lower_char c = (let n = of_char c :: nat in if 65 \<le> n \<and> n \<le> 90 then char_of (n + 32) else c)"

definition to_lower :: "string \<Rightarrow> string" where
  "to_lower s = map to_lower_char s"

text \<open>\<open>strings.Split(s, sep)\<close> for a separator of one character.\<close>

fun split_on :: "char \<Rightarrow> string \<Rightarrow> string list" where
  "split_on sep [] = [[]]"
| "split_on sep (c # cs) = (if c = sep then [] # split_on sep cs
     else (case split_on sep cs of [] \<Rightarrow> [[c]] | w # ws \<Rightarrow> (c # w) # ws))"

lemma split_on_no_sep: "sep \<notin> set s \<Longrightarrow> split_on sep s = [s]"
  by (induction s) auto

lemma split_on_append: "sep \<notin> set s \<Longrightarrow> split_on sep (s @ sep # t) = s # split_on sep t"
  by (induction s) auto

end
