(* ===== verification/ChainIds.thy ===== *)
theory ChainIds imports GoText begin

text \<open>
  Wormhole chain identifiers: sdk/vaa/structs.go, type ChainID. The three tables below are the
  String switch, the ChainIDFromString switch and GetAllNetworkIDs, in source order, with each
  ChainID constant replaced by its number. strings.ToLower is modelled on ASCII, which covers
  every name of the tables.
\<close>

type_synonym ChainID = "16 word"

definition ChainIDUnset :: ChainID where "ChainIDUnset = 0"
definition ChainIDSolana :: ChainID where "ChainIDSolana = 1"
definition ChainIDPythNet :: ChainID where "ChainIDPythNet = 26"
definition ChainIDWormchain :: ChainID where "ChainIDWormchain = 3104"

definition chain_names :: "(ChainID \<times> string) list" where
  "chain_names = [
   (0, ''unset''), (1, ''solana''), (2, ''ethereum''), (3, ''terra''),
   (4, ''bsc''), (5, ''polygon''), (6, ''avalanche''), (7, ''oasis''),
   (8, ''algorand''), (9, ''aurora''), (10, ''fantom''), (11, ''karura''),
   (12, ''acala''), (13, ''klaytn''), (14, ''celo''), (15, ''near''),
   (16, ''moonbeam''), (18, ''terra2''), (19, ''injective''), (20, ''osmosis''),
   (21, ''sui''), (22, ''aptos''), (23, ''arbitrum''), (24, ''optimism''),
   (25, ''gnosis''), (26, ''pythnet''), (28, ''xpla''), (29, ''btc''),
   (30, ''base''), (31, ''filecoin''), (32, ''sei''), (33, ''rootstock''),
   (34, ''scroll''), (35, ''mantle''), (36, ''blast''), (37, ''xlayer''),
   (38, ''linea''), (39, ''berachain''), (40, ''seievm''), (41, ''eclipse''),
   (42, ''bob''), (43, ''snaxchain''), (44, ''unichain''), (45, ''worldchain''),
   (46, ''ink''), (47, ''hyperevm''), (48, ''monad''), (49, ''movement''),
   (50, ''mezo''), (51, ''fogo''), (52, ''sonic''), (53, ''converge''),
   (54, ''codex''), (55, ''plume''), (3104, ''wormchain''), (4000, ''cosmoshub''),
   (4001, ''evmos''), (4002, ''kujira''), (4003, ''neutron''), (4004, ''celestia''),
   (4005, ''stargaze''), (4006, ''seda''), (4007, ''dymension''), (4008, ''provenance''),
   (4009, ''noble''), (10002, ''sepolia''), (10003, ''arbitrum_sepolia''), (10004, ''base_sepolia''),
   (10005, ''optimism_sepolia''), (10006, ''holesky''), (10007, ''polygon_sepolia'')]"

definition ChainID_String :: "ChainID \<Rightarrow> string" where
  "ChainID_String c = (case map_of chain_names c of
     Some s \<Rightarrow> s
   | None \<Rightarrow> ''unknown chain ID: '' @ dec_string (unat c))"

definition names_chain :: "(string \<times> ChainID) list" where
  "names_chain = [
   (''solana'', 1), (''ethereum'', 2), (''terra'', 3), (''bsc'', 4),
   (''polygon'', 5), (''avalanche'', 6), (''oasis'', 7), (''algorand'', 8),
   (''aurora'', 9), (''fantom'', 10), (''karura'', 11), (''acala'', 12),
   (''klaytn'', 13), (''celo'', 14), (''near'', 15), (''moonbeam'', 16),
   (''terra2'', 18), (''injective'', 19), (''osmosis'', 20), (''sui'', 21),
   (''aptos'', 22), (''arbitrum'', 23), (''optimism'', 24), (''gnosis'', 25),
   (''pythnet'', 26), (''xpla'', 28), (''btc'', 29), (''base'', 30),
   (''filecoin'', 31), (''sei'', 32), (''rootstock'', 33), (''scroll'', 34),
   (''mantle'', 35), (''blast'', 36), (''xlayer'', 37), (''linea'', 38),
   (''berachain'', 39), (''seievm'', 40), (''eclipse'', 41), (''bob'', 42),
   (''snaxchain'', 43), (''unichain'', 44), (''worldchain'', 45), (''ink'', 46),
   (''hyperevm'', 47), (''monad'', 48), (''movement'', 49), (''mezo'', 50),
   (''fogo'', 51), (''sonic'', 52), (''converge'', 53), (''codex'', 54),
   (''plume'', 55), (''wormchain'', 3104), (''cosmoshub'', 4000), (''evmos'', 4001),
   (''kujira'', 4002), (''neutron'', 4003), (''celestia'', 4004), (''stargaze'', 4005),
   (''seda'', 4006), (''dymension'', 4007), (''provenance'', 4008), (''noble'', 4009),
   (''sepolia'', 10002), (''arbitrum_sepolia'', 10003), (''base_sepolia'', 10004), (''optimism_sepolia'', 10005),
   (''holesky'', 10006), (''polygon_sepolia'', 10007)]"

definition ChainIDFromString :: "string \<Rightarrow> go_error + ChainID" where
  "ChainIDFromString s = (case map_of names_chain (to_lower s) of
     Some c \<Rightarrow> Inr c
   | None \<Rightarrow> Inl (Errorf ''unknown chain ID''))"

definition GetAllNetworkIDs :: "ChainID list" where
  "GetAllNetworkIDs = [
   1, 2, 3, 4, 5, 6, 7, 8, 9, 10, 11, 12,
   13, 14, 15, 16, 18, 19, 20, 21, 22, 23, 24, 25,
   26, 28, 29, 30, 31, 32, 33, 34, 35, 36, 37, 38,
   39, 40, 41, 42, 43, 44, 45, 46, 47, 48, 49, 50,
   51, 52, 53, 54, 55, 3104, 4000, 4001, 4002, 4003, 4004, 4005,
   4006, 4007, 4008, 4009, 10002, 10003, 10004, 10005, 10006, 10007]"

text \<open>
  \<open>ChainIDFromNumber\<close> is generic over Go's integer types. The model takes the mathematical value of
  the argument: for an 8- or 16-bit type the source converts directly, and there the bound cannot
  fail, so the two branches agree.
\<close>

definition ChainIDFromNumber :: "int \<Rightarrow> go_error + ChainID" where
  "ChainIDFromNumber n =
     (if n < 0 then Inl (Errorf ''chainID cannot be negative'')
      else if n > 65535 then Inl (Errorf ''chainID must be less than or equal to 65535'')
      else Inr (word_of_int n))"

definition KnownChainIDFromNumber :: "int \<Rightarrow> go_error + ChainID" where
  "KnownChainIDFromNumber n = chk (ChainIDFromNumber n) (\<lambda>c.
     if c \<in> set GetAllNetworkIDs then Inr c else Inl (Errorf ''no known ChainID for input''))"

definition StringToKnownChainID :: "string \<Rightarrow> go_error + ChainID" where
  "StringToKnownChainID s = (case ChainIDFromString s of
     Inr c \<Rightarrow> Inr c
   | Inl _ \<Rightarrow> chk (parse_uint 16 s) (\<lambda>u16. KnownChainIDFromNumber (int u16)))"

section \<open>Agreement of the tables\<close>

lemma map_fst_chain_names: "map fst chain_names = ChainIDUnset # GetAllNetworkIDs"
  by (simp add: chain_names_def GetAllNetworkIDs_def ChainIDUnset_def)

lemma names_chain_swap: "names_chain = map (\<lambda>(c, s). (s, c)) (tl chain_names)"
  by (simp add: names_chain_def chain_names_def)

lemma distinct_networks: "distinct (map fst chain_names)"
  by (simp add: chain_names_def)

lemma distinct_names: "distinct (map snd chain_names)"
  by (simp add: chain_names_def)

lemma names_lower: "list_all (\<lambda>(c, s). to_lower s = s) chain_names"
  by code_simp

lemma names_first_letters: "list_all (\<lambda>(s, c). take 7 s \<noteq> ''unknown'') names_chain"
  by (simp add: names_chain_def)

lemma Unset_not_network: "ChainIDUnset \<notin> set GetAllNetworkIDs"
  by (simp add: GetAllNetworkIDs_def ChainIDUnset_def)

lemma set_names_chain: "(s, c) \<in> set names_chain \<longleftrightarrow> (c, s) \<in> set chain_names \<and> c \<noteq> ChainIDUnset"
proof -
  have cons: "chain_names = hd chain_names # tl chain_names" and h: "hd chain_names = (ChainIDUnset, ''unset'')"
    by (simp_all add: chain_names_def ChainIDUnset_def)
  have "map fst (tl chain_names) = GetAllNetworkIDs"
    using map_fst_chain_names by (metis list.sel(3) map_tl)
  then have "(ChainIDUnset, s) \<notin> set (tl chain_names)"
    using Unset_not_network by (metis fst_conv image_eqI list.set_map)
  then show ?thesis
    unfolding names_chain_swap using h by (subst cons) force
qed

lemma distinct_fst_names: "distinct (map fst names_chain)"
  unfolding names_chain_swap using distinct_names
  by (simp add: comp_def case_prod_beta map_tl distinct_tl)

lemma chain_name_lower: "(c, s) \<in> set chain_names \<Longrightarrow> to_lower s = s"
  using names_lower by (auto simp: list_all_iff)

lemma ChainIDFromString_eq:
  "ChainIDFromString s = Inr c \<longleftrightarrow> (c, to_lower s) \<in> set chain_names \<and> c \<noteq> ChainIDUnset"
proof -
  have "ChainIDFromString s = Inr c \<longleftrightarrow> map_of names_chain (to_lower s) = Some c"
    by (simp add: ChainIDFromString_def split: option.splits)
  then show ?thesis
    by (simp add: map_of_eq_Some_iff [OF distinct_fst_names] set_names_chain)
qed

lemma ChainIDFromString_network: "ChainIDFromString s = Inr c \<Longrightarrow> c \<in> set GetAllNetworkIDs"
proof -
  assume "ChainIDFromString s = Inr c"
  then have "(c, to_lower s) \<in> set chain_names" and "c \<noteq> ChainIDUnset"
    by (simp_all add: ChainIDFromString_eq)
  then have "c \<in> set (map fst chain_names)" by force
  with \<open>c \<noteq> ChainIDUnset\<close> show ?thesis
    by (simp add: map_fst_chain_names)
qed

lemma unknown_not_name: "ChainIDFromString (''unknown chain ID: '' @ t) = Inl (Errorf ''unknown chain ID'')"
proof -
  have "map_of names_chain (to_lower (''unknown chain ID: '' @ t)) = None"
  proof (rule ccontr)
    assume "map_of names_chain (to_lower (''unknown chain ID: '' @ t)) \<noteq> None"
    then obtain c where "(to_lower (''unknown chain ID: '' @ t), c) \<in> set names_chain"
      by (auto dest: map_of_SomeD)
    then have "take 7 (to_lower (''unknown chain ID: '' @ t)) \<noteq> ''unknown''"
      using names_first_letters by (auto simp: list_all_iff)
    moreover have "take 7 (to_lower (''unknown chain ID: '' @ t)) = ''unknown''"
      by (simp add: to_lower_def to_lower_char_def)
    ultimately show False by simp
  qed
  then show ?thesis by (simp add: ChainIDFromString_def)
qed

lemma chain_names_String:
  "(c, s) \<in> set chain_names \<Longrightarrow> ChainID_String c = s"
  by (simp add: ChainID_String_def map_of_eq_Some_iff [OF distinct_networks, THEN iffD2])

lemma String_of_network:
  assumes "c \<in> set GetAllNetworkIDs"
  shows "(c, ChainID_String c) \<in> set chain_names"
proof -
  from assms have "c \<in> fst ` set chain_names"
    unfolding set_map [symmetric] map_fst_chain_names by simp
  then obtain s where "(c, s) \<in> set chain_names" by auto
  with chain_names_String [OF this] show ?thesis by simp
qed

lemma chain_names_inj: "(c, s) \<in> set chain_names \<Longrightarrow> (d, s) \<in> set chain_names \<Longrightarrow> c = d"
proof -
  assume c: "(c, s) \<in> set chain_names" and d: "(d, s) \<in> set chain_names"
  have "inj_on snd (set chain_names)"
    using distinct_names unfolding distinct_map by blast
  from inj_onD [OF this _ c d] show ?thesis by simp
qed

lemma network_parses: "c \<in> set GetAllNetworkIDs \<Longrightarrow> ChainIDFromString (ChainID_String c) = Inr c"
  using String_of_network [of c] Unset_not_network by (metis ChainIDFromString_eq chain_name_lower)

text \<open>
  The name of a chain identifier parses back exactly when the identifier is registered: for every
  16-bit value (the unset chain and unregistered numbers included), ChainIDFromString on its String
  succeeds just for the members of GetAllNetworkIDs and then returns the identifier itself.
\<close>

lemma chain_name_roundtrip:
  "ChainIDFromString (ChainID_String c) = Inr d \<longleftrightarrow> c = d \<and> c \<in> set GetAllNetworkIDs"
proof
  assume parsed: "ChainIDFromString (ChainID_String c) = Inr d"
  have name: "(c, ChainID_String c) \<in> set chain_names"
  proof (cases "map_of chain_names c")
    case None
    then have "ChainID_String c = ''unknown chain ID: '' @ dec_string (unat c)"
      unfolding ChainID_String_def by (simp only: option.case)
    with parsed show ?thesis by (simp only: unknown_not_name) simp
  next
    case (Some s)
    then show ?thesis by (simp add: ChainID_String_def map_of_SomeD)
  qed
  from parsed name have "(d, ChainID_String c) \<in> set chain_names"
    by (simp add: ChainIDFromString_eq chain_name_lower)
  with name have "c = d" by (rule chain_names_inj)
  with ChainIDFromString_network [OF parsed] show "c = d \<and> c \<in> set GetAllNetworkIDs" by simp
next
  assume "c = d \<and> c \<in> set GetAllNetworkIDs"
  then show "ChainIDFromString (ChainID_String c) = Inr d"
    using network_parses by blast
qed

section \<open>Environments\<close>

text \<open>node/pkg/common/mode.go.\<close>

datatype Environment = MainNet | UnsafeDevNet | TestNet | GoTest | AccountantMock

definition ParseEnvironment :: "string \<Rightarrow> Environment \<times> go_error option" where
  "ParseEnvironment str =
     (let str = to_lower str in
      if str = ''prod'' \<or> str = ''mainnet'' then (MainNet, None)
      else if str = ''test'' \<or> str = ''testnet'' then (TestNet, None)
      else if str = ''dev'' \<or> str = ''devnet'' \<or> str = ''unsafedevnet'' then (UnsafeDevNet, None)
      else if str = ''unit-test'' \<or> str = ''gotest'' then (GoTest, None)
      else if str = ''accountant-mock'' \<or> str = ''accountantmock'' then (AccountantMock, None)
      else (UnsafeDevNet, Some (Errorf ''invalid environment string'')))"

end
