(* ===== verification/Vaa.thy ===== *)
theory Vaa imports ChainIds begin

text \<open>
  Verifiable action approvals: sdk/vaa/structs.go and sdk/vaa/quorum.go. The VAA record, its binary
  encoding and decoding, the signing digest, signature and quorum checks, and the header of a token
  bridge transfer payload.

  The hash and the signature scheme (go-ethereum's crypto package, a private key being opaque bytes) and go-ethereum's address
  conversions are not part of the repository: they are the fields of the record crypto, an argument of
  every definition that uses them.
\<close>

record crypto =
  Keccak256 :: "byte list \<Rightarrow> byte list"
  Ecrecover :: "byte list \<Rightarrow> byte list \<Rightarrow> go_error + byte list"
  Sign :: "byte list \<Rightarrow> byte list \<Rightarrow> go_error + byte list"
  BytesToEthAddress :: "byte list \<Rightarrow> byte list"

type_synonym Address = "byte list"
type_synonym eth_address = "byte list"

record Signature =
  sig_Index :: byte
  sig_Data :: "byte list"

record VAA =
  vaa_Version :: byte
  vaa_GuardianSetIndex :: "32 word"
  vaa_Signatures :: "Signature list"
  vaa_Timestamp :: time
  vaa_Nonce :: "32 word"
  vaa_Sequence :: "64 word"
  vaa_ConsistencyLevel :: byte
  vaa_EmitterChain :: ChainID
  vaa_EmitterAddress :: Address
  vaa_Payload :: "byte list"

definition SupportedVAAVersion :: byte where "SupportedVAAVersion = 1"
definition minVAALength :: nat where "minVAALength = 57"

section \<open>Encoding\<close>

definition put_signature :: "Signature \<Rightarrow> byte list" where
  "put_signature s = put (sig_Index s) @ sig_Data s"

definition serializeBody :: "VAA \<Rightarrow> byte list" where
  "serializeBody v =
     put (word_of_int (unix_secs (vaa_Timestamp v)) :: 32 word) @ put (vaa_Nonce v) @
     put (vaa_EmitterChain v) @ vaa_EmitterAddress v @ put (vaa_Sequence v) @
     put (vaa_ConsistencyLevel v) @ vaa_Payload v"

definition VAA_Marshal :: "VAA \<Rightarrow> go_error + byte list" where
  "VAA_Marshal v = Inr (
     put (vaa_Version v) @ put (vaa_GuardianSetIndex v) @
     put (word_of_nat (length (vaa_Signatures v)) :: 8 word) @
     concat (map put_signature (vaa_Signatures v)) @ serializeBody v)"

section \<open>Decoding\<close>

text \<open>The zero value that \<open>v := &VAA{}\<close> starts from.\<close>

definition empty_VAA :: VAA where
  "empty_VAA = \<lparr>vaa_Version = 0, vaa_GuardianSetIndex = 0, vaa_Signatures = [],
     vaa_Timestamp = 0, vaa_Nonce = 0, vaa_Sequence = 0, vaa_ConsistencyLevel = 0,
     vaa_EmitterChain = 0, vaa_EmitterAddress = replicate 32 0, vaa_Payload = []\<rparr>"

definition UnmarshalBody :: "reader \<Rightarrow> VAA \<Rightarrow> go_error + VAA" where
  "UnmarshalBody r v =
     chk (wrap ''failed to read timestamp'' (binary_read r)) (\<lambda>(unixSeconds :: 32 word, r).
     chk (wrap ''failed to read nonce'' (binary_read r)) (\<lambda>(nonce, r).
     chk (wrap ''failed to read emitter chain'' (binary_read r)) (\<lambda>(emitterChain, r).
     chk (read_buf ''failed to read emitter address'' 32 r) (\<lambda>(emitterAddress, r).
     chk (wrap ''failed to read sequence'' (binary_read r)) (\<lambda>(sequence, r).
     chk (wrap ''failed to read commitment'' (binary_read r)) (\<lambda>(level, r).
     chk (if r \<noteq> []
          then (case reader_read (length r) r of (payload, err, r) \<Rightarrow>
                 (case err of Some e \<Rightarrow> Inl (Wrap ''failed to read payload'' (Some e))
                  | None \<Rightarrow> Inr payload))
          else Inr []) (\<lambda>payload.
     Inr (v\<lparr>vaa_Timestamp := time_unix (uint unixSeconds), vaa_Nonce := nonce,
            vaa_EmitterChain := emitterChain, vaa_EmitterAddress := emitterAddress,
            vaa_Sequence := sequence, vaa_ConsistencyLevel := level,
            vaa_Payload := payload\<rparr>))))))))"

definition read_signature :: "reader \<Rightarrow> go_error + Signature \<times> reader" where
  "read_signature r =
     chk (or_err (Errorf ''failed to read validator index'') (read_byte r)) (\<lambda>(index, r).
     chk (read_buf ''failed to read signature'' 65 r) (\<lambda>(signature, r).
     Inr (\<lparr>sig_Index = index, sig_Data = signature\<rparr>, r)))"

definition VAA_Unmarshal :: "byte list \<Rightarrow> go_error + VAA" where
  "VAA_Unmarshal data =
     (if length data < minVAALength then Inl (Errorf ''VAA is too short'')
      else if data ! 0 \<noteq> SupportedVAAVersion then Inl (Errorf ''unsupported VAA version'')
      else
        chk (wrap ''failed to read guardian set index'' (binary_read (drop 1 data))) (\<lambda>(gsi, r).
        chk (or_err (Errorf ''failed to read signature length'') (read_byte r)) (\<lambda>(lenSignatures, r).
        chk (read_times (unat lenSignatures) read_signature r) (\<lambda>(sigs, r).
        UnmarshalBody r (empty_VAA\<lparr>vaa_Version := data ! 0, vaa_GuardianSetIndex := gsi,
          vaa_Signatures := sigs\<rparr>)))))"

text \<open>
  The Go types fix what a VAA value can hold: arrays have their length and the wire format has one
  byte for the number of signatures and four for the seconds of the timestamp.
\<close>

definition wf_Signature :: "Signature \<Rightarrow> bool" where
  "wf_Signature s \<longleftrightarrow> length (sig_Data s) = 65"

definition wf_VAA :: "VAA \<Rightarrow> bool" where
  "wf_VAA v \<longleftrightarrow> vaa_Version v = SupportedVAAVersion \<and> length (vaa_Signatures v) \<le> 255 \<and>
     list_all wf_Signature (vaa_Signatures v) \<and> secs_time (vaa_Timestamp v) \<and>
     length (vaa_EmitterAddress v) = 32"

section \<open>The encoding is a bijection\<close>

interpretation signature: canonical_codec put_signature read_signature wf_Signature
proof
  fix s :: Signature and r
  assume "wf_Signature s"
  then show "read_signature (put_signature s @ r) = Inr (s, r)"
    by (simp add: read_signature_def put_signature_def wf_Signature_def codec_simps)
next
  fix b and s :: Signature and r
  assume "read_signature b = Inr (s, r)"
  then show "b = put_signature s @ r" and "wf_Signature s"
    by (auto simp: read_signature_def put_signature_def wf_Signature_def chk_eq_Inr
        read_byte_eq_Inr read_buf_eq_Inr)
qed

lemma UnmarshalBody_serializeBody:
  "secs_time (vaa_Timestamp v) \<Longrightarrow> length (vaa_EmitterAddress v) = 32 \<Longrightarrow>
   UnmarshalBody (serializeBody v) w = Inr (w\<lparr>vaa_Timestamp := vaa_Timestamp v,
     vaa_Nonce := vaa_Nonce v, vaa_EmitterChain := vaa_EmitterChain v,
     vaa_EmitterAddress := vaa_EmitterAddress v, vaa_Sequence := vaa_Sequence v,
     vaa_ConsistencyLevel := vaa_ConsistencyLevel v, vaa_Payload := vaa_Payload v\<rparr>)"
  by (simp add: UnmarshalBody_def serializeBody_def codec_simps reader_read_def
      binary_read_sizes(1) [of "vaa_ConsistencyLevel v", simplified] del: put_byte)

lemma UnmarshalBody_inv:
  assumes "UnmarshalBody b w = Inr v"
  shows "b = serializeBody v \<and> secs_time (vaa_Timestamp v) \<and> length (vaa_EmitterAddress v) = 32 \<and>
    vaa_Version v = vaa_Version w \<and> vaa_GuardianSetIndex v = vaa_GuardianSetIndex w \<and>
    vaa_Signatures v = vaa_Signatures w"
  using assms
  by (auto simp: UnmarshalBody_def serializeBody_def chk_eq_Inr binary_read_inv read_buf_eq_Inr
      reader_read_def secs_time_of_word split: if_splits)

lemma length_serializeBody: "length (vaa_EmitterAddress v) = 32 \<Longrightarrow> 51 \<le> length (serializeBody v)"
  by (simp add: serializeBody_def)


lemma VAA_Unmarshal_Marshal:
  assumes "wf_VAA v" and "VAA_Marshal v = Inr d"
  shows "VAA_Unmarshal d = Inr v"
proof -
  let ?sigs = "vaa_Signatures v"
  let ?hd = "put (vaa_GuardianSetIndex v) @ put (word_of_nat (length ?sigs) :: 8 word) @
    concat (map put_signature ?sigs) @ serializeBody v"
  have wf: "list_all wf_Signature ?sigs" "length ?sigs \<le> 255" "vaa_Version v = 1"
      "secs_time (vaa_Timestamp v)" "length (vaa_EmitterAddress v) = 32"
    using assms(1) by (simp_all add: wf_VAA_def SupportedVAAVersion_def)
  have d: "d = vaa_Version v # ?hd"
    using assms(2) by (simp add: VAA_Marshal_def)
  have len: "57 \<le> length d"
    using length_serializeBody [OF wf(5)] by (simp add: d)
  have "read_times (length ?sigs) read_signature (concat (map put_signature ?sigs) @ serializeBody v)
      = Inr (?sigs, serializeBody v)"
    using wf(1) by (intro signature.dec_times) (simp add: list_all_iff)
  then show ?thesis
    using len wf unfolding VAA_Unmarshal_def
    by (simp add: d minVAALength_def SupportedVAAVersion_def codec_simps UnmarshalBody_serializeBody
        empty_VAA_def)
qed

lemma VAA_Unmarshal_inv:
  assumes "VAA_Unmarshal d = Inr v"
  shows "wf_VAA v \<and> VAA_Marshal v = Inr d"
proof -
  from assms obtain gsi r1 k r2 sigs r3 where
    d: "57 \<le> length d" "d ! 0 = 1"
    and gsi: "drop 1 d = put (gsi :: 32 word) @ r1" and k: "r1 = k # r2"
    and sigs: "read_times (unat k) read_signature r2 = Inr (sigs, r3)"
    and body: "UnmarshalBody r3 (empty_VAA\<lparr>vaa_Version := 1, vaa_GuardianSetIndex := gsi,
          vaa_Signatures := sigs\<rparr>) = Inr v"
    by (auto simp: VAA_Unmarshal_def minVAALength_def SupportedVAAVersion_def chk_eq_Inr
        binary_read_inv read_byte_eq_Inr split: if_splits)
  have times: "length sigs = unat k" "\<forall>s \<in> set sigs. wf_Signature s"
      "r2 = concat (map put_signature sigs) @ r3"
    using signature.times_dec [OF sigs] by auto
  note b = UnmarshalBody_inv [OF body]
  have "unat k < 256"
    using unsigned_less [of k] by simp
  moreover have "d = 1 # drop 1 d"
    using d by (cases d) auto
  moreover have "word_of_nat (unat k) = k"
    by simp
  ultimately show ?thesis
    using b times gsi k by (auto simp: wf_VAA_def VAA_Marshal_def SupportedVAAVersion_def
        list_all_iff empty_VAA_def)
qed

text \<open>
  C14. Decoding inverts encoding in both directions: a byte string decodes to v exactly when v is a
  well-formed version 1 VAA and the string is its encoding. In particular no two strings decode to
  the same VAA and every accepted string is reproduced byte for byte.
\<close>

theorem VAA_Unmarshal_iff: "VAA_Unmarshal d = Inr v \<longleftrightarrow> wf_VAA v \<and> VAA_Marshal v = Inr d"
  using VAA_Unmarshal_Marshal VAA_Unmarshal_inv by blast

section \<open>Digests and signatures\<close>

definition doubleKeccak :: "crypto \<Rightarrow> byte list \<Rightarrow> byte list" where
  "doubleKeccak c bz = Keccak256 c (Keccak256 c bz)"

definition MessageSigningDigest :: "crypto \<Rightarrow> byte list \<Rightarrow> byte list \<Rightarrow> go_error + byte list" where
  "MessageSigningDigest c prefix data =
     (if length prefix < 32 then Inl (Errorf ''prefix must be at least 32 bytes'')
      else Inr (Keccak256 c (prefix @ data)))"

definition SigningDigest :: "crypto \<Rightarrow> VAA \<Rightarrow> byte list" where
  "SigningDigest c v = doubleKeccak c (serializeBody v)"

definition verifySignature :: "crypto \<Rightarrow> byte list \<Rightarrow> Signature \<Rightarrow> eth_address \<Rightarrow> bool" where
  "verifySignature c digest s address =
     (case Ecrecover c digest (sig_Data s) of
        Inl _ \<Rightarrow> False
      | Inr pubKey \<Rightarrow>
          BytesToEthAddress c (drop 12 (Keccak256 c (drop 1 pubKey))) = address)"

text \<open>The loop of verifySignatures: the state is last_index and signing_addresses.\<close>

fun verify_loop :: "crypto \<Rightarrow> byte list \<Rightarrow> eth_address list \<Rightarrow> int \<Rightarrow> eth_address list \<Rightarrow> Signature list \<Rightarrow> bool" where
  "verify_loop c digest addresses last_index seen [] = True"
| "verify_loop c digest addresses last_index seen (s # sigs) =
     (if length addresses \<le> unat (sig_Index s) then False
      else if uint (sig_Index s) \<le> last_index then False
      else
        let addr = addresses ! unat (sig_Index s) in
        if \<not> verifySignature c digest s addr then False
        else if addr \<in> set seen then False
        else verify_loop c digest addresses (uint (sig_Index s)) (seen @ [addr]) sigs)"

definition verifySignatures :: "crypto \<Rightarrow> byte list \<Rightarrow> Signature list \<Rightarrow> eth_address list \<Rightarrow> bool" where
  "verifySignatures c digest sigs addresses =
     (if length sigs = 0 \<or> length addresses = 0 then False
      else if length addresses < length sigs then False
      else verify_loop c digest addresses (- 1) [] sigs)"

definition DeprecatedVerifySignatures :: "crypto \<Rightarrow> byte list \<Rightarrow> Signature list \<Rightarrow> eth_address list \<Rightarrow> bool" where
  "DeprecatedVerifySignatures c body sigs addresses =
     verifySignatures c (doubleKeccak c body) sigs addresses"

definition VerifyMessageSignature :: "crypto \<Rightarrow> byte list \<Rightarrow> byte list \<Rightarrow> Signature \<Rightarrow> eth_address \<Rightarrow> bool" where
  "VerifyMessageSignature c prefix body s address =
     (if length prefix < 32 then False
      else case MessageSigningDigest c prefix body of
             Inl _ \<Rightarrow> False
           | Inr digest \<Rightarrow> verifySignature c digest s address)"

definition VAA_VerifySignatures :: "crypto \<Rightarrow> VAA \<Rightarrow> eth_address list \<Rightarrow> bool" where
  "VAA_VerifySignatures c v addresses =
     verifySignatures c (SigningDigest c v) (vaa_Signatures v) addresses"

definition CalculateQuorum :: "int \<Rightarrow> go_error + int" where
  "CalculateQuorum numGuardians =
     (if numGuardians < 0 then Inl (Panic ''Invalid numGuardians is less than zero'')
      else Inr (numGuardians * 2 div 3 + 1))"

text \<open>A nil slice of addresses is None.\<close>

definition VAA_Verify :: "crypto \<Rightarrow> VAA \<Rightarrow> eth_address list option \<Rightarrow> go_error + unit" where
  "VAA_Verify c v addresses =
     (case addresses of
        None \<Rightarrow> Inl (Errorf ''no addresses were provided'')
      | Some addrs \<Rightarrow>
          chk (guard_err (length (vaa_Signatures v) = 0) (Errorf ''VAA was not signed'')) (\<lambda>_.
          chk (CalculateQuorum (int (length addrs))) (\<lambda>quorum.
          chk (guard_err (int (length (vaa_Signatures v)) < quorum) (Errorf ''VAA did not have a quorum'')) (\<lambda>_.
          guard_err (\<not> VAA_VerifySignatures c v addrs) (Errorf ''VAA had bad signatures'')))))"

definition AddSignature :: "crypto \<Rightarrow> byte list \<Rightarrow> byte \<Rightarrow> VAA \<Rightarrow> go_error + VAA" where
  "AddSignature c key index v =
     (case Sign c (SigningDigest c v) key of
        Inl _ \<Rightarrow> Inl (Panic ''sign'')
      | Inr s \<Rightarrow> Inr (v\<lparr>vaa_Signatures := vaa_Signatures v @
          [\<lparr>sig_Index = index, sig_Data = take 65 s @ replicate (65 - length s) 0\<rparr>]\<rparr>))"

definition signer_at :: "eth_address list \<Rightarrow> Signature \<Rightarrow> eth_address" where
  "signer_at addresses s = addresses ! unat (sig_Index s)"

lemma verify_loop_iff:
  "verify_loop c d addrs last_index seen sigs \<longleftrightarrow>
     list_all (\<lambda>s. last_index < uint (sig_Index s) \<and> unat (sig_Index s) < length addrs \<and>
       verifySignature c d s (signer_at addrs s) \<and> signer_at addrs s \<notin> set seen) sigs \<and>
     sorted_wrt (<) (map sig_Index sigs) \<and> distinct (map (signer_at addrs) sigs)"
proof (induction sigs arbitrary: last_index seen)
  case Nil
  then show ?case by simp
next
  case (Cons s sigs)
  show ?case
    by (auto simp: Cons.IH list_all_iff Let_def signer_at_def word_less_def image_iff)
qed

lemma verifySignatures_iff:
  "verifySignatures c d sigs addrs \<longleftrightarrow>
     sigs \<noteq> [] \<and> length sigs \<le> length addrs \<and> sorted_wrt (<) (map sig_Index sigs) \<and>
     list_all (\<lambda>s. unat (sig_Index s) < length addrs \<and> verifySignature c d s (signer_at addrs s)) sigs \<and>
     distinct (map (signer_at addrs) sigs)"
  by (auto simp: verifySignatures_def verify_loop_iff list_all_iff intro: less_le_trans [OF _ uint_ge_0])

lemma VAA_Verify_char:
  "VAA_Verify c v (Some addrs) = Inr () \<longleftrightarrow>
     int (length addrs) * 2 div 3 + 1 \<le> int (length (vaa_Signatures v)) \<and>
     verifySignatures c (SigningDigest c v) (vaa_Signatures v) addrs"
  by (auto simp: VAA_Verify_def chk_eq_Inr CalculateQuorum_def VAA_VerifySignatures_def
      verifySignatures_def not_less)

text \<open>
  C13. Verify accepts exactly the VAAs that carry a quorum of more than two thirds of the guardian
  set, at most one signature per guardian, in strictly increasing order of guardian index, each
  index inside the set, each signature recovering the guardian's address from the digest of the
  body, and no address signing twice. A nil guardian set is never accepted.
\<close>

theorem VAA_Verify_iff:
  "VAA_Verify c v addresses = Inr () \<longleftrightarrow>
     (case addresses of None \<Rightarrow> False | Some addrs \<Rightarrow>
       2 * length addrs < 3 * length (vaa_Signatures v) \<and> length (vaa_Signatures v) \<le> length addrs \<and>
       sorted_wrt (<) (map sig_Index (vaa_Signatures v)) \<and>
       list_all (\<lambda>s. unat (sig_Index s) < length addrs \<and>
         verifySignature c (SigningDigest c v) s (signer_at addrs s)) (vaa_Signatures v) \<and>
       distinct (map (signer_at addrs) (vaa_Signatures v)))"
proof (cases addresses)
  case None
  then show ?thesis by (simp add: VAA_Verify_def)
next
  case (Some addrs)
  have "int (length addrs) * 2 div 3 + 1 \<le> int (length (vaa_Signatures v)) \<longleftrightarrow>
      2 * length addrs < 3 * length (vaa_Signatures v)"
    by linarith
  with Some show ?thesis
    by (auto simp: VAA_Verify_char verifySignatures_iff)
qed

definition signers :: "crypto \<Rightarrow> VAA \<Rightarrow> eth_address list \<Rightarrow> eth_address set" where
  "signers c v addrs = {a \<in> set addrs. \<exists>s \<in> set (vaa_Signatures v). verifySignature c (SigningDigest c v) s a}"

lemma VAA_Verify_signers:
  assumes "VAA_Verify c v (Some addrs) = Inr ()"
  shows "2 * length addrs < 3 * card (signers c v addrs)"
proof -
  let ?S = "signer_at addrs ` set (vaa_Signatures v)"
  have q: "int (length addrs) * 2 div 3 + 1 \<le> int (length (vaa_Signatures v))"
    and d: "distinct (map (signer_at addrs) (vaa_Signatures v))"
    and a: "\<forall>s \<in> set (vaa_Signatures v). unat (sig_Index s) < length addrs \<and>
         verifySignature c (SigningDigest c v) s (signer_at addrs s)"
    using assms by (auto simp: VAA_Verify_char verifySignatures_iff list_all_iff)
  have "?S \<subseteq> signers c v addrs"
    using a by (auto simp: signers_def signer_at_def)
  then have "card ?S \<le> card (signers c v addrs)"
    by (rule card_mono [rotated]) (simp add: signers_def)
  moreover have "card ?S = length (vaa_Signatures v)"
    using distinct_card [OF d] by simp
  ultimately show ?thesis
    using q by linarith
qed

text \<open>
  C31. Quorum intersection: two VAAs that the same guardian set accepts were both signed by more than
  a third of that set, so two conflicting VAAs need a third of the guardians to sign both.
\<close>

theorem quorum_intersection:
  assumes "VAA_Verify c v (Some addrs) = Inr ()" and "VAA_Verify c w (Some addrs) = Inr ()"
  shows "length addrs < 3 * card (signers c v addrs \<inter> signers c w addrs)"
proof -
  let ?A = "signers c v addrs" and ?B = "signers c w addrs"
  have "card (?A \<union> ?B) \<le> card (set addrs)"
    by (rule card_mono) (auto simp: signers_def)
  also have "\<dots> \<le> length addrs"
    by (rule card_length)
  finally have "card (?A \<union> ?B) \<le> length addrs" .
  moreover have "finite ?A" "finite ?B"
    by (simp_all add: signers_def)
  then have "card ?A + card ?B = card (?A \<union> ?B) + card (?A \<inter> ?B)"
    by (rule card_Un_Int)
  ultimately show ?thesis
    using VAA_Verify_signers [OF assms(1)] VAA_Verify_signers [OF assms(2)] by linarith
qed

text \<open>A toy signature scheme for the witnesses: a signature is the address of its signer.\<close>

definition toy_crypto :: crypto where
  "toy_crypto = \<lparr>Keccak256 = (\<lambda>bs. replicate 12 0 @ take 20 (bs @ replicate 20 0)),
     Ecrecover = (\<lambda>_ s. Inr (4 # take 20 s)), Sign = (\<lambda>_ key. Inr (take 65 (key @ replicate 65 0))),
     BytesToEthAddress = (\<lambda>bs. bs)\<rparr>"

definition toy_guardian :: "byte \<Rightarrow> eth_address" where
  "toy_guardian k = k # replicate 19 0"

definition toy_vaa :: "byte list \<Rightarrow> byte list \<Rightarrow> VAA" where
  "toy_vaa payload signing = empty_VAA\<lparr>vaa_Version := 1, vaa_Payload := payload,
     vaa_Signatures := map (\<lambda>k. \<lparr>sig_Index = k, sig_Data = k # replicate 64 0\<rparr>) signing\<rparr>"

theorem quorum_intersection_witness:
  "length (map toy_guardian [0, 1, 2, 3]) <
     3 * card (signers toy_crypto (toy_vaa [1] [0, 1, 2]) (map toy_guardian [0, 1, 2, 3]) \<inter>
               signers toy_crypto (toy_vaa [2] [1, 2, 3]) (map toy_guardian [0, 1, 2, 3]))"
  by (rule quorum_intersection; code_simp)

section \<open>Identifiers\<close>

text \<open>The textual form of a message identifier: emitter chain, emitter address and sequence.\<close>

definition Address_String :: "Address \<Rightarrow> string" where
  "Address_String a = hex_encode a"

definition MessageID :: "VAA \<Rightarrow> string" where
  "MessageID v = dec_string (unat (vaa_EmitterChain v)) @ CHR ''/'' #
     Address_String (vaa_EmitterAddress v) @ CHR ''/'' # dec_string (unat (vaa_Sequence v))"

definition UniqueID :: "VAA \<Rightarrow> string" where
  "UniqueID v = MessageID v"

definition HexDigest :: "crypto \<Rightarrow> VAA \<Rightarrow> string" where
  "HexDigest c v = hex_encode (SigningDigest c v)"

definition BytesToAddress :: "byte list \<Rightarrow> go_error + Address" where
  "BytesToAddress b = (if 32 < length b then Inl (Errorf ''value must be no more than 32 bytes'')
     else Inr (replicate (32 - length b) 0 @ b))"

definition trim_0x :: "string \<Rightarrow> string" where
  "trim_0x s = (if take 2 s = ''0x'' then drop 2 s else s)"

definition StringToAddress :: "string \<Rightarrow> go_error + Address" where
  "StringToAddress value =
     (if length value < 2 then Inl (Errorf ''value must be at least 1 byte'')
      else chk (hex_decode (trim_0x value)) (\<lambda>res.
        if 32 < length res then Inl (Errorf ''value must be no more than 32 bytes'')
        else Inr (replicate (32 - length res) 0 @ res)))"

text \<open>\<open>common.BytesToHash\<close> keeps the last 32 bytes and pads on the left.\<close>

definition eth_BytesToHash :: "byte list \<Rightarrow> byte list" where
  "eth_BytesToHash b = replicate (32 - length b) 0 @ drop (length b - 32) b"

definition StringToHash :: "string \<Rightarrow> go_error + byte list" where
  "StringToHash value =
     (if length value < 2 then Inl (Errorf ''value must be at least 1 byte'')
      else chk (hex_decode (trim_0x value)) (\<lambda>res. Inr (eth_BytesToHash res)))"

definition BytesToHash :: "byte list \<Rightarrow> go_error + byte list" where
  "BytesToHash b = (if 32 < length b then Inl (Errorf ''value must be no more than 32 bytes'')
     else Inr (eth_BytesToHash b))"

lemma char_digit_slash [simp]: "char_digit CHR ''/'' = None"
  by (simp add: char_digit_def)

lemma char_hex_slash [simp]: "char_hex CHR ''/'' = None"
  by (simp add: char_hex_def)

lemma no_slash: "CHR ''/'' \<notin> set (dec_string n)" "CHR ''/'' \<notin> set (hex_encode bs)"
  using dec_string_chars hex_encode_chars char_digit_slash char_hex_slash by blast+

lemma split_message_id:
  "split_on CHR ''/'' (dec_string n @ CHR ''/'' # hex_encode a @ CHR ''/'' # dec_string m)
     = [dec_string n, hex_encode a, dec_string m]"
  by (simp add: split_on_append split_on_no_sep no_slash)

text \<open>
  The message identifier determines the emitter chain, the emitter address and the sequence:
  two VAAs have the same identifier exactly when they agree on the three.
\<close>

lemma MessageID_iff:
  "MessageID v = MessageID w \<longleftrightarrow> vaa_EmitterChain v = vaa_EmitterChain w \<and>
     vaa_EmitterAddress v = vaa_EmitterAddress w \<and> vaa_Sequence v = vaa_Sequence w"
proof
  assume eq: "MessageID v = MessageID w"
  have "split_on CHR ''/'' (MessageID v) = split_on CHR ''/'' (MessageID w)"
    by (simp only: eq)
  then show "vaa_EmitterChain v = vaa_EmitterChain w \<and>
     vaa_EmitterAddress v = vaa_EmitterAddress w \<and> vaa_Sequence v = vaa_Sequence w"
    by (simp add: MessageID_def Address_String_def split_message_id dec_string_inj hex_encode_inj unat_cancel)
qed (simp add: MessageID_def)

lemma trim_0x_hex_encode [simp]: "trim_0x (hex_encode bs) = hex_encode bs"
proof -
  have "CHR ''x'' \<notin> set (hex_encode bs)"
    using hex_encode_chars [of "CHR ''x''" bs] by (auto simp: char_hex_def)
  moreover have "take 2 (hex_encode bs) = ''0x'' \<Longrightarrow> CHR ''x'' \<in> set (take 2 (hex_encode bs))"
    by simp
  ultimately have "take 2 (hex_encode bs) \<noteq> ''0x''"
    by (metis in_set_takeD)
  then show ?thesis
    by (simp add: trim_0x_def)
qed

lemma StringToAddress_String: "length a = 32 \<Longrightarrow> StringToAddress (Address_String a) = Inr a"
  by (simp add: StringToAddress_def Address_String_def hex_decode_encode)

lemma StringToAddress_length: "StringToAddress s = Inr a \<Longrightarrow> length a = 32"
  by (auto simp: StringToAddress_def chk_eq_Inr split: if_splits)

section \<open>Token bridge transfers\<close>

record TransferPayloadHdr =
  tph_Type :: byte
  tph_Amount :: nat
  tph_OriginAddress :: Address
  tph_OriginChain :: ChainID
  tph_TargetAddress :: Address
  tph_TargetChain :: ChainID

definition IsTransfer :: "byte list \<Rightarrow> bool" where
  "IsTransfer payload \<longleftrightarrow> 0 < length payload \<and> (payload ! 0 = 1 \<or> payload ! 0 = 3)"

definition DecodeTransferPayloadHdr :: "byte list \<Rightarrow> go_error + TransferPayloadHdr" where
  "DecodeTransferPayloadHdr payload =
     (if \<not> IsTransfer payload then Inl (Errorf ''unsupported payload type'')
      else if length payload < 101 then Inl (Errorf ''buffer too short'')
      else
        chk (read_full 32 (drop 33 payload)) (\<lambda>(originAddress, r).
        chk (binary_read r) (\<lambda>(originChain, r).
        chk (read_full 32 r) (\<lambda>(targetAddress, r).
        chk (binary_read r) (\<lambda>(targetChain, r).
        Inr \<lparr>tph_Type = payload ! 0, tph_Amount = nat_of_be (take 32 (drop 1 payload)),
             tph_OriginAddress = originAddress, tph_OriginChain = originChain,
             tph_TargetAddress = targetAddress, tph_TargetChain = targetChain\<rparr>)))))"

definition put_transfer_hdr :: "TransferPayloadHdr \<Rightarrow> byte list" where
  "put_transfer_hdr h = tph_Type h # be_nat 32 (tph_Amount h) @ tph_OriginAddress h @
     put (tph_OriginChain h) @ tph_TargetAddress h @ put (tph_TargetChain h)"

definition wf_transfer_hdr :: "TransferPayloadHdr \<Rightarrow> bool" where
  "wf_transfer_hdr h \<longleftrightarrow> tph_Type h \<in> {1, 3} \<and> tph_Amount h < 2 ^ 256 \<and>
     length (tph_OriginAddress h) = 32 \<and> length (tph_TargetAddress h) = 32"

lemma length_put_transfer_hdr [simp]: "wf_transfer_hdr h \<Longrightarrow> length (put_transfer_hdr h) = 101"
  by (simp add: put_transfer_hdr_def wf_transfer_hdr_def)

lemma nat_of_be_32: "n < 2 ^ 256 \<Longrightarrow> nat_of_be (be_nat 32 n) = n"
  by (simp add: nat_of_be_nat)

lemma DecodeTransferPayloadHdr_put:
  "wf_transfer_hdr h \<Longrightarrow> DecodeTransferPayloadHdr (put_transfer_hdr h @ rest) = Inr h"
  by (auto simp: DecodeTransferPayloadHdr_def put_transfer_hdr_def wf_transfer_hdr_def IsTransfer_def
      codec_simps nat_of_be_32)

lemma DecodeTransferPayloadHdr_inv:
  assumes "DecodeTransferPayloadHdr p = Inr h"
  shows "wf_transfer_hdr h \<and> (\<exists>rest. p = put_transfer_hdr h @ rest)"
proof -
  let ?amt = "take 32 (drop 1 p)"
  from assms obtain rest where p: "p ! 0 \<in> {1, 3}" "101 \<le> length p"
    and r: "drop 33 p = tph_OriginAddress h @ put (tph_OriginChain h) @ tph_TargetAddress h @
        put (tph_TargetChain h) @ rest"
    and h: "tph_Type h = p ! 0" "tph_Amount h = nat_of_be ?amt"
    and l: "length (tph_OriginAddress h) = 32" "length (tph_TargetAddress h) = 32"
    by (auto simp: DecodeTransferPayloadHdr_def IsTransfer_def chk_eq_Inr read_full_eq_Inr
        binary_read_inv split: if_splits)
  have len: "length ?amt = 32"
    using p by simp
  have "tph_Amount h < 2 ^ 256"
    using nat_of_be_less [of ?amt] unfolding h len by simp
  moreover have "be_nat 32 (tph_Amount h) = ?amt"
    using be_nat_of_be [of ?amt] unfolding h len .
  moreover have "p = p ! 0 # ?amt @ drop 33 p"
    using p append_take_drop_id [of 32 "drop 1 p"] by (cases p) (simp_all add: eval_nat_numeral)
  ultimately show ?thesis
    using r h l p by (auto simp: wf_transfer_hdr_def put_transfer_hdr_def)
qed

text \<open>
  The header of a token bridge transfer is decoded from exactly the payloads that start with
  its 101 byte encoding: type 1 or 3, a 32 byte big-endian amount, the origin address and chain,
  the target address and chain. Anything may follow.
\<close>

lemma DecodeTransferPayloadHdr_iff:
  "DecodeTransferPayloadHdr p = Inr h \<longleftrightarrow> wf_transfer_hdr h \<and> (\<exists>rest. p = put_transfer_hdr h @ rest)"
  using DecodeTransferPayloadHdr_put DecodeTransferPayloadHdr_inv by blast

end
