(* ===== verification/Payloads.thy ===== *)
theory Payloads imports Vaa begin

text \<open>
  Governance messages: sdk/vaa/payloads.go. One record per body, its Serialize and, where the
  source has one, its Deserialize. A Go string that is written to a payload is a byte list, a
  uint256.Int is a 256 bit word whose Bytes32 is its 32 byte big-endian form; the pointers to
  uint256.Int are never nil. A GovernanceAction is a byte.
\<close>

type_synonym GovernanceAction = byte

definition CoreModule :: "byte list" where "CoreModule = replicate 28 0 @ bytes_of ''Core''"
definition WasmdModule :: "byte list" where "WasmdModule = replicate 21 0 @ bytes_of ''WasmdModule''"
definition GatewayModule :: "byte list" where "GatewayModule = replicate 19 0 @ bytes_of ''GatewayModule''"
definition CircleIntegrationModule :: "byte list" where
  "CircleIntegrationModule = replicate 15 0 @ bytes_of ''CircleIntegration''"
definition IbcReceiverModule :: "byte list" where "IbcReceiverModule = replicate 21 0 @ bytes_of ''IbcReceiver''"
definition IbcTranslatorModule :: "byte list" where
  "IbcTranslatorModule = replicate 19 0 @ bytes_of ''IbcTranslator''"
definition WormholeRelayerModule :: "byte list" where
  "WormholeRelayerModule = replicate 17 0 @ bytes_of ''WormholeRelayer''"
definition GeneralPurposeGovernanceModule :: "byte list" where
  "GeneralPurposeGovernanceModule = replicate 8 0 @ bytes_of ''GeneralPurposeGovernance''"

section \<open>Padding and the common header\<close>

definition LeftPadBytes :: "byte list \<Rightarrow> int \<Rightarrow> go_error + byte list" where
  "LeftPadBytes payload len =
     (if len < 0 then Inl (Errorf ''cannot prepend bytes to a negative length buffer'')
      else if len < int (length payload) then Inl (Errorf ''payload longer than bytes'')
      else Inr (replicate (nat len - length payload) 0 @ payload))"

definition serializeBridgeGovernanceVaa ::
  "byte list \<Rightarrow> GovernanceAction \<Rightarrow> ChainID \<Rightarrow> byte list \<Rightarrow> go_error + byte list" where
  "serializeBridgeGovernanceVaa module actionId chainId payload =
     chk (wrap ''failed to left pad module'' (LeftPadBytes module 32)) (\<lambda>buf.
     Inr (buf @ put actionId @ put chainId @ payload))"

definition EmptyPayloadVaa :: "byte list \<Rightarrow> GovernanceAction \<Rightarrow> ChainID \<Rightarrow> go_error + byte list" where
  "EmptyPayloadVaa module actionId chainId = serializeBridgeGovernanceVaa module actionId chainId []"

definition LeftPadIbcChannelId :: "byte list \<Rightarrow> go_error + byte list" where
  "LeftPadIbcChannelId channelId =
     chk (wrap ''failed to left pad module'' (LeftPadBytes channelId 64)) (\<lambda>buf. Inr (take 64 buf))"

section \<open>The bodies\<close>

record BodyContractUpgrade =
  cu_ChainID :: ChainID
  cu_NewContract :: Address

definition BodyContractUpgrade_Serialize :: "BodyContractUpgrade \<Rightarrow> go_error + byte list" where
  "BodyContractUpgrade_Serialize b =
     Inr (CoreModule @ put (1 :: byte) @ put (cu_ChainID b) @ cu_NewContract b)"

record BodyGuardianSetUpdate =
  gsu_Keys :: "eth_address list"
  gsu_NewIndex :: "32 word"

definition BodyGuardianSetUpdate_Serialize :: "BodyGuardianSetUpdate \<Rightarrow> go_error + byte list" where
  "BodyGuardianSetUpdate_Serialize b =
     Inr (CoreModule @ put (2 :: byte) @ put (0 :: 16 word) @ put (gsu_NewIndex b) @
       put (word_of_nat (length (gsu_Keys b)) :: byte) @ concat (gsu_Keys b))"

record BodyTokenBridgeRegisterChain =
  rc_Module :: "byte list"
  rc_ChainID :: ChainID
  rc_EmitterAddress :: Address

definition BodyTokenBridgeRegisterChain_Serialize :: "BodyTokenBridgeRegisterChain \<Rightarrow> go_error + byte list" where
  "BodyTokenBridgeRegisterChain_Serialize r =
     (let payload = put (rc_ChainID r) @ rc_EmitterAddress r in
      serializeBridgeGovernanceVaa (rc_Module r) 1 0 payload)"

record BodyTokenBridgeUpgradeContract =
  uc_Module :: "byte list"
  uc_TargetChainID :: ChainID
  uc_NewContract :: Address

definition BodyTokenBridgeUpgradeContract_Serialize :: "BodyTokenBridgeUpgradeContract \<Rightarrow> go_error + byte list" where
  "BodyTokenBridgeUpgradeContract_Serialize r =
     serializeBridgeGovernanceVaa (uc_Module r) 2 (uc_TargetChainID r) (uc_NewContract r)"

record BodyRecoverChainId =
  rci_Module :: "byte list"
  rci_EvmChainID :: "256 word"
  rci_NewChainID :: ChainID

definition BodyRecoverChainId_Serialize :: "BodyRecoverChainId \<Rightarrow> go_error + byte list" where
  "BodyRecoverChainId_Serialize r =
     chk (wrap ''failed to left pad module'' (LeftPadBytes (rci_Module r) 32)) (\<lambda>buf.
     let action = (if rci_Module r = bytes_of ''Core'' then 5 else 3) :: byte in
     Inr (buf @ put action @ put (rci_EvmChainID r) @ put (rci_NewChainID r)))"

record BodyAccountantModifyBalance =
  mb_Module :: "byte list"
  mb_TargetChainID :: ChainID
  mb_Sequence :: "64 word"
  mb_ChainId :: ChainID
  mb_TokenChain :: ChainID
  mb_TokenAddress :: Address
  mb_Kind :: byte
  mb_Amount :: "256 word"
  mb_Reason :: "byte list"

text \<open>
  The reason field: \<open>count := copy(reason, r.Reason)\<close> into 32 zero bytes, then the loop
  \<open>for i := range reason[count:] { reason[i] = ' ' }\<close>, whose index starts at 0.
\<close>

definition modify_balance_reason :: "byte list \<Rightarrow> byte list" where
  "modify_balance_reason r =
     (let count = min 32 (length r);
          reason = take count r @ replicate (32 - count) 0
      in fold (\<lambda>i reason. reason[i := 32]) [0..<length (drop count reason)] reason)"

definition BodyAccountantModifyBalance_Serialize :: "BodyAccountantModifyBalance \<Rightarrow> go_error + byte list" where
  "BodyAccountantModifyBalance_Serialize r =
     (let payload = put (mb_Sequence r) @ put (mb_ChainId r) @ put (mb_TokenChain r) @
            mb_TokenAddress r @ [mb_Kind r] @ put (mb_Amount r) @ modify_balance_reason (mb_Reason r)
      in serializeBridgeGovernanceVaa (mb_Module r) 1 (mb_TargetChainID r) payload)"

text \<open>Wormchain bodies. The three hashes are records with one field in the source.\<close>

record BodyWormchainStoreCode =
  sc_WasmHash :: "byte list"

definition BodyWormchainStoreCode_Serialize :: "BodyWormchainStoreCode \<Rightarrow> go_error + byte list" where
  "BodyWormchainStoreCode_Serialize r = serializeBridgeGovernanceVaa WasmdModule 1 ChainIDWormchain (sc_WasmHash r)"

record BodyWormchainInstantiateContract =
  ic_InstantiationParamsHash :: "byte list"

definition BodyWormchainInstantiateContract_Serialize :: "BodyWormchainInstantiateContract \<Rightarrow> go_error + byte list" where
  "BodyWormchainInstantiateContract_Serialize r =
     serializeBridgeGovernanceVaa WasmdModule 2 ChainIDWormchain (ic_InstantiationParamsHash r)"

record BodyWormchainMigrateContract =
  mc_MigrationParamsHash :: "byte list"

definition BodyWormchainMigrateContract_Serialize :: "BodyWormchainMigrateContract \<Rightarrow> go_error + byte list" where
  "BodyWormchainMigrateContract_Serialize r =
     serializeBridgeGovernanceVaa WasmdModule 3 ChainIDWormchain (mc_MigrationParamsHash r)"

record BodyWormchainWasmAllowlistInstantiate =
  al_ContractAddr :: "byte list"
  al_CodeId :: "64 word"

definition WasmAllowlist_Serialize ::
  "BodyWormchainWasmAllowlistInstantiate \<Rightarrow> GovernanceAction \<Rightarrow> go_error + byte list" where
  "WasmAllowlist_Serialize r action =
     (let payload = al_ContractAddr r @ put (al_CodeId r) in
      serializeBridgeGovernanceVaa WasmdModule action ChainIDWormchain payload)"

text \<open>\<open>be_Uint64 bs\<close> is \<open>binary.BigEndian.Uint64\<close> on the slice bs.\<close>

definition be_Uint64 :: "byte list \<Rightarrow> 64 word" where
  "be_Uint64 bs = word_of_nat (nat_of_be bs)"

definition WasmAllowlist_Deserialize :: "byte list \<Rightarrow> go_error + BodyWormchainWasmAllowlistInstantiate" where
  "WasmAllowlist_Deserialize bz =
     (if length bz \<noteq> 40 then Inl (Errorf ''incorrect payload length, should be 40'')
      else Inr \<lparr>al_ContractAddr = take 32 bz, al_CodeId = be_Uint64 (drop 32 bz)\<rparr>)"

record BodyGatewayIbcComposabilityMwContract =
  icm_ContractAddr :: "byte list"

definition IbcComposabilityMw_Serialize :: "BodyGatewayIbcComposabilityMwContract \<Rightarrow> go_error + byte list" where
  "IbcComposabilityMw_Serialize r =
     serializeBridgeGovernanceVaa GatewayModule 3 ChainIDWormchain (icm_ContractAddr r)"

definition IbcComposabilityMw_Deserialize :: "byte list \<Rightarrow> go_error + BodyGatewayIbcComposabilityMwContract" where
  "IbcComposabilityMw_Deserialize bz =
     (if length bz \<noteq> 32 then Inl (Errorf ''incorrect payload length, should be 32'')
      else Inr \<lparr>icm_ContractAddr = take 32 bz\<rparr>)"

record BodyGatewaySlashingParamsUpdate =
  sp_SignedBlocksWindow :: "64 word"
  sp_MinSignedPerWindow :: "64 word"
  sp_DowntimeJailDuration :: "64 word"
  sp_SlashFractionDoubleSign :: "64 word"
  sp_SlashFractionDowntime :: "64 word"

definition SlashingParams_Serialize :: "BodyGatewaySlashingParamsUpdate \<Rightarrow> go_error + byte list" where
  "SlashingParams_Serialize b =
     (let payload = put (sp_SignedBlocksWindow b) @ put (sp_MinSignedPerWindow b) @
            put (sp_DowntimeJailDuration b) @ put (sp_SlashFractionDoubleSign b) @
            put (sp_SlashFractionDowntime b)
      in serializeBridgeGovernanceVaa GatewayModule 4 ChainIDWormchain payload)"

definition SlashingParams_Deserialize :: "byte list \<Rightarrow> go_error + BodyGatewaySlashingParamsUpdate" where
  "SlashingParams_Deserialize bz =
     (if length bz \<noteq> 40 then Inl (Errorf ''incorrect payload length, should be 40'')
      else Inr \<lparr>sp_SignedBlocksWindow = be_Uint64 (take 8 bz),
                sp_MinSignedPerWindow = be_Uint64 (take 8 (drop 8 bz)),
                sp_DowntimeJailDuration = be_Uint64 (take 8 (drop 16 bz)),
                sp_SlashFractionDoubleSign = be_Uint64 (take 8 (drop 24 bz)),
                sp_SlashFractionDowntime = be_Uint64 (take 8 (drop 32 bz))\<rparr>)"

record BodyGatewayScheduleUpgrade =
  su_Name :: "byte list"
  su_Height :: "64 word"

definition ScheduleUpgrade_Serialize :: "BodyGatewayScheduleUpgrade \<Rightarrow> go_error + byte list" where
  "ScheduleUpgrade_Serialize r =
     (let payload = su_Name r @ put (su_Height r) in
      serializeBridgeGovernanceVaa GatewayModule 1 ChainIDWormchain payload)"

text \<open>The slice bounds \<open>bz[0 : len(bz)-8]\<close> panic on a payload of fewer than 8 bytes.\<close>

definition ScheduleUpgrade_Deserialize :: "byte list \<Rightarrow> go_error + BodyGatewayScheduleUpgrade" where
  "ScheduleUpgrade_Deserialize bz =
     (if length bz < 8 then Inl (Panic ''slice bounds out of range'')
      else Inr \<lparr>su_Name = take (length bz - 8) bz, su_Height = be_Uint64 (drop (length bz - 8) bz)\<rparr>)"

record BodyCircleIntegrationUpdateWormholeFinality =
  cf_TargetChainID :: ChainID
  cf_Finality :: byte

definition CircleFinality_Serialize :: "BodyCircleIntegrationUpdateWormholeFinality \<Rightarrow> go_error + byte list" where
  "CircleFinality_Serialize r =
     serializeBridgeGovernanceVaa CircleIntegrationModule 1 (cf_TargetChainID r) [cf_Finality r]"

record BodyCircleIntegrationRegisterEmitterAndDomain =
  cr_TargetChainID :: ChainID
  cr_ForeignEmitterChainId :: ChainID
  cr_ForeignEmitterAddress :: "byte list"
  cr_CircleDomain :: "32 word"

definition CircleRegister_Serialize :: "BodyCircleIntegrationRegisterEmitterAndDomain \<Rightarrow> go_error + byte list" where
  "CircleRegister_Serialize r =
     (let payload = put (cr_ForeignEmitterChainId r) @ cr_ForeignEmitterAddress r @ put (cr_CircleDomain r)
      in serializeBridgeGovernanceVaa CircleIntegrationModule 2 (cr_TargetChainID r) payload)"

record BodyCircleIntegrationUpgradeContractImplementation =
  ci_TargetChainID :: ChainID
  ci_NewImplementationAddress :: "byte list"

definition CircleUpgrade_Serialize :: "BodyCircleIntegrationUpgradeContractImplementation \<Rightarrow> go_error + byte list" where
  "CircleUpgrade_Serialize r =
     serializeBridgeGovernanceVaa CircleIntegrationModule 3 (ci_TargetChainID r) (ci_NewImplementationAddress r)"

record BodyIbcUpdateChannelChain =
  iu_TargetChainId :: ChainID
  iu_ChannelId :: "byte list"
  iu_ChainId :: ChainID

definition IbcUpdateChannelChain_Serialize :: "BodyIbcUpdateChannelChain \<Rightarrow> byte list \<Rightarrow> go_error + byte list" where
  "IbcUpdateChannelChain_Serialize r module =
     (if module \<noteq> IbcReceiverModule \<and> module \<noteq> IbcTranslatorModule
      then Inl (Errorf ''module for BodyIbcUpdateChannelChain must be either IbcReceiver or IbcTranslator'')
      else let payload = iu_ChannelId r @ put (iu_ChainId r)
           in serializeBridgeGovernanceVaa module 1 (iu_TargetChainId r) payload)"

record BodyWormholeRelayerSetDefaultDeliveryProvider =
  dp_ChainID :: ChainID
  dp_NewDefaultDeliveryProviderAddress :: Address

definition SetDefaultDeliveryProvider_Serialize ::
  "BodyWormholeRelayerSetDefaultDeliveryProvider \<Rightarrow> go_error + byte list" where
  "SetDefaultDeliveryProvider_Serialize r =
     serializeBridgeGovernanceVaa WormholeRelayerModule 3 (dp_ChainID r) (dp_NewDefaultDeliveryProviderAddress r)"

record BodyCoreBridgeSetMessageFee =
  mf_ChainID :: ChainID
  mf_MessageFee :: "256 word"

text \<open>\<open>MessageFee.Bytes()\<close> is the big-endian form without leading zeros.\<close>

definition SetMessageFee_Serialize :: "BodyCoreBridgeSetMessageFee \<Rightarrow> go_error + byte list" where
  "SetMessageFee_Serialize r =
     (let feeBytes = dropWhile (\<lambda>b. b = 0) (put (mf_MessageFee r)) in
      if 32 < length feeBytes then Inl (Errorf ''message fee too large'')
      else let padded = replicate (32 - length feeBytes) 0 @ feeBytes
           in serializeBridgeGovernanceVaa CoreModule 3 (mf_ChainID r) padded)"

record BodyGeneralPurposeGovernanceEvm =
  ge_ChainID :: ChainID
  ge_GovernanceContract :: eth_address
  ge_TargetContract :: eth_address
  ge_Payload :: "byte list"

definition GovernanceEvm_Serialize :: "BodyGeneralPurposeGovernanceEvm \<Rightarrow> go_error + byte list" where
  "GovernanceEvm_Serialize r =
     (if 65535 < length (ge_Payload r) then Inl (Errorf ''payload too long'')
      else let payload = ge_GovernanceContract r @ ge_TargetContract r @
                 put (word_of_nat (length (ge_Payload r)) :: 16 word) @ ge_Payload r
           in serializeBridgeGovernanceVaa GeneralPurposeGovernanceModule 1 (ge_ChainID r) payload)"

record BodyGeneralPurposeGovernanceSolana =
  gs_ChainID :: ChainID
  gs_GovernanceContract :: Address
  gs_Instruction :: "byte list"

definition GovernanceSolana_Serialize :: "BodyGeneralPurposeGovernanceSolana \<Rightarrow> go_error + byte list" where
  "GovernanceSolana_Serialize r =
     (let payload = gs_GovernanceContract r @ gs_Instruction r
      in serializeBridgeGovernanceVaa GeneralPurposeGovernanceModule 2 (gs_ChainID r) payload)"

section \<open>Headers and round trips\<close>

lemma length_modules [simp]:
  "length CoreModule = 32" "length WasmdModule = 32" "length GatewayModule = 32"
  "length CircleIntegrationModule = 32" "length IbcReceiverModule = 32"
  "length IbcTranslatorModule = 32" "length WormholeRelayerModule = 32"
  "length GeneralPurposeGovernanceModule = 32"
  by (simp_all add: CoreModule_def WasmdModule_def GatewayModule_def CircleIntegrationModule_def
      IbcReceiverModule_def IbcTranslatorModule_def WormholeRelayerModule_def
      GeneralPurposeGovernanceModule_def)

lemma LeftPadBytes_eq_Inr:
  "LeftPadBytes p n = Inr b \<longleftrightarrow> int (length p) \<le> n \<and> b = replicate (nat n - length p) 0 @ p"
  by (auto simp: LeftPadBytes_def)

lemma LeftPadBytes_length: "LeftPadBytes p n = Inr b \<Longrightarrow> int (length b) = n"
  by (auto simp: LeftPadBytes_eq_Inr)

lemma LeftPadBytes_full [simp]: "length p = 32 \<Longrightarrow> LeftPadBytes p 32 = Inr p"
  by (simp add: LeftPadBytes_eq_Inr)

lemma serialize_full [simp]:
  "length m = 32 \<Longrightarrow> serializeBridgeGovernanceVaa m a c p = Inr (m @ put a @ put c @ p)"
  by (simp add: serializeBridgeGovernanceVaa_def)

text \<open>\<open>body_of\<close> strips the module, the action and the chain off a serialized message.\<close>

definition body_of :: "go_error + byte list \<Rightarrow> go_error + byte list" where
  "body_of m = chk m (\<lambda>d. Inr (drop 35 d))"

lemma body_of_serialize [simp]:
  "length m = 32 \<Longrightarrow> body_of (Inr (m @ a # put (c :: ChainID) @ p)) = Inr p"
  by (simp add: body_of_def)

lemma be_Uint64_put [simp]: "be_Uint64 (put w) = w"
  by (simp add: be_Uint64_def word_of_be_put)

lemma put_be_Uint64: "length bs = 8 \<Longrightarrow> put (be_Uint64 bs) = bs"
  by (simp add: be_Uint64_def put_word_of_be)

lemma be_Uint64_eq: "length bs = 8 \<Longrightarrow> be_Uint64 bs = w \<longleftrightarrow> bs = put w"
  using put_be_Uint64 be_Uint64_put by metis

lemma put_append_iff: "p = put (a :: 64 word) @ q \<longleftrightarrow> take 8 p = put a \<and> drop 8 p = q"
proof
  assume "take 8 p = put a \<and> drop 8 p = q"
  then show "p = put a @ q"
    using append_take_drop_id [of 8 p] by simp
qed simp

lemma WasmAllowlist_Deserialize_iff:
  "WasmAllowlist_Deserialize p = Inr r \<longleftrightarrow>
     length (al_ContractAddr r) = 32 \<and> body_of (WasmAllowlist_Serialize r action) = Inr p"
proof -
  have "take 32 p = a \<and> be_Uint64 (drop 32 p) = w \<longleftrightarrow> length a = 32 \<and> a @ put w = p" if "length p = 40" for a w
    using that be_Uint64_eq [of "drop 32 p" w] by (auto simp: append_eq_conv_conj)
  then show ?thesis
    by (cases r) (auto simp: WasmAllowlist_Deserialize_def WasmAllowlist_Serialize_def)
qed

lemma IbcComposabilityMw_Deserialize_iff:
  "IbcComposabilityMw_Deserialize p = Inr r \<longleftrightarrow>
     length (icm_ContractAddr r) = 32 \<and> body_of (IbcComposabilityMw_Serialize r) = Inr p"
  by (cases r) (auto simp: IbcComposabilityMw_Deserialize_def IbcComposabilityMw_Serialize_def)

lemma SlashingParams_Deserialize_iff:
  "SlashingParams_Deserialize p = Inr r \<longleftrightarrow> body_of (SlashingParams_Serialize r) = Inr p"
proof -
  have split: "p = put a @ put b @ put c @ put d @ put e \<longleftrightarrow>
      take 8 p = put a \<and> take 8 (drop 8 p) = put b \<and> take 8 (drop 16 p) = put c \<and>
      take 8 (drop 24 p) = put d \<and> take 8 (drop 32 p) = put e"
    if "length p = 40" for a b c d e :: "64 word"
    using that put_append_iff [of "drop 32 p" e "[]"] by (simp add: put_append_iff)
  have words: "take 8 p = put (be_Uint64 (take 8 p))" "take 8 (drop 8 p) = put (be_Uint64 (take 8 (drop 8 p)))"
      "take 8 (drop 16 p) = put (be_Uint64 (take 8 (drop 16 p)))"
      "take 8 (drop 24 p) = put (be_Uint64 (take 8 (drop 24 p)))"
      "take 8 (drop 32 p) = put (be_Uint64 (take 8 (drop 32 p)))" if "length p = 40"
    using that by (simp_all add: put_be_Uint64)
  show ?thesis
  proof
    assume d: "SlashingParams_Deserialize p = Inr r"
    then have len: "length p = 40"
      by (auto simp: SlashingParams_Deserialize_def split: if_splits)
    have "p = put (sp_SignedBlocksWindow r) @ put (sp_MinSignedPerWindow r) @
            put (sp_DowntimeJailDuration r) @ put (sp_SlashFractionDoubleSign r) @
            put (sp_SlashFractionDowntime r)"
      unfolding split [OF len] using d len
      by (auto simp: SlashingParams_Deserialize_def words [OF len, symmetric] put_be_Uint64)
    then show "body_of (SlashingParams_Serialize r) = Inr p"
      by (simp add: SlashingParams_Serialize_def)
  next
    assume "body_of (SlashingParams_Serialize r) = Inr p"
    then have "p = put (sp_SignedBlocksWindow r) @ put (sp_MinSignedPerWindow r) @
            put (sp_DowntimeJailDuration r) @ put (sp_SlashFractionDoubleSign r) @
            put (sp_SlashFractionDowntime r)"
      by (simp add: SlashingParams_Serialize_def)
    then show "SlashingParams_Deserialize p = Inr r"
      by (simp add: SlashingParams_Deserialize_def)
  qed
qed

lemma ScheduleUpgrade_Deserialize_iff:
  "ScheduleUpgrade_Deserialize p = Inr r \<longleftrightarrow> body_of (ScheduleUpgrade_Serialize r) = Inr p"
proof -
  have "take (length p - 8) p = a \<and> be_Uint64 (drop (length p - 8) p) = w \<longleftrightarrow> a @ put w = p"
    if "8 \<le> length p" for a w
  proof -
    have "be_Uint64 (drop (length p - 8) p) = w \<longleftrightarrow> drop (length p - 8) p = put w"
      using that by (simp add: be_Uint64_eq)
    moreover have "take (length p - 8) p = a \<and> drop (length p - 8) p = put w \<longleftrightarrow> a @ put w = p"
    proof
      assume e: "a @ put w = p"
      show "take (length p - 8) p = a \<and> drop (length p - 8) p = put w"
        unfolding e [symmetric] by simp
    qed (metis append_take_drop_id)
    ultimately show ?thesis by blast
  qed
  then show ?thesis
    by (cases r) (auto simp: ScheduleUpgrade_Deserialize_def ScheduleUpgrade_Serialize_def)
qed

text \<open>
  Each governance body that wormchain reads back is decoded from exactly the payload that its
  Serialize puts after the 35 byte header of module, action and chain.
\<close>

lemma governance_bodies_roundtrip:
  "(WasmAllowlist_Deserialize p = Inr al \<longleftrightarrow>
      length (al_ContractAddr al) = 32 \<and> body_of (WasmAllowlist_Serialize al action) = Inr p) \<and>
   (IbcComposabilityMw_Deserialize p = Inr mw \<longleftrightarrow>
      length (icm_ContractAddr mw) = 32 \<and> body_of (IbcComposabilityMw_Serialize mw) = Inr p) \<and>
   (SlashingParams_Deserialize p = Inr sp \<longleftrightarrow> body_of (SlashingParams_Serialize sp) = Inr p) \<and>
   (ScheduleUpgrade_Deserialize p = Inr su \<longleftrightarrow> body_of (ScheduleUpgrade_Serialize su) = Inr p)"
  using WasmAllowlist_Deserialize_iff IbcComposabilityMw_Deserialize_iff
    SlashingParams_Deserialize_iff ScheduleUpgrade_Deserialize_iff by blast

section \<open>The message fee and the accountant's reason\<close>

lemma pad_dropWhile_zero:
  "replicate (length bs - length (dropWhile (\<lambda>b. b = (0 :: byte)) bs)) 0 @ dropWhile (\<lambda>b. b = 0) bs = bs"
proof (induction bs)
  case Nil
  then show ?case by simp
next
  case (Cons b bs)
  then show ?case
    using length_dropWhile_le [of "\<lambda>b. b = 0" bs] by (auto simp: Suc_diff_le)
qed

lemma SetMessageFee_Serialize_eq:
  "SetMessageFee_Serialize r = Inr (CoreModule @ put (3 :: byte) @ put (mf_ChainID r) @ put (mf_MessageFee r))"
proof -
  let ?w = "put (mf_MessageFee r)"
  have "length (dropWhile (\<lambda>b. b = 0) ?w) \<le> 32"
    using length_dropWhile_le [of "\<lambda>b. b = 0" ?w] by simp
  moreover have "replicate (32 - length (dropWhile (\<lambda>b. b = 0) ?w)) 0 @ dropWhile (\<lambda>b. b = 0) ?w = ?w"
    using pad_dropWhile_zero [of ?w] by simp
  ultimately show ?thesis
    by (simp add: SetMessageFee_Serialize_def Let_def)
qed

lemma fold_update_prefix:
  "k \<le> length xs \<Longrightarrow> fold (\<lambda>i ys. ys[i := c]) [0..<k] xs = replicate k c @ drop k xs"
proof (induction k)
  case 0
  then show ?case by simp
next
  case (Suc k)
  have "drop k xs = xs ! k # drop (Suc k) xs"
    using Suc.prems by (simp add: Cons_nth_drop_Suc)
  with Suc show ?case
    by (simp add: list_update_append replicate_app_Cons_same)
qed

lemma modify_balance_reason_eq:
  "modify_balance_reason r = (let n = min 32 (length r) in
     replicate (32 - n) 32 @ drop (32 - n) (take n r @ replicate (32 - n) 0))"
  by (simp add: modify_balance_reason_def Let_def fold_update_prefix)

text \<open>
  Because the padding loop starts at the beginning of the reason instead of at its end, a reason
  of at most 16 bytes is overwritten completely: the serialized message depends on its length only.
\<close>

lemma modify_balance_reason_lost:
  assumes "length r \<le> 16" and "length r' = length r"
  shows "BodyAccountantModifyBalance_Serialize (b\<lparr>mb_Reason := r\<rparr>) =
         BodyAccountantModifyBalance_Serialize (b\<lparr>mb_Reason := r'\<rparr>)"
proof -
  have "modify_balance_reason r = modify_balance_reason r'"
    using assms by (simp add: modify_balance_reason_eq Let_def)
  then show ?thesis
    by (simp add: BodyAccountantModifyBalance_Serialize_def)
qed

definition sample_modify_balance :: BodyAccountantModifyBalance where
  "sample_modify_balance = \<lparr>mb_Module = bytes_of ''GlobalAccountant'', mb_TargetChainID = 3104,
     mb_Sequence = 1, mb_ChainId = 2, mb_TokenChain = 2, mb_TokenAddress = replicate 32 7,
     mb_Kind = 1, mb_Amount = 1000, mb_Reason = []\<rparr>"

theorem modify_balance_reason_lost_witness:
  "BodyAccountantModifyBalance_Serialize (sample_modify_balance\<lparr>mb_Reason := bytes_of ''exploit''\<rparr>) =
   BodyAccountantModifyBalance_Serialize (sample_modify_balance\<lparr>mb_Reason := bytes_of ''mistake''\<rparr>)"
  by (rule modify_balance_reason_lost) simp_all

end
