(* ===== verification/GuardianSet.thy ===== *)
theory GuardianSet imports Vaa begin

text \<open>
  The guardian set and the heartbeats of its nodes: node/pkg/common/guardianset.go. Go maps are
  partial functions. The mutex serialises the methods, so each one is a step on the state; the
  update channel is the list of the heartbeats sent to it (None when it is nil), assumed not full.
  The only field of a heartbeat that the code reads is its timestamp in nanoseconds. The metrics
  gauges and the hex form of the keys (go-ethereum's checksum encoding) are left out.
\<close>

section \<open>Guardian sets\<close>

record GuardianSet =
  gs_Keys :: "eth_address list"
  gs_Index :: "32 word"
  gs_quorum :: int
  gs_keyMap :: "(eth_address \<rightharpoonup> int) option"

definition Quorum :: "GuardianSet \<Rightarrow> int" where
  "Quorum gs = gs_quorum gs"

text \<open>The loop \<open>for idx, key := range keys { keyMap[key] = idx }\<close>.\<close>

definition key_map :: "eth_address list \<Rightarrow> (eth_address \<rightharpoonup> int)" where
  "key_map keys = fold (\<lambda>(idx, key) m. m(key \<mapsto> int idx)) (enumerate 0 keys) Map.empty"

definition NewGuardianSet :: "eth_address list \<Rightarrow> 32 word \<Rightarrow> go_error + GuardianSet" where
  "NewGuardianSet keys index =
     (let keyMap = key_map keys in
      chk (CalculateQuorum (int (length keys))) (\<lambda>quorum.
      Inr \<lparr>gs_Keys = keys, gs_Index = index, gs_quorum = quorum, gs_keyMap = Some keyMap\<rparr>))"

text \<open>The sequential search of KeyIndex, used when the key map is nil.\<close>

fun find_key :: "int \<Rightarrow> eth_address list \<Rightarrow> eth_address \<Rightarrow> int \<times> bool" where
  "find_key n [] addr = (- 1, False)"
| "find_key n (k # ks) addr = (if k = addr then (n, True) else find_key (n + 1) ks addr)"

definition KeyIndex :: "GuardianSet \<Rightarrow> eth_address \<Rightarrow> int \<times> bool" where
  "KeyIndex g addr =
     (case gs_keyMap g of
        Some keyMap \<Rightarrow> (case keyMap addr of Some idx \<Rightarrow> (idx, True) | None \<Rightarrow> (- 1, False))
      | None \<Rightarrow> find_key 0 (gs_Keys g) addr)"

lemma key_map_Nil [simp]: "key_map [] = Map.empty"
  by (simp add: key_map_def)

lemma key_map_snoc [simp]: "key_map (keys @ [a]) = (key_map keys)(a \<mapsto> int (length keys))"
  by (simp add: key_map_def enumerate_append_eq)

lemma key_map_iff:
  "key_map keys addr = Some n \<longleftrightarrow>
     (\<exists>i < length keys. keys ! i = addr \<and> n = int i \<and> addr \<notin> set (drop (Suc i) keys))"
proof (induction keys rule: rev_induct)
  case Nil
  then show ?case by simp
next
  case (snoc a keys)
  show ?case
    by (cases "a = addr") (simp_all add: snoc.IH Ex_less_Suc nth_append eq_commute [of n] cong: conj_cong)
qed

lemma find_key_iff:
  "find_key k keys addr = (n, True) \<longleftrightarrow>
     (\<exists>i < length keys. keys ! i = addr \<and> n = k + int i \<and> addr \<notin> set (take i keys))"
proof (induction keys arbitrary: k)
  case Nil
  then show ?case by simp
next
  case (Cons a keys)
  show ?case
    by (simp add: Cons.IH Ex_less_Suc2) (auto simp: Ex_less_Suc2)
qed

lemma find_key_False: "find_key k keys addr = (n, False) \<longleftrightarrow> n = - 1 \<and> addr \<notin> set keys"
  by (induction keys arbitrary: k) auto

lemma KeyIndex_new_iff:
  assumes "NewGuardianSet keys index = Inr g"
  shows "KeyIndex g addr = (n, True) \<longleftrightarrow>
    (\<exists>i < length keys. keys ! i = addr \<and> n = int i \<and> addr \<notin> set (drop (Suc i) keys))"
proof -
  have "KeyIndex g addr = (n, True) \<longleftrightarrow> key_map keys addr = Some n"
    using assms by (auto simp: NewGuardianSet_def KeyIndex_def chk_eq_Inr Let_def CalculateQuorum_def
        split: option.splits)
  then show ?thesis
    unfolding key_map_iff .
qed

lemma distinct_nth_once:
  assumes "distinct xs" and "i < length xs"
  shows "xs ! i \<notin> set (take i xs)" and "xs ! i \<notin> set (drop (Suc i) xs)"
proof -
  have "distinct (take i xs @ xs ! i # drop (Suc i) xs)"
    using assms by (simp add: id_take_nth_drop [symmetric])
  then show "xs ! i \<notin> set (take i xs)" and "xs ! i \<notin> set (drop (Suc i) xs)"
    by auto
qed

text \<open>
  With no duplicate key, the map of NewGuardianSet answers KeyIndex exactly as the sequential
  search it replaces: the index of the key in the list, or (-1, false).
\<close>

lemma KeyIndex_map_eq_search:
  assumes "NewGuardianSet keys index = Inr g" and "distinct keys"
  shows "KeyIndex g addr = KeyIndex (g\<lparr>gs_keyMap := None\<rparr>) addr"
proof (cases "KeyIndex (g\<lparr>gs_keyMap := None\<rparr>) addr")
  case (Pair n found)
  have keys: "gs_Keys g = keys"
    using assms(1) by (auto simp: NewGuardianSet_def chk_eq_Inr Let_def)
  have search: "find_key 0 keys addr = (n, found)"
    using Pair keys by (simp add: KeyIndex_def)
  show ?thesis
  proof (cases found)
    case True
    then obtain i where i: "i < length keys" "keys ! i = addr" "n = int i"
      using search by (auto simp: find_key_iff)
    then have "KeyIndex g addr = (n, True)"
      using KeyIndex_new_iff [OF assms(1)] distinct_nth_once(2) [OF assms(2) i(1)] by blast
    with Pair True show ?thesis by simp
  next
    case False
    then have n: "n = - 1" "addr \<notin> set keys"
      using search by (simp_all add: find_key_False)
    have "KeyIndex g addr \<noteq> (fst (KeyIndex g addr), True)"
      using KeyIndex_new_iff [OF assms(1), of addr] n(2) by (auto simp: in_set_conv_nth)
    then have "KeyIndex g addr = (- 1, False)"
      by (auto simp: KeyIndex_def find_key_False keys n split: option.splits)
    with Pair False n show ?thesis by simp
  qed
qed

theorem KeyIndex_map_eq_search_witness:
  "(case NewGuardianSet [[1], [2], [3]] 0 of Inl _ \<Rightarrow> False
    | Inr g \<Rightarrow> KeyIndex g [2] = KeyIndex (g\<lparr>gs_keyMap := None\<rparr>) [2])"
proof -
  obtain g where g: "NewGuardianSet [[1], [2], [3]] 0 = Inr g"
    by (simp add: NewGuardianSet_def CalculateQuorum_def)
  then show ?thesis
    using KeyIndex_map_eq_search [OF g, of "[2]"] by simp
qed

section \<open>Heartbeats\<close>

type_synonym peer_id = string

record Heartbeat =
  hb_Timestamp :: int

record GuardianSetState =
  gst_current :: "GuardianSet option"
  gst_lastHeartbeats :: "eth_address \<rightharpoonup> (peer_id \<rightharpoonup> Heartbeat)"
  gst_updateC :: "Heartbeat list option"

definition MaxNodesPerGuardian :: nat where "MaxNodesPerGuardian = 15"
definition MaxStateAge :: int where "MaxStateAge = 60000000000"

definition NewGuardianSetState :: "Heartbeat list option \<Rightarrow> GuardianSetState" where
  "NewGuardianSetState updateC =
     \<lparr>gst_current = None, gst_lastHeartbeats = Map.empty, gst_updateC = updateC\<rparr>"

definition Set_current :: "GuardianSet \<Rightarrow> GuardianSetState \<Rightarrow> GuardianSetState" where
  "Set_current gs st = st\<lparr>gst_current := Some gs\<rparr>"

definition Get_current :: "GuardianSetState \<Rightarrow> GuardianSet option" where
  "Get_current st = gst_current st"

text \<open>Ranging over the nil map of an unknown address copies nothing.\<close>

definition LastHeartbeat :: "GuardianSetState \<Rightarrow> eth_address \<Rightarrow> (peer_id \<rightharpoonup> Heartbeat)" where
  "LastHeartbeat st addr = (case gst_lastHeartbeats st addr of None \<Rightarrow> Map.empty | Some m \<Rightarrow> m)"

definition SetHeartbeat ::
  "eth_address \<Rightarrow> peer_id \<Rightarrow> Heartbeat \<Rightarrow> GuardianSetState \<Rightarrow> (go_error + unit) \<times> GuardianSetState" where
  "SetHeartbeat addr peerId hb st =
     (let store = (\<lambda>v. (Inr (), st\<lparr>gst_lastHeartbeats := (gst_lastHeartbeats st)(addr \<mapsto> v(peerId \<mapsto> hb)),
             gst_updateC := map_option (\<lambda>c. c @ [hb]) (gst_updateC st)\<rparr>))
      in case gst_lastHeartbeats st addr of
           None \<Rightarrow> store Map.empty
         | Some v \<Rightarrow> if MaxNodesPerGuardian \<le> card (dom v)
             then (Inl (Errorf ''too many nodes for guardian, cannot store entry''), st)
             else store v)"

definition GetAll :: "GuardianSetState \<Rightarrow> (eth_address \<rightharpoonup> (peer_id \<rightharpoonup> Heartbeat))" where
  "GetAll st = gst_lastHeartbeats st"

text \<open>Deleting every entry older than MaxStateAge, in any order.\<close>

definition expired :: "time \<Rightarrow> Heartbeat \<Rightarrow> bool" where
  "expired now hb \<longleftrightarrow> MaxStateAge < now - hb_Timestamp hb"

definition Heartbeat_Cleanup :: "time \<Rightarrow> GuardianSetState \<Rightarrow> GuardianSetState" where
  "Heartbeat_Cleanup now st = st\<lparr>gst_lastHeartbeats := (\<lambda>addr.
     map_option (\<lambda>v peerId. case v peerId of None \<Rightarrow> None | Some hb \<Rightarrow> if expired now hb then None else Some hb)
       (gst_lastHeartbeats st addr))\<rparr>"

definition IsSubscribedToHeartbeats :: "GuardianSetState \<Rightarrow> bool" where
  "IsSubscribedToHeartbeats st \<longleftrightarrow> gst_updateC st \<noteq> None"

text \<open>The states that the methods reach from a new one, in any order and with any clock.\<close>

inductive heartbeat_state :: "GuardianSetState \<Rightarrow> bool" where
  new: "heartbeat_state (NewGuardianSetState updateC)"
| set: "heartbeat_state st \<Longrightarrow> heartbeat_state (Set_current gs st)"
| heartbeat: "heartbeat_state st \<Longrightarrow> SetHeartbeat addr peer hb st = (res, st') \<Longrightarrow> heartbeat_state st'"
| cleanup: "heartbeat_state st \<Longrightarrow> heartbeat_state (Heartbeat_Cleanup now st)"

definition heartbeats_bounded :: "GuardianSetState \<Rightarrow> bool" where
  "heartbeats_bounded st \<longleftrightarrow>
     (\<forall>addr. finite (dom (LastHeartbeat st addr)) \<and> card (dom (LastHeartbeat st addr)) \<le> MaxNodesPerGuardian)"

lemma heartbeats_bounded_SetHeartbeat:
  "heartbeats_bounded st \<Longrightarrow> SetHeartbeat addr peer hb st = (res, st') \<Longrightarrow> heartbeats_bounded st'"
  unfolding heartbeats_bounded_def
  by (auto simp: SetHeartbeat_def LastHeartbeat_def Let_def card_insert_if MaxNodesPerGuardian_def
      dest: spec [of _ addr] split: option.splits if_splits)

lemma dom_cleanup:
  "dom (LastHeartbeat (Heartbeat_Cleanup now st) addr) \<subseteq> dom (LastHeartbeat st addr)"
  by (auto simp: Heartbeat_Cleanup_def LastHeartbeat_def split: option.splits if_splits)

lemma heartbeats_bounded_Cleanup: "heartbeats_bounded st \<Longrightarrow> heartbeats_bounded (Heartbeat_Cleanup now st)"
  unfolding heartbeats_bounded_def
  by (meson card_mono dom_cleanup finite_subset le_trans)

text \<open>
  In every reachable state each guardian has heartbeats of at most 15 nodes, so the memory that
  gossip can occupy is bounded whatever the peers send.
\<close>

lemma heartbeats_always_bounded:
  assumes "heartbeat_state st"
  shows "card (dom (LastHeartbeat st addr)) \<le> MaxNodesPerGuardian"
proof -
  have "heartbeats_bounded st"
    using assms
  proof induction
    case (new updateC)
    then show ?case by (simp add: heartbeats_bounded_def NewGuardianSetState_def LastHeartbeat_def)
  next
    case (set st gs)
    then show ?case by (simp add: heartbeats_bounded_def Set_current_def LastHeartbeat_def)
  qed (blast intro: heartbeats_bounded_SetHeartbeat heartbeats_bounded_Cleanup)+
  then show ?thesis
    by (simp add: heartbeats_bounded_def)
qed

definition sample_state :: GuardianSetState where
  "sample_state = snd (SetHeartbeat [1] ''b'' \<lparr>hb_Timestamp = 7\<rparr>
     (snd (SetHeartbeat [1] ''a'' \<lparr>hb_Timestamp = 5\<rparr> (NewGuardianSetState None))))"

theorem heartbeats_always_bounded_witness:
  "card (dom (LastHeartbeat sample_state [1])) \<le> MaxNodesPerGuardian"
proof (rule heartbeats_always_bounded)
  show "heartbeat_state sample_state"
    unfolding sample_state_def by (metis heartbeat_state.heartbeat heartbeat_state.new prod.collapse)
qed

end
