(* ===== verification/QueryRequest.thy ===== *)
theory QueryRequest imports Vaa begin

text \<open>
  Cross chain query requests: node/pkg/query/request.go. One record per kind of query with its
  Validate, Marshal, UnmarshalFromReader and Equal, the per chain request that carries one of them
  and the request that carries several. The Go interface ChainSpecificQuery is a datatype with one
  constructor per implementation, and what every implementation promises is the locale
  chain_specific_query. Go strings of the wire format are byte lists; nil and empty slices are not
  told apart, as the code does not; the pointers inside slices are not nil.

  solana.PublicKeyLength, solana.MaxSeeds and solana.MaxSeedLength are the constants 32, 16 and 32.
\<close>

type_synonym ChainSpecificQueryType = byte

definition MSG_VERSION :: byte where "MSG_VERSION = 1"
definition EthCallQueryRequestType :: ChainSpecificQueryType where "EthCallQueryRequestType = 1"
definition EthCallByTimestampQueryRequestType :: ChainSpecificQueryType where "EthCallByTimestampQueryRequestType = 2"
definition EthCallWithFinalityQueryRequestType :: ChainSpecificQueryType where "EthCallWithFinalityQueryRequestType = 3"
definition SolanaAccountQueryRequestType :: ChainSpecificQueryType where "SolanaAccountQueryRequestType = 4"
definition SolanaPdaQueryRequestType :: ChainSpecificQueryType where "SolanaPdaQueryRequestType = 5"
definition EvmContractAddressLength :: nat where "EvmContractAddressLength = 20"
definition SolanaPublicKeyLength :: nat where "SolanaPublicKeyLength = 32"
definition SolanaMaxCommitmentLength :: nat where "SolanaMaxCommitmentLength = 12"
definition SolanaMaxAccountsPerQuery :: nat where "SolanaMaxAccountsPerQuery = 100"
definition SolanaMaxSeeds :: nat where "SolanaMaxSeeds = 16"
definition SolanaMaxSeedLen :: nat where "SolanaMaxSeedLen = 32"

lemmas query_consts = MSG_VERSION_def EthCallQueryRequestType_def EthCallByTimestampQueryRequestType_def
  EthCallWithFinalityQueryRequestType_def SolanaAccountQueryRequestType_def SolanaPdaQueryRequestType_def
  EvmContractAddressLength_def SolanaPublicKeyLength_def SolanaMaxCommitmentLength_def
  SolanaMaxAccountsPerQuery_def SolanaMaxSeeds_def SolanaMaxSeedLen_def

text \<open>
  What the per chain request relies on: the bytes put writes are what the decoder reads back for
  every valid query, it reads nothing else, and Marshal is the validation followed by put.
\<close>

locale chain_specific_query = exact_codec enc dec "\<lambda>q. validate q = Inr ()"
  for enc :: "'q \<Rightarrow> byte list" and dec :: "reader \<Rightarrow> go_error + 'q \<times> reader"
    and validate :: "'q \<Rightarrow> go_error + unit" +
  fixes marshal :: "'q \<Rightarrow> go_error + byte list"
    and equal :: "'q \<Rightarrow> 'q \<Rightarrow> go_error + bool"
  assumes marshal_eq: "marshal q = chk (validate q) (\<lambda>_. Inr (enc q))"
    and equal_iff: "equal p q = Inr (p = q)"
begin

lemma marshal_iff: "marshal q = Inr d \<longleftrightarrow> validate q = Inr () \<and> d = enc q"
  by (auto simp: marshal_eq chk_eq_Inr)

lemma unmarshal_marshal: "marshal q = Inr d \<Longrightarrow> dec (d @ r) = Inr (q, r)"
  by (auto simp: marshal_iff dec_enc)

lemma marshal_unmarshal: "dec b = Inr (q, []) \<Longrightarrow> validate q = Inr () \<Longrightarrow> marshal q = Inr b"
  using dec_exact [of b q "[]"] by (simp add: marshal_iff)

end

section \<open>EVM call data\<close>

record EthCallData =
  cd_To :: "byte list"
  cd_Data :: "byte list"

definition put_call_data :: "EthCallData \<Rightarrow> byte list" where
  "put_call_data callData = cd_To callData @ put_blob (cd_Data callData)"

definition read_call_data :: "reader \<Rightarrow> go_error + EthCallData \<times> reader" where
  "read_call_data r =
     chk (read_buf ''failed to read call To'' EvmContractAddressLength r) (\<lambda>(to, r).
     chk (read_blob ''failed to read call Data len'' ''failed to read call data'' r) (\<lambda>(data, r).
     Inr (\<lparr>cd_To = to, cd_Data = data\<rparr>, r)))"

definition validate_call_data :: "EthCallData \<Rightarrow> go_error + unit" where
  "validate_call_data callData =
     chk (guard_err (length (cd_To callData) \<le> 0) (Errorf ''no call data to'')) (\<lambda>_.
     chk (guard_err (length (cd_To callData) \<noteq> EvmContractAddressLength) (Errorf ''invalid length for To contract'')) (\<lambda>_.
     chk (guard_err (length (cd_Data callData) \<le> 0) (Errorf ''no call data data'')) (\<lambda>_.
     guard_err (4294967295 < length (cd_Data callData)) (Errorf ''call data data too long''))))"

definition call_data_equal :: "EthCallData \<Rightarrow> EthCallData \<Rightarrow> go_error + bool" where
  "call_data_equal l r =
     Inr (if cd_To l \<noteq> cd_To r then False else if cd_Data l \<noteq> cd_Data r then False else True)"

text \<open>The checks on the list of call data, which the three EVM queries share.\<close>

definition validate_call_data_list :: "EthCallData list \<Rightarrow> go_error + unit" where
  "validate_call_data_list cds =
     chk (guard_err (length cds \<le> 0) (Errorf ''does not contain any call data'')) (\<lambda>_.
     chk (guard_err (255 < length cds) (Errorf ''too many call data entries'')) (\<lambda>_.
     for_each validate_call_data cds))"

definition put_call_data_list :: "EthCallData list \<Rightarrow> byte list" where
  "put_call_data_list cds = put_list8 put_call_data cds"

definition read_call_data_list :: "reader \<Rightarrow> go_error + EthCallData list \<times> reader" where
  "read_call_data_list = read_list8 ''failed to read number of call data entries'' read_call_data"

definition call_data_list_equal :: "EthCallData list \<Rightarrow> EthCallData list \<Rightarrow> go_error + bool" where
  "call_data_list_equal ls rs =
     (if length ls \<noteq> length rs then Inr False else equal_loop call_data_equal ls rs)"

interpretation call_data: exact_codec put_call_data read_call_data "\<lambda>c. validate_call_data c = Inr ()"
proof
  fix c r
  assume "validate_call_data c = Inr ()"
  then have "cd_Data c \<noteq> []" "length (cd_To c) = 20" "length (cd_Data c) \<le> 4294967295"
    by (auto simp: validate_call_data_def chk_eq_Inr query_consts)
  then show "read_call_data (put_call_data c @ r) = Inr (c, r)"
    by (simp add: read_call_data_def put_call_data_def query_consts codec_simps)
next
  fix b c r
  assume "read_call_data b = Inr (c, r)"
  then show "b = put_call_data c @ r"
    by (auto simp: read_call_data_def put_call_data_def chk_eq_Inr read_buf_eq_Inr dest!: read_blob_exact)
qed

lemma validate_call_data_list_iff:
  "validate_call_data_list cds = Inr () \<longleftrightarrow>
     cds \<noteq> [] \<and> length cds \<le> 255 \<and> list_all (\<lambda>c. validate_call_data c = Inr ()) cds"
  by (auto simp: validate_call_data_list_def chk_eq_Inr for_each_eq_Inr list_all_iff not_less)

lemma read_call_data_list_put [codec_simps]:
  "validate_call_data_list cds = Inr () \<Longrightarrow> read_call_data_list (put_call_data_list cds @ r) = Inr (cds, r)"
  by (simp add: validate_call_data_list_iff read_call_data_list_def put_call_data_list_def
      call_data.read_list8_put)

lemma read_call_data_list_exact: "read_call_data_list b = Inr (cds, r) \<Longrightarrow> b = put_call_data_list cds @ r"
  by (simp add: read_call_data_list_def put_call_data_list_def call_data.read_list8_exact)

lemma put_call_data_list_not_Nil [simp]: "put_call_data_list cds \<noteq> []"
  by (simp add: put_call_data_list_def)

lemma call_data_equal_iff: "call_data_equal l r = Inr (l = r)"
  by (cases l; cases r) (simp add: call_data_equal_def)

lemma call_data_list_equal_iff: "call_data_list_equal ls rs = Inr (ls = rs)"
  by (auto simp: call_data_list_equal_def intro: equal_loop_eq call_data_equal_iff)

section \<open>eth_call\<close>

record EthCallQueryRequest =
  ec_BlockId :: "byte list"
  ec_CallData :: "EthCallData list"

definition EthCall_Validate :: "EthCallQueryRequest \<Rightarrow> go_error + unit" where
  "EthCall_Validate ecd =
     chk (guard_err (4294967295 < length (ec_BlockId ecd)) (Errorf ''block id too long'')) (\<lambda>_.
     chk (guard_err (\<not> has_prefix (bytes_of ''0x'') (ec_BlockId ecd))
       (Errorf ''block id must be a hex number or hash starting with 0x'')) (\<lambda>_.
     validate_call_data_list (ec_CallData ecd)))"

definition put_eth_call :: "EthCallQueryRequest \<Rightarrow> byte list" where
  "put_eth_call ecd = put_blob (ec_BlockId ecd) @ put_call_data_list (ec_CallData ecd)"

definition EthCall_Marshal :: "EthCallQueryRequest \<Rightarrow> go_error + byte list" where
  "EthCall_Marshal ecd = chk (EthCall_Validate ecd) (\<lambda>_. Inr (put_eth_call ecd))"

definition EthCall_UnmarshalFromReader :: "reader \<Rightarrow> go_error + EthCallQueryRequest \<times> reader" where
  "EthCall_UnmarshalFromReader r =
     chk (read_blob ''failed to read block id len'' ''failed to read block id'' r) (\<lambda>(blockId, r).
     chk (read_call_data_list r) (\<lambda>(callData, r).
     Inr (\<lparr>ec_BlockId = blockId, ec_CallData = callData\<rparr>, r)))"

definition EthCall_Equal :: "EthCallQueryRequest \<Rightarrow> EthCallQueryRequest \<Rightarrow> go_error + bool" where
  "EthCall_Equal l r =
     (if ec_BlockId l \<noteq> ec_BlockId r then Inr False
      else call_data_list_equal (ec_CallData l) (ec_CallData r))"

interpretation eth_call: chain_specific_query put_eth_call EthCall_UnmarshalFromReader EthCall_Validate
  EthCall_Marshal EthCall_Equal
proof
  fix q r
  assume "EthCall_Validate q = Inr ()"
  then show "EthCall_UnmarshalFromReader (put_eth_call q @ r) = Inr (q, r)"
    by (auto simp: EthCall_Validate_def EthCall_UnmarshalFromReader_def put_eth_call_def chk_eq_Inr codec_simps)
next
  fix b q r
  assume "EthCall_UnmarshalFromReader b = Inr (q, r)"
  then show "b = put_eth_call q @ r"
    by (auto simp: EthCall_UnmarshalFromReader_def put_eth_call_def chk_eq_Inr
        dest!: read_blob_exact read_call_data_list_exact)
next
  fix p q
  show "EthCall_Equal p q = Inr (p = q)"
    by (cases p; cases q) (simp add: EthCall_Equal_def call_data_list_equal_iff)
qed (simp add: EthCall_Marshal_def)

section \<open>eth_call_by_timestamp\<close>

record EthCallByTimestampQueryRequest =
  et_TargetTimestamp :: "64 word"
  et_TargetBlockIdHint :: "byte list"
  et_FollowingBlockIdHint :: "byte list"
  et_CallData :: "EthCallData list"

definition EthCallByTimestamp_Validate :: "EthCallByTimestampQueryRequest \<Rightarrow> go_error + unit" where
  "EthCallByTimestamp_Validate ecd =
     chk (guard_err (et_TargetTimestamp ecd = 0) (Errorf ''target timestamp may not be zero'')) (\<lambda>_.
     chk (guard_err (4294967295 < length (et_TargetBlockIdHint ecd)) (Errorf ''target block id hint too long'')) (\<lambda>_.
     chk (guard_err ((et_TargetBlockIdHint ecd = []) \<noteq> (et_FollowingBlockIdHint ecd = []))
       (Errorf ''if either the target or following block id is unset, they both must be unset'')) (\<lambda>_.
     chk (guard_err (et_TargetBlockIdHint ecd \<noteq> [] \<and> \<not> has_prefix (bytes_of ''0x'') (et_TargetBlockIdHint ecd))
       (Errorf ''target block id must be a hex number or hash starting with 0x'')) (\<lambda>_.
     chk (guard_err (4294967295 < length (et_FollowingBlockIdHint ecd)) (Errorf ''following block id hint too long'')) (\<lambda>_.
     chk (guard_err (et_FollowingBlockIdHint ecd \<noteq> [] \<and> \<not> has_prefix (bytes_of ''0x'') (et_FollowingBlockIdHint ecd))
       (Errorf ''following block id must be a hex number or hash starting with 0x'')) (\<lambda>_.
     validate_call_data_list (et_CallData ecd)))))))"

definition put_eth_call_by_timestamp :: "EthCallByTimestampQueryRequest \<Rightarrow> byte list" where
  "put_eth_call_by_timestamp ecd = put (et_TargetTimestamp ecd) @ put_blob (et_TargetBlockIdHint ecd) @
     put_blob (et_FollowingBlockIdHint ecd) @ put_call_data_list (et_CallData ecd)"

definition EthCallByTimestamp_Marshal :: "EthCallByTimestampQueryRequest \<Rightarrow> go_error + byte list" where
  "EthCallByTimestamp_Marshal ecd =
     chk (EthCallByTimestamp_Validate ecd) (\<lambda>_. Inr (put_eth_call_by_timestamp ecd))"

definition EthCallByTimestamp_UnmarshalFromReader ::
  "reader \<Rightarrow> go_error + EthCallByTimestampQueryRequest \<times> reader" where
  "EthCallByTimestamp_UnmarshalFromReader r =
     chk (wrap ''failed to read timestamp'' (binary_read r)) (\<lambda>(ts, r).
     chk (read_blob ''failed to read target block id hint len'' ''failed to read target block id hint'' r) (\<lambda>(target, r).
     chk (read_blob ''failed to read following block id hint len'' ''failed to read following block id hint'' r) (\<lambda>(following, r).
     chk (read_call_data_list r) (\<lambda>(callData, r).
     Inr (\<lparr>et_TargetTimestamp = ts, et_TargetBlockIdHint = target, et_FollowingBlockIdHint = following,
           et_CallData = callData\<rparr>, r)))))"

definition EthCallByTimestamp_Equal ::
  "EthCallByTimestampQueryRequest \<Rightarrow> EthCallByTimestampQueryRequest \<Rightarrow> go_error + bool" where
  "EthCallByTimestamp_Equal l r =
     (if et_TargetTimestamp l \<noteq> et_TargetTimestamp r then Inr False
      else if et_TargetBlockIdHint l \<noteq> et_TargetBlockIdHint r then Inr False
      else if et_FollowingBlockIdHint l \<noteq> et_FollowingBlockIdHint r then Inr False
      else call_data_list_equal (et_CallData l) (et_CallData r))"

interpretation eth_call_by_timestamp: chain_specific_query put_eth_call_by_timestamp
  EthCallByTimestamp_UnmarshalFromReader EthCallByTimestamp_Validate EthCallByTimestamp_Marshal
  EthCallByTimestamp_Equal
proof
  fix q r
  assume "EthCallByTimestamp_Validate q = Inr ()"
  then show "EthCallByTimestamp_UnmarshalFromReader (put_eth_call_by_timestamp q @ r) = Inr (q, r)"
    by (auto simp: EthCallByTimestamp_Validate_def EthCallByTimestamp_UnmarshalFromReader_def
        put_eth_call_by_timestamp_def chk_eq_Inr codec_simps)
next
  fix b q r
  assume "EthCallByTimestamp_UnmarshalFromReader b = Inr (q, r)"
  then show "b = put_eth_call_by_timestamp q @ r"
    by (auto simp: EthCallByTimestamp_UnmarshalFromReader_def put_eth_call_by_timestamp_def chk_eq_Inr
        binary_read_inv dest!: read_blob_exact read_call_data_list_exact)
next
  fix p q
  show "EthCallByTimestamp_Equal p q = Inr (p = q)"
    by (cases p; cases q) (simp add: EthCallByTimestamp_Equal_def call_data_list_equal_iff)
qed (simp add: EthCallByTimestamp_Marshal_def)

section \<open>eth_call_with_finality\<close>

record EthCallWithFinalityQueryRequest =
  ef_BlockId :: "byte list"
  ef_Finality :: "byte list"
  ef_CallData :: "EthCallData list"

definition EthCallWithFinality_Validate :: "EthCallWithFinalityQueryRequest \<Rightarrow> go_error + unit" where
  "EthCallWithFinality_Validate ecd =
     chk (guard_err (4294967295 < length (ef_BlockId ecd)) (Errorf ''block id too long'')) (\<lambda>_.
     chk (guard_err (ef_BlockId ecd = []) (Errorf ''block id is required'')) (\<lambda>_.
     chk (guard_err (\<not> has_prefix (bytes_of ''0x'') (ef_BlockId ecd))
       (Errorf ''block id must be a hex number or hash starting with 0x'')) (\<lambda>_.
     chk (guard_err (4294967295 < length (ef_Finality ecd)) (Errorf ''finality too long'')) (\<lambda>_.
     chk (guard_err (ef_Finality ecd = []) (Errorf ''finality is required'')) (\<lambda>_.
     chk (guard_err (ef_Finality ecd \<noteq> bytes_of ''finalized'' \<and> ef_Finality ecd \<noteq> bytes_of ''safe'')
       (Errorf ''finality must be finalized or safe'')) (\<lambda>_.
     validate_call_data_list (ef_CallData ecd)))))))"

definition put_eth_call_with_finality :: "EthCallWithFinalityQueryRequest \<Rightarrow> byte list" where
  "put_eth_call_with_finality ecd =
     put_blob (ef_BlockId ecd) @ put_blob (ef_Finality ecd) @ put_call_data_list (ef_CallData ecd)"

definition EthCallWithFinality_Marshal :: "EthCallWithFinalityQueryRequest \<Rightarrow> go_error + byte list" where
  "EthCallWithFinality_Marshal ecd =
     chk (EthCallWithFinality_Validate ecd) (\<lambda>_. Inr (put_eth_call_with_finality ecd))"

definition EthCallWithFinality_UnmarshalFromReader ::
  "reader \<Rightarrow> go_error + EthCallWithFinalityQueryRequest \<times> reader" where
  "EthCallWithFinality_UnmarshalFromReader r =
     chk (read_blob ''failed to read target block id len'' ''failed to read target block id'' r) (\<lambda>(blockId, r).
     chk (read_blob ''failed to read finality len'' ''failed to read finality'' r) (\<lambda>(finality, r).
     chk (read_call_data_list r) (\<lambda>(callData, r).
     Inr (\<lparr>ef_BlockId = blockId, ef_Finality = finality, ef_CallData = callData\<rparr>, r))))"

definition EthCallWithFinality_Equal ::
  "EthCallWithFinalityQueryRequest \<Rightarrow> EthCallWithFinalityQueryRequest \<Rightarrow> go_error + bool" where
  "EthCallWithFinality_Equal l r =
     (if ef_BlockId l \<noteq> ef_BlockId r then Inr False
      else if ef_Finality l \<noteq> ef_Finality r then Inr False
      else call_data_list_equal (ef_CallData l) (ef_CallData r))"

interpretation eth_call_with_finality: chain_specific_query put_eth_call_with_finality
  EthCallWithFinality_UnmarshalFromReader EthCallWithFinality_Validate EthCallWithFinality_Marshal
  EthCallWithFinality_Equal
proof
  fix q r
  assume "EthCallWithFinality_Validate q = Inr ()"
  then show "EthCallWithFinality_UnmarshalFromReader (put_eth_call_with_finality q @ r) = Inr (q, r)"
    by (auto simp: EthCallWithFinality_Validate_def EthCallWithFinality_UnmarshalFromReader_def
        put_eth_call_with_finality_def chk_eq_Inr codec_simps)
next
  fix b q r
  assume "EthCallWithFinality_UnmarshalFromReader b = Inr (q, r)"
  then show "b = put_eth_call_with_finality q @ r"
    by (auto simp: EthCallWithFinality_UnmarshalFromReader_def put_eth_call_with_finality_def chk_eq_Inr
        dest!: read_blob_exact read_call_data_list_exact)
next
  fix p q
  show "EthCallWithFinality_Equal p q = Inr (p = q)"
    by (cases p; cases q) (simp add: EthCallWithFinality_Equal_def call_data_list_equal_iff)
qed (simp add: EthCallWithFinality_Marshal_def)

section \<open>sol_account\<close>

record SolanaAccountQueryRequest =
  sa_Commitment :: "byte list"
  sa_MinContextSlot :: "64 word"
  sa_DataSliceOffset :: "64 word"
  sa_DataSliceLength :: "64 word"
  sa_Accounts :: "byte list list"

text \<open>The commitment, whose length the readers bound before they allocate.\<close>

definition read_commitment :: "reader \<Rightarrow> go_error + byte list \<times> reader" where
  "read_commitment r =
     chk (wrap ''failed to read commitment len'' (binary_read r)) (\<lambda>(len :: 32 word, r).
     chk (guard_err (SolanaMaxCommitmentLength < unat len) (Errorf ''commitment string is too long'')) (\<lambda>_.
     read_buf ''failed to read commitment'' (unat len) r))"

definition read_public_key :: "string \<Rightarrow> reader \<Rightarrow> go_error + byte list \<times> reader" where
  "read_public_key msg r = read_buf msg SolanaPublicKeyLength r"

definition validate_account :: "byte list \<Rightarrow> go_error + unit" where
  "validate_account acct = guard_err (length acct \<noteq> SolanaPublicKeyLength) (Errorf ''invalid account length'')"

definition SolanaAccount_Validate :: "SolanaAccountQueryRequest \<Rightarrow> go_error + unit" where
  "SolanaAccount_Validate saq =
     chk (guard_err (SolanaMaxCommitmentLength < length (sa_Commitment saq)) (Errorf ''commitment too long'')) (\<lambda>_.
     chk (guard_err (sa_Commitment saq \<noteq> bytes_of ''finalized'') (Errorf ''commitment must be finalized'')) (\<lambda>_.
     chk (guard_err (sa_DataSliceLength saq = 0 \<and> sa_DataSliceOffset saq \<noteq> 0)
       (Errorf ''data slice offset may not be set if data slice length is zero'')) (\<lambda>_.
     chk (guard_err (length (sa_Accounts saq) \<le> 0) (Errorf ''does not contain any account entries'')) (\<lambda>_.
     chk (guard_err (SolanaMaxAccountsPerQuery < length (sa_Accounts saq)) (Errorf ''too many account entries'')) (\<lambda>_.
     for_each validate_account (sa_Accounts saq))))))"

definition put_solana_account :: "SolanaAccountQueryRequest \<Rightarrow> byte list" where
  "put_solana_account saq = put_blob (sa_Commitment saq) @ put (sa_MinContextSlot saq) @
     put (sa_DataSliceOffset saq) @ put (sa_DataSliceLength saq) @ put_list8 (\<lambda>acct. acct) (sa_Accounts saq)"

definition SolanaAccount_Marshal :: "SolanaAccountQueryRequest \<Rightarrow> go_error + byte list" where
  "SolanaAccount_Marshal saq = chk (SolanaAccount_Validate saq) (\<lambda>_. Inr (put_solana_account saq))"

definition SolanaAccount_UnmarshalFromReader :: "reader \<Rightarrow> go_error + SolanaAccountQueryRequest \<times> reader" where
  "SolanaAccount_UnmarshalFromReader r =
     chk (read_commitment r) (\<lambda>(commitment, r).
     chk (wrap ''failed to read min slot'' (binary_read r)) (\<lambda>(minSlot, r).
     chk (wrap ''failed to read data slice offset'' (binary_read r)) (\<lambda>(offset, r).
     chk (wrap ''failed to read data slice length'' (binary_read r)) (\<lambda>(len, r).
     chk (read_list8 ''failed to read number of account entries'' (read_public_key ''failed to read account'') r) (\<lambda>(accounts, r).
     Inr (\<lparr>sa_Commitment = commitment, sa_MinContextSlot = minSlot, sa_DataSliceOffset = offset,
           sa_DataSliceLength = len, sa_Accounts = accounts\<rparr>, r))))))"

definition bytes_equal :: "byte list \<Rightarrow> byte list \<Rightarrow> go_error + bool" where
  "bytes_equal a b = Inr (a = b)"

definition SolanaAccount_Equal :: "SolanaAccountQueryRequest \<Rightarrow> SolanaAccountQueryRequest \<Rightarrow> go_error + bool" where
  "SolanaAccount_Equal l r =
     (if sa_Commitment l \<noteq> sa_Commitment r \<or> sa_MinContextSlot l \<noteq> sa_MinContextSlot r \<or>
         sa_DataSliceOffset l \<noteq> sa_DataSliceOffset r \<or> sa_DataSliceLength l \<noteq> sa_DataSliceLength r
      then Inr False
      else if length (sa_Accounts l) \<noteq> length (sa_Accounts r) then Inr False
      else equal_loop bytes_equal (sa_Accounts l) (sa_Accounts r))"

interpretation account_key: exact_codec "\<lambda>acct. acct" "read_public_key msg" "\<lambda>a. validate_account a = Inr ()"
  by unfold_locales (auto simp: read_public_key_def validate_account_def query_consts codec_simps read_buf_eq_Inr)

lemma read_commitment_put [codec_simps]:
  "length c \<le> 12 \<Longrightarrow> r \<noteq> [] \<Longrightarrow> read_commitment (put_blob c @ r) = Inr (c, r)"
  by (simp add: read_commitment_def put_blob_def query_consts codec_simps)

lemma read_commitment_exact: "read_commitment b = Inr (c, r) \<Longrightarrow> b = put_blob c @ r"
  by (auto simp: read_commitment_def put_blob_def chk_eq_Inr binary_read_inv read_buf_eq_Inr)

lemma bytes_list_equal_iff: "length xs = length ys \<Longrightarrow> equal_loop bytes_equal xs ys = Inr (xs = ys)"
  by (rule equal_loop_eq) (simp_all add: bytes_equal_def)

lemma for_each_list_all: "for_each f xs = Inr () \<longleftrightarrow> list_all (\<lambda>x. f x = Inr ()) xs"
  by (simp add: for_each_eq_Inr list_all_iff)

interpretation solana_account: chain_specific_query put_solana_account SolanaAccount_UnmarshalFromReader
  SolanaAccount_Validate SolanaAccount_Marshal SolanaAccount_Equal
proof
  fix q r
  assume "SolanaAccount_Validate q = Inr ()"
  then have "length (sa_Commitment q) \<le> 12" "length (sa_Accounts q) \<le> 255"
      "list_all (\<lambda>a. validate_account a = Inr ()) (sa_Accounts q)"
    by (auto simp: SolanaAccount_Validate_def chk_eq_Inr for_each_list_all query_consts)
  then show "SolanaAccount_UnmarshalFromReader (put_solana_account q @ r) = Inr (q, r)"
    by (simp add: SolanaAccount_UnmarshalFromReader_def put_solana_account_def codec_simps
        account_key.read_list8_put)
next
  fix b q r
  assume "SolanaAccount_UnmarshalFromReader b = Inr (q, r)"
  then show "b = put_solana_account q @ r"
    by (auto simp: SolanaAccount_UnmarshalFromReader_def put_solana_account_def chk_eq_Inr binary_read_inv
        dest!: read_commitment_exact account_key.read_list8_exact)
next
  fix p q
  show "SolanaAccount_Equal p q = Inr (p = q)"
    by (cases p; cases q) (auto simp: SolanaAccount_Equal_def bytes_list_equal_iff)
qed (simp add: SolanaAccount_Marshal_def)

section \<open>sol_pda\<close>

record SolanaPDAEntry =
  pda_ProgramAddress :: "byte list"
  pda_Seeds :: "byte list list"

record SolanaPdaQueryRequest =
  sp_Commitment :: "byte list"
  sp_MinContextSlot :: "64 word"
  sp_DataSliceOffset :: "64 word"
  sp_DataSliceLength :: "64 word"
  sp_PDAs :: "SolanaPDAEntry list"

definition validate_seed :: "byte list \<Rightarrow> go_error + unit" where
  "validate_seed seed =
     chk (guard_err (length seed = 0) (Errorf ''seed is null'')) (\<lambda>_.
     guard_err (SolanaMaxSeedLen < length seed) (Errorf ''seed is too long''))"

definition read_seed :: "reader \<Rightarrow> go_error + byte list \<times> reader" where
  "read_seed = read_blob ''failed to read call Data len'' ''failed to read seed''"

definition put_pda :: "SolanaPDAEntry \<Rightarrow> byte list" where
  "put_pda pda = pda_ProgramAddress pda @ put_list8 put_blob (pda_Seeds pda)"

definition read_pda :: "reader \<Rightarrow> go_error + SolanaPDAEntry \<times> reader" where
  "read_pda r =
     chk (read_public_key ''failed to read program address'' r) (\<lambda>(programAddress, r).
     chk (read_list8 ''failed to read number of seeds'' read_seed r) (\<lambda>(seeds, r).
     Inr (\<lparr>pda_ProgramAddress = programAddress, pda_Seeds = seeds\<rparr>, r)))"

definition validate_pda :: "SolanaPDAEntry \<Rightarrow> go_error + unit" where
  "validate_pda pda =
     chk (guard_err (length (pda_ProgramAddress pda) \<noteq> SolanaPublicKeyLength) (Errorf ''invalid program address length'')) (\<lambda>_.
     chk (guard_err (length (pda_Seeds pda) = 0) (Errorf ''PDA does not contain any seeds'')) (\<lambda>_.
     chk (guard_err (SolanaMaxSeeds < length (pda_Seeds pda)) (Errorf ''PDA contains too many seeds'')) (\<lambda>_.
     for_each validate_seed (pda_Seeds pda))))"

definition pda_equal :: "SolanaPDAEntry \<Rightarrow> SolanaPDAEntry \<Rightarrow> go_error + bool" where
  "pda_equal l r =
     (if pda_ProgramAddress l \<noteq> pda_ProgramAddress r then Inr False
      else if length (pda_Seeds l) \<noteq> length (pda_Seeds r) then Inr False
      else equal_loop bytes_equal (pda_Seeds l) (pda_Seeds r))"

definition SolanaPda_Validate :: "SolanaPdaQueryRequest \<Rightarrow> go_error + unit" where
  "SolanaPda_Validate spda =
     chk (guard_err (SolanaMaxCommitmentLength < length (sp_Commitment spda)) (Errorf ''commitment too long'')) (\<lambda>_.
     chk (guard_err (sp_Commitment spda \<noteq> bytes_of ''finalized'') (Errorf ''commitment must be finalized'')) (\<lambda>_.
     chk (guard_err (sp_DataSliceLength spda = 0 \<and> sp_DataSliceOffset spda \<noteq> 0)
       (Errorf ''data slice offset may not be set if data slice length is zero'')) (\<lambda>_.
     chk (guard_err (length (sp_PDAs spda) \<le> 0) (Errorf ''does not contain any PDAs entries'')) (\<lambda>_.
     chk (guard_err (SolanaMaxAccountsPerQuery < length (sp_PDAs spda)) (Errorf ''too many PDA entries'')) (\<lambda>_.
     for_each validate_pda (sp_PDAs spda))))))"

definition put_solana_pda :: "SolanaPdaQueryRequest \<Rightarrow> byte list" where
  "put_solana_pda spda = put_blob (sp_Commitment spda) @ put (sp_MinContextSlot spda) @
     put (sp_DataSliceOffset spda) @ put (sp_DataSliceLength spda) @ put_list8 put_pda (sp_PDAs spda)"

definition SolanaPda_Marshal :: "SolanaPdaQueryRequest \<Rightarrow> go_error + byte list" where
  "SolanaPda_Marshal spda = chk (SolanaPda_Validate spda) (\<lambda>_. Inr (put_solana_pda spda))"

definition SolanaPda_UnmarshalFromReader :: "reader \<Rightarrow> go_error + SolanaPdaQueryRequest \<times> reader" where
  "SolanaPda_UnmarshalFromReader r =
     chk (read_commitment r) (\<lambda>(commitment, r).
     chk (wrap ''failed to read min slot'' (binary_read r)) (\<lambda>(minSlot, r).
     chk (wrap ''failed to read data slice offset'' (binary_read r)) (\<lambda>(offset, r).
     chk (wrap ''failed to read data slice length'' (binary_read r)) (\<lambda>(len, r).
     chk (read_list8 ''failed to read number of PDAs'' read_pda r) (\<lambda>(pdas, r).
     Inr (\<lparr>sp_Commitment = commitment, sp_MinContextSlot = minSlot, sp_DataSliceOffset = offset,
           sp_DataSliceLength = len, sp_PDAs = pdas\<rparr>, r))))))"

definition SolanaPda_Equal :: "SolanaPdaQueryRequest \<Rightarrow> SolanaPdaQueryRequest \<Rightarrow> go_error + bool" where
  "SolanaPda_Equal l r =
     (if sp_Commitment l \<noteq> sp_Commitment r \<or> sp_MinContextSlot l \<noteq> sp_MinContextSlot r \<or>
         sp_DataSliceOffset l \<noteq> sp_DataSliceOffset r \<or> sp_DataSliceLength l \<noteq> sp_DataSliceLength r
      then Inr False
      else if length (sp_PDAs l) \<noteq> length (sp_PDAs r) then Inr False
      else equal_loop pda_equal (sp_PDAs l) (sp_PDAs r))"

interpretation seed: exact_codec put_blob read_seed "\<lambda>s. validate_seed s = Inr ()"
  by unfold_locales (auto simp: read_seed_def validate_seed_def chk_eq_Inr query_consts codec_simps
      dest: read_blob_exact)

interpretation pda: exact_codec put_pda read_pda "\<lambda>p. validate_pda p = Inr ()"
proof
  fix p r
  assume "validate_pda p = Inr ()"
  then have "length (pda_ProgramAddress p) = 32" "length (pda_Seeds p) \<le> 255"
      "list_all (\<lambda>s. validate_seed s = Inr ()) (pda_Seeds p)"
    by (auto simp: validate_pda_def chk_eq_Inr for_each_list_all query_consts)
  then show "read_pda (put_pda p @ r) = Inr (p, r)"
    by (simp add: read_pda_def put_pda_def read_public_key_def query_consts codec_simps seed.read_list8_put)
next
  fix b p r
  assume "read_pda b = Inr (p, r)"
  then show "b = put_pda p @ r"
    by (auto simp: read_pda_def put_pda_def read_public_key_def read_buf_eq_Inr chk_eq_Inr
        dest!: seed.read_list8_exact)
qed

lemma pda_equal_iff: "pda_equal l r = Inr (l = r)"
  by (cases l; cases r) (auto simp: pda_equal_def bytes_list_equal_iff)

interpretation solana_pda: chain_specific_query put_solana_pda SolanaPda_UnmarshalFromReader
  SolanaPda_Validate SolanaPda_Marshal SolanaPda_Equal
proof
  fix q r
  assume "SolanaPda_Validate q = Inr ()"
  then have "length (sp_Commitment q) \<le> 12" "length (sp_PDAs q) \<le> 255"
      "list_all (\<lambda>a. validate_pda a = Inr ()) (sp_PDAs q)"
    by (auto simp: SolanaPda_Validate_def chk_eq_Inr for_each_list_all query_consts)
  then show "SolanaPda_UnmarshalFromReader (put_solana_pda q @ r) = Inr (q, r)"
    by (simp add: SolanaPda_UnmarshalFromReader_def put_solana_pda_def codec_simps pda.read_list8_put)
next
  fix b q r
  assume "SolanaPda_UnmarshalFromReader b = Inr (q, r)"
  then show "b = put_solana_pda q @ r"
    by (auto simp: SolanaPda_UnmarshalFromReader_def put_solana_pda_def chk_eq_Inr binary_read_inv
        dest!: read_commitment_exact pda.read_list8_exact)
next
  fix p q :: SolanaPdaQueryRequest
  have "length (sp_PDAs p) = length (sp_PDAs q) \<Longrightarrow>
      equal_loop pda_equal (sp_PDAs p) (sp_PDAs q) = Inr (sp_PDAs p = sp_PDAs q)"
    by (rule equal_loop_eq) (simp_all add: pda_equal_iff)
  then show "SolanaPda_Equal p q = Inr (p = q)"
    by (cases p; cases q) (auto simp: SolanaPda_Equal_def)
qed (simp add: SolanaPda_Marshal_def)

section \<open>The per chain request\<close>

datatype ChainSpecificQuery =
    EthCallQuery EthCallQueryRequest
  | EthCallByTimestampQuery EthCallByTimestampQueryRequest
  | EthCallWithFinalityQuery EthCallWithFinalityQueryRequest
  | SolanaAccountQuery SolanaAccountQueryRequest
  | SolanaPdaQuery SolanaPdaQueryRequest

record PerChainQueryRequest =
  pcq_ChainId :: ChainID
  pcq_Query :: "ChainSpecificQuery option"

text \<open>The method calls through the interface.\<close>

fun Query_Type :: "ChainSpecificQuery \<Rightarrow> ChainSpecificQueryType" where
  "Query_Type (EthCallQuery _) = EthCallQueryRequestType"
| "Query_Type (EthCallByTimestampQuery _) = EthCallByTimestampQueryRequestType"
| "Query_Type (EthCallWithFinalityQuery _) = EthCallWithFinalityQueryRequestType"
| "Query_Type (SolanaAccountQuery _) = SolanaAccountQueryRequestType"
| "Query_Type (SolanaPdaQuery _) = SolanaPdaQueryRequestType"

fun Query_Validate :: "ChainSpecificQuery \<Rightarrow> go_error + unit" where
  "Query_Validate (EthCallQuery q) = EthCall_Validate q"
| "Query_Validate (EthCallByTimestampQuery q) = EthCallByTimestamp_Validate q"
| "Query_Validate (EthCallWithFinalityQuery q) = EthCallWithFinality_Validate q"
| "Query_Validate (SolanaAccountQuery q) = SolanaAccount_Validate q"
| "Query_Validate (SolanaPdaQuery q) = SolanaPda_Validate q"

fun Query_Marshal :: "ChainSpecificQuery \<Rightarrow> go_error + byte list" where
  "Query_Marshal (EthCallQuery q) = EthCall_Marshal q"
| "Query_Marshal (EthCallByTimestampQuery q) = EthCallByTimestamp_Marshal q"
| "Query_Marshal (EthCallWithFinalityQuery q) = EthCallWithFinality_Marshal q"
| "Query_Marshal (SolanaAccountQuery q) = SolanaAccount_Marshal q"
| "Query_Marshal (SolanaPdaQuery q) = SolanaPda_Marshal q"

fun put_query :: "ChainSpecificQuery \<Rightarrow> byte list" where
  "put_query (EthCallQuery q) = put_eth_call q"
| "put_query (EthCallByTimestampQuery q) = put_eth_call_by_timestamp q"
| "put_query (EthCallWithFinalityQuery q) = put_eth_call_with_finality q"
| "put_query (SolanaAccountQuery q) = put_solana_account q"
| "put_query (SolanaPdaQuery q) = put_solana_pda q"

definition ValidatePerChainQueryRequestType :: "ChainSpecificQueryType \<Rightarrow> go_error + unit" where
  "ValidatePerChainQueryRequestType qt =
     guard_err (qt \<noteq> EthCallQueryRequestType \<and> qt \<noteq> EthCallByTimestampQueryRequestType \<and>
       qt \<noteq> EthCallWithFinalityQueryRequestType \<and> qt \<noteq> SolanaAccountQueryRequestType \<and>
       qt \<noteq> SolanaPdaQueryRequestType) (Errorf ''invalid query request type'')"

definition PerChainQuery_Validate :: "PerChainQueryRequest \<Rightarrow> go_error + unit" where
  "PerChainQuery_Validate p =
     chk (or_err (Errorf ''invalid chainID'') (ChainIDFromString (ChainID_String (pcq_ChainId p)))) (\<lambda>_.
     case pcq_Query p of
       None \<Rightarrow> Inl (Errorf ''query is nil'')
     | Some q \<Rightarrow> chk (ValidatePerChainQueryRequestType (Query_Type q)) (\<lambda>_.
         wrap ''chain specific query is invalid'' (Query_Validate q)))"

definition PerChainQuery_Marshal :: "PerChainQueryRequest \<Rightarrow> go_error + byte list" where
  "PerChainQuery_Marshal p =
     chk (PerChainQuery_Validate p) (\<lambda>_.
     case pcq_Query p of
       None \<Rightarrow> Inl (Panic ''nil pointer dereference'')
     | Some q \<Rightarrow> chk (Query_Marshal q) (\<lambda>queryBuf.
         chk (guard_err (4294967295 < length queryBuf) (Errorf ''query too long'')) (\<lambda>_.
         Inr (put (pcq_ChainId p) @ put (Query_Type q) @ put (word_of_nat (length queryBuf) :: 32 word) @
           queryBuf))))"

text \<open>The switch on the type: each branch decodes into a fresh query.\<close>

definition read_query :: "ChainSpecificQueryType \<Rightarrow> reader \<Rightarrow> go_error + ChainSpecificQuery \<times> reader" where
  "read_query queryType r =
     (if queryType = EthCallQueryRequestType then
        chk (wrap ''failed to unmarshal eth call request'' (EthCall_UnmarshalFromReader r))
          (\<lambda>(q, r). Inr (EthCallQuery q, r))
      else if queryType = EthCallByTimestampQueryRequestType then
        chk (wrap ''failed to unmarshal eth call by timestamp request'' (EthCallByTimestamp_UnmarshalFromReader r))
          (\<lambda>(q, r). Inr (EthCallByTimestampQuery q, r))
      else if queryType = EthCallWithFinalityQueryRequestType then
        chk (wrap ''failed to unmarshal eth call with finality request'' (EthCallWithFinality_UnmarshalFromReader r))
          (\<lambda>(q, r). Inr (EthCallWithFinalityQuery q, r))
      else if queryType = SolanaAccountQueryRequestType then
        chk (wrap ''failed to unmarshal solana account query request'' (SolanaAccount_UnmarshalFromReader r))
          (\<lambda>(q, r). Inr (SolanaAccountQuery q, r))
      else if queryType = SolanaPdaQueryRequestType then
        chk (wrap ''failed to unmarshal solana PDA query request'' (SolanaPda_UnmarshalFromReader r))
          (\<lambda>(q, r). Inr (SolanaPdaQuery q, r))
      else Inl (Errorf ''unsupported query type''))"

text \<open>The query length is read and dropped.\<close>

definition PerChainQuery_UnmarshalFromReader :: "reader \<Rightarrow> go_error + PerChainQueryRequest \<times> reader" where
  "PerChainQuery_UnmarshalFromReader r =
     chk (wrap ''failed to read request chain'' (binary_read r)) (\<lambda>(chainId, r).
     chk (wrap ''failed to read request type'' (binary_read r)) (\<lambda>(queryType, r).
     chk (ValidatePerChainQueryRequestType queryType) (\<lambda>_.
     chk (wrap ''failed to read query length'' (binary_read r)) (\<lambda>(queryLength :: 32 word, r).
     chk (read_query queryType r) (\<lambda>(q, r).
     Inr (\<lparr>pcq_ChainId = chainId, pcq_Query = Some q\<rparr>, r))))))"

fun Query_Equal :: "ChainSpecificQuery \<Rightarrow> ChainSpecificQuery \<Rightarrow> go_error + bool" where
  "Query_Equal (EthCallQuery l) (EthCallQuery r) = EthCall_Equal l r"
| "Query_Equal (EthCallByTimestampQuery l) (EthCallByTimestampQuery r) = EthCallByTimestamp_Equal l r"
| "Query_Equal (EthCallWithFinalityQuery l) (EthCallWithFinalityQuery r) = EthCallWithFinality_Equal l r"
| "Query_Equal (SolanaAccountQuery l) (SolanaAccountQuery r) = SolanaAccount_Equal l r"
| "Query_Equal (SolanaPdaQuery l) (SolanaPdaQuery r) = SolanaPda_Equal l r"
| "Query_Equal _ _ = Inl (Panic ''unsupported query type on right'')"

definition PerChainQuery_Equal :: "PerChainQueryRequest \<Rightarrow> PerChainQueryRequest \<Rightarrow> go_error + bool" where
  "PerChainQuery_Equal l r =
     (if pcq_ChainId l \<noteq> pcq_ChainId r then Inr False
      else case (pcq_Query l, pcq_Query r) of
        (None, None) \<Rightarrow> Inr True
      | (Some ql, Some qr) \<Rightarrow> if Query_Type ql \<noteq> Query_Type qr then Inr False else Query_Equal ql qr
      | _ \<Rightarrow> Inr False)"

lemma Query_Marshal_iff: "Query_Marshal q = Inr d \<longleftrightarrow> Query_Validate q = Inr () \<and> d = put_query q"
  by (cases q) (auto simp: eth_call.marshal_iff eth_call_by_timestamp.marshal_iff
      eth_call_with_finality.marshal_iff solana_account.marshal_iff solana_pda.marshal_iff)

lemma read_query_put:
  "Query_Validate q = Inr () \<Longrightarrow> read_query (Query_Type q) (put_query q @ r) = Inr (q, r)"
  by (cases q) (simp_all add: read_query_def query_consts eth_call.dec_enc eth_call_by_timestamp.dec_enc
      eth_call_with_finality.dec_enc solana_account.dec_enc solana_pda.dec_enc)

lemma read_query_exact: "read_query qt b = Inr (q, r) \<Longrightarrow> qt = Query_Type q \<and> b = put_query q @ r"
  by (auto simp: read_query_def chk_eq_Inr split: if_splits
      dest!: eth_call.dec_exact eth_call_by_timestamp.dec_exact eth_call_with_finality.dec_exact
        solana_account.dec_exact solana_pda.dec_exact)

lemma Query_Type_valid [simp]: "ValidatePerChainQueryRequestType (Query_Type q) = Inr ()"
  by (cases q) (simp_all add: ValidatePerChainQueryRequestType_def)

text \<open>The encoding of a per chain request with an arbitrary number in the length field.\<close>

definition put_per_chain :: "32 word \<Rightarrow> PerChainQueryRequest \<Rightarrow> byte list" where
  "put_per_chain len p = (case pcq_Query p of None \<Rightarrow> []
     | Some q \<Rightarrow> put (pcq_ChainId p) @ put (Query_Type q) @ put len @ put_query q)"

definition query_len :: "PerChainQueryRequest \<Rightarrow> 32 word" where
  "query_len p = (case pcq_Query p of None \<Rightarrow> 0 | Some q \<Rightarrow> word_of_nat (length (put_query q)))"

definition query_fits :: "PerChainQueryRequest \<Rightarrow> bool" where
  "query_fits p \<longleftrightarrow> (case pcq_Query p of None \<Rightarrow> False | Some q \<Rightarrow> length (put_query q) \<le> 4294967295)"

lemma PerChainQuery_Validate_Some:
  "PerChainQuery_Validate p = Inr () \<Longrightarrow> \<exists>q. pcq_Query p = Some q \<and> Query_Validate q = Inr ()"
  by (auto simp: PerChainQuery_Validate_def chk_eq_Inr split: option.splits)

lemma PerChainQuery_Marshal_iff:
  "PerChainQuery_Marshal p = Inr d \<longleftrightarrow>
     PerChainQuery_Validate p = Inr () \<and> query_fits p \<and> d = put_per_chain (query_len p) p"
  by (auto simp: PerChainQuery_Marshal_def chk_eq_Inr Query_Marshal_iff put_per_chain_def query_len_def
      query_fits_def not_less dest: PerChainQuery_Validate_Some split: option.splits)

lemma PerChainQuery_read_put:
  assumes "PerChainQuery_Validate p = Inr ()"
  shows "PerChainQuery_UnmarshalFromReader (put_per_chain len p @ r) = Inr (p, r)"
proof -
  obtain q where q: "pcq_Query p = Some q" "Query_Validate q = Inr ()"
    using PerChainQuery_Validate_Some [OF assms] by blast
  then show ?thesis
    by (cases p) (simp add: PerChainQuery_UnmarshalFromReader_def put_per_chain_def codec_simps
        read_query_put binary_read_sizes(1) [of "Query_Type q", simplified] del: put_byte)
qed

lemma PerChainQuery_read_exact:
  "PerChainQuery_UnmarshalFromReader b = Inr (p, r) \<Longrightarrow> \<exists>len. b = put_per_chain len p @ r"
  by (auto simp: PerChainQuery_UnmarshalFromReader_def put_per_chain_def chk_eq_Inr binary_read_inv
      dest!: read_query_exact)

lemma PerChainQuery_Equal_iff: "PerChainQuery_Equal l r = Inr (l = r)"
proof -
  have "Query_Type x = Query_Type y \<Longrightarrow> Query_Equal x y = Inr (x = y)" for x y
    by (cases x; cases y) (simp_all add: query_consts eth_call.equal_iff eth_call_by_timestamp.equal_iff
        eth_call_with_finality.equal_iff solana_account.equal_iff solana_pda.equal_iff)
  moreover have "Query_Type x \<noteq> Query_Type y \<Longrightarrow> x \<noteq> y" for x y
    by auto
  ultimately show ?thesis
    by (cases l; cases r) (auto simp: PerChainQuery_Equal_def split: option.splits)
qed

section \<open>The query request\<close>

record QueryRequest =
  qr_Nonce :: "32 word"
  qr_PerChainQueries :: "PerChainQueryRequest list"

definition QueryRequest_Validate :: "QueryRequest \<Rightarrow> go_error + unit" where
  "QueryRequest_Validate q =
     chk (guard_err (length (qr_PerChainQueries q) \<le> 0) (Errorf ''request does not contain any per chain queries'')) (\<lambda>_.
     chk (guard_err (255 < length (qr_PerChainQueries q)) (Errorf ''too many per chain queries'')) (\<lambda>_.
     for_each (\<lambda>p. wrap ''failed to validate per chain query'' (PerChainQuery_Validate p)) (qr_PerChainQueries q)))"

definition QueryRequest_Marshal :: "QueryRequest \<Rightarrow> go_error + byte list" where
  "QueryRequest_Marshal q =
     chk (QueryRequest_Validate q) (\<lambda>_.
     chk (map_err (\<lambda>p. wrap ''failed to marshal per chain query'' (PerChainQuery_Marshal p)) (qr_PerChainQueries q)) (\<lambda>bufs.
     Inr (put MSG_VERSION @ put (qr_Nonce q) @ put (word_of_nat (length (qr_PerChainQueries q)) :: 8 word) @
       concat bufs)))"

definition QueryRequest_UnmarshalFromReader :: "reader \<Rightarrow> go_error + QueryRequest" where
  "QueryRequest_UnmarshalFromReader r =
     chk (wrap ''failed to read message version'' (binary_read r)) (\<lambda>(version :: 8 word, r).
     chk (guard_err (version \<noteq> MSG_VERSION) (Errorf ''unsupported message version'')) (\<lambda>_.
     chk (wrap ''failed to read request nonce'' (binary_read r)) (\<lambda>(nonce, r).
     chk (wrap ''failed to read number of per chain queries'' (binary_read r)) (\<lambda>(n :: 8 word, r).
     chk (read_times (unat n)
       (\<lambda>r. wrap ''failed to Unmarshal per chain query'' (PerChainQuery_UnmarshalFromReader r)) r) (\<lambda>(queries, r).
     chk (guard_err (length r \<noteq> 0) (Errorf ''excess bytes in unmarshal'')) (\<lambda>_.
     let q = \<lparr>qr_Nonce = nonce, qr_PerChainQueries = queries\<rparr> in
     chk (wrap ''unmarshaled request failed validation'' (QueryRequest_Validate q)) (\<lambda>_. Inr q)))))))"

definition QueryRequest_Unmarshal :: "byte list \<Rightarrow> go_error + QueryRequest" where
  "QueryRequest_Unmarshal data = QueryRequest_UnmarshalFromReader data"

definition QueryRequest_Equal :: "QueryRequest \<Rightarrow> QueryRequest \<Rightarrow> go_error + bool" where
  "QueryRequest_Equal l r =
     (if qr_Nonce l \<noteq> qr_Nonce r then Inr False
      else if length (qr_PerChainQueries l) \<noteq> length (qr_PerChainQueries r) then Inr False
      else equal_loop PerChainQuery_Equal (qr_PerChainQueries l) (qr_PerChainQueries r))"

definition put_query_request :: "32 word list \<Rightarrow> QueryRequest \<Rightarrow> byte list" where
  "put_query_request lens q = put MSG_VERSION @ put (qr_Nonce q) @
     put (word_of_nat (length (qr_PerChainQueries q)) :: 8 word) @
     concat (map2 put_per_chain lens (qr_PerChainQueries q))"

lemma QueryRequest_Validate_iff:
  "QueryRequest_Validate q = Inr () \<longleftrightarrow>
     qr_PerChainQueries q \<noteq> [] \<and> length (qr_PerChainQueries q) \<le> 255 \<and>
     list_all (\<lambda>p. PerChainQuery_Validate p = Inr ()) (qr_PerChainQueries q)"
  by (auto simp: QueryRequest_Validate_def chk_eq_Inr for_each_list_all not_less)

lemma read_per_chain_times:
  "length lens = length ps \<Longrightarrow> list_all (\<lambda>p. PerChainQuery_Validate p = Inr ()) ps \<Longrightarrow>
   read_times (length ps) (\<lambda>r. wrap m (PerChainQuery_UnmarshalFromReader r))
     (concat (map2 put_per_chain lens ps) @ r) = Inr (ps, r)"
  by (induction lens ps rule: list_induct2) (simp_all add: PerChainQuery_read_put)

lemma read_per_chain_times_exact:
  "read_times n (\<lambda>r. wrap m (PerChainQuery_UnmarshalFromReader r)) b = Inr (ps, r) \<Longrightarrow>
   length ps = n \<and> (\<exists>lens. length lens = length ps \<and> b = concat (map2 put_per_chain lens ps) @ r)"
proof (induction n arbitrary: b ps)
  case 0
  then show ?case by simp
next
  case (Suc n)
  then obtain p r1 ps' where "PerChainQuery_UnmarshalFromReader b = Inr (p, r1)" and ps: "ps = p # ps'"
    and "read_times n (\<lambda>r. wrap m (PerChainQuery_UnmarshalFromReader r)) r1 = Inr (ps', r)"
    by (auto simp: chk_eq_Inr)
  then obtain len lens where "b = put_per_chain len p @ r1" "length ps' = n" "length lens = length ps'"
      "r1 = concat (map2 put_per_chain lens ps') @ r"
    using Suc.IH PerChainQuery_read_exact by blast
  then have "length ps = Suc n \<and> length (len # lens) = length ps \<and>
      b = concat (map2 put_per_chain (len # lens) ps) @ r"
    by (simp add: ps)
  then show ?case by blast
qed

lemma QueryRequest_read_put:
  assumes "QueryRequest_Validate q = Inr ()" and "length lens = length (qr_PerChainQueries q)"
  shows "QueryRequest_Unmarshal (put_query_request lens q) = Inr q"
proof -
  have ps: "list_all (\<lambda>p. PerChainQuery_Validate p = Inr ()) (qr_PerChainQueries q)"
      "length (qr_PerChainQueries q) \<le> 255"
    using assms(1) by (simp_all add: QueryRequest_Validate_iff)
  obtain nonce pcqs where q: "q = \<lparr>qr_Nonce = nonce, qr_PerChainQueries = pcqs\<rparr>"
    by (cases q)
  show ?thesis
    using ps(2) assms(1) read_per_chain_times [OF assms(2) ps(1), of _ "[]"]
    unfolding QueryRequest_Unmarshal_def QueryRequest_UnmarshalFromReader_def put_query_request_def
    by (simp add: q codec_simps Let_def del: put_byte)
qed

lemma QueryRequest_read_exact:
  assumes "QueryRequest_Unmarshal d = Inr q"
  shows "QueryRequest_Validate q = Inr () \<and>
    (\<exists>lens. length lens = length (qr_PerChainQueries q) \<and> d = put_query_request lens q)"
proof -
  obtain nonce and n :: "8 word" and r ps where d: "d = put MSG_VERSION @ put nonce @ put n @ r"
    and ps: "read_times (unat n) (\<lambda>r. wrap ''failed to Unmarshal per chain query''
        (PerChainQuery_UnmarshalFromReader r)) r = Inr (ps, [])"
    and q: "q = \<lparr>qr_Nonce = nonce, qr_PerChainQueries = ps\<rparr>" "QueryRequest_Validate q = Inr ()"
    using assms by (auto simp: QueryRequest_Unmarshal_def QueryRequest_UnmarshalFromReader_def chk_eq_Inr
        binary_read_inv Let_def simp del: put_byte)
  then show ?thesis
    using read_per_chain_times_exact [OF ps] by (auto simp: put_query_request_def simp del: put_byte)
qed

lemma QueryRequest_Marshal_iff:
  "QueryRequest_Marshal q = Inr d \<longleftrightarrow>
     QueryRequest_Validate q = Inr () \<and> list_all query_fits (qr_PerChainQueries q) \<and>
     d = put_query_request (map query_len (qr_PerChainQueries q)) q"
proof -
  have "list_all2 (\<lambda>p b. PerChainQuery_Marshal p = Inr b) ps bufs \<longleftrightarrow>
      list_all (\<lambda>p. PerChainQuery_Validate p = Inr ()) ps \<and> list_all query_fits ps \<and>
      bufs = map2 put_per_chain (map query_len ps) ps" for ps bufs
    by (induction ps arbitrary: bufs) (auto simp: list_all2_Cons1 PerChainQuery_Marshal_iff)
  then show ?thesis
    by (auto simp: QueryRequest_Marshal_def chk_eq_Inr map_err_eq_Inr QueryRequest_Validate_iff
        put_query_request_def)
qed

text \<open>
  Decoding a query request: a byte string decodes to q exactly when q passes Validate and the
  string is the encoding of q with some number in each query length field. Version, counts, kinds
  and lengths of every string are checked and nothing may follow; the query lengths alone are free.
\<close>

lemma QueryRequest_Unmarshal_iff:
  "QueryRequest_Unmarshal d = Inr q \<longleftrightarrow> QueryRequest_Validate q = Inr () \<and>
     (\<exists>lens. length lens = length (qr_PerChainQueries q) \<and> d = put_query_request lens q)"
  using QueryRequest_read_put QueryRequest_read_exact by blast

text \<open>
  What Marshal writes, Unmarshal reads back. It also reads back a different string: the query
  length is never compared with what was read, so the encoding of a request is not unique.
\<close>

lemma QueryRequest_roundtrip:
  assumes "QueryRequest_Marshal q = Inr d"
  shows "QueryRequest_Unmarshal d = Inr q \<and> (\<exists>d'. d' \<noteq> d \<and> QueryRequest_Unmarshal d' = Inr q)"
proof -
  have v: "QueryRequest_Validate q = Inr ()" and d: "d = put_query_request (map query_len (qr_PerChainQueries q)) q"
    using assms by (simp_all add: QueryRequest_Marshal_iff)
  obtain p ps where ps: "qr_PerChainQueries q = p # ps" "PerChainQuery_Validate p = Inr ()"
    using v by (cases "qr_PerChainQueries q") (auto simp: QueryRequest_Validate_iff)
  obtain cq where cq: "pcq_Query p = Some cq"
    using PerChainQuery_Validate_Some [OF ps(2)] by blast
  let ?d' = "put_query_request ((query_len p + 1) # map query_len ps) q"
  have "put_per_chain (query_len p + 1) p @ rest \<noteq> put_per_chain (query_len p) p @ rest" for rest
    by (simp add: put_per_chain_def cq put_inj)
  then have "?d' \<noteq> d"
    by (simp add: d put_query_request_def ps)
  moreover have "QueryRequest_Unmarshal ?d' = Inr q" and "QueryRequest_Unmarshal d = Inr q"
    unfolding d by (simp_all add: QueryRequest_read_put [OF v] ps)
  ultimately show ?thesis by blast
qed

definition sample_query :: QueryRequest where
  "sample_query = \<lparr>qr_Nonce = 7, qr_PerChainQueries = [\<lparr>pcq_ChainId = 2, pcq_Query = Some (EthCallQuery
     \<lparr>ec_BlockId = bytes_of ''0x28d9630'', ec_CallData = [\<lparr>cd_To = replicate 20 1, cd_Data = [6, 253, 222, 3]\<rparr>]\<rparr>)\<rparr>]\<rparr>"

definition sample_query_bytes :: "byte list" where
  "sample_query_bytes = put_query_request (map query_len (qr_PerChainQueries sample_query)) sample_query"

lemma sample_query_valid: "QueryRequest_Validate sample_query = Inr ()"
proof -
  have "ChainIDFromString (ChainID_String 2) = Inr 2"
    by (rule network_parses) (simp add: GetAllNetworkIDs_def)
  then have "list_all (\<lambda>p. PerChainQuery_Validate p = Inr ()) (qr_PerChainQueries sample_query)"
    by (simp add: sample_query_def PerChainQuery_Validate_def EthCall_Validate_def has_prefix_def bytes_of_def
        validate_call_data_list_def validate_call_data_def EvmContractAddressLength_def
        ValidatePerChainQueryRequestType_def)
  then show ?thesis
    unfolding QueryRequest_Validate_iff by (simp add: sample_query_def)
qed

lemma sample_query_Marshal: "QueryRequest_Marshal sample_query = Inr sample_query_bytes"
  by (simp add: QueryRequest_Marshal_iff sample_query_valid sample_query_bytes_def)
    (simp add: sample_query_def query_fits_def put_eth_call_def put_blob_def put_call_data_list_def
      put_list8_def put_call_data_def)

theorem QueryRequest_roundtrip_witness:
  "QueryRequest_Unmarshal sample_query_bytes = Inr sample_query"
  using QueryRequest_roundtrip [OF sample_query_Marshal] by blast

text \<open>
  Equal is equality: comparing two requests never reaches one of the panics of the type switch
  and returns true exactly when the requests are the same.
\<close>

lemma QueryRequest_Equal_iff: "QueryRequest_Equal l r = Inr (l = r)"
proof -
  have "length xs = length ys \<Longrightarrow> equal_loop PerChainQuery_Equal xs ys = Inr (xs = ys)" for xs ys
    by (rule equal_loop_eq) (simp_all add: PerChainQuery_Equal_iff)
  then show ?thesis
    by (cases l; cases r) (auto simp: QueryRequest_Equal_def)
qed

section \<open>Signing and posting\<close>

definition queryRequestPrefix :: "Environment \<Rightarrow> byte list" where
  "queryRequestPrefix env =
     (if env = MainNet then bytes_of ''mainnet_query_request_000000000000|''
      else if env = TestNet then bytes_of ''testnet_query_request_000000000000|''
      else bytes_of ''devnet_query_request_0000000000000|'')"

definition QueryRequestDigest :: "crypto \<Rightarrow> Environment \<Rightarrow> byte list \<Rightarrow> byte list" where
  "QueryRequestDigest c env b = Keccak256 c (queryRequestPrefix env @ b)"

record SignedQueryRequest =
  sqr_QueryRequest :: "byte list"
  sqr_Signature :: "byte list"

text \<open>A channel of capacity cap; sending to a full one returns ErrChanFull.\<close>

definition PostSignedQueryRequest ::
  "nat \<Rightarrow> SignedQueryRequest list \<Rightarrow> SignedQueryRequest \<Rightarrow> (go_error + unit) \<times> SignedQueryRequest list" where
  "PostSignedQueryRequest cap chan req =
     (if length chan < cap then (Inr (), chan @ [req]) else (Inl (Errorf ''channel is full''), chan))"

definition SignedQueryRequestEqual :: "SignedQueryRequest \<Rightarrow> SignedQueryRequest \<Rightarrow> bool" where
  "SignedQueryRequestEqual l r =
     (if sqr_QueryRequest l \<noteq> sqr_QueryRequest r then False
      else if sqr_Signature l \<noteq> sqr_Signature r then False else True)"

text \<open>\<open>PerChainQueryInternal.ID\<close>.\<close>

record PerChainQueryInternal =
  pcqi_RequestID :: string
  pcqi_RequestIdx :: nat
  pcqi_Request :: PerChainQueryRequest

definition PerChainQueryInternal_ID :: "PerChainQueryInternal \<Rightarrow> string" where
  "PerChainQueryInternal_ID p = pcqi_RequestID p @ CHR '':'' # dec_string (pcqi_RequestIdx p)"

lemma length_queryRequestPrefix [simp]: "length (queryRequestPrefix env) = 35"
  by (simp add: queryRequestPrefix_def)

end
