(* ===== verification/QueryResponse.thy ===== *)
theory QueryResponse imports QueryRequest begin

text \<open>
  Cross chain query responses: node/pkg/query/response.go. One record per kind of response with its
  Validate, Marshal, UnmarshalFromReader and Equal, the per chain response and the publication that
  answers a signed request. A Hash, a block hash or a public key is a byte list whose length Validate
  checks. The locale tail_codec is the contract of these formats: they end with a length-prefixed
  byte string, and an empty one at the very end of the input cannot be read back.

  Comparing two times with \<open>!=\<close> compares the instants; both sides come from time.UnixMicro.
\<close>

locale tail_codec =
  fixes enc :: "'a \<Rightarrow> byte list"
    and dec :: "reader \<Rightarrow> go_error + 'a \<times> reader"
    and ok :: "'a \<Rightarrow> bool"
    and ends :: "'a \<Rightarrow> bool"
  assumes dec_more: "ok x \<Longrightarrow> r \<noteq> [] \<or> ends x \<Longrightarrow> dec (enc x @ r) = Inr (x, r)"
    and dec_short: "ok x \<Longrightarrow> \<not> ends x \<Longrightarrow> \<exists>e. dec (enc x) = Inl e"
    and enc_not_Nil: "enc x \<noteq> []"
begin

lemma dec_end_iff: "ok x \<Longrightarrow> dec (enc x) = Inr (y, r) \<longleftrightarrow> y = x \<and> r = [] \<and> ends x"
  using dec_more [of x "[]"] dec_short [of x] by (cases "ends x") auto

lemma times_more:
  "list_all ok xs \<Longrightarrow> xs = [] \<or> r \<noteq> [] \<or> ends (last xs) \<Longrightarrow>
     read_times (length xs) dec (concat (map enc xs) @ r) = Inr (xs, r)"
proof (induction xs)
  case Nil
  then show ?case by simp
next
  case (Cons x xs)
  have "concat (map enc xs) @ r \<noteq> [] \<or> ends x"
    using Cons.prems enc_not_Nil by (cases xs) auto
  moreover have "xs = [] \<or> r \<noteq> [] \<or> ends (last xs)"
    using Cons.prems by (auto split: if_splits)
  ultimately show ?case
    using Cons.IH Cons.prems dec_more [of x "concat (map enc xs) @ r"] by simp
qed

lemma times_short:
  "list_all ok xs \<Longrightarrow> xs \<noteq> [] \<Longrightarrow> \<not> ends (last xs) \<Longrightarrow>
     \<exists>e. read_times (length xs) dec (concat (map enc xs)) = Inl e"
proof (induction xs)
  case Nil
  then show ?case by simp
next
  case (Cons x xs)
  show ?case
  proof (cases xs)
    case Nil
    then show ?thesis
      using Cons.prems dec_short [of x] by auto
  next
    case (Cons y ys)
    then have "concat (map enc xs) \<noteq> []"
      using enc_not_Nil by auto
    then have "dec (enc x @ concat (map enc xs)) = Inr (x, concat (map enc xs))"
      using Cons.prems dec_more [of x "concat (map enc xs)"] by simp
    moreover obtain e where "read_times (length xs) dec (concat (map enc xs)) = Inl e"
      using Cons.IH Cons.prems Cons by auto
    ultimately show ?thesis by simp
  qed
qed

lemma list8_more:
  "list_all ok xs \<Longrightarrow> length xs \<le> 255 \<Longrightarrow> xs = [] \<or> r \<noteq> [] \<or> ends (last xs) \<Longrightarrow>
     read_list8 msg dec (put_list8 enc xs @ r) = Inr (xs, r)"
  using binary_read_sizes(1) [of "word_of_nat (length xs)"] times_more
  by (simp add: read_list8_def put_list8_def)

lemma list8_short:
  "list_all ok xs \<Longrightarrow> length xs \<le> 255 \<Longrightarrow> xs \<noteq> [] \<Longrightarrow> \<not> ends (last xs) \<Longrightarrow>
     \<exists>e. read_list8 msg dec (put_list8 enc xs) = Inl e"
  using binary_read_sizes(1) [of "word_of_nat (length xs)"] times_short
  by (simp add: read_list8_def put_list8_def)

end

text \<open>What every implementation of the interface ChainSpecificResponse promises.\<close>

locale chain_specific_response = tail_codec enc dec ok ends
  for enc :: "'q \<Rightarrow> byte list" and dec :: "reader \<Rightarrow> go_error + 'q \<times> reader" and ok and ends +
  fixes validate :: "'q \<Rightarrow> go_error + unit"
    and marshal :: "'q \<Rightarrow> go_error + byte list"
    and equal :: "'q \<Rightarrow> 'q \<Rightarrow> go_error + bool"
  assumes marshal_eq: "marshal q = chk (validate q) (\<lambda>_. Inr (enc q))"
    and equal_iff: "equal p q = Inr (p = q)"
begin

lemma marshal_iff: "marshal q = Inr d \<longleftrightarrow> validate q = Inr () \<and> d = enc q"
  by (auto simp: marshal_eq chk_eq_Inr)

end

section \<open>Shared parts\<close>

definition put_micros :: "time \<Rightarrow> byte list" where
  "put_micros t = put (word_of_int (unix_micros t) :: 64 word)"

definition read_micros :: "string \<Rightarrow> reader \<Rightarrow> go_error + time \<times> reader" where
  "read_micros msg r = chk (wrap msg (binary_read r)) (\<lambda>(us :: 64 word, r). Inr (time_unix_micro (sint us), r))"

lemma read_micros_put [codec_simps]: "micros_time t \<Longrightarrow> read_micros msg (put_micros t @ r) = Inr (t, r)"
  by (simp add: read_micros_def put_micros_def codec_simps)

text \<open>The results of the three EVM responses.\<close>

definition put_results :: "byte list list \<Rightarrow> byte list" where
  "put_results rs = put_list8 put_blob rs"

definition read_results :: "reader \<Rightarrow> go_error + byte list list \<times> reader" where
  "read_results = read_list8 ''failed to read number of results'' (read_blob ''failed to read result len'' ''failed to read result'')"

definition validate_results :: "byte list list \<Rightarrow> go_error + unit" where
  "validate_results rs =
     chk (guard_err (length rs \<le> 0) (Errorf ''does not contain any results'')) (\<lambda>_.
     chk (guard_err (255 < length rs) (Errorf ''too many results'')) (\<lambda>_.
     for_each (\<lambda>result. guard_err (4294967295 < length result) (Errorf ''result too long'')) rs))"

definition results_equal :: "byte list list \<Rightarrow> byte list list \<Rightarrow> go_error + bool" where
  "results_equal ls rs = (if length ls \<noteq> length rs then Inr False else equal_loop bytes_equal ls rs)"

interpretation result_blob: tail_codec put_blob "read_blob m1 m2" "\<lambda>b. length b \<le> 4294967295" "\<lambda>b. b \<noteq> []"
proof
  fix b :: "byte list"
  assume "\<not> b \<noteq> []"
  then show "\<exists>e. read_blob m1 m2 (put_blob b) = Inl e"
    using binary_read_sizes(3) [of 0 "[]"]
    by (simp add: read_blob_def put_blob_def read_buf_def reader_read_def)
qed (auto simp: codec_simps)

lemma validate_results_iff:
  "validate_results rs = Inr () \<longleftrightarrow>
     rs \<noteq> [] \<and> length rs \<le> 255 \<and> list_all (\<lambda>b. length b \<le> 4294967295) rs"
  by (auto simp: validate_results_def chk_eq_Inr for_each_list_all list_all_iff not_less)

lemma read_results_more [codec_simps]:
  "validate_results rs = Inr () \<Longrightarrow> r \<noteq> [] \<or> last rs \<noteq> [] \<Longrightarrow> read_results (put_results rs @ r) = Inr (rs, r)"
  by (simp add: validate_results_iff read_results_def put_results_def result_blob.list8_more)

lemma read_results_short:
  "validate_results rs = Inr () \<Longrightarrow> last rs = [] \<Longrightarrow> \<exists>e. read_results (put_results rs) = Inl e"
  by (simp add: validate_results_iff read_results_def put_results_def result_blob.list8_short)

lemma put_results_not_Nil [simp]: "put_results rs \<noteq> []"
  by (simp add: put_results_def)

lemma results_equal_iff: "results_equal ls rs = Inr (ls = rs)"
  by (auto simp: results_equal_def bytes_list_equal_iff)

section \<open>eth_call\<close>

record EthCallQueryResponse =
  er_BlockNumber :: "64 word"
  er_Hash :: "byte list"
  er_Time :: time
  er_Results :: "byte list list"

definition EthCallResp_Validate :: "EthCallQueryResponse \<Rightarrow> go_error + unit" where
  "EthCallResp_Validate ecr =
     chk (guard_err (length (er_Hash ecr) \<noteq> 32) (Errorf ''invalid length for block hash'')) (\<lambda>_.
     validate_results (er_Results ecr))"

definition put_eth_call_resp :: "EthCallQueryResponse \<Rightarrow> byte list" where
  "put_eth_call_resp ecr = put (er_BlockNumber ecr) @ er_Hash ecr @ put_micros (er_Time ecr) @
     put_results (er_Results ecr)"

definition EthCallResp_Marshal :: "EthCallQueryResponse \<Rightarrow> go_error + byte list" where
  "EthCallResp_Marshal ecr = chk (EthCallResp_Validate ecr) (\<lambda>_. Inr (put_eth_call_resp ecr))"

definition EthCallResp_UnmarshalFromReader :: "reader \<Rightarrow> go_error + EthCallQueryResponse \<times> reader" where
  "EthCallResp_UnmarshalFromReader r =
     chk (wrap ''failed to read response number'' (binary_read r)) (\<lambda>(number, r).
     chk (read_buf ''failed to read response hash'' 32 r) (\<lambda>(hash, r).
     chk (read_micros ''failed to read response timestamp'' r) (\<lambda>(time, r).
     chk (read_results r) (\<lambda>(results, r).
     Inr (\<lparr>er_BlockNumber = number, er_Hash = hash, er_Time = time, er_Results = results\<rparr>, r)))))"

definition EthCallResp_Equal :: "EthCallQueryResponse \<Rightarrow> EthCallQueryResponse \<Rightarrow> go_error + bool" where
  "EthCallResp_Equal l r =
     (if er_BlockNumber l \<noteq> er_BlockNumber r then Inr False
      else if er_Hash l \<noteq> er_Hash r then Inr False
      else if er_Time l \<noteq> er_Time r then Inr False
      else results_equal (er_Results l) (er_Results r))"

interpretation eth_call_resp: chain_specific_response put_eth_call_resp EthCallResp_UnmarshalFromReader
  "\<lambda>q. EthCallResp_Validate q = Inr () \<and> micros_time (er_Time q)" "\<lambda>q. last (er_Results q) \<noteq> []"
  EthCallResp_Validate EthCallResp_Marshal EthCallResp_Equal
proof
  fix q :: EthCallQueryResponse and r
  assume "EthCallResp_Validate q = Inr () \<and> micros_time (er_Time q)"
  then have ok: "length (er_Hash q) = 32" "validate_results (er_Results q) = Inr ()" "micros_time (er_Time q)"
    by (auto simp: EthCallResp_Validate_def chk_eq_Inr)
  show "EthCallResp_UnmarshalFromReader (put_eth_call_resp q @ r) = Inr (q, r)"
    if "r \<noteq> [] \<or> last (er_Results q) \<noteq> []"
    using ok that by (simp add: EthCallResp_UnmarshalFromReader_def put_eth_call_resp_def codec_simps)
  show "\<exists>e. EthCallResp_UnmarshalFromReader (put_eth_call_resp q) = Inl e" if "\<not> last (er_Results q) \<noteq> []"
    using ok that read_results_short [of "er_Results q"]
    by (auto simp: EthCallResp_UnmarshalFromReader_def put_eth_call_resp_def codec_simps)
next
  fix p q :: EthCallQueryResponse
  show "EthCallResp_Equal p q = Inr (p = q)"
    by (cases p; cases q) (simp add: EthCallResp_Equal_def results_equal_iff)
qed (simp_all add: EthCallResp_Marshal_def put_eth_call_resp_def)

section \<open>eth_call_by_timestamp\<close>

record EthCallByTimestampQueryResponse =
  etr_TargetBlockNumber :: "64 word"
  etr_TargetBlockHash :: "byte list"
  etr_TargetBlockTime :: time
  etr_FollowingBlockNumber :: "64 word"
  etr_FollowingBlockHash :: "byte list"
  etr_FollowingBlockTime :: time
  etr_Results :: "byte list list"

definition EthCallByTimestampResp_Validate :: "EthCallByTimestampQueryResponse \<Rightarrow> go_error + unit" where
  "EthCallByTimestampResp_Validate ecr =
     chk (guard_err (length (etr_TargetBlockHash ecr) \<noteq> 32) (Errorf ''invalid length for target block hash'')) (\<lambda>_.
     chk (guard_err (length (etr_FollowingBlockHash ecr) \<noteq> 32) (Errorf ''invalid length for following block hash'')) (\<lambda>_.
     validate_results (etr_Results ecr)))"

definition put_eth_call_by_timestamp_resp :: "EthCallByTimestampQueryResponse \<Rightarrow> byte list" where
  "put_eth_call_by_timestamp_resp ecr =
     put (etr_TargetBlockNumber ecr) @ etr_TargetBlockHash ecr @ put_micros (etr_TargetBlockTime ecr) @
     put (etr_FollowingBlockNumber ecr) @ etr_FollowingBlockHash ecr @ put_micros (etr_FollowingBlockTime ecr) @
     put_results (etr_Results ecr)"

definition EthCallByTimestampResp_Marshal :: "EthCallByTimestampQueryResponse \<Rightarrow> go_error + byte list" where
  "EthCallByTimestampResp_Marshal ecr =
     chk (EthCallByTimestampResp_Validate ecr) (\<lambda>_. Inr (put_eth_call_by_timestamp_resp ecr))"

definition EthCallByTimestampResp_UnmarshalFromReader ::
  "reader \<Rightarrow> go_error + EthCallByTimestampQueryResponse \<times> reader" where
  "EthCallByTimestampResp_UnmarshalFromReader r =
     chk (wrap ''failed to read response target block number'' (binary_read r)) (\<lambda>(tnumber, r).
     chk (read_buf ''failed to read response target block hash'' 32 r) (\<lambda>(thash, r).
     chk (read_micros ''failed to read response target block timestamp'' r) (\<lambda>(ttime, r).
     chk (wrap ''failed to read response following block number'' (binary_read r)) (\<lambda>(fnumber, r).
     chk (read_buf ''failed to read response following block hash'' 32 r) (\<lambda>(fhash, r).
     chk (read_micros ''failed to read response following block timestamp'' r) (\<lambda>(ftime, r).
     chk (read_results r) (\<lambda>(results, r).
     Inr (\<lparr>etr_TargetBlockNumber = tnumber, etr_TargetBlockHash = thash, etr_TargetBlockTime = ttime,
           etr_FollowingBlockNumber = fnumber, etr_FollowingBlockHash = fhash, etr_FollowingBlockTime = ftime,
           etr_Results = results\<rparr>, r))))))))"

definition EthCallByTimestampResp_Equal ::
  "EthCallByTimestampQueryResponse \<Rightarrow> EthCallByTimestampQueryResponse \<Rightarrow> go_error + bool" where
  "EthCallByTimestampResp_Equal l r =
     (if etr_TargetBlockNumber l \<noteq> etr_TargetBlockNumber r then Inr False
      else if etr_TargetBlockHash l \<noteq> etr_TargetBlockHash r then Inr False
      else if etr_TargetBlockTime l \<noteq> etr_TargetBlockTime r then Inr False
      else if etr_FollowingBlockNumber l \<noteq> etr_FollowingBlockNumber r then Inr False
      else if etr_FollowingBlockHash l \<noteq> etr_FollowingBlockHash r then Inr False
      else if etr_FollowingBlockTime l \<noteq> etr_FollowingBlockTime r then Inr False
      else results_equal (etr_Results l) (etr_Results r))"

interpretation eth_call_by_timestamp_resp: chain_specific_response put_eth_call_by_timestamp_resp
  EthCallByTimestampResp_UnmarshalFromReader
  "\<lambda>q. EthCallByTimestampResp_Validate q = Inr () \<and> micros_time (etr_TargetBlockTime q) \<and>
     micros_time (etr_FollowingBlockTime q)" "\<lambda>q. last (etr_Results q) \<noteq> []"
  EthCallByTimestampResp_Validate EthCallByTimestampResp_Marshal EthCallByTimestampResp_Equal
proof
  fix q :: EthCallByTimestampQueryResponse and r
  assume "EthCallByTimestampResp_Validate q = Inr () \<and> micros_time (etr_TargetBlockTime q) \<and>
     micros_time (etr_FollowingBlockTime q)"
  then have ok: "length (etr_TargetBlockHash q) = 32" "length (etr_FollowingBlockHash q) = 32"
      "validate_results (etr_Results q) = Inr ()" "micros_time (etr_TargetBlockTime q)"
      "micros_time (etr_FollowingBlockTime q)"
    by (auto simp: EthCallByTimestampResp_Validate_def chk_eq_Inr)
  show "EthCallByTimestampResp_UnmarshalFromReader (put_eth_call_by_timestamp_resp q @ r) = Inr (q, r)"
    if "r \<noteq> [] \<or> last (etr_Results q) \<noteq> []"
    using ok that by (simp add: EthCallByTimestampResp_UnmarshalFromReader_def
        put_eth_call_by_timestamp_resp_def codec_simps)
  show "\<exists>e. EthCallByTimestampResp_UnmarshalFromReader (put_eth_call_by_timestamp_resp q) = Inl e"
    if "\<not> last (etr_Results q) \<noteq> []"
    using ok that read_results_short [of "etr_Results q"]
    by (auto simp: EthCallByTimestampResp_UnmarshalFromReader_def put_eth_call_by_timestamp_resp_def codec_simps)
next
  fix p q :: EthCallByTimestampQueryResponse
  show "EthCallByTimestampResp_Equal p q = Inr (p = q)"
    by (cases p; cases q) (simp add: EthCallByTimestampResp_Equal_def results_equal_iff)
qed (simp_all add: EthCallByTimestampResp_Marshal_def put_eth_call_by_timestamp_resp_def)

section \<open>eth_call_with_finality\<close>

record EthCallWithFinalityQueryResponse =
  efr_BlockNumber :: "64 word"
  efr_Hash :: "byte list"
  efr_Time :: time
  efr_Results :: "byte list list"

definition EthCallWithFinalityResp_Validate :: "EthCallWithFinalityQueryResponse \<Rightarrow> go_error + unit" where
  "EthCallWithFinalityResp_Validate ecr =
     chk (guard_err (length (efr_Hash ecr) \<noteq> 32) (Errorf ''invalid length for block hash'')) (\<lambda>_.
     validate_results (efr_Results ecr))"

definition put_eth_call_with_finality_resp :: "EthCallWithFinalityQueryResponse \<Rightarrow> byte list" where
  "put_eth_call_with_finality_resp ecr = put (efr_BlockNumber ecr) @ efr_Hash ecr @
     put_micros (efr_Time ecr) @ put_results (efr_Results ecr)"

definition EthCallWithFinalityResp_Marshal :: "EthCallWithFinalityQueryResponse \<Rightarrow> go_error + byte list" where
  "EthCallWithFinalityResp_Marshal ecr =
     chk (EthCallWithFinalityResp_Validate ecr) (\<lambda>_. Inr (put_eth_call_with_finality_resp ecr))"

definition EthCallWithFinalityResp_UnmarshalFromReader ::
  "reader \<Rightarrow> go_error + EthCallWithFinalityQueryResponse \<times> reader" where
  "EthCallWithFinalityResp_UnmarshalFromReader r =
     chk (wrap ''failed to read response number'' (binary_read r)) (\<lambda>(number, r).
     chk (read_buf ''failed to read response hash'' 32 r) (\<lambda>(hash, r).
     chk (read_micros ''failed to read response timestamp'' r) (\<lambda>(time, r).
     chk (read_results r) (\<lambda>(results, r).
     Inr (\<lparr>efr_BlockNumber = number, efr_Hash = hash, efr_Time = time, efr_Results = results\<rparr>, r)))))"

definition EthCallWithFinalityResp_Equal ::
  "EthCallWithFinalityQueryResponse \<Rightarrow> EthCallWithFinalityQueryResponse \<Rightarrow> go_error + bool" where
  "EthCallWithFinalityResp_Equal l r =
     (if efr_BlockNumber l \<noteq> efr_BlockNumber r then Inr False
      else if efr_Hash l \<noteq> efr_Hash r then Inr False
      else if efr_Time l \<noteq> efr_Time r then Inr False
      else results_equal (efr_Results l) (efr_Results r))"

interpretation eth_call_with_finality_resp: chain_specific_response put_eth_call_with_finality_resp
  EthCallWithFinalityResp_UnmarshalFromReader
  "\<lambda>q. EthCallWithFinalityResp_Validate q = Inr () \<and> micros_time (efr_Time q)" "\<lambda>q. last (efr_Results q) \<noteq> []"
  EthCallWithFinalityResp_Validate EthCallWithFinalityResp_Marshal EthCallWithFinalityResp_Equal
proof
  fix q :: EthCallWithFinalityQueryResponse and r
  assume "EthCallWithFinalityResp_Validate q = Inr () \<and> micros_time (efr_Time q)"
  then have ok: "length (efr_Hash q) = 32" "validate_results (efr_Results q) = Inr ()" "micros_time (efr_Time q)"
    by (auto simp: EthCallWithFinalityResp_Validate_def chk_eq_Inr)
  show "EthCallWithFinalityResp_UnmarshalFromReader (put_eth_call_with_finality_resp q @ r) = Inr (q, r)"
    if "r \<noteq> [] \<or> last (efr_Results q) \<noteq> []"
    using ok that by (simp add: EthCallWithFinalityResp_UnmarshalFromReader_def
        put_eth_call_with_finality_resp_def codec_simps)
  show "\<exists>e. EthCallWithFinalityResp_UnmarshalFromReader (put_eth_call_with_finality_resp q) = Inl e"
    if "\<not> last (efr_Results q) \<noteq> []"
    using ok that read_results_short [of "efr_Results q"]
    by (auto simp: EthCallWithFinalityResp_UnmarshalFromReader_def put_eth_call_with_finality_resp_def codec_simps)
next
  fix p q :: EthCallWithFinalityQueryResponse
  show "EthCallWithFinalityResp_Equal p q = Inr (p = q)"
    by (cases p; cases q) (simp add: EthCallWithFinalityResp_Equal_def results_equal_iff)
qed (simp_all add: EthCallWithFinalityResp_Marshal_def put_eth_call_with_finality_resp_def)

section \<open>sol_account\<close>

record SolanaAccountResult =
  sar_Lamports :: "64 word"
  sar_RentEpoch :: "64 word"
  sar_Executable :: bool
  sar_Owner :: "byte list"
  sar_Data :: "byte list"

record SolanaAccountQueryResponse =
  sr_SlotNumber :: "64 word"
  sr_BlockTime :: time
  sr_BlockHash :: "byte list"
  sr_Results :: "SolanaAccountResult list"

definition validate_account_result :: "SolanaAccountResult \<Rightarrow> go_error + unit" where
  "validate_account_result res =
     chk (guard_err (length (sar_Owner res) \<noteq> SolanaPublicKeyLength) (Errorf ''invalid owner length'')) (\<lambda>_.
     guard_err (4294967295 < length (sar_Data res)) (Errorf ''data too long''))"

definition put_account_result :: "SolanaAccountResult \<Rightarrow> byte list" where
  "put_account_result res = put (sar_Lamports res) @ put (sar_RentEpoch res) @ put_bool (sar_Executable res) @
     sar_Owner res @ put_blob (sar_Data res)"

definition read_account_result :: "reader \<Rightarrow> go_error + SolanaAccountResult \<times> reader" where
  "read_account_result r =
     chk (wrap ''failed to read lamports'' (binary_read r)) (\<lambda>(lamports, r).
     chk (wrap ''failed to read rent epoch'' (binary_read r)) (\<lambda>(rentEpoch, r).
     chk (wrap ''failed to read executable flag'' (binary_read_bool r)) (\<lambda>(executable, r).
     chk (read_buf ''failed to read owner'' SolanaPublicKeyLength r) (\<lambda>(owner, r).
     chk (read_blob ''failed to read data len'' ''failed to read data'' r) (\<lambda>(data, r).
     Inr (\<lparr>sar_Lamports = lamports, sar_RentEpoch = rentEpoch, sar_Executable = executable,
           sar_Owner = owner, sar_Data = data\<rparr>, r))))))"

definition account_result_equal :: "SolanaAccountResult \<Rightarrow> SolanaAccountResult \<Rightarrow> go_error + bool" where
  "account_result_equal l r =
     Inr (\<not> (sar_Lamports l \<noteq> sar_Lamports r \<or> sar_RentEpoch l \<noteq> sar_RentEpoch r \<or>
       sar_Executable l \<noteq> sar_Executable r \<or> sar_Owner l \<noteq> sar_Owner r \<or> sar_Data l \<noteq> sar_Data r))"

definition SolanaAccountResp_Validate :: "SolanaAccountQueryResponse \<Rightarrow> go_error + unit" where
  "SolanaAccountResp_Validate sar =
     chk (guard_err (length (sr_BlockHash sar) \<noteq> SolanaPublicKeyLength) (Errorf ''invalid block hash length'')) (\<lambda>_.
     chk (guard_err (length (sr_Results sar) \<le> 0) (Errorf ''does not contain any results'')) (\<lambda>_.
     chk (guard_err (255 < length (sr_Results sar)) (Errorf ''too many results'')) (\<lambda>_.
     for_each validate_account_result (sr_Results sar))))"

definition put_solana_account_resp :: "SolanaAccountQueryResponse \<Rightarrow> byte list" where
  "put_solana_account_resp sar = put (sr_SlotNumber sar) @ put_micros (sr_BlockTime sar) @
     sr_BlockHash sar @ put_list8 put_account_result (sr_Results sar)"

definition SolanaAccountResp_Marshal :: "SolanaAccountQueryResponse \<Rightarrow> go_error + byte list" where
  "SolanaAccountResp_Marshal sar = chk (SolanaAccountResp_Validate sar) (\<lambda>_. Inr (put_solana_account_resp sar))"

definition SolanaAccountResp_UnmarshalFromReader :: "reader \<Rightarrow> go_error + SolanaAccountQueryResponse \<times> reader" where
  "SolanaAccountResp_UnmarshalFromReader r =
     chk (wrap ''failed to read slot number'' (binary_read r)) (\<lambda>(slot, r).
     chk (read_micros ''failed to read block time'' r) (\<lambda>(time, r).
     chk (read_buf ''failed to read block hash'' SolanaPublicKeyLength r) (\<lambda>(hash, r).
     chk (read_list8 ''failed to read number of results'' read_account_result r) (\<lambda>(results, r).
     Inr (\<lparr>sr_SlotNumber = slot, sr_BlockTime = time, sr_BlockHash = hash, sr_Results = results\<rparr>, r)))))"

definition SolanaAccountResp_Equal ::
  "SolanaAccountQueryResponse \<Rightarrow> SolanaAccountQueryResponse \<Rightarrow> go_error + bool" where
  "SolanaAccountResp_Equal l r =
     (if sr_SlotNumber l \<noteq> sr_SlotNumber r \<or> sr_BlockTime l \<noteq> sr_BlockTime r \<or> sr_BlockHash l \<noteq> sr_BlockHash r
      then Inr False
      else if length (sr_Results l) \<noteq> length (sr_Results r) then Inr False
      else equal_loop account_result_equal (sr_Results l) (sr_Results r))"

interpretation account_result: tail_codec put_account_result read_account_result
  "\<lambda>x. validate_account_result x = Inr ()" "\<lambda>x. sar_Data x \<noteq> []"
proof
  fix x :: SolanaAccountResult and r
  assume "validate_account_result x = Inr ()"
  then have ok: "length (sar_Owner x) = 32" "length (sar_Data x) \<le> 4294967295"
    by (auto simp: validate_account_result_def chk_eq_Inr query_consts)
  show "read_account_result (put_account_result x @ r) = Inr (x, r)" if "r \<noteq> [] \<or> sar_Data x \<noteq> []"
    using ok that by (simp add: read_account_result_def put_account_result_def query_consts codec_simps
        result_blob.dec_more)
  show "\<exists>e. read_account_result (put_account_result x) = Inl e" if "\<not> sar_Data x \<noteq> []"
    using ok that result_blob.dec_short [of "sar_Data x" "''failed to read data len''" "''failed to read data''"]
    by (auto simp: read_account_result_def put_account_result_def query_consts codec_simps)
qed (simp add: put_account_result_def)

interpretation solana_account_resp: chain_specific_response put_solana_account_resp
  SolanaAccountResp_UnmarshalFromReader
  "\<lambda>q. SolanaAccountResp_Validate q = Inr () \<and> micros_time (sr_BlockTime q)"
  "\<lambda>q. sar_Data (last (sr_Results q)) \<noteq> []"
  SolanaAccountResp_Validate SolanaAccountResp_Marshal SolanaAccountResp_Equal
proof
  fix q :: SolanaAccountQueryResponse and r
  assume "SolanaAccountResp_Validate q = Inr () \<and> micros_time (sr_BlockTime q)"
  then have ok: "length (sr_BlockHash q) = 32" "sr_Results q \<noteq> []" "length (sr_Results q) \<le> 255"
      "list_all (\<lambda>x. validate_account_result x = Inr ()) (sr_Results q)" "micros_time (sr_BlockTime q)"
    by (auto simp: SolanaAccountResp_Validate_def chk_eq_Inr for_each_list_all query_consts)
  show "SolanaAccountResp_UnmarshalFromReader (put_solana_account_resp q @ r) = Inr (q, r)"
    if "r \<noteq> [] \<or> sar_Data (last (sr_Results q)) \<noteq> []"
    using ok that by (simp add: SolanaAccountResp_UnmarshalFromReader_def put_solana_account_resp_def
        query_consts codec_simps account_result.list8_more)
  show "\<exists>e. SolanaAccountResp_UnmarshalFromReader (put_solana_account_resp q) = Inl e"
    if "\<not> sar_Data (last (sr_Results q)) \<noteq> []"
    using ok that account_result.list8_short [of "sr_Results q" "''failed to read number of results''"]
    by (auto simp: SolanaAccountResp_UnmarshalFromReader_def put_solana_account_resp_def query_consts codec_simps)
next
  fix p q :: SolanaAccountQueryResponse
  have "account_result_equal x y = Inr (x = y)" for x y
    by (cases x; cases y) (auto simp: account_result_equal_def)
  then have "length (sr_Results p) = length (sr_Results q) \<Longrightarrow>
      equal_loop account_result_equal (sr_Results p) (sr_Results q) = Inr (sr_Results p = sr_Results q)"
    by (intro equal_loop_eq) simp_all
  then show "SolanaAccountResp_Equal p q = Inr (p = q)"
    by (cases p; cases q) (auto simp: SolanaAccountResp_Equal_def)
qed (simp_all add: SolanaAccountResp_Marshal_def put_solana_account_resp_def)

section \<open>sol_pda\<close>

record SolanaPdaResult =
  spr_Account :: "byte list"
  spr_Bump :: byte
  spr_Lamports :: "64 word"
  spr_RentEpoch :: "64 word"
  spr_Executable :: bool
  spr_Owner :: "byte list"
  spr_Data :: "byte list"

record SolanaPdaQueryResponse =
  spq_SlotNumber :: "64 word"
  spq_BlockTime :: time
  spq_BlockHash :: "byte list"
  spq_Results :: "SolanaPdaResult list"

definition validate_pda_result :: "SolanaPdaResult \<Rightarrow> go_error + unit" where
  "validate_pda_result res =
     chk (guard_err (length (spr_Account res) \<noteq> SolanaPublicKeyLength) (Errorf ''invalid account length'')) (\<lambda>_.
     chk (guard_err (length (spr_Owner res) \<noteq> SolanaPublicKeyLength) (Errorf ''invalid owner length'')) (\<lambda>_.
     guard_err (4294967295 < length (spr_Data res)) (Errorf ''data too long'')))"

definition put_pda_result :: "SolanaPdaResult \<Rightarrow> byte list" where
  "put_pda_result res = spr_Account res @ put (spr_Bump res) @ put (spr_Lamports res) @ put (spr_RentEpoch res) @
     put_bool (spr_Executable res) @ spr_Owner res @ put_blob (spr_Data res)"

definition read_pda_result :: "reader \<Rightarrow> go_error + SolanaPdaResult \<times> reader" where
  "read_pda_result r =
     chk (read_buf ''failed to read account'' SolanaPublicKeyLength r) (\<lambda>(account, r).
     chk (wrap ''failed to read bump'' (binary_read r)) (\<lambda>(bump, r).
     chk (wrap ''failed to read lamports'' (binary_read r)) (\<lambda>(lamports, r).
     chk (wrap ''failed to read rent epoch'' (binary_read r)) (\<lambda>(rentEpoch, r).
     chk (wrap ''failed to read executable flag'' (binary_read_bool r)) (\<lambda>(executable, r).
     chk (read_buf ''failed to read owner'' SolanaPublicKeyLength r) (\<lambda>(owner, r).
     chk (read_blob ''failed to read data len'' ''failed to read data'' r) (\<lambda>(data, r).
     Inr (\<lparr>spr_Account = account, spr_Bump = bump, spr_Lamports = lamports, spr_RentEpoch = rentEpoch,
           spr_Executable = executable, spr_Owner = owner, spr_Data = data\<rparr>, r))))))))"

definition pda_result_equal :: "SolanaPdaResult \<Rightarrow> SolanaPdaResult \<Rightarrow> go_error + bool" where
  "pda_result_equal l r =
     Inr (\<not> (spr_Account l \<noteq> spr_Account r \<or> spr_Bump l \<noteq> spr_Bump r \<or> spr_Lamports l \<noteq> spr_Lamports r \<or>
       spr_RentEpoch l \<noteq> spr_RentEpoch r \<or> spr_Executable l \<noteq> spr_Executable r \<or>
       spr_Owner l \<noteq> spr_Owner r \<or> spr_Data l \<noteq> spr_Data r))"

definition SolanaPdaResp_Validate :: "SolanaPdaQueryResponse \<Rightarrow> go_error + unit" where
  "SolanaPdaResp_Validate sar =
     chk (guard_err (length (spq_BlockHash sar) \<noteq> SolanaPublicKeyLength) (Errorf ''invalid block hash length'')) (\<lambda>_.
     chk (guard_err (length (spq_Results sar) \<le> 0) (Errorf ''does not contain any results'')) (\<lambda>_.
     chk (guard_err (255 < length (spq_Results sar)) (Errorf ''too many results'')) (\<lambda>_.
     for_each validate_pda_result (spq_Results sar))))"

definition put_solana_pda_resp :: "SolanaPdaQueryResponse \<Rightarrow> byte list" where
  "put_solana_pda_resp sar = put (spq_SlotNumber sar) @ put_micros (spq_BlockTime sar) @
     spq_BlockHash sar @ put_list8 put_pda_result (spq_Results sar)"

definition SolanaPdaResp_Marshal :: "SolanaPdaQueryResponse \<Rightarrow> go_error + byte list" where
  "SolanaPdaResp_Marshal sar = chk (SolanaPdaResp_Validate sar) (\<lambda>_. Inr (put_solana_pda_resp sar))"

definition SolanaPdaResp_UnmarshalFromReader :: "reader \<Rightarrow> go_error + SolanaPdaQueryResponse \<times> reader" where
  "SolanaPdaResp_UnmarshalFromReader r =
     chk (wrap ''failed to read slot number'' (binary_read r)) (\<lambda>(slot, r).
     chk (read_micros ''failed to read block time'' r) (\<lambda>(time, r).
     chk (read_buf ''failed to read block hash'' SolanaPublicKeyLength r) (\<lambda>(hash, r).
     chk (read_list8 ''failed to read number of results'' read_pda_result r) (\<lambda>(results, r).
     Inr (\<lparr>spq_SlotNumber = slot, spq_BlockTime = time, spq_BlockHash = hash, spq_Results = results\<rparr>, r)))))"

definition SolanaPdaResp_Equal :: "SolanaPdaQueryResponse \<Rightarrow> SolanaPdaQueryResponse \<Rightarrow> go_error + bool" where
  "SolanaPdaResp_Equal l r =
     (if spq_SlotNumber l \<noteq> spq_SlotNumber r \<or> spq_BlockTime l \<noteq> spq_BlockTime r \<or> spq_BlockHash l \<noteq> spq_BlockHash r
      then Inr False
      else if length (spq_Results l) \<noteq> length (spq_Results r) then Inr False
      else equal_loop pda_result_equal (spq_Results l) (spq_Results r))"

interpretation pda_result: tail_codec put_pda_result read_pda_result
  "\<lambda>x. validate_pda_result x = Inr ()" "\<lambda>x. spr_Data x \<noteq> []"
proof
  fix x :: SolanaPdaResult and r
  assume "validate_pda_result x = Inr ()"
  then have ok: "length (spr_Account x) = 32" "length (spr_Owner x) = 32" "length (spr_Data x) \<le> 4294967295"
    by (auto simp: validate_pda_result_def chk_eq_Inr query_consts)
  note bump = binary_read_sizes(1) [of "spr_Bump x", simplified]
  show "read_pda_result (put_pda_result x @ r) = Inr (x, r)" if "r \<noteq> [] \<or> spr_Data x \<noteq> []"
    using ok that by (simp add: read_pda_result_def put_pda_result_def query_consts codec_simps bump
        result_blob.dec_more)
  show "\<exists>e. read_pda_result (put_pda_result x) = Inl e" if "\<not> spr_Data x \<noteq> []"
    using ok that result_blob.dec_short [of "spr_Data x" "''failed to read data len''" "''failed to read data''"]
    by (auto simp: read_pda_result_def put_pda_result_def query_consts codec_simps bump)
qed (simp add: put_pda_result_def)

interpretation solana_pda_resp: chain_specific_response put_solana_pda_resp
  SolanaPdaResp_UnmarshalFromReader
  "\<lambda>q. SolanaPdaResp_Validate q = Inr () \<and> micros_time (spq_BlockTime q)"
  "\<lambda>q. spr_Data (last (spq_Results q)) \<noteq> []"
  SolanaPdaResp_Validate SolanaPdaResp_Marshal SolanaPdaResp_Equal
proof
  fix q :: SolanaPdaQueryResponse and r
  assume "SolanaPdaResp_Validate q = Inr () \<and> micros_time (spq_BlockTime q)"
  then have ok: "length (spq_BlockHash q) = 32" "spq_Results q \<noteq> []" "length (spq_Results q) \<le> 255"
      "list_all (\<lambda>x. validate_pda_result x = Inr ()) (spq_Results q)" "micros_time (spq_BlockTime q)"
    by (auto simp: SolanaPdaResp_Validate_def chk_eq_Inr for_each_list_all query_consts)
  show "SolanaPdaResp_UnmarshalFromReader (put_solana_pda_resp q @ r) = Inr (q, r)"
    if "r \<noteq> [] \<or> spr_Data (last (spq_Results q)) \<noteq> []"
    using ok that by (simp add: SolanaPdaResp_UnmarshalFromReader_def put_solana_pda_resp_def
        query_consts codec_simps pda_result.list8_more)
  show "\<exists>e. SolanaPdaResp_UnmarshalFromReader (put_solana_pda_resp q) = Inl e"
    if "\<not> spr_Data (last (spq_Results q)) \<noteq> []"
    using ok that pda_result.list8_short [of "spq_Results q" "''failed to read number of results''"]
    by (auto simp: SolanaPdaResp_UnmarshalFromReader_def put_solana_pda_resp_def query_consts codec_simps)
next
  fix p q :: SolanaPdaQueryResponse
  have "pda_result_equal x y = Inr (x = y)" for x y
    by (cases x; cases y) (auto simp: pda_result_equal_def)
  then have "length (spq_Results p) = length (spq_Results q) \<Longrightarrow>
      equal_loop pda_result_equal (spq_Results p) (spq_Results q) = Inr (spq_Results p = spq_Results q)"
    by (intro equal_loop_eq) simp_all
  then show "SolanaPdaResp_Equal p q = Inr (p = q)"
    by (cases p; cases q) (auto simp: SolanaPdaResp_Equal_def)
qed (simp_all add: SolanaPdaResp_Marshal_def put_solana_pda_resp_def)

section \<open>The per chain response\<close>

datatype ChainSpecificResponse =
    EthCallResponse EthCallQueryResponse
  | EthCallByTimestampResponse EthCallByTimestampQueryResponse
  | EthCallWithFinalityResponse EthCallWithFinalityQueryResponse
  | SolanaAccountResponse SolanaAccountQueryResponse
  | SolanaPdaResponse SolanaPdaQueryResponse

record PerChainQueryResponse =
  pcr_ChainId :: ChainID
  pcr_Response :: "ChainSpecificResponse option"

fun Response_Type :: "ChainSpecificResponse \<Rightarrow> ChainSpecificQueryType" where
  "Response_Type (EthCallResponse _) = EthCallQueryRequestType"
| "Response_Type (EthCallByTimestampResponse _) = EthCallByTimestampQueryRequestType"
| "Response_Type (EthCallWithFinalityResponse _) = EthCallWithFinalityQueryRequestType"
| "Response_Type (SolanaAccountResponse _) = SolanaAccountQueryRequestType"
| "Response_Type (SolanaPdaResponse _) = SolanaPdaQueryRequestType"

fun Response_Validate :: "ChainSpecificResponse \<Rightarrow> go_error + unit" where
  "Response_Validate (EthCallResponse q) = EthCallResp_Validate q"
| "Response_Validate (EthCallByTimestampResponse q) = EthCallByTimestampResp_Validate q"
| "Response_Validate (EthCallWithFinalityResponse q) = EthCallWithFinalityResp_Validate q"
| "Response_Validate (SolanaAccountResponse q) = SolanaAccountResp_Validate q"
| "Response_Validate (SolanaPdaResponse q) = SolanaPdaResp_Validate q"

fun Response_Marshal :: "ChainSpecificResponse \<Rightarrow> go_error + byte list" where
  "Response_Marshal (EthCallResponse q) = EthCallResp_Marshal q"
| "Response_Marshal (EthCallByTimestampResponse q) = EthCallByTimestampResp_Marshal q"
| "Response_Marshal (EthCallWithFinalityResponse q) = EthCallWithFinalityResp_Marshal q"
| "Response_Marshal (SolanaAccountResponse q) = SolanaAccountResp_Marshal q"
| "Response_Marshal (SolanaPdaResponse q) = SolanaPdaResp_Marshal q"

fun put_response :: "ChainSpecificResponse \<Rightarrow> byte list" where
  "put_response (EthCallResponse q) = put_eth_call_resp q"
| "put_response (EthCallByTimestampResponse q) = put_eth_call_by_timestamp_resp q"
| "put_response (EthCallWithFinalityResponse q) = put_eth_call_with_finality_resp q"
| "put_response (SolanaAccountResponse q) = put_solana_account_resp q"
| "put_response (SolanaPdaResponse q) = put_solana_pda_resp q"

text \<open>Times that fit the wire format, and whether the last result carries any data.\<close>

fun response_times :: "ChainSpecificResponse \<Rightarrow> bool" where
  "response_times (EthCallResponse q) = micros_time (er_Time q)"
| "response_times (EthCallByTimestampResponse q) =
     (micros_time (etr_TargetBlockTime q) \<and> micros_time (etr_FollowingBlockTime q))"
| "response_times (EthCallWithFinalityResponse q) = micros_time (efr_Time q)"
| "response_times (SolanaAccountResponse q) = micros_time (sr_BlockTime q)"
| "response_times (SolanaPdaResponse q) = micros_time (spq_BlockTime q)"

fun response_ends :: "ChainSpecificResponse \<Rightarrow> bool" where
  "response_ends (EthCallResponse q) = (last (er_Results q) \<noteq> [])"
| "response_ends (EthCallByTimestampResponse q) = (last (etr_Results q) \<noteq> [])"
| "response_ends (EthCallWithFinalityResponse q) = (last (efr_Results q) \<noteq> [])"
| "response_ends (SolanaAccountResponse q) = (sar_Data (last (sr_Results q)) \<noteq> [])"
| "response_ends (SolanaPdaResponse q) = (spr_Data (last (spq_Results q)) \<noteq> [])"

definition PerChainResponse_Validate :: "PerChainQueryResponse \<Rightarrow> go_error + unit" where
  "PerChainResponse_Validate p =
     chk (or_err (Errorf ''invalid chainID'') (ChainIDFromString (ChainID_String (pcr_ChainId p)))) (\<lambda>_.
     case pcr_Response p of
       None \<Rightarrow> Inl (Errorf ''response is nil'')
     | Some q \<Rightarrow> chk (ValidatePerChainQueryRequestType (Response_Type q)) (\<lambda>_.
         wrap ''chain specific response is invalid'' (Response_Validate q)))"

definition PerChainResponse_Marshal :: "PerChainQueryResponse \<Rightarrow> go_error + byte list" where
  "PerChainResponse_Marshal p =
     chk (PerChainResponse_Validate p) (\<lambda>_.
     case pcr_Response p of
       None \<Rightarrow> Inl (Panic ''nil pointer dereference'')
     | Some q \<Rightarrow> chk (Response_Marshal q) (\<lambda>respBuf.
         chk (guard_err (4294967295 < length respBuf) (Errorf ''response is too long'')) (\<lambda>_.
         Inr (put (pcr_ChainId p) @ put (Response_Type q) @ put (word_of_nat (length respBuf) :: 32 word) @
           respBuf))))"

definition read_response :: "ChainSpecificQueryType \<Rightarrow> reader \<Rightarrow> go_error + ChainSpecificResponse \<times> reader" where
  "read_response queryType r =
     (if queryType = EthCallQueryRequestType then
        chk (wrap ''failed to unmarshal eth call response'' (EthCallResp_UnmarshalFromReader r))
          (\<lambda>(q, r). Inr (EthCallResponse q, r))
      else if queryType = EthCallByTimestampQueryRequestType then
        chk (wrap ''failed to unmarshal eth call by timestamp response'' (EthCallByTimestampResp_UnmarshalFromReader r))
          (\<lambda>(q, r). Inr (EthCallByTimestampResponse q, r))
      else if queryType = EthCallWithFinalityQueryRequestType then
        chk (wrap ''failed to unmarshal eth call with finality response'' (EthCallWithFinalityResp_UnmarshalFromReader r))
          (\<lambda>(q, r). Inr (EthCallWithFinalityResponse q, r))
      else if queryType = SolanaAccountQueryRequestType then
        chk (wrap ''failed to unmarshal sol_account response'' (SolanaAccountResp_UnmarshalFromReader r))
          (\<lambda>(q, r). Inr (SolanaAccountResponse q, r))
      else if queryType = SolanaPdaQueryRequestType then
        chk (wrap ''failed to unmarshal sol_account response'' (SolanaPdaResp_UnmarshalFromReader r))
          (\<lambda>(q, r). Inr (SolanaPdaResponse q, r))
      else Inl (Errorf ''unsupported query type''))"

definition PerChainResponse_UnmarshalFromReader :: "reader \<Rightarrow> go_error + PerChainQueryResponse \<times> reader" where
  "PerChainResponse_UnmarshalFromReader r =
     chk (wrap ''failed to read response chain'' (binary_read r)) (\<lambda>(chainId, r).
     chk (wrap ''failed to read response type'' (binary_read r)) (\<lambda>(queryType, r).
     chk (ValidatePerChainQueryRequestType queryType) (\<lambda>_.
     chk (wrap ''failed to read response length'' (binary_read r)) (\<lambda>(respLength :: 32 word, r).
     chk (read_response queryType r) (\<lambda>(q, r).
     Inr (\<lparr>pcr_ChainId = chainId, pcr_Response = Some q\<rparr>, r))))))"

fun Response_Equal :: "ChainSpecificResponse \<Rightarrow> ChainSpecificResponse \<Rightarrow> go_error + bool" where
  "Response_Equal (EthCallResponse l) (EthCallResponse r) = EthCallResp_Equal l r"
| "Response_Equal (EthCallByTimestampResponse l) (EthCallByTimestampResponse r) = EthCallByTimestampResp_Equal l r"
| "Response_Equal (EthCallWithFinalityResponse l) (EthCallWithFinalityResponse r) = EthCallWithFinalityResp_Equal l r"
| "Response_Equal (SolanaAccountResponse l) (SolanaAccountResponse r) = SolanaAccountResp_Equal l r"
| "Response_Equal (SolanaPdaResponse l) (SolanaPdaResponse r) = SolanaPdaResp_Equal l r"
| "Response_Equal _ _ = Inl (Panic ''unsupported query type on right'')"

definition PerChainResponse_Equal :: "PerChainQueryResponse \<Rightarrow> PerChainQueryResponse \<Rightarrow> go_error + bool" where
  "PerChainResponse_Equal l r =
     (if pcr_ChainId l \<noteq> pcr_ChainId r then Inr False
      else case (pcr_Response l, pcr_Response r) of
        (None, None) \<Rightarrow> Inr True
      | (Some ql, Some qr) \<Rightarrow> if Response_Type ql \<noteq> Response_Type qr then Inr False else Response_Equal ql qr
      | _ \<Rightarrow> Inr False)"

lemma Response_Marshal_iff: "Response_Marshal q = Inr d \<longleftrightarrow> Response_Validate q = Inr () \<and> d = put_response q"
  by (cases q) (auto simp: eth_call_resp.marshal_iff eth_call_by_timestamp_resp.marshal_iff
      eth_call_with_finality_resp.marshal_iff solana_account_resp.marshal_iff solana_pda_resp.marshal_iff)

lemma read_response_more:
  "Response_Validate q = Inr () \<Longrightarrow> response_times q \<Longrightarrow> r \<noteq> [] \<or> response_ends q \<Longrightarrow>
     read_response (Response_Type q) (put_response q @ r) = Inr (q, r)"
  by (cases q) (simp_all add: read_response_def query_consts eth_call_resp.dec_more
      eth_call_by_timestamp_resp.dec_more eth_call_with_finality_resp.dec_more
      solana_account_resp.dec_more solana_pda_resp.dec_more)

lemma read_response_short:
  assumes "Response_Validate q = Inr ()" and "response_times q" and "\<not> response_ends q"
  shows "\<exists>e. read_response (Response_Type q) (put_response q) = Inl e"
proof (cases q)
  case (EthCallResponse x)
  with assms show ?thesis
    using eth_call_resp.dec_short [of x] by (auto simp: read_response_def query_consts)
next
  case (EthCallByTimestampResponse x)
  with assms show ?thesis
    using eth_call_by_timestamp_resp.dec_short [of x] by (auto simp: read_response_def query_consts)
next
  case (EthCallWithFinalityResponse x)
  with assms show ?thesis
    using eth_call_with_finality_resp.dec_short [of x] by (auto simp: read_response_def query_consts)
next
  case (SolanaAccountResponse x)
  with assms show ?thesis
    using solana_account_resp.dec_short [of x] by (auto simp: read_response_def query_consts)
next
  case (SolanaPdaResponse x)
  with assms show ?thesis
    using solana_pda_resp.dec_short [of x] by (auto simp: read_response_def query_consts)
qed

lemma Response_Type_valid [simp]: "ValidatePerChainQueryRequestType (Response_Type q) = Inr ()"
  by (cases q) (simp_all add: ValidatePerChainQueryRequestType_def)

definition put_per_chain_resp :: "PerChainQueryResponse \<Rightarrow> byte list" where
  "put_per_chain_resp p = put (pcr_ChainId p) @ (case pcr_Response p of None \<Rightarrow> []
     | Some q \<Rightarrow> put (Response_Type q) @ put (word_of_nat (length (put_response q)) :: 32 word) @ put_response q)"

definition per_chain_resp_ok :: "PerChainQueryResponse \<Rightarrow> bool" where
  "per_chain_resp_ok p \<longleftrightarrow> PerChainResponse_Validate p = Inr () \<and>
     (case pcr_Response p of None \<Rightarrow> False | Some q \<Rightarrow> response_times q)"

definition per_chain_resp_ends :: "PerChainQueryResponse \<Rightarrow> bool" where
  "per_chain_resp_ends p \<longleftrightarrow> (case pcr_Response p of None \<Rightarrow> False | Some q \<Rightarrow> response_ends q)"

lemma PerChainResponse_Validate_Some:
  "PerChainResponse_Validate p = Inr () \<Longrightarrow> \<exists>q. pcr_Response p = Some q \<and> Response_Validate q = Inr ()"
  by (auto simp: PerChainResponse_Validate_def chk_eq_Inr split: option.splits)

lemma PerChainResponse_Marshal_Inr:
  "PerChainResponse_Marshal p = Inr d \<Longrightarrow> PerChainResponse_Validate p = Inr () \<and> d = put_per_chain_resp p"
  by (auto simp: PerChainResponse_Marshal_def chk_eq_Inr Response_Marshal_iff put_per_chain_resp_def
      split: option.splits)

interpretation per_chain_resp: tail_codec put_per_chain_resp PerChainResponse_UnmarshalFromReader
  per_chain_resp_ok per_chain_resp_ends
proof
  fix p r
  assume "per_chain_resp_ok p"
  then obtain q where q: "pcr_Response p = Some q" "Response_Validate q = Inr ()" "response_times q"
    using PerChainResponse_Validate_Some [of p] by (auto simp: per_chain_resp_ok_def)
  note tag = binary_read_sizes(1) [of "Response_Type q", simplified]
  show "PerChainResponse_UnmarshalFromReader (put_per_chain_resp p @ r) = Inr (p, r)"
    if "r \<noteq> [] \<or> per_chain_resp_ends p"
    using q that by (cases p) (simp add: PerChainResponse_UnmarshalFromReader_def put_per_chain_resp_def
        per_chain_resp_ends_def codec_simps tag read_response_more)
  show "\<exists>e. PerChainResponse_UnmarshalFromReader (put_per_chain_resp p) = Inl e" if "\<not> per_chain_resp_ends p"
    using q that read_response_short [of q]
    by (auto simp: PerChainResponse_UnmarshalFromReader_def put_per_chain_resp_def per_chain_resp_ends_def
        codec_simps tag)
qed (simp add: put_per_chain_resp_def)

lemma PerChainResponse_Equal_iff: "PerChainResponse_Equal l r = Inr (l = r)"
proof -
  have "Response_Type x = Response_Type y \<Longrightarrow> Response_Equal x y = Inr (x = y)" for x y
    by (cases x; cases y) (simp_all add: query_consts eth_call_resp.equal_iff
        eth_call_by_timestamp_resp.equal_iff eth_call_with_finality_resp.equal_iff
        solana_account_resp.equal_iff solana_pda_resp.equal_iff)
  moreover have "Response_Type x \<noteq> Response_Type y \<Longrightarrow> x \<noteq> y" for x y
    by auto
  ultimately show ?thesis
    by (cases l; cases r) (auto simp: PerChainResponse_Equal_def split: option.splits)
qed

section \<open>The publication\<close>

record QueryResponsePublication =
  qrp_Request :: SignedQueryRequest
  qrp_PerChainResponses :: "PerChainQueryResponse list"

text \<open>The checks of one iteration of Validate's loop.\<close>

definition check_answer :: "PerChainQueryResponse \<times> PerChainQueryRequest \<Rightarrow> go_error + unit" where
  "check_answer = (\<lambda>(pcr, q).
     chk (wrap ''failed to validate per chain query'' (PerChainResponse_Validate pcr)) (\<lambda>_.
     case (pcr_Response pcr, pcq_Query q) of
       (Some resp, Some query) \<Rightarrow>
         guard_err (Response_Type resp \<noteq> Query_Type query) (Errorf ''type of response does not match the query'')
     | _ \<Rightarrow> Inl (Panic ''nil pointer dereference'')))"

definition Publication_Validate :: "QueryResponsePublication \<Rightarrow> go_error + unit" where
  "Publication_Validate msg =
     chk (wrap ''failed to unmarshal query request'' (QueryRequest_Unmarshal (sqr_QueryRequest (qrp_Request msg)))) (\<lambda>queryRequest.
     chk (wrap ''query request is invalid'' (QueryRequest_Validate queryRequest)) (\<lambda>_.
     chk (guard_err (length (qrp_PerChainResponses msg) \<le> 0) (Errorf ''response does not contain any per chain responses'')) (\<lambda>_.
     chk (guard_err (255 < length (qrp_PerChainResponses msg)) (Errorf ''too many per chain responses'')) (\<lambda>_.
     chk (guard_err (length (qrp_PerChainResponses msg) \<noteq> length (qr_PerChainQueries queryRequest))
       (Errorf ''number of responses does not match number of queries'')) (\<lambda>_.
     for_each check_answer (zip (qrp_PerChainResponses msg) (qr_PerChainQueries queryRequest)))))))"

definition Publication_Marshal :: "QueryResponsePublication \<Rightarrow> go_error + byte list" where
  "Publication_Marshal msg =
     chk (Publication_Validate msg) (\<lambda>_.
     let request = qrp_Request msg in
     chk (guard_err (4294967295 < length (sqr_QueryRequest request)) (Errorf ''request too long'')) (\<lambda>_.
     chk (map_err (\<lambda>p. wrap ''failed to marshal per chain response'' (PerChainResponse_Marshal p)) (qrp_PerChainResponses msg)) (\<lambda>bufs.
     Inr (put (1 :: 8 word) @ put ChainIDUnset @ sqr_Signature request @
       put (word_of_nat (length (sqr_QueryRequest request)) :: 32 word) @ sqr_QueryRequest request @
       put (word_of_nat (length (qrp_PerChainResponses msg)) :: 8 word) @ concat bufs))))"

definition Publication_Unmarshal :: "byte list \<Rightarrow> go_error + QueryResponsePublication" where
  "Publication_Unmarshal data =
     chk (wrap ''failed to read message version'' (binary_read data)) (\<lambda>(version :: 8 word, r).
     chk (guard_err (version \<noteq> 1) (Errorf ''unsupported message version'')) (\<lambda>_.
     chk (wrap ''failed to read request chain'' (binary_read r)) (\<lambda>(requestChain, r).
     chk (guard_err (requestChain \<noteq> ChainIDUnset) (Errorf ''unsupported request chain'')) (\<lambda>_.
     chk (read_buf ''failed to read signature'' 65 r) (\<lambda>(signature, r).
     chk (read_blob ''failed to read length of query request'' ''failed to read query request'' r) (\<lambda>(requestBytes, r).
     chk (wrap ''failed to unmarshal query request'' (QueryRequest_UnmarshalFromReader requestBytes)) (\<lambda>queryRequest.
     chk (QueryRequest_Marshal queryRequest) (\<lambda>queryRequestBytes.
     chk (read_list8 ''failed to read number of per chain responses''
       (\<lambda>r. wrap ''failed to unmarshal per chain response'' (PerChainResponse_UnmarshalFromReader r)) r) (\<lambda>(responses, r).
     chk (guard_err (length r \<noteq> 0) (Errorf ''excess bytes in unmarshal'')) (\<lambda>_.
     let msg = \<lparr>qrp_Request = \<lparr>sqr_QueryRequest = queryRequestBytes, sqr_Signature = signature\<rparr>,
                qrp_PerChainResponses = responses\<rparr> in
     chk (wrap ''unmarshaled response failed validation'' (Publication_Validate msg)) (\<lambda>_. Inr msg)))))))))))"

definition Publication_Equal :: "QueryResponsePublication \<Rightarrow> QueryResponsePublication \<Rightarrow> go_error + bool" where
  "Publication_Equal l r =
     (if sqr_QueryRequest (qrp_Request l) \<noteq> sqr_QueryRequest (qrp_Request r) \<or>
         sqr_Signature (qrp_Request l) \<noteq> sqr_Signature (qrp_Request r) then Inr False
      else if length (qrp_PerChainResponses l) \<noteq> length (qrp_PerChainResponses r) then Inr False
      else equal_loop PerChainResponse_Equal (qrp_PerChainResponses l) (qrp_PerChainResponses r))"

definition queryResponsePrefix :: "byte list" where
  "queryResponsePrefix = bytes_of ''query_response_0000000000000000000|''"

definition GetQueryResponseDigestFromBytes :: "crypto \<Rightarrow> byte list \<Rightarrow> byte list" where
  "GetQueryResponseDigestFromBytes c b = Keccak256 c (queryResponsePrefix @ Keccak256 c b)"

definition Publication_SigningDigest :: "crypto \<Rightarrow> QueryResponsePublication \<Rightarrow> go_error + byte list" where
  "Publication_SigningDigest c msg =
     chk (Publication_Marshal msg) (\<lambda>msgBytes. Inr (GetQueryResponseDigestFromBytes c msgBytes))"

text \<open>\<open>Signature\<close> of a nil publication or one without a request is the text nil.\<close>

definition Publication_Signature :: "QueryResponsePublication option \<Rightarrow> string" where
  "Publication_Signature resp = (case resp of None \<Rightarrow> ''nil'' | Some r \<Rightarrow> hex_encode (sqr_Signature (qrp_Request r)))"

lemma length_queryResponsePrefix [simp]: "length queryResponsePrefix = 35"
  by (simp add: queryResponsePrefix_def)

lemma check_answer_iff:
  "check_answer (p, q) = Inr () \<longleftrightarrow> PerChainResponse_Validate p = Inr () \<and>
     (\<exists>resp query. pcr_Response p = Some resp \<and> pcq_Query q = Some query \<and> Response_Type resp = Query_Type query)"
  by (auto simp: check_answer_def chk_eq_Inr split: option.splits)

lemma Publication_Validate_iff:
  "Publication_Validate m = Inr () \<longleftrightarrow>
     (\<exists>rq. QueryRequest_Unmarshal (sqr_QueryRequest (qrp_Request m)) = Inr rq \<and>
       qrp_PerChainResponses m \<noteq> [] \<and> length (qrp_PerChainResponses m) \<le> 255 \<and>
       list_all2 (\<lambda>p q. check_answer (p, q) = Inr ()) (qrp_PerChainResponses m) (qr_PerChainQueries rq))"
  by (auto simp: Publication_Validate_def chk_eq_Inr for_each_eq_Inr list_all2_iff not_less
      dest: QueryRequest_read_exact)

definition put_publication :: "QueryResponsePublication \<Rightarrow> byte list" where
  "put_publication m = put (1 :: 8 word) @ put ChainIDUnset @ sqr_Signature (qrp_Request m) @
     put_blob (sqr_QueryRequest (qrp_Request m)) @ put_list8 put_per_chain_resp (qrp_PerChainResponses m)"

lemma Publication_Marshal_Inr:
  assumes "Publication_Marshal m = Inr d"
  shows "Publication_Validate m = Inr () \<and> length (sqr_QueryRequest (qrp_Request m)) \<le> 4294967295 \<and>
    d = put_publication m"
proof -
  have bufs: "bufs = map put_per_chain_resp ps"
    if "list_all2 (\<lambda>p b. PerChainResponse_Marshal p = Inr b) ps bufs" for ps bufs
    using that by induction (auto dest: PerChainResponse_Marshal_Inr)
  show ?thesis
    using assms by (auto simp: Publication_Marshal_def chk_eq_Inr Let_def map_err_eq_Inr put_publication_def
        put_blob_def put_list8_def not_less dest: bufs)
qed

text \<open>
  What Marshal does not check: the signature has 65 bytes, the request bytes are the canonical
  encoding of the request they hold, and the block times fit in microseconds.
\<close>

definition wf_publication :: "QueryResponsePublication \<Rightarrow> bool" where
  "wf_publication m \<longleftrightarrow> length (sqr_Signature (qrp_Request m)) = 65 \<and>
     (case QueryRequest_Unmarshal (sqr_QueryRequest (qrp_Request m)) of Inl _ \<Rightarrow> False
      | Inr rq \<Rightarrow> QueryRequest_Marshal rq = Inr (sqr_QueryRequest (qrp_Request m))) \<and>
     list_all (\<lambda>p. case pcr_Response p of None \<Rightarrow> False | Some q \<Rightarrow> response_times q) (qrp_PerChainResponses m)"

lemma Publication_Unmarshal_Marshal:
  assumes "wf_publication m" and "Publication_Marshal m = Inr d"
  shows "Publication_Unmarshal d = Inr m' \<longleftrightarrow> m' = m \<and> per_chain_resp_ends (last (qrp_PerChainResponses m))"
proof -
  let ?req = "sqr_QueryRequest (qrp_Request m)" and ?ps = "qrp_PerChainResponses m"
  have d: "d = put_publication m" and v: "Publication_Validate m = Inr ()" and len: "length ?req \<le> 4294967295"
    using Publication_Marshal_Inr [OF assms(2)] by auto
  obtain rq where rq: "QueryRequest_Unmarshal ?req = Inr rq" "?ps \<noteq> []" "length ?ps \<le> 255"
    and ans: "list_all2 (\<lambda>p q. check_answer (p, q) = Inr ()) ?ps (qr_PerChainQueries rq)"
    using v by (auto simp: Publication_Validate_iff)
  have "list_all (\<lambda>p. PerChainResponse_Validate p = Inr ()) ?ps"
    using ans by (auto simp: list_all2_conv_all_nth list_all_length check_answer_iff)
  then have ok: "list_all per_chain_resp_ok ?ps"
    using assms(1) by (auto simp: list_all_iff wf_publication_def per_chain_resp_ok_def)
  have canon: "QueryRequest_Marshal rq = Inr ?req"
    using assms(1) rq(1) by (simp add: wf_publication_def)
  have sig: "length (sqr_Signature (qrp_Request m)) = 65"
    using assms(1) by (simp add: wf_publication_def)
  have tail: "read_list8 msg PerChainResponse_UnmarshalFromReader (put_list8 put_per_chain_resp ?ps) = Inr (ps, r)
      \<longleftrightarrow> ps = ?ps \<and> r = [] \<and> per_chain_resp_ends (last ?ps)" for msg ps r
    using per_chain_resp.list8_more [OF ok rq(3), of "[]" msg] per_chain_resp.list8_short [OF ok rq(3), of msg] rq(2)
    by (cases "per_chain_resp_ends (last ?ps)") auto
  have one: "binary_read (1 # r) = Inr (1 :: 8 word, r)" for r
    using binary_read_sizes(1) [of 1 r] by simp
  have m: "\<lparr>qrp_Request = \<lparr>sqr_QueryRequest = ?req, sqr_Signature = sqr_Signature (qrp_Request m)\<rparr>,
      qrp_PerChainResponses = ?ps\<rparr> = m"
    by simp
  then have v': "Publication_Validate \<lparr>qrp_Request = \<lparr>sqr_QueryRequest = ?req,
      sqr_Signature = sqr_Signature (qrp_Request m)\<rparr>, qrp_PerChainResponses = ?ps\<rparr> = Inr ()"
    using v by (simp only:)
  show ?thesis
    unfolding d Publication_Unmarshal_def put_publication_def
    using sig len rq(1) canon v m
    by (auto simp: one codec_simps chk_eq_Inr QueryRequest_Unmarshal_def read_list8_wrap tail Let_def)
      (rule v')
qed

text \<open>
  What Marshal writes for a well-formed publication, Unmarshal reads back exactly when the last
  result of the last response is not empty: a publication that ends in an empty result is signed
  and sent, but every receiver that unmarshals it rejects it.
\<close>

lemma publication_roundtrip:
  assumes "wf_publication m" and "Publication_Marshal m = Inr d"
  shows "Publication_Unmarshal d = Inr m' \<longleftrightarrow> m' = m \<and> per_chain_resp_ends (last (qrp_PerChainResponses m))"
  using assms by (rule Publication_Unmarshal_Marshal)

text \<open>A publication with one response, whose single result is the argument.\<close>

definition sample_publication :: "byte list \<Rightarrow> QueryResponsePublication" where
  "sample_publication result = \<lparr>qrp_Request = \<lparr>sqr_QueryRequest = sample_query_bytes, sqr_Signature = replicate 65 9\<rparr>,
     qrp_PerChainResponses = [\<lparr>pcr_ChainId = 2, pcr_Response = Some (EthCallResponse
       \<lparr>er_BlockNumber = 42, er_Hash = replicate 32 3, er_Time = 1000, er_Results = [result]\<rparr>)\<rparr>]\<rparr>"

lemma sample_query_Unmarshal: "QueryRequest_Unmarshal sample_query_bytes = Inr sample_query"
  using sample_query_valid by (simp add: sample_query_bytes_def QueryRequest_read_put)

lemma sample_publication_wf: "wf_publication (sample_publication result)"
  by (simp add: wf_publication_def sample_publication_def sample_query_Unmarshal sample_query_Marshal
      micros_time_def)

lemma sample_publication_Marshal:
  assumes "length result \<le> 255"
  shows "\<exists>d. Publication_Marshal (sample_publication result) = Inr d"
proof -
  have "ChainIDFromString (ChainID_String 2) = Inr 2"
    by (rule network_parses) (simp add: GetAllNetworkIDs_def)
  then have pcr: "PerChainResponse_Validate (hd (qrp_PerChainResponses (sample_publication result))) = Inr ()"
    using assms by (simp add: sample_publication_def PerChainResponse_Validate_def EthCallResp_Validate_def
        validate_results_def ValidatePerChainQueryRequestType_def)
  have "check_answer (hd (qrp_PerChainResponses (sample_publication result)), hd (qr_PerChainQueries sample_query)) = Inr ()"
    using pcr by (simp add: check_answer_iff) (simp add: sample_publication_def sample_query_def)
  then have v: "Publication_Validate (sample_publication result) = Inr ()"
    unfolding Publication_Validate_iff
    by (simp add: sample_publication_def sample_query_Unmarshal) (simp add: sample_query_def)
  have len: "length sample_query_bytes \<le> 100"
    by (simp add: sample_query_bytes_def put_query_request_def sample_query_def put_per_chain_def put_eth_call_def
        put_blob_def put_call_data_list_def put_list8_def put_call_data_def)
  have "length (put_eth_call_resp \<lparr>er_BlockNumber = 42, er_Hash = replicate 32 3, er_Time = 1000, er_Results = [result]\<rparr>) \<le> 4294967295"
    using assms by (simp add: put_eth_call_resp_def put_micros_def put_results_def put_list8_def put_blob_def)
  then show ?thesis
    using v pcr len by (simp add: Publication_Marshal_def Let_def)
      (simp add: sample_publication_def PerChainResponse_Marshal_def EthCallResp_Marshal_def
        PerChainResponse_Validate_def chk_eq_Inr)
qed

theorem publication_roundtrip_witness:
  "\<exists>d d'. Publication_Marshal (sample_publication [7]) = Inr d \<and>
     Publication_Unmarshal d = Inr (sample_publication [7]) \<and>
     Publication_Marshal (sample_publication []) = Inr d' \<and> Publication_Unmarshal d' \<noteq> Inr (sample_publication [])"
proof -
  obtain d d' where d: "Publication_Marshal (sample_publication [7]) = Inr d"
    and d': "Publication_Marshal (sample_publication []) = Inr d'"
    using sample_publication_Marshal [of "[7]"] sample_publication_Marshal [of "[]"] by auto
  show ?thesis
    using d d' publication_roundtrip [OF sample_publication_wf d, of "sample_publication [7]"]
      publication_roundtrip [OF sample_publication_wf d', of "sample_publication []"]
    by (auto simp: sample_publication_def per_chain_resp_ends_def)
qed

text \<open>
  An accepted publication answers the request it carries: the request inside is valid and in
  its canonical encoding, there is one response per query, each of the query's kind and valid.
\<close>

lemma publication_answers_request:
  assumes "Publication_Unmarshal d = Inr m"
  shows "\<exists>rq. QueryRequest_Unmarshal (sqr_QueryRequest (qrp_Request m)) = Inr rq \<and>
    QueryRequest_Validate rq = Inr () \<and> QueryRequest_Marshal rq = Inr (sqr_QueryRequest (qrp_Request m)) \<and>
    list_all2 (\<lambda>p q. \<exists>resp query. pcr_Response p = Some resp \<and> Response_Validate resp = Inr () \<and>
        pcq_Query q = Some query \<and> Response_Type resp = Query_Type query)
      (qrp_PerChainResponses m) (qr_PerChainQueries rq)"
proof -
  obtain rq0 where v: "Publication_Validate m = Inr ()" and m0: "QueryRequest_Marshal rq0 = Inr (sqr_QueryRequest (qrp_Request m))"
    using assms by (auto simp: Publication_Unmarshal_def chk_eq_Inr Let_def)
  obtain rq where rq: "QueryRequest_Unmarshal (sqr_QueryRequest (qrp_Request m)) = Inr rq"
    and ans: "list_all2 (\<lambda>p q. check_answer (p, q) = Inr ()) (qrp_PerChainResponses m) (qr_PerChainQueries rq)"
    using v by (auto simp: Publication_Validate_iff)
  have "QueryRequest_Unmarshal (sqr_QueryRequest (qrp_Request m)) = Inr rq0"
    using m0 QueryRequest_read_put [of rq0 "map query_len (qr_PerChainQueries rq0)"]
    by (auto simp: QueryRequest_Marshal_iff)
  with rq have "rq0 = rq" by simp
  moreover have "list_all2 (\<lambda>p q. \<exists>resp query. pcr_Response p = Some resp \<and> Response_Validate resp = Inr () \<and>
        pcq_Query q = Some query \<and> Response_Type resp = Query_Type query)
      (qrp_PerChainResponses m) (qr_PerChainQueries rq)"
    using ans by (rule list_all2_mono) (auto simp: check_answer_iff dest: PerChainResponse_Validate_Some)
  ultimately show ?thesis
    using rq m0 QueryRequest_read_exact by blast
qed

theorem publication_answers_request_witness:
  "\<exists>d rq. Publication_Unmarshal d = Inr (sample_publication [7]) \<and>
     QueryRequest_Unmarshal (sqr_QueryRequest (qrp_Request (sample_publication [7]))) = Inr rq \<and>
     length (qrp_PerChainResponses (sample_publication [7])) = length (qr_PerChainQueries rq)"
proof -
  obtain d where d: "Publication_Marshal (sample_publication [7]) = Inr d"
    using sample_publication_Marshal [of "[7]"] by auto
  have u: "Publication_Unmarshal d = Inr (sample_publication [7])"
    using Publication_Unmarshal_Marshal [OF sample_publication_wf d, of "sample_publication [7]"]
    by (simp add: sample_publication_def per_chain_resp_ends_def)
  then show ?thesis
    using publication_answers_request [OF u] list_all2_lengthD by blast
qed

text \<open>Equal is equality of publications and never reaches a panic of the type switches.\<close>

lemma Publication_Equal_iff: "Publication_Equal l r = Inr (l = r)"
proof -
  have "length xs = length ys \<Longrightarrow> equal_loop PerChainResponse_Equal xs ys = Inr (xs = ys)" for xs ys
    by (rule equal_loop_eq) (simp_all add: PerChainResponse_Equal_iff)
  then show ?thesis
    by (cases l; cases r; cases "qrp_Request l"; cases "qrp_Request r") (auto simp: Publication_Equal_def)
qed

end
