(* ===== verification/MessagePub.thy ===== *)
theory MessagePub imports Vaa begin

text \<open>
  Observed messages: node/pkg/common/chainlock.go. The MessagePublication record, its binary form
  and the older one with a fixed 32 byte transaction hash, the transfer verification state, and the
  VAA and digest made from a message. The JSON form and the log fields are not modelled.
\<close>

datatype VerificationState = NotVerified | Rejected | Anomalous | Valid | NotApplicable

definition VerificationState_String :: "VerificationState \<Rightarrow> string" where
  "VerificationState_String v = (case v of
     NotVerified \<Rightarrow> ''NotVerified'' | Valid \<Rightarrow> ''Valid'' | Anomalous \<Rightarrow> ''Anomalous''
   | Rejected \<Rightarrow> ''Rejected'' | NotApplicable \<Rightarrow> ''NotApplicable'')"

record MessagePublication =
  mp_TxID :: "byte list"
  mp_Timestamp :: time
  mp_Nonce :: "32 word"
  mp_Sequence :: "64 word"
  mp_ConsistencyLevel :: byte
  mp_EmitterChain :: ChainID
  mp_EmitterAddress :: Address
  mp_Payload :: "byte list"
  mp_IsReobservation :: bool
  mp_Unreliable :: bool
  mp_verificationState :: VerificationState

definition TxIDString :: "MessagePublication \<Rightarrow> string" where
  "TxIDString msg = ''0x'' @ hex_encode (mp_TxID msg)"

definition MessageIDString :: "MessagePublication \<Rightarrow> string" where
  "MessageIDString msg = dec_string (unat (mp_EmitterChain msg)) @ CHR ''/'' #
     Address_String (mp_EmitterAddress msg) @ CHR ''/'' # dec_string (unat (mp_Sequence msg))"

text \<open>The setter returns its error and the message, which an error leaves as it was.\<close>

definition SetVerificationState ::
  "VerificationState \<Rightarrow> MessagePublication \<Rightarrow> (go_error + unit) \<times> MessagePublication" where
  "SetVerificationState s msg =
     (if s = NotVerified \<and> mp_verificationState msg \<noteq> NotVerified
      then (Inl (Errorf ''refusing to overwrite existing VerificationState to NotVerified state''), msg)
      else if s = mp_verificationState msg
      then (Inl (Errorf ''Message Publication already has this value''), msg)
      else (Inr (), msg\<lparr>mp_verificationState := s\<rparr>))"

section \<open>Binary form\<close>

definition minMsgLength :: nat where "minMsgLength = 88"

text \<open>The fields from the timestamp on, which both formats share.\<close>

definition put_msg_body :: "MessagePublication \<Rightarrow> byte list" where
  "put_msg_body msg =
     put (word_of_int (unix_secs (mp_Timestamp msg)) :: 32 word) @ put (mp_Nonce msg) @
     put (mp_Sequence msg) @ put (mp_ConsistencyLevel msg) @ put (mp_EmitterChain msg) @
     mp_EmitterAddress msg @ put_bool (mp_IsReobservation msg) @ mp_Payload msg"

definition MessagePublication_Marshal :: "MessagePublication \<Rightarrow> go_error + byte list" where
  "MessagePublication_Marshal msg =
     (if 255 < length (mp_TxID msg) then Inl (Errorf ''TxID too long'')
      else Inr (put (word_of_nat (length (mp_TxID msg)) :: 8 word) @ mp_TxID msg @ put_msg_body msg))"

text \<open>The zero value that \<open>msg := &MessagePublication{}\<close> starts from, with its TxID set.\<close>

definition empty_msg :: "byte list \<Rightarrow> MessagePublication" where
  "empty_msg txID = \<lparr>mp_TxID = txID, mp_Timestamp = 0, mp_Nonce = 0, mp_Sequence = 0,
     mp_ConsistencyLevel = 0, mp_EmitterChain = 0, mp_EmitterAddress = replicate 32 0,
     mp_Payload = [], mp_IsReobservation = False, mp_Unreliable = False,
     mp_verificationState = NotVerified\<rparr>"

definition read_msg_body :: "reader \<Rightarrow> MessagePublication \<Rightarrow> go_error + MessagePublication" where
  "read_msg_body r msg =
     chk (wrap ''failed to read timestamp'' (binary_read r)) (\<lambda>(unixSeconds :: 32 word, r).
     chk (wrap ''failed to read nonce'' (binary_read r)) (\<lambda>(nonce, r).
     chk (wrap ''failed to read sequence'' (binary_read r)) (\<lambda>(sequence, r).
     chk (wrap ''failed to read consistency level'' (binary_read r)) (\<lambda>(level, r).
     chk (wrap ''failed to read emitter chain'' (binary_read r)) (\<lambda>(emitterChain, r).
     chk (read_buf ''failed to read emitter address'' 32 r) (\<lambda>(emitterAddress, r).
     chk (wrap ''failed to read isReobservation'' (binary_read_bool r)) (\<lambda>(isReobservation, r).
     case reader_read (length r) r of (payload, err, _) \<Rightarrow>
       if err \<noteq> None \<or> length payload = 0 then Inl (Wrap ''failed to read payload'' err)
       else Inr (msg\<lparr>mp_Timestamp := time_unix (uint unixSeconds), mp_Nonce := nonce,
              mp_Sequence := sequence, mp_ConsistencyLevel := level,
              mp_EmitterChain := emitterChain, mp_EmitterAddress := emitterAddress,
              mp_IsReobservation := isReobservation, mp_Payload := payload\<rparr>))))))))"

definition UnmarshalOldMessagePublicationWithTxHash :: "byte list \<Rightarrow> go_error + MessagePublication" where
  "UnmarshalOldMessagePublicationWithTxHash data =
     (if length data < minMsgLength then Inl (Errorf ''message is too short'')
      else chk (read_buf ''failed to read TxHash'' 32 data) (\<lambda>(txHash, r).
        read_msg_body r (empty_msg txHash)))"

definition UnmarshalMessagePublication :: "byte list \<Rightarrow> go_error + MessagePublication" where
  "UnmarshalMessagePublication data =
     (if length data < minMsgLength then Inl (Errorf ''message is too short'')
      else chk (wrap ''failed to read TxID len'' (binary_read data)) (\<lambda>(txIdLen :: 8 word, r).
        chk (read_buf ''failed to read TxID'' (unat txIdLen) r) (\<lambda>(txID, r).
        read_msg_body r (empty_msg txID))))"

definition wf_msg :: "MessagePublication \<Rightarrow> bool" where
  "wf_msg msg \<longleftrightarrow> secs_time (mp_Timestamp msg) \<and> length (mp_EmitterAddress msg) = 32"

text \<open>What storing and loading a message keeps: all but the two fields that are not written.\<close>

definition stored_msg :: "MessagePublication \<Rightarrow> MessagePublication" where
  "stored_msg msg = msg\<lparr>mp_Unreliable := False, mp_verificationState := NotVerified\<rparr>"

lemma length_put_msg_body [simp]:
  "wf_msg msg \<Longrightarrow> length (put_msg_body msg) = 52 + length (mp_Payload msg)"
  by (simp add: put_msg_body_def wf_msg_def)

lemma put_msg_body_not_Nil [simp]: "put_msg_body msg \<noteq> []"
  by (simp add: put_msg_body_def)

lemma read_msg_body_put:
  assumes "wf_msg msg"
  shows "read_msg_body (put_msg_body msg) (empty_msg (mp_TxID msg)) =
    (if mp_Payload msg = [] then Inl (Wrap ''failed to read payload'' (Some EOF)) else Inr (stored_msg msg))"
  using assms
  by (simp add: read_msg_body_def put_msg_body_def wf_msg_def codec_simps reader_read_def stored_msg_def
      empty_msg_def binary_read_sizes(1) [of "mp_ConsistencyLevel msg", simplified] del: put_byte)

lemma length_Marshal:
  "wf_msg msg \<Longrightarrow> MessagePublication_Marshal msg = Inr d \<Longrightarrow>
     length d = 53 + length (mp_TxID msg) + length (mp_Payload msg)"
  by (auto simp: MessagePublication_Marshal_def split: if_splits)

lemma UnmarshalMessagePublication_load:
  assumes "wf_msg msg" and "MessagePublication_Marshal msg = Inr d"
  shows "UnmarshalMessagePublication d = Inr m \<longleftrightarrow>
    m = stored_msg msg \<and> mp_Payload msg \<noteq> [] \<and> 35 \<le> length (mp_TxID msg) + length (mp_Payload msg)"
proof -
  have d: "d = word_of_nat (length (mp_TxID msg)) # mp_TxID msg @ put_msg_body msg"
    and l: "length (mp_TxID msg) \<le> 255"
    using assms(2) by (auto simp: MessagePublication_Marshal_def split: if_splits)
  have "binary_read d = Inr (word_of_nat (length (mp_TxID msg)) :: 8 word, mp_TxID msg @ put_msg_body msg)"
    using binary_read_sizes(1) [of "word_of_nat (length (mp_TxID msg))"] by (simp add: d)
  then show ?thesis
    using l length_Marshal [OF assms] read_msg_body_put [OF assms(1)]
    by (auto simp: UnmarshalMessagePublication_def minMsgLength_def codec_simps)
qed

text \<open>
  Loading a stored message. A well-formed message is read back, without the two fields that are
  not stored, exactly when its payload is not empty and its transaction id and payload have at least
  35 bytes together; the constant 88 is not the length with an empty payload, and an
  empty payload is never read back.
\<close>

lemma UnmarshalMessagePublication_Marshal:
  assumes "wf_msg msg" and "MessagePublication_Marshal msg = Inr d"
  shows "UnmarshalMessagePublication d = Inr m \<longleftrightarrow>
    m = stored_msg msg \<and> mp_Payload msg \<noteq> [] \<and> 35 \<le> length (mp_TxID msg) + length (mp_Payload msg)"
  using assms by (rule UnmarshalMessagePublication_load)

definition sample_msg :: MessagePublication where
  "sample_msg = (empty_msg (replicate 32 7))\<lparr>mp_Timestamp := 1654516425000000000, mp_Nonce := 123456,
     mp_Sequence := 789101112131415, mp_ConsistencyLevel := 32, mp_EmitterChain := 2,
     mp_EmitterAddress := replicate 32 5, mp_Payload := replicate 100 1, mp_IsReobservation := True\<rparr>"

lemma wf_sample_msg: "wf_msg sample_msg"
  by (simp add: wf_msg_def sample_msg_def secs_time_def)

theorem UnmarshalMessagePublication_Marshal_witness:
  "\<exists>d. MessagePublication_Marshal sample_msg = Inr d \<and>
       UnmarshalMessagePublication d = Inr (stored_msg sample_msg)"
proof -
  obtain d where d: "MessagePublication_Marshal sample_msg = Inr d"
    by (simp add: MessagePublication_Marshal_def sample_msg_def empty_msg_def)
  moreover have "UnmarshalMessagePublication d = Inr (stored_msg sample_msg)"
    using UnmarshalMessagePublication_Marshal [OF wf_sample_msg d, of "stored_msg sample_msg"]
    by (simp add: sample_msg_def empty_msg_def)
  ultimately show ?thesis by blast
qed

lemma Unmarshal_stored:
  assumes "UnmarshalMessagePublication d = Inr m"
  shows "wf_msg m \<and> stored_msg m = m \<and> mp_Payload m \<noteq> [] \<and> length (mp_TxID m) \<le> 255"
proof -
  obtain n :: "8 word" and r1 r2 txid where r: "length txid = unat n" "read_msg_body r2 (empty_msg txid) = Inr m"
    using assms by (auto simp: UnmarshalMessagePublication_def chk_eq_Inr read_buf_eq_Inr split: if_splits)
  note unat_bounds(1) [of n]
  with r show ?thesis
    by (auto simp: read_msg_body_def chk_eq_Inr read_buf_eq_Inr reader_read_def empty_msg_def stored_msg_def
        wf_msg_def secs_time_of_word split: if_splits)
qed

section \<open>From a message to its VAA\<close>

definition CreateVAA :: "32 word \<Rightarrow> MessagePublication \<Rightarrow> VAA" where
  "CreateVAA gsIndex msg = \<lparr>vaa_Version = SupportedVAAVersion, vaa_GuardianSetIndex = gsIndex,
     vaa_Signatures = [], vaa_Timestamp = mp_Timestamp msg, vaa_Nonce = mp_Nonce msg,
     vaa_Sequence = mp_Sequence msg, vaa_ConsistencyLevel = mp_ConsistencyLevel msg,
     vaa_EmitterChain = mp_EmitterChain msg, vaa_EmitterAddress = mp_EmitterAddress msg,
     vaa_Payload = mp_Payload msg\<rparr>"

definition CreateDigest :: "crypto \<Rightarrow> MessagePublication \<Rightarrow> string" where
  "CreateDigest c msg = hex_encode (SigningDigest c (CreateVAA 0 msg))"

lemma CreateVAA_index:
  "serializeBody (CreateVAA i msg) = serializeBody (CreateVAA 0 msg)"
  "SigningDigest c (CreateVAA i msg) = SigningDigest c (CreateVAA 0 msg)"
  "MessageID (CreateVAA i msg) = MessageIDString msg"
  by (simp_all add: CreateVAA_def serializeBody_def SigningDigest_def MessageID_def MessageIDString_def)

lemma CreateVAA_update [simp]:
  "CreateVAA i (msg\<lparr>mp_TxID := t, mp_IsReobservation := r, mp_Unreliable := u, mp_verificationState := s\<rparr>) =
   CreateVAA i msg"
  "CreateVAA i (stored_msg msg) = CreateVAA i msg"
  by (simp_all add: CreateVAA_def stored_msg_def)

lemma CreateDigest_HexDigest: "CreateDigest c msg = HexDigest c (CreateVAA i msg)"
  unfolding CreateDigest_def HexDigest_def CreateVAA_index(2) [of c i] by (rule refl)

text \<open>
  Guardians sign the same digest for the same observation: the digest does not depend on the
  guardian set index, on the transaction id, on reobservation or reliability, nor on the
  verification state, and it is unchanged when the message was stored and loaded.
\<close>

lemma CreateDigest_observation:
  "CreateDigest c (msg\<lparr>mp_TxID := t, mp_IsReobservation := r, mp_Unreliable := u, mp_verificationState := s\<rparr>) =
     HexDigest c (CreateVAA i msg) \<and>
   CreateDigest c (stored_msg msg) = HexDigest c (CreateVAA i msg)"
  by (simp only: CreateDigest_HexDigest [of _ _ i] CreateVAA_update)

end
