(* ===== verification/GovernorDb.thy ===== *)
theory GovernorDb imports MessagePub begin

text \<open>
  The governor's records in the node database: node/pkg/db/governor.go. Completed and pending
  transfers, their current and former binary forms, the keys they are stored under, and the
  operations of the interface GovernorDB on the database.

  Badger is not part of the repository. Its transactions are the fields of the record badger, an
  argument of the operations; 's is the type of its states. A transaction returns the error of the
  commit, or None, and the new state; an iterator lists the entries in its order.
\<close>

record 's badger =
  bg_Set :: "byte list \<Rightarrow> byte list \<Rightarrow> 's \<Rightarrow> go_error option \<times> 's"
  bg_Delete :: "byte list \<Rightarrow> 's \<Rightarrow> go_error option \<times> 's"
  bg_Get :: "byte list \<Rightarrow> 's \<Rightarrow> go_error + byte list option"
  bg_Items :: "'s \<Rightarrow> (byte list \<times> byte list) list"

text \<open>An operation on the database: its result and the state it leaves.\<close>

type_synonym ('a, 's) db_result = "(go_error + 'a) \<times> 's"

definition update_err :: "string \<Rightarrow> go_error option \<times> 's \<Rightarrow> (unit, 's) db_result" where
  "update_err msg m = (case m of (None, s) \<Rightarrow> (Inr (), s) | (Some e, s) \<Rightarrow> (Inl (Wrap msg (Some e)), s))"

lemma update_err_eq_Inr [simp]: "update_err msg m = (Inr u, s) \<longleftrightarrow> m = (None, s)"
  by (auto simp: update_err_def split: prod.splits option.splits)

section \<open>Completed transfers\<close>

record Transfer =
  xf_Timestamp :: time
  xf_Value :: "64 word"
  xf_OriginChain :: ChainID
  xf_OriginAddress :: Address
  xf_EmitterChain :: ChainID
  xf_EmitterAddress :: Address
  xf_MsgID :: string
  xf_Hash :: string
  xf_TargetAddress :: Address
  xf_TargetChain :: ChainID

definition string_of :: "byte list \<Rightarrow> string" where
  "string_of bs = map (\<lambda>b. char_of (unat b)) bs"

text \<open>A string with a two byte length.\<close>

definition put_str16 :: "string \<Rightarrow> byte list" where
  "put_str16 s = put (word_of_nat (length s) :: 16 word) @ bytes_of s"

definition Transfer_Marshal :: "Transfer \<Rightarrow> go_error + byte list" where
  "Transfer_Marshal t =
     chk (guard_err (65535 < length (xf_MsgID t)) (Errorf ''failed to marshal MsgID, length too long'')) (\<lambda>_.
     chk (guard_err (65535 < length (xf_Hash t)) (Errorf ''failed to marshal Hash, length too long'')) (\<lambda>_.
     Inr (put (word_of_int (unix_secs (xf_Timestamp t)) :: 32 word) @ put (xf_Value t) @
       put (xf_OriginChain t) @ xf_OriginAddress t @ put (xf_EmitterChain t) @ xf_EmitterAddress t @
       put_str16 (xf_MsgID t) @ put_str16 (xf_Hash t) @ put (xf_TargetChain t) @ xf_TargetAddress t)))"

text \<open>
  \<open>read_str16 full\<close> reads such a string; it skips the read when the length is 0. The former format
  accepts a string cut short by the end of the input (full is False).
\<close>

definition read_str16 :: "bool \<Rightarrow> string \<Rightarrow> string \<Rightarrow> reader \<Rightarrow> go_error + string \<times> reader" where
  "read_str16 full lenmsg msg r =
     chk (wrap lenmsg (binary_read r)) (\<lambda>(len :: 16 word, r).
     if 0 < len then
       (case reader_read (unat len) r of (bs, err, r') \<Rightarrow>
          if err \<noteq> None \<or> (if full then length bs \<noteq> unat len else length bs = 0)
          then Inl (Wrap msg err) else Inr (string_of bs, r'))
     else Inr ([], r))"

definition UnmarshalTransfer :: "byte list \<Rightarrow> go_error + Transfer" where
  "UnmarshalTransfer data =
     chk (wrap ''failed to read timestamp'' (binary_read data)) (\<lambda>(unixSeconds :: 32 word, r).
     chk (wrap ''failed to read value'' (binary_read r)) (\<lambda>(value, r).
     chk (wrap ''failed to read origin chain id'' (binary_read r)) (\<lambda>(originChain, r).
     chk (read_buf ''failed to read origin address'' 32 r) (\<lambda>(originAddress, r).
     chk (wrap ''failed to read emitter chain id'' (binary_read r)) (\<lambda>(emitterChain, r).
     chk (read_buf ''failed to read emitter address'' 32 r) (\<lambda>(emitterAddress, r).
     chk (read_str16 True ''failed to read msgID length'' ''failed to read msg id'' r) (\<lambda>(msgID, r).
     chk (read_str16 True ''failed to read hash length'' ''failed to read hash'' r) (\<lambda>(hash, r).
     chk (wrap ''failed to read target chain id'' (binary_read r)) (\<lambda>(targetChain, r).
     chk (read_buf ''failed to read target address'' 32 r) (\<lambda>(targetAddress, r).
     Inr \<lparr>xf_Timestamp = time_unix (uint unixSeconds), xf_Value = value, xf_OriginChain = originChain,
          xf_OriginAddress = originAddress, xf_EmitterChain = emitterChain,
          xf_EmitterAddress = emitterAddress, xf_MsgID = msgID, xf_Hash = hash,
          xf_TargetAddress = targetAddress, xf_TargetChain = targetChain\<rparr>))))))))))"

text \<open>The former format has no target; the fields keep their zero values.\<close>

definition unmarshalOldTransfer :: "byte list \<Rightarrow> go_error + Transfer" where
  "unmarshalOldTransfer data =
     chk (wrap ''failed to read timestamp'' (binary_read data)) (\<lambda>(unixSeconds :: 32 word, r).
     chk (wrap ''failed to read value'' (binary_read r)) (\<lambda>(value, r).
     chk (wrap ''failed to read origin chain id'' (binary_read r)) (\<lambda>(originChain, r).
     chk (read_buf ''failed to read origin address'' 32 r) (\<lambda>(originAddress, r).
     chk (wrap ''failed to read emitter chain id'' (binary_read r)) (\<lambda>(emitterChain, r).
     chk (read_buf ''failed to read emitter address'' 32 r) (\<lambda>(emitterAddress, r).
     chk (read_str16 False ''failed to read msgID length'' ''failed to read vaa id'' r) (\<lambda>(msgID, r).
     chk (read_str16 False ''failed to read hash length'' ''failed to read hash'' r) (\<lambda>(hash, r).
     Inr \<lparr>xf_Timestamp = time_unix (uint unixSeconds), xf_Value = value, xf_OriginChain = originChain,
          xf_OriginAddress = originAddress, xf_EmitterChain = emitterChain,
          xf_EmitterAddress = emitterAddress, xf_MsgID = msgID, xf_Hash = hash,
          xf_TargetAddress = replicate 32 0, xf_TargetChain = 0\<rparr>))))))))"

definition wf_Transfer :: "Transfer \<Rightarrow> bool" where
  "wf_Transfer t \<longleftrightarrow> secs_time (xf_Timestamp t) \<and> length (xf_OriginAddress t) = 32 \<and>
     length (xf_EmitterAddress t) = 32 \<and> length (xf_TargetAddress t) = 32 \<and>
     length (xf_MsgID t) \<le> 65535 \<and> length (xf_Hash t) \<le> 65535"

lemma length_string_of [simp]: "length (string_of bs) = length bs"
  by (simp add: string_of_def)

lemma char_of_byte: "char_of (unat (of_char c :: 8 word)) = c"
proof -
  have "unat (of_nat (of_char c) :: 8 word) = of_char c"
    using unat_byte_of_nat [of "of_char c"] by simp
  then have "unat (of_char c :: 8 word) = of_char c"
    unfolding of_nat_of_char .
  then show ?thesis by simp
qed

lemma byte_of_char: "of_char (char_of (unat b) :: char) = (b :: 8 word)"
proof -
  have "unat b < 256"
    using unsigned_less [of b, where 'a = nat] by simp
  then have "of_char (char_of (unat b) :: char) = unat b"
    by simp
  then have "of_nat (of_char (char_of (unat b) :: char)) = (of_nat (unat b) :: 8 word)"
    by (rule arg_cong)
  then show ?thesis
    unfolding of_nat_of_char by simp
qed

lemma string_of_bytes_of [simp]: "string_of (bytes_of s) = s"
  by (simp add: string_of_def bytes_of_def comp_def map_idI char_of_byte)

lemma bytes_of_string_of [simp]: "bytes_of (string_of bs) = bs"
  by (simp add: string_of_def bytes_of_def comp_def map_idI byte_of_char)

lemma length_put_str16 [simp]: "length (put_str16 s) = 2 + length s"
  by (simp add: put_str16_def)

lemma put_str16_not_Nil [simp]: "put_str16 s \<noteq> []"
  by (simp add: put_str16_def)

lemma read_str16_put [codec_simps]:
  "length s \<le> 65535 \<Longrightarrow> read_str16 True m1 m2 (put_str16 s @ r) = Inr (s, r)"
  by (auto simp: read_str16_def put_str16_def codec_simps reader_read_def word_less_nat_alt)

lemma read_str16_exact:
  assumes "read_str16 True m1 m2 b = Inr (s, r)"
  shows "b = put_str16 s @ r \<and> length s \<le> 65535"
proof -
  obtain len :: "16 word" and r1 where "binary_read b = Inr (len, r1)"
    and rest: "if 0 < len then r1 \<noteq> [] \<and> length r1 \<ge> unat len \<and> s = string_of (take (unat len) r1) \<and>
        r = drop (unat len) r1 else s = [] \<and> r = r1"
    using assms by (auto simp: read_str16_def chk_eq_Inr reader_read_def min_def split: if_splits)
  then have b: "b = put len @ r1"
    by (simp add: binary_read_inv)
  show ?thesis
  proof (cases "0 < len")
    case True
    with rest show ?thesis
      using unat_bounds(2) [of len] by (simp add: b put_str16_def min_absorb2)
  next
    case False
    then have "len = 0"
      by (simp add: word_gt_0)
    with rest show ?thesis
      by (simp add: b put_str16_def)
  qed
qed

definition put_transfer :: "Transfer \<Rightarrow> byte list" where
  "put_transfer t = put (word_of_int (unix_secs (xf_Timestamp t)) :: 32 word) @ put (xf_Value t) @
     put (xf_OriginChain t) @ xf_OriginAddress t @ put (xf_EmitterChain t) @ xf_EmitterAddress t @
     put_str16 (xf_MsgID t) @ put_str16 (xf_Hash t) @ put (xf_TargetChain t) @ xf_TargetAddress t"

lemma Transfer_Marshal_iff:
  "Transfer_Marshal t = Inr d \<longleftrightarrow> length (xf_MsgID t) \<le> 65535 \<and> length (xf_Hash t) \<le> 65535 \<and> d = put_transfer t"
  by (auto simp: Transfer_Marshal_def chk_eq_Inr put_transfer_def not_less)

lemma UnmarshalTransfer_put:
  "wf_Transfer t \<Longrightarrow> UnmarshalTransfer (put_transfer t @ rest) = Inr t"
  by (cases t) (simp add: UnmarshalTransfer_def put_transfer_def wf_Transfer_def codec_simps)

lemma UnmarshalTransfer_inv:
  "UnmarshalTransfer d = Inr t \<Longrightarrow> wf_Transfer t \<and> (\<exists>rest. d = put_transfer t @ rest)"
  apply (clarsimp simp: UnmarshalTransfer_def chk_eq_Inr binary_read_inv read_buf_eq_Inr)
  apply (drule read_str16_exact)+
  apply (clarsimp simp: put_transfer_def wf_Transfer_def secs_time_of_word)
  done

text \<open>
  A completed transfer is loaded from exactly the records that start with its encoding: every
  well-formed transfer survives a restart unchanged, and whatever follows the target address in a
  record is ignored.
\<close>

lemma UnmarshalTransfer_iff:
  "UnmarshalTransfer d = Inr t \<longleftrightarrow>
     wf_Transfer t \<and> (\<exists>b rest. Transfer_Marshal t = Inr b \<and> d = b @ rest)"
  using UnmarshalTransfer_put UnmarshalTransfer_inv by (auto simp: Transfer_Marshal_iff wf_Transfer_def)

section \<open>Pending transfers\<close>

record PendingTransfer =
  pt_ReleaseTime :: time
  pt_Msg :: MessagePublication

text \<open>Marshal returns bytes also when it fails: what it wrote before the error.\<close>

definition PendingTransfer_Marshal :: "PendingTransfer \<Rightarrow> byte list \<times> go_error option" where
  "PendingTransfer_Marshal p =
     (let buf = put (word_of_int (unix_secs (pt_ReleaseTime p)) :: 32 word) in
      case MessagePublication_Marshal (pt_Msg p) of
        Inl e \<Rightarrow> (buf, Some (Wrap ''failed to marshal pending transfer'' (Some e)))
      | Inr b \<Rightarrow> (buf @ b, None))"

definition UnmarshalPendingTransfer :: "byte list \<Rightarrow> bool \<Rightarrow> go_error + PendingTransfer" where
  "UnmarshalPendingTransfer data isOld =
     chk (wrap ''failed to read pending transfer release time'' (binary_read data)) (\<lambda>(unixSeconds :: 32 word, r).
     case reader_read (length r) r of (buf, err, _) \<Rightarrow>
       if err \<noteq> None \<or> length buf = 0 then Inl (Wrap ''failed to read pending transfer msg'' err)
       else chk (wrap ''failed to unmarshal pending transfer msg''
           (if isOld then UnmarshalOldMessagePublicationWithTxHash buf else UnmarshalMessagePublication buf)) (\<lambda>msg.
         Inr \<lparr>pt_ReleaseTime = time_unix (uint unixSeconds), pt_Msg = msg\<rparr>))"

lemma pending_transfer_load:
  assumes "wf_msg (pt_Msg p)" and "secs_time (pt_ReleaseTime p)"
  shows "UnmarshalPendingTransfer (fst (PendingTransfer_Marshal p)) False = Inr q \<longleftrightarrow>
     q = p\<lparr>pt_Msg := stored_msg (pt_Msg p)\<rparr> \<and> length (mp_TxID (pt_Msg p)) \<le> 255 \<and>
     mp_Payload (pt_Msg p) \<noteq> [] \<and> 35 \<le> length (mp_TxID (pt_Msg p)) + length (mp_Payload (pt_Msg p))"
proof (cases "MessagePublication_Marshal (pt_Msg p)")
  case (Inl e)
  then have "255 < length (mp_TxID (pt_Msg p))"
    by (auto simp: MessagePublication_Marshal_def split: if_splits)
  then show ?thesis
    using Inl binary_read_sizes(3) [of "word_of_int (unix_secs (pt_ReleaseTime p))" "[]"]
    by (simp add: PendingTransfer_Marshal_def UnmarshalPendingTransfer_def reader_read_def)
next
  case (Inr b)
  then have len: "length (mp_TxID (pt_Msg p)) \<le> 255" and ne: "b \<noteq> []"
    using length_Marshal [OF assms(1) Inr] by (auto simp: MessagePublication_Marshal_def split: if_splits)
  have "UnmarshalPendingTransfer (fst (PendingTransfer_Marshal p)) False =
      chk (wrap ''failed to unmarshal pending transfer msg'' (UnmarshalMessagePublication b))
        (\<lambda>msg. Inr \<lparr>pt_ReleaseTime = pt_ReleaseTime p, pt_Msg = msg\<rparr>)"
    using Inr ne assms(2)
    by (simp add: PendingTransfer_Marshal_def UnmarshalPendingTransfer_def codec_simps reader_read_def)
  then show ?thesis
    using UnmarshalMessagePublication_load [OF assms(1) Inr] len by (cases p; cases q) (auto simp: chk_eq_Inr)
qed

text \<open>
  What a restart makes of a pending transfer. StorePendingMsg stores the bytes of Marshal and
  drops its error; they are read back exactly when the message is one that loads again and its
  transaction id has at most 255 bytes. Otherwise the record that was stored cannot be read.
\<close>

lemma pending_transfer_reload:
  assumes "wf_msg (pt_Msg p)" and "secs_time (pt_ReleaseTime p)"
  shows "UnmarshalPendingTransfer (fst (PendingTransfer_Marshal p)) False = Inr q \<longleftrightarrow>
     q = p\<lparr>pt_Msg := stored_msg (pt_Msg p)\<rparr> \<and> length (mp_TxID (pt_Msg p)) \<le> 255 \<and>
     mp_Payload (pt_Msg p) \<noteq> [] \<and> 35 \<le> length (mp_TxID (pt_Msg p)) + length (mp_Payload (pt_Msg p))"
  using assms by (rule pending_transfer_load)

theorem pending_transfer_reload_witness:
  "UnmarshalPendingTransfer (fst (PendingTransfer_Marshal \<lparr>pt_ReleaseTime = 5000000000, pt_Msg = sample_msg\<rparr>)) False
     = Inr \<lparr>pt_ReleaseTime = 5000000000, pt_Msg = stored_msg sample_msg\<rparr>"
  using pending_transfer_reload [of "\<lparr>pt_ReleaseTime = 5000000000, pt_Msg = sample_msg\<rparr>"
      "\<lparr>pt_ReleaseTime = 5000000000, pt_Msg = stored_msg sample_msg\<rparr>"] wf_sample_msg
  by (simp add: secs_time_def sample_msg_def empty_msg_def)

section \<open>Keys\<close>

definition transfer_tag :: string where "transfer_tag = ''GOV:XFER3:''"
definition oldTransfer :: string where "oldTransfer = ''GOV:XFER2:''"
definition pending_tag :: string where "pending_tag = ''GOV:PENDING4:''"
definition oldPending :: string where "oldPending = ''GOV:PENDING3:''"

definition minMsgIdLen :: nat where
  "minMsgIdLen = length ''1/0000000000000000000000000290fb167208af455bb137780163b7b7a9a10c16/0''"

definition TransferMsgID :: "Transfer \<Rightarrow> byte list" where
  "TransferMsgID t = bytes_of (transfer_tag @ xf_MsgID t)"

definition oldTransferMsgID :: "Transfer \<Rightarrow> byte list" where
  "oldTransferMsgID t = bytes_of (oldTransfer @ xf_MsgID t)"

definition PendingMsgID :: "MessagePublication \<Rightarrow> byte list" where
  "PendingMsgID k = bytes_of (pending_tag @ MessageIDString k)"

definition oldPendingMsgID :: "MessagePublication \<Rightarrow> byte list" where
  "oldPendingMsgID k = bytes_of (oldPending @ MessageIDString k)"

definition key_tagged :: "string \<Rightarrow> byte list \<Rightarrow> bool" where
  "key_tagged tag key \<longleftrightarrow> length tag + minMsgIdLen \<le> length key \<and> take (length tag) key = bytes_of tag"

definition IsTransfer_key :: "byte list \<Rightarrow> bool" where "IsTransfer_key key = key_tagged transfer_tag key"
definition isOldTransfer :: "byte list \<Rightarrow> bool" where "isOldTransfer key = key_tagged oldTransfer key"
definition IsPendingMsg :: "byte list \<Rightarrow> bool" where "IsPendingMsg key = key_tagged pending_tag key"
definition isOldPendingMsg :: "byte list \<Rightarrow> bool" where "isOldPendingMsg key = key_tagged oldPending key"

section \<open>The operations\<close>

definition StoreTransfer :: "'s badger \<Rightarrow> Transfer \<Rightarrow> 's \<Rightarrow> (unit, 's) db_result" where
  "StoreTransfer b t s = (case Transfer_Marshal t of
     Inl e \<Rightarrow> (Inl e, s)
   | Inr d \<Rightarrow> update_err ''failed to commit transfer tx'' (bg_Set b (TransferMsgID t) d s))"

definition StorePendingMsg :: "'s badger \<Rightarrow> PendingTransfer \<Rightarrow> 's \<Rightarrow> (unit, 's) db_result" where
  "StorePendingMsg b p s = (case PendingTransfer_Marshal p of
     (d, _) \<Rightarrow> update_err ''failed to commit pending msg tx'' (bg_Set b (PendingMsgID (pt_Msg p)) d s))"

definition DeleteTransfer :: "'s badger \<Rightarrow> Transfer \<Rightarrow> 's \<Rightarrow> (unit, 's) db_result" where
  "DeleteTransfer b t s = update_err ''failed to delete transfer msg'' (bg_Delete b (TransferMsgID t) s)"

definition DeletePendingMsg :: "'s badger \<Rightarrow> PendingTransfer \<Rightarrow> 's \<Rightarrow> (unit, 's) db_result" where
  "DeletePendingMsg b p s =
     update_err ''failed to delete pending msg'' (bg_Delete b (PendingMsgID (pt_Msg p)) s)"

record loaded =
  ld_transfers :: "Transfer list"
  ld_pending :: "PendingTransfer list"
  ld_oldTransfers :: "Transfer list"
  ld_oldPendingToUpdate :: "PendingTransfer list"

text \<open>One step of the iteration over the database.\<close>

definition load_item :: "byte list \<times> byte list \<Rightarrow> loaded \<Rightarrow> go_error + loaded" where
  "load_item = (\<lambda>(key, val) ld.
     if IsPendingMsg key then
       chk (UnmarshalPendingTransfer val False) (\<lambda>p. Inr (ld\<lparr>ld_pending := ld_pending ld @ [p]\<rparr>))
     else if isOldPendingMsg key then
       chk (UnmarshalPendingTransfer val True) (\<lambda>p.
         Inr (ld\<lparr>ld_pending := ld_pending ld @ [p], ld_oldPendingToUpdate := ld_oldPendingToUpdate ld @ [p]\<rparr>))
     else if IsTransfer_key key then
       chk (UnmarshalTransfer val) (\<lambda>v. Inr (ld\<lparr>ld_transfers := ld_transfers ld @ [v]\<rparr>))
     else if isOldTransfer key then
       chk (unmarshalOldTransfer val) (\<lambda>v.
         Inr (ld\<lparr>ld_transfers := ld_transfers ld @ [v], ld_oldTransfers := ld_oldTransfers ld @ [v]\<rparr>))
     else Inr ld)"

fun load_items :: "(byte list \<times> byte list) list \<Rightarrow> loaded \<Rightarrow> go_error + loaded" where
  "load_items [] ld = Inr ld"
| "load_items (kv # kvs) ld = chk (load_item kv ld) (\<lambda>ld. load_items kvs ld)"

text \<open>Rewriting the records of a former format: store under the new key, delete the old key.\<close>

fun convert :: "('x \<Rightarrow> 's \<Rightarrow> (unit, 's) db_result) \<Rightarrow> ('x \<Rightarrow> 's \<Rightarrow> (unit, 's) db_result) \<Rightarrow> 'x list \<Rightarrow> 's \<Rightarrow>
    (unit, 's) db_result" where
  "convert store delete [] s = (Inr (), s)"
| "convert store delete (x # xs) s =
     (case store x s of (Inl e, s) \<Rightarrow> (Inl e, s)
      | (Inr _, s) \<Rightarrow> (case delete x s of (Inl e, s) \<Rightarrow> (Inl e, s) | (Inr _, s) \<Rightarrow> convert store delete xs s))"

definition convert_pending :: "'s badger \<Rightarrow> PendingTransfer list \<Rightarrow> 's \<Rightarrow> (unit, 's) db_result" where
  "convert_pending b = convert
     (\<lambda>p s. map_prod (wrap ''failed to write new pending msg'') id (StorePendingMsg b p s))
     (\<lambda>p s. update_err ''failed to delete old pending msg'' (bg_Delete b (oldPendingMsgID (pt_Msg p)) s))"

definition convert_transfers :: "'s badger \<Rightarrow> Transfer list \<Rightarrow> 's \<Rightarrow> (unit, 's) db_result" where
  "convert_transfers b = convert
     (\<lambda>t s. map_prod (wrap ''failed to write new completed transfer'') id (StoreTransfer b t s))
     (\<lambda>t s. update_err ''failed to delete old completed transfer'' (bg_Delete b (oldTransferMsgID t) s))"

definition GetChainGovernorData :: "'s badger \<Rightarrow> 's \<Rightarrow> (Transfer list \<times> PendingTransfer list, 's) db_result" where
  "GetChainGovernorData b s =
     (case load_items (bg_Items b s)
         \<lparr>ld_transfers = [], ld_pending = [], ld_oldTransfers = [], ld_oldPendingToUpdate = []\<rparr> of
        Inl e \<Rightarrow> (Inl e, s)
      | Inr ld \<Rightarrow>
          (case convert_pending b (ld_oldPendingToUpdate ld) s of
             (Inl e, s) \<Rightarrow> (Inl e, s)
           | (Inr _, s) \<Rightarrow>
               (case convert_transfers b (ld_oldTransfers ld) s of
                  (Inl e, s) \<Rightarrow> (Inl e, s)
                | (Inr _, s) \<Rightarrow> (Inr (ld_transfers ld, ld_pending ld), s))))"

end
