(* ===== verification/GovValue.thy ===== *)
theory GovValue imports Complex_Main Prelude begin

text \<open>
  The governor's arithmetic: computeValue, CheckedAddUint64 and CheckedAddInt64 of
  node/pkg/governor/governor.go. computeValue uses math/big: a big.Float is a mantissa, a binary
  exponent and a precision in bits; SetInt, Mul and Int behave as the package documents for finite
  values and the default rounding mode, to nearest even. Infinities do not occur: prices come from
  the configuration and from finite numbers.
\<close>

section \<open>Checked addition\<close>

definition CheckedAddUint64 :: "64 word \<Rightarrow> 64 word \<Rightarrow> go_error + 64 word" where
  "CheckedAddUint64 x y =
     (if x = 0 then Inr y
      else if y = 0 then Inr x
      else let sum = x + y in
        if sum < x \<or> sum < y then Inl (Errorf ''integer overflow'') else Inr sum)"

text \<open>An int64 is a word read with sint.\<close>

definition CheckedAddInt64 :: "64 word \<Rightarrow> 64 word \<Rightarrow> go_error + 64 word" where
  "CheckedAddInt64 x y =
     (if x = 0 then Inr y
      else if y = 0 then Inr x
      else let sum = x + y in
        if 0 < sint x \<and> 0 < sint y \<and> (sint sum < sint x \<or> sint sum < sint y)
        then Inl (Errorf ''integer overflow'')
        else if sint x < 0 \<and> sint y < 0 \<and> (sint x < sint sum \<or> sint y < sint sum)
        then Inl (Errorf ''integer underflow'')
        else Inr (x + y))"

lemma sint_plus:
  fixes x y :: "64 word"
  shows "sint (x + y) = (let s = sint x + sint y in
    if s < - (2 ^ 63) then s + 2 ^ 64 else if 2 ^ 63 \<le> s then s - 2 ^ 64 else s)"
proof -
  have range: "- (2 ^ 63) \<le> sint x" "sint x < 2 ^ 63" "- (2 ^ 63) \<le> sint y" "sint y < 2 ^ 63"
    using sint_ge [of x] sint_less [of x] sint_ge [of y] sint_less [of y] by simp_all
  have "sint (x + y) = signed_take_bit 63 (sint x + sint y)"
    by (simp add: sint_word_ariths)
  also have "\<dots> = (sint x + sint y + 2 ^ 63) mod 2 ^ 64 - 2 ^ 63"
    by (simp add: signed_take_bit_eq_take_bit_shift take_bit_eq_mod)
  finally have e: "sint (x + y) = (sint x + sint y + 2 ^ 63) mod 2 ^ 64 - 2 ^ 63" .
  consider "sint x + sint y < - (2 ^ 63)" | "2 ^ 63 \<le> sint x + sint y"
    | "- (2 ^ 63) \<le> sint x + sint y" "sint x + sint y < 2 ^ 63"
    by linarith
  then show ?thesis
  proof cases
    case 1
    have "(sint x + sint y + 2 ^ 63) mod 2 ^ 64 = (sint x + sint y + 2 ^ 63 + 2 ^ 64) mod 2 ^ 64"
      by (simp only: mod_add_self2)
    also have "\<dots> = sint x + sint y + 2 ^ 63 + 2 ^ 64"
      using 1 range by (intro mod_pos_pos_trivial) simp_all
    finally show ?thesis
      using 1 unfolding e by (simp add: Let_def)
  next
    case 2
    have "(sint x + sint y + 2 ^ 63) mod 2 ^ 64 = (sint x + sint y + 2 ^ 63 - 2 ^ 64) mod 2 ^ 64"
      using mod_add_self2 [of "sint x + sint y + 2 ^ 63 - 2 ^ 64" "2 ^ 64"] by (simp add: algebra_simps)
    also have "\<dots> = sint x + sint y + 2 ^ 63 - 2 ^ 64"
      using 2 range by (intro mod_pos_pos_trivial) simp_all
    finally show ?thesis
      using 2 unfolding e by (simp add: Let_def)
  next
    case 3
    have "(sint x + sint y + 2 ^ 63) mod 2 ^ 64 = sint x + sint y + 2 ^ 63"
      using 3 by (intro mod_pos_pos_trivial) simp_all
    then show ?thesis
      using 3 unfolding e by (simp add: Let_def)
  qed
qed

lemma sint_uint_cases:
  fixes w :: "64 word"
  shows "0 \<le> uint w \<and> uint w < 2 ^ 64 \<and> sint w = (if uint w < 2 ^ 63 then uint w else uint w - 2 ^ 64)"
proof -
  have range: "0 \<le> uint w" "uint w < 2 ^ 64"
    using uint_lt2p [of w] by simp_all
  have s: "sint w = (uint w + 2 ^ 63) mod 2 ^ 64 - 2 ^ 63"
    by (simp add: sint_uint signed_take_bit_eq_take_bit_shift take_bit_eq_mod)
  show ?thesis
  proof (cases "uint w < 2 ^ 63")
    case True
    then have "(uint w + 2 ^ 63) mod 2 ^ 64 = uint w + 2 ^ 63"
      using range by (intro mod_pos_pos_trivial) simp_all
    with True range s show ?thesis by simp
  next
    case False
    have "(uint w + 2 ^ 63) mod 2 ^ 64 = (uint w + 2 ^ 63 - 2 ^ 64) mod 2 ^ 64"
      using mod_add_self2 [of "uint w + 2 ^ 63 - 2 ^ 64" "2 ^ 64"] by (simp add: algebra_simps)
    also have "\<dots> = uint w + 2 ^ 63 - 2 ^ 64"
      using False range by (intro mod_pos_pos_trivial) simp_all
    finally show ?thesis
      using False range s by simp
  qed
qed

lemma sint_cancel: "sint (x :: 64 word) = sint y \<longleftrightarrow> x = y"
  using signed_word_eqI by blast

lemma CheckedAddInt64_eq:
  "CheckedAddInt64 x y = Inr z \<longleftrightarrow> sint z = sint x + sint y"
proof -
  let ?s = "sint x + sint y"
  have range: "- (2 ^ 63) \<le> sint x" "sint x < 2 ^ 63" "- (2 ^ 63) \<le> sint y" "sint y < 2 ^ 63"
      "- (2 ^ 63) \<le> sint z" "sint z < 2 ^ 63"
    using sint_ge [of x] sint_less [of x] sint_ge [of y] sint_less [of y] sint_ge [of z] sint_less [of z]
    by simp_all
  have fits: "CheckedAddInt64 x y = Inr z \<longleftrightarrow> - (2 ^ 63) \<le> ?s \<and> ?s < 2 ^ 63 \<and> z = x + y"
  proof (cases "x = 0 \<or> y = 0")
    case True
    then show ?thesis
      using range by (auto simp: CheckedAddInt64_def)
  next
    case False
    then have "sint x \<noteq> 0" "sint y \<noteq> 0"
      using sint_cancel [of x 0] sint_cancel [of y 0] by simp_all
    then show ?thesis
      using range False sint_plus [of x y] by (auto simp: CheckedAddInt64_def Let_def split: if_splits)
  qed
  show ?thesis
  proof
    assume "CheckedAddInt64 x y = Inr z"
    then show "sint z = ?s"
      using fits sint_plus [of x y] by (auto simp: Let_def)
  next
    assume z: "sint z = ?s"
    then have "sint (x + y) = ?s"
      using range sint_plus [of x y] by (simp add: Let_def)
    then have "z = x + y"
      using z sint_cancel by metis
    then show "CheckedAddInt64 x y = Inr z"
      using fits z range by simp
  qed
qed

lemma CheckedAddUint64_eq:
  "CheckedAddUint64 x y = Inr z \<longleftrightarrow> unat z = unat x + unat y"
proof -
  have range: "unat x < 2 ^ 64" "unat y < 2 ^ 64" "unat z < 2 ^ 64"
    using unsigned_less [of x, where 'a = nat] unsigned_less [of y, where 'a = nat]
      unsigned_less [of z, where 'a = nat] by simp_all
  have sum: "unat (x + y) = (if unat x + unat y < 2 ^ 64 then unat x + unat y else unat x + unat y - 2 ^ 64)"
    using unat_plus_if' [of x y] by simp
  have "CheckedAddUint64 x y = Inr z \<longleftrightarrow> unat x + unat y < 2 ^ 64 \<and> z = x + y"
    using range sum by (auto simp: CheckedAddUint64_def Let_def word_less_nat_alt split: if_splits)
  also have "\<dots> \<longleftrightarrow> unat z = unat x + unat y"
    using range sum unat_cancel by (metis (full_types))
  finally show ?thesis .
qed

text \<open>
  CheckedAddInt64 is the exact sum of two int64 values when that is an int64 and an error
  otherwise, and CheckedAddUint64 is the same for uint64 values.
\<close>

lemma CheckedAdd_exact:
  "(CheckedAddInt64 x y = Inr z \<longleftrightarrow> sint z = sint x + sint y) \<and>
   (CheckedAddUint64 u v = Inr w \<longleftrightarrow> unat w = unat u + unat v)"
  using CheckedAddInt64_eq CheckedAddUint64_eq by blast

section \<open>Floating point values\<close>

record BigFloat =
  bf_mant :: int
  bf_exp :: int
  bf_prec :: nat

fun bit_len :: "nat \<Rightarrow> nat" where
  "bit_len n = (if n = 0 then 0 else Suc (bit_len (n div 2)))"

declare bit_len.simps [simp del]

lemma bit_len_numeral [simp]:
  "bit_len 0 = 0" "bit_len (Suc 0) = 1"
  "bit_len (numeral Num.One) = 1"
  "bit_len (numeral (Num.Bit0 n)) = Suc (bit_len (numeral n))"
  "bit_len (numeral (Num.Bit1 n)) = Suc (bit_len (numeral n))"
  by (simp_all add: bit_len.simps [of "Suc 0"] bit_len.simps [of 0] bit_len.simps [of "numeral (Num.Bit0 n)"]
      bit_len.simps [of "numeral (Num.Bit1 n)"] numeral_Bit0_div_2 numeral_Bit1_div_2)

text \<open>
  \<open>round_even p m\<close> rounds m to p significant bits, to nearest even: the mantissa and the number of
  bits dropped.
\<close>

definition round_even :: "nat \<Rightarrow> nat \<Rightarrow> nat \<times> nat" where
  "round_even p m =
     (if bit_len m \<le> p then (m, 0)
      else let k = bit_len m - p; q = m div 2 ^ k; r = m mod 2 ^ k; h = 2 ^ (k - 1) in
        (if h < r \<or> r = h \<and> odd q then q + 1 else q, k))"

text \<open>\<open>new(big.Float).SetInt(x)\<close>, \<open>new(big.Float).Mul(x, y)\<close> and \<open>x.Int(nil)\<close>.\<close>

definition bf_SetInt :: "int \<Rightarrow> BigFloat" where
  "bf_SetInt x = \<lparr>bf_mant = x, bf_exp = 0, bf_prec = max 64 (bit_len (nat \<bar>x\<bar>))\<rparr>"

definition bf_Mul :: "BigFloat \<Rightarrow> BigFloat \<Rightarrow> BigFloat" where
  "bf_Mul x y =
     (let p = max (bf_prec x) (bf_prec y); m = bf_mant x * bf_mant y in
      case round_even p (nat \<bar>m\<bar>) of (q, k) \<Rightarrow>
        \<lparr>bf_mant = sgn m * int q, bf_exp = bf_exp x + bf_exp y + int k, bf_prec = p\<rparr>)"

definition bf_Int :: "BigFloat \<Rightarrow> int" where
  "bf_Int x = (if 0 \<le> bf_exp x then bf_mant x * 2 ^ nat (bf_exp x)
     else sgn (bf_mant x) * (\<bar>bf_mant x\<bar> div 2 ^ nat (- bf_exp x)))"

text \<open>\<open>(*big.Int).Div\<close>: Euclidean division, which panics on a zero divisor.\<close>

definition euclid_div :: "int \<Rightarrow> int \<Rightarrow> go_error + int" where
  "euclid_div x y = (if y = 0 then Inl (Panic ''division by zero'')
     else Inr (if 0 < y then x div y else - (x div - y)))"

text \<open>computeValue on the amount, the price and the decimals (a power of ten) of the token.\<close>

definition computeValue :: "int \<Rightarrow> BigFloat \<Rightarrow> int \<Rightarrow> go_error + 64 word" where
  "computeValue amount price decimals =
     (let amountFloat = bf_SetInt amount;
          valueFloat = bf_Mul amountFloat price;
          valueBigInt = bf_Int valueFloat
      in chk (euclid_div valueBigInt decimals) (\<lambda>valueBigInt.
         if \<not> (0 \<le> valueBigInt \<and> valueBigInt < 2 ^ 64)
         then Inl (Errorf ''value is too large to fit in uint64'')
         else Inr (word_of_int valueBigInt)))"

lemma bit_len_bounds: "0 < n \<Longrightarrow> 2 ^ (bit_len n - 1) \<le> n \<and> n < 2 ^ bit_len n \<and> 0 < bit_len n"
proof (induction n rule: bit_len.induct)
  case (1 n)
  show ?case
  proof (cases "n div 2 = 0")
    case True
    with 1 have "n = 1" by auto
    then show ?thesis by (simp add: bit_len.simps)
  next
    case False
    with 1 have IH: "2 ^ (bit_len (n div 2) - 1) \<le> n div 2" "n div 2 < 2 ^ bit_len (n div 2)"
        "0 < bit_len (n div 2)" by auto
    have "bit_len n = Suc (bit_len (n div 2))"
      using 1 by (simp add: bit_len.simps [of n])
    moreover have "2 ^ bit_len (n div 2) \<le> 2 * (n div 2)"
      using IH(1) IH(3) by (cases "bit_len (n div 2)") simp_all
    ultimately show ?thesis
      using IH(2) by auto
  qed
qed

lemma round_even_error:
  assumes "round_even p m = (q, k)" and "0 < p"
  shows "\<bar>int q * 2 ^ k - int m\<bar> * 2 ^ p \<le> int m"
proof (cases "bit_len m \<le> p")
  case True
  with assms show ?thesis by (simp add: round_even_def)
next
  case False
  define k' where "k' = bit_len m - p"
  then have k': "0 < k'" "bit_len m = k' + p"
    using False by simp_all
  have m: "0 < m"
    using False by (cases m) (simp_all add: bit_len.simps [of 0])
  define q0 r where "q0 = m div 2 ^ k'" and "r = m mod 2 ^ k'"
  have split: "m = q0 * 2 ^ k' + r"
    unfolding q0_def r_def by (rule div_mult_mod_eq [symmetric])
  have r: "r < 2 ^ k'"
    by (simp add: r_def)
  have half: "(2 :: nat) ^ k' = 2 * 2 ^ (k' - 1)"
    using k'(1) by (cases k') simp_all
  have q: "k = k'" "q = (if 2 ^ (k' - 1) < r \<or> r = 2 ^ (k' - 1) \<and> odd q0 then q0 + 1 else q0)"
    using assms(1) False by (auto simp: round_even_def Let_def k'_def q0_def r_def)
  have "\<bar>int q * 2 ^ k - int m\<bar> * 2 \<le> 2 ^ k'"
  proof -
    define H where "H = (2 :: nat) ^ (k' - 1)"
    have K: "2 ^ k' = 2 * H"
      using half by (simp add: H_def)
    have "int m = int q0 * (2 * int H) + int r"
      using arg_cong [OF split, of int] unfolding K by simp
    moreover have "int q * (2 * int H) = int q0 * (2 * int H) + (if H < r \<or> r = H \<and> odd q0 then 2 * int H else 0)"
      using q(2) unfolding H_def [symmetric] by (simp add: algebra_simps)
    ultimately have "\<bar>int q * (2 * int H) - int m\<bar> * 2 \<le> 2 * int H"
      using r unfolding K by (auto split: if_splits)
    moreover have "(2 :: int) ^ k' = 2 * int H"
      using arg_cong [OF K, of int] by simp
    ultimately have "\<bar>int q * 2 ^ k' - int m\<bar> * 2 \<le> 2 ^ k'"
      by simp
    then show ?thesis
      by (simp add: q(1))
  qed
  then have "\<bar>int q * 2 ^ k - int m\<bar> * 2 * 2 ^ p \<le> 2 ^ k' * 2 ^ p"
    by (rule mult_right_mono) simp
  moreover have "2 ^ k' * 2 ^ p \<le> 2 * int m"
  proof -
    have "2 ^ (k' + p - 1) \<le> m"
      using bit_len_bounds [OF m] by (simp add: k'(2))
    moreover have "(2 :: nat) ^ (k' + p) = 2 * 2 ^ (k' + p - 1)"
      using k'(1) by (cases "k' + p") simp_all
    ultimately have "2 ^ (k' + p) \<le> 2 * m" by simp
    then have "int (2 ^ (k' + p)) \<le> int (2 * m)" by (simp only: of_nat_le_iff)
    then show ?thesis by (simp add: power_add)
  qed
  ultimately show ?thesis by linarith
qed

definition bf_real :: "BigFloat \<Rightarrow> real" where
  "bf_real x = real_of_int (bf_mant x) * 2 powi bf_exp x"

lemma bf_Int_floor: "0 \<le> bf_mant x \<Longrightarrow> bf_Int x = \<lfloor>bf_real x\<rfloor>"
proof (cases "0 \<le> bf_exp x")
  case True
  then have "bf_real x = real_of_int (bf_mant x * 2 ^ nat (bf_exp x))"
    by (simp add: bf_real_def power_int_def)
  with True show ?thesis
    by (simp only: bf_Int_def floor_of_int if_True)
next
  case False
  assume "0 \<le> bf_mant x"
  have "bf_real x = real_of_int (bf_mant x) / real_of_int (2 ^ nat (- bf_exp x))"
    using False by (simp add: bf_real_def power_int_def field_simps)
  then have "\<lfloor>bf_real x\<rfloor> = bf_mant x div 2 ^ nat (- bf_exp x)"
    by (simp only: floor_divide_of_int_eq)
  moreover have "sgn (bf_mant x) * (\<bar>bf_mant x\<bar> div 2 ^ nat (- bf_exp x)) = bf_mant x div 2 ^ nat (- bf_exp x)"
    using \<open>0 \<le> bf_mant x\<close> by (cases "bf_mant x = 0") simp_all
  ultimately show ?thesis
    using False by (simp add: bf_Int_def)
qed

lemma bf_Mul_accurate:
  assumes "0 \<le> a" and "0 \<le> bf_mant price"
  defines "f \<equiv> bf_Mul (bf_SetInt a) price"
  shows "0 \<le> bf_mant f \<and> \<bar>bf_real f - real_of_int a * bf_real price\<bar> * 2 ^ 64 \<le> real_of_int a * bf_real price"
proof -
  define m where "m = a * bf_mant price"
  define p where "p = max (max 64 (bit_len (nat \<bar>a\<bar>))) (bf_prec price)"
  obtain q k where qk: "round_even p (nat m) = (q, k)"
    by (cases "round_even p (nat m)")
  have m: "0 \<le> m" "\<bar>m\<bar> = m"
    using assms by (simp_all add: m_def)
  have f: "bf_mant f = sgn m * int q" "bf_exp f = bf_exp price + int k"
    using qk by (simp_all add: f_def bf_Mul_def bf_SetInt_def m_def [symmetric] p_def [symmetric] m Let_def)
  have zero: "m = 0 \<Longrightarrow> q = 0"
    using qk by (auto simp: round_even_def bit_len.simps [of 0])
  have mant: "bf_mant f = int q"
    using f(1) m zero by (cases "m = 0") simp_all
  have "\<bar>int q * 2 ^ k - m\<bar> * 2 ^ p \<le> m"
    using round_even_error [OF qk] m by (simp add: p_def)
  then have "real_of_int (\<bar>int q * 2 ^ k - m\<bar> * 2 ^ p) \<le> real_of_int m"
    by (simp only: of_int_le_iff)
  then have err: "\<bar>real q * 2 ^ k - real_of_int m\<bar> * 2 ^ p \<le> real_of_int m"
    by simp
  have "\<bar>real q * 2 ^ k - real_of_int m\<bar> * 2 ^ 64 \<le> \<bar>real q * 2 ^ k - real_of_int m\<bar> * 2 ^ p"
    by (intro mult_left_mono power_increasing) (simp_all add: p_def)
  with err have err64: "\<bar>real q * 2 ^ k - real_of_int m\<bar> * 2 ^ 64 \<le> real_of_int m"
    by linarith
  let ?e = "(2 :: real) powi bf_exp price"
  have "bf_real f = real q * 2 ^ k * ?e"
    by (simp add: bf_real_def mant f(2) power_int_add)
  moreover have "real_of_int a * bf_real price = real_of_int m * ?e"
    by (simp add: bf_real_def m_def)
  moreover have "(\<bar>real q * 2 ^ k - real_of_int m\<bar> * 2 ^ 64) * ?e \<le> real_of_int m * ?e"
    using err64 by (rule mult_right_mono) simp
  moreover have "\<bar>real q * 2 ^ k * ?e - real_of_int m * ?e\<bar> = \<bar>real q * 2 ^ k - real_of_int m\<bar> * ?e"
    by (simp add: left_diff_distrib [symmetric] abs_mult)
  ultimately show ?thesis
    by (simp add: mant mult_ac)
qed

text \<open>
  C33. The notional value is accurate: for a non-negative amount and price and positive decimals,
  the value that computeValue returns is the quotient amount * price / decimals rounded down, with
  the product off by at most one part in 2 ^ 64.
\<close>

theorem computeValue_accurate:
  assumes "computeValue amount price decimals = Inr v"
    and "0 \<le> amount" and "0 \<le> bf_mant price" and "0 < decimals"
  defines "exact \<equiv> real_of_int amount * bf_real price"
  shows "real (unat v) * real_of_int decimals \<le> exact * (1 + 1 / 2 ^ 64) \<and>
    exact * (1 - 1 / 2 ^ 64) < (real (unat v) + 1) * real_of_int decimals"
proof -
  define f where "f = bf_Mul (bf_SetInt amount) price"
  define w where "w = \<lfloor>bf_real f\<rfloor> div decimals"
  have acc: "0 \<le> bf_mant f" "\<bar>bf_real f - exact\<bar> * 2 ^ 64 \<le> exact"
    using bf_Mul_accurate [OF assms(2,3)] by (simp_all add: f_def exact_def)
  have "v = word_of_int w \<and> 0 \<le> w \<and> w < 2 ^ 64"
    using assms(1,4) acc(1) by (auto simp: computeValue_def Let_def f_def [symmetric] euclid_div_def
        bf_Int_floor w_def chk_eq_Inr split: if_splits)
  then have v: "real (unat v) = real_of_int w"
    by (simp add: unsigned_of_int take_bit_int_eq_self_iff)
  have "w * decimals + \<lfloor>bf_real f\<rfloor> mod decimals = \<lfloor>bf_real f\<rfloor>"
    unfolding w_def by (rule div_mult_mod_eq)
  then have "w * decimals \<le> \<lfloor>bf_real f\<rfloor>" and "\<lfloor>bf_real f\<rfloor> + 1 \<le> (w + 1) * decimals"
    using pos_mod_sign [OF assms(4), of "\<lfloor>bf_real f\<rfloor>"] pos_mod_bound [OF assms(4), of "\<lfloor>bf_real f\<rfloor>"]
    by (simp_all add: distrib_right)
  then have "real_of_int (w * decimals) \<le> bf_real f" and "bf_real f < real_of_int ((w + 1) * decimals)"
    by linarith+
  moreover have "exact - exact / 2 ^ 64 \<le> bf_real f" and "bf_real f \<le> exact + exact / 2 ^ 64"
    using acc(2) by (auto simp: abs_if field_simps split: if_splits)
  ultimately show ?thesis
    unfolding v by (simp add: algebra_simps)
qed

lemma computeValue_example:
  "computeValue 10001 \<lparr>bf_mant = 3, bf_exp = - 1, bf_prec = 53\<rparr> 100 = Inr 150"
proof -
  have "bf_Mul (bf_SetInt 10001) \<lparr>bf_mant = 3, bf_exp = - 1, bf_prec = 53\<rparr> =
      \<lparr>bf_mant = 30003, bf_exp = - 1, bf_prec = 64\<rparr>"
    by (simp add: bf_Mul_def bf_SetInt_def round_even_def)
  then show ?thesis
    by (simp add: computeValue_def bf_Int_def euclid_div_def)
qed

theorem computeValue_accurate_witness:
  "real (unat (150 :: 64 word)) * real_of_int 100 \<le>
     real_of_int 10001 * bf_real \<lparr>bf_mant = 3, bf_exp = - 1, bf_prec = 53\<rparr> * (1 + 1 / 2 ^ 64)"
  using computeValue_accurate [OF computeValue_example] by simp

end
