(* ===== verification/Governor.thy ===== *)
theory Governor imports GovernorDb GovValue begin

text \<open>
  The chain governor: node/pkg/governor/governor.go and flow_cancel_corridors.go. Every governed chain
  has a daily limit in dollars on the transfers that leave it; a transfer that is too big or does not
  fit is held in the pending list of its chain until it fits or its release time comes.

  The state is the record ChainGovernor; db is the database behind the interface GovernorDB. The
  maps of pointers \<open>map[tokenKey]*tokenEntry\<close> and \<open>map[vaa.ChainID]*chainEntry\<close> are maps to
  values: an operation that holds a pointer takes the key and reads and writes the entry in the map.
  A pending entry's token pointer is the token's key, so its current price is looked up in the same
  way. The mutex makes every operation one atomic step. Logging is left out.
\<close>

section \<open>Data\<close>

record tokenKey =
  tk_chain :: ChainID
  tk_addr :: Address

record tokenEntry =
  te_price :: BigFloat
  te_decimals :: int
  te_symbol :: string
  te_coinGeckoId :: string
  te_token :: tokenKey
  te_flowCancels :: bool

record pendingEntry =
  pe_token :: tokenKey
  pe_amount :: int
  pe_hash :: string
  pe_dbData :: PendingTransfer

text \<open>The value is an int64, read with sint.\<close>

record transfer =
  tr_dbTransfer :: Transfer
  tr_value :: "64 word"

record chainEntry =
  ce_emitterChainId :: ChainID
  ce_emitterAddr :: Address
  ce_dailyLimit :: "64 word"
  ce_bigTransactionSize :: "64 word"
  ce_checkForBigTransactions :: bool
  ce_transfers :: "transfer list"
  ce_pending :: "pendingEntry list"

record corridor =
  co_first :: ChainID
  co_second :: ChainID

record 's ChainGovernor =
  gov_db :: 's
  gov_tokens :: "tokenKey \<rightharpoonup> tokenEntry"
  gov_chains :: "ChainID \<rightharpoonup> chainEntry"
  gov_chainIds :: "ChainID list"
  gov_msgsSeen :: "string \<rightharpoonup> bool"
  gov_msgsToPublish :: "MessagePublication list"
  gov_dayLengthInMinutes :: int
  gov_flowCancelEnabled :: bool
  gov_flowCancelCorridors :: "corridor list"

definition transferComplete :: bool where "transferComplete = True"
definition transferEnqueued :: bool where "transferEnqueued = False"

text \<open>Durations are nanoseconds.\<close>

definition minute :: time where "minute = 60000000000"
definition maxEnqueuedTime :: time where "maxEnqueuedTime = 24 * 60 * minute"

section \<open>Corridors\<close>

definition valid :: "corridor \<Rightarrow> bool" where
  "valid p \<longleftrightarrow> co_first p \<noteq> co_second p \<and> co_first p \<noteq> ChainIDUnset \<and> co_second p \<noteq> ChainIDUnset"

definition corridor_equals :: "corridor \<Rightarrow> corridor \<Rightarrow> bool" where
  "corridor_equals p p2 =
     (if \<not> valid p \<or> \<not> valid p2 then False
      else if co_first p = co_first p2 \<and> co_second p = co_second p2 then True
      else if co_first p = co_second p2 \<and> co_first p2 = co_second p then True
      else False)"

text \<open>The slice seen starts with len(input) zero corridors, which equal nothing.\<close>

fun validate_loop :: "corridor list \<Rightarrow> corridor list \<Rightarrow> bool" where
  "validate_loop seen [] = True"
| "validate_loop seen (p # ps) =
     (if \<not> valid p then False
      else if list_ex (corridor_equals p) seen then False
      else validate_loop (seen @ [p]) ps)"

definition ValidateCorridors :: "corridor list \<Rightarrow> bool" where
  "ValidateCorridors input = validate_loop (replicate (length input) \<lparr>co_first = 0, co_second = 0\<rparr>) input"

definition corridorCanFlowCancel :: "corridor \<Rightarrow> 's ChainGovernor \<Rightarrow> bool" where
  "corridorCanFlowCancel c g =
     (if \<not> gov_flowCancelEnabled g then False
      else list_ex (corridor_equals c) (gov_flowCancelCorridors g))"

section \<open>Transfers\<close>

definition newTransferFromDbTransfer :: "Transfer \<Rightarrow> go_error + transfer" where
  "newTransferFromDbTransfer dbTransfer =
     (if 2 ^ 63 - 1 < unat (xf_Value dbTransfer) then Inl (Errorf ''value for db.Transfer exceeds MaxInt64'')
      else Inr \<lparr>tr_dbTransfer = dbTransfer, tr_value = xf_Value dbTransfer\<rparr>)"

definition transfer_inverse :: "transfer \<Rightarrow> transfer" where
  "transfer_inverse t = t\<lparr>tr_value := - tr_value t\<rparr>"

definition addFlowCancelTransfer :: "transfer \<Rightarrow> chainEntry \<Rightarrow> go_error + chainEntry" where
  "addFlowCancelTransfer t ce =
     (let value = tr_value t; targetChain = xf_TargetChain (tr_dbTransfer t) in
      if 0 < sint value then Inl (Errorf ''flow cancel transfer Value must be negative'')
      else if 2 ^ 63 - 1 < unat (xf_Value (tr_dbTransfer t))
      then Inl (Errorf ''value for transfer.dbTransfer exceeds MaxInt64'')
      else if value \<noteq> - xf_Value (tr_dbTransfer t) then Inl (Errorf ''transfer is invalid'')
      else if targetChain \<noteq> ce_emitterChainId ce
      then Inl (Errorf ''flow cancel transfer TargetChain does not match this chainEntry'')
      else Inr (ce\<lparr>ce_transfers := ce_transfers ce @ [t]\<rparr>))"

definition addFlowCancelTransferFromDbTransfer :: "Transfer \<Rightarrow> chainEntry \<Rightarrow> go_error + chainEntry" where
  "addFlowCancelTransferFromDbTransfer dbTransfer ce =
     chk (newTransferFromDbTransfer dbTransfer) (\<lambda>t. addFlowCancelTransfer (transfer_inverse t) ce)"

definition isBigTransfer :: "chainEntry \<Rightarrow> 64 word \<Rightarrow> bool" where
  "isBigTransfer ce value \<longleftrightarrow> ce_bigTransactionSize ce \<le> value \<and> ce_checkForBigTransactions ce"

text \<open>\<open>tryAddFlowCancelTransfer t g\<close>: the result and the governor, unchanged unless it is true.\<close>

definition tryAddFlowCancelTransfer :: "transfer \<Rightarrow> 's ChainGovernor \<Rightarrow> (bool, 's ChainGovernor) db_result" where
  "tryAddFlowCancelTransfer t g =
     (let d = tr_dbTransfer t;
          c = \<lparr>co_first = xf_EmitterChain d, co_second = xf_TargetChain d\<rparr>;
          key = \<lparr>tk_chain = xf_OriginChain d, tk_addr = xf_OriginAddress d\<rparr>
      in
      if \<not> corridorCanFlowCancel c g then (Inr False, g)
      else case gov_tokens g key of
        None \<Rightarrow> (Inr False, g)
      | Some te \<Rightarrow>
          if \<not> te_flowCancels te then (Inr False, g)
          else case gov_chains g (xf_TargetChain d) of
            None \<Rightarrow> (Inr False, g)
          | Some dest \<Rightarrow>
              (case addFlowCancelTransfer (transfer_inverse t) dest of
                 Inl e \<Rightarrow> (Inl e, g)
               | Inr dest \<Rightarrow> (Inr True, g\<lparr>gov_chains := (gov_chains g)(xf_TargetChain d \<mapsto> dest)\<rparr>)))"

section \<open>The sum over a day\<close>

text \<open>
  TrimAndSumValue: the loop that sums keeps the index of the last transfer that is too old, -1 for
  none, and the sum of the others.
\<close>

fun sum_loop :: "time \<Rightarrow> int \<Rightarrow> int \<Rightarrow> 64 word \<Rightarrow> transfer list \<Rightarrow> go_error + int \<times> 64 word" where
  "sum_loop startTime idx trimIdx acc [] = Inr (trimIdx, acc)"
| "sum_loop startTime idx trimIdx acc (t # ts) =
     (if xf_Timestamp (tr_dbTransfer t) < startTime then sum_loop startTime (idx + 1) idx acc ts
      else chk (CheckedAddInt64 acc (tr_value t)) (\<lambda>acc. sum_loop startTime (idx + 1) trimIdx acc ts))"

fun delete_loop :: "'s badger \<Rightarrow> transfer list \<Rightarrow> 's ChainGovernor \<Rightarrow> (unit, 's ChainGovernor) db_result" where
  "delete_loop B [] g = (Inr (), g)"
| "delete_loop B (t # ts) g =
     (case DeleteTransfer B (tr_dbTransfer t) (gov_db g) of
        (Inl e, s) \<Rightarrow> (Inl e, g\<lparr>gov_db := s\<rparr>)
      | (Inr _, s) \<Rightarrow> delete_loop B ts
          (g\<lparr>gov_db := s, gov_msgsSeen := (gov_msgsSeen g)(xf_Hash (tr_dbTransfer t) := None)\<rparr>))"

text \<open>It returns the sum, the transfers that are left and the error.\<close>

definition TrimAndSumValue :: "'s badger \<Rightarrow> transfer list \<Rightarrow> time \<Rightarrow> 's ChainGovernor \<Rightarrow>
    (64 word \<times> transfer list \<times> go_error option) \<times> 's ChainGovernor" where
  "TrimAndSumValue B transfers startTime g =
     (if length transfers = 0 then ((0, transfers, None), g)
      else case sum_loop startTime 0 (- 1) 0 transfers of
        Inl e \<Rightarrow> ((0, transfers, Some e), g)
      | Inr (trimIdx, usage) \<Rightarrow>
          if 0 \<le> trimIdx then
            (case delete_loop B (take (nat (trimIdx + 1)) transfers) g of
               (Inl e, g) \<Rightarrow> ((0, transfers, Some e), g)
             | (Inr _, g) \<Rightarrow> ((usage, drop (nat (trimIdx + 1)) transfers, None), g))
          else ((usage, transfers, None), g))"

text \<open>
  \<open>put_transfers cid ts g\<close> is the assignment \<open>chainEntry.transfers = ts\<close> through the pointer to the
  entry of cid, \<open>put_pending\<close> likewise.
\<close>

definition put_transfers :: "ChainID \<Rightarrow> transfer list \<Rightarrow> 's ChainGovernor \<Rightarrow> 's ChainGovernor" where
  "put_transfers cid ts g = g\<lparr>gov_chains := (gov_chains g)(cid :=
     map_option (\<lambda>ce. ce\<lparr>ce_transfers := ts\<rparr>) (gov_chains g cid))\<rparr>"

definition put_pending :: "ChainID \<Rightarrow> pendingEntry list \<Rightarrow> 's ChainGovernor \<Rightarrow> 's ChainGovernor" where
  "put_pending cid ps g = g\<lparr>gov_chains := (gov_chains g)(cid :=
     map_option (\<lambda>ce. ce\<lparr>ce_pending := ps\<rparr>) (gov_chains g cid))\<rparr>"

text \<open>A nil chain entry is a chain id with no entry. It returns the sum and the error.\<close>

definition TrimAndSumValueForChain :: "'s badger \<Rightarrow> ChainID \<Rightarrow> time \<Rightarrow> 's ChainGovernor \<Rightarrow>
    (64 word \<times> go_error option) \<times> 's ChainGovernor" where
  "TrimAndSumValueForChain B cid startTime g =
     (case gov_chains g cid of
        None \<Rightarrow> ((0, Some (Errorf ''TrimAndSumValeForChain parameter chainEntry must not be nil'')), g)
      | Some ce \<Rightarrow>
          (case TrimAndSumValue B (ce_transfers ce) startTime g of
             ((sumValue, ts, err), g) \<Rightarrow>
               (let g = put_transfers cid ts g in
                case err of
                  Some e \<Rightarrow> ((ce_dailyLimit ce, Some e), g)
                | None \<Rightarrow> if sint sumValue \<le> 0 then ((0, None), g) else ((sumValue, None), g))))"

section \<open>Processing a message\<close>

definition HashFromMsg :: "crypto \<Rightarrow> MessagePublication \<Rightarrow> string" where
  "HashFromMsg C msg = (let v = CreateVAA 0 msg; digest = SigningDigest C v in hex_encode digest)"

definition payload_token :: "TransferPayloadHdr \<Rightarrow> tokenKey" where
  "payload_token payload = \<lparr>tk_chain = tph_OriginChain payload, tk_addr = tph_OriginAddress payload\<rparr>"

text \<open>
  The chain entry, the token and the payload of a governed message; None for a message that is
  not governed. The entry is that of the message's emitter chain.
\<close>

definition parseMsgAlreadyLocked :: "MessagePublication \<Rightarrow> 's ChainGovernor \<Rightarrow>
    go_error + (chainEntry \<times> tokenEntry \<times> TransferPayloadHdr) option" where
  "parseMsgAlreadyLocked msg g =
     (case gov_chains g (mp_EmitterChain msg) of
        None \<Rightarrow> Inr None
      | Some ce \<Rightarrow>
          if mp_EmitterAddress msg \<noteq> ce_emitterAddr ce then Inr None
          else if \<not> IsTransfer (mp_Payload msg) then Inr None
          else chk (DecodeTransferPayloadHdr (mp_Payload msg)) (\<lambda>payload.
            case gov_tokens g (payload_token payload) of
              None \<Rightarrow> Inr None
            | Some token \<Rightarrow> Inr (Some (ce, token, payload))))"

definition IsGovernedMsg :: "MessagePublication \<Rightarrow> 's ChainGovernor \<Rightarrow> go_error + bool" where
  "IsGovernedMsg msg g = chk (parseMsgAlreadyLocked msg g) (\<lambda>r. Inr (r \<noteq> None))"

definition token_value :: "int \<Rightarrow> tokenEntry \<Rightarrow> go_error + 64 word" where
  "token_value amount token = computeValue amount (te_price token) (te_decimals token)"

text \<open>The record of a transfer that is counted now.\<close>

definition db_transfer :: "time \<Rightarrow> 64 word \<Rightarrow> tokenKey \<Rightarrow> MessagePublication \<Rightarrow> TransferPayloadHdr \<Rightarrow> string \<Rightarrow> Transfer" where
  "db_transfer now value token msg payload hash =
     \<lparr>xf_Timestamp = now, xf_Value = value, xf_OriginChain = tk_chain token, xf_OriginAddress = tk_addr token,
      xf_EmitterChain = mp_EmitterChain msg, xf_EmitterAddress = mp_EmitterAddress msg,
      xf_MsgID = MessageIDString msg, xf_Hash = hash, xf_TargetAddress = tph_TargetAddress payload,
      xf_TargetChain = tph_TargetChain payload\<rparr>"

definition set_seen :: "string \<Rightarrow> bool \<Rightarrow> 's ChainGovernor \<Rightarrow> 's ChainGovernor" where
  "set_seen hash b g = g\<lparr>gov_msgsSeen := (gov_msgsSeen g)(hash \<mapsto> b)\<rparr>"

definition start_time :: "time \<Rightarrow> 's ChainGovernor \<Rightarrow> time" where
  "start_time now g = now - minute * gov_dayLengthInMinutes g"

text \<open>The transfers and the pending entries of a chain, none if it has no entry.\<close>

definition transfers_of :: "ChainID \<Rightarrow> 's ChainGovernor \<Rightarrow> transfer list" where
  "transfers_of cid g = (case gov_chains g cid of None \<Rightarrow> [] | Some ce \<Rightarrow> ce_transfers ce)"

definition pending_of :: "ChainID \<Rightarrow> 's ChainGovernor \<Rightarrow> pendingEntry list" where
  "pending_of cid g = (case gov_chains g cid of None \<Rightarrow> [] | Some ce \<Rightarrow> ce_pending ce)"

text \<open>Holding a message: the branch enqueueIt of ProcessMsgForTime.\<close>

definition enqueue_msg :: "crypto \<Rightarrow> 's badger \<Rightarrow> MessagePublication \<Rightarrow> time \<Rightarrow> tokenKey \<Rightarrow> TransferPayloadHdr \<Rightarrow>
    's ChainGovernor \<Rightarrow> (bool, 's ChainGovernor) db_result" where
  "enqueue_msg C B msg releaseTime token payload g =
     (let dbData = \<lparr>pt_ReleaseTime = releaseTime, pt_Msg = msg\<rparr>;
          hash = HashFromMsg C msg; cid = mp_EmitterChain msg
      in case StorePendingMsg B dbData (gov_db g) of
           (Inl e, s) \<Rightarrow> (Inl e, g\<lparr>gov_db := s\<rparr>)
         | (Inr _, s) \<Rightarrow> (Inr False, set_seen hash transferEnqueued (put_pending cid
             (pending_of cid g @ [\<lparr>pe_token = token, pe_amount = int (tph_Amount payload), pe_hash = hash,
                pe_dbData = dbData\<rparr>]) (g\<lparr>gov_db := s\<rparr>))))"

text \<open>
  Counting a transfer: it is stored and appended to the transfers of the chain, the hash is marked
  complete, and the inverse is added to the target chain where the flow cancels; an error of that
  last step is only logged. ProcessMsgForTime marks the hash after the flow cancel transfer and
  CheckPendingForTime before it; the two write different fields.
\<close>

definition count_transfer :: "'s badger \<Rightarrow> ChainID \<Rightarrow> Transfer \<Rightarrow> 's ChainGovernor \<Rightarrow> (unit, 's ChainGovernor) db_result" where
  "count_transfer B cid d g =
     (case newTransferFromDbTransfer d of
        Inl e \<Rightarrow> (Inl e, g)
      | Inr t \<Rightarrow>
          (case StoreTransfer B d (gov_db g) of
             (Inl e, s) \<Rightarrow> (Inl e, g\<lparr>gov_db := s\<rparr>)
           | (Inr _, s) \<Rightarrow>
               (let g = put_transfers cid (transfers_of cid g @ [t]) (g\<lparr>gov_db := s\<rparr>);
                    g = (if gov_flowCancelEnabled g then snd (tryAddFlowCancelTransfer t g) else g)
                in (Inr (), set_seen (xf_Hash d) transferComplete g))))"

definition ProcessMsgForTime :: "crypto \<Rightarrow> 's badger \<Rightarrow> MessagePublication option \<Rightarrow> time \<Rightarrow>
    's ChainGovernor \<Rightarrow> (bool, 's ChainGovernor) db_result" where
  "ProcessMsgForTime C B m now g =
     (case m of None \<Rightarrow> (Inl (Errorf ''msg is nil''), g)
      | Some msg \<Rightarrow>
     (case parseMsgAlreadyLocked msg g of
        Inl e \<Rightarrow> (Inl e, g)
      | Inr None \<Rightarrow> (Inr True, g)
      | Inr (Some (ce, token, payload)) \<Rightarrow>
          let hash = HashFromMsg C msg; cid = mp_EmitterChain msg; tk = payload_token payload in
          (case gov_msgsSeen g hash of
             Some xferComplete \<Rightarrow> (Inr xferComplete, g)
           | None \<Rightarrow>
               (case TrimAndSumValueForChain B cid (start_time now g) g of
                  ((_, Some e), g) \<Rightarrow> (Inl e, g)
                | ((prevTotalValue, None), g) \<Rightarrow>
                    (case token_value (int (tph_Amount payload)) token of
                       Inl e \<Rightarrow> (Inl e, g)
                     | Inr value \<Rightarrow>
                         let newTotalValue = prevTotalValue + value in
                         if newTotalValue < prevTotalValue then (Inl (Errorf ''total value has overflowed''), g)
                         else if isBigTransfer ce value \<or> ce_dailyLimit ce < newTotalValue
                         then enqueue_msg C B msg (now + maxEnqueuedTime) tk payload g
                         else map_prod (map_sum id (\<lambda>_. True)) id
                           (count_transfer B cid (db_transfer now value (te_token token) msg payload hash) g))))))"

definition ProcessMsg :: "crypto \<Rightarrow> 's badger \<Rightarrow> MessagePublication option \<Rightarrow> time \<Rightarrow> 's ChainGovernor \<Rightarrow>
    bool \<times> 's ChainGovernor" where
  "ProcessMsg C B msg now g = (case ProcessMsgForTime C B msg now g of
     (Inl _, g) \<Rightarrow> (False, g) | (Inr publish, g) \<Rightarrow> (publish, g))"

section \<open>Releasing pending messages\<close>

text \<open>
  The loop over ce.pending up to its first entry that is published: whether the entry must wait,
  or its value and whether it counts towards the transfers.
\<close>

definition release_decision :: "chainEntry \<Rightarrow> 64 word \<Rightarrow> time \<Rightarrow> pendingEntry \<Rightarrow> 64 word \<Rightarrow> go_error + bool option" where
  "release_decision ce prevTotalValue now pe value =
     (if isBigTransfer ce value then
        (if now < pt_ReleaseTime (pe_dbData pe) then Inr None else Inr (Some False))
      else if pt_ReleaseTime (pe_dbData pe) < now then Inr (Some False)
      else
        let newTotalValue = prevTotalValue + value in
        if newTotalValue < prevTotalValue then Inl (Errorf ''total value has overflowed'')
        else if ce_dailyLimit ce < newTotalValue then Inr None else Inr (Some True))"

text \<open>A pending entry whose token key had no entry would be a nil pointer.\<close>

definition pending_value :: "'s ChainGovernor \<Rightarrow> pendingEntry \<Rightarrow> go_error + 64 word" where
  "pending_value g pe = (case gov_tokens g (pe_token pe) of
     None \<Rightarrow> Inl (Panic ''nil token'') | Some token \<Rightarrow> token_value (pe_amount pe) token)"

fun find_release :: "'s ChainGovernor \<Rightarrow> chainEntry \<Rightarrow> 64 word \<Rightarrow> time \<Rightarrow> nat \<Rightarrow> pendingEntry list \<Rightarrow>
    go_error + (nat \<times> pendingEntry \<times> 64 word \<times> bool) option" where
  "find_release g ce prevTotalValue now idx [] = Inr None"
| "find_release g ce prevTotalValue now idx (pe # ps) =
     chk (pending_value g pe) (\<lambda>value.
     chk (release_decision ce prevTotalValue now pe value) (\<lambda>d.
       case d of None \<Rightarrow> find_release g ce prevTotalValue now (Suc idx) ps
       | Some counts \<Rightarrow> Inr (Some (idx, pe, value, counts))))"

definition forget :: "string \<Rightarrow> 's ChainGovernor \<Rightarrow> 's ChainGovernor" where
  "forget hash g = g\<lparr>gov_msgsSeen := (gov_msgsSeen g)(hash := None)\<rparr>"

text \<open>The key that the token of an entry holds; the entry's own key for a nil pointer.\<close>

definition pending_token :: "'s ChainGovernor \<Rightarrow> pendingEntry \<Rightarrow> tokenKey" where
  "pending_token g pe = (case gov_tokens g (pe_token pe) of None \<Rightarrow> pe_token pe | Some token \<Rightarrow> te_token token)"

text \<open>
  Publishing one entry: msgs is msgsToPublish. An error comes with the messages that the code has
  put back into gov.msgsToPublish; after an error of newTransferFromDbTransfer or StoreTransfer it
  puts none back.
\<close>

definition release_entry :: "'s badger \<Rightarrow> ChainID \<Rightarrow> time \<Rightarrow> nat \<Rightarrow> pendingEntry \<Rightarrow> 64 word \<Rightarrow> bool \<Rightarrow>
    MessagePublication list \<Rightarrow> 's ChainGovernor \<Rightarrow> (MessagePublication list, 's ChainGovernor) db_result" where
  "release_entry B cid now idx pe value counts msgs g =
     (let msg = pt_Msg (pe_dbData pe);
          r = (case DecodeTransferPayloadHdr (mp_Payload msg) of
                 Inl _ \<Rightarrow> (Inr msgs, forget (pe_hash pe) g)
               | Inr payload \<Rightarrow>
                   if counts then
                     map_prod (map_sum id (\<lambda>_. msgs @ [msg])) id
                       (count_transfer B cid (db_transfer now value (pending_token g pe) msg payload (pe_hash pe)) g)
                   else (Inr (msgs @ [msg]), forget (pe_hash pe) g))
      in case r of
           (Inl e, g) \<Rightarrow> (Inl e, g)
         | (Inr msgs, g) \<Rightarrow>
             (case DeletePendingMsg B (pe_dbData pe) (gov_db g) of
                (Inl e, s) \<Rightarrow> (Inl e, g\<lparr>gov_db := s, gov_msgsToPublish := msgs\<rparr>)
              | (Inr _, s) \<Rightarrow> (Inr msgs, put_pending cid
                  (take idx (pending_of cid g) @ drop (Suc idx) (pending_of cid g)) (g\<lparr>gov_db := s\<rparr>))))"

text \<open>
  One round of the inner loop: None when it found nothing to publish, or could not sum the
  transfers, and the loop ends; Some msgs when it published an entry.
\<close>

definition check_round :: "'s badger \<Rightarrow> time \<Rightarrow> time \<Rightarrow> ChainID \<Rightarrow> MessagePublication list \<Rightarrow> 's ChainGovernor \<Rightarrow>
    (MessagePublication list option, 's ChainGovernor) db_result" where
  "check_round B startTime now cid msgs g =
     (case TrimAndSumValueForChain B cid startTime g of
        ((_, Some e), g) \<Rightarrow> (Inr None, g\<lparr>gov_msgsToPublish := msgs\<rparr>)
      | ((prevTotalValue, None), g) \<Rightarrow>
          (case gov_chains g cid of None \<Rightarrow> (Inr None, g)
           | Some ce \<Rightarrow>
               (case find_release g ce prevTotalValue now 0 (ce_pending ce) of
                  Inl e \<Rightarrow> (Inl e, g\<lparr>gov_msgsToPublish := msgs\<rparr>)
                | Inr None \<Rightarrow> (Inr None, g)
                | Inr (Some (idx, pe, value, counts)) \<Rightarrow>
                    map_prod (map_sum id Some) id (release_entry B cid now idx pe value counts msgs g))))"

lemma map_result [simp]:
  "map_prod (map_sum id f) id p = (Inr y, h) \<longleftrightarrow> (\<exists>x. p = (Inr x, h) \<and> y = f x)"
  "map_prod (map_sum id f) id p = (Inl e, h) \<longleftrightarrow> p = (Inl e, h)"
  by (cases p; cases "fst p"; auto)+

lemma map_result_pair: "map_prod (map_sum id f) id p = (r, h) \<longleftrightarrow> (\<exists>q. p = (q, h) \<and> r = map_sum id f q)"
  by (cases p) auto

lemma put_gov_simps [simp]:
  "gov_db (put_transfers cid ts g) = gov_db g" "gov_db (put_pending cid ps g) = gov_db g"
  "gov_tokens (put_transfers cid ts g) = gov_tokens g" "gov_tokens (put_pending cid ps g) = gov_tokens g"
  "gov_msgsSeen (put_transfers cid ts g) = gov_msgsSeen g" "gov_msgsSeen (put_pending cid ps g) = gov_msgsSeen g"
  "gov_msgsToPublish (put_transfers cid ts g) = gov_msgsToPublish g"
  "gov_msgsToPublish (put_pending cid ps g) = gov_msgsToPublish g"
  "gov_chainIds (put_transfers cid ts g) = gov_chainIds g" "gov_chainIds (put_pending cid ps g) = gov_chainIds g"
  "gov_flowCancelEnabled (put_transfers cid ts g) = gov_flowCancelEnabled g"
  "gov_flowCancelEnabled (put_pending cid ps g) = gov_flowCancelEnabled g"
  "gov_flowCancelCorridors (put_transfers cid ts g) = gov_flowCancelCorridors g"
  "gov_flowCancelCorridors (put_pending cid ps g) = gov_flowCancelCorridors g"
  "gov_dayLengthInMinutes (put_transfers cid ts g) = gov_dayLengthInMinutes g"
  "gov_dayLengthInMinutes (put_pending cid ps g) = gov_dayLengthInMinutes g"
  by (simp_all add: put_transfers_def put_pending_def)

lemma put_chain_simps [simp]:
  "gov_chains (put_transfers cid ts g) c =
     (if c = cid then map_option (\<lambda>ce. ce\<lparr>ce_transfers := ts\<rparr>) (gov_chains g c) else gov_chains g c)"
  "gov_chains (put_pending cid ps g) c =
     (if c = cid then map_option (\<lambda>ce. ce\<lparr>ce_pending := ps\<rparr>) (gov_chains g c) else gov_chains g c)"
  "transfers_of c (put_pending cid ps g) = transfers_of c g"
  "pending_of c (put_transfers cid ts g) = pending_of c g"
  by (auto simp: put_transfers_def put_pending_def transfers_of_def pending_of_def split: option.splits)

lemma of_put [simp]:
  "transfers_of c (put_transfers cid ts g) = (if c = cid \<and> gov_chains g cid \<noteq> None then ts else transfers_of c g)"
  "pending_of c (put_pending cid ps g) = (if c = cid \<and> gov_chains g cid \<noteq> None then ps else pending_of c g)"
  by (auto simp: transfers_of_def pending_of_def)

section \<open>What an operation leaves alone\<close>

definition static :: "chainEntry \<Rightarrow> chainEntry" where
  "static ce = ce\<lparr>ce_transfers := [], ce_pending := []\<rparr>"

definition same_config :: "'s ChainGovernor \<Rightarrow> 's ChainGovernor \<Rightarrow> bool" where
  "same_config g g' \<longleftrightarrow> gov_tokens g' = gov_tokens g \<and> gov_chainIds g' = gov_chainIds g \<and>
     gov_dayLengthInMinutes g' = gov_dayLengthInMinutes g \<and>
     gov_flowCancelEnabled g' = gov_flowCancelEnabled g \<and>
     gov_flowCancelCorridors g' = gov_flowCancelCorridors g \<and>
     (\<forall>c. map_option static (gov_chains g' c) = map_option static (gov_chains g c))"

definition same_pending :: "'s ChainGovernor \<Rightarrow> 's ChainGovernor \<Rightarrow> bool" where
  "same_pending g g' \<longleftrightarrow> (\<forall>c. pending_of c g' = pending_of c g)"

lemma static_simps [simp]:
  "static (ce\<lparr>ce_transfers := ts\<rparr>) = static ce" "static (ce\<lparr>ce_pending := ps\<rparr>) = static ce"
  by (simp_all add: static_def)

lemma static_eq:
  assumes "static ce' = static ce"
  shows "ce_dailyLimit ce' = ce_dailyLimit ce" "ce_emitterAddr ce' = ce_emitterAddr ce"
    "ce_emitterChainId ce' = ce_emitterChainId ce" "ce_bigTransactionSize ce' = ce_bigTransactionSize ce"
    "ce_checkForBigTransactions ce' = ce_checkForBigTransactions ce"
  using assms by (cases ce; cases ce'; simp add: static_def)+

lemma same_config_refl [simp]: "same_config g g"
  by (simp add: same_config_def)

lemma same_config_trans [trans]: "same_config g g' \<Longrightarrow> same_config g' g'' \<Longrightarrow> same_config g g''"
  by (simp add: same_config_def)

lemma same_config_updates [simp]:
  "same_config g (h\<lparr>gov_db := s\<rparr>) = same_config g h"
  "same_config g (h\<lparr>gov_msgsSeen := m\<rparr>) = same_config g h"
  "same_config g (h\<lparr>gov_msgsToPublish := p\<rparr>) = same_config g h"
  "same_config g (put_transfers cid ts h) = same_config g h"
  "same_config g (put_pending cid ps h) = same_config g h"
  "same_config g (set_seen hash b h) = same_config g h"
  "same_config g (forget hash h) = same_config g h"
  by (auto simp: same_config_def set_seen_def forget_def option.map_comp comp_def)

lemma same_config_start: "same_config g g' \<Longrightarrow> start_time now g' = start_time now g"
  by (simp add: same_config_def start_time_def)

lemma same_config_entry:
  assumes "same_config g g'"
  shows "gov_chains g' c = None \<longleftrightarrow> gov_chains g c = None"
    and "gov_chains g c = Some ce \<Longrightarrow> \<exists>ce'. gov_chains g' c = Some ce' \<and> static ce' = static ce"
    and "gov_chains g' c = Some ce' \<Longrightarrow> \<exists>ce. gov_chains g c = Some ce \<and> static ce' = static ce"
  using assms unfolding same_config_def by (metis map_option_is_None, metis map_option_eq_Some, metis map_option_eq_Some)

lemma same_pending_refl [simp]: "same_pending g g"
  by (simp add: same_pending_def)

lemma same_pending_trans [trans]: "same_pending g g' \<Longrightarrow> same_pending g' g'' \<Longrightarrow> same_pending g g''"
  by (simp add: same_pending_def)

lemma of_updates [simp]:
  "pending_of c (h\<lparr>gov_db := s\<rparr>) = pending_of c h" "transfers_of c (h\<lparr>gov_db := s\<rparr>) = transfers_of c h"
  "pending_of c (h\<lparr>gov_msgsSeen := m\<rparr>) = pending_of c h" "transfers_of c (h\<lparr>gov_msgsSeen := m\<rparr>) = transfers_of c h"
  "pending_of c (h\<lparr>gov_msgsToPublish := p\<rparr>) = pending_of c h"
  "transfers_of c (h\<lparr>gov_msgsToPublish := p\<rparr>) = transfers_of c h"
  "pending_of c (set_seen hash b h) = pending_of c h" "transfers_of c (set_seen hash b h) = transfers_of c h"
  "pending_of c (forget hash h) = pending_of c h" "transfers_of c (forget hash h) = transfers_of c h"
  by (simp_all add: pending_of_def transfers_of_def set_seen_def forget_def)

lemma same_pending_updates [simp]:
  "same_pending g (h\<lparr>gov_db := s\<rparr>) = same_pending g h"
  "same_pending g (h\<lparr>gov_msgsSeen := m\<rparr>) = same_pending g h"
  "same_pending g (h\<lparr>gov_msgsToPublish := p\<rparr>) = same_pending g h"
  "same_pending g (put_transfers cid ts h) = same_pending g h"
  "same_pending g (set_seen hash b h) = same_pending g h"
  "same_pending g (forget hash h) = same_pending g h"
  by (simp_all add: same_pending_def)

lemmas keeps = same_config_updates same_pending_updates same_config_refl same_pending_refl

section \<open>The sum over the window\<close>

definition in_window :: "time \<Rightarrow> transfer \<Rightarrow> bool" where
  "in_window startTime t \<longleftrightarrow> startTime \<le> xf_Timestamp (tr_dbTransfer t)"

definition window_sum :: "time \<Rightarrow> transfer list \<Rightarrow> int" where
  "window_sum startTime ts = sum_list (map (\<lambda>t. sint (tr_value t)) (filter (in_window startTime) ts))"

definition by_time :: "transfer list \<Rightarrow> bool" where
  "by_time ts \<longleftrightarrow> sorted (map (\<lambda>t. xf_Timestamp (tr_dbTransfer t)) ts)"

lemma window_sum_simps [simp]:
  "window_sum st [] = 0"
  "window_sum st (t # ts) = (if in_window st t then sint (tr_value t) else 0) + window_sum st ts"
  "window_sum st (ts @ us) = window_sum st ts + window_sum st us"
  "window_sum st (filter (in_window st) ts) = window_sum st ts"
  by (simp_all add: window_sum_def)

text \<open>The index that the loop keeps cuts off a prefix that ends in a transfer that is too old.\<close>

definition cut_at :: "time \<Rightarrow> transfer list \<Rightarrow> transfer list \<Rightarrow> bool" where
  "cut_at st us vs \<longleftrightarrow> (us = [] \<or> \<not> in_window st (last us)) \<and> list_all (in_window st) vs"

lemma sum_loop_Inr:
  assumes "sum_loop st idx k acc ts = Inr (k', v)"
  shows "sint v = sint acc + window_sum st ts \<and>
    (\<exists>us vs. ts = us @ vs \<and> cut_at st us vs \<and> k' = (if us = [] then k else idx + int (length us) - 1))"
  using assms
proof (induction ts arbitrary: idx k acc)
  case Nil
  then show ?case by (auto simp: cut_at_def)
next
  case (Cons t ts)
  show ?case
  proof (cases "in_window st t")
    case True
    with Cons.prems obtain acc' where acc': "CheckedAddInt64 acc (tr_value t) = Inr acc'"
      and r: "sum_loop st (idx + 1) k acc' ts = Inr (k', v)"
      by (auto simp: in_window_def chk_eq_Inr)
    from Cons.IH [OF r] obtain us vs where uv: "ts = us @ vs" "cut_at st us vs"
        "k' = (if us = [] then k else idx + 1 + int (length us) - 1)" and v: "sint v = sint acc' + window_sum st ts"
      by blast
    have "sint v = sint acc + window_sum st (t # ts)"
      using v True CheckedAddInt64_eq [of acc "tr_value t" acc'] acc' by simp
    moreover have "\<exists>us vs. t # ts = us @ vs \<and> cut_at st us vs \<and> k' = (if us = [] then k else idx + int (length us) - 1)"
    proof (cases "us = []")
      case True
      with uv \<open>in_window st t\<close> show ?thesis
        by (intro exI [of _ "[]"] exI [of _ "t # ts"]) (simp add: cut_at_def)
    next
      case False
      with uv show ?thesis
        by (intro exI [of _ "t # us"] exI [of _ vs]) (simp add: cut_at_def)
    qed
    ultimately show ?thesis by simp
  next
    case False
    with Cons.prems have r: "sum_loop st (idx + 1) idx acc ts = Inr (k', v)"
      by (auto simp: in_window_def)
    from Cons.IH [OF r] obtain us vs where uv: "ts = us @ vs" "cut_at st us vs"
        "k' = (if us = [] then idx else idx + 1 + int (length us) - 1)" and v: "sint v = sint acc + window_sum st ts"
      by blast
    then have "cut_at st (t # us) vs"
      using False by (auto simp: cut_at_def)
    with uv v False show ?thesis
      by (intro conjI exI [of _ "t # us"] exI [of _ vs]) simp_all
  qed
qed

lemma cut_by_time:
  assumes "by_time (us @ vs)" and "cut_at st us vs"
  shows "vs = filter (in_window st) (us @ vs) \<and> filter (in_window st) us = []"
proof -
  have "\<forall>u \<in> set us. \<not> in_window st u"
  proof (cases us rule: rev_cases)
    case (snoc us' u)
    with assms show ?thesis
      by (fastforce simp: cut_at_def by_time_def in_window_def sorted_append)
  qed simp
  then show ?thesis
    using assms(2) by (simp add: cut_at_def list_all_iff filter_empty_conv filter_id_conv)
qed

lemma by_time_filter: "by_time ts \<Longrightarrow> by_time (filter P ts)"
  by (simp add: by_time_def sorted_filter)

section \<open>What the operations change\<close>

text \<open>Deleting records of transfers touches the database and the hashes only.\<close>

lemma delete_loop_frame:
  "delete_loop B ts g = (r, g') \<Longrightarrow> \<exists>s m. g' = g\<lparr>gov_db := s, gov_msgsSeen := m\<rparr> \<and>
     (\<forall>h. m h = gov_msgsSeen g h \<or> m h = None \<and> h \<in> (\<lambda>t. xf_Hash (tr_dbTransfer t)) ` set ts)"
proof (induction ts arbitrary: g)
  case Nil
  then show ?case
    by (intro exI [of _ "gov_db g"] exI [of _ "gov_msgsSeen g"]) simp
next
  case (Cons t ts)
  obtain q s where d: "DeleteTransfer B (tr_dbTransfer t) (gov_db g) = (q, s)"
    by (cases "DeleteTransfer B (tr_dbTransfer t) (gov_db g)")
  show ?case
  proof (cases q)
    case (Inl e)
    with Cons.prems d show ?thesis
      by (intro exI [of _ s] exI [of _ "gov_msgsSeen g"]) auto
  next
    case (Inr u)
    with Cons.prems d have "delete_loop B ts
        (g\<lparr>gov_db := s, gov_msgsSeen := (gov_msgsSeen g)(xf_Hash (tr_dbTransfer t) := None)\<rparr>) = (r, g')"
      by simp
    from Cons.IH [OF this] show ?thesis
      by (auto split: if_splits)
  qed
qed

lemma TrimAndSumValueForChain_frame:
  assumes "TrimAndSumValueForChain B cid st g = (r, g')"
  shows "same_config g g' \<and> same_pending g g' \<and> gov_msgsToPublish g' = gov_msgsToPublish g \<and>
    (\<forall>c. c \<noteq> cid \<longrightarrow> transfers_of c g' = transfers_of c g)"
proof -
  have frame: "\<exists>s m. g' = g\<lparr>gov_db := s, gov_msgsSeen := m\<rparr>" if "TrimAndSumValue B ts st g = (q, g')" for ts q g'
  proof -
    have "\<exists>s m. g = g\<lparr>gov_db := s, gov_msgsSeen := m\<rparr>"
      by (intro exI [of _ "gov_db g"] exI [of _ "gov_msgsSeen g"]) simp
    with that show ?thesis
      by (auto simp: TrimAndSumValue_def split: if_splits sum.splits prod.splits dest!: delete_loop_frame)
  qed
  show ?thesis
    using assms by (auto simp: TrimAndSumValueForChain_def Let_def split: option.splits prod.splits if_splits
        dest!: frame)
qed

text \<open>A successful sum: the transfers too old for the window are gone, and the sum is that of the rest.\<close>

lemma TrimAndSumValueForChain_Inr:
  assumes "TrimAndSumValueForChain B cid st g = ((v, None), g')"
  shows "\<exists>ce us. gov_chains g cid = Some ce \<and> uint v = max 0 (window_sum st (ce_transfers ce)) \<and>
    ce_transfers ce = us @ transfers_of cid g' \<and> cut_at st us (transfers_of cid g') \<and>
    (\<forall>h. gov_msgsSeen g' h = gov_msgsSeen g h \<or>
      gov_msgsSeen g' h = None \<and> h \<in> (\<lambda>t. xf_Hash (tr_dbTransfer t)) ` set us)"
proof -
  obtain ce where ce: "gov_chains g cid = Some ce"
    using assms by (auto simp: TrimAndSumValueForChain_def split: option.splits)
  let ?ts = "ce_transfers ce"
  obtain w ts g1 where t: "TrimAndSumValue B ?ts st g = ((w, ts, None), g1)"
    and v: "v = (if sint w \<le> 0 then 0 else w)" and g': "g' = put_transfers cid ts g1"
    using assms ce by (auto simp: TrimAndSumValueForChain_def Let_def split: prod.splits option.splits if_splits)
  have loop: "\<exists>us. ?ts = us @ ts \<and> cut_at st us ts \<and> sint w = window_sum st ?ts \<and>
      (us = [] \<and> g1 = g \<or> delete_loop B us g = (Inr (), g1))"
  proof (cases "?ts = []")
    case True
    with t show ?thesis
      by (auto simp: TrimAndSumValue_def cut_at_def)
  next
    case False
    with t obtain k u where s: "sum_loop st 0 (- 1) 0 ?ts = Inr (k, u)" and "w = u"
      and d: "if 0 \<le> k then delete_loop B (take (nat (k + 1)) ?ts) g = (Inr (), g1) \<and> ts = drop (nat (k + 1)) ?ts
        else g1 = g \<and> ts = ?ts"
      by (auto simp: TrimAndSumValue_def split: sum.splits prod.splits if_splits)
    from sum_loop_Inr [OF s] obtain us vs where "?ts = us @ vs" "cut_at st us vs"
      "k = (if us = [] then - 1 else int (length us) - 1)" "sint u = window_sum st ?ts"
      by auto
    with d \<open>w = u\<close> show ?thesis
      by (intro exI [of _ us]) (auto split: if_splits)
  qed
  then obtain us where us: "?ts = us @ ts" "cut_at st us ts" "sint w = window_sum st ?ts"
    and g1: "us = [] \<and> g1 = g \<or> delete_loop B us g = (Inr (), g1)" by blast
  have "gov_chains g1 = gov_chains g \<and> (\<forall>h. gov_msgsSeen g1 h = gov_msgsSeen g h \<or>
      gov_msgsSeen g1 h = None \<and> h \<in> (\<lambda>t. xf_Hash (tr_dbTransfer t)) ` set us)"
    using g1
  proof
    assume "delete_loop B us g = (Inr (), g1)"
    from delete_loop_frame [OF this] show ?thesis by (elim exE conjE) simp
  qed simp
  then have seen: "\<forall>h. gov_msgsSeen g1 h = gov_msgsSeen g h \<or>
      gov_msgsSeen g1 h = None \<and> h \<in> (\<lambda>t. xf_Hash (tr_dbTransfer t)) ` set us"
    and "gov_chains g1 = gov_chains g" by simp_all
  then have "transfers_of cid g' = ts"
    using ce by (simp add: g')
  moreover have "uint v = max 0 (window_sum st ?ts)"
  proof (cases "sint w \<le> 0")
    case False
    then have "sint w = uint w"
      using sint_uint_cases [of w] by (simp split: if_splits)
    with False show ?thesis
      using us(3) by (simp add: v)
  qed (use us(3) in \<open>simp add: v\<close>)
  ultimately show ?thesis
    using ce us(1,2) seen by (auto simp: g')
qed

lemma tryAddFlowCancelTransfer_cases:
  assumes "tryAddFlowCancelTransfer t g = (r, g')"
  shows "g' = g \<or> (gov_flowCancelEnabled g \<and> xf_EmitterChain (tr_dbTransfer t) \<noteq> xf_TargetChain (tr_dbTransfer t) \<and>
    r = Inr True \<and> gov_chains g (xf_TargetChain (tr_dbTransfer t)) \<noteq> None \<and> sint (- tr_value t) \<le> 0 \<and>
    g' = put_transfers (xf_TargetChain (tr_dbTransfer t))
      (transfers_of (xf_TargetChain (tr_dbTransfer t)) g @ [transfer_inverse t]) g)"
proof -
  let ?c = "\<lparr>co_first = xf_EmitterChain (tr_dbTransfer t), co_second = xf_TargetChain (tr_dbTransfer t)\<rparr>"
  show ?thesis
  proof (cases "corridorCanFlowCancel ?c g")
    case True
    then have ne: "xf_EmitterChain (tr_dbTransfer t) \<noteq> xf_TargetChain (tr_dbTransfer t)" "gov_flowCancelEnabled g"
      by (auto simp: corridorCanFlowCancel_def corridor_equals_def valid_def list_ex_iff split: if_splits)
    show ?thesis
    proof (cases "r = Inr True")
      case r: True
      with True assms obtain dest dest' where dest: "gov_chains g (xf_TargetChain (tr_dbTransfer t)) = Some dest"
        and add: "addFlowCancelTransfer (transfer_inverse t) dest = Inr dest'"
        and g': "g' = g\<lparr>gov_chains := (gov_chains g)(xf_TargetChain (tr_dbTransfer t) \<mapsto> dest')\<rparr>"
        by (auto simp: tryAddFlowCancelTransfer_def Let_def split: if_splits option.splits sum.splits)
      have "sint (- tr_value t) \<le> 0" and "dest' = dest\<lparr>ce_transfers := ce_transfers dest @ [transfer_inverse t]\<rparr>"
        using add by (auto simp: addFlowCancelTransfer_def Let_def transfer_inverse_def split: if_splits)
      with r ne dest g' show ?thesis
        by (simp add: put_transfers_def transfers_of_def)
    next
      case False
      with True assms show ?thesis
        by (auto simp: tryAddFlowCancelTransfer_def Let_def split: if_splits option.splits sum.splits)
    qed
  next
    case False
    with assms show ?thesis
      by (simp add: tryAddFlowCancelTransfer_def Let_def)
  qed
qed

lemma tryAddFlowCancelTransfer_frame:
  fixes g :: "'s ChainGovernor" and t :: transfer
  defines "g' \<equiv> snd (tryAddFlowCancelTransfer t g)"
  shows "same_config g g' \<and> same_pending g g' \<and> gov_msgsToPublish g' = gov_msgsToPublish g \<and>
    gov_msgsSeen g' = gov_msgsSeen g \<and> gov_db g' = gov_db g"
  using tryAddFlowCancelTransfer_cases [of t g "fst (tryAddFlowCancelTransfer t g)" g'] by (auto simp: g'_def)

lemma count_transfer_frame:
  assumes "count_transfer B cid d g = (r, g')"
  shows "same_config g g' \<and> same_pending g g' \<and> gov_msgsToPublish g' = gov_msgsToPublish g"
proof -
  have tr: "same_config g (snd (tryAddFlowCancelTransfer t h)) \<and> same_pending g (snd (tryAddFlowCancelTransfer t h)) \<and>
      gov_msgsToPublish (snd (tryAddFlowCancelTransfer t h)) = gov_msgsToPublish g"
    if "same_config g h" "same_pending g h" "gov_msgsToPublish h = gov_msgsToPublish g" for t h
    using that tryAddFlowCancelTransfer_frame [of h t] same_config_trans same_pending_trans by metis
  show ?thesis
    using assms by (auto simp: count_transfer_def Let_def tr [THEN conjunct1] tr [THEN conjunct2, THEN conjunct1]
        tr [THEN conjunct2, THEN conjunct2] set_seen_def split: sum.splits prod.splits)
qed

lemma count_transfer_Inl:
  "count_transfer B cid d g = (Inl e, g') \<Longrightarrow> \<exists>s. g' = g\<lparr>gov_db := s\<rparr>"
  by (auto simp: count_transfer_def Let_def split: sum.splits prod.splits intro: exI [of _ "gov_db g"])

lemma count_transfer_Inr:
  assumes "count_transfer B cid d g = (Inr u, g')" and "gov_chains g cid \<noteq> None"
    and "xf_EmitterChain d = cid \<or> \<not> gov_flowCancelEnabled g"
  defines "t \<equiv> \<lparr>tr_dbTransfer = d, tr_value = xf_Value d\<rparr>"
  shows "unat (xf_Value d) < 2 ^ 63 \<and> gov_msgsSeen g' = (gov_msgsSeen g)(xf_Hash d \<mapsto> transferComplete) \<and>
    transfers_of cid g' = transfers_of cid g @ [t] \<and>
    (\<forall>c. c \<noteq> cid \<longrightarrow> transfers_of c g' = transfers_of c g \<or>
      gov_flowCancelEnabled g \<and> c = xf_TargetChain d \<and> transfers_of c g' = transfers_of c g @ [transfer_inverse t])"
proof -
  obtain s where s: "StoreTransfer B d (gov_db g) = (Inr (), s)" and v: "unat (xf_Value d) \<le> 2 ^ 63 - 1"
    and g': "g' = set_seen (xf_Hash d) transferComplete
      (let h = put_transfers cid (transfers_of cid g @ [t]) (g\<lparr>gov_db := s\<rparr>)
       in if gov_flowCancelEnabled g then snd (tryAddFlowCancelTransfer t h) else h)"
    using assms(1) by (auto simp: count_transfer_def newTransferFromDbTransfer_def t_def Let_def
        split: sum.splits prod.splits if_splits)
  define h where "h = put_transfers cid (transfers_of cid g @ [t]) (g\<lparr>gov_db := s\<rparr>)"
  have h: "transfers_of cid h = transfers_of cid g @ [t]" "\<And>c. c \<noteq> cid \<Longrightarrow> transfers_of c h = transfers_of c g"
      "gov_msgsSeen h = gov_msgsSeen g" "gov_flowCancelEnabled h = gov_flowCancelEnabled g"
    using assms(2) by (simp_all add: h_def)
  have v': "unat (xf_Value d) < 2 ^ 63"
    using v by simp
  show ?thesis
  proof (cases "gov_flowCancelEnabled g")
    case False
    with h v' show ?thesis
      by (simp add: g' h_def [symmetric] set_seen_def)
  next
    case True
    then have cid: "xf_EmitterChain d = cid"
      using assms(3) by simp
    define k where "k = snd (tryAddFlowCancelTransfer t h)"
    have "k = h \<or> (cid \<noteq> xf_TargetChain d \<and> gov_chains h (xf_TargetChain d) \<noteq> None \<and>
        k = put_transfers (xf_TargetChain d) (transfers_of (xf_TargetChain d) h @ [transfer_inverse t]) h)"
      using tryAddFlowCancelTransfer_cases [of t h "fst (tryAddFlowCancelTransfer t h)" k] cid
      by (auto simp: k_def t_def)
    then have k: "gov_msgsSeen k = gov_msgsSeen g \<and> transfers_of cid k = transfers_of cid g @ [t] \<and>
        (\<forall>c. c \<noteq> cid \<longrightarrow> transfers_of c k = transfers_of c g \<or>
          c = xf_TargetChain d \<and> transfers_of c k = transfers_of c g @ [transfer_inverse t])"
      using h by (elim disjE conjE) auto
    then show ?thesis
      using True v' by (auto simp: g' h_def [symmetric] k_def [symmetric] set_seen_def)
  qed
qed

lemma find_release_Some:
  "find_release g ce prev now idx ps = Inr (Some (i, pe, v, counts)) \<Longrightarrow>
     idx \<le> i \<and> i - idx < length ps \<and> ps ! (i - idx) = pe \<and> pending_value g pe = Inr v \<and>
     release_decision ce prev now pe v = Inr (Some counts)"
proof (induction ps arbitrary: idx)
  case (Cons p ps)
  then obtain w d where w: "pending_value g p = Inr w" "release_decision ce prev now p w = Inr d"
    and r: "(case d of None \<Rightarrow> find_release g ce prev now (Suc idx) ps | Some counts \<Rightarrow> Inr (Some (idx, p, w, counts)))
        = Inr (Some (i, pe, v, counts))"
    by (auto simp: chk_eq_Inr)
  show ?case
  proof (cases d)
    case None
    with r have *: "find_release g ce prev now (Suc idx) ps = Inr (Some (i, pe, v, counts))" by simp
    from Cons.IH [OF *] show ?thesis
      by (auto simp: nth_Cons split: nat.split) (metis Suc_diff_Suc Suc_le_lessD diff_Suc_Suc nat.inject)+
  qed (use r w in auto)
qed simp

lemma find_release_None:
  "find_release g ce prev now idx ps = Inr None \<Longrightarrow> pe \<in> set ps \<Longrightarrow>
     \<exists>v. pending_value g pe = Inr v \<and> release_decision ce prev now pe v = Inr None"
  by (induction ps arbitrary: idx) (auto simp: chk_eq_Inr split: option.splits)

text \<open>Publishing an entry: nothing but its own removal changes the pending lists.\<close>

lemma release_entry_frame:
  assumes "release_entry B cid now idx pe value counts msgs g = (r, g')"
  shows "same_config g g' \<and> (\<forall>c. c \<noteq> cid \<longrightarrow> pending_of c g' = pending_of c g) \<and>
    (case r of Inl _ \<Rightarrow> pending_of cid g' = pending_of cid g
     | Inr out \<Rightarrow> pending_of cid g' = take idx (pending_of cid g) @ drop (Suc idx) (pending_of cid g) \<and>
         out = (case DecodeTransferPayloadHdr (mp_Payload (pt_Msg (pe_dbData pe))) of
                  Inl _ \<Rightarrow> msgs | Inr _ \<Rightarrow> msgs @ [pt_Msg (pe_dbData pe)]))"
proof -
  let ?msg = "pt_Msg (pe_dbData pe)"
  define p where "p = (case DecodeTransferPayloadHdr (mp_Payload ?msg) of
      Inl _ \<Rightarrow> (Inr msgs, forget (pe_hash pe) g)
    | Inr payload \<Rightarrow>
        if counts then map_prod (map_sum id (\<lambda>_. msgs @ [?msg])) id
            (count_transfer B cid (db_transfer now value (pending_token g pe) ?msg payload (pe_hash pe)) g)
        else (Inr (msgs @ [?msg]), forget (pe_hash pe) g))"
  obtain q h where qh: "p = (q, h)"
    by (cases p)
  have h: "same_config g h" "same_pending g h"
    using qh by (auto simp: p_def map_result_pair split: sum.splits if_splits dest!: count_transfer_frame)
  have out: "q = Inr out \<Longrightarrow> out = (case DecodeTransferPayloadHdr (mp_Payload ?msg) of
      Inl _ \<Rightarrow> msgs | Inr _ \<Rightarrow> msgs @ [?msg])" for out
    using qh by (auto simp: p_def split: sum.splits if_splits)
  have r: "(case (q, h) of
           (Inl e, g) \<Rightarrow> (Inl e, g)
         | (Inr msgs, g) \<Rightarrow>
             (case DeletePendingMsg B (pe_dbData pe) (gov_db g) of
                (Inl e, s) \<Rightarrow> (Inl e, g\<lparr>gov_db := s, gov_msgsToPublish := msgs\<rparr>)
              | (Inr _, s) \<Rightarrow> (Inr msgs, put_pending cid
                  (take idx (pending_of cid g) @ drop (Suc idx) (pending_of cid g)) (g\<lparr>gov_db := s\<rparr>)))) = (r, g')"
    using assms unfolding release_entry_def Let_def p_def [symmetric] qh .
  have none: "gov_chains h cid = None \<Longrightarrow> pending_of cid h = []"
    by (simp add: pending_of_def)
  show ?thesis
    using r h out none by (auto simp: same_pending_def split: sum.splits prod.splits if_splits)
qed

lemma check_round_frame:
  assumes "check_round B st now cid msgs g = (r, g')"
  shows "same_config g g' \<and> (\<forall>c. c \<noteq> cid \<longrightarrow> pending_of c g' = pending_of c g) \<and>
    (case r of
       Inr (Some out) \<Rightarrow> \<exists>us pe vs. pending_of cid g = us @ pe # vs \<and> pending_of cid g' = us @ vs \<and>
         out = (case DecodeTransferPayloadHdr (mp_Payload (pt_Msg (pe_dbData pe))) of
                  Inl _ \<Rightarrow> msgs | Inr _ \<Rightarrow> msgs @ [pt_Msg (pe_dbData pe)])
     | _ \<Rightarrow> pending_of cid g' = pending_of cid g)"
proof -
  obtain v err g1 where t: "TrimAndSumValueForChain B cid st g = ((v, err), g1)"
    by (metis prod.collapse)
  note f = TrimAndSumValueForChain_frame [OF t]
  have pend: "pending_of c g1 = pending_of c g" for c
    using f by (simp add: same_pending_def)
  show ?thesis
  proof (cases "\<exists>ce idx pe value counts. err = None \<and> gov_chains g1 cid = Some ce \<and>
      find_release g1 ce v now 0 (ce_pending ce) = Inr (Some (idx, pe, value, counts))")
    case False
    with assms t f pend show ?thesis
      by (auto simp: check_round_def split: option.splits sum.splits prod.splits)
  next
    case True
    then obtain ce idx pe v' counts where err: "err = None" and ce: "gov_chains g1 cid = Some ce"
      and find: "find_release g1 ce v now 0 (ce_pending ce) = Inr (Some (idx, pe, v', counts))"
      by blast
    obtain q where q: "release_entry B cid now idx pe v' counts msgs g1 = (q, g')" and r: "r = map_sum id Some q"
      using assms t err ce find by (auto simp: check_round_def map_result_pair)
    have idx: "idx < length (ce_pending ce)" "ce_pending ce ! idx = pe"
      using find_release_Some [OF find] by auto
    have p: "ce_pending ce = pending_of cid g"
      using ce pend [of cid] by (simp add: pending_of_def)
    have split: "pending_of cid g = take idx (pending_of cid g) @ pe # drop (Suc idx) (pending_of cid g)"
      using idx unfolding p by (metis id_take_nth_drop)
    have "same_config g g'"
      using f release_entry_frame [OF q] same_config_trans by blast
    moreover have "\<forall>c. c \<noteq> cid \<longrightarrow> pending_of c g' = pending_of c g"
      using release_entry_frame [OF q] by (simp add: pend)
    moreover have "case r of
       Inr (Some out) \<Rightarrow> \<exists>us pe vs. pending_of cid g = us @ pe # vs \<and> pending_of cid g' = us @ vs \<and>
         out = (case DecodeTransferPayloadHdr (mp_Payload (pt_Msg (pe_dbData pe))) of
                  Inl _ \<Rightarrow> msgs | Inr _ \<Rightarrow> msgs @ [pt_Msg (pe_dbData pe)])
     | _ \<Rightarrow> pending_of cid g' = pending_of cid g"
    proof (cases q)
      case (Inl e)
      then show ?thesis
        using release_entry_frame [OF q] by (simp add: r pend)
    next
      case (Inr out)
      then show ?thesis
        using release_entry_frame [OF q] split by (simp add: r pend) blast
    qed
    ultimately show ?thesis by blast
  qed
qed

lemma check_round_less:
  "check_round B st now cid msgs g = (Inr (Some out), g') \<Longrightarrow>
     length (pending_of cid g') < length (pending_of cid g)"
  using check_round_frame by fastforce

text \<open>
  The inner loop of CheckPendingForTime, \<open>for { ... if !foundOne { break } }\<close>. Every further round
  has one pending entry less, so it ends.
\<close>

function check_chain :: "'s badger \<Rightarrow> time \<Rightarrow> time \<Rightarrow> ChainID \<Rightarrow> MessagePublication list \<Rightarrow> 's ChainGovernor \<Rightarrow>
    (MessagePublication list, 's ChainGovernor) db_result" where
  "check_chain B startTime now cid msgs g =
     (case check_round B startTime now cid msgs g of
        (Inl e, g') \<Rightarrow> (Inl e, g')
      | (Inr None, g') \<Rightarrow> (Inr msgs, g')
      | (Inr (Some msgs'), g') \<Rightarrow> check_chain B startTime now cid msgs' g')"
  by pat_completeness auto

termination
  by (relation "measure (\<lambda>(B, startTime, now, cid, msgs, g). length (pending_of cid g))")
    (auto dest: check_round_less check_round_less [OF sym])

declare check_chain.simps [simp del]

fun check_chains :: "'s badger \<Rightarrow> time \<Rightarrow> time \<Rightarrow> ChainID list \<Rightarrow> MessagePublication list \<Rightarrow> 's ChainGovernor \<Rightarrow>
    (MessagePublication list, 's ChainGovernor) db_result" where
  "check_chains B startTime now [] msgs g = (Inr msgs, g)"
| "check_chains B startTime now (cid # cids) msgs g =
     (case check_chain B startTime now cid msgs g of
        (Inl e, g) \<Rightarrow> (Inl e, g)
      | (Inr msgs, g) \<Rightarrow> check_chains B startTime now cids msgs g)"

definition CheckPendingForTime :: "'s badger \<Rightarrow> time \<Rightarrow> 's ChainGovernor \<Rightarrow>
    (MessagePublication list, 's ChainGovernor) db_result" where
  "CheckPendingForTime B now g =
     (let startTime = start_time now g;
          msgs = gov_msgsToPublish g;
          g = g\<lparr>gov_msgsToPublish := []\<rparr>
      in check_chains B startTime now (gov_chainIds g) msgs g)"

section \<open>The branches of ProcessMsgForTime\<close>

lemma ProcessMsgForTime_cases [consumes 1, case_names unchanged failed enqueued counted]:
  assumes "ProcessMsgForTime C B m now g = (r, g')"
  obtains (unchanged) "g' = g" "\<And>msg ce token payload. m = Some msg \<Longrightarrow>
      parseMsgAlreadyLocked msg g = Inr (Some (ce, token, payload)) \<Longrightarrow>
      \<exists>b. gov_msgsSeen g (HashFromMsg C msg) = Some b \<and> r = Inr b"
  | (failed) msg ce token payload v err e where "m = Some msg"
      "parseMsgAlreadyLocked msg g = Inr (Some (ce, token, payload))"
      "gov_msgsSeen g (HashFromMsg C msg) = None"
      "TrimAndSumValueForChain B (mp_EmitterChain msg) (start_time now g) g = ((v, err), g')" "r = Inl e"
  | (enqueued) msg ce token payload v w g1 where "m = Some msg"
      "parseMsgAlreadyLocked msg g = Inr (Some (ce, token, payload))"
      "gov_msgsSeen g (HashFromMsg C msg) = None"
      "TrimAndSumValueForChain B (mp_EmitterChain msg) (start_time now g) g = ((v, None), g1)"
      "token_value (int (tph_Amount payload)) token = Inr w"
      "v \<le> v + w" "isBigTransfer ce w \<or> ce_dailyLimit ce < v + w"
      "enqueue_msg C B msg (now + maxEnqueuedTime) (payload_token payload) payload g1 = (r, g')"
  | (counted) msg ce token payload v w g1 q where "m = Some msg"
      "parseMsgAlreadyLocked msg g = Inr (Some (ce, token, payload))"
      "gov_msgsSeen g (HashFromMsg C msg) = None"
      "TrimAndSumValueForChain B (mp_EmitterChain msg) (start_time now g) g = ((v, None), g1)"
      "token_value (int (tph_Amount payload)) token = Inr w"
      "\<not> isBigTransfer ce w" "v \<le> v + w" "v + w \<le> ce_dailyLimit ce"
      "count_transfer B (mp_EmitterChain msg)
        (db_transfer now w (te_token token) msg payload (HashFromMsg C msg)) g1 = (q, g')"
      "r = map_sum id (\<lambda>_. True) q"
proof (cases m)
  case None
  with assms unchanged show ?thesis by (simp add: ProcessMsgForTime_def)
next
  case m: (Some msg)
  show ?thesis
  proof (cases "\<exists>ce token payload. parseMsgAlreadyLocked msg g = Inr (Some (ce, token, payload))")
    case False
    with assms m have "g' = g"
      by (auto simp: ProcessMsgForTime_def split: sum.splits option.splits)
    with False m unchanged show ?thesis
      by (metis option.inject)
  next
    case True
    then obtain ce token payload where p: "parseMsgAlreadyLocked msg g = Inr (Some (ce, token, payload))"
      by blast
    show ?thesis
    proof (cases "gov_msgsSeen g (HashFromMsg C msg)")
      case (Some b)
      with assms m p have "g' = g" "r = Inr b"
        by (auto simp: ProcessMsgForTime_def Let_def)
      with Some m unchanged show ?thesis
        by (metis option.inject)
    next
      case seen: None
      obtain v err g1 where t: "TrimAndSumValueForChain B (mp_EmitterChain msg) (start_time now g) g = ((v, err), g1)"
        by (metis prod.collapse)
      show ?thesis
      proof (cases err)
        case (Some e)
        with assms m p seen t failed show ?thesis
          by (auto simp: ProcessMsgForTime_def Let_def)
      next
        case err: None
        show ?thesis
        proof (cases "token_value (int (tph_Amount payload)) token")
          case (Inl e)
          with assms m p seen t err failed show ?thesis
            by (auto simp: ProcessMsgForTime_def Let_def)
        next
          case (Inr w)
          show ?thesis
          proof (cases "v + w < v")
            case True
            with Inr assms m p seen t err failed show ?thesis
              by (auto simp: ProcessMsgForTime_def Let_def)
          next
            case False
            with Inr assms m p seen t err enqueued counted show ?thesis
              by (auto simp: ProcessMsgForTime_def Let_def map_result_pair not_less split: if_splits)
          qed
        qed
      qed
    qed
  qed
qed

lemma parse_entry: "parseMsgAlreadyLocked msg g = Inr (Some (ce, token, payload)) \<Longrightarrow>
    gov_chains g (mp_EmitterChain msg) = Some ce \<and> gov_tokens g (payload_token payload) = Some token \<and>
    DecodeTransferPayloadHdr (mp_Payload msg) = Inr payload"
  by (auto simp: parseMsgAlreadyLocked_def chk_eq_Inr split: option.splits if_splits)

lemma enqueue_msg_frame:
  assumes "enqueue_msg C B msg release tk payload g = (r, g')"
  shows "same_config g g' \<and> gov_msgsToPublish g' = gov_msgsToPublish g \<and> (\<forall>c. transfers_of c g' = transfers_of c g)"
  using assms by (auto simp: enqueue_msg_def Let_def set_seen_def split: sum.splits prod.splits)

lemma ProcessMsgForTime_frame:
  assumes "ProcessMsgForTime C B m now g = (r, g')"
  shows "same_config g g' \<and> gov_msgsToPublish g' = gov_msgsToPublish g"
  using assms
proof (cases rule: ProcessMsgForTime_cases)
  case unchanged
  then show ?thesis by simp
next
  case (failed msg ce token payload v err e)
  then show ?thesis
    using TrimAndSumValueForChain_frame by blast
next
  case (enqueued msg ce token payload v w g1)
  then show ?thesis
    using TrimAndSumValueForChain_frame [OF enqueued(4)] enqueue_msg_frame [OF enqueued(8)] same_config_trans by metis
next
  case (counted msg ce token payload v w g1 q)
  then show ?thesis
    using TrimAndSumValueForChain_frame [OF counted(4)] count_transfer_frame [OF counted(9)] same_config_trans by metis
qed

lemma uint_plus_no_wrap: "(v :: 64 word) \<le> v + w \<Longrightarrow> uint (v + w) = uint v + uint w"
  using uint_plus_simple by blast

section \<open>A small governor\<close>

text \<open>A database that accepts everything, a token worth one dollar and a chain with a limit of 1000.\<close>

definition toy_badger :: "unit badger" where
  "toy_badger = \<lparr>bg_Set = \<lambda>_ _ s. (None, s), bg_Delete = \<lambda>_ s. (None, s), bg_Get = \<lambda>_ _. Inr None, bg_Items = \<lambda>_. []\<rparr>"

definition sample_hdr :: "nat \<Rightarrow> TransferPayloadHdr" where
  "sample_hdr amount = \<lparr>tph_Type = 1, tph_Amount = amount, tph_OriginAddress = replicate 32 1,
     tph_OriginChain = 2, tph_TargetAddress = replicate 32 2, tph_TargetChain = 21\<rparr>"

definition transfer_msg :: "nat \<Rightarrow> MessagePublication" where
  "transfer_msg amount = sample_msg\<lparr>mp_Payload := put_transfer_hdr (sample_hdr amount)\<rparr>"

definition sample_key :: tokenKey where
  "sample_key = \<lparr>tk_chain = 2, tk_addr = replicate 32 1\<rparr>"

definition sample_token :: tokenEntry where
  "sample_token = \<lparr>te_price = \<lparr>bf_mant = 1, bf_exp = 0, bf_prec = 53\<rparr>, te_decimals = 1, te_symbol = ''USDC'',
     te_coinGeckoId = ''usd-coin'', te_token = sample_key, te_flowCancels = True\<rparr>"

definition sample_entry :: chainEntry where
  "sample_entry = \<lparr>ce_emitterChainId = 2, ce_emitterAddr = replicate 32 5, ce_dailyLimit = 1000,
     ce_bigTransactionSize = 500, ce_checkForBigTransactions = True, ce_transfers = [], ce_pending = []\<rparr>"

definition sample_gov :: "pendingEntry list \<Rightarrow> unit ChainGovernor" where
  "sample_gov ps = \<lparr>gov_db = (), gov_tokens = [sample_key \<mapsto> sample_token],
     gov_chains = [2 \<mapsto> sample_entry\<lparr>ce_pending := ps\<rparr>], gov_chainIds = [2],
     gov_msgsSeen = Map.empty, gov_msgsToPublish = [], gov_dayLengthInMinutes = 1440,
     gov_flowCancelEnabled = False, gov_flowCancelCorridors = []\<rparr>"

definition sample_pending :: "time \<Rightarrow> pendingEntry" where
  "sample_pending release = \<lparr>pe_token = sample_key, pe_amount = 600, pe_hash = ''00'',
     pe_dbData = \<lparr>pt_ReleaseTime = release, pt_Msg = transfer_msg 600\<rparr>\<rparr>"

lemma wf_sample_hdr [simp]: "amount < 2 ^ 256 \<Longrightarrow> wf_transfer_hdr (sample_hdr amount)"
  by (simp add: wf_transfer_hdr_def sample_hdr_def)

lemma decode_sample [simp]:
  "amount < 2 ^ 256 \<Longrightarrow> DecodeTransferPayloadHdr (mp_Payload (transfer_msg amount)) = Inr (sample_hdr amount)"
  using DecodeTransferPayloadHdr_put [of "sample_hdr amount" "[]"] by (simp add: transfer_msg_def)

lemma transfer_msg_simps [simp]:
  "mp_EmitterChain (transfer_msg amount) = 2" "mp_EmitterAddress (transfer_msg amount) = replicate 32 5"
  by (simp_all add: transfer_msg_def sample_msg_def)

lemma parse_sample:
  assumes "amount < 2 ^ 256" and "gov_chains g 2 = Some ce" and "ce_emitterAddr ce = replicate 32 5"
    and "gov_tokens g = [sample_key \<mapsto> sample_token]"
  shows "parseMsgAlreadyLocked (transfer_msg amount) g = Inr (Some (ce, sample_token, sample_hdr amount))"
proof -
  have "IsTransfer (mp_Payload (transfer_msg amount))"
    using decode_sample [OF assms(1)] by (auto simp: DecodeTransferPayloadHdr_def split: if_splits)
  then show ?thesis
    using assms by (simp add: parseMsgAlreadyLocked_def payload_token_def sample_hdr_def [of amount] sample_key_def)
qed

lemma sample_value: "token_value 600 sample_token = Inr 600"
  by (simp add: token_value_def computeValue_def sample_token_def bf_Mul_def bf_SetInt_def round_even_def
      bf_Int_def euclid_div_def)

end
