(* ===== verification/GovLimits.thy ===== *)
theory GovLimits imports Governor begin

text \<open>
  The daily limits of the chain governor hold over time: the invariant of the transfers of a chain,
  that every operation keeps it and drops no transfer of the current day, and the theorem about
  runs of the governor.
\<close>

section \<open>The daily limit\<close>

text \<open>
  Without flow cancelling, the transfers of a chain are in the order of time, none is negative or in
  the future, and those in the window ending now stay within the limit of the chain.
\<close>

definition chain_within :: "time \<Rightarrow> time \<Rightarrow> transfer list \<Rightarrow> chainEntry \<Rightarrow> bool" where
  "chain_within st now ts ce \<longleftrightarrow> by_time ts \<and>
     list_all (\<lambda>t. 0 \<le> sint (tr_value t) \<and> xf_Timestamp (tr_dbTransfer t) \<le> now) ts \<and>
     window_sum st ts \<le> uint (ce_dailyLimit ce)"

definition within_limits :: "time \<Rightarrow> 's ChainGovernor \<Rightarrow> bool" where
  "within_limits now g \<longleftrightarrow> (\<forall>c ce. gov_chains g c = Some ce \<longrightarrow> chain_within (start_time now g) now (ce_transfers ce) ce)"

lemma window_sum_mono:
  "st \<le> st' \<Longrightarrow> list_all (\<lambda>t. 0 \<le> sint (tr_value t)) ts \<Longrightarrow> 0 \<le> window_sum st' ts \<and> window_sum st' ts \<le> window_sum st ts"
  by (induction ts) (simp_all add: in_window_def)

lemma chain_within_later:
  assumes "chain_within st now ts ce" and "st \<le> st'" and "now \<le> now'"
  shows "chain_within st' now' ts ce"
proof -
  have "list_all (\<lambda>t. 0 \<le> sint (tr_value t)) ts"
    using assms(1) by (simp add: chain_within_def list_all_iff)
  then have "window_sum st' ts \<le> window_sum st ts"
    using window_sum_mono [OF assms(2)] by blast
  moreover have "list_all (\<lambda>t. 0 \<le> sint (tr_value t) \<and> xf_Timestamp (tr_dbTransfer t) \<le> now') ts"
    using assms(1,3) by (auto simp: chain_within_def list_all_iff)
  ultimately show ?thesis
    using assms(1) by (simp add: chain_within_def)
qed

lemma chain_within_static: "static ce' = static ce \<Longrightarrow> chain_within st now ts ce' = chain_within st now ts ce"
  using static_eq(1) [of ce' ce] by (simp add: chain_within_def)

lemma within_limits_later:
  assumes "within_limits now g" and "now \<le> now'"
  shows "within_limits now' g"
  unfolding within_limits_def
proof (intro allI impI)
  fix c ce
  assume "gov_chains g c = Some ce"
  then have "chain_within (start_time now g) now (ce_transfers ce) ce"
    using assms(1) by (simp add: within_limits_def)
  then show "chain_within (start_time now' g) now' (ce_transfers ce) ce"
    by (rule chain_within_later) (use assms(2) in \<open>simp_all add: start_time_def\<close>)
qed

text \<open>An operation keeps the limits if it does so chain by chain.\<close>

lemma within_limits_step:
  assumes "within_limits now g" and "same_config g g'"
    and "\<And>c ce. gov_chains g c = Some ce \<Longrightarrow> chain_within (start_time now g) now (ce_transfers ce) ce \<Longrightarrow>
      chain_within (start_time now g) now (transfers_of c g') ce"
  shows "within_limits now g'"
  unfolding within_limits_def
proof (intro allI impI)
  fix c ce'
  assume ce': "gov_chains g' c = Some ce'"
  then obtain ce where ce: "gov_chains g c = Some ce" "static ce' = static ce"
    using same_config_entry(3) [OF assms(2)] by blast
  then have "chain_within (start_time now g) now (transfers_of c g') ce"
    using assms(1,3) by (auto simp: within_limits_def)
  then show "chain_within (start_time now g') now (ce_transfers ce') ce'"
    using ce' chain_within_static [OF ce(2)] same_config_start [OF assms(2)] by (simp add: transfers_of_def)
qed

lemma window_sum_cut:
  assumes "by_time (us @ vs)" and "cut_at st us vs"
  shows "window_sum st (us @ vs) = window_sum st vs"
  using cut_by_time [OF assms] window_sum_def [of st us] by simp

lemma chain_within_suffix:
  assumes "chain_within st now (us @ vs) ce" and "cut_at st us vs"
  shows "chain_within st now vs ce"
  using assms window_sum_cut [OF _ assms(2)] by (auto simp: chain_within_def by_time_def sorted_append)

lemma TrimAndSumValueForChain_Some:
  assumes "TrimAndSumValueForChain B cid st g = ((v, Some e), g')"
  shows "transfers_of c g' = transfers_of c g"
proof -
  have same: "ts' = ts \<and> gov_chains h = gov_chains g" if "TrimAndSumValue B ts st g = ((w, ts', Some e), h)" for ts ts' w h
    using that by (auto simp: TrimAndSumValue_def split: if_splits sum.splits prod.splits dest!: delete_loop_frame)
  show ?thesis
    using assms by (auto simp: TrimAndSumValueForChain_def Let_def transfers_of_def
        split: option.splits prod.splits if_splits dest!: same)
qed

lemma Trim_within_limits:
  assumes "within_limits now g" and "TrimAndSumValueForChain B cid (start_time now g) g = ((v, err), g')"
  shows "within_limits now g'"
proof (rule within_limits_step [OF assms(1)])
  note f = TrimAndSumValueForChain_frame [OF assms(2)]
  show "same_config g g'"
    using f by blast
  fix c ce
  assume ce: "gov_chains g c = Some ce" and w: "chain_within (start_time now g) now (ce_transfers ce) ce"
  show "chain_within (start_time now g) now (transfers_of c g') ce"
  proof (cases "c = cid \<and> err = None")
    case True
    then obtain us where "ce_transfers ce = us @ transfers_of cid g'" "cut_at (start_time now g) us (transfers_of cid g')"
      using TrimAndSumValueForChain_Inr [of B cid "start_time now g" g v g'] assms(2) ce by auto
    with True w show ?thesis
      using chain_within_suffix by metis
  next
    case False
    have t: "transfers_of c g = ce_transfers ce"
      using ce by (simp add: transfers_of_def)
    show ?thesis
    proof (cases err)
      case None
      with False f w t show ?thesis by simp
    next
      case (Some e)
      with TrimAndSumValueForChain_Some [of B cid "start_time now g" g v e g' c] assms(2) w t show ?thesis by simp
    qed
  qed
qed

lemma Trim_sum_within:
  assumes "within_limits now g" and "TrimAndSumValueForChain B cid (start_time now g) g = ((v, None), g')"
  shows "uint v = window_sum (start_time now g) (transfers_of cid g')"
proof -
  obtain ce us where ce: "gov_chains g cid = Some ce" and v: "uint v = max 0 (window_sum (start_time now g) (ce_transfers ce))"
    and us: "ce_transfers ce = us @ transfers_of cid g'" "cut_at (start_time now g) us (transfers_of cid g')"
    using TrimAndSumValueForChain_Inr [OF assms(2)] by blast
  have w: "chain_within (start_time now g) now (ce_transfers ce) ce"
    using assms(1) ce by (simp add: within_limits_def)
  then have "0 \<le> window_sum (start_time now g) (ce_transfers ce)"
    using window_sum_mono [of "start_time now g" "start_time now g" "ce_transfers ce"]
    by (auto simp: chain_within_def list_all_iff)
  moreover have "window_sum (start_time now g) (ce_transfers ce) = window_sum (start_time now g) (transfers_of cid g')"
    using window_sum_cut [OF _ us(2)] w us(1) by (simp add: chain_within_def)
  ultimately show ?thesis
    using v by simp
qed

lemma count_within_limits:
  assumes "within_limits now g" and "\<not> gov_flowCancelEnabled g" and "count_transfer B cid d g = (r, g')"
    and "xf_Timestamp d = now" and "gov_chains g cid = Some ce"
    and "window_sum (start_time now g) (transfers_of cid g) + uint (xf_Value d) \<le> uint (ce_dailyLimit ce)"
  shows "within_limits now g'"
proof (rule within_limits_step [OF assms(1)])
  show "same_config g g'"
    using count_transfer_frame [OF assms(3)] by blast
  fix c ce'
  assume c: "gov_chains g c = Some ce'" and w: "chain_within (start_time now g) now (ce_transfers ce') ce'"
  have t: "transfers_of c g = ce_transfers ce'"
    using c by (simp add: transfers_of_def)
  show "chain_within (start_time now g) now (transfers_of c g') ce'"
  proof (cases r)
    case (Inl e)
    with assms(3) w t show ?thesis
      by (auto dest!: count_transfer_Inl)
  next
    case (Inr u)
    have cr: "unat (xf_Value d) < 2 ^ 63" "transfers_of cid g' = transfers_of cid g @ [\<lparr>tr_dbTransfer = d, tr_value = xf_Value d\<rparr>]"
      "c \<noteq> cid \<Longrightarrow> transfers_of c g' = transfers_of c g"
      using count_transfer_Inr [of B cid d g u g'] assms(2,3,5) Inr by auto
    have "int (unat (xf_Value d)) < int (2 ^ 63)"
      using cr(1) by (simp only: of_nat_less_iff)
    then have "uint (xf_Value d) < 2 ^ 63"
      by simp
    then have s: "sint (xf_Value d) = uint (xf_Value d)"
      using sint_uint_cases [of "xf_Value d"] by simp
    show ?thesis
    proof (cases "c = cid")
      case True
      then have "ce' = ce"
        using c assms(5) by simp
      with True w t cr s assms(4,6) show ?thesis
        by (auto simp: chain_within_def by_time_def sorted_append list_all_iff)
    next
      case False
      with cr w t show ?thesis by simp
    qed
  qed
qed

lemma within_limits_same_transfers:
  assumes "within_limits now g" and "same_config g g'" and "\<And>c. transfers_of c g' = transfers_of c g"
  shows "within_limits now g'"
proof (rule within_limits_step [OF assms(1,2)])
  fix c ce
  assume "gov_chains g c = Some ce" and "chain_within (start_time now g) now (ce_transfers ce) ce"
  then show "chain_within (start_time now g) now (transfers_of c g') ce"
    using assms(3) [of c] by (simp add: transfers_of_def)
qed

section \<open>The daily limit over time\<close>

text \<open>One operation at time now: the limits are kept, and no transfer in the window is dropped.\<close>

definition limit_step :: "time \<Rightarrow> 's ChainGovernor \<Rightarrow> 's ChainGovernor \<Rightarrow> bool" where
  "limit_step now g g' \<longleftrightarrow> same_config g g' \<and>
     (within_limits now g \<and> \<not> gov_flowCancelEnabled g \<longrightarrow> within_limits now g' \<and>
       (\<forall>c. set (filter (in_window (start_time now g)) (transfers_of c g)) \<subseteq> set (transfers_of c g')))"

lemma limit_step_trans [trans]: "limit_step now g g' \<Longrightarrow> limit_step now g' g'' \<Longrightarrow> limit_step now g g''"
  unfolding limit_step_def
  by (auto intro: same_config_trans simp: same_config_start) (auto simp: same_config_def)

lemma limit_step_vacuous: "\<not> within_limits now g \<Longrightarrow> same_config g g' \<Longrightarrow> limit_step now g g'"
  by (simp add: limit_step_def)

lemma limit_step_same:
  assumes "same_config g g'" and "\<And>c. transfers_of c g' = transfers_of c g"
  shows "limit_step now g g'"
  using assms within_limits_same_transfers [OF _ assms] by (auto simp: limit_step_def)

lemma limit_step_Trim:
  assumes "TrimAndSumValueForChain B cid (start_time now g) g = ((v, err), g')"
  shows "limit_step now g g'"
proof -
  note f = TrimAndSumValueForChain_frame [OF assms]
  have "set (filter (in_window (start_time now g)) (transfers_of c g)) \<subseteq> set (transfers_of c g')"
    if w: "within_limits now g" for c
  proof (cases "c = cid \<and> err = None")
    case True
    then obtain ce us where ce: "gov_chains g cid = Some ce" "ce_transfers ce = us @ transfers_of cid g'"
        "cut_at (start_time now g) us (transfers_of cid g')"
      using TrimAndSumValueForChain_Inr [of B cid "start_time now g" g v g'] assms by auto
    have "by_time (ce_transfers ce)"
      using w ce(1) by (simp add: within_limits_def chain_within_def)
    then have "by_time (us @ transfers_of cid g')"
      unfolding ce(2) .
    then have "filter (in_window (start_time now g)) (us @ transfers_of cid g') = transfers_of cid g'"
      using cut_by_time [OF _ ce(3)] by metis
    moreover have "transfers_of c g = us @ transfers_of cid g'"
      using True ce(1,2) by (simp add: transfers_of_def [of _ g])
    ultimately show ?thesis
      using True by simp
  next
    case False
    show ?thesis
    proof (cases err)
      case None
      with False f show ?thesis by simp
    next
      case (Some e)
      with assms TrimAndSumValueForChain_Some [of B cid "start_time now g" g v e g' c] show ?thesis
        by simp
    qed
  qed
  then show ?thesis
    using f Trim_within_limits [OF _ assms] by (simp add: limit_step_def)
qed

lemma limit_step_count:
  assumes "count_transfer B cid d g = (r, g')" and "xf_Timestamp d = now" and "gov_chains g cid = Some ce"
    and "within_limits now g \<Longrightarrow>
      window_sum (start_time now g) (transfers_of cid g) + uint (xf_Value d) \<le> uint (ce_dailyLimit ce)"
  shows "limit_step now g g'"
proof -
  have "set (transfers_of c g) \<subseteq> set (transfers_of c g')" if "\<not> gov_flowCancelEnabled g" for c
  proof (cases r)
    case (Inl e)
    with assms(1) show ?thesis
      by (auto dest!: count_transfer_Inl)
  next
    case (Inr u)
    then show ?thesis
      using count_transfer_Inr [of B cid d g u g'] assms(1,3) that by (cases "c = cid") auto
  qed
  then show ?thesis
    using count_transfer_frame [OF assms(1)] count_within_limits [OF _ _ assms(1-3)] assms(4)
    by (auto simp: limit_step_def)
qed

lemma limit_step_ProcessMsg:
  assumes "ProcessMsgForTime C B m now g = (r, g')"
  shows "limit_step now g g'"
  using assms
proof (cases rule: ProcessMsgForTime_cases)
  case unchanged
  then show ?thesis
    by (simp add: limit_step_same)
next
  case (failed msg ce token payload v err e)
  show ?thesis
    by (rule limit_step_Trim [OF failed(4)])
next
  case (enqueued msg ce token payload v w g1)
  have "limit_step now g1 g'"
    using enqueue_msg_frame [OF enqueued(8)] by (intro limit_step_same) auto
  with limit_step_Trim [OF enqueued(4)] show ?thesis
    by (rule limit_step_trans)
next
  case (counted msg ce token payload v w g1 q)
  note f = TrimAndSumValueForChain_frame [OF counted(4)]
  obtain ce1 where ce1: "gov_chains g1 (mp_EmitterChain msg) = Some ce1" "static ce1 = static ce"
    using same_config_entry(2) f parse_entry [OF counted(2)] by metis
  have st: "start_time now g1 = start_time now g"
    using f same_config_start by metis
  have "uint v + uint w \<le> uint (ce_dailyLimit ce)"
    using counted(7,8) uint_plus_no_wrap [of v w] by (simp add: word_le_def)
  then have "window_sum (start_time now g1) (transfers_of (mp_EmitterChain msg) g1) + uint w \<le> uint (ce_dailyLimit ce1)"
    if "within_limits now g"
    using Trim_sum_within [OF that counted(4)] static_eq(1) [OF ce1(2)] st by simp
  then have "limit_step now g1 g'" if "within_limits now g"
    using that by (intro limit_step_count [OF counted(9) _ ce1(1)]) (simp_all add: db_transfer_def)
  moreover have "same_config g1 g'"
    using count_transfer_frame [OF counted(9)] by blast
  ultimately show ?thesis
    using limit_step_trans [OF limit_step_Trim [OF counted(4)]] limit_step_vacuous [of now g g']
      f same_config_trans [of g g1 g'] by blast
qed

lemma limit_step_release:
  assumes "release_entry B cid now idx pe v counts msgs g = (r, g')" and "gov_chains g cid = Some ce"
    and "within_limits now g \<Longrightarrow> counts \<Longrightarrow>
      window_sum (start_time now g) (transfers_of cid g) + uint v \<le> uint (ce_dailyLimit ce)"
  shows "limit_step now g g'"
proof -
  let ?d = "\<lambda>payload. db_transfer now v (pending_token g pe) (pt_Msg (pe_dbData pe)) payload (pe_hash pe)"
  have step: "limit_step now g h" if "count_transfer B cid (?d payload) g = (q, h)" "counts" for payload q h
    using that(2) assms(3) by (intro limit_step_count [OF that(1) _ assms(2)]) (simp_all add: db_transfer_def)
  have drop: "limit_step now g (forget (pe_hash pe) g)"
    by (rule limit_step_same) simp_all
  have rest: "limit_step now h (h\<lparr>gov_db := s, gov_msgsToPublish := msgs'\<rparr>)"
    "limit_step now h (put_pending cid ps (h\<lparr>gov_db := s\<rparr>))" for h :: "'a ChainGovernor" and s msgs' ps
    by (rule limit_step_same; simp)+
  show ?thesis
    using assms(1) by (auto simp: release_entry_def Let_def map_result_pair split: sum.splits prod.splits if_splits
        dest!: step intro: drop rest limit_step_trans)
qed

lemma limit_step_round:
  assumes "check_round B (start_time now g) now cid msgs g = (r, g')"
  shows "limit_step now g g'"
proof -
  obtain v err g1 where t: "TrimAndSumValueForChain B cid (start_time now g) g = ((v, err), g1)"
    by (metis prod.collapse)
  note step = limit_step_Trim [OF t]
  have rest: "limit_step now g (g1\<lparr>gov_msgsToPublish := p\<rparr>)" for p
    by (rule limit_step_trans [OF step], rule limit_step_same) simp_all
  show ?thesis
  proof (cases "\<exists>ce idx pe v' counts. err = None \<and> gov_chains g1 cid = Some ce \<and>
      find_release g1 ce v now 0 (ce_pending ce) = Inr (Some (idx, pe, v', counts))")
    case False
    with assms t step rest show ?thesis
      by (auto simp: check_round_def split: option.splits sum.splits prod.splits)
  next
    case True
    then obtain ce idx pe v' counts where err: "err = None" and ce: "gov_chains g1 cid = Some ce"
      and find: "find_release g1 ce v now 0 (ce_pending ce) = Inr (Some (idx, pe, v', counts))" by blast
    obtain q where q: "release_entry B cid now idx pe v' counts msgs g1 = (q, g')"
      using assms t err ce find by (auto simp: check_round_def map_result_pair)
    have le: "uint v + uint v' \<le> uint (ce_dailyLimit ce)" if counts
      using find_release_Some [OF find] uint_plus_no_wrap [of v v'] that
      by (auto simp: release_decision_def Let_def word_le_def not_less split: if_splits)
    have st: "start_time now g1 = start_time now g"
      using TrimAndSumValueForChain_frame [OF t] same_config_start by metis
    have "limit_step now g1 g'" if "within_limits now g"
      using Trim_sum_within [OF that] t err le st by (intro limit_step_release [OF q ce]) simp
    moreover have "same_config g g'"
      using check_round_frame [OF assms] by blast
    ultimately show ?thesis
      using limit_step_trans [OF step] limit_step_vacuous by blast
  qed
qed

lemma limit_step_chain:
  "check_chain B st now cid msgs g = (r, g') \<Longrightarrow> st = start_time now g \<Longrightarrow> limit_step now g g'"
proof (induction B st now cid msgs g arbitrary: r g' rule: check_chain.induct)
  case (1 B st now cid msgs g)
  obtain q h where q: "check_round B st now cid msgs g = (q, h)"
    by (cases "check_round B st now cid msgs g")
  have step: "limit_step now g h"
    using limit_step_round q "1.prems"(2) by metis
  show ?case
  proof (cases "\<exists>out. q = Inr (Some out)")
    case False
    with "1.prems"(1) q have "g' = h"
      by (auto simp: check_chain.simps [of B st now cid msgs g] split: sum.splits option.splits)
    with step show ?thesis by simp
  next
    case True
    then obtain out where out: "q = Inr (Some out)" by blast
    have "check_chain B st now cid out h = (r, g')"
      using "1.prems"(1) q out by (simp add: check_chain.simps [of B st now cid msgs g])
    moreover have "st = start_time now h"
      using step "1.prems"(2) same_config_start unfolding limit_step_def by metis
    ultimately have "limit_step now h g'"
      using "1.IH" [OF q [symmetric] out refl] by blast
    with step show ?thesis
      by (rule limit_step_trans)
  qed
qed

lemma limit_step_chains:
  "check_chains B (start_time now g) now cids msgs g = (r, g') \<Longrightarrow> limit_step now g g'"
proof (induction cids arbitrary: msgs g)
  case Nil
  then show ?case by (simp add: limit_step_same)
next
  case (Cons cid cids)
  obtain q h where q: "check_chain B (start_time now g) now cid msgs g = (q, h)"
    by (cases "check_chain B (start_time now g) now cid msgs g")
  have step: "limit_step now g h"
    by (rule limit_step_chain [OF q refl])
  show ?case
  proof (cases q)
    case (Inl e)
    with Cons.prems q step show ?thesis by simp
  next
    case (Inr out)
    have "start_time now h = start_time now g"
      using step same_config_start unfolding limit_step_def by blast
    with Inr Cons.prems q have "check_chains B (start_time now h) now cids out h = (r, g')"
      by simp
    from limit_step_trans [OF step Cons.IH [OF this]] show ?thesis .
  qed
qed

lemma limit_step_CheckPending:
  assumes "CheckPendingForTime B now g = (r, g')"
  shows "limit_step now g g'"
proof -
  let ?h = "g\<lparr>gov_msgsToPublish := []\<rparr>"
  have "check_chains B (start_time now ?h) now (gov_chainIds g) (gov_msgsToPublish g) ?h = (r, g')"
    using assms by (simp add: CheckPendingForTime_def Let_def start_time_def)
  then have "limit_step now ?h g'"
    by (rule limit_step_chains)
  moreover have "limit_step now g ?h"
    by (rule limit_step_same) simp_all
  ultimately show ?thesis
    by (rule limit_step_trans [rotated])
qed

text \<open>
  What happens to a running governor: messages are processed, the pending lists are checked, at
  times that never go back, and prices change in between.
\<close>

inductive gov_run :: "crypto \<Rightarrow> 's badger \<Rightarrow> time \<times> 's ChainGovernor \<Rightarrow> time \<times> 's ChainGovernor \<Rightarrow> bool"
  for C B s where
  start: "gov_run C B s s"
| message: "gov_run C B s (t, g) \<Longrightarrow> t \<le> now \<Longrightarrow> gov_run C B s (now, snd (ProcessMsgForTime C B m now g))"
| check: "gov_run C B s (t, g) \<Longrightarrow> t \<le> now \<Longrightarrow> gov_run C B s (now, snd (CheckPendingForTime B now g))"
| prices: "gov_run C B s (t, g) \<Longrightarrow> gov_run C B s (t, g\<lparr>gov_tokens := tokens\<rparr>)"

definition run_within :: "'s ChainGovernor \<Rightarrow> time \<times> 's ChainGovernor \<Rightarrow> bool" where
  "run_within g0 s = (case s of (t, g) \<Rightarrow> within_limits t g \<and> \<not> gov_flowCancelEnabled g \<and>
     (\<forall>c. set (filter (in_window (start_time t g)) (transfers_of c g0)) \<subseteq> set (transfers_of c g)))"

lemma run_within_step:
  assumes "run_within g0 (t, g)" and "t \<le> now" and "limit_step now g g'"
  shows "run_within g0 (now, g')"
proof -
  have w: "within_limits now g" "\<not> gov_flowCancelEnabled g"
    using assms(1,2) within_limits_later by (auto simp: run_within_def)
  have st: "start_time now g' = start_time now g" "start_time t g \<le> start_time now g"
    using assms(2,3) by (simp_all add: limit_step_def same_config_start) (simp add: start_time_def)
  have "set (filter (in_window (start_time now g')) (transfers_of c g0)) \<subseteq> set (transfers_of c g')" for c
  proof
    fix x
    assume x: "x \<in> set (filter (in_window (start_time now g')) (transfers_of c g0))"
    then have "x \<in> set (filter (in_window (start_time t g)) (transfers_of c g0))"
      using st by (auto simp: in_window_def)
    then have "x \<in> set (transfers_of c g)"
      using assms(1) by (auto simp: run_within_def)
    then have "x \<in> set (filter (in_window (start_time now g)) (transfers_of c g))"
      using x st by simp
    then show "x \<in> set (transfers_of c g')"
      using assms(3) w unfolding limit_step_def by blast
  qed
  then show ?thesis
    using assms(3) w by (auto simp: run_within_def limit_step_def same_config_def)
qed

lemma gov_run_within:
  assumes "gov_run C B s s'" and "run_within g0 s"
  shows "run_within g0 s'"
  using assms
proof (induction rule: gov_run.induct)
  case start
  then show ?case by simp
next
  case (message t g now m)
  have "ProcessMsgForTime C B m now g = (fst (ProcessMsgForTime C B m now g), snd (ProcessMsgForTime C B m now g))"
    by simp
  from limit_step_ProcessMsg [OF this] message show ?case
    by (blast intro: run_within_step)
next
  case (check t g now)
  have "CheckPendingForTime B now g = (fst (CheckPendingForTime B now g), snd (CheckPendingForTime B now g))"
    by simp
  from limit_step_CheckPending [OF this] check show ?case
    by (blast intro: run_within_step)
next
  case (prices t g tokens)
  then have "run_within g0 (t, g)" by blast
  then show ?case
    by (simp add: run_within_def within_limits_def start_time_def transfers_of_def)
qed

text \<open>
  C3. Without flow cancelling the daily limits hold at all times: whatever messages arrive, whenever
  the pending lists are checked and however prices change, the transfers a chain has been charged
  for in the day that ends now never exceed its limit, and none of them is forgotten before it is a
  day old. Nothing is assumed of the database or of the hash.
\<close>

theorem daily_limit_respected:
  assumes "gov_run C B (t0, g0) (t, g)" and "within_limits t0 g0" and "\<not> gov_flowCancelEnabled g0"
  shows "(\<forall>c ce. gov_chains g c = Some ce \<longrightarrow>
      window_sum (start_time t g) (ce_transfers ce) \<le> uint (ce_dailyLimit ce)) \<and>
    (\<forall>c. set (filter (in_window (start_time t g)) (transfers_of c g0)) \<subseteq> set (transfers_of c g))"
proof -
  have "run_within g0 (t, g)"
    using assms by (intro gov_run_within [OF assms(1)]) (auto simp: run_within_def)
  then show ?thesis
    by (auto simp: run_within_def within_limits_def chain_within_def)
qed

theorem daily_limit_respected_witness:
  "\<exists>g ce. g = snd (ProcessMsgForTime toy_crypto toy_badger (Some (transfer_msg 600)) 10 (sample_gov [])) \<and>
     gov_chains g 2 = Some ce \<and> window_sum (start_time 10 g) (ce_transfers ce) \<le> uint (ce_dailyLimit ce)"
proof -
  let ?g = "sample_gov [] :: unit ChainGovernor"
  define g where "g = snd (ProcessMsgForTime toy_crypto toy_badger (Some (transfer_msg 600)) 10 ?g)"
  have run: "gov_run toy_crypto toy_badger (5, ?g) (10, g)"
    unfolding g_def by (intro gov_run.message [of _ _ _ 5 ?g] gov_run.start) simp
  have ok: "within_limits 5 ?g" "\<not> gov_flowCancelEnabled ?g"
    by (simp_all add: within_limits_def chain_within_def sample_gov_def sample_entry_def by_time_def)
  have "ProcessMsgForTime toy_crypto toy_badger (Some (transfer_msg 600)) 10 ?g =
      (fst (ProcessMsgForTime toy_crypto toy_badger (Some (transfer_msg 600)) 10 ?g), g)"
    by (simp add: g_def)
  then have "same_config ?g g"
    using ProcessMsgForTime_frame by blast
  moreover have "gov_chains ?g 2 \<noteq> None"
    by (simp add: sample_gov_def)
  ultimately have "gov_chains g 2 \<noteq> None"
    using same_config_entry(1) [of ?g g 2] by simp
  with daily_limit_respected [OF run ok] show ?thesis
    by (auto simp: g_def)
qed

end
