(* ===== verification/GovRelease.thy ===== *)
theory GovRelease imports Governor "HOL-Library.Multiset" begin

text \<open>
  What the chain governor does with a message: the outcome of processing a governed message, that
  processing it again changes nothing, and that checking the pending lists neither loses nor
  duplicates a message and stops only when nothing more can be published.
\<close>

section \<open>Processing a message\<close>

lemma enqueue_msg_Inr:
  assumes "enqueue_msg C B msg release tk payload g = (Inr b, g')" and "gov_chains g (mp_EmitterChain msg) \<noteq> None"
  shows "b = False \<and> gov_msgsSeen g' (HashFromMsg C msg) = Some False \<and>
    pending_of (mp_EmitterChain msg) g' = pending_of (mp_EmitterChain msg) g @
      [\<lparr>pe_token = tk, pe_amount = int (tph_Amount payload), pe_hash = HashFromMsg C msg,
        pe_dbData = \<lparr>pt_ReleaseTime = release, pt_Msg = msg\<rparr>\<rparr>]"
  using assms by (auto simp: enqueue_msg_def Let_def set_seen_def transferEnqueued_def split: sum.splits prod.splits)

lemma used_le:
  assumes "uint v = used" and "v \<le> v + (w :: 64 word)"
  shows "v + w \<le> limit \<longleftrightarrow> used + uint w \<le> uint limit"
  using assms uint_plus_no_wrap [of v w] by (simp add: word_le_def)

lemma TrimAndSum_on_entry:
  assumes "TrimAndSumValueForChain B cid start g = ((v, None), g1)" "gov_chains g cid = Some ce"
  obtains us where "uint v = max 0 (window_sum start (ce_transfers ce))" "ce_transfers ce = us @ transfers_of cid g1"
    "cut_at start us (transfers_of cid g1)" "gov_chains g1 cid \<noteq> None" "pending_of cid g1 = pending_of cid g"
proof -
  have "same_config g g1" "same_pending g g1"
    using TrimAndSumValueForChain_frame [OF assms(1)] by blast+
  then have "gov_chains g1 cid \<noteq> None" "pending_of cid g1 = pending_of cid g"
    using assms(2) same_config_entry(1) [of g g1 cid] by (simp_all add: same_pending_def)
  with TrimAndSumValueForChain_Inr [OF assms(1)] assms(2) that show thesis
    by auto
qed

text \<open>
  C24. What ProcessMsgForTime decides. A governed message that was not seen before is published
  exactly when its value is not big and fits into what the transfers of the last day leave of the
  limit of its chain (their net value counts as 0 when it is negative). Published, it is
  appended to the transfers of the chain with its value; otherwise it is appended to the pending
  list, to be released after 24 hours at the latest. Its hash is marked in either case.
\<close>

theorem ProcessMsgForTime_decision:
  assumes "ProcessMsgForTime C B (Some msg) now g = (Inr publish, g')"
    and "parseMsgAlreadyLocked msg g = Inr (Some (ce, token, payload))"
    and "gov_msgsSeen g (HashFromMsg C msg) = None"
  defines "cid \<equiv> mp_EmitterChain msg" and "hash \<equiv> HashFromMsg C msg"
    and "used \<equiv> max 0 (window_sum (start_time now g) (ce_transfers ce))"
  shows "\<exists>w us ts. token_value (int (tph_Amount payload)) token = Inr w \<and>
    (publish \<longleftrightarrow> \<not> isBigTransfer ce w \<and> used + uint w \<le> uint (ce_dailyLimit ce)) \<and>
    gov_msgsSeen g' hash = Some publish \<and>
    ce_transfers ce = us @ ts \<and> cut_at (start_time now g) us ts \<and>
    (if publish
     then transfers_of cid g' = ts @ [\<lparr>tr_dbTransfer = db_transfer now w (te_token token) msg payload hash, tr_value = w\<rparr>] \<and>
       pending_of cid g' = pending_of cid g
     else transfers_of cid g' = ts \<and>
       pending_of cid g' = pending_of cid g @ [\<lparr>pe_token = payload_token payload, pe_amount = int (tph_Amount payload),
         pe_hash = hash, pe_dbData = \<lparr>pt_ReleaseTime = now + maxEnqueuedTime, pt_Msg = msg\<rparr>\<rparr>])"
proof -
  have entry: "gov_chains g cid = Some ce"
    using parse_entry [OF assms(2)] by (simp add: cid_def)
  note trim = TrimAndSum_on_entry [OF _ entry, of B "start_time now g", folded used_def]
  show ?thesis
    using assms(1)
  proof (cases rule: ProcessMsgForTime_cases)
    case unchanged
    with assms(2,3) show ?thesis by auto
  next
    case failed
    then show ?thesis by simp
  next
    case (enqueued msg' ce' token' payload' v w g1)
    then have eq: "msg' = msg" "ce' = ce" "token' = token" "payload' = payload"
      using assms(2) by auto
    obtain us where us: "uint v = used" "ce_transfers ce = us @ transfers_of cid g1"
        "cut_at (start_time now g) us (transfers_of cid g1)" "gov_chains g1 cid \<noteq> None" "pending_of cid g1 = pending_of cid g"
      by (rule trim [OF enqueued(4) [unfolded eq, folded cid_def]])
    have e: "enqueue_msg C B msg (now + maxEnqueuedTime) (payload_token payload) payload g1 = (Inr publish, g')"
      using enqueued(8) by (simp add: eq)
    have "\<not> (\<not> isBigTransfer ce w \<and> used + uint w \<le> uint (ce_dailyLimit ce))"
      using enqueued(6,7) used_le [OF us(1), of w "ce_dailyLimit ce"] by (auto simp: eq not_le [symmetric])
    then show ?thesis
      using enqueue_msg_Inr [OF e] enqueue_msg_frame [OF e] us enqueued(5)
      by (intro exI [of _ w] exI [of _ us] exI [of _ "transfers_of cid g1"]) (simp add: eq cid_def hash_def)
  next
    case (counted msg' ce' token' payload' v w g1 q)
    then have eq: "msg' = msg" "ce' = ce" "token' = token" "payload' = payload"
      using assms(2) by auto
    obtain us where us: "uint v = used" "ce_transfers ce = us @ transfers_of cid g1"
        "cut_at (start_time now g) us (transfers_of cid g1)" "gov_chains g1 cid \<noteq> None" "pending_of cid g1 = pending_of cid g"
      by (rule trim [OF counted(4) [unfolded eq, folded cid_def]])
    let ?d = "db_transfer now w (te_token token) msg payload hash"
    obtain u where c: "count_transfer B cid ?d g1 = (Inr u, g')" and p: "publish"
      using counted(9,10) by (cases q) (auto simp: eq cid_def hash_def)
    have d: "xf_EmitterChain ?d = cid" "xf_Hash ?d = hash" "xf_Value ?d = w"
      by (simp_all add: db_transfer_def cid_def)
    have "used + uint w \<le> uint (ce_dailyLimit ce)"
      using counted(7,8) used_le [OF us(1), of w "ce_dailyLimit ce"] by (simp add: eq)
    then show ?thesis
      using count_transfer_Inr [OF c us(4)] count_transfer_frame [OF c] us counted(5,6) p d
      by (intro exI [of _ w] exI [of _ us] exI [of _ "transfers_of cid g1"])
        (simp add: eq same_pending_def transferComplete_def)
  qed
qed

text \<open>A transfer of 600 is too big for the sample governor: it is held.\<close>

lemma sample_trim:
  "TrimAndSumValueForChain toy_badger 2 st (sample_gov ps) = ((0, None), sample_gov ps)"
  by (simp add: TrimAndSumValueForChain_def TrimAndSumValue_def sample_gov_def sample_entry_def put_transfers_def)

lemma sample_process:
  "fst (ProcessMsgForTime toy_crypto toy_badger (Some (transfer_msg 600)) 10 (sample_gov [])) = Inr False"
proof -
  have "parseMsgAlreadyLocked (transfer_msg 600) (sample_gov [] :: unit ChainGovernor) =
      Inr (Some (sample_entry, sample_token, sample_hdr 600))"
    by (rule parse_sample) (simp_all add: sample_gov_def sample_entry_def)
  moreover have "tph_Amount (sample_hdr 600) = 600"
    by (simp add: sample_hdr_def)
  moreover have "StorePendingMsg toy_badger p s = (Inr (), s)" for p s
    by (simp add: StorePendingMsg_def toy_badger_def update_err_def)
  moreover have "gov_msgsSeen (sample_gov []) h = None" for h
    by (simp add: sample_gov_def)
  moreover have "isBigTransfer sample_entry 600"
    by (simp add: isBigTransfer_def sample_entry_def)
  ultimately show ?thesis
    by (simp add: ProcessMsgForTime_def Let_def sample_trim sample_value enqueue_msg_def)
qed

theorem ProcessMsgForTime_decision_witness:
  "pending_of 2 (snd (ProcessMsgForTime toy_crypto toy_badger (Some (transfer_msg 600)) 10 (sample_gov []))) =
     [\<lparr>pe_token = payload_token (sample_hdr 600), pe_amount = 600,
       pe_hash = HashFromMsg toy_crypto (transfer_msg 600),
       pe_dbData = \<lparr>pt_ReleaseTime = 10 + maxEnqueuedTime, pt_Msg = transfer_msg 600\<rparr>\<rparr>]"
proof -
  let ?p = "ProcessMsgForTime toy_crypto toy_badger (Some (transfer_msg 600)) 10 (sample_gov [] :: unit ChainGovernor)"
  have p: "?p = (Inr False, snd ?p)"
    using sample_process by (metis prod.collapse)
  have parse: "parseMsgAlreadyLocked (transfer_msg 600) (sample_gov [] :: unit ChainGovernor) =
      Inr (Some (sample_entry, sample_token, sample_hdr 600))"
    by (rule parse_sample) (simp_all add: sample_gov_def sample_entry_def)
  have seen: "gov_msgsSeen (sample_gov [] :: unit ChainGovernor) (HashFromMsg toy_crypto (transfer_msg 600)) = None"
    by (simp add: sample_gov_def)
  have "pending_of 2 (sample_gov [] :: unit ChainGovernor) = []" "tph_Amount (sample_hdr 600) = 600"
    by (simp_all add: pending_of_def sample_gov_def sample_entry_def sample_hdr_def)
  then show ?thesis
    using ProcessMsgForTime_decision [OF p parse seen] by auto
qed

text \<open>
  A message that was decided is not decided again while its hash is remembered.
\<close>

lemma ProcessMsgForTime_seen:
  "parseMsgAlreadyLocked msg g = Inr (Some p) \<Longrightarrow> gov_msgsSeen g (HashFromMsg C msg) = Some b \<Longrightarrow>
     ProcessMsgForTime C B (Some msg) now g = (Inr b, g)"
  by (cases p) (auto simp: ProcessMsgForTime_def Let_def)

section \<open>Checking the pending lists\<close>

text \<open>The messages that a pending list can publish: an entry whose payload does not decode is dropped.\<close>

definition releasable :: "pendingEntry list \<Rightarrow> MessagePublication list" where
  "releasable ps = filter (\<lambda>m. \<exists>h. DecodeTransferPayloadHdr (mp_Payload m) = Inr h) (map (\<lambda>pe. pt_Msg (pe_dbData pe)) ps)"

lemma releasable_append [simp]: "releasable (ps @ qs) = releasable ps @ releasable qs"
  by (simp add: releasable_def)

lemma releasable_Cons: "releasable (pe # ps) =
    (case DecodeTransferPayloadHdr (mp_Payload (pt_Msg (pe_dbData pe))) of
       Inl _ \<Rightarrow> [] | Inr _ \<Rightarrow> [pt_Msg (pe_dbData pe)]) @ releasable ps"
  by (simp add: releasable_def split: sum.split)

definition conserves :: "ChainID \<Rightarrow> MessagePublication list \<Rightarrow> 's ChainGovernor \<Rightarrow> MessagePublication list \<Rightarrow> 's ChainGovernor \<Rightarrow> bool" where
  "conserves cid msgs g out g' \<longleftrightarrow> same_config g g' \<and> (\<forall>c. c \<noteq> cid \<longrightarrow> pending_of c g' = pending_of c g) \<and>
     set (pending_of cid g') \<subseteq> set (pending_of cid g) \<and>
     mset out + mset (releasable (pending_of cid g')) = mset msgs + mset (releasable (pending_of cid g))"

lemma check_round_conserves:
  assumes "check_round B st now cid msgs g = (r, g')"
  shows "r = Inr None \<Longrightarrow> conserves cid msgs g msgs g'" and "r = Inr (Some out) \<Longrightarrow> conserves cid msgs g out g'"
proof -
  note f = check_round_frame [OF assms]
  show "r = Inr None \<Longrightarrow> conserves cid msgs g msgs g'"
    using f by (simp add: conserves_def)
  show "conserves cid msgs g out g'" if r: "r = Inr (Some out)"
  proof -
    obtain us pe vs where p: "pending_of cid g = us @ pe # vs" "pending_of cid g' = us @ vs"
      and out: "out = (case DecodeTransferPayloadHdr (mp_Payload (pt_Msg (pe_dbData pe))) of
          Inl _ \<Rightarrow> msgs | Inr _ \<Rightarrow> msgs @ [pt_Msg (pe_dbData pe)])"
      using f r by auto
    have "set (us @ vs) \<subseteq> set (us @ pe # vs)"
      by auto
    then show ?thesis
      using f by (cases "DecodeTransferPayloadHdr (mp_Payload (pt_Msg (pe_dbData pe)))")
        (simp_all add: conserves_def p out releasable_Cons)
  qed
qed

lemma conserves_trans: "conserves cid msgs g out g' \<Longrightarrow> conserves cid out g' out' g'' \<Longrightarrow> conserves cid msgs g out' g''"
  unfolding conserves_def by (auto intro: same_config_trans)

text \<open>The last round of the inner loop found nothing.\<close>

lemma check_chain_Inr:
  "check_chain B st now cid msgs g = (Inr out, g') \<Longrightarrow>
     conserves cid msgs g out g' \<and> (\<exists>h. check_round B st now cid out h = (Inr None, g') \<and> same_config g h)"
proof (induction B st now cid msgs g arbitrary: out g' rule: check_chain.induct)
  case (1 B st now cid msgs g)
  obtain q h where q: "check_round B st now cid msgs g = (q, h)"
    by (cases "check_round B st now cid msgs g")
  consider e where "q = Inl e" | "q = Inr None" | out1 where "q = Inr (Some out1)"
    by (metis option.exhaust sum.exhaust)
  then show ?case
  proof cases
    case 1
    with "1.prems" q show ?thesis
      by (simp add: check_chain.simps [of B st now cid msgs g])
  next
    case 2
    with "1.prems" q have "out = msgs" "g' = h"
      by (simp_all add: check_chain.simps [of B st now cid msgs g])
    with check_round_conserves(1) [OF q 2] q 2 show ?thesis
      using same_config_refl by blast
  next
    case (3 out1)
    with "1.prems" q have "check_chain B st now cid out1 h = (Inr out, g')"
      by (simp add: check_chain.simps [of B st now cid msgs g])
    from "1.IH" [OF q [symmetric] 3 refl this] obtain k where
      k: "conserves cid out1 h out g'" "check_round B st now cid out k = (Inr None, g')" "same_config h k"
      by blast
    have c: "conserves cid msgs g out1 h"
      by (rule check_round_conserves(2) [OF q 3])
    then have "same_config g k"
      using k(3) same_config_trans unfolding conserves_def by blast
    with conserves_trans [OF c k(1)] k(2) show ?thesis by blast
  qed
qed

lemma map_sum_None: "Inr None = map_sum id Some q \<longleftrightarrow> False"
  by (cases q) simp_all

text \<open>Why an entry stays in the list, for the usage v that the code computes.\<close>

definition must_wait :: "time \<Rightarrow> 64 word \<Rightarrow> chainEntry \<Rightarrow> 's ChainGovernor \<Rightarrow> pendingEntry \<Rightarrow> bool" where
  "must_wait now v ce g pe \<longleftrightarrow> (\<exists>w. pending_value g pe = Inr w \<and>
     (if isBigTransfer ce w then now < pt_ReleaseTime (pe_dbData pe)
      else now \<le> pt_ReleaseTime (pe_dbData pe) \<and> uint (ce_dailyLimit ce) < uint v + uint w))"

lemma must_wait_decision:
  "pending_value g pe = Inr w \<Longrightarrow> release_decision ce v now pe w = Inr None \<Longrightarrow> must_wait now v ce g pe"
  using uint_plus_no_wrap [of v w] word_le_def [of v "v + w"]
  by (auto simp: must_wait_def release_decision_def Let_def word_less_def not_less split: if_splits)

text \<open>
  The inner loop of CheckPendingForTime releases everything it can: when it ends without an
  error, either the transfers of the chain could not be summed, or every entry that is left in the
  pending list must wait, a big one for its release time, another for its release time or for
  room below the daily limit, at the current price and the current usage. And nothing was lost or
  duplicated: the messages returned and the publishable ones left are those there were before.
\<close>

lemma check_chain_exhausts:
  assumes "check_chain B st now cid msgs g = (Inr out, g')" and "gov_chains g cid \<noteq> None"
  shows "mset out + mset (releasable (pending_of cid g')) = mset msgs + mset (releasable (pending_of cid g)) \<and>
    (\<exists>h v err g1. TrimAndSumValueForChain B cid st h = ((v, err), g1) \<and>
      (err = None \<longrightarrow> g1 = g' \<and>
        (\<exists>ce. gov_chains g' cid = Some ce \<and> list_all (must_wait now v ce g') (ce_pending ce))))"
proof -
  obtain h where c: "conserves cid msgs g out g'" and h: "check_round B st now cid out h = (Inr None, g')" "same_config g h"
    using check_chain_Inr [OF assms(1)] by blast
  obtain v err g1 where t: "TrimAndSumValueForChain B cid st h = ((v, err), g1)"
    by (metis prod.collapse)
  have "g1 = g' \<and> (\<exists>ce. gov_chains g' cid = Some ce \<and> list_all (must_wait now v ce g') (ce_pending ce))"
    if err: "err = None"
  proof -
    have "same_config h g1"
      using TrimAndSumValueForChain_frame [OF t] by blast
    with h(2) obtain ce where ce: "gov_chains g1 cid = Some ce"
      using assms(2) same_config_entry(1) by (metis not_None_eq)
    have find: "find_release g1 ce v now 0 (ce_pending ce) = Inr None" "g1 = g'"
      using h(1) t err ce by (auto simp: check_round_def map_result_pair map_sum_None split: sum.splits option.splits)
    then have "list_all (must_wait now v ce g') (ce_pending ce)"
      using find_release_None [OF find(1)] must_wait_decision by (fastforce simp: list_all_iff)
    with ce find(2) show ?thesis by simp
  qed
  with c t show ?thesis
    unfolding conserves_def by blast
qed

lemma check_chains_conserve:
  "check_chains B st now cids msgs g = (Inr out, g') \<Longrightarrow> distinct cids \<Longrightarrow>
     same_config g g' \<and> (\<forall>c. c \<notin> set cids \<longrightarrow> pending_of c g' = pending_of c g) \<and>
     mset out + (\<Sum>c\<leftarrow>cids. mset (releasable (pending_of c g'))) =
     mset msgs + (\<Sum>c\<leftarrow>cids. mset (releasable (pending_of c g)))"
proof (induction cids arbitrary: msgs g)
  case Nil
  then show ?case by simp
next
  case (Cons cid cids)
  then obtain out1 g1 where r: "check_chain B st now cid msgs g = (Inr out1, g1)"
    and rest: "check_chains B st now cids out1 g1 = (Inr out, g')"
    by (auto split: sum.splits prod.splits)
  have c: "conserves cid msgs g out1 g1"
    using check_chain_Inr [OF r] by blast
  have IH: "same_config g1 g'" "\<forall>c. c \<notin> set cids \<longrightarrow> pending_of c g' = pending_of c g1"
    "mset out + (\<Sum>c\<leftarrow>cids. mset (releasable (pending_of c g'))) =
      mset out1 + (\<Sum>c\<leftarrow>cids. mset (releasable (pending_of c g1)))"
    using Cons.IH [OF rest] Cons.prems(2) by simp_all
  have same: "(\<Sum>c\<leftarrow>cids. mset (releasable (pending_of c g1))) = (\<Sum>c\<leftarrow>cids. mset (releasable (pending_of c g)))"
  proof -
    have "map (\<lambda>c. mset (releasable (pending_of c g1))) cids = map (\<lambda>c. mset (releasable (pending_of c g))) cids"
      using c Cons.prems(2) by (auto simp: conserves_def)
    then show ?thesis by (simp only:)
  qed
  have cid: "pending_of cid g' = pending_of cid g1"
    using IH(2) Cons.prems(2) by simp
  have "mset out + ((\<Sum>c\<leftarrow>cids. mset (releasable (pending_of c g'))) + mset (releasable (pending_of cid g'))) =
      mset msgs + mset (releasable (pending_of cid g)) + (\<Sum>c\<leftarrow>cids. mset (releasable (pending_of c g)))"
    using IH(3) c same cid unfolding conserves_def by (metis (no_types, lifting) add.assoc add.commute)
  then have "mset out + (\<Sum>c\<leftarrow>cid # cids. mset (releasable (pending_of c g'))) =
      mset msgs + (\<Sum>c\<leftarrow>cid # cids. mset (releasable (pending_of c g)))"
    by (simp add: ac_simps)
  moreover have "same_config g g'"
    using c IH(1) same_config_trans by (auto simp: conserves_def)
  moreover have "\<forall>c. c \<notin> set (cid # cids) \<longrightarrow> pending_of c g' = pending_of c g"
    using c IH(2) by (simp add: conserves_def)
  ultimately show ?case by blast
qed


text \<open>A pending entry whose release time has passed is published by the sample governor.\<close>

lemma sample_round:
  "check_round toy_badger st 10 2 [] (sample_gov [sample_pending 5]) = (Inr (Some [transfer_msg 600]), sample_gov [])"
proof -
  let ?g = "sample_gov [sample_pending 5] :: unit ChainGovernor"
  let ?ce = "sample_entry\<lparr>ce_pending := [sample_pending 5]\<rparr>"
  have ce: "gov_chains ?g 2 = Some ?ce"
    by (simp add: sample_gov_def)
  have "pending_value ?g (sample_pending 5) = Inr 600"
    using sample_value by (simp add: pending_value_def sample_gov_def sample_pending_def)
  then have find: "find_release ?g ?ce 0 10 0 [sample_pending 5] = Inr (Some (0, sample_pending 5, 600, False))"
    by (simp add: release_decision_def isBigTransfer_def sample_entry_def sample_pending_def)
  have "DeletePendingMsg toy_badger p s = (Inr (), s)" for p s
    by (simp add: DeletePendingMsg_def toy_badger_def update_err_def)
  moreover have "pt_Msg (pe_dbData (sample_pending 5)) = transfer_msg 600"
    by (simp add: sample_pending_def)
  moreover have "forget h (sample_gov ps) = sample_gov ps" "pending_of 2 (sample_gov ps) = ps"
    "put_pending 2 qs ((sample_gov ps)\<lparr>gov_db := ()\<rparr>) = sample_gov qs" for h ps qs
    by (simp_all add: forget_def pending_of_def put_pending_def sample_gov_def)
  ultimately have "release_entry toy_badger 2 10 0 (sample_pending 5) 600 False [] ?g = (Inr [transfer_msg 600], sample_gov [])"
    by (simp add: release_entry_def Let_def)
  with find ce show ?thesis
    by (simp add: check_round_def sample_trim sample_entry_def)
qed

lemma sample_round_end: "check_round toy_badger st 10 2 msgs (sample_gov []) = (Inr None, sample_gov [])"
  by (simp add: check_round_def sample_trim) (simp add: sample_gov_def sample_entry_def)

lemma sample_check: "check_chain toy_badger st 10 2 [] (sample_gov [sample_pending 5]) = (Inr [transfer_msg 600], sample_gov [])"
  by (simp add: check_chain.simps sample_round sample_round_end)

theorem check_chain_exhausts_witness:
  "mset [transfer_msg 600] + mset (releasable (pending_of 2 (sample_gov []))) =
     mset [] + mset (releasable (pending_of 2 (sample_gov [sample_pending 5])))"
  using check_chain_exhausts [OF sample_check [of 0]] by (simp add: sample_gov_def)


text \<open>
  When the transfers of a chain cannot be summed, the messages that were waiting to be
  published are returned and also stay in the list of those waiting, so that the next
  check publishes them a second time. Shown for a governor of one chain.
\<close>

lemma failed_sum_publishes_twice:
  assumes "TrimAndSumValueForChain B cid (start_time now g) (g\<lparr>gov_msgsToPublish := []\<rparr>) = ((v, Some e), g1)"
    and "gov_chainIds g = [cid]"
  shows "CheckPendingForTime B now g = (Inr (gov_msgsToPublish g), g1\<lparr>gov_msgsToPublish := gov_msgsToPublish g\<rparr>)"
  using assms by (simp add: CheckPendingForTime_def Let_def check_chain.simps check_round_def)

text \<open>A database that refuses to delete a transfer older than a day.\<close>

theorem failed_sum_publishes_twice_witness:
  "\<exists>B (g :: unit ChainGovernor) g'. gov_msgsToPublish g = [transfer_msg 1] \<and>
     CheckPendingForTime B (2 * maxEnqueuedTime) g = (Inr [transfer_msg 1], g') \<and> gov_msgsToPublish g' = [transfer_msg 1]"
proof -
  define t where "t = \<lparr>tr_dbTransfer = db_transfer 0 1 sample_key (transfer_msg 1) (sample_hdr 1) ''00'', tr_value = 1\<rparr>"
  define g where "g = (sample_gov [])\<lparr>gov_chains := [2 \<mapsto> sample_entry\<lparr>ce_transfers := [t]\<rparr>], gov_msgsToPublish := [transfer_msg 1]\<rparr>"
  define B where "B = toy_badger\<lparr>bg_Delete := \<lambda>_ s. (Some (Errorf ''disk''), s)\<rparr>"
  have "DeleteTransfer B d s = (Inl (Wrap ''failed to delete transfer'' (Some (Errorf ''disk''))), s) \<or>
      (\<exists>e. DeleteTransfer B d s = (Inl e, s))" for d s
    by (auto simp: DeleteTransfer_def B_def update_err_def)
  then obtain e where del: "DeleteTransfer B (tr_dbTransfer t) () = (Inl e, ())"
    by blast
  have st: "start_time (2 * maxEnqueuedTime) g = maxEnqueuedTime" "0 < maxEnqueuedTime"
    by (simp_all add: start_time_def g_def sample_gov_def maxEnqueuedTime_def minute_def)
  have "\<exists>v e g1. TrimAndSumValueForChain B 2 (start_time (2 * maxEnqueuedTime) g) (g\<lparr>gov_msgsToPublish := []\<rparr>) =
      ((v, Some e), g1)"
    unfolding st(1) using del st(2)
    by (simp add: TrimAndSumValueForChain_def TrimAndSumValue_def g_def sample_entry_def Let_def t_def db_transfer_def
        sample_gov_def)
  then obtain v e g1 where t: "TrimAndSumValueForChain B 2 (start_time (2 * maxEnqueuedTime) g) (g\<lparr>gov_msgsToPublish := []\<rparr>) =
      ((v, Some e), g1)" by blast
  have "gov_chainIds g = [2]" and m: "gov_msgsToPublish g = [transfer_msg 1]"
    by (simp_all add: g_def sample_gov_def)
  from failed_sum_publishes_twice [OF t this(1)] m show ?thesis
    by (intro exI [of _ B] exI [of _ g] exI [of _ "g1\<lparr>gov_msgsToPublish := gov_msgsToPublish g\<rparr>"]) simp
qed

end
