(* ===== verification/GovAdmin.thy ===== *)
theory GovAdmin imports Governor begin

text \<open>
  Loading the state of the chain governor and changing it by hand: node/pkg/governor/governor_db.go
  and the admin and query operations of node/pkg/governor/governor_monitoring.go.

  Go iterates over the map gov.chains in no particular order: the operations that do so take the
  order as an argument. The nil database of Reload is left out, as are the text of the responses
  and the metrics and status messages.
\<close>

section \<open>Loading from the database\<close>

definition append_pending :: "ChainID \<Rightarrow> pendingEntry \<Rightarrow> 's ChainGovernor \<Rightarrow> 's ChainGovernor" where
  "append_pending cid pe g = put_pending cid (pending_of cid g @ [pe]) g"

definition reloadPendingTransfer :: "crypto \<Rightarrow> PendingTransfer \<Rightarrow> 's ChainGovernor \<Rightarrow> 's ChainGovernor" where
  "reloadPendingTransfer C pending g =
     (let msg = pt_Msg pending in
      case gov_chains g (mp_EmitterChain msg) of
        None \<Rightarrow> g
      | Some ce \<Rightarrow>
          if mp_EmitterAddress msg \<noteq> ce_emitterAddr ce then g
          else case DecodeTransferPayloadHdr (mp_Payload msg) of
            Inl _ \<Rightarrow> g
          | Inr payload \<Rightarrow>
              let tk = payload_token payload in
              (case gov_tokens g tk of
                 None \<Rightarrow> g
               | Some token \<Rightarrow>
                   let hash = HashFromMsg C msg in
                   if gov_msgsSeen g hash \<noteq> None then g
                   else set_seen hash transferEnqueued (append_pending (mp_EmitterChain msg)
                     \<lparr>pe_token = tk, pe_amount = int (tph_Amount payload), pe_hash = hash, pe_dbData = pending\<rparr> g)))"

definition reloadTransfer :: "Transfer \<Rightarrow> 's ChainGovernor \<Rightarrow> (unit, 's ChainGovernor) db_result" where
  "reloadTransfer xfer g =
     (case gov_chains g (xf_EmitterChain xfer) of
        None \<Rightarrow> (Inr (), g)
      | Some ce \<Rightarrow>
          if xf_EmitterAddress xfer \<noteq> ce_emitterAddr ce then (Inr (), g)
          else case gov_tokens g \<lparr>tk_chain = xf_OriginChain xfer, tk_addr = xf_OriginAddress xfer\<rparr> of
            None \<Rightarrow> (Inr (), g)
          | Some _ \<Rightarrow>
              if gov_msgsSeen g (xf_Hash xfer) \<noteq> None then (Inr (), g)
              else
                let g = (if xf_Hash xfer \<noteq> [] then set_seen (xf_Hash xfer) transferComplete g else g) in
                (case newTransferFromDbTransfer xfer of
                   Inl e \<Rightarrow> (Inl e, g)
                 | Inr t \<Rightarrow>
                     let cid = xf_EmitterChain xfer; g = put_transfers cid (transfers_of cid g @ [t]) g in
                     if gov_flowCancelEnabled g
                     then map_prod (map_sum id (\<lambda>_. ())) id (tryAddFlowCancelTransfer t g)
                     else (Inr (), g)))"

text \<open>The loop over the transfers, which deletes those that are too old.\<close>

fun load_transfers :: "'s badger \<Rightarrow> time \<Rightarrow> Transfer list \<Rightarrow> 's ChainGovernor \<Rightarrow> (unit, 's ChainGovernor) db_result" where
  "load_transfers B startTime [] g = (Inr (), g)"
| "load_transfers B startTime (x # xs) g =
     (case (if startTime < xf_Timestamp x then reloadTransfer x g
            else case DeleteTransfer B x (gov_db g) of (r, s) \<Rightarrow> (r, g\<lparr>gov_db := s\<rparr>)) of
        (Inl e, g) \<Rightarrow> (Inl e, g)
      | (Inr _, g) \<Rightarrow> load_transfers B startTime xs g)"

definition loadFromDBAlreadyLocked :: "crypto \<Rightarrow> 's badger \<Rightarrow> time \<Rightarrow> 's ChainGovernor \<Rightarrow> (unit, 's ChainGovernor) db_result" where
  "loadFromDBAlreadyLocked C B now g =
     (case GetChainGovernorData B (gov_db g) of
        (Inl e, s) \<Rightarrow> (Inl e, g\<lparr>gov_db := s\<rparr>)
      | (Inr (xfers, pending), s) \<Rightarrow>
          let g = fold (reloadPendingTransfer C) (sort_key (\<lambda>p. mp_Timestamp (pt_Msg p)) pending) (g\<lparr>gov_db := s\<rparr>)
          in load_transfers B (start_time now g) (sort_key xf_Timestamp xfers) g)"

section \<open>Admin commands\<close>

definition clear_chain :: "chainEntry \<Rightarrow> chainEntry" where
  "clear_chain ce = ce\<lparr>ce_transfers := [], ce_pending := []\<rparr>"

definition Reload :: "crypto \<Rightarrow> 's badger \<Rightarrow> time \<Rightarrow> 's ChainGovernor \<Rightarrow> (unit, 's ChainGovernor) db_result" where
  "Reload C B now g = loadFromDBAlreadyLocked C B now (g\<lparr>gov_chains := (\<lambda>c. map_option clear_chain (gov_chains g c))\<rparr>)"

text \<open>The first pending entry with a message id: its chain, its index and itself.\<close>

fun find_entry :: "string \<Rightarrow> nat \<Rightarrow> pendingEntry list \<Rightarrow> (nat \<times> pendingEntry) option" where
  "find_entry vaaId idx [] = None"
| "find_entry vaaId idx (pe # ps) =
     (if MessageIDString (pt_Msg (pe_dbData pe)) = vaaId then Some (idx, pe) else find_entry vaaId (Suc idx) ps)"

fun find_pending :: "string \<Rightarrow> ChainID list \<Rightarrow> 's ChainGovernor \<Rightarrow> (ChainID \<times> nat \<times> pendingEntry) option" where
  "find_pending vaaId [] g = None"
| "find_pending vaaId (c # cs) g = (case find_entry vaaId 0 (pending_of c g) of
     Some (idx, pe) \<Rightarrow> Some (c, idx, pe) | None \<Rightarrow> find_pending vaaId cs g)"

definition remove_pending :: "ChainID \<Rightarrow> nat \<Rightarrow> 's ChainGovernor \<Rightarrow> 's ChainGovernor" where
  "remove_pending cid idx g = put_pending cid (take idx (pending_of cid g) @ drop (Suc idx) (pending_of cid g)) g"

definition not_pending :: go_error where
  "not_pending = Errorf ''vaa not found in the pending list''"

definition DropPendingVAA :: "'s badger \<Rightarrow> ChainID list \<Rightarrow> string \<Rightarrow> 's ChainGovernor \<Rightarrow> (unit, 's ChainGovernor) db_result" where
  "DropPendingVAA B order vaaId g =
     (case find_pending vaaId order g of
        None \<Rightarrow> (Inl not_pending, g)
      | Some (cid, idx, pe) \<Rightarrow>
          (case DeletePendingMsg B (pe_dbData pe) (gov_db g) of
             (Inl e, s) \<Rightarrow> (Inl e, g\<lparr>gov_db := s\<rparr>)
           | (Inr _, s) \<Rightarrow> (Inr (), remove_pending cid idx (g\<lparr>gov_db := s\<rparr>))))"

definition ReleasePendingVAA :: "'s badger \<Rightarrow> ChainID list \<Rightarrow> string \<Rightarrow> 's ChainGovernor \<Rightarrow> (unit, 's ChainGovernor) db_result" where
  "ReleasePendingVAA B order vaaId g =
     (case find_pending vaaId order g of
        None \<Rightarrow> (Inl not_pending, g)
      | Some (cid, idx, pe) \<Rightarrow>
          let g = g\<lparr>gov_msgsToPublish := gov_msgsToPublish g @ [pt_Msg (pe_dbData pe)]\<rparr> in
          (case DeletePendingMsg B (pe_dbData pe) (gov_db g) of
             (Inl e, s) \<Rightarrow> (Inl e, g\<lparr>gov_db := s\<rparr>)
           | (Inr _, s) \<Rightarrow> (Inr (), remove_pending cid idx (g\<lparr>gov_db := s\<rparr>))))"

text \<open>A time.Duration is an int64 of nanoseconds, and the product of the days wraps.\<close>

definition days :: "32 word \<Rightarrow> time" where
  "days numDays = sint (ucast numDays * word_of_int (24 * 60 * minute) :: 64 word)"

definition resetReleaseTimerForTime :: "'s badger \<Rightarrow> ChainID list \<Rightarrow> string \<Rightarrow> time \<Rightarrow> 32 word \<Rightarrow> 's ChainGovernor \<Rightarrow>
    (unit, 's ChainGovernor) db_result" where
  "resetReleaseTimerForTime B order vaaId now numDays g =
     (case find_pending vaaId order g of
        None \<Rightarrow> (Inl not_pending, g)
      | Some (cid, idx, pe) \<Rightarrow>
          let dbData = (pe_dbData pe)\<lparr>pt_ReleaseTime := now + days numDays\<rparr>;
              g = put_pending cid ((pending_of cid g)[idx := pe\<lparr>pe_dbData := dbData\<rparr>]) g
          in (case StorePendingMsg B dbData (gov_db g) of (r, s) \<Rightarrow> (r, g\<lparr>gov_db := s\<rparr>)))"

section \<open>Queries\<close>

text \<open>sumValue: the net value, the outgoing value and the value that flow cancelling took off.\<close>

fun sum_value_loop :: "time \<Rightarrow> 64 word \<Rightarrow> 64 word \<Rightarrow> 64 word \<Rightarrow> transfer list \<Rightarrow> go_error + 64 word \<times> 64 word \<times> 64 word" where
  "sum_value_loop startTime net out cancel [] = Inr (net, out, cancel)"
| "sum_value_loop startTime net out cancel (t # ts) =
     (if xf_Timestamp (tr_dbTransfer t) < startTime then sum_value_loop startTime net out cancel ts
      else chk (CheckedAddInt64 net (tr_value t)) (\<lambda>net.
        if sint (tr_value t) < 0
        then sum_value_loop startTime net out (cancel + xf_Value (tr_dbTransfer t)) ts
        else sum_value_loop startTime net (out + xf_Value (tr_dbTransfer t)) cancel ts))"

definition sumValue :: "transfer list \<Rightarrow> time \<Rightarrow> go_error + 64 word \<times> 64 word \<times> 64 word" where
  "sumValue transfers startTime =
     (if length transfers = 0 then Inr (0, 0, 0) else sum_value_loop startTime 0 0 0 transfers)"

text \<open>A missing chain entry would be a nil pointer.\<close>

definition availableNotionalValue :: "ChainID \<Rightarrow> 64 word \<Rightarrow> 's ChainGovernor \<Rightarrow> go_error + 64 word" where
  "availableNotionalValue cid netUsage g =
     (case gov_chains g cid of
        None \<Rightarrow> Inl (Panic ''nil chain entry'')
      | Some ce \<Rightarrow> Inr (if sint netUsage < 0 then ce_dailyLimit ce
          else if ce_dailyLimit ce < netUsage then 0
          else ce_dailyLimit ce - netUsage))"

text \<open>The remaining value that GetAvailableNotionalByChain reports for a chain of the governor.\<close>

definition remaining_of :: "time \<Rightarrow> ChainID \<Rightarrow> 's ChainGovernor \<Rightarrow> 64 word" where
  "remaining_of startTime cid g =
     (case sumValue (transfers_of cid g) startTime of
        Inl _ \<Rightarrow> 0
      | Inr (net, _, _) \<Rightarrow> (case availableNotionalValue cid net g of Inl _ \<Rightarrow> 0 | Inr r \<Rightarrow> r))"

definition IsVAAEnqueued :: "ChainID list \<Rightarrow> (32 word \<times> string \<times> 64 word) option \<Rightarrow> 's ChainGovernor \<Rightarrow> go_error + bool" where
  "IsVAAEnqueued order msgId g =
     (case msgId of
        None \<Rightarrow> Inl (Errorf ''no message ID specified'')
      | Some (chain, addr, sequence) \<Rightarrow>
          if 65535 < chain then Inl (Errorf ''emitter chain id must be no greater than 16 bits'')
          else chk (StringToAddress addr) (\<lambda>emitterAddress.
            Inr (list_ex (\<lambda>c. list_ex (\<lambda>pe. let msg = pt_Msg (pe_dbData pe) in
              mp_EmitterChain msg = ucast chain \<and> mp_EmitterAddress msg = emitterAddress \<and>
              mp_Sequence msg = sequence) (pending_of c g)) order)))"

section \<open>Reloading a running governor\<close>

lemma reloadPendingTransfer_seen:
  "gov_msgsSeen g (HashFromMsg C (pt_Msg p)) \<noteq> None \<Longrightarrow> reloadPendingTransfer C p g = g"
  by (simp add: reloadPendingTransfer_def Let_def split: option.split sum.split)

lemma fold_reload_seen:
  "list_all (\<lambda>p. gov_msgsSeen g (HashFromMsg C (pt_Msg p)) \<noteq> None) ps \<Longrightarrow> fold (reloadPendingTransfer C) ps g = g"
  by (induction ps) (simp_all add: reloadPendingTransfer_seen)

lemma reloadTransfer_seen: "gov_msgsSeen g (xf_Hash x) \<noteq> None \<Longrightarrow> reloadTransfer x g = (Inr (), g)"
  by (auto simp: reloadTransfer_def split: option.split)

lemma load_transfers_seen:
  "list_all (\<lambda>x. gov_msgsSeen g (xf_Hash x) \<noteq> None) xs \<Longrightarrow> load_transfers B st xs g = (r, g') \<Longrightarrow>
     \<exists>s. g' = g\<lparr>gov_db := s\<rparr>"
proof (induction xs arbitrary: g)
  case Nil
  then show ?case
    by (intro exI [of _ "gov_db g"]) simp
next
  case (Cons x xs)
  show ?case
  proof (cases "st < xf_Timestamp x")
    case True
    with Cons show ?thesis
      by (simp add: reloadTransfer_seen)
  next
    case False
    obtain q s where q: "DeleteTransfer B x (gov_db g) = (q, s)"
      by (cases "DeleteTransfer B x (gov_db g)")
    show ?thesis
    proof (cases q)
      case (Inl e)
      with Cons.prems(2) False q show ?thesis by auto
    next
      case (Inr u)
      with Cons.prems(2) False q have "load_transfers B st xs (g\<lparr>gov_db := s\<rparr>) = (r, g')"
        by simp
      from Cons.IH [OF _ this] Cons.prems(1) show ?thesis by auto
    qed
  qed
qed

text \<open>
  The admin command Reload does not load what the governor already knows: it empties the lists
  of transfers and pending messages but keeps the hashes, so every record of the database whose hash
  is marked is skipped as a duplicate. A governor that has marked all of them, as a
  running one has, is left without any pending message and with a usage of 0 on every chain.
\<close>

lemma Reload_forgets:
  assumes "GetChainGovernorData B (gov_db g) = (Inr (xfers, pending), s)"
    and "list_all (\<lambda>p. gov_msgsSeen g (HashFromMsg C (pt_Msg p)) \<noteq> None) pending"
    and "list_all (\<lambda>x. gov_msgsSeen g (xf_Hash x) \<noteq> None) xfers"
    and "Reload C B now g = (r, g')"
  shows "pending_of c g' = [] \<and> transfers_of c g' = [] \<and> gov_msgsSeen g' = gov_msgsSeen g"
proof -
  let ?h = "g\<lparr>gov_chains := (\<lambda>c. map_option clear_chain (gov_chains g c)), gov_db := s\<rparr>"
  have "fold (reloadPendingTransfer C) (sort_key (\<lambda>p. mp_Timestamp (pt_Msg p)) pending) ?h = ?h"
    using assms(2) by (intro fold_reload_seen) (simp add: list_all_iff)
  then have "load_transfers B (start_time now ?h) (sort_key xf_Timestamp xfers) ?h = (r, g')"
    using assms(1,4) by (simp add: Reload_def loadFromDBAlreadyLocked_def Let_def)
  moreover have "list_all (\<lambda>x. gov_msgsSeen ?h (xf_Hash x) \<noteq> None) (sort_key xf_Timestamp xfers)"
    using assms(3) by (simp add: list_all_iff)
  ultimately obtain s' where "g' = ?h\<lparr>gov_db := s'\<rparr>"
    using load_transfers_seen by blast
  then show ?thesis
    by (simp add: pending_of_def transfers_of_def clear_chain_def split: option.split)
qed

section \<open>Restarting\<close>

text \<open>The governor that a restart builds has the configured chains and knows nothing else.\<close>

definition entry_of :: "crypto \<Rightarrow> PendingTransfer \<Rightarrow> pendingEntry \<Rightarrow> bool" where
  "entry_of C p pe \<longleftrightarrow> (\<exists>h. DecodeTransferPayloadHdr (mp_Payload (pt_Msg p)) = Inr h \<and>
     pe = \<lparr>pe_token = payload_token h, pe_amount = int (tph_Amount h), pe_hash = HashFromMsg C (pt_Msg p), pe_dbData = p\<rparr>)"

definition governed_pending :: "'s ChainGovernor \<Rightarrow> PendingTransfer \<Rightarrow> bool" where
  "governed_pending g p \<longleftrightarrow> (\<exists>ce h. gov_chains g (mp_EmitterChain (pt_Msg p)) = Some ce \<and>
     mp_EmitterAddress (pt_Msg p) = ce_emitterAddr ce \<and>
     DecodeTransferPayloadHdr (mp_Payload (pt_Msg p)) = Inr h \<and> gov_tokens g (payload_token h) \<noteq> None)"

definition governed_transfer :: "time \<Rightarrow> 's ChainGovernor \<Rightarrow> Transfer \<Rightarrow> bool" where
  "governed_transfer st g x \<longleftrightarrow> (\<exists>ce. gov_chains g (xf_EmitterChain x) = Some ce \<and>
     xf_EmitterAddress x = ce_emitterAddr ce \<and>
     gov_tokens g \<lparr>tk_chain = xf_OriginChain x, tk_addr = xf_OriginAddress x\<rparr> \<noteq> None \<and>
     st < xf_Timestamp x \<and> unat (xf_Value x) < 2 ^ 63 \<and> xf_Hash x \<noteq> [])"

lemma governed_same:
  assumes "same_config g g'"
  shows "governed_pending g' p = governed_pending g p" "governed_transfer st g' x = governed_transfer st g x"
proof -
  have tokens: "gov_tokens g' = gov_tokens g"
    using assms by (simp add: same_config_def)
  have addr: "(\<exists>ce. gov_chains g' c = Some ce \<and> a = ce_emitterAddr ce) \<longleftrightarrow>
      (\<exists>ce. gov_chains g c = Some ce \<and> a = ce_emitterAddr ce)" for c a
    using same_config_entry(2,3) [OF assms] static_eq(2) by metis
  show "governed_pending g' p = governed_pending g p" "governed_transfer st g' x = governed_transfer st g x"
    using addr [of "mp_EmitterChain (pt_Msg p)" "mp_EmitterAddress (pt_Msg p)"]
      addr [of "xf_EmitterChain x" "xf_EmitterAddress x"]
    unfolding governed_pending_def governed_transfer_def tokens by blast+
qed

lemma reloadPendingTransfer_new:
  assumes "governed_pending g p" and "gov_msgsSeen g (HashFromMsg C (pt_Msg p)) = None"
  shows "\<exists>pe. entry_of C p pe \<and> reloadPendingTransfer C p g =
    set_seen (HashFromMsg C (pt_Msg p)) transferEnqueued (append_pending (mp_EmitterChain (pt_Msg p)) pe g)"
proof -
  obtain ce h token where "gov_chains g (mp_EmitterChain (pt_Msg p)) = Some ce"
    "mp_EmitterAddress (pt_Msg p) = ce_emitterAddr ce"
    "DecodeTransferPayloadHdr (mp_Payload (pt_Msg p)) = Inr h" "gov_tokens g (payload_token h) = Some token"
    using assms(1) by (auto simp: governed_pending_def)
  with assms(2) show ?thesis
    by (simp add: reloadPendingTransfer_def entry_of_def Let_def)
qed

lemma fold_reload_new:
  "list_all (governed_pending g) ps \<Longrightarrow> distinct (map (\<lambda>p. HashFromMsg C (pt_Msg p)) ps) \<Longrightarrow>
   \<forall>p \<in> set ps. gov_msgsSeen g (HashFromMsg C (pt_Msg p)) = None \<Longrightarrow>
   g' = fold (reloadPendingTransfer C) ps g \<Longrightarrow>
   same_config g g' \<and> (\<forall>c. transfers_of c g' = transfers_of c g) \<and>
   (\<forall>c. \<exists>new. pending_of c g' = pending_of c g @ new \<and>
      list_all2 (entry_of C) (filter (\<lambda>p. mp_EmitterChain (pt_Msg p) = c) ps) new) \<and>
   (\<forall>h. gov_msgsSeen g' h = (if h \<in> (\<lambda>p. HashFromMsg C (pt_Msg p)) ` set ps then Some False else gov_msgsSeen g h))"
proof (induction ps arbitrary: g)
  case Nil
  then show ?case by simp
next
  case (Cons p ps)
  let ?hash = "HashFromMsg C (pt_Msg p)" and ?c = "mp_EmitterChain (pt_Msg p)"
  obtain pe where pe: "entry_of C p pe"
    and r: "reloadPendingTransfer C p g = set_seen ?hash transferEnqueued (append_pending ?c pe g)"
    using reloadPendingTransfer_new [of g p C] Cons.prems by auto
  define h where "h = set_seen ?hash transferEnqueued (append_pending ?c pe g)"
  have ce: "gov_chains g ?c \<noteq> None"
    using Cons.prems(1) by (auto simp: governed_pending_def)
  have h: "same_config g h" "\<And>c. transfers_of c h = transfers_of c g"
    "\<And>c. pending_of c h = pending_of c g @ (if c = ?c then [pe] else [])"
    "gov_msgsSeen h = (gov_msgsSeen g)(?hash \<mapsto> False)"
    using ce by (simp_all add: h_def append_pending_def set_seen_def transferEnqueued_def)
  have IH: "same_config h g' \<and> (\<forall>c. transfers_of c g' = transfers_of c h) \<and>
     (\<forall>c. \<exists>new. pending_of c g' = pending_of c h @ new \<and>
        list_all2 (entry_of C) (filter (\<lambda>p. mp_EmitterChain (pt_Msg p) = c) ps) new) \<and>
     (\<forall>k. gov_msgsSeen g' k = (if k \<in> (\<lambda>p. HashFromMsg C (pt_Msg p)) ` set ps then Some False else gov_msgsSeen h k))"
  proof (rule Cons.IH)
    show "list_all (governed_pending h) ps"
      using Cons.prems(1) governed_same(1) [OF h(1)] by (simp add: list_all_iff)
    show "distinct (map (\<lambda>p. HashFromMsg C (pt_Msg p)) ps)"
      using Cons.prems(2) by simp
    show "\<forall>p \<in> set ps. gov_msgsSeen h (HashFromMsg C (pt_Msg p)) = None"
      using Cons.prems(2,3) by (auto simp: h(4) image_iff)
    show "g' = fold (reloadPendingTransfer C) ps h"
      using Cons.prems(4) by (simp add: r h_def)
  qed
  have "\<exists>new. pending_of c g' = pending_of c g @ new \<and>
      list_all2 (entry_of C) (filter (\<lambda>p. mp_EmitterChain (pt_Msg p) = c) (p # ps)) new" for c
  proof -
    obtain new where "pending_of c g' = pending_of c h @ new"
      "list_all2 (entry_of C) (filter (\<lambda>p. mp_EmitterChain (pt_Msg p) = c) ps) new"
      using IH by blast
    with pe h(3) [of c] show ?thesis
      by (intro exI [of _ "(if c = ?c then [pe] else []) @ new"]) auto
  qed
  then show ?case
    using IH h(1,2,4) same_config_trans by (auto simp: image_iff)
qed

lemma reloadTransfer_new:
  assumes "governed_transfer st g x" and "gov_msgsSeen g (xf_Hash x) = None" and "\<not> gov_flowCancelEnabled g"
  shows "reloadTransfer x g = (Inr (), put_transfers (xf_EmitterChain x)
    (transfers_of (xf_EmitterChain x) g @ [\<lparr>tr_dbTransfer = x, tr_value = xf_Value x\<rparr>])
    (set_seen (xf_Hash x) transferComplete g))"
proof -
  obtain ce token where "gov_chains g (xf_EmitterChain x) = Some ce" "xf_EmitterAddress x = ce_emitterAddr ce"
    "gov_tokens g \<lparr>tk_chain = xf_OriginChain x, tk_addr = xf_OriginAddress x\<rparr> = Some token"
    "unat (xf_Value x) < 2 ^ 63" "xf_Hash x \<noteq> []"
    using assms(1) by (auto simp: governed_transfer_def)
  with assms(2,3) show ?thesis
    by (simp add: reloadTransfer_def Let_def newTransferFromDbTransfer_def set_seen_def)
qed

lemma load_transfers_new:
  "list_all (governed_transfer st g) xs \<Longrightarrow> distinct (map xf_Hash xs) \<Longrightarrow>
   \<forall>x \<in> set xs. gov_msgsSeen g (xf_Hash x) = None \<Longrightarrow> \<not> gov_flowCancelEnabled g \<Longrightarrow>
   load_transfers B st xs g = (r, g') \<Longrightarrow>
   r = Inr () \<and> same_config g g' \<and> same_pending g g' \<and>
   (\<forall>c. transfers_of c g' = transfers_of c g @
      map (\<lambda>x. \<lparr>tr_dbTransfer = x, tr_value = xf_Value x\<rparr>) (filter (\<lambda>x. xf_EmitterChain x = c) xs)) \<and>
   (\<forall>h. gov_msgsSeen g' h = (if h \<in> xf_Hash ` set xs then Some True else gov_msgsSeen g h))"
proof (induction xs arbitrary: g)
  case Nil
  then show ?case by simp
next
  case (Cons x xs)
  let ?c = "xf_EmitterChain x" and ?t = "\<lambda>x. \<lparr>tr_dbTransfer = x, tr_value = xf_Value x\<rparr>"
  define h where "h = put_transfers ?c (transfers_of ?c g @ [?t x]) (set_seen (xf_Hash x) transferComplete g)"
  have x: "st < xf_Timestamp x" "gov_chains g ?c \<noteq> None"
    using Cons.prems(1) by (auto simp: governed_transfer_def)
  have "reloadTransfer x g = (Inr (), h)"
    using Cons.prems reloadTransfer_new [of st g x] by (simp add: h_def)
  with x(1) Cons.prems(5) have rest: "load_transfers B st xs h = (r, g')"
    by simp
  have seen_chains: "gov_chains (set_seen k b g) = gov_chains g" for k b
    by (simp add: set_seen_def)
  have h: "same_config g h" "same_pending g h" "gov_msgsSeen h = (gov_msgsSeen g)(xf_Hash x \<mapsto> True)"
    "\<And>c. transfers_of c h = transfers_of c g @ (if c = ?c then [?t x] else [])" "\<not> gov_flowCancelEnabled h"
    using x(2) Cons.prems(4) by (simp_all add: h_def seen_chains transferComplete_def) (simp_all add: set_seen_def)
  have "r = Inr () \<and> same_config h g' \<and> same_pending h g' \<and>
     (\<forall>c. transfers_of c g' = transfers_of c h @ map ?t (filter (\<lambda>x. xf_EmitterChain x = c) xs)) \<and>
     (\<forall>k. gov_msgsSeen g' k = (if k \<in> xf_Hash ` set xs then Some True else gov_msgsSeen h k))"
  proof (rule Cons.IH [OF _ _ _ h(5) rest])
    show "list_all (governed_transfer st h) xs"
      using Cons.prems(1) governed_same(2) [OF h(1)] by (simp add: list_all_iff)
    show "distinct (map xf_Hash xs)"
      using Cons.prems(2) by simp
    show "\<forall>y \<in> set xs. gov_msgsSeen h (xf_Hash y) = None"
      using Cons.prems(2,3) by (auto simp: h(3) image_iff)
  qed
  then show ?case
    using h same_config_trans same_pending_trans by (auto simp: image_iff)
qed


section \<open>A database with one pending message\<close>

definition sample_record :: PendingTransfer where
  "sample_record = \<lparr>pt_ReleaseTime = 5000000000, pt_Msg = transfer_msg 600\<rparr>"

definition sample_badger :: "unit badger" where
  "sample_badger = toy_badger\<lparr>bg_Items := \<lambda>_. [(PendingMsgID (transfer_msg 600), fst (PendingTransfer_Marshal sample_record))]\<rparr>"

lemma key_tagged_id: "minMsgIdLen \<le> length i \<Longrightarrow> key_tagged tag (bytes_of (tag @ i))"
  by (simp add: key_tagged_def)

lemma sample_key_tagged: "IsPendingMsg (PendingMsgID (transfer_msg 600))"
proof -
  have "length (Address_String (mp_EmitterAddress (transfer_msg 600))) = 64"
    by (simp add: Address_String_def)
  moreover have "0 < length (dec_string n)" for n
    by simp
  from this [of "unat (mp_EmitterChain (transfer_msg 600))"] this [of "unat (mp_Sequence (transfer_msg 600))"]
  have "2 \<le> length (dec_string (unat (mp_EmitterChain (transfer_msg 600)))) +
      length (dec_string (unat (mp_Sequence (transfer_msg 600))))"
    by linarith
  ultimately have "68 \<le> length (MessageIDString (transfer_msg 600))"
    by (simp add: MessageIDString_def)
  then show ?thesis
    unfolding IsPendingMsg_def PendingMsgID_def by (intro key_tagged_id) (simp add: minMsgIdLen_def)
qed

lemma sample_GetChainGovernorData:
  "GetChainGovernorData sample_badger () = (Inr ([], [sample_record]), ())"
proof -
  have "wf_msg (transfer_msg 600)" "secs_time 5000000000" "stored_msg (transfer_msg 600) = transfer_msg 600"
    "mp_TxID (transfer_msg 600) = replicate 32 7"
    by (simp_all add: wf_msg_def transfer_msg_def sample_msg_def secs_time_def stored_msg_def empty_msg_def)
  moreover have "length (mp_Payload (transfer_msg 600)) = 101"
    using length_put_transfer_hdr [of "sample_hdr 600"] by (simp add: transfer_msg_def)
  then have "mp_Payload (transfer_msg 600) \<noteq> []" "length (mp_Payload (transfer_msg 600)) = 101"
    by auto
  ultimately have "UnmarshalPendingTransfer (fst (PendingTransfer_Marshal sample_record)) False = Inr sample_record"
    using pending_transfer_load [of sample_record sample_record] by (simp add: sample_record_def)
  with sample_key_tagged show ?thesis
    by (simp add: GetChainGovernorData_def sample_badger_def toy_badger_def load_item_def convert_pending_def convert_transfers_def)
qed

theorem Reload_forgets_witness:
  "\<exists>r g'. Reload toy_crypto sample_badger 10 (set_seen (HashFromMsg toy_crypto (transfer_msg 600)) transferEnqueued
      (sample_gov [sample_pending 5])) = (r, g') \<and> pending_of 2 g' = []"
proof -
  let ?g = "set_seen (HashFromMsg toy_crypto (transfer_msg 600)) transferEnqueued (sample_gov [sample_pending 5]) :: unit ChainGovernor"
  obtain r g' where r: "Reload toy_crypto sample_badger 10 ?g = (r, g')"
    by (cases "Reload toy_crypto sample_badger 10 ?g")
  have "gov_db ?g = ()" and seen: "gov_msgsSeen ?g (HashFromMsg toy_crypto (transfer_msg 600)) \<noteq> None"
    by (simp_all add: set_seen_def)
  then have "GetChainGovernorData sample_badger (gov_db ?g) = (Inr ([], [sample_record]), ())"
    using sample_GetChainGovernorData by simp
  from Reload_forgets [OF this _ _ r] seen r show ?thesis
    by (simp add: sample_record_def)
qed


section \<open>Usage and capacity\<close>

lemma sum_value_loop_exact:
  "sum_value_loop st net out cancel ts = Inr (v, a, b) \<Longrightarrow> sint v = sint net + window_sum st ts"
proof (induction ts arbitrary: net out cancel)
  case (Cons t ts)
  then show ?case
    by (cases "xf_Timestamp (tr_dbTransfer t) < st")
      (auto simp: chk_eq_Inr in_window_def CheckedAddInt64_eq split: if_splits dest!: Cons.IH)
qed simp

text \<open>
  The capacity that the governor reports is exact: when the transfers of a chain can be
  summed, the remaining value of the chain is its limit less the net value of the transfers of
  the last day, between 0 and the limit.
\<close>

lemma remaining_exact:
  assumes "gov_chains g cid = Some ce" and "sumValue (ce_transfers ce) st = Inr (net, out, cancel)"
  shows "uint (remaining_of st cid g) =
    max 0 (uint (ce_dailyLimit ce) - max 0 (window_sum st (ce_transfers ce)))"
proof -
  have net: "sint net = window_sum st (ce_transfers ce)"
    using assms(2) sum_value_loop_exact [of st 0 0 0 "ce_transfers ce" net out cancel]
    by (auto simp: sumValue_def split: if_splits)
  have rem: "remaining_of st cid g = (if sint net < 0 then ce_dailyLimit ce
      else if ce_dailyLimit ce < net then 0 else ce_dailyLimit ce - net)"
    using assms by (simp add: remaining_of_def transfers_of_def availableNotionalValue_def)
  show ?thesis
  proof (cases "sint net < 0")
    case True
    then show ?thesis
      by (simp add: rem net [symmetric])
  next
    case False
    then have "uint net = sint net"
      using sint_uint_cases [of net] by (auto split: if_splits)
    then show ?thesis
      using False net uint_minus_simple_alt [of net "ce_dailyLimit ce"]
      by (auto simp: rem word_less_def not_less word_le_def)
  qed
qed

theorem remaining_exact_witness:
  "uint (remaining_of 0 2 (sample_gov [] :: unit ChainGovernor)) = 1000"
proof -
  have "gov_chains (sample_gov [] :: unit ChainGovernor) 2 = Some sample_entry"
    by (simp add: sample_gov_def sample_entry_def)
  moreover have "sumValue (ce_transfers sample_entry) 0 = Inr (0, 0, 0)"
    by (simp add: sumValue_def sample_entry_def)
  ultimately show ?thesis
    using remaining_exact [of "sample_gov []" 2 sample_entry 0 0 0 0] by (simp add: sample_entry_def)
qed

section \<open>Flow cancelling and the limit\<close>

text \<open>
  A chain that received 500 at hour 0, sent 1000 at hour 1 and 500 at hour 2, each of which its
  limit of 1000 allowed.
\<close>

definition hour :: time where "hour = 60 * minute"

definition flow_transfer :: "time \<Rightarrow> 64 word \<Rightarrow> 64 word \<Rightarrow> transfer" where
  "flow_transfer t amount v = \<lparr>tr_dbTransfer = db_transfer t amount sample_key (transfer_msg 1) (sample_hdr 1) ''00'',
     tr_value = v\<rparr>"

definition flow_gov :: "transfer list \<Rightarrow> unit ChainGovernor" where
  "flow_gov ts = (sample_gov [])\<lparr>gov_flowCancelEnabled := True, gov_chains := [2 \<mapsto> sample_entry\<lparr>ce_transfers := ts\<rparr>]\<rparr>"

lemma flow_sum:
  assumes "sum_loop st 0 (- 1) 0 ts = Inr (- 1, v)" and "0 < sint v" and "ts \<noteq> []"
  shows "fst (TrimAndSumValueForChain toy_badger 2 st (flow_gov ts)) = (v, None)"
  using assms by (simp add: TrimAndSumValueForChain_def TrimAndSumValue_def flow_gov_def Let_def)

text \<open>
  With flow cancelling the usage of a chain can exceed its limit without any transfer: after 500
  came in, 1000 and 500 went out within the limit of 1000, and when the incoming transfer is
  a day old and no longer counted, the usage is 1500.
\<close>

lemma flow_cancel_exceeds_limit:
  "let ts = [flow_transfer 0 500 (- 500), flow_transfer hour 1000 1000];
       g1 = flow_gov ts; g2 = flow_gov (ts @ [flow_transfer (2 * hour) 500 500]) in
   fst (TrimAndSumValueForChain toy_badger 2 (start_time (2 * hour) g1) g1) = (500, None) \<and>
   500 + 500 \<le> ce_dailyLimit sample_entry \<and>
   fst (TrimAndSumValueForChain toy_badger 2 (start_time (24 * hour) g2) g2) = (1000, None) \<and>
   fst (TrimAndSumValueForChain toy_badger 2 (start_time (24 * hour + 1) g2) g2) = (1500, None) \<and>
   ce_dailyLimit sample_entry < 1500"
proof -
  let ?ts = "[flow_transfer 0 500 (- 500), flow_transfer hour 1000 1000]"
  let ?us = "?ts @ [flow_transfer (2 * hour) 500 500]"
  have st: "start_time t (flow_gov us) = t - 24 * hour" for t us
    by (simp add: start_time_def flow_gov_def sample_gov_def hour_def)
  have time: "xf_Timestamp (tr_dbTransfer (flow_transfer t a v)) = t" "tr_value (flow_transfer t a v) = v" for t a v
    by (simp_all add: flow_transfer_def db_transfer_def)
  have h: "0 < hour"
    by (simp add: hour_def minute_def)
  have "fst (TrimAndSumValueForChain toy_badger 2 (start_time (2 * hour) (flow_gov ?ts)) (flow_gov ?ts)) = (500, None)"
    by (rule flow_sum) (use h in \<open>simp_all add: st time CheckedAddInt64_def\<close>)
  moreover have "fst (TrimAndSumValueForChain toy_badger 2 (start_time (24 * hour) (flow_gov ?us)) (flow_gov ?us)) = (1000, None)"
    by (rule flow_sum) (use h in \<open>simp_all add: st time CheckedAddInt64_def\<close>)
  moreover have "fst (TrimAndSumValueForChain toy_badger 2 (start_time (24 * hour + 1) (flow_gov ?us)) (flow_gov ?us)) = (1500, None)"
    using h unfolding st by (simp add: TrimAndSumValueForChain_def TrimAndSumValue_def time CheckedAddInt64_def
        flow_gov_def Let_def DeleteTransfer_def toy_badger_def update_err_def put_transfers_def)
  ultimately show ?thesis
    by (simp add: Let_def sample_entry_def)
qed

end
