(* ===== verification/VaaDb.thy ===== *)
theory VaaDb imports GovernorDb begin

text \<open>
  The store of signed VAAs: node/pkg/db/db.go. Identifiers and keys, storing and finding VAAs in the
  Badger database, and the search for gaps in the sequence numbers of an emitter. The database
  is the parameter badger; a write batch is the list of its entries, and the results of setting an
  entry of a batch and of flushing it are parameters as well.
\<close>

record VAAID =
  id_EmitterChain :: ChainID
  id_EmitterAddress :: Address
  id_Sequence :: "64 word"

definition VaaIDFromString :: "string \<Rightarrow> go_error + VAAID" where
  "VaaIDFromString s =
     (let parts = split_on CHR ''/'' s in
      if length parts \<noteq> 3 then Inl (Errorf ''invalid message id'')
      else
        chk (or_err (Errorf ''invalid emitter chain'') (parse_uint 16 (parts ! 0))) (\<lambda>emitterChain.
        chk (or_err (Errorf ''invalid emitter address'') (StringToAddress (parts ! 1))) (\<lambda>emitterAddress.
        chk (or_err (Errorf ''invalid sequence'') (parse_uint 64 (parts ! 2))) (\<lambda>sequence.
        Inr \<lparr>id_EmitterChain = word_of_nat emitterChain, id_EmitterAddress = emitterAddress,
             id_Sequence = word_of_nat sequence\<rparr>))))"

definition VaaIDFromVAA :: "VAA \<Rightarrow> VAAID" where
  "VaaIDFromVAA v = \<lparr>id_EmitterChain = vaa_EmitterChain v, id_EmitterAddress = vaa_EmitterAddress v,
     id_Sequence = vaa_Sequence v\<rparr>"

definition nullAddr :: Address where "nullAddr = replicate 32 0"

definition VAAID_String :: "VAAID \<Rightarrow> string" where
  "VAAID_String i = dec_string (unat (id_EmitterChain i)) @ CHR ''/'' #
     Address_String (id_EmitterAddress i) @ CHR ''/'' # dec_string (unat (id_Sequence i))"

definition VAAID_Bytes :: "VAAID \<Rightarrow> byte list" where
  "VAAID_Bytes i = bytes_of (''signed/'' @ VAAID_String i)"

definition EmitterPrefixBytes :: "VAAID \<Rightarrow> byte list" where
  "EmitterPrefixBytes i =
     (if id_EmitterAddress i = nullAddr then bytes_of (''signed/'' @ dec_string (unat (id_EmitterChain i)))
      else bytes_of (''signed/'' @ dec_string (unat (id_EmitterChain i)) @ CHR ''/'' # Address_String (id_EmitterAddress i)))"

section \<open>Storing and finding\<close>

definition StoreSignedVAA :: "'s badger \<Rightarrow> VAA \<Rightarrow> 's \<Rightarrow> (unit, 's) db_result" where
  "StoreSignedVAA B v s =
     (if length (vaa_Signatures v) = 0 then (Inl (Panic ''StoreSignedVAA called for unsigned VAA''), s)
      else case VAA_Marshal v of
        Inl _ \<Rightarrow> update_err ''failed to commit tx'' (bg_Set B (VAAID_Bytes (VaaIDFromVAA v)) [] s)
      | Inr b \<Rightarrow> update_err ''failed to commit tx'' (bg_Set B (VAAID_Bytes (VaaIDFromVAA v)) b s))"

record 's write_batch =
  wb_Set :: "(byte list \<times> byte list) list \<Rightarrow> byte list \<Rightarrow> byte list \<Rightarrow> go_error option"
  wb_Flush :: "(byte list \<times> byte list) list \<Rightarrow> 's \<Rightarrow> go_error option \<times> 's"

fun batch_loop :: "'s write_batch \<Rightarrow> VAA list \<Rightarrow> (byte list \<times> byte list) list \<Rightarrow> go_error + (byte list \<times> byte list) list" where
  "batch_loop W [] batch = Inr batch"
| "batch_loop W (v # vs) batch =
     (if length (vaa_Signatures v) = 0 then Inl (Panic ''StoreSignedVAABatch called for unsigned VAA'')
      else case VAA_Marshal v of
        Inl _ \<Rightarrow> Inl (Panic ''StoreSignedVAABatch failed to marshal VAA'')
      | Inr b \<Rightarrow>
          (case wb_Set W batch (VAAID_Bytes (VaaIDFromVAA v)) b of
             Some e \<Rightarrow> Inl e
           | None \<Rightarrow> batch_loop W vs (batch @ [(VAAID_Bytes (VaaIDFromVAA v), b)])))"

definition StoreSignedVAABatch :: "'s write_batch \<Rightarrow> VAA list \<Rightarrow> 's \<Rightarrow> (unit, 's) db_result" where
  "StoreSignedVAABatch W vaaBatch s =
     (case batch_loop W vaaBatch [] of
        Inl e \<Rightarrow> (Inl e, s)
      | Inr batch \<Rightarrow> (case wb_Flush W batch s of (None, s) \<Rightarrow> (Inr (), s) | (Some e, s) \<Rightarrow> (Inl e, s)))"

definition HasVAA :: "'s badger \<Rightarrow> VAAID \<Rightarrow> 's \<Rightarrow> go_error + bool" where
  "HasVAA B i s = (case bg_Get B (VAAID_Bytes i) s of
     Inl e \<Rightarrow> Inl e | Inr None \<Rightarrow> Inr False | Inr (Some _) \<Rightarrow> Inr True)"

definition ErrVAANotFound :: go_error where
  "ErrVAANotFound = Errorf ''requested VAA not found in store''"

definition GetSignedVAABytes :: "'s badger \<Rightarrow> VAAID \<Rightarrow> 's \<Rightarrow> go_error + byte list" where
  "GetSignedVAABytes B i s = (case bg_Get B (VAAID_Bytes i) s of
     Inl e \<Rightarrow> Inl e | Inr None \<Rightarrow> Inl ErrVAANotFound | Inr (Some b) \<Rightarrow> Inr b)"

section \<open>Gaps\<close>

text \<open>
  The keys are iterated in the order of their bytes: Seek goes to the first that is not below the
  prefix, and ValidForPrefix ends the loop at the first that does not have it.
\<close>

fun bytes_less :: "byte list \<Rightarrow> byte list \<Rightarrow> bool" where
  "bytes_less a [] = False"
| "bytes_less [] (b # bs) = True"
| "bytes_less (a # as) (b # bs) = (a < b \<or> a = b \<and> bytes_less as bs)"

definition seek :: "byte list \<Rightarrow> (byte list \<times> byte list) list \<Rightarrow> (byte list \<times> byte list) list" where
  "seek pfx items = takeWhile (\<lambda>kv. has_prefix pfx (fst kv)) (dropWhile (\<lambda>kv. bytes_less (fst kv) pfx) items)"

text \<open>The sequences of the VAAs found.\<close>

fun collect_seqs :: "(byte list \<times> byte list) list \<Rightarrow> go_error + 64 word list" where
  "collect_seqs [] = Inr []"
| "collect_seqs ((key, val) # items) =
     (case VAA_Unmarshal val of
        Inl e \<Rightarrow> Inl (Errorf ''failed to unmarshal VAA'')
      | Inr v \<Rightarrow> chk (collect_seqs items) (\<lambda>seqs. Inr (vaa_Sequence v # seqs)))"

text \<open>The loop that looks for the least and the greatest sequence; first is a variable of the code.\<close>

fun min_max :: "bool \<Rightarrow> 64 word \<Rightarrow> 64 word \<Rightarrow> 64 word list \<Rightarrow> 64 word \<times> 64 word" where
  "min_max first firstSeq lastSeq [] = (firstSeq, lastSeq)"
| "min_max first firstSeq lastSeq (k # ks) =
     (let firstSeq = (if first then k else firstSeq);
          firstSeq = (if k < firstSeq then k else firstSeq);
          lastSeq = (if lastSeq < k then k else lastSeq)
      in min_max False firstSeq lastSeq ks)"

text \<open>\<open>for i := firstSeq; i <= lastSeq; i++\<close> on uint64 need not end: None is a run that does not.\<close>

partial_function (option) gap_loop :: "64 word set \<Rightarrow> 64 word \<Rightarrow> 64 word \<Rightarrow> 64 word list \<Rightarrow> 64 word list option" where
  "gap_loop seqs lastSeq i resp =
     (if i \<le> lastSeq then gap_loop seqs lastSeq (i + 1) (if i \<in> seqs then resp else resp @ [i])
      else Some resp)"

definition FindEmitterSequenceGap :: "'s badger \<Rightarrow> VAAID \<Rightarrow> 's \<Rightarrow>
    (go_error + (64 word list \<times> 64 word \<times> 64 word)) option" where
  "FindEmitterSequenceGap B i s =
     (case collect_seqs (seek (EmitterPrefixBytes i) (bg_Items B s)) of
        Inl e \<Rightarrow> Some (Inl e)
      | Inr seqs \<Rightarrow>
          (case min_max False 0 0 seqs of (firstSeq, lastSeq) \<Rightarrow>
             map_option (\<lambda>resp. Inr (resp, firstSeq, lastSeq)) (gap_loop (set seqs) lastSeq firstSeq [])))"

section \<open>Identifiers\<close>

lemma VAAID_Bytes_inj:
  "VAAID_Bytes i = VAAID_Bytes j \<longleftrightarrow> i = j"
proof
  assume "VAAID_Bytes i = VAAID_Bytes j"
  then have "string_of (VAAID_Bytes i) = string_of (VAAID_Bytes j)"
    by (rule arg_cong)
  then have "VAAID_String i = VAAID_String j"
    unfolding VAAID_Bytes_def string_of_bytes_of by simp
  then have "split_on CHR ''/'' (VAAID_String i) = split_on CHR ''/'' (VAAID_String j)"
    by (rule arg_cong)
  then show "i = j"
    by (cases i; cases j) (simp add: VAAID_String_def Address_String_def split_message_id dec_string_inj hex_encode_inj unat_cancel)
qed simp

lemma VaaIDFromString_String:
  assumes "length (id_EmitterAddress i) = 32"
  shows "VaaIDFromString (VAAID_String i) = Inr i"
proof (cases i)
  case (fields c a q)
  have a: "StringToAddress (hex_encode a) = Inr a"
    using StringToAddress_String [of a] assms fields by (simp add: Address_String_def)
  have u: "parse_uint 16 (dec_string (unat c)) = Inr (unat c)" "parse_uint 64 (dec_string (unat q)) = Inr (unat q)"
    using unsigned_less [of c, where 'a = nat] unsigned_less [of q, where 'a = nat]
    by (auto intro!: parse_uint_dec_string)
  show ?thesis
    by (simp add: fields VaaIDFromString_def VAAID_String_def Address_String_def split_message_id Let_def a u)
qed

text \<open>
  The textual form of an identifier is read back, and two identifiers have the same key in the
  database only if they are equal.
\<close>

lemma VaaID_roundtrip:
  assumes "length (id_EmitterAddress i) = 32"
  shows "VaaIDFromString (VAAID_String i) = Inr i \<and> (VAAID_Bytes i = VAAID_Bytes j \<longleftrightarrow> i = j)"
  using VaaIDFromString_String [OF assms] VAAID_Bytes_inj by blast

theorem VaaID_roundtrip_witness:
  "VaaIDFromString (VAAID_String \<lparr>id_EmitterChain = 2, id_EmitterAddress = replicate 32 5, id_Sequence = 7\<rparr>) =
     Inr \<lparr>id_EmitterChain = 2, id_EmitterAddress = replicate 32 5, id_Sequence = 7\<rparr>"
  using VaaID_roundtrip [of "\<lparr>id_EmitterChain = 2, id_EmitterAddress = replicate 32 5, id_Sequence = 7\<rparr>"] by simp

text \<open>
  What the database promises: after a transaction that set a key, a lookup finds its value and
  every other key has the entry it had.
\<close>

definition set_then_get :: "'s badger \<Rightarrow> bool" where
  "set_then_get B \<longleftrightarrow> (\<forall>k v s s'. bg_Set B k v s = (None, s') \<longrightarrow>
     bg_Get B k s' = Inr (Some v) \<and> (\<forall>k'. k' \<noteq> k \<longrightarrow> bg_Get B k' s' = bg_Get B k' s))"

text \<open>
  C32. A stored VAA is found under its own identifier and decodes to itself, signatures included,
  and storing it changes no other VAA.
\<close>

theorem StoreSignedVAA_found:
  assumes "set_then_get B" and "wf_VAA v" and "StoreSignedVAA B v s = (Inr (), s')"
  shows "\<exists>b. GetSignedVAABytes B (VaaIDFromVAA v) s' = Inr b \<and> VAA_Unmarshal b = Inr v \<and>
    HasVAA B (VaaIDFromVAA v) s' = Inr True \<and>
    (i = VaaIDFromVAA v \<or> GetSignedVAABytes B i s' = GetSignedVAABytes B i s)"
proof -
  obtain b where b: "VAA_Marshal v = Inr b" "bg_Set B (VAAID_Bytes (VaaIDFromVAA v)) b s = (None, s')"
    using assms(3) by (auto simp: StoreSignedVAA_def VAA_Marshal_def split: if_splits)
  then have g: "bg_Get B (VAAID_Bytes (VaaIDFromVAA v)) s' = Inr (Some b)"
    "\<And>k. k \<noteq> VAAID_Bytes (VaaIDFromVAA v) \<Longrightarrow> bg_Get B k s' = bg_Get B k s"
    using assms(1) unfolding set_then_get_def by blast+
  have "VAA_Unmarshal b = Inr v"
    using VAA_Unmarshal_Marshal [OF assms(2) b(1)] .
  moreover have "i = VaaIDFromVAA v \<or> bg_Get B (VAAID_Bytes i) s' = bg_Get B (VAAID_Bytes i) s"
    using g(2) VAAID_Bytes_inj by blast
  ultimately show ?thesis
    using g(1) by (auto simp: GetSignedVAABytes_def HasVAA_def)
qed

text \<open>A database held in memory.\<close>

definition map_badger :: "(byte list \<rightharpoonup> byte list) badger" where
  "map_badger = \<lparr>bg_Set = \<lambda>k v s. (None, s(k \<mapsto> v)), bg_Delete = \<lambda>k s. (None, s(k := None)),
     bg_Get = \<lambda>k s. Inr (s k), bg_Items = \<lambda>_. []\<rparr>"

theorem StoreSignedVAA_found_witness:
  "\<exists>s' b. StoreSignedVAA map_badger (toy_vaa [1] [0, 1, 2]) Map.empty = (Inr (), s') \<and>
     GetSignedVAABytes map_badger (VaaIDFromVAA (toy_vaa [1] [0, 1, 2])) s' = Inr b \<and>
     VAA_Unmarshal b = Inr (toy_vaa [1] [0, 1, 2])"
proof -
  let ?v = "toy_vaa [1] [0, 1, 2]"
  have laws: "set_then_get map_badger"
    by (simp add: set_then_get_def map_badger_def)
  have wf: "wf_VAA ?v"
    by (simp add: wf_VAA_def toy_vaa_def empty_VAA_def SupportedVAAVersion_def wf_Signature_def secs_time_def)
  obtain s' where s': "StoreSignedVAA map_badger ?v Map.empty = (Inr (), s')"
    by (auto simp: StoreSignedVAA_def toy_vaa_def VAA_Marshal_def map_badger_def update_err_def)
  from StoreSignedVAA_found [OF laws wf s', of "VaaIDFromVAA ?v"] s' show ?thesis
    by blast
qed

section \<open>Finding the gaps\<close>

lemma min_max_False: "min_max False 0 l ks = (0, fold max ks l)"
  by (induction ks arbitrary: l) (auto simp: Let_def max_def word_not_simps)

lemma gap_loop_Some:
  assumes "gap_loop seqs l i resp = Some r"
  shows "l \<noteq> - 1"
  by (rule gap_loop.raw_induct [of "\<lambda>_ l _ _ _. l \<noteq> - 1", OF _ assms]) (auto split: if_splits)

lemma gap_loop_result:
  "unat l < 2 ^ 64 - 1 \<Longrightarrow>
     gap_loop seqs l i resp = Some (resp @ filter (\<lambda>k. k \<notin> seqs) (map word_of_nat [unat i ..< Suc (unat l)]))"
proof (induction "Suc (unat l) - unat i" arbitrary: i resp rule: less_induct)
  case less
  show ?case
  proof (cases "i \<le> l")
    case False
    then have "[unat i ..< Suc (unat l)] = []"
      by (simp add: word_le_nat_alt)
    with False show ?thesis
      by (simp add: gap_loop.simps)
  next
    case True
    then have le: "unat i \<le> unat l"
      by (simp add: word_le_nat_alt)
    have "unat i + 1 < 2 ^ 64"
      using le less.prems by linarith
    then have s: "unat (i + 1) = Suc (unat i)"
      using unat_plus_if' [of i 1] by simp
    have "[unat i ..< Suc (unat l)] = unat i # [Suc (unat i) ..< Suc (unat l)]"
      using le by (simp add: upt_conv_Cons del: upt_Suc)
    with True s less.hyps [of "i + 1" "if i \<in> seqs then resp else resp @ [i]"] less.prems le show ?thesis
      by (simp add: gap_loop.simps [of seqs l i] del: upt_Suc)
  qed
qed

text \<open>
  The search for gaps lists the sequences that are missing between 0 and the greatest one found,
  in order, and reports 0 as the first one always. It does not end when a VAA with the
  greatest possible sequence is stored.
\<close>

lemma FindEmitterSequenceGap_result:
  assumes "collect_seqs (seek (EmitterPrefixBytes i) (bg_Items B s)) = Inr seqs"
  defines "m \<equiv> fold max seqs 0"
  shows "FindEmitterSequenceGap B i s =
    (if m = - 1 then None
     else Some (Inr (filter (\<lambda>k. k \<notin> set seqs) (map word_of_nat [0 ..< Suc (unat m)]), 0, m)))"
proof (cases "m = - 1")
  case True
  then have "gap_loop (set seqs) m 0 [] = None"
    using gap_loop_Some [of "set seqs" m 0 "[]"] by (cases "gap_loop (set seqs) m 0 []") auto
  with True assms(1) show ?thesis
    unfolding FindEmitterSequenceGap_def m_def by (simp add: min_max_False)
next
  case False
  have "unat (- 1 :: 64 word) = 2 ^ 64 - 1"
    by (simp add: unsigned_minus_1_eq_mask mask_eq_exp_minus_1)
  then have "unat m < 2 ^ 64" and "unat m \<noteq> 2 ^ 64 - 1"
    using unsigned_less [of m, where 'a = nat] unat_cancel [of m "- 1"] False by simp_all
  then have "unat m < 2 ^ 64 - 1"
    by linarith
  from gap_loop_result [OF this, of "set seqs" 0 "[]"] False assms(1) show ?thesis
    by (simp add: FindEmitterSequenceGap_def min_max_False m_def [symmetric] del: upt_Suc)
qed

theorem FindEmitterSequenceGap_result_witness:
  "FindEmitterSequenceGap \<lparr>bg_Set = \<lambda>_ _ s. (None, s), bg_Delete = \<lambda>_ s. (None, s), bg_Get = \<lambda>_ _. Inr None,
      bg_Items = \<lambda>_. []\<rparr> \<lparr>id_EmitterChain = 2, id_EmitterAddress = nullAddr, id_Sequence = 0\<rparr> () = Some (Inr ([0], 0, 0))"
  by (subst FindEmitterSequenceGap_result [where seqs = "[]"]) (simp_all add: seek_def)

end
