(* ===== verification/Emitters.thy ===== *)
theory Emitters imports Vaa begin

text \<open>
  The well-known emitters: sdk/mainnet_consts.go, sdk/testnet_consts.go and sdk/devnet_consts.go. The
  tables in source order with each ChainID constant replaced by its number, the maps built from them
  at start, and the lookup of the emitter of a chain. Go ranges over a map in any order; the list of
  emitters is therefore an argument where its order could matter.
\<close>

type_synonym EmitterType = byte

definition EmitterTypeUnset :: EmitterType where "EmitterTypeUnset = 0"
definition EmitterCoreBridge :: EmitterType where "EmitterCoreBridge = 1"
definition EmitterTokenBridge :: EmitterType where "EmitterTokenBridge = 2"
definition EmitterNFTBridge :: EmitterType where "EmitterNFTBridge = 3"

definition EmitterType_String :: "EmitterType \<Rightarrow> string" where
  "EmitterType_String et =
     (if et = EmitterTypeUnset then ''unset'' else if et = EmitterCoreBridge then ''Core''
      else if et = EmitterTokenBridge then ''TokenBridge'' else if et = EmitterNFTBridge then ''NFTBridge''
      else ''unknown emitter type: '' @ dec_string (unat et))"

record EmitterInfo =
  ei_ChainID :: ChainID
  ei_Emitter :: string
  ei_BridgeType :: EmitterType

definition buildKnownEmitters :: "(ChainID \<times> string) list \<Rightarrow> (ChainID \<times> string) list \<Rightarrow> EmitterInfo list" where
  "buildKnownEmitters tokenEmitters nftEmitters =
     map (\<lambda>(c, e). \<lparr>ei_ChainID = c, ei_Emitter = e, ei_BridgeType = EmitterTokenBridge\<rparr>) tokenEmitters @
     map (\<lambda>(c, e). \<lparr>ei_ChainID = c, ei_Emitter = e, ei_BridgeType = EmitterNFTBridge\<rparr>) nftEmitters"

fun buildEmitterMap :: "(ChainID \<times> string) list \<Rightarrow> go_error + (ChainID \<times> byte list) list" where
  "buildEmitterMap [] = Inr []"
| "buildEmitterMap ((c, e) # hexmap) =
     (case hex_decode e of
        Inl _ \<Rightarrow> Inl (Panic ''Failed to decode emitter address'')
      | Inr b \<Rightarrow> chk (buildEmitterMap hexmap) (\<lambda>out. Inr ((c, b) # out)))"

fun GetEmitterAddressForChain :: "EmitterInfo list \<Rightarrow> ChainID \<Rightarrow> EmitterType \<Rightarrow> go_error + Address" where
  "GetEmitterAddressForChain [] chainID emitterType = Inl (Errorf ''lookup failed'')"
| "GetEmitterAddressForChain (e # known) chainID emitterType =
     (if ei_ChainID e = chainID \<and> ei_BridgeType e = emitterType then StringToAddress (ei_Emitter e)
      else GetEmitterAddressForChain known chainID emitterType)"

section \<open>The tables\<close>

definition knownTokenbridgeEmitters :: "(ChainID \<times> string) list" where
  "knownTokenbridgeEmitters = [
   (1, ''ec7372995d5cc8732397fb0ad35c0121e0eaa90d26f828a534cab54391b3a4f5''),
   (2, ''0000000000000000000000003ee18b2214aff97000d974cf647e7c347e8fa585''),
   (3, ''0000000000000000000000007cf7b764e38a0a5e967972c1df77d432510564e2''),
   (18, ''a463ad028fb79679cfc8ce1efba35ac0e77b35080a1abe9bebe83461f176b0a3''),
   (4, ''000000000000000000000000b6f6d86a8f9879a9c87f643768d9efc38c1da6e7''),
   (5, ''0000000000000000000000005a58505a96d1dbf8df91cb21b54419fc36e93fde''),
   (6, ''0000000000000000000000000e082f06ff657d94310cb8ce8b0d9a04541d8052''),
   (7, ''0000000000000000000000005848c791e09901b40a9ef749f2a6735b418d7564''),
   (8, ''67e93fa6c8ac5c819990aa7340c0c16b508abb1178be9b30d024b8ac25193d45''),
   (22, ''0000000000000000000000000000000000000000000000000000000000000001''),
   (9, ''00000000000000000000000051b5123a7b0F9b2bA265f9c4C8de7D78D52f510F''),
   (10, ''0000000000000000000000007C9Fc5741288cDFdD83CeB07f3ea7e22618D79D2''),
   (11, ''000000000000000000000000ae9d7fe007b3327AA64A32824Aaac52C42a6E624''),
   (12, ''000000000000000000000000ae9d7fe007b3327AA64A32824Aaac52C42a6E624''),
   (13, ''0000000000000000000000005b08ac39EAED75c0439FC750d9FE7E1F9dD0193F''),
   (14, ''000000000000000000000000796Dff6D74F3E27060B71255Fe517BFb23C93eed''),
   (15, ''148410499d3fcda4dcfd68a1ebfcdddda16ab28326448d4aae4d2f0465cdfcb7''),
   (16, ''000000000000000000000000B1731c586ca89a23809861c6103F0b96B3F57D92''),
   (23, ''0000000000000000000000000b2402144Bb366A632D14B83F244D2e0e21bD39c''),
   (24, ''0000000000000000000000001D68124e65faFC907325e3EDbF8c4d84499DAa8b''),
   (30, ''0000000000000000000000008d2de8d2f73F1F4cAB472AC9A881C9b123C79627''),
   (28, ''8f9cf727175353b17a5f574270e370776123d90fd74956ae4277962b4fdee24c''),
   (34, ''00000000000000000000000024850c6f61C438823F01B7A3BF2B89B72174Fa9d''),
   (35, ''00000000000000000000000024850c6f61C438823F01B7A3BF2B89B72174Fa9d''),
   (36, ''00000000000000000000000024850c6f61C438823F01B7A3BF2B89B72174Fa9d''),
   (37, ''0000000000000000000000005537857664B0f9eFe38C9f320F75fEf23234D904''),
   (39, ''0000000000000000000000003Ff72741fd67D6AD0668d93B41a09248F4700560''),
   (40, ''0000000000000000000000003Ff72741fd67D6AD0668d93B41a09248F4700560''),
   (43, ''0000000000000000000000008B94bfE456B48a6025b92E11Be393BAa86e68410''),
   (44, ''0000000000000000000000003Ff72741fd67D6AD0668d93B41a09248F4700560''),
   (19, ''00000000000000000000000045dbea4617971d93188eda21530bc6503d153313''),
   (21, ''ccceeb29348f71bdd22ffef43a2a19c1f5b5e17c5cca5411529120182672ade5''),
   (32, ''86c5fd957e2db8389553e1728f9c27964b22a8154091ccba54d75f4b10c61f5e''),
   (3104, ''aeb534c45c3049d380b9d9b966f9895f53abd4301bfaff407fa09dea8ae7a924''),
   (45, ''000000000000000000000000c309275443519adca74c9136b02A38eF96E3a1f6''),
   (46, ''0000000000000000000000003Ff72741fd67D6AD0668d93B41a09248F4700560''),
   (50, ''000000000000000000000000F97B81E513f53c7a6B57Bd0b103a6c295b3096C5'')]"

definition knownNFTBridgeEmitters :: "(ChainID \<times> string) list" where
  "knownNFTBridgeEmitters = [
   (1, ''0def15a24423e1edd1a5ab16f557b9060303ddbab8c803d2ee48f4b78a1cfd6b''),
   (2, ''0000000000000000000000006ffd7ede62328b3af38fcd61461bbfc52f5651fe''),
   (4, ''0000000000000000000000005a58505a96d1dbf8df91cb21b54419fc36e93fde''),
   (5, ''00000000000000000000000090bbd86a6fe93d3bc3ed6335935447e75fab7fcf''),
   (6, ''000000000000000000000000f7b6737ca9c4e08ae573f75a97b73d7a813f5de5''),
   (7, ''00000000000000000000000004952d522ff217f40b5ef3cbf659eca7b952a6c1''),
   (9, ''0000000000000000000000006dcC0484472523ed9Cdc017F711Bcbf909789284''),
   (10, ''000000000000000000000000A9c7119aBDa80d4a4E0C06C8F4d8cF5893234535''),
   (11, ''000000000000000000000000b91e3638F82A1fACb28690b37e3aAE45d2c33808''),
   (12, ''000000000000000000000000b91e3638F82A1fACb28690b37e3aAE45d2c33808''),
   (13, ''0000000000000000000000003c3c561757BAa0b78c5C025CdEAa4ee24C1dFfEf''),
   (14, ''000000000000000000000000A6A377d75ca5c9052c9a77ED1e865Cc25Bd97bf3''),
   (16, ''000000000000000000000000453cfBe096C0f8D763E8C5F24B441097d577bdE2''),
   (23, ''0000000000000000000000003dD14D553cFD986EAC8e3bddF629d82073e188c8''),
   (24, ''000000000000000000000000fE8cD454b4A1CA468B57D79c0cc77Ef5B6f64585''),
   (30, ''000000000000000000000000DA3adC6621B2677BEf9aD26598e6939CF0D92f88''),
   (22, ''0000000000000000000000000000000000000000000000000000000000000005'')]"

definition KnownAutomaticRelayerEmitters :: "(ChainID \<times> string) list" where
  "KnownAutomaticRelayerEmitters = [
   (2, ''00000000000000000000000027428DD2d3DD32A4D7f7C497eAaa23130d894911''),
   (4, ''00000000000000000000000027428DD2d3DD32A4D7f7C497eAaa23130d894911''),
   (5, ''00000000000000000000000027428DD2d3DD32A4D7f7C497eAaa23130d894911''),
   (6, ''00000000000000000000000027428DD2d3DD32A4D7f7C497eAaa23130d894911''),
   (10, ''00000000000000000000000027428DD2d3DD32A4D7f7C497eAaa23130d894911''),
   (13, ''00000000000000000000000027428DD2d3DD32A4D7f7C497eAaa23130d894911''),
   (14, ''00000000000000000000000027428DD2d3DD32A4D7f7C497eAaa23130d894911''),
   (12, ''00000000000000000000000027428DD2d3DD32A4D7f7C497eAaa23130d894911''),
   (11, ''00000000000000000000000027428DD2d3DD32A4D7f7C497eAaa23130d894911''),
   (16, ''00000000000000000000000027428DD2d3DD32A4D7f7C497eAaa23130d894911''),
   (23, ''00000000000000000000000027428DD2d3DD32A4D7f7C497eAaa23130d894911''),
   (24, ''00000000000000000000000027428DD2d3DD32A4D7f7C497eAaa23130d894911''),
   (30, ''000000000000000000000000706f82e9bb5b0813501714ab5974216704980e31''),
   (34, ''00000000000000000000000027428DD2d3DD32A4D7f7C497eAaa23130d894911''),
   (36, ''00000000000000000000000027428DD2d3DD32A4D7f7C497eAaa23130d894911''),
   (35, ''00000000000000000000000027428dd2d3dd32a4d7f7c497eaaa23130d894911''),
   (37, ''00000000000000000000000027428dd2d3dd32a4d7f7c497eaaa23130d894911''),
   (43, ''00000000000000000000000027428DD2d3DD32A4D7f7C497eAaa23130d894911''),
   (45, ''0000000000000000000000001520cc9e779c56dab5866bebfb885c86840c33d3'')]"

definition KnownWrappedNativeAddress :: "(ChainID \<times> string) list" where
  "KnownWrappedNativeAddress = [
   (2, ''0xC02aaA39b223FE8D0A0e5C4F27eAD9083C756Cc2'')]"

definition knownTestnetTokenbridgeEmitters :: "(ChainID \<times> string) list" where
  "knownTestnetTokenbridgeEmitters = [
   (1, ''3b26409f8aaded3f5ddca184695aa6a0fa829b0c85caf84856324896d214ca98''),
   (2, ''000000000000000000000000f890982f9310df57d00f659cf4fd87e65aded8d7''),
   (3, ''0000000000000000000000000c32d68d8f22613f6b9511872dad35a59bfdf7f0''),
   (18, ''c3d4c6c2bcba163de1defb7e8f505cdb40619eee4fa618678955e8790ae1448d''),
   (4, ''0000000000000000000000009dcf9d205c9de35334d646bee44b2d2859712a09''),
   (5, ''000000000000000000000000377D55a7928c046E18eEbb61977e714d2a76472a''),
   (6, ''00000000000000000000000061e44e506ca5659e6c0bba9b678586fa2d729756''),
   (7, ''00000000000000000000000088d8004a9bdbfd9d28090a02010c19897a29605c''),
   (8, ''6241ffdc032b693bfb8544858f0403dec86f2e1720af9f34f8d65fe574b6238c''),
   (22, ''0000000000000000000000000000000000000000000000000000000000000001''),
   (9, ''000000000000000000000000d05ed3ad637b890d68a854d607eeaf11af456fba''),
   (10, ''000000000000000000000000599cea2204b4faecd584ab1f2b6aca137a0afbe8''),
   (11, ''000000000000000000000000e157115ef34c93145Fec2FE53706846853B07F42''),
   (12, ''000000000000000000000000e157115ef34c93145Fec2FE53706846853B07F42''),
   (13, ''000000000000000000000000c7a13be098720840dea132d860fdfa030884b09a''),
   (14, ''00000000000000000000000005ca6037ec51f8b712ed2e6fa72219feae74e153''),
   (15, ''c2c0b6ecbbe9ecf91b2b7999f0264018ba68126c2e83bf413f59f712f3a1df55''),
   (16, ''000000000000000000000000bc976d4b9d57e57c3ca52e1fd136c45ff7955a96''),
   (23, ''00000000000000000000000023908A62110e21C04F3A4e011d24F901F911744A''),
   (24, ''000000000000000000000000C7A204bDBFe983FCD8d8E61D02b475D4073fF97e''),
   (28, ''b66da121bd3621c8d2604c08c82965640fe682d606af26a302ee09094f5e62cf''),
   (19, ''00000000000000000000000003f3e7b2e363f51cf6e57ef85f43a2b91dbce501''),
   (21, ''40440411a170b4842ae7dee4f4a7b7a58bc0a98566e998850a7bb87bf5dc05b9''),
   (30, ''000000000000000000000000A31aa3FDb7aF7Db93d18DDA4e19F811342EDF780''),
   (32, ''9328673cb5de3fd99974cefbbd90fea033f4c59a572abfd7e1a4eebcc5d18157''),
   (34, ''00000000000000000000000022427d90B7dA3fA4642F7025A854c7254E4e45BF''),
   (35, ''00000000000000000000000075Bfa155a9D7A3714b0861c8a8aF0C4633c45b5D''),
   (49, ''0000000000000000000000000000000000000000000000000000000000000002''),
   (36, ''000000000000000000000000430855B4D43b8AEB9D2B9869B74d58dda79C0dB2''),
   (37, ''000000000000000000000000dA91a06299BBF302091B053c6B9EF86Eff0f930D''),
   (38, ''000000000000000000000000C7A204bDBFe983FCD8d8E61D02b475D4073fF97e''),
   (39, ''000000000000000000000000a10f2eF61dE1f19f586ab8B6F2EbA89bACE63F7a''),
   (40, ''00000000000000000000000023908A62110e21C04F3A4e011d24F901F911744A''),
   (43, ''000000000000000000000000a10f2eF61dE1f19f586ab8B6F2EbA89bACE63F7a''),
   (44, ''000000000000000000000000a10f2eF61dE1f19f586ab8B6F2EbA89bACE63F7a''),
   (45, ''000000000000000000000000430855B4D43b8AEB9D2B9869B74d58dda79C0dB2''),
   (46, ''000000000000000000000000376428e7f26D5867e69201b275553C45B09EE090''),
   (47, ''0000000000000000000000004a8bc80Ed5a4067f1CCf107057b8270E0cC11A78''),
   (48, ''000000000000000000000000F323dcDe4d33efe83cf455F78F9F6cc656e6B659''),
   (50, ''000000000000000000000000A31aa3FDb7aF7Db93d18DDA4e19F811342EDF780''),
   (10002, ''000000000000000000000000DB5492265f6038831E89f495670FF909aDe94bd9''),
   (10006, ''00000000000000000000000076d093BbaE4529a342080546cAFEec4AcbA59EC6''),
   (10003, ''000000000000000000000000C7A204bDBFe983FCD8d8E61D02b475D4073fF97e''),
   (10004, ''00000000000000000000000086F55A04690fd7815A3D802bD587e83eA888B239''),
   (10005, ''00000000000000000000000099737Ec4B815d816c49A385943baf0380e75c0Ac''),
   (10007, ''000000000000000000000000C7A204bDBFe983FCD8d8E61D02b475D4073fF97e''),
   (3104, ''ef5251ea1e99ae48732800ccc7b83b57881232a73eb796b63b1d86ed2ea44e27'')]"

definition knownTestnetNFTBridgeEmitters :: "(ChainID \<times> string) list" where
  "knownTestnetNFTBridgeEmitters = [
   (1, ''752a49814e40b96b097207e4b53fdd330544e1e661653fbad4bc159cc28a839e''),
   (2, ''000000000000000000000000d8e4c2dbdd2e2bd8f1336ea691dbff6952b1a6eb''),
   (4, ''000000000000000000000000cd16e5613ef35599dc82b24cb45b5a93d779f1ee''),
   (5, ''00000000000000000000000051a02d0dcb5e52f5b92bdaa38fa013c91c7309a9''),
   (6, ''000000000000000000000000d601baf2eee3c028344471684f6b27e789d9075d''),
   (7, ''000000000000000000000000c5c25b41ab0b797571620f5204afa116a44c0eba''),
   (9, ''0000000000000000000000008f399607e9ba2405d87f5f3e1b78d950b44b2e24''),
   (10, ''00000000000000000000000063ed9318628d26bdcb15df58b53bb27231d1b227''),
   (13, ''00000000000000000000000094c994fc51c13101062958b567e743f1a04432de''),
   (14, ''000000000000000000000000acd8190f647a31e56a656748bc30f69259f245db''),
   (16, ''00000000000000000000000098a0f4b96972b32fcb3bd03caeb66a44a6ab9edb''),
   (23, ''000000000000000000000000Ee3dB83916Ccdc3593b734F7F2d16D630F39F1D0''),
   (24, ''00000000000000000000000023908A62110e21C04F3A4e011d24F901F911744A''),
   (30, ''000000000000000000000000F681d1cc5F25a3694E348e7975d7564Aa581db59''),
   (10002, ''0000000000000000000000006a0B52ac198e4870e5F3797d5B403838a5bbFD99''),
   (10006, ''000000000000000000000000c8941d483c45eF8FB72E4d1F9dDE089C95fF8171''),
   (10003, ''00000000000000000000000023908A62110e21C04F3A4e011d24F901F911744A''),
   (10004, ''000000000000000000000000268557122Ffd64c85750d630b716471118F323c8''),
   (10005, ''00000000000000000000000027812285fbe85BA1DF242929B906B31EE3dd1b9f''),
   (10007, ''00000000000000000000000023908A62110e21C04F3A4e011d24F901F911744A'')]"

definition KnownTestnetAutomaticRelayerEmitters :: "(ChainID \<times> string) list" where
  "KnownTestnetAutomaticRelayerEmitters = [
   (2, ''00000000000000000000000028D8F1Be96f97C1387e94A53e00eCcFb4E75175a''),
   (4, ''00000000000000000000000080aC94316391752A193C1c47E27D382b507c93F3''),
   (5, ''0000000000000000000000000591C25ebd0580E0d4F27A82Fc2e24E7489CB5e0''),
   (6, ''000000000000000000000000A3cF45939bD6260bcFe3D66bc73d60f19e49a8BB''),
   (14, ''000000000000000000000000306B68267Deb7c5DfCDa3619E22E9Ca39C374f84''),
   (16, ''0000000000000000000000000591C25ebd0580E0d4F27A82Fc2e24E7489CB5e0''),
   (23, ''000000000000000000000000Ad753479354283eEE1b86c9470c84D42f229FF43''),
   (24, ''00000000000000000000000001A957A525a5b7A72808bA9D10c389674E459891''),
   (30, ''000000000000000000000000ea8029CD7FCAEFFcD1F53686430Db0Fc8ed384E1''),
   (40, ''000000000000000000000000362fca37E45fe1096b42021b543f462D49a5C8df''),
   (44, ''000000000000000000000000362fca37E45fe1096b42021b543f462D49a5C8df''),
   (46, ''000000000000000000000000362fca37E45fe1096b42021b543f462D49a5C8df''),
   (48, ''000000000000000000000000362fca37E45fe1096b42021b543f462D49a5C8df''),
   (10002, ''0000000000000000000000007B1bD7a6b4E61c2a123AC6BC2cbfC614437D0470''),
   (10003, ''0000000000000000000000007B1bD7a6b4E61c2a123AC6BC2cbfC614437D0470''),
   (10005, ''00000000000000000000000093BAD53DDfB6132b0aC8E37f6029163E63372cEE''),
   (10004, ''00000000000000000000000093BAD53DDfB6132b0aC8E37f6029163E63372cEE'')]"

definition KnownTestnetWrappedNativeAddresses :: "(ChainID \<times> string) list" where
  "KnownTestnetWrappedNativeAddresses = [
   (10002, ''0x7b79995e5f793a07bc00c21412e50ecae098e7f9''),
   (10006, ''0xc8f93d9738e7Ad5f3aF8c548DB2f6B7F8082B5e8'')]"

definition knownDevnetTokenbridgeEmitters :: "(ChainID \<times> string) list" where
  "knownDevnetTokenbridgeEmitters = [
   (1, ''c69a1b1a65dd336bf1df6a77afb501fc25db7fc0938cb08595a9ef473265cb4f''),
   (2, ''0000000000000000000000000290fb167208af455bb137780163b7b7a9a10c16''),
   (3, ''9e28beafa966b2407bffb0d48651e94972a56e69f3c0897d9e8facbdaeb98386''),
   (4, ''0000000000000000000000000290fb167208af455bb137780163b7b7a9a10c16''),
   (8, ''8ec299cb7f3efec28f542397e07f07118d74c875f85409ed8e6b93c17b60e992''),
   (3104, ''c9138c6e5bd7a2ab79c1a87486c9d7349d064b35ac9f7498f3b207b3a61e6013''),
   (21, ''8c6ba6a65f1b9c7fba4c5ad710086ace208e9ac21786a923425efc8167a419f0'')]"

definition knownDevnetNFTBridgeEmitters :: "(ChainID \<times> string) list" where
  "knownDevnetNFTBridgeEmitters = [
   (1, ''96ee982293251b48729804c8e8b24b553eb6b887867024948d2236fd37a577ab''),
   (2, ''00000000000000000000000026b4afb60d6c903165150c6f0aa14f8016be4aec''),
   (4, ''00000000000000000000000026b4afb60d6c903165150c6f0aa14f8016be4aec'')]"

definition KnownDevnetAutomaticRelayerEmitters :: "(ChainID \<times> string) list" where
  "KnownDevnetAutomaticRelayerEmitters = [
   (2, ''000000000000000000000000b98F46E96cb1F519C333FdFB5CCe0B13E0300ED4''),
   (4, ''000000000000000000000000b98F46E96cb1F519C333FdFB5CCe0B13E0300ED4''),
   (2, ''000000000000000000000000cc680d088586c09c3e0e099a676fa4b6e42467b4''),
   (4, ''000000000000000000000000cc680d088586c09c3e0e099a676fa4b6e42467b4'')]"

definition KnownDevnetWrappedNativeAddresses :: "(ChainID \<times> string) list" where
  "KnownDevnetWrappedNativeAddresses = [
   (2, ''0xDDb64fE46a91D46ee29420539FC25FD07c5FEa3E'')]"

definition KnownEmitters :: "EmitterInfo list" where
  "KnownEmitters = buildKnownEmitters knownTokenbridgeEmitters knownNFTBridgeEmitters"

definition KnownTestnetEmitters :: "EmitterInfo list" where
  "KnownTestnetEmitters = buildKnownEmitters knownTestnetTokenbridgeEmitters knownTestnetNFTBridgeEmitters"

definition KnownDevnetEmitters :: "EmitterInfo list" where
  "KnownDevnetEmitters = buildKnownEmitters knownDevnetTokenbridgeEmitters knownDevnetNFTBridgeEmitters"

definition KnownTokenbridgeEmitters :: "go_error + (ChainID \<times> byte list) list" where
  "KnownTokenbridgeEmitters = buildEmitterMap knownTokenbridgeEmitters"

definition KnownNFTBridgeEmitters :: "go_error + (ChainID \<times> byte list) list" where
  "KnownNFTBridgeEmitters = buildEmitterMap knownNFTBridgeEmitters"

definition KnownTestnetTokenbridgeEmitters :: "go_error + (ChainID \<times> byte list) list" where
  "KnownTestnetTokenbridgeEmitters = buildEmitterMap knownTestnetTokenbridgeEmitters"

definition KnownTestnetNFTBridgeEmitters :: "go_error + (ChainID \<times> byte list) list" where
  "KnownTestnetNFTBridgeEmitters = buildEmitterMap knownTestnetNFTBridgeEmitters"

definition KnownDevnetTokenbridgeEmitters :: "go_error + (ChainID \<times> byte list) list" where
  "KnownDevnetTokenbridgeEmitters = buildEmitterMap knownDevnetTokenbridgeEmitters"

definition KnownDevnetNFTBridgeEmitters :: "go_error + (ChainID \<times> byte list) list" where
  "KnownDevnetNFTBridgeEmitters = buildEmitterMap knownDevnetNFTBridgeEmitters"

section \<open>Well-formedness\<close>

text \<open>An entry: a network the node knows, with an address of 32 bytes in hexadecimal.\<close>

definition is_hex :: "char \<Rightarrow> bool" where
  "is_hex c \<longleftrightarrow> char_hex c \<noteq> None"

definition good_entry :: "ChainID \<times> string \<Rightarrow> bool" where
  "good_entry e \<longleftrightarrow> fst e \<in> set GetAllNetworkIDs \<and> length (snd e) = 64 \<and> list_all is_hex (snd e)"

lemma is_hex_simps:
  "is_hex CHR ''0''"
  "is_hex CHR ''1''"
  "is_hex CHR ''2''"
  "is_hex CHR ''3''"
  "is_hex CHR ''4''"
  "is_hex CHR ''5''"
  "is_hex CHR ''6''"
  "is_hex CHR ''7''"
  "is_hex CHR ''8''"
  "is_hex CHR ''9''"
  "is_hex CHR ''a''"
  "is_hex CHR ''b''"
  "is_hex CHR ''c''"
  "is_hex CHR ''d''"
  "is_hex CHR ''e''"
  "is_hex CHR ''f''"
  "is_hex CHR ''A''"
  "is_hex CHR ''B''"
  "is_hex CHR ''C''"
  "is_hex CHR ''D''"
  "is_hex CHR ''E''"
  "is_hex CHR ''F''"
  by (simp_all add: is_hex_def char_hex_def)

lemma good_knownTokenbridgeEmitters: "list_all good_entry knownTokenbridgeEmitters"
  by (simp add: knownTokenbridgeEmitters_def good_entry_def GetAllNetworkIDs_def is_hex_simps)

lemma good_knownNFTBridgeEmitters: "list_all good_entry knownNFTBridgeEmitters"
  by (simp add: knownNFTBridgeEmitters_def good_entry_def GetAllNetworkIDs_def is_hex_simps)

lemma good_knownTestnetTokenbridgeEmitters: "list_all good_entry knownTestnetTokenbridgeEmitters"
  by (simp add: knownTestnetTokenbridgeEmitters_def good_entry_def GetAllNetworkIDs_def is_hex_simps)

lemma good_knownTestnetNFTBridgeEmitters: "list_all good_entry knownTestnetNFTBridgeEmitters"
  by (simp add: knownTestnetNFTBridgeEmitters_def good_entry_def GetAllNetworkIDs_def is_hex_simps)

lemma good_knownDevnetTokenbridgeEmitters: "list_all good_entry knownDevnetTokenbridgeEmitters"
  by (simp add: knownDevnetTokenbridgeEmitters_def good_entry_def GetAllNetworkIDs_def is_hex_simps)

lemma good_knownDevnetNFTBridgeEmitters: "list_all good_entry knownDevnetNFTBridgeEmitters"
  by (simp add: knownDevnetNFTBridgeEmitters_def good_entry_def GetAllNetworkIDs_def is_hex_simps)

lemma distinct_tables:
  "distinct (map fst knownTokenbridgeEmitters)"
  "distinct (map fst knownNFTBridgeEmitters)"
  "distinct (map fst knownTestnetTokenbridgeEmitters)"
  "distinct (map fst knownTestnetNFTBridgeEmitters)"
  "distinct (map fst knownDevnetTokenbridgeEmitters)"
  "distinct (map fst knownDevnetNFTBridgeEmitters)"
  by (simp_all add: knownTokenbridgeEmitters_def knownNFTBridgeEmitters_def knownTestnetTokenbridgeEmitters_def knownTestnetNFTBridgeEmitters_def knownDevnetTokenbridgeEmitters_def knownDevnetNFTBridgeEmitters_def)

lemma hex_decode_total:
  "list_all is_hex s \<Longrightarrow> even (length s) \<Longrightarrow> \<exists>b. hex_decode s = Inr b \<and> 2 * length b = length s"
proof (induction s rule: hex_decode.induct)
  case (3 c d cs)
  then obtain b where "hex_decode cs = Inr b" "2 * length b = length cs"
    by (auto simp: is_hex_def)
  with 3 show ?case
    by (auto simp: is_hex_def)
qed auto

lemma good_entry_decode:
  assumes "good_entry (c, e)"
  shows "\<exists>b. hex_decode e = Inr b \<and> length b = 32 \<and> StringToAddress e = Inr b"
proof -
  have e: "list_all is_hex e" "length e = 64"
    using assms by (simp_all add: good_entry_def)
  then obtain b where b: "hex_decode e = Inr b" "length b = 32"
    using hex_decode_total [of e] by auto
  have "\<not> is_hex CHR ''x''"
    by (simp add: is_hex_def char_hex_def)
  then have "take 2 e \<noteq> ''0x''"
    using e(1) by (metis in_set_takeD list.set_intros list_all_iff)
  with e b show ?thesis
    by (auto simp: StringToAddress_def trim_0x_def)
qed

lemma buildEmitterMap_good:
  "list_all good_entry t \<Longrightarrow> \<exists>out. buildEmitterMap t = Inr out \<and> map fst out = map fst t \<and>
     list_all (\<lambda>(c, b). c \<in> set GetAllNetworkIDs \<and> length b = 32) out"
proof (induction t)
  case (Cons ce t)
  obtain c e where ce: "ce = (c, e)" by fastforce
  with Cons good_entry_decode [of c e] show ?case
    by (auto simp: good_entry_def)
qed simp

definition emitter_map_ok :: "go_error + (ChainID \<times> byte list) list \<Rightarrow> bool" where
  "emitter_map_ok m = (case m of Inl _ \<Rightarrow> False | Inr out \<Rightarrow> distinct (map fst out) \<and>
     list_all (\<lambda>(c, b). c \<in> set GetAllNetworkIDs \<and> length b = 32) out)"

lemma emitter_map_ok: "list_all good_entry t \<Longrightarrow> distinct (map fst t) \<Longrightarrow> emitter_map_ok (buildEmitterMap t)"
  using buildEmitterMap_good [of t] by (auto simp: emitter_map_ok_def)

text \<open>
  The tables of emitters are well typed: no map built from them at start panics, every key is a
  network that the node knows and occurs once, and every address has 32 bytes.
\<close>

lemma emitter_maps_typed:
  "list_all emitter_map_ok [KnownTokenbridgeEmitters, KnownNFTBridgeEmitters, KnownTestnetTokenbridgeEmitters,
     KnownTestnetNFTBridgeEmitters, KnownDevnetTokenbridgeEmitters, KnownDevnetNFTBridgeEmitters]"
  by (simp add: KnownTokenbridgeEmitters_def KnownNFTBridgeEmitters_def KnownTestnetTokenbridgeEmitters_def
      KnownTestnetNFTBridgeEmitters_def KnownDevnetTokenbridgeEmitters_def KnownDevnetNFTBridgeEmitters_def
      emitter_map_ok distinct_tables good_knownTokenbridgeEmitters good_knownNFTBridgeEmitters
      good_knownTestnetTokenbridgeEmitters good_knownTestnetNFTBridgeEmitters
      good_knownDevnetTokenbridgeEmitters good_knownDevnetNFTBridgeEmitters)

section \<open>Lookup\<close>

definition emitter_table :: "EmitterType \<Rightarrow> (ChainID \<times> string) list" where
  "emitter_table t = (if t = EmitterTokenBridge then knownTokenbridgeEmitters
     else if t = EmitterNFTBridge then knownNFTBridgeEmitters else [])"

lemma emitter_table_facts: "list_all good_entry (emitter_table t)" "distinct (map fst (emitter_table t))"
  by (simp_all add: emitter_table_def distinct_tables good_knownTokenbridgeEmitters good_knownNFTBridgeEmitters)

lemma emitter_infos:
  "e \<in> (\<lambda>(c, s). \<lparr>ei_ChainID = c, ei_Emitter = s, ei_BridgeType = t\<rparr>) ` S \<longleftrightarrow>
     (ei_ChainID e, ei_Emitter e) \<in> S \<and> ei_BridgeType e = t"
  by (cases e) force

lemma KnownEmitters_iff:
  "e \<in> set KnownEmitters \<longleftrightarrow> (ei_ChainID e, ei_Emitter e) \<in> set (emitter_table (ei_BridgeType e))"
  by (auto simp: KnownEmitters_def buildKnownEmitters_def emitter_table_def emitter_infos EmitterTokenBridge_def
      EmitterNFTBridge_def)

lemma GetEmitterAddressForChain_cases:
  "(\<exists>e. e \<in> set known \<and> ei_ChainID e = c \<and> ei_BridgeType e = t \<and>
      GetEmitterAddressForChain known c t = StringToAddress (ei_Emitter e)) \<or>
   (\<forall>e. e \<in> set known \<longrightarrow> \<not> (ei_ChainID e = c \<and> ei_BridgeType e = t)) \<and>
      GetEmitterAddressForChain known c t = Inl (Errorf ''lookup failed'')"
  by (induction known) auto

text \<open>The lookup does not depend on the order in which the maps were iterated.\<close>

lemma GetEmitterAddressForChain_table:
  assumes "set known = set KnownEmitters"
  shows "GetEmitterAddressForChain known c t = (case map_of (emitter_table t) c of
     None \<Rightarrow> Inl (Errorf ''lookup failed'') | Some e \<Rightarrow> StringToAddress e)"
proof (cases "map_of (emitter_table t) c")
  case None
  then have "e \<notin> set known \<or> ei_ChainID e \<noteq> c \<or> ei_BridgeType e \<noteq> t" for e
    using assms by (auto simp: KnownEmitters_iff map_of_eq_None_iff image_iff)
  then show ?thesis
    using None GetEmitterAddressForChain_cases [of known c t] by auto
next
  case (Some s)
  have "ei_Emitter e = s" if "e \<in> set known" "ei_ChainID e = c" "ei_BridgeType e = t" for e
    using that assms Some emitter_table_facts(2) [of t] by (auto simp: KnownEmitters_iff)
  moreover have "\<lparr>ei_ChainID = c, ei_Emitter = s, ei_BridgeType = t\<rparr> \<in> set known"
    using assms Some by (simp add: KnownEmitters_iff map_of_SomeD)
  ultimately show ?thesis
    using Some GetEmitterAddressForChain_cases [of known c t] by fastforce
qed

end
