(* ===== verification/Gossip.thy ===== *)
theory Gossip imports MessagePub GuardianSet begin

text \<open>
  What the parts of the node send to each other: the gossip messages (the protobuf types of
  proto/gossip/v1, which the model keeps as values, the wire format of protobuf being a library), the
  Go channels, and the helpers of node/pkg/common that read from and post to them.

  A buffered channel is its capacity and the values in it. A sending statement waits until there is
  room, so its value ends up behind the ones already there; the select with a default drops it when
  the channel is full. Receivers take the first value.
\<close>

record Observation =
  ob_Hash :: "byte list"
  ob_Signature :: "byte list"
  ob_TxHash :: "byte list"
  ob_MessageId :: string

record SignedObservationBatch =
  sob_Addr :: "byte list"
  sob_Observations :: "Observation list"

record ObservationRequest =
  or_ChainId :: "32 word"
  or_TxHash :: "byte list"

datatype GossipMessage =
    GM_SignedObservationBatch SignedObservationBatch
  | GM_SignedVaaWithQuorum "byte list"

section \<open>Channels\<close>

record 'a channel =
  ch_Cap :: nat
  ch_Items :: "'a list"

definition make_chan :: "nat \<Rightarrow> 'a channel" where
  "make_chan k = \<lparr>ch_Cap = k, ch_Items = []\<rparr>"

definition chan_send :: "'a \<Rightarrow> 'a channel \<Rightarrow> 'a channel" where
  "chan_send x ch = ch\<lparr>ch_Items := ch_Items ch @ [x]\<rparr>"

text \<open>The select with a default: whether the value was sent.\<close>

definition try_send :: "'a \<Rightarrow> 'a channel \<Rightarrow> bool \<times> 'a channel" where
  "try_send x ch = (if length (ch_Items ch) < ch_Cap ch then (True, chan_send x ch) else (False, ch))"

definition DeadlineExceeded :: go_error where "DeadlineExceeded = Errorf ''context deadline exceeded''"
definition Canceled :: go_error where "Canceled = Errorf ''context canceled''"

text \<open>
  ReadFromChannelWithTimeout: ready is the number of values the loop takes before the context is done
  with the error err, which depends on the scheduler.
\<close>

definition ReadFromChannelWithTimeout :: "nat \<Rightarrow> nat \<Rightarrow> go_error \<Rightarrow> 'a channel \<Rightarrow>
    ('a list \<times> go_error option) \<times> 'a channel" where
  "ReadFromChannelWithTimeout maxCount ready err ch =
     (let n = min ready (length (ch_Items ch)) in
      if maxCount \<le> n then ((take maxCount (ch_Items ch), None), ch\<lparr>ch_Items := drop maxCount (ch_Items ch)\<rparr>)
      else ((take n (ch_Items ch), Some err), ch\<lparr>ch_Items := drop n (ch_Items ch)\<rparr>))"

definition ErrChanFull :: go_error where "ErrChanFull = Errorf ''channel is full''"

definition PostObservationRequest :: "ObservationRequest \<Rightarrow> ObservationRequest channel \<Rightarrow>
    (go_error + unit) \<times> ObservationRequest channel" where
  "PostObservationRequest req ch =
     (case try_send req ch of (True, ch) \<Rightarrow> (Inr (), ch) | (False, ch) \<Rightarrow> (Inl ErrChanFull, ch))"

definition MaxObservationBatchSize :: nat where "MaxObservationBatchSize = 4000"

lemma chan_send_items [simp]: "ch_Items (chan_send x ch) = ch_Items ch @ [x]" "ch_Cap (chan_send x ch) = ch_Cap ch"
  by (simp_all add: chan_send_def)

lemma set_try_send: "set (ch_Items (snd (try_send x ch))) \<subseteq> insert x (set (ch_Items ch))"
  by (auto simp: try_send_def)

lemma read_splits: "ReadFromChannelWithTimeout maxCount ready err ch = ((out, e), ch') \<Longrightarrow>
  ch_Items ch = out @ ch_Items ch' \<and> length out \<le> maxCount"
  by (auto simp: ReadFromChannelWithTimeout_def Let_def split: if_splits)

end
