(* ===== verification/GatewayRelayer.thy ===== *)
theory GatewayRelayer imports Emitters Gossip begin

text \<open>
  The gateway relayer: node/pkg/gwrelayer/gwrelayer.go. Which VAAs are forwarded to which contract on
  wormchain, the queue of the relayer, and how the response to a transaction is judged. Bech32 (the
  Cosmos SDK), the JSON form of the message and the connection to wormchain are parameters.
\<close>

datatype VaaType = IbcTranslator | TokenBridge

record VaaToPublish =
  v2p_V :: VAA
  v2p_ContractAddress :: string
  v2p_VType :: VaaType

type_synonym tokenBridgeMap = "(ChainID \<times> Address) set"

record GatewayRelayer =
  gwr_ibcTranslatorAddress :: string
  gwr_env :: Environment
  gwr_subChan :: "VaaToPublish channel"
  gwr_tokenBridges :: tokenBridgeMap
  gwr_tokenBridgeAddress :: string
  gwr_ibcTranslatorPayloadAddress :: Address

definition subChanSize :: nat where "subChanSize = 50"

definition NewGatewayRelayer :: "string \<Rightarrow> Environment \<Rightarrow> GatewayRelayer option" where
  "NewGatewayRelayer ibcTranslatorAddress env =
     (if ibcTranslatorAddress = '''' then None
      else Some \<lparr>gwr_ibcTranslatorAddress = ibcTranslatorAddress, gwr_env = env, gwr_subChan = make_chan subChanSize,
        gwr_tokenBridges = {}, gwr_tokenBridgeAddress = '''', gwr_ibcTranslatorPayloadAddress = replicate 32 0\<rparr>)"

section \<open>The token bridges\<close>

fun token_bridge_loop :: "(byte list \<Rightarrow> go_error + string) \<Rightarrow> (ChainID \<times> byte list) list \<Rightarrow> tokenBridgeMap \<Rightarrow> string \<Rightarrow>
    go_error + (tokenBridgeMap \<times> string)" where
  "token_bridge_loop bech32 [] tokenBridges tokenBridgeAddress = Inr (tokenBridges, tokenBridgeAddress)"
| "token_bridge_loop bech32 ((chainId, emitterAddrBytes) # m) tokenBridges tokenBridgeAddress =
     (if chainId = ChainIDWormchain then
        (case bech32 emitterAddrBytes of
           Inl _ \<Rightarrow> Inl (Errorf ''failed to convert gateway emitter address to bech32'')
         | Inr a \<Rightarrow> token_bridge_loop bech32 m tokenBridges a)
      else case BytesToAddress emitterAddrBytes of
        Inl _ \<Rightarrow> Inl (Errorf ''failed to convert emitter address for chain'')
      | Inr emitterAddr \<Rightarrow>
          if (chainId, emitterAddr) \<in> tokenBridges then Inl (Errorf ''detected duplicate token bridge for chain'')
          else token_bridge_loop bech32 m (insert (chainId, emitterAddr) tokenBridges) tokenBridgeAddress)"

text \<open>The tables are package variables: their construction panics before main runs, or has a value.\<close>

definition emitter_map_for :: "Environment \<Rightarrow> go_error + (ChainID \<times> byte list) list" where
  "emitter_map_for env = (case env of
     TestNet \<Rightarrow> KnownTestnetTokenbridgeEmitters
   | UnsafeDevNet \<Rightarrow> KnownDevnetTokenbridgeEmitters
   | GoTest \<Rightarrow> KnownDevnetTokenbridgeEmitters
   | AccountantMock \<Rightarrow> KnownDevnetTokenbridgeEmitters
   | MainNet \<Rightarrow> KnownTokenbridgeEmitters)"

definition buildTokenBridgeMap :: "(byte list \<Rightarrow> go_error + string) \<Rightarrow> Environment \<Rightarrow> go_error + (tokenBridgeMap \<times> string)" where
  "buildTokenBridgeMap bech32 env =
     chk (emitter_map_for env) (\<lambda>emitterMap. token_bridge_loop bech32 emitterMap {} '''')"

text \<open>\<open>vaa.Address(addrBytes)\<close> of a slice panics unless it has 32 bytes; longer ones are cut.\<close>

definition convertBech32AddressToWormhole :: "(string \<Rightarrow> go_error + byte list) \<Rightarrow> string \<Rightarrow> go_error + Address" where
  "convertBech32AddressToWormhole fromBech32 contractAddress =
     (case fromBech32 contractAddress of
        Inl _ \<Rightarrow> Inl (Errorf ''failed to decode target address'')
      | Inr b \<Rightarrow> if length b < 32 then Inl (Panic ''slice too short'') else Inr (take 32 b))"

definition GatewayRelayer_Start :: "(string \<Rightarrow> go_error + byte list) \<Rightarrow> (byte list \<Rightarrow> go_error + string) \<Rightarrow>
    GatewayRelayer \<Rightarrow> go_error + GatewayRelayer" where
  "GatewayRelayer_Start fromBech32 bech32 gwr =
     chk (convertBech32AddressToWormhole fromBech32 (gwr_ibcTranslatorAddress gwr)) (\<lambda>payloadAddress.
     case buildTokenBridgeMap bech32 (gwr_env gwr) of
       Inl e \<Rightarrow> Inl (Wrap ''failed to build token bridge map'' (Some e))
     | Inr (tokenBridges, tokenBridgeAddress) \<Rightarrow>
         if tokenBridgeAddress = '''' then Inl (Errorf ''failed to look up token bridge address for gateway'')
         else Inr (gwr\<lparr>gwr_ibcTranslatorPayloadAddress := payloadAddress, gwr_tokenBridges := tokenBridges,
           gwr_tokenBridgeAddress := tokenBridgeAddress\<rparr>))"

section \<open>Which VAAs are relayed\<close>

definition shouldPublishToIbcTranslator :: "tokenBridgeMap \<Rightarrow> VAA \<Rightarrow> ChainID \<Rightarrow> Address \<Rightarrow> go_error + bool" where
  "shouldPublishToIbcTranslator tokenBridges v targetChain targetAddress =
     (if (vaa_EmitterChain v, vaa_EmitterAddress v) \<notin> tokenBridges then Inr False
      else if length (vaa_Payload v) = 0 then Inr False
      else if vaa_Payload v ! 0 \<noteq> 3 then Inr False
      else chk (wrap ''failed to decode payload'' (DecodeTransferPayloadHdr (vaa_Payload v))) (\<lambda>hdr.
        if tph_TargetChain hdr \<noteq> targetChain \<or> tph_TargetAddress hdr \<noteq> targetAddress then Inr False
        else Inr True))"

definition shouldPublishToTokenBridge :: "tokenBridgeMap \<Rightarrow> VAA \<Rightarrow> bool" where
  "shouldPublishToTokenBridge tokenBridges v =
     (if (vaa_EmitterChain v, vaa_EmitterAddress v) \<notin> tokenBridges then False
      else if length (vaa_Payload v) = 0 then False
      else if vaa_Payload v ! 0 \<noteq> 2 then False else True)"

definition SubmitVAA :: "VAA \<Rightarrow> GatewayRelayer \<Rightarrow> GatewayRelayer" where
  "SubmitVAA v gwr =
     (let submit = (\<lambda>ty contract. gwr\<lparr>gwr_subChan := snd (try_send
            \<lparr>v2p_V = v, v2p_ContractAddress = contract, v2p_VType = ty\<rparr> (gwr_subChan gwr))\<rparr>)
      in case shouldPublishToIbcTranslator (gwr_tokenBridges gwr) v ChainIDWormchain
            (gwr_ibcTranslatorPayloadAddress gwr) of
        Inl _ \<Rightarrow> gwr
      | Inr True \<Rightarrow> submit IbcTranslator (gwr_ibcTranslatorAddress gwr)
      | Inr False \<Rightarrow>
          if shouldPublishToTokenBridge (gwr_tokenBridges gwr) v
          then submit TokenBridge (gwr_tokenBridgeAddress gwr) else gwr)"

section \<open>The answer of the contract\<close>

text \<open>\<open>strings.Contains\<close>.\<close>

fun str_contains :: "string \<Rightarrow> string \<Rightarrow> bool" where
  "str_contains [] pat = (pat = [])"
| "str_contains (c # s) pat = (take (length pat) (c # s) = pat \<or> str_contains s pat)"

definition canIgnoreFailure :: "string \<Rightarrow> bool" where
  "canIgnoreFailure rawLog \<longleftrightarrow>
     str_contains rawLog ''VaaAlreadyExecuted'' \<or> str_contains rawLog ''this asset has already been attested''"

datatype contract_msg =
    CompleteTransferAndConvert "byte list"
  | SubmitVaaMsg "byte list"

text \<open>
  The transaction response: nil, without a TxResponse, or with its raw log. SignAndBroadcastTx is given
  the contract and the message, whose JSON form has the fields of contract_msg.
\<close>

datatype tx_resp = NilResp | NilTxResponse | RawLog string

definition SubmitVAAToContract :: "(string \<Rightarrow> contract_msg \<Rightarrow> go_error + tx_resp) \<Rightarrow> VaaToPublish \<Rightarrow> go_error + tx_resp" where
  "SubmitVAAToContract SignAndBroadcastTx v2p =
     chk (wrap ''failed to marshal vaa'' (VAA_Marshal (v2p_V v2p))) (\<lambda>vaaBytes.
     let msg = (case v2p_VType v2p of IbcTranslator \<Rightarrow> CompleteTransferAndConvert vaaBytes
                | TokenBridge \<Rightarrow> SubmitVaaMsg vaaBytes)
     in chk (wrap ''failed to send broadcast'' (SignAndBroadcastTx (v2p_ContractAddress v2p) msg)) (\<lambda>txResp.
        case txResp of
          NilResp \<Rightarrow> Inl (Errorf ''sent broadcast but returned txResp is nil'')
        | NilTxResponse \<Rightarrow> Inl (Errorf ''sent broadcast but returned txResp.TxResponse is nil'')
        | RawLog l \<Rightarrow>
            if l = '''' then Inl (Errorf ''sent broadcast but raw_log is not set, unable to analyze the result'')
            else if str_contains l ''out of gas'' then Inl (Errorf ''out of gas'')
            else if str_contains l ''failed'' \<and> \<not> canIgnoreFailure l then Inl (Errorf ''submit failed'')
            else Inr txResp))"

definition submitVAAToContract :: "(string \<Rightarrow> contract_msg \<Rightarrow> go_error + tx_resp) \<Rightarrow> VaaToPublish \<Rightarrow> go_error + unit" where
  "submitVAAToContract SignAndBroadcastTx v2p = chk (SubmitVAAToContract SignAndBroadcastTx v2p) (\<lambda>_. Inr ())"

text \<open>One turn of the worker: it takes the first VAA, and an error is only logged.\<close>

definition gwr_worker :: "(string \<Rightarrow> contract_msg \<Rightarrow> go_error + tx_resp) \<Rightarrow> GatewayRelayer \<Rightarrow> (go_error + unit) option \<times> GatewayRelayer" where
  "gwr_worker SignAndBroadcastTx gwr = (case ch_Items (gwr_subChan gwr) of
     [] \<Rightarrow> (None, gwr)
   | v2p # rest \<Rightarrow> (Some (submitVAAToContract SignAndBroadcastTx v2p),
       gwr\<lparr>gwr_subChan := (gwr_subChan gwr)\<lparr>ch_Items := rest\<rparr>\<rparr>))"

section \<open>Correctness\<close>

lemma BytesToAddress_32: "length b = 32 \<Longrightarrow> BytesToAddress b = Inr b"
  by (simp add: BytesToAddress_def)

lemma token_bridge_loop_good:
  assumes "distinct (map fst m)" and "list_all (\<lambda>(c, b). c \<in> set GetAllNetworkIDs \<and> length b = 32) m"
    and "fst ` set m \<inter> fst ` S = {}"
  shows "token_bridge_loop bech32 m S a = Inr (T, w) \<longleftrightarrow>
    T = S \<union> {(c, b) \<in> set m. c \<noteq> ChainIDWormchain} \<and>
    (case map_of m ChainIDWormchain of None \<Rightarrow> w = a | Some b \<Rightarrow> bech32 b = Inr w)"
  using assms
proof (induction m arbitrary: S a)
  case Nil
  then show ?case by auto
next
  case (Cons e m)
  obtain c b where e: "e = (c, b)" by fastforce
  show ?case
  proof (cases "c = ChainIDWormchain")
    case True
    then have "map_of m ChainIDWormchain = None"
      using Cons.prems(1) e by (simp add: map_of_eq_None_iff)
    moreover have "fst ` set m \<inter> fst ` S = {}"
      using Cons.prems(3) by auto
    ultimately show ?thesis
      using Cons.prems e True by (auto simp: Cons.IH split: sum.splits)
  next
    case False
    have "fst ` set m \<inter> fst ` insert (c, b) S = {}"
      using Cons.prems e by auto
    moreover have "(c, b) \<notin> S"
      using Cons.prems(3) e by force
    ultimately show ?thesis
      using Cons.prems e False by (auto simp: Cons.IH BytesToAddress_32)
  qed
qed

lemma emitter_map_for_ok: "\<exists>m. emitter_map_for env = Inr m \<and> distinct (map fst m) \<and>
    list_all (\<lambda>(c, b). c \<in> set GetAllNetworkIDs \<and> length b = 32) m"
proof -
  have "emitter_map_ok (emitter_map_for env)"
    by (cases env) (simp_all add: emitter_map_for_def KnownTokenbridgeEmitters_def
        KnownTestnetTokenbridgeEmitters_def KnownDevnetTokenbridgeEmitters_def emitter_map_ok distinct_tables
        good_knownTokenbridgeEmitters good_knownTestnetTokenbridgeEmitters good_knownDevnetTokenbridgeEmitters)
  then show ?thesis
    by (auto simp: emitter_map_ok_def split: sum.splits)
qed

lemma buildTokenBridgeMap_iff:
  "buildTokenBridgeMap bech32 env = Inr (T, w) \<longleftrightarrow> (\<exists>m. emitter_map_for env = Inr m \<and>
     T = {(c, b) \<in> set m. c \<noteq> ChainIDWormchain} \<and>
     (case map_of m ChainIDWormchain of None \<Rightarrow> w = '''' | Some b \<Rightarrow> bech32 b = Inr w))"
proof -
  obtain m where m: "emitter_map_for env = Inr m" "distinct (map fst m)"
    "list_all (\<lambda>(c, b). c \<in> set GetAllNetworkIDs \<and> length b = 32) m"
    using emitter_map_for_ok by blast
  show ?thesis
    using token_bridge_loop_good [OF m(2,3), of "{}"] m(1) by (auto simp: buildTokenBridgeMap_def chk_eq_Inr)
qed

text \<open>What the relayer is for: the VAAs it forwards, and where to.\<close>

definition relay_target :: "GatewayRelayer \<Rightarrow> VAA \<Rightarrow> (VaaType \<times> string) option" where
  "relay_target gwr v =
     (if (vaa_EmitterChain v, vaa_EmitterAddress v) \<notin> gwr_tokenBridges gwr then None
      else case DecodeTransferPayloadHdr (vaa_Payload v) of
        Inr hdr \<Rightarrow>
          (if tph_Type hdr = 3 \<and> tph_TargetChain hdr = ChainIDWormchain \<and>
              tph_TargetAddress hdr = gwr_ibcTranslatorPayloadAddress gwr
           then Some (IbcTranslator, gwr_ibcTranslatorAddress gwr) else None)
      | Inl _ \<Rightarrow> if take 1 (vaa_Payload v) = [2] then Some (TokenBridge, gwr_tokenBridgeAddress gwr) else None)"

lemma take_1: "take (Suc 0) xs = [x] \<longleftrightarrow> xs \<noteq> [] \<and> xs ! 0 = x"
  by (cases xs) auto

lemma Decode_type: "DecodeTransferPayloadHdr p = Inr h \<Longrightarrow> p \<noteq> [] \<and> p ! 0 = tph_Type h \<and> tph_Type h \<in> {1, 3}"
  using DecodeTransferPayloadHdr_inv [of p h] by (auto simp: wf_transfer_hdr_def put_transfer_hdr_def)

lemma SubmitVAA_target:
  "SubmitVAA v gwr = (case relay_target gwr v of None \<Rightarrow> gwr
     | Some (ty, contract) \<Rightarrow> gwr\<lparr>gwr_subChan := snd (try_send
         \<lparr>v2p_V = v, v2p_ContractAddress = contract, v2p_VType = ty\<rparr> (gwr_subChan gwr))\<rparr>)"
proof (cases "(vaa_EmitterChain v, vaa_EmitterAddress v) \<in> gwr_tokenBridges gwr \<and> vaa_Payload v \<noteq> []")
  case False
  then show ?thesis
    using Decode_type [of "vaa_Payload v"]
    by (auto simp: SubmitVAA_def relay_target_def shouldPublishToIbcTranslator_def shouldPublishToTokenBridge_def
        Let_def split: sum.splits)
next
  case True
  then show ?thesis
  proof (cases "DecodeTransferPayloadHdr (vaa_Payload v)")
    case (Inl e)
    with True show ?thesis
      by (auto simp: SubmitVAA_def relay_target_def shouldPublishToIbcTranslator_def shouldPublishToTokenBridge_def
          Let_def take_1)
  next
    case (Inr h)
    with True Decode_type [OF Inr] show ?thesis
      by (auto simp: SubmitVAA_def relay_target_def shouldPublishToIbcTranslator_def shouldPublishToTokenBridge_def
          Let_def)
  qed
qed

end
