(* ===== verification/AltPub.thy ===== *)
theory AltPub imports Gossip begin

text \<open>
  The alternate publisher: node/pkg/altpub/alternate_pub.go. The endpoints of the node, the chains each
  one is enabled for, and how an observation reaches the queue of the HTTP workers, directly or through
  the batch of its endpoint. The body of a request is the batch it encodes. Parsing the flags (URLs and
  durations of the Go library) and the HTTP client are not modelled.
\<close>

definition PubChanSize :: nat where "PubChanSize = 1000"
definition ObservationChanSize :: nat where "ObservationChanSize = 1000"

record EnabledChains =
  ec_exceptFor :: bool
  ec_chains :: "ChainID set"

record Endpoint =
  ep_label :: string
  ep_baseUrl :: string
  ep_delay :: int
  ep_enabledChains :: EnabledChains
  ep_obsvBatchChan :: "Observation channel option"
  ep_signedObservationUrl :: string

record HttpRequest =
  hr_ep :: string
  hr_url :: string
  hr_data :: SignedObservationBatch

record AlternatePublisher =
  ap_guardianAddr :: "byte list"
  ap_endpoints :: "Endpoint list"
  ap_httpWorkerChan :: "HttpRequest channel"
  ap_status :: string

definition GetFeatures :: "AlternatePublisher \<Rightarrow> string" where
  "GetFeatures ap = ap_status ap"

definition EnabledChains_shouldPublish :: "EnabledChains \<Rightarrow> ChainID \<Rightarrow> bool" where
  "EnabledChains_shouldPublish e chainId =
     (if ec_chains e = {} then True
      else if ec_exceptFor e then chainId \<notin> ec_chains e
      else chainId \<in> ec_chains e)"

definition Endpoint_shouldPublish :: "Endpoint \<Rightarrow> ChainID \<Rightarrow> bool" where
  "Endpoint_shouldPublish ep chainId = EnabledChains_shouldPublish (ep_enabledChains ep) chainId"

definition createUrls :: "Endpoint \<Rightarrow> Endpoint" where
  "createUrls ep = ep\<lparr>ep_signedObservationUrl := ep_baseUrl ep @ ''/SignedObservationBatch''\<rparr>"

section \<open>The chains of an endpoint\<close>

text \<open>The fourth field of the flag: a comma separated list of chains, all but these after a minus sign.\<close>

fun parse_chains :: "string list \<Rightarrow> ChainID set \<Rightarrow> go_error + ChainID set" where
  "parse_chains [] cs = Inr cs"
| "parse_chains (s # ss) cs =
     (case StringToKnownChainID s of
        Inl e \<Rightarrow> Inl (Wrap ''invalid chain ID --additionalPublishEndpoint'' (Some e))
      | Inr c \<Rightarrow> parse_chains ss (insert c cs))"

definition parse_enabled_chains :: "string \<Rightarrow> go_error + EnabledChains" where
  "parse_enabled_chains str =
     (let exceptFor = (str \<noteq> [] \<and> hd str = CHR ''-'');
          str = (if exceptFor then tl str else str)
      in chk (parse_chains (split_on CHR '','' str) {}) (\<lambda>cs.
           Inr \<lparr>ec_exceptFor = exceptFor, ec_chains = cs\<rparr>))"

section \<open>Publishing\<close>

text \<open>A nil channel is never ready: the default is taken.\<close>

definition publish_endpoint :: "byte list \<Rightarrow> ChainID \<Rightarrow> Observation \<Rightarrow> Endpoint \<Rightarrow> HttpRequest channel \<Rightarrow>
    Endpoint \<times> HttpRequest channel" where
  "publish_endpoint addr emitterChain obs ep ch =
     (if \<not> Endpoint_shouldPublish ep emitterChain then (ep, ch)
      else if ep_delay ep = 0 then
        (ep, snd (try_send \<lparr>hr_ep = ep_label ep, hr_url = ep_signedObservationUrl ep,
           hr_data = \<lparr>sob_Addr = addr, sob_Observations = [obs]\<rparr>\<rparr> ch))
      else
        (ep\<lparr>ep_obsvBatchChan := map_option (\<lambda>c. snd (try_send obs c)) (ep_obsvBatchChan ep)\<rparr>, ch))"

fun publish_loop :: "byte list \<Rightarrow> ChainID \<Rightarrow> Observation \<Rightarrow> Endpoint list \<Rightarrow> HttpRequest channel \<Rightarrow>
    Endpoint list \<times> HttpRequest channel" where
  "publish_loop addr emitterChain obs [] ch = ([], ch)"
| "publish_loop addr emitterChain obs (ep # eps) ch =
     (case publish_endpoint addr emitterChain obs ep ch of (ep, ch) \<Rightarrow>
        (case publish_loop addr emitterChain obs eps ch of (eps, ch) \<Rightarrow> (ep # eps, ch)))"

definition PublishObservation :: "ChainID \<Rightarrow> Observation \<Rightarrow> AlternatePublisher \<Rightarrow> AlternatePublisher" where
  "PublishObservation emitterChain obs ap =
     (case publish_loop (ap_guardianAddr ap) emitterChain obs (ap_endpoints ap) (ap_httpWorkerChan ap) of
        (eps, ch) \<Rightarrow> ap\<lparr>ap_endpoints := eps, ap_httpWorkerChan := ch\<rparr>)"

text \<open>
  One turn of the batch worker of the endpoint with index i: ready is what the channel gives before
  the delay is over, err the error that the context ends with.
\<close>

definition AltPub_handleBatch :: "nat \<Rightarrow> nat \<Rightarrow> go_error \<Rightarrow> AlternatePublisher \<Rightarrow> (go_error + unit) \<times> AlternatePublisher" where
  "AltPub_handleBatch i ready err ap =
     (let ep = ap_endpoints ap ! i in
      case ep_obsvBatchChan ep of
        None \<Rightarrow> (if err \<noteq> DeadlineExceeded
                 then (Inl (Wrap ''failed to read observations from the internal observation batch channel'' (Some err)), ap)
                 else (Inr (), ap))
      | Some c \<Rightarrow>
          (case ReadFromChannelWithTimeout MaxObservationBatchSize ready err c of
             ((observations, e), c) \<Rightarrow>
               let ap = ap\<lparr>ap_endpoints := (ap_endpoints ap)[i := ep\<lparr>ep_obsvBatchChan := Some c\<rparr>]\<rparr> in
               if e \<noteq> None \<and> e \<noteq> Some DeadlineExceeded
               then (Inl (Wrap ''failed to read observations from the internal observation batch channel'' e), ap)
               else if length observations \<noteq> 0 then
                 (Inr (), ap\<lparr>ap_httpWorkerChan := snd (try_send \<lparr>hr_ep = ep_label ep, hr_url = ep_signedObservationUrl ep,
                    hr_data = \<lparr>sob_Addr = ap_guardianAddr ap, sob_Observations = observations\<rparr>\<rparr> (ap_httpWorkerChan ap))\<rparr>)
               else (Inr (), ap)))"

section \<open>Correctness\<close>

lemma parse_chains_iff:
  "parse_chains ss S = Inr T \<longleftrightarrow>
     (\<exists>cs. list_all2 (\<lambda>s c. StringToKnownChainID s = Inr c) ss cs \<and> T = S \<union> set cs)"
proof (induction ss arbitrary: S)
  case Nil
  then show ?case by auto
next
  case (Cons s ss)
  then show ?case
    by (cases "StringToKnownChainID s") (auto simp: list_all2_Cons1)
qed

text \<open>What the workers have queued for an endpoint: the observations of its requests and of its batch.\<close>

definition queued :: "string \<Rightarrow> HttpRequest channel \<Rightarrow> Observation list" where
  "queued label ch = concat (map (\<lambda>r. sob_Observations (hr_data r)) (filter (\<lambda>r. hr_ep r = label) (ch_Items ch)))"

lemma publish_endpoint_skips:
  "\<not> Endpoint_shouldPublish ep c \<Longrightarrow> publish_endpoint addr c obs ep ch = (ep, ch)"
  by (simp add: publish_endpoint_def)

lemma publish_endpoint_direct:
  assumes "Endpoint_shouldPublish ep c" and "ep_delay ep = 0" and "length (ch_Items ch) < ch_Cap ch"
  shows "queued (ep_label ep) (snd (publish_endpoint addr c obs ep ch)) = queued (ep_label ep) ch @ [obs]"
  using assms by (simp add: publish_endpoint_def try_send_def queued_def)

lemma publish_endpoint_other:
  "ep_label ep \<noteq> label \<Longrightarrow> queued label (snd (publish_endpoint addr c obs ep ch)) = queued label ch"
  by (simp add: publish_endpoint_def try_send_def queued_def)

lemma publish_endpoint_batched:
  assumes "Endpoint_shouldPublish ep c" and "ep_delay ep \<noteq> 0" and "ep_obsvBatchChan ep = Some b"
    and "length (ch_Items b) < ch_Cap b"
  shows "publish_endpoint addr c obs ep ch = (ep\<lparr>ep_obsvBatchChan := Some (chan_send obs b)\<rparr>, ch)"
  using assms by (simp add: publish_endpoint_def try_send_def)

end
