(* ===== verification/Aggregation.thy ===== *)
theory Aggregation imports GatewayRelayer AltPub VaaDb Governor "HOL-Library.AList" begin

text \<open>
  The aggregation of guardian signatures in node/pkg/processor: processor.go (the state of an
  observation and of the processor, storing and finding signed VAAs), observation.go, message.go,
  vaa.go, broadcast.go, batch_obs.go and backoff.go.

  Guardian signer, clock and random source are arguments: sign is GuardianSigner.Sign, now the time
  read by the handler (its readings of the clock are taken to give one value), Int63n the random
  number below its argument. The map of signatures of a state is an association list with distinct
  keys, since its length counts. A handler returns the processor it leaves, or the panic that ends it.
\<close>

section \<open>State\<close>

record ProcVAA =
  pv_VAA :: VAA
  pv_Unreliable :: bool
  pv_Reobservation :: bool

definition IsReliable :: "ProcVAA \<Rightarrow> bool" where
  "IsReliable v = (\<not> pv_Unreliable v)"

definition IsReobservation :: "ProcVAA \<Rightarrow> bool" where
  "IsReobservation v = pv_Reobservation v"

record obs_state =
  st_firstObserved :: time
  st_nextRetry :: time
  st_retryCtr :: "64 word"
  st_ourObservation :: "ProcVAA option"
  st_signatures :: "(eth_address \<times> byte list) list"
  st_submitted :: bool
  st_settled :: bool
  st_source :: string
  st_ourObs :: "Observation option"
  st_ourMsg :: "GossipMessage option"
  st_txHash :: "byte list"
  st_gs :: "GuardianSet option"

definition LoggingID :: "obs_state \<Rightarrow> string" where
  "LoggingID s = (case st_ourObservation s of Some v \<Rightarrow> MessageID (pv_VAA v) | None \<Rightarrow> hex_encode (st_txHash s))"

record 's processor =
  p_gossipAttestationSendC :: "GossipMessage channel"
  p_gossipVaaSendC :: "GossipMessage channel"
  p_obsvReqSendC :: "ObservationRequest channel"
  p_hasDb :: bool
  p_db :: 's
  p_alternatePublisher :: "AlternatePublisher option"
  p_gs :: "GuardianSet option"
  p_gst :: GuardianSetState
  p_state :: "string \<rightharpoonup> obs_state"
  p_ourAddr :: eth_address
  p_governor :: "'s ChainGovernor option"
  p_pythnetVaas :: "string \<rightharpoonup> VAA \<times> time"
  p_gatewayRelayer :: "GatewayRelayer option"
  p_updatedVAAs :: "string \<rightharpoonup> VAA \<times> bool"
  p_batchObsvPubC :: "Observation channel"

definition batchObsvPubChanSize :: nat where "batchObsvPubChanSize = MaxObservationBatchSize * 5"

definition NewProcessor :: "bool \<Rightarrow> 's \<Rightarrow> GossipMessage channel \<Rightarrow> GossipMessage channel \<Rightarrow> ObservationRequest channel \<Rightarrow>
    eth_address \<Rightarrow> GuardianSetState \<Rightarrow> 's ChainGovernor option \<Rightarrow> GatewayRelayer option \<Rightarrow> AlternatePublisher option \<Rightarrow>
    's processor" where
  "NewProcessor hasDb db gossipAttestationSendC gossipVaaSendC obsvReqSendC ourAddr gst g gatewayRelayer alternatePublisher =
     \<lparr>p_gossipAttestationSendC = gossipAttestationSendC, p_gossipVaaSendC = gossipVaaSendC,
      p_obsvReqSendC = obsvReqSendC, p_hasDb = hasDb, p_db = db, p_alternatePublisher = alternatePublisher,
      p_gs = None, p_gst = gst, p_state = Map.empty, p_ourAddr = ourAddr, p_governor = g,
      p_pythnetVaas = Map.empty, p_gatewayRelayer = gatewayRelayer, p_updatedVAAs = Map.empty,
      p_batchObsvPubC = make_chan batchObsvPubChanSize\<rparr>"

section \<open>Backoff\<close>

definition FirstRetryMinWait :: time where "FirstRetryMinWait = 5 * minute"

text \<open>int and time.Duration have 64 bits; Int63n panics when its argument is not positive.\<close>

definition nextRetryDuration :: "(int \<Rightarrow> int) \<Rightarrow> 64 word \<Rightarrow> go_error + time" where
  "nextRetryDuration Int63n ctr =
     (let m = (push_bit (unat ctr) 1 :: 64 word);
          wait = word_of_int FirstRetryMinWait * m
      in if sint wait \<le> 0 then Inl (Panic ''invalid argument to Int63n'')
         else Inr (sint (wait + word_of_int (Int63n (sint wait)))))"

section \<open>Signed VAAs\<close>

definition pythnet_key :: "Address \<Rightarrow> 64 word \<Rightarrow> string" where
  "pythnet_key addr sequence = Address_String addr @ CHR ''/'' # dec_string (unat sequence)"

definition storeSignedVAA :: "time \<Rightarrow> VAA \<Rightarrow> 's processor \<Rightarrow> 's processor" where
  "storeSignedVAA now v p =
     (if vaa_EmitterChain v = ChainIDPythNet
      then p\<lparr>p_pythnetVaas := (p_pythnetVaas p)(pythnet_key (vaa_EmitterAddress v) (vaa_Sequence v) \<mapsto> (v, now))\<rparr>
      else p\<lparr>p_updatedVAAs := (p_updatedVAAs p)(VAAID_String (VaaIDFromVAA v) \<mapsto> (v, True))\<rparr>)"

definition getVaaFromUpdateMap :: "string \<Rightarrow> 's processor \<Rightarrow> VAA option" where
  "getVaaFromUpdateMap key p = map_option fst (p_updatedVAAs p key)"

definition haveSignedVAA :: "'s badger \<Rightarrow> VAAID \<Rightarrow> 's processor \<Rightarrow> bool" where
  "haveSignedVAA B i p =
     (if id_EmitterChain i = ChainIDPythNet
      then p_pythnetVaas p (pythnet_key (id_EmitterAddress i) (id_Sequence i)) \<noteq> None
      else if getVaaFromUpdateMap (VAAID_String i) p \<noteq> None then True
      else if \<not> p_hasDb p then False
      else (case HasVAA B i (p_db p) of Inl _ \<Rightarrow> False | Inr ok \<Rightarrow> ok))"

definition broadcastSignedVAA :: "VAA \<Rightarrow> 's processor \<Rightarrow> go_error + 's processor" where
  "broadcastSignedVAA v p =
     (case VAA_Marshal v of
        Inl _ \<Rightarrow> Inl (Panic ''failed to marshal'')
      | Inr b \<Rightarrow> Inr (p\<lparr>p_gossipVaaSendC := chan_send (GM_SignedVaaWithQuorum b) (p_gossipVaaSendC p),
          p_gatewayRelayer := map_option (SubmitVAA v) (p_gatewayRelayer p)\<rparr>))"

definition HandleQuorum :: "time \<Rightarrow> ProcVAA \<Rightarrow> Signature list \<Rightarrow> 's processor \<Rightarrow> go_error + 's processor" where
  "HandleQuorum now v sigs p =
     (let signed = (pv_VAA v)\<lparr>vaa_Signatures := sigs\<rparr> in
      chk (broadcastSignedVAA signed p) (\<lambda>p. Inr (storeSignedVAA now signed p)))"

section \<open>Counting signatures\<close>

fun sig_loop :: "(eth_address \<times> byte list) list \<Rightarrow> nat \<Rightarrow> eth_address list \<Rightarrow> go_error + Signature list" where
  "sig_loop signatures i [] = Inr []"
| "sig_loop signatures i (a # gsKeys) =
     (case map_of signatures a of
        None \<Rightarrow> sig_loop signatures (Suc i) gsKeys
      | Some s \<Rightarrow>
          if length s < 65 then Inl (Panic ''invalid sig len'')
          else chk (sig_loop signatures (Suc i) gsKeys) (\<lambda>sigs.
            Inr (\<lparr>sig_Index = word_of_nat i, sig_Data = take 65 s\<rparr> # sigs)))"

definition signaturesToVaaFormat :: "(eth_address \<times> byte list) list \<Rightarrow> eth_address list \<Rightarrow> go_error + Signature list" where
  "signaturesToVaaFormat signatures gsKeys =
     (if 255 < length gsKeys then Inl (Panic ''guardian set too large'') else sig_loop signatures 0 gsKeys)"

definition put_state :: "string \<Rightarrow> obs_state \<Rightarrow> 's processor \<Rightarrow> 's processor" where
  "put_state hash s p = p\<lparr>p_state := (p_state p)(hash \<mapsto> s)\<rparr>"

text \<open>The state s is the one stored under hash.\<close>

definition checkForQuorum :: "time \<Rightarrow> obs_state \<Rightarrow> GuardianSet \<Rightarrow> string \<Rightarrow> 's processor \<Rightarrow> go_error + 's processor" where
  "checkForQuorum now s gs hash p =
     (if int (length (st_signatures s)) < Quorum gs then Inr p
      else chk (signaturesToVaaFormat (st_signatures s) (gs_Keys gs)) (\<lambda>sigsVaaFormat.
        if int (length sigsVaaFormat) < Quorum gs then Inr p
        else (case st_ourObservation s of
            None \<Rightarrow> Inl (Panic ''nil pointer dereference'')
          | Some v \<Rightarrow> chk (HandleQuorum now v sigsVaaFormat p) (\<lambda>p.
              Inr (put_state hash (s\<lparr>st_submitted := True\<rparr>) p)))))"

section \<open>Observations of other guardians\<close>

definition new_state :: "time \<Rightarrow> time \<Rightarrow> string \<Rightarrow> obs_state" where
  "new_state now nextRetry source = \<lparr>st_firstObserved = now, st_nextRetry = nextRetry, st_retryCtr = 0,
     st_ourObservation = None, st_signatures = [], st_submitted = False, st_settled = False,
     st_source = source, st_ourObs = None, st_ourMsg = None, st_txHash = [], st_gs = None\<rparr>"

text \<open>\<open>s := p.state.signatures[hash]; if s == nil ...\<close>.\<close>

definition get_or_create :: "(int \<Rightarrow> int) \<Rightarrow> time \<Rightarrow> string \<Rightarrow> string \<Rightarrow> 's processor \<Rightarrow> go_error + obs_state" where
  "get_or_create Int63n now source hash p =
     (case p_state p hash of
        Some s \<Rightarrow> Inr s
      | None \<Rightarrow> chk (nextRetryDuration Int63n 0) (\<lambda>d. Inr (new_state now (now + d) source)))"

definition state_gs :: "obs_state option \<Rightarrow> 's processor \<Rightarrow> GuardianSet option" where
  "state_gs s p = (case s of Some s \<Rightarrow> (case st_gs s of Some gs \<Rightarrow> Some gs | None \<Rightarrow> p_gs p) | None \<Rightarrow> p_gs p)"

definition handleSingleObservation :: "crypto \<Rightarrow> (int \<Rightarrow> int) \<Rightarrow> time \<Rightarrow> byte list \<Rightarrow> Observation \<Rightarrow> 's processor \<Rightarrow>
    go_error + 's processor" where
  "handleSingleObservation c Int63n now addr m p =
     (let their_addr = BytesToEthAddress c addr;
          hash = hex_encode (ob_Hash m);
          s = p_state p hash
      in if (case s of Some s \<Rightarrow> st_submitted s | None \<Rightarrow> False) then Inr p
      else case state_gs s p of
        None \<Rightarrow> Inr p
      | Some gs \<Rightarrow>
          if \<not> snd (KeyIndex gs their_addr) then Inr p
          else case Ecrecover c (ob_Hash m) (ob_Signature m) of
            Inl _ \<Rightarrow> Inr p
          | Inr pk \<Rightarrow>
              let signer_pk = BytesToEthAddress c (drop 12 (Keccak256 c (drop 1 pk))) in
              if their_addr \<noteq> signer_pk then Inr p
              else chk (get_or_create Int63n now ''unknown'' hash p) (\<lambda>s.
                let s = s\<lparr>st_signatures := AList.update their_addr (ob_Signature m) (st_signatures s)\<rparr>;
                    p = put_state hash s p
                in if st_ourObservation s \<noteq> None then checkForQuorum now s gs hash p else Inr p))"

fun handleBatchObservation :: "crypto \<Rightarrow> (int \<Rightarrow> int) \<Rightarrow> time \<Rightarrow> byte list \<Rightarrow> Observation list \<Rightarrow> 's processor \<Rightarrow>
    go_error + 's processor" where
  "handleBatchObservation c Int63n now addr [] p = Inr p"
| "handleBatchObservation c Int63n now addr (m # ms) p =
     chk (handleSingleObservation c Int63n now addr m p) (handleBatchObservation c Int63n now addr ms)"

section \<open>Our own observations\<close>

definition postObservationToBatch :: "Observation \<Rightarrow> 's processor \<Rightarrow> 's processor" where
  "postObservationToBatch obs p = p\<lparr>p_batchObsvPubC := snd (try_send obs (p_batchObsvPubC p))\<rparr>"

definition publishBatch :: "Observation list \<Rightarrow> 's processor \<Rightarrow> GossipMessage \<times> 's processor" where
  "publishBatch observations p =
     (let msg = GM_SignedObservationBatch \<lparr>sob_Addr = p_ourAddr p, sob_Observations = observations\<rparr>
      in (msg, p\<lparr>p_gossipAttestationSendC := snd (try_send msg (p_gossipAttestationSendC p))\<rparr>))"

definition publishImmediately :: "Observation \<Rightarrow> 's processor \<Rightarrow> GossipMessage \<times> 's processor" where
  "publishImmediately obs p = publishBatch [obs] p"

definition shouldPublishImmediately :: "VAA \<Rightarrow> bool" where
  "shouldPublishImmediately v \<longleftrightarrow> vaa_EmitterChain v = ChainIDPythNet"

text \<open>One turn of the batch processor.\<close>

definition handleBatch :: "nat \<Rightarrow> go_error \<Rightarrow> 's processor \<Rightarrow> (go_error + unit) \<times> 's processor" where
  "handleBatch ready err p =
     (case ReadFromChannelWithTimeout MaxObservationBatchSize ready err (p_batchObsvPubC p) of
        ((observations, e), ch) \<Rightarrow>
          let p = p\<lparr>p_batchObsvPubC := ch\<rparr> in
          if e \<noteq> None \<and> e \<noteq> Some DeadlineExceeded
          then (Inl (Wrap ''failed to read observations from the internal observation batch channel'' e), p)
          else if length observations \<noteq> 0 then (Inr (), snd (publishBatch observations p)) else (Inr (), p))"

definition broadcastSignature :: "string \<Rightarrow> MessagePublication \<Rightarrow> byte list \<Rightarrow> byte list \<Rightarrow> bool \<Rightarrow> 's processor \<Rightarrow>
    (Observation \<times> GossipMessage option) \<times> 's processor" where
  "broadcastSignature messageID k digest signature immediately p =
     (let ourObs = \<lparr>ob_Hash = digest, ob_Signature = signature, ob_TxHash = mp_TxID k, ob_MessageId = messageID\<rparr>;
          (msg, p) = (if immediately then (case publishImmediately ourObs p of (m, p) \<Rightarrow> (Some m, p))
                      else (None, postObservationToBatch ourObs p));
          p = p\<lparr>p_alternatePublisher := map_option (PublishObservation (mp_EmitterChain k) ourObs) (p_alternatePublisher p)\<rparr>
      in ((ourObs, msg), p))"

definition handleMessage :: "crypto \<Rightarrow> (byte list \<Rightarrow> go_error + byte list) \<Rightarrow> (int \<Rightarrow> int) \<Rightarrow> time \<Rightarrow> MessagePublication \<Rightarrow>
    's processor \<Rightarrow> go_error + 's processor" where
  "handleMessage c sign Int63n now k p =
     (case p_gs p of
        None \<Rightarrow> Inr p
      | Some gs \<Rightarrow>
          let v = \<lparr>pv_VAA = \<lparr>vaa_Version = SupportedVAAVersion, vaa_GuardianSetIndex = gs_Index gs,
                     vaa_Signatures = [], vaa_Timestamp = mp_Timestamp k, vaa_Nonce = mp_Nonce k,
                     vaa_Sequence = mp_Sequence k, vaa_ConsistencyLevel = mp_ConsistencyLevel k,
                     vaa_EmitterChain = mp_EmitterChain k, vaa_EmitterAddress = mp_EmitterAddress k,
                     vaa_Payload = mp_Payload k\<rparr>,
                   pv_Unreliable = mp_Unreliable k, pv_Reobservation = mp_IsReobservation k\<rparr>;
              digest = SigningDigest c (pv_VAA v);
              hash = hex_encode digest
          in case sign digest of
               Inl _ \<Rightarrow> Inl (Panic ''failed to sign'')
             | Inr signature \<Rightarrow>
                 (case broadcastSignature (MessageID (pv_VAA v)) k digest signature
                        (shouldPublishImmediately (pv_VAA v)) p of
                    ((ourObs, msg), p) \<Rightarrow>
                      chk (get_or_create Int63n now ''loopback'' hash p) (\<lambda>s.
                      let s = s\<lparr>st_ourObservation := Some v, st_txHash := mp_TxID k,
                               st_source := ChainID_String (vaa_EmitterChain (pv_VAA v)), st_gs := p_gs p,
                               st_signatures := AList.update (p_ourAddr p) signature (st_signatures s),
                               st_ourObs := Some ourObs, st_ourMsg := msg\<rparr>;
                          p = put_state hash s p
                      in if \<not> st_submitted s then checkForQuorum now s gs hash p else Inr p)))"

section \<open>VAAs from the network\<close>

definition handleInboundSignedVAAWithQuorum :: "crypto \<Rightarrow> 's badger \<Rightarrow> time \<Rightarrow> byte list \<Rightarrow> 's processor \<Rightarrow> 's processor" where
  "handleInboundSignedVAAWithQuorum c B now m p =
     (case VAA_Unmarshal m of
        Inl _ \<Rightarrow> p
      | Inr v \<Rightarrow>
          if haveSignedVAA B (VaaIDFromVAA v) p then p
          else case p_gs p of
            None \<Rightarrow> p
          | Some gs \<Rightarrow>
              if length (gs_Keys gs) = 0 then p
              else case VAA_Verify c v (Some (gs_Keys gs)) of
                Inl _ \<Rightarrow> p
              | Inr _ \<Rightarrow> storeSignedVAA now v p)"

end
