(* ===== verification/AggregationInv.thy ===== *)
theory AggregationInv imports Aggregation begin

text \<open>
  What the aggregation of signatures keeps: every signature in the state of an observation verifies
  against its digest, so that the VAA built at quorum is one that Verify accepts. G is the set of the
  guardian sets the processor has been given.
\<close>

section \<open>What is assumed of the libraries\<close>

text \<open>
  go-ethereum's Ecrecover only accepts signatures of 65 bytes, and the guardian signer signs digests
  so that they verify for the address of the node.
\<close>

definition ecrecover_65 :: "crypto \<Rightarrow> bool" where
  "ecrecover_65 c \<longleftrightarrow> (\<forall>h s pk. Ecrecover c h s = Inr pk \<longrightarrow> length s = 65)"

definition signed_by :: "crypto \<Rightarrow> byte list \<Rightarrow> eth_address \<Rightarrow> byte list \<Rightarrow> bool" where
  "signed_by c digest a s \<longleftrightarrow> length s = 65 \<and> verifySignature c digest \<lparr>sig_Index = 0, sig_Data = s\<rparr> a"

definition signer_correct :: "crypto \<Rightarrow> (byte list \<Rightarrow> go_error + byte list) \<Rightarrow> eth_address \<Rightarrow> bool" where
  "signer_correct c sign a \<longleftrightarrow> (\<forall>h s. sign h = Inr s \<longrightarrow> signed_by c h a s)"

text \<open>A guardian set as NewGuardianSet builds it, with no key twice.\<close>

definition good_gs :: "GuardianSet \<Rightarrow> bool" where
  "good_gs gs \<longleftrightarrow> distinct (gs_Keys gs) \<and> NewGuardianSet (gs_Keys gs) (gs_Index gs) = Inr gs"

lemma good_gs_Quorum: "good_gs gs \<Longrightarrow> Quorum gs = int (length (gs_Keys gs)) * 2 div 3 + 1"
  by (cases gs) (auto simp: good_gs_def NewGuardianSet_def Let_def chk_eq_Inr CalculateQuorum_def Quorum_def)

section \<open>Signatures in VAA format\<close>

lemma sig_loop_sound:
  "sig_loop sigs i keys = Inr out \<Longrightarrow> i + length keys \<le> 256 \<Longrightarrow>
     length out \<le> length keys \<and> sorted_wrt (<) (map sig_Index out) \<and>
     (\<forall>s \<in> set out. \<exists>j d. j < length keys \<and> unat (sig_Index s) = i + j \<and>
        map_of sigs (keys ! j) = Some d \<and> sig_Data s = take 65 d \<and> 65 \<le> length d)"
proof (induction keys arbitrary: i out)
  case Nil
  then show ?case by simp
next
  case (Cons a keys)
  show ?case
  proof (cases "map_of sigs a")
    case None
    with Cons.prems Cons.IH [of "Suc i" out] show ?thesis
      by fastforce
  next
    case (Some d)
    then obtain out' where out: "65 \<le> length d" "sig_loop sigs (Suc i) keys = Inr out'"
      "out = \<lparr>sig_Index = word_of_nat i, sig_Data = take 65 d\<rparr> # out'"
      using Cons.prems by (auto simp: chk_eq_Inr split: if_splits)
    have i: "unat (word_of_nat i :: byte) = i"
      using Cons.prems(2) by simp
    note IH = Cons.IH [OF out(2)]
    have "\<forall>s \<in> set out'. i < unat (sig_Index s)"
      using IH Cons.prems(2) by fastforce
    then have "\<forall>s \<in> set out'. word_of_nat i < sig_Index s"
      using i by (simp add: word_less_nat_alt)
    moreover have "\<exists>j d'. j < length (a # keys) \<and> unat (sig_Index s) = i + j \<and>
        map_of sigs ((a # keys) ! j) = Some d' \<and> sig_Data s = take 65 d' \<and> 65 \<le> length d'" if "s \<in> set out" for s
    proof (cases "s \<in> set out'")
      case True
      then obtain j d' where "j < length keys" "unat (sig_Index s) = Suc i + j"
        "map_of sigs (keys ! j) = Some d'" "sig_Data s = take 65 d'" "65 \<le> length d'"
        using IH Cons.prems(2) by auto
      then show ?thesis
        by (intro exI [of _ "Suc j"] exI [of _ d']) simp
    next
      case False
      with that have "s = \<lparr>sig_Index = word_of_nat i, sig_Data = take 65 d\<rparr>"
        by (simp add: out(3))
      with i Some out(1) show ?thesis
        by (intro exI [of _ 0] exI [of _ d]) simp
    qed
    ultimately show ?thesis
      using IH Cons.prems(2) by (auto simp: out(3))
  qed
qed

lemma signatures_verify:
  assumes gs: "good_gs gs" and conv: "signaturesToVaaFormat sigs (gs_Keys gs) = Inr out"
    and quorum: "Quorum gs \<le> int (length out)"
    and signed: "\<forall>a s. map_of sigs a = Some s \<longrightarrow> signed_by c (SigningDigest c v) a s"
    and v: "SigningDigest c v = SigningDigest c w" "vaa_Signatures w = out"
  shows "VAA_Verify c w (Some (gs_Keys gs)) = Inr () \<and> length out \<le> 255 \<and> list_all wf_Signature out"
proof -
  let ?keys = "gs_Keys gs"
  have loop: "sig_loop sigs 0 ?keys = Inr out" and len: "length ?keys \<le> 255"
    using conv by (auto simp: signaturesToVaaFormat_def split: if_splits)
  have sound: "length out \<le> length ?keys" "sorted_wrt (<) (map sig_Index out)"
    "\<And>s. s \<in> set out \<Longrightarrow> \<exists>d. unat (sig_Index s) < length ?keys \<and> map_of sigs (signer_at ?keys s) = Some d \<and>
       sig_Data s = take 65 d \<and> 65 \<le> length d"
    using sig_loop_sound [OF loop] len by (fastforce simp: signer_at_def)+
  have ok: "unat (sig_Index s) < length ?keys \<and> verifySignature c (SigningDigest c w) s (signer_at ?keys s) \<and>
      length (sig_Data s) = 65" if "s \<in> set out" for s
  proof -
    obtain d where d: "unat (sig_Index s) < length ?keys" "map_of sigs (signer_at ?keys s) = Some d"
      "sig_Data s = take 65 d"
      using sound(3) [OF \<open>s \<in> set out\<close>] by auto
    have "signed_by c (SigningDigest c w) (signer_at ?keys s) d"
      using signed d(2) v(1) by metis
    with d show ?thesis
      by (simp add: signed_by_def verifySignature_def)
  qed
  have "distinct (map sig_Index out)"
    using sound(2) by (induction out) (auto simp: less_le)
  then have "distinct (map (signer_at ?keys) out)"
    using ok gs by (auto simp: distinct_map inj_on_def signer_at_def good_gs_def nth_eq_iff_index_eq unat_cancel)
  moreover have "out \<noteq> []"
    using quorum good_gs_Quorum [OF gs] by auto
  ultimately show ?thesis
    using ok sound(1,2) quorum good_gs_Quorum [OF gs] len v(2)
    by (auto simp: VAA_Verify_char verifySignatures_iff list_all_iff wf_Signature_def)
qed

section \<open>The invariant\<close>

definition state_inv :: "crypto \<Rightarrow> GuardianSet set \<Rightarrow> string \<Rightarrow> obs_state \<Rightarrow> bool" where
  "state_inv c G hash s \<longleftrightarrow> distinct (map fst (st_signatures s)) \<and> (\<exists>digest. hash = hex_encode digest \<and>
     (\<forall>a sg. map_of (st_signatures s) a = Some sg \<longrightarrow> signed_by c digest a sg) \<and>
     (case st_ourObservation s of
        None \<Rightarrow> st_gs s = None \<and> st_ourObs s = None
      | Some v \<Rightarrow> SigningDigest c (pv_VAA v) = digest \<and> vaa_Version (pv_VAA v) = SupportedVAAVersion \<and>
          length (vaa_EmitterAddress (pv_VAA v)) = 32 \<and> st_ourObs s \<noteq> None \<and>
          (\<exists>gs \<in> G. st_gs s = Some gs \<and> vaa_GuardianSetIndex (pv_VAA v) = gs_Index gs)))"

definition quorate :: "crypto \<Rightarrow> GuardianSet set \<Rightarrow> VAA \<Rightarrow> bool" where
  "quorate c G v \<longleftrightarrow> (\<exists>gs \<in> G. VAA_Verify c v (Some (gs_Keys gs)) = Inr ())"

text \<open>A VAA on the wire: it decodes to one that verifies for the guardian set it names.\<close>

definition sound_msg :: "crypto \<Rightarrow> GuardianSet set \<Rightarrow> GossipMessage \<Rightarrow> bool" where
  "sound_msg c G m \<longleftrightarrow> (case m of GM_SignedObservationBatch _ \<Rightarrow> True
     | GM_SignedVaaWithQuorum b \<Rightarrow> (\<exists>v. \<exists>gs \<in> G. VAA_Unmarshal b = Inr v \<and>
         VAA_Verify c v (Some (gs_Keys gs)) = Inr () \<and> vaa_GuardianSetIndex v = gs_Index gs))"

definition p_inv :: "crypto \<Rightarrow> GuardianSet set \<Rightarrow> 's processor \<Rightarrow> bool" where
  "p_inv c G p \<longleftrightarrow>
     (\<forall>hash s. p_state p hash = Some s \<longrightarrow> state_inv c G hash s \<and> p_gs p \<noteq> None) \<and>
     (\<forall>gs. p_gs p = Some gs \<longrightarrow> gs \<in> G) \<and>
     (\<forall>k v d. p_updatedVAAs p k = Some (v, d) \<longrightarrow> quorate c G v) \<and>
     (\<forall>k v t. p_pythnetVaas p k = Some (v, t) \<longrightarrow> quorate c G v) \<and>
     (\<forall>m \<in> set (ch_Items (p_gossipVaaSendC p)). sound_msg c G m)"

text \<open>The encoding keeps what is signed, also when the timestamp has a fraction of a second.\<close>

lemma Marshal_decodes:
  assumes "vaa_Version v = SupportedVAAVersion" and "length (vaa_EmitterAddress v) = 32"
    and "length (vaa_Signatures v) \<le> 255" and "list_all wf_Signature (vaa_Signatures v)"
    and "VAA_Marshal v = Inr b"
  shows "\<exists>w. VAA_Unmarshal b = Inr w \<and> SigningDigest c w = SigningDigest c v \<and>
    vaa_Signatures w = vaa_Signatures v \<and> vaa_GuardianSetIndex w = vaa_GuardianSetIndex v \<and>
    VaaIDFromVAA w = VaaIDFromVAA v"
proof -
  let ?w = "v\<lparr>vaa_Timestamp := time_unix (uint (word_of_int (unix_secs (vaa_Timestamp v)) :: 32 word))\<rparr>"
  have body: "serializeBody ?w = serializeBody v"
    by (simp add: serializeBody_def)
  have "VAA_Marshal ?w = Inr b"
    using assms(5) body by (simp add: VAA_Marshal_def)
  moreover have "wf_VAA ?w"
    using assms(1-4) by (simp add: wf_VAA_def secs_time_of_word)
  ultimately have "VAA_Unmarshal b = Inr ?w"
    using VAA_Unmarshal_Marshal by blast
  moreover have "SigningDigest c ?w = SigningDigest c v"
    by (simp only: SigningDigest_def body)
  ultimately show ?thesis
    by (intro exI [of _ ?w]) (simp add: VaaIDFromVAA_def)
qed

lemma Verify_same:
  "SigningDigest c w = SigningDigest c v \<Longrightarrow> vaa_Signatures w = vaa_Signatures v \<Longrightarrow>
     VAA_Verify c w addrs = VAA_Verify c v addrs"
  by (cases addrs) (simp_all add: VAA_Verify_def VAA_VerifySignatures_def)

lemma SigningDigest_update [simp]:
  "SigningDigest c (v\<lparr>vaa_Signatures := s\<rparr>) = SigningDigest c v"
  "SigningDigest c (v\<lparr>vaa_GuardianSetIndex := i\<rparr>) = SigningDigest c v"
  by (simp_all add: SigningDigest_def serializeBody_def)

lemma p_inv_frame:
  assumes "p_inv c G p" and "p_state p' = p_state p" and "p_gs p' = p_gs p"
    and "p_updatedVAAs p' = p_updatedVAAs p" and "p_pythnetVaas p' = p_pythnetVaas p"
    and "ch_Items (p_gossipVaaSendC p') = ch_Items (p_gossipVaaSendC p)"
  shows "p_inv c G p'"
  using assms by (simp add: p_inv_def)

lemma p_inv_put_state:
  "p_inv c G p \<Longrightarrow> state_inv c G hash s \<Longrightarrow> p_gs p \<noteq> None \<Longrightarrow> p_inv c G (put_state hash s p)"
  by (auto simp: p_inv_def put_state_def)

lemma state_inv_submitted: "state_inv c G hash (s\<lparr>st_submitted := b\<rparr>) = state_inv c G hash s"
  by (cases "st_ourObservation s") (simp_all add: state_inv_def)

lemma storeSignedVAA_inv: "p_inv c G p \<Longrightarrow> quorate c G v \<Longrightarrow> p_inv c G (storeSignedVAA now v p)"
  by (auto simp: p_inv_def storeSignedVAA_def)

lemma broadcastSignedVAA_inv:
  assumes "p_inv c G p" and "broadcastSignedVAA v p = Inr p'" and "\<And>b. VAA_Marshal v = Inr b \<Longrightarrow>
    sound_msg c G (GM_SignedVaaWithQuorum b)"
  shows "p_inv c G p'"
proof -
  obtain b where b: "VAA_Marshal v = Inr b" and p': "p' = p\<lparr>p_gossipVaaSendC := chan_send (GM_SignedVaaWithQuorum b)
      (p_gossipVaaSendC p), p_gatewayRelayer := map_option (SubmitVAA v) (p_gatewayRelayer p)\<rparr>"
    using assms(2) by (auto simp: broadcastSignedVAA_def split: sum.splits)
  with assms(1) assms(3) [OF b] show ?thesis
    by (simp add: p_inv_def)
qed

lemma checkForQuorum_inv:
  assumes p: "p_inv c G p" and G: "\<forall>gs \<in> G. good_gs gs" and s: "p_state p hash = Some s"
    and gs: "st_ourObservation s \<noteq> None \<Longrightarrow> st_gs s = Some gs"
    and check: "checkForQuorum now s gs hash p = Inr p'"
  shows "p_inv c G p'"
proof (cases "p' = p")
  case True
  with p show ?thesis by simp
next
  case False
  then obtain sigs v p1 where
    sigs: "signaturesToVaaFormat (st_signatures s) (gs_Keys gs) = Inr sigs" "Quorum gs \<le> int (length sigs)"
    and v: "st_ourObservation s = Some v" and q: "HandleQuorum now v sigs p = Inr p1"
    and p': "p' = put_state hash (s\<lparr>st_submitted := True\<rparr>) p1"
    using check by (auto simp: checkForQuorum_def chk_eq_Inr split: if_splits option.splits)
  let ?w = "(pv_VAA v)\<lparr>vaa_Signatures := sigs\<rparr>"
  have inv: "state_inv c G hash s" and p_gs: "p_gs p \<noteq> None"
    using p s by (auto simp: p_inv_def)
  have gs: "gs \<in> G" "vaa_GuardianSetIndex ?w = gs_Index gs" "vaa_Version ?w = SupportedVAAVersion"
    "length (vaa_EmitterAddress ?w) = 32"
    and signed: "\<forall>a sg. map_of (st_signatures s) a = Some sg \<longrightarrow> signed_by c (SigningDigest c (pv_VAA v)) a sg"
    using inv v gs by (auto simp: state_inv_def)
  have ok: "VAA_Verify c ?w (Some (gs_Keys gs)) = Inr () \<and> length sigs \<le> 255 \<and> list_all wf_Signature sigs"
    using G gs(1) by (intro signatures_verify [OF _ sigs signed]) simp_all
  have "sound_msg c G (GM_SignedVaaWithQuorum b)" if "VAA_Marshal ?w = Inr b" for b
  proof -
    have "length (vaa_Signatures ?w) \<le> 255" "list_all wf_Signature (vaa_Signatures ?w)"
      using ok by simp_all
    from Marshal_decodes [OF gs(3,4) this that, of c] obtain w where
      "VAA_Unmarshal b = Inr w" "SigningDigest c w = SigningDigest c ?w" "vaa_Signatures w = vaa_Signatures ?w"
      "vaa_GuardianSetIndex w = vaa_GuardianSetIndex ?w"
      by blast
    with ok gs(1,2) Verify_same [of c w ?w] show ?thesis
      by (auto simp: sound_msg_def)
  qed
  moreover obtain p2 where "broadcastSignedVAA ?w p = Inr p2" "p1 = storeSignedVAA now ?w p2"
    using q by (auto simp: HandleQuorum_def chk_eq_Inr Let_def)
  moreover have "quorate c G ?w"
    using ok gs(1) by (auto simp: quorate_def)
  moreover have "p_gs p1 = p_gs p"
    using calculation(2,3) by (auto simp: broadcastSignedVAA_def storeSignedVAA_def split: sum.splits if_splits)
  moreover have "state_inv c G hash (s\<lparr>st_submitted := True\<rparr>)"
    using inv by (simp add: state_inv_submitted)
  ultimately show ?thesis
    using p p_gs broadcastSignedVAA_inv storeSignedVAA_inv p_inv_put_state unfolding p' by metis
qed

section \<open>Every handler keeps it\<close>

lemma state_inv_add:
  assumes "state_inv c G (hex_encode d) s" and "signed_by c d a sg"
  shows "state_inv c G (hex_encode d) (s\<lparr>st_signatures := AList.update a sg (st_signatures s)\<rparr>)"
  using assms by (cases "st_ourObservation s") (auto simp: state_inv_def hex_encode_inj update_conv distinct_update)

lemma get_or_create_inv:
  assumes "p_inv c G p" and "get_or_create Int63n now source (hex_encode d) p = Inr s"
  shows "state_inv c G (hex_encode d) s"
proof (cases "p_state p (hex_encode d)")
  case None
  with assms(2) show ?thesis
    by (auto simp: get_or_create_def chk_eq_Inr new_state_def state_inv_def)
next
  case (Some t)
  with assms show ?thesis
    by (auto simp: get_or_create_def p_inv_def)
qed

lemma handleSingleObservation_inv:
  assumes p: "p_inv c G p" and G: "\<forall>gs \<in> G. good_gs gs" and c: "ecrecover_65 c"
    and step: "handleSingleObservation c Int63n now addr m p = Inr p'"
  shows "p_inv c G p'"
proof (cases "p' = p")
  case True
  with p show ?thesis by simp
next
  case False
  let ?a = "BytesToEthAddress c addr" and ?hash = "hex_encode (ob_Hash m)"
  obtain gs pk s where gs: "state_gs (p_state p ?hash) p = Some gs"
    and pk: "Ecrecover c (ob_Hash m) (ob_Signature m) = Inr pk" "?a = BytesToEthAddress c (drop 12 (Keccak256 c (drop 1 pk)))"
    and s: "get_or_create Int63n now ''unknown'' ?hash p = Inr s"
    and p': "let s' = s\<lparr>st_signatures := AList.update ?a (ob_Signature m) (st_signatures s)\<rparr>; q = put_state ?hash s' p
      in (if st_ourObservation s' \<noteq> None then checkForQuorum now s' gs ?hash q else Inr q) = Inr p'"
    using step False by (auto simp: handleSingleObservation_def Let_def chk_eq_Inr split: if_splits option.splits sum.splits)
  let ?s = "s\<lparr>st_signatures := AList.update ?a (ob_Signature m) (st_signatures s)\<rparr>"
  have "signed_by c (ob_Hash m) ?a (ob_Signature m)"
    using c pk by (auto simp: signed_by_def ecrecover_65_def verifySignature_def)
  then have inv: "state_inv c G ?hash ?s"
    by (rule state_inv_add [OF get_or_create_inv [OF p s]])
  have "p_gs p \<noteq> None"
    using p gs by (auto simp: p_inv_def state_gs_def split: option.splits)
  with p inv have q: "p_inv c G (put_state ?hash ?s p)"
    by (rule p_inv_put_state)
  show ?thesis
  proof (cases "st_ourObservation s = None")
    case True
    with p' q show ?thesis by (simp add: Let_def)
  next
    case own: False
    then have "p_state p ?hash = Some s"
      using s by (auto simp: get_or_create_def chk_eq_Inr new_state_def split: option.splits)
    then have "st_gs ?s = Some gs"
      using own gs inv by (auto simp: state_gs_def state_inv_def split: option.splits)
    then show ?thesis
      using p' own by (intro checkForQuorum_inv [OF q G, of ?hash ?s gs now]) (auto simp: put_state_def Let_def)
  qed
qed

lemma handleBatchObservation_inv:
  assumes "p_inv c G p" and "\<forall>gs \<in> G. good_gs gs" and "ecrecover_65 c"
    and "handleBatchObservation c Int63n now addr ms p = Inr p'"
  shows "p_inv c G p'"
  using assms(1,4)
  by (induction ms arbitrary: p) (auto simp: chk_eq_Inr intro: handleSingleObservation_inv [OF _ assms(2,3)])

lemma broadcastSignature_frame:
  assumes "broadcastSignature mid k digest sg im p = ((obs, msg), p')"
  shows "p_state p' = p_state p \<and> p_gs p' = p_gs p \<and> p_updatedVAAs p' = p_updatedVAAs p \<and> p_ourAddr p' = p_ourAddr p \<and>
    p_pythnetVaas p' = p_pythnetVaas p \<and> p_gossipVaaSendC p' = p_gossipVaaSendC p \<and> p_db p' = p_db p"
  using assms by (auto simp: broadcastSignature_def Let_def publishImmediately_def publishBatch_def
      postObservationToBatch_def split: if_splits)

lemma handleMessage_inv:
  assumes p: "p_inv c G p" and G: "\<forall>gs \<in> G. good_gs gs" and sign: "signer_correct c sign (p_ourAddr p)"
    and k: "length (mp_EmitterAddress k) = 32" and step: "handleMessage c sign Int63n now k p = Inr p'"
  shows "p_inv c G p'"
proof (cases "p_gs p")
  case None
  with p step show ?thesis by (simp add: handleMessage_def)
next
  case (Some gs)
  define v where "v = \<lparr>pv_VAA = CreateVAA (gs_Index gs) k, pv_Unreliable = mp_Unreliable k,
    pv_Reobservation = mp_IsReobservation k\<rparr>"
  let ?digest = "SigningDigest c (pv_VAA v)"
  obtain sg ourObs msg q s where sg: "sign ?digest = Inr sg"
    and q: "broadcastSignature (MessageID (pv_VAA v)) k ?digest sg (shouldPublishImmediately (pv_VAA v)) p = ((ourObs, msg), q)"
    and s: "get_or_create Int63n now ''loopback'' (hex_encode ?digest) q = Inr s"
    and p': "let s' = s\<lparr>st_ourObservation := Some v, st_txHash := mp_TxID k,
          st_source := ChainID_String (vaa_EmitterChain (pv_VAA v)), st_gs := p_gs q,
          st_signatures := AList.update (p_ourAddr q) sg (st_signatures s),
          st_ourObs := Some ourObs, st_ourMsg := msg\<rparr>; r = put_state (hex_encode ?digest) s' q
      in (if \<not> st_submitted s' then checkForQuorum now s' gs (hex_encode ?digest) r else Inr r) = Inr p'"
    using step Some unfolding handleMessage_def v_def CreateVAA_def
    by (auto simp: Let_def chk_eq_Inr split: sum.splits prod.splits)
  note frame = broadcastSignature_frame [OF q]
  have inv_q: "p_inv c G q"
    using p frame by (intro p_inv_frame [OF p]) auto
  let ?s = "s\<lparr>st_ourObservation := Some v, st_txHash := mp_TxID k,
          st_source := ChainID_String (vaa_EmitterChain (pv_VAA v)), st_gs := p_gs q,
          st_signatures := AList.update (p_ourAddr q) sg (st_signatures s),
          st_ourObs := Some ourObs, st_ourMsg := msg\<rparr>"
  have "signed_by c ?digest (p_ourAddr q) sg"
    using sign sg frame by (simp add: signer_correct_def)
  from state_inv_add [OF get_or_create_inv [OF inv_q s] this]
  have "distinct (map fst (st_signatures ?s)) \<and> (\<forall>a sg. map_of (st_signatures ?s) a = Some sg \<longrightarrow> signed_by c ?digest a sg)"
    by (auto simp: state_inv_def hex_encode_inj)
  moreover have "gs \<in> G" "p_gs q = Some gs"
    using p Some frame by (auto simp: p_inv_def)
  ultimately have "state_inv c G (hex_encode ?digest) ?s"
    using k by (simp add: state_inv_def v_def CreateVAA_def)
  then have r: "p_inv c G (put_state (hex_encode ?digest) ?s q)"
    using \<open>p_gs q = Some gs\<close> by (intro p_inv_put_state [OF inv_q]) simp_all
  show ?thesis
  proof (cases "st_submitted s")
    case True
    with p' r show ?thesis by (simp add: Let_def)
  next
    case False
    then show ?thesis
      using p' \<open>p_gs q = Some gs\<close>
      by (intro checkForQuorum_inv [OF r G, of "hex_encode ?digest" ?s gs now]) (auto simp: put_state_def Let_def)
  qed
qed

lemma handleInbound_inv:
  assumes "p_inv c G p"
  shows "p_inv c G (handleInboundSignedVAAWithQuorum c B now m p)"
proof -
  have "p_inv c G (storeSignedVAA now v p)" if "p_gs p = Some gs" "VAA_Verify c v (Some (gs_Keys gs)) = Inr u" for v gs u
    using that assms by (intro storeSignedVAA_inv) (auto simp: quorate_def p_inv_def)
  with assms show ?thesis
    by (auto simp: handleInboundSignedVAAWithQuorum_def split: sum.splits option.splits)
qed

end
