(* ===== verification/Cleanup.thy ===== *)
theory Cleanup imports AggregationInv begin

text \<open>
  The periodic work of node/pkg/processor: cleanup.go, which settles, retries and expires the states of
  observations, and vaaWriter of processor.go, which writes the signed VAAs to the database. Metrics
  and logging are left out. The order in which the map of states is ranged over is an argument, and
  Int63n is given the key of the entry it is drawn for.
\<close>

definition settlementTime :: time where "settlementTime = 30 * 1000000000"
definition hours :: "int \<Rightarrow> time" where "hours n = n * 60 * minute"
definition retryLimitOurs :: time where "retryLimitOurs = hours 30"
definition retryLimitNotOurs :: time where "retryLimitNotOurs = hours 1"

section \<open>One state\<close>

definition is_panic :: "go_error \<Rightarrow> bool" where
  "is_panic e = (case e of Panic _ \<Rightarrow> True | _ \<Rightarrow> False)"

definition signedVaaAlreadyInDB :: "crypto \<Rightarrow> 's badger \<Rightarrow> string \<Rightarrow> obs_state \<Rightarrow> 's processor \<Rightarrow> go_error + bool" where
  "signedVaaAlreadyInDB c B hash s p =
     (case st_ourObservation s of
        None \<Rightarrow> Inr False
      | Some ours \<Rightarrow>
          let msgId = MessageID (pv_VAA ours);
              compare = (\<lambda>v. if hash \<noteq> hex_encode (SigningDigest c v) then Inl (Errorf ''hash mismatch'') else Inr True)
          in chk (wrap ''failed to generate VAA ID from message id'' (VaaIDFromString msgId)) (\<lambda>vaaID.
             case getVaaFromUpdateMap msgId p of
               Some v \<Rightarrow> compare v
             | None \<Rightarrow>
                 if \<not> p_hasDb p then Inl (Panic ''nil pointer dereference'')
                 else (case GetSignedVAABytes B vaaID (p_db p) of
                   Inl e \<Rightarrow> if e = ErrVAANotFound then Inr False
                            else Inl (Wrap ''failed to look up message id in db'' (Some e))
                 | Inr vb \<Rightarrow> chk (wrap ''failed to unmarshal VAA'' (VAA_Unmarshal vb)) compare)))"

definition del_state :: "string \<Rightarrow> 's processor \<Rightarrow> 's processor" where
  "del_state hash p = p\<lparr>p_state := (p_state p)(hash := None)\<rparr>"

text \<open>The part of the loop that sends our observation again and asks for a reobservation.\<close>

definition resubmit :: "(int \<Rightarrow> int) \<Rightarrow> time \<Rightarrow> string \<Rightarrow> obs_state \<Rightarrow> ProcVAA \<Rightarrow> Observation \<Rightarrow> 's processor \<Rightarrow>
    go_error + 's processor" where
  "resubmit Int63n now hash s ours ourObs p =
     (let req = \<lparr>or_ChainId = ucast (vaa_EmitterChain (pv_VAA ours)), or_TxHash = st_txHash s\<rparr>;
          p = p\<lparr>p_obsvReqSendC := snd (PostObservationRequest req (p_obsvReqSendC p))\<rparr>;
          p = (case st_ourMsg s of
                 Some msg \<Rightarrow> p\<lparr>p_gossipAttestationSendC := chan_send msg (p_gossipAttestationSendC p)\<rparr>
               | None \<Rightarrow> postObservationToBatch ourObs p);
          ctr = st_retryCtr s + 1
      in chk (nextRetryDuration Int63n ctr) (\<lambda>d.
         Inr (put_state hash (s\<lparr>st_retryCtr := ctr, st_nextRetry := now + d\<rparr>) p)))"

definition cleanup_retry :: "crypto \<Rightarrow> 's badger \<Rightarrow> (int \<Rightarrow> int) \<Rightarrow> time \<Rightarrow> string \<Rightarrow> obs_state \<Rightarrow> 's processor \<Rightarrow>
    go_error + 's processor" where
  "cleanup_retry c B Int63n now hash s p =
     (case st_ourObs s of
        None \<Rightarrow> Inr (del_state hash p)
      | Some ourObs \<Rightarrow>
          (case st_ourObservation s of
             None \<Rightarrow> Inl (Panic ''nil pointer dereference'')
           | Some ours \<Rightarrow>
               if \<not> IsReliable ours then Inr (del_state hash p)
               else if IsReobservation ours then Inr p
               else (case signedVaaAlreadyInDB c B hash s p of
                   Inl e \<Rightarrow> if is_panic e then Inl e else resubmit Int63n now hash s ours ourObs p
                 | Inr True \<Rightarrow> Inr p
                 | Inr False \<Rightarrow> resubmit Int63n now hash s ours ourObs p)))"

text \<open>\<open>delta.Hours() >= 1\<close> holds from one hour on: the float of a shorter duration stays below 1.\<close>

definition cleanup_entry :: "crypto \<Rightarrow> 's badger \<Rightarrow> (int \<Rightarrow> int) \<Rightarrow> time \<Rightarrow> string \<Rightarrow> obs_state \<Rightarrow> 's processor \<Rightarrow>
    go_error + 's processor" where
  "cleanup_entry c B Int63n now hash s p =
     (let delta = now - st_firstObserved s in
      if \<not> st_submitted s \<and> settlementTime < delta \<and>
         (case st_ourObservation s of Some ours \<Rightarrow> haveSignedVAA B (VaaIDFromVAA (pv_VAA ours)) p | None \<Rightarrow> False)
      then Inr (del_state hash p)
      else if \<not> st_settled s \<and> settlementTime < delta then
        (case state_gs (Some s) p of
           None \<Rightarrow> Inl (Panic ''nil pointer dereference'')
         | Some gs \<Rightarrow> Inr (put_state hash (s\<lparr>st_settled := True\<rparr>) p))
      else if st_submitted s \<and> hours 1 \<le> delta then Inr (del_state hash p)
      else if \<not> st_submitted s \<and> ((st_ourObs s \<noteq> None \<and> retryLimitOurs < delta) \<or>
          (st_ourObs s = None \<and> retryLimitNotOurs < delta)) then Inr (del_state hash p)
      else if \<not> st_submitted s \<and> FirstRetryMinWait \<le> delta \<and> 0 \<le> now - st_nextRetry s
      then cleanup_retry c B Int63n now hash s p
      else Inr p)"

fun cleanup_loop :: "crypto \<Rightarrow> 's badger \<Rightarrow> (string \<Rightarrow> int \<Rightarrow> int) \<Rightarrow> time \<Rightarrow> string list \<Rightarrow> 's processor \<Rightarrow>
    go_error + 's processor" where
  "cleanup_loop c B Int63n now [] p = Inr p"
| "cleanup_loop c B Int63n now (hash # order) p =
     (case p_state p hash of
        None \<Rightarrow> cleanup_loop c B Int63n now order p
      | Some s \<Rightarrow> chk (cleanup_entry c B (Int63n hash) now hash s p) (cleanup_loop c B Int63n now order))"

definition expire_pythnet :: "time \<Rightarrow> (string \<rightharpoonup> VAA \<times> time) \<Rightarrow> (string \<rightharpoonup> VAA \<times> time)" where
  "expire_pythnet now m = (\<lambda>key. case m key of
     Some (v, updateTime) \<Rightarrow> (if updateTime < now - hours 1 then None else Some (v, updateTime))
   | None \<Rightarrow> None)"

definition handleCleanup :: "crypto \<Rightarrow> 's badger \<Rightarrow> (string \<Rightarrow> int \<Rightarrow> int) \<Rightarrow> time \<Rightarrow> string list \<Rightarrow> 's processor \<Rightarrow>
    go_error + 's processor" where
  "handleCleanup c B Int63n now order p =
     chk (cleanup_loop c B Int63n now order p) (\<lambda>p.
       Inr (p\<lparr>p_pythnetVaas := expire_pythnet now (p_pythnetVaas p)\<rparr>))"

section \<open>Writing VAAs\<close>

text \<open>
  A tick of vaaWriter takes the lock twice; other handlers may run in between. order lists the keys of
  the map in the order it is copied.
\<close>

definition vaaWriter_copy :: "string list \<Rightarrow> 's processor \<Rightarrow> VAA list \<times> 's processor" where
  "vaaWriter_copy order p =
     (List.map_filter (\<lambda>key. map_option fst (p_updatedVAAs p key)) order,
      p\<lparr>p_updatedVAAs := (\<lambda>key. map_option (\<lambda>(v, dirty). (v, False)) (p_updatedVAAs p key))\<rparr>)"

definition vaaWriter_store :: "'s write_batch \<Rightarrow> VAA list \<Rightarrow> 's processor \<Rightarrow> (go_error + unit) \<times> 's processor" where
  "vaaWriter_store W vaaBatch p =
     (if \<not> p_hasDb p then (Inl (Panic ''nil pointer dereference''), p)
      else case StoreSignedVAABatch W vaaBatch (p_db p) of (r, s) \<Rightarrow> (r, p\<lparr>p_db := s\<rparr>))"

definition vaaWriter_delete :: "'s processor \<Rightarrow> 's processor" where
  "vaaWriter_delete p = p\<lparr>p_updatedVAAs := (\<lambda>key. case p_updatedVAAs p key of
     Some (v, dirty) \<Rightarrow> (if dirty then Some (v, dirty) else None) | None \<Rightarrow> None)\<rparr>"

text \<open>A tick that nothing interrupts. The error of the write is only logged.\<close>

definition vaaWriter :: "'s write_batch \<Rightarrow> string list \<Rightarrow> 's processor \<Rightarrow> go_error + 's processor" where
  "vaaWriter W order p =
     (if p_updatedVAAs p = Map.empty then Inr p
      else case vaaWriter_copy order p of (vaaBatch, p) \<Rightarrow>
        (case vaaWriter_store W vaaBatch p of
           (Inl e, p) \<Rightarrow> if is_panic e then Inl e else Inr (vaaWriter_delete p)
         | (Inr _, p) \<Rightarrow> Inr (vaaWriter_delete p)))"

end
