(* ===== verification/CleanupInv.thy ===== *)
theory CleanupInv imports Cleanup begin

text \<open>
  What the periodic work of the processor keeps: the invariant of the aggregation, the bound on the
  number of retries that keeps the backoff from overflowing, and so that it never panics. Then what
  becomes of an observation of our own, and of the VAAs waiting to be written.
\<close>

section \<open>Backoff\<close>

text \<open>Int63n of math/rand: a number below its positive argument.\<close>

definition Int63n_ok :: "(int \<Rightarrow> int) \<Rightarrow> bool" where
  "Int63n_ok f \<longleftrightarrow> (\<forall>n > 0. 0 \<le> f n \<and> f n < n)"

lemma sint_small: "- (2 ^ 63) \<le> k \<Longrightarrow> k < 2 ^ 63 \<Longrightarrow> sint (word_of_int k :: 64 word) = k"
  by (simp add: signed_of_int signed_take_bit_int_eq_self)

lemma nextRetryDuration_small:
  assumes "Int63n_ok f" and "unat ctr \<le> 9"
  shows "\<exists>d. nextRetryDuration f ctr = Inr d \<and> FirstRetryMinWait * 2 ^ unat ctr \<le> d \<and>
    d < 2 * (FirstRetryMinWait * 2 ^ unat ctr)"
proof -
  let ?k = "unat ctr"
  let ?w = "FirstRetryMinWait * 2 ^ ?k"
  have "(2::int) ^ ?k \<le> 2 ^ 9" "(1::int) \<le> 2 ^ ?k"
    using assms(2) power_increasing [of ?k 9 "2::int"] by simp_all
  then have w: "0 < ?w" "?w < 2 ^ 62"
    by (simp_all add: FirstRetryMinWait_def minute_def)
  have "word_of_int FirstRetryMinWait * push_bit ?k 1 = (word_of_int ?w :: 64 word)"
    by (simp add: push_bit_eq_mult)
  moreover have "sint (word_of_int ?w :: 64 word) = ?w"
    using w by (intro sint_small) simp_all
  moreover have "0 \<le> f ?w" "f ?w < ?w"
    using assms(1) w(1) by (simp_all add: Int63n_ok_def)
  moreover from this have "sint (word_of_int (?w + f ?w) :: 64 word) = ?w + f ?w"
    using w by (intro sint_small) simp_all
  ultimately show ?thesis
    using w by (simp add: nextRetryDuration_def Let_def)
qed

definition retry_ok :: "obs_state \<Rightarrow> bool" where
  "retry_ok s \<longleftrightarrow> unat (st_retryCtr s) \<le> 9 \<and>
     (st_retryCtr s = 0 \<or> FirstRetryMinWait * 2 ^ unat (st_retryCtr s) \<le> st_nextRetry s - st_firstObserved s)"

text \<open>A retry is made within 30 hours of the first observation, so the counter is at most 8 before it.\<close>

lemma retry_ok_step:
  assumes "retry_ok s" and "now - st_firstObserved s \<le> retryLimitOurs" and "FirstRetryMinWait \<le> now - st_firstObserved s"
    and "0 \<le> now - st_nextRetry s" and "Int63n_ok f"
  shows "\<exists>d. nextRetryDuration f (st_retryCtr s + 1) = Inr d \<and>
    retry_ok (s\<lparr>st_retryCtr := st_retryCtr s + 1, st_nextRetry := now + d\<rparr>)"
proof -
  let ?k = "unat (st_retryCtr s)"
  have "?k \<le> 8"
  proof (rule ccontr)
    assume k: "\<not> ?k \<le> 8"
    with assms(1) have "?k = 9" by (simp add: retry_ok_def)
    moreover have "st_retryCtr s \<noteq> 0"
      using k by auto
    ultimately have "FirstRetryMinWait * 2 ^ 9 \<le> retryLimitOurs"
      using assms(1,2,4) by (auto simp: retry_ok_def)
    then show False
      by (simp add: FirstRetryMinWait_def retryLimitOurs_def hours_def minute_def)
  qed
  then have k: "unat (st_retryCtr s + 1) = Suc ?k"
    using unat_plus_if' [of "st_retryCtr s" 1] by simp
  with nextRetryDuration_small [OF assms(5), of "st_retryCtr s + 1"] \<open>?k \<le> 8\<close> assms(3) show ?thesis
    by (auto simp: retry_ok_def FirstRetryMinWait_def minute_def)
qed

section \<open>The invariant of the processor\<close>

definition retries_ok :: "'s processor \<Rightarrow> bool" where
  "retries_ok p \<longleftrightarrow> (\<forall>hash s. p_state p hash = Some s \<longrightarrow> retry_ok s)"

lemma state_updates [simp]:
  "p_state (put_state hash s p) = (p_state p)(hash \<mapsto> s)" "p_hasDb (put_state hash s p) = p_hasDb p"
  "p_state (del_state hash p) = (p_state p)(hash := None)" "p_hasDb (del_state hash p) = p_hasDb p"
  by (simp_all add: put_state_def del_state_def)

lemma p_inv_del_state: "p_inv c G p \<Longrightarrow> p_inv c G (del_state hash p)"
  by (auto simp: p_inv_def del_state_def)

lemma retries_ok_updates:
  "retries_ok p \<Longrightarrow> retries_ok (del_state hash p)"
  "retries_ok p \<Longrightarrow> retry_ok s \<Longrightarrow> retries_ok (put_state hash s p)"
  by (auto simp: retries_ok_def del_state_def put_state_def)

lemma state_inv_time:
  "state_inv c G hash (s\<lparr>st_retryCtr := k, st_nextRetry := t\<rparr>) = state_inv c G hash s"
  "state_inv c G hash (s\<lparr>st_settled := b\<rparr>) = state_inv c G hash s"
  by (cases "st_ourObservation s"; simp add: state_inv_def)+

lemma signedVaaAlreadyInDB_no_panic:
  "p_hasDb p \<Longrightarrow> signedVaaAlreadyInDB c B hash s p = Inl e \<Longrightarrow> length (vaa_EmitterAddress (pv_VAA v)) = 32 \<Longrightarrow>
     st_ourObservation s = Some v \<Longrightarrow> \<not> is_panic e"
  by (auto simp: signedVaaAlreadyInDB_def Let_def chk_def wrap_def is_panic_def split: sum.splits option.splits if_splits)

definition cleanup_inv :: "crypto \<Rightarrow> GuardianSet set \<Rightarrow> 's processor \<Rightarrow> bool" where
  "cleanup_inv c G p \<longleftrightarrow> p_inv c G p \<and> retries_ok p \<and> p_hasDb p"

lemma resubmit_ok:
  assumes p: "cleanup_inv c G p" and s: "p_state p hash = Some s" and f: "Int63n_ok f"
    and t: "now - st_firstObserved s \<le> retryLimitOurs" "FirstRetryMinWait \<le> now - st_firstObserved s" "0 \<le> now - st_nextRetry s"
  shows "\<exists>p'. resubmit f now hash s ours obs p = Inr p' \<and> cleanup_inv c G p' \<and>
    (\<exists>d. p_state p' = (p_state p)(hash \<mapsto> s\<lparr>st_retryCtr := st_retryCtr s + 1, st_nextRetry := now + d\<rparr>)) \<and>
    p_updatedVAAs p' = p_updatedVAAs p \<and> p_pythnetVaas p' = p_pythnetVaas p \<and> p_db p' = p_db p"
proof -
  have inv: "state_inv c G hash s" "p_gs p \<noteq> None" "retry_ok s"
    using p s by (auto simp: cleanup_inv_def p_inv_def retries_ok_def)
  obtain d where d: "nextRetryDuration f (st_retryCtr s + 1) = Inr d"
    "retry_ok (s\<lparr>st_retryCtr := st_retryCtr s + 1, st_nextRetry := now + d\<rparr>)"
    using retry_ok_step [OF inv(3) t f] by blast
  let ?s = "s\<lparr>st_retryCtr := st_retryCtr s + 1, st_nextRetry := now + d\<rparr>"
  obtain q where q: "resubmit f now hash s ours obs p = Inr (put_state hash ?s q)"
    and frame: "p_state q = p_state p" "p_gs q = p_gs p" "p_updatedVAAs q = p_updatedVAAs p" "p_hasDb q = p_hasDb p"
      "p_pythnetVaas q = p_pythnetVaas p" "p_gossipVaaSendC q = p_gossipVaaSendC p" "p_db q = p_db p"
    using d(1) by (cases "st_ourMsg s") (auto simp: resubmit_def Let_def postObservationToBatch_def)
  have "p_inv c G q" "retries_ok q"
    using p frame by (auto simp: cleanup_inv_def retries_ok_def intro: p_inv_frame)
  then have "p_inv c G (put_state hash ?s q)" "retries_ok (put_state hash ?s q)"
    using inv d(2) frame by (auto intro!: p_inv_put_state retries_ok_updates simp: state_inv_time)
  with p q frame show ?thesis
    by (auto simp: cleanup_inv_def put_state_def)
qed

section \<open>A pass over the states\<close>

text \<open>What a pass leaves alone, and that the queues only grow.\<close>

definition grows :: "'a channel \<Rightarrow> 'a channel \<Rightarrow> bool" where
  "grows ch ch' \<longleftrightarrow> ch_Cap ch' = ch_Cap ch \<and> (\<exists>ys. ch_Items ch' = ch_Items ch @ ys)"

definition pass_frame :: "'s processor \<Rightarrow> 's processor \<Rightarrow> bool" where
  "pass_frame p p' \<longleftrightarrow> p_updatedVAAs p' = p_updatedVAAs p \<and> p_pythnetVaas p' = p_pythnetVaas p \<and> p_db p' = p_db p \<and>
     p_hasDb p' = p_hasDb p \<and> grows (p_gossipAttestationSendC p) (p_gossipAttestationSendC p') \<and>
     grows (p_batchObsvPubC p) (p_batchObsvPubC p')"

lemma grows_refl [simp]: "grows ch ch"
  by (simp add: grows_def)

lemma grows_send [simp]: "grows ch (chan_send x ch)" "grows ch (snd (try_send x ch))"
  by (auto simp: grows_def try_send_def)

lemma grows_trans: "grows a b \<Longrightarrow> grows b d \<Longrightarrow> grows a d"
  by (auto simp: grows_def)

lemma pass_frame_refl [simp]: "pass_frame p p"
  by (simp add: pass_frame_def)

lemma pass_frame_trans: "pass_frame p q \<Longrightarrow> pass_frame q r \<Longrightarrow> pass_frame p r"
  by (auto simp: pass_frame_def intro: grows_trans)

lemma pass_frame_updates [simp]:
  "pass_frame p (del_state hash p)" "pass_frame p (put_state hash s p)"
  by (simp_all add: pass_frame_def del_state_def put_state_def)

lemma have_frame: "pass_frame p p' \<Longrightarrow> haveSignedVAA B i p' = haveSignedVAA B i p"
  by (simp add: pass_frame_def haveSignedVAA_def getVaaFromUpdateMap_def)

lemma resubmit_frame: "resubmit f now hash s ours obs p = Inr p' \<Longrightarrow> pass_frame p p'"
  by (auto simp: resubmit_def Let_def chk_eq_Inr postObservationToBatch_def put_state_def pass_frame_def
      split: option.splits)

definition entry_ok :: "crypto \<Rightarrow> GuardianSet set \<Rightarrow> string \<Rightarrow> 's processor \<Rightarrow> 's processor \<Rightarrow> bool" where
  "entry_ok c G hash p p' \<longleftrightarrow> cleanup_inv c G p' \<and> pass_frame p p' \<and> (\<exists>r. p_state p' = (p_state p)(hash := r))"

lemma entry_ok_del: "cleanup_inv c G p \<Longrightarrow> entry_ok c G hash p (del_state hash p)"
  using p_inv_del_state [of c G p hash] retries_ok_updates(1) [of p hash]
  by (auto simp: entry_ok_def cleanup_inv_def)

lemma entry_ok_same: "cleanup_inv c G p \<Longrightarrow> entry_ok c G hash p p"
  by (auto simp: entry_ok_def intro: exI [of _ "p_state p hash"])

lemma entry_ok_settled:
  assumes "cleanup_inv c G p" and "p_state p hash = Some s"
  shows "entry_ok c G hash p (put_state hash (s\<lparr>st_settled := True\<rparr>) p)"
proof -
  have "state_inv c G hash s" "p_gs p \<noteq> None" "retry_ok s"
    using assms by (auto simp: cleanup_inv_def p_inv_def retries_ok_def)
  then have "p_inv c G (put_state hash (s\<lparr>st_settled := True\<rparr>) p)" "retries_ok (put_state hash (s\<lparr>st_settled := True\<rparr>) p)"
    using assms by (auto intro!: p_inv_put_state retries_ok_updates simp: cleanup_inv_def state_inv_time retry_ok_def)
  then show ?thesis
    using assms by (auto simp: entry_ok_def cleanup_inv_def)
qed

lemma cleanup_retry_ok:
  assumes p: "cleanup_inv c G p" and s: "p_state p hash = Some s" and f: "Int63n_ok f"
    and ours: "st_ourObs s \<noteq> None \<Longrightarrow> now - st_firstObserved s \<le> retryLimitOurs"
    and t: "FirstRetryMinWait \<le> now - st_firstObserved s" "0 \<le> now - st_nextRetry s"
  shows "\<exists>p'. cleanup_retry c B f now hash s p = Inr p' \<and> entry_ok c G hash p p'"
proof (cases "st_ourObs s")
  case None
  with entry_ok_del [OF p] show ?thesis by (simp add: cleanup_retry_def)
next
  case (Some obs)
  have "state_inv c G hash s"
    using p s by (auto simp: cleanup_inv_def p_inv_def)
  with Some obtain v where v: "st_ourObservation s = Some v" "length (vaa_EmitterAddress (pv_VAA v)) = 32"
    by (auto simp: state_inv_def split: option.splits)
  obtain q where q: "resubmit f now hash s v obs p = Inr q" "entry_ok c G hash p q"
    using resubmit_ok [OF p s f ours t, of v obs] Some resubmit_frame unfolding entry_ok_def by blast
  have np: "\<not> is_panic e" if "signedVaaAlreadyInDB c B hash s p = Inl e" for e
    using signedVaaAlreadyInDB_no_panic [OF _ that v(2,1)] p by (simp add: cleanup_inv_def)
  consider "\<not> IsReliable v" | "IsReliable v" "IsReobservation v" | "IsReliable v" "\<not> IsReobservation v"
    by blast
  then show ?thesis
  proof cases
    case 1
    with Some v entry_ok_del [OF p] show ?thesis by (simp add: cleanup_retry_def)
  next
    case 2
    with Some v entry_ok_same [OF p] show ?thesis by (simp add: cleanup_retry_def)
  next
    case 3
    with Some v q np entry_ok_same [OF p, of hash] show ?thesis
      by (cases "signedVaaAlreadyInDB c B hash s p") (simp_all add: cleanup_retry_def split: bool.splits)
  qed
qed

lemma cleanup_entry_ok:
  assumes p: "cleanup_inv c G p" and s: "p_state p hash = Some s" and f: "Int63n_ok f"
  shows "\<exists>p'. cleanup_entry c B f now hash s p = Inr p' \<and> entry_ok c G hash p p'"
proof -
  have "p_gs p \<noteq> None"
    using p s by (auto simp: cleanup_inv_def p_inv_def)
  then obtain gs where gs: "state_gs (Some s) p = Some gs"
    by (cases "st_gs s") (auto simp: state_gs_def)
  let ?retry = "\<not> st_submitted s \<and> FirstRetryMinWait \<le> now - st_firstObserved s \<and> 0 \<le> now - st_nextRetry s \<and>
    (st_ourObs s \<noteq> None \<longrightarrow> now - st_firstObserved s \<le> retryLimitOurs)"
  have "\<exists>p'. cleanup_retry c B f now hash s p = Inr p' \<and> entry_ok c G hash p p'" if ?retry
    using that by (intro cleanup_retry_ok [OF p s f]) simp_all
  then show ?thesis
    using entry_ok_del [OF p, of hash] entry_ok_same [OF p, of hash] entry_ok_settled [OF p s] gs
    unfolding cleanup_entry_def Let_def by (simp split: if_split) fastforce
qed

lemma cleanup_loop_ok:
  assumes "\<And>h. Int63n_ok (f h)"
  shows "cleanup_inv c G p \<Longrightarrow> \<exists>p'. cleanup_loop c B f now order p = Inr p' \<and> cleanup_inv c G p' \<and> pass_frame p p' \<and>
    (\<forall>h. h \<notin> set order \<longrightarrow> p_state p' h = p_state p h)"
proof (induction order arbitrary: p)
  case Nil
  then show ?case by simp
next
  case (Cons hash order)
  show ?case
  proof (cases "p_state p hash")
    case None
    with Cons.IH [OF Cons.prems] show ?thesis by fastforce
  next
    case (Some s)
    obtain q r where q: "cleanup_entry c B (f hash) now hash s p = Inr q" "cleanup_inv c G q" "pass_frame p q"
      "p_state q = (p_state p)(hash := r)"
      using cleanup_entry_ok [where f = "f hash" and B = B and now = now, OF Cons.prems Some assms]
      unfolding entry_ok_def by blast
    obtain p' where p': "cleanup_loop c B f now order q = Inr p'" "cleanup_inv c G p'" "pass_frame q p'"
      "\<forall>h. h \<notin> set order \<longrightarrow> p_state p' h = p_state q h"
      using Cons.IH [OF q(2)] by blast
    with q Some show ?thesis
      by (auto intro: pass_frame_trans)
  qed
qed

text \<open>A pass visits the entry of a key once, in a processor that has the same stores.\<close>

lemma cleanup_loop_visit:
  assumes "\<And>h. Int63n_ok (f h)" and "distinct order" and "hash \<in> set order"
  shows "cleanup_inv c G p \<Longrightarrow> p_state p hash = Some s \<Longrightarrow> cleanup_loop c B f now order p = Inr p' \<Longrightarrow>
    \<exists>q q'. cleanup_inv c G q \<and> pass_frame p q \<and> p_state q hash = Some s \<and>
      cleanup_entry c B (f hash) now hash s q = Inr q' \<and> pass_frame q' p' \<and> p_state p' hash = p_state q' hash"
  using assms(2,3)
proof (induction order arbitrary: p)
  case Nil
  then show ?case by simp
next
  case (Cons h order)
  show ?case
  proof (cases "h = hash")
    case True
    obtain q' where q': "cleanup_entry c B (f hash) now hash s p = Inr q'" "cleanup_inv c G q'"
      using cleanup_entry_ok [where f = "f hash" and B = B and now = now, OF Cons.prems(1,2) assms(1)]
      unfolding entry_ok_def by blast
    with Cons.prems True cleanup_loop_ok [of f c G q' B now order, OF assms(1) q'(2)] show ?thesis
      by (intro exI [of _ p] exI [of _ q']) auto
  next
    case False
    show ?thesis
    proof (cases "p_state p h")
      case None
      with Cons False show ?thesis by auto
    next
      case (Some t)
      obtain q where q: "cleanup_entry c B (f h) now h t p = Inr q" "cleanup_inv c G q" "pass_frame p q"
        "p_state q hash = Some s"
        using cleanup_entry_ok [OF Cons.prems(1) Some assms(1)] Cons.prems(2) False by (fastforce simp: entry_ok_def)
      with Cons.IH [of q] Cons.prems False Some show ?thesis
        by (auto intro: pass_frame_trans)
    qed
  qed
qed

lemma handleCleanup_ok:
  assumes "\<And>h. Int63n_ok (f h)" and "cleanup_inv c G p"
  shows "\<exists>p'. handleCleanup c B f now order p = Inr p' \<and> cleanup_inv c G p'"
proof -
  obtain p' where p': "cleanup_loop c B f now order p = Inr p'" "cleanup_inv c G p'"
    using cleanup_loop_ok [where f = f, OF assms] by blast
  moreover have "cleanup_inv c G (p'\<lparr>p_pythnetVaas := expire_pythnet now (p_pythnetVaas p')\<rparr>)"
  proof -
    have "expire_pythnet now m k = Some (v, t) \<Longrightarrow> m k = Some (v, t)" for m k v t
      by (auto simp: expire_pythnet_def split: option.splits if_splits)
    with p'(2) show ?thesis
      unfolding cleanup_inv_def p_inv_def retries_ok_def by simp blast
  qed
  ultimately show ?thesis
    by (simp add: handleCleanup_def)
qed

section \<open>An observation of our own\<close>

text \<open>The observation is on its way again: in the queue it is sent through, unless the batch queue is full.\<close>

definition sent_again :: "obs_state \<Rightarrow> 's processor \<Rightarrow> bool" where
  "sent_again s p \<longleftrightarrow> (case st_ourMsg s of
     Some msg \<Rightarrow> msg \<in> set (ch_Items (p_gossipAttestationSendC p))
   | None \<Rightarrow> (case st_ourObs s of None \<Rightarrow> False | Some obs \<Rightarrow>
       obs \<in> set (ch_Items (p_batchObsvPubC p)) \<or> ch_Cap (p_batchObsvPubC p) \<le> length (ch_Items (p_batchObsvPubC p))))"

lemma sent_again_grows: "sent_again s p \<Longrightarrow> pass_frame p p' \<Longrightarrow> sent_again s p'"
  by (auto simp: sent_again_def pass_frame_def grows_def split: option.splits)

lemma sent_again_pythnet [simp]: "sent_again s (p\<lparr>p_pythnetVaas := m\<rparr>) = sent_again s p"
  by (cases "st_ourMsg s"; cases "st_ourObs s") (simp_all add: sent_again_def)

lemma resubmit_sends:
  "st_ourObs s = Some obs \<Longrightarrow> resubmit f now hash s v obs p = Inr p' \<Longrightarrow> sent_again s p' \<and>
     (\<exists>d. p_state p' hash = Some (s\<lparr>st_retryCtr := st_retryCtr s + 1, st_nextRetry := now + d\<rparr>))"
  by (auto simp: resubmit_def Let_def chk_eq_Inr sent_again_def postObservationToBatch_def put_state_def try_send_def
      split: option.splits)

lemma not_in_db:
  assumes "st_ourObservation s = Some v" and "\<not> haveSignedVAA B (VaaIDFromVAA (pv_VAA v)) p" and "p_hasDb p"
    and "vaa_EmitterChain (pv_VAA v) \<noteq> ChainIDPythNet" and "length (vaa_EmitterAddress (pv_VAA v)) = 32"
  shows "signedVaaAlreadyInDB c B hash s p \<noteq> Inr True"
proof -
  let ?i = "VaaIDFromVAA (pv_VAA v)"
  have msgId: "MessageID (pv_VAA v) = VAAID_String ?i"
    by (simp add: MessageID_def VAAID_String_def VaaIDFromVAA_def)
  have "id_EmitterChain ?i \<noteq> ChainIDPythNet"
    using assms(4) by (simp add: VaaIDFromVAA_def)
  with assms(2,3) have u: "getVaaFromUpdateMap (VAAID_String ?i) p = None" "HasVAA B ?i (p_db p) \<noteq> Inr True"
    by (auto simp: haveSignedVAA_def split: if_splits)
  have "VaaIDFromString (VAAID_String ?i) = Inr ?i"
    using assms(5) VaaIDFromString_String [of ?i] by (simp add: VaaIDFromVAA_def)
  then show ?thesis
    using u(2) assms(1,3) by (auto simp: signedVaaAlreadyInDB_def Let_def msgId u(1) GetSignedVAABytes_def HasVAA_def
        split: sum.splits option.splits if_splits)
qed

lemma own_entry:
  assumes q: "cleanup_inv c G q" and s: "p_state q hash = Some s" and f: "Int63n_ok f"
    and v: "st_ourObservation s = Some v" and rel: "IsReliable v" and sub: "\<not> st_submitted s"
    and have_vaa: "\<not> haveSignedVAA B (VaaIDFromVAA (pv_VAA v)) q" and now: "now - st_firstObserved s \<le> retryLimitOurs"
    and step: "cleanup_entry c B f now hash s q = Inr q'"
  shows "\<exists>s'. p_state q' hash = Some s' \<and> st_ourObservation s' = Some v \<and> st_signatures s' = st_signatures s \<and>
    (st_settled s \<and> FirstRetryMinWait \<le> now - st_firstObserved s \<and> st_nextRetry s \<le> now \<and> \<not> IsReobservation v \<and>
       vaa_EmitterChain (pv_VAA v) \<noteq> ChainIDPythNet \<longrightarrow> st_retryCtr s' = st_retryCtr s + 1 \<and> sent_again s q')"
proof -
  obtain obs where obs: "st_ourObs s = Some obs" and addr: "length (vaa_EmitterAddress (pv_VAA v)) = 32"
  proof -
    have "state_inv c G hash s"
      using q s by (auto simp: cleanup_inv_def p_inv_def)
    with v that show ?thesis
      by (auto simp: state_inv_def)
  qed
  have db: "p_hasDb q"
    using q by (simp add: cleanup_inv_def)
  have keep: "\<exists>s'. p_state r hash = Some s' \<and> st_ourObservation s' = Some v \<and> st_signatures s' = st_signatures s"
    if "cleanup_retry c B f now hash s q = Inr r" for r
    using that v rel s obs resubmit_sends [OF obs, of f now hash v q r]
    by (auto simp: cleanup_retry_def split: sum.splits if_splits bool.splits)
  have sends: "\<exists>s'. p_state r hash = Some s' \<and> st_ourObservation s' = Some v \<and> st_signatures s' = st_signatures s \<and>
      st_retryCtr s' = st_retryCtr s + 1 \<and> sent_again s r"
    if "cleanup_retry c B f now hash s q = Inr r" "\<not> IsReobservation v" "vaa_EmitterChain (pv_VAA v) \<noteq> ChainIDPythNet" for r
    using that v rel obs resubmit_sends [OF obs, of f now hash v q r] not_in_db [OF v have_vaa db that(3) addr, of c hash]
    by (auto simp: cleanup_retry_def split: sum.splits if_splits bool.splits)
  show ?thesis
    using step keep sends v sub have_vaa now obs s
    by (auto simp: cleanup_entry_def Let_def put_state_def split: if_splits option.splits)
qed


text \<open>A node with one of two guardian keys, which has observed a message.\<close>

definition node_crypto :: crypto where
  "node_crypto = toy_crypto\<lparr>Ecrecover := (\<lambda>_ s. if length s = 65 then Inr (4 # take 20 s) else Inl (Errorf ''invalid signature length''))\<rparr>"

definition node_sign :: "byte list \<Rightarrow> go_error + byte list" where
  "node_sign h = Inr (toy_guardian 7 @ replicate 45 0)"

definition two_gs :: GuardianSet where
  "two_gs = \<lparr>gs_Keys = [toy_guardian 7, toy_guardian 8], gs_Index = 3, gs_quorum = 2,
     gs_keyMap = Some (key_map [toy_guardian 7, toy_guardian 8])\<rparr>"

definition node :: "(byte list \<rightharpoonup> byte list) processor" where
  "node = (NewProcessor True Map.empty (make_chan 10) (make_chan 10) (make_chan 10) (toy_guardian 7)
     (NewGuardianSetState None) None None None)\<lparr>p_gs := Some two_gs\<rparr>"

definition node_hash :: string where
  "node_hash = hex_encode (SigningDigest node_crypto (CreateVAA 3 sample_msg))"

definition node_state :: obs_state where
  "node_state = (new_state 0 (5 * minute) ''loopback'')\<lparr>
     st_ourObservation := Some \<lparr>pv_VAA = CreateVAA 3 sample_msg, pv_Unreliable = False, pv_Reobservation = False\<rparr>,
     st_signatures := [(toy_guardian 7, toy_guardian 7 @ replicate 45 0)], st_settled := True,
     st_ourObs := Some \<lparr>ob_Hash = SigningDigest node_crypto (CreateVAA 3 sample_msg),
       ob_Signature = toy_guardian 7 @ replicate 45 0, ob_TxHash = mp_TxID sample_msg,
       ob_MessageId = MessageIDString sample_msg\<rparr>,
     st_txHash := mp_TxID sample_msg, st_gs := Some two_gs\<rparr>"

lemma good_two_gs: "good_gs two_gs"
  by (simp add: good_gs_def two_gs_def NewGuardianSet_def CalculateQuorum_def toy_guardian_def)

lemma node_signed: "signed_by node_crypto h (toy_guardian 7) (toy_guardian 7 @ replicate 45 0)"
  by (simp add: signed_by_def verifySignature_def node_crypto_def toy_crypto_def toy_guardian_def)

lemma sample_vaa:
  "length (vaa_EmitterAddress (CreateVAA i sample_msg)) = 32" "vaa_Version (CreateVAA i sample_msg) = SupportedVAAVersion"
  "vaa_GuardianSetIndex (CreateVAA i sample_msg) = i" "vaa_EmitterChain (CreateVAA i sample_msg) \<noteq> ChainIDPythNet"
  by (simp_all add: CreateVAA_def sample_msg_def empty_msg_def ChainIDPythNet_def)

lemma node_state_fields:
  "st_firstObserved node_state = 0" "st_nextRetry node_state = 5 * minute" "st_retryCtr node_state = 0"
  "st_ourObservation node_state = Some \<lparr>pv_VAA = CreateVAA 3 sample_msg, pv_Unreliable = False, pv_Reobservation = False\<rparr>"
  "st_signatures node_state = [(toy_guardian 7, toy_guardian 7 @ replicate 45 0)]" "\<not> st_submitted node_state"
  "st_settled node_state" "st_gs node_state = Some two_gs" "st_ourObs node_state \<noteq> None"
  by (simp_all only: node_state_def new_state_def obs_state.simps obs_state.update_convs simp_thms option.simps)

lemma node_fields:
  "p_state node = Map.empty" "p_gs node = Some two_gs" "p_updatedVAAs node = Map.empty" "p_pythnetVaas node = Map.empty"
  "ch_Items (p_gossipVaaSendC node) = []" "p_hasDb node" "p_db node = Map.empty" "p_ourAddr node = toy_guardian 7"
  by (simp_all add: node_def NewProcessor_def make_chan_def)

lemma node_inv: "cleanup_inv node_crypto {two_gs} (put_state node_hash node_state node)"
proof -
  have "distinct (map fst (st_signatures node_state)) \<and> node_hash = hex_encode (SigningDigest node_crypto (CreateVAA 3 sample_msg)) \<and>
      (\<forall>a sg. map_of (st_signatures node_state) a = Some sg \<longrightarrow>
         signed_by node_crypto (SigningDigest node_crypto (CreateVAA 3 sample_msg)) a sg)"
    using node_signed [of "SigningDigest node_crypto (CreateVAA 3 sample_msg)"]
    by (simp only: node_state_fields node_hash_def) (simp del: replicate.simps)
  then have "state_inv node_crypto {two_gs} node_hash node_state"
    unfolding state_inv_def by (simp add: node_state_fields sample_vaa two_gs_def)
  moreover have "p_inv node_crypto {two_gs} node"
    by (simp add: p_inv_def node_fields)
  ultimately have "p_inv node_crypto {two_gs} (put_state node_hash node_state node)"
    by (intro p_inv_put_state) (simp_all add: node_fields)
  then show ?thesis
    by (simp add: cleanup_inv_def retries_ok_def node_fields retry_ok_def node_state_fields)
qed


section \<open>The VAAs waiting to be written\<close>

lemma vaaWriter_delete_copy: "p_updatedVAAs (vaaWriter_delete (snd (vaaWriter_copy order p))) = Map.empty"
  by (auto simp: vaaWriter_delete_def vaaWriter_copy_def split: option.splits)

text \<open>What is stored again between the two locks of a tick stays for the next tick.\<close>

lemma vaaWriter_race:
  assumes "vaa_EmitterChain v \<noteq> ChainIDPythNet"
  shows "p_updatedVAAs (vaaWriter_delete (storeSignedVAA now v (snd (vaaWriter_copy order p)))) (VAAID_String (VaaIDFromVAA v)) = Some (v, True)"
  using assms by (simp add: vaaWriter_delete_def storeSignedVAA_def)

text \<open>
  A tick of the VAA writer empties the map of waiting VAAs whatever the database answers: after a
  write that failed the VAAs are neither in the database nor waiting, though the error is only
  logged.
\<close>

lemma vaaWriter_outcome:
  assumes "p_hasDb p" and "StoreSignedVAABatch W (fst (vaaWriter_copy order p)) (p_db p) = (r, s)"
    and "\<And>e. r = Inl e \<Longrightarrow> \<not> is_panic e" and "p_updatedVAAs p \<noteq> Map.empty"
  shows "\<exists>p'. vaaWriter W order p = Inr p' \<and> p_updatedVAAs p' = Map.empty \<and> p_db p' = s"
proof -
  let ?q = "snd (vaaWriter_copy order p)"
  have q: "p_hasDb ?q" "p_db ?q = p_db p"
    using assms(1) by (simp_all add: vaaWriter_copy_def)
  then have store: "vaaWriter_store W (fst (vaaWriter_copy order p)) ?q = (r, ?q\<lparr>p_db := s\<rparr>)"
    using assms(2) by (simp add: vaaWriter_store_def)
  have "vaaWriter W order p = Inr (vaaWriter_delete (?q\<lparr>p_db := s\<rparr>))"
    using assms(3,4) store by (cases r) (simp_all add: vaaWriter_def case_prod_unfold)
  moreover have "p_updatedVAAs (vaaWriter_delete (?q\<lparr>p_db := s\<rparr>)) = Map.empty"
    using vaaWriter_delete_copy [of order p] by (simp add: vaaWriter_delete_def)
  ultimately show ?thesis
    by (simp add: vaaWriter_delete_def)
qed

definition failing_batch :: "'s write_batch" where
  "failing_batch = \<lparr>wb_Set = \<lambda>_ _ _. None, wb_Flush = \<lambda>_ s. (Some (Errorf ''no space left on device''), s)\<rparr>"

theorem vaaWriter_outcome_witness:
  "\<exists>p'. vaaWriter failing_batch [VAAID_String (VaaIDFromVAA (toy_vaa [1] [0]))] (storeSignedVAA 0 (toy_vaa [1] [0]) node) = Inr p' \<and>
     p_updatedVAAs p' = Map.empty \<and> p_db p' = Map.empty"
proof (rule vaaWriter_outcome [where r = "Inl (Errorf ''no space left on device'')"])
  show "p_hasDb (storeSignedVAA 0 (toy_vaa [1] [0]) node)"
    by (simp add: storeSignedVAA_def node_def NewProcessor_def)
  show "StoreSignedVAABatch failing_batch (fst (vaaWriter_copy [VAAID_String (VaaIDFromVAA (toy_vaa [1] [0]))]
      (storeSignedVAA 0 (toy_vaa [1] [0]) node))) (p_db (storeSignedVAA 0 (toy_vaa [1] [0]) node)) =
    (Inl (Errorf ''no space left on device''), Map.empty)"
    by (simp add: vaaWriter_copy_def storeSignedVAA_def toy_vaa_def empty_VAA_def ChainIDPythNet_def node_def NewProcessor_def
        StoreSignedVAABatch_def failing_batch_def VAA_Marshal_def map_filter_simps)
  show "p_updatedVAAs (storeSignedVAA 0 (toy_vaa [1] [0]) node) \<noteq> Map.empty"
    by (simp add: storeSignedVAA_def toy_vaa_def empty_VAA_def ChainIDPythNet_def)
qed (simp add: is_panic_def)

end
