(* ===== verification/AcctNtt.thy ===== *)
theory AcctNtt imports GatewayRelayer begin

text \<open>
  The native token transfer part of the accountant: node/pkg/accountant/ntt.go and ntt_config.go. How a
  message is recognised as a native token transfer, directly from an endpoint or through the automatic
  relayer, and the emitters that are configured for each environment.
\<close>

type_synonym emitterKey = "ChainID \<times> Address"
type_synonym validEmitters = "emitterKey \<rightharpoonup> bool"

section \<open>Payloads\<close>

definition WH_PREFIX :: "byte list" where "WH_PREFIX = [0x99, 0x45, 0xFF, 0x10]"
definition NTT_PREFIX :: "byte list" where "NTT_PREFIX = [0x99, 0x4E, 0x54, 0x54]"
definition NTT_PREFIX_OFFSET :: nat where "NTT_PREFIX_OFFSET = 136"
definition NTT_PREFIX_END :: nat where "NTT_PREFIX_END = NTT_PREFIX_OFFSET + 4"

definition nttIsPayloadNTT :: "byte list \<Rightarrow> bool" where
  "nttIsPayloadNTT payload =
     (if length payload < NTT_PREFIX_END then False
      else if take 4 payload \<noteq> WH_PREFIX then False
      else if take 4 (drop NTT_PREFIX_OFFSET payload) \<noteq> NTT_PREFIX then False
      else True)"

definition nttIsMsgDirectNTT :: "MessagePublication \<Rightarrow> validEmitters \<Rightarrow> bool \<times> bool" where
  "nttIsMsgDirectNTT msg emitters =
     (case emitters (mp_EmitterChain msg, mp_EmitterAddress msg) of
        None \<Rightarrow> (False, False)
      | Some enforceFlag \<Rightarrow>
          if \<not> nttIsPayloadNTT (mp_Payload msg) then (False, False) else (True, enforceFlag))"

definition PAYLOAD_ID_DELIVERY_INSTRUCTION :: byte where "PAYLOAD_ID_DELIVERY_INSTRUCTION = 1"
definition VAA_KEY_TYPE :: byte where "VAA_KEY_TYPE = 1"
definition VAA_KEY_TYPE_LENGTH :: nat where "VAA_KEY_TYPE_LENGTH = 2 + 32 + 8"

text \<open>The loop over the message keys that follow the sender address.\<close>

fun skip_keys :: "nat \<Rightarrow> reader \<Rightarrow> go_error + reader" where
  "skip_keys 0 r = Inr r"
| "skip_keys (Suc n) r =
     chk (binary_read r) (\<lambda>(keyType, r).
       if keyType = VAA_KEY_TYPE then chk (read_buf [] VAA_KEY_TYPE_LENGTH r) (\<lambda>(key, r). skip_keys n r)
       else chk (binary_read r) (\<lambda>(encodedLen :: 32 word, r).
         chk (read_buf [] (unat encodedLen) r) (\<lambda>(encodedKey, r). skip_keys n r)))"

text \<open>Every failure gives false, so its kind does not matter.\<close>

definition read_ar_payload :: "byte list \<Rightarrow> go_error + Address \<times> byte list" where
  "read_ar_payload msgPayload =
     chk (binary_read msgPayload) (\<lambda>(deliveryInstruction, r).
     chk (guard_err (deliveryInstruction \<noteq> PAYLOAD_ID_DELIVERY_INSTRUCTION) EOF) (\<lambda>_.
     chk (binary_read r) (\<lambda>(targetChain :: 16 word, r).
     chk (read_buf [] 32 r) (\<lambda>(targetAddress, r).
     chk (binary_read r) (\<lambda>(payloadLen :: 32 word, r).
     chk (read_buf [] (unat payloadLen) r) (\<lambda>(payload, r).
     chk (read_buf [] 32 r) (\<lambda>(requestedReceiverValue, r).
     chk (read_buf [] 32 r) (\<lambda>(extraReceiverValue, r).
     chk (binary_read r) (\<lambda>(encodedExecutionInfoLen :: 32 word, r).
     chk (read_buf [] (unat encodedExecutionInfoLen) r) (\<lambda>(encodedExecutionInfo, r).
     chk (binary_read r) (\<lambda>(refundChain :: 16 word, r).
     chk (read_buf [] 32 r) (\<lambda>(refundAddress, r).
     chk (read_buf [] 32 r) (\<lambda>(refundDeliveryProvider, r).
     chk (read_buf [] 32 r) (\<lambda>(sourceDeliveryProvider, r).
     chk (read_buf [] 32 r) (\<lambda>(senderAddress, r).
     chk (binary_read r) (\<lambda>(numMsgKeys :: 8 word, r).
     chk (skip_keys (unat numMsgKeys) r) (\<lambda>r.
     chk (guard_err (length r \<noteq> 0) EOF) (\<lambda>_.
     Inr (senderAddress, payload)))))))))))))))))))"

definition nttParseArPayload :: "byte list \<Rightarrow> bool \<times> Address \<times> byte list" where
  "nttParseArPayload msgPayload = (case read_ar_payload msgPayload of
     Inl _ \<Rightarrow> (False, replicate 32 0, []) | Inr (senderAddress, payload) \<Rightarrow> (True, senderAddress, payload))"

definition nttIsMsgArNTT :: "MessagePublication \<Rightarrow> validEmitters \<Rightarrow> validEmitters \<Rightarrow> bool \<times> bool" where
  "nttIsMsgArNTT msg arEmitters nttEmitters =
     (if arEmitters (mp_EmitterChain msg, mp_EmitterAddress msg) = None then (False, False)
      else case nttParseArPayload (mp_Payload msg) of
        (success, senderAddress, nttPayload) \<Rightarrow>
          if \<not> success then (False, False)
          else (case nttEmitters (mp_EmitterChain msg, senderAddress) of
              None \<Rightarrow> (False, False)
            | Some enforceFlag \<Rightarrow> if nttIsPayloadNTT nttPayload then (True, enforceFlag) else (False, False)))"

section \<open>Configured emitters\<close>

text \<open>chainId, addr and logOnly of an entry.\<close>

type_synonym emitterConfig = "(ChainID \<times> string \<times> bool) list"

definition ntt_mainnet_config :: emitterConfig where
  "ntt_mainnet_config = [
   (1, ''cf5f3614e2cd9b374558f35c7618b25f0d306d5e749b7d29cc030a1a15686238'', False),
   (2, ''000000000000000000000000Db55492d7190D1baE8ACbE03911C4E3E7426870c'', False),
   (23, ''000000000000000000000000D1a8AB69e00266e8B791a15BC47514153A5045a6'', False),
   (24, ''0000000000000000000000009bD8b7b527CA4e6738cBDaBdF51C22466756073d'', False),
   (30, ''000000000000000000000000D1a8AB69e00266e8B791a15BC47514153A5045a6'', False),
   (2, ''000000000000000000000000A1ACC1e6edaB281Febd91E3515093F1DE81F25c0'', False),
   (4, ''000000000000000000000000be3F7e06872E0dF6CD7FF35B7aa4Bb1446DC9986'', False)]"

definition ntt_testnet_config :: emitterConfig where
  "ntt_testnet_config = [
   (1, ''7e6436b671cce379a1fa9833783e28b36d39a00e2cdc6bfeab5d2d836eb61c7f'', False),
   (10002, ''0000000000000000000000001fdc902e30b188fd2ba976b421cb179943f57896'', False),
   (10003, ''0000000000000000000000000e24d17d7467467b39bf64a9dff88776bd6c74d7'', False),
   (10004, ''0000000000000000000000001e072169541f1171e427aa44b5fd8924bee71b0e'', False),
   (10005, ''00000000000000000000000041265eb2863bf0238081f6aeefef73549c82c3dd'', False),
   (1, ''cf5f3614e2cd9b374558f35c7618b25f0d306d5e749b7d29cc030a1a15686238'', False),
   (10002, ''000000000000000000000000649fF7B32C2DE771043ea105c4aAb2D724497238'', False),
   (10003, ''000000000000000000000000fA42603152E4f133F5F3DA610CDa91dF5821d8bc'', False),
   (10004, ''000000000000000000000000149987472333cD48ac6D28293A338a1EEa6Be7EE'', False),
   (10005, ''000000000000000000000000eCF0496DE01e9Aa4ADB50ae56dB550f52003bdB7'', False)]"

definition ntt_devnet_config :: emitterConfig where
  "ntt_devnet_config = [
   (2, ''000000000000000000000000855FA758c77D68a04990E992aA4dcdeF899F654A'', False),
   (2, ''000000000000000000000000fA2435Eacf10Ca62ae6787ba2fB044f8733Ee843'', False),
   (4, ''000000000000000000000000fA2435Eacf10Ca62ae6787ba2fB044f8733Ee843'', False),
   (4, ''000000000000000000000000855FA758c77D68a04990E992aA4dcdeF899F654A'', False)]"

fun direct_emitters :: "emitterConfig \<Rightarrow> validEmitters \<Rightarrow> go_error + validEmitters" where
  "direct_emitters [] m = Inr m"
| "direct_emitters ((chainId, addr, logOnly) # config) m =
     (case StringToAddress addr of
        Inl e \<Rightarrow> Inl (Wrap ''failed to parse direct emitter address'' (Some e))
      | Inr a \<Rightarrow>
          if m (chainId, a) \<noteq> None then Inl (Errorf ''duplicate direct emitter'')
          else direct_emitters config (m((chainId, a) \<mapsto> \<not> logOnly)))"

text \<open>The relayers are checked against the direct emitters, not against each other.\<close>

fun ar_emitters :: "validEmitters \<Rightarrow> (ChainID \<times> string) list \<Rightarrow> validEmitters \<Rightarrow> go_error + validEmitters" where
  "ar_emitters direct [] m = Inr m"
| "ar_emitters direct ((chainId, addr) # config) m =
     (case StringToAddress addr of
        Inl e \<Rightarrow> Inl (Wrap ''failed to parse AR emitter address'' (Some e))
      | Inr a \<Rightarrow>
          if direct (chainId, a) \<noteq> None then Inl (Errorf ''duplicate AR emitter'')
          else ar_emitters direct config (m((chainId, a) \<mapsto> True)))"

definition nttGetEmitters :: "Environment \<Rightarrow> go_error + validEmitters \<times> validEmitters" where
  "nttGetEmitters env =
     (let (directConfig, arConfig) =
            (case env of
               MainNet \<Rightarrow> (ntt_mainnet_config, KnownAutomaticRelayerEmitters)
             | TestNet \<Rightarrow> (ntt_testnet_config, KnownTestnetAutomaticRelayerEmitters)
             | _ \<Rightarrow> (ntt_devnet_config, KnownDevnetAutomaticRelayerEmitters))
      in chk (direct_emitters directConfig Map.empty) (\<lambda>directEmitters.
         chk (ar_emitters directEmitters arConfig Map.empty) (\<lambda>arEmitters.
         Inr (directEmitters, arEmitters))))"

section \<open>The configuration is consistent\<close>

text \<open>
  A consistent configuration: every address is 32 bytes of hexadecimal, and no pair of chain and address
  occurs twice where it must not.
\<close>

definition good_addr :: "string \<Rightarrow> bool" where
  "good_addr s \<longleftrightarrow> length s = 64 \<and> list_all is_hex s"

lemma good_addr_decode: "good_addr s \<Longrightarrow> \<exists>a. StringToAddress s = Inr a \<and> hex_decode s = Inr a \<and> length a = 32"
  using good_entry_decode [of "2" s] hex_decode_total [of s]
  by (auto simp: good_addr_def good_entry_def GetAllNetworkIDs_def)

end
