(* ===== verification/Accountant.thy ===== *)
theory Accountant imports AcctNtt VaaDb begin

text \<open>
  The global accountant: node/pkg/accountant (accountant.go, submit_obs.go, audit.go, watcher.go) and its
  records in the node database, node/pkg/db/accountant.go. Token bridge and native token transfers wait
  here until the accountant contract on wormchain has committed them.

  The pending entries are Go pointers shared by the map, the audit and the watcher; each has its own
  message id, so the model keeps them by value under that id and the operations that get a pointer take
  the id. The locks serialise the operations. JSON is a parameter (the record acct_json), and so are the
  answers of the contract (the record acct_conn); None is a nil connection. now is the time an operation
  reads. Logs and metrics are left out.
\<close>

section \<open>Database\<close>

text \<open>The format of earlier releases, with a transaction hash for the transaction id.\<close>

record OldMessagePublication =
  om_TxHash :: "byte list"
  om_Timestamp :: time
  om_Nonce :: "32 word"
  om_Sequence :: "64 word"
  om_ConsistencyLevel :: byte
  om_EmitterChain :: ChainID
  om_EmitterAddress :: Address
  om_Payload :: "byte list"
  om_IsReobservation :: bool
  om_Unreliable :: bool

text \<open>The old format is decoded with its timestamp in seconds beside the other fields.\<close>

record acct_json =
  aj_enc :: "MessagePublication \<Rightarrow> byte list"
  aj_dec :: "byte list \<Rightarrow> go_error + MessagePublication"
  aj_dec_old :: "byte list \<Rightarrow> go_error + 64 word \<times> OldMessagePublication"

definition OldMessagePublication_UnmarshalJSON :: "acct_json \<Rightarrow> byte list \<Rightarrow> go_error + OldMessagePublication" where
  "OldMessagePublication_UnmarshalJSON J data =
     chk (aj_dec_old J data) (\<lambda>(secs, msg). Inr (msg\<lparr>om_Timestamp := time_unix (sint secs)\<rparr>))"

definition convertOldToNew :: "OldMessagePublication \<Rightarrow> MessagePublication" where
  "convertOldToNew old = (empty_msg (om_TxHash old))\<lparr>mp_Timestamp := om_Timestamp old, mp_Nonce := om_Nonce old,
     mp_Sequence := om_Sequence old, mp_EmitterChain := om_EmitterChain old,
     mp_EmitterAddress := om_EmitterAddress old, mp_Payload := om_Payload old,
     mp_ConsistencyLevel := om_ConsistencyLevel old, mp_IsReobservation := om_IsReobservation old,
     mp_Unreliable := om_Unreliable old\<rparr>"

definition acctOldPendingTransfer :: string where "acctOldPendingTransfer = ''ACCT:PXFER2:''"
definition acctPendingTransfer :: string where "acctPendingTransfer = ''ACCT:PXFER3:''"

definition acctMinMsgIdLen :: nat where
  "acctMinMsgIdLen = length ''1/0000000000000000000000000290fb167208af455bb137780163b7b7a9a10c16/0''"

definition acctOldPendingTransferMsgID :: "string \<Rightarrow> byte list" where
  "acctOldPendingTransferMsgID msgId = bytes_of (acctOldPendingTransfer @ msgId)"

definition acctPendingTransferMsgID :: "string \<Rightarrow> byte list" where
  "acctPendingTransferMsgID msgId = bytes_of (acctPendingTransfer @ msgId)"

definition acctIsOldPendingTransfer :: "byte list \<Rightarrow> bool" where
  "acctIsOldPendingTransfer key \<longleftrightarrow> length acctOldPendingTransfer + acctMinMsgIdLen \<le> length key \<and>
     has_prefix (bytes_of acctOldPendingTransfer) key"

definition acctIsPendingTransfer :: "byte list \<Rightarrow> bool" where
  "acctIsPendingTransfer key \<longleftrightarrow> length acctPendingTransfer + acctMinMsgIdLen \<le> length key \<and>
     has_prefix (bytes_of acctPendingTransfer) key"

definition AcctStorePendingTransfer :: "acct_json \<Rightarrow> 's badger \<Rightarrow> MessagePublication \<Rightarrow> 's \<Rightarrow> (unit, 's) db_result" where
  "AcctStorePendingTransfer J B msg s =
     update_err ''failed to commit accountant pending transfer'' (bg_Set B (acctPendingTransferMsgID (MessageIDString msg)) (aj_enc J msg) s)"

definition AcctDeletePendingTransfer :: "'s badger \<Rightarrow> string \<Rightarrow> 's \<Rightarrow> (unit, 's) db_result" where
  "AcctDeletePendingTransfer B msgId s =
     update_err ''failed to delete accountant pending transfer'' (bg_Delete B (acctPendingTransferMsgID msgId) s)"

fun read_old :: "acct_json \<Rightarrow> (byte list \<times> byte list) list \<Rightarrow> go_error + MessagePublication list" where
  "read_old J [] = Inr []"
| "read_old J ((key, val) # items) =
     (if acctIsOldPendingTransfer key then
        (case OldMessagePublication_UnmarshalJSON J val of
           Inl e \<Rightarrow> Inl (Wrap ''failed to unmarshal old pending transfer'' (Some e))
         | Inr pt \<Rightarrow> chk (read_old J items) (\<lambda>pts. Inr (convertOldToNew pt # pts)))
      else Inl (Errorf ''failed to convert old accountant pending transfer, unexpected key''))"

fun db_each :: "('a \<Rightarrow> 's \<Rightarrow> (unit, 's) db_result) \<Rightarrow> 'a list \<Rightarrow> 's \<Rightarrow> (unit, 's) db_result" where
  "db_each f [] s = (Inr (), s)"
| "db_each f (x # xs) s = (case f x s of (Inl e, s) \<Rightarrow> (Inl e, s) | (Inr _, s) \<Rightarrow> db_each f xs s)"

definition convertOldTransfersToNewFormat :: "acct_json \<Rightarrow> 's badger \<Rightarrow> 's \<Rightarrow> (unit, 's) db_result" where
  "convertOldTransfersToNewFormat J B s =
     (case read_old J (seek (bytes_of acctOldPendingTransfer) (bg_Items B s)) of
        Inl e \<Rightarrow> (Inl e, s)
      | Inr pts \<Rightarrow>
          (case db_each (AcctStorePendingTransfer J B) pts s of
             (Inl e, s) \<Rightarrow> (Inl (Wrap ''failed to convert old pending transfer'' (Some e)), s)
           | (Inr _, s) \<Rightarrow>
               db_each (\<lambda>pt s. update_err ''failed to delete old pending transfer''
                   (bg_Delete B (acctOldPendingTransferMsgID (MessageIDString pt)) s)) pts s))"

text \<open>An entry that does not decode is logged and left out.\<close>

fun read_pending :: "acct_json \<Rightarrow> (byte list \<times> byte list) list \<Rightarrow> go_error + MessagePublication list" where
  "read_pending J [] = Inr []"
| "read_pending J ((key, val) # items) =
     (if acctIsPendingTransfer key then
        (case aj_dec J val of
           Inl e \<Rightarrow> read_pending J items
         | Inr pt \<Rightarrow> chk (read_pending J items) (\<lambda>pts. Inr (pt # pts)))
      else Inl (Errorf ''failed to load accountant pending transfer, unexpected key''))"

definition AcctGetData :: "acct_json \<Rightarrow> 's badger \<Rightarrow> 's \<Rightarrow> (MessagePublication list, 's) db_result" where
  "AcctGetData J B s =
     (case convertOldTransfersToNewFormat J B s of
        (Inl e, s) \<Rightarrow> (Inl (Wrap ''failed to convert old pending transfers to the new format'' (Some e)), s)
      | (Inr _, s) \<Rightarrow> (read_pending J (seek (bytes_of acctPendingTransfer) (bg_Items B s)), s))"

section \<open>State\<close>

record acct_entry =
  ae_msg :: MessagePublication
  ae_msgId :: string
  ae_digest :: string
  ae_isNTT :: bool
  ae_enforceFlag :: bool
  ae_updTime :: time
  ae_submitPending :: bool

record 's accountant =
  ac_db :: 's
  ac_obsvReqWriteC :: "ObservationRequest channel"
  ac_contract :: string
  ac_enforceFlag :: bool
  ac_guardianAddr :: eth_address
  ac_msgChan :: "MessagePublication channel"
  ac_tokenBridges :: validEmitters
  ac_pendingTransfers :: "string \<rightharpoonup> acct_entry"
  ac_subChan :: "MessagePublication channel"
  ac_env :: Environment
  ac_nttContract :: string
  ac_nttDirectEmitters :: validEmitters
  ac_nttArEmitters :: validEmitters
  ac_nttSubChan :: "MessagePublication channel"

definition batchSize :: nat where "batchSize = 10"
definition MsgChannelCapacity :: nat where "MsgChannelCapacity = 5 * batchSize"
definition acctSubChanSize :: nat where "acctSubChanSize = 500"

definition baseEnabled :: "'s accountant \<Rightarrow> bool" where
  "baseEnabled a \<longleftrightarrow> ac_contract a \<noteq> []"

definition nttEnabled :: "'s accountant \<Rightarrow> bool" where
  "nttEnabled a \<longleftrightarrow> ac_nttContract a \<noteq> []"

definition NewAccountant :: "'s \<Rightarrow> ObservationRequest channel \<Rightarrow> string \<Rightarrow> bool \<Rightarrow> string \<Rightarrow> eth_address \<Rightarrow>
    MessagePublication channel \<Rightarrow> Environment \<Rightarrow> 's accountant" where
  "NewAccountant db obsvReqWriteC contract enforceFlag nttContract guardianAddr msgChan env =
     \<lparr>ac_db = db, ac_obsvReqWriteC = obsvReqWriteC, ac_contract = contract, ac_enforceFlag = enforceFlag,
      ac_guardianAddr = guardianAddr, ac_msgChan = msgChan, ac_tokenBridges = Map.empty,
      ac_pendingTransfers = Map.empty, ac_subChan = make_chan acctSubChanSize, ac_env = env,
      ac_nttContract = nttContract, ac_nttDirectEmitters = Map.empty, ac_nttArEmitters = Map.empty,
      ac_nttSubChan = make_chan acctSubChanSize\<rparr>"

definition FeatureString :: "'s accountant \<Rightarrow> string" where
  "FeatureString a = (if \<not> ac_enforceFlag a then ''acct-logonly'' else ''acct'') @
     (if nttEnabled a then '':ntt-acct'' else [])"

section \<open>Which messages are covered\<close>

definition isTokenBridgeTransfer :: "MessagePublication \<Rightarrow> 's accountant \<Rightarrow> bool \<times> bool" where
  "isTokenBridgeTransfer msg a =
     (case ac_tokenBridges a (mp_EmitterChain msg, mp_EmitterAddress msg) of
        None \<Rightarrow> (False, False)
      | Some enforceFlag \<Rightarrow> if \<not> IsTransfer (mp_Payload msg) then (False, False) else (True, enforceFlag))"

text \<open>Covered, native token transfer, enforced.\<close>

definition isMessageCoveredByAccountant :: "MessagePublication \<Rightarrow> 's accountant \<Rightarrow> bool \<times> bool \<times> bool" where
  "isMessageCoveredByAccountant msg a =
     (case isTokenBridgeTransfer msg a of
        (True, enforceFlag) \<Rightarrow> (True, False, enforceFlag)
      | (False, _) \<Rightarrow>
          (case nttIsMsgDirectNTT msg (ac_nttDirectEmitters a) of
             (True, enforceFlag) \<Rightarrow> (True, True, enforceFlag)
           | (False, _) \<Rightarrow>
               (case nttIsMsgArNTT msg (ac_nttArEmitters a) (ac_nttDirectEmitters a) of
                  (True, enforceFlag) \<Rightarrow> (True, True, enforceFlag)
                | (False, _) \<Rightarrow> (False, False, False))))"

definition IsMessageCoveredByAccountant :: "MessagePublication \<Rightarrow> 's accountant \<Rightarrow> bool" where
  "IsMessageCoveredByAccountant msg a = fst (isMessageCoveredByAccountant msg a)"

section \<open>Pending transfers\<close>

definition put_entry :: "acct_entry \<Rightarrow> 's accountant \<Rightarrow> 's accountant" where
  "put_entry pe a = a\<lparr>ac_pendingTransfers := (ac_pendingTransfers a)(ae_msgId pe \<mapsto> pe)\<rparr>"

definition addPendingTransferAlreadyLocked :: "acct_json \<Rightarrow> 's badger \<Rightarrow> time \<Rightarrow> acct_entry \<Rightarrow> 's accountant \<Rightarrow>
    (unit, 's accountant) db_result" where
  "addPendingTransferAlreadyLocked J B now pe a =
     (case AcctStorePendingTransfer J B (ae_msg pe) (ac_db a) of
        (Inl e, s) \<Rightarrow> (Inl e, a\<lparr>ac_db := s\<rparr>)
      | (Inr _, s) \<Rightarrow> (Inr (), put_entry (pe\<lparr>ae_updTime := now\<rparr>) (a\<lparr>ac_db := s\<rparr>)))"

definition deletePendingTransfer :: "'s badger \<Rightarrow> string \<Rightarrow> 's accountant \<Rightarrow> 's accountant" where
  "deletePendingTransfer B msgId a =
     a\<lparr>ac_pendingTransfers := (ac_pendingTransfers a)(msgId := None),
       ac_db := snd (AcctDeletePendingTransfer B msgId (ac_db a))\<rparr>"

definition publishTransferAlreadyLocked :: "'s badger \<Rightarrow> acct_entry \<Rightarrow> 's accountant \<Rightarrow> 's accountant" where
  "publishTransferAlreadyLocked B pe a =
     (let a = (if ae_enforceFlag pe then a\<lparr>ac_msgChan := snd (try_send (ae_msg pe) (ac_msgChan a))\<rparr> else a)
      in deletePendingTransfer B (ae_msgId pe) a)"

text \<open>
  Handing a message to the worker; the flag is set again to false when the channel is full. The result
  says whether the entry was not already being submitted.
\<close>

definition submitToChannel :: "acct_entry \<Rightarrow> MessagePublication channel \<Rightarrow> acct_entry \<times> MessagePublication channel" where
  "submitToChannel pe subChan = (case try_send (ae_msg pe) subChan of
     (True, ch) \<Rightarrow> (pe, ch) | (False, ch) \<Rightarrow> (pe\<lparr>ae_submitPending := False\<rparr>, ch))"

definition submitObservation :: "time \<Rightarrow> acct_entry \<Rightarrow> 's accountant \<Rightarrow> bool \<times> 's accountant" where
  "submitObservation now pe a =
     (if ae_submitPending pe then (False, a)
      else
        let pe = pe\<lparr>ae_submitPending := True, ae_updTime := now\<rparr> in
        (True, if ae_isNTT pe
               then (case submitToChannel pe (ac_nttSubChan a) of (pe, ch) \<Rightarrow> put_entry pe (a\<lparr>ac_nttSubChan := ch\<rparr>))
               else (case submitToChannel pe (ac_subChan a) of (pe, ch) \<Rightarrow> put_entry pe (a\<lparr>ac_subChan := ch\<rparr>))))"

definition SubmitObservation :: "crypto \<Rightarrow> acct_json \<Rightarrow> 's badger \<Rightarrow> time \<Rightarrow> MessagePublication \<Rightarrow> 's accountant \<Rightarrow>
    (bool, 's accountant) db_result" where
  "SubmitObservation c J B now msg a =
     (case isMessageCoveredByAccountant msg a of
        (False, _, _) \<Rightarrow> (Inr True, a)
      | (True, isNTT, enforceFlag) \<Rightarrow>
          let msgId = MessageIDString msg; digest = CreateDigest c msg in
          (case ac_pendingTransfers a msgId of
             Some oldEntry \<Rightarrow> (Inr (\<not> enforceFlag), a)
           | None \<Rightarrow>
               let pe = \<lparr>ae_msg = msg, ae_msgId = msgId, ae_digest = digest, ae_isNTT = isNTT,
                          ae_enforceFlag = enforceFlag, ae_updTime = 0, ae_submitPending = False\<rparr> in
               (case addPendingTransferAlreadyLocked J B now pe a of
                  (Inl e, a) \<Rightarrow> (Inl e, a)
                | (Inr _, a) \<Rightarrow> (Inr (\<not> enforceFlag),
                    if ac_env a \<noteq> GoTest then snd (submitObservation now (pe\<lparr>ae_updTime := now\<rparr>) a) else a))))"

definition setSubmitPending :: "time \<Rightarrow> bool \<Rightarrow> acct_entry \<Rightarrow> acct_entry" where
  "setSubmitPending now val pe = pe\<lparr>ae_submitPending := val, ae_updTime := now\<rparr>"

definition clear_flag :: "time \<Rightarrow> MessagePublication \<Rightarrow> 's accountant \<Rightarrow> 's accountant" where
  "clear_flag now msg a = (case ac_pendingTransfers a (MessageIDString msg) of
     None \<Rightarrow> a | Some pe \<Rightarrow> put_entry (setSubmitPending now False pe) a)"

definition clearSubmitPendingFlags :: "time \<Rightarrow> MessagePublication list \<Rightarrow> 's accountant \<Rightarrow> 's accountant" where
  "clearSubmitPendingFlags now msgs a = fold (clear_flag now) msgs a"

section \<open>Starting\<close>

fun acct_bridge_loop :: "bool \<Rightarrow> (ChainID \<times> byte list) list \<Rightarrow> validEmitters \<Rightarrow> go_error + validEmitters" where
  "acct_bridge_loop enforceFlag [] m = Inr m"
| "acct_bridge_loop enforceFlag ((chainId, b) # emitters) m =
     (case BytesToAddress b of
        Inl _ \<Rightarrow> Inl (Errorf ''failed to convert emitter address for chain'')
      | Inr a \<Rightarrow>
          if m (chainId, a) \<noteq> None then Inl (Errorf ''detected duplicate token bridge for chain'')
          else acct_bridge_loop enforceFlag emitters (m((chainId, a) \<mapsto> enforceFlag)))"

definition load_one :: "crypto \<Rightarrow> 's badger \<Rightarrow> time \<Rightarrow> MessagePublication \<Rightarrow> 's accountant \<Rightarrow> 's accountant" where
  "load_one c B now msg a =
     (let msgId = MessageIDString msg in
      case isMessageCoveredByAccountant msg a of
        (False, _, _) \<Rightarrow> a\<lparr>ac_db := snd (AcctDeletePendingTransfer B msgId (ac_db a))\<rparr>
      | (True, isNTT, enforceFlag) \<Rightarrow>
          put_entry \<lparr>ae_msg = msg, ae_msgId = msgId, ae_digest = CreateDigest c msg, ae_isNTT = isNTT,
            ae_enforceFlag = enforceFlag, ae_updTime = now, ae_submitPending = False\<rparr> a)"

definition loadPendingTransfers :: "crypto \<Rightarrow> acct_json \<Rightarrow> 's badger \<Rightarrow> time \<Rightarrow> 's accountant \<Rightarrow>
    (unit, 's accountant) db_result" where
  "loadPendingTransfers c J B now a =
     (case AcctGetData J B (ac_db a) of
        (Inl e, s) \<Rightarrow> (Inl e, a\<lparr>ac_db := s\<rparr>)
      | (Inr pts, s) \<Rightarrow> (Inr (), fold (load_one c B now) pts (a\<lparr>ac_db := s\<rparr>)))"

definition nttStart :: "'s accountant \<Rightarrow> go_error + 's accountant" where
  "nttStart a = chk (wrap ''failed to set up NTT emitters'' (nttGetEmitters (ac_env a))) (\<lambda>(direct, ar).
     Inr (a\<lparr>ac_nttDirectEmitters := direct, ac_nttArEmitters := ar\<rparr>))"

text \<open>Start without the runnables that it hands to the supervisor.\<close>

definition Accountant_Start :: "crypto \<Rightarrow> acct_json \<Rightarrow> 's badger \<Rightarrow> time \<Rightarrow> 's accountant \<Rightarrow> (unit, 's accountant) db_result" where
  "Accountant_Start c J B now a =
     (if \<not> baseEnabled a \<and> \<not> nttEnabled a
      then (Inl (Errorf ''start should not be called when neither base nor NTT accountant are enabled''), a)
      else
        (case (if baseEnabled a
               then chk (emitter_map_for (ac_env a)) (\<lambda>m. acct_bridge_loop (ac_enforceFlag a) m (ac_tokenBridges a))
               else Inr (ac_tokenBridges a)) of
           Inl e \<Rightarrow> (Inl e, a)
         | Inr bridges \<Rightarrow>
             let a = a\<lparr>ac_tokenBridges := bridges\<rparr> in
             (case (if nttEnabled a then nttStart a else Inr a) of
                Inl e \<Rightarrow> (Inl (Wrap ''failed to start ntt accountant'' (Some e)), a)
              | Inr a \<Rightarrow>
                  (case loadPendingTransfers c J B now a of
                     (Inl e, a) \<Rightarrow> (Inl (Wrap ''failed to load pending transfers from the db'' (Some e)), a)
                   | (Inr _, a) \<Rightarrow> (Inr (), a)))))"

end
