(* ===== verification/AcctWork.thy ===== *)
theory AcctWork imports Accountant "HOL-Library.AList" begin

text \<open>
  What the accountant does beside answering the processor: the worker that submits batches of
  observations to the contract (submit_obs.go), the watcher of the events of the contract (watcher.go)
  and the audit (audit.go). The encodings that only the contract reads (JSON, protobuf) and the contract
  itself are parameters; the connection answers at the level of the decoded messages.
\<close>

section \<open>Messages to and from the contract\<close>

record TransferKey =
  tk_EmitterChain :: "16 word"
  tk_EmitterAddress :: Address
  tk_Sequence :: "64 word"

definition TransferKey_String :: "TransferKey \<Rightarrow> string" where
  "TransferKey_String k = dec_string (unat (tk_EmitterChain k)) @ CHR ''/'' #
     hex_encode (tk_EmitterAddress k) @ CHR ''/'' # dec_string (unat (tk_Sequence k))"

record acct_observation =
  ao_TxHash :: "byte list"
  ao_Timestamp :: "32 word"
  ao_Nonce :: "32 word"
  ao_EmitterChain :: "16 word"
  ao_EmitterAddress :: Address
  ao_Sequence :: "64 word"
  ao_ConsistencyLevel :: byte
  ao_Payload :: "byte list"

record SubmitObservationsMsg =
  so_Observations :: "byte list"
  so_GuardianSetIndex :: "32 word"
  so_SigIndex :: "32 word"
  so_Signature :: "byte list"

record ObservationResponseStatus =
  rs_Type :: string
  rs_Data :: string

text \<open>The response to a transaction: nil, without a TxResponse, or its raw log and what its data decodes to.\<close>

datatype acct_tx_resp =
    AcctNilResp
  | AcctNilTxResponse
  | AcctTxResp string "go_error + (TransferKey \<times> ObservationResponseStatus) list"

record MissingObservation =
  mo_ChainId :: "16 word"
  mo_TxHash :: "byte list"

text \<open>Of a status the code reads the digest that was committed, and whether it is pending.\<close>

record TransferStatus =
  ts_Committed :: "byte list option"
  ts_Pending :: bool

record acct_conn =
  cn_submit :: "string \<Rightarrow> SubmitObservationsMsg \<Rightarrow> go_error + acct_tx_resp"
  cn_missing :: "string \<Rightarrow> 32 word \<Rightarrow> int \<Rightarrow> go_error + MissingObservation list"
  cn_status :: "string \<Rightarrow> TransferKey list \<Rightarrow> go_error + (TransferKey \<times> TransferStatus option) list"

definition SubmitObservationPrefix :: "byte list" where
  "SubmitObservationPrefix = bytes_of ''acct_sub_obsfig_000000000000000000|''"

definition NttSubmitObservationPrefix :: "byte list" where
  "NttSubmitObservationPrefix = bytes_of ''ntt_acct_sub_obsfig_00000000000000|''"

section \<open>The worker\<close>

definition removeCompleted :: "MessagePublication list \<Rightarrow> 's accountant \<Rightarrow> MessagePublication list" where
  "removeCompleted msgs a = filter (\<lambda>msg. ac_pendingTransfers a (MessageIDString msg) \<noteq> None) msgs"

definition to_observation :: "MessagePublication \<Rightarrow> acct_observation" where
  "to_observation msg = \<lparr>ao_TxHash = mp_TxID msg, ao_Timestamp = word_of_int (unix_secs (mp_Timestamp msg)),
     ao_Nonce = mp_Nonce msg, ao_EmitterChain = mp_EmitterChain msg, ao_EmitterAddress = mp_EmitterAddress msg,
     ao_Sequence = mp_Sequence msg, ao_ConsistencyLevel = mp_ConsistencyLevel msg, ao_Payload = mp_Payload msg\<rparr>"

text \<open>A nil connection panics when it is used.\<close>

definition SubmitObservationsToContract :: "crypto \<Rightarrow> (acct_observation list \<Rightarrow> go_error + byte list) \<Rightarrow>
    (byte list \<Rightarrow> go_error + byte list) \<Rightarrow> 32 word \<Rightarrow> 32 word \<Rightarrow> acct_conn option \<Rightarrow> string \<Rightarrow> byte list \<Rightarrow>
    MessagePublication list \<Rightarrow> go_error + acct_tx_resp" where
  "SubmitObservationsToContract c json sign gsIndex guardianIndex conn contract pfx msgs =
     chk (wrap ''failed to marshal accountant observation request'' (json (map to_observation msgs))) (\<lambda>bytes.
     chk (wrap ''failed to sign accountant Observation request'' (MessageSigningDigest c pfx bytes)) (\<lambda>digest.
     chk (wrap ''failed to sign accountant Observation request'' (sign digest)) (\<lambda>sigBytes.
     case conn of None \<Rightarrow> Inl (Panic ''nil pointer dereference'')
     | Some cn \<Rightarrow>
       chk (wrap ''failed to send broadcast'' (cn_submit cn contract \<lparr>so_Observations = bytes,
           so_GuardianSetIndex = gsIndex, so_SigIndex = guardianIndex, so_Signature = sigBytes\<rparr>)) (\<lambda>txResp.
         case txResp of
           AcctNilResp \<Rightarrow> Inl (Errorf ''sent broadcast but returned txResp is nil'')
         | AcctNilTxResponse \<Rightarrow> Inl (Errorf ''sent broadcast but returned txResp.TxResponse is nil'')
         | AcctTxResp rawLog data \<Rightarrow>
             if rawLog = [] then Inl (Errorf ''sent broadcast but raw_log is not set, unable to analyze the result'')
             else if str_contains rawLog ''out of gas'' then Inl (Errorf ''out of gas'')
             else if str_contains rawLog ''failed to execute message'' then Inl (Errorf ''failed to submit observations'')
             else Inr txResp))))"

text \<open>The map of responses by message id: later responses replace earlier ones.\<close>

definition GetObservationResponses :: "acct_tx_resp \<Rightarrow> go_error + (string \<times> ObservationResponseStatus) list" where
  "GetObservationResponses txResp = (case txResp of
     AcctTxResp rawLog data \<Rightarrow>
       chk data (\<lambda>responses. Inr (fold (\<lambda>(k, st) m. AList.update (TransferKey_String k) st m) responses []))
   | _ \<Rightarrow> Inl (Panic ''nil pointer dereference''))"

definition handleCommittedTransfer :: "'s badger \<Rightarrow> string \<Rightarrow> 's accountant \<Rightarrow> 's accountant" where
  "handleCommittedTransfer B msgId a = (case ac_pendingTransfers a msgId of
     Some pe \<Rightarrow> publishTransferAlreadyLocked B pe a | None \<Rightarrow> a)"

definition handleTransferError :: "'s badger \<Rightarrow> string \<Rightarrow> string \<Rightarrow> 's accountant \<Rightarrow> 's accountant" where
  "handleTransferError B msgId errText a =
     (if str_contains errText ''insufficient balance'' then deletePendingTransfer B msgId a else a)"

definition handle_response :: "'s badger \<Rightarrow> (string \<times> ObservationResponseStatus) list \<Rightarrow> MessagePublication \<Rightarrow>
    's accountant \<Rightarrow> 's accountant" where
  "handle_response B responses msg a =
     (let msgId = MessageIDString msg in
      case map_of responses msgId of
        None \<Rightarrow> a
      | Some status \<Rightarrow>
          if rs_Type status = ''pending'' then a
          else if rs_Type status = ''committed'' then handleCommittedTransfer B msgId a
          else if rs_Type status = ''error'' then handleTransferError B msgId (rs_Data status) a
          else a)"

definition submitObservationsToContract :: "crypto \<Rightarrow> (acct_observation list \<Rightarrow> go_error + byte list) \<Rightarrow>
    (byte list \<Rightarrow> go_error + byte list) \<Rightarrow> 's badger \<Rightarrow> time \<Rightarrow> MessagePublication list \<Rightarrow> 32 word \<Rightarrow> 32 word \<Rightarrow>
    acct_conn option \<Rightarrow> string \<Rightarrow> byte list \<Rightarrow> 's accountant \<Rightarrow> go_error + 's accountant" where
  "submitObservationsToContract c json sign B now msgs gsIndex guardianIndex conn contract pfx a =
     (case SubmitObservationsToContract c json sign gsIndex guardianIndex conn contract pfx msgs of
        Inl (Panic m) \<Rightarrow> Inl (Panic m)
      | Inl _ \<Rightarrow> Inr (clearSubmitPendingFlags now msgs a)
      | Inr txResp \<Rightarrow>
          (case GetObservationResponses txResp of
             Inl _ \<Rightarrow> Inr (clearSubmitPendingFlags now msgs a)
           | Inr responses \<Rightarrow>
               if length responses \<noteq> length msgs then Inr (clearSubmitPendingFlags now msgs a)
               else Inr (clearSubmitPendingFlags now msgs (fold (handle_response B responses) msgs a))))"

text \<open>
  One turn of the worker for a queue: ready and err say how the wait of 100 ms ends, gs is the current
  guardian set. The error comes with the accountant that is left.
\<close>

definition acct_handleBatch :: "crypto \<Rightarrow> (acct_observation list \<Rightarrow> go_error + byte list) \<Rightarrow>
    (byte list \<Rightarrow> go_error + byte list) \<Rightarrow> 's badger \<Rightarrow> time \<Rightarrow> bool \<Rightarrow> nat \<Rightarrow> go_error \<Rightarrow> GuardianSet option \<Rightarrow>
    acct_conn option \<Rightarrow> 's accountant \<Rightarrow> (unit, 's accountant) db_result" where
  "acct_handleBatch c json sign B now isNTT ready err gs conn a =
     (let subChan = (if isNTT then ac_nttSubChan a else ac_subChan a);
          contract = (if isNTT then ac_nttContract a else ac_contract a);
          pfx = (if isNTT then NttSubmitObservationPrefix else SubmitObservationPrefix)
      in case ReadFromChannelWithTimeout batchSize ready err subChan of
        ((msgs, e), ch) \<Rightarrow>
          let a = (if isNTT then a\<lparr>ac_nttSubChan := ch\<rparr> else a\<lparr>ac_subChan := ch\<rparr>) in
          if e \<noteq> None \<and> e \<noteq> Some DeadlineExceeded then (Inl (Wrap ''failed to read messages from channel'' e), a)
          else
            let msgs = removeCompleted msgs a in
            if length msgs = 0 then (Inr (), a)
            else (case gs of
                None \<Rightarrow> (Inl (Errorf ''failed to get guardian set''), a)
              | Some gs \<Rightarrow>
                  (case KeyIndex gs (ac_guardianAddr a) of
                     (_, False) \<Rightarrow> (Inl (Errorf ''failed to get guardian index''), a)
                   | (guardianIndex, True) \<Rightarrow>
                       if 4294967295 < guardianIndex then (Inl (Errorf ''guardian index greater than max uint32''), a)
                       else (case submitObservationsToContract c json sign B now msgs (gs_Index gs)
                                (word_of_int guardianIndex) conn contract pfx a of
                           Inl e \<Rightarrow> (Inl e, a)
                         | Inr a \<Rightarrow> (Inr (), a)))))"

section \<open>The watcher\<close>

record wasm_event =
  we_Type :: string
  we_Attributes :: "(string \<times> string) list"

text \<open>The attributes but the contract address, as a map, are decoded by JSON.\<close>

definition parseEvent :: "((string \<rightharpoonup> string) \<Rightarrow> go_error + 'e) \<Rightarrow> wasm_event \<Rightarrow> string \<Rightarrow> go_error + 'e" where
  "parseEvent decode event contractAddress =
     (let is_contract = (\<lambda>(k, v). k = ''_contract_address'') in
      if list_ex (\<lambda>(k, v). k = ''_contract_address'' \<and> v \<noteq> contractAddress) (we_Attributes event)
      then Inl (Errorf ''event from unexpected contract'')
      else wrap ''failed to unmarshal event'' (decode
        (fold (\<lambda>(k, v) m. m(k \<mapsto> v)) (filter (\<lambda>kv. \<not> is_contract kv) (we_Attributes event)) Map.empty)))"

definition processPendingTransfer :: "crypto \<Rightarrow> 's badger \<Rightarrow> acct_observation \<Rightarrow> 's accountant \<Rightarrow> 's accountant" where
  "processPendingTransfer c B xfer a =
     (let msg = (empty_msg (ao_TxHash xfer))\<lparr>mp_Timestamp := time_unix (uint (ao_Timestamp xfer)), mp_Nonce := ao_Nonce xfer,
            mp_Sequence := ao_Sequence xfer, mp_EmitterChain := ao_EmitterChain xfer,
            mp_EmitterAddress := ao_EmitterAddress xfer, mp_Payload := ao_Payload xfer,
            mp_ConsistencyLevel := ao_ConsistencyLevel xfer\<rparr>;
          msgId = MessageIDString msg
      in case ac_pendingTransfers a msgId of
           None \<Rightarrow> a
         | Some pe \<Rightarrow>
             if ae_digest pe \<noteq> CreateDigest c msg then deletePendingTransfer B msgId a
             else publishTransferAlreadyLocked B pe a)"

definition handle_event :: "crypto \<Rightarrow> 's badger \<Rightarrow> ((string \<rightharpoonup> string) \<Rightarrow> go_error + acct_observation) \<Rightarrow>
    ((string \<rightharpoonup> string) \<Rightarrow> go_error + TransferKey \<times> string) \<Rightarrow> string \<Rightarrow> wasm_event \<Rightarrow> 's accountant \<Rightarrow> 's accountant" where
  "handle_event c B dec_obs dec_err contract event a =
     (if we_Type event = ''wasm-Observation'' then
        (case parseEvent dec_obs event contract of Inl _ \<Rightarrow> a | Inr evt \<Rightarrow> processPendingTransfer c B evt a)
      else if we_Type event = ''wasm-ObservationError'' then
        (case parseEvent dec_err event contract of Inl _ \<Rightarrow> a
         | Inr (key, err) \<Rightarrow> handleTransferError B (TransferKey_String key) err a)
      else a)"

text \<open>The events of one transaction.\<close>

definition handleEvents :: "crypto \<Rightarrow> 's badger \<Rightarrow> ((string \<rightharpoonup> string) \<Rightarrow> go_error + acct_observation) \<Rightarrow>
    ((string \<rightharpoonup> string) \<Rightarrow> go_error + TransferKey \<times> string) \<Rightarrow> string \<Rightarrow> wasm_event list \<Rightarrow> 's accountant \<Rightarrow> 's accountant" where
  "handleEvents c B dec_obs dec_err contract events a = fold (handle_event c B dec_obs dec_err contract) events a"

section \<open>The audit\<close>

definition maxSubmitPendingTime :: time where "maxSubmitPendingTime = 30 * 60 * 1000000000"
definition maxPendingsPerQuery :: nat where "maxPendingsPerQuery = 500"

definition hasBeenPendingForTooLong :: "time \<Rightarrow> acct_entry \<Rightarrow> bool" where
  "hasBeenPendingForTooLong now pe \<longleftrightarrow> ae_submitPending pe \<and> maxSubmitPendingTime < now - ae_updTime pe"

definition mo_makeAuditKey :: "MissingObservation \<Rightarrow> string" where
  "mo_makeAuditKey mo = dec_string (unat (mo_ChainId mo)) @ CHR ''-'' # trim_0x (hex_encode (mo_TxHash mo))"

definition pe_makeAuditKey :: "acct_entry \<Rightarrow> string" where
  "pe_makeAuditKey pe = dec_string (unat (mp_EmitterChain (ae_msg pe))) @ CHR ''-'' # trim_0x (TxIDString (ae_msg pe))"

text \<open>The map from audit keys to entries, given by their message ids; order is how the pending map is ranged over.\<close>

definition createAuditMap :: "bool \<Rightarrow> string list \<Rightarrow> 's accountant \<Rightarrow> (string \<times> string) list" where
  "createAuditMap isNTT order a =
     fold (\<lambda>msgId m. case ac_pendingTransfers a msgId of
        None \<Rightarrow> m
      | Some pe \<Rightarrow> if ae_isNTT pe = isNTT then AList.update (pe_makeAuditKey pe) msgId m else m) order []"

definition queryMissingObservations :: "GuardianSet option \<Rightarrow> acct_conn option \<Rightarrow> string \<Rightarrow> 's accountant \<Rightarrow>
    go_error + MissingObservation list" where
  "queryMissingObservations gs conn contract a =
     (case gs of None \<Rightarrow> Inl (Errorf ''failed to get guardian set'')
      | Some gs \<Rightarrow>
          (case KeyIndex gs (ac_guardianAddr a) of
             (_, False) \<Rightarrow> Inl (Errorf ''failed to get guardian index'')
           | (guardianIndex, True) \<Rightarrow>
               (case conn of None \<Rightarrow> Inl (Panic ''nil pointer dereference'')
                | Some cn \<Rightarrow> wrap ''missing_observations query failed'' (cn_missing cn contract (gs_Index gs) guardianIndex))))"

definition handleMissingObservation :: "MissingObservation \<Rightarrow> 's accountant \<Rightarrow> 's accountant" where
  "handleMissingObservation mo a = a\<lparr>ac_obsvReqWriteC := snd (try_send
     \<lparr>or_ChainId = ucast (mo_ChainId mo), or_TxHash = mo_TxHash mo\<rparr> (ac_obsvReqWriteC a))\<rparr>"

text \<open>Submitting the entry with a message id again; an entry that is gone was approved in the meantime.\<close>

definition resubmit_entry :: "time \<Rightarrow> string \<Rightarrow> 's accountant \<Rightarrow> 's accountant" where
  "resubmit_entry now msgId a = (case ac_pendingTransfers a msgId of
     None \<Rightarrow> a | Some pe \<Rightarrow> snd (submitObservation now pe a))"

definition audit_missing :: "time \<Rightarrow> MissingObservation \<Rightarrow> (string \<times> string) list \<times> 's accountant \<Rightarrow>
    (string \<times> string) list \<times> 's accountant" where
  "audit_missing now mo st = (case st of (tmpMap, a) \<Rightarrow>
     (let key = mo_makeAuditKey mo in
      case map_of tmpMap key of
        Some msgId \<Rightarrow> (AList.delete key tmpMap, resubmit_entry now msgId a)
      | None \<Rightarrow> (tmpMap, handleMissingObservation mo a)))"

definition chunk_status :: "acct_conn option \<Rightarrow> string \<Rightarrow> TransferKey list \<Rightarrow> go_error + (string \<rightharpoonup> TransferStatus option)" where
  "chunk_status conn contract keys =
     (case conn of None \<Rightarrow> Inl (Panic ''nil pointer dereference'')
      | Some cn \<Rightarrow> chk (wrap ''batch_transfer_status query failed'' (cn_status cn contract keys)) (\<lambda>details.
          Inr (fold (\<lambda>(k, st) m. m(TransferKey_String k \<mapsto> st)) details Map.empty)))"

function status_chunks :: "acct_conn option \<Rightarrow> string \<Rightarrow> TransferKey list \<Rightarrow> (string \<rightharpoonup> TransferStatus option) \<Rightarrow>
    go_error + (string \<rightharpoonup> TransferStatus option)" where
  "status_chunks conn contract keys ret =
     (if keys = [] then Inr ret
      else chk (chunk_status conn contract (take maxPendingsPerQuery keys)) (\<lambda>m.
        status_chunks conn contract (drop maxPendingsPerQuery keys) (ret ++ m)))"
  by pat_completeness auto
termination
  by (relation "measure (\<lambda>(_, _, keys, _). length keys)") (auto simp: maxPendingsPerQuery_def)

declare status_chunks.simps [simp del]

definition queryBatchTransferStatus :: "acct_conn option \<Rightarrow> string \<Rightarrow> TransferKey list \<Rightarrow>
    go_error + (string \<rightharpoonup> TransferStatus option)" where
  "queryBatchTransferStatus conn contract keys =
     (if length keys \<le> maxPendingsPerQuery then chunk_status conn contract keys
      else status_chunks conn contract keys Map.empty)"

definition audit_status :: "'s badger \<Rightarrow> time \<Rightarrow> (string \<rightharpoonup> TransferStatus option) \<Rightarrow> string \<Rightarrow> 's accountant \<Rightarrow> 's accountant" where
  "audit_status B now details msgId a =
     (case details msgId of
        None \<Rightarrow> resubmit_entry now msgId a
      | Some None \<Rightarrow> resubmit_entry now msgId a
      | Some (Some status) \<Rightarrow>
          (case ts_Committed status of
             Some digest \<Rightarrow>
               (case ac_pendingTransfers a msgId of
                  None \<Rightarrow> a
                | Some pe \<Rightarrow>
                    if ae_digest pe = hex_encode digest then handleCommittedTransfer B msgId a
                    else deletePendingTransfer B msgId a)
           | None \<Rightarrow> if ts_Pending status then a else resubmit_entry now msgId a))"

definition transfer_key :: "acct_entry \<Rightarrow> TransferKey" where
  "transfer_key pe = \<lparr>tk_EmitterChain = mp_EmitterChain (ae_msg pe), tk_EmitterAddress = mp_EmitterAddress (ae_msg pe),
     tk_Sequence = mp_Sequence (ae_msg pe)\<rparr>"

text \<open>order2 maps the message ids that are left to the order in which the second loop ranges over them.\<close>

definition performAudit :: "'s badger \<Rightarrow> time \<Rightarrow> GuardianSet option \<Rightarrow> acct_conn option \<Rightarrow> string \<Rightarrow>
    (string list \<Rightarrow> string list) \<Rightarrow> (string \<times> string) list \<Rightarrow> 's accountant \<Rightarrow> go_error + 's accountant" where
  "performAudit B now gs conn contract order2 tmpMap a =
     (case queryMissingObservations gs conn contract a of
        Inl (Panic m) \<Rightarrow> Inl (Panic m)
      | Inl _ \<Rightarrow> Inr a
      | Inr missing \<Rightarrow>
          (case fold (audit_missing now) missing (tmpMap, a) of (tmpMap, a) \<Rightarrow>
             if tmpMap = [] then Inr a
             else
               let ids = order2 (map snd tmpMap);
                   keys = map transfer_key (List.map_filter (ac_pendingTransfers a) ids)
               in (case queryBatchTransferStatus conn contract keys of
                     Inl (Panic m) \<Rightarrow> Inl (Panic m)
                   | Inl _ \<Rightarrow> Inr a
                   | Inr details \<Rightarrow> Inr (fold (audit_status B now details) ids a))))"

definition runAudit :: "'s badger \<Rightarrow> time \<Rightarrow> GuardianSet option \<Rightarrow> acct_conn option \<Rightarrow> acct_conn option \<Rightarrow>
    (string list \<Rightarrow> string list) \<Rightarrow> string list \<Rightarrow> string list \<Rightarrow> 's accountant \<Rightarrow> go_error + 's accountant" where
  "runAudit B now gs conn nttConn order2 order nttOrder a =
     chk (performAudit B now gs conn (ac_contract a) order2 (createAuditMap False order a) a) (\<lambda>a.
     performAudit B now gs nttConn (ac_nttContract a) order2 (createAuditMap True nttOrder a) a)"

end
