(* ===== verification/Processor.thy ===== *)
theory Processor imports CleanupInv AcctWork GovRelease begin

text \<open>
  The main loop of the processor, Run of node/pkg/processor/processor.go, and the guardian node it is
  part of: the processor, the governor it owns and the accountant share the database, and the accountant
  gives the messages it releases back to the processor through a channel.

  The database is kept in the processor; an operation of the governor or the accountant gets it and
  returns it. A case of the select returns an error when Run returns it; the supervisor then starts Run
  again on the same processor. A panic ends the process.
\<close>

section \<open>The node\<close>

text \<open>The libraries and keys of a node: they do not change while it runs.\<close>

record 's run_env =
  re_crypto :: crypto
  re_sign :: "byte list \<Rightarrow> go_error + byte list"
  re_json :: acct_json
  re_badger :: "'s badger"
  re_batch :: "'s write_batch"
  re_obs_json :: "acct_observation list \<Rightarrow> go_error + byte list"
  re_dec_obs :: "(string \<rightharpoonup> string) \<Rightarrow> go_error + acct_observation"
  re_dec_err :: "(string \<rightharpoonup> string) \<Rightarrow> go_error + TransferKey \<times> string"

record 's guardian_node =
  nd_proc :: "'s processor"
  nd_acct :: "'s accountant option"

definition with_governor :: "('s ChainGovernor \<Rightarrow> 'r \<times> 's ChainGovernor) \<Rightarrow> 's ChainGovernor \<Rightarrow> 's guardian_node \<Rightarrow>
    'r \<times> 's guardian_node" where
  "with_governor f g n = (case f (g\<lparr>gov_db := p_db (nd_proc n)\<rparr>) of
     (r, g) \<Rightarrow> (r, n\<lparr>nd_proc := (nd_proc n)\<lparr>p_governor := Some g, p_db := gov_db g\<rparr>\<rparr>))"

definition with_acct :: "('s accountant \<Rightarrow> 'r \<times> 's accountant) \<Rightarrow> 's accountant \<Rightarrow> 's guardian_node \<Rightarrow>
    'r \<times> 's guardian_node" where
  "with_acct f a n = (case f (a\<lparr>ac_db := p_db (nd_proc n)\<rparr>) of
     (r, a) \<Rightarrow> (r, n\<lparr>nd_proc := (nd_proc n)\<lparr>p_db := ac_db a\<rparr>, nd_acct := Some a\<rparr>))"

definition lift_proc :: "go_error + 's processor \<Rightarrow> 's guardian_node \<Rightarrow> (unit, 's guardian_node) db_result" where
  "lift_proc r n = (case r of Inl e \<Rightarrow> (Inl e, n) | Inr p \<Rightarrow> (Inr (), n\<lparr>nd_proc := p\<rparr>))"

section \<open>The cases of the select\<close>

text \<open>f is the random source, by what the number is drawn for.\<close>

definition sign_message :: "'s run_env \<Rightarrow> (string \<Rightarrow> int \<Rightarrow> int) \<Rightarrow> time \<Rightarrow> MessagePublication \<Rightarrow> 's guardian_node \<Rightarrow>
    (unit, 's guardian_node) db_result" where
  "sign_message E f now k n =
     lift_proc (handleMessage (re_crypto E) (re_sign E) (f (MessageIDString k)) now k (nd_proc n)) n"

definition run_setC :: "GuardianSet \<Rightarrow> 's guardian_node \<Rightarrow> 's guardian_node" where
  "run_setC gs n = n\<lparr>nd_proc := (nd_proc n)\<lparr>p_gs := Some gs, p_gst := Set_current gs (p_gst (nd_proc n))\<rparr>\<rparr>"

text \<open>Whether the governor lets a message pass, and whether the accountant does.\<close>

definition governor_gate :: "'s run_env \<Rightarrow> time \<Rightarrow> MessagePublication \<Rightarrow> 's guardian_node \<Rightarrow> bool \<times> 's guardian_node" where
  "governor_gate E now k n = (case p_governor (nd_proc n) of
     None \<Rightarrow> (True, n) | Some g \<Rightarrow> with_governor (ProcessMsg (re_crypto E) (re_badger E) (Some k) now) g n)"

definition acct_gate :: "'s run_env \<Rightarrow> time \<Rightarrow> MessagePublication \<Rightarrow> 's guardian_node \<Rightarrow> (bool, 's guardian_node) db_result" where
  "acct_gate E now k n = (case nd_acct n of
     None \<Rightarrow> (Inr True, n)
   | Some a \<Rightarrow> with_acct (SubmitObservation (re_crypto E) (re_json E) (re_badger E) now k) a n)"

definition run_msgC :: "'s run_env \<Rightarrow> (string \<Rightarrow> int \<Rightarrow> int) \<Rightarrow> time \<Rightarrow> MessagePublication \<Rightarrow> 's guardian_node \<Rightarrow>
    (unit, 's guardian_node) db_result" where
  "run_msgC E f now k n =
     (case governor_gate E now k n of
        (False, n) \<Rightarrow> (Inr (), n)
      | (True, n) \<Rightarrow>
          (case acct_gate E now k n of
             (Inl e, n) \<Rightarrow> (Inl (Wrap ''failed to process message'' (Some e)), n)
           | (Inr False, n) \<Rightarrow> (Inr (), n)
           | (Inr True, n) \<Rightarrow> sign_message E f now k n))"

definition run_acctReadC :: "'s run_env \<Rightarrow> (string \<Rightarrow> int \<Rightarrow> int) \<Rightarrow> time \<Rightarrow> MessagePublication \<Rightarrow> 's guardian_node \<Rightarrow>
    (unit, 's guardian_node) db_result" where
  "run_acctReadC E f now k n =
     (case nd_acct n of
        None \<Rightarrow> (Inl (Errorf ''received an accountant event when accountant is not configured''), n)
      | Some a \<Rightarrow>
          if \<not> IsMessageCoveredByAccountant k a
          then (Inl (Errorf ''accountant published a message that is not covered by it''), n)
          else sign_message E f now k n)"

definition run_batchObsvC :: "'s run_env \<Rightarrow> (string \<Rightarrow> int \<Rightarrow> int) \<Rightarrow> time \<Rightarrow> SignedObservationBatch \<Rightarrow> 's guardian_node \<Rightarrow>
    (unit, 's guardian_node) db_result" where
  "run_batchObsvC E f now m n =
     lift_proc (handleBatchObservation (re_crypto E) (f []) now (sob_Addr m) (sob_Observations m) (nd_proc n)) n"

text \<open>The messages that CheckPending returned, one after the other.\<close>

fun run_released :: "'s run_env \<Rightarrow> (string \<Rightarrow> int \<Rightarrow> int) \<Rightarrow> time \<Rightarrow> MessagePublication list \<Rightarrow> 's guardian_node \<Rightarrow>
    (unit, 's guardian_node) db_result" where
  "run_released E f now [] n = (Inr (), n)"
| "run_released E f now (k # toBePublished) n =
     (case p_governor (nd_proc n) of
        None \<Rightarrow> (Inl (Panic ''nil pointer dereference''), n)
      | Some g \<Rightarrow>
          (case IsGovernedMsg k g of
             Inl e \<Rightarrow> (Inl (Wrap ''governor failed to determine if message should be governed'' (Some e)), n)
           | Inr False \<Rightarrow> (Inl (Errorf ''governor published a message that should not be governed''), n)
           | Inr True \<Rightarrow>
               (case acct_gate E now k n of
                  (Inl e, n) \<Rightarrow> (Inl (Wrap ''failed to process message released by governor'' (Some e)), n)
                | (Inr False, n) \<Rightarrow> run_released E f now toBePublished n
                | (Inr True, n) \<Rightarrow>
                    (case sign_message E f now k n of
                       (Inl e, n) \<Rightarrow> (Inl e, n)
                     | (Inr _, n) \<Rightarrow> run_released E f now toBePublished n))))"

definition run_govTimer :: "'s run_env \<Rightarrow> (string \<Rightarrow> int \<Rightarrow> int) \<Rightarrow> time \<Rightarrow> 's guardian_node \<Rightarrow>
    (unit, 's guardian_node) db_result" where
  "run_govTimer E f now n =
     (case p_governor (nd_proc n) of
        None \<Rightarrow> (Inr (), n)
      | Some g \<Rightarrow>
          (case with_governor (CheckPendingForTime (re_badger E) now) g n of
             (Inl e, n) \<Rightarrow> (Inl e, n)
           | (Inr toBePublished, n) \<Rightarrow> run_released E f now toBePublished n))"

datatype run_event =
    SetC GuardianSet
  | MsgC MessagePublication
  | AcctReadC MessagePublication
  | BatchObsvC SignedObservationBatch
  | SignedInC "byte list"
  | CleanupC "string list"
  | GovTimerC
  | Done

text \<open>CleanupC carries the order in which the map of states is ranged over.\<close>

definition Run_select :: "'s run_env \<Rightarrow> (string \<Rightarrow> int \<Rightarrow> int) \<Rightarrow> time \<Rightarrow> run_event \<Rightarrow> 's guardian_node \<Rightarrow>
    (unit, 's guardian_node) db_result" where
  "Run_select E f now ev n =
     (case ev of
        Done \<Rightarrow> (Inl Canceled, n)
      | SetC gs \<Rightarrow> (Inr (), run_setC gs n)
      | MsgC k \<Rightarrow> run_msgC E f now k n
      | AcctReadC k \<Rightarrow> run_acctReadC E f now k n
      | BatchObsvC m \<Rightarrow> run_batchObsvC E f now m n
      | SignedInC m \<Rightarrow> (Inr (), n\<lparr>nd_proc := handleInboundSignedVAAWithQuorum (re_crypto E) (re_badger E) now m (nd_proc n)\<rparr>)
      | CleanupC order \<Rightarrow> lift_proc (handleCleanup (re_crypto E) (re_badger E) f now order (nd_proc n)) n
      | GovTimerC \<Rightarrow> run_govTimer E f now n)"

section \<open>Everything that runs beside the loop\<close>

text \<open>
  The steps of the whole node. Loop is a case of the select that is not fed by the accountant, FromAcct
  the one that is: it takes the oldest message the accountant has released. BatchTurn is a turn of the
  batch processor and WriterTick a tick of the VAA writer; SubmitTurn, ContractEvents and AuditTick are
  the worker, the watcher and the audit of the accountant, with what the contract answers them. Drain
  takes messages from the queues to the network, as p2p does.
\<close>

datatype node_event =
    Loop run_event
  | FromAcct
  | BatchTurn nat go_error
  | WriterTick "string list"
  | SubmitTurn bool nat go_error "acct_conn option"
  | ContractEvents string "wasm_event list"
  | AuditTick "acct_conn option" "acct_conn option" "string list \<Rightarrow> string list" "string list" "string list"
  | Drain nat nat nat

definition drain :: "nat \<Rightarrow> 'a channel \<Rightarrow> 'a channel" where
  "drain k ch = ch\<lparr>ch_Items := drop k (ch_Items ch)\<rparr>"

definition from_acct :: "'s run_env \<Rightarrow> (string \<Rightarrow> int \<Rightarrow> int) \<Rightarrow> time \<Rightarrow> 's guardian_node \<Rightarrow>
    (unit, 's guardian_node) db_result option" where
  "from_acct E f now n =
     (case nd_acct n of None \<Rightarrow> None
      | Some a \<Rightarrow> (case ch_Items (ac_msgChan a) of [] \<Rightarrow> None
          | k # _ \<Rightarrow> Some (Run_select E f now (AcctReadC k) (n\<lparr>nd_acct := Some (a\<lparr>ac_msgChan := drain 1 (ac_msgChan a)\<rparr>)\<rparr>))))"

definition acct_step :: "('s accountant \<Rightarrow> (unit, 's accountant) db_result) \<Rightarrow> 's guardian_node \<Rightarrow>
    (unit, 's guardian_node) db_result option" where
  "acct_step f n = map_option (\<lambda>a. with_acct f a n) (nd_acct n)"

definition audit_result :: "'s accountant \<Rightarrow> go_error + 's accountant \<Rightarrow> (unit, 's accountant) db_result" where
  "audit_result a r = (case r of Inl e \<Rightarrow> (Inl e, a) | Inr a \<Rightarrow> (Inr (), a))"

text \<open>None when the step cannot be made: there is nothing to read, or no accountant.\<close>

definition node_result :: "'s run_env \<Rightarrow> (string \<Rightarrow> int \<Rightarrow> int) \<Rightarrow> time \<Rightarrow> node_event \<Rightarrow> 's guardian_node \<Rightarrow>
    (unit, 's guardian_node) db_result option" where
  "node_result E f now ev n =
     (let p = nd_proc n; c = re_crypto E; B = re_badger E; gs = Get_current (p_gst p) in
      case ev of
        Loop e \<Rightarrow> (case e of AcctReadC _ \<Rightarrow> None | _ \<Rightarrow> Some (Run_select E f now e n))
      | FromAcct \<Rightarrow> from_acct E f now n
      | BatchTurn ready err \<Rightarrow> (case handleBatch ready err p of (r, p) \<Rightarrow> Some (r, n\<lparr>nd_proc := p\<rparr>))
      | WriterTick order \<Rightarrow> Some (lift_proc (vaaWriter (re_batch E) order p) n)
      | SubmitTurn isNTT ready err conn \<Rightarrow>
          acct_step (acct_handleBatch c (re_obs_json E) (re_sign E) B now isNTT ready err gs conn) n
      | ContractEvents contract events \<Rightarrow>
          acct_step (\<lambda>a. (Inr (), handleEvents c B (re_dec_obs E) (re_dec_err E) contract events a)) n
      | AuditTick conn nttConn order2 order nttOrder \<Rightarrow>
          acct_step (\<lambda>a. audit_result a (runAudit B now gs conn nttConn order2 order nttOrder a)) n
      | Drain i j k \<Rightarrow> Some (Inr (), n\<lparr>nd_proc := p\<lparr>p_gossipAttestationSendC := drain i (p_gossipAttestationSendC p),
          p_gossipVaaSendC := drain j (p_gossipVaaSendC p), p_obsvReqSendC := drain k (p_obsvReqSendC p)\<rparr>\<rparr>))"

text \<open>A step at some time with some random numbers; a panic is no step, since the process ends.\<close>

inductive node_step :: "'s run_env \<Rightarrow> node_event \<Rightarrow> 's guardian_node \<Rightarrow> 's guardian_node \<Rightarrow> bool" for E where
  step: "node_result E f now ev n = Some (r, n') \<Longrightarrow> \<forall>h. Int63n_ok (f h) \<Longrightarrow>
    (\<And>e. r = Inl e \<Longrightarrow> \<not> is_panic e) \<Longrightarrow> node_step E ev n n'"

inductive_cases node_stepE: "node_step E ev n n'"

end
