(* ===== verification/Traces.thy ===== *)
theory Traces imports Prelude begin

text \<open>
  Runs of a labelled step relation and the invariants that may speak of what has happened: the trace
  holds every event with the state it was taken in.
\<close>

inductive trace_run :: "('n \<Rightarrow> bool) \<Rightarrow> ('e \<Rightarrow> 'n \<Rightarrow> 'n \<Rightarrow> bool) \<Rightarrow> ('e \<times> 'n) list \<Rightarrow> 'n \<Rightarrow> bool" for start step where
  start: "start n \<Longrightarrow> trace_run start step [] n"
| step: "trace_run start step tr n \<Longrightarrow> step ev n n' \<Longrightarrow> trace_run start step (tr @ [(ev, n)]) n'"

text \<open>What is true at the start and kept by every step, under what is assumed of the events, holds in every run.\<close>

locale trace_invariant =
  fixes start :: "'n \<Rightarrow> bool" and step :: "'e \<Rightarrow> 'n \<Rightarrow> 'n \<Rightarrow> bool"
    and typed :: "'e \<Rightarrow> bool" and inv :: "('e \<times> 'n) list \<Rightarrow> 'n \<Rightarrow> bool"
  assumes inv_start: "start n \<Longrightarrow> inv [] n"
    and inv_step: "inv tr n \<Longrightarrow> typed ev \<Longrightarrow> step ev n n' \<Longrightarrow> inv (tr @ [(ev, n)]) n'"
begin

lemma run_inv: "trace_run start step tr n \<Longrightarrow> \<forall>ev \<in> fst ` set tr. typed ev \<Longrightarrow> inv tr n"
  by (induction rule: trace_run.induct) (auto intro: inv_start inv_step)

text \<open>The invariant also held before every event of the trace.\<close>

lemma run_inv_before:
  "trace_run start step tr n \<Longrightarrow> \<forall>ev \<in> fst ` set tr. typed ev \<Longrightarrow> (ev, m) \<in> set tr \<Longrightarrow>
     \<exists>tr1 tr2. tr = tr1 @ (ev, m) # tr2 \<and> inv tr1 m"
proof (induction rule: trace_run.induct)
  case (step tr n ev' n')
  then have inv: "inv tr n"
    by (intro run_inv) auto
  show ?case
  proof (cases "(ev, m) \<in> set tr")
    case True
    with step obtain tr1 tr2 where "tr = tr1 @ (ev, m) # tr2" "inv tr1 m" by auto
    then show ?thesis by auto
  next
    case False
    with step.prems inv show ?thesis by auto
  qed
qed simp

end

end
