(* ===== verification/AcctInv.thy ===== *)
theory AcctInv imports AcctWork begin

text \<open>
  What the accountant keeps: every pending entry is filed under the id of its message and is covered
  with the flag it carries, and only messages that the contract has committed are given back to the
  processor.
\<close>

section \<open>The invariant\<close>

definition enforced :: "MessagePublication \<Rightarrow> 's accountant \<Rightarrow> bool" where
  "enforced msg a \<longleftrightarrow> (\<exists>ntt. isMessageCoveredByAccountant msg a = (True, ntt, True))"

definition entry_inv :: "(MessagePublication \<Rightarrow> bool) \<Rightarrow> 's accountant \<Rightarrow> string \<Rightarrow> acct_entry \<Rightarrow> bool" where
  "entry_inv P a i pe \<longleftrightarrow> ae_msgId pe = i \<and> MessageIDString (ae_msg pe) = i \<and> P (ae_msg pe) \<and>
     (\<exists>ntt. isMessageCoveredByAccountant (ae_msg pe) a = (True, ntt, ae_enforceFlag pe))"

text \<open>C holds of the ids that are committed, P of the messages that may occur.\<close>

definition acct_inv :: "(string \<Rightarrow> bool) \<Rightarrow> (MessagePublication \<Rightarrow> bool) \<Rightarrow> 's accountant \<Rightarrow> bool" where
  "acct_inv C P a \<longleftrightarrow> (\<forall>i pe. ac_pendingTransfers a i = Some pe \<longrightarrow> entry_inv P a i pe) \<and>
     (\<forall>m \<in> set (ch_Items (ac_msgChan a)). P m \<and> enforced m a \<and> C (MessageIDString m))"

definition same_emitters :: "'s accountant \<Rightarrow> 's accountant \<Rightarrow> bool" where
  "same_emitters a a' \<longleftrightarrow> ac_tokenBridges a' = ac_tokenBridges a \<and> ac_nttDirectEmitters a' = ac_nttDirectEmitters a \<and>
     ac_nttArEmitters a' = ac_nttArEmitters a"

text \<open>A step that publishes only messages with an id in R.\<close>

definition acct_ok :: "string set \<Rightarrow> 's accountant \<Rightarrow> 's accountant \<Rightarrow> bool" where
  "acct_ok R a a' \<longleftrightarrow> same_emitters a a' \<and> (\<forall>C P. acct_inv C P a \<longrightarrow> (\<forall>i \<in> R. C i) \<longrightarrow> acct_inv C P a')"

lemma covered_same:
  assumes "same_emitters a a'"
  shows "isMessageCoveredByAccountant m a' = isMessageCoveredByAccountant m a"
proof -
  have e: "ac_tokenBridges a' = ac_tokenBridges a" "ac_nttDirectEmitters a' = ac_nttDirectEmitters a"
    "ac_nttArEmitters a' = ac_nttArEmitters a"
    using assms by (simp_all add: same_emitters_def)
  show ?thesis
    unfolding isMessageCoveredByAccountant_def isTokenBridgeTransfer_def e ..
qed

lemma same_emitters_invs:
  assumes "same_emitters a a'"
  shows "enforced m a' = enforced m a" and "entry_inv P a' i pe = entry_inv P a i pe"
  using assms by (simp_all add: enforced_def entry_inv_def covered_same)

lemma same_emitters_refl [simp]: "same_emitters a a"
  by (simp add: same_emitters_def)

lemma same_emitters_trans: "same_emitters a b \<Longrightarrow> same_emitters b c \<Longrightarrow> same_emitters a c"
  by (simp add: same_emitters_def)

lemma same_emitters_updates [simp]:
  "same_emitters a (b\<lparr>ac_db := s\<rparr>) = same_emitters a b" "same_emitters a (b\<lparr>ac_msgChan := ch\<rparr>) = same_emitters a b"
  "same_emitters a (b\<lparr>ac_subChan := ch\<rparr>) = same_emitters a b" "same_emitters a (b\<lparr>ac_nttSubChan := ch\<rparr>) = same_emitters a b"
  "same_emitters a (b\<lparr>ac_pendingTransfers := m\<rparr>) = same_emitters a b"
  "same_emitters a (b\<lparr>ac_obsvReqWriteC := ch'\<rparr>) = same_emitters a b"
  "same_emitters a (put_entry pe b) = same_emitters a b"
  by (simp_all add: same_emitters_def put_entry_def)

lemma acct_inv_mono: "acct_inv C P a \<Longrightarrow> (\<And>i. C i \<Longrightarrow> C' i) \<Longrightarrow> acct_inv C' P a"
  by (auto simp: acct_inv_def)

lemma acct_ok_refl [simp]: "acct_ok R a a"
  by (simp add: acct_ok_def)

lemma acct_ok_trans: "acct_ok R a b \<Longrightarrow> acct_ok R b c \<Longrightarrow> acct_ok R a c"
  by (auto simp: acct_ok_def intro: same_emitters_trans)

lemma acct_ok_mono: "acct_ok R a b \<Longrightarrow> R \<subseteq> S \<Longrightarrow> acct_ok S a b"
  unfolding acct_ok_def by blast

lemma acct_ok_fold: "(\<And>x b. x \<in> set xs \<Longrightarrow> acct_ok R b (f x b)) \<Longrightarrow> acct_ok R a (fold f xs a)"
  by (induction xs arbitrary: a) (auto intro: acct_ok_trans)

text \<open>Pending entries that change only in what the invariant does not speak of, and no new message.\<close>

lemma acct_okI:
  assumes "same_emitters a a'" and "ch_Items (ac_msgChan a') = ch_Items (ac_msgChan a)"
    and "\<And>i pe. ac_pendingTransfers a' i = Some pe \<Longrightarrow> \<exists>pe0. ac_pendingTransfers a i = Some pe0 \<and>
      ae_msgId pe = ae_msgId pe0 \<and> ae_msg pe = ae_msg pe0 \<and> ae_enforceFlag pe = ae_enforceFlag pe0"
  shows "acct_ok R a a'"
  using assms same_emitters_invs [OF assms(1)] unfolding acct_ok_def acct_inv_def by (fastforce simp: entry_inv_def)

section \<open>The operations\<close>

lemma deletePendingTransfer_ok: "acct_ok R a (deletePendingTransfer B msgId a)"
  by (rule acct_okI) (auto simp: deletePendingTransfer_def split: if_splits)

lemma update_entry_ok:
  assumes "ac_pendingTransfers a msgId = Some pe0" and "ae_msgId pe = msgId" "ae_msgId pe = ae_msgId pe0"
    and "ae_msg pe = ae_msg pe0" "ae_enforceFlag pe = ae_enforceFlag pe0"
    and "same_emitters a b" "ch_Items (ac_msgChan b) = ch_Items (ac_msgChan a)" "ac_pendingTransfers b = ac_pendingTransfers a"
  shows "acct_ok R a (put_entry pe b)"
  using assms by (intro acct_okI) (auto simp: put_entry_def split: if_splits)

lemma submitObservation_ok:
  assumes "ac_pendingTransfers a msgId = Some pe" and "ae_msgId pe = msgId"
  shows "acct_ok R a (snd (submitObservation now pe a))"
proof -
  have "acct_ok R a (put_entry (fst r) b)"
    if "r = submitToChannel (pe\<lparr>ae_submitPending := True, ae_updTime := now\<rparr>) ch" "same_emitters a b"
      "ch_Items (ac_msgChan b) = ch_Items (ac_msgChan a)" "ac_pendingTransfers b = ac_pendingTransfers a" for r ch b
    using that assms by (intro update_entry_ok [OF assms(1)]) (auto simp: submitToChannel_def split: prod.splits bool.splits)
  then show ?thesis
    by (auto simp: submitObservation_def Let_def case_prod_unfold)
qed

lemma resubmit_entry_ok: "acct_ok R a (resubmit_entry now msgId a)"
proof (cases "ac_pendingTransfers a msgId")
  case None
  then show ?thesis by (simp add: resubmit_entry_def)
next
  case (Some pe)
  have "acct_ok {} a (resubmit_entry now msgId a)" if "acct_inv C P a" for C P
  proof -
    have "ae_msgId pe = msgId"
      using that Some by (auto simp: acct_inv_def entry_inv_def)
    from submitObservation_ok [OF Some this] Some show ?thesis
      by (simp add: resubmit_entry_def)
  qed
  moreover have "same_emitters a (resubmit_entry now msgId a)"
    using Some by (auto simp: resubmit_entry_def submitObservation_def Let_def submitToChannel_def split: prod.splits bool.splits)
  ultimately show ?thesis
    by (auto simp: acct_ok_def)
qed

lemma clear_flag_ok: "acct_ok R a (clear_flag now msg a)"
proof (cases "ac_pendingTransfers a (MessageIDString msg)")
  case None
  then show ?thesis by (simp add: clear_flag_def)
next
  case (Some pe)
  have "acct_inv C P (clear_flag now msg a)" if "acct_inv C P a" for C P
  proof -
    have "ae_msgId pe = MessageIDString msg"
      using that Some by (auto simp: acct_inv_def entry_inv_def)
    with Some have "acct_ok {} a (clear_flag now msg a)"
      by (auto simp: clear_flag_def setSubmitPending_def intro!: update_entry_ok [OF Some])
    with that show ?thesis by (simp add: acct_ok_def)
  qed
  then show ?thesis
    using Some by (auto simp: acct_ok_def clear_flag_def)
qed

lemma clearSubmitPendingFlags_ok: "acct_ok R a (clearSubmitPendingFlags now msgs a)"
  by (auto simp: clearSubmitPendingFlags_def intro: acct_ok_fold clear_flag_ok)

lemma publish_ok:
  assumes "ac_pendingTransfers a msgId = Some pe" and "msgId \<in> R"
  shows "acct_ok R a (publishTransferAlreadyLocked B pe a)"
proof -
  let ?b = "if ae_enforceFlag pe then a\<lparr>ac_msgChan := snd (try_send (ae_msg pe) (ac_msgChan a))\<rparr> else a"
  have "acct_inv C P ?b" if "acct_inv C P a" "\<forall>i \<in> R. C i" for C P
  proof -
    have "entry_inv P a msgId pe"
      using assms(1) that(1) by (auto simp: acct_inv_def)
    then have "ae_enforceFlag pe \<Longrightarrow> P (ae_msg pe) \<and> enforced (ae_msg pe) a \<and> C (MessageIDString (ae_msg pe))"
      using assms(2) that(2) by (auto simp: entry_inv_def enforced_def)
    moreover have "same_emitters a ?b"
      by simp
    ultimately show ?thesis
      using that(1) set_try_send [of "ae_msg pe" "ac_msgChan a"] unfolding acct_inv_def same_emitters_invs [OF \<open>same_emitters a ?b\<close>]
      by auto
  qed
  then have "acct_ok R a ?b"
    by (simp add: acct_ok_def)
  then show ?thesis
    unfolding publishTransferAlreadyLocked_def Let_def by (rule acct_ok_trans [OF _ deletePendingTransfer_ok])
qed

lemma handleCommittedTransfer_ok: "msgId \<in> R \<Longrightarrow> acct_ok R a (handleCommittedTransfer B msgId a)"
  by (auto simp: handleCommittedTransfer_def intro: publish_ok split: option.split)

lemma handleTransferError_ok: "acct_ok R a (handleTransferError B msgId e a)"
  by (simp add: handleTransferError_def deletePendingTransfer_ok)

section \<open>Answering the processor\<close>

text \<open>Deletions of the database aside, a message is let through exactly when it is not covered or not enforced.\<close>

lemma SubmitObservation_inv:
  assumes inv: "acct_inv C P a" and P: "P msg" and step: "SubmitObservation c J B now msg a = (r, a')"
  shows "acct_inv C P a' \<and> same_emitters a a' \<and> (r = Inr True \<longrightarrow> \<not> enforced msg a)"
proof -
  obtain cov ntt enf where cov: "isMessageCoveredByAccountant msg a = (cov, ntt, enf)"
    by (metis prod.collapse)
  define pe where "pe = \<lparr>ae_msg = msg, ae_msgId = MessageIDString msg, ae_digest = CreateDigest c msg, ae_isNTT = ntt,
    ae_enforceFlag = enf, ae_updTime = 0, ae_submitPending = False\<rparr>"
  show ?thesis
  proof (cases "cov \<and> ac_pendingTransfers a (MessageIDString msg) = None")
    case False
    with step cov inv show ?thesis
      by (cases cov) (auto simp: SubmitObservation_def Let_def enforced_def)
  next
    case True
    obtain q a1 where q: "addPendingTransferAlreadyLocked J B now pe a = (q, a1)"
      by (metis prod.collapse)
    show ?thesis
    proof (cases q)
      case (Inl e)
      with q have "acct_ok {} a a1"
        by (intro acct_okI) (auto simp: addPendingTransferAlreadyLocked_def split: sum.splits prod.splits)
      with True cov step q Inl inv show ?thesis
        by (auto simp: SubmitObservation_def Let_def pe_def acct_ok_def)
    next
      case (Inr u)
      then obtain s where a1: "a1 = put_entry (pe\<lparr>ae_updTime := now\<rparr>) (a\<lparr>ac_db := s\<rparr>)"
        using q by (auto simp: addPendingTransferAlreadyLocked_def split: sum.splits prod.splits)
      have same: "same_emitters a a1"
        by (simp add: a1)
      have entry: "ac_pendingTransfers a1 (MessageIDString msg) = Some (pe\<lparr>ae_updTime := now\<rparr>)"
        by (simp add: a1 put_entry_def pe_def)
      have "entry_inv P a (MessageIDString msg) (pe\<lparr>ae_updTime := now\<rparr>)"
        using P cov True by (simp add: entry_inv_def pe_def)
      then have "acct_inv C P a1"
        using inv same_emitters_invs [OF same] unfolding acct_inv_def by (auto simp: a1 put_entry_def pe_def)
      moreover have "r = Inr (\<not> enf)"
        "a' = (if ac_env a1 \<noteq> GoTest then snd (submitObservation now (pe\<lparr>ae_updTime := now\<rparr>) a1) else a1)"
        using step True cov q Inr by (auto simp: SubmitObservation_def Let_def pe_def [symmetric])
      moreover have "acct_ok {} a1 (snd (submitObservation now (pe\<lparr>ae_updTime := now\<rparr>) a1))"
        by (rule submitObservation_ok [OF entry]) (simp add: pe_def)
      ultimately show ?thesis
        using cov same by (auto simp: acct_ok_def enforced_def intro: same_emitters_trans)
    qed
  qed
qed

section \<open>What the contract reports\<close>

text \<open>The ids that a connection may report as committed.\<close>

definition committed_by :: "acct_conn \<Rightarrow> string set" where
  "committed_by cn = {TransferKey_String k | k.
     (\<exists>contract m log rs st. cn_submit cn contract m = Inr (AcctTxResp log (Inr rs)) \<and> (k, st) \<in> set rs \<and> rs_Type st = ''committed'') \<or>
     (\<exists>contract keys ds st. cn_status cn contract keys = Inr ds \<and> (k, Some st) \<in> set ds \<and> ts_Committed st \<noteq> None)}"

definition conn_committed :: "acct_conn option \<Rightarrow> string set" where
  "conn_committed conn = (case conn of None \<Rightarrow> {} | Some cn \<Rightarrow> committed_by cn)"

definition observation_id :: "acct_observation \<Rightarrow> string" where
  "observation_id obs = MessageIDString ((empty_msg [])\<lparr>mp_Sequence := ao_Sequence obs, mp_EmitterChain := ao_EmitterChain obs,
     mp_EmitterAddress := ao_EmitterAddress obs\<rparr>)"

text \<open>The ids of the observations that events of a contract carry.\<close>

definition events_committed :: "((string \<rightharpoonup> string) \<Rightarrow> go_error + acct_observation) \<Rightarrow> string \<Rightarrow> wasm_event list \<Rightarrow> string set" where
  "events_committed dec_obs contract events =
     {observation_id obs | obs. \<exists>ev \<in> set events. we_Type ev = ''wasm-Observation'' \<and> parseEvent dec_obs ev contract = Inr obs}"

lemma processPendingTransfer_ok:
  assumes "observation_id xfer \<in> R"
  shows "acct_ok R a (processPendingTransfer c B xfer a)"
proof -
  have "MessageIDString ((empty_msg (ao_TxHash xfer))\<lparr>mp_Timestamp := time_unix (uint (ao_Timestamp xfer)), mp_Nonce := ao_Nonce xfer,
      mp_Sequence := ao_Sequence xfer, mp_EmitterChain := ao_EmitterChain xfer, mp_EmitterAddress := ao_EmitterAddress xfer,
      mp_Payload := ao_Payload xfer, mp_ConsistencyLevel := ao_ConsistencyLevel xfer\<rparr>) = observation_id xfer"
    by (simp add: observation_id_def MessageIDString_def)
  then show ?thesis
    using assms by (auto simp: processPendingTransfer_def Let_def intro: publish_ok deletePendingTransfer_ok split: option.split)
qed

lemma handle_event_ok:
  assumes "\<And>obs. we_Type event = ''wasm-Observation'' \<Longrightarrow> parseEvent dec_obs event contract = Inr obs \<Longrightarrow> observation_id obs \<in> R"
  shows "acct_ok R a (handle_event c B dec_obs dec_err contract event a)"
  using assms by (auto simp: handle_event_def intro: processPendingTransfer_ok handleTransferError_ok split: sum.split)

lemma handleEvents_ok:
  "events_committed dec_obs contract events \<subseteq> R \<Longrightarrow> acct_ok R a (handleEvents c B dec_obs dec_err contract events a)"
  unfolding handleEvents_def by (rule acct_ok_fold, rule handle_event_ok) (auto simp: events_committed_def)

lemma map_of_responses:
  "map_of (fold (\<lambda>(k, st) m. AList.update (TransferKey_String k) st m) rs m0) i = Some st \<Longrightarrow>
     map_of m0 i = Some st \<or> (\<exists>k. (k, st) \<in> set rs \<and> i = TransferKey_String k)"
proof (induction rs arbitrary: m0)
  case (Cons kst rs)
  obtain k st' where "kst = (k, st')" by (cases kst)
  with Cons.IH [of "AList.update (TransferKey_String k) st' m0"] Cons.prems show ?case
    by (auto simp: update_conv split: if_splits)
qed simp

lemma handle_response_ok:
  assumes "\<And>st. map_of responses (MessageIDString msg) = Some st \<Longrightarrow> rs_Type st = ''committed'' \<Longrightarrow> MessageIDString msg \<in> R"
  shows "acct_ok R a (handle_response B responses msg a)"
  using assms by (auto simp: handle_response_def Let_def intro: handleCommittedTransfer_ok handleTransferError_ok split: option.split)

lemma submitObservationsToContract_ok:
  assumes "submitObservationsToContract c json sign B now msgs gsIndex guardianIndex conn contract pfx a = Inr a'"
  shows "acct_ok (conn_committed conn) a a'"
proof -
  consider "a' = clearSubmitPendingFlags now msgs a"
    | txResp responses where "SubmitObservationsToContract c json sign gsIndex guardianIndex conn contract pfx msgs = Inr txResp"
      "GetObservationResponses txResp = Inr responses"
      "a' = clearSubmitPendingFlags now msgs (fold (handle_response B responses) msgs a)"
    using assms by (auto simp: submitObservationsToContract_def split: sum.splits go_error.splits if_splits)
  then show ?thesis
  proof cases
    case 1
    then show ?thesis by (simp add: clearSubmitPendingFlags_ok)
  next
    case (2 txResp responses)
    obtain cn m where cn: "conn = Some cn" "cn_submit cn contract m = Inr txResp"
      using 2(1) by (auto simp: SubmitObservationsToContract_def chk_eq_Inr wrap_def split: option.splits sum.splits acct_tx_resp.splits if_splits)
    obtain log rs where rs: "txResp = AcctTxResp log (Inr rs)"
      "responses = fold (\<lambda>(k, st) m. AList.update (TransferKey_String k) st m) rs []"
      using 2(2) by (auto simp: GetObservationResponses_def chk_eq_Inr split: acct_tx_resp.splits)
    have "acct_ok (conn_committed conn) b (handle_response B responses msg b)" for msg b
    proof (rule handle_response_ok)
      fix st assume "map_of responses (MessageIDString msg) = Some st" "rs_Type st = ''committed''"
      then obtain k where "(k, st) \<in> set rs" "MessageIDString msg = TransferKey_String k" "rs_Type st = ''committed''"
        using map_of_responses [of rs "[]" "MessageIDString msg" st] by (auto simp: rs(2))
      then show "MessageIDString msg \<in> conn_committed conn"
        using cn rs(1) unfolding conn_committed_def committed_by_def by fastforce
    qed
    then show ?thesis
      unfolding 2(3) by (intro acct_ok_trans [OF acct_ok_fold clearSubmitPendingFlags_ok]) blast
  qed
qed

lemma acct_handleBatch_ok:
  assumes "acct_handleBatch c json sign B now isNTT ready err gs conn a = (r, a')"
  shows "acct_ok (conn_committed conn) a a'"
proof -
  let ?chan = "if isNTT then ac_nttSubChan a else ac_subChan a"
  define ch where "ch = snd (ReadFromChannelWithTimeout batchSize ready err ?chan)"
  let ?b = "if isNTT then a\<lparr>ac_nttSubChan := ch\<rparr> else a\<lparr>ac_subChan := ch\<rparr>"
  have b: "acct_ok (conn_committed conn) a ?b"
    by (cases isNTT; rule acct_okI) auto
  define b where "b = ?b"
  obtain msgs e where read: "ReadFromChannelWithTimeout batchSize ready err ?chan = ((msgs, e), ch)"
    unfolding ch_def by (metis prod.collapse)
  have "(if e \<noteq> None \<and> e \<noteq> Some DeadlineExceeded then (Inl (Wrap ''failed to read messages from channel'' e), b)
      else if length (removeCompleted msgs b) = 0 then (Inr (), b)
      else (case gs of
          None \<Rightarrow> (Inl (Errorf ''failed to get guardian set''), b)
        | Some gs \<Rightarrow>
            (case KeyIndex gs (ac_guardianAddr b) of
               (_, False) \<Rightarrow> (Inl (Errorf ''failed to get guardian index''), b)
             | (guardianIndex, True) \<Rightarrow>
                 if 4294967295 < guardianIndex then (Inl (Errorf ''guardian index greater than max uint32''), b)
                 else (case submitObservationsToContract c json sign B now (removeCompleted msgs b) (gs_Index gs)
                          (word_of_int guardianIndex) conn (if isNTT then ac_nttContract a else ac_contract a)
                          (if isNTT then NttSubmitObservationPrefix else SubmitObservationPrefix) b of
                     Inl e \<Rightarrow> (Inl e, b)
                   | Inr a \<Rightarrow> (Inr (), a))))) = (r, a')"
    using assms unfolding acct_handleBatch_def Let_def read b_def by (simp only: prod.case)
  then have "a' = ?b \<or> (\<exists>msgs i j contract pfx. submitObservationsToContract c json sign B now msgs i j conn contract pfx ?b = Inr a')"
    unfolding b_def [symmetric] by (auto split: option.splits sum.splits if_splits bool.splits prod.splits)
  then show ?thesis
  proof (elim disjE exE)
    fix msgs i j contract pfx
    assume "submitObservationsToContract c json sign B now msgs i j conn contract pfx ?b = Inr a'"
    from acct_ok_trans [OF b submitObservationsToContract_ok [OF this]] show ?thesis .
  qed (use b in simp)
qed

section \<open>The audit\<close>

lemma audit_missing_ok: "acct_ok R a (snd (audit_missing now mo (m, a)))"
proof -
  have "acct_ok R a (handleMissingObservation mo a)"
    by (rule acct_okI) (auto simp: handleMissingObservation_def)
  then show ?thesis
    by (auto simp: audit_missing_def Let_def resubmit_entry_ok split: option.split)
qed

lemma audit_missing_fold_ok: "acct_ok R a (snd (fold (audit_missing now) missing (m, a)))"
proof (induction missing arbitrary: m a)
  case (Cons mo missing)
  obtain m' a' where s: "audit_missing now mo (m, a) = (m', a')"
    by (metis prod.collapse)
  with audit_missing_ok [of R a now mo m] Cons.IH [of a' m'] show ?case
    by (auto intro: acct_ok_trans)
qed simp

text \<open>A status that is found was in one of the answers of the contract.\<close>

definition status_from :: "acct_conn option \<Rightarrow> (string \<rightharpoonup> TransferStatus option) \<Rightarrow> bool" where
  "status_from conn m \<longleftrightarrow> (\<forall>i st. m i = Some (Some st) \<longrightarrow> ts_Committed st \<noteq> None \<longrightarrow> i \<in> conn_committed conn)"

lemma chunk_status_from:
  assumes "chunk_status conn contract keys = Inr m"
  shows "status_from conn m"
proof -
  obtain cn ds where cn: "conn = Some cn" "cn_status cn contract keys = Inr ds"
    and m: "m = fold (\<lambda>(k, st) m. m(TransferKey_String k \<mapsto> st)) ds Map.empty"
    using assms by (auto simp: chunk_status_def chk_eq_Inr wrap_def split: option.splits sum.splits)
  have "fold (\<lambda>(k, st) m. m(TransferKey_String k \<mapsto> st)) xs m0 i = Some (Some st) \<Longrightarrow>
      m0 i = Some (Some st) \<or> (\<exists>k. (k, Some st) \<in> set xs \<and> i = TransferKey_String k)" for xs m0 i st
    by (induction xs arbitrary: m0) (fastforce split: if_splits)+
  from this [of ds Map.empty] cn show ?thesis
    unfolding status_from_def conn_committed_def committed_by_def m by fastforce
qed

lemma status_chunks_from:
  "status_chunks conn contract keys ret = Inr m \<Longrightarrow> status_from conn ret \<Longrightarrow> status_from conn m"
proof (induction conn contract keys ret arbitrary: m rule: status_chunks.induct)
  case (1 conn contract keys ret)
  show ?case
  proof (cases "keys = []")
    case True
    with "1.prems" show ?thesis by (simp add: status_chunks.simps)
  next
    case False
    then obtain m1 where m1: "chunk_status conn contract (take maxPendingsPerQuery keys) = Inr m1"
      "status_chunks conn contract (drop maxPendingsPerQuery keys) (ret ++ m1) = Inr m"
      using "1.prems"(1) by (subst (asm) status_chunks.simps) (auto simp: chk_eq_Inr)
    have "status_from conn (ret ++ m1)"
      using chunk_status_from [OF m1(1)] "1.prems"(2) by (auto simp: status_from_def map_add_Some_iff)
    with "1.IH" [OF False m1(2)] show ?thesis .
  qed
qed

lemma queryBatchTransferStatus_from:
  "queryBatchTransferStatus conn contract keys = Inr m \<Longrightarrow> status_from conn m"
  using chunk_status_from status_chunks_from [of conn contract keys Map.empty m]
  by (auto simp: queryBatchTransferStatus_def status_from_def split: if_splits)

lemma audit_status_ok:
  assumes "status_from conn details"
  shows "acct_ok (conn_committed conn) a (audit_status B now details msgId a)"
  using assms by (auto simp: audit_status_def status_from_def split: option.splits
      intro: resubmit_entry_ok deletePendingTransfer_ok handleCommittedTransfer_ok)

lemma performAudit_ok:
  assumes "performAudit B now gs conn contract order2 tmpMap a = Inr a'"
  shows "acct_ok (conn_committed conn) a a'"
proof (cases "a' = a")
  case False
  then obtain missing where
    audit: "(case fold (audit_missing now) missing (tmpMap, a) of (tmpMap, a) \<Rightarrow>
             if tmpMap = [] then Inr a
             else
               let ids = order2 (map snd tmpMap);
                   keys = map transfer_key (List.map_filter (ac_pendingTransfers a) ids)
               in (case queryBatchTransferStatus conn contract keys of
                     Inl (Panic m) \<Rightarrow> Inl (Panic m)
                   | Inl _ \<Rightarrow> Inr a
                   | Inr details \<Rightarrow> Inr (fold (audit_status B now details) ids a))) = Inr a'"
    using assms unfolding performAudit_def by (auto split: sum.splits go_error.splits)
  obtain m1 a1 where f: "fold (audit_missing now) missing (tmpMap, a) = (m1, a1)"
    by (metis prod.collapse)
  have ok: "acct_ok (conn_committed conn) a a1"
    using audit_missing_fold_ok [of "conn_committed conn" a now missing tmpMap] f by simp
  have "a' = a1 \<or> (\<exists>keys details ids. queryBatchTransferStatus conn contract keys = Inr details \<and>
      a' = fold (audit_status B now details) ids a1)"
    using audit unfolding f by (auto simp: Let_def split: if_splits sum.splits go_error.splits)
  then consider "a' = a1" | details ids where "status_from conn details" "a' = fold (audit_status B now details) ids a1"
    using queryBatchTransferStatus_from by metis
  then show ?thesis
  proof cases
    case (2 details ids)
    show ?thesis
      unfolding 2(2) by (rule acct_ok_trans [OF ok acct_ok_fold]) (rule audit_status_ok [OF 2(1)])
  qed (use ok in simp)
qed simp

lemma runAudit_ok:
  assumes "runAudit B now gs conn nttConn order2 order nttOrder a = Inr a'"
  shows "acct_ok (conn_committed conn \<union> conn_committed nttConn) a a'"
proof -
  obtain a1 where "performAudit B now gs conn (ac_contract a) order2 (createAuditMap False order a) a = Inr a1"
    "performAudit B now gs nttConn (ac_nttContract a1) order2 (createAuditMap True nttOrder a1) a1 = Inr a'"
    using assms by (auto simp: runAudit_def chk_eq_Inr)
  from performAudit_ok [OF this(1)] performAudit_ok [OF this(2)] show ?thesis
    by (auto intro: acct_ok_trans acct_ok_mono)
qed

section \<open>Starting\<close>

lemma load_one_inv:
  assumes "acct_inv C P a" and "P msg"
  shows "acct_inv C P (load_one c B now msg a) \<and> same_emitters a (load_one c B now msg a)"
proof -
  obtain cov ntt enf where cov: "isMessageCoveredByAccountant msg a = (cov, ntt, enf)"
    by (metis prod.collapse)
  show ?thesis
  proof (cases cov)
    case False
    have "acct_ok {} a (load_one c B now msg a)"
      using cov False by (intro acct_okI) (auto simp: load_one_def Let_def)
    with assms(1) show ?thesis by (simp add: acct_ok_def)
  next
    case True
    let ?pe = "\<lparr>ae_msg = msg, ae_msgId = MessageIDString msg, ae_digest = CreateDigest c msg, ae_isNTT = ntt,
            ae_enforceFlag = enf, ae_updTime = now, ae_submitPending = False\<rparr>"
    have l: "load_one c B now msg a = put_entry ?pe a"
      using cov True by (simp add: load_one_def Let_def)
    have same: "same_emitters a (put_entry ?pe a)" by simp
    have "entry_inv P a (MessageIDString msg) ?pe"
      using cov True assms(2) by (simp add: entry_inv_def)
    then show ?thesis
      using assms(1) same_emitters_invs [OF same] same unfolding acct_inv_def l by (auto simp: put_entry_def)
  qed
qed

lemma read_pending_all:
  "read_pending J items = Inr pts \<Longrightarrow> (\<And>b m. aj_dec J b = Inr m \<Longrightarrow> P m) \<Longrightarrow> \<forall>m \<in> set pts. P m"
  by (induction J items arbitrary: pts rule: read_pending.induct) (auto simp: chk_eq_Inr split: sum.splits if_splits)

text \<open>After Start the pending transfers are those of the database, and nothing is committed yet.\<close>

lemma Accountant_Start_inv:
  assumes "Accountant_Start c J B now a = (Inr (), a')" and "ac_pendingTransfers a = Map.empty"
    and "ch_Items (ac_msgChan a) = []" and "\<And>b m. aj_dec J b = Inr m \<Longrightarrow> P m"
  shows "acct_inv (\<lambda>_. False) P a'"
proof -
  obtain a1 where a1: "loadPendingTransfers c J B now a1 = (Inr (), a')"
    "ac_pendingTransfers a1 = Map.empty" "ch_Items (ac_msgChan a1) = []"
    using assms(1-3) by (auto simp: Accountant_Start_def Let_def nttStart_def chk_eq_Inr
        split: if_splits sum.splits prod.splits)
  then obtain pts s where pts: "AcctGetData J B (ac_db a1) = (Inr pts, s)" "a' = fold (load_one c B now) pts (a1\<lparr>ac_db := s\<rparr>)"
    by (auto simp: loadPendingTransfers_def split: sum.splits prod.splits)
  have "\<forall>m \<in> set pts. P m"
  proof -
    obtain items where "read_pending J items = Inr pts"
      using pts(1) by (auto simp: AcctGetData_def split: sum.splits prod.splits)
    from read_pending_all [OF this assms(4)] show ?thesis .
  qed
  moreover have "acct_inv (\<lambda>_. False) P (a1\<lparr>ac_db := s\<rparr>)"
    using a1 by (simp add: acct_inv_def)
  ultimately have "acct_inv (\<lambda>_. False) P (fold (load_one c B now) pts (a1\<lparr>ac_db := s\<rparr>))"
  proof (induction pts arbitrary: a1 s)
    case (Cons m pts)
    let ?b = "load_one c B now m (a1\<lparr>ac_db := s\<rparr>)"
    have "acct_inv (\<lambda>_. False) P (?b\<lparr>ac_db := ac_db ?b\<rparr>)"
      using load_one_inv [OF Cons.prems(2), of m c B now] Cons.prems(1) by simp
    from Cons.IH [OF _ this] Cons.prems(1) show ?case by simp
  qed simp
  then show ?thesis by (simp add: pts(2))
qed

section \<open>Where a pending transfer can get stuck\<close>

lemma read_then_keep:
  "ReadFromChannelWithTimeout maxCount ready err ch = ((msgs, e), ch') \<Longrightarrow> set (ch_Items ch') \<subseteq> set (ch_Items ch)"
  using read_splits by fastforce

text \<open>
  C28. A batch that the worker has read is lost when it finds no guardian set, or itself not in it: the
  transfers stay pending with the flag that says they are being submitted, though they are in the queue
  no more. Neither a new observation nor the audit submits such a transfer again.
\<close>

theorem batch_error_strands:
  assumes "ac_pendingTransfers a msgId = Some pe" and "ae_submitPending pe"
    and "ReadFromChannelWithTimeout batchSize ready DeadlineExceeded (ac_subChan a) = ((msgs, e), ch)"
    and "ae_msg pe \<in> set msgs" and "MessageIDString (ae_msg pe) = msgId" and "distinct (ch_Items (ac_subChan a))"
    and "gs = None \<or> gs = Some g \<and> \<not> snd (KeyIndex g (ac_guardianAddr a))"
  shows "\<exists>err a'. acct_handleBatch c json sign B now False ready DeadlineExceeded gs conn a = (Inl err, a') \<and>
    ac_pendingTransfers a' msgId = Some pe \<and> ae_msg pe \<notin> set (ch_Items (ac_subChan a')) \<and>
    resubmit_entry later msgId a' = a' \<and>
    (\<forall>msg. MessageIDString msg = msgId \<longrightarrow> snd (SubmitObservation c J B later msg a') = a')"
proof -
  let ?a = "a\<lparr>ac_subChan := ch\<rparr>"
  have "e = None \<or> e = Some DeadlineExceeded"
    using assms(3) by (auto simp: ReadFromChannelWithTimeout_def Let_def split: if_splits)
  moreover have "removeCompleted msgs ?a \<noteq> []"
    using assms(1,4,5) by (auto simp: removeCompleted_def filter_empty_conv)
  ultimately have "\<exists>err. acct_handleBatch c json sign B now False ready DeadlineExceeded gs conn a = (Inl err, ?a)"
    using assms(3,7) by (cases "KeyIndex g (ac_guardianAddr a)") (auto simp: acct_handleBatch_def Let_def)
  moreover have "ae_msg pe \<notin> set (ch_Items ch)"
    using read_splits [OF assms(3)] assms(4,6) by auto
  moreover have "resubmit_entry later msgId ?a = ?a"
    using assms(1,2) by (simp add: resubmit_entry_def submitObservation_def)
  moreover have "snd (SubmitObservation c J B later msg ?a) = ?a" if "MessageIDString msg = msgId" for msg
    using assms(1) that by (auto simp: SubmitObservation_def Let_def split: prod.splits bool.splits)
  ultimately show ?thesis
    using assms(1) by auto
qed

text \<open>The map of the audit has one key for a transaction: of two pending transfers of it one is left out.\<close>

lemma audit_map_collapses:
  assumes "ac_pendingTransfers a i = Some p" and "ac_pendingTransfers a j = Some q"
    and "ae_isNTT p = ntt" "ae_isNTT q = ntt" and "pe_makeAuditKey p = pe_makeAuditKey q"
  shows "createAuditMap ntt [i, j] a = [(pe_makeAuditKey p, j)]"
  using assms by (simp add: createAuditMap_def)

text \<open>Without an NTT accountant its connection is nil, and the audit uses it all the same.\<close>

lemma audit_nil_connection:
  assumes "performAudit B now (Some g) conn (ac_contract a) order2 (createAuditMap False order a) a = Inr a1"
    and "KeyIndex g (ac_guardianAddr a1) = (i, True)"
  shows "runAudit B now (Some g) conn None order2 order nttOrder a = Inl (Panic ''nil pointer dereference'')"
  using assms by (simp add: runAudit_def performAudit_def [of _ _ _ None] queryMissingObservations_def)

text \<open>A pending transfer whose batch was read before the node knew a guardian set.\<close>

definition stuck_entry :: acct_entry where
  "stuck_entry = \<lparr>ae_msg = sample_msg, ae_msgId = MessageIDString sample_msg, ae_digest = [], ae_isNTT = False,
     ae_enforceFlag = True, ae_updTime = 0, ae_submitPending = True\<rparr>"

definition stuck_acct :: "(byte list \<rightharpoonup> byte list) accountant" where
  "stuck_acct = put_entry stuck_entry ((NewAccountant Map.empty (make_chan 1) ''wormhole1'' True [] [] (make_chan 1) MainNet)\<lparr>
     ac_subChan := chan_send sample_msg (make_chan 500)\<rparr>)"

theorem batch_error_strands_witness:
  "\<exists>err a'. acct_handleBatch toy_crypto (\<lambda>_. Inr []) (\<lambda>_. Inr []) map_badger 0 False 1 DeadlineExceeded None None stuck_acct = (Inl err, a') \<and>
     ac_pendingTransfers a' (MessageIDString sample_msg) = Some stuck_entry \<and>
     resubmit_entry (600 * 1000000000) (MessageIDString sample_msg) a' = a'"
proof -
  have "ac_pendingTransfers stuck_acct (MessageIDString sample_msg) = Some stuck_entry" "ae_submitPending stuck_entry"
    "ae_msg stuck_entry = sample_msg"
    by (simp_all add: stuck_acct_def put_entry_def stuck_entry_def)
  moreover have "ch_Items (ac_subChan stuck_acct) = [sample_msg]"
    by (simp add: stuck_acct_def put_entry_def make_chan_def)
  moreover from this have "ReadFromChannelWithTimeout batchSize 1 DeadlineExceeded (ac_subChan stuck_acct) =
      (([sample_msg], Some DeadlineExceeded), (ac_subChan stuck_acct)\<lparr>ch_Items := []\<rparr>)"
    by (simp add: ReadFromChannelWithTimeout_def batchSize_def)
  ultimately show ?thesis
    using batch_error_strands [of stuck_acct "MessageIDString sample_msg" stuck_entry 1 "[sample_msg]" "Some DeadlineExceeded"
        "(ac_subChan stuck_acct)\<lparr>ch_Items := []\<rparr>" None undefined toy_crypto "\<lambda>_. Inr []" "\<lambda>_. Inr []" map_badger 0 None "600 * 1000000000"]
    by (metis (no_types, lifting) list.set_intros(1) distinct_singleton)
qed

end
