(* ===== verification/NodeInv.thy ===== *)
theory NodeInv imports Processor Traces AcctInv begin

text \<open>
  What every step of the guardian node keeps: the invariant of the aggregation and of the retries, the
  messages that the governor and the accountant hold, and which messages the node has signed.
\<close>

section \<open>What a handler of the processor leaves alone\<close>

definition own_vaas :: "'s processor \<Rightarrow> VAA set" where
  "own_vaas p = {pv_VAA v | hash s v. p_state p hash = Some s \<and> st_ourObservation s = Some v}"

text \<open>
  The handler keeps the configuration, the database and the governor, keeps the retries in their bounds,
  and makes no observation but those of V.
\<close>

definition obs_frame :: "VAA set \<Rightarrow> 's processor \<Rightarrow> 's processor \<Rightarrow> bool" where
  "obs_frame V p p' \<longleftrightarrow> p_hasDb p' = p_hasDb p \<and> p_db p' = p_db p \<and> p_governor p' = p_governor p \<and> p_gs p' = p_gs p \<and>
     p_gst p' = p_gst p \<and> p_ourAddr p' = p_ourAddr p \<and> own_vaas p' \<subseteq> V \<union> own_vaas p \<and> (retries_ok p \<longrightarrow> retries_ok p')"

lemma obs_frame_refl [simp]: "obs_frame V p p"
  by (simp add: obs_frame_def)

lemma obs_frame_trans: "obs_frame V p q \<Longrightarrow> obs_frame V q r \<Longrightarrow> obs_frame V p r"
  unfolding obs_frame_def by auto

lemma obs_frame_mono: "obs_frame V p q \<Longrightarrow> V \<subseteq> W \<Longrightarrow> obs_frame W p q"
  unfolding obs_frame_def by auto

lemma obs_frame_same:
  "p_state q = p_state p \<Longrightarrow> p_hasDb q = p_hasDb p \<Longrightarrow> p_db q = p_db p \<Longrightarrow> p_governor q = p_governor p \<Longrightarrow>
     p_gs q = p_gs p \<Longrightarrow> p_gst q = p_gst p \<Longrightarrow> p_ourAddr q = p_ourAddr p \<Longrightarrow> obs_frame V p q"
  by (simp add: obs_frame_def own_vaas_def retries_ok_def)

lemma obs_frame_put:
  assumes "\<And>v. st_ourObservation s = Some v \<Longrightarrow> pv_VAA v \<in> V \<union> own_vaas p" and "retries_ok p \<Longrightarrow> retry_ok s"
  shows "obs_frame V p (put_state hash s p)"
  using assms by (auto simp: obs_frame_def put_state_def own_vaas_def retries_ok_def split: if_splits)

lemma obs_frame_del: "obs_frame V p (del_state hash p)"
  by (auto simp: obs_frame_def del_state_def own_vaas_def retries_ok_def split: if_splits)

lemma retry_ok_updates [simp]:
  "retry_ok (s\<lparr>st_signatures := x\<rparr>) = retry_ok s" "retry_ok (s\<lparr>st_submitted := b\<rparr>) = retry_ok s"
  "retry_ok (s\<lparr>st_settled := b\<rparr>) = retry_ok s"
  "retry_ok (s\<lparr>st_signatures := x, st_ourObservation := v, st_source := y, st_txHash := z, st_gs := g, st_ourObs := o1, st_ourMsg := o2\<rparr>) = retry_ok s"
  by (simp_all add: retry_ok_def)

lemma own_vaasI: "p_state p hash = Some s \<Longrightarrow> st_ourObservation s = Some v \<Longrightarrow> pv_VAA v \<in> own_vaas p"
  by (auto simp: own_vaas_def)

lemma get_or_create_obs:
  assumes "get_or_create f now source hash p = Inr s"
  shows "(\<forall>v. st_ourObservation s = Some v \<longrightarrow> pv_VAA v \<in> own_vaas p) \<and> (retries_ok p \<longrightarrow> retry_ok s)"
proof (cases "p_state p hash")
  case None
  with assms show ?thesis
    by (auto simp: get_or_create_def chk_eq_Inr new_state_def retry_ok_def)
next
  case (Some t)
  with assms show ?thesis
    by (auto simp: get_or_create_def retries_ok_def intro: own_vaasI)
qed

lemma HandleQuorum_frame: "HandleQuorum now v sigs p = Inr p' \<Longrightarrow> obs_frame V p p'"
  by (auto simp: HandleQuorum_def Let_def chk_eq_Inr broadcastSignedVAA_def storeSignedVAA_def
      split: sum.splits if_splits intro!: obs_frame_same)

lemma HandleQuorum_state: "HandleQuorum now v sigs p = Inr q \<Longrightarrow> p_state q = p_state p"
  by (auto simp: HandleQuorum_def Let_def chk_eq_Inr broadcastSignedVAA_def storeSignedVAA_def
      split: sum.splits if_splits)

lemma checkForQuorum_frame:
  assumes s: "p_state p hash = Some s" and check: "checkForQuorum now s gs hash p = Inr p'"
  shows "obs_frame V p p'"
proof (cases "p' = p")
  case False
  then obtain sigs v q where v: "st_ourObservation s = Some v" and q: "HandleQuorum now v sigs p = Inr q"
    and p': "p' = put_state hash (s\<lparr>st_submitted := True\<rparr>) q"
    using check by (auto simp: checkForQuorum_def chk_eq_Inr split: if_splits option.splits)
  have own: "pv_VAA v \<in> own_vaas q" and "retries_ok q \<Longrightarrow> retry_ok s"
    using s v HandleQuorum_state [OF q] by (auto simp: retries_ok_def intro: own_vaasI)
  then have "obs_frame V q p'"
    unfolding p' using v by (intro obs_frame_put) auto
  with HandleQuorum_frame [OF q] show ?thesis
    by (rule obs_frame_trans)
qed simp

lemma handleSingleObservation_frame:
  assumes "handleSingleObservation c f now addr m p = Inr p'"
  shows "obs_frame V p p'"
proof (cases "p' = p")
  case False
  let ?hash = "hex_encode (ob_Hash m)"
  obtain gs s where gs: "state_gs (p_state p ?hash) p = Some gs"
    and s: "get_or_create f now ''unknown'' ?hash p = Inr s"
    and p': "let s' = s\<lparr>st_signatures := AList.update (BytesToEthAddress c addr) (ob_Signature m) (st_signatures s)\<rparr>;
        q = put_state ?hash s' p
      in (if st_ourObservation s' \<noteq> None then checkForQuorum now s' gs ?hash q else Inr q) = Inr p'"
    using assms False by (auto simp: handleSingleObservation_def Let_def chk_eq_Inr split: if_splits option.splits sum.splits)
  let ?s = "s\<lparr>st_signatures := AList.update (BytesToEthAddress c addr) (ob_Signature m) (st_signatures s)\<rparr>"
  have q: "obs_frame V p (put_state ?hash ?s p)"
    using get_or_create_obs [OF s] by (intro obs_frame_put) auto
  show ?thesis
  proof (cases "st_ourObservation s = None")
    case True
    with p' q show ?thesis by (simp add: Let_def)
  next
    case False
    with p' checkForQuorum_frame [of "put_state ?hash ?s p" ?hash ?s now gs p' V] q show ?thesis
      by (auto simp: Let_def intro: obs_frame_trans)
  qed
qed simp

lemma handleBatchObservation_frame: "handleBatchObservation c f now addr ms p = Inr p' \<Longrightarrow> obs_frame V p p'"
  by (induction ms arbitrary: p) (auto simp: chk_eq_Inr intro: handleSingleObservation_frame obs_frame_trans)

lemma handleMessage_frame:
  assumes "handleMessage c sign f now k p = Inr p'"
  shows "obs_frame {CreateVAA i k | i. True} p p'"
proof (cases "p_gs p")
  case None
  with assms show ?thesis by (simp add: handleMessage_def)
next
  case (Some gs)
  let ?V = "{CreateVAA i k | i. True}"
  define v where "v = \<lparr>pv_VAA = CreateVAA (gs_Index gs) k, pv_Unreliable = mp_Unreliable k,
    pv_Reobservation = mp_IsReobservation k\<rparr>"
  let ?digest = "SigningDigest c (pv_VAA v)"
  obtain sg ourObs msg q s where
    q: "broadcastSignature (MessageID (pv_VAA v)) k ?digest sg (shouldPublishImmediately (pv_VAA v)) p = ((ourObs, msg), q)"
    and s: "get_or_create f now ''loopback'' (hex_encode ?digest) q = Inr s"
    and p': "let s' = s\<lparr>st_ourObservation := Some v, st_txHash := mp_TxID k,
          st_source := ChainID_String (vaa_EmitterChain (pv_VAA v)), st_gs := p_gs q,
          st_signatures := AList.update (p_ourAddr q) sg (st_signatures s),
          st_ourObs := Some ourObs, st_ourMsg := msg\<rparr>; r = put_state (hex_encode ?digest) s' q
      in (if \<not> st_submitted s' then checkForQuorum now s' gs (hex_encode ?digest) r else Inr r) = Inr p'"
    using assms Some unfolding handleMessage_def v_def CreateVAA_def
    by (auto simp: Let_def chk_eq_Inr split: sum.splits prod.splits)
  have frame: "obs_frame ?V p q"
    using q by (auto simp: broadcastSignature_def Let_def publishImmediately_def publishBatch_def
        postObservationToBatch_def intro!: obs_frame_same split: if_splits)
  define s' where "s' = s\<lparr>st_ourObservation := Some v, st_txHash := mp_TxID k,
          st_source := ChainID_String (vaa_EmitterChain (pv_VAA v)), st_gs := p_gs q,
          st_signatures := AList.update (p_ourAddr q) sg (st_signatures s),
          st_ourObs := Some ourObs, st_ourMsg := msg\<rparr>"
  have "st_ourObservation s' = Some v" "retry_ok s' = retry_ok s"
    by (simp_all add: s'_def retry_ok_def)
  then have r: "obs_frame ?V q (put_state (hex_encode ?digest) s' q)"
    using get_or_create_obs [OF s] by (intro obs_frame_put) (auto simp: v_def)
  have "p' = put_state (hex_encode ?digest) s' q \<or>
      checkForQuorum now s' gs (hex_encode ?digest) (put_state (hex_encode ?digest) s' q) = Inr p'"
    using p' by (auto simp: Let_def s'_def [symmetric] split: if_splits)
  then show ?thesis
    using frame r checkForQuorum_frame [of "put_state (hex_encode ?digest) s' q" "hex_encode ?digest" s']
    by (auto intro: obs_frame_trans)
qed

lemma handleInbound_frame: "obs_frame V p (handleInboundSignedVAAWithQuorum c B now m p)"
  by (auto simp: handleInboundSignedVAAWithQuorum_def storeSignedVAA_def intro!: obs_frame_same
      split: sum.splits option.splits)

section \<open>The messages a governor holds\<close>

definition gov_all :: "(MessagePublication \<Rightarrow> bool) \<Rightarrow> 's ChainGovernor \<Rightarrow> bool" where
  "gov_all P g \<longleftrightarrow> (\<forall>c. \<forall>pe \<in> set (pending_of c g). P (pt_Msg (pe_dbData pe))) \<and> (\<forall>m \<in> set (gov_msgsToPublish g). P m)"

lemma gov_all_same: "gov_all P g \<Longrightarrow> same_pending g g' \<Longrightarrow> gov_msgsToPublish g' = gov_msgsToPublish g \<Longrightarrow> gov_all P g'"
  by (simp add: gov_all_def same_pending_def)

lemma gov_all_fewer:
  "gov_all P g \<Longrightarrow> (\<And>c. set (pending_of c g') \<subseteq> set (pending_of c g)) \<Longrightarrow>
     (\<And>m. m \<in> set (gov_msgsToPublish g') \<Longrightarrow> P m) \<Longrightarrow> gov_all P g'"
  unfolding gov_all_def by blast

lemma gov_all_enqueue:
  assumes "gov_all P g" and "P msg" and "enqueue_msg C B msg t tk payload g = (r, g')"
  shows "gov_all P g'"
proof -
  define pe where "pe = \<lparr>pe_token = tk, pe_amount = int (tph_Amount payload), pe_hash = HashFromMsg C msg,
    pe_dbData = \<lparr>pt_ReleaseTime = t, pt_Msg = msg\<rparr>\<rparr>"
  have "set (pending_of c g') \<subseteq> insert pe (set (pending_of c g))" for c
    using assms(3) by (auto simp: enqueue_msg_def Let_def pe_def pending_of_def put_pending_def set_seen_def
        split: sum.splits prod.splits option.splits if_splits)
  moreover have "P (pt_Msg (pe_dbData pe))"
    using assms(2) by (simp add: pe_def)
  ultimately show ?thesis
    using assms(1) enqueue_msg_frame [OF assms(3)] unfolding gov_all_def by (metis insertE subsetD)
qed

lemma gov_all_ProcessMsg:
  assumes "gov_all P g" and "P msg" and "ProcessMsg C B (Some msg) now g = (b, g')"
  shows "gov_all P g'"
proof -
  obtain r where r: "ProcessMsgForTime C B (Some msg) now g = (r, g')"
    using assms(3) by (auto simp: ProcessMsg_def split: sum.splits prod.splits)
  have trim: "gov_all P h" if "TrimAndSumValueForChain B cid st g = (q, h)" for cid st q h
    using that TrimAndSumValueForChain_frame gov_all_same [OF assms(1)] by blast
  from r show ?thesis
  proof (cases rule: ProcessMsgForTime_cases)
    case unchanged
    with assms(1) show ?thesis by simp
  next
    case failed
    with trim show ?thesis by blast
  next
    case enqueued
    with trim gov_all_enqueue assms(2) show ?thesis by blast
  next
    case counted
    with trim count_transfer_frame gov_all_same show ?thesis by blast
  qed
qed

lemma map_sum_Inr: "Inr y = map_sum id f q \<longleftrightarrow> (\<exists>x. q = Inr x \<and> y = f x)"
  by (cases q) auto

lemma release_entry_waiting:
  assumes "release_entry B cid now idx pe value counts msgs g = (r, g')"
  shows "gov_msgsToPublish g' = gov_msgsToPublish g \<or> set (gov_msgsToPublish g') \<subseteq> insert (pt_Msg (pe_dbData pe)) (set msgs)"
  using assms by (auto simp: release_entry_def Let_def forget_def map_result_pair map_sum_Inr
      split: sum.splits prod.splits if_splits dest!: count_transfer_frame)

lemma find_release_mem: "find_release g ce v now idx ps = Inr (Some (i, pe, w, counts)) \<Longrightarrow> pe \<in> set ps"
  by (induction g ce v now idx ps rule: find_release.induct) (auto simp: chk_eq_Inr split: option.splits)

lemma gov_all_round:
  assumes g: "gov_all P g" and msgs: "\<forall>m \<in> set msgs. P m" and step: "check_round B st now cid msgs g = (r, g')"
  shows "gov_all P g' \<and> (case r of Inr (Some out) \<Rightarrow> \<forall>m \<in> set out. P m | _ \<Rightarrow> True)"
proof -
  note f = check_round_frame [OF step]
  have pend: "set (pending_of c g') \<subseteq> set (pending_of c g)" for c
  proof (cases "c = cid \<and> (\<exists>out. r = Inr (Some out))")
    case True
    with f obtain us pe vs where "pending_of c g = us @ pe # vs" "pending_of c g' = us @ vs"
      by auto
    then show ?thesis by auto
  next
    case False
    with f show ?thesis
      by (cases "c = cid") (auto split: sum.splits option.splits)
  qed
  have "\<forall>m \<in> set out. P m" if "r = Inr (Some out)" for out
  proof -
    from f that obtain us pe vs where pe: "pending_of cid g = us @ pe # vs" and
      out: "out = (case DecodeTransferPayloadHdr (mp_Payload (pt_Msg (pe_dbData pe))) of
          Inl _ \<Rightarrow> msgs | Inr _ \<Rightarrow> msgs @ [pt_Msg (pe_dbData pe)])"
      by auto
    have "set out \<subseteq> insert (pt_Msg (pe_dbData pe)) (set msgs)"
      unfolding out by (cases "DecodeTransferPayloadHdr (mp_Payload (pt_Msg (pe_dbData pe)))") auto
    moreover have "pe \<in> set (pending_of cid g)"
      unfolding pe by simp
    ultimately show ?thesis
      using g msgs unfolding gov_all_def by blast
  qed
  moreover have "P m" if m: "m \<in> set (gov_msgsToPublish g')" for m
  proof -
    obtain v err g1 where t: "TrimAndSumValueForChain B cid st g = ((v, err), g1)"
      by (metis prod.collapse)
    note t' = TrimAndSumValueForChain_frame [OF t]
    then have g1: "gov_all P g1"
      using gov_all_same [OF g] by blast
    consider "gov_msgsToPublish g' = msgs" | "gov_msgsToPublish g' = gov_msgsToPublish g1"
      | pe where "pe \<in> set (pending_of cid g1)" "set (gov_msgsToPublish g') \<subseteq> insert (pt_Msg (pe_dbData pe)) (set msgs)"
      using step t
      by (auto simp: check_round_def map_result_pair pending_of_def split: option.splits sum.splits prod.splits
          dest!: release_entry_waiting find_release_mem)
    then show ?thesis
      using m msgs g1 by cases (auto simp: gov_all_def)
  qed
  ultimately show ?thesis
    using gov_all_fewer [OF g pend] by (auto split: sum.splits option.splits)
qed

lemma gov_all_chain:
  "gov_all P g \<Longrightarrow> \<forall>m \<in> set msgs. P m \<Longrightarrow> check_chain B st now cid msgs g = (r, g') \<Longrightarrow>
     gov_all P g' \<and> (case r of Inr out \<Rightarrow> \<forall>m \<in> set out. P m | Inl _ \<Rightarrow> True)"
proof (induction B st now cid msgs g arbitrary: r g' rule: check_chain.induct)
  case (1 B st now cid msgs g)
  obtain q h where q: "check_round B st now cid msgs g = (q, h)"
    by (cases "check_round B st now cid msgs g")
  note h = gov_all_round [OF "1.prems"(1,2) q]
  consider e where "q = Inl e" | "q = Inr None" | out1 where "q = Inr (Some out1)"
    by (metis option.exhaust sum.exhaust)
  then show ?case
  proof cases
    case (3 out1)
    with "1.prems" q have "check_chain B st now cid out1 h = (r, g')"
      by (simp add: check_chain.simps [of B st now cid msgs g])
    with "1.IH" [OF q [symmetric] 3 refl] h 3 show ?thesis by simp
  qed (use h q "1.prems" in \<open>auto simp: check_chain.simps [of B st now cid msgs g]\<close>)
qed

lemma gov_all_chains:
  "gov_all P g \<Longrightarrow> \<forall>m \<in> set msgs. P m \<Longrightarrow> check_chains B st now cids msgs g = (r, g') \<Longrightarrow>
     gov_all P g' \<and> (case r of Inr out \<Rightarrow> \<forall>m \<in> set out. P m | Inl _ \<Rightarrow> True)"
proof (induction cids arbitrary: msgs g)
  case (Cons cid cids)
  obtain q h where q: "check_chain B st now cid msgs g = (q, h)"
    by (cases "check_chain B st now cid msgs g")
  with gov_all_chain [OF Cons.prems(1,2) q] Cons.IH Cons.prems(3) show ?case
    by (cases q) auto
qed auto

lemma gov_all_CheckPending:
  assumes "gov_all P g" and "CheckPendingForTime B now g = (r, g')"
  shows "gov_all P g' \<and> (case r of Inr out \<Rightarrow> \<forall>m \<in> set out. P m | Inl _ \<Rightarrow> True)"
  using assms by (intro gov_all_chains [where g = "g\<lparr>gov_msgsToPublish := []\<rparr>"])
    (auto simp: CheckPendingForTime_def Let_def gov_all_def)

section \<open>The invariant of the node\<close>

text \<open>An emitter address is an array of 32 bytes; a guardian set has no key twice.\<close>

definition typed_msg :: "MessagePublication \<Rightarrow> bool" where
  "typed_msg k \<longleftrightarrow> length (mp_EmitterAddress k) = 32"

definition typed_event :: "node_event \<Rightarrow> bool" where
  "typed_event ev = (case ev of
     Loop e \<Rightarrow> (case e of SetC gs \<Rightarrow> good_gs gs | MsgC k \<Rightarrow> typed_msg k | _ \<Rightarrow> True) | _ \<Rightarrow> True)"

text \<open>The ids that an event lets the contract report as committed, and what a trace has seen.\<close>

definition contract_reports :: "'s run_env \<Rightarrow> node_event \<Rightarrow> string set" where
  "contract_reports E ev = (case ev of
     SubmitTurn _ _ _ conn \<Rightarrow> conn_committed conn
   | ContractEvents contract events \<Rightarrow> events_committed (re_dec_obs E) contract events
   | AuditTick conn nttConn _ _ _ \<Rightarrow> conn_committed conn \<union> conn_committed nttConn
   | _ \<Rightarrow> {})"

definition committed_in :: "'s run_env \<Rightarrow> (node_event \<times> 'n) list \<Rightarrow> string set" where
  "committed_in E tr = (\<Union>ev \<in> fst ` set tr. contract_reports E ev)"

definition sets_of :: "(node_event \<times> 'n) list \<Rightarrow> GuardianSet set" where
  "sets_of tr = {gs. Loop (SetC gs) \<in> fst ` set tr}"

definition signed_after_commit :: "string set \<Rightarrow> VAA set \<Rightarrow> 's accountant \<Rightarrow> bool" where
  "signed_after_commit ids V a \<longleftrightarrow> (\<forall>k i. CreateVAA i k \<in> V \<longrightarrow> enforced k a \<longrightarrow> MessageIDString k \<in> ids)"

definition node_inv :: "'s run_env \<Rightarrow> (node_event \<times> 's guardian_node) list \<Rightarrow> 's guardian_node \<Rightarrow> bool" where
  "node_inv E tr n \<longleftrightarrow> cleanup_inv (re_crypto E) (sets_of tr) (nd_proc n) \<and> (\<forall>gs \<in> sets_of tr. good_gs gs) \<and>
     ecrecover_65 (re_crypto E) \<and> signer_correct (re_crypto E) (re_sign E) (p_ourAddr (nd_proc n)) \<and>
     (\<forall>g. p_governor (nd_proc n) = Some g \<longrightarrow> gov_all typed_msg g) \<and>
     (\<forall>a. nd_acct n = Some a \<longrightarrow> acct_inv (\<lambda>i. i \<in> committed_in E tr) typed_msg a \<and>
        signed_after_commit (committed_in E tr) (own_vaas (nd_proc n)) a)"

text \<open>A node before its first event: a processor as NewProcessor makes it, an accountant that has been started.\<close>

definition fresh_node :: "'s run_env \<Rightarrow> 's guardian_node \<Rightarrow> bool" where
  "fresh_node E n \<longleftrightarrow> (let p = nd_proc n in
     p_state p = Map.empty \<and> p_gs p = None \<and> p_updatedVAAs p = Map.empty \<and> p_pythnetVaas p = Map.empty \<and>
     ch_Items (p_gossipVaaSendC p) = [] \<and> p_hasDb p \<and> (\<forall>g. p_governor p = Some g \<longrightarrow> gov_all typed_msg g) \<and>
     (\<forall>a. nd_acct n = Some a \<longrightarrow> acct_inv (\<lambda>_. False) typed_msg a) \<and>
     ecrecover_65 (re_crypto E) \<and> signer_correct (re_crypto E) (re_sign E) (p_ourAddr p))"

lemma CreateVAA_same:
  assumes "CreateVAA i k = CreateVAA j l"
  shows "enforced k a = enforced l a \<and> MessageIDString k = MessageIDString l"
proof -
  have e: "mp_EmitterChain k = mp_EmitterChain l" "mp_EmitterAddress k = mp_EmitterAddress l"
    "mp_Payload k = mp_Payload l" "mp_Sequence k = mp_Sequence l"
    using assms by (simp_all add: CreateVAA_def)
  show ?thesis
    unfolding enforced_def isMessageCoveredByAccountant_def isTokenBridgeTransfer_def nttIsMsgDirectNTT_def
      nttIsMsgArNTT_def MessageIDString_def e by simp
qed

lemma own_vaas_empty [simp]: "p_state p = Map.empty \<Longrightarrow> own_vaas p = {}"
  by (simp add: own_vaas_def)

lemma acct_inv_db [simp]: "acct_inv C P (a\<lparr>ac_db := s\<rparr>) = acct_inv C P a" "enforced k (a\<lparr>ac_db := s\<rparr>) = enforced k a"
  using same_emitters_invs [of a "a\<lparr>ac_db := s\<rparr>"] by (simp_all add: acct_inv_def)

lemma node_inv_start: "fresh_node E n \<Longrightarrow> node_inv E [] n"
  by (auto simp: fresh_node_def Let_def node_inv_def cleanup_inv_def p_inv_def retries_ok_def sets_of_def
      signed_after_commit_def elim: acct_inv_mono)

lemma quorate_mono: "quorate c G v \<Longrightarrow> G \<subseteq> H \<Longrightarrow> quorate c H v"
  by (auto simp: quorate_def)

lemma state_inv_mono: "state_inv c G h s \<Longrightarrow> G \<subseteq> H \<Longrightarrow> state_inv c H h s"
  unfolding state_inv_def by (cases "st_ourObservation s") auto

lemma sound_msg_mono: "sound_msg c G m \<Longrightarrow> G \<subseteq> H \<Longrightarrow> sound_msg c H m"
  unfolding sound_msg_def by (auto split: GossipMessage.splits)

lemma p_inv_mono: "p_inv c G p \<Longrightarrow> G \<subseteq> H \<Longrightarrow> p_inv c H p"
  unfolding p_inv_def using quorate_mono state_inv_mono sound_msg_mono by (metis subsetD)

lemma cleanup_inv_mono: "cleanup_inv c G p \<Longrightarrow> G \<subseteq> H \<Longrightarrow> cleanup_inv c H p"
  unfolding cleanup_inv_def using p_inv_mono by blast

text \<open>An event can be noted before its step is made.\<close>

lemma node_inv_note:
  assumes "node_inv E tr n" and "typed_event ev"
  shows "node_inv E (tr @ [(ev, m)]) n"
proof -
  have mono: "sets_of tr \<subseteq> sets_of (tr @ [(ev, m)])" "committed_in E tr \<subseteq> committed_in E (tr @ [(ev, m)])"
    by (auto simp: sets_of_def committed_in_def)
  have n: "\<forall>gs \<in> sets_of tr. good_gs gs" "cleanup_inv (re_crypto E) (sets_of tr) (nd_proc n)"
    "nd_acct n = Some a \<Longrightarrow> acct_inv (\<lambda>i. i \<in> committed_in E tr) typed_msg a" for a
    using assms(1) by (simp_all add: node_inv_def)
  have "\<forall>gs \<in> sets_of (tr @ [(ev, m)]). good_gs gs"
    using n(1) assms(2) by (auto simp: sets_of_def typed_event_def)
  moreover have "cleanup_inv (re_crypto E) (sets_of (tr @ [(ev, m)])) (nd_proc n)"
    by (rule cleanup_inv_mono [OF n(2) mono(1)])
  moreover have "acct_inv (\<lambda>i. i \<in> committed_in E (tr @ [(ev, m)])) typed_msg a" if "nd_acct n = Some a" for a
    by (rule acct_inv_mono [OF n(3) [OF that]]) (use mono(2) in blast)
  moreover have "signed_after_commit (committed_in E (tr @ [(ev, m)])) (own_vaas (nd_proc n)) a" if "nd_acct n = Some a" for a
    using assms(1) that mono(2) unfolding node_inv_def signed_after_commit_def by (meson subsetD)
  ultimately show ?thesis
    using assms(1) by (simp add: node_inv_def)
qed

section \<open>The parts of a step\<close>

lemma node_inv_proc:
  assumes n: "node_inv E tr n" and frame: "obs_frame V (nd_proc n) p'" and p: "p_inv (re_crypto E) (sets_of tr) p'"
    and V: "\<And>a. nd_acct n = Some a \<Longrightarrow> signed_after_commit (committed_in E tr) V a"
  shows "node_inv E tr (n\<lparr>nd_proc := p'\<rparr>)"
proof -
  have "signed_after_commit (committed_in E tr) (own_vaas p') a" if "nd_acct n = Some a" for a
    using n V [OF that] that frame unfolding node_inv_def signed_after_commit_def obs_frame_def by blast
  with n frame p show ?thesis
    unfolding node_inv_def obs_frame_def cleanup_inv_def by simp
qed

lemma signed_after_commit_empty [simp]: "signed_after_commit ids {} a"
  by (simp add: signed_after_commit_def)

lemma node_inv_lift:
  assumes "node_inv E tr n" and "lift_proc r n = (q, n')"
    and "\<And>p'. r = Inr p' \<Longrightarrow> obs_frame {} (nd_proc n) p' \<and> p_inv (re_crypto E) (sets_of tr) p'"
  shows "node_inv E tr n'"
  using assms by (cases r) (auto simp: lift_proc_def intro: node_inv_proc)

lemma sign_message_inv:
  assumes n: "node_inv E tr n" and k: "typed_msg k" and step: "sign_message E f now k n = (r, n')"
    and commit: "\<And>a. nd_acct n = Some a \<Longrightarrow> enforced k a \<Longrightarrow> MessageIDString k \<in> committed_in E tr"
  shows "node_inv E tr n'"
proof (cases "handleMessage (re_crypto E) (re_sign E) (f (MessageIDString k)) now k (nd_proc n)")
  case (Inl e)
  with step n show ?thesis by (simp add: sign_message_def lift_proc_def)
next
  case (Inr p')
  have "p_inv (re_crypto E) (sets_of tr) p'"
    using handleMessage_inv [OF _ _ _ _ Inr] n k by (auto simp: node_inv_def cleanup_inv_def typed_msg_def)
  moreover have "signed_after_commit (committed_in E tr) {CreateVAA i k | i. True} a" if "nd_acct n = Some a" for a
    using commit [OF that] CreateVAA_same [of _ _ _ k a] by (fastforce simp: signed_after_commit_def)
  ultimately show ?thesis
    using step Inr node_inv_proc [OF n handleMessage_frame [OF Inr]] by (simp add: sign_message_def lift_proc_def)
qed

lemma with_governor_inv:
  assumes n: "node_inv E tr n" and g: "p_governor (nd_proc n) = Some g"
    and step: "with_governor f g n = (r, n')"
    and f: "\<And>h h'. gov_all typed_msg h \<Longrightarrow> f h = (r, h') \<Longrightarrow> gov_all typed_msg h'"
  shows "node_inv E tr n' \<and> nd_acct n' = nd_acct n"
proof -
  obtain h where h: "f (g\<lparr>gov_db := p_db (nd_proc n)\<rparr>) = (r, h)"
    and n': "n' = n\<lparr>nd_proc := (nd_proc n)\<lparr>p_governor := Some h, p_db := gov_db h\<rparr>\<rparr>"
    using step by (auto simp: with_governor_def split: prod.splits)
  have "gov_all typed_msg g"
    using n g by (simp add: node_inv_def)
  then have "gov_all typed_msg (g\<lparr>gov_db := p_db (nd_proc n)\<rparr>)"
    by (rule gov_all_same) simp_all
  from f [OF this h] n show ?thesis
    by (auto simp: n' node_inv_def cleanup_inv_def p_inv_def retries_ok_def own_vaas_def)
qed

text \<open>An operation of the accountant; what it may publish has been committed.\<close>

lemma with_acct_inv:
  assumes n: "node_inv E tr n" and a: "nd_acct n = Some a" and step: "with_acct f a n = (r, n')"
    and f: "\<And>b b'. acct_inv (\<lambda>i. i \<in> committed_in E tr) typed_msg b \<Longrightarrow> f b = (r, b') \<Longrightarrow>
      acct_inv (\<lambda>i. i \<in> committed_in E tr) typed_msg b' \<and> same_emitters b b'"
  shows "node_inv E tr n' \<and> (\<exists>b. nd_acct n' = Some b \<and> (\<forall>k. enforced k b = enforced k a))"
proof -
  let ?b = "a\<lparr>ac_db := p_db (nd_proc n)\<rparr>"
  obtain b where b: "f ?b = (r, b)"
    and n': "n' = n\<lparr>nd_proc := (nd_proc n)\<lparr>p_db := ac_db b\<rparr>, nd_acct := Some b\<rparr>"
    using step by (auto simp: with_acct_def split: prod.splits)
  have "acct_inv (\<lambda>i. i \<in> committed_in E tr) typed_msg ?b"
    using n a by (simp add: node_inv_def)
  from f [OF this b] have b': "acct_inv (\<lambda>i. i \<in> committed_in E tr) typed_msg b" "same_emitters ?b b"
    by simp_all
  then have same: "enforced k b = enforced k a" for k
    using same_emitters_invs [of ?b b] by simp
  with n a b' show ?thesis
    by (auto simp: n' node_inv_def cleanup_inv_def p_inv_def retries_ok_def own_vaas_def signed_after_commit_def)
qed

section \<open>The cases of the select\<close>

lemma governor_gate_inv:
  assumes n: "node_inv E tr n" and k: "typed_msg k" and step: "governor_gate E now k n = (b, n')"
  shows "node_inv E tr n' \<and> nd_acct n' = nd_acct n"
proof (cases "p_governor (nd_proc n)")
  case None
  with step n show ?thesis by (simp add: governor_gate_def)
next
  case (Some g)
  with step have "with_governor (ProcessMsg (re_crypto E) (re_badger E) (Some k) now) g n = (b, n')"
    by (simp add: governor_gate_def)
  from with_governor_inv [OF n Some this] show ?thesis
    using gov_all_ProcessMsg k by blast
qed

text \<open>A message that the accountant lets through is not enforced.\<close>

lemma acct_gate_inv:
  assumes n: "node_inv E tr n" and k: "typed_msg k" and step: "acct_gate E now k n = (r, n')"
  shows "node_inv E tr n' \<and> (r = Inr True \<longrightarrow> (\<forall>a. nd_acct n' = Some a \<longrightarrow> \<not> enforced k a))"
proof (cases "nd_acct n")
  case None
  with step n show ?thesis by (simp add: acct_gate_def)
next
  case (Some a)
  let ?f = "SubmitObservation (re_crypto E) (re_json E) (re_badger E) now k"
  have w: "with_acct ?f a n = (r, n')"
    using step Some by (simp add: acct_gate_def)
  from with_acct_inv [OF n Some w] have n': "node_inv E tr n'" "\<exists>b. nd_acct n' = Some b \<and> (\<forall>k. enforced k b = enforced k a)"
    using SubmitObservation_inv k by blast+
  have "\<not> enforced k a" if r: "r = Inr True"
  proof -
    obtain b where "?f (a\<lparr>ac_db := p_db (nd_proc n)\<rparr>) = (r, b)"
      using w by (auto simp: with_acct_def split: prod.splits)
    moreover have "acct_inv (\<lambda>i. i \<in> committed_in E tr) typed_msg (a\<lparr>ac_db := p_db (nd_proc n)\<rparr>)"
      using n Some by (simp add: node_inv_def)
    ultimately show ?thesis
      using SubmitObservation_inv [of _ typed_msg "a\<lparr>ac_db := p_db (nd_proc n)\<rparr>" k] k r by simp
  qed
  with n' show ?thesis by auto
qed

lemma sign_message_acct: "sign_message E f now k n = (r, n') \<Longrightarrow> nd_acct n' = nd_acct n"
  by (auto simp: sign_message_def lift_proc_def split: sum.splits)

lemma run_msgC_inv:
  assumes n: "node_inv E tr n" and k: "typed_msg k" and step: "run_msgC E f now k n = (r, n')"
  shows "node_inv E tr n'"
proof -
  obtain b n1 where b: "governor_gate E now k n = (b, n1)" by (metis prod.collapse)
  obtain q n2 where q: "acct_gate E now k n1 = (q, n2)" by (metis prod.collapse)
  have n1: "node_inv E tr n1"
    using governor_gate_inv [OF n k b] by simp
  have n2: "node_inv E tr n2" "q = Inr True \<Longrightarrow> nd_acct n2 = Some a \<Longrightarrow> \<not> enforced k a" for a
    using acct_gate_inv [OF n1 k q] by blast+
  consider "n' = n1" | "n' = n2" | "q = Inr True" "sign_message E f now k n2 = (r, n')"
    using step b q by (auto simp: run_msgC_def split: bool.splits sum.splits)
  then show ?thesis
    by cases (use n1 n2 sign_message_inv [OF n2(1) k] in auto)
qed

lemma run_acctReadC_inv:
  assumes "node_inv E tr n" and "typed_msg k" and "run_acctReadC E f now k n = (r, n')" and "MessageIDString k \<in> committed_in E tr"
  shows "node_inv E tr n'"
  using assms sign_message_inv [OF assms(1,2)] by (auto simp: run_acctReadC_def split: option.splits if_splits)

lemma run_released_inv:
  "node_inv E tr n \<Longrightarrow> \<forall>k \<in> set ks. typed_msg k \<Longrightarrow> run_released E f now ks n = (r, n') \<Longrightarrow> node_inv E tr n'"
proof (induction ks arbitrary: n)
  case (Cons k ks)
  obtain q n2 where q: "acct_gate E now k n = (q, n2)" by (metis prod.collapse)
  obtain s n3 where s: "sign_message E f now k n2 = (s, n3)" by (metis prod.collapse)
  have k: "typed_msg k" using Cons.prems(2) by simp
  have n2: "node_inv E tr n2" "q = Inr True \<Longrightarrow> nd_acct n2 = Some a \<Longrightarrow> \<not> enforced k a" for a
    using acct_gate_inv [OF Cons.prems(1) k q] by blast+
  have n3: "q = Inr True \<Longrightarrow> node_inv E tr n3"
    using sign_message_inv [OF n2(1) k s] n2(2) by blast
  have "n' = n \<or> n' = n2 \<or> run_released E f now ks n2 = (r, n') \<or>
      q = Inr True \<and> (n' = n3 \<or> run_released E f now ks n3 = (r, n'))"
    using Cons.prems(3) q s by (auto split: option.splits sum.splits bool.splits)
  then show ?case
    using Cons.IH [OF n2(1)] Cons.IH [of n3] Cons.prems n2(1) n3 by auto
qed simp

lemma run_govTimer_inv:
  assumes n: "node_inv E tr n" and step: "run_govTimer E f now n = (r, n')"
  shows "node_inv E tr n'"
proof (cases "p_governor (nd_proc n)")
  case None
  with step n show ?thesis by (simp add: run_govTimer_def)
next
  case (Some g)
  obtain q n1 where q: "with_governor (CheckPendingForTime (re_badger E) now) g n = (q, n1)"
    by (metis prod.collapse)
  have n1: "node_inv E tr n1"
    using with_governor_inv [OF n Some q] gov_all_CheckPending by blast
  show ?thesis
  proof (cases q)
    case (Inl e)
    with step Some q n1 show ?thesis by (simp add: run_govTimer_def)
  next
    case (Inr ks)
    obtain h where "CheckPendingForTime (re_badger E) now (g\<lparr>gov_db := p_db (nd_proc n)\<rparr>) = (Inr ks, h)"
      using q Inr by (auto simp: with_governor_def split: prod.splits)
    moreover have "gov_all typed_msg (g\<lparr>gov_db := p_db (nd_proc n)\<rparr>)"
      using n Some by (auto simp: node_inv_def intro: gov_all_same)
    ultimately have "\<forall>k \<in> set ks. typed_msg k"
      using gov_all_CheckPending by fastforce
    with run_released_inv [OF n1] step Some q Inr show ?thesis
      by (simp add: run_govTimer_def)
  qed
qed

lemma run_setC_inv:
  assumes "node_inv E tr n" and "gs \<in> sets_of tr"
  shows "node_inv E tr (run_setC gs n)"
  using assms by (auto simp: node_inv_def run_setC_def cleanup_inv_def p_inv_def retries_ok_def own_vaas_def)

section \<open>Every step\<close>

text \<open>The cleanup makes no observation of its own.\<close>

definition own_frame :: "'s processor \<Rightarrow> 's processor \<Rightarrow> bool" where
  "own_frame p p' \<longleftrightarrow> own_vaas p' \<subseteq> own_vaas p \<and> p_governor p' = p_governor p \<and> p_ourAddr p' = p_ourAddr p"

lemma own_frame_refl [simp]: "own_frame p p"
  by (simp add: own_frame_def)

lemma own_frame_trans: "own_frame p q \<Longrightarrow> own_frame q r \<Longrightarrow> own_frame p r"
  by (auto simp: own_frame_def)

lemma own_frame_put:
  "p_state p hash = Some s \<Longrightarrow> st_ourObservation s' = st_ourObservation s \<Longrightarrow> own_frame p (put_state hash s' p)"
  by (auto simp: own_frame_def put_state_def own_vaas_def split: if_splits)

lemma own_frame_del: "own_frame p (del_state hash p)"
  by (auto simp: own_frame_def del_state_def own_vaas_def split: if_splits)

lemma own_frame_same: "p_state q = p_state p \<Longrightarrow> p_governor q = p_governor p \<Longrightarrow> p_ourAddr q = p_ourAddr p \<Longrightarrow> own_frame p q"
  by (simp add: own_frame_def own_vaas_def)

lemma resubmit_own:
  assumes "p_state p hash = Some s" and "resubmit f now hash s ours obs p = Inr p'"
  shows "own_frame p p'"
proof -
  obtain q s' where "p' = put_state hash s' q" "p_state q = p_state p" "p_governor q = p_governor p" "p_ourAddr q = p_ourAddr p"
    "st_ourObservation s' = st_ourObservation s"
    using assms(2) by (cases "st_ourMsg s") (auto simp: resubmit_def Let_def chk_eq_Inr postObservationToBatch_def)
  then show ?thesis
    using assms(1) own_frame_put [of q hash s s'] own_frame_same [of q p] own_frame_trans by metis
qed

lemma cleanup_entry_own:
  assumes s: "p_state p hash = Some s" and step: "cleanup_entry c B f now hash s p = Inr p'"
  shows "own_frame p p'"
proof -
  have "own_frame p r" if "cleanup_retry c B f now hash s p = Inr r" for r
    using that resubmit_own [OF s, of f now] own_frame_del
    by (auto simp: cleanup_retry_def split: option.splits sum.splits bool.splits if_splits)
  with step show ?thesis
    by (auto simp: cleanup_entry_def Let_def own_frame_del intro: own_frame_put [OF s] split: if_splits option.splits)
qed

lemma cleanup_loop_own: "cleanup_loop c B f now order p = Inr p' \<Longrightarrow> own_frame p p'"
  by (induction order arbitrary: p) (auto simp: chk_eq_Inr split: option.splits intro: own_frame_trans cleanup_entry_own)

lemma handleCleanup_own: "handleCleanup c B f now order p = Inr p' \<Longrightarrow> own_frame p p'"
  by (auto simp: handleCleanup_def chk_eq_Inr intro!: own_frame_trans [OF cleanup_loop_own own_frame_same])

lemma node_inv_own:
  assumes n: "node_inv E tr n" and frame: "own_frame (nd_proc n) p'" and p: "cleanup_inv (re_crypto E) (sets_of tr) p'"
  shows "node_inv E tr (n\<lparr>nd_proc := p'\<rparr>)"
proof -
  have "signed_after_commit (committed_in E tr) (own_vaas p') a" if "nd_acct n = Some a" for a
    using n that frame unfolding node_inv_def signed_after_commit_def own_frame_def by blast
  with n frame p show ?thesis
    unfolding node_inv_def own_frame_def by simp
qed

lemma vaaWriter_inv:
  assumes n: "node_inv E tr n" and step: "vaaWriter W order (nd_proc n) = Inr p'"
  shows "node_inv E tr (n\<lparr>nd_proc := p'\<rparr>)"
proof -
  let ?p = "nd_proc n"
  have p': "p' = ?p \<or> (\<exists>s. p' = vaaWriter_delete ((snd (vaaWriter_copy order ?p))\<lparr>p_db := s\<rparr>))"
    using step by (auto simp: vaaWriter_def vaaWriter_store_def is_panic_def case_prod_unfold split: if_splits sum.splits)
  moreover have "p_inv (re_crypto E) (sets_of tr) q"
    if "q = vaaWriter_delete ((snd (vaaWriter_copy order ?p))\<lparr>p_db := s\<rparr>)" for q s
  proof -
    have "p_updatedVAAs q = Map.empty"
      using vaaWriter_delete_copy [of order ?p] by (simp add: that vaaWriter_delete_def)
    moreover have "p_state q = p_state ?p" "p_hasDb q = p_hasDb ?p" "p_gs q = p_gs ?p" "p_pythnetVaas q = p_pythnetVaas ?p"
      "p_gossipVaaSendC q = p_gossipVaaSendC ?p"
      by (simp_all add: that vaaWriter_delete_def vaaWriter_copy_def)
    ultimately show ?thesis
      using n by (auto simp: node_inv_def cleanup_inv_def p_inv_def)
  qed
  moreover have "own_frame ?p q" if "q = vaaWriter_delete ((snd (vaaWriter_copy order ?p))\<lparr>p_db := s\<rparr>)" for q s
    by (rule own_frame_same) (simp_all add: that vaaWriter_delete_def vaaWriter_copy_def)
  moreover have "cleanup_inv (re_crypto E) (sets_of tr) q"
    if "p_inv (re_crypto E) (sets_of tr) q" "q = vaaWriter_delete ((snd (vaaWriter_copy order ?p))\<lparr>p_db := s\<rparr>)" for q s
    using n that by (auto simp: node_inv_def cleanup_inv_def retries_ok_def vaaWriter_delete_def vaaWriter_copy_def)
  ultimately show ?thesis
    using n node_inv_own [OF n, of p'] by auto
qed

lemma handleBatch_frame:
  assumes "handleBatch ready err p = (r, p')" and "p_inv c G p"
  shows "p_inv c G p' \<and> obs_frame {} p p'"
proof -
  have "p_state p' = p_state p \<and> p_hasDb p' = p_hasDb p \<and> p_db p' = p_db p \<and> p_governor p' = p_governor p \<and>
      p_gs p' = p_gs p \<and> p_gst p' = p_gst p \<and> p_ourAddr p' = p_ourAddr p \<and> p_updatedVAAs p' = p_updatedVAAs p \<and>
      p_pythnetVaas p' = p_pythnetVaas p \<and> p_gossipVaaSendC p' = p_gossipVaaSendC p"
    using assms(1) by (auto simp: handleBatch_def Let_def publishBatch_def split: prod.splits if_splits)
  with assms(2) show ?thesis
    by (auto intro: p_inv_frame obs_frame_same)
qed

lemma drain_items: "set (ch_Items (drain k ch)) \<subseteq> set (ch_Items ch)"
  by (auto simp: drain_def dest: in_set_dropD)

lemma from_acct_inv:
  assumes n: "node_inv E tr n" and step: "from_acct E f now n = Some (r, n')"
  shows "node_inv E tr n'"
proof -
  obtain a k ks where a: "nd_acct n = Some a" "ch_Items (ac_msgChan a) = k # ks"
    and run: "run_acctReadC E f now k (n\<lparr>nd_acct := Some (a\<lparr>ac_msgChan := drain 1 (ac_msgChan a)\<rparr>)\<rparr>) = (r, n')"
    using step by (auto simp: from_acct_def Run_select_def split: option.splits list.splits)
  have inv: "acct_inv (\<lambda>i. i \<in> committed_in E tr) typed_msg a" "signed_after_commit (committed_in E tr) (own_vaas (nd_proc n)) a"
    using n a(1) by (simp_all add: node_inv_def)
  let ?a = "a\<lparr>ac_msgChan := drain 1 (ac_msgChan a)\<rparr>"
  have same: "same_emitters a ?a" by simp
  have "acct_inv (\<lambda>i. i \<in> committed_in E tr) typed_msg ?a"
    using inv(1) drain_items [of 1 "ac_msgChan a"] unfolding acct_inv_def same_emitters_invs [OF same] by auto
  moreover have "signed_after_commit (committed_in E tr) (own_vaas (nd_proc n)) ?a"
    using inv(2) unfolding signed_after_commit_def same_emitters_invs [OF same] .
  ultimately have "node_inv E tr (n\<lparr>nd_acct := Some ?a\<rparr>)"
    using n by (simp add: node_inv_def)
  moreover have "typed_msg k" "MessageIDString k \<in> committed_in E tr"
    using inv(1) a(2) by (auto simp: acct_inv_def)
  ultimately show ?thesis
    using run_acctReadC_inv [OF _ _ run] by blast
qed

lemma acct_step_inv:
  assumes n: "node_inv E tr n" and step: "acct_step f n = Some (r, n')" and R: "R \<subseteq> committed_in E tr"
    and f: "\<And>a b. f a = (r, b) \<Longrightarrow> acct_ok R a b"
  shows "node_inv E tr n'"
proof -
  obtain a where a: "nd_acct n = Some a" "with_acct f a n = (r, n')"
    using step by (auto simp: acct_step_def)
  from with_acct_inv [OF n a] show ?thesis
    using f R unfolding acct_ok_def by (meson subsetD)
qed

lemma Loop_inv:
  assumes n: "node_inv E tr n" and ev: "typed_event (Loop e)" "\<And>gs. e = SetC gs \<Longrightarrow> gs \<in> sets_of tr"
    and f: "\<And>h. Int63n_ok (f h)" and e: "\<And>k. e \<noteq> AcctReadC k" and step: "Run_select E f now e n = (r, n')"
  shows "node_inv E tr n'"
proof -
  have p: "p_inv (re_crypto E) (sets_of tr) (nd_proc n)" "\<forall>gs \<in> sets_of tr. good_gs gs" "ecrecover_65 (re_crypto E)"
    "cleanup_inv (re_crypto E) (sets_of tr) (nd_proc n)"
    using n by (simp_all add: node_inv_def cleanup_inv_def)
  show ?thesis
  proof (cases e)
    case (SetC gs)
    with step ev(2) run_setC_inv [OF n, of gs] show ?thesis by (auto simp: Run_select_def)
  next
    case (MsgC k)
    with step ev(1) run_msgC_inv [OF n, of k f now r n'] show ?thesis by (auto simp: Run_select_def typed_event_def)
  next
    case (AcctReadC k)
    with e show ?thesis by blast
  next
    case (BatchObsvC m)
    with step show ?thesis
      by (auto simp: Run_select_def run_batchObsvC_def elim!: node_inv_lift [OF n]
          intro: handleBatchObservation_frame handleBatchObservation_inv [OF p(1-3)])
  next
    case (SignedInC m)
    with step node_inv_proc [OF n handleInbound_frame [of "{}"] handleInbound_inv [OF p(1)]] show ?thesis
      by (auto simp: Run_select_def)
  next
    case (CleanupC order)
    obtain p' where p': "handleCleanup (re_crypto E) (re_badger E) f now order (nd_proc n) = Inr p'"
      "cleanup_inv (re_crypto E) (sets_of tr) p'"
      using handleCleanup_ok [where f = f, OF f p(4)] by blast
    with step CleanupC node_inv_own [OF n handleCleanup_own [OF p'(1)]] show ?thesis
      by (auto simp: Run_select_def lift_proc_def)
  next
    case GovTimerC
    with step run_govTimer_inv [OF n] show ?thesis by (simp add: Run_select_def)
  next
    case Done
    with step n show ?thesis by (simp add: Run_select_def)
  qed
qed

lemma node_inv_step:
  assumes n: "node_inv E tr n" and ev: "typed_event ev" and step: "node_step E ev n n'"
  shows "node_inv E (tr @ [(ev, n)]) n'"
proof -
  let ?tr = "tr @ [(ev, n)]"
  have n1: "node_inv E ?tr n" by (rule node_inv_note [OF n ev])
  have R: "contract_reports E ev \<subseteq> committed_in E ?tr" and sets: "\<And>gs. ev = Loop (SetC gs) \<Longrightarrow> gs \<in> sets_of ?tr"
    by (auto simp: committed_in_def sets_of_def)
  obtain f now r where r: "node_result E f now ev n = Some (r, n')" and f: "\<And>h. Int63n_ok (f h)"
    using step by (auto elim: node_stepE)
  have p: "p_inv (re_crypto E) (sets_of ?tr) (nd_proc n)"
    using n1 by (simp add: node_inv_def cleanup_inv_def)
  show ?thesis
  proof (cases ev)
    case (Loop e)
    then have "Run_select E f now e n = (r, n')" "\<And>k. e \<noteq> AcctReadC k"
      using r by (auto simp: node_result_def Let_def split: run_event.splits)
    then show ?thesis
      using Loop_inv [where f = f, OF n1 _ _ f] ev sets Loop by blast
  next
    case FromAcct
    with r from_acct_inv [OF n1, of f now r n'] show ?thesis by (simp add: node_result_def Let_def)
  next
    case (BatchTurn ready err)
    with r obtain p' where "handleBatch ready err (nd_proc n) = (r, p')" "n' = n\<lparr>nd_proc := p'\<rparr>"
      by (auto simp: node_result_def Let_def split: prod.splits)
    with handleBatch_frame [OF this(1) p] node_inv_proc [OF n1] show ?thesis by auto
  next
    case (WriterTick order)
    with r n1 vaaWriter_inv [OF n1] show ?thesis
      by (auto simp: node_result_def Let_def lift_proc_def split: sum.splits)
  next
    case (SubmitTurn isNTT ready err conn)
    then have "acct_step (acct_handleBatch (re_crypto E) (re_obs_json E) (re_sign E) (re_badger E) now isNTT ready err
        (Get_current (p_gst (nd_proc n))) conn) n = Some (r, n')" "conn_committed conn \<subseteq> committed_in E ?tr"
      using r R by (simp_all add: node_result_def Let_def contract_reports_def)
    from acct_step_inv [OF n1 this] show ?thesis
      using acct_handleBatch_ok by blast
  next
    case (ContractEvents contract events)
    then have "acct_step (\<lambda>a. (Inr (), handleEvents (re_crypto E) (re_badger E) (re_dec_obs E) (re_dec_err E) contract events a)) n =
        Some (r, n')" "events_committed (re_dec_obs E) contract events \<subseteq> committed_in E ?tr"
      using r R by (simp_all add: node_result_def Let_def contract_reports_def)
    from acct_step_inv [OF n1 this] show ?thesis
      using handleEvents_ok by blast
  next
    case (AuditTick conn nttConn order2 order nttOrder)
    then have "acct_step (\<lambda>a. audit_result a (runAudit (re_badger E) now (Get_current (p_gst (nd_proc n))) conn nttConn
        order2 order nttOrder a)) n = Some (r, n')" "conn_committed conn \<union> conn_committed nttConn \<subseteq> committed_in E ?tr"
      using r R by (simp_all add: node_result_def Let_def contract_reports_def)
    then show ?thesis
      by (rule acct_step_inv [OF n1]) (auto simp: audit_result_def split: sum.splits intro: runAudit_ok)
  next
    case (Drain i j k)
    let ?p = "(nd_proc n)\<lparr>p_gossipAttestationSendC := drain i (p_gossipAttestationSendC (nd_proc n)),
      p_gossipVaaSendC := drain j (p_gossipVaaSendC (nd_proc n)), p_obsvReqSendC := drain k (p_obsvReqSendC (nd_proc n))\<rparr>"
    have "p_inv (re_crypto E) (sets_of ?tr) ?p"
      using p drain_items [of j "p_gossipVaaSendC (nd_proc n)"] unfolding p_inv_def by auto
    with Drain r node_inv_proc [OF n1, of "{}" ?p] show ?thesis
      by (auto simp: node_result_def Let_def obs_frame_same)
  qed
qed

interpretation node: trace_invariant "fresh_node E" "node_step E" typed_event "node_inv E" for E
  by unfold_locales (auto intro: node_inv_start node_inv_step)

end
