(* ===== verification/NodeSafety.thy ===== *)
theory NodeSafety imports NodeInv begin

text \<open>
  The guardian node as a whole: what holds in every run of the processor, the governor and the
  accountant together, whatever the watchers, the network and the accountant contract do.
\<close>

section \<open>Every run\<close>

text \<open>
  C1. Every signed VAA that a guardian node has queued for the network decodes to a VAA that Verify
  accepts for a guardian set the node was given, the one whose index the VAA names; and every VAA that
  waits to be written is accepted by Verify for a guardian set the node was given. This holds after any
  sequence of events, from any other guardians and any chain.
\<close>

theorem broadcast_vaas_verify:
  assumes "trace_run (fresh_node E) (node_step E) tr n" and "\<forall>ev \<in> fst ` set tr. typed_event ev"
  shows "(\<forall>b. GM_SignedVaaWithQuorum b \<in> set (ch_Items (p_gossipVaaSendC (nd_proc n))) \<longrightarrow>
      (\<exists>v gs. Loop (SetC gs) \<in> fst ` set tr \<and> VAA_Unmarshal b = Inr v \<and>
        VAA_Verify (re_crypto E) v (Some (gs_Keys gs)) = Inr () \<and> vaa_GuardianSetIndex v = gs_Index gs)) \<and>
    (\<forall>key v dirty. p_updatedVAAs (nd_proc n) key = Some (v, dirty) \<longrightarrow>
      (\<exists>gs. Loop (SetC gs) \<in> fst ` set tr \<and> VAA_Verify (re_crypto E) v (Some (gs_Keys gs)) = Inr ()))"
proof -
  have inv: "p_inv (re_crypto E) (sets_of tr) (nd_proc n)"
    using node.run_inv [OF assms] by (simp add: node_inv_def cleanup_inv_def)
  have "\<exists>v gs. Loop (SetC gs) \<in> fst ` set tr \<and> VAA_Unmarshal b = Inr v \<and>
      VAA_Verify (re_crypto E) v (Some (gs_Keys gs)) = Inr () \<and> vaa_GuardianSetIndex v = gs_Index gs"
    if "GM_SignedVaaWithQuorum b \<in> set (ch_Items (p_gossipVaaSendC (nd_proc n)))" for b
  proof -
    have "sound_msg (re_crypto E) (sets_of tr) (GM_SignedVaaWithQuorum b)"
      using inv that unfolding p_inv_def by blast
    then show ?thesis
      unfolding sound_msg_def sets_of_def by auto
  qed
  moreover have "\<exists>gs. Loop (SetC gs) \<in> fst ` set tr \<and> VAA_Verify (re_crypto E) v (Some (gs_Keys gs)) = Inr ()"
    if "p_updatedVAAs (nd_proc n) key = Some (v, dirty)" for key v dirty
    using inv that unfolding p_inv_def quorate_def sets_of_def by blast
  ultimately show ?thesis by blast
qed

text \<open>
  C17. The cleanup never panics: in every run it comes to its end, in whatever order the states are
  visited, at any time and with any random numbers.
\<close>

theorem cleanup_never_panics:
  assumes "trace_run (fresh_node E) (node_step E) tr n" and "\<forall>ev \<in> fst ` set tr. typed_event ev"
    and "\<forall>h. Int63n_ok (f h)"
  shows "\<exists>n'. Run_select E f now (CleanupC order) n = (Inr (), n')"
proof -
  have "cleanup_inv (re_crypto E) (sets_of tr) (nd_proc n)" and f: "\<And>h. Int63n_ok (f h)"
    using node.run_inv [OF assms(1,2)] assms(3) by (auto simp: node_inv_def)
  then obtain p' where "handleCleanup (re_crypto E) (re_badger E) f now order (nd_proc n) = Inr p'"
    using handleCleanup_ok [where f = f] by blast
  then show ?thesis
    by (simp add: Run_select_def lift_proc_def)
qed

text \<open>
  C2. With an accountant, the node makes its own observation of a transfer that is covered and enforced
  only after the contract has reported the id of its message as committed: in an answer to a submission,
  in an event or in an answer to the audit. It holds for the messages that come from a watcher, for
  those that the governor releases and for those that the accountant gives back.
\<close>

theorem enforced_signed_after_commit:
  assumes "trace_run (fresh_node E) (node_step E) tr n" and "\<forall>ev \<in> fst ` set tr. typed_event ev"
    and "nd_acct n = Some a" and "p_state (nd_proc n) hash = Some s" and "st_ourObservation s = Some v"
    and "pv_VAA v = CreateVAA i k" and "enforced k a"
  shows "\<exists>ev \<in> fst ` set tr. MessageIDString k \<in> contract_reports E ev"
  using node.run_inv [OF assms(1,2)] assms(3-7) own_vaasI [OF assms(4,5)]
  by (auto simp: node_inv_def signed_after_commit_def committed_in_def)

section \<open>A node that runs\<close>

text \<open>A node that is the only guardian, and signs and checks with the toy cryptography.\<close>

definition node_env :: "(byte list \<rightharpoonup> byte list) run_env" where
  "node_env = \<lparr>re_crypto = node_crypto, re_sign = node_sign,
     re_json = \<lparr>aj_enc = (\<lambda>_. []), aj_dec = (\<lambda>_. Inl EOF), aj_dec_old = (\<lambda>_. Inl EOF)\<rparr>, re_badger = map_badger,
     re_batch = failing_batch, re_obs_json = (\<lambda>_. Inr []), re_dec_obs = (\<lambda>_. Inl EOF), re_dec_err = (\<lambda>_. Inl EOF)\<rparr>"

definition one_gs :: GuardianSet where
  "one_gs = \<lparr>gs_Keys = [toy_guardian 7], gs_Index = 3, gs_quorum = 1, gs_keyMap = Some (key_map [toy_guardian 7])\<rparr>"

definition idle_node :: "(byte list \<rightharpoonup> byte list) accountant option \<Rightarrow> (byte list \<rightharpoonup> byte list) guardian_node" where
  "idle_node a = \<lparr>nd_proc = NewProcessor True Map.empty (make_chan 10) (make_chan 10) (make_chan 10) (toy_guardian 7)
     (NewGuardianSetState None) None None None, nd_acct = a\<rparr>"

lemma idle_fields:
  "p_state (nd_proc (idle_node a)) = Map.empty" "p_gs (nd_proc (idle_node a)) = None"
  "p_updatedVAAs (nd_proc (idle_node a)) = Map.empty" "p_pythnetVaas (nd_proc (idle_node a)) = Map.empty"
  "ch_Items (p_gossipVaaSendC (nd_proc (idle_node a))) = []" "p_hasDb (nd_proc (idle_node a))"
  "p_db (nd_proc (idle_node a)) = Map.empty" "p_ourAddr (nd_proc (idle_node a)) = toy_guardian 7"
  "p_governor (nd_proc (idle_node a)) = None" "p_alternatePublisher (nd_proc (idle_node a)) = None"
  "p_gatewayRelayer (nd_proc (idle_node a)) = None" "p_gst (nd_proc (idle_node a)) = NewGuardianSetState None" "nd_acct (idle_node a) = a"
  by (simp_all add: idle_node_def NewProcessor_def make_chan_def)

lemma node_env_fields:
  "re_crypto node_env = node_crypto" "re_sign node_env = node_sign" "re_badger node_env = map_badger"
  by (simp_all add: node_env_def)

lemma node_libraries: "ecrecover_65 node_crypto" "signer_correct node_crypto node_sign (toy_guardian 7)"
  using node_signed by (auto simp: ecrecover_65_def node_crypto_def signer_correct_def node_sign_def split: if_splits)

lemma idle_fresh:
  assumes "\<And>b. a = Some b \<Longrightarrow> acct_inv (\<lambda>_. False) typed_msg b"
  shows "fresh_node node_env (idle_node a)"
  using assms node_libraries by (simp add: fresh_node_def Let_def idle_fields node_env_fields)

lemma one_gs_index: "gs_Index one_gs = 3" "gs_Keys one_gs = [toy_guardian 7]"
  by (simp_all add: one_gs_def)

lemma good_one_gs: "good_gs one_gs"
  by (simp add: good_gs_def one_gs_def NewGuardianSet_def CalculateQuorum_def toy_guardian_def)

lemma handleMessage_CreateVAA:
  "handleMessage c sign Int63n now k p =
     (case p_gs p of
        None \<Rightarrow> Inr p
      | Some gs \<Rightarrow>
          let v = \<lparr>pv_VAA = CreateVAA (gs_Index gs) k, pv_Unreliable = mp_Unreliable k, pv_Reobservation = mp_IsReobservation k\<rparr>;
              digest = SigningDigest c (pv_VAA v);
              hash = hex_encode digest
          in case sign digest of
               Inl _ \<Rightarrow> Inl (Panic ''failed to sign'')
             | Inr signature \<Rightarrow>
                 (case broadcastSignature (MessageID (pv_VAA v)) k digest signature
                        (shouldPublishImmediately (pv_VAA v)) p of
                    ((ourObs, msg), p) \<Rightarrow>
                      chk (get_or_create Int63n now ''loopback'' hash p) (\<lambda>s.
                      let s = s\<lparr>st_ourObservation := Some v, st_txHash := mp_TxID k,
                               st_source := ChainID_String (vaa_EmitterChain (pv_VAA v)), st_gs := p_gs p,
                               st_signatures := AList.update (p_ourAddr p) signature (st_signatures s),
                               st_ourObs := Some ourObs, st_ourMsg := msg\<rparr>;
                          p = put_state hash s p
                      in if \<not> st_submitted s then checkForQuorum now s gs hash p else Inr p)))"
  unfolding handleMessage_def CreateVAA_def by (rule refl)

text \<open>The only guardian reaches a quorum with its own signature.\<close>

lemma one_guardian_quorum:
  assumes p: "p_gs p = Some one_gs" "p_ourAddr p = toy_guardian 7" "p_alternatePublisher p = None"
    "p_state p = Map.empty" and k: "mp_EmitterChain k \<noteq> ChainIDPythNet"
  shows "\<exists>p' b s v. handleMessage node_crypto node_sign (\<lambda>_. 0) now k p = Inr p' \<and>
    p_gossipVaaSendC p' = chan_send (GM_SignedVaaWithQuorum b) (p_gossipVaaSendC p) \<and>
    p_state p' (hex_encode (SigningDigest node_crypto (CreateVAA 3 k))) = Some s \<and> st_ourObservation s = Some v \<and>
    pv_VAA v = CreateVAA 3 k"
proof -
  let ?v = "\<lparr>pv_VAA = CreateVAA 3 k, pv_Unreliable = mp_Unreliable k, pv_Reobservation = mp_IsReobservation k\<rparr>"
  let ?sig = "toy_guardian 7 @ replicate 45 0"
  let ?sigs = "[\<lparr>sig_Index = 0, sig_Data = ?sig\<rparr>]"
  let ?digest = "SigningDigest node_crypto (CreateVAA 3 k)"
  obtain d where d: "nextRetryDuration (\<lambda>_. 0) 0 = Inr d"
    using nextRetryDuration_small [of "\<lambda>_. 0" 0] by (auto simp: Int63n_ok_def)
  have len: "length ?sig = 65"
    by (simp add: toy_guardian_def)
  have format: "signaturesToVaaFormat [(toy_guardian 7, ?sig)] (gs_Keys one_gs) = Inr ?sigs"
    using len by (simp add: signaturesToVaaFormat_def one_gs_def del: replicate.simps)
  obtain b where b: "VAA_Marshal ((CreateVAA 3 k)\<lparr>vaa_Signatures := ?sigs\<rparr>) = Inr b"
    by (simp add: VAA_Marshal_def)
  have chain: "vaa_EmitterChain (CreateVAA 3 k) \<noteq> ChainIDPythNet"
    using k by (simp add: CreateVAA_def)
  have q: "Quorum one_gs = 1"
    by (simp add: one_gs_def Quorum_def)
  have hq: "\<exists>r'. HandleQuorum now ?v ?sigs r = Inr r' \<and>
      p_gossipVaaSendC r' = chan_send (GM_SignedVaaWithQuorum b) (p_gossipVaaSendC r)" for r :: "'a processor"
    using b chain by (simp add: HandleQuorum_def broadcastSignedVAA_def storeSignedVAA_def Let_def)
  have check: "\<exists>r'. checkForQuorum now s one_gs hash r = Inr r' \<and>
      p_gossipVaaSendC r' = chan_send (GM_SignedVaaWithQuorum b) (p_gossipVaaSendC r) \<and>
      p_state r' hash = Some (s\<lparr>st_submitted := True\<rparr>)"
    if "st_signatures s = [(toy_guardian 7, ?sig)]" "st_ourObservation s = Some ?v" for s hash and r :: "'a processor"
    using that format hq [of r] q by (auto simp: checkForQuorum_def put_state_def)
  obtain obs q where bs: "broadcastSignature (MessageID (CreateVAA 3 k)) k ?digest ?sig False p = ((obs, None), q)"
    and q: "p_gs q = Some one_gs" "p_ourAddr q = toy_guardian 7" "p_state q = Map.empty"
      "p_gossipVaaSendC q = p_gossipVaaSendC p"
    using p by (simp add: broadcastSignature_def Let_def postObservationToBatch_def)
  define s where "s = (new_state now (now + d) ''loopback'')\<lparr>st_ourObservation := Some ?v, st_txHash := mp_TxID k,
     st_source := ChainID_String (vaa_EmitterChain (pv_VAA ?v)), st_gs := p_gs q,
     st_signatures := AList.update (p_ourAddr q) ?sig (st_signatures (new_state now (now + d) ''loopback'')),
     st_ourObs := Some obs, st_ourMsg := None\<rparr>"
  have s: "st_signatures s = [(toy_guardian 7, ?sig)]" "st_ourObservation s = Some ?v" "\<not> st_submitted s"
    by (simp_all add: s_def new_state_def q(2) del: replicate.simps)
  have "handleMessage node_crypto node_sign (\<lambda>_. 0) now k p = checkForQuorum now s one_gs (hex_encode ?digest) (put_state (hex_encode ?digest) s q)"
    using bs by (simp add: handleMessage_CreateVAA p(1) chain d q(3) one_gs_index node_sign_def shouldPublishImmediately_def
        get_or_create_def Let_def s_def new_state_def del: replicate.simps)
  with check [of s "hex_encode ?digest" "put_state (hex_encode ?digest) s q"] s q show ?thesis
    by (auto simp: put_state_def)
qed

lemma node_stepI: "node_result E (\<lambda>_ _. 0) 0 ev n = Some (Inr (), n') \<Longrightarrow> node_step E ev n n'"
  by (rule node_step.step [where f = "\<lambda>_ _. 0"]) (auto simp: Int63n_ok_def)

lemma setC_fields:
  "p_gs (nd_proc (run_setC gs n)) = Some gs" "nd_acct (run_setC gs n) = nd_acct n"
  "p_state (nd_proc (run_setC gs n)) = p_state (nd_proc n)" "p_governor (nd_proc (run_setC gs n)) = p_governor (nd_proc n)"
  "p_ourAddr (nd_proc (run_setC gs n)) = p_ourAddr (nd_proc n)" "p_db (nd_proc (run_setC gs n)) = p_db (nd_proc n)"
  "p_alternatePublisher (nd_proc (run_setC gs n)) = p_alternatePublisher (nd_proc n)"
  "p_gst (nd_proc (run_setC gs n)) = Set_current gs (p_gst (nd_proc n))"
  by (simp_all add: run_setC_def)

text \<open>A run without an accountant: the guardian set arrives, then a message.\<close>

lemma sample_run:
  "\<exists>n b. trace_run (fresh_node node_env) (node_step node_env)
      ([(Loop (SetC one_gs), idle_node None)] @ [(Loop (MsgC sample_msg), run_setC one_gs (idle_node None))]) n \<and>
     GM_SignedVaaWithQuorum b \<in> set (ch_Items (p_gossipVaaSendC (nd_proc n)))"
proof -
  let ?n = "run_setC one_gs (idle_node None)"
  have chain: "mp_EmitterChain sample_msg \<noteq> ChainIDPythNet"
    by (simp add: sample_msg_def ChainIDPythNet_def)
  obtain p' b where p': "handleMessage node_crypto node_sign (\<lambda>_. 0) 0 sample_msg (nd_proc ?n) = Inr p'"
    "p_gossipVaaSendC p' = chan_send (GM_SignedVaaWithQuorum b) (p_gossipVaaSendC (nd_proc ?n))"
    using one_guardian_quorum [of "nd_proc ?n" sample_msg 0] chain by (auto simp: setC_fields idle_fields)
  have "trace_run (fresh_node node_env) (node_step node_env) [] (idle_node None)"
    by (intro trace_run.start idle_fresh) simp
  moreover have "node_step node_env (Loop (SetC one_gs)) (idle_node None) ?n"
    by (rule node_stepI) (simp add: node_result_def Let_def Run_select_def)
  moreover have "node_step node_env (Loop (MsgC sample_msg)) ?n (?n\<lparr>nd_proc := p'\<rparr>)"
    using p'(1) by (intro node_stepI) (simp add: node_result_def Let_def Run_select_def run_msgC_def governor_gate_def acct_gate_def
        setC_fields idle_fields sign_message_def lift_proc_def node_env_fields)
  ultimately have "trace_run (fresh_node node_env) (node_step node_env)
      (([] @ [(Loop (SetC one_gs), idle_node None)]) @ [(Loop (MsgC sample_msg), ?n)]) (?n\<lparr>nd_proc := p'\<rparr>)"
    by (intro trace_run.step)
  with p'(2) show ?thesis
    by (intro exI [of _ "?n\<lparr>nd_proc := p'\<rparr>"] exI [of _ b]) simp
qed

theorem broadcast_vaas_verify_witness:
  "\<exists>n b v. trace_run (fresh_node node_env) (node_step node_env)
      [(Loop (SetC one_gs), idle_node None), (Loop (MsgC sample_msg), run_setC one_gs (idle_node None))] n \<and>
     GM_SignedVaaWithQuorum b \<in> set (ch_Items (p_gossipVaaSendC (nd_proc n))) \<and>
     VAA_Unmarshal b = Inr v \<and> VAA_Verify node_crypto v (Some [toy_guardian 7]) = Inr () \<and> vaa_GuardianSetIndex v = 3"
proof -
  let ?tr = "[(Loop (SetC one_gs), idle_node None), (Loop (MsgC sample_msg), run_setC one_gs (idle_node None))]"
  obtain n b where n: "trace_run (fresh_node node_env) (node_step node_env) ?tr n"
    and b: "GM_SignedVaaWithQuorum b \<in> set (ch_Items (p_gossipVaaSendC (nd_proc n)))"
    using sample_run by auto
  have "\<forall>ev \<in> fst ` set ?tr. typed_event ev"
    by (simp add: typed_event_def good_one_gs typed_msg_def sample_msg_def)
  with broadcast_vaas_verify [OF n] b obtain v gs where v: "Loop (SetC gs) \<in> fst ` set ?tr" "VAA_Unmarshal b = Inr v"
    "VAA_Verify node_crypto v (Some (gs_Keys gs)) = Inr ()" "vaa_GuardianSetIndex v = gs_Index gs"
    unfolding node_env_fields by blast
  then have "gs = one_gs" by simp
  with n b v show ?thesis
    by (auto simp: one_gs_index)
qed

theorem cleanup_never_panics_witness:
  "\<exists>n n'. trace_run (fresh_node node_env) (node_step node_env)
      [(Loop (SetC one_gs), idle_node None), (Loop (MsgC sample_msg), run_setC one_gs (idle_node None))] n \<and>
     Run_select node_env (\<lambda>_ _. 0) (hours 2) (CleanupC [node_hash]) n = (Inr (), n')"
proof -
  let ?tr = "[(Loop (SetC one_gs), idle_node None), (Loop (MsgC sample_msg), run_setC one_gs (idle_node None))]"
  obtain n where n: "trace_run (fresh_node node_env) (node_step node_env) ?tr n"
    using sample_run by auto
  have "\<forall>ev \<in> fst ` set ?tr. typed_event ev" "\<forall>h. Int63n_ok ((\<lambda>_ _. 0) (h :: string))"
    by (simp_all add: typed_event_def good_one_gs typed_msg_def sample_msg_def Int63n_ok_def)
  with cleanup_never_panics [OF n, of "\<lambda>_ _. 0" "hours 2" "[node_hash]"] n show ?thesis
    by blast
qed

text \<open>An accountant that enforces the token bridge of chain 2, and a contract that commits everything.\<close>

definition bridge_acct :: "(byte list \<rightharpoonup> byte list) accountant" where
  "bridge_acct = (NewAccountant Map.empty (make_chan 10) ''wormhole1contract'' True [] (toy_guardian 7) (make_chan 10) MainNet)\<lparr>
     ac_tokenBridges := [(2, replicate 32 5) \<mapsto> True]\<rparr>"

definition transfer_600_key :: TransferKey where
  "transfer_600_key = \<lparr>tk_EmitterChain = 2, tk_EmitterAddress = replicate 32 5, tk_Sequence = 789101112131415\<rparr>"

definition committing :: acct_conn where
  "committing = \<lparr>cn_submit = \<lambda>_ _. Inr (AcctTxResp ''[]'' (Inr [(transfer_600_key, \<lparr>rs_Type = ''committed'', rs_Data = []\<rparr>)])),
     cn_missing = \<lambda>_ _ _. Inr [], cn_status = \<lambda>_ _. Inr []\<rparr>"

lemma transfer_600_id: "MessageIDString (transfer_msg 600) = TransferKey_String transfer_600_key"
  by (simp add: MessageIDString_def TransferKey_String_def transfer_600_key_def transfer_msg_def sample_msg_def Address_String_def
      del: replicate.simps)

lemma bridge_covers: "isMessageCoveredByAccountant (transfer_msg 600) bridge_acct = (True, False, True)"
proof -
  have "IsTransfer (mp_Payload (transfer_msg 600))"
    by (simp add: IsTransfer_def transfer_msg_def put_transfer_hdr_def sample_hdr_def put_def)
  then show ?thesis
    by (simp add: isMessageCoveredByAccountant_def isTokenBridgeTransfer_def bridge_acct_def NewAccountant_def transfer_msg_def sample_msg_def
        del: replicate.simps)
qed

text \<open>The transfer waits in the accountant until the contract commits it; then the processor signs it.\<close>

definition transfer_trace :: "(node_event \<times> (byte list \<rightharpoonup> byte list) guardian_node) list \<Rightarrow> bool" where
  "transfer_trace tr \<longleftrightarrow> map fst tr = [Loop (SetC one_gs), Loop (MsgC (transfer_msg 600)),
     SubmitTurn False 1 DeadlineExceeded (Some committing), FromAcct]"

definition transfer_entry :: acct_entry where
  "transfer_entry = \<lparr>ae_msg = transfer_msg 600, ae_msgId = MessageIDString (transfer_msg 600),
     ae_digest = CreateDigest node_crypto (transfer_msg 600), ae_isNTT = False, ae_enforceFlag = True, ae_updTime = 0,
     ae_submitPending = True\<rparr>"

lemma transfer_entry_fields: "ae_msg transfer_entry = transfer_msg 600" "ae_msgId transfer_entry = MessageIDString (transfer_msg 600)"
  "ae_enforceFlag transfer_entry"
  by (simp_all add: transfer_entry_def)

lemma transfer_submitted:
  "\<exists>s b. SubmitObservation node_crypto (re_json node_env) map_badger 0 (transfer_msg 600) (bridge_acct\<lparr>ac_db := Map.empty\<rparr>) = (Inr False, b) \<and>
     b = put_entry transfer_entry (bridge_acct\<lparr>ac_db := s, ac_subChan := chan_send (transfer_msg 600) (ac_subChan bridge_acct)\<rparr>)"
proof -
  have "isMessageCoveredByAccountant (transfer_msg 600) (bridge_acct\<lparr>ac_db := Map.empty\<rparr>) = (True, False, True)"
    using bridge_covers covered_same [of bridge_acct "bridge_acct\<lparr>ac_db := Map.empty\<rparr>"] by simp
  moreover have "ac_pendingTransfers bridge_acct = Map.empty" "ac_env bridge_acct = MainNet" "ch_Items (ac_subChan bridge_acct) = []"
    "ch_Cap (ac_subChan bridge_acct) = 500"
    by (simp_all add: bridge_acct_def NewAccountant_def make_chan_def acctSubChanSize_def)
  ultimately show ?thesis
    by (intro exI [of _ "[acctPendingTransferMsgID (MessageIDString (transfer_msg 600)) \<mapsto> aj_enc (re_json node_env) (transfer_msg 600)]"])
      (simp add: SubmitObservation_def Let_def addPendingTransferAlreadyLocked_def AcctStorePendingTransfer_def update_err_def
        map_badger_def submitObservation_def submitToChannel_def try_send_def put_entry_def transfer_entry_def)
qed

lemma committing_responses:
  "\<exists>r. SubmitObservationsToContract node_crypto (re_obs_json node_env) node_sign 3 0 (Some committing) contract SubmitObservationPrefix msgs = Inr r \<and>
     GetObservationResponses r = Inr [(MessageIDString (transfer_msg 600), \<lparr>rs_Type = ''committed'', rs_Data = []\<rparr>)]"
proof -
  have log: "\<not> str_contains ''[]'' ''out of gas''" "\<not> str_contains ''[]'' ''failed to execute message''"
    by simp_all
  have "\<exists>d. MessageSigningDigest node_crypto SubmitObservationPrefix [] = Inr d"
    by (simp add: MessageSigningDigest_def SubmitObservationPrefix_def bytes_of_def)
  with log show ?thesis
    by (auto simp: SubmitObservationsToContract_def node_env_def node_sign_def committing_def GetObservationResponses_def transfer_600_id)
qed

lemma transfer_committed:
  assumes "b = put_entry transfer_entry (bridge_acct\<lparr>ac_db := s, ac_subChan := chan_send (transfer_msg 600) (ac_subChan bridge_acct)\<rparr>)"
  shows "\<exists>a. acct_handleBatch node_crypto (re_obs_json node_env) node_sign map_badger 0 False 1 DeadlineExceeded (Some one_gs)
      (Some committing) b = (Inr (), a) \<and> ch_Items (ac_msgChan a) = [transfer_msg 600] \<and> same_emitters bridge_acct a"
proof -
  let ?k = "transfer_msg 600"
  obtain r where r: "SubmitObservationsToContract node_crypto (re_obs_json node_env) node_sign 3 0 (Some committing)
      ''wormhole1contract'' SubmitObservationPrefix [?k] = Inr r"
    "GetObservationResponses r = Inr [(MessageIDString ?k, \<lparr>rs_Type = ''committed'', rs_Data = []\<rparr>)]"
    using committing_responses by blast
  have init: "ac_guardianAddr bridge_acct = toy_guardian 7" "ac_contract bridge_acct = ''wormhole1contract''"
    "ac_msgChan bridge_acct = make_chan 10" "ac_subChan bridge_acct = make_chan 500" "ac_pendingTransfers bridge_acct = Map.empty"
    by (simp_all add: bridge_acct_def NewAccountant_def acctSubChanSize_def)
  have idx: "KeyIndex one_gs (toy_guardian 7) = (0, True)" "gs_Index one_gs = 3"
    by (simp_all add: KeyIndex_def one_gs_def key_map_def)
  let ?b = "b\<lparr>ac_subChan := make_chan 500\<rparr>"
  have b: "ac_pendingTransfers ?b = [MessageIDString ?k \<mapsto> transfer_entry]" "ac_msgChan ?b = make_chan 10"
    "ac_guardianAddr ?b = toy_guardian 7" "ac_contract b = ''wormhole1contract''" "same_emitters bridge_acct ?b"
    by (simp_all add: assms put_entry_def init transfer_entry_fields)
  have read: "ReadFromChannelWithTimeout batchSize 1 DeadlineExceeded (ac_subChan b) = (([?k], Some DeadlineExceeded), make_chan 500)"
    by (simp add: assms put_entry_def init ReadFromChannelWithTimeout_def batchSize_def make_chan_def chan_send_def)
  define a where "a = clearSubmitPendingFlags 0 [?k] (publishTransferAlreadyLocked map_badger transfer_entry ?b)"
  have "submitObservationsToContract node_crypto (re_obs_json node_env) node_sign map_badger 0 [?k] 3 0 (Some committing)
      ''wormhole1contract'' SubmitObservationPrefix ?b = Inr a"
    using r b(1) by (simp add: submitObservationsToContract_def handle_response_def handleCommittedTransfer_def a_def)
  then have "acct_handleBatch node_crypto (re_obs_json node_env) node_sign map_badger 0 False 1 DeadlineExceeded (Some one_gs)
      (Some committing) b = (Inr (), a)"
    using b by (simp add: acct_handleBatch_def read [unfolded One_nat_def] removeCompleted_def idx)
  moreover have "ch_Items (ac_msgChan a) = [?k]" "same_emitters bridge_acct a"
    using b by (simp_all add: a_def publishTransferAlreadyLocked_def deletePendingTransfer_def clearSubmitPendingFlags_def clear_flag_def
        transfer_entry_fields try_send_def make_chan_def same_emitters_def)
  ultimately show ?thesis by blast
qed

lemma transfer_run:
  "\<exists>tr n a s v. trace_run (fresh_node node_env) (node_step node_env) tr n \<and> transfer_trace tr \<and> nd_acct n = Some a \<and>
     enforced (transfer_msg 600) a \<and> p_state (nd_proc n) (hex_encode (SigningDigest node_crypto (CreateVAA 3 (transfer_msg 600)))) = Some s \<and>
     st_ourObservation s = Some v \<and> pv_VAA v = CreateVAA 3 (transfer_msg 600)"
proof -
  let ?k = "transfer_msg 600"
  let ?n0 = "idle_node (Some bridge_acct)"
  let ?n1 = "run_setC one_gs ?n0"
  have init: "ac_pendingTransfers bridge_acct = Map.empty" "ch_Items (ac_msgChan bridge_acct) = []"
    by (simp_all add: bridge_acct_def NewAccountant_def make_chan_def)
  have "acct_inv (\<lambda>_. False) typed_msg bridge_acct"
    using init by (simp add: acct_inv_def)
  then have fresh: "fresh_node node_env ?n0"
    by (intro idle_fresh) simp
  have s0: "node_step node_env (Loop (SetC one_gs)) ?n0 ?n1"
    by (rule node_stepI) (simp add: node_result_def Let_def Run_select_def)
  obtain s b where b: "SubmitObservation node_crypto (re_json node_env) map_badger 0 ?k (bridge_acct\<lparr>ac_db := Map.empty\<rparr>) = (Inr False, b)"
    "b = put_entry transfer_entry (bridge_acct\<lparr>ac_db := s, ac_subChan := chan_send ?k (ac_subChan bridge_acct)\<rparr>)"
    using transfer_submitted by blast
  define n2 where "n2 = ?n1\<lparr>nd_proc := (nd_proc ?n1)\<lparr>p_db := ac_db b\<rparr>, nd_acct := Some b\<rparr>"
  have s1: "node_step node_env (Loop (MsgC ?k)) ?n1 n2"
    using b(1) by (intro node_stepI) (simp add: node_result_def Let_def Run_select_def run_msgC_def governor_gate_def acct_gate_def
        setC_fields idle_fields node_env_fields with_acct_def n2_def)
  obtain a where a: "acct_handleBatch node_crypto (re_obs_json node_env) node_sign map_badger 0 False 1 DeadlineExceeded (Some one_gs)
      (Some committing) b = (Inr (), a)" "ch_Items (ac_msgChan a) = [?k]" "same_emitters bridge_acct a"
    using transfer_committed [OF b(2)] by blast
  define n3 where "n3 = n2\<lparr>nd_proc := (nd_proc n2)\<lparr>p_db := ac_db a\<rparr>, nd_acct := Some a\<rparr>"
  have gst: "Get_current (p_gst (nd_proc n2)) = Some one_gs"
    by (simp add: n2_def setC_fields idle_fields Get_current_def Set_current_def NewGuardianSetState_def)
  have s2: "node_step node_env (SubmitTurn False 1 DeadlineExceeded (Some committing)) n2 n3"
    using a(1) gst by (intro node_stepI) (simp add: node_result_def Let_def acct_step_def node_env_fields with_acct_def n3_def n2_def)
  let ?a = "a\<lparr>ac_msgChan := drain 1 (ac_msgChan a)\<rparr>"
  have proc: "p_gs (nd_proc n3) = Some one_gs" "p_ourAddr (nd_proc n3) = toy_guardian 7" "p_alternatePublisher (nd_proc n3) = None"
    "p_state (nd_proc n3) = Map.empty" "nd_acct n3 = Some a"
    by (simp_all add: n3_def n2_def setC_fields idle_fields)
  have "mp_EmitterChain ?k \<noteq> ChainIDPythNet"
    by (simp add: transfer_msg_def sample_msg_def ChainIDPythNet_def)
  from one_guardian_quorum [OF proc(1-4) this, of 0] obtain p' st v where
    p': "handleMessage node_crypto node_sign (\<lambda>_. 0) 0 ?k (nd_proc n3) = Inr p'"
    "p_state p' (hex_encode (SigningDigest node_crypto (CreateVAA 3 ?k))) = Some st" "st_ourObservation st = Some v"
    "pv_VAA v = CreateVAA 3 ?k"
    by blast
  have cov: "isMessageCoveredByAccountant ?k ?a = (True, False, True)"
    using bridge_covers covered_same [of bridge_acct ?a] a(3) by simp
  let ?n4 = "n3\<lparr>nd_acct := Some ?a, nd_proc := p'\<rparr>"
  have s3: "node_step node_env FromAcct n3 ?n4"
    using p'(1) cov by (intro node_stepI) (simp add: node_result_def Let_def from_acct_def proc a(2) Run_select_def run_acctReadC_def
        IsMessageCoveredByAccountant_def sign_message_def lift_proc_def node_env_fields)
  have "trace_run (fresh_node node_env) (node_step node_env) (((([] @ [(Loop (SetC one_gs), ?n0)]) @ [(Loop (MsgC ?k), ?n1)]) @
      [(SubmitTurn False 1 DeadlineExceeded (Some committing), n2)]) @ [(FromAcct, n3)]) ?n4"
    by (intro trace_run.step trace_run.start fresh s0 s1 s2 s3)
  moreover have "enforced ?k ?a"
    using cov by (auto simp: enforced_def)
  moreover have "transfer_trace (((([] @ [(Loop (SetC one_gs), ?n0)]) @ [(Loop (MsgC ?k), ?n1)]) @
      [(SubmitTurn False 1 DeadlineExceeded (Some committing), n2)]) @ [(FromAcct, n3)])"
    by (simp add: transfer_trace_def)
  ultimately show ?thesis
    using p'(2-4) by (intro exI [of _ "(((([] @ [(Loop (SetC one_gs), ?n0)]) @ [(Loop (MsgC ?k), ?n1)]) @
      [(SubmitTurn False 1 DeadlineExceeded (Some committing), n2)]) @ [(FromAcct, n3)])"] exI [of _ ?n4] exI [of _ ?a] exI [of _ st] exI [of _ v])
      simp
qed

theorem enforced_signed_after_commit_witness:
  "\<exists>tr n. trace_run (fresh_node node_env) (node_step node_env) tr n \<and> transfer_trace tr \<and>
     CreateVAA 3 (transfer_msg 600) \<in> own_vaas (nd_proc n) \<and>
     (\<exists>ev \<in> fst ` set tr. MessageIDString (transfer_msg 600) \<in> contract_reports node_env ev)"
proof -
  obtain tr n a s v where n: "trace_run (fresh_node node_env) (node_step node_env) tr n" "transfer_trace tr" "nd_acct n = Some a"
    "enforced (transfer_msg 600) a"
    "p_state (nd_proc n) (hex_encode (SigningDigest node_crypto (CreateVAA 3 (transfer_msg 600)))) = Some s"
    "st_ourObservation s = Some v" "pv_VAA v = CreateVAA 3 (transfer_msg 600)"
    using transfer_run by blast
  have "fst ` set tr = set (map fst tr)" by simp
  also have "\<dots> = {Loop (SetC one_gs), Loop (MsgC (transfer_msg 600)), SubmitTurn False 1 DeadlineExceeded (Some committing), FromAcct}"
    using n(2) unfolding transfer_trace_def by simp
  finally have "\<forall>ev \<in> fst ` set tr. typed_event ev"
    by (simp add: typed_event_def good_one_gs typed_msg_def transfer_msg_def sample_msg_def)
  from enforced_signed_after_commit [OF n(1) this n(3,5,6,7,4)] n own_vaasI [OF n(5,6)] show ?thesis
    by auto
qed

section \<open>The guardian set index of a VAA\<close>

text \<open>
  The index is not part of what is signed and Verify does not look at it: a VAA from the network is
  stored with whatever index it names, and is then taken for the VAA of its message.
\<close>

lemma inbound_any_index:
  assumes "VAA_Unmarshal m = Inr (v\<lparr>vaa_GuardianSetIndex := i\<rparr>)" and "\<not> haveSignedVAA B (VaaIDFromVAA v) p"
    and "p_gs p = Some gs" and "gs_Keys gs \<noteq> []" and "VAA_Verify c v (Some (gs_Keys gs)) = Inr ()"
  shows "handleInboundSignedVAAWithQuorum c B now m p = storeSignedVAA now (v\<lparr>vaa_GuardianSetIndex := i\<rparr>) p \<and>
    haveSignedVAA B (VaaIDFromVAA v) (storeSignedVAA now (v\<lparr>vaa_GuardianSetIndex := i\<rparr>) p)"
proof -
  have "VAA_Verify c (v\<lparr>vaa_GuardianSetIndex := i\<rparr>) (Some (gs_Keys gs)) = Inr ()"
    using assms(5) Verify_same [of c "v\<lparr>vaa_GuardianSetIndex := i\<rparr>" v] by simp
  moreover have i: "VaaIDFromVAA (v\<lparr>vaa_GuardianSetIndex := i\<rparr>) = VaaIDFromVAA v"
    by (simp add: VaaIDFromVAA_def)
  moreover have "haveSignedVAA B (VaaIDFromVAA v) (storeSignedVAA now (v\<lparr>vaa_GuardianSetIndex := i\<rparr>) p)"
    unfolding i [symmetric] by (auto simp: haveSignedVAA_def storeSignedVAA_def VaaIDFromVAA_def getVaaFromUpdateMap_def)
  ultimately show ?thesis
    using assms(1-4) by (simp add: handleInboundSignedVAAWithQuorum_def)
qed

end
