(* ===== verification/GovConfig.thy ===== *)
theory GovConfig imports Governor GatewayRelayer begin

text \<open>
  The configuration of the chain governor: node/pkg/governor/mainnet_chains.go, manual_tokens.go,
  flow_cancel_tokens.go, flow_cancel_corridors.go, devnet_config.go and testnet_config.go. The tables in
  source order, each ChainID constant replaced by its number. The generated list of mainnet tokens
  (generated_mainnet_tokens.go) is an argument of tokenList.
\<close>

section \<open>Entries\<close>

text \<open>
  A float64 literal n / 10^k, rounded as the Go compiler rounds it: to nearest even at 53 bits. The
  quotient is taken with more than 54 bits and a last bit that is set when it is not exact.
\<close>

definition float64 :: "nat \<Rightarrow> nat \<Rightarrow> BigFloat" where
  "float64 n k =
     (let s = 53 + bit_len (10 ^ k); x = n * 2 ^ s; q = x div 10 ^ k; sticky = (if x mod 10 ^ k = 0 then 0 else 1)
      in case round_even 53 (2 * q + sticky) of (m, d) \<Rightarrow>
        \<lparr>bf_mant = int m, bf_exp = int d - int (Suc s), bf_prec = 53\<rparr>)"

record tokenConfigEntry =
  tc_chain :: "16 word"
  tc_addr :: string
  tc_symbol :: string
  tc_coinGeckoId :: string
  tc_decimals :: int
  tc_price :: BigFloat

record chainConfigEntry =
  cc_emitterChainID :: ChainID
  cc_dailyLimit :: "64 word"
  cc_bigTransactionSize :: "64 word"

text \<open>A row of a table: the price is a number and its count of decimal places.\<close>

definition token_row :: "16 word \<times> string \<times> string \<times> string \<times> int \<times> nat \<times> nat \<Rightarrow> tokenConfigEntry" where
  "token_row = (\<lambda>(chain, addr, symbol, coinGeckoId, decimals, n, k).
     \<lparr>tc_chain = chain, tc_addr = addr, tc_symbol = symbol, tc_coinGeckoId = coinGeckoId, tc_decimals = decimals,
      tc_price = float64 n k\<rparr>)"

definition chain_row :: "ChainID \<times> 64 word \<times> 64 word \<Rightarrow> chainConfigEntry" where
  "chain_row = (\<lambda>(chain, limit, big). \<lparr>cc_emitterChainID = chain, cc_dailyLimit = limit, cc_bigTransactionSize = big\<rparr>)"

section \<open>Tables\<close>

definition chainList :: "chainConfigEntry list" where
  "chainList = map chain_row [
   (1, 50000000, 2500000),
   (2, 100000000, 5000000),
   (3, 150000, 15000),
   (4, 5000000, 500000),
   (5, 5000000, 500000),
   (6, 5000000, 500000),
   (7, 250000, 25000),
   (8, 750000, 75000),
   (9, 0, 0),
   (10, 500000, 50000),
   (11, 150000, 15000),
   (12, 100000, 10000),
   (13, 500000, 50000),
   (14, 1000000, 100000),
   (15, 150000, 15000),
   (16, 5000000, 500000),
   (18, 100000, 10000),
   (19, 150000, 15000),
   (21, 10000000, 500000),
   (22, 1000000, 100000),
   (23, 5000000, 500000),
   (24, 5000000, 500000),
   (28, 50000, 5000),
   (30, 5000000, 500000),
   (32, 150000, 15000),
   (34, 500000, 50000),
   (35, 100000, 10000),
   (36, 0, 0),
   (37, 0, 0),
   (39, 500000, 50000),
   (40, 500000, 50000),
   (3104, 500000, 50000),
   (43, 500000, 50000),
   (44, 500000, 50000),
   (45, 500000, 50000),
   (46, 500000, 50000),
   (50, 500000, 50000)]"

definition manualTokenList :: "tokenConfigEntry list" where
  "manualTokenList = map token_row [
   (2, ''0000000000000000000000006c3ea9036406852006290770bedfcaba0e23a0e8'', ''PYUSD'', ''paypal-usd'', 6, 100, 2),
   (2, ''00000000000000000000000085f17cf997934a597031b2e18a9ab6ebd4b9f6a4'', ''NEAR'', ''near'', 24, 434, 2),
   (8, ''000000000000000000000000000000000000000000000000000000000004c5c1'', ''USDt'', ''tether'', 6, 1002, 3),
   (12, ''0000000000000000000000000000000000000000000100000000000000000002'', ''DOT'', ''polkadot'', 10, 648, 2),
   (12, ''0000000000000000000000000000000000000000000100000000000000000000'', ''ACA'', ''acala'', 12, 5694, 5),
   (13, ''0000000000000000000000005fff3a6c16c2208103f318f4713d4d90601a7313'', ''KLEVA'', ''kleva'', 18, 86661, 6),
   (13, ''0000000000000000000000005096db80b21ef45230c9e423c373f1fc9c0198dd'', ''WEMIX'', ''wemix-token'', 18, 174, 2),
   (15, ''0000000000000000000000000000000000000000000000000000000000000000'', ''NEAR'', ''near'', 24, 434, 2),
   (32, ''01881043998ff2b738519d444d2dd0da3da4545de08290c1076746538d5333df'', ''SEI'', ''sei-network'', 6, 3, 1),
   (36, ''0000000000000000000000004300000000000000000000000000000000000003'', ''USDB'', ''usdb'', 18, 100, 2),
   (36, ''0000000000000000000000004300000000000000000000000000000000000004'', ''WETH'', ''weth'', 18, 315742, 2),
   (36, ''0000000000000000000000002416092f143378750bb29b79ed961ab195cceea5'', ''EZETH'', ''renzo-restaked-eth'', 18, 309232, 2),
   (36, ''0000000000000000000000004fee793d435c6d2c10c135983bb9d6d4fc7b9bbd'', ''USD+'', ''usd'', 18, 100, 2),
   (36, ''000000000000000000000000818a92bc81aad0053d72ba753fb5bc3d0c5c0923'', ''JUICE'', ''juice-finance'', 18, 1051, 4),
   (36, ''0000000000000000000000009e20461bc2c4c980f62f1b279d71734207a6a356'', ''OMNI'', ''omnicat'', 18, 4575, 7),
   (36, ''000000000000000000000000764933fbad8f5d04ccd088602096655c2ed9879f'', ''AI'', ''any-inu'', 18, 2742, 8),
   (36, ''0000000000000000000000005ffd9ebd27f2fcab044c0f0a26a45cb62fa29c06'', ''PAC'', ''pacmoon'', 18, 5459, 5),
   (36, ''00000000000000000000000020fe91f17ec9080e3cac2d688b4ecb48c5ac3a9c'', ''YES'', ''yes-money'', 18, 396, 2),
   (36, ''00000000000000000000000076da31d7c9cbeae102aff34d3398bc450c8374c1'', ''MIM'', ''magic-internet-money'', 18, 9935, 4),
   (36, ''00000000000000000000000015d24de366f69b835be19f7cf9447e770315dd80'', ''KAP'', ''kapital-dao'', 18, 1143, 4),
   (36, ''000000000000000000000000b9dfcd4cf589bb8090569cb52fac1b88dbe4981f'', ''BAG'', ''bag'', 18, 2972, 6),
   (36, ''00000000000000000000000068449870eea84453044bd430822827e21fd8f101'', ''ZAI'', ''zaibot'', 18, 2348, 4),
   (36, ''00000000000000000000000047c337bd5b9344a6f3d6f58c474d9d8cd419d8ca'', ''DACKIE'', ''dackieswap'', 18, 6554, 6),
   (36, ''000000000000000000000000d43d8adac6a4c7d9aeece7c3151fca8f23752cf8'', ''ANDY'', ''andyerc'', 9, 1165, 4),
   (36, ''00000000000000000000000087e154e86fb691ab8a27116e93ed8d54e2b8c18c'', ''TES'', ''titan-trading-token'', 18, 867, 3),
   (36, ''000000000000000000000000870a8f46b62b8bdeda4c02530c1750cddf2ed32e'', ''USDC+'', ''usdc-plus-overnight'', 18, 100, 2),
   (36, ''00000000000000000000000042e12d42b3d6c4a74a88a61063856756ea2db357'', ''ORBIT'', ''orbit-protocol'', 18, 3074, 4),
   (34, ''0000000000000000000000005300000000000000000000000000000000000004'', ''WETH'', ''bridged-wrapped-ether-scroll'', 18, 190544, 2),
   (34, ''0000000000000000000000000018d96c579121a94307249d47f053e2d687b5e7'', ''MVX'', ''metavault-trade'', 18, 206, 2),
   (34, ''00000000000000000000000047c337bd5b9344a6f3d6f58c474d9d8cd419d8ca'', ''DACKIE'', ''dackieswap'', 18, 655, 5),
   (34, ''000000000000000000000000f55bec9cafdbe8730f096aa55dad6d22d44099df'', ''USDT'', ''bridged-tether-scroll'', 6, 100, 2),
   (34, ''00000000000000000000000006efdbff2a14a7c8e15944d1f4a48f9f95f663a4'', ''USDC'', ''bridged-usd-coin-scroll'', 6, 100, 2),
   (34, ''000000000000000000000000eb466342c4d449bc9f53a865d5cb90586f405215'', ''AXLUSDC'', ''bridged-axelar-wrapped-usd-coin-scroll'', 6, 101, 2),
   (34, ''0000000000000000000000003c1bca5a656e69edcd0d4e36bebb3fcdaca60cf1'', ''WBTC'', ''bridged-wrapped-bitcoin-scroll'', 8, 6441517, 2),
   (34, ''00000000000000000000000060d01ec2d5e98ac51c8b4cf84dfcce98d527c747'', ''IZI'', ''izumi-finance'', 18, 142, 4),
   (34, ''0000000000000000000000000a3bb08b3a15a19b4de82f8acfc862606fb69a2d'', ''IUSD'', ''izumi-bond-usd'', 18, 9195, 4),
   (34, ''000000000000000000000000f610a9dfb7c89644979b4a0f27063e9e7d7cda32'', ''WSTETH'', ''bridged-wrapped-lido-staked-ether-scroll'', 18, 365928, 2),
   (34, ''000000000000000000000000cA77eB3fEFe3725Dc33bccB54eDEFc3D9f764f97'', ''DAI'', ''dai'', 18, 100, 2),
   (34, ''00000000000000000000000053878B874283351D26d206FA512aEcE1Bef6C0dD'', ''RETH'', ''rocket-pool-eth'', 18, 347555, 2),
   (37, ''0000000000000000000000001e4a5963abfd975d8c9021ce480b42188849d41d'', ''USDT'', ''polygon-hermez-bridged-usdt-x-layer'', 6, 9969, 4),
   (37, ''000000000000000000000000e538905cf8410324e03a5a23c1c177a474d59b2b'', ''WOKB'', ''wrapped-okb'', 18, 4876, 2),
   (37, ''0000000000000000000000005a77f1443d16ee5761d310e38b62f77f726bc71c'', ''WETH'', ''weth'', 18, 299460, 2),
   (37, ''00000000000000000000000074b7f16337b8972027f6196a17a631ac6de26d22'', ''USDC'', ''polygon-hermez-bridged-usdc-x-layer'', 6, 9949, 4),
   (37, ''000000000000000000000000ea034fb02eb1808c2cc3adbc15f447b93cbe08e1'', ''WBTC'', ''polygon-hermez-bridged-wbtc-x-layer'', 8, 57029, 0),
   (37, ''000000000000000000000000c5015b9d9161dca7e18e32f6f25c4ad850731fd4'', ''DAI'', ''polygon-hermez-bridged-dai-x-layer'', 18, 10006, 4),
   (35, ''000000000000000000000000deaddeaddeaddeaddeaddeaddeaddeaddead0000'', ''MNT'', ''mantle'', 18, 101, 2),
   (35, ''00000000000000000000000078c1b0c915c4faa5fffa6cabf0219da63d7f4cb8'', ''WMNT'', ''wrapped-mantle'', 18, 101, 2),
   (35, ''00000000000000000000000009bc4e0d864854c6afb6eb9a9cdf58ac190d0df9'', ''USDC'', ''mantle-bridged-usdc-mantle'', 6, 1, 0),
   (35, ''000000000000000000000000201EBa5CC46D216Ce6DC03F6a759e8E766e956aE'', ''USDT'', ''mantle-bridged-usdt-mantle'', 6, 9973, 4),
   (35, ''000000000000000000000000cDA86A272531e8640cD7F1a92c01839911B90bb0'', ''METH'', ''mantle-staked-ether'', 18, 393406, 2),
   (35, ''000000000000000000000000deaddeaddeaddeaddeaddeaddeaddeaddead1111'', ''WETH'', ''wrapped-ether-mantle-bridge'', 18, 382565, 2),
   (35, ''000000000000000000000000371c7ec6d8039ff7933a2aa28eb827ffe1f52f07'', ''JOE'', ''joe'', 18, 4911, 4),
   (39, ''0000000000000000000000006969696969696969696969696969696969696969'', ''WBERA'', ''wrapped-bera'', 18, 662, 2),
   (39, ''000000000000000000000000fcbd14dc51f0a4d49d5e53c2e0950e0bc26d0dce'', ''HONEY'', ''honey-3'', 18, 9985, 4),
   (39, ''0000000000000000000000006fc6545d5cde268d5c7f1e476d444f39c995120d'', ''BERAETH'', ''berachain-staked-eth'', 18, 271326, 2),
   (39, ''00000000000000000000000036e9fe653e673fda3857dbe5afbc884af8a316a2'', ''BERAFI'', ''berafi'', 18, 117, 5),
   (40, ''0000000000000000000000009151434b16b9763660705744891fA906F660EcC5'', ''USDT0'', ''usdt0'', 6, 100, 2),
   (40, ''000000000000000000000000e30fedd158a2e3b13e9badaeabafc5516e95e8c7'', ''WSEI'', ''wrapped-sei'', 18, 2236, 4),
   (40, ''0000000000000000000000003894085ef7ff0f0aedf52e2a2704928d1ec074f1'', ''USDC'', ''ibc-bridged-usdc'', 6, 100, 2),
   (40, ''000000000000000000000000541fd749419ca806a8bc7da8ac23d346f2df8b77'', ''SOLVBTC'', ''solv-btc'', 18, 106222, 0),
   (40, ''000000000000000000000000cc0966d8418d412c599a6421b760a847eb169a8c'', ''XSOLVBTC'', ''solv-protocol-solvbtc-bbn'', 18, 105810, 0),
   (44, ''000000000000000000000000078D782b760474a361dDA0AF3839290b0EF57AD6'', ''USDC'', ''usd-coin'', 6, 100, 2),
   (44, ''0000000000000000000000004200000000000000000000000000000000000006'', ''WETH'', ''unichain-bridged-weth-unichain'', 18, 272224, 2),
   (44, ''0000000000000000000000008f187aA05619a017077f5308904739877ce9eA21'', ''UNI'', ''uniswap'', 18, 943, 2),
   (44, ''00000000000000000000000020CAb320A855b39F724131C69424240519573f81'', ''DAI'', ''dai'', 18, 10, 1),
   (45, ''0000000000000000000000002cFc85d8E48F8EAB294be644d9E25C3030863003'', ''WLD'', ''worldcoin-wld'', 18, 247, 2),
   (45, ''00000000000000000000000003C7054BCB39f7b2e5B2c7AcB37583e32D70Cfa3'', ''WBTC'', ''bridged-wrapped-bitcoin-worldchain'', 8, 8668384, 2),
   (45, ''0000000000000000000000004200000000000000000000000000000000000006'', ''WETH'', ''wrapped-eth-world-chain'', 18, 331113, 2),
   (45, ''00000000000000000000000079A02482A880bCE3F13e09Da970dC34db4CD24d1'', ''USDC.e'', ''bridged-usdc-world-chain'', 6, 100, 2),
   (46, ''0000000000000000000000000200c29006150606b650577bbe7b6248f58470c1'', ''USDT0'', ''usdt0'', 6, 100, 2),
   (46, ''000000000000000000000000f1815bd50389c46847f0bda824ec8da914045d14'', ''USDC.E'', ''stargate-bridged-usdc-ink'', 6, 100, 2),
   (46, ''000000000000000000000000ae4efbc7736f963982aacb17efa37fcbab924cb3'', ''SOLVBTC'', ''solv-btc'', 18, 106222, 0),
   (46, ''000000000000000000000000c99f5c922dae05b6e2ff83463ce705ef7c91f077'', ''XSOLVBTC'', ''solv-protocol-solvbtc-bbn'', 18, 105810, 0)]"

definition tokenList :: "tokenConfigEntry list \<Rightarrow> tokenConfigEntry list" where
  "tokenList generatedMainnetTokenList = manualTokenList @ generatedMainnetTokenList"

definition FlowCancelTokenList :: "tokenConfigEntry list" where
  "FlowCancelTokenList = map token_row [
   (1, ''c6fa7af3bedbad3a3d65f36aabc97431b1bbe4c2d2f6e0e47ca60203452f5d61'', ''USDC'', '''', 0, 0, 0),
   (2, ''000000000000000000000000a0b86991c6218b36c1d19d4a2e9eb0ce3606eb48'', ''USDC'', '''', 0, 0, 0),
   (1, ''ce010e60afedb22717bd63192f54145a3f965a33bb82d2c7029eb2ce1e208264'', ''USDT'', '''', 0, 0, 0),
   (2, ''000000000000000000000000dac17f958d2ee523a2206206994597c13d831ec7'', ''USDT'', '''', 0, 0, 0),
   (2, ''0000000000000000000000006b175474e89094c44da98b954eedeac495271d0f'', ''DAI'', '''', 0, 0, 0)]"

definition FlowCancelCorridors :: "corridor list" where
  "FlowCancelCorridors = [\<lparr>co_first = 2, co_second = 21\<rparr>]"

text \<open>The length of the day, the tokens, the tokens and corridors that cancel flows, and the chains.\<close>

type_synonym gov_config = "tokenConfigEntry list \<times> tokenConfigEntry list \<times> chainConfigEntry list \<times> corridor list"

definition initDevnetConfig :: "bool \<Rightarrow> int \<times> gov_config" where
  "initDevnetConfig flowCancelEnabled = (5,
     map token_row [
   (1, ''069b8857feab8184fb687f634618c035dac439dc1aeb3b5598a0f00000000001'', ''SOL'', ''wrapped-solana'', 9, 13811, 2),
   (1, ''3b442cb3912157f13a933d0134282d032b5ffecd01a2dbf1b7790608df002ea7'', ''USDC'', ''usd-coin'', 6, 1001, 3),
   (2, ''000000000000000000000000DDb64fE46a91D46ee29420539FC25FD07c5FEa3E'', ''WETH'', ''weth'', 8, 1174, 0)],
     if flowCancelEnabled then map token_row [
   (1, ''3b442cb3912157f13a933d0134282d032b5ffecd01a2dbf1b7790608df002ea7'', ''USDC'', ''usd-coin'', 6, 1001, 3)] else [],
     map chain_row [
   (1, 100, 75),
   (2, 100000, 0)],
     [])"

definition initTestnetConfig :: "bool \<Rightarrow> gov_config" where
  "initTestnetConfig flowCancelEnabled = (
     map token_row [
   (1, ''069b8857feab8184fb687f634618c035dac439dc1aeb3b5598a0f00000000001'', ''SOL'', ''wrapped-solana'', 9, 13811, 2),
   (1, ''3b442cb3912157f13a933d0134282d032b5ffecd01a2dbf1b7790608df002ea7'', ''USDC'', ''usd-coin'', 6, 1001, 3)],
     if flowCancelEnabled then map token_row [
   (1, ''3b442cb3912157f13a933d0134282d032b5ffecd01a2dbf1b7790608df002ea7'', ''USDC'', ''usd-coin'', 6, 1001, 3)] else [],
     map chain_row [
   (1, 100000000, 0),
   (2, 100000000, 0),
   (10, 1000000, 0)],
     if flowCancelEnabled then [\<lparr>co_first = 2, co_second = 21\<rparr>] else [])"

end
