(* ===== verification/GovPrices.thy ===== *)
theory GovPrices imports GovConfig begin

text \<open>
  The prices of the chain governor: initConfig and Run of node/pkg/governor/governor.go and
  governor_prices.go.

  Prices are big.Float objects that the code shares by their pointers and overwrites in place, so they
  are kept in an explicit store: gp_cells holds the floats and gp_entries the tokenEntry objects, and an
  address is an index. The CoinGecko price of an entry is a new object each time and never written, so
  it is kept as a value. The map tokens of the governor model (gov_tokens) is what can be read off the
  store. The answers of the web server and the encoding of URLs are arguments.
\<close>

section \<open>Floats\<close>

text \<open>\<open>x.Cmp(y) < 0\<close> and \<open>z.Set(x)\<close>.\<close>

definition bf_less :: "BigFloat \<Rightarrow> BigFloat \<Rightarrow> bool" where
  "bf_less x y \<longleftrightarrow> (let e = min (bf_exp x) (bf_exp y) in
     bf_mant x * 2 ^ nat (bf_exp x - e) < bf_mant y * 2 ^ nat (bf_exp y - e))"

definition bf_Set :: "BigFloat \<Rightarrow> BigFloat \<Rightarrow> BigFloat" where
  "bf_Set z x =
     (if bf_prec z = 0 then x
      else if bf_prec z < bf_prec x then
        (case round_even (bf_prec z) (nat \<bar>bf_mant x\<bar>) of (q, k) \<Rightarrow>
          \<lparr>bf_mant = sgn (bf_mant x) * int q, bf_exp = bf_exp x + int k, bf_prec = bf_prec z\<rparr>)
      else x\<lparr>bf_prec := bf_prec z\<rparr>)"

section \<open>Store\<close>

record monitored =
  mt_price :: nat
  mt_decimals :: int
  mt_symbol :: string
  mt_coinGeckoId :: string
  mt_token :: tokenKey
  mt_cfgPrice :: nat
  mt_coinGeckoPrice :: "BigFloat option"
  mt_priceTime :: time
  mt_flowCancels :: bool

record gov_prices =
  gp_cells :: "BigFloat list"
  gp_entries :: "monitored list"
  gp_tokens :: "tokenKey \<rightharpoonup> nat"
  gp_tokensByCoinGeckoId :: "string \<rightharpoonup> nat list"
  gp_coinGeckoQueries :: "string list"

definition no_prices :: gov_prices where
  "no_prices = \<lparr>gp_cells = [], gp_entries = [], gp_tokens = Map.empty, gp_tokensByCoinGeckoId = Map.empty,
     gp_coinGeckoQueries = []\<rparr>"

definition token_entry :: "gov_prices \<Rightarrow> nat \<Rightarrow> tokenEntry" where
  "token_entry P i = (let m = gp_entries P ! i in
     \<lparr>te_price = gp_cells P ! mt_price m, te_decimals = mt_decimals m, te_symbol = mt_symbol m,
      te_coinGeckoId = mt_coinGeckoId m, te_token = mt_token m, te_flowCancels = mt_flowCancels m\<rparr>)"

definition governor_tokens :: "gov_prices \<Rightarrow> tokenKey \<rightharpoonup> tokenEntry" where
  "governor_tokens P k = map_option (token_entry P) (gp_tokens P k)"

definition put_token :: "nat \<Rightarrow> monitored \<Rightarrow> gov_prices \<Rightarrow> gov_prices" where
  "put_token i m P = P\<lparr>gp_entries := (gp_entries P)[i := m]\<rparr>"

definition set_cell :: "nat \<Rightarrow> BigFloat \<Rightarrow> gov_prices \<Rightarrow> gov_prices" where
  "set_cell a x P = P\<lparr>gp_cells := (gp_cells P)[a := bf_Set (gp_cells P ! a) x]\<rparr>"

definition updatePrice :: "monitored \<Rightarrow> gov_prices \<Rightarrow> gov_prices" where
  "updatePrice te P =
     (let cfg = gp_cells P ! mt_cfgPrice te in
      case mt_coinGeckoPrice te of
        None \<Rightarrow> set_cell (mt_price te) cfg P
      | Some cg \<Rightarrow> if bf_less cg cfg then set_cell (mt_price te) cfg P else set_cell (mt_price te) cg P)"

section \<open>Configuration\<close>

text \<open>
  math.Pow(10, dec) for at most 8 decimals is an exact power of ten, or a fraction that Int cuts to 0. An
  entry of the table gets two new floats, its configured price and its current price.
\<close>

definition add_token :: "tokenConfigEntry \<Rightarrow> gov_prices \<Rightarrow> go_error + gov_prices" where
  "add_token ct P =
     (case StringToAddress (tc_addr ct) of
        Inl _ \<Rightarrow> Inl (Errorf ''invalid address'')
      | Inr addr \<Rightarrow>
          let a = length (gp_cells P); i = length (gp_entries P);
              dec = min (tc_decimals ct) 8;
              decimals = (if dec < 0 then 0 else 10 ^ nat dec);
              symbol = (if tc_symbol ct = [] then dec_string (unat (tc_chain ct)) @ CHR '':'' # tc_addr ct else tc_symbol ct);
              key = \<lparr>tk_chain = tc_chain ct, tk_addr = addr\<rparr>;
              te = \<lparr>mt_price = Suc a, mt_decimals = decimals, mt_symbol = symbol, mt_coinGeckoId = tc_coinGeckoId ct,
                    mt_token = key, mt_cfgPrice = a, mt_coinGeckoPrice = None, mt_priceTime = 0, mt_flowCancels = False\<rparr>;
              P = updatePrice te (P\<lparr>gp_cells := gp_cells P @ [tc_price ct, tc_price ct], gp_entries := gp_entries P @ [te]\<rparr>);
              cge = (case gp_tokensByCoinGeckoId P (tc_coinGeckoId ct) of None \<Rightarrow> [i] | Some cge \<Rightarrow> cge @ [i])
          in Inr (P\<lparr>gp_tokens := (gp_tokens P)(key \<mapsto> i),
                    gp_tokensByCoinGeckoId := (gp_tokensByCoinGeckoId P)(tc_coinGeckoId ct \<mapsto> cge)\<rparr>))"

fun add_tokens :: "tokenConfigEntry list \<Rightarrow> gov_prices \<Rightarrow> go_error + gov_prices" where
  "add_tokens [] P = Inr P"
| "add_tokens (ct # cts) P = chk (add_token ct P) (add_tokens cts)"

text \<open>A token that is not governed is only logged.\<close>

fun enable_flow_cancel :: "tokenConfigEntry list \<Rightarrow> gov_prices \<Rightarrow> go_error + gov_prices" where
  "enable_flow_cancel [] P = Inr P"
| "enable_flow_cancel (fc # fcs) P =
     chk (StringToAddress (tc_addr fc)) (\<lambda>addr.
       enable_flow_cancel fcs (case gp_tokens P \<lparr>tk_chain = tc_chain fc, tk_addr = addr\<rparr> of
         None \<Rightarrow> P | Some i \<Rightarrow> put_token i ((gp_entries P ! i)\<lparr>mt_flowCancels := True\<rparr>) P))"

fun add_chains :: "(ChainID \<times> byte list) list \<Rightarrow> chainConfigEntry list \<Rightarrow> (ChainID \<rightharpoonup> chainEntry) \<Rightarrow>
    go_error + (ChainID \<rightharpoonup> chainEntry)" where
  "add_chains emitterMap [] entries = Inr entries"
| "add_chains emitterMap (cc # ccs) entries =
     (case map_of emitterMap (cc_emitterChainID cc) of
        None \<Rightarrow> Inl (Errorf ''failed to look up token bridge emitter address for chain'')
      | Some b \<Rightarrow>
          (case BytesToAddress b of
             Inl _ \<Rightarrow> Inl (Errorf ''failed to convert emitter address for chain'')
           | Inr emitterAddr \<Rightarrow> add_chains emitterMap ccs (entries(cc_emitterChainID cc \<mapsto>
               \<lparr>ce_emitterChainId = cc_emitterChainID cc, ce_emitterAddr = emitterAddr, ce_dailyLimit = cc_dailyLimit cc,
                ce_bigTransactionSize = cc_bigTransactionSize cc,
                ce_checkForBigTransactions = (cc_bigTransactionSize cc \<noteq> 0), ce_transfers = [], ce_pending = []\<rparr>))))"

definition NewChainGovernor :: "'s \<Rightarrow> bool \<Rightarrow> 's ChainGovernor" where
  "NewChainGovernor db flowCancelEnabled =
     \<lparr>gov_db = db, gov_tokens = Map.empty, gov_chains = Map.empty, gov_chainIds = [], gov_msgsSeen = Map.empty,
      gov_msgsToPublish = [], gov_dayLengthInMinutes = 0, gov_flowCancelEnabled = flowCancelEnabled,
      gov_flowCancelCorridors = []\<rparr>"

text \<open>The length of the day and the tables for an environment.\<close>

definition config_for :: "tokenConfigEntry list \<Rightarrow> Environment \<Rightarrow> bool \<Rightarrow> int \<times> gov_config" where
  "config_for generated env flowCancelEnabled =
     (case env of
        UnsafeDevNet \<Rightarrow> initDevnetConfig flowCancelEnabled
      | TestNet \<Rightarrow> (24 * 60, initTestnetConfig flowCancelEnabled)
      | _ \<Rightarrow> (24 * 60, tokenList generated, if flowCancelEnabled then FlowCancelTokenList else [], chainList,
               if flowCancelEnabled then FlowCancelCorridors else []))"

definition governor_emitters :: "Environment \<Rightarrow> go_error + (ChainID \<times> byte list) list" where
  "governor_emitters env = (case env of
     TestNet \<Rightarrow> KnownTestnetTokenbridgeEmitters
   | UnsafeDevNet \<Rightarrow> KnownDevnetTokenbridgeEmitters
   | _ \<Rightarrow> KnownTokenbridgeEmitters)"

text \<open>
  It runs once, on a new governor without chains. An error ends the start of the node, so the state it
  leaves is not kept.
\<close>

definition initConfig :: "tokenConfigEntry list \<Rightarrow> Environment \<Rightarrow> gov_prices \<times> 's ChainGovernor \<Rightarrow>
    go_error + gov_prices \<times> 's ChainGovernor" where
  "initConfig generated env st = (case st of (P, g) \<Rightarrow>
     (case config_for generated env (gov_flowCancelEnabled g) of (day, configTokens, flowCancelTokens, configChains, corridors) \<Rightarrow>
       let g = g\<lparr>gov_dayLengthInMinutes := day,
                 gov_flowCancelCorridors := (if gov_flowCancelEnabled g then corridors else gov_flowCancelCorridors g)\<rparr>
       in chk (add_tokens configTokens P) (\<lambda>P.
          chk (if gov_flowCancelEnabled g then enable_flow_cancel flowCancelTokens P else Inr P) (\<lambda>P.
          chk (guard_err (gp_tokens P = Map.empty) (Errorf ''no tokens are configured'')) (\<lambda>_.
          chk (governor_emitters env) (\<lambda>emitterMap.
          chk (add_chains emitterMap configChains (gov_chains g)) (\<lambda>entries.
          chk (guard_err (entries = Map.empty) (Errorf ''no chains are configured'')) (\<lambda>_.
          Inr (P, g\<lparr>gov_tokens := governor_tokens P, gov_chains := entries,
                    gov_chainIds := sort (remdups (map cc_emitterChainID configChains))\<rparr>)))))))))"

section \<open>Queries\<close>

definition tokensPerCoinGeckoQuery :: nat where "tokensPerCoinGeckoQuery = 200"

text \<open>encode is \<open>url.Values.Encode\<close>.\<close>

definition createCoinGeckoQuery :: "((string \<times> string) list \<Rightarrow> string) \<Rightarrow> string \<Rightarrow> string \<Rightarrow> string" where
  "createCoinGeckoQuery encode ids coinGeckoApiKey =
     (let params = [(''ids'', ids), (''vs_currencies'', ''usd'')] in
      if coinGeckoApiKey = [] then ''https://api.coingecko.com/api/v3/simple/price?'' @ encode params
      else ''https://pro-api.coingecko.com/api/v3/simple/price?'' @ encode (params @ [(''x_cg_pro_api_key'', coinGeckoApiKey)]))"

text \<open>The loop: the queries so far, tokenIdx, the ids of the current query and first.\<close>

fun query_loop :: "(string \<Rightarrow> string) \<Rightarrow> nat \<Rightarrow> string list \<Rightarrow> string list \<Rightarrow> nat \<Rightarrow> string \<Rightarrow> bool \<Rightarrow> string list \<times> string" where
  "query_loop query n [] queries tokenIdx ids first = (queries, ids)"
| "query_loop query n (coinGeckoId # idList) queries tokenIdx ids first =
     (let (queries, ids, first) = (if tokenIdx mod n = 0 \<and> tokenIdx \<noteq> 0 then (queries @ [query ids], [], True)
                                   else (queries, ids, first));
          ids = (if first then ids else ids @ '','')
      in query_loop query n idList queries (Suc tokenIdx) (ids @ coinGeckoId) False)"

definition createCoinGeckoQueries :: "((string \<times> string) list \<Rightarrow> string) \<Rightarrow> string list \<Rightarrow> nat \<Rightarrow> string \<Rightarrow> string list" where
  "createCoinGeckoQueries encode idList tokensPerQuery coinGeckoApiKey =
     (let query = (\<lambda>ids. createCoinGeckoQuery encode ids coinGeckoApiKey) in
      case query_loop query tokensPerQuery idList [] 0 [] True of
        (queries, ids) \<Rightarrow> if ids \<noteq> [] then queries @ [query ids] else queries)"

text \<open>order lists the CoinGecko ids as the map is ranged over.\<close>

definition initCoinGecko :: "((string \<times> string) list \<Rightarrow> string) \<Rightarrow> string \<Rightarrow> string list \<Rightarrow> gov_prices \<Rightarrow> gov_prices" where
  "initCoinGecko encode coinGeckoApiKey order P =
     P\<lparr>gp_coinGeckoQueries := createCoinGeckoQueries encode order tokensPerCoinGeckoQuery coinGeckoApiKey\<rparr>"

text \<open>
  The JSON value of an id: not an object, or an object whose members are numbers or something else. The
  answer to a query is an error of the request, or a body that json decodes.
\<close>

datatype cg_value = CG_Number BigFloat | CG_Other
datatype cg_data = CG_Object "(string \<times> cg_value) list" | CG_NoObject

definition queryCoinGeckoChunk :: "(string \<Rightarrow> go_error + (string \<times> cg_data) list) \<Rightarrow> go_error + string \<Rightarrow>
    go_error + (string \<times> cg_data) list" where
  "queryCoinGeckoChunk json response =
     chk (wrap ''failed to query CoinGecko'' response) (\<lambda>resp.
       if str_contains resp ''error_code'' then Inl (Errorf ''CoinGecko query failed'')
       else wrap ''failed to unmarshal CoinGecko json'' (json resp))"

text \<open>The answers in the order of the queries; a later one replaces the entries of an earlier one.\<close>

fun gather :: "(string \<Rightarrow> go_error + (string \<times> cg_data) list) \<Rightarrow> (go_error + string) list \<Rightarrow> (string \<rightharpoonup> cg_data) \<Rightarrow>
    go_error + (string \<rightharpoonup> cg_data)" where
  "gather json [] result = Inr result"
| "gather json (r # responses) result =
     chk (queryCoinGeckoChunk json r) (\<lambda>thisResult. gather json responses (result ++ map_of thisResult))"

text \<open>An empty object counts as a price of zero. None reverts to the configured price.\<close>

definition price_of :: "cg_data \<Rightarrow> BigFloat option" where
  "price_of d = (case d of
     CG_NoObject \<Rightarrow> None
   | CG_Object m \<Rightarrow>
       if m = [] then Some (float64 0 0)
       else (case map_of m ''usd'' of Some (CG_Number x) \<Rightarrow> Some x | _ \<Rightarrow> None))"

definition update_token :: "time \<Rightarrow> BigFloat \<Rightarrow> nat \<Rightarrow> gov_prices \<Rightarrow> gov_prices" where
  "update_token now price i P =
     (let te = (gp_entries P ! i)\<lparr>mt_coinGeckoPrice := Some price\<rparr>;
          P = updatePrice te P
      in put_token i (te\<lparr>mt_priceTime := now\<rparr>) P)"

text \<open>The loop over the result: the ids that were updated, and the prices. order is how the result is ranged over.\<close>

fun update_loop :: "time \<Rightarrow> (string \<rightharpoonup> cg_data) \<Rightarrow> string list \<Rightarrow> string list \<Rightarrow> gov_prices \<Rightarrow> string list \<times> gov_prices" where
  "update_loop now result [] updated P = (updated, P)"
| "update_loop now result (g # order) updated P =
     (case (result g, gp_tokensByCoinGeckoId P g) of
        (Some data, Some cge) \<Rightarrow>
          (case price_of data of
             None \<Rightarrow> update_loop now result order updated P
           | Some price \<Rightarrow> update_loop now result order (g # updated) (fold (update_token now price) cge P))
      | _ \<Rightarrow> update_loop now result order updated P)"

text \<open>\<open>te.price = te.cfgPrice\<close>: from then on both names stand for one float.\<close>

definition revert_token :: "nat \<Rightarrow> gov_prices \<Rightarrow> gov_prices" where
  "revert_token i P = (let te = gp_entries P ! i in put_token i (te\<lparr>mt_price := mt_cfgPrice te\<rparr>) P)"

definition revert_id :: "string \<Rightarrow> gov_prices \<Rightarrow> gov_prices" where
  "revert_id g P = (case gp_tokensByCoinGeckoId P g of None \<Rightarrow> P | Some cge \<Rightarrow> fold revert_token cge P)"

text \<open>order lists the ids of tokensByCoinGeckoId.\<close>

definition revertAllPrices :: "string list \<Rightarrow> gov_prices \<Rightarrow> gov_prices" where
  "revertAllPrices order P = fold revert_id order P"

definition queryCoinGecko :: "(string \<Rightarrow> go_error + (string \<times> cg_data) list) \<Rightarrow> time \<Rightarrow> (go_error + string) list \<Rightarrow>
    string list \<Rightarrow> string list \<Rightarrow> gov_prices \<Rightarrow> (unit, gov_prices) db_result" where
  "queryCoinGecko json now responses order ids P =
     (case gather json responses Map.empty of
        Inl e \<Rightarrow> (Inl e, revertAllPrices ids P)
      | Inr result \<Rightarrow>
          (case update_loop now result order [] P of
             (updated, P) \<Rightarrow>
               let localTokenMap = filter (\<lambda>g. g \<notin> set updated) ids in
               if localTokenMap \<noteq> [] then (Inl (Errorf ''failed to update prices for some tokens''), fold revert_id localTokenMap P)
               else (Inr (), P)))"

text \<open>The governor reads prices from the store; load is loadFromDB of the governor.\<close>

definition refresh_prices :: "gov_prices \<Rightarrow> 's ChainGovernor \<Rightarrow> 's ChainGovernor" where
  "refresh_prices P g = g\<lparr>gov_tokens := governor_tokens P\<rparr>"

definition Governor_Run :: "('s ChainGovernor \<Rightarrow> (unit, 's ChainGovernor) db_result) \<Rightarrow> ((string \<times> string) list \<Rightarrow> string) \<Rightarrow>
    string \<Rightarrow> string list \<Rightarrow> tokenConfigEntry list \<Rightarrow> Environment \<Rightarrow> gov_prices \<times> 's ChainGovernor \<Rightarrow>
    go_error + gov_prices \<times> 's ChainGovernor" where
  "Governor_Run load encode coinGeckoApiKey order generated env st =
     chk (initConfig generated env st) (\<lambda>(P, g).
       if env = GoTest then Inr (P, g)
       else (case load g of
           (Inl e, _) \<Rightarrow> Inl e
         | (Inr _, g) \<Rightarrow> Inr (initCoinGecko encode coinGeckoApiKey order P, g)))"

section \<open>What the prices keep\<close>

text \<open>
  Every entry has its own two floats, which may have become one; the entries of an id are those that
  name it; all floats have the precision of a float64.
\<close>

definition cells_of :: "gov_prices \<Rightarrow> nat \<Rightarrow> nat set" where
  "cells_of P i = {mt_cfgPrice (gp_entries P ! i), mt_price (gp_entries P ! i)}"

definition entries_of :: "gov_prices \<Rightarrow> string \<Rightarrow> nat set" where
  "entries_of P g = {i. i < length (gp_entries P) \<and> mt_coinGeckoId (gp_entries P ! i) = g}"

definition prices_ok :: "gov_prices \<Rightarrow> bool" where
  "prices_ok P \<longleftrightarrow>
     (\<forall>i < length (gp_entries P). cells_of P i \<subseteq> {..< length (gp_cells P)}) \<and>
     (\<forall>i < length (gp_entries P). \<forall>j < length (gp_entries P). i \<noteq> j \<longrightarrow> cells_of P i \<inter> cells_of P j = {}) \<and>
     (\<forall>x \<in> set (gp_cells P). bf_prec x = 53) \<and>
     (\<forall>g. case gp_tokensByCoinGeckoId P g of
        None \<Rightarrow> entries_of P g = {} | Some cge \<Rightarrow> distinct cge \<and> set cge = entries_of P g) \<and>
     (\<forall>k i. gp_tokens P k = Some i \<longrightarrow> i < length (gp_entries P) \<and> mt_token (gp_entries P ! i) = k)"

text \<open>What an entry shows: its configured price, its price, and whether they are one float.\<close>

definition price_view :: "gov_prices \<Rightarrow> nat \<Rightarrow> BigFloat \<times> BigFloat \<times> bool" where
  "price_view P i = (let m = gp_entries P ! i in
     (gp_cells P ! mt_cfgPrice m, gp_cells P ! mt_price m, mt_price m = mt_cfgPrice m))"

text \<open>What a query does to it: Some is the price it brought, None a failure.\<close>

definition price_effect :: "BigFloat option \<Rightarrow> BigFloat \<times> BigFloat \<times> bool \<Rightarrow> BigFloat \<times> BigFloat \<times> bool" where
  "price_effect answer view = (case view of (cfg, price, shared) \<Rightarrow>
     (case answer of
        None \<Rightarrow> (cfg, cfg, True)
      | Some cg \<Rightarrow> let p = (if bf_less cg cfg then cfg else cg) in (if shared then p else cfg, p, shared)))"

text \<open>The operations that only touch the entries in I and their floats.\<close>

definition only_entries :: "nat set \<Rightarrow> gov_prices \<Rightarrow> gov_prices \<Rightarrow> bool" where
  "only_entries I P Q \<longleftrightarrow> prices_ok Q \<and> length (gp_entries Q) = length (gp_entries P) \<and>
     gp_tokens Q = gp_tokens P \<and> gp_tokensByCoinGeckoId Q = gp_tokensByCoinGeckoId P \<and>
     (\<forall>i < length (gp_entries P). mt_coinGeckoId (gp_entries Q ! i) = mt_coinGeckoId (gp_entries P ! i)) \<and>
     (\<forall>i < length (gp_entries P). i \<notin> I \<longrightarrow> price_view Q i = price_view P i)"

lemma only_entries_refl [simp]: "prices_ok P \<Longrightarrow> only_entries I P P"
  by (simp add: only_entries_def)

lemma only_entries_trans: "only_entries I P Q \<Longrightarrow> only_entries J Q R \<Longrightarrow> only_entries (I \<union> J) P R"
  by (auto simp: only_entries_def)

lemma prices_okD:
  assumes "prices_ok P" and "i < length (gp_entries P)"
  shows "mt_cfgPrice (gp_entries P ! i) < length (gp_cells P)" and "mt_price (gp_entries P ! i) < length (gp_cells P)"
  using assms by (auto simp: prices_ok_def cells_of_def)

lemma prices_ok_ids: "prices_ok P \<Longrightarrow> case gp_tokensByCoinGeckoId P g of
    None \<Rightarrow> entries_of P g = {} | Some cge \<Rightarrow> distinct cge \<and> set cge = entries_of P g"
  unfolding prices_ok_def by blast

lemma prices_ok_tokens: "prices_ok P \<Longrightarrow> gp_tokens P k = Some i \<Longrightarrow> i < length (gp_entries P) \<and> mt_token (gp_entries P ! i) = k"
  unfolding prices_ok_def by blast

lemma prices_ok_apart:
  "prices_ok P \<Longrightarrow> i < length (gp_entries P) \<Longrightarrow> j < length (gp_entries P) \<Longrightarrow> i \<noteq> j \<Longrightarrow> cells_of P i \<inter> cells_of P j = {}"
  by (simp add: prices_ok_def)

lemma prices_ok_prec: "prices_ok P \<Longrightarrow> a < length (gp_cells P) \<Longrightarrow> bf_prec (gp_cells P ! a) = 53"
  by (simp add: prices_ok_def)

lemma bf_Set_53: "bf_prec z = 53 \<Longrightarrow> bf_prec x = 53 \<Longrightarrow> bf_Set z x = x"
  by (simp add: bf_Set_def)

text \<open>Changing an entry and one of its floats keeps everything else.\<close>

lemma change_entry:
  assumes ok: "prices_ok P" and i: "i < length (gp_entries P)" and x: "bf_prec x = 53"
    and a: "a \<in> cells_of P i" and m: "mt_cfgPrice m \<in> cells_of P i" "mt_price m \<in> cells_of P i"
      "mt_coinGeckoId m = mt_coinGeckoId (gp_entries P ! i)" "mt_token m = mt_token (gp_entries P ! i)"
  shows "only_entries {i} P (P\<lparr>gp_cells := (gp_cells P)[a := x], gp_entries := (gp_entries P)[i := m]\<rparr>)"
    (is "only_entries {i} P ?Q")
proof -
  have cells: "cells_of ?Q j \<subseteq> cells_of P j" if "j < length (gp_entries P)" for j
    using that m(1,2) by (cases "j = i") (auto simp: cells_of_def nth_list_update)
  have "price_view ?Q j = price_view P j" if "j < length (gp_entries P)" "j \<noteq> i" for j
  proof -
    have "a \<notin> cells_of P j"
      using prices_ok_apart [OF ok that(1) i that(2)] a by blast
    then show ?thesis
      using that by (simp add: price_view_def cells_of_def Let_def)
  qed
  moreover have "prices_ok ?Q"
    unfolding prices_ok_def
  proof (intro conjI allI impI ballI)
    show "cells_of ?Q j \<subseteq> {..< length (gp_cells ?Q)}" if "j < length (gp_entries ?Q)" for j
      using cells [of j] that ok by (auto simp: prices_ok_def)
    show "cells_of ?Q j \<inter> cells_of ?Q k = {}"
      if "j < length (gp_entries ?Q)" "k < length (gp_entries ?Q)" "j \<noteq> k" for j k
      using cells [of j] cells [of k] prices_ok_apart [OF ok, of j k] that by auto
    show "bf_prec y = 53" if "y \<in> set (gp_cells ?Q)" for y
      using that ok x set_update_subset_insert [of "gp_cells P" a x] by (auto simp: prices_ok_def)
    have id: "mt_coinGeckoId (gp_entries ?Q ! j) = mt_coinGeckoId (gp_entries P ! j)" if "j < length (gp_entries P)" for j
      using that m(3) by (cases "j = i") simp_all
    have "entries_of ?Q g = entries_of P g" for g
      using id by (auto simp: entries_of_def)
    then show "case gp_tokensByCoinGeckoId ?Q g of
        None \<Rightarrow> entries_of ?Q g = {} | Some cge \<Rightarrow> distinct cge \<and> set cge = entries_of ?Q g" for g
      using prices_ok_ids [OF ok, of g] by (simp split: option.splits)
    show "j < length (gp_entries ?Q)" "mt_token (gp_entries ?Q ! j) = k" if "gp_tokens ?Q k = Some j" for k j
      using that ok i m(4) by (auto simp: prices_ok_def nth_list_update)
  qed
  moreover have "mt_coinGeckoId (gp_entries ?Q ! j) = mt_coinGeckoId (gp_entries P ! j)" if "j < length (gp_entries P)" for j
    using that m(3) by (cases "j = i") simp_all
  ultimately show ?thesis
    by (simp add: only_entries_def)
qed

lemma update_token_eq:
  assumes ok: "prices_ok P" and i: "i < length (gp_entries P)" and cg: "bf_prec cg = 53"
  shows "update_token now cg i P = P\<lparr>gp_cells := (gp_cells P)[mt_price (gp_entries P ! i) :=
       if bf_less cg (gp_cells P ! mt_cfgPrice (gp_entries P ! i)) then gp_cells P ! mt_cfgPrice (gp_entries P ! i) else cg],
     gp_entries := (gp_entries P)[i := (gp_entries P ! i)\<lparr>mt_coinGeckoPrice := Some cg, mt_priceTime := now\<rparr>]\<rparr>"
  using prices_okD [OF ok i] prices_ok_prec [OF ok] cg
  by (simp add: update_token_def updatePrice_def set_cell_def put_token_def bf_Set_53 Let_def)

lemma update_token_effect:
  assumes ok: "prices_ok P" and i: "i < length (gp_entries P)" and cg: "bf_prec cg = 53"
  shows "only_entries {i} P (update_token now cg i P)"
    and "price_view (update_token now cg i P) i = price_effect (Some cg) (price_view P i)"
proof -
  have "bf_prec (if bf_less cg (gp_cells P ! mt_cfgPrice (gp_entries P ! i)) then gp_cells P ! mt_cfgPrice (gp_entries P ! i) else cg) = 53"
    using prices_okD [OF ok i] prices_ok_prec [OF ok] cg by simp
  then show "only_entries {i} P (update_token now cg i P)"
    unfolding update_token_eq [OF assms] using ok i by (intro change_entry) (simp_all add: cells_of_def)
  show "price_view (update_token now cg i P) i = price_effect (Some cg) (price_view P i)"
    unfolding update_token_eq [OF assms] using prices_okD [OF ok i] i
    by (simp add: price_view_def price_effect_def Let_def nth_list_update)
qed

lemma revert_token_effect:
  assumes ok: "prices_ok P" and i: "i < length (gp_entries P)"
  shows "only_entries {i} P (revert_token i P)"
    and "price_view (revert_token i P) i = price_effect None (price_view P i)"
proof -
  have "revert_token i P = P\<lparr>gp_cells := (gp_cells P)[mt_cfgPrice (gp_entries P ! i) := gp_cells P ! mt_cfgPrice (gp_entries P ! i)],
      gp_entries := (gp_entries P)[i := (gp_entries P ! i)\<lparr>mt_price := mt_cfgPrice (gp_entries P ! i)\<rparr>]\<rparr>"
    by (simp add: revert_token_def put_token_def Let_def)
  then show "only_entries {i} P (revert_token i P)"
    using change_entry [OF ok i, of "gp_cells P ! mt_cfgPrice (gp_entries P ! i)" "mt_cfgPrice (gp_entries P ! i)"
        "(gp_entries P ! i)\<lparr>mt_price := mt_cfgPrice (gp_entries P ! i)\<rparr>"] prices_okD [OF ok i] prices_ok_prec [OF ok]
    by (simp add: cells_of_def)
  show "price_view (revert_token i P) i = price_effect None (price_view P i)"
    using i by (simp add: revert_token_def put_token_def price_view_def price_effect_def Let_def)
qed

text \<open>A step for every entry of a list, whose entries it gives the same answer.\<close>

lemma fold_effect:
  assumes step: "\<And>P i. prices_ok P \<Longrightarrow> i < length (gp_entries P) \<Longrightarrow> only_entries {i} P (f i P) \<and> price_view (f i P) i = price_effect ans (price_view P i)"
    and "prices_ok P" and "distinct is" and "\<forall>i \<in> set is. i < length (gp_entries P)"
  shows "only_entries (set is) P (fold f is P) \<and> (\<forall>i \<in> set is. price_view (fold f is P) i = price_effect ans (price_view P i))"
  using assms(2-)
proof (induction "is" arbitrary: P)
  case (Cons i "is")
  define Q where "Q = f i P"
  have Q: "only_entries {i} P Q" "price_view Q i = price_effect ans (price_view P i)"
    using step [OF Cons.prems(1), of i] Cons.prems(3) by (auto simp: Q_def)
  have IH: "only_entries (set is) Q (fold f is Q)" "\<forall>j \<in> set is. price_view (fold f is Q) j = price_effect ans (price_view Q j)"
    using Cons.IH [of Q] Q(1) Cons.prems by (auto simp: only_entries_def)
  have "only_entries (set (i # is)) P (fold f (i # is) P)"
    using only_entries_trans [OF Q(1) IH(1)] by (simp add: Q_def)
  moreover have "price_view (fold f is Q) j = price_effect ans (price_view P j)" if "j \<in> set (i # is)" for j
  proof (cases "j = i")
    case True
    then have "price_view (fold f is Q) i = price_view Q i"
      using IH(1) Q(1) Cons.prems(2,3) by (auto simp: only_entries_def)
    with True Q(2) show ?thesis by simp
  next
    case False
    then show ?thesis
      using IH(2) Q(1) that Cons.prems(3) by (auto simp: only_entries_def)
  qed
  ultimately show ?case
    by (auto simp: Q_def)
qed simp

lemma entries_of_cge:
  assumes "prices_ok P"
  shows "gp_tokensByCoinGeckoId P g = Some cge \<Longrightarrow> distinct cge \<and> set cge = entries_of P g"
    and "gp_tokensByCoinGeckoId P g = None \<Longrightarrow> entries_of P g = {}"
proof -
  show "gp_tokensByCoinGeckoId P g = Some cge \<Longrightarrow> distinct cge \<and> set cge = entries_of P g"
    and "gp_tokensByCoinGeckoId P g = None \<Longrightarrow> entries_of P g = {}"
    using prices_ok_ids [OF assms, of g] by simp_all
qed

lemma entries_of_only: "only_entries I P Q \<Longrightarrow> entries_of Q g = entries_of P g"
  by (auto simp: only_entries_def entries_of_def)

lemma revert_id_effect:
  assumes "prices_ok P"
  shows "only_entries (entries_of P g) P (revert_id g P) \<and>
     (\<forall>i \<in> entries_of P g. price_view (revert_id g P) i = price_effect None (price_view P i))"
proof (cases "gp_tokensByCoinGeckoId P g")
  case None
  then show ?thesis
    using assms entries_of_cge(2) [OF assms] by (simp add: revert_id_def)
next
  case (Some cge)
  then have "distinct cge" "set cge = entries_of P g" "\<forall>i \<in> set cge. i < length (gp_entries P)"
    using entries_of_cge(1) [OF assms] by (auto simp: entries_of_def)
  then show ?thesis
    using fold_effect [of revert_token None P cge] revert_token_effect assms Some by (auto simp: revert_id_def)
qed

lemma update_id_effect:
  assumes "prices_ok P" and "gp_tokensByCoinGeckoId P g = Some cge" and "bf_prec cg = 53"
  shows "only_entries (entries_of P g) P (fold (update_token now cg) cge P) \<and>
     (\<forall>i \<in> entries_of P g. price_view (fold (update_token now cg) cge P) i = price_effect (Some cg) (price_view P i))"
proof -
  have "distinct cge" "set cge = entries_of P g" "\<forall>i \<in> set cge. i < length (gp_entries P)"
    using entries_of_cge(1) [OF assms(1,2)] by (auto simp: entries_of_def)
  then show ?thesis
    using fold_effect [of "update_token now cg" "Some cg" P cge] update_token_effect assms by auto
qed

text \<open>What a query answers for an entry: None when it failed, or brought nothing for the id of the entry.\<close>

definition answer_for :: "(string \<Rightarrow> go_error + (string \<times> cg_data) list) \<Rightarrow> (go_error + string) list \<Rightarrow> string \<Rightarrow> BigFloat option" where
  "answer_for json responses g = (case gather json responses Map.empty of
     Inl _ \<Rightarrow> None | Inr result \<Rightarrow> Option.bind (result g) price_of)"

definition float64_answers :: "(string \<Rightarrow> go_error + (string \<times> cg_data) list) \<Rightarrow> bool" where
  "float64_answers json \<longleftrightarrow> (\<forall>body r g d x. json body = Inr r \<and> (g, d) \<in> set r \<and> price_of d = Some x \<longrightarrow> bf_prec x = 53)"

lemma gather_float64:
  assumes "float64_answers json"
  shows "gather json responses result = Inr result' \<Longrightarrow>
     \<forall>g d x. result g = Some d \<and> price_of d = Some x \<longrightarrow> bf_prec x = 53 \<Longrightarrow>
     result' g = Some d \<Longrightarrow> price_of d = Some x \<Longrightarrow> bf_prec x = 53"
proof (induction responses arbitrary: result)
  case (Cons r responses)
  then obtain rs where rs: "queryCoinGeckoChunk json r = Inr rs" "gather json responses (result ++ map_of rs) = Inr result'"
    by (auto simp: chk_eq_Inr)
  then obtain body where "json body = Inr rs"
    by (cases r) (auto simp: queryCoinGeckoChunk_def chk_eq_Inr wrap_eq_Inr split: if_splits)
  then have "bf_prec x = 53" if "map_of rs g = Some d" "price_of d = Some x" for g d x
    using assms that map_of_SomeD by (fastforce simp: float64_answers_def)
  then have "\<forall>g d x. (result ++ map_of rs) g = Some d \<and> price_of d = Some x \<longrightarrow> bf_prec x = 53"
    using Cons.prems(2) by (auto simp: map_add_Some_iff)
  then show ?case
    using Cons.IH [OF rs(2)] Cons.prems(3,4) by blast
qed auto

text \<open>The loop over the result: what it has updated has the effect of its price, the rest is untouched.\<close>

lemma update_loop_effect:
  assumes prec: "\<forall>g d x. result g = Some d \<and> price_of d = Some x \<longrightarrow> bf_prec x = 53"
  shows "prices_ok P \<Longrightarrow> distinct order \<Longrightarrow> set order \<inter> set updated = {} \<Longrightarrow>
     update_loop now result order updated P = (updated', Q) \<Longrightarrow>
     set updated' = set updated \<union> {g \<in> set order. Option.bind (result g) price_of \<noteq> None \<and> gp_tokensByCoinGeckoId P g \<noteq> None} \<and>
     only_entries (\<Union>g \<in> set updated' - set updated. entries_of P g) P Q \<and>
     (\<forall>g \<in> set updated' - set updated. \<forall>i \<in> entries_of P g.
        price_view Q i = price_effect (Option.bind (result g) price_of) (price_view P i))"
proof (induction order arbitrary: updated P)
  case (Cons g order)
  show ?case
  proof (cases "Option.bind (result g) price_of \<noteq> None \<and> gp_tokensByCoinGeckoId P g \<noteq> None")
    case False
    then have "update_loop now result order updated P = (updated', Q)"
      using Cons.prems(4) by (auto split: option.splits)
    with Cons.IH [OF Cons.prems(1) _ _ this] Cons.prems(2,3) False show ?thesis
      by auto
  next
    case True
    then obtain d price cge where g: "result g = Some d" "price_of d = Some price" "gp_tokensByCoinGeckoId P g = Some cge"
      by (auto simp: bind_eq_Some_conv)
    define R where "R = fold (update_token now price) cge P"
    have R: "only_entries (entries_of P g) P R"
      "\<forall>i \<in> entries_of P g. price_view R i = price_effect (Some price) (price_view P i)"
      using update_id_effect [OF Cons.prems(1) g(3)] prec g(1,2) by (auto simp: R_def)
    have "update_loop now result order (g # updated) R = (updated', Q)"
      using Cons.prems(4) g by (simp add: R_def)
    note IH = Cons.IH [OF _ _ _ this]
    have tk: "gp_tokensByCoinGeckoId R = gp_tokensByCoinGeckoId P" and ok: "prices_ok R"
      using R(1) by (simp_all add: only_entries_def)
    have ents: "entries_of R h = entries_of P h" for h
      using entries_of_only [OF R(1)] by simp
    have I: "set updated' = insert g (set updated) \<union> {h \<in> set order. Option.bind (result h) price_of \<noteq> None \<and> gp_tokensByCoinGeckoId P h \<noteq> None}"
      "only_entries (\<Union>h \<in> set updated' - insert g (set updated). entries_of P h) R Q"
      "\<forall>h \<in> set updated' - insert g (set updated). \<forall>i \<in> entries_of P h.
         price_view Q i = price_effect (Option.bind (result h) price_of) (price_view R i)"
      using IH [OF ok] Cons.prems(2,3) by (auto simp: tk ents)
    have only: "only_entries (\<Union>h \<in> set updated' - set updated. entries_of P h) P Q"
    proof -
      have "(entries_of P g \<union> (\<Union>h \<in> set updated' - insert g (set updated). entries_of P h)) =
          (\<Union>h \<in> set updated' - set updated. entries_of P h)"
        using I(1) Cons.prems(3) by auto
      with only_entries_trans [OF R(1) I(2)] show ?thesis by simp
    qed
    have apart: "entries_of P g \<inter> entries_of P h = {}" if "h \<noteq> g" for h
      using that by (auto simp: entries_of_def)
    have "price_view Q i = price_effect (Option.bind (result h) price_of) (price_view P i)"
      if "h \<in> set updated' - set updated" "i \<in> entries_of P h" for h i
    proof (cases "h = g")
      case True
      with that(2) have i: "i \<in> entries_of P g" "i < length (gp_entries R)"
        using R(1) by (auto simp: entries_of_def only_entries_def)
      have "i \<notin> (\<Union>h \<in> set updated' - insert g (set updated). entries_of P h)"
        using i(1) apart by auto
      then have "price_view Q i = price_view R i"
        using I(2) i(2) by (auto simp: only_entries_def)
      with R(2) i(1) g True show ?thesis by simp
    next
      case False
      with that have "price_view Q i = price_effect (Option.bind (result h) price_of) (price_view R i)"
        using I(3) by auto
      moreover have "i \<notin> entries_of P g" "i < length (gp_entries P)"
        using apart [OF False] that(2) by (auto simp: entries_of_def)
      ultimately show ?thesis
        using R(1) by (simp add: only_entries_def)
    qed
    moreover have "set updated' = set updated \<union> {h \<in> set (g # order). Option.bind (result h) price_of \<noteq> None \<and> gp_tokensByCoinGeckoId P h \<noteq> None}"
      using I(1) True by auto
    ultimately show ?thesis
      using only by blast
  qed
qed simp

lemma revert_ids_effect:
  "prices_ok P \<Longrightarrow> distinct gs \<Longrightarrow>
     only_entries (\<Union>g \<in> set gs. entries_of P g) P (fold revert_id gs P) \<and>
     (\<forall>g \<in> set gs. \<forall>i \<in> entries_of P g. price_view (fold revert_id gs P) i = price_effect None (price_view P i))"
proof (induction gs arbitrary: P)
  case (Cons g gs)
  define R where "R = revert_id g P"
  have R: "only_entries (entries_of P g) P R" "\<forall>i \<in> entries_of P g. price_view R i = price_effect None (price_view P i)"
    using revert_id_effect [OF Cons.prems(1)] by (simp_all add: R_def)
  have ents: "entries_of R h = entries_of P h" for h
    using entries_of_only [OF R(1)] by simp
  have ok: "prices_ok R" and "distinct gs"
    using R(1) Cons.prems(2) by (simp_all add: only_entries_def)
  from Cons.IH [OF this] have I: "only_entries (\<Union>g \<in> set gs. entries_of P g) R (fold revert_id gs R)"
    "\<forall>g \<in> set gs. \<forall>i \<in> entries_of P g. price_view (fold revert_id gs R) i = price_effect None (price_view R i)"
    by (simp_all add: ents)
  have "price_view (fold revert_id gs R) i = price_effect None (price_view P i)"
    if "h \<in> set (g # gs)" "i \<in> entries_of P h" for h i
  proof (cases "h = g")
    case True
    with that Cons.prems(2) have "i \<notin> (\<Union>g \<in> set gs. entries_of P g)" "i < length (gp_entries R)"
      using R(1) by (auto simp: entries_of_def only_entries_def)
    then have "price_view (fold revert_id gs R) i = price_view R i"
      using I(1) by (simp add: only_entries_def)
    with R(2) that(2) True show ?thesis by simp
  next
    case False
    with that have "price_view (fold revert_id gs R) i = price_effect None (price_view R i)"
      using I(2) by auto
    moreover have "i \<notin> entries_of P g" "i < length (gp_entries P)"
      using False that(2) by (auto simp: entries_of_def)
    ultimately show ?thesis
      using R(1) by (simp add: only_entries_def)
  qed
  then show ?case
    using only_entries_trans [OF R(1) I(1)] by (simp add: R_def)
qed simp

lemma queryCoinGecko_effect:
  assumes ok: "prices_ok P" and "float64_answers json" and order: "distinct order"
    "\<And>result. gather json responses Map.empty = Inr result \<Longrightarrow> set order = dom result"
    and ids: "distinct ids" "set ids = dom (gp_tokensByCoinGeckoId P)"
    and Q: "queryCoinGecko json now responses order ids P = (r, Q)"
  shows "only_entries UNIV P Q" and "i < length (gp_entries P) \<Longrightarrow>
    price_view Q i = price_effect (answer_for json responses (mt_coinGeckoId (gp_entries P ! i))) (price_view P i)"
proof -
  have known: "\<exists>g \<in> set ids. i \<in> entries_of P g \<and> g = mt_coinGeckoId (gp_entries P ! i)" if "i < length (gp_entries P)" for i
    using entries_of_cge(2) [OF ok, of "mt_coinGeckoId (gp_entries P ! i)"] that ids(2) by (auto simp: entries_of_def)
  have goal: "only_entries UNIV P Q \<and> (\<forall>i < length (gp_entries P).
      price_view Q i = price_effect (answer_for json responses (mt_coinGeckoId (gp_entries P ! i))) (price_view P i))"
  proof (cases "gather json responses Map.empty")
    case (Inl e)
    then have q: "Q = fold revert_id ids P" and "\<And>g. answer_for json responses g = None"
      using Q by (simp_all add: queryCoinGecko_def revertAllPrices_def answer_for_def)
    with revert_ids_effect [OF ok ids(1)] known show ?thesis
      by (fastforce simp: only_entries_def)
  next
    case (Inr result)
    have prec: "\<forall>g d x. result g = Some d \<and> price_of d = Some x \<longrightarrow> bf_prec x = 53"
      using gather_float64 [OF assms(2) Inr] by auto
    obtain updated R where R: "update_loop now result order [] P = (updated, R)"
      by fastforce
    define rest where "rest = filter (\<lambda>g. g \<notin> set updated) ids"
    have Qr: "Q = fold revert_id rest R"
      using Q Inr R by (auto simp: queryCoinGecko_def rest_def Let_def split: if_splits)
    have U: "set updated = {g \<in> set order. Option.bind (result g) price_of \<noteq> None \<and> gp_tokensByCoinGeckoId P g \<noteq> None}"
      "only_entries (\<Union>g \<in> set updated. entries_of P g) P R"
      "\<forall>g \<in> set updated. \<forall>i \<in> entries_of P g. price_view R i = price_effect (Option.bind (result g) price_of) (price_view P i)"
      using update_loop_effect [OF prec ok order(1) _ R] by auto
    have ents: "entries_of R h = entries_of P h" for h
      using entries_of_only [OF U(2)] by simp
    have "prices_ok R"
      using U(2) by (simp add: only_entries_def)
    from revert_ids_effect [OF this, of rest] ids(1)
    have V: "only_entries (\<Union>g \<in> set rest. entries_of P g) R Q"
      "\<forall>g \<in> set rest. \<forall>i \<in> entries_of P g. price_view Q i = price_effect None (price_view R i)"
      by (simp_all add: rest_def Qr ents)
    have "price_view Q i = price_effect (answer_for json responses (mt_coinGeckoId (gp_entries P ! i))) (price_view P i)"
      if i: "i < length (gp_entries P)" for i
    proof -
      obtain g where g: "g \<in> set ids" "i \<in> entries_of P g" "g = mt_coinGeckoId (gp_entries P ! i)"
        using known [OF i] by blast
      have apart: "i \<in> entries_of P h \<Longrightarrow> h = g" for h
        using g(3) by (auto simp: entries_of_def)
      have len: "length (gp_entries R) = length (gp_entries P)"
        using U(2) by (simp add: only_entries_def)
      show ?thesis
      proof (cases "g \<in> set updated")
        case True
        then have "price_view Q i = price_view R i"
          using V(1) apart i len by (auto simp: only_entries_def rest_def)
        then show ?thesis
          using U(3) True g Inr by (simp add: answer_for_def)
      next
        case False
        then have "price_view R i = price_view P i"
          using U(2) apart i by (auto simp: only_entries_def)
        moreover have "price_view Q i = price_effect None (price_view R i)"
          using V(2) False g(1,2) by (auto simp: rest_def)
        moreover have "Option.bind (result g) price_of = None"
          using False U(1) order(2) [OF Inr] g(1) ids(2) by (cases "result g") auto
        ultimately show ?thesis
          using g(3) Inr by (simp add: answer_for_def)
      qed
    qed
    moreover have "only_entries UNIV P Q"
      using only_entries_trans [OF U(2) V(1)] by (auto simp: only_entries_def)
    ultimately show ?thesis by blast
  qed
  then show "only_entries UNIV P Q" and "i < length (gp_entries P) \<Longrightarrow>
      price_view Q i = price_effect (answer_for json responses (mt_coinGeckoId (gp_entries P ! i))) (price_view P i)"
    by blast+
qed

section \<open>Runs of queries\<close>

lemma bf_less_real: "bf_less x y \<longleftrightarrow> bf_real x < bf_real y"
proof -
  define e where "e = min (bf_exp x) (bf_exp y)"
  have scale: "bf_real z = real_of_int (bf_mant z * 2 ^ nat (bf_exp z - e)) * 2 powi e" if "e \<le> bf_exp z" for z
  proof -
    have "2 powi bf_exp z = (2 :: real) powi (bf_exp z - e) * 2 powi e"
      by (simp flip: power_int_add)
    moreover have "(2 :: real) powi (bf_exp z - e) = 2 ^ nat (bf_exp z - e)"
      using that by (simp add: power_int_def)
    ultimately show ?thesis by (simp add: bf_real_def)
  qed
  have pos: "(0 :: real) < 2 powi e"
    by simp
  have "bf_real x < bf_real y \<longleftrightarrow>
      real_of_int (bf_mant x * 2 ^ nat (bf_exp x - e)) * 2 powi e < real_of_int (bf_mant y * 2 ^ nat (bf_exp y - e)) * 2 powi e"
    using scale [of x] scale [of y] by (simp add: e_def)
  also have "\<dots> \<longleftrightarrow> real_of_int (bf_mant x * 2 ^ nat (bf_exp x - e)) < real_of_int (bf_mant y * 2 ^ nat (bf_exp y - e))"
    by (rule mult_less_cancel_right_pos [OF pos])
  also have "\<dots> \<longleftrightarrow> bf_less x y"
    unfolding of_int_less_iff by (simp add: bf_less_def e_def Let_def)
  finally show ?thesis by simp
qed

text \<open>A query and what it answers for the ids; the maps are ranged over in any order.\<close>

inductive query_step :: "gov_prices \<Rightarrow> (string \<Rightarrow> BigFloat option) \<Rightarrow> gov_prices \<Rightarrow> bool" where
  query: "queryCoinGecko json now responses order ids P = (r, Q) \<Longrightarrow> float64_answers json \<Longrightarrow>
    distinct order \<Longrightarrow> (\<And>result. gather json responses Map.empty = Inr result \<Longrightarrow> set order = dom result) \<Longrightarrow>
    distinct ids \<Longrightarrow> set ids = dom (gp_tokensByCoinGeckoId P) \<Longrightarrow> query_step P (answer_for json responses) Q"

fun query_run :: "gov_prices \<Rightarrow> (string \<Rightarrow> BigFloat option) list \<Rightarrow> gov_prices \<Rightarrow> bool" where
  "query_run P [] Q \<longleftrightarrow> Q = P"
| "query_run P (a # as) Q \<longleftrightarrow> (\<exists>R. query_step P a R \<and> query_run R as Q)"

lemma query_step_effect:
  assumes "query_step P a Q" and "prices_ok P"
  shows "only_entries UNIV P Q" and "i < length (gp_entries P) \<Longrightarrow>
    price_view Q i = price_effect (a (mt_coinGeckoId (gp_entries P ! i))) (price_view P i)"
proof -
  from assms(1) obtain json now responses order ids r where a: "a = answer_for json responses"
    and q: "queryCoinGecko json now responses order ids P = (r, Q)" "float64_answers json" "distinct order"
      "\<And>result. gather json responses Map.empty = Inr result \<Longrightarrow> set order = dom result"
      "distinct ids" "set ids = dom (gp_tokensByCoinGeckoId P)"
    by cases blast
  note effect = queryCoinGecko_effect [OF assms(2) q(2,3,4,5,6,1)]
  show "only_entries UNIV P Q"
    by (rule effect(1))
  show "i < length (gp_entries P) \<Longrightarrow> price_view Q i = price_effect (a (mt_coinGeckoId (gp_entries P ! i))) (price_view P i)"
    unfolding a by (rule effect(2))
qed

lemma query_run_effect:
  "query_run P as Q \<Longrightarrow> prices_ok P \<Longrightarrow> i < length (gp_entries P) \<Longrightarrow>
     only_entries UNIV P Q \<and>
     price_view Q i = fold price_effect (map (\<lambda>a. a (mt_coinGeckoId (gp_entries P ! i))) as) (price_view P i)"
proof (induction "as" arbitrary: P)
  case (Cons a "as")
  then obtain R where R: "query_step P a R" "query_run R as Q" by auto
  note step = query_step_effect [OF R(1) Cons.prems(2)]
  have "prices_ok R" "i < length (gp_entries R)" "mt_coinGeckoId (gp_entries R ! i) = mt_coinGeckoId (gp_entries P ! i)"
    using step(1) Cons.prems(3) by (simp_all add: only_entries_def)
  with Cons.IH [OF R(2)] step(2) [OF Cons.prems(3)] step(1) show ?case
    by (auto simp: only_entries_def)
qed simp

text \<open>Without a failure the configured price stays and the price is the larger of it and the last answer.\<close>

lemma effect_unshared:
  "\<forall>a \<in> set as. a \<noteq> None \<Longrightarrow> fold price_effect (as @ [Some cg]) (cfg, price, False) =
     (cfg, if bf_less cg cfg then cfg else cg, False)"
proof (induction "as" arbitrary: price)
  case (Cons a "as")
  then show ?case by (auto simp: price_effect_def Let_def)
qed (simp add: price_effect_def Let_def)

text \<open>After a failure both are one float, and it only grows until the next failure.\<close>

definition peak :: "BigFloat option list \<Rightarrow> real \<Rightarrow> real" where
  "peak as m = fold (\<lambda>a m. case a of None \<Rightarrow> m | Some cg \<Rightarrow> max (bf_real cg) m) as m"

lemma effect_shared:
  "\<exists>x. fold price_effect as (cfg, cfg, True) = (x, x, True) \<and> bf_real x = peak as (bf_real cfg)"
proof (induction "as" arbitrary: cfg)
  case (Cons a "as")
  have "\<exists>y. price_effect a (cfg, cfg, True) = (y, y, True) \<and> bf_real y = (case a of None \<Rightarrow> bf_real cfg | Some cg \<Rightarrow> max (bf_real cg) (bf_real cfg))"
    by (auto simp: price_effect_def Let_def bf_less_real split: option.splits)
  with Cons.IH show ?case by (fastforce simp: peak_def)
qed (simp add: peak_def)

lemma query_run_view:
  assumes "query_run P as Q" and "prices_ok P" and "gp_tokens P k = Some i"
  shows "prices_ok Q \<and> gp_tokens Q k = Some i \<and>
     price_view Q i = fold price_effect (map (\<lambda>a. a (mt_coinGeckoId (gp_entries P ! i))) as) (price_view P i)"
proof -
  have "i < length (gp_entries P)"
    using assms(2,3) by (auto simp: prices_ok_def)
  from query_run_effect [OF assms(1,2) this] show ?thesis
    using assms(3) by (simp add: only_entries_def)
qed

lemma governor_tokens_view: "gp_tokens P k = Some i \<Longrightarrow>
    \<exists>te. governor_tokens P k = Some te \<and> te_price te = fst (snd (price_view P i))"
  by (simp add: governor_tokens_def token_entry_def price_view_def Let_def)

text \<open>
  While every query of CoinGecko answers for a token, its price in the governor is the larger of its
  configured price and the last answer, as updatePrice intends: a price that CoinGecko reports too low
  cannot make transfers look smaller than configured.
\<close>

lemma price_is_max:
  assumes "query_run P as Q" and "prices_ok P" and "gp_tokens P k = Some i"
    and "price_view P i = (cfg, p, False)"
    and "map (\<lambda>a. a (mt_coinGeckoId (gp_entries P ! i))) as = answers @ [Some cg]" and "\<forall>a \<in> set answers. a \<noteq> None"
  shows "\<exists>te. governor_tokens Q k = Some te \<and> bf_real (te_price te) = max (bf_real cfg) (bf_real cg) \<and>
    fst (price_view Q i) = cfg"
proof -
  have "gp_tokens Q k = Some i" "price_view Q i = (cfg, if bf_less cg cfg then cfg else cg, False)"
    using query_run_view [OF assms(1-3)] assms(4-6) effect_unshared [OF assms(6), of cg cfg p] by simp_all
  then show ?thesis
    using governor_tokens_view [of Q k i] by (auto simp: bf_less_real)
qed

text \<open>
  A query that fails makes the price of a token its configured price by copying the pointer. From then
  on updatePrice writes every answer into the configured price: until the next failure and after it the
  price is the configured one or the highest answer since, and never falls again. The comment of
  updatePrice promises the maximum of the current answer and the configured price.
\<close>

lemma failed_query_ratchets:
  assumes "query_run P as Q" and "prices_ok P" and "gp_tokens P k = Some i"
    and "price_view P i = (cfg, p, False)"
    and "map (\<lambda>a. a (mt_coinGeckoId (gp_entries P ! i))) as = before @ None # since" and "\<forall>a \<in> set before. a \<noteq> None"
  shows "\<exists>te. governor_tokens Q k = Some te \<and> bf_real (te_price te) = peak since (bf_real cfg) \<and>
    fst (price_view Q i) = te_price te"
proof -
  have "\<exists>q. fold price_effect before (cfg, p, False) = (cfg, q, False)"
    using effect_unshared [of "butlast before" "the (last before)" cfg p] assms(6)
    by (cases before rule: rev_cases) auto
  then obtain q where "fold price_effect before (cfg, p, False) = (cfg, q, False)" by blast
  moreover have "price_effect None (cfg, q, False) = (cfg, cfg, True)"
    by (simp add: price_effect_def)
  ultimately have "gp_tokens Q k = Some i" "price_view Q i = fold price_effect since (cfg, cfg, True)"
    using query_run_view [OF assms(1-3)] assms(4,5) by simp_all
  then show ?thesis
    using governor_tokens_view [of Q k i] effect_shared [of since cfg] by fastforce
qed

end
