(* ===== verification/GovStart.thy ===== *)
theory GovStart imports GovPrices begin

text \<open>
  Starting the chain governor: initConfig builds a consistent governor in every environment, and the
  prices it starts with are the configured ones. Then examples of runs of price queries.
\<close>

section \<open>Tokens\<close>

text \<open>An entry of a token table: an address of 32 bytes in hexadecimal and a price that is a float64.\<close>

definition good_token :: "tokenConfigEntry \<Rightarrow> bool" where
  "good_token ct \<longleftrightarrow> length (tc_addr ct) = 64 \<and> list_all is_hex (tc_addr ct) \<and> bf_prec (tc_price ct) = 53"

lemma good_token_addr: "good_token ct \<Longrightarrow> \<exists>a. StringToAddress (tc_addr ct) = Inr a \<and> length a = 32"
  using good_entry_decode [of "2" "tc_addr ct"] by (auto simp: good_token_def good_entry_def GetAllNetworkIDs_def)

lemma float64_prec [simp]: "bf_prec (float64 n k) = 53"
  by (simp add: float64_def Let_def split: prod.split)

lemma token_row_simps [simp]:
  "tc_chain (token_row (c, a, s, g, d, n, k)) = c" "tc_addr (token_row (c, a, s, g, d, n, k)) = a"
  "tc_price (token_row (c, a, s, g, d, n, k)) = float64 n k"
  by (simp_all add: token_row_def)

text \<open>Fresh prices: nothing was answered yet, and price and configured price are two equal floats.\<close>

definition configured :: "gov_prices \<Rightarrow> bool" where
  "configured P \<longleftrightarrow> prices_ok P \<and> (\<forall>i < length (gp_entries P). \<exists>c. price_view P i = (c, c, False))"

lemma configured_no_prices: "configured no_prices"
  by (simp add: configured_def prices_ok_def entries_of_def no_prices_def)

lemma price_view_append:
  "prices_ok P \<Longrightarrow> i < length (gp_entries P) \<Longrightarrow> gp_cells Q = gp_cells P @ cs \<Longrightarrow> gp_entries Q = gp_entries P @ ms \<Longrightarrow>
     price_view Q i = price_view P i \<and> cells_of Q i = cells_of P i"
  using prices_okD [of P i] by (simp add: price_view_def cells_of_def nth_append Let_def)

lemma add_token_ok:
  assumes ok: "configured P" and ct: "good_token ct"
  shows "\<exists>Q a. add_token ct P = Inr Q \<and> configured Q \<and> StringToAddress (tc_addr ct) = Inr a \<and>
    gp_tokens Q = (gp_tokens P)(\<lparr>tk_chain = tc_chain ct, tk_addr = a\<rparr> \<mapsto> length (gp_entries P))"
proof -
  obtain addr where addr: "StringToAddress (tc_addr ct) = Inr addr"
    using good_token_addr [OF ct] by blast
  define n where "n = length (gp_entries P)"
  define a where "a = length (gp_cells P)"
  define te where "te = \<lparr>mt_price = Suc a, mt_decimals = (if min (tc_decimals ct) 8 < 0 then 0 else 10 ^ nat (min (tc_decimals ct) 8)),
    mt_symbol = (if tc_symbol ct = [] then dec_string (unat (tc_chain ct)) @ CHR '':'' # tc_addr ct else tc_symbol ct),
    mt_coinGeckoId = tc_coinGeckoId ct, mt_token = \<lparr>tk_chain = tc_chain ct, tk_addr = addr\<rparr>, mt_cfgPrice = a,
    mt_coinGeckoPrice = None, mt_priceTime = 0, mt_flowCancels = False\<rparr>"
  define Q where "Q = P\<lparr>gp_cells := gp_cells P @ [tc_price ct, tc_price ct], gp_entries := gp_entries P @ [te],
    gp_tokens := (gp_tokens P)(mt_token te \<mapsto> n),
    gp_tokensByCoinGeckoId := (gp_tokensByCoinGeckoId P)(tc_coinGeckoId ct \<mapsto>
      (case gp_tokensByCoinGeckoId P (tc_coinGeckoId ct) of None \<Rightarrow> [n] | Some cge \<Rightarrow> cge @ [n]))\<rparr>"
  have price: "bf_prec (tc_price ct) = 53"
    using ct by (simp add: good_token_def)
  have upd: "updatePrice te R = R" if "gp_cells R = gp_cells P @ [tc_price ct, tc_price ct]" for R
  proof -
    have "gp_cells R ! Suc a = tc_price ct" "gp_cells R ! a = tc_price ct"
      using that by (simp_all add: a_def nth_append)
    then have "(gp_cells R)[Suc a := tc_price ct] = gp_cells R"
      by (metis list_update_id)
    then show ?thesis
      using \<open>gp_cells R ! Suc a = tc_price ct\<close> \<open>gp_cells R ! a = tc_price ct\<close> price
      by (simp add: updatePrice_def set_cell_def te_def bf_Set_53 Let_def)
  qed
  have "add_token ct P = Inr Q"
    unfolding add_token_def addr Let_def Q_def te_def a_def n_def using upd [unfolded te_def a_def] by simp
  moreover have okP: "prices_ok P" and views: "\<And>i. i < n \<Longrightarrow> \<exists>c. price_view P i = (c, c, False)"
    using ok by (auto simp: configured_def n_def)
  have old: "price_view Q i = price_view P i" "cells_of Q i = cells_of P i" "gp_entries Q ! i = gp_entries P ! i" if "i < n" for i
    using price_view_append [OF okP, of i Q] that by (simp_all add: Q_def n_def nth_append)
  have new: "price_view Q n = (tc_price ct, tc_price ct, False)" "cells_of Q n = {a, Suc a}" "gp_entries Q ! n = te"
    by (simp_all add: Q_def n_def a_def te_def price_view_def cells_of_def nth_append)
  have len: "length (gp_entries Q) = Suc n" "length (gp_cells Q) = a + 2"
    by (simp_all add: Q_def n_def a_def)
  have inP: "cells_of P i \<subseteq> {..< a}" if "i < n" for i
    using okP that by (simp add: prices_ok_def a_def n_def)
  have "prices_ok Q"
    unfolding prices_ok_def
  proof (intro conjI allI impI ballI)
    show "cells_of Q i \<subseteq> {..< length (gp_cells Q)}" if "i < length (gp_entries Q)" for i
      using that old(2) inP new(2) len by (cases "i < n") (fastforce simp: less_Suc_eq)+
    show "cells_of Q i \<inter> cells_of Q j = {}" if ij: "i < length (gp_entries Q)" "j < length (gp_entries Q)" "i \<noteq> j" for i j
    proof -
      consider "i < n" "j < n" | "i = n" "j < n" | "i < n" "j = n"
        using ij len(1) by linarith
      then show ?thesis
      proof cases
        case 1
        then show ?thesis
          using prices_ok_apart [OF okP, of i j] old(2) ij(3) by (simp add: n_def)
      next
        case 2
        then show ?thesis using old(2) [of j] new(2) inP [of j] by auto
      next
        case 3
        then show ?thesis using old(2) [of i] new(2) inP [of i] by auto
      qed
    qed
    show "bf_prec x = 53" if "x \<in> set (gp_cells Q)" for x
      using that okP price by (auto simp: Q_def prices_ok_def)
    have id: "mt_coinGeckoId (gp_entries Q ! i) = (if i < n then mt_coinGeckoId (gp_entries P ! i) else tc_coinGeckoId ct)"
      if "i < length (gp_entries Q)" for i
      using that old(3) new(3) len(1) by (cases "i < n") (auto simp: te_def less_Suc_eq)
    show "case gp_tokensByCoinGeckoId Q g of
        None \<Rightarrow> entries_of Q g = {} | Some cge \<Rightarrow> distinct cge \<and> set cge = entries_of Q g" for g
    proof -
      have "entries_of Q g = (if g = tc_coinGeckoId ct then insert n (entries_of P g) else entries_of P g)"
        using id len(1) by (auto simp: entries_of_def n_def less_Suc_eq)
      moreover have "n \<notin> entries_of P g"
        by (simp add: entries_of_def n_def)
      moreover have "gp_tokensByCoinGeckoId Q g = (if g = tc_coinGeckoId ct
          then Some (case gp_tokensByCoinGeckoId P g of None \<Rightarrow> [n] | Some cge \<Rightarrow> cge @ [n]) else gp_tokensByCoinGeckoId P g)"
        by (simp add: Q_def)
      ultimately show ?thesis
        using prices_ok_ids [OF okP, of g] by (cases "gp_tokensByCoinGeckoId P g") (auto split: if_splits)
    qed
    show "i < length (gp_entries Q)" "mt_token (gp_entries Q ! i) = k" if ki: "gp_tokens Q k = Some i" for k i
    proof -
      have Qk: "gp_tokens Q k = (if k = mt_token te then Some n else gp_tokens P k)"
        by (simp add: Q_def)
      have "i < length (gp_entries Q) \<and> mt_token (gp_entries Q ! i) = k"
      proof (cases "k = mt_token te")
        case True
        with ki Qk have "i = n" by simp
        then show ?thesis using new(3) len(1) True by (simp only: less_Suc_eq simp_thms)
      next
        case False
        with ki Qk have "gp_tokens P k = Some i" by simp
        from prices_ok_tokens [OF okP this] show ?thesis
          using old(3) [of i] len(1) by (simp add: n_def)
      qed
      then show "i < length (gp_entries Q)" "mt_token (gp_entries Q ! i) = k" by simp_all
    qed
  qed
  moreover have "\<exists>c. price_view Q i = (c, c, False)" if "i < length (gp_entries Q)" for i
    using that old(1) new(1) views len(1) by (cases "i < n") (auto simp: less_Suc_eq)
  moreover have "gp_tokens Q = (gp_tokens P)(\<lparr>tk_chain = tc_chain ct, tk_addr = addr\<rparr> \<mapsto> length (gp_entries P))"
    by (simp add: Q_def te_def n_def)
  ultimately show ?thesis
    using addr by (auto simp: configured_def)
qed

lemma add_tokens_ok:
  "configured P \<Longrightarrow> list_all good_token cts \<Longrightarrow>
     \<exists>Q. add_tokens cts P = Inr Q \<and> configured Q \<and> (cts \<noteq> [] \<or> gp_tokens P \<noteq> Map.empty \<longrightarrow> gp_tokens Q \<noteq> Map.empty) \<and>
       dom (gp_tokens Q) = dom (gp_tokens P) \<union> {\<lparr>tk_chain = tc_chain ct, tk_addr = a\<rparr> | ct a. ct \<in> set cts \<and> StringToAddress (tc_addr ct) = Inr a}"
proof (induction cts arbitrary: P)
  case (Cons ct cts)
  then obtain R a where R: "add_token ct P = Inr R" "configured R" "StringToAddress (tc_addr ct) = Inr a"
    "gp_tokens R = (gp_tokens P)(\<lparr>tk_chain = tc_chain ct, tk_addr = a\<rparr> \<mapsto> length (gp_entries P))"
    using add_token_ok [of P ct] by auto
  then have "gp_tokens R \<noteq> Map.empty" by simp
  moreover obtain Q where "add_tokens cts R = Inr Q" "configured Q" "gp_tokens R \<noteq> Map.empty \<longrightarrow> gp_tokens Q \<noteq> Map.empty"
    "dom (gp_tokens Q) = dom (gp_tokens R) \<union> {\<lparr>tk_chain = tc_chain ct, tk_addr = a\<rparr> | ct a. ct \<in> set cts \<and> StringToAddress (tc_addr ct) = Inr a}"
    using Cons.IH [OF R(2)] Cons.prems(2) by auto
  ultimately show ?case
    using R(1,3,4) by auto
qed simp

lemma enable_flow_cancel_ok:
  "configured P \<Longrightarrow> list_all good_token fcs \<Longrightarrow>
     \<exists>Q. enable_flow_cancel fcs P = Inr Q \<and> configured Q \<and> gp_tokens Q = gp_tokens P"
proof (induction fcs arbitrary: P)
  case (Cons fc fcs)
  obtain a where a: "StringToAddress (tc_addr fc) = Inr a"
    using good_token_addr [of fc] Cons.prems(2) by auto
  define R where "R = (case gp_tokens P \<lparr>tk_chain = tc_chain fc, tk_addr = a\<rparr> of
    None \<Rightarrow> P | Some i \<Rightarrow> put_token i ((gp_entries P ! i)\<lparr>mt_flowCancels := True\<rparr>) P)"
  have "configured R \<and> gp_tokens R = gp_tokens P"
  proof (cases "gp_tokens P \<lparr>tk_chain = tc_chain fc, tk_addr = a\<rparr>")
    case (Some i)
    have ok: "prices_ok P"
      using Cons.prems(1) by (simp add: configured_def)
    have i: "i < length (gp_entries P)"
      using prices_ok_tokens [OF ok Some] by simp
    have R: "R = P\<lparr>gp_cells := (gp_cells P)[mt_price (gp_entries P ! i) := gp_cells P ! mt_price (gp_entries P ! i)],
        gp_entries := (gp_entries P)[i := (gp_entries P ! i)\<lparr>mt_flowCancels := True\<rparr>]\<rparr>"
      using Some by (simp add: R_def put_token_def)
    have only: "only_entries {i} P R"
      unfolding R using prices_okD [OF ok i] prices_ok_prec [OF ok] by (intro change_entry [OF ok i]) (simp_all add: cells_of_def)
    moreover have "price_view R i = price_view P i"
      using i by (simp add: R price_view_def Let_def)
    ultimately have "\<exists>c. price_view R j = (c, c, False)" if "j < length (gp_entries P)" for j
      using that Cons.prems(1) by (cases "j = i") (simp_all add: only_entries_def configured_def)
    then show ?thesis
      using only by (simp add: only_entries_def configured_def)
  qed (use Cons.prems(1) in \<open>simp add: R_def\<close>)
  then show ?case
    using Cons.IH [of R] Cons.prems(2) a by (simp add: R_def)
qed simp

section \<open>Chains\<close>

text \<open>An entry of the governor's chains as it is configured.\<close>

definition chain_entry_of :: "chainConfigEntry \<Rightarrow> Address \<Rightarrow> chainEntry" where
  "chain_entry_of cc addr = \<lparr>ce_emitterChainId = cc_emitterChainID cc, ce_emitterAddr = addr, ce_dailyLimit = cc_dailyLimit cc,
     ce_bigTransactionSize = cc_bigTransactionSize cc, ce_checkForBigTransactions = (cc_bigTransactionSize cc \<noteq> 0),
     ce_transfers = [], ce_pending = []\<rparr>"

lemma add_chains_ok:
  "distinct (map cc_emitterChainID ccs) \<Longrightarrow> \<forall>cc \<in> set ccs. \<exists>b. map_of m (cc_emitterChainID cc) = Some b \<and> length b = 32 \<Longrightarrow>
     \<exists>es. add_chains m ccs entries = Inr es \<and>
       (\<forall>c. c \<notin> cc_emitterChainID ` set ccs \<longrightarrow> es c = entries c) \<and>
       (\<forall>cc \<in> set ccs. es (cc_emitterChainID cc) = map_option (chain_entry_of cc) (map_of m (cc_emitterChainID cc)))"
proof (induction ccs arbitrary: entries)
  case (Cons cc ccs)
  then obtain b where b: "map_of m (cc_emitterChainID cc) = Some b" "length b = 32" by auto
  define es1 where "es1 = entries(cc_emitterChainID cc \<mapsto> chain_entry_of cc b)"
  obtain es where es: "add_chains m ccs es1 = Inr es" "\<forall>c. c \<notin> cc_emitterChainID ` set ccs \<longrightarrow> es c = es1 c"
    "\<forall>cc \<in> set ccs. es (cc_emitterChainID cc) = map_option (chain_entry_of cc) (map_of m (cc_emitterChainID cc))"
    using Cons.IH [of es1] Cons.prems by auto
  have "add_chains m (cc # ccs) entries = Inr es"
    using es(1) b by (simp add: BytesToAddress_32 es1_def chain_entry_of_def)
  with es Cons.prems(1) b(1) show ?case
    by (auto simp: es1_def)
qed simp

lemma governor_emitters_ok: "\<exists>m. governor_emitters env = Inr m \<and> distinct (map fst m) \<and>
    list_all (\<lambda>(c, b). c \<in> set GetAllNetworkIDs \<and> length b = 32) m \<and>
    map fst m = map fst (case env of TestNet \<Rightarrow> knownTestnetTokenbridgeEmitters
      | UnsafeDevNet \<Rightarrow> knownDevnetTokenbridgeEmitters | _ \<Rightarrow> knownTokenbridgeEmitters)"
  using buildEmitterMap_good [OF good_knownTokenbridgeEmitters] buildEmitterMap_good [OF good_knownTestnetTokenbridgeEmitters]
    buildEmitterMap_good [OF good_knownDevnetTokenbridgeEmitters] distinct_tables
  by (cases env) (auto simp: governor_emitters_def KnownTokenbridgeEmitters_def KnownTestnetTokenbridgeEmitters_def
      KnownDevnetTokenbridgeEmitters_def)

section \<open>The tables\<close>

lemma chain_row_id [simp]: "cc_emitterChainID (chain_row (c, l, b)) = c"
  by (simp add: chain_row_def)

lemma good_token_row: "good_token (token_row (c, a, s, g, d, n, k)) \<longleftrightarrow> length a = 64 \<and> list_all is_hex a"
  by (simp add: good_token_def)

lemma good_tables:
  "list_all good_token manualTokenList" "list_all good_token FlowCancelTokenList"
  by (simp_all add: manualTokenList_def FlowCancelTokenList_def good_token_row is_hex_simps)

lemma good_devnet: "case initDevnetConfig fc of (_, ts, fcs, ccs, cs) \<Rightarrow> list_all good_token ts \<and> ts \<noteq> [] \<and> list_all good_token fcs \<and>
    ccs \<noteq> [] \<and> distinct (map cc_emitterChainID ccs) \<and> cc_emitterChainID ` set ccs \<subseteq> fst ` set knownDevnetTokenbridgeEmitters \<and>
    ValidateCorridors cs"
  by (simp add: initDevnetConfig_def good_token_row is_hex_simps knownDevnetTokenbridgeEmitters_def ValidateCorridors_def)

lemma good_testnet: "case initTestnetConfig fc of (ts, fcs, ccs, cs) \<Rightarrow> list_all good_token ts \<and> ts \<noteq> [] \<and> list_all good_token fcs \<and>
    ccs \<noteq> [] \<and> distinct (map cc_emitterChainID ccs) \<and> cc_emitterChainID ` set ccs \<subseteq> fst ` set knownTestnetTokenbridgeEmitters \<and>
    ValidateCorridors cs"
  by (simp add: initTestnetConfig_def good_token_row is_hex_simps knownTestnetTokenbridgeEmitters_def ValidateCorridors_def
      corridor_equals_def valid_def ChainIDUnset_def)

lemma good_mainnet: "chainList \<noteq> []" "distinct (map cc_emitterChainID chainList)"
    "cc_emitterChainID ` set chainList \<subseteq> fst ` set knownTokenbridgeEmitters" "ValidateCorridors FlowCancelCorridors"
  by (simp_all add: chainList_def knownTokenbridgeEmitters_def ValidateCorridors_def FlowCancelCorridors_def
      corridor_equals_def valid_def ChainIDUnset_def)

section \<open>Starting\<close>

lemma config_ok:
  assumes "list_all good_token generated" and "config_for generated env fc = (day, ts, fcs, ccs, cs)"
  shows "0 < day" "list_all good_token ts" "ts \<noteq> []" "list_all good_token fcs" "ccs \<noteq> []"
    "distinct (map cc_emitterChainID ccs)" "ValidateCorridors cs"
    "governor_emitters env = Inr m \<Longrightarrow> cc_emitterChainID ` set ccs \<subseteq> fst ` set m"
proof -
  have "0 < day \<and> list_all good_token ts \<and> ts \<noteq> [] \<and> list_all good_token fcs \<and> ccs \<noteq> [] \<and> distinct (map cc_emitterChainID ccs) \<and>
      ValidateCorridors cs \<and> cc_emitterChainID ` set ccs \<subseteq> fst ` set (case env of TestNet \<Rightarrow> knownTestnetTokenbridgeEmitters
        | UnsafeDevNet \<Rightarrow> knownDevnetTokenbridgeEmitters | _ \<Rightarrow> knownTokenbridgeEmitters)"
  proof -
    have "0 < fst (initDevnetConfig fc)"
      by (simp add: initDevnetConfig_def)
    moreover have "list_all good_token (tokenList generated)" "tokenList generated \<noteq> []"
      using good_tables(1) assms(1) by (simp_all add: tokenList_def manualTokenList_def)
    moreover have "ValidateCorridors []"
      by (simp add: ValidateCorridors_def)
    ultimately show ?thesis
      using assms(2) good_devnet [of fc] good_testnet [of fc] good_mainnet good_tables(2)
      by (cases env) (auto simp: config_for_def split: if_splits)
  qed
  then show "0 < day" "list_all good_token ts" "ts \<noteq> []" "list_all good_token fcs" "ccs \<noteq> []"
    "distinct (map cc_emitterChainID ccs)" "ValidateCorridors cs"
    "governor_emitters env = Inr m \<Longrightarrow> cc_emitterChainID ` set ccs \<subseteq> fst ` set m"
    using governor_emitters_ok [of env] by (auto simp flip: set_map)
qed

lemma emitters_of_chains:
  assumes "\<And>cc. cc \<in> set ccs \<Longrightarrow> cc_emitterChainID cc \<in> fst ` set m" "list_all (\<lambda>(c, b). length b = 32) m" "cc \<in> set ccs"
  shows "\<exists>b. map_of m (cc_emitterChainID cc) = Some b \<and> length b = 32"
proof -
  obtain b where "map_of m (cc_emitterChainID cc) = Some b"
    using assms(1,3) by (metis map_of_eq_None_iff option.exhaust)
  with assms(2) map_of_SomeD show ?thesis
    by (fastforce simp: list_all_iff)
qed

text \<open>The map that add_chains builds, as a lookup in the list of chains.\<close>

lemma entries_by_find:
  assumes "\<forall>c. c \<notin> cc_emitterChainID ` set ccs \<longrightarrow> es c = None"
    and "\<forall>cc \<in> set ccs. es (cc_emitterChainID cc) = map_option (chain_entry_of cc) (map_of m (cc_emitterChainID cc))"
  shows "es c = (case find (\<lambda>cc. cc_emitterChainID cc = c) ccs of
    None \<Rightarrow> None | Some cc \<Rightarrow> map_option (chain_entry_of cc) (map_of m c))"
proof (cases "find (\<lambda>cc. cc_emitterChainID cc = c) ccs")
  case None
  then have "c \<notin> cc_emitterChainID ` set ccs"
    by (auto simp: find_None_iff)
  with None assms(1) show ?thesis by simp
next
  case (Some cc)
  then have "cc \<in> set ccs" "cc_emitterChainID cc = c"
    by (auto simp: find_Some_iff)
  with assms(2) Some show ?thesis by auto
qed



section \<open>The queries\<close>

text \<open>The list of ids in pieces of n.\<close>

fun pieces :: "nat \<Rightarrow> 'a list \<Rightarrow> 'a list list" where
  "pieces n [] = []"
| "pieces n (x # xs) = take n (x # xs) # pieces n (drop (Suc (n - 1)) (x # xs))"

fun join_ids :: "string list \<Rightarrow> string" where
  "join_ids [] = []"
| "join_ids [g] = g"
| "join_ids (g # gs) = g @ '','' @ join_ids gs"

lemma join_ids_snoc: "gs \<noteq> [] \<Longrightarrow> join_ids (gs @ [g]) = join_ids gs @ '','' @ g"
  by (induction gs rule: join_ids.induct) auto

lemma join_ids_Nil: "list_all (\<lambda>g. g \<noteq> []) gs \<Longrightarrow> join_ids gs = [] \<longleftrightarrow> gs = []"
  by (cases gs rule: join_ids.cases) auto

lemma pieces_short: "xs \<noteq> [] \<Longrightarrow> length xs \<le> n \<Longrightarrow> pieces n xs = [xs]"
  by (cases xs) auto

lemma pieces_full: "length c = n \<Longrightarrow> 0 < n \<Longrightarrow> pieces n (c @ xs) = c # pieces n xs"
  by (cases c) auto

text \<open>c holds the ids of the current query, full the number of complete queries before it.\<close>

lemma query_loop_pieces:
  "0 < n \<Longrightarrow> list_all (\<lambda>g. g \<noteq> []) (c @ idList) \<Longrightarrow> length c \<le> n \<Longrightarrow> (c = [] \<longrightarrow> full = 0) \<Longrightarrow>
     (case query_loop query n idList queries (full * n + length c) (join_ids c) (c = []) of
        (qs, ids) \<Rightarrow> if ids \<noteq> [] then qs @ [query ids] else qs) =
     queries @ map (\<lambda>p. query (join_ids p)) (pieces n (c @ idList))"
proof (induction idList arbitrary: c full queries)
  case Nil
  then show ?case
    by (simp add: join_ids_Nil pieces_short)
next
  case (Cons g idList)
  show ?case
  proof (cases "length c = n")
    case True
    then have c: "c \<noteq> []" using Cons.prems(1) by auto
    have idx: "full * n + length c = (full + 1) * n" using True by simp
    have step: "query_loop query n (g # idList) queries (full * n + length c) (join_ids c) (c = []) =
        query_loop query n idList (queries @ [query (join_ids c)]) ((full + 1) * n + length [g]) (join_ids [g]) ([g] = [])"
      unfolding idx using Cons.prems(1) c by simp
    have "(case query_loop query n (g # idList) queries (full * n + length c) (join_ids c) (c = []) of
        (qs, ids) \<Rightarrow> if ids \<noteq> [] then qs @ [query ids] else qs) =
        (queries @ [query (join_ids c)]) @ map (\<lambda>p. query (join_ids p)) (pieces n ([g] @ idList))"
      unfolding step using Cons.prems by (intro Cons.IH) auto
    then show ?thesis
      using True Cons.prems(1) by (simp only: pieces_full) simp
  next
    case False
    have "(full * n + length c) mod n = 0 \<and> full * n + length c \<noteq> 0 \<longleftrightarrow> False"
      using False Cons.prems(1,3,4) by (cases "c = []") (auto simp: mod_less)
    then have step: "query_loop query n (g # idList) queries (full * n + length c) (join_ids c) (c = []) =
        query_loop query n idList queries (full * n + length (c @ [g])) (join_ids (c @ [g])) (c @ [g] = [])"
      by (cases "c = []") (simp_all add: join_ids_snoc)
    have "(case query_loop query n (g # idList) queries (full * n + length c) (join_ids c) (c = []) of
        (qs, ids) \<Rightarrow> if ids \<noteq> [] then qs @ [query ids] else qs) =
        queries @ map (\<lambda>p. query (join_ids p)) (pieces n ((c @ [g]) @ idList))"
      unfolding step using Cons.prems False by (intro Cons.IH) auto
    then show ?thesis by simp
  qed
qed

text \<open>
  The loop that builds the queries is the division of the ids into pieces of tokensPerQuery, one query with
  the ids of a piece joined by commas each.
\<close>

lemma createCoinGeckoQueries_pieces:
  "0 < n \<Longrightarrow> list_all (\<lambda>g. g \<noteq> []) idList \<Longrightarrow>
     createCoinGeckoQueries encode idList n key = map (\<lambda>p. createCoinGeckoQuery encode (join_ids p) key) (pieces n idList)"
  using query_loop_pieces [of n "[]" idList 0 "\<lambda>ids. createCoinGeckoQuery encode ids key" "[]"]
  by (simp add: createCoinGeckoQueries_def Let_def)

section \<open>Examples\<close>

text \<open>Wrapped ether, configured at 1174 dollars, and an answer with its price.\<close>

definition weth_key :: tokenKey where
  "weth_key = \<lparr>tk_chain = 2, tk_addr = replicate 32 1\<rparr>"

definition weth_ids :: "string \<rightharpoonup> nat list" where
  "weth_ids = [''weth'' \<mapsto> [0]]"

lemma dom_weth_ids: "dom weth_ids = {''weth''}"
  by (simp add: weth_ids_def)

definition weth_prices :: gov_prices where
  "weth_prices = \<lparr>gp_cells = [float64 1174 0, float64 1174 0],
     gp_entries = [\<lparr>mt_price = 1, mt_decimals = 100000000, mt_symbol = ''WETH'', mt_coinGeckoId = ''weth'',
       mt_token = weth_key, mt_cfgPrice = 0, mt_coinGeckoPrice = None, mt_priceTime = 0, mt_flowCancels = False\<rparr>],
     gp_tokens = [weth_key \<mapsto> 0], gp_tokensByCoinGeckoId = weth_ids, gp_coinGeckoQueries = []\<rparr>"

definition weth_json :: "BigFloat \<Rightarrow> string \<Rightarrow> go_error + (string \<times> cg_data) list" where
  "weth_json x body = Inr [(''weth'', CG_Object [(''usd'', CG_Number x)])]"

lemma weth_ok: "prices_ok weth_prices" "price_view weth_prices 0 = (float64 1174 0, float64 1174 0, False)"
  by (auto simp: prices_ok_def weth_prices_def weth_ids_def cells_of_def entries_of_def price_view_def Let_def)

lemma weth_query:
  assumes "gp_tokensByCoinGeckoId P = weth_ids" and "bf_prec x = 53"
  shows "\<exists>Q. query_step P (answer_for (weth_json x) [Inr ''{}'']) Q"
    and "answer_for (weth_json x) [Inr ''{}''] ''weth'' = Some x"
proof -
  have g: "gather (weth_json x) [Inr ''{}''] Map.empty = Inr [''weth'' \<mapsto> CG_Object [(''usd'', CG_Number x)]]"
    by (simp add: queryCoinGeckoChunk_def weth_json_def)
  obtain r Q where Q: "queryCoinGecko (weth_json x) 0 [Inr ''{}''] [''weth''] [''weth''] P = (r, Q)"
    by fastforce
  have "query_step P (answer_for (weth_json x) [Inr ''{}'']) Q"
    using assms g by (intro query_step.query [OF Q])
      (auto simp: float64_answers_def weth_json_def price_of_def dom_weth_ids queryCoinGeckoChunk_def split: if_splits)
  then show "\<exists>Q. query_step P (answer_for (weth_json x) [Inr ''{}'']) Q" by blast
  show "answer_for (weth_json x) [Inr ''{}''] ''weth'' = Some x"
    using g by (simp add: answer_for_def price_of_def)
qed

lemma weth_failure:
  assumes "gp_tokensByCoinGeckoId P = weth_ids"
  shows "\<exists>Q. query_step P (answer_for (weth_json x) [Inl EOF]) Q" and "answer_for (weth_json x) [Inl EOF] ''weth'' = None"
proof -
  have g: "\<exists>e. gather (weth_json x) [Inl EOF] Map.empty = Inl e"
    by (simp add: queryCoinGeckoChunk_def)
  then show "answer_for (weth_json x) [Inl EOF] ''weth'' = None"
    by (auto simp: answer_for_def)
  obtain r Q where Q: "queryCoinGecko (weth_json (float64 0 0)) 0 [Inl EOF] [] [''weth''] P = (r, Q)"
    by fastforce
  have "query_step P (answer_for (weth_json (float64 0 0)) [Inl EOF]) Q"
    using assms by (intro query_step.query [OF Q]) (auto simp: float64_answers_def weth_json_def price_of_def queryCoinGeckoChunk_def dom_weth_ids)
  moreover have "answer_for (weth_json (float64 0 0)) [Inl EOF] = answer_for (weth_json x) [Inl EOF]"
    by (simp add: answer_for_def queryCoinGeckoChunk_def fun_eq_iff)
  ultimately show "\<exists>Q. query_step P (answer_for (weth_json x) [Inl EOF]) Q"
    by auto
qed

lemma weth_entry: "gp_tokensByCoinGeckoId weth_prices = weth_ids" "gp_tokens weth_prices weth_key = Some 0"
    "mt_coinGeckoId (gp_entries weth_prices ! 0) = ''weth''"
  by (simp_all add: weth_prices_def)

lemma weth_run:
  assumes "prices_ok P" and "gp_tokensByCoinGeckoId P = weth_ids" and "\<forall>x \<in> set xs. x = None \<or> (\<exists>c. x = Some c \<and> bf_prec c = 53)"
  shows "\<exists>as Q. query_run P as Q \<and> map (\<lambda>a. a ''weth'') as = xs"
  using assms
proof (induction xs arbitrary: P)
  case Nil
  have "query_run P [] P \<and> map (\<lambda>a. a ''weth'') [] = []" by simp
  then show ?case by (intro exI)
next
  case (Cons x xs)
  obtain a R where R: "query_step P a R" "a ''weth'' = x"
    using Cons.prems(3) weth_query [OF Cons.prems(2)] weth_failure [OF Cons.prems(2)] by (cases x) (simp_all, metis+)
  have "prices_ok R" "gp_tokensByCoinGeckoId R = weth_ids"
    using query_step_effect(1) [OF R(1) Cons.prems(1)] Cons.prems(2) by (simp_all add: only_entries_def)
  from Cons.IH [OF this] Cons.prems(3) obtain "as" Q where "query_run R as Q" "map (\<lambda>a. a ''weth'') as = xs"
    by (metis list.set_intros(2))
  with R have "query_run P (a # as) Q \<and> map (\<lambda>a. a ''weth'') (a # as) = x # xs" by auto
  then show ?case by (intro exI)
qed

text \<open>Two answers, 1500 and then 1000 dollars: the price is the configured one.\<close>

theorem price_is_max_witness:
  "\<exists>as Q te. query_run weth_prices as Q \<and> map (\<lambda>a. a ''weth'') as = [Some (float64 1500 0), Some (float64 1000 0)] \<and>
     governor_tokens Q weth_key = Some te \<and> bf_real (te_price te) = max (bf_real (float64 1174 0)) (bf_real (float64 1000 0))"
proof -
  obtain "as" Q where run: "query_run weth_prices as Q" "map (\<lambda>a. a ''weth'') as = [Some (float64 1500 0)] @ [Some (float64 1000 0)]"
    using weth_run [OF weth_ok(1) weth_entry(1), of "[Some (float64 1500 0)] @ [Some (float64 1000 0)]"] by fastforce
  from price_is_max [OF run(1) weth_ok(1) weth_entry(2) weth_ok(2), unfolded weth_entry(3), OF run(2)] obtain te
    where "governor_tokens Q weth_key = Some te" "bf_real (te_price te) = max (bf_real (float64 1174 0)) (bf_real (float64 1000 0))"
    by auto
  then show ?thesis
    using run by (intro exI [of _ "as"] exI [of _ Q] exI [of _ te]) simp
qed

text \<open>A failure, 1500 and then 1000 dollars: the price stays at 1500.\<close>

theorem failed_query_ratchets_witness:
  "\<exists>as Q te. query_run weth_prices as Q \<and> map (\<lambda>a. a ''weth'') as = [None, Some (float64 1500 0), Some (float64 1000 0)] \<and>
     governor_tokens Q weth_key = Some te \<and>
     bf_real (te_price te) = max (bf_real (float64 1000 0)) (max (bf_real (float64 1500 0)) (bf_real (float64 1174 0)))"
proof -
  define xs where "xs = [] @ None # [Some (float64 1500 0), Some (float64 1000 0)]"
  obtain "as" Q where run: "query_run weth_prices as Q" "map (\<lambda>a. a ''weth'') as = xs"
    using weth_run [OF weth_ok(1) weth_entry(1), of xs] unfolding xs_def by fastforce
  from failed_query_ratchets [OF run(1) weth_ok(1) weth_entry(2) weth_ok(2), unfolded weth_entry(3), OF run(2) [unfolded xs_def]]
  obtain te where "governor_tokens Q weth_key = Some te"
    "bf_real (te_price te) = max (bf_real (float64 1000 0)) (max (bf_real (float64 1500 0)) (bf_real (float64 1174 0)))"
    by (auto simp: peak_def)
  then show ?thesis
    using run by (intro exI [of _ "as"] exI [of _ Q] exI [of _ te]) (simp add: xs_def)
qed

end
