(* ===== verification/GovMonitor.thy ===== *)
theory GovMonitor imports GovAdmin GovPrices "HOL-Library.Char_ord" "HOL-Library.List_Lexorder" "HOL-Library.Product_Lexorder" begin

text \<open>
  What the chain governor tells others: the queries of node/pkg/governor/governor_monitoring.go over
  chains, tokens and enqueued VAAs, and the messages with its configuration and its status that
  CollectMetrics publishes. The encoding of these messages (protobuf) is an argument; the metrics and the
  text of Status are left out. order lists the governed chains as the map is ranged over.
\<close>

section \<open>Queries\<close>

record available_notional =
  an_ChainId :: "32 word"
  an_RemainingAvailableNotional :: "64 word"
  an_NotionalLimit :: "64 word"
  an_BigTransactionSize :: "64 word"

text \<open>A chain of chainIds without an entry would be a nil pointer.\<close>

definition available_entry :: "time \<Rightarrow> 's ChainGovernor \<Rightarrow> ChainID \<Rightarrow> go_error + available_notional" where
  "available_entry startTime g cid =
     (case gov_chains g cid of
        None \<Rightarrow> Inl (Panic ''nil chain entry'')
      | Some ce \<Rightarrow>
          let entry = (\<lambda>remaining. \<lparr>an_ChainId = ucast (ce_emitterChainId ce), an_RemainingAvailableNotional = remaining,
                         an_NotionalLimit = ce_dailyLimit ce, an_BigTransactionSize = ce_bigTransactionSize ce\<rparr>)
          in (case sumValue (ce_transfers ce) startTime of
                Inl _ \<Rightarrow> Inr (entry 0)
              | Inr (netUsage, _, _) \<Rightarrow> chk (availableNotionalValue cid netUsage g) (\<lambda>remaining. Inr (entry remaining))))"

definition GetAvailableNotionalByChain :: "time \<Rightarrow> 's ChainGovernor \<Rightarrow> go_error + available_notional list" where
  "GetAvailableNotionalByChain now g =
     chk (map_err (available_entry (start_time now g) g) (gov_chainIds g)) (\<lambda>resp. Inr (sort_key an_ChainId resp))"

text \<open>
  Status: the lines of the answer, without their wording; a sum that fails makes it a single line. order is
  the order in which the map of the chains is ranged over.
\<close>

datatype status_line =
    SL_Overflow ChainID
  | SL_Chain ChainID "64 word" "64 word" nat
  | SL_Pending ChainID nat "64 word" string time time

definition status_pending :: "'s ChainGovernor \<Rightarrow> chainEntry \<Rightarrow> nat \<times> pendingEntry \<Rightarrow> status_line" where
  "status_pending g ce = (\<lambda>(idx, pe). SL_Pending (ce_emitterChainId ce) idx
     (case pending_value g pe of Inl _ \<Rightarrow> 0 | Inr value \<Rightarrow> value)
     (MessageIDString (pt_Msg (pe_dbData pe))) (mp_Timestamp (pt_Msg (pe_dbData pe))) (pt_ReleaseTime (pe_dbData pe)))"

fun status_lines :: "time \<Rightarrow> ChainID list \<Rightarrow> 's ChainGovernor \<Rightarrow> status_line list \<Rightarrow> status_line list" where
  "status_lines startTime [] g resp = resp"
| "status_lines startTime (cid # order) g resp =
     (case gov_chains g cid of
        None \<Rightarrow> status_lines startTime order g resp
      | Some ce \<Rightarrow>
          (case sumValue (ce_transfers ce) startTime of
             Inl _ \<Rightarrow> [SL_Overflow (ce_emitterChainId ce)]
           | Inr (netValue, _, _) \<Rightarrow> status_lines startTime order g
               (resp @ SL_Chain (ce_emitterChainId ce) (ce_dailyLimit ce) netValue (length (ce_pending ce)) #
                 map (status_pending g ce) (enumerate 0 (ce_pending ce)))))"

definition Status :: "time \<Rightarrow> ChainID list \<Rightarrow> 's ChainGovernor \<Rightarrow> status_line list" where
  "Status now order g = status_lines (start_time now g) order g []"

record enqueued_vaa =
  ev_EmitterChain :: "32 word"
  ev_EmitterAddress :: string
  ev_Sequence :: "64 word"
  ev_ReleaseTime :: "32 word"
  ev_NotionalValue :: "64 word"
  ev_TxHash :: string

text \<open>A value that cannot be computed is reported as 0.\<close>

definition reported_value :: "'s ChainGovernor \<Rightarrow> pendingEntry \<Rightarrow> go_error + 64 word" where
  "reported_value g pe = (case pending_value g pe of Inl (Panic m) \<Rightarrow> Inl (Panic m) | Inl _ \<Rightarrow> Inr 0 | Inr v \<Rightarrow> Inr v)"

definition enqueued_entry :: "'s ChainGovernor \<Rightarrow> pendingEntry \<Rightarrow> go_error + enqueued_vaa" where
  "enqueued_entry g pe =
     (let msg = pt_Msg (pe_dbData pe) in
      chk (reported_value g pe) (\<lambda>value. Inr
        \<lparr>ev_EmitterChain = ucast (mp_EmitterChain msg), ev_EmitterAddress = Address_String (mp_EmitterAddress msg),
         ev_Sequence = mp_Sequence msg, ev_ReleaseTime = word_of_int (unix_secs (pt_ReleaseTime (pe_dbData pe))),
         ev_NotionalValue = value, ev_TxHash = TxIDString msg\<rparr>))"

definition GetEnqueuedVAAs :: "ChainID list \<Rightarrow> 's ChainGovernor \<Rightarrow> go_error + enqueued_vaa list" where
  "GetEnqueuedVAAs order g = map_err (enqueued_entry g) (concat (map (\<lambda>c. pending_of c g) order))"

record token_info =
  ti_OriginChainId :: "32 word"
  ti_OriginAddress :: string
  ti_Price :: BigFloat

text \<open>\<open>x.Float32()\<close> for prices in the range of normal float32 numbers.\<close>

definition bf_Float32 :: "BigFloat \<Rightarrow> BigFloat" where
  "bf_Float32 x = bf_Set \<lparr>bf_mant = 0, bf_exp = 0, bf_prec = 24\<rparr> x"

definition token_info_of :: "tokenKey \<times> tokenEntry \<Rightarrow> token_info" where
  "token_info_of = (\<lambda>(tk, te). \<lparr>ti_OriginChainId = ucast (tk_chain tk), ti_OriginAddress = ''0x'' @ Address_String (tk_addr tk),
     ti_Price = bf_Float32 (te_price te)\<rparr>)"

text \<open>keys lists the keys of the token map as it is ranged over.\<close>

definition ranged_tokens :: "tokenKey list \<Rightarrow> 's ChainGovernor \<Rightarrow> (tokenKey \<times> tokenEntry) list" where
  "ranged_tokens keys g = List.map_filter (\<lambda>k. map_option (Pair k) (gov_tokens g k)) keys"

definition GetTokenList :: "tokenKey list \<Rightarrow> 's ChainGovernor \<Rightarrow> token_info list" where
  "GetTokenList keys g =
     sort_key (\<lambda>t. (ti_OriginChainId t, ti_OriginAddress t)) (map token_info_of (ranged_tokens keys g))"

section \<open>Published messages\<close>

record config_chain =
  gc_ChainId :: "32 word"
  gc_NotionalLimit :: "64 word"
  gc_BigTransactionSize :: "64 word"

record ChainGovernorConfig =
  cfg_NodeName :: string
  cfg_Counter :: "64 word"
  cfg_Timestamp :: "64 word"
  cfg_Chains :: "config_chain list"
  cfg_Tokens :: "token_info list"
  cfg_FlowCancelEnabled :: bool

record status_vaa =
  sv_Sequence :: "64 word"
  sv_ReleaseTime :: "32 word"
  sv_NotionalValue :: "64 word"
  sv_TxHash :: string

definition status_entry :: "'s ChainGovernor \<Rightarrow> pendingEntry \<Rightarrow> go_error + status_vaa" where
  "status_entry g pe =
     chk (reported_value g pe) (\<lambda>value. Inr
       \<lparr>sv_Sequence = mp_Sequence (pt_Msg (pe_dbData pe)),
        sv_ReleaseTime = word_of_int (unix_secs (pt_ReleaseTime (pe_dbData pe))),
        sv_NotionalValue = value, sv_TxHash = TxIDString (pt_Msg (pe_dbData pe))\<rparr>)"

record status_emitter =
  em_EmitterAddress :: string
  em_TotalEnqueuedVaas :: "64 word"
  em_EnqueuedVaas :: "status_vaa list"

record status_chain =
  sc_ChainId :: "32 word"
  sc_RemainingAvailableNotional :: "64 word"
  sc_Emitter :: status_emitter
  sc_SmallTxNetNotionalValue :: "64 word"
  sc_SmallTxOutgoingNotionalValue :: "64 word"
  sc_FlowCancelNotionalValue :: "64 word"

record ChainGovernorStatus =
  gs_NodeName :: string
  gs_Counter :: "64 word"
  gs_Timestamp :: "64 word"
  gs_Chains :: "status_chain list"

text \<open>A signed message: its kind, the encoded payload, the signature and the address of the guardian.\<close>

datatype gov_message_kind = SignedChainGovernorConfig | SignedChainGovernorStatus

record gov_message =
  gm_Kind :: gov_message_kind
  gm_Payload :: "byte list"
  gm_Signature :: "byte list"
  gm_GuardianAddr :: eth_address

definition governorMessagePrefixConfig :: "byte list" where
  "governorMessagePrefixConfig = bytes_of ''governor_config_000000000000000000|''"

definition governorMessagePrefixStatus :: "byte list" where
  "governorMessagePrefixStatus = bytes_of ''governor_status_000000000000000000|''"

text \<open>The counters and times of publishing, and the channel to the network.\<close>

record publisher =
  pb_nextStatusPublishTime :: time
  pb_nextConfigPublishTime :: time
  pb_statusPublishCounter :: "64 word"
  pb_configPublishCounter :: "64 word"
  pb_sendC :: "gov_message channel"

text \<open>Signing and sending; a guardian signer that fails panics. An encoding error is only logged.\<close>

definition publish_signed :: "crypto \<Rightarrow> (byte list \<Rightarrow> go_error + byte list) \<Rightarrow> eth_address \<Rightarrow> gov_message_kind \<Rightarrow>
    byte list \<Rightarrow> go_error + byte list \<Rightarrow> publisher \<Rightarrow> go_error + publisher" where
  "publish_signed c sign ourAddr kind msg_prefix payload pub =
     (case payload of
        Inl _ \<Rightarrow> Inr pub
      | Inr b \<Rightarrow>
          (case sign (Keccak256 c (msg_prefix @ b)) of
             Inl _ \<Rightarrow> Inl (Panic ''failed to sign'')
           | Inr sig \<Rightarrow> Inr (pub\<lparr>pb_sendC := chan_send
               \<lparr>gm_Kind = kind, gm_Payload = b, gm_Signature = sig, gm_GuardianAddr = ourAddr\<rparr> (pb_sendC pub)\<rparr>)))"

definition config_chain_of :: "'s ChainGovernor \<Rightarrow> ChainID \<Rightarrow> go_error + config_chain" where
  "config_chain_of g cid = (case gov_chains g cid of
     None \<Rightarrow> Inl (Panic ''nil chain entry'')
   | Some ce \<Rightarrow> Inr \<lparr>gc_ChainId = ucast (ce_emitterChainId ce), gc_NotionalLimit = ce_dailyLimit ce,
       gc_BigTransactionSize = ce_bigTransactionSize ce\<rparr>)"

definition publishConfig :: "crypto \<Rightarrow> (byte list \<Rightarrow> go_error + byte list) \<Rightarrow> eth_address \<Rightarrow>
    (ChainGovernorConfig \<Rightarrow> go_error + byte list) \<Rightarrow> tokenKey list \<Rightarrow> string \<Rightarrow> 64 word \<Rightarrow> 's ChainGovernor \<Rightarrow>
    publisher \<Rightarrow> go_error + publisher" where
  "publishConfig c sign ourAddr enc keys nodeName timestamp g pub =
     chk (map_err (config_chain_of g) (gov_chainIds g)) (\<lambda>cs.
       let pub = pub\<lparr>pb_configPublishCounter := pb_configPublishCounter pub + 1\<rparr>;
           payload = \<lparr>cfg_NodeName = nodeName, cfg_Counter = pb_configPublishCounter pub, cfg_Timestamp = timestamp,
             cfg_Chains = cs, cfg_Tokens = map token_info_of (ranged_tokens keys g),
             cfg_FlowCancelEnabled = gov_flowCancelEnabled g\<rparr>
       in publish_signed c sign ourAddr SignedChainGovernorConfig governorMessagePrefixConfig (enc payload) pub)"

text \<open>
  The entries of one chain: numEnqueued counts those listed so far in the whole message, of which there
  are at most 20; the value of every entry is computed.
\<close>

fun list_enqueued :: "'s ChainGovernor \<Rightarrow> pendingEntry list \<Rightarrow> nat \<Rightarrow> go_error + status_vaa list \<times> nat" where
  "list_enqueued g [] numEnqueued = Inr ([], numEnqueued)"
| "list_enqueued g (pe # ps) numEnqueued =
     chk (status_entry g pe) (\<lambda>e.
       if numEnqueued < 20
       then chk (list_enqueued g ps (Suc numEnqueued)) (\<lambda>(es, k). Inr (e # es, k))
       else list_enqueued g ps numEnqueued)"

fun status_chains :: "time \<Rightarrow> 's ChainGovernor \<Rightarrow> ChainID list \<Rightarrow> nat \<Rightarrow> go_error + status_chain list" where
  "status_chains startTime g [] numEnqueued = Inr []"
| "status_chains startTime g (cid # order) numEnqueued =
     (case gov_chains g cid of
        None \<Rightarrow> status_chains startTime g order numEnqueued
      | Some ce \<Rightarrow>
          let usage = sumValue (ce_transfers ce) startTime;
              (netUsage, smallTxNotional, flowCancelNotional) = (case usage of Inl _ \<Rightarrow> (0, 0, 0) | Inr u \<Rightarrow> u)
          in chk (case usage of Inl _ \<Rightarrow> Inr 0 | Inr _ \<Rightarrow> availableNotionalValue cid netUsage g) (\<lambda>remaining.
             chk (list_enqueued g (ce_pending ce) numEnqueued) (\<lambda>(enqueued, numEnqueued).
             chk (status_chains startTime g order numEnqueued) (\<lambda>scs.
             Inr (\<lparr>sc_ChainId = ucast (ce_emitterChainId ce), sc_RemainingAvailableNotional = remaining,
                   sc_Emitter = \<lparr>em_EmitterAddress = ''0x'' @ Address_String (ce_emitterAddr ce),
                     em_TotalEnqueuedVaas = word_of_nat (length (ce_pending ce)), em_EnqueuedVaas = enqueued\<rparr>,
                   sc_SmallTxNetNotionalValue = netUsage, sc_SmallTxOutgoingNotionalValue = smallTxNotional,
                   sc_FlowCancelNotionalValue = flowCancelNotional\<rparr> # scs)))))"

definition publishStatus :: "crypto \<Rightarrow> (byte list \<Rightarrow> go_error + byte list) \<Rightarrow> eth_address \<Rightarrow>
    (ChainGovernorStatus \<Rightarrow> go_error + byte list) \<Rightarrow> ChainID list \<Rightarrow> string \<Rightarrow> 64 word \<Rightarrow> time \<Rightarrow> 's ChainGovernor \<Rightarrow>
    publisher \<Rightarrow> go_error + publisher" where
  "publishStatus c sign ourAddr enc order nodeName timestamp startTime g pub =
     chk (status_chains startTime g order 0) (\<lambda>cs.
       let pub = pub\<lparr>pb_statusPublishCounter := pb_statusPublishCounter pub + 1\<rparr>;
           payload = \<lparr>gs_NodeName = nodeName, gs_Counter = pb_statusPublishCounter pub, gs_Timestamp = timestamp, gs_Chains = cs\<rparr>
       in publish_signed c sign ourAddr SignedChainGovernorStatus governorMessagePrefixStatus (enc payload) pub)"

definition CollectMetrics :: "crypto \<Rightarrow> (byte list \<Rightarrow> go_error + byte list) \<Rightarrow> eth_address \<Rightarrow>
    (ChainGovernorConfig \<Rightarrow> go_error + byte list) \<Rightarrow> (ChainGovernorStatus \<Rightarrow> go_error + byte list) \<Rightarrow> tokenKey list \<Rightarrow>
    ChainID list \<Rightarrow> string \<Rightarrow> 64 word \<Rightarrow> time \<Rightarrow> 's ChainGovernor \<Rightarrow> publisher \<Rightarrow> go_error + publisher" where
  "CollectMetrics c sign ourAddr encConfig encStatus keys order nodeName timestamp now g pub =
     (let startTime = start_time now g in
      chk (if pb_nextConfigPublishTime pub < startTime
           then chk (publishConfig c sign ourAddr encConfig keys nodeName timestamp g pub)
             (\<lambda>pub. Inr (pub\<lparr>pb_nextConfigPublishTime := startTime + 5 * minute\<rparr>))
           else Inr pub) (\<lambda>pub.
      if pb_nextStatusPublishTime pub < startTime
      then chk (publishStatus c sign ourAddr encStatus order nodeName timestamp startTime g pub)
        (\<lambda>pub. Inr (pub\<lparr>pb_nextStatusPublishTime := startTime + minute\<rparr>))
      else Inr pub))"

section \<open>What is published\<close>

lemma list_enqueued_prefix:
  "list_enqueued g ps n = Inr (es, k) \<Longrightarrow> n \<le> 20 \<Longrightarrow>
     list_all2 (\<lambda>pe e. status_entry g pe = Inr e) (take (20 - n) ps) es \<and> k = min 20 (n + length ps)"
proof (induction ps arbitrary: n es)
  case (Cons pe ps)
  show ?case
  proof (cases "n < 20")
    case True
    with Cons.prems(1) obtain e es' where e: "status_entry g pe = Inr e" "list_enqueued g ps (Suc n) = Inr (es', k)" "es = e # es'"
      by (auto simp: chk_eq_Inr)
    with Cons.IH [OF e(2)] True show ?thesis
      by (cases "20 - n") (auto simp: Suc_diff_Suc [symmetric] simp del: Suc_diff_Suc)
  next
    case False
    with Cons.prems have n: "n = 20" "list_enqueued g ps n = Inr (es, k)"
      by (auto simp: chk_eq_Inr)
    with Cons.IH [OF n(2)] show ?thesis by simp
  qed
qed simp

text \<open>The entries of a status message: the chains in their order, each with its enqueued VAAs.\<close>

lemma status_chains_listed:
  "status_chains startTime g order n = Inr cs \<Longrightarrow> n \<le> 20 \<Longrightarrow>
     list_all2 (\<lambda>pe e. status_entry g pe = Inr e) (take (20 - n) (concat (map (\<lambda>c. pending_of c g) order)))
       (concat (map (\<lambda>sc. em_EnqueuedVaas (sc_Emitter sc)) cs)) \<and>
     list_all2 (\<lambda>c sc. sc_RemainingAvailableNotional sc = remaining_of startTime c g \<and>
         em_TotalEnqueuedVaas (sc_Emitter sc) = word_of_nat (length (pending_of c g)))
       (filter (\<lambda>c. gov_chains g c \<noteq> None) order) cs"
proof (induction order arbitrary: n cs)
  case (Cons cid order)
  show ?case
  proof (cases "gov_chains g cid")
    case None
    then show ?thesis
      using Cons by (simp add: pending_of_def)
  next
    case (Some ce)
    define usage where "usage = sumValue (ce_transfers ce) startTime"
    obtain nu st fc where u: "(case usage of Inl _ \<Rightarrow> (0, 0, 0) | Inr u \<Rightarrow> u) = (nu, st, fc)"
      by (metis prod_cases3)
    obtain remaining es k scs where r: "(case usage of Inl _ \<Rightarrow> Inr 0 | Inr _ \<Rightarrow> availableNotionalValue cid nu g) = Inr remaining"
      "list_enqueued g (ce_pending ce) n = Inr (es, k)" "status_chains startTime g order k = Inr scs"
      and cs: "cs = \<lparr>sc_ChainId = ucast (ce_emitterChainId ce), sc_RemainingAvailableNotional = remaining,
                   sc_Emitter = \<lparr>em_EmitterAddress = ''0x'' @ Address_String (ce_emitterAddr ce),
                     em_TotalEnqueuedVaas = word_of_nat (length (ce_pending ce)), em_EnqueuedVaas = es\<rparr>,
                   sc_SmallTxNetNotionalValue = nu, sc_SmallTxOutgoingNotionalValue = st,
                   sc_FlowCancelNotionalValue = fc\<rparr> # scs"
      using Cons.prems(1) Some u by (auto simp: chk_eq_Inr usage_def Let_def)
    have pend: "pending_of cid g = ce_pending ce" and tr: "transfers_of cid g = ce_transfers ce"
      using Some by (simp_all add: pending_of_def transfers_of_def)
    have rem: "remaining = remaining_of startTime cid g"
      using r(1) u by (auto simp: remaining_of_def tr usage_def split: sum.splits prod.splits)
    have L: "list_all2 (\<lambda>pe e. status_entry g pe = Inr e) (take (20 - n) (ce_pending ce)) es" "k = min 20 (n + length (ce_pending ce))"
      using list_enqueued_prefix [OF r(2) Cons.prems(2)] by simp_all
    have IH: "list_all2 (\<lambda>pe e. status_entry g pe = Inr e) (take (20 - k) (concat (map (\<lambda>c. pending_of c g) order)))
        (concat (map (\<lambda>sc. em_EnqueuedVaas (sc_Emitter sc)) scs))"
      "list_all2 (\<lambda>c sc. sc_RemainingAvailableNotional sc = remaining_of startTime c g \<and>
         em_TotalEnqueuedVaas (sc_Emitter sc) = word_of_nat (length (pending_of c g)))
       (filter (\<lambda>c. gov_chains g c \<noteq> None) order) scs"
      using Cons.IH [OF r(3)] L(2) by simp_all
    have "20 - k = 20 - n - length (ce_pending ce)"
      using L(2) by simp
    then show ?thesis
      using L(1) IH Some cs rem by (auto simp: pend intro!: list_all2_appendI)
  qed
qed simp

text \<open>
  A status message tells the truth about the chains: it has an entry for every governed chain, with the
  number of its enqueued VAAs and the value that is left of its limit, and it lists the first 20 enqueued
  VAAs of all chains together, in their order.
\<close>

lemma status_message_bounded:
  assumes "status_chains startTime g order 0 = Inr cs"
  shows "length (concat (map (\<lambda>sc. em_EnqueuedVaas (sc_Emitter sc)) cs)) = min 20 (length (concat (map (\<lambda>c. pending_of c g) order))) \<and>
    map (map_sum id sv_Sequence \<circ> status_entry g) (take 20 (concat (map (\<lambda>c. pending_of c g) order))) =
      map (Inr \<circ> sv_Sequence) (concat (map (\<lambda>sc. em_EnqueuedVaas (sc_Emitter sc)) cs)) \<and>
    map (\<lambda>sc. em_TotalEnqueuedVaas (sc_Emitter sc)) cs =
      map (\<lambda>c. word_of_nat (length (pending_of c g))) (filter (\<lambda>c. gov_chains g c \<noteq> None) order) \<and>
    map sc_RemainingAvailableNotional cs = map (\<lambda>c. remaining_of startTime c g) (filter (\<lambda>c. gov_chains g c \<noteq> None) order)"
proof -
  have L: "list_all2 (\<lambda>pe e. status_entry g pe = Inr e) (take 20 (concat (map (\<lambda>c. pending_of c g) order)))
       (concat (map (\<lambda>sc. em_EnqueuedVaas (sc_Emitter sc)) cs))"
    "list_all2 (\<lambda>c sc. sc_RemainingAvailableNotional sc = remaining_of startTime c g \<and>
         em_TotalEnqueuedVaas (sc_Emitter sc) = word_of_nat (length (pending_of c g)))
       (filter (\<lambda>c. gov_chains g c \<noteq> None) order) cs"
    using status_chains_listed [OF assms] by simp_all
  have maps: "list_all2 (\<lambda>x y. P x y) xs ys \<Longrightarrow> (\<And>x y. P x y \<Longrightarrow> f x = h y) \<Longrightarrow> map f xs = map h ys"
    for P :: "'x \<Rightarrow> 'y \<Rightarrow> bool" and f :: "'x \<Rightarrow> 'z" and h xs ys
    by (induction rule: list_all2_induct) auto
  show ?thesis
  proof (intro conjI)
    show "length (concat (map (\<lambda>sc. em_EnqueuedVaas (sc_Emitter sc)) cs)) = min 20 (length (concat (map (\<lambda>c. pending_of c g) order)))"
      using list_all2_lengthD [OF L(1)] by simp
    show "map (map_sum id sv_Sequence \<circ> status_entry g) (take 20 (concat (map (\<lambda>c. pending_of c g) order))) =
      map (Inr \<circ> sv_Sequence) (concat (map (\<lambda>sc. em_EnqueuedVaas (sc_Emitter sc)) cs))"
      by (rule maps [OF L(1)]) simp
    show "map (\<lambda>sc. em_TotalEnqueuedVaas (sc_Emitter sc)) cs =
      map (\<lambda>c. word_of_nat (length (pending_of c g))) (filter (\<lambda>c. gov_chains g c \<noteq> None) order)"
      by (rule maps [OF L(2), symmetric]) simp
    show "map sc_RemainingAvailableNotional cs = map (\<lambda>c. remaining_of startTime c g) (filter (\<lambda>c. gov_chains g c \<noteq> None) order)"
      by (rule maps [OF L(2), symmetric]) simp
  qed
qed

text \<open>The governor with one pending message of 600 dollars.\<close>

theorem status_message_bounded_witness:
  "\<exists>cs. status_chains 0 (sample_gov [sample_pending 5]) [2] 0 = Inr cs \<and>
     length (concat (map (\<lambda>sc. em_EnqueuedVaas (sc_Emitter sc)) cs)) = 1 \<and>
     map sc_RemainingAvailableNotional cs = [remaining_of 0 2 (sample_gov [sample_pending 5])]"
proof -
  let ?g = "sample_gov [sample_pending 5]"
  have "reported_value ?g (sample_pending 5) = Inr 600"
    using sample_value by (simp add: reported_value_def pending_value_def sample_gov_def sample_pending_def)
  then obtain e where "status_entry ?g (sample_pending 5) = Inr e"
    by (simp add: status_entry_def)
  then have "\<exists>cs. status_chains 0 ?g [2] 0 = Inr cs"
    by (simp add: sample_gov_def sample_entry_def sumValue_def availableNotionalValue_def)
  then obtain cs where "status_chains 0 ?g [2] 0 = Inr cs" by blast
  with status_message_bounded [OF this] show ?thesis
    by (auto simp: pending_of_def sample_gov_def sample_entry_def)
qed

text \<open>The remaining value that the query reports is the one of the status.\<close>

lemma available_entry_remaining:
  "available_entry st g cid = Inr e \<Longrightarrow> an_RemainingAvailableNotional e = remaining_of st cid g"
  by (auto simp: available_entry_def remaining_of_def transfers_of_def chk_eq_Inr Let_def split: option.splits sum.splits)

text \<open>
  CollectMetrics at two times closer than the intervals publishes at most one message of each kind.
\<close>

lemma CollectMetrics_interval:
  assumes "CollectMetrics c sign a encC encS keys order node ts now g pub = Inr pub'"
    and "pub_later = pub'" and "start_time later g \<le> pb_nextConfigPublishTime pub'"
    and "start_time later g \<le> pb_nextStatusPublishTime pub'"
  shows "CollectMetrics c sign a encC encS keys order node ts later g pub_later = Inr pub'"
  using assms by (simp add: CollectMetrics_def Let_def)

end
