(* ===== verification/AdminVaa.thy ===== *)
theory AdminVaa imports Payloads MessagePub Gossip begin

text \<open>
  Governance through the admin socket: sdk/vaa/governance.go and the first half of
  node/pkg/adminrpc/adminserver.go. A request names a governance action; GovMsgToVaa checks it and
  builds the unsigned VAA, and InjectGovernanceVAA hands the messages to the processor and answers with the
  digests that the guardians will sign.

  A string of a request that is parsed is a HOL string, one that is copied into a payload a byte list.
  go-ethereum's conversions of hexadecimal addresses, uint256.FromBig, bech32 and base58 are the fields of
  the record admin_libs, an argument.
\<close>

record admin_libs =
  IsHexAddress :: "string \<Rightarrow> bool"
  HexToAddress :: "string \<Rightarrow> eth_address"
  FromBig :: "int \<Rightarrow> 256 word \<times> bool"
  GetFromBech32 :: "string \<Rightarrow> string \<Rightarrow> go_error + byte list"
  base58_Decode :: "string \<Rightarrow> go_error + byte list"

section \<open>Governance VAAs\<close>

definition GovernanceEmitter :: Address where "GovernanceEmitter = replicate 31 0 @ [4]"
definition GovernanceChain :: ChainID where "GovernanceChain = ChainIDSolana"

definition CreateGovernanceVAA :: "time \<Rightarrow> 32 word \<Rightarrow> 64 word \<Rightarrow> 32 word \<Rightarrow> byte list \<Rightarrow> VAA" where
  "CreateGovernanceVAA timestamp nonce sequence guardianSetIndex payload =
     \<lparr>vaa_Version = SupportedVAAVersion, vaa_GuardianSetIndex = guardianSetIndex, vaa_Signatures = [],
      vaa_Timestamp = timestamp, vaa_Nonce = nonce, vaa_Sequence = sequence, vaa_ConsistencyLevel = 32,
      vaa_EmitterChain = GovernanceChain, vaa_EmitterAddress = GovernanceEmitter, vaa_Payload = payload\<rparr>"

text \<open>The hashes of the parameters of a wormchain contract: H(H(H(code id) label) message).\<close>

definition CreateInstatiateCosmwasmContractHash :: "crypto \<Rightarrow> 64 word \<Rightarrow> byte list \<Rightarrow> byte list \<Rightarrow> byte list" where
  "CreateInstatiateCosmwasmContractHash c codeId label msg =
     (let codeId_hash = Keccak256 c (put codeId);
          codeIdLabel_hash = Keccak256 c (codeId_hash @ label)
      in Keccak256 c (codeIdLabel_hash @ msg))"

definition CreateMigrateCosmwasmContractHash :: "crypto \<Rightarrow> 64 word \<Rightarrow> byte list \<Rightarrow> byte list \<Rightarrow> byte list" where
  "CreateMigrateCosmwasmContractHash c codeId contract msg =
     (let codeId_hash = Keccak256 c (put codeId);
          codeIdContract_hash = Keccak256 c (codeId_hash @ contract)
      in Keccak256 c (codeIdContract_hash @ msg))"

section \<open>Requests\<close>

text \<open>The messages of proto/node/v1/node.proto; an enumeration is its 32 bit number.\<close>

record Guardian =
  rg_pubkey :: string
  rg_name :: string

record BridgeRegisterChain =
  br_module :: "byte list"
  br_chain_id :: "32 word"
  br_emitter_address :: string

record BridgeUpgradeContract =
  bu_module :: "byte list"
  bu_target_chain_id :: "32 word"
  bu_new_contract :: string

record RecoverChainId =
  rr_module :: "byte list"
  rr_evm_chain_id :: string
  rr_new_chain_id :: "32 word"

record AccountantModifyBalance =
  am_module :: "byte list"
  am_target_chain_id :: "32 word"
  am_sequence :: "64 word"
  am_chain_id :: "32 word"
  am_token_chain :: "32 word"
  am_token_address :: string
  am_kind :: "32 word"
  am_amount :: string
  am_reason :: "byte list"

record WormchainInstantiateContract =
  wi_code_id :: "64 word"
  wi_label :: "byte list"
  wi_instantiation_msg :: "byte list"

record WormchainMigrateContract =
  wm_code_id :: "64 word"
  wm_contract :: "byte list"
  wm_instantiation_msg :: "byte list"

record WormchainWasmInstantiateAllowlist =
  wa_code_id :: "64 word"
  wa_contract :: string
  wa_action :: "32 word"

record CircleRegisterEmitterAndDomain =
  cd_foreign_emitter_chain_id :: "32 word"
  cd_foreign_emitter_address :: string
  cd_circle_domain :: "32 word"
  cd_target_chain_id :: "32 word"

record IbcUpdateChannelChain =
  ib_target_chain_id :: "32 word"
  ib_channel_id :: "byte list"
  ib_chain_id :: "32 word"
  ib_module :: "32 word"

record EvmCall =
  ec_chain_id :: "32 word"
  ec_governance_contract :: string
  ec_target_contract :: string
  ec_abi_encoded_call :: string

record SolanaCall =
  so_chain_id :: "32 word"
  so_governance_contract :: string
  so_encoded_instruction :: string

text \<open>The oneof of a governance message; a request of one or two fields has them as arguments.\<close>

datatype GovernancePayload =
    GP_None
  | GP_GuardianSet "Guardian list"
  | GP_ContractUpgrade (gp_chain_id: "32 word") (gp_new_contract: string)
  | GP_BridgeRegisterChain BridgeRegisterChain
  | GP_BridgeContractUpgrade BridgeUpgradeContract
  | GP_RecoverChainId RecoverChainId
  | GP_AccountantModifyBalance AccountantModifyBalance
  | GP_WormchainStoreCode (gp_wasm_hash: string)
  | GP_WormchainInstantiateContract WormchainInstantiateContract
  | GP_WormchainMigrateContract WormchainMigrateContract
  | GP_WormchainWasmInstantiateAllowlist WormchainWasmInstantiateAllowlist
  | GP_GatewayScheduleUpgrade (gp_name: "byte list") (gp_height: "64 word")
  | GP_GatewayCancelUpgrade
  | GP_GatewayIbcComposabilityMwSetContract (gp_contract: string)
  | GP_CircleIntegrationUpdateWormholeFinality (gp_finality: "32 word") (gp_target_chain_id: "32 word")
  | GP_CircleIntegrationRegisterEmitterAndDomain CircleRegisterEmitterAndDomain
  | GP_CircleIntegrationUpgradeContractImplementation (gp_new_implementation: string) (gp_target_chain_id: "32 word")
  | GP_IbcUpdateChannelChain IbcUpdateChannelChain
  | GP_WormholeRelayerSetDefaultDeliveryProvider (gp_chain_id: "32 word") (gp_new_provider: string)
  | GP_EvmCall EvmCall
  | GP_SolanaCall SolanaCall
  | GP_CoreBridgeSetMessageFee (gp_chain_id: "32 word") (gp_message_fee: string)

record GovernanceMessage =
  gm_sequence :: "64 word"
  gm_nonce :: "32 word"
  gm_payload :: GovernancePayload

section \<open>Checking a request\<close>

text \<open>
  What the functions below share: the VAA around a serialized body; a hexadecimal field of 32 bytes; a
  field that is a 16 bit chain; a decimal number of 256 bits; copy into a 32 byte array.
\<close>

definition governance_vaa :: "time \<Rightarrow> 32 word \<Rightarrow> 32 word \<Rightarrow> 64 word \<Rightarrow> go_error + byte list \<Rightarrow> go_error + VAA" where
  "governance_vaa timestamp guardianSetIndex nonce sequence serialized =
     chk (wrap ''failed to serialize governance body'' serialized) (\<lambda>body.
     Inr (CreateGovernanceVAA timestamp nonce sequence guardianSetIndex body))"

definition hex32 :: "string \<Rightarrow> string \<Rightarrow> go_error + byte list" where
  "hex32 what s =
     chk (or_err (Errorf what) (hex_decode s)) (\<lambda>b.
     if length b \<noteq> 32 then Inl (Errorf what) else Inr b)"

definition chain16 :: "string \<Rightarrow> 32 word \<Rightarrow> go_error + ChainID" where
  "chain16 what n = (if 65535 < unat n then Inl (Errorf what) else Inr (ucast n))"

text \<open>\<open>big.Int.SetString(s, 10)\<close>: an optional sign and at least one digit.\<close>

definition big_SetString :: "string \<Rightarrow> int option" where
  "big_SetString s =
     (case s of
        [] \<Rightarrow> None
      | c # cs \<Rightarrow>
          let (neg, ds) = (if c = CHR ''-'' then (True, cs) else if c = CHR ''+'' then (False, cs) else (False, s))
          in if ds = [] then None
             else map_option (\<lambda>n. if neg then - int n else int n) (parse_digits 0 ds))"

definition uint256 :: "admin_libs \<Rightarrow> string \<Rightarrow> string \<Rightarrow> go_error + 256 word" where
  "uint256 L what s =
     (case big_SetString s of
        None \<Rightarrow> Inl (Errorf (''invalid '' @ what))
      | Some n \<Rightarrow> (case FromBig L n of (w, overflow) \<Rightarrow> if overflow then Inl (Errorf (what @ '' overflow'')) else Inr w))"

definition array32 :: "byte list \<Rightarrow> byte list" where
  "array32 b = take 32 b @ replicate (32 - length b) 0"

section \<open>From a request to its VAA\<close>

text \<open>
  The keys of a guardian set update are collected in an array that starts with zero addresses, and every
  key is compared with the whole array, so that the zero address counts as a duplicate.
\<close>

definition MaxGuardianCount :: nat where "MaxGuardianCount = 19"

fun guardian_keys :: "admin_libs \<Rightarrow> nat \<Rightarrow> eth_address list \<Rightarrow> Guardian list \<Rightarrow> go_error + eth_address list" where
  "guardian_keys L i addrs [] = Inr addrs"
| "guardian_keys L i addrs (g # gs) =
     (if \<not> IsHexAddress L (rg_pubkey g) then Inl (Errorf ''invalid pubkey format'')
      else
        let ethAddr = HexToAddress L (rg_pubkey g) in
        if ethAddr \<in> set addrs then Inl (Errorf ''duplicate pubkey'')
        else guardian_keys L (Suc i) (addrs[i := ethAddr]) gs)"

definition adminGuardianSetUpdateToVAA ::
  "admin_libs \<Rightarrow> Guardian list \<Rightarrow> time \<Rightarrow> 32 word \<Rightarrow> 32 word \<Rightarrow> 64 word \<Rightarrow> go_error + VAA" where
  "adminGuardianSetUpdateToVAA L guardians timestamp guardianSetIndex nonce sequence =
     (if length guardians = 0 then Inl (Errorf ''empty guardian set specified'')
      else if MaxGuardianCount < length guardians then Inl (Errorf ''too many guardians'')
      else
        chk (guardian_keys L 0 (replicate (length guardians) (replicate 20 0)) guardians) (\<lambda>addrs.
        governance_vaa timestamp guardianSetIndex nonce sequence
          (BodyGuardianSetUpdate_Serialize \<lparr>gsu_Keys = addrs, gsu_NewIndex = guardianSetIndex + 1\<rparr>)))"

definition adminContractUpgradeToVAA ::
  "32 word \<Rightarrow> string \<Rightarrow> time \<Rightarrow> 32 word \<Rightarrow> 32 word \<Rightarrow> 64 word \<Rightarrow> go_error + VAA" where
  "adminContractUpgradeToVAA chain_id new_contract timestamp guardianSetIndex nonce sequence =
     chk (hex32 ''invalid new_contract address'' new_contract) (\<lambda>b.
     chk (chain16 ''invalid chain_id'' chain_id) (\<lambda>chain.
     governance_vaa timestamp guardianSetIndex nonce sequence
       (BodyContractUpgrade_Serialize \<lparr>cu_ChainID = chain, cu_NewContract = b\<rparr>)))"

definition tokenBridgeRegisterChain ::
  "BridgeRegisterChain \<Rightarrow> time \<Rightarrow> 32 word \<Rightarrow> 32 word \<Rightarrow> 64 word \<Rightarrow> go_error + VAA" where
  "tokenBridgeRegisterChain req timestamp guardianSetIndex nonce sequence =
     chk (chain16 ''invalid chain_id'' (br_chain_id req)) (\<lambda>chain.
     chk (hex32 ''invalid emitter address'' (br_emitter_address req)) (\<lambda>b.
     governance_vaa timestamp guardianSetIndex nonce sequence
       (BodyTokenBridgeRegisterChain_Serialize
         \<lparr>rc_Module = br_module req, rc_ChainID = chain, rc_EmitterAddress = b\<rparr>)))"

definition recoverChainId ::
  "admin_libs \<Rightarrow> RecoverChainId \<Rightarrow> time \<Rightarrow> 32 word \<Rightarrow> 32 word \<Rightarrow> 64 word \<Rightarrow> go_error + VAA" where
  "recoverChainId L req timestamp guardianSetIndex nonce sequence =
     chk (uint256 L ''evm_chain_id'' (rr_evm_chain_id req)) (\<lambda>evm_chain_id.
     chk (chain16 ''invalid new_chain_id'' (rr_new_chain_id req)) (\<lambda>chain.
     governance_vaa timestamp guardianSetIndex nonce sequence
       (BodyRecoverChainId_Serialize
         \<lparr>rci_Module = rr_module req, rci_EvmChainID = evm_chain_id, rci_NewChainID = chain\<rparr>)))"

definition accountantModifyBalance ::
  "admin_libs \<Rightarrow> AccountantModifyBalance \<Rightarrow> time \<Rightarrow> 32 word \<Rightarrow> 32 word \<Rightarrow> 64 word \<Rightarrow> go_error + VAA" where
  "accountantModifyBalance L req timestamp guardianSetIndex nonce sequence =
     chk (chain16 ''invalid target_chain_id'' (am_target_chain_id req)) (\<lambda>targetChain.
     chk (chain16 ''invalid chain_id'' (am_chain_id req)) (\<lambda>chain.
     chk (chain16 ''invalid token_chain'' (am_token_chain req)) (\<lambda>tokenChain.
     chk (hex32 ''invalid token address'' (am_token_address req)) (\<lambda>b.
     if 32 < length (am_reason req) then Inl (Errorf ''the reason should not be larger than 32 bytes'')
     else
       chk (uint256 L ''amount'' (am_amount req)) (\<lambda>amount.
       governance_vaa timestamp guardianSetIndex nonce sequence
         (BodyAccountantModifyBalance_Serialize
           \<lparr>mb_Module = am_module req, mb_TargetChainID = targetChain, mb_Sequence = am_sequence req,
            mb_ChainId = chain, mb_TokenChain = tokenChain, mb_TokenAddress = b, mb_Kind = ucast (am_kind req),
            mb_Amount = amount, mb_Reason = am_reason req\<rparr>))))))"

definition tokenBridgeUpgradeContract ::
  "BridgeUpgradeContract \<Rightarrow> time \<Rightarrow> 32 word \<Rightarrow> 32 word \<Rightarrow> 64 word \<Rightarrow> go_error + VAA" where
  "tokenBridgeUpgradeContract req timestamp guardianSetIndex nonce sequence =
     chk (chain16 ''invalid target_chain_id'' (bu_target_chain_id req)) (\<lambda>chain.
     chk (hex32 ''invalid new contract address'' (bu_new_contract req)) (\<lambda>b.
     governance_vaa timestamp guardianSetIndex nonce sequence
       (BodyTokenBridgeUpgradeContract_Serialize
         \<lparr>uc_Module = bu_module req, uc_TargetChainID = chain, uc_NewContract = b\<rparr>)))"

definition wormchainStoreCode :: "string \<Rightarrow> time \<Rightarrow> 32 word \<Rightarrow> 32 word \<Rightarrow> 64 word \<Rightarrow> go_error + VAA" where
  "wormchainStoreCode wasm_hash timestamp guardianSetIndex nonce sequence =
     chk (wrap ''invalid cosmwasm bytecode hash (expected hex)'' (hex_decode wasm_hash)) (\<lambda>b.
     if length b \<noteq> 32 then Inl (Errorf ''invalid cosmwasm bytecode hash'')
     else governance_vaa timestamp guardianSetIndex nonce sequence
            (BodyWormchainStoreCode_Serialize \<lparr>sc_WasmHash = b\<rparr>))"

definition wormchainInstantiateContract ::
  "crypto \<Rightarrow> WormchainInstantiateContract \<Rightarrow> time \<Rightarrow> 32 word \<Rightarrow> 32 word \<Rightarrow> 64 word \<Rightarrow> go_error + VAA" where
  "wormchainInstantiateContract c req timestamp guardianSetIndex nonce sequence =
     governance_vaa timestamp guardianSetIndex nonce sequence
       (BodyWormchainInstantiateContract_Serialize \<lparr>ic_InstantiationParamsHash =
          CreateInstatiateCosmwasmContractHash c (wi_code_id req) (wi_label req) (wi_instantiation_msg req)\<rparr>)"

definition wormchainMigrateContract ::
  "crypto \<Rightarrow> WormchainMigrateContract \<Rightarrow> time \<Rightarrow> 32 word \<Rightarrow> 32 word \<Rightarrow> 64 word \<Rightarrow> go_error + VAA" where
  "wormchainMigrateContract c req timestamp guardianSetIndex nonce sequence =
     governance_vaa timestamp guardianSetIndex nonce sequence
       (BodyWormchainMigrateContract_Serialize \<lparr>mc_MigrationParamsHash =
          CreateMigrateCosmwasmContractHash c (wm_code_id req) (wm_contract req) (wm_instantiation_msg req)\<rparr>)"

definition wormchainWasmInstantiateAllowlist ::
  "admin_libs \<Rightarrow> WormchainWasmInstantiateAllowlist \<Rightarrow> time \<Rightarrow> 32 word \<Rightarrow> 32 word \<Rightarrow> 64 word \<Rightarrow> go_error + VAA" where
  "wormchainWasmInstantiateAllowlist L req timestamp guardianSetIndex nonce sequence =
     chk (GetFromBech32 L (wa_contract req) ''wormhole'') (\<lambda>decodedAddr.
     chk (if wa_action req = 1 then Inr 4
          else if wa_action req = 2 then Inr 5
          else Inl (Errorf ''unrecognized wasm instantiate allowlist action'')) (\<lambda>action.
     governance_vaa timestamp guardianSetIndex nonce sequence
       (WasmAllowlist_Serialize \<lparr>al_ContractAddr = array32 decodedAddr, al_CodeId = wa_code_id req\<rparr> action)))"

definition gatewayScheduleUpgrade :: "byte list \<Rightarrow> 64 word \<Rightarrow> time \<Rightarrow> 32 word \<Rightarrow> 32 word \<Rightarrow> 64 word \<Rightarrow> go_error + VAA" where
  "gatewayScheduleUpgrade upgrade height timestamp guardianSetIndex nonce sequence =
     governance_vaa timestamp guardianSetIndex nonce sequence
       (ScheduleUpgrade_Serialize \<lparr>su_Name = upgrade, su_Height = height\<rparr>)"

definition gatewayCancelUpgrade :: "time \<Rightarrow> 32 word \<Rightarrow> 32 word \<Rightarrow> 64 word \<Rightarrow> go_error + VAA" where
  "gatewayCancelUpgrade timestamp guardianSetIndex nonce sequence =
     governance_vaa timestamp guardianSetIndex nonce sequence (EmptyPayloadVaa GatewayModule 2 ChainIDWormchain)"

definition gatewayIbcComposabilityMwSetContract ::
  "admin_libs \<Rightarrow> string \<Rightarrow> time \<Rightarrow> 32 word \<Rightarrow> 32 word \<Rightarrow> 64 word \<Rightarrow> go_error + VAA" where
  "gatewayIbcComposabilityMwSetContract L contract timestamp guardianSetIndex nonce sequence =
     chk (GetFromBech32 L contract ''wormhole'') (\<lambda>decodedAddr.
     governance_vaa timestamp guardianSetIndex nonce sequence
       (IbcComposabilityMw_Serialize \<lparr>icm_ContractAddr = array32 decodedAddr\<rparr>))"

definition circleIntegrationUpdateWormholeFinality ::
  "32 word \<Rightarrow> 32 word \<Rightarrow> time \<Rightarrow> 32 word \<Rightarrow> 32 word \<Rightarrow> 64 word \<Rightarrow> go_error + VAA" where
  "circleIntegrationUpdateWormholeFinality finality target_chain_id timestamp guardianSetIndex nonce sequence =
     chk (chain16 ''invalid target chain id'' target_chain_id) (\<lambda>chain.
     if 255 < unat finality then Inl (Errorf ''invalid finality, must be <= 255'')
     else governance_vaa timestamp guardianSetIndex nonce sequence
            (CircleFinality_Serialize \<lparr>cf_TargetChainID = chain, cf_Finality = ucast finality\<rparr>))"

definition circleIntegrationRegisterEmitterAndDomain ::
  "CircleRegisterEmitterAndDomain \<Rightarrow> time \<Rightarrow> 32 word \<Rightarrow> 32 word \<Rightarrow> 64 word \<Rightarrow> go_error + VAA" where
  "circleIntegrationRegisterEmitterAndDomain req timestamp guardianSetIndex nonce sequence =
     chk (chain16 ''invalid target chain id'' (cd_target_chain_id req)) (\<lambda>chain.
     chk (chain16 ''invalid foreign emitter chain id'' (cd_foreign_emitter_chain_id req)) (\<lambda>emitterChain.
     chk (hex32 ''invalid foreign emitter address'' (cd_foreign_emitter_address req)) (\<lambda>b.
     governance_vaa timestamp guardianSetIndex nonce sequence
       (CircleRegister_Serialize \<lparr>cr_TargetChainID = chain, cr_ForeignEmitterChainId = emitterChain,
          cr_ForeignEmitterAddress = b, cr_CircleDomain = cd_circle_domain req\<rparr>))))"

definition circleIntegrationUpgradeContractImplementation ::
  "string \<Rightarrow> 32 word \<Rightarrow> time \<Rightarrow> 32 word \<Rightarrow> 32 word \<Rightarrow> 64 word \<Rightarrow> go_error + VAA" where
  "circleIntegrationUpgradeContractImplementation new_implementation target_chain_id timestamp guardianSetIndex nonce sequence =
     chk (chain16 ''invalid target chain id'' target_chain_id) (\<lambda>chain.
     chk (hex32 ''invalid new implementation address'' new_implementation) (\<lambda>b.
     governance_vaa timestamp guardianSetIndex nonce sequence
       (CircleUpgrade_Serialize \<lparr>ci_TargetChainID = chain, ci_NewImplementationAddress = b\<rparr>)))"

definition ibcUpdateChannelChain ::
  "IbcUpdateChannelChain \<Rightarrow> time \<Rightarrow> 32 word \<Rightarrow> 32 word \<Rightarrow> 64 word \<Rightarrow> go_error + VAA" where
  "ibcUpdateChannelChain req timestamp guardianSetIndex nonce sequence =
     chk (chain16 ''invalid target chain id'' (ib_target_chain_id req)) (\<lambda>targetChain.
     chk (chain16 ''invalid chain id'' (ib_chain_id req)) (\<lambda>chain.
     if 64 < length (ib_channel_id req) then Inl (Errorf ''invalid channel ID length, must be <= 64'')
     else
       chk (wrap ''failed to left pad channel id'' (LeftPadIbcChannelId (ib_channel_id req))) (\<lambda>channelId.
       chk (if ib_module req = 1 then Inr IbcReceiverModule
            else if ib_module req = 2 then Inr IbcTranslatorModule
            else Inl (Errorf ''unrecognized ibc update channel chain module'')) (\<lambda>module.
       governance_vaa timestamp guardianSetIndex nonce sequence
         (IbcUpdateChannelChain_Serialize
           \<lparr>iu_TargetChainId = targetChain, iu_ChannelId = channelId, iu_ChainId = chain\<rparr> module)))))"

definition wormholeRelayerSetDefaultDeliveryProvider ::
  "32 word \<Rightarrow> string \<Rightarrow> time \<Rightarrow> 32 word \<Rightarrow> 32 word \<Rightarrow> 64 word \<Rightarrow> go_error + VAA" where
  "wormholeRelayerSetDefaultDeliveryProvider chain_id new_provider timestamp guardianSetIndex nonce sequence =
     chk (chain16 ''invalid target_chain_id'' chain_id) (\<lambda>chain.
     chk (hex32 ''invalid new default delivery provider address'' new_provider) (\<lambda>b.
     governance_vaa timestamp guardianSetIndex nonce sequence
       (SetDefaultDeliveryProvider_Serialize
         \<lparr>dp_ChainID = chain, dp_NewDefaultDeliveryProviderAddress = b\<rparr>)))"

definition coreBridgeSetMessageFeeToVaa ::
  "admin_libs \<Rightarrow> 32 word \<Rightarrow> string \<Rightarrow> time \<Rightarrow> 32 word \<Rightarrow> 32 word \<Rightarrow> 64 word \<Rightarrow> go_error + VAA" where
  "coreBridgeSetMessageFeeToVaa L chain_id message_fee timestamp guardianSetIndex nonce sequence =
     chk (wrap ''failed to convert chain id'' (KnownChainIDFromNumber (uint chain_id))) (\<lambda>chainId.
     chk (uint256 L ''new fee'' message_fee) (\<lambda>new_fee.
     if (case big_SetString message_fee of Some n \<Rightarrow> n < 0 | None \<Rightarrow> False)
     then Inl (Errorf ''new fee cannot be negative'')
     else governance_vaa timestamp guardianSetIndex nonce sequence
            (SetMessageFee_Serialize \<lparr>mf_ChainID = chainId, mf_MessageFee = new_fee\<rparr>)))"

definition evmCallToVaa :: "admin_libs \<Rightarrow> EvmCall \<Rightarrow> time \<Rightarrow> 32 word \<Rightarrow> 32 word \<Rightarrow> 64 word \<Rightarrow> go_error + VAA" where
  "evmCallToVaa L evmCall timestamp guardianSetIndex nonce sequence =
     (let governanceContract = HexToAddress L (ec_governance_contract evmCall);
          targetContract = HexToAddress L (ec_target_contract evmCall)
      in chk (wrap ''failed to decode ABI encoded call'' (hex_decode (ec_abi_encoded_call evmCall))) (\<lambda>payload.
         chk (chain16 ''chain id exceeds max uint16'' (ec_chain_id evmCall)) (\<lambda>chain.
         governance_vaa timestamp guardianSetIndex nonce sequence
           (GovernanceEvm_Serialize \<lparr>ge_ChainID = chain, ge_GovernanceContract = governanceContract,
              ge_TargetContract = targetContract, ge_Payload = payload\<rparr>))))"

definition solanaCallToVaa :: "admin_libs \<Rightarrow> SolanaCall \<Rightarrow> time \<Rightarrow> 32 word \<Rightarrow> 32 word \<Rightarrow> 64 word \<Rightarrow> go_error + VAA" where
  "solanaCallToVaa L solanaCall timestamp guardianSetIndex nonce sequence =
     chk (wrap ''failed to decode base58 governance contract address'' (base58_Decode L (so_governance_contract solanaCall))) (\<lambda>address.
     if length address \<noteq> 32 then Inl (Errorf ''invalid governance contract address length (expected 32 bytes)'')
     else
       chk (wrap ''failed to decode instruction'' (hex_decode (so_encoded_instruction solanaCall))) (\<lambda>instruction.
       chk (chain16 ''chain id exceeds max uint16'' (so_chain_id solanaCall)) (\<lambda>chain.
       governance_vaa timestamp guardianSetIndex nonce sequence
         (GovernanceSolana_Serialize \<lparr>gs_ChainID = chain, gs_GovernanceContract = address,
            gs_Instruction = instruction\<rparr>))))"

definition GovMsgToVaa :: "crypto \<Rightarrow> admin_libs \<Rightarrow> GovernanceMessage \<Rightarrow> 32 word \<Rightarrow> time \<Rightarrow> go_error + VAA" where
  "GovMsgToVaa c L message currentSetIndex timestamp =
     (let nonce = gm_nonce message; sequence = gm_sequence message in
      case gm_payload message of
        GP_GuardianSet gs \<Rightarrow> adminGuardianSetUpdateToVAA L gs timestamp currentSetIndex nonce sequence
      | GP_ContractUpgrade chain a \<Rightarrow> adminContractUpgradeToVAA chain a timestamp currentSetIndex nonce sequence
      | GP_BridgeRegisterChain r \<Rightarrow> tokenBridgeRegisterChain r timestamp currentSetIndex nonce sequence
      | GP_BridgeContractUpgrade r \<Rightarrow> tokenBridgeUpgradeContract r timestamp currentSetIndex nonce sequence
      | GP_RecoverChainId r \<Rightarrow> recoverChainId L r timestamp currentSetIndex nonce sequence
      | GP_AccountantModifyBalance r \<Rightarrow> accountantModifyBalance L r timestamp currentSetIndex nonce sequence
      | GP_WormchainStoreCode h \<Rightarrow> wormchainStoreCode h timestamp currentSetIndex nonce sequence
      | GP_WormchainInstantiateContract r \<Rightarrow> wormchainInstantiateContract c r timestamp currentSetIndex nonce sequence
      | GP_WormchainMigrateContract r \<Rightarrow> wormchainMigrateContract c r timestamp currentSetIndex nonce sequence
      | GP_WormchainWasmInstantiateAllowlist r \<Rightarrow>
          wormchainWasmInstantiateAllowlist L r timestamp currentSetIndex nonce sequence
      | GP_GatewayScheduleUpgrade u h \<Rightarrow> gatewayScheduleUpgrade u h timestamp currentSetIndex nonce sequence
      | GP_GatewayCancelUpgrade \<Rightarrow> gatewayCancelUpgrade timestamp currentSetIndex nonce sequence
      | GP_GatewayIbcComposabilityMwSetContract a \<Rightarrow>
          gatewayIbcComposabilityMwSetContract L a timestamp currentSetIndex nonce sequence
      | GP_CircleIntegrationUpdateWormholeFinality f chain \<Rightarrow>
          circleIntegrationUpdateWormholeFinality f chain timestamp currentSetIndex nonce sequence
      | GP_CircleIntegrationRegisterEmitterAndDomain r \<Rightarrow>
          circleIntegrationRegisterEmitterAndDomain r timestamp currentSetIndex nonce sequence
      | GP_CircleIntegrationUpgradeContractImplementation a chain \<Rightarrow>
          circleIntegrationUpgradeContractImplementation a chain timestamp currentSetIndex nonce sequence
      | GP_IbcUpdateChannelChain r \<Rightarrow> ibcUpdateChannelChain r timestamp currentSetIndex nonce sequence
      | GP_WormholeRelayerSetDefaultDeliveryProvider chain a \<Rightarrow>
          wormholeRelayerSetDefaultDeliveryProvider chain a timestamp currentSetIndex nonce sequence
      | GP_EvmCall r \<Rightarrow> evmCallToVaa L r timestamp currentSetIndex nonce sequence
      | GP_SolanaCall r \<Rightarrow> solanaCallToVaa L r timestamp currentSetIndex nonce sequence
      | GP_CoreBridgeSetMessageFee chain fee \<Rightarrow> coreBridgeSetMessageFeeToVaa L chain fee timestamp currentSetIndex nonce sequence
      | GP_None \<Rightarrow> Inl (Errorf ''unsupported VAA type''))"

section \<open>Injection\<close>

text \<open>
  The messages that are sent to the processor before a request fails stay sent. The timestamp of the
  request is a uint32 of seconds.
\<close>

definition injected_msg :: "VAA \<Rightarrow> MessagePublication" where
  "injected_msg v = \<lparr>mp_TxID = replicate 32 0, mp_Timestamp = vaa_Timestamp v, mp_Nonce = vaa_Nonce v,
     mp_Sequence = vaa_Sequence v, mp_ConsistencyLevel = vaa_ConsistencyLevel v,
     mp_EmitterChain = vaa_EmitterChain v, mp_EmitterAddress = vaa_EmitterAddress v, mp_Payload = vaa_Payload v,
     mp_IsReobservation = False, mp_Unreliable = False, mp_verificationState = NotVerified\<rparr>"

fun inject_loop :: "crypto \<Rightarrow> admin_libs \<Rightarrow> 32 word \<Rightarrow> time \<Rightarrow> GovernanceMessage list \<Rightarrow> byte list list \<Rightarrow>
    MessagePublication channel \<Rightarrow> (go_error + byte list list) \<times> MessagePublication channel" where
  "inject_loop c L currentSetIndex timestamp [] digests injectC = (Inr digests, injectC)"
| "inject_loop c L currentSetIndex timestamp (message # messages) digests injectC =
     (case GovMsgToVaa c L message currentSetIndex timestamp of
        Inl e \<Rightarrow> (Inl e, injectC)
      | Inr v \<Rightarrow>
          let digest = SigningDigest c v
          in inject_loop c L currentSetIndex timestamp messages (digests @ [digest]) (chan_send (injected_msg v) injectC))"

definition InjectGovernanceVAA :: "crypto \<Rightarrow> admin_libs \<Rightarrow> 32 word \<Rightarrow> 32 word \<Rightarrow> GovernanceMessage list \<Rightarrow>
    MessagePublication channel \<Rightarrow> (go_error + byte list list) \<times> MessagePublication channel" where
  "InjectGovernanceVAA c L currentSetIndex req_timestamp messages injectC =
     inject_loop c L currentSetIndex (time_unix (uint req_timestamp)) messages [] injectC"

section \<open>What a request becomes\<close>

lemma governance_vaa_eq_Inr:
  "governance_vaa t i nonce s m = Inr v \<longleftrightarrow> (\<exists>body. m = Inr body \<and> v = CreateGovernanceVAA t nonce s i body)"
  by (auto simp: governance_vaa_def chk_eq_Inr)

definition guardian_address :: "admin_libs \<Rightarrow> Guardian \<Rightarrow> eth_address" where
  "guardian_address L g = HexToAddress L (rg_pubkey g)"

lemma guardian_keys_eq_Inr:
  assumes "i + length gs = length addrs" and "drop i addrs = replicate (length gs) zero"
  shows "guardian_keys L i addrs gs = Inr ks \<longleftrightarrow>
     (\<forall>g \<in> set gs. IsHexAddress L (rg_pubkey g)) \<and> ks = take i addrs @ map (guardian_address L) gs \<and>
     (\<forall>g \<in> set gs. guardian_address L g \<noteq> zero \<and> guardian_address L g \<notin> set (take i addrs)) \<and>
     distinct (map (guardian_address L) gs)"
  using assms
proof (induction gs arbitrary: i addrs)
  case Nil
  then show ?case by auto
next
  case (Cons g gs)
  let ?a = "guardian_address L g"
  have i: "i < length addrs"
    using Cons.prems(1) by simp
  have "set addrs = set (take i addrs) \<union> set (drop i addrs)"
    by (simp only: append_take_drop_id flip: set_append)
  also have "set (drop i addrs) = set (replicate (length (g # gs)) zero)"
    by (simp only: Cons.prems(2))
  finally have addrs: "set addrs = insert zero (set (take i addrs))"
    by (auto simp: in_set_replicate)
  have "drop (Suc i) addrs = replicate (length gs) zero"
    using arg_cong [OF Cons.prems(2), of tl] by (simp add: drop_Suc tl_drop)
  then have IH: "guardian_keys L (Suc i) (addrs[i := ?a]) gs = Inr ks \<longleftrightarrow>
     (\<forall>g \<in> set gs. IsHexAddress L (rg_pubkey g)) \<and> ks = take i addrs @ map (guardian_address L) (g # gs) \<and>
     (\<forall>g' \<in> set gs. guardian_address L g' \<noteq> zero \<and> guardian_address L g' \<notin> insert ?a (set (take i addrs))) \<and>
     distinct (map (guardian_address L) gs)"
    using Cons.IH [of "Suc i" "addrs[i := ?a]"] Cons.prems(1) i by (simp add: take_Suc_conv_app_nth)
  show ?case
  proof (cases "IsHexAddress L (rg_pubkey g) \<and> ?a \<notin> set addrs")
    case True
    then have eq: "guardian_keys L i addrs (g # gs) = guardian_keys L (Suc i) (addrs[i := ?a]) gs"
      by (simp add: guardian_address_def Let_def)
    have "?a \<noteq> zero" "?a \<notin> set (take i addrs)"
      using True addrs by blast+
    then show ?thesis
      unfolding eq IH using True by (auto simp: image_iff)
  next
    case False
    then have "guardian_keys L i addrs (g # gs) \<noteq> Inr ks"
      by (auto simp: guardian_address_def Let_def)
    moreover have "\<not> (IsHexAddress L (rg_pubkey g) \<and> ?a \<noteq> zero \<and> ?a \<notin> set (take i addrs))"
      using False addrs by blast
    ultimately show ?thesis by auto
  qed
qed

text \<open>
  A guardian set update becomes a VAA exactly when it names between 1 and 19 guardians, every key is a
  hexadecimal address, and the keys are distinct and not zero. The VAA is unsigned, comes from the
  governance emitter, and its payload announces the keys, in the order of the request, as the guardian set
  after the current one.
\<close>

lemma guardian_set_request_iff:
  "adminGuardianSetUpdateToVAA L guardians t setIndex nonce sequence = Inr v \<longleftrightarrow>
     (let keys = map (\<lambda>g. HexToAddress L (rg_pubkey g)) guardians in
      0 < length guardians \<and> length guardians \<le> 19 \<and>
      list_all (\<lambda>g. IsHexAddress L (rg_pubkey g)) guardians \<and> distinct keys \<and> replicate 20 0 \<notin> set keys \<and>
      v = CreateGovernanceVAA t nonce sequence setIndex
            (CoreModule @ [2] @ put (0 :: 16 word) @ put (setIndex + 1) @ [word_of_nat (length keys)] @ concat keys))"
proof -
  have keys: "map (\<lambda>g. HexToAddress L (rg_pubkey g)) guardians = map (guardian_address L) guardians"
    by (simp add: guardian_address_def)
  have loop: "guardian_keys L 0 (replicate (length guardians) (replicate 20 0)) guardians = Inr ks \<longleftrightarrow>
     (\<forall>g \<in> set guardians. IsHexAddress L (rg_pubkey g)) \<and> ks = map (guardian_address L) guardians \<and>
     (\<forall>g \<in> set guardians. guardian_address L g \<noteq> replicate 20 0) \<and> distinct (map (guardian_address L) guardians)" for ks
    using guardian_keys_eq_Inr [of 0 guardians "replicate (length guardians) (replicate 20 0)" "replicate 20 0" L ks]
    by simp
  have body: "governance_vaa t setIndex nonce sequence
        (BodyGuardianSetUpdate_Serialize \<lparr>gsu_Keys = ks, gsu_NewIndex = setIndex + 1\<rparr>) = Inr v \<longleftrightarrow>
      v = CreateGovernanceVAA t nonce sequence setIndex
            (CoreModule @ [2] @ put (0 :: 16 word) @ put (setIndex + 1) @ [word_of_nat (length ks)] @ concat ks)" for ks
    by (simp add: governance_vaa_eq_Inr BodyGuardianSetUpdate_Serialize_def)
  show ?thesis
    unfolding list_all_iff adminGuardianSetUpdateToVAA_def chk_eq_Inr loop body keys Let_def MaxGuardianCount_def if_distrib
    by (cases "length guardians = 0"; cases "19 < length guardians")
      (auto simp: chk_eq_Inr loop body image_iff)
qed

text \<open>Every request that is accepted becomes an unsigned VAA of the governance emitter.\<close>

definition governance_result :: "time \<Rightarrow> 32 word \<Rightarrow> 32 word \<Rightarrow> 64 word \<Rightarrow> go_error + VAA \<Rightarrow> bool" where
  "governance_result t setIndex nonce sequence m \<longleftrightarrow>
     (\<forall>v. m = Inr v \<longrightarrow> v = CreateGovernanceVAA t nonce sequence setIndex (vaa_Payload v))"

lemma governance_result_intros:
  "governance_result t i n s (Inl e)"
  "governance_result t i n s (governance_vaa t i n s m)"
  "(\<And>x. governance_result t i n s (f x)) \<Longrightarrow> governance_result t i n s (chk m' f)"
  "governance_result t i n s a \<Longrightarrow> governance_result t i n s b \<Longrightarrow> governance_result t i n s (if P then a else b)"
  by (auto simp: governance_result_def governance_vaa_eq_Inr chk_eq_Inr CreateGovernanceVAA_def)

lemmas request_defs = adminGuardianSetUpdateToVAA_def adminContractUpgradeToVAA_def tokenBridgeRegisterChain_def
  recoverChainId_def accountantModifyBalance_def tokenBridgeUpgradeContract_def wormchainStoreCode_def
  wormchainInstantiateContract_def wormchainMigrateContract_def wormchainWasmInstantiateAllowlist_def
  gatewayScheduleUpgrade_def gatewayCancelUpgrade_def gatewayIbcComposabilityMwSetContract_def
  circleIntegrationUpdateWormholeFinality_def circleIntegrationRegisterEmitterAndDomain_def
  circleIntegrationUpgradeContractImplementation_def ibcUpdateChannelChain_def
  wormholeRelayerSetDefaultDeliveryProvider_def coreBridgeSetMessageFeeToVaa_def evmCallToVaa_def solanaCallToVaa_def

lemma GovMsgToVaa_governance:
  "governance_result t setIndex (gm_nonce m) (gm_sequence m) (GovMsgToVaa c L m setIndex t)"
  by (cases "gm_payload m"; simp only: GovMsgToVaa_def Let_def GovernancePayload.case request_defs)
    (intro governance_result_intros)+

lemma injected_msg_VAA:
  assumes "v = CreateGovernanceVAA t nonce s i payload"
  shows "CreateVAA i (injected_msg v) = v" and "SigningDigest c (CreateVAA j (injected_msg v)) = SigningDigest c v"
proof -
  show *: "CreateVAA i (injected_msg v) = v"
    by (simp add: assms CreateVAA_def injected_msg_def CreateGovernanceVAA_def)
  show "SigningDigest c (CreateVAA j (injected_msg v)) = SigningDigest c v"
    using CreateVAA_index(2) [of c i "injected_msg v"] CreateVAA_index(2) [of c j "injected_msg v"] * by simp
qed

text \<open>The VAAs vs that were built before the loop ended with r.\<close>

definition injected :: "crypto \<Rightarrow> admin_libs \<Rightarrow> 32 word \<Rightarrow> time \<Rightarrow> GovernanceMessage list \<Rightarrow> VAA list \<Rightarrow>
    go_error + byte list list \<Rightarrow> byte list list \<Rightarrow> bool" where
  "injected c L setIndex t messages vs r digests \<longleftrightarrow>
     list_all2 (\<lambda>m v. GovMsgToVaa c L m setIndex t = Inr v) (take (length vs) messages) vs \<and>
     (case r of Inr ds \<Rightarrow> length vs = length messages \<and> ds = digests @ map (SigningDigest c) vs
      | Inl e \<Rightarrow> length vs < length messages \<and> GovMsgToVaa c L (messages ! length vs) setIndex t = Inl e)"

lemma inject_loop_outcome:
  assumes "inject_loop c L setIndex t messages digests ch = (r, ch')"
  shows "\<exists>vs. ch_Items ch' = ch_Items ch @ map injected_msg vs \<and> injected c L setIndex t messages vs r digests"
  using assms
proof (induction messages arbitrary: digests ch)
  case Nil
  then show ?case by (auto simp: injected_def intro!: exI [of _ "[]"])
next
  case (Cons m messages)
  show ?case
  proof (cases "GovMsgToVaa c L m setIndex t")
    case (Inl e)
    then show ?thesis
      using Cons.prems by (auto simp: injected_def intro!: exI [of _ "[]"])
  next
    case (Inr v)
    have "\<exists>vs. ch_Items ch' = ch_Items (chan_send (injected_msg v) ch) @ map injected_msg vs \<and>
        injected c L setIndex t messages vs r (digests @ [SigningDigest c v])"
      using Cons.prems Inr by (intro Cons.IH) (simp add: Let_def)
    then obtain vs where vs: "ch_Items ch' = ch_Items (chan_send (injected_msg v) ch) @ map injected_msg vs"
        "injected c L setIndex t messages vs r (digests @ [SigningDigest c v])" by blast
    then have "injected c L setIndex t (m # messages) (v # vs) r digests"
      using Inr by (auto simp: injected_def split: sum.splits)
    with vs(1) show ?thesis
      by (intro exI [of _ "v # vs"]) simp
  qed
qed

text \<open>
  The messages of an injection that are accepted go to the processor in the order of the request. The
  digests of the answer are, one for one, those that a guardian signs for them, under any guardian set.
  When a request fails, the messages before the one that is refused have been sent all the same.
\<close>

lemma injected_digests_signed:
  assumes "InjectGovernanceVAA c L setIndex timestamp messages ch = (r, ch')"
  shows "\<exists>sent. ch_Items ch' = ch_Items ch @ sent \<and>
     list_all (\<lambda>k. mp_EmitterChain k = GovernanceChain \<and> mp_EmitterAddress k = GovernanceEmitter) sent \<and>
     (case r of
        Inr digests \<Rightarrow> length sent = length messages \<and>
          list_all2 (\<lambda>k d. \<forall>i. SigningDigest c (CreateVAA i k) = d) sent digests
      | Inl e \<Rightarrow> length sent < length messages \<and>
          GovMsgToVaa c L (messages ! length sent) setIndex (time_unix (uint timestamp)) = Inl e)"
proof -
  let ?t = "time_unix (uint timestamp)"
  obtain vs where vs: "ch_Items ch' = ch_Items ch @ map injected_msg vs" "injected c L setIndex ?t messages vs r []"
    using inject_loop_outcome [OF assms [unfolded InjectGovernanceVAA_def]] by blast
  have gov: "\<exists>nonce s p. v = CreateGovernanceVAA ?t nonce s setIndex p" if v: "v \<in> set vs" for v
  proof -
    obtain m where "GovMsgToVaa c L m setIndex ?t = Inr v"
      using vs(2) v unfolding injected_def by (auto simp: in_set_conv_nth dest!: list_all2_nthD2)
    then show ?thesis
      using GovMsgToVaa_governance [of ?t setIndex m c L] by (auto simp: governance_result_def)
  qed
  have sent: "mp_EmitterChain (injected_msg v) = GovernanceChain \<and> mp_EmitterAddress (injected_msg v) = GovernanceEmitter \<and>
      (\<forall>i. SigningDigest c (CreateVAA i (injected_msg v)) = SigningDigest c v)" if "v \<in> set vs" for v
    using gov [OF that] injected_msg_VAA(2) by (auto simp: injected_msg_def CreateGovernanceVAA_def)
  show ?thesis
    using vs sent
    by (intro exI [of _ "map injected_msg vs"])
      (auto simp: injected_def list_all_iff list.rel_map intro!: list.rel_refl_strong split: sum.splits)
qed

text \<open>
  Concrete libraries for the witnesses: an address is the first letter of its text.
\<close>

definition toy_libs :: admin_libs where
  "toy_libs = \<lparr>IsHexAddress = (\<lambda>s. s \<noteq> []), HexToAddress = (\<lambda>s. of_char (hd s) # replicate 19 0),
     FromBig = (\<lambda>n. (word_of_int n, 2 ^ 256 \<le> \<bar>n\<bar>)), GetFromBech32 = (\<lambda>s p. Inr (bytes_of s)),
     base58_Decode = (\<lambda>s. Inr (bytes_of s))\<rparr>"

definition sample_requests :: "GovernanceMessage list" where
  "sample_requests =
     [\<lparr>gm_sequence = 5, gm_nonce = 1, gm_payload = GP_GuardianSet [\<lparr>rg_pubkey = ''a'', rg_name = ''one''\<rparr>]\<rparr>,
      \<lparr>gm_sequence = 6, gm_nonce = 1, gm_payload = GP_GatewayCancelUpgrade\<rparr>,
      \<lparr>gm_sequence = 7, gm_nonce = 1, gm_payload = GP_None\<rparr>]"

theorem injected_digests_signed_witness:
  "\<exists>sent. ch_Items (snd (InjectGovernanceVAA toy_crypto toy_libs 3 60 sample_requests (make_chan 2))) = sent \<and>
     length sent = 2 \<and> list_all (\<lambda>k. mp_EmitterAddress k = GovernanceEmitter) sent"
proof -
  have r: "fst (InjectGovernanceVAA toy_crypto toy_libs 3 60 sample_requests (make_chan 2)) =
      Inl (Errorf ''unsupported VAA type'')" and
    ok: "GovMsgToVaa toy_crypto toy_libs (sample_requests ! 0) 3 (time_unix 60) \<noteq> Inl (Errorf ''unsupported VAA type'')"
      "GovMsgToVaa toy_crypto toy_libs (sample_requests ! 1) 3 (time_unix 60) \<noteq> Inl (Errorf ''unsupported VAA type'')"
    by code_simp+
  obtain ch where "InjectGovernanceVAA toy_crypto toy_libs 3 60 sample_requests (make_chan 2) =
      (Inl (Errorf ''unsupported VAA type''), ch)"
    using r by (metis prod.collapse)
  note injected_digests_signed [OF this] and this
  then obtain sent where "ch_Items ch = sent" "list_all (\<lambda>k. mp_EmitterAddress k = GovernanceEmitter) sent"
      "length sent < 3" "GovMsgToVaa toy_crypto toy_libs (sample_requests ! length sent) 3 (time_unix 60) =
         Inl (Errorf ''unsupported VAA type'')"
    by (auto simp: make_chan_def sample_requests_def list_all_iff)
  moreover from this have "length sent = 2"
    using ok by (cases "sent = []"; cases "length sent = 1") (auto simp: less_Suc_eq numeral_eq_Suc)
  ultimately show ?thesis
    by (simp add: \<open>InjectGovernanceVAA toy_crypto toy_libs 3 60 sample_requests (make_chan 2) =
      (Inl (Errorf ''unsupported VAA type''), ch)\<close>)
qed

end
