(* ===== verification/AdminService.thy ===== *)
theory AdminService imports AdminVaa GovAdmin GuardianSet VaaDb "HOL-Library.List_Lexorder" "HOL-Library.Multiset" "HOL-Library.AList" begin

text \<open>
  The other commands of the admin socket: the second half of node/pkg/adminrpc/adminserver.go and
  node/pkg/db/purge_vaas.go. A handler takes the part of the service that it uses and gives it back: a
  channel, the database, the governor (None when it is disabled), the cache of guardian sets. Web servers,
  JSON, base64 and base58 are arguments, and the text of an answer is left out where it only formats numbers.
\<close>

section \<open>Missing messages\<close>

text \<open>
  What a node answers to the request for a VAA: no request can be built, no answer, or a status with a body.
  The list of the nodes is shuffled in place before each request; shuffle is the permutation of the turn.
\<close>

datatype http_answer = HA_BadRequest | HA_Failed | HA_Answer (ha_status: nat) (ha_body: "byte list")

record fetch_libs =
  fl_Get :: "string \<Rightarrow> ChainID \<Rightarrow> string \<Rightarrow> 64 word \<Rightarrow> http_answer"
  fl_JSON :: "byte list \<Rightarrow> go_error + string"
  fl_base64 :: "string \<Rightarrow> go_error + byte list"

fun fetch_loop :: "fetch_libs \<Rightarrow> string list \<Rightarrow> ChainID \<Rightarrow> string \<Rightarrow> 64 word \<Rightarrow> byte list channel \<Rightarrow>
    (go_error + bool) \<times> byte list channel" where
  "fetch_loop F [] chain addr seq signedInC = (Inr False, signedInC)"
| "fetch_loop F (node # nodes) chain addr seq signedInC =
     (case fl_Get F node chain addr seq of
        HA_BadRequest \<Rightarrow> (Inl (Errorf ''failed to create request''), signedInC)
      | HA_Failed \<Rightarrow> fetch_loop F nodes chain addr seq signedInC
      | HA_Answer status body \<Rightarrow>
          if status = 404 then fetch_loop F nodes chain addr seq signedInC
          else if status = 200 then
            (case fl_JSON F body of
               Inl _ \<Rightarrow> fetch_loop F nodes chain addr seq signedInC
             | Inr text \<Rightarrow>
                 (case fl_base64 F text of
                    Inl _ \<Rightarrow> fetch_loop F nodes chain addr seq signedInC
                  | Inr vaaBytes \<Rightarrow> (Inr True, chan_send vaaBytes signedInC)))
          else (Inl (Errorf ''unexpected response status''), signedInC))"

definition fetchMissing :: "fetch_libs \<Rightarrow> (string list \<Rightarrow> string list) \<Rightarrow> string list \<Rightarrow> ChainID \<Rightarrow> string \<Rightarrow> 64 word \<Rightarrow>
    byte list channel \<Rightarrow> ((go_error + bool) \<times> byte list channel) \<times> string list" where
  "fetchMissing F shuffle nodes chain addr seq signedInC =
     (let nodes = shuffle nodes in (fetch_loop F nodes chain addr seq signedInC, nodes))"

record FindMissingMessagesRequest =
  fm_emitter_chain :: "32 word"
  fm_emitter_address :: string
  fm_rpc_backfill :: bool
  fm_backfill_nodes :: "string list"

record FindMissingMessagesResponse =
  fr_missing_messages :: "string list"
  fr_first_sequence :: "64 word"
  fr_last_sequence :: "64 word"

text \<open>The gaps that no node could fill.\<close>

fun backfill_loop :: "fetch_libs \<Rightarrow> (nat \<Rightarrow> string list \<Rightarrow> string list) \<Rightarrow> nat \<Rightarrow> string list \<Rightarrow> ChainID \<Rightarrow> string \<Rightarrow>
    64 word list \<Rightarrow> 64 word list \<Rightarrow> byte list channel \<Rightarrow> (go_error + 64 word list) \<times> byte list channel" where
  "backfill_loop F shuffle turn nodes chain addr [] unfilled signedInC = (Inr unfilled, signedInC)"
| "backfill_loop F shuffle turn nodes chain addr (seq # seqs) unfilled signedInC =
     (case fetchMissing F (shuffle turn) nodes chain addr seq signedInC of
        ((Inl e, signedInC), nodes) \<Rightarrow> (Inl (Errorf ''failed to backfill VAA''), signedInC)
      | ((Inr ok, signedInC), nodes) \<Rightarrow>
          backfill_loop F shuffle (Suc turn) nodes chain addr seqs (if ok then unfilled else unfilled @ [seq]) signedInC)"

text \<open>The address is copied into an array: it need not have 32 bytes. None: the search for gaps does not end.\<close>

definition FindMissingMessages :: "fetch_libs \<Rightarrow> (nat \<Rightarrow> string list \<Rightarrow> string list) \<Rightarrow> 's badger \<Rightarrow> FindMissingMessagesRequest \<Rightarrow>
    's \<Rightarrow> byte list channel \<Rightarrow> ((go_error + FindMissingMessagesResponse) \<times> byte list channel) option" where
  "FindMissingMessages F shuffle B req s signedInC =
     (case hex_decode (fm_emitter_address req) of
        Inl _ \<Rightarrow> Some (Inl (Errorf ''invalid emitter address encoding''), signedInC)
      | Inr b \<Rightarrow>
          if 65535 < unat (fm_emitter_chain req) then Some (Inl (Errorf ''chain id exceeds max uint16''), signedInC)
          else
            let chain = ucast (fm_emitter_chain req) :: ChainID; emitterAddress = array32 b in
            (case FindEmitterSequenceGap B \<lparr>id_EmitterChain = chain, id_EmitterAddress = emitterAddress, id_Sequence = 0\<rparr> s of
               None \<Rightarrow> None
             | Some (Inl _) \<Rightarrow> Some (Inl (Errorf ''database operation failed''), signedInC)
             | Some (Inr (ids, firstSeq, lastSeq)) \<Rightarrow>
                 (case (if fm_rpc_backfill req
                        then backfill_loop F shuffle 0 (fm_backfill_nodes req) chain (Address_String emitterAddress) ids [] signedInC
                        else (Inr ids, signedInC)) of
                    (Inl e, signedInC) \<Rightarrow> Some (Inl e, signedInC)
                  | (Inr ids, signedInC) \<Rightarrow> Some
                      (Inr \<lparr>fr_missing_messages = map (\<lambda>v. dec_string (unat (fm_emitter_chain req)) @ CHR ''/'' #
                              Address_String emitterAddress @ CHR ''/'' # dec_string (unat v)) ids,
                            fr_first_sequence = firstSeq, fr_last_sequence = lastSeq\<rparr>, signedInC))))"

section \<open>Requests for observations\<close>

definition SendObservationRequest :: "ObservationRequest \<Rightarrow> ObservationRequest channel \<Rightarrow>
    (go_error + unit) \<times> ObservationRequest channel" where
  "SendObservationRequest req obsvReqSendC = PostObservationRequest req obsvReqSendC"

definition ReobserveWithEndpoint :: "(ChainID \<rightharpoonup> (ChainID \<Rightarrow> byte list \<Rightarrow> string \<Rightarrow> go_error + 32 word)) \<Rightarrow>
    32 word \<Rightarrow> byte list \<Rightarrow> string \<Rightarrow> go_error + 32 word" where
  "ReobserveWithEndpoint reobservers chain_id tx_hash url =
     (if 65535 < unat chain_id then Inl (Errorf ''chain is not a valid uint16'')
      else case reobservers (ucast chain_id) of
             None \<Rightarrow> Inl (Errorf ''chain does not support reobservation by endpoint'')
           | Some watcher \<Rightarrow> or_err (Errorf ''reobservation failed'') (watcher (ucast chain_id) tx_hash url))"

text \<open>
  GetAndObserveMissingVAAs: the list that the cloud function answers with. A key is split at the slashes;
  the conversion of a slice to an array and an index out of range panic.
\<close>

record missing_vaa =
  mv_chain :: int
  mv_vaaKey :: string
  mv_txhash :: string

definition Atoi :: "string \<Rightarrow> go_error + int" where
  "Atoi s = (case big_SetString s of
     None \<Rightarrow> Inl (Errorf ''invalid syntax'')
   | Some n \<Rightarrow> if - (2 ^ 63) \<le> n \<and> n < 2 ^ 63 then Inr n else Inl (Errorf ''value out of range''))"

text \<open>The identifier that is looked up, Inl None when the key is refused.\<close>

definition missing_vaa_key :: "string \<Rightarrow> go_error option + VAAID" where
  "missing_vaa_key vaaKey =
     (let splits = split_on CHR ''/'' vaaKey in
      case Atoi (splits ! 0) of
        Inl _ \<Rightarrow> Inl None
      | Inr chainID \<Rightarrow>
          if 65535 < chainID then Inl None
          else if length splits \<le> 2 then Inl (Some (Panic ''index out of range''))
          else case parse_uint 64 (splits ! 2) of
            Inl _ \<Rightarrow> Inl None
          | Inr sequence \<Rightarrow>
              if length (splits ! 1) < 32 then Inl (Some (Panic ''cannot convert slice to array''))
              else Inr \<lparr>id_EmitterChain = word_of_int chainID, id_EmitterAddress = take 32 (bytes_of (splits ! 1)),
                        id_Sequence = word_of_nat sequence\<rparr>)"

definition missing_tx_hash :: "admin_libs \<Rightarrow> string \<Rightarrow> go_error + byte list" where
  "missing_tx_hash L txhash =
     (case hex_decode (trim_0x txhash) of Inr b \<Rightarrow> Inr b | Inl _ \<Rightarrow> base58_Decode L txhash)"

text \<open>Whether the observation of one entry was requested; Inl is a panic.\<close>

definition observe_missing :: "admin_libs \<Rightarrow> 's badger \<Rightarrow> 's \<Rightarrow> missing_vaa \<Rightarrow> ObservationRequest channel \<Rightarrow>
    (go_error + bool) \<times> ObservationRequest channel" where
  "observe_missing L B s m obsvReqSendC =
     (case missing_vaa_key (mv_vaaKey m) of
        Inl (Some p) \<Rightarrow> (Inl p, obsvReqSendC)
      | Inl None \<Rightarrow> (Inr False, obsvReqSendC)
      | Inr vaaKey \<Rightarrow>
          (case HasVAA B vaaKey s of
             Inl _ \<Rightarrow> (Inr False, obsvReqSendC)
           | Inr True \<Rightarrow> (Inr False, obsvReqSendC)
           | Inr False \<Rightarrow>
               if 65535 < mv_chain m then (Inr False, obsvReqSendC)
               else (case missing_tx_hash L (mv_txhash m) of
                  Inl _ \<Rightarrow> (Inr False, obsvReqSendC)
                | Inr h \<Rightarrow>
                    (case PostObservationRequest \<lparr>or_ChainId = word_of_int (mv_chain m), or_TxHash = h\<rparr> obsvReqSendC of
                       (Inl _, obsvReqSendC) \<Rightarrow> (Inr False, obsvReqSendC)
                     | (Inr _, obsvReqSendC) \<Rightarrow> (Inr True, obsvReqSendC)))))"

definition MAX_VAAS_TO_PROCESS :: nat where "MAX_VAAS_TO_PROCESS = 25"

fun observe_loop :: "admin_libs \<Rightarrow> 's badger \<Rightarrow> 's \<Rightarrow> missing_vaa list \<Rightarrow> nat \<Rightarrow> nat \<Rightarrow> ObservationRequest channel \<Rightarrow>
    (go_error + nat \<times> nat) \<times> ObservationRequest channel" where
  "observe_loop L B s [] obsCounter errCounter ch = (Inr (obsCounter, errCounter), ch)"
| "observe_loop L B s (m # ms) obsCounter errCounter ch =
     (case observe_missing L B s m ch of
        (Inl p, ch) \<Rightarrow> (Inl p, ch)
      | (Inr True, ch) \<Rightarrow> observe_loop L B s ms (Suc obsCounter) errCounter ch
      | (Inr False, ch) \<Rightarrow> observe_loop L B s ms obsCounter (Suc errCounter) ch)"

definition GetAndObserveMissingVAAs :: "admin_libs \<Rightarrow> 's badger \<Rightarrow> 's \<Rightarrow> go_error + missing_vaa list \<Rightarrow> ObservationRequest channel \<Rightarrow>
    (go_error + nat \<times> nat) \<times> ObservationRequest channel" where
  "GetAndObserveMissingVAAs L B s answer obsvReqSendC =
     (case answer of
        Inl e \<Rightarrow> (Inl e, obsvReqSendC)
      | Inr missingVAAs \<Rightarrow>
          let processingLen = min (length missingVAAs) MAX_VAAS_TO_PROCESS
          in observe_loop L B s (take processingLen missingVAAs) 0 0 obsvReqSendC)"

section \<open>Governor commands\<close>

definition governor_disabled :: go_error where
  "governor_disabled = Errorf ''chain governor is not enabled''"

text \<open>A command of the governor, refused when there is none; its error is the error of the answer.\<close>

definition governor_command :: "(go_error option) \<Rightarrow> ('s ChainGovernor \<Rightarrow> (unit, 's ChainGovernor) db_result) \<Rightarrow>
    's ChainGovernor option \<Rightarrow> (unit, 's ChainGovernor option) db_result" where
  "governor_command refused f gov =
     (case gov of
        None \<Rightarrow> (Inl governor_disabled, None)
      | Some g \<Rightarrow> (case refused of
          Some e \<Rightarrow> (Inl e, Some g)
        | None \<Rightarrow> (case f g of (r, g) \<Rightarrow> (r, Some g))))"

definition no_vaa_id :: "string \<Rightarrow> go_error option" where
  "no_vaa_id vaaId = (if length vaaId = 0 then Some (Errorf ''the VAA id must be specified'') else None)"

definition ChainGovernorReload :: "crypto \<Rightarrow> 's badger \<Rightarrow> time \<Rightarrow> 's ChainGovernor option \<Rightarrow> (unit, 's ChainGovernor option) db_result" where
  "ChainGovernorReload C B now = governor_command None (Reload C B now)"

definition ChainGovernorDropPendingVAA :: "'s badger \<Rightarrow> ChainID list \<Rightarrow> string \<Rightarrow> 's ChainGovernor option \<Rightarrow>
    (unit, 's ChainGovernor option) db_result" where
  "ChainGovernorDropPendingVAA B order vaaId = governor_command (no_vaa_id vaaId) (DropPendingVAA B order vaaId)"

definition ChainGovernorReleasePendingVAA :: "'s badger \<Rightarrow> ChainID list \<Rightarrow> string \<Rightarrow> 's ChainGovernor option \<Rightarrow>
    (unit, 's ChainGovernor option) db_result" where
  "ChainGovernorReleasePendingVAA B order vaaId = governor_command (no_vaa_id vaaId) (ReleasePendingVAA B order vaaId)"

definition maxResetReleaseTimerDays :: "32 word" where "maxResetReleaseTimerDays = 30"

definition ChainGovernorResetReleaseTimer :: "'s badger \<Rightarrow> ChainID list \<Rightarrow> string \<Rightarrow> 32 word \<Rightarrow> time \<Rightarrow> 's ChainGovernor option \<Rightarrow>
    (unit, 's ChainGovernor option) db_result" where
  "ChainGovernorResetReleaseTimer B order vaaId numDays now =
     governor_command
       (case no_vaa_id vaaId of Some e \<Rightarrow> Some e
        | None \<Rightarrow> if numDays < 1 \<or> maxResetReleaseTimerDays < numDays
                  then Some (Errorf ''the specified number of days falls outside the range'') else None)
       (resetReleaseTimerForTime B order vaaId now numDays)"

section \<open>Purging old VAAs\<close>

text \<open>
  The entries are those of the view that the iterator reads, deletions are transactions of their own. The
  result counts the entries that were (or would be) deleted and those that were kept.
\<close>

fun purge_loop :: "'s badger \<Rightarrow> time \<Rightarrow> bool \<Rightarrow> (byte list \<times> byte list) list \<Rightarrow> nat \<Rightarrow> nat \<Rightarrow> 's \<Rightarrow> (nat \<times> nat, 's) db_result" where
  "purge_loop B oldestTime logOnly [] numDeleted numKept s = (Inr (numDeleted, numKept), s)"
| "purge_loop B oldestTime logOnly ((key, val) # items) numDeleted numKept s =
     (case VAA_Unmarshal val of
        Inl _ \<Rightarrow> (Inl (Errorf ''failed to unmarshal VAA''), s)
      | Inr v \<Rightarrow>
          if vaa_Timestamp v < oldestTime then
            if logOnly then purge_loop B oldestTime logOnly items (Suc numDeleted) numKept s
            else (case update_err ''failed to delete vaa'' (bg_Delete B key s) of
                    (Inl e, s) \<Rightarrow> (Inl e, s)
                  | (Inr _, s) \<Rightarrow> purge_loop B oldestTime logOnly items (Suc numDeleted) numKept s)
          else purge_loop B oldestTime logOnly items numDeleted (Suc numKept) s)"

definition PurgeVaas :: "'s badger \<Rightarrow> VAAID \<Rightarrow> time \<Rightarrow> bool \<Rightarrow> 's \<Rightarrow> (nat \<times> nat, 's) db_result" where
  "PurgeVaas B pfx oldestTime logOnly s =
     (if id_Sequence pfx \<noteq> 0 then (Inl (Errorf ''may not specify a sequence number on the prefix''), s)
      else purge_loop B oldestTime logOnly (seek (EmitterPrefixBytes pfx) (bg_Items B s)) 0 0 s)"

text \<open>DaysOld is a uint64; the product of the durations wraps like any int64.\<close>

definition PurgePythNetVaas :: "'s badger \<Rightarrow> 64 word \<Rightarrow> bool \<Rightarrow> time \<Rightarrow> 's \<Rightarrow> (nat \<times> nat, 's) db_result" where
  "PurgePythNetVaas B daysOld logOnly now s =
     PurgeVaas B \<lparr>id_EmitterChain = ChainIDPythNet, id_EmitterAddress = nullAddr, id_Sequence = 0\<rparr>
       (now + sint (word_of_int (- (24 * 60 * minute)) * daysOld :: 64 word)) logOnly s"

section \<open>Signing an existing VAA\<close>

text \<open>
  The result is a VAA of the new guardian set with our signature. slices.SortFunc need not be stable, so
  the order of signatures with the same index is an argument: sortSigs sorts a list of signatures.
\<close>

definition ecdsaSignatureLength :: nat where "ecdsaSignatureLength = 65"

record SignExistingVAARequest =
  se_vaa :: "byte list"
  se_new_guardian_addrs :: "string list"
  se_new_guardian_set_index :: "32 word"

fun slices_Index :: "'a list \<Rightarrow> 'a \<Rightarrow> int" where
  "slices_Index [] x = - 1"
| "slices_Index (y # ys) x = (if y = x then 0 else let i = slices_Index ys x in if i < 0 then i else i + 1)"

text \<open>The guardian set of the VAA, from the cache or from the contract.\<close>

definition load_guardian_set :: "(32 word \<Rightarrow> go_error + eth_address list) \<Rightarrow> 32 word \<Rightarrow> (32 word \<rightharpoonup> eth_address list) \<Rightarrow>
    (eth_address list, 32 word \<rightharpoonup> eth_address list) db_result" where
  "load_guardian_set GetGuardianSet setIndex gsCache =
     (case gsCache setIndex of
        Some keys \<Rightarrow> (Inr keys, gsCache)
      | None \<Rightarrow>
          (case GetGuardianSet setIndex of
             Inl e \<Rightarrow> (Inl (Wrap ''failed to load guardian set'' (Some e)), gsCache)
           | Inr keys \<Rightarrow> (Inr keys, gsCache(setIndex \<mapsto> keys))))"

text \<open>\<open>gs.Keys[sig.Index]\<close> is in range: the VAA has been verified.\<close>

fun remap_signatures :: "eth_address list \<Rightarrow> eth_address list \<Rightarrow> Signature list \<Rightarrow> Signature list" where
  "remap_signatures keys newGS [] = []"
| "remap_signatures keys newGS (s # sigs) =
     (let signerAddress = keys ! unat (sig_Index s);
          newIndex = slices_Index newGS signerAddress
      in if newIndex = - 1 then remap_signatures keys newGS sigs
         else \<lparr>sig_Index = word_of_int newIndex, sig_Data = sig_Data s\<rparr> # remap_signatures keys newGS sigs)"

definition sign_for_new_set :: "crypto \<Rightarrow> (byte list \<Rightarrow> go_error + byte list) \<Rightarrow> (Signature list \<Rightarrow> Signature list) \<Rightarrow>
    eth_address \<Rightarrow> VAA \<Rightarrow> eth_address list \<Rightarrow> 32 word \<Rightarrow> eth_address list \<Rightarrow> go_error + byte list" where
  "sign_for_new_set c sign sortSigs guardianAddress v keys newIndex newGS =
     (if length (remdups_adj (sort newGS)) \<noteq> length newGS
      then Inl (Errorf ''duplicate guardians in the guardian set'')
      else
        let localGuardianIndex = slices_Index newGS guardianAddress in
        if localGuardianIndex = - 1 then Inl (Errorf ''local guardian is not a member of the new guardian set'')
        else
          let newVAA = v\<lparr>vaa_GuardianSetIndex := newIndex,
                vaa_Signatures := remap_signatures keys newGS (vaa_Signatures v)\<rparr>
          in chk (CalculateQuorum (int (length newGS))) (\<lambda>quorum.
             if int (length (vaa_Signatures newVAA)) + 1 < quorum
             then Inl (Errorf ''cannot reach quorum on new guardian set with the local signature'')
             else case sign (SigningDigest c v) of
               Inl _ \<Rightarrow> Inl (Panic ''sign'')
             | Inr sg \<Rightarrow>
                 let signature = take ecdsaSignatureLength sg @ replicate (ecdsaSignatureLength - length sg) 0;
                     newVAA = newVAA\<lparr>vaa_Signatures := vaa_Signatures v @
                       [\<lparr>sig_Index = word_of_int localGuardianIndex, sig_Data = signature\<rparr>]\<rparr>
                 in VAA_Marshal (newVAA\<lparr>vaa_Signatures := sortSigs (vaa_Signatures newVAA)\<rparr>)))"

definition SignExistingVAA :: "crypto \<Rightarrow> admin_libs \<Rightarrow> (byte list \<Rightarrow> go_error + byte list) \<Rightarrow> (Signature list \<Rightarrow> Signature list) \<Rightarrow>
    (32 word \<Rightarrow> go_error + eth_address list) option \<Rightarrow> eth_address \<Rightarrow> SignExistingVAARequest \<Rightarrow>
    (32 word \<rightharpoonup> eth_address list) \<Rightarrow> (byte list, 32 word \<rightharpoonup> eth_address list) db_result" where
  "SignExistingVAA c L sign sortSigs evmConnector guardianAddress req gsCache =
     (case VAA_Unmarshal (se_vaa req) of
        Inl e \<Rightarrow> (Inl (Wrap ''failed to unmarshal VAA'' (Some e)), gsCache)
      | Inr v \<Rightarrow>
          if se_new_guardian_set_index req \<le> vaa_GuardianSetIndex v
          then (Inl (Errorf ''new guardian set index must be higher than provided VAA''), gsCache)
          else case evmConnector of
            None \<Rightarrow> (Inl (Errorf ''the node needs to have an Ethereum connection configured''), gsCache)
          | Some GetGuardianSet \<Rightarrow>
              (case load_guardian_set GetGuardianSet (vaa_GuardianSetIndex v) gsCache of
                 (Inl e, gsCache) \<Rightarrow> (Inl e, gsCache)
               | (Inr keys, gsCache) \<Rightarrow>
                   (if slices_Index keys guardianAddress \<noteq> - 1
                    then Inl (Errorf ''local guardian is already on the old set'')
                    else
                      chk (wrap ''failed to verify existing VAA'' (VAA_Verify c v (Some keys))) (\<lambda>_.
                      if 255 < length (se_new_guardian_addrs req)
                      then Inl (Errorf ''new guardian set has too many guardians'')
                      else sign_for_new_set c sign sortSigs guardianAddress v keys (se_new_guardian_set_index req)
                             (map (HexToAddress L) (se_new_guardian_addrs req))), gsCache)))"

section \<open>What signing an existing VAA gives\<close>

lemma slices_Index_minus_1: "slices_Index xs x = - 1 \<longleftrightarrow> x \<notin> set xs" and
  slices_Index_ge: "- 1 \<le> slices_Index xs x"
  by (induction xs) (auto simp: Let_def)

lemma slices_Index_nth: "x \<in> set xs \<Longrightarrow> \<exists>i < length xs. slices_Index xs x = int i \<and> xs ! i = x"
proof (induction xs)
  case (Cons y ys)
  show ?case
  proof (cases "y = x")
    case False
    then obtain i where i: "i < length ys" "slices_Index ys x = int i" "ys ! i = x"
      using Cons by auto
    then show ?thesis
      using False by (intro exI [of _ "Suc i"]) (simp add: Let_def)
  qed (auto intro: exI [of _ 0])
qed simp

lemma length_remap: "length (remap_signatures keys newGS sigs) \<le> length sigs"
  by (induction sigs) (auto simp: Let_def)

lemma sorted_distinct_adj: "sorted xs \<Longrightarrow> distinct_adj xs \<Longrightarrow> distinct xs"
  for xs :: "'a :: linorder list"
proof (induction xs)
  case (Cons x xs)
  then show ?case
    by (cases xs) (auto dest: order.antisym)
qed simp

text \<open>Sorting and compacting finds every duplicate.\<close>

lemma compact_iff_distinct: "length (remdups_adj (sort xs)) = length xs \<longleftrightarrow> distinct xs"
  for xs :: "'a :: linorder list"
proof
  assume "length (remdups_adj (sort xs)) = length xs"
  then have "distinct_adj (sort xs)"
    by (simp add: distinct_adj_conv_length_remdups_adj)
  then have "distinct (sort xs)"
    by (rule sorted_distinct_adj [OF sorted_sort])
  then show "distinct xs" by simp
qed (simp add: remdups_adj_distinct)

lemma verifySignature_unique:
  "verifySignature c d s a \<Longrightarrow> verifySignature c d s b \<Longrightarrow> a = b"
  by (auto simp: verifySignature_def split: sum.splits)

definition sorts_signatures :: "(Signature list \<Rightarrow> Signature list) \<Rightarrow> bool" where
  "sorts_signatures f \<longleftrightarrow> (\<forall>sigs. mset (f sigs) = mset sigs \<and> sorted (map sig_Index (f sigs)))"

definition own_signature_ok :: "crypto \<Rightarrow> (byte list \<Rightarrow> go_error + byte list) \<Rightarrow> eth_address \<Rightarrow> byte list \<Rightarrow> bool" where
  "own_signature_ok c sign me digest \<longleftrightarrow>
     (\<forall>sg i. sign digest = Inr sg \<longrightarrow> verifySignature c digest \<lparr>sig_Index = i, sig_Data = take 65 sg @ replicate (65 - length sg) 0\<rparr> me)"

text \<open>The signatures that end up in the new VAA: all the old ones as they were, and ours.\<close>

lemma sign_for_new_set_Inr:
  assumes "sign_for_new_set c sign sortSigs me v keys newIndex newGS = Inr b"
  shows "\<exists>sg. sign (SigningDigest c v) = Inr sg \<and> distinct newGS \<and> me \<in> set newGS \<and>
     int (length newGS) * 2 div 3 + 1 \<le> int (length (vaa_Signatures v)) + 1 \<and>
     VAA_Marshal (v\<lparr>vaa_GuardianSetIndex := newIndex, vaa_Signatures := sortSigs (vaa_Signatures v @
       [\<lparr>sig_Index = word_of_int (slices_Index newGS me), sig_Data = take 65 sg @ replicate (65 - length sg) 0\<rparr>])\<rparr>) = Inr b"
proof -
  have d: "distinct newGS" and me: "me \<in> set newGS"
    using assms by (auto simp: sign_for_new_set_def compact_iff_distinct slices_Index_minus_1 Let_def split: if_splits)
  have q: "int (length newGS) * 2 div 3 + 1 \<le> int (length (remap_signatures keys newGS (vaa_Signatures v))) + 1"
    and "\<exists>sg. sign (SigningDigest c v) = Inr sg \<and>
     VAA_Marshal (v\<lparr>vaa_GuardianSetIndex := newIndex, vaa_Signatures := sortSigs (vaa_Signatures v @
       [\<lparr>sig_Index = word_of_int (slices_Index newGS me), sig_Data = take 65 sg @ replicate (65 - length sg) 0\<rparr>])\<rparr>) = Inr b"
    using assms d me by (auto simp: sign_for_new_set_def compact_iff_distinct slices_Index_minus_1 Let_def
        CalculateQuorum_def ecdsaSignatureLength_def split: if_splits sum.splits)
  then show ?thesis
    using d me length_remap [of keys newGS "vaa_Signatures v"] by force
qed

lemma SignExistingVAA_Inr:
  assumes "SignExistingVAA c L sign sortSigs conn me req cache = (Inr b, cache')" and "VAA_Unmarshal (se_vaa req) = Inr v"
  shows "\<exists>keys. cache' (vaa_GuardianSetIndex v) = Some keys \<and> me \<notin> set keys \<and> VAA_Verify c v (Some keys) = Inr () \<and>
     vaa_GuardianSetIndex v < se_new_guardian_set_index req \<and> length (se_new_guardian_addrs req) \<le> 255 \<and>
     sign_for_new_set c sign sortSigs me v keys (se_new_guardian_set_index req) (map (HexToAddress L) (se_new_guardian_addrs req)) = Inr b"
  using assms
  by (auto simp: SignExistingVAA_def load_guardian_set_def slices_Index_minus_1 chk_eq_Inr not_le not_less
      split: if_splits option.splits sum.splits)

lemma sorted_distinct_less: "sorted xs \<Longrightarrow> distinct xs \<Longrightarrow> sorted_wrt (<) xs"
  for xs :: "'a :: linorder list"
  by (simp add: strict_sorted_iff)

text \<open>When a VAA with signatures verified for keys and ours on top verifies for another set.\<close>

lemma extended_verifies_iff:
  assumes old: "VAA_Verify c v (Some keys) = Inr ()" and me: "me \<notin> set keys" "me \<in> set newGS"
    and newGS: "distinct newGS" "length newGS \<le> 255"
    and own: "verifySignature c (SigningDigest c v) own me" "sig_Index own = word_of_int (slices_Index newGS me)"
    and sorts: "sorts_signatures sortSigs"
    and w: "SigningDigest c w = SigningDigest c v" "vaa_Signatures w = sortSigs (vaa_Signatures v @ [own])"
    and q: "int (length newGS) * 2 div 3 + 1 \<le> int (length (vaa_Signatures v)) + 1"
  shows "VAA_Verify c w (Some newGS) = Inr () \<longleftrightarrow>
     (\<forall>s \<in> set (vaa_Signatures v). unat (sig_Index s) < length newGS \<and> signer_at newGS s = signer_at keys s)"
proof -
  let ?sigs = "vaa_Signatures v" and ?d = "SigningDigest c v"
  have m: "mset (vaa_Signatures w) = mset (?sigs @ [own])" and srt: "sorted (map sig_Index (vaa_Signatures w))"
    using sorts w(2) by (simp_all add: sorts_signatures_def)
  have set_w: "set (vaa_Signatures w) = insert own (set ?sigs)"
    using arg_cong [OF m, of set_mset] by simp
  have len_w: "length (vaa_Signatures w) = length ?sigs + 1"
    using arg_cong [OF m, of size] by simp
  have v: "sorted_wrt (<) (map sig_Index ?sigs)"
      "\<And>s. s \<in> set ?sigs \<Longrightarrow> unat (sig_Index s) < length keys \<and> verifySignature c ?d s (signer_at keys s)"
    using old by (auto simp: VAA_Verify_char verifySignatures_iff list_all_iff)
  obtain j where j: "j < length newGS" "slices_Index newGS me = int j" "newGS ! j = me"
    using slices_Index_nth [OF me(2)] by blast
  have own_at: "unat (sig_Index own) = j"
    using own(2) j(1,2) newGS(2) by (simp add: unat_of_nat)
  show ?thesis
  proof
    assume "VAA_Verify c w (Some newGS) = Inr ()"
    then have new: "\<forall>s \<in> set (vaa_Signatures w). unat (sig_Index s) < length newGS \<and> verifySignature c ?d s (signer_at newGS s)"
      by (auto simp: VAA_Verify_char verifySignatures_iff list_all_iff w(1))
    show "\<forall>s \<in> set ?sigs. unat (sig_Index s) < length newGS \<and> signer_at newGS s = signer_at keys s"
    proof
      fix s assume s: "s \<in> set ?sigs"
      then show "unat (sig_Index s) < length newGS \<and> signer_at newGS s = signer_at keys s"
        using new set_w v(2) [OF s] verifySignature_unique by blast
    qed
  next
    assume same: "\<forall>s \<in> set ?sigs. unat (sig_Index s) < length newGS \<and> signer_at newGS s = signer_at keys s"
    have ok: "\<forall>s \<in> set (vaa_Signatures w). unat (sig_Index s) < length newGS \<and> verifySignature c ?d s (signer_at newGS s)"
      using same v(2) own(1) own_at j by (auto simp: set_w signer_at_def)
    have "sig_Index own \<notin> sig_Index ` set ?sigs"
    proof
      assume "sig_Index own \<in> sig_Index ` set ?sigs"
      then obtain s where s: "s \<in> set ?sigs" "sig_Index s = sig_Index own" by auto
      then have "me = signer_at keys s"
        using same own_at j(3) by (auto simp: signer_at_def)
      then show False
        using v(2) [OF s(1)] me(1) by (auto simp: signer_at_def)
    qed
    then have "distinct (map sig_Index (?sigs @ [own]))"
      using v(1) by (simp add: strict_sorted_iff)
    then have dist: "distinct (map sig_Index (vaa_Signatures w))"
      using m by (metis mset_map mset_eq_imp_distinct_iff)
    then have idx: "inj_on sig_Index (set (vaa_Signatures w))" "distinct (vaa_Signatures w)"
      by (simp_all add: distinct_map)
    have "inj_on (signer_at newGS) (set (vaa_Signatures w))"
      using ok idx(1) newGS(1)
      by (auto simp: inj_on_def signer_at_def nth_eq_iff_index_eq dest!: word_unat_eq_iff [THEN iffD2])
    then have signers: "distinct (map (signer_at newGS) (vaa_Signatures w))"
      using idx(2) by (simp add: distinct_map)
    have "length (vaa_Signatures w) = card (signer_at newGS ` set (vaa_Signatures w))"
      using distinct_card [OF signers] by simp
    also have "\<dots> \<le> card (set newGS)"
      using ok by (intro card_mono) (auto simp: signer_at_def)
    finally have "length (vaa_Signatures w) \<le> length newGS"
      using card_length [of newGS] by linarith
    then show "VAA_Verify c w (Some newGS) = Inr ()"
      using ok signers sorted_distinct_less [OF srt dist] q len_w w(1)
      by (auto simp: VAA_Verify_char verifySignatures_iff list_all_iff)
  qed
qed

text \<open>
  SignExistingVAA answers with the old VAA under the new guardian set index, its old signatures with
  their old guardian indices, and ours. The new guardian set accepts that VAA exactly when every guardian
  that had signed has the same position in both sets; the positions in the new set, which the code
  computes, are thrown away, although they are what the check of the quorum counts.
\<close>

lemma sign_existing_verifies_iff:
  assumes "VAA_Unmarshal (se_vaa req) = Inr v"
    and "SignExistingVAA c L sign sortSigs conn me req cache = (Inr b, cache')"
    and "own_signature_ok c sign me (SigningDigest c v)" and "sorts_signatures sortSigs"
    and "length (vaa_Signatures v) < 255"
  shows "\<exists>w keys. VAA_Unmarshal b = Inr w \<and> vaa_GuardianSetIndex w = se_new_guardian_set_index req \<and>
     SigningDigest c w = SigningDigest c v \<and> set (vaa_Signatures v) \<subseteq> set (vaa_Signatures w) \<and>
     cache' (vaa_GuardianSetIndex v) = Some keys \<and>
     (let newGS = map (HexToAddress L) (se_new_guardian_addrs req) in
      VAA_Verify c w (Some newGS) = Inr () \<longleftrightarrow>
        (\<forall>s \<in> set (vaa_Signatures v). unat (sig_Index s) < length newGS \<and> signer_at newGS s = signer_at keys s))"
proof -
  let ?newGS = "map (HexToAddress L) (se_new_guardian_addrs req)" and ?d = "SigningDigest c v"
  obtain keys where keys: "cache' (vaa_GuardianSetIndex v) = Some keys" "me \<notin> set keys"
      "VAA_Verify c v (Some keys) = Inr ()" "length (se_new_guardian_addrs req) \<le> 255"
      "sign_for_new_set c sign sortSigs me v keys (se_new_guardian_set_index req) ?newGS = Inr b"
    using SignExistingVAA_Inr [OF assms(2,1)] by blast
  obtain sg where sg: "sign ?d = Inr sg" "distinct ?newGS" "me \<in> set ?newGS"
      "int (length ?newGS) * 2 div 3 + 1 \<le> int (length (vaa_Signatures v)) + 1"
      "VAA_Marshal (v\<lparr>vaa_GuardianSetIndex := se_new_guardian_set_index req, vaa_Signatures := sortSigs (vaa_Signatures v @
         [\<lparr>sig_Index = word_of_int (slices_Index ?newGS me), sig_Data = take 65 sg @ replicate (65 - length sg) 0\<rparr>])\<rparr>) = Inr b"
    using sign_for_new_set_Inr [OF keys(5)] by blast
  define own where "own = \<lparr>sig_Index = word_of_int (slices_Index ?newGS me), sig_Data = take 65 sg @ replicate (65 - length sg) 0\<rparr>"
  define w where "w = v\<lparr>vaa_GuardianSetIndex := se_new_guardian_set_index req, vaa_Signatures := sortSigs (vaa_Signatures v @ [own])\<rparr>"
  have m: "mset (vaa_Signatures w) = mset (vaa_Signatures v @ [own])"
    using assms(4) by (simp add: sorts_signatures_def w_def)
  have sigs: "set (vaa_Signatures w) = insert own (set (vaa_Signatures v))" "length (vaa_Signatures w) = length (vaa_Signatures v) + 1"
    using arg_cong [OF m, of set_mset] arg_cong [OF m, of size] by simp_all
  have "wf_VAA v"
    using VAA_Unmarshal_inv [OF assms(1)] by simp
  then have "wf_VAA w"
    using sigs assms(5) by (auto simp: wf_VAA_def list_all_iff w_def own_def wf_Signature_def)
  then have "VAA_Unmarshal b = Inr w"
    using VAA_Unmarshal_Marshal sg(5) by (simp add: w_def own_def)
  moreover have digest: "SigningDigest c w = ?d"
    by (simp add: SigningDigest_def serializeBody_def w_def)
  moreover have "VAA_Verify c w (Some ?newGS) = Inr () \<longleftrightarrow>
      (\<forall>s \<in> set (vaa_Signatures v). unat (sig_Index s) < length ?newGS \<and> signer_at ?newGS s = signer_at keys s)"
    by (rule extended_verifies_iff [OF keys(3,2) sg(3,2) _ _ _ assms(4) digest _ sg(4), of own])
      (use keys(4) sg(1) assms(3) in \<open>auto simp: own_def own_signature_ok_def w_def\<close>)
  ultimately show ?thesis
    using keys(1) sigs(1) by (intro exI [of _ w] exI [of _ keys]) (auto simp: w_def Let_def)
qed

text \<open>Guardians a, b and c have signed; the guardian z joins in front of them.\<close>

definition abc_vaa :: VAA where
  "abc_vaa = empty_VAA\<lparr>vaa_Version := 1, vaa_Payload := [1], vaa_Signatures :=
     map (\<lambda>(i, k). \<lparr>sig_Index = i, sig_Data = k # replicate 64 0\<rparr>) [(0, 97), (1, 98), (2, 99)]\<rparr>"

definition abc_request :: "string list \<Rightarrow> SignExistingVAARequest" where
  "abc_request guardians = \<lparr>se_vaa = (case VAA_Marshal abc_vaa of Inr b \<Rightarrow> b | Inl _ \<Rightarrow> []),
     se_new_guardian_addrs = guardians, se_new_guardian_set_index = 1\<rparr>"

definition sign_abc :: "string list \<Rightarrow> (byte list, 32 word \<rightharpoonup> eth_address list) db_result" where
  "sign_abc guardians = SignExistingVAA toy_crypto toy_libs (\<lambda>_. Inr (122 # replicate 64 0)) (sort_key sig_Index)
     (Some (\<lambda>_. Inr [HexToAddress toy_libs ''a'', HexToAddress toy_libs ''b'', HexToAddress toy_libs ''c'']))
     (HexToAddress toy_libs ''z'') (abc_request guardians) Map.empty"

lemma sorts_sort_key: "sorts_signatures (sort_key sig_Index)"
  by (simp add: sorts_signatures_def)

lemma own_signature_toy:
  "own_signature_ok toy_crypto (\<lambda>_. Inr (122 # replicate 64 0)) (HexToAddress toy_libs ''z'') d"
  by (simp add: own_signature_ok_def verifySignature_def toy_crypto_def toy_libs_def)

theorem sign_existing_verifies_iff_witness:
  "\<exists>b w cache. sign_abc [''z'', ''a'', ''b'', ''c''] = (Inr b, cache) \<and> VAA_Unmarshal b = Inr w \<and>
     VAA_Verify toy_crypto w (Some (map (HexToAddress toy_libs) [''z'', ''a'', ''b'', ''c''])) \<noteq> Inr ()"
proof -
  let ?gs = "[''z'', ''a'', ''b'', ''c'']"
  have "\<not> isl (fst (sign_abc ?gs))"
    by code_simp
  then obtain b cache where r: "sign_abc ?gs = (Inr b, cache)"
    by (cases "sign_abc ?gs"; cases "fst (sign_abc ?gs)") auto
  have v: "VAA_Unmarshal (se_vaa (abc_request ?gs)) = Inr abc_vaa"
    by code_simp
  obtain w keys where w: "VAA_Unmarshal b = Inr w" "cache (vaa_GuardianSetIndex abc_vaa) = Some keys"
      "VAA_Verify toy_crypto w (Some (map (HexToAddress toy_libs) ?gs)) = Inr () \<longleftrightarrow>
        (\<forall>s \<in> set (vaa_Signatures abc_vaa). unat (sig_Index s) < 4 \<and>
          signer_at (map (HexToAddress toy_libs) ?gs) s = signer_at keys s)"
    using sign_existing_verifies_iff [OF v r [unfolded sign_abc_def] own_signature_toy sorts_sort_key]
    by (auto simp: abc_vaa_def abc_request_def Let_def)
  have "snd (sign_abc ?gs) (vaa_GuardianSetIndex abc_vaa) =
      Some [HexToAddress toy_libs ''a'', HexToAddress toy_libs ''b'', HexToAddress toy_libs ''c'']"
    by code_simp
  then have "cache (vaa_GuardianSetIndex abc_vaa) =
      Some [HexToAddress toy_libs ''a'', HexToAddress toy_libs ''b'', HexToAddress toy_libs ''c'']"
    using r by simp
  then have "keys ! 0 = HexToAddress toy_libs ''a''"
    using w(2) by simp
  then have "VAA_Verify toy_crypto w (Some (map (HexToAddress toy_libs) ?gs)) \<noteq> Inr ()"
    unfolding w(3) by (simp add: abc_vaa_def signer_at_def toy_libs_def)
  with r w(1) show ?thesis by blast
qed

section \<open>What a purge leaves\<close>

text \<open>Deleting a key takes its entries out and leaves the others.\<close>

definition delete_ok :: "'s badger \<Rightarrow> bool" where
  "delete_ok B \<longleftrightarrow> (\<forall>k s s'. bg_Delete B k s = (None, s') \<longrightarrow> bg_Items B s' = filter (\<lambda>kv. fst kv \<noteq> k) (bg_Items B s))"

definition older :: "time \<Rightarrow> byte list \<Rightarrow> bool" where
  "older oldestTime val \<longleftrightarrow> (case VAA_Unmarshal val of Inr v \<Rightarrow> vaa_Timestamp v < oldestTime | Inl _ \<Rightarrow> False)"

lemma purge_loop_Inr:
  assumes "delete_ok B" and "purge_loop B t logOnly items d k s = (Inr (d', k'), s')"
  shows "d' = d + length (filter (older t \<circ> snd) items) \<and> k' = k + length (filter (Not \<circ> older t \<circ> snd) items) \<and>
     (logOnly \<longrightarrow> s' = s) \<and>
     (\<not> logOnly \<longrightarrow> bg_Items B s' = filter (\<lambda>kv. fst kv \<notin> fst ` set (filter (older t \<circ> snd) items)) (bg_Items B s))"
  using assms(2)
proof (induction items arbitrary: d k s)
  case Nil
  then show ?case by simp
next
  case (Cons kv items)
  obtain key val where kv: "kv = (key, val)" by fastforce
  then obtain v where v: "VAA_Unmarshal val = Inr v"
    using Cons.prems by (cases "VAA_Unmarshal val") auto
  consider (kept) "\<not> older t val" "purge_loop B t logOnly items d (Suc k) s = (Inr (d', k'), s')"
    | (logged) "older t val" logOnly "purge_loop B t logOnly items (Suc d) k s = (Inr (d', k'), s')"
    | (deleted) s1 where "older t val" "\<not> logOnly" "bg_Delete B key s = (None, s1)"
        "purge_loop B t logOnly items (Suc d) k s1 = (Inr (d', k'), s')"
    using Cons.prems v kv by (auto simp: older_def split: if_splits prod.splits sum.splits)
  then show ?case
  proof cases
    case kept
    then show ?thesis using Cons.IH [OF kept(2)] kv by auto
  next
    case logged
    then show ?thesis using Cons.IH [OF logged(3)] kv by auto
  next
    case deleted
    then have "bg_Items B s1 = filter (\<lambda>e. fst e \<noteq> key) (bg_Items B s)"
      using assms(1) by (simp add: delete_ok_def)
    then show ?thesis
      using Cons.IH [OF deleted(4)] deleted(1,2) kv by (auto intro!: filter_cong)
  qed
qed

text \<open>
  A purge that succeeds counts and deletes exactly the VAAs under the prefix that are older than the
  given time: every other entry of the database stays, and with logOnly nothing changes. The prefix of a
  chain is compared without a separator, so that it also covers the chains whose number begins with the
  same digits.
\<close>

lemma purge_exact:
  assumes "delete_ok B" and "PurgeVaas B pfx oldestTime logOnly s = (Inr (numDeleted, numKept), s')"
  shows "let found = seek (EmitterPrefixBytes pfx) (bg_Items B s); old = filter (older oldestTime \<circ> snd) found in
     numDeleted = length old \<and> numDeleted + numKept = length found \<and>
     (if logOnly then s' = s else bg_Items B s' = filter (\<lambda>kv. fst kv \<notin> fst ` set old) (bg_Items B s))"
proof -
  let ?found = "seek (EmitterPrefixBytes pfx) (bg_Items B s)"
  have "purge_loop B oldestTime logOnly ?found 0 0 s = (Inr (numDeleted, numKept), s')"
    using assms(2) by (auto simp: PurgeVaas_def split: if_splits)
  from purge_loop_Inr [OF assms(1) this] show ?thesis
    using sum_length_filter_compl [of "older oldestTime \<circ> snd" ?found] by (simp add: Let_def comp_def)
qed

text \<open>A database that is a list of entries.\<close>

definition list_badger :: "(byte list \<times> byte list) list badger" where
  "list_badger = \<lparr>bg_Set = \<lambda>k v s. (None, AList.update k v s), bg_Delete = \<lambda>k s. (None, filter (\<lambda>kv. fst kv \<noteq> k) s),
     bg_Get = \<lambda>k s. Inr (map_of s k), bg_Items = \<lambda>s. s\<rparr>"

definition purge_prefix :: VAAID where
  "purge_prefix = \<lparr>id_EmitterChain = 2, id_EmitterAddress = nullAddr, id_Sequence = 0\<rparr>"

definition purge_db :: "(byte list \<times> byte list) list" where
  "purge_db = [(bytes_of ''signed/1/x'', []), (bytes_of ''signed/23/y'', se_vaa (abc_request []))]"

text \<open>The purge of chain 2 deletes the VAA of chain 23.\<close>

theorem purge_exact_witness:
  "\<exists>s'. PurgeVaas list_badger purge_prefix 1 False purge_db = (Inr (1, 0), s') \<and> s' = take 1 purge_db"
proof -
  have r: "PurgeVaas list_badger purge_prefix 1 False purge_db = (Inr (1, 0), take 1 purge_db)"
    by code_simp
  have "delete_ok list_badger"
    by (simp add: delete_ok_def list_badger_def)
  from purge_exact [OF this r] r show ?thesis by blast
qed

section \<open>Which VAAs are observed again\<close>

lemma big_SetString_dec [simp]: "big_SetString (dec_string n) = Some (int n)"
proof (cases "dec_string n")
  case (Cons c cs)
  then have "char_digit c \<noteq> None"
    using dec_string_chars [of c n] by simp
  then have "c \<noteq> CHR ''-''" "c \<noteq> CHR ''+''"
    by (auto simp: char_digit_def)
  then show ?thesis
    using parse_dec_string [of n] Cons by (simp add: big_SetString_def)
qed simp

definition text_address :: "VAAID \<Rightarrow> VAAID" where
  "text_address i = i\<lparr>id_EmitterAddress := bytes_of (take 32 (Address_String (id_EmitterAddress i)))\<rparr>"

lemma missing_vaa_key_String:
  assumes "length (id_EmitterAddress i) = 32"
  shows "missing_vaa_key (VAAID_String i) = Inr (text_address i)"
proof (cases i)
  case (fields c a q)
  have "uint c < 65536"
    using unsigned_less [of c, where 'a = int] by simp
  moreover have "- (2 ^ 63) \<le> uint c"
    by (rule order_trans [OF _ uint_ge_0]) simp
  ultimately have c: "Atoi (dec_string (unat c)) = Inr (uint c)" "\<not> 65535 < uint c"
    by (simp_all add: Atoi_def)
  have q: "parse_uint 64 (dec_string (unat q)) = Inr (unat q)"
    using unsigned_less [of q, where 'a = nat] by (auto intro!: parse_uint_dec_string)
  show ?thesis
    using assms c(2) by (simp add: fields missing_vaa_key_def text_address_def VAAID_String_def Address_String_def
        split_message_id Let_def c(1) q bytes_of_def take_map)
qed

lemma text_address_differs:
  assumes "id_EmitterAddress i \<noteq> []" and "hd (id_EmitterAddress i) = 0"
  shows "text_address i \<noteq> i"
proof
  assume *: "text_address i = i"
  obtain as where a: "id_EmitterAddress i = 0 # as"
    using assms by (cases "id_EmitterAddress i") auto
  have "hd (bytes_of (take 32 (Address_String (id_EmitterAddress i)))) = hd (id_EmitterAddress i)"
    using arg_cong [OF *, of id_EmitterAddress] by (simp add: text_address_def)
  moreover have "(of_char (char_of (48 :: nat)) :: byte) \<noteq> 0"
    by code_simp
  ultimately show False
    by (simp add: a Address_String_def bytes_of_def hex_digit_def)
qed

text \<open>
  GetAndObserveMissingVAAs means to skip the VAAs that the node has, but looks up an address made of
  the first 32 letters of the hexadecimal text. For an address that begins with a zero byte (every address
  of an EVM chain) that is another identifier, and the observation is requested whether the VAA is stored
  or not.
\<close>

lemma missing_check_ignores_stored:
  assumes "mv_vaaKey m = VAAID_String i" and "length (id_EmitterAddress i) = 32"
    and "HasVAA B (text_address i) s = Inr False"
    and "mv_chain m \<le> 65535" and "missing_tx_hash L (mv_txhash m) = Inr h" and "length (ch_Items ch) < ch_Cap ch"
  shows "observe_missing L B s m ch = (Inr True, chan_send \<lparr>or_ChainId = word_of_int (mv_chain m), or_TxHash = h\<rparr> ch) \<and>
     (hd (id_EmitterAddress i) = 0 \<longrightarrow> text_address i \<noteq> i)"
proof
  show "observe_missing L B s m ch = (Inr True, chan_send \<lparr>or_ChainId = word_of_int (mv_chain m), or_TxHash = h\<rparr> ch)"
    using assms missing_vaa_key_String [OF assms(2)]
    by (simp add: observe_missing_def PostObservationRequest_def try_send_def)
  have "id_EmitterAddress i \<noteq> []"
    using assms(2) by auto
  then show "hd (id_EmitterAddress i) = 0 \<longrightarrow> text_address i \<noteq> i"
    using text_address_differs by blast
qed

definition stored_id :: VAAID where
  "stored_id = \<lparr>id_EmitterChain = 2, id_EmitterAddress = replicate 31 0 @ [7], id_Sequence = 5\<rparr>"

theorem missing_check_ignores_stored_witness:
  "HasVAA map_badger stored_id [VAAID_Bytes stored_id \<mapsto> [1]] = Inr True \<and>
   observe_missing toy_libs map_badger [VAAID_Bytes stored_id \<mapsto> [1]]
     \<lparr>mv_chain = 2, mv_vaaKey = VAAID_String stored_id, mv_txhash = ''0xab''\<rparr> (make_chan 1) =
     (Inr True, chan_send \<lparr>or_ChainId = 2, or_TxHash = [0xab]\<rparr> (make_chan 1))"
proof -
  have "text_address stored_id \<noteq> stored_id"
    by (rule text_address_differs) (simp_all add: stored_id_def numeral_eq_Suc)
  then have "HasVAA map_badger (text_address stored_id) [VAAID_Bytes stored_id \<mapsto> [1]] = Inr False"
    by (simp add: HasVAA_def map_badger_def VAAID_Bytes_inj)
  moreover have "missing_tx_hash toy_libs ''0xab'' = Inr [0xab]"
    by code_simp
  ultimately show ?thesis
    using missing_check_ignores_stored [of "\<lparr>mv_chain = 2, mv_vaaKey = VAAID_String stored_id, mv_txhash = ''0xab''\<rparr>" stored_id
        map_badger "[VAAID_Bytes stored_id \<mapsto> [1]]" toy_libs "[0xab]" "make_chan 1"]
    by (simp add: stored_id_def make_chan_def HasVAA_def map_badger_def)
qed

end
