(* ===== verification/WormStore.thy ===== *)
theory WormStore imports VaaDb begin

text \<open>
  The key value store of a Cosmos SDK module, as x/wormhole of wormchain uses it through
  prefix.NewStore and KVStorePrefixIterator: a list of entries in the order of their keys, which is the order
  an iterator delivers them in. Every prefix store is a list of its own. The values are kept as they are:
  marshalling them with protobuf and back is the identity.

  The locale ordered_store is the interface that the keepers rely on; it is interpreted by these lists.
\<close>

section \<open>The order of the keys\<close>

lemma bytes_less_irrefl [simp]: "\<not> bytes_less a a"
  by (induction a) auto

lemma bytes_less_trans: "bytes_less a b \<Longrightarrow> bytes_less b c \<Longrightarrow> bytes_less a c"
proof (induction a b arbitrary: c rule: bytes_less.induct)
  case (2 b bs)
  then show ?case by (cases c) auto
next
  case (3 a as b bs)
  then show ?case by (cases c) auto
qed simp

lemma bytes_less_total: "a = b \<or> bytes_less a b \<or> bytes_less b a"
proof (induction a b rule: bytes_less.induct)
  case (1 a)
  then show ?case by (cases a) auto
qed auto

lemma bytes_less_asym: "bytes_less a b \<Longrightarrow> \<not> bytes_less b a"
  using bytes_less_trans bytes_less_irrefl by blast

section \<open>Stores\<close>

type_synonym 'a kv = "(byte list \<times> 'a) list"

definition kv_get :: "byte list \<Rightarrow> 'a kv \<Rightarrow> 'a option" where
  "kv_get k s = map_of s k"

definition kv_has :: "byte list \<Rightarrow> 'a kv \<Rightarrow> bool" where
  "kv_has k s \<longleftrightarrow> kv_get k s \<noteq> None"

fun kv_set :: "byte list \<Rightarrow> 'a \<Rightarrow> 'a kv \<Rightarrow> 'a kv" where
  "kv_set k v [] = [(k, v)]"
| "kv_set k v ((l, w) # s) =
     (if k = l then (l, v) # s else if bytes_less k l then (k, v) # (l, w) # s else (l, w) # kv_set k v s)"

definition kv_delete :: "byte list \<Rightarrow> 'a kv \<Rightarrow> 'a kv" where
  "kv_delete k s = filter (\<lambda>e. fst e \<noteq> k) s"

definition kv_wf :: "'a kv \<Rightarrow> bool" where
  "kv_wf s \<longleftrightarrow> sorted_wrt bytes_less (map fst s)"

text \<open>
  What a keeper relies on: get after put and delete, and an iterator that lists every entry once, so that
  two stores with the same entries are the same.
\<close>

locale ordered_store =
  fixes empty :: 's and get :: "'k \<Rightarrow> 's \<Rightarrow> 'v option" and put_entry :: "'k \<Rightarrow> 'v \<Rightarrow> 's \<Rightarrow> 's"
    and del :: "'k \<Rightarrow> 's \<Rightarrow> 's" and items :: "'s \<Rightarrow> ('k \<times> 'v) list" and wf :: "'s \<Rightarrow> bool"
  assumes wf_empty: "wf empty" and wf_put: "wf s \<Longrightarrow> wf (put_entry k v s)" and wf_del: "wf s \<Longrightarrow> wf (del k s)"
    and get_empty: "get k empty = None"
    and get_put: "wf s \<Longrightarrow> get l (put_entry k v s) = (if l = k then Some v else get l s)"
    and get_del: "wf s \<Longrightarrow> get l (del k s) = (if l = k then None else get l s)"
    and items_get: "wf s \<Longrightarrow> map_of (items s) = (\<lambda>k. get k s)"
    and distinct_items: "wf s \<Longrightarrow> distinct (map fst (items s))"
    and extensional: "wf s \<Longrightarrow> wf t \<Longrightarrow> (\<And>k. get k s = get k t) \<Longrightarrow> s = t"
begin

definition load :: "('k \<times> 'v) list \<Rightarrow> 's" where
  "load es = fold (\<lambda>(k, v). put_entry k v) es empty"

lemma wf_fold: "wf s \<Longrightarrow> wf (fold (\<lambda>(k, v). put_entry k v) es s)"
  by (induction es arbitrary: s) (auto simp: wf_put)

lemma get_fold:
  "wf s \<Longrightarrow> distinct (map fst es) \<Longrightarrow>
   get k (fold (\<lambda>(k, v). put_entry k v) es s) = (case map_of es k of Some v \<Rightarrow> Some v | None \<Rightarrow> get k s)"
  by (induction es arbitrary: s)
    (auto simp: wf_put get_put image_iff split: option.splits dest: map_of_SomeD)

text \<open>Writing the entries of a store into an empty one gives the store back.\<close>

lemma load_back: "wf s \<Longrightarrow> load (items s) = s"
  unfolding load_def
  by (rule extensional) (auto simp: wf_fold wf_empty get_fold distinct_items get_empty items_get split: option.splits)

lemma items_iff: "wf s \<Longrightarrow> (k, v) \<in> set (items s) \<longleftrightarrow> get k s = Some v"
  using distinct_items items_get by (metis map_of_eq_Some_iff)

lemma put_same: "wf s \<Longrightarrow> get k s = Some v \<Longrightarrow> put_entry k v s = s"
  by (rule extensional) (auto simp: wf_put get_put)

lemma del_put: "wf s \<Longrightarrow> get k s = None \<Longrightarrow> del k (put_entry k v s) = s"
  by (rule extensional) (auto simp: wf_put wf_del get_put get_del)

end

lemma set_kv_set [simp]: "fst ` set (kv_set k v s) = insert k (fst ` set s)"
proof (induction s)
  case (Cons e s)
  then show ?case
    by (cases e) (simp add: insert_commute)
qed simp

lemma map_of_None_less: "\<forall>l \<in> set (map fst s). bytes_less k l \<Longrightarrow> map_of s k = None"
  by (auto simp: map_of_eq_None_iff)

lemma kv_wf_Cons [simp]:
  "kv_wf []" "kv_wf ((k, v) # s) \<longleftrightarrow> (\<forall>l \<in> fst ` set s. bytes_less k l) \<and> kv_wf s"
  by (simp_all add: kv_wf_def)

lemma kv_wf_set: "kv_wf s \<Longrightarrow> kv_wf (kv_set k v s)"
proof (induction s)
  case (Cons e s)
  obtain l w where e: "e = (l, w)" by fastforce
  with Cons have *: "\<forall>m \<in> fst ` set s. bytes_less l m" "kv_wf s"
    by simp_all
  consider "k = l" | "k \<noteq> l" "bytes_less k l" | "k \<noteq> l" "\<not> bytes_less k l" "bytes_less l k"
    using bytes_less_total by blast
  then show ?case
  proof cases
    case 2
    then have "\<forall>m \<in> fst ` set s. bytes_less k m"
      using *(1) bytes_less_trans by blast
    then show ?thesis
      using 2 * e by simp
  next
    case 3
    then show ?thesis
      using Cons.IH * e by simp
  qed (use * e in simp)
qed simp

lemma kv_wf_delete: "kv_wf s \<Longrightarrow> kv_wf (kv_delete k s)"
  by (induction s) (auto simp: kv_delete_def kv_wf_def)

lemma kv_get_set: "kv_wf s \<Longrightarrow> kv_get l (kv_set k v s) = (if l = k then Some v else kv_get l s)"
proof (induction s)
  case (Cons e s)
  then show ?case
    by (cases e) (auto simp: kv_get_def)
qed (simp add: kv_get_def)

lemma kv_get_delete: "kv_get l (kv_delete k s) = (if l = k then None else kv_get l s)"
  by (induction s) (auto simp: kv_get_def kv_delete_def)

lemma kv_wf_distinct: "kv_wf s \<Longrightarrow> distinct (map fst s)"
  by (induction s) (auto simp: kv_wf_def)

lemma kv_ext:
  assumes "kv_wf s" and "kv_wf t" and "\<And>k. kv_get k s = kv_get k t"
  shows "s = t"
  using assms
proof (induction s arbitrary: t)
  case Nil
  show ?case
  proof (cases t)
    case (Cons e t')
    then show ?thesis
      using Nil.prems(3) [of "fst e"] by (cases e) (simp add: kv_get_def)
  qed simp
next
  case (Cons e s)
  obtain k v where e: "e = (k, v)" by fastforce
  obtain l w t' where t: "t = (l, w) # t'"
    using Cons.prems(3) [of k] e by (cases t) (auto simp: kv_get_def)
  have less: "\<forall>m \<in> fst ` set s. bytes_less k m" "\<forall>m \<in> fst ` set t'. bytes_less l m" "kv_wf s" "kv_wf t'"
    using Cons.prems(1,2) e t by auto
  have "k = l"
  proof (rule ccontr)
    assume ne: "k \<noteq> l"
    have "map_of t' k = Some v" "map_of s l = Some w"
      using Cons.prems(3) [of k] Cons.prems(3) [of l] ne e t by (auto simp: kv_get_def)
    then have "k \<in> fst ` set t'" "l \<in> fst ` set s"
      by (auto dest!: map_of_SomeD intro: rev_image_eqI)
    then show False
      using less bytes_less_asym by blast
  qed
  moreover have "v = w"
    using Cons.prems(3) [of k] \<open>k = l\<close> e t by (simp add: kv_get_def)
  moreover have "s = t'"
  proof (rule Cons.IH [OF less(3,4)])
    fix m
    have none: "map_of s k = None" "map_of t' k = None"
      using less(1,2) \<open>k = l\<close> by (auto simp: map_of_eq_None_iff)
    show "kv_get m s = kv_get m t'"
      using Cons.prems(3) [of m] none \<open>k = l\<close> e t by (cases "m = k") (auto simp: kv_get_def)
  qed
  ultimately show ?case
    using e t by simp
qed

interpretation kv: ordered_store "[]" kv_get kv_set kv_delete "\<lambda>s. s" kv_wf
proof
  show "kv_get k [] = None" for k :: "byte list"
    by (simp add: kv_get_def)
  show "map_of s = (\<lambda>k. kv_get k s)" for s :: "(byte list \<times> 'a) list"
    by (simp add: kv_get_def)
qed (auto intro: kv_wf_set kv_wf_delete kv_wf_distinct kv_ext simp: kv_get_set kv_get_delete)

end
