(* ===== verification/WormKeeper.thy ===== *)
theory WormKeeper imports WormStore AdminVaa begin

text \<open>
  The keeper of wormchain's x/wormhole module: wormchain/x/wormhole/keeper and types. The state is a record
  with one store per prefix; wk_modules is the state of the other modules (wasmd, upgrade, slashing) that the
  keeper calls. Events are collected in wk_events. The context of a block gives its time, height and chain.

  A message handler works on a branch of the state that baseapp throws away when the handler returns an error
  or panics; a handler is therefore a function that returns an error or the new state. Registering a store
  under a prefix, protobuf and gas are left out. Addresses in bech32 are the fields of the record chain_libs.
\<close>

section \<open>State\<close>

record WGuardianSet =
  wgs_Index :: "32 word"
  wgs_Keys :: "byte list list"
  wgs_ExpirationTime :: "64 word"

record WConfig =
  wc_GuardianSetExpiration :: "64 word"
  wc_GovernanceEmitter :: "byte list"
  wc_GovernanceChain :: "32 word"
  wc_ChainId :: "32 word"

record GuardianValidator =
  gv_GuardianKey :: "byte list"
  gv_ValidatorAddr :: "byte list"

record ValidatorAllowedAddress =
  va_ValidatorAddress :: string
  va_AllowedAddress :: string
  va_Name :: string

record WasmAllowed =
  wa_ContractAddress :: string
  wa_CodeId :: "64 word"

record SequenceCounter =
  sc_Index :: string
  sc_Sequence :: "64 word"

datatype worm_event =
    EventGuardianSetUpdate (ev_old: "32 word") (ev_new: "32 word")
  | EventConsensusSetUpdate (ev_old: "32 word") (ev_new: "32 word")
  | EventGuardianRegistered "byte list" "byte list"
  | EventPostedMessage (pm_emitter: "byte list") (pm_sequence: "64 word") (pm_nonce: "32 word") (pm_time: "64 word")
      (pm_payload: "byte list")

record 'x wormchain =
  wk_guardianSets :: "WGuardianSet kv"
  wk_guardianSetCount :: "byte list option"
  wk_config :: "WConfig option"
  wk_replay :: "string kv"
  wk_sequences :: "SequenceCounter kv"
  wk_consensusIndex :: "32 word option"
  wk_validators :: "GuardianValidator kv"
  wk_allowlist :: "ValidatorAllowedAddress kv"
  wk_wasmAllowlist :: "WasmAllowed kv"
  wk_ibcContract :: "string option"
  wk_events :: "worm_event list"
  wk_modules :: 'x

definition no_wormchain :: "'x \<Rightarrow> 'x wormchain" where
  "no_wormchain x = \<lparr>wk_guardianSets = [], wk_guardianSetCount = None, wk_config = None, wk_replay = [], wk_sequences = [],
     wk_consensusIndex = None, wk_validators = [], wk_allowlist = [], wk_wasmAllowlist = [], wk_ibcContract = None,
     wk_events = [], wk_modules = x\<rparr>"

record block_ctx =
  bc_BlockTime :: time
  bc_BlockHeight :: int
  bc_ChainID :: string

record chain_libs =
  AccAddressFromBech32 :: "string \<Rightarrow> go_error + byte list"
  AccAddress_String :: "byte list \<Rightarrow> string"
  Bech32ifyAddressBytes :: "byte list \<Rightarrow> go_error + string"

section \<open>Errors\<close>

definition ErrGuardianSetNotFound :: go_error where "ErrGuardianSetNotFound = Errorf ''guardian set not found''"
definition ErrSignaturesInvalid :: go_error where "ErrSignaturesInvalid = Errorf ''invalid signatures on VAA''"
definition ErrNoQuorum :: go_error where "ErrNoQuorum = Errorf ''no quorum on VAA''"
definition ErrUnknownGovernanceModule :: go_error where "ErrUnknownGovernanceModule = Errorf ''invalid governance module''"
definition ErrNoConfig :: go_error where "ErrNoConfig = Errorf ''config not set''"
definition ErrInvalidGovernanceEmitter :: go_error where
  "ErrInvalidGovernanceEmitter = Errorf ''invalid governance emitter''"
definition ErrUnknownGovernanceAction :: go_error where "ErrUnknownGovernanceAction = Errorf ''unknown governance action''"
definition ErrGovernanceHeaderTooShort :: go_error where
  "ErrGovernanceHeaderTooShort = Errorf ''governance header too short''"
definition ErrInvalidGovernanceTargetChain :: go_error where
  "ErrInvalidGovernanceTargetChain = Errorf ''governance target chain does not match''"
definition ErrInvalidGovernancePayloadLength :: go_error where
  "ErrInvalidGovernancePayloadLength = Errorf ''governance payload has incorrect length''"
definition ErrGuardianSetNotSequential :: go_error where
  "ErrGuardianSetNotSequential = Errorf ''guardian set updates must be submitted sequentially''"
definition ErrVAAAlreadyExecuted :: go_error where "ErrVAAAlreadyExecuted = Errorf ''VAA was already executed''"
definition ErrGuardianNotFound :: go_error where "ErrGuardianNotFound = Errorf ''guardian not found in guardian set''"
definition ErrConsensusSetUndefined :: go_error where "ErrConsensusSetUndefined = Errorf ''no consensus set defined''"
definition ErrGuardianSetExpired :: go_error where "ErrGuardianSetExpired = Errorf ''guardian set expired''"
definition ErrNewGuardianSetHasExpiry :: go_error where
  "ErrNewGuardianSetHasExpiry = Errorf ''new guardian set should not have expiry time''"
definition ErrDuplicateGuardianAddress :: go_error where
  "ErrDuplicateGuardianAddress = Errorf ''guardian set has duplicate addresses''"
definition ErrSignerAlreadyRegistered :: go_error where
  "ErrSignerAlreadyRegistered = Errorf ''transaction signer already registered as a guardian validator''"
definition ErrInvalidHash :: go_error where "ErrInvalidHash = Errorf ''could not verify the hash in governance action''"
definition ErrGuardianIndexOutOfBounds :: go_error where
  "ErrGuardianIndexOutOfBounds = Errorf ''guardian index out of bounds for the guardian set''"
definition ErrInvalidAllowlistContractAddr :: go_error where
  "ErrInvalidAllowlistContractAddr = Errorf ''contract addresses in the wasm allowlist msg and vaa do not match''"
definition ErrInvalidAllowlistCodeId :: go_error where
  "ErrInvalidAllowlistCodeId = Errorf ''code ids in the wasm allowlist msg and vaa do not match''"
definition ErrInvalidIbcComposabilityMwContractAddr :: go_error where
  "ErrInvalidIbcComposabilityMwContractAddr = Errorf ''invalid ibc composability mw contract address''"
definition ErrUnauthorized :: go_error where "ErrUnauthorized = Errorf ''unauthorized''"

section \<open>Guardian sets in the store\<close>

definition be_Uint32 :: "byte list \<Rightarrow> 32 word" where
  "be_Uint32 bs = word_of_nat (nat_of_be (take 4 bs))"

definition GetGuardianSetIDBytes :: "32 word \<Rightarrow> byte list" where "GetGuardianSetIDBytes i = put i"
definition GetGuardianSetIDFromBytes :: "byte list \<Rightarrow> 32 word" where "GetGuardianSetIDFromBytes bz = be_Uint32 bz"

text \<open>The count is written into the first four bytes of a buffer of eight.\<close>

definition GetGuardianSetCount :: "'x wormchain \<Rightarrow> 32 word" where
  "GetGuardianSetCount k = (case wk_guardianSetCount k of None \<Rightarrow> 0 | Some bz \<Rightarrow> be_Uint32 bz)"

definition setGuardianSetCount :: "32 word \<Rightarrow> 'x wormchain \<Rightarrow> 'x wormchain" where
  "setGuardianSetCount count k = k\<lparr>wk_guardianSetCount := Some (put count @ replicate 4 0)\<rparr>"

definition GetLatestGuardianSetIndex :: "'x wormchain \<Rightarrow> 32 word" where
  "GetLatestGuardianSetIndex k = GetGuardianSetCount k - 1"

definition GetGuardianSet :: "32 word \<Rightarrow> 'x wormchain \<Rightarrow> WGuardianSet option" where
  "GetGuardianSet i k = kv_get (GetGuardianSetIDBytes i) (wk_guardianSets k)"

definition setGuardianSet :: "WGuardianSet \<Rightarrow> 'x wormchain \<Rightarrow> 'x wormchain" where
  "setGuardianSet gs k = k\<lparr>wk_guardianSets := kv_set (GetGuardianSetIDBytes (wgs_Index gs)) gs (wk_guardianSets k)\<rparr>"

definition AppendGuardianSet :: "WGuardianSet \<Rightarrow> 'x wormchain \<Rightarrow> go_error + 'x wormchain" where
  "AppendGuardianSet gs k =
     (let count = GetGuardianSetCount k in
      if wgs_Index gs \<noteq> count then Inl ErrGuardianSetNotSequential
      else Inr (setGuardianSetCount (count + 1) (setGuardianSet gs k)))"

definition GetAllGuardianSet :: "'x wormchain \<Rightarrow> WGuardianSet list" where
  "GetAllGuardianSet k = map snd (wk_guardianSets k)"

definition KeysAsAddresses :: "crypto \<Rightarrow> WGuardianSet \<Rightarrow> eth_address list" where
  "KeysAsAddresses c gs = map (BytesToEthAddress c) (wgs_Keys gs)"

definition ContainsKey :: "WGuardianSet \<Rightarrow> eth_address \<Rightarrow> bool" where
  "ContainsKey gs key \<longleftrightarrow> key \<in> set (wgs_Keys gs)"

definition WGuardianSet_ValidateBasic :: "WGuardianSet \<Rightarrow> go_error + unit" where
  "WGuardianSet_ValidateBasic gs =
     (if \<exists>key \<in> set (wgs_Keys gs). length key \<noteq> 20 then Inl (Errorf ''key: len != 20'')
      else if length (wgs_Keys gs) = 0 then Inl (Errorf ''guardian set must not be empty'')
      else if 255 < length (wgs_Keys gs) then Inl (Errorf ''guardian set length must be <= 255'')
      else Inr ())"

section \<open>The other stores\<close>

definition GetConfig :: "'x wormchain \<Rightarrow> WConfig option" where "GetConfig k = wk_config k"
definition SetConfig :: "WConfig \<Rightarrow> 'x wormchain \<Rightarrow> 'x wormchain" where "SetConfig c k = k\<lparr>wk_config := Some c\<rparr>"
definition RemoveConfig :: "'x wormchain \<Rightarrow> 'x wormchain" where "RemoveConfig k = k\<lparr>wk_config := None\<rparr>"

definition GetConsensusGuardianSetIndex :: "'x wormchain \<Rightarrow> 32 word option" where
  "GetConsensusGuardianSetIndex k = wk_consensusIndex k"
definition SetConsensusGuardianSetIndex :: "32 word \<Rightarrow> 'x wormchain \<Rightarrow> 'x wormchain" where
  "SetConsensusGuardianSetIndex i k = k\<lparr>wk_consensusIndex := Some i\<rparr>"
definition RemoveConsensusGuardianSetIndex :: "'x wormchain \<Rightarrow> 'x wormchain" where
  "RemoveConsensusGuardianSetIndex k = k\<lparr>wk_consensusIndex := None\<rparr>"

definition ReplayProtectionKey :: "string \<Rightarrow> byte list" where "ReplayProtectionKey index = bytes_of index @ bytes_of ''/''"
definition SetReplayProtection :: "string \<Rightarrow> 'x wormchain \<Rightarrow> 'x wormchain" where
  "SetReplayProtection index k = k\<lparr>wk_replay := kv_set (ReplayProtectionKey index) index (wk_replay k)\<rparr>"
definition GetReplayProtection :: "string \<Rightarrow> 'x wormchain \<Rightarrow> string option" where
  "GetReplayProtection index k = kv_get (ReplayProtectionKey index) (wk_replay k)"
definition RemoveReplayProtection :: "string \<Rightarrow> 'x wormchain \<Rightarrow> 'x wormchain" where
  "RemoveReplayProtection index k = k\<lparr>wk_replay := kv_delete (ReplayProtectionKey index) (wk_replay k)\<rparr>"
definition GetAllReplayProtection :: "'x wormchain \<Rightarrow> string list" where
  "GetAllReplayProtection k = map snd (wk_replay k)"

definition SequenceCounterKey :: "string \<Rightarrow> byte list" where "SequenceCounterKey index = bytes_of index @ bytes_of ''/''"
definition SetSequenceCounter :: "SequenceCounter \<Rightarrow> 'x wormchain \<Rightarrow> 'x wormchain" where
  "SetSequenceCounter s k = k\<lparr>wk_sequences := kv_set (SequenceCounterKey (sc_Index s)) s (wk_sequences k)\<rparr>"
definition GetSequenceCounter :: "string \<Rightarrow> 'x wormchain \<Rightarrow> SequenceCounter option" where
  "GetSequenceCounter index k = kv_get (SequenceCounterKey index) (wk_sequences k)"
definition RemoveSequenceCounter :: "string \<Rightarrow> 'x wormchain \<Rightarrow> 'x wormchain" where
  "RemoveSequenceCounter index k = k\<lparr>wk_sequences := kv_delete (SequenceCounterKey index) (wk_sequences k)\<rparr>"
definition GetAllSequenceCounter :: "'x wormchain \<Rightarrow> SequenceCounter list" where
  "GetAllSequenceCounter k = map snd (wk_sequences k)"

definition GuardianValidatorKey :: "byte list \<Rightarrow> byte list" where
  "GuardianValidatorKey guardianKey = guardianKey @ bytes_of ''/''"
definition SetGuardianValidator :: "GuardianValidator \<Rightarrow> 'x wormchain \<Rightarrow> 'x wormchain" where
  "SetGuardianValidator gv k = k\<lparr>wk_validators := kv_set (GuardianValidatorKey (gv_GuardianKey gv)) gv (wk_validators k)\<rparr>"
definition GetGuardianValidator :: "byte list \<Rightarrow> 'x wormchain \<Rightarrow> GuardianValidator option" where
  "GetGuardianValidator key k = kv_get (GuardianValidatorKey key) (wk_validators k)"
definition RemoveGuardianValidator :: "byte list \<Rightarrow> 'x wormchain \<Rightarrow> 'x wormchain" where
  "RemoveGuardianValidator key k = k\<lparr>wk_validators := kv_delete (GuardianValidatorKey key) (wk_validators k)\<rparr>"
definition GetAllGuardianValidator :: "'x wormchain \<Rightarrow> GuardianValidator list" where
  "GetAllGuardianValidator k = map snd (wk_validators k)"

definition SetValidatorAllowedAddress :: "ValidatorAllowedAddress \<Rightarrow> 'x wormchain \<Rightarrow> 'x wormchain" where
  "SetValidatorAllowedAddress a k = k\<lparr>wk_allowlist := kv_set (bytes_of (va_AllowedAddress a)) a (wk_allowlist k)\<rparr>"

text \<open>Unmarshalling the nil of a missing entry gives the zero value.\<close>

definition GetValidatorAllowedAddress :: "string \<Rightarrow> 'x wormchain \<Rightarrow> ValidatorAllowedAddress" where
  "GetValidatorAllowedAddress address k = (case kv_get (bytes_of address) (wk_allowlist k) of
     Some a \<Rightarrow> a | None \<Rightarrow> \<lparr>va_ValidatorAddress = [], va_AllowedAddress = [], va_Name = []\<rparr>)"
definition HasValidatorAllowedAddress :: "string \<Rightarrow> 'x wormchain \<Rightarrow> bool" where
  "HasValidatorAllowedAddress address k = kv_has (bytes_of address) (wk_allowlist k)"
definition RemoveValidatorAllowedAddress :: "string \<Rightarrow> 'x wormchain \<Rightarrow> 'x wormchain" where
  "RemoveValidatorAllowedAddress address k = k\<lparr>wk_allowlist := kv_delete (bytes_of address) (wk_allowlist k)\<rparr>"
definition GetAllAllowedAddresses :: "'x wormchain \<Rightarrow> ValidatorAllowedAddress list" where
  "GetAllAllowedAddresses k = map snd (wk_allowlist k)"

definition wasm_key :: "string \<Rightarrow> 64 word \<Rightarrow> byte list" where
  "wasm_key contract codeId = bytes_of (contract @ dec_string (unat codeId))"
definition SetWasmInstantiateAllowlist :: "WasmAllowed \<Rightarrow> 'x wormchain \<Rightarrow> 'x wormchain" where
  "SetWasmInstantiateAllowlist e k =
     k\<lparr>wk_wasmAllowlist := kv_set (wasm_key (wa_ContractAddress e) (wa_CodeId e)) e (wk_wasmAllowlist k)\<rparr>"
definition HasWasmInstantiateAllowlist :: "string \<Rightarrow> 64 word \<Rightarrow> 'x wormchain \<Rightarrow> bool" where
  "HasWasmInstantiateAllowlist contract codeId k = kv_has (wasm_key contract codeId) (wk_wasmAllowlist k)"
definition KeeperDeleteWasmInstantiateAllowlist :: "WasmAllowed \<Rightarrow> 'x wormchain \<Rightarrow> 'x wormchain" where
  "KeeperDeleteWasmInstantiateAllowlist e k =
     k\<lparr>wk_wasmAllowlist := kv_delete (wasm_key (wa_ContractAddress e) (wa_CodeId e)) (wk_wasmAllowlist k)\<rparr>"
definition GetAllWasmInstiateAllowedAddresses :: "'x wormchain \<Rightarrow> WasmAllowed list" where
  "GetAllWasmInstiateAllowedAddresses k = map snd (wk_wasmAllowlist k)"

definition StoreIbcComposabilityMwContract :: "string \<Rightarrow> 'x wormchain \<Rightarrow> 'x wormchain" where
  "StoreIbcComposabilityMwContract contract k = k\<lparr>wk_ibcContract := Some contract\<rparr>"
definition GetIbcComposabilityMwContract :: "'x wormchain \<Rightarrow> string" where
  "GetIbcComposabilityMwContract k = (case wk_ibcContract k of Some c \<Rightarrow> c | None \<Rightarrow> [])"

definition emit_event :: "worm_event \<Rightarrow> 'x wormchain \<Rightarrow> 'x wormchain" where
  "emit_event e k = k\<lparr>wk_events := wk_events k @ [e]\<rparr>"

section \<open>Guardian set updates\<close>

definition guardians_registered :: "byte list list \<Rightarrow> 'x wormchain \<Rightarrow> bool" where
  "guardians_registered keys k \<longleftrightarrow> list_all (\<lambda>key. GetGuardianValidator key k \<noteq> None) keys"

definition TrySwitchToNewConsensusGuardianSet :: "'x wormchain \<Rightarrow> go_error + 'x wormchain" where
  "TrySwitchToNewConsensusGuardianSet k =
     (let latest = GetLatestGuardianSetIndex k in
      case GetConsensusGuardianSetIndex k of
        None \<Rightarrow> Inl ErrConsensusSetUndefined
      | Some consensus \<Rightarrow>
          if latest = consensus then Inr k
          else (case GetGuardianSet latest k of
              None \<Rightarrow> Inl ErrGuardianSetNotFound
            | Some gs \<Rightarrow>
                if \<not> guardians_registered (wgs_Keys gs) k then Inr k
                else Inr (emit_event (EventConsensusSetUpdate consensus latest) (SetConsensusGuardianSetIndex latest k))))"

definition UpdateGuardianSet :: "block_ctx \<Rightarrow> WGuardianSet \<Rightarrow> 'x wormchain \<Rightarrow> go_error + 'x wormchain" where
  "UpdateGuardianSet ctx newGuardianSet k =
     (case GetConfig k of
        None \<Rightarrow> Inl ErrNoConfig
      | Some config \<Rightarrow>
          (case GetGuardianSet (GetLatestGuardianSetIndex k) k of
             None \<Rightarrow> Inl ErrGuardianSetNotFound
           | Some oldSet \<Rightarrow>
               if wgs_Index oldSet + 1 \<noteq> wgs_Index newGuardianSet then Inl ErrGuardianSetNotSequential
               else if wgs_ExpirationTime newGuardianSet \<noteq> 0 then Inl ErrNewGuardianSetHasExpiry
               else
                 chk (AppendGuardianSet newGuardianSet k) (\<lambda>k.
                 let oldSet = oldSet\<lparr>wgs_ExpirationTime :=
                       word_of_int (unix_secs (bc_BlockTime ctx)) + wc_GuardianSetExpiration config\<rparr>
                 in TrySwitchToNewConsensusGuardianSet
                      (emit_event (EventGuardianSetUpdate (wgs_Index oldSet) (wgs_Index oldSet + 1))
                        (setGuardianSet oldSet k)))))"

text \<open>The loop over the keys of the consensus guardian set.\<close>

fun is_guardian_validator :: "byte list list \<Rightarrow> byte list \<Rightarrow> 'x wormchain \<Rightarrow> bool" where
  "is_guardian_validator [] addr k = False"
| "is_guardian_validator (key # keys) addr k =
     (case GetGuardianValidator key k of
        None \<Rightarrow> is_guardian_validator keys addr k
      | Some validator \<Rightarrow> if gv_ValidatorAddr validator = addr then True else is_guardian_validator keys addr k)"

definition IsConsensusGuardian :: "byte list \<Rightarrow> 'x wormchain \<Rightarrow> go_error + bool" where
  "IsConsensusGuardian addr k =
     (if GetGuardianSetCount k = 0 then Inr True
      else case GetConsensusGuardianSetIndex k of
        None \<Rightarrow> Inl ErrConsensusSetUndefined
      | Some i \<Rightarrow>
          (case GetGuardianSet i k of
             None \<Rightarrow> Inl ErrGuardianSetNotFound
           | Some gs \<Rightarrow> if length (wgs_Keys gs) = 0 then Inr True
                        else Inr (is_guardian_validator (wgs_Keys gs) addr k)))"

section \<open>Verifying VAAs\<close>

definition ParseVAA :: "byte list \<Rightarrow> go_error + VAA" where
  "ParseVAA d = VAA_Unmarshal d"

definition wormchain_CalculateQuorum :: "int \<Rightarrow> int" where
  "wormchain_CalculateQuorum numGuardians = numGuardians * 2 div 3 + 1"

text \<open>Before the given heights an expiry of 0 means that a guardian set does not expire.\<close>

definition old_expiry_rule :: "block_ctx \<Rightarrow> bool" where
  "old_expiry_rule ctx \<longleftrightarrow> bc_ChainID ctx = ''wormchain'' \<and> bc_BlockHeight ctx < 8630306 \<or>
     bc_ChainID ctx = ''wormchain-testnet-0'' \<and> bc_BlockHeight ctx < 7468418"

definition Keeper_CalculateQuorum :: "block_ctx \<Rightarrow> 32 word \<Rightarrow> 'x wormchain \<Rightarrow> go_error + int \<times> WGuardianSet" where
  "Keeper_CalculateQuorum ctx guardianSetIndex k =
     (case GetGuardianSet guardianSetIndex k of
        None \<Rightarrow> Inl ErrGuardianSetNotFound
      | Some gs \<Rightarrow>
          let now = word_of_int (unix_secs (bc_BlockTime ctx)) in
          if (if old_expiry_rule ctx then 0 < wgs_ExpirationTime gs \<and> wgs_ExpirationTime gs < now
              else wgs_Index gs \<noteq> GetLatestGuardianSetIndex k \<and> wgs_ExpirationTime gs < now)
          then Inl ErrGuardianSetExpired
          else Inr (wormchain_CalculateQuorum (int (length (wgs_Keys gs))), gs))"

definition Keeper_VerifyMessageSignature :: "crypto \<Rightarrow> block_ctx \<Rightarrow> byte list \<Rightarrow> byte list \<Rightarrow> 32 word \<Rightarrow> Signature \<Rightarrow>
    'x wormchain \<Rightarrow> go_error + unit" where
  "Keeper_VerifyMessageSignature c ctx pfx data guardianSetIndex signature k =
     chk (Keeper_CalculateQuorum ctx guardianSetIndex k) (\<lambda>(_, gs).
     let addresses = KeysAsAddresses c gs in
     if length addresses \<le> unat (sig_Index signature) then Inl ErrGuardianIndexOutOfBounds
     else guard_err (\<not> VerifyMessageSignature c pfx data signature (addresses ! unat (sig_Index signature)))
            ErrSignaturesInvalid)"

definition DeprecatedVerifyVaa :: "crypto \<Rightarrow> block_ctx \<Rightarrow> byte list \<Rightarrow> 32 word \<Rightarrow> Signature list \<Rightarrow> 'x wormchain \<Rightarrow> go_error + unit" where
  "DeprecatedVerifyVaa c ctx vaaBody guardianSetIndex signatures k =
     chk (Keeper_CalculateQuorum ctx guardianSetIndex k) (\<lambda>(quorum, gs).
     if int (length signatures) < quorum then Inl ErrNoQuorum
     else guard_err (\<not> DeprecatedVerifySignatures c vaaBody signatures (KeysAsAddresses c gs)) ErrSignaturesInvalid)"

definition Keeper_VerifyVAA :: "crypto \<Rightarrow> block_ctx \<Rightarrow> VAA \<Rightarrow> 'x wormchain \<Rightarrow> go_error + unit" where
  "Keeper_VerifyVAA c ctx v k =
     chk (Keeper_CalculateQuorum ctx (vaa_GuardianSetIndex v) k) (\<lambda>(quorum, gs).
     if int (length (vaa_Signatures v)) < quorum then Inl ErrNoQuorum
     else guard_err (\<not> VAA_VerifySignatures c v (KeysAsAddresses c gs)) ErrSignaturesInvalid)"

text \<open>The action, the payload behind the header, and the state with the VAA marked as executed.\<close>

definition VerifyGovernanceVAA :: "crypto \<Rightarrow> block_ctx \<Rightarrow> VAA \<Rightarrow> byte list \<Rightarrow> 'x wormchain \<Rightarrow>
    go_error + byte \<times> byte list \<times> 'x wormchain" where
  "VerifyGovernanceVAA c ctx v module k =
     chk (Keeper_VerifyVAA c ctx v k) (\<lambda>_.
     if GetReplayProtection (HexDigest c v) k \<noteq> None then Inl ErrVAAAlreadyExecuted
     else
       let k = SetReplayProtection (HexDigest c v) k in
       case GetConfig k of
         None \<Rightarrow> Inl ErrNoConfig
       | Some config \<Rightarrow>
           if vaa_EmitterAddress v \<noteq> wc_GovernanceEmitter config then Inl ErrInvalidGovernanceEmitter
           else if vaa_EmitterChain v \<noteq> ucast (wc_GovernanceChain config) then Inl ErrInvalidGovernanceEmitter
           else if length (vaa_Payload v) < 35 then Inl ErrGovernanceHeaderTooShort
           else if take 32 (vaa_Payload v) \<noteq> module then Inl ErrUnknownGovernanceModule
           else
             let action = vaa_Payload v ! 32;
                 chain = word_of_nat (nat_of_be (take 2 (drop 33 (vaa_Payload v)))) :: 16 word;
                 payload = drop 35 (vaa_Payload v)
             in if chain \<noteq> 0 \<and> chain \<noteq> ucast (wc_ChainId config) then Inl ErrInvalidGovernanceTargetChain
                else Inr (action, payload, k))"

section \<open>Governance of guardian sets\<close>

fun payload_keys :: "byte list \<Rightarrow> nat \<Rightarrow> byte list list \<Rightarrow> go_error + byte list list" where
  "payload_keys payload 0 keys = Inr keys"
| "payload_keys payload (Suc n) keys =
     (let key = take 20 payload in
      if key \<in> set keys then Inl ErrDuplicateGuardianAddress
      else payload_keys (drop 20 payload) n (keys @ [key]))"

definition ExecuteGovernanceVAA :: "crypto \<Rightarrow> block_ctx \<Rightarrow> byte list \<Rightarrow> 'x wormchain \<Rightarrow> go_error + 'x wormchain" where
  "ExecuteGovernanceVAA c ctx msg_Vaa k =
     chk (ParseVAA msg_Vaa) (\<lambda>v.
     chk (VerifyGovernanceVAA c ctx v CoreModule k) (\<lambda>(action, payload, k).
     if action = 2 then
       if length payload < 5 then Inl ErrInvalidGovernancePayloadLength
       else
         let newIndex = be_Uint32 payload; numGuardians = unat (payload ! 4) in
         if length payload \<noteq> 5 + 20 * numGuardians then Inl ErrInvalidGovernancePayloadLength
         else chk (payload_keys (drop 5 payload) numGuardians []) (\<lambda>keys.
              UpdateGuardianSet ctx \<lparr>wgs_Index = newIndex, wgs_Keys = keys, wgs_ExpirationTime = 0\<rparr> k)
     else Inl ErrUnknownGovernanceAction))"

section \<open>Validators and allowlists\<close>

definition SignedWormchainAddressPrefix :: "byte list" where
  "SignedWormchainAddressPrefix = bytes_of ''signed_wormchain_address_00000000|''"

definition RegisterAccountAsGuardian :: "crypto \<Rightarrow> chain_libs \<Rightarrow> string \<Rightarrow> byte list \<Rightarrow> 'x wormchain \<Rightarrow> go_error + 'x wormchain" where
  "RegisterAccountAsGuardian c B msg_Signer msg_Signature k =
     chk (AccAddressFromBech32 B msg_Signer) (\<lambda>signer.
     let signerHash = Keccak256 c (SignedWormchainAddressPrefix @ signer) in
     chk (Ecrecover c signerHash msg_Signature) (\<lambda>guardianKey.
     let guardianKeyAddr = BytesToEthAddress c (drop 12 (Keccak256 c (drop 1 guardianKey))) in
     case GetGuardianSet (GetLatestGuardianSetIndex k) k of
       None \<Rightarrow> Inl ErrGuardianSetNotFound
     | Some latestGuardianSet \<Rightarrow>
         if GetConsensusGuardianSetIndex k = None then Inl ErrConsensusSetUndefined
         else if \<not> ContainsKey latestGuardianSet guardianKeyAddr then Inl ErrGuardianNotFound
         else if \<exists>gv \<in> set (GetAllGuardianValidator k). gv_ValidatorAddr gv = signer then Inl ErrSignerAlreadyRegistered
         else TrySwitchToNewConsensusGuardianSet
                (emit_event (EventGuardianRegistered guardianKeyAddr signer)
                  (SetGuardianValidator \<lparr>gv_GuardianKey = guardianKeyAddr, gv_ValidatorAddr = signer\<rparr> k))))"

definition GetGuardianValidatorByValidatorAddress :: "chain_libs \<Rightarrow> string \<Rightarrow> 'x wormchain \<Rightarrow> GuardianValidator option" where
  "GetGuardianValidatorByValidatorAddress B addr k =
     (case AccAddressFromBech32 B addr of
        Inl _ \<Rightarrow> None
      | Inr addrBz \<Rightarrow> List.find (\<lambda>val. gv_ValidatorAddr val = addrBz) (GetAllGuardianValidator k))"

text \<open>The zero value of a missing consensus index is 0.\<close>

definition IsAddressValidatorOrFutureValidator :: "chain_libs \<Rightarrow> string \<Rightarrow> 'x wormchain \<Rightarrow> bool" where
  "IsAddressValidatorOrFutureValidator B addr k =
     (let currentIndex = (case GetConsensusGuardianSetIndex k of Some i \<Rightarrow> i | None \<Rightarrow> 0) in
      case GetGuardianValidatorByValidatorAddress B addr k of
        None \<Rightarrow> False
      | Some matchedValidator \<Rightarrow>
          list_ex (\<lambda>gSet. currentIndex \<le> wgs_Index gSet \<and> gv_GuardianKey matchedValidator \<in> set (wgs_Keys gSet))
            (GetAllGuardianSet k))"

definition CreateAllowlistEntry :: "chain_libs \<Rightarrow> string \<Rightarrow> string \<Rightarrow> string \<Rightarrow> 'x wormchain \<Rightarrow> go_error + 'x wormchain" where
  "CreateAllowlistEntry B msg_Signer msg_Address msg_Name k =
     (if \<not> IsAddressValidatorOrFutureValidator B msg_Signer k
      then Inl (Wrap ''must be a current or future validator'' (Some ErrUnauthorized))
      else if HasValidatorAllowedAddress msg_Address k \<and>
              IsAddressValidatorOrFutureValidator B (va_ValidatorAddress (GetValidatorAllowedAddress msg_Address k)) k
      then Inl (Errorf ''address is already whitelisted'')
      else Inr (SetValidatorAllowedAddress
             \<lparr>va_ValidatorAddress = msg_Signer, va_AllowedAddress = msg_Address, va_Name = msg_Name\<rparr> k))"

definition DeleteAllowlistEntry :: "chain_libs \<Rightarrow> string \<Rightarrow> string \<Rightarrow> 'x wormchain \<Rightarrow> go_error + 'x wormchain" where
  "DeleteAllowlistEntry B msg_Signer msg_Address k =
     (if \<not> IsAddressValidatorOrFutureValidator B msg_Signer k
      then Inl (Wrap ''must be a current or future validator'' (Some ErrUnauthorized))
      else if HasValidatorAllowedAddress msg_Address k then
        let allowed = GetValidatorAllowedAddress msg_Address k in
        if \<not> IsAddressValidatorOrFutureValidator B (va_ValidatorAddress allowed) k
        then Inr (RemoveValidatorAllowedAddress msg_Address k)
        else if va_ValidatorAddress allowed \<noteq> msg_Signer
        then Inl (Wrap ''can only delete allowlist entries you created'' (Some ErrUnauthorized))
        else Inr (RemoveValidatorAllowedAddress msg_Address k)
      else Inl (Errorf ''key not found''))"

text \<open>The signers of all messages of a transaction, as addresses; next is whether it goes on.\<close>

fun signers_allowed :: "chain_libs \<Rightarrow> byte list list \<Rightarrow> 'x wormchain \<Rightarrow> bool" where
  "signers_allowed B [] k = False"
| "signers_allowed B (signer # rest) k =
     (let addr = AccAddress_String B signer in
      if HasValidatorAllowedAddress addr k \<and>
         IsAddressValidatorOrFutureValidator B (va_ValidatorAddress (GetValidatorAllowedAddress addr k)) k
      then True
      else if IsAddressValidatorOrFutureValidator B addr k then True
      else signers_allowed B rest k)"

definition AnteHandle :: "chain_libs \<Rightarrow> block_ctx \<Rightarrow> bool \<Rightarrow> byte list list list \<Rightarrow> 'x wormchain \<Rightarrow> go_error + unit" where
  "AnteHandle B ctx isReCheckTx msg_signers k =
     (if isReCheckTx then Inr ()
      else if bc_BlockHeight ctx < 1 then Inr ()
      else if signers_allowed B (concat msg_signers) k then Inr ()
      else Inl (Wrap ''signer must be current validator or allowlisted by current validator'' (Some ErrUnauthorized)))"

end
