(* ===== verification/WormMsgs.thy ===== *)
theory WormMsgs imports WormKeeper begin

text \<open>
  The rest of wormchain's x/wormhole: the handlers of wasmd and gateway governance, posted messages and
  governance proposals, genesis, the queries, and NewHandler, which dispatches the messages. The keepers of
  wasmd, upgrade and slashing are the record other_modules, an argument, over the state wk_modules.
\<close>

record slashing_params =
  sl_SignedBlocksWindow :: int
  sl_MinSignedPerWindow :: int
  sl_DowntimeJailDuration :: int
  sl_SlashFractionDoubleSign :: int
  sl_SlashFractionDowntime :: int

text \<open>Decimals have 18 digits behind the point. ScheduleUpgrade may refuse a plan; SetParams may panic.\<close>

record 'x other_modules =
  om_setWasmd :: bool
  om_Create :: "byte list \<Rightarrow> byte list \<Rightarrow> 'x \<Rightarrow> go_error + (64 word \<times> byte list) \<times> 'x"
  om_Instantiate :: "64 word \<Rightarrow> byte list \<Rightarrow> byte list \<Rightarrow> byte list \<Rightarrow> byte list \<Rightarrow> 'x \<Rightarrow> go_error + (byte list \<times> byte list) \<times> 'x"
  om_Migrate :: "byte list \<Rightarrow> byte list \<Rightarrow> 64 word \<Rightarrow> byte list \<Rightarrow> 'x \<Rightarrow> go_error + byte list \<times> 'x"
  om_ScheduleUpgrade :: "byte list \<Rightarrow> int \<Rightarrow> 'x \<Rightarrow> go_error option \<times> 'x"
  om_ClearUpgradePlan :: "'x \<Rightarrow> 'x"
  om_SetSlashingParams :: "slashing_params \<Rightarrow> 'x \<Rightarrow> go_error + 'x"

section \<open>Contracts of wasmd\<close>

definition WASMD_CONTRACT_ADMIN :: "byte list" where "WASMD_CONTRACT_ADMIN = bytes_of ''wormchain_wasmd_owner''"

text \<open>
  What the handlers below begin with: parse the VAA, verify it for a module, compare the action.
\<close>

definition governance_payload :: "crypto \<Rightarrow> block_ctx \<Rightarrow> byte list \<Rightarrow> byte list \<Rightarrow> byte \<Rightarrow> 'x wormchain \<Rightarrow>
    go_error + byte list \<times> 'x wormchain" where
  "governance_payload c ctx msg_Vaa module expectedAction k =
     chk (ParseVAA msg_Vaa) (\<lambda>v.
     chk (VerifyGovernanceVAA c ctx v module k) (\<lambda>(action, payload, k).
     if action \<noteq> expectedAction then Inl ErrUnknownGovernanceAction else Inr (payload, k)))"

definition wasmd_not_set :: go_error where "wasmd_not_set = Wrap ''x/wasmd not set'' (Some (Errorf ''not supported''))"

definition StoreCode :: "crypto \<Rightarrow> chain_libs \<Rightarrow> 'x other_modules \<Rightarrow> block_ctx \<Rightarrow> string \<Rightarrow> byte list \<Rightarrow> byte list \<Rightarrow> 'x wormchain \<Rightarrow>
    go_error + (64 word \<times> byte list) \<times> 'x wormchain" where
  "StoreCode c B M ctx msg_Signer msg_WASMByteCode msg_Vaa k =
     (if \<not> om_setWasmd M then Inl wasmd_not_set
      else
        chk (governance_payload c ctx msg_Vaa WasmdModule 1 k) (\<lambda>(payload, k).
        if payload \<noteq> Keccak256 c msg_WASMByteCode then Inl ErrInvalidHash
        else
          chk (wrap ''signer'' (AccAddressFromBech32 B msg_Signer)) (\<lambda>senderAddr.
          chk (om_Create M senderAddr msg_WASMByteCode (wk_modules k)) (\<lambda>(res, x).
          Inr (res, k\<lparr>wk_modules := x\<rparr>)))))"

definition InstantiateContract :: "crypto \<Rightarrow> chain_libs \<Rightarrow> 'x other_modules \<Rightarrow> block_ctx \<Rightarrow> string \<Rightarrow> 64 word \<Rightarrow> byte list \<Rightarrow> byte list \<Rightarrow>
    byte list \<Rightarrow> 'x wormchain \<Rightarrow> go_error + (string \<times> byte list) \<times> 'x wormchain" where
  "InstantiateContract c B M ctx msg_Signer msg_CodeID msg_Label msg_Msg msg_Vaa k =
     (if \<not> om_setWasmd M then Inl wasmd_not_set
      else
        chk (governance_payload c ctx msg_Vaa WasmdModule 2 k) (\<lambda>(payload, k).
        if payload \<noteq> CreateInstatiateCosmwasmContractHash c msg_CodeID msg_Label msg_Msg then Inl ErrInvalidHash
        else
          chk (wrap ''signer'' (AccAddressFromBech32 B msg_Signer)) (\<lambda>senderAddr.
          chk (om_Instantiate M msg_CodeID senderAddr WASMD_CONTRACT_ADMIN msg_Msg msg_Label (wk_modules k)) (\<lambda>((addr, data), x).
          Inr ((AccAddress_String B addr, data), k\<lparr>wk_modules := x\<rparr>)))))"

text \<open>MigrateContract does not ask whether the keeper of wasmd has been set: a nil interface panics.\<close>

definition MigrateContract :: "crypto \<Rightarrow> chain_libs \<Rightarrow> 'x other_modules \<Rightarrow> block_ctx \<Rightarrow> string \<Rightarrow> string \<Rightarrow> 64 word \<Rightarrow> byte list \<Rightarrow>
    byte list \<Rightarrow> 'x wormchain \<Rightarrow> go_error + byte list \<times> 'x wormchain" where
  "MigrateContract c B M ctx msg_Signer msg_Contract msg_CodeID msg_Msg msg_Vaa k =
     chk (governance_payload c ctx msg_Vaa WasmdModule 3 k) (\<lambda>(payload, k).
     if payload \<noteq> CreateMigrateCosmwasmContractHash c msg_CodeID (bytes_of msg_Contract) msg_Msg then Inl ErrInvalidHash
     else
       chk (wrap ''sender'' (AccAddressFromBech32 B msg_Signer)) (\<lambda>_.
       chk (wrap ''contract'' (AccAddressFromBech32 B msg_Contract)) (\<lambda>contractAddr.
       if \<not> om_setWasmd M then Inl (Panic ''nil wasmd keeper'')
       else chk (om_Migrate M contractAddr WASMD_CONTRACT_ADMIN msg_CodeID msg_Msg (wk_modules k)) (\<lambda>(data, x).
            Inr (data, k\<lparr>wk_modules := x\<rparr>)))))"

text \<open>The error of Deserialize is not looked at: a payload of another length leaves the zero value.\<close>

definition deserialized :: "'b \<Rightarrow> go_error + 'b \<Rightarrow> go_error + 'b" where
  "deserialized zero r = (case r of Inl (Panic m) \<Rightarrow> Inl (Panic m) | Inl _ \<Rightarrow> Inr zero | Inr b \<Rightarrow> Inr b)"

definition ExecuteWasmInstantiateAllowlistAction :: "crypto \<Rightarrow> chain_libs \<Rightarrow> block_ctx \<Rightarrow> byte list \<Rightarrow> string \<Rightarrow> 64 word \<Rightarrow> string \<Rightarrow>
    byte \<Rightarrow> 'x wormchain \<Rightarrow> go_error + 'x wormchain" where
  "ExecuteWasmInstantiateAllowlistAction c B ctx vaaBytes signer codeId contractAddress expectedAction k =
     chk (governance_payload c ctx vaaBytes WasmdModule expectedAction k) (\<lambda>(payload, k).
     chk (wrap ''signer'' (AccAddressFromBech32 B signer)) (\<lambda>_.
     chk (wrap ''contract'' (AccAddressFromBech32 B contractAddress)) (\<lambda>addrBytes.
     chk (deserialized \<lparr>al_ContractAddr = replicate 32 0, al_CodeId = 0\<rparr> (WasmAllowlist_Deserialize payload)) (\<lambda>payloadBody.
     if al_ContractAddr payloadBody \<noteq> addrBytes then Inl ErrInvalidAllowlistContractAddr
     else if al_CodeId payloadBody \<noteq> codeId then Inl ErrInvalidAllowlistCodeId
     else
       let allowlistEntry = \<lparr>wa_ContractAddress = contractAddress, wa_CodeId = codeId\<rparr> in
       if expectedAction = 4 then Inr (SetWasmInstantiateAllowlist allowlistEntry k)
       else if expectedAction = 5 then Inr (KeeperDeleteWasmInstantiateAllowlist allowlistEntry k)
       else Inl ErrUnknownGovernanceAction))))"

definition AddWasmInstantiateAllowlist :: "crypto \<Rightarrow> chain_libs \<Rightarrow> block_ctx \<Rightarrow> byte list \<Rightarrow> string \<Rightarrow> 64 word \<Rightarrow> string \<Rightarrow>
    'x wormchain \<Rightarrow> go_error + 'x wormchain" where
  "AddWasmInstantiateAllowlist c B ctx msg_Vaa msg_Signer msg_CodeId msg_Address k =
     ExecuteWasmInstantiateAllowlistAction c B ctx msg_Vaa msg_Signer msg_CodeId msg_Address 4 k"

definition DeleteWasmInstantiateAllowlist :: "crypto \<Rightarrow> chain_libs \<Rightarrow> block_ctx \<Rightarrow> byte list \<Rightarrow> string \<Rightarrow> 64 word \<Rightarrow> string \<Rightarrow>
    'x wormchain \<Rightarrow> go_error + 'x wormchain" where
  "DeleteWasmInstantiateAllowlist c B ctx msg_Vaa msg_Signer msg_CodeId msg_Address k =
     ExecuteWasmInstantiateAllowlistAction c B ctx msg_Vaa msg_Signer msg_CodeId msg_Address 5 k"

section \<open>Governance of the gateway\<close>

text \<open>The error of ScheduleUpgrade is not looked at either.\<close>

definition scheduleUpgrade :: "'x other_modules \<Rightarrow> byte list \<Rightarrow> 'x wormchain \<Rightarrow> go_error + 'x wormchain" where
  "scheduleUpgrade M payload k =
     chk (deserialized \<lparr>su_Name = [], su_Height = 0\<rparr> (ScheduleUpgrade_Deserialize payload)) (\<lambda>payloadBody.
     case om_ScheduleUpgrade M (su_Name payloadBody) (sint (su_Height payloadBody)) (wk_modules k) of
       (_, x) \<Rightarrow> Inr (k\<lparr>wk_modules := x\<rparr>))"

definition cancelUpgrade :: "'x other_modules \<Rightarrow> 'x wormchain \<Rightarrow> go_error + 'x wormchain" where
  "cancelUpgrade M k = Inr (k\<lparr>wk_modules := om_ClearUpgradePlan M (wk_modules k)\<rparr>)"

definition setIbcComposabilityMwContract :: "chain_libs \<Rightarrow> byte list \<Rightarrow> 'x wormchain \<Rightarrow> go_error + 'x wormchain" where
  "setIbcComposabilityMwContract B payload k =
     chk (deserialized \<lparr>icm_ContractAddr = replicate 32 0\<rparr> (IbcComposabilityMw_Deserialize payload)) (\<lambda>payloadBody.
     chk (or_err ErrInvalidIbcComposabilityMwContractAddr (Bech32ifyAddressBytes B (icm_ContractAddr payloadBody))) (\<lambda>contractAddr.
     Inr (StoreIbcComposabilityMwContract contractAddr k)))"

definition setSlashingParams :: "'x other_modules \<Rightarrow> byte list \<Rightarrow> 'x wormchain \<Rightarrow> go_error + 'x wormchain" where
  "setSlashingParams M payload k =
     chk (deserialized \<lparr>sp_SignedBlocksWindow = 0, sp_MinSignedPerWindow = 0, sp_DowntimeJailDuration = 0,
            sp_SlashFractionDoubleSign = 0, sp_SlashFractionDowntime = 0\<rparr> (SlashingParams_Deserialize payload)) (\<lambda>b.
     let params = \<lparr>sl_SignedBlocksWindow = sint (sp_SignedBlocksWindow b), sl_MinSignedPerWindow = sint (sp_MinSignedPerWindow b),
           sl_DowntimeJailDuration = sint (sp_DowntimeJailDuration b),
           sl_SlashFractionDoubleSign = sint (sp_SlashFractionDoubleSign b),
           sl_SlashFractionDowntime = sint (sp_SlashFractionDowntime b)\<rparr>
     in chk (om_SetSlashingParams M params (wk_modules k)) (\<lambda>x. Inr (k\<lparr>wk_modules := x\<rparr>)))"

definition ExecuteGatewayGovernanceVaa :: "crypto \<Rightarrow> chain_libs \<Rightarrow> 'x other_modules \<Rightarrow> block_ctx \<Rightarrow> string \<Rightarrow> byte list \<Rightarrow>
    'x wormchain \<Rightarrow> go_error + 'x wormchain" where
  "ExecuteGatewayGovernanceVaa c B M ctx msg_Signer msg_Vaa k =
     chk (wrap ''signer'' (AccAddressFromBech32 B msg_Signer)) (\<lambda>_.
     chk (ParseVAA msg_Vaa) (\<lambda>v.
     chk (VerifyGovernanceVAA c ctx v GatewayModule k) (\<lambda>(action, payload, k).
     if action = 1 then scheduleUpgrade M payload k
     else if action = 2 then cancelUpgrade M k
     else if action = 3 then setIbcComposabilityMwContract B payload k
     else if action = 4 then setSlashingParams M payload k
     else Inl ErrUnknownGovernanceAction)))"

section \<open>Posted messages and proposals\<close>

definition EmitterAddressFromBytes32 :: "byte list \<Rightarrow> go_error + byte list" where
  "EmitterAddressFromBytes32 bytes =
     (if length bytes \<noteq> 32 then Inl (Errorf ''emitter must be 32 bytes long'') else Inr bytes)"

definition EmitterAddressFromAccAddress :: "byte list \<Rightarrow> go_error + byte list" where
  "EmitterAddressFromAccAddress addr =
     (if 32 < length addr then Inl (Panic ''makeslice: len out of range'') else Inr (replicate (32 - length addr) 0 @ addr))"

definition PostMessage :: "block_ctx \<Rightarrow> byte list \<Rightarrow> 32 word \<Rightarrow> byte list \<Rightarrow> 'x wormchain \<Rightarrow> 'x wormchain" where
  "PostMessage ctx emitter nonce data k =
     (let emitterHex = hex_encode emitter;
          sequence = (case GetSequenceCounter emitterHex k of
            Some s \<Rightarrow> s | None \<Rightarrow> \<lparr>sc_Index = emitterHex, sc_Sequence = 0\<rparr>);
          k = emit_event (EventPostedMessage emitter (sc_Sequence sequence) nonce (word_of_int (unix_secs (bc_BlockTime ctx))) data) k
      in SetSequenceCounter (sequence\<lparr>sc_Sequence := sc_Sequence sequence + 1\<rparr>) k)"

datatype worm_proposal =
    GuardianSetUpdateProposal WGuardianSet
  | GovernanceWormholeMessageProposal (wp_module: "byte list") (wp_action: "32 word") (wp_targetChain: "32 word") (wp_payload: "byte list")

definition Proposal_ValidateBasic :: "worm_proposal \<Rightarrow> go_error + unit" where
  "Proposal_ValidateBasic p = (case p of
     GuardianSetUpdateProposal gs \<Rightarrow> WGuardianSet_ValidateBasic gs
   | GovernanceWormholeMessageProposal m a t b \<Rightarrow> guard_err (length m \<noteq> 32) (Errorf ''invalid module length''))"

text \<open>The message that a contract would be governed by, as types/vaa.go writes it.\<close>

record WGovernanceMessage =
  wg_Module :: "byte list"
  wg_Action :: byte
  wg_Chain :: "16 word"
  wg_Payload :: "byte list"

definition NewGovernanceMessage :: "byte list \<Rightarrow> byte \<Rightarrow> 16 word \<Rightarrow> byte list \<Rightarrow> WGovernanceMessage" where
  "NewGovernanceMessage module action chain payload =
     \<lparr>wg_Module = module, wg_Action = action, wg_Chain = chain, wg_Payload = payload\<rparr>"

definition GovernanceMessage_MarshalBinary :: "WGovernanceMessage \<Rightarrow> byte list" where
  "GovernanceMessage_MarshalBinary gm = wg_Module gm @ [wg_Action gm] @ put (wg_Chain gm) @ wg_Payload gm"

definition guardian_set_message :: "WGuardianSet \<Rightarrow> byte list" where
  "guardian_set_message gs = CoreModule @ put (2 :: byte) @ put (0 :: 16 word) @ put (wgs_Index gs) @
     put (word_of_nat (length (wgs_Keys gs)) :: byte) @ concat (wgs_Keys gs)"

definition handleGuardianSetUpdateProposal :: "block_ctx \<Rightarrow> WGuardianSet \<Rightarrow> 'x wormchain \<Rightarrow> go_error + 'x wormchain" where
  "handleGuardianSetUpdateProposal ctx newGuardianSet k =
     chk (wrap ''failed to update guardian set''
       (UpdateGuardianSet ctx \<lparr>wgs_Index = wgs_Index newGuardianSet, wgs_Keys = wgs_Keys newGuardianSet, wgs_ExpirationTime = 0\<rparr> k)) (\<lambda>k.
     case GetConfig k of
       None \<Rightarrow> Inl ErrNoConfig
     | Some config \<Rightarrow>
         chk (wrap ''failed to post message'' (EmitterAddressFromBytes32 (wc_GovernanceEmitter config))) (\<lambda>emitterAddress.
         Inr (PostMessage ctx emitterAddress 0 (guardian_set_message newGuardianSet) k)))"

definition handleGovernanceWormholeMessageProposal :: "block_ctx \<Rightarrow> byte list \<Rightarrow> 32 word \<Rightarrow> 32 word \<Rightarrow> byte list \<Rightarrow> 'x wormchain \<Rightarrow>
    go_error + 'x wormchain" where
  "handleGovernanceWormholeMessageProposal ctx module action targetChain payload k =
     (case GetConfig k of
        None \<Rightarrow> Inl ErrNoConfig
      | Some config \<Rightarrow>
          chk (wrap ''failed to post message'' (EmitterAddressFromBytes32 (wc_GovernanceEmitter config))) (\<lambda>emitterAddress.
          Inr (PostMessage ctx emitterAddress 0
            (module @ put (ucast action :: byte) @ put (ucast targetChain :: 16 word) @ payload) k)))"

definition WormholeGovernanceProposalHandler :: "block_ctx \<Rightarrow> worm_proposal \<Rightarrow> 'x wormchain \<Rightarrow> go_error + 'x wormchain" where
  "WormholeGovernanceProposalHandler ctx p k = (case p of
     GuardianSetUpdateProposal gs \<Rightarrow> handleGuardianSetUpdateProposal ctx gs k
   | GovernanceWormholeMessageProposal m a t b \<Rightarrow> handleGovernanceWormholeMessageProposal ctx m a t b k)"

section \<open>Genesis\<close>

record GenesisState =
  ge_GuardianSetList :: "WGuardianSet list"
  ge_Config :: "WConfig option"
  ge_ReplayProtectionList :: "string list"
  ge_SequenceCounterList :: "SequenceCounter list"
  ge_ConsensusGuardianSetIndex :: "32 word option"
  ge_GuardianValidatorList :: "GuardianValidator list"
  ge_AllowedAddresses :: "ValidatorAllowedAddress list"
  ge_WasmInstantiateAllowlist :: "WasmAllowed list"
  ge_IbcComposabilityMwContract :: string

definition DefaultGenesis :: GenesisState where
  "DefaultGenesis = \<lparr>ge_GuardianSetList = [], ge_Config = None, ge_ReplayProtectionList = [], ge_SequenceCounterList = [],
     ge_ConsensusGuardianSetIndex = Some 0, ge_GuardianValidatorList = [], ge_AllowedAddresses = [],
     ge_WasmInstantiateAllowlist = [], ge_IbcComposabilityMwContract = []\<rparr>"

text \<open>A loop that collects keys in a map and fails at the first that is there already.\<close>

fun unique_loop :: "string \<Rightarrow> 'k set \<Rightarrow> 'k list \<Rightarrow> go_error + unit" where
  "unique_loop msg seen [] = Inr ()"
| "unique_loop msg seen (x # xs) = (if x \<in> seen then Inl (Errorf msg) else unique_loop msg (insert x seen) xs)"

definition Genesis_Validate :: "GenesisState \<Rightarrow> go_error + unit" where
  "Genesis_Validate gs =
     chk (unique_loop ''duplicated id for guardianSet'' {} (map wgs_Index (ge_GuardianSetList gs))) (\<lambda>_.
     chk (unique_loop ''duplicated index for replayProtection'' {} (map ReplayProtectionKey (ge_ReplayProtectionList gs))) (\<lambda>_.
     chk (unique_loop ''duplicated index for sequenceCounter'' {}
            (map (\<lambda>s. SequenceCounterKey (sc_Index s)) (ge_SequenceCounterList gs))) (\<lambda>_.
     unique_loop ''duplicated index for guardianValidator'' {}
       (map (\<lambda>v. GuardianValidatorKey (gv_GuardianKey v)) (ge_GuardianValidatorList gs)))))"

fun append_sets :: "WGuardianSet list \<Rightarrow> 'x wormchain \<Rightarrow> go_error + 'x wormchain" where
  "append_sets [] k = Inr k"
| "append_sets (gs # rest) k = (case AppendGuardianSet gs k of Inl _ \<Rightarrow> Inl (Panic ''AppendGuardianSet'') | Inr k \<Rightarrow> append_sets rest k)"

definition Wormhole_InitGenesis :: "GenesisState \<Rightarrow> 'x wormchain \<Rightarrow> go_error + 'x wormchain" where
  "Wormhole_InitGenesis g k =
     chk (append_sets (ge_GuardianSetList g) k) (\<lambda>k.
     let k = (case ge_Config g of None \<Rightarrow> k | Some c \<Rightarrow> SetConfig c k);
         k = fold SetReplayProtection (ge_ReplayProtectionList g) k;
         k = fold SetSequenceCounter (ge_SequenceCounterList g) k;
         k = (case ge_ConsensusGuardianSetIndex g of None \<Rightarrow> k | Some i \<Rightarrow> SetConsensusGuardianSetIndex i k);
         k = fold SetGuardianValidator (ge_GuardianValidatorList g) k;
         k = fold SetValidatorAllowedAddress (ge_AllowedAddresses g) k;
         k = fold SetWasmInstantiateAllowlist (ge_WasmInstantiateAllowlist g) k
     in Inr (StoreIbcComposabilityMwContract (ge_IbcComposabilityMwContract g) k))"

definition Wormhole_ExportGenesis :: "'x wormchain \<Rightarrow> GenesisState" where
  "Wormhole_ExportGenesis k = DefaultGenesis
     \<lparr>ge_GuardianSetList := GetAllGuardianSet k,
      ge_Config := GetConfig k,
      ge_ReplayProtectionList := GetAllReplayProtection k,
      ge_SequenceCounterList := GetAllSequenceCounter k,
      ge_ConsensusGuardianSetIndex := (case GetConsensusGuardianSetIndex k of
         Some i \<Rightarrow> Some i | None \<Rightarrow> ge_ConsensusGuardianSetIndex DefaultGenesis),
      ge_GuardianValidatorList := GetAllGuardianValidator k,
      ge_AllowedAddresses := GetAllAllowedAddresses k,
      ge_WasmInstantiateAllowlist := GetAllWasmInstiateAllowedAddresses k,
      ge_IbcComposabilityMwContract := GetIbcComposabilityMwContract k\<rparr>"

section \<open>Queries\<close>

text \<open>
  The custom query of a contract; the fields that are absent from the JSON text are None. A signature is
  there: JSON's null in its place makes the query panic.
\<close>

record verifyQuorumParams =
  vq_Data :: "byte list"
  vq_GuardianSetIndex :: "32 word"
  vq_Signatures :: "Signature list"

record verifyMessageSignatureParams =
  vm_Prefix :: "byte list"
  vm_Data :: "byte list"
  vm_GuardianSetIndex :: "32 word"
  vm_Signature :: Signature

record WormholeQuery =
  wq_VerifyQuorum :: "verifyQuorumParams option"
  wq_VerifyVaa :: "byte list option"
  wq_VerifyMessageSignature :: "verifyMessageSignatureParams option"
  wq_CalculateQuorum :: "32 word option"

text \<open>The answer is an empty object or the number of a quorum.\<close>

definition WormholeQuerier :: "crypto \<Rightarrow> block_ctx \<Rightarrow> go_error + WormholeQuery \<Rightarrow> 'x wormchain \<Rightarrow> go_error + int option" where
  "WormholeQuerier c ctx data k =
     (case data of
        Inl e \<Rightarrow> Inl (Wrap ''json unmarshal'' (Some e))
      | Inr q \<Rightarrow>
          (case wq_VerifyQuorum q of
             Some p \<Rightarrow> chk (DeprecatedVerifyVaa c ctx (vq_Data p) (vq_GuardianSetIndex p) (vq_Signatures p) k) (\<lambda>_. Inr None)
           | None \<Rightarrow> (case wq_VerifyVaa q of
               Some b \<Rightarrow> chk (VAA_Unmarshal b) (\<lambda>v. chk (Keeper_VerifyVAA c ctx v k) (\<lambda>_. Inr None))
             | None \<Rightarrow> (case wq_VerifyMessageSignature q of
                 Some p \<Rightarrow> chk (Keeper_VerifyMessageSignature c ctx (vm_Prefix p) (vm_Data p) (vm_GuardianSetIndex p)
                                 (vm_Signature p) k) (\<lambda>_. Inr None)
               | None \<Rightarrow> (case wq_CalculateQuorum q of
                   Some i \<Rightarrow> chk (Keeper_CalculateQuorum ctx i k) (\<lambda>(quorum, _). Inr (Some quorum))
                 | None \<Rightarrow> Inl (Errorf ''unsupported request: custom''))))))"

definition not_found :: go_error where "not_found = Errorf ''not found''"

definition found :: "go_error \<Rightarrow> 'a option \<Rightarrow> go_error + 'a" where
  "found e r = (case r of None \<Rightarrow> Inl e | Some x \<Rightarrow> Inr x)"

definition Query_GuardianSet :: "32 word \<Rightarrow> 'x wormchain \<Rightarrow> go_error + WGuardianSet" where
  "Query_GuardianSet i k = found (Errorf ''key not found'') (GetGuardianSet i k)"
definition Query_Config :: "'x wormchain \<Rightarrow> go_error + WConfig" where
  "Query_Config k = found not_found (GetConfig k)"
definition Query_ConsensusGuardianSetIndex :: "'x wormchain \<Rightarrow> go_error + 32 word" where
  "Query_ConsensusGuardianSetIndex k = found not_found (GetConsensusGuardianSetIndex k)"
definition Query_LatestGuardianSetIndex :: "'x wormchain \<Rightarrow> 32 word" where
  "Query_LatestGuardianSetIndex k = GetLatestGuardianSetIndex k"
definition Query_ReplayProtection :: "string \<Rightarrow> 'x wormchain \<Rightarrow> go_error + string" where
  "Query_ReplayProtection index k = found not_found (GetReplayProtection index k)"
definition Query_SequenceCounter :: "string \<Rightarrow> 'x wormchain \<Rightarrow> go_error + SequenceCounter" where
  "Query_SequenceCounter index k = found not_found (GetSequenceCounter index k)"
definition Query_GuardianValidator :: "byte list \<Rightarrow> 'x wormchain \<Rightarrow> go_error + GuardianValidator" where
  "Query_GuardianValidator key k = found not_found (GetGuardianValidator key k)"
definition Query_IbcComposabilityMwContract :: "'x wormchain \<Rightarrow> string" where
  "Query_IbcComposabilityMwContract k = GetIbcComposabilityMwContract k"

text \<open>
  The answer collects pointers to the loop variable, which all loops of the module's version of Go share
  between their turns: at the end they all point at the last address that was ranged over.
\<close>

fun allowlist_loop :: "string \<Rightarrow> ValidatorAllowedAddress list \<Rightarrow> nat \<Rightarrow> ValidatorAllowedAddress option \<Rightarrow>
    nat \<times> ValidatorAllowedAddress option" where
  "allowlist_loop validator [] pointers allowed = (pointers, allowed)"
| "allowlist_loop validator (a # as) pointers allowed =
     allowlist_loop validator as (if va_ValidatorAddress a = validator then Suc pointers else pointers) (Some a)"

definition Query_Allowlist :: "string \<Rightarrow> 'x wormchain \<Rightarrow> ValidatorAllowedAddress list" where
  "Query_Allowlist validator k =
     (case allowlist_loop validator (GetAllAllowedAddresses k) 0 None of
        (n, None) \<Rightarrow> [] | (n, Some allowed) \<Rightarrow> replicate n allowed)"

section \<open>Messages\<close>

datatype worm_msg =
    MsgExecuteGovernanceVAA (wmsg_vaa: "byte list") (wmsg_signer: string)
  | MsgRegisterAccountAsGuardian (wmsg_signer: string) (wmsg_signature: "byte list")
  | MsgStoreCode (wmsg_signer: string) (wmsg_code: "byte list") (wmsg_vaa: "byte list")
  | MsgInstantiateContract (wmsg_signer: string) (wmsg_codeID: "64 word") (wmsg_label: "byte list") (wmsg_msg: "byte list")
      (wmsg_vaa: "byte list")
  | MsgAddWasmInstantiateAllowlist (wmsg_signer: string) (wmsg_address: string) (wmsg_codeID: "64 word") (wmsg_vaa: "byte list")
  | MsgDeleteWasmInstantiateAllowlist (wmsg_signer: string) (wmsg_address: string) (wmsg_codeID: "64 word") (wmsg_vaa: "byte list")
  | MsgMigrateContract (wmsg_signer: string) (wmsg_address: string) (wmsg_codeID: "64 word") (wmsg_msg: "byte list")
      (wmsg_vaa: "byte list")
  | MsgCreateAllowlistEntryRequest (wmsg_signer: string) (wmsg_address: string) (wmsg_name: string)
  | MsgDeleteAllowlistEntryRequest (wmsg_signer: string) (wmsg_address: string)
  | MsgExecuteGatewayGovernanceVaa (wmsg_signer: string) (wmsg_vaa: "byte list")

text \<open>The stateless checks that the module itself makes; those of wasmd's messages are wasmd's.\<close>

definition Msg_ValidateBasic :: "chain_libs \<Rightarrow> worm_msg \<Rightarrow> go_error + unit" where
  "Msg_ValidateBasic B msg =
     (case msg of
        MsgStoreCode _ _ _ \<Rightarrow> Inr ()
      | MsgInstantiateContract _ _ _ _ _ \<Rightarrow> Inr ()
      | MsgMigrateContract _ _ _ _ _ \<Rightarrow> Inr ()
      | MsgAddWasmInstantiateAllowlist s a _ _ \<Rightarrow>
          chk (wrap ''invalid signer address'' (AccAddressFromBech32 B s)) (\<lambda>_.
          chk (wrap ''invalid allowlist address'' (AccAddressFromBech32 B a)) (\<lambda>_. Inr ()))
      | MsgDeleteWasmInstantiateAllowlist s a _ _ \<Rightarrow>
          chk (wrap ''invalid signer address'' (AccAddressFromBech32 B s)) (\<lambda>_.
          chk (wrap ''invalid allowlist address'' (AccAddressFromBech32 B a)) (\<lambda>_. Inr ()))
      | MsgCreateAllowlistEntryRequest s a _ \<Rightarrow>
          chk (wrap ''invalid signer address'' (AccAddressFromBech32 B s)) (\<lambda>_.
          chk (wrap ''invalid allowlist address'' (AccAddressFromBech32 B a)) (\<lambda>_. Inr ()))
      | MsgDeleteAllowlistEntryRequest s a \<Rightarrow>
          chk (wrap ''invalid signer address'' (AccAddressFromBech32 B s)) (\<lambda>_.
          chk (wrap ''invalid allowlist address'' (AccAddressFromBech32 B a)) (\<lambda>_. Inr ()))
      | _ \<Rightarrow> chk (wrap ''invalid signer address'' (AccAddressFromBech32 B (wmsg_signer msg))) (\<lambda>_. Inr ()))"

definition Msg_GetSigners :: "chain_libs \<Rightarrow> worm_msg \<Rightarrow> go_error + byte list list" where
  "Msg_GetSigners B msg = (case AccAddressFromBech32 B (wmsg_signer msg) of
     Inl e \<Rightarrow> Inl (Panic ''AccAddressFromBech32'') | Inr signer \<Rightarrow> Inr [signer])"

text \<open>The state after a message; what it answers is left out.\<close>

definition NewHandler :: "crypto \<Rightarrow> chain_libs \<Rightarrow> 'x other_modules \<Rightarrow> block_ctx \<Rightarrow> worm_msg \<Rightarrow> 'x wormchain \<Rightarrow> go_error + 'x wormchain" where
  "NewHandler c B M ctx msg k =
     (case msg of
        MsgExecuteGovernanceVAA b s \<Rightarrow> ExecuteGovernanceVAA c ctx b k
      | MsgRegisterAccountAsGuardian s sg \<Rightarrow> RegisterAccountAsGuardian c B s sg k
      | MsgStoreCode s w b \<Rightarrow> chk (StoreCode c B M ctx s w b k) (\<lambda>(_, k). Inr k)
      | MsgInstantiateContract s i l m b \<Rightarrow> chk (InstantiateContract c B M ctx s i l m b k) (\<lambda>(_, k). Inr k)
      | MsgAddWasmInstantiateAllowlist s a i b \<Rightarrow> AddWasmInstantiateAllowlist c B ctx b s i a k
      | MsgDeleteWasmInstantiateAllowlist s a i b \<Rightarrow> DeleteWasmInstantiateAllowlist c B ctx b s i a k
      | MsgMigrateContract s a i m b \<Rightarrow> chk (MigrateContract c B M ctx s a i m b k) (\<lambda>(_, k). Inr k)
      | MsgCreateAllowlistEntryRequest s a n \<Rightarrow> CreateAllowlistEntry B s a n k
      | MsgDeleteAllowlistEntryRequest s a \<Rightarrow> DeleteAllowlistEntry B s a k
      | MsgExecuteGatewayGovernanceVaa s b \<Rightarrow> ExecuteGatewayGovernanceVaa c B M ctx s b k)"

text \<open>
  What happens to the module in a block: messages and proposals, and changes of the other modules. An action
  that fails leaves the state as it was, and is not part of a run.
\<close>

datatype 'x worm_action = WA_Message worm_msg | WA_Proposal worm_proposal | WA_Other 'x

definition run_action :: "crypto \<Rightarrow> chain_libs \<Rightarrow> 'x other_modules \<Rightarrow> block_ctx \<times> 'x worm_action \<Rightarrow> 'x wormchain \<Rightarrow>
    go_error + 'x wormchain" where
  "run_action c B M = (\<lambda>(ctx, a) k. case a of
     WA_Message msg \<Rightarrow> chk (Msg_ValidateBasic B msg) (\<lambda>_. NewHandler c B M ctx msg k)
   | WA_Proposal p \<Rightarrow> chk (Proposal_ValidateBasic p) (\<lambda>_. WormholeGovernanceProposalHandler ctx p k)
   | WA_Other x \<Rightarrow> Inr (k\<lparr>wk_modules := x\<rparr>))"

definition worm_step :: "crypto \<Rightarrow> chain_libs \<Rightarrow> 'x other_modules \<Rightarrow> block_ctx \<times> 'x worm_action \<Rightarrow> 'x wormchain \<Rightarrow> 'x wormchain \<Rightarrow> bool" where
  "worm_step c B M ev k k' \<longleftrightarrow> run_action c B M ev k = Inr k'"

end
