(* ===== verification/WormInv.thy ===== *)
theory WormInv imports WormMsgs Traces begin

text \<open>
  What the x/wormhole module of wormchain keeps: its stores are keyed as they should be, the latest and the
  consensus guardian set exist, the guardians of the consensus set are registered validators, a validator
  belongs to one guardian, and a governance VAA is executed once.
\<close>

section \<open>Keyed stores\<close>

definition keyed :: "('a \<Rightarrow> byte list) \<Rightarrow> 'a kv \<Rightarrow> bool" where
  "keyed f s \<longleftrightarrow> kv_wf s \<and> list_all (\<lambda>(key, x). key = f x) s"

lemma set_kv_set_entries: "set (kv_set k v s) \<subseteq> insert (k, v) (set s)"
proof (induction s)
  case (Cons e s)
  then show ?case
    by (cases e) (auto split: if_splits)
qed simp

lemma keyed_empty [simp]: "keyed f []"
  by (simp add: keyed_def)

lemma keyed_kv_set [simp]: "keyed f s \<Longrightarrow> k = f x \<Longrightarrow> keyed f (kv_set k x s)"
  using set_kv_set_entries [of k x s] by (fastforce simp: keyed_def kv_wf_set list_all_iff)

lemma keyed_kv_delete [simp]: "keyed f s \<Longrightarrow> keyed f (kv_delete k s)"
  by (simp add: keyed_def kv_wf_delete) (auto simp: list_all_iff kv_delete_def)

lemma keyed_wf [simp]: "keyed f s \<Longrightarrow> kv_wf s"
  by (simp add: keyed_def)

lemma keyed_get: "keyed f s \<Longrightarrow> kv_get k s = Some x \<Longrightarrow> k = f x"
  using kv.items_iff [of s k x] by (auto simp: keyed_def list_all_iff)

lemma keyed_items: "keyed f s \<Longrightarrow> map (\<lambda>x. (f x, x)) (map snd s) = s"
  by (induction s) (auto simp: keyed_def)

lemma keyed_load: "keyed f s \<Longrightarrow> fold (\<lambda>x. kv_set (f x) x) (map snd s) [] = s"
proof -
  assume k: "keyed f s"
  have "fold (\<lambda>x. kv_set (f x) x) (map snd s) [] = fold (\<lambda>(k, v). kv_set k v) (map (\<lambda>x. (f x, x)) (map snd s)) []"
    by (simp add: fold_map comp_def)
  also have "\<dots> = kv.load s"
    by (simp only: keyed_items [OF k] kv.load_def)
  also have "\<dots> = s"
    using k by (intro kv.load_back) simp
  finally show ?thesis .
qed

lemma set_kv_set_values: "x \<in> set (kv_set k v s) \<Longrightarrow> x \<noteq> (k, v) \<Longrightarrow> x \<in> set s"
  using set_kv_set_entries [of k v s] by auto

lemma distinct_kv_set:
  "distinct (map g s) \<Longrightarrow> g (k, v) \<notin> g ` set s \<Longrightarrow> distinct (map g (kv_set k v s))"
proof (induction s)
  case (Cons e s)
  have "g e \<notin> g ` set (kv_set k v s)"
    using Cons.prems set_kv_set_entries [of k v s] by auto
  then show ?case
    using Cons by (cases e) (auto simp: image_iff)
qed simp

lemma kv_set_monotone: "kv_wf s \<Longrightarrow> kv_get l s \<noteq> None \<Longrightarrow> kv_get l (kv_set k v s) \<noteq> None"
  by (simp add: kv_get_set)

section \<open>The invariant\<close>

definition stores_ok :: "'x wormchain \<Rightarrow> bool" where
  "stores_ok k \<longleftrightarrow> keyed (\<lambda>gs. GetGuardianSetIDBytes (wgs_Index gs)) (wk_guardianSets k) \<and>
     keyed ReplayProtectionKey (wk_replay k) \<and> keyed (\<lambda>s. SequenceCounterKey (sc_Index s)) (wk_sequences k) \<and>
     keyed (\<lambda>v. GuardianValidatorKey (gv_GuardianKey v)) (wk_validators k) \<and>
     keyed (\<lambda>a. bytes_of (va_AllowedAddress a)) (wk_allowlist k) \<and>
     keyed (\<lambda>e. wasm_key (wa_ContractAddress e) (wa_CodeId e)) (wk_wasmAllowlist k)"

text \<open>The sets are numbered from 0, and their number is stored as setGuardianSetCount stores it.\<close>

definition count_stored :: "'x wormchain \<Rightarrow> bool" where
  "count_stored k \<longleftrightarrow> wk_guardianSetCount k = Some (put (GetGuardianSetCount k) @ replicate 4 0)"

definition sets_numbered :: "'x wormchain \<Rightarrow> bool" where
  "sets_numbered k \<longleftrightarrow> (\<forall>i. GetGuardianSet i k \<noteq> None \<longleftrightarrow> i < GetGuardianSetCount k) \<and>
     count_stored k"

definition consensus_ok :: "'x wormchain \<Rightarrow> bool" where
  "consensus_ok k \<longleftrightarrow> (\<exists>i gs. GetConsensusGuardianSetIndex k = Some i \<and> GetGuardianSet i k = Some gs \<and>
     guardians_registered (wgs_Keys gs) k)"

definition worm_inv :: "'x wormchain \<Rightarrow> bool" where
  "worm_inv k \<longleftrightarrow> stores_ok k \<and> GetGuardianSet (GetLatestGuardianSetIndex k) k \<noteq> None \<and> sets_numbered k \<and>
     consensus_ok k \<and> distinct (map gv_ValidatorAddr (GetAllGuardianValidator k))"

text \<open>The part of the state that the invariant is about; most messages leave it as it is.\<close>

definition guardian_part :: "'x wormchain \<Rightarrow> _" where
  "guardian_part k = (wk_guardianSets k, wk_guardianSetCount k, wk_consensusIndex k, wk_validators k)"

lemmas getter_defs = GetGuardianSet_def GetGuardianSetCount_def GetLatestGuardianSetIndex_def GetConsensusGuardianSetIndex_def
  GetGuardianValidator_def GetAllGuardianValidator_def GetReplayProtection_def GetAllGuardianSet_def guardians_registered_def

lemmas setter_defs = setGuardianSet_def setGuardianSetCount_def SetConsensusGuardianSetIndex_def SetReplayProtection_def
  SetSequenceCounter_def SetGuardianValidator_def SetValidatorAllowedAddress_def RemoveValidatorAllowedAddress_def
  SetWasmInstantiateAllowlist_def KeeperDeleteWasmInstantiateAllowlist_def StoreIbcComposabilityMwContract_def emit_event_def

lemma guardian_part_setters [simp]:
  "guardian_part (SetReplayProtection d k) = guardian_part k"
  "guardian_part (SetSequenceCounter s k) = guardian_part k"
  "guardian_part (SetValidatorAllowedAddress a k) = guardian_part k"
  "guardian_part (RemoveValidatorAllowedAddress addr k) = guardian_part k"
  "guardian_part (SetWasmInstantiateAllowlist e k) = guardian_part k"
  "guardian_part (KeeperDeleteWasmInstantiateAllowlist e k) = guardian_part k"
  "guardian_part (StoreIbcComposabilityMwContract contract k) = guardian_part k"
  "guardian_part (emit_event ev k) = guardian_part k"
  "guardian_part (k\<lparr>wk_modules := x\<rparr>) = guardian_part k"
  by (simp_all add: guardian_part_def setter_defs)

lemma stores_ok_setters [simp]:
  "stores_ok k \<Longrightarrow> stores_ok (SetReplayProtection d k)"
  "stores_ok k \<Longrightarrow> stores_ok (SetSequenceCounter s k)"
  "stores_ok k \<Longrightarrow> stores_ok (SetValidatorAllowedAddress a k)"
  "stores_ok k \<Longrightarrow> stores_ok (RemoveValidatorAllowedAddress addr k)"
  "stores_ok k \<Longrightarrow> stores_ok (SetWasmInstantiateAllowlist e k)"
  "stores_ok k \<Longrightarrow> stores_ok (KeeperDeleteWasmInstantiateAllowlist e k)"
  "stores_ok k \<Longrightarrow> stores_ok (StoreIbcComposabilityMwContract contract k)"
  "stores_ok k \<Longrightarrow> stores_ok (emit_event ev k)"
  "stores_ok k \<Longrightarrow> stores_ok (k\<lparr>wk_modules := x\<rparr>)"
  "stores_ok k \<Longrightarrow> stores_ok (setGuardianSet gs k)"
  "stores_ok k \<Longrightarrow> stores_ok (setGuardianSetCount n k)"
  "stores_ok k \<Longrightarrow> stores_ok (SetConsensusGuardianSetIndex i k)"
  "stores_ok k \<Longrightarrow> stores_ok (SetGuardianValidator gv k)"
  by (simp_all add: stores_ok_def setter_defs)

lemma guardian_part_getters:
  assumes "guardian_part k' = guardian_part k"
  shows "GetGuardianSet i k' = GetGuardianSet i k" "GetGuardianSetCount k' = GetGuardianSetCount k"
    "GetLatestGuardianSetIndex k' = GetLatestGuardianSetIndex k"
    "GetConsensusGuardianSetIndex k' = GetConsensusGuardianSetIndex k"
    "GetGuardianValidator key k' = GetGuardianValidator key k" "GetAllGuardianValidator k' = GetAllGuardianValidator k"
    "GetAllGuardianSet k' = GetAllGuardianSet k" "count_stored k' = count_stored k" "guardians_registered keys k' = guardians_registered keys k"
  using assms by (auto simp: guardian_part_def getter_defs count_stored_def)

lemma worm_inv_guardian_part:
  assumes "worm_inv k" and "stores_ok k'" and "guardian_part k' = guardian_part k"
  shows "worm_inv k'"
  using assms(1,2) by (simp add: worm_inv_def sets_numbered_def consensus_ok_def guardian_part_getters [OF assms(3)])

section \<open>Effects of the handlers\<close>

lemma TrySwitch_Inr:
  "TrySwitchToNewConsensusGuardianSet k = Inr k' \<longleftrightarrow>
   (\<exists>old. GetConsensusGuardianSetIndex k = Some old \<and>
      (if GetLatestGuardianSetIndex k = old then k' = k
       else \<exists>gs. GetGuardianSet (GetLatestGuardianSetIndex k) k = Some gs \<and>
         k' = (if guardians_registered (wgs_Keys gs) k
               then emit_event (EventConsensusSetUpdate old (GetLatestGuardianSetIndex k))
                 (SetConsensusGuardianSetIndex (GetLatestGuardianSetIndex k) k)
               else k)))"
  by (auto simp: TrySwitchToNewConsensusGuardianSet_def Let_def split: option.splits)

lemma TrySwitch_cases:
  assumes "TrySwitchToNewConsensusGuardianSet k = Inr k'"
  obtains (same) "k' = k"
  | (switch) old gs where "GetGuardianSet (GetLatestGuardianSetIndex k) k = Some gs" "guardians_registered (wgs_Keys gs) k"
      "k' = emit_event (EventConsensusSetUpdate old (GetLatestGuardianSetIndex k))
        (SetConsensusGuardianSetIndex (GetLatestGuardianSetIndex k) k)"
  using assms unfolding TrySwitch_Inr by metis

text \<open>The state in which UpdateGuardianSet tries to switch.\<close>

definition appended :: "block_ctx \<Rightarrow> WConfig \<Rightarrow> WGuardianSet \<Rightarrow> WGuardianSet \<Rightarrow> 'x wormchain \<Rightarrow> 'x wormchain" where
  "appended ctx config old gs k =
     emit_event (EventGuardianSetUpdate (wgs_Index old) (wgs_Index old + 1))
       (setGuardianSet (old\<lparr>wgs_ExpirationTime := word_of_int (unix_secs (bc_BlockTime ctx)) + wc_GuardianSetExpiration config\<rparr>)
         (setGuardianSetCount (GetGuardianSetCount k + 1) (setGuardianSet gs k)))"

lemma UpdateGuardianSet_Inr:
  "UpdateGuardianSet ctx gs k = Inr k' \<longleftrightarrow>
   (\<exists>config old. GetConfig k = Some config \<and> GetGuardianSet (GetLatestGuardianSetIndex k) k = Some old \<and>
      wgs_Index gs = wgs_Index old + 1 \<and> wgs_ExpirationTime gs = 0 \<and> wgs_Index gs = GetGuardianSetCount k \<and>
      TrySwitchToNewConsensusGuardianSet (appended ctx config old gs k) = Inr k')"
  unfolding UpdateGuardianSet_def AppendGuardianSet_def appended_def Let_def
  by (simp add: chk_eq_Inr split: option.split)

lemma VerifyGovernanceVAA_Inr:
  "VerifyGovernanceVAA c ctx v m k = Inr (a, p, k') \<Longrightarrow> Keeper_VerifyVAA c ctx v k = Inr () \<and>
     GetReplayProtection (HexDigest c v) k = None \<and> k' = SetReplayProtection (HexDigest c v) k"
  by (auto simp: VerifyGovernanceVAA_def Let_def chk_eq_Inr split: option.splits if_splits)

definition same_replay :: "'x wormchain \<Rightarrow> 'x wormchain \<Rightarrow> bool" where
  "same_replay k k' \<longleftrightarrow> wk_replay k' = wk_replay k"

lemma same_replay_setters [simp]:
  "same_replay k k" "same_replay k (k'\<lparr>wk_modules := x\<rparr>) = same_replay k k'"
  "same_replay k (setGuardianSet gs k') = same_replay k k'" "same_replay k (setGuardianSetCount n k') = same_replay k k'"
  "same_replay k (SetConsensusGuardianSetIndex i k') = same_replay k k'"
  "same_replay k (SetSequenceCounter s k') = same_replay k k'" "same_replay k (SetGuardianValidator gv k') = same_replay k k'"
  "same_replay k (SetValidatorAllowedAddress a k') = same_replay k k'"
  "same_replay k (RemoveValidatorAllowedAddress addr k') = same_replay k k'"
  "same_replay k (SetWasmInstantiateAllowlist e k') = same_replay k k'"
  "same_replay k (KeeperDeleteWasmInstantiateAllowlist e k') = same_replay k k'"
  "same_replay k (StoreIbcComposabilityMwContract contract k') = same_replay k k'"
  "same_replay k (emit_event ev k') = same_replay k k'"
  by (simp_all add: same_replay_def setter_defs)

lemma TrySwitch_replay: "TrySwitchToNewConsensusGuardianSet k = Inr k' \<Longrightarrow> same_replay k0 k \<Longrightarrow> same_replay k0 k'"
  by (erule TrySwitch_cases) simp_all

lemma UpdateGuardianSet_replay: "UpdateGuardianSet ctx gs k = Inr k' \<Longrightarrow> same_replay k0 k \<Longrightarrow> same_replay k0 k'"
  by (auto simp: UpdateGuardianSet_Inr appended_def elim: TrySwitch_replay)

text \<open>What a message with a governance VAA does to the state when it succeeds.\<close>

definition governance_effect :: "crypto \<Rightarrow> block_ctx \<Rightarrow> byte list \<Rightarrow> 'x wormchain \<Rightarrow> 'x wormchain \<Rightarrow> bool" where
  "governance_effect c ctx b k k' \<longleftrightarrow> (\<exists>v. ParseVAA b = Inr v \<and> Keeper_VerifyVAA c ctx v k = Inr () \<and>
     GetReplayProtection (HexDigest c v) k = None \<and> same_replay (SetReplayProtection (HexDigest c v) k) k')"

lemma governance_effectI:
  "ParseVAA b = Inr v \<Longrightarrow> VerifyGovernanceVAA c ctx v m k = Inr (a, p, k1) \<Longrightarrow> same_replay k1 k' \<Longrightarrow> governance_effect c ctx b k k'"
  unfolding governance_effect_def by (blast dest: VerifyGovernanceVAA_Inr)

lemmas governance_handler_defs = ExecuteGovernanceVAA_def governance_payload_def StoreCode_def InstantiateContract_def
  MigrateContract_def AddWasmInstantiateAllowlist_def DeleteWasmInstantiateAllowlist_def
  ExecuteWasmInstantiateAllowlistAction_def ExecuteGatewayGovernanceVaa_def scheduleUpgrade_def cancelUpgrade_def
  setIbcComposabilityMwContract_def setSlashingParams_def

lemma ExecuteGovernanceVAA_effect: "ExecuteGovernanceVAA c ctx b k = Inr k' \<Longrightarrow> governance_effect c ctx b k k'"
  by (auto simp: ExecuteGovernanceVAA_def chk_eq_Inr Let_def split: if_splits
      intro!: governance_effectI elim: UpdateGuardianSet_replay)

lemma governance_payload_Inr:
  "governance_payload c ctx b m e k = Inr (p, k1) \<Longrightarrow> same_replay k1 k' \<Longrightarrow> governance_effect c ctx b k k'"
  by (auto simp: governance_payload_def chk_eq_Inr split: if_splits intro: governance_effectI)

lemma wasm_effects:
  "StoreCode c B M ctx s w b k = Inr (r1, k') \<Longrightarrow> governance_effect c ctx b k k'"
  "InstantiateContract c B M ctx s i l m b k = Inr (r2, k') \<Longrightarrow> governance_effect c ctx b k k'"
  "MigrateContract c B M ctx s a i m b k = Inr (r3, k') \<Longrightarrow> governance_effect c ctx b k k'"
  "ExecuteWasmInstantiateAllowlistAction c B ctx b s i a e k = Inr k' \<Longrightarrow> governance_effect c ctx b k k'"
  by (auto simp: StoreCode_def InstantiateContract_def MigrateContract_def ExecuteWasmInstantiateAllowlistAction_def
      chk_eq_Inr Let_def split: if_splits intro: governance_payload_Inr)

lemma ExecuteGatewayGovernanceVaa_effect:
  "ExecuteGatewayGovernanceVaa c B M ctx s b k = Inr k' \<Longrightarrow> governance_effect c ctx b k k'"
  by (auto simp: ExecuteGatewayGovernanceVaa_def scheduleUpgrade_def cancelUpgrade_def
      setIbcComposabilityMwContract_def setSlashingParams_def chk_eq_Inr Let_def case_prod_beta split: if_splits
      intro!: governance_effectI)

text \<open>The VAA of a message.\<close>

definition sent_governance_vaa :: "worm_msg \<Rightarrow> byte list option" where
  "sent_governance_vaa msg = (case msg of
     MsgRegisterAccountAsGuardian _ _ \<Rightarrow> None
   | MsgCreateAllowlistEntryRequest _ _ _ \<Rightarrow> None
   | MsgDeleteAllowlistEntryRequest _ _ \<Rightarrow> None
   | _ \<Rightarrow> Some (wmsg_vaa msg))"

lemma RegisterAccountAsGuardian_replay: "RegisterAccountAsGuardian c B s g k = Inr k' \<Longrightarrow> same_replay k k'"
  by (auto simp: RegisterAccountAsGuardian_def chk_eq_Inr Let_def split: option.splits if_splits elim!: TrySwitch_replay)

lemma allowlist_replay:
  "CreateAllowlistEntry B s a n k = Inr k' \<Longrightarrow> same_replay k k'"
  "DeleteAllowlistEntry B s a k = Inr k' \<Longrightarrow> same_replay k k'"
  by (auto simp: CreateAllowlistEntry_def DeleteAllowlistEntry_def Let_def split: if_splits)

lemma NewHandler_replay:
  assumes "NewHandler c B M ctx msg k = Inr k'"
  shows "case sent_governance_vaa msg of Some b \<Rightarrow> governance_effect c ctx b k k' | None \<Rightarrow> same_replay k k'"
  using assms
  by (cases msg)
    (auto simp: NewHandler_def sent_governance_vaa_def chk_eq_Inr AddWasmInstantiateAllowlist_def DeleteWasmInstantiateAllowlist_def
      intro: ExecuteGovernanceVAA_effect wasm_effects ExecuteGatewayGovernanceVaa_effect RegisterAccountAsGuardian_replay allowlist_replay)

lemma PostMessage_replay [simp]: "same_replay k (PostMessage ctx e n d k') = same_replay k k'"
  by (simp add: PostMessage_def Let_def)

lemma same_replay_trans: "same_replay a b \<Longrightarrow> same_replay b d \<Longrightarrow> same_replay a d"
  by (simp add: same_replay_def)

lemma proposal_replay: "WormholeGovernanceProposalHandler ctx p k = Inr k' \<Longrightarrow> same_replay k k'"
proof (cases p)
  case (GuardianSetUpdateProposal gs)
  let ?gs = "\<lparr>wgs_Index = wgs_Index gs, wgs_Keys = wgs_Keys gs, wgs_ExpirationTime = 0\<rparr>"
  assume "WormholeGovernanceProposalHandler ctx p k = Inr k'"
  then obtain k1 where "UpdateGuardianSet ctx ?gs k = Inr k1" "same_replay k1 k'"
    by (auto simp: GuardianSetUpdateProposal WormholeGovernanceProposalHandler_def handleGuardianSetUpdateProposal_def
        chk_eq_Inr split: option.splits)
  then show ?thesis
    using UpdateGuardianSet_replay [of ctx ?gs k k1 k] same_replay_trans by simp blast
qed (auto simp: WormholeGovernanceProposalHandler_def handleGovernanceWormholeMessageProposal_def chk_eq_Inr
    split: option.splits)

definition action_vaa :: "'x worm_action \<Rightarrow> byte list option" where
  "action_vaa a = (case a of WA_Message msg \<Rightarrow> sent_governance_vaa msg | _ \<Rightarrow> None)"

lemma run_action_replay:
  assumes "run_action c B M (ctx, a) k = Inr k'"
  shows "case action_vaa a of Some b \<Rightarrow> governance_effect c ctx b k k' | None \<Rightarrow> same_replay k k'"
  using assms NewHandler_replay [of c B M ctx _ k k'] proposal_replay [of ctx _ k k']
  by (cases a) (auto simp: run_action_def action_vaa_def chk_eq_Inr)

section \<open>A governance VAA is executed once\<close>

definition executed_digest :: "crypto \<Rightarrow> 'x worm_action \<Rightarrow> string option" where
  "executed_digest c a = (case action_vaa a of
     None \<Rightarrow> None | Some b \<Rightarrow> (case ParseVAA b of Inr v \<Rightarrow> Some (HexDigest c v) | Inl _ \<Rightarrow> None))"

text \<open>The digests of the governance VAAs of a run, in the order in which they were executed.\<close>

definition executed :: "crypto \<Rightarrow> ((block_ctx \<times> 'x worm_action) \<times> 'x wormchain) list \<Rightarrow> string list" where
  "executed c tr = List.map_filter (\<lambda>((ctx, a), k). executed_digest c a) tr"

lemma ReplayProtectionKey_inj [simp]: "ReplayProtectionKey d = ReplayProtectionKey e \<longleftrightarrow> bytes_of d = bytes_of e"
  by (simp add: ReplayProtectionKey_def)

lemma replay_SetReplayProtection [simp]:
  "kv_wf (wk_replay k) \<Longrightarrow> GetReplayProtection d (SetReplayProtection d' k) = (if bytes_of d = bytes_of d' then Some d' else GetReplayProtection d k)"
  by (simp add: GetReplayProtection_def SetReplayProtection_def kv_get_set)

lemma same_replay_get: "same_replay k k' \<Longrightarrow> GetReplayProtection d k' = GetReplayProtection d k"
  by (simp add: same_replay_def GetReplayProtection_def)

lemma same_replay_wf: "same_replay k k' \<Longrightarrow> kv_wf (wk_replay k) \<Longrightarrow> kv_wf (wk_replay k')"
  by (simp add: same_replay_def)

text \<open>
  What the store of executed digests holds during a run from k0: those of the start and those of the run,
  and no digest of the run is there twice or was there at the start.
\<close>

definition replay_inv :: "crypto \<Rightarrow> 'x wormchain \<Rightarrow> ((block_ctx \<times> 'x worm_action) \<times> 'x wormchain) list \<Rightarrow> 'x wormchain \<Rightarrow> bool" where
  "replay_inv c k0 tr k \<longleftrightarrow> kv_wf (wk_replay k) \<and> distinct (executed c tr) \<and>
     (\<forall>d. GetReplayProtection d k \<noteq> None \<longleftrightarrow> GetReplayProtection d k0 \<noteq> None \<or> bytes_of d \<in> bytes_of ` set (executed c tr)) \<and>
     list_all (\<lambda>d. GetReplayProtection d k0 = None) (executed c tr)"

lemma executed_snoc:
  "executed c (tr @ [((ctx, a), k)]) = executed c tr @ (case executed_digest c a of None \<Rightarrow> [] | Some d \<Rightarrow> [d])"
  by (simp add: executed_def List.map_filter_def split: option.split)

lemma replay_inv_step:
  assumes "replay_inv c k0 tr k" and "worm_step c B M ev k k'"
  shows "replay_inv c k0 (tr @ [(ev, k)]) k'"
proof -
  obtain ctx a where ev: "ev = (ctx, a)" by (cases ev)
  have run: "run_action c B M (ctx, a) k = Inr k'"
    using assms(2) by (simp add: worm_step_def ev)
  have inv: "kv_wf (wk_replay k)" "distinct (executed c tr)" "list_all (\<lambda>d. GetReplayProtection d k0 = None) (executed c tr)"
    and has: "GetReplayProtection d k \<noteq> None \<longleftrightarrow>
      GetReplayProtection d k0 \<noteq> None \<or> bytes_of d \<in> bytes_of ` set (executed c tr)" for d
    using assms(1) by (simp_all add: replay_inv_def)
  show ?thesis
  proof (cases "action_vaa a")
    case None
    then have "same_replay k k'"
      using run_action_replay [OF run] by simp
    then show ?thesis
      using inv has None
      by (simp add: replay_inv_def ev executed_snoc executed_digest_def same_replay_get same_replay_wf)
  next
    case (Some b)
    then obtain v where v: "ParseVAA b = Inr v" "GetReplayProtection (HexDigest c v) k = None"
      "same_replay (SetReplayProtection (HexDigest c v) k) k'"
      using run_action_replay [OF run] by (auto simp: governance_effect_def)
    have "kv_wf (wk_replay (SetReplayProtection (HexDigest c v) k))"
      using inv(1) by (simp add: SetReplayProtection_def kv_wf_set)
    moreover have "HexDigest c v \<notin> set (executed c tr)" "GetReplayProtection (HexDigest c v) k0 = None"
      using has [of "HexDigest c v"] v(2) by auto
    ultimately show ?thesis
      using inv has Some v
      by (auto simp: replay_inv_def ev executed_snoc executed_digest_def same_replay_get [OF v(3)] same_replay_wf [OF v(3)])
  qed
qed

interpretation replay: trace_invariant "\<lambda>k. k = k0 \<and> kv_wf (wk_replay k)" "worm_step c B M" "\<lambda>_. True" "replay_inv c k0"
  for c B M k0
proof unfold_locales
  fix k :: "'a wormchain"
  assume "k = k0 \<and> kv_wf (wk_replay k)"
  then show "replay_inv c k0 [] k"
    by (auto simp: replay_inv_def executed_def)
qed (rule replay_inv_step)

text \<open>
  C10. Replay protection of wormchain. In every run of the module, messages and proposals in any order, no
  governance VAA that was executed before the run or in it is executed again: the digests of the VAAs that
  the successful messages of the run carry are different from each other, and none of them was in the
  store at the start. This holds for every kind of governance message: guardian sets, code, contracts,
  allowlists and the gateway share one store.
\<close>

theorem governance_executed_once:
  assumes "trace_run (\<lambda>k. k = k0 \<and> kv_wf (wk_replay k)) (worm_step c B M) tr k"
  shows "distinct (executed c tr) \<and> list_all (\<lambda>d. GetReplayProtection d k0 = None) (executed c tr) \<and>
     list_all (\<lambda>d. GetReplayProtection d k \<noteq> None) (executed c tr)"
  using replay.run_inv [OF assms] by (auto simp: replay_inv_def list_all_iff)

section \<open>Guardian sets and validators\<close>

lemma GuardianValidatorKey_inj [simp]: "GuardianValidatorKey a = GuardianValidatorKey b \<longleftrightarrow> a = b"
  by (simp add: GuardianValidatorKey_def)

lemma GetGuardianSetIDBytes_inj [simp]: "GetGuardianSetIDBytes i = GetGuardianSetIDBytes j \<longleftrightarrow> i = j"
  by (simp add: GetGuardianSetIDBytes_def put_inj)

lemma GetGuardianSet_set [simp]:
  "stores_ok k \<Longrightarrow> GetGuardianSet i (setGuardianSet gs k) = (if i = wgs_Index gs then Some gs else GetGuardianSet i k)"
  by (auto simp: GetGuardianSet_def setGuardianSet_def stores_ok_def kv_get_set dest!: keyed_wf)

lemma GetGuardianValidator_set [simp]:
  "stores_ok k \<Longrightarrow> GetGuardianValidator key (SetGuardianValidator gv k) =
     (if key = gv_GuardianKey gv then Some gv else GetGuardianValidator key k)"
  by (auto simp: GetGuardianValidator_def SetGuardianValidator_def stores_ok_def kv_get_set dest!: keyed_wf)

lemma guardian_getters [simp]:
  "GetGuardianSet i (setGuardianSetCount n k) = GetGuardianSet i k"
  "GetGuardianSet i (SetConsensusGuardianSetIndex j k) = GetGuardianSet i k"
  "GetGuardianSet i (SetGuardianValidator gv k) = GetGuardianSet i k"
  "GetGuardianSet i (emit_event ev k) = GetGuardianSet i k"
  "GetGuardianSetCount (setGuardianSet gs k) = GetGuardianSetCount k"
  "GetGuardianSetCount (SetConsensusGuardianSetIndex j k) = GetGuardianSetCount k"
  "GetGuardianSetCount (SetGuardianValidator gv k) = GetGuardianSetCount k"
  "GetGuardianSetCount (emit_event ev k) = GetGuardianSetCount k"
  "GetConsensusGuardianSetIndex (setGuardianSet gs k) = GetConsensusGuardianSetIndex k"
  "GetConsensusGuardianSetIndex (setGuardianSetCount n k) = GetConsensusGuardianSetIndex k"
  "GetConsensusGuardianSetIndex (SetConsensusGuardianSetIndex j k) = Some j"
  "GetConsensusGuardianSetIndex (SetGuardianValidator gv k) = GetConsensusGuardianSetIndex k"
  "GetConsensusGuardianSetIndex (emit_event ev k) = GetConsensusGuardianSetIndex k"
  "GetGuardianValidator key (setGuardianSet gs k) = GetGuardianValidator key k"
  "GetGuardianValidator key (setGuardianSetCount n k) = GetGuardianValidator key k"
  "GetGuardianValidator key (SetConsensusGuardianSetIndex j k) = GetGuardianValidator key k"
  "GetGuardianValidator key (emit_event ev k) = GetGuardianValidator key k"
  "GetAllGuardianValidator (setGuardianSet gs k) = GetAllGuardianValidator k"
  "GetAllGuardianValidator (setGuardianSetCount n k) = GetAllGuardianValidator k"
  "GetAllGuardianValidator (SetConsensusGuardianSetIndex j k) = GetAllGuardianValidator k"
  "GetAllGuardianValidator (emit_event ev k) = GetAllGuardianValidator k"
  "count_stored (setGuardianSet gs k) = count_stored k"
  "count_stored (SetConsensusGuardianSetIndex j k) = count_stored k"
  "count_stored (SetGuardianValidator gv k) = count_stored k"
  "count_stored (emit_event ev k) = count_stored k"
  by (simp_all add: getter_defs setter_defs count_stored_def)

lemma be_Uint32_put [simp]: "be_Uint32 (put (w :: 32 word) @ bs) = w"
  by (simp add: be_Uint32_def word_of_be_put)

lemma GetGuardianSetCount_set [simp]: "GetGuardianSetCount (setGuardianSetCount n k) = n"
  by (simp add: GetGuardianSetCount_def setGuardianSetCount_def)

lemma count_stored_set [simp]: "count_stored (setGuardianSetCount n k)"
  by (simp add: count_stored_def) (simp add: setGuardianSetCount_def)

lemma GetLatestGuardianSetIndex_count: "GetLatestGuardianSetIndex k = GetGuardianSetCount k - 1"
  by (simp add: GetLatestGuardianSetIndex_def)

lemma stored_index: "stores_ok k \<Longrightarrow> GetGuardianSet i k = Some gs \<Longrightarrow> wgs_Index gs = i"
  using keyed_get [of "\<lambda>gs. GetGuardianSetIDBytes (wgs_Index gs)" "wk_guardianSets k" "GetGuardianSetIDBytes i" gs]
  by (simp add: stores_ok_def GetGuardianSet_def)

lemma worm_inv_emit [simp]: "worm_inv (emit_event ev k) = worm_inv k"
proof -
  have "stores_ok (emit_event ev k) = stores_ok k"
    by (simp add: stores_ok_def emit_event_def)
  then show ?thesis
    by (simp add: worm_inv_def sets_numbered_def consensus_ok_def guardians_registered_def GetLatestGuardianSetIndex_count)
qed

lemma TrySwitch_inv:
  assumes "worm_inv k" and "TrySwitchToNewConsensusGuardianSet k = Inr k'"
  shows "worm_inv k' \<and> GetGuardianSetCount k' = GetGuardianSetCount k"
  using assms(2)
proof (cases rule: TrySwitch_cases)
  case (switch old gs)
  then show ?thesis
    using assms(1)
    by (simp add: worm_inv_def sets_numbered_def consensus_ok_def guardians_registered_def GetLatestGuardianSetIndex_count)
qed (use assms(1) in simp)

text \<open>An index below the greatest one.\<close>

lemma below_next: "i < c \<Longrightarrow> i \<noteq> (c :: 32 word)" by auto

lemma less_next: "unat (c :: 32 word) + 1 < 2 ^ 32 \<Longrightarrow> i < c + 1 \<longleftrightarrow> i < c \<or> i = c"
  by (auto simp: word_less_nat_alt unat_word_ariths less_Suc_eq unat_cancel)

lemma appended_inv:
  assumes inv: "worm_inv k" and latest: "GetGuardianSet (GetLatestGuardianSetIndex k) k = Some old"
    and gs: "wgs_Index gs = GetGuardianSetCount k" and n: "unat (GetGuardianSetCount k) + 1 < 2 ^ 32"
  shows "worm_inv (appended ctx config old gs k) \<and> GetGuardianSetCount (appended ctx config old gs k) = GetGuardianSetCount k + 1"
proof -
  have k: "stores_ok k" "sets_numbered k" "consensus_ok k" "distinct (map gv_ValidatorAddr (GetAllGuardianValidator k))"
    using inv by (simp_all add: worm_inv_def)
  have old: "wgs_Index old = GetGuardianSetCount k - 1"
    using stored_index [OF k(1) latest] by (simp add: GetLatestGuardianSetIndex_count)
  have stored: "GetGuardianSet i k \<noteq> None \<longleftrightarrow> i < GetGuardianSetCount k" for i
    using k(2) by (simp add: sets_numbered_def)
  have below: "i < GetGuardianSetCount k" if "GetGuardianSet i k = Some x" for i x
    using stored [of i] that by simp
  obtain i cs where cs: "GetConsensusGuardianSetIndex k = Some i" "GetGuardianSet i k = Some cs" "guardians_registered (wgs_Keys cs) k"
    using k(3) by (auto simp: consensus_ok_def)
  let ?k = "appended ctx config old gs k"
  have get: "GetGuardianSet j ?k = (if j = GetGuardianSetCount k - 1 then
      Some (old\<lparr>wgs_ExpirationTime := word_of_int (unix_secs (bc_BlockTime ctx)) + wc_GuardianSetExpiration config\<rparr>)
      else if j = GetGuardianSetCount k then Some gs else GetGuardianSet j k)" for j
    using k(1) old gs by (simp add: appended_def)
  have count: "GetGuardianSetCount ?k = GetGuardianSetCount k + 1"
    by (simp add: appended_def)
  have consensus: "GetConsensusGuardianSetIndex ?k = GetConsensusGuardianSetIndex k"
    by (simp add: appended_def)
  have reg: "guardians_registered keys ?k = guardians_registered keys k" for keys
    by (simp add: appended_def guardians_registered_def)
  have lt: "GetGuardianSetCount k - 1 < GetGuardianSetCount k"
    using below [OF latest] by (simp add: GetLatestGuardianSetIndex_count)
  have "count_stored ?k"
    by (simp add: appended_def)
  then have "sets_numbered ?k"
    using stored lt less_next [OF n] by (auto simp: sets_numbered_def get count)
  moreover have "consensus_ok ?k"
  proof (cases "i = GetGuardianSetCount k - 1")
    case True
    then have "cs = old"
      using cs(2) latest by (simp add: GetLatestGuardianSetIndex_count)
    then show ?thesis
      using True cs by (simp add: consensus_ok_def consensus get reg)
  next
    case False
    then show ?thesis
      using cs below [OF cs(2)] by (simp add: consensus_ok_def consensus get reg below_next)
  qed
  moreover have "stores_ok ?k" "GetAllGuardianValidator ?k = GetAllGuardianValidator k"
    using k(1) by (simp_all add: appended_def)
  moreover have "GetGuardianSet (GetLatestGuardianSetIndex ?k) ?k \<noteq> None"
    by (simp add: get count GetLatestGuardianSetIndex_count)
  ultimately show ?thesis
    using k(4) count by (simp add: worm_inv_def)
qed

lemma UpdateGuardianSet_inv:
  assumes "worm_inv k" and "UpdateGuardianSet ctx gs k = Inr k'" and "unat (GetGuardianSetCount k) + 1 < 2 ^ 32"
  shows "worm_inv k' \<and> GetGuardianSetCount k' = GetGuardianSetCount k + 1"
proof -
  obtain config old where *: "GetGuardianSet (GetLatestGuardianSetIndex k) k = Some old" "wgs_Index gs = GetGuardianSetCount k"
    "TrySwitchToNewConsensusGuardianSet (appended ctx config old gs k) = Inr k'"
    using assms(2) unfolding UpdateGuardianSet_Inr by blast
  show ?thesis
    using appended_inv [OF assms(1) *(1,2) assms(3), of ctx config] TrySwitch_inv [OF _ *(3)] by simp
qed

lemma SetGuardianValidator_inv:
  assumes inv: "worm_inv k" and new: "gv_ValidatorAddr gv \<notin> gv_ValidatorAddr ` set (GetAllGuardianValidator k)"
  shows "worm_inv (SetGuardianValidator gv k)"
proof -
  have k: "stores_ok k" "consensus_ok k"
    using inv by (simp_all add: worm_inv_def)
  have "distinct (map (\<lambda>e. gv_ValidatorAddr (snd e)) (kv_set (GuardianValidatorKey (gv_GuardianKey gv)) gv (wk_validators k)))"
    using inv new by (intro distinct_kv_set) (auto simp: worm_inv_def GetAllGuardianValidator_def comp_def)
  then have "distinct (map gv_ValidatorAddr (GetAllGuardianValidator (SetGuardianValidator gv k)))"
    by (simp add: GetAllGuardianValidator_def SetGuardianValidator_def comp_def)
  moreover have "consensus_ok (SetGuardianValidator gv k)"
    using k by (auto simp: consensus_ok_def guardians_registered_def list_all_iff)
  ultimately show ?thesis
    using inv k(1) by (simp add: worm_inv_def sets_numbered_def GetLatestGuardianSetIndex_count)
qed

text \<open>A registration that succeeds: the signer held a key of the latest guardian set and was no validator yet.\<close>

definition recovered_guardian :: "crypto \<Rightarrow> byte list \<Rightarrow> byte list \<Rightarrow> go_error + eth_address" where
  "recovered_guardian c signer signature =
     chk (Ecrecover c (Keccak256 c (SignedWormchainAddressPrefix @ signer)) signature)
       (\<lambda>key. Inr (BytesToEthAddress c (drop 12 (Keccak256 c (drop 1 key)))))"

lemma RegisterAccountAsGuardian_Inr:
  "RegisterAccountAsGuardian c B s g k = Inr k' \<longleftrightarrow>
   (\<exists>signer key gs. AccAddressFromBech32 B s = Inr signer \<and> recovered_guardian c signer g = Inr key \<and>
      GetGuardianSet (GetLatestGuardianSetIndex k) k = Some gs \<and> GetConsensusGuardianSetIndex k \<noteq> None \<and>
      key \<in> set (wgs_Keys gs) \<and> signer \<notin> gv_ValidatorAddr ` set (GetAllGuardianValidator k) \<and>
      TrySwitchToNewConsensusGuardianSet (emit_event (EventGuardianRegistered key signer)
        (SetGuardianValidator \<lparr>gv_GuardianKey = key, gv_ValidatorAddr = signer\<rparr> k)) = Inr k')"
  by (cases "GetGuardianSet (GetLatestGuardianSetIndex k) k")
    (auto simp: RegisterAccountAsGuardian_def recovered_guardian_def chk_eq_Inr Let_def ContainsKey_def split: if_splits)

lemma RegisterAccountAsGuardian_inv:
  assumes "worm_inv k" and "RegisterAccountAsGuardian c B s g k = Inr k'"
  shows "worm_inv k' \<and> GetGuardianSetCount k' = GetGuardianSetCount k"
proof -
  obtain gv ev where gv: "gv_ValidatorAddr gv \<notin> gv_ValidatorAddr ` set (GetAllGuardianValidator k)"
    "TrySwitchToNewConsensusGuardianSet (emit_event ev (SetGuardianValidator gv k)) = Inr k'"
    using assms(2) that unfolding RegisterAccountAsGuardian_Inr by (metis GuardianValidator.select_convs(2))
  show ?thesis
    using TrySwitch_inv [OF _ gv(2)] SetGuardianValidator_inv [OF assms(1) gv(1)] by simp
qed

text \<open>A step that changes neither guardian sets nor validators.\<close>

definition guardians_kept :: "'x wormchain \<Rightarrow> 'x wormchain \<Rightarrow> bool" where
  "guardians_kept k k' \<longleftrightarrow> guardian_part k' = guardian_part k \<and> (stores_ok k \<longrightarrow> stores_ok k')"

lemma guardians_kept_setters:
  "guardians_kept k k"
  "guardians_kept k k' \<Longrightarrow> guardians_kept k (SetReplayProtection d k')"
  "guardians_kept k k' \<Longrightarrow> guardians_kept k (SetSequenceCounter s k')"
  "guardians_kept k k' \<Longrightarrow> guardians_kept k (SetValidatorAllowedAddress a k')"
  "guardians_kept k k' \<Longrightarrow> guardians_kept k (RemoveValidatorAllowedAddress addr k')"
  "guardians_kept k k' \<Longrightarrow> guardians_kept k (SetWasmInstantiateAllowlist e k')"
  "guardians_kept k k' \<Longrightarrow> guardians_kept k (KeeperDeleteWasmInstantiateAllowlist e k')"
  "guardians_kept k k' \<Longrightarrow> guardians_kept k (StoreIbcComposabilityMwContract contract k')"
  "guardians_kept k k' \<Longrightarrow> guardians_kept k (emit_event ev k')"
  "guardians_kept k k' \<Longrightarrow> guardians_kept k (k'\<lparr>wk_modules := x\<rparr>)"
  by (simp_all add: guardians_kept_def)

lemma guardians_kept_inv:
  "worm_inv k \<Longrightarrow> guardians_kept k k' \<Longrightarrow> worm_inv k' \<and> GetGuardianSetCount k' = GetGuardianSetCount k"
  using worm_inv_guardian_part [of k k'] guardian_part_getters(2) [of k' k]
  by (auto simp: guardians_kept_def worm_inv_def)

lemma VerifyGovernanceVAA_kept: "VerifyGovernanceVAA c ctx v m k = Inr (a, p, k') \<Longrightarrow> guardians_kept k k'"
  by (auto dest: VerifyGovernanceVAA_Inr intro: guardians_kept_setters)

lemma governance_payload_kept: "governance_payload c ctx b m e k = Inr (p, k') \<Longrightarrow> guardians_kept k k'"
  by (auto simp: governance_payload_def chk_eq_Inr split: if_splits intro: VerifyGovernanceVAA_kept)

lemma wasm_kept:
  "StoreCode c B M ctx s w b k = Inr (r1, k') \<Longrightarrow> guardians_kept k k'"
  "InstantiateContract c B M ctx s i l m b k = Inr (r2, k') \<Longrightarrow> guardians_kept k k'"
  "MigrateContract c B M ctx s a i m b k = Inr (r3, k') \<Longrightarrow> guardians_kept k k'"
  "ExecuteWasmInstantiateAllowlistAction c B ctx b s i a e k = Inr k' \<Longrightarrow> guardians_kept k k'"
  by (auto simp: StoreCode_def InstantiateContract_def MigrateContract_def ExecuteWasmInstantiateAllowlistAction_def
      chk_eq_Inr Let_def split: if_splits intro: guardians_kept_setters dest!: governance_payload_kept)

lemma ExecuteGatewayGovernanceVaa_kept: "ExecuteGatewayGovernanceVaa c B M ctx s b k = Inr k' \<Longrightarrow> guardians_kept k k'"
  by (auto simp: ExecuteGatewayGovernanceVaa_def scheduleUpgrade_def cancelUpgrade_def
      setIbcComposabilityMwContract_def setSlashingParams_def chk_eq_Inr Let_def case_prod_beta split: if_splits
      intro: guardians_kept_setters dest!: VerifyGovernanceVAA_kept)

lemma allowlist_kept:
  "CreateAllowlistEntry B s a n k = Inr k' \<Longrightarrow> guardians_kept k k'"
  "DeleteAllowlistEntry B s a k = Inr k' \<Longrightarrow> guardians_kept k k'"
  by (auto simp: CreateAllowlistEntry_def DeleteAllowlistEntry_def Let_def split: if_splits intro: guardians_kept_setters)

text \<open>The count of guardian sets grows by at most one in a step.\<close>

definition inv_and_count :: "'x wormchain \<Rightarrow> 'x wormchain \<Rightarrow> bool" where
  "inv_and_count k k' \<longleftrightarrow> worm_inv k' \<and>
     (GetGuardianSetCount k' = GetGuardianSetCount k \<or> GetGuardianSetCount k' = GetGuardianSetCount k + 1)"

lemma inv_and_countI:
  "worm_inv k' \<and> GetGuardianSetCount k' = GetGuardianSetCount k \<Longrightarrow> inv_and_count k k'"
  "worm_inv k' \<and> GetGuardianSetCount k' = GetGuardianSetCount k + 1 \<Longrightarrow> inv_and_count k k'"
  by (simp_all add: inv_and_count_def)

lemma ExecuteGovernanceVAA_inv:
  assumes "worm_inv k" and "ExecuteGovernanceVAA c ctx b k = Inr k'" and "unat (GetGuardianSetCount k) + 1 < 2 ^ 32"
  shows "worm_inv k' \<and> GetGuardianSetCount k' = GetGuardianSetCount k + 1"
proof -
  obtain v a p k1 gs where "VerifyGovernanceVAA c ctx v CoreModule k = Inr (a, p, k1)" "UpdateGuardianSet ctx gs k1 = Inr k'"
    using assms(2) by (auto simp: ExecuteGovernanceVAA_def chk_eq_Inr Let_def split: if_splits)
  then show ?thesis
    using guardians_kept_inv [OF assms(1) VerifyGovernanceVAA_kept] UpdateGuardianSet_inv [of k1 ctx gs k'] assms(3) by fastforce
qed

lemma NewHandler_inv:
  assumes "worm_inv k" and "NewHandler c B M ctx msg k = Inr k'" and "unat (GetGuardianSetCount k) + 1 < 2 ^ 32"
  shows "inv_and_count k k'"
proof (cases "(\<exists>b s. msg = MsgExecuteGovernanceVAA b s) \<or> (\<exists>s g. msg = MsgRegisterAccountAsGuardian s g)")
  case True
  then show ?thesis
    using assms(2) ExecuteGovernanceVAA_inv [OF assms(1) _ assms(3)] RegisterAccountAsGuardian_inv [OF assms(1)]
    by (auto simp: NewHandler_def intro: inv_and_countI)
next
  case False
  then have "guardians_kept k k'"
    using assms(2)
    by (cases msg) (auto simp: NewHandler_def chk_eq_Inr AddWasmInstantiateAllowlist_def DeleteWasmInstantiateAllowlist_def
        intro: wasm_kept ExecuteGatewayGovernanceVaa_kept allowlist_kept)
  then show ?thesis
    using guardians_kept_inv [OF assms(1)] by (intro inv_and_countI(1)) blast
qed

lemma PostMessage_kept: "guardians_kept k k' \<Longrightarrow> guardians_kept k (PostMessage ctx e n d k')"
  by (simp add: PostMessage_def Let_def guardians_kept_setters)

lemma proposal_inv:
  assumes "worm_inv k" and "WormholeGovernanceProposalHandler ctx p k = Inr k'" and "unat (GetGuardianSetCount k) + 1 < 2 ^ 32"
  shows "inv_and_count k k'"
proof (cases p)
  case (GuardianSetUpdateProposal gs)
  let ?gs = "\<lparr>wgs_Index = wgs_Index gs, wgs_Keys = wgs_Keys gs, wgs_ExpirationTime = 0\<rparr>"
  obtain k1 e where k1: "UpdateGuardianSet ctx ?gs k = Inr k1" "k' = PostMessage ctx e 0 (guardian_set_message gs) k1"
    using assms(2) by (auto simp: GuardianSetUpdateProposal WormholeGovernanceProposalHandler_def
        handleGuardianSetUpdateProposal_def chk_eq_Inr split: option.splits)
  have "guardians_kept k1 k'"
    unfolding k1(2) by (intro PostMessage_kept guardians_kept_setters)
  then show ?thesis
    using UpdateGuardianSet_inv [OF assms(1) k1(1) assms(3)] guardians_kept_inv by (intro inv_and_countI(2)) fastforce
next
  case (GovernanceWormholeMessageProposal m a t b)
  then obtain d e where "k' = PostMessage ctx e 0 d k"
    using assms(2) by (auto simp: WormholeGovernanceProposalHandler_def handleGovernanceWormholeMessageProposal_def
        chk_eq_Inr split: option.splits)
  then have "guardians_kept k k'"
    using PostMessage_kept guardians_kept_setters(1) by blast
  then show ?thesis
    using guardians_kept_inv [OF assms(1)] by (intro inv_and_countI(1)) blast
qed

lemma run_action_inv:
  assumes "worm_inv k" and "run_action c B M (ctx, a) k = Inr k'" and "unat (GetGuardianSetCount k) + 1 < 2 ^ 32"
  shows "inv_and_count k k'"
proof (cases a)
  case (WA_Other x)
  then have "guardians_kept k k'"
    using assms(2) by (auto simp: run_action_def intro: guardians_kept_setters)
  then show ?thesis
    using guardians_kept_inv [OF assms(1)] by (intro inv_and_countI(1)) blast
qed (use assms NewHandler_inv proposal_inv in \<open>auto simp: run_action_def chk_eq_Inr\<close>)

text \<open>The invariant of a run; guardian sets are numbered with 32 bits, so a run has to be short of them.\<close>

definition run_inv :: "'x wormchain \<Rightarrow> ((block_ctx \<times> 'x worm_action) \<times> 'x wormchain) list \<Rightarrow> 'x wormchain \<Rightarrow> bool" where
  "run_inv k0 tr k \<longleftrightarrow> (unat (GetGuardianSetCount k0) + length tr < 2 ^ 32 \<longrightarrow>
     worm_inv k \<and> unat (GetGuardianSetCount k) \<le> unat (GetGuardianSetCount k0) + length tr)"

lemma run_inv_step:
  assumes "run_inv k0 tr k" and "worm_step c B M ev k k'"
  shows "run_inv k0 (tr @ [(ev, k)]) k'"
proof (cases "unat (GetGuardianSetCount k0) + Suc (length tr) < 2 ^ 32")
  case True
  obtain ctx a where ev: "ev = (ctx, a)" by (cases ev)
  have k: "worm_inv k" "unat (GetGuardianSetCount k) \<le> unat (GetGuardianSetCount k0) + length tr"
    using assms(1) True by (simp_all add: run_inv_def)
  have n: "unat (GetGuardianSetCount k) + 1 < 2 ^ 32"
    using k(2) True by linarith
  have k': "inv_and_count k k'"
    using run_action_inv [OF k(1) _ n] assms(2) by (simp add: worm_step_def ev)
  have "unat (GetGuardianSetCount k + 1) = unat (GetGuardianSetCount k) + 1"
    using n by (simp add: unat_word_ariths)
  then have "unat (GetGuardianSetCount k') \<le> unat (GetGuardianSetCount k) + 1"
    using k' by (auto simp: inv_and_count_def)
  then show ?thesis
    using k(2) k' by (simp add: run_inv_def inv_and_count_def)
qed (simp add: run_inv_def)

interpretation guardians: trace_invariant "\<lambda>k. k = k0 \<and> worm_inv k" "worm_step c B M" "\<lambda>_. True" "run_inv k0" for c B M k0
proof unfold_locales
  fix k :: "'a wormchain"
  assume "k = k0 \<and> worm_inv k"
  then show "run_inv k0 [] k"
    by (auto simp: run_inv_def)
qed (rule run_inv_step)

text \<open>
  C11. The guardian sets of wormchain. In every run that starts with the invariant and is shorter than the
  32 bit numbers of guardian sets, messages and proposals in any order: the latest guardian set exists; the
  consensus guardian set exists and each of its keys has a registered validator, so that a set becomes the
  consensus set only when all of its guardians have registered; no address validates for two guardians.
\<close>

theorem consensus_set_registered:
  assumes "trace_run (\<lambda>k. k = k0 \<and> worm_inv k) (worm_step c B M) tr k"
    and "unat (GetGuardianSetCount k0) + length tr < 2 ^ 32"
  shows "GetGuardianSet (GetLatestGuardianSetIndex k) k \<noteq> None \<and>
    (\<exists>i gs. GetConsensusGuardianSetIndex k = Some i \<and> GetGuardianSet i k = Some gs \<and>
       list_all (\<lambda>key. GetGuardianValidator key k \<noteq> None) (wgs_Keys gs)) \<and>
    distinct (map gv_ValidatorAddr (GetAllGuardianValidator k))"
  using guardians.run_inv [OF assms(1)] assms(2) by (auto simp: run_inv_def worm_inv_def consensus_ok_def guardians_registered_def)

end
