(* ===== verification/WormSpec.thy ===== *)
theory WormSpec imports WormInv begin

text \<open>
  What the x/wormhole module of wormchain promises to those around it: a guardian set that the admin service
  of a guardian announces becomes the latest guardian set, genesis export and import are inverse, a
  transaction passes for validators and the addresses they allow, and what the handlers do on odd input.
\<close>

section \<open>From the admin socket to wormchain\<close>

lemma payload_keys_concat:
  "list_all (\<lambda>key. length key = 20) keys \<Longrightarrow> distinct (seen @ keys) \<Longrightarrow>
   payload_keys (concat keys) (length keys) seen = Inr (seen @ keys)"
  by (induction keys arbitrary: seen) (auto simp: Let_def)

lemma length_concat_20: "list_all (\<lambda>key. length key = 20) keys \<Longrightarrow> length (concat keys) = 20 * length keys"
  by (induction keys) auto

lemma HexDigest_signatures [simp]: "HexDigest c (v\<lparr>vaa_Signatures := sigs\<rparr>) = HexDigest c v"
  by (simp add: HexDigest_def SigningDigest_def serializeBody_def)

text \<open>The state after a guardian set update: the new set, the end of the old one, and the switch.\<close>

definition set_announced :: "block_ctx \<Rightarrow> WConfig \<Rightarrow> WGuardianSet \<Rightarrow> eth_address list \<Rightarrow> 'x wormchain \<Rightarrow> 'x wormchain" where
  "set_announced ctx config old keys k =
     (let latest = GetLatestGuardianSetIndex k + 1;
          k1 = appended ctx config old \<lparr>wgs_Index = latest, wgs_Keys = keys, wgs_ExpirationTime = 0\<rparr> k
      in if guardians_registered keys k
         then emit_event (EventConsensusSetUpdate (the (GetConsensusGuardianSetIndex k)) latest) (SetConsensusGuardianSetIndex latest k1)
         else k1)"

lemma VerifyGovernanceVAA_core:
  assumes "Keeper_VerifyVAA c ctx v k = Inr ()" and "GetReplayProtection (HexDigest c v) k = None"
    and "GetConfig k = Some config" and "wc_GovernanceEmitter config = vaa_EmitterAddress v"
    and "ucast (wc_GovernanceChain config) = vaa_EmitterChain v" and "vaa_Payload v = module @ action # put (0 :: 16 word) @ payload"
    and "length module = 32"
  shows "VerifyGovernanceVAA c ctx v module k = Inr (action, payload, SetReplayProtection (HexDigest c v) k)"
proof -
  have "word_of_nat (nat_of_be (put (0 :: 16 word))) = (0 :: 16 word)"
    by (simp add: word_of_be_put)
  then show ?thesis
    using assms by (simp add: VerifyGovernanceVAA_def Let_def GetConfig_def SetReplayProtection_def nth_append)
qed

lemma UpdateGuardianSet_next:
  assumes inv: "worm_inv k" and config: "GetConfig k = Some config"
    and old: "GetGuardianSet (GetLatestGuardianSetIndex k) k = Some old" and n: "unat (GetGuardianSetCount k) + 1 < 2 ^ 32"
  shows "UpdateGuardianSet ctx \<lparr>wgs_Index = GetLatestGuardianSetIndex k + 1, wgs_Keys = keys, wgs_ExpirationTime = 0\<rparr> k =
    Inr (set_announced ctx config old keys k)"
proof -
  let ?gs = "\<lparr>wgs_Index = GetLatestGuardianSetIndex k + 1, wgs_Keys = keys, wgs_ExpirationTime = 0\<rparr>"
  let ?k = "appended ctx config old ?gs k"
  have k: "stores_ok k" "sets_numbered k" "consensus_ok k"
    using inv by (simp_all add: worm_inv_def)
  have index: "wgs_Index old = GetLatestGuardianSetIndex k"
    using stored_index [OF k(1) old] .
  obtain i where i: "GetConsensusGuardianSetIndex k = Some i" "i < GetGuardianSetCount k"
    using k(2,3) by (auto simp: consensus_ok_def sets_numbered_def)
  have latest: "GetLatestGuardianSetIndex ?k = GetLatestGuardianSetIndex k + 1"
    by (simp add: appended_def GetLatestGuardianSetIndex_count)
  moreover have "GetGuardianSet (GetLatestGuardianSetIndex k + 1) ?k = Some ?gs"
    using k(1) by (simp add: appended_def index)
  moreover have "GetConsensusGuardianSetIndex ?k = Some i" "guardians_registered keys ?k = guardians_registered keys k"
    using i(1) by (simp_all add: appended_def guardians_registered_def)
  moreover have "GetLatestGuardianSetIndex k + 1 \<noteq> i"
    using i(2) by (auto simp: GetLatestGuardianSetIndex_count)
  ultimately have "TrySwitchToNewConsensusGuardianSet ?k = Inr (set_announced ctx config old keys k)"
    by (simp add: TrySwitchToNewConsensusGuardianSet_def set_announced_def i(1) Let_def)
  then show ?thesis
    using config old index by (simp add: UpdateGuardianSet_Inr GetLatestGuardianSetIndex_count)
qed

lemma guardian_set_executes:
  assumes inv: "worm_inv k" and config: "GetConfig k = Some config"
    and old: "GetGuardianSet (GetLatestGuardianSetIndex k) k = Some old" and n: "unat (GetGuardianSetCount k) + 1 < 2 ^ 32"
    and parsed: "ParseVAA b = Inr v" and verified: "Keeper_VerifyVAA c ctx v k = Inr ()"
    and fresh: "GetReplayProtection (HexDigest c v) k = None"
    and emitter: "wc_GovernanceEmitter config = vaa_EmitterAddress v" "ucast (wc_GovernanceChain config) = vaa_EmitterChain v"
    and payload: "vaa_Payload v = CoreModule @ [2] @ put (0 :: 16 word) @ put (GetLatestGuardianSetIndex k + 1) @
       [word_of_nat (length keys)] @ concat keys"
    and keys: "list_all (\<lambda>key. length key = 20) keys" "distinct keys" "length keys \<le> 255"
  shows "ExecuteGovernanceVAA c ctx b k = Inr (set_announced ctx config old keys (SetReplayProtection (HexDigest c v) k))"
proof -
  let ?k = "SetReplayProtection (HexDigest c v) k"
  let ?p = "put (GetLatestGuardianSetIndex k + 1) @ [word_of_nat (length keys)] @ concat keys"
  have kept: "guardian_part ?k = guardian_part k" "GetConfig ?k = GetConfig k"
    by simp (simp add: GetConfig_def setter_defs)
  have inv': "worm_inv ?k"
    using guardians_kept_inv [OF inv, of ?k] guardians_kept_setters(1,2) by blast
  have "VerifyGovernanceVAA c ctx v CoreModule k = Inr (2, ?p, ?k)"
    using VerifyGovernanceVAA_core [OF verified fresh config emitter, of CoreModule 2 ?p] payload by (simp add: CoreModule_def)
  moreover have "length ?p = 5 + 20 * length keys" "?p ! 4 = word_of_nat (length keys)" "drop 5 ?p = concat keys"
    using keys(1) by (simp_all add: length_concat_20 nth_append)
  moreover have "be_Uint32 ?p = GetLatestGuardianSetIndex k + 1"
    by simp
  moreover have "payload_keys (concat keys) (length keys) [] = Inr keys"
    using payload_keys_concat [of keys "[]"] keys by simp
  moreover have "UpdateGuardianSet ctx \<lparr>wgs_Index = GetLatestGuardianSetIndex k + 1, wgs_Keys = keys, wgs_ExpirationTime = 0\<rparr> ?k =
      Inr (set_announced ctx config old keys ?k)"
    using UpdateGuardianSet_next [OF inv', of config old ctx keys] config old n
    by (simp add: kept(2) guardian_part_getters [OF kept(1)])
  ultimately show ?thesis
    using parsed keys(3) by (simp add: ExecuteGovernanceVAA_def Let_def)
qed

section \<open>A small chain\<close>

definition toy_chain_libs :: chain_libs where
  "toy_chain_libs = \<lparr>AccAddressFromBech32 = (\<lambda>s. if s = [] then Inl (Errorf ''empty address'') else Inr (bytes_of s)),
     AccAddress_String = string_of, Bech32ifyAddressBytes = (\<lambda>b. Inr (string_of b))\<rparr>"

definition sample_config :: WConfig where
  "sample_config = \<lparr>wc_GuardianSetExpiration = 86400, wc_GovernanceEmitter = GovernanceEmitter, wc_GovernanceChain = 1,
     wc_ChainId = 3104\<rparr>"

definition sample_ctx :: block_ctx where
  "sample_ctx = \<lparr>bc_BlockTime = time_unix 1000, bc_BlockHeight = 9, bc_ChainID = ''w''\<rparr>"

text \<open>One guardian, whose validator is registered.\<close>

definition sample_chain :: "nat wormchain" where
  "sample_chain = (no_wormchain 0)
     \<lparr>wk_guardianSets := [(put (0 :: 32 word), \<lparr>wgs_Index = 0, wgs_Keys = [toy_guardian 5], wgs_ExpirationTime = 0\<rparr>)],
      wk_guardianSetCount := Some (put (1 :: 32 word) @ replicate 4 0), wk_config := Some sample_config,
      wk_consensusIndex := Some 0,
      wk_validators := [(GuardianValidatorKey (toy_guardian 5), \<lparr>gv_GuardianKey = toy_guardian 5, gv_ValidatorAddr = [1]\<rparr>)]\<rparr>"

definition sample_update :: VAA where
  "sample_update = (case adminGuardianSetUpdateToVAA toy_libs [\<lparr>rg_pubkey = ''a'', rg_name = ''one''\<rparr>] (time_unix 60) 0 1 7 of
     Inr v \<Rightarrow> v\<lparr>vaa_Signatures := [\<lparr>sig_Index = 0, sig_Data = 5 # replicate 64 0\<rparr>]\<rparr> | Inl _ \<Rightarrow> empty_VAA)"

definition sample_update_bytes :: "byte list" where
  "sample_update_bytes = (case VAA_Marshal sample_update of Inr b \<Rightarrow> b | Inl _ \<Rightarrow> [])"

lemma sample_chain_inv: "worm_inv sample_chain"
proof -
  have "stores_ok sample_chain" 
    by (simp add: stores_ok_def keyed_def sample_chain_def no_wormchain_def GetGuardianSetIDBytes_def)
  moreover have count: "GetGuardianSetCount sample_chain = 1"
    by (simp add: GetGuardianSetCount_def sample_chain_def)
  moreover have sets: "GetGuardianSet i sample_chain =
      (if i = 0 then Some \<lparr>wgs_Index = 0, wgs_Keys = [toy_guardian 5], wgs_ExpirationTime = 0\<rparr> else None)" for i
    by (cases "i = 0") (simp_all add: GetGuardianSet_def sample_chain_def kv_get_def GetGuardianSetIDBytes_def put_inj)
  moreover have "i < 1 \<longleftrightarrow> i = 0" for i :: "32 word"
    by (simp add: word_less_1)
  moreover have "count_stored sample_chain"
    by (simp add: count_stored_def count) (simp add: sample_chain_def)
  moreover have "GetConsensusGuardianSetIndex sample_chain = Some 0"
    "guardians_registered [toy_guardian 5] sample_chain"
    "GetAllGuardianValidator sample_chain = [\<lparr>gv_GuardianKey = toy_guardian 5, gv_ValidatorAddr = [1]\<rparr>]"
    by (simp_all add: getter_defs sample_chain_def kv_get_def)
  ultimately show ?thesis
    by (simp add: worm_inv_def sets_numbered_def consensus_ok_def GetLatestGuardianSetIndex_count)
qed

definition sample_after :: "nat wormchain" where
  "sample_after = (case ExecuteGovernanceVAA toy_crypto sample_ctx sample_update_bytes sample_chain of Inr k \<Rightarrow> k | Inl _ \<Rightarrow> sample_chain)"

lemma sample_parses: "ParseVAA sample_update_bytes = Inr sample_update"
  by code_simp

lemma sample_executes: "ExecuteGovernanceVAA toy_crypto sample_ctx sample_update_bytes sample_chain = Inr sample_after"
proof -
  have "GetConfig sample_chain = Some sample_config" "GetLatestGuardianSetIndex sample_chain = 0"
    "GetGuardianSet 0 sample_chain = Some \<lparr>wgs_Index = 0, wgs_Keys = [toy_guardian 5], wgs_ExpirationTime = 0\<rparr>"
    "Keeper_VerifyVAA toy_crypto sample_ctx sample_update sample_chain = Inr ()"
    "GetReplayProtection (HexDigest toy_crypto sample_update) sample_chain = None"
    "wc_GovernanceEmitter sample_config = vaa_EmitterAddress sample_update"
    "ucast (wc_GovernanceChain sample_config) = vaa_EmitterChain sample_update"
    "vaa_Payload sample_update = CoreModule @ [2] @ put (0 :: 16 word) @ put (1 :: 32 word) @
       [word_of_nat (length [toy_guardian 97])] @ concat [toy_guardian 97]"
    "list_all (\<lambda>key. length key = 20) [toy_guardian 97]"
    by code_simp+
  moreover have "unat (GetGuardianSetCount sample_chain) + 1 < 2 ^ 32"
    by (simp add: GetGuardianSetCount_def sample_chain_def)
  ultimately show ?thesis
    using guardian_set_executes [OF sample_chain_inv _ _ _ sample_parses, of sample_config _ toy_crypto sample_ctx "[toy_guardian 97]"]
    by (simp add: sample_after_def)
qed

definition sample_event :: "block_ctx \<times> nat worm_action" where
  "sample_event = (sample_ctx, WA_Message (MsgExecuteGovernanceVAA sample_update_bytes ''wormhole1''))"

lemma sample_chain_run:
  "start sample_chain \<Longrightarrow> trace_run start (worm_step toy_crypto toy_chain_libs M) [(sample_event, sample_chain)] sample_after"
proof -
  assume s: "start sample_chain"
  have "worm_step toy_crypto toy_chain_libs M sample_event sample_chain sample_after"
    by (simp add: worm_step_def sample_event_def run_action_def Msg_ValidateBasic_def toy_chain_libs_def NewHandler_def sample_executes)
  with trace_run.start [where step = "worm_step toy_crypto toy_chain_libs M" and start = start, of sample_chain]
  show ?thesis
    using s trace_run.step [of start "worm_step toy_crypto toy_chain_libs M" "[]"] by simp
qed

theorem governance_executed_once_witness:
  "GetReplayProtection (HexDigest toy_crypto sample_update) sample_after \<noteq> None \<and>
   GetReplayProtection (HexDigest toy_crypto sample_update) sample_chain = None"
proof -
  have "executed toy_crypto [(sample_event, sample_chain)] = [HexDigest toy_crypto sample_update]"
    by (simp add: executed_def sample_event_def executed_digest_def action_vaa_def sent_governance_vaa_def sample_parses List.map_filter_def)
  moreover have "kv_wf (wk_replay sample_chain)"
    by (simp add: sample_chain_def no_wormchain_def)
  ultimately show ?thesis
    using governance_executed_once [OF sample_chain_run] by (simp add: list_all_iff)
qed

theorem consensus_set_registered_witness:
  "GetGuardianSet (GetLatestGuardianSetIndex sample_after) sample_after \<noteq> None"
proof -
  have "GetGuardianSetCount sample_chain = 1"
    by (simp add: GetGuardianSetCount_def sample_chain_def)
  then show ?thesis
    using consensus_set_registered [OF sample_chain_run] sample_chain_inv by simp
qed

text \<open>
  C12. From the admin socket to wormchain. A guardian set update that the admin service builds for the guardian
  set after the latest one of wormchain, signed by a quorum that wormchain accepts, not executed before, with
  the governance emitter in the configuration, is executed without error. After it the latest set has the
  next index and exactly the requested keys, in their order and without expiry; the old set ends after the
  configured time; the consensus set moves to the new one at once if all its guardians have registered
  validators and stays otherwise; the digest is marked as executed; the invariant holds.
\<close>

theorem guardian_set_request_takes_effect:
  assumes "worm_inv k" and "unat (GetGuardianSetCount k) + 1 < 2 ^ 32" and "GetConfig k = Some config"
    and "wc_GovernanceEmitter config = GovernanceEmitter" and "ucast (wc_GovernanceChain config) = GovernanceChain"
    and "GetGuardianSet (GetLatestGuardianSetIndex k) k = Some old"
    and request: "adminGuardianSetUpdateToVAA L guardians t (GetLatestGuardianSetIndex k) nonce sequence = Inr u"
    and "keys = map (\<lambda>g. HexToAddress L (rg_pubkey g)) guardians" and "list_all (\<lambda>key. length key = 20) keys"
    and "VAA_Unmarshal b = Inr (u\<lparr>vaa_Signatures := sigs\<rparr>)" and "Keeper_VerifyVAA c ctx (u\<lparr>vaa_Signatures := sigs\<rparr>) k = Inr ()"
    and "GetReplayProtection (HexDigest c u) k = None"
  shows "\<exists>k'. ExecuteGovernanceVAA c ctx b k = Inr k' \<and> worm_inv k' \<and>
    GetLatestGuardianSetIndex k' = GetLatestGuardianSetIndex k + 1 \<and>
    GetGuardianSet (GetLatestGuardianSetIndex k') k' =
      Some \<lparr>wgs_Index = GetLatestGuardianSetIndex k', wgs_Keys = keys, wgs_ExpirationTime = 0\<rparr> \<and>
    GetGuardianSet (GetLatestGuardianSetIndex k) k' =
      Some (old\<lparr>wgs_ExpirationTime := word_of_int (unix_secs (bc_BlockTime ctx)) + wc_GuardianSetExpiration config\<rparr>) \<and>
    GetConsensusGuardianSetIndex k' = (if list_all (\<lambda>key. GetGuardianValidator key k \<noteq> None) keys
       then Some (GetLatestGuardianSetIndex k') else GetConsensusGuardianSetIndex k) \<and>
    GetReplayProtection (HexDigest c u) k' \<noteq> None"
proof -
  let ?m = "SetReplayProtection (HexDigest c u) k"
  let ?k = "set_announced ctx config old keys ?m"
  have u: "length guardians \<le> 19" "distinct keys"
    "u = CreateGovernanceVAA t nonce sequence (GetLatestGuardianSetIndex k)
       (CoreModule @ [2] @ put (0 :: 16 word) @ put (GetLatestGuardianSetIndex k + 1) @ [word_of_nat (length keys)] @ concat keys)"
    using request assms(8) unfolding guardian_set_request_iff Let_def by simp_all
  have fields: "vaa_EmitterAddress u = GovernanceEmitter" "vaa_EmitterChain u = GovernanceChain"
    "vaa_Payload u = CoreModule @ [2] @ put (0 :: 16 word) @ put (GetLatestGuardianSetIndex k + 1) @
       [word_of_nat (length keys)] @ concat keys"
    unfolding u(3) CreateGovernanceVAA_def by simp_all
  have run: "ExecuteGovernanceVAA c ctx b k = Inr ?k"
    using guardian_set_executes [OF assms(1,3,6,2) _ assms(11), of b keys] assms(4,5,8-10,12) u(1,2) fields
    by (simp add: ParseVAA_def)
  have k: "stores_ok ?m" and old: "wgs_Index old = GetLatestGuardianSetIndex k"
    using assms(1) stored_index [OF _ assms(6)] by (simp_all add: worm_inv_def)
  have kept: "GetGuardianSet i ?m = GetGuardianSet i k" "GetGuardianSetCount ?m = GetGuardianSetCount k"
    "GetConsensusGuardianSetIndex ?m = GetConsensusGuardianSetIndex k" "GetGuardianValidator key ?m = GetGuardianValidator key k" for i key
    using guardian_part_getters [of ?m k] by simp_all
  have replay: "same_replay ?m ?k"
    by (simp add: set_announced_def appended_def Let_def)
  have "kv_wf (wk_replay k)"
    using assms(1) keyed_wf by (auto simp: worm_inv_def stores_ok_def)
  then have "GetReplayProtection (HexDigest c u) ?k \<noteq> None"
    by (simp add: same_replay_get [OF replay])
  moreover have "worm_inv ?k"
    using ExecuteGovernanceVAA_inv [OF assms(1) run assms(2)] by simp
  ultimately show ?thesis
    using k old by (intro exI [of _ ?k]) (simp add: run set_announced_def appended_def Let_def GetLatestGuardianSetIndex_count
        guardians_registered_def kept)
qed

theorem guardian_set_request_takes_effect_witness:
  "\<exists>k'. ExecuteGovernanceVAA toy_crypto sample_ctx sample_update_bytes sample_chain = Inr k' \<and>
     GetGuardianSet 1 k' = Some \<lparr>wgs_Index = 1, wgs_Keys = [toy_guardian 97], wgs_ExpirationTime = 0\<rparr> \<and>
     GetConsensusGuardianSetIndex k' = Some 0"
proof -
  define u where "u = sample_update\<lparr>vaa_Signatures := []\<rparr>"
  let ?sigs = "vaa_Signatures sample_update"
  have 1: "u\<lparr>vaa_Signatures := ?sigs\<rparr> = sample_update"
    by (simp add: u_def)
  have parsed: "VAA_Unmarshal sample_update_bytes = Inr (u\<lparr>vaa_Signatures := ?sigs\<rparr>)"
    using sample_parses by (simp add: 1 ParseVAA_def)
  have 2: "adminGuardianSetUpdateToVAA toy_libs [\<lparr>rg_pubkey = ''a'', rg_name = ''one''\<rparr>] (time_unix 60)
      (GetLatestGuardianSetIndex sample_chain) 1 7 = Inr u"
    unfolding u_def by code_simp
  have 3: "GetConfig sample_chain = Some sample_config" "wc_GovernanceEmitter sample_config = GovernanceEmitter"
    "ucast (wc_GovernanceChain sample_config) = GovernanceChain" "GetLatestGuardianSetIndex sample_chain = 0"
    "GetGuardianSet (GetLatestGuardianSetIndex sample_chain) sample_chain =
       Some \<lparr>wgs_Index = 0, wgs_Keys = [toy_guardian 5], wgs_ExpirationTime = 0\<rparr>"
    "[toy_guardian 97] = map (\<lambda>g. HexToAddress toy_libs (rg_pubkey g)) [\<lparr>rg_pubkey = ''a'', rg_name = ''one''\<rparr>]"
    "list_all (\<lambda>key. length key = 20) [toy_guardian 97]"
    "Keeper_VerifyVAA toy_crypto sample_ctx (u\<lparr>vaa_Signatures := ?sigs\<rparr>) sample_chain = Inr ()"
    "GetReplayProtection (HexDigest toy_crypto u) sample_chain = None"
    "GetConsensusGuardianSetIndex sample_chain = Some 0" "GetGuardianValidator (toy_guardian 97) sample_chain = None"
    unfolding u_def by code_simp+
  have "unat (GetGuardianSetCount sample_chain) + 1 < 2 ^ 32"
    by (simp add: GetGuardianSetCount_def sample_chain_def)
  from guardian_set_request_takes_effect [OF sample_chain_inv this 3(1-3,5) 2 3(6,7) parsed 3(8,9)]
  show ?thesis
    using 3(4,10,11) by auto
qed

section \<open>Genesis\<close>

text \<open>The bytes of a number are ordered as the number is.\<close>

lemma nat_of_be_Cons: "nat_of_be (x # xs) = unat x * 256 ^ length xs + nat_of_be xs"
proof (induction xs rule: rev_induct)
  case (snoc y ys)
  then show ?case
    using nat_of_be_snoc [of "x # ys" y] by (simp add: algebra_simps)
qed (use nat_of_be_snoc [of "[]" x] in simp)

lemma bytes_less_nat: "length a = length b \<Longrightarrow> bytes_less a b \<longleftrightarrow> nat_of_be a < nat_of_be b"
proof (induction a b rule: bytes_less.induct)
  case (3 a as b bs)
  have bound: "nat_of_be as < 256 ^ length bs" "nat_of_be bs < 256 ^ length bs"
    using nat_of_be_less [of as] nat_of_be_less [of bs] 3(2) by simp_all
  consider (lt) "unat a < unat b" | (eq) "a = b" | (gt) "unat b < unat a"
    by (meson linorder_neqE_nat unat_cancel)
  then show ?case
  proof cases
    case lt
    then have "(unat a + 1) * 256 ^ length bs \<le> unat b * 256 ^ length bs" by (intro mult_right_mono) auto
    then show ?thesis
      using lt 3(2) bound by (simp add: nat_of_be_Cons word_less_nat_alt)
  next
    case eq
    then show ?thesis using 3 by (simp add: nat_of_be_Cons)
  next
    case gt
    then have "(unat b + 1) * 256 ^ length bs \<le> unat a * 256 ^ length bs" by (intro mult_right_mono) auto
    then show ?thesis
      using gt 3(2) bound by (auto simp: nat_of_be_Cons word_less_nat_alt)
  qed
qed auto

lemma bytes_less_put: "bytes_less (put (i :: 32 word)) (put j) \<longleftrightarrow> i < j"
  using unat_bounds(3) [of i] unat_bounds(3) [of j] by (simp add: bytes_less_nat put_def nat_of_be_nat word_less_nat_alt)

lemma sorted_indexes: "keyed (\<lambda>gs. GetGuardianSetIDBytes (wgs_Index gs)) s \<Longrightarrow> sorted_wrt (<) (map (\<lambda>e. wgs_Index (snd e)) s)"
proof (induction s)
  case (Cons e s)
  have "wgs_Index (snd e) < wgs_Index (snd e')" if "e' \<in> set s" for e'
  proof -
    have "fst e = put (wgs_Index (snd e))" "fst e' = put (wgs_Index (snd e'))" "bytes_less (fst e) (fst e')"
      using Cons.prems that by (auto simp: keyed_def list_all_iff GetGuardianSetIDBytes_def kv_wf_def)
    then show ?thesis
      by (simp add: bytes_less_put)
  qed
  then show ?case
    using Cons by (auto simp: keyed_def kv_wf_def)
qed simp

lemma sorted_words: "n \<le> 4294967295 \<Longrightarrow> sorted_wrt (<) (map word_of_nat [0..<n] :: 32 word list)"
  by (auto simp: sorted_wrt_map word_less_nat_alt intro!: sorted_wrt_mono_rel [OF _ sorted_wrt_upt])

lemma words_from_0:
  assumes xs: "sorted_wrt (<) xs" "set xs = {i. i < (c :: 32 word)}"
  shows "xs = map word_of_nat [0..<unat c]"
proof (rule sorted_distinct_set_unique)
  have c: "unat c \<le> 4294967295"
    by (rule unat_bounds)
  show "sorted xs" "distinct xs"
    using xs(1) by (simp_all add: strict_sorted_iff)
  show "sorted (map word_of_nat [0..<unat c] :: 32 word list)" "distinct (map word_of_nat [0..<unat c] :: 32 word list)"
    using sorted_words [OF c] by (simp_all only: strict_sorted_iff)
  have "i \<in> word_of_nat ` {0..<unat c}" if "i < c" for i
    using that by (intro image_eqI [of _ _ "unat i"]) (simp_all add: word_less_nat_alt)
  moreover have "word_of_nat n < c" if "n < unat c" for n
    using that c by (simp add: word_less_nat_alt)
  ultimately show "set xs = set (map word_of_nat [0..<unat c])"
    using xs(2) by auto
qed

lemma keyed_entry: "keyed f s \<Longrightarrow> (key, x) \<in> set s \<Longrightarrow> key = f x \<and> kv_get (f x) s = Some x"
  using kv.items_iff [of s key x] by (auto simp: keyed_def list_all_iff)

lemma stored_indexes:
  assumes "stores_ok k"
  shows "wgs_Index ` set (GetAllGuardianSet k) = {i. GetGuardianSet i k \<noteq> None}"
proof -
  let ?f = "\<lambda>gs. GetGuardianSetIDBytes (wgs_Index gs)"
  have s: "keyed ?f (wk_guardianSets k)"
    using assms by (simp add: stores_ok_def)
  have "GetGuardianSet (wgs_Index gs) k = Some gs" if "(key, gs) \<in> set (wk_guardianSets k)" for key gs
    using keyed_entry [OF s that] by (simp add: GetGuardianSet_def)
  moreover have "i \<in> wgs_Index ` set (GetAllGuardianSet k)" if "GetGuardianSet i k = Some gs" for i gs
  proof
    show "i = wgs_Index gs"
      using stored_index [OF assms that] by simp
    show "gs \<in> set (GetAllGuardianSet k)"
      using kv.items_iff [OF keyed_wf [OF s]] that by (force simp: GetGuardianSet_def GetAllGuardianSet_def)
  qed
  ultimately show ?thesis
    by (auto simp: GetAllGuardianSet_def)
qed

lemma all_indexes:
  assumes "stores_ok k" and "sets_numbered k"
  shows "map wgs_Index (GetAllGuardianSet k) = map word_of_nat [0..<unat (GetGuardianSetCount k)]"
proof (rule words_from_0)
  let ?f = "\<lambda>gs. GetGuardianSetIDBytes (wgs_Index gs)"
  have s: "keyed ?f (wk_guardianSets k)"
    using assms(1) by (simp add: stores_ok_def)
  show "sorted_wrt (<) (map wgs_Index (GetAllGuardianSet k))"
    using sorted_indexes [OF s] by (simp add: GetAllGuardianSet_def comp_def)
  show "set (map wgs_Index (GetAllGuardianSet k)) = {i. i < GetGuardianSetCount k}"
    using assms(2) stored_indexes [OF assms(1)] by (simp add: sets_numbered_def)
qed

lemma append_sets_numbered:
  "map wgs_Index gss = map word_of_nat [n..<n + length gss] \<Longrightarrow> GetGuardianSetCount k = word_of_nat n \<Longrightarrow>
   append_sets gss k = Inr (k\<lparr>wk_guardianSets := fold (\<lambda>gs. kv_set (GetGuardianSetIDBytes (wgs_Index gs)) gs) gss (wk_guardianSets k),
     wk_guardianSetCount := (if gss = [] then wk_guardianSetCount k
       else Some (put (word_of_nat (n + length gss) :: 32 word) @ replicate 4 0))\<rparr>)"
proof (induction gss arbitrary: n k)
  case (Cons gs gss)
  let ?k = "setGuardianSetCount (word_of_nat n + 1) (setGuardianSet gs k)"
  have gs: "wgs_Index gs = word_of_nat n" "map wgs_Index gss = map word_of_nat [Suc n..<Suc n + length gss]"
    using Cons.prems(1) upt_conv_Cons [of n "Suc n + length gss"] by (auto simp del: upt_Suc)
  then have "append_sets (gs # gss) k = append_sets gss ?k"
    using Cons.prems(2) by (simp add: AppendGuardianSet_def)
  also have "\<dots> = Inr (?k\<lparr>wk_guardianSets := fold (\<lambda>gs. kv_set (GetGuardianSetIDBytes (wgs_Index gs)) gs) gss (wk_guardianSets ?k),
     wk_guardianSetCount := (if gss = [] then wk_guardianSetCount ?k
       else Some (put (word_of_nat (Suc n + length gss) :: 32 word) @ replicate 4 0))\<rparr>)"
    using gs(2) by (intro Cons.IH) (simp_all add: add.commute)
  finally show ?case
    by (simp add: setter_defs add.commute)
qed simp

lemma fold_replay: "fold SetReplayProtection xs k = k\<lparr>wk_replay := fold (\<lambda>x. kv_set (ReplayProtectionKey x) x) xs (wk_replay k)\<rparr>"
  by (induction xs arbitrary: k) (simp_all add: setter_defs)

lemma fold_sequences: "fold SetSequenceCounter xs k = k\<lparr>wk_sequences := fold (\<lambda>x. kv_set (SequenceCounterKey (sc_Index x)) x) xs (wk_sequences k)\<rparr>"
  by (induction xs arbitrary: k) (simp_all add: setter_defs)

lemma fold_validators: "fold SetGuardianValidator xs k = k\<lparr>wk_validators := fold (\<lambda>x. kv_set (GuardianValidatorKey (gv_GuardianKey x)) x) xs (wk_validators k)\<rparr>"
  by (induction xs arbitrary: k) (simp_all add: setter_defs)

lemma fold_allowlist: "fold SetValidatorAllowedAddress xs k = k\<lparr>wk_allowlist := fold (\<lambda>x. kv_set (bytes_of (va_AllowedAddress x)) x) xs (wk_allowlist k)\<rparr>"
  by (induction xs arbitrary: k) (simp_all add: setter_defs)

lemma fold_wasm: "fold SetWasmInstantiateAllowlist xs k = k\<lparr>wk_wasmAllowlist := fold (\<lambda>x. kv_set (wasm_key (wa_ContractAddress x) (wa_CodeId x)) x) xs (wk_wasmAllowlist k)\<rparr>"
  by (induction xs arbitrary: k) (simp_all add: setter_defs)

lemmas fold_setters = fold_replay fold_sequences fold_validators fold_allowlist fold_wasm

lemma unique_loop_Inr: "unique_loop msg seen xs = Inr () \<longleftrightarrow> distinct xs \<and> seen \<inter> set xs = {}"
  by (induction xs arbitrary: seen) auto

lemma keyed_distinct: "keyed f s \<Longrightarrow> distinct (map f (map snd s))"
proof -
  assume k: "keyed f s"
  then have eq: "map f (map snd s) = map fst s"
    by (auto simp: keyed_def list_all_iff)
  show ?thesis
    unfolding eq using kv.distinct_items [OF keyed_wf [OF k]] .
qed

text \<open>
  C29. Export and import of the state. The genesis that a chain with the invariant exports passes Validate, and
  InitGenesis builds the same state from it on an empty chain: every guardian set with its count, the
  configuration, the executed digests, sequences, validators and both allowlists, in every store the same
  entries. Only events and the state of other modules are not part of it, and a contract that was not set
  is stored as the empty text.
\<close>

theorem genesis_roundtrip:
  assumes "worm_inv k"
  shows "Genesis_Validate (Wormhole_ExportGenesis k) = Inr () \<and>
    Wormhole_InitGenesis (Wormhole_ExportGenesis k) (no_wormchain x) =
      Inr (k\<lparr>wk_ibcContract := Some (GetIbcComposabilityMwContract k), wk_events := [], wk_modules := x\<rparr>)"
proof -
  have k: "stores_ok k" "sets_numbered k" "consensus_ok k"
    using assms by (simp_all add: worm_inv_def)
  note stores = k(1) [unfolded stores_ok_def]
  let ?n = "unat (GetGuardianSetCount k)"
  have idx: "map wgs_Index (GetAllGuardianSet k) = map word_of_nat [0..<?n]"
    using all_indexes [OF k(1,2)] .
  then have len: "length (GetAllGuardianSet k) = ?n"
    by (metis length_map length_upt minus_nat.diff_0)
  have "GetLatestGuardianSetIndex k < GetGuardianSetCount k"
    using assms k(2) unfolding worm_inv_def sets_numbered_def by blast
  then have pos: "GetAllGuardianSet k \<noteq> []"
    using len by (auto simp: word_less_nat_alt)
  have distinct: "distinct (map wgs_Index (GetAllGuardianSet k))"
    using stores keyed_distinct [of "\<lambda>gs. GetGuardianSetIDBytes (wgs_Index gs)" "wk_guardianSets k"]
    by (auto simp: GetAllGuardianSet_def distinct_map inj_on_def)
  have fresh: "map wgs_Index (GetAllGuardianSet k) = map word_of_nat [0..<0 + length (GetAllGuardianSet k)]"
    "GetGuardianSetCount (no_wormchain x) = word_of_nat 0"
    by (simp_all add: idx len GetGuardianSetCount_def no_wormchain_def)
  have sets: "fold (\<lambda>gs. kv_set (GetGuardianSetIDBytes (wgs_Index gs)) gs) (GetAllGuardianSet k) [] = wk_guardianSets k"
    using stores by (simp add: GetAllGuardianSet_def keyed_load)
  have count: "Some (put (word_of_nat (0 + ?n) :: 32 word) @ replicate 4 0) = wk_guardianSetCount k"
    using k(2) by (simp add: sets_numbered_def count_stored_def)
  have "wk_guardianSets (no_wormchain x) = []"
    by (simp add: no_wormchain_def)
  then have "append_sets (GetAllGuardianSet k) (no_wormchain x) = Inr ((no_wormchain x)
      \<lparr>wk_guardianSets := wk_guardianSets k, wk_guardianSetCount := wk_guardianSetCount k\<rparr>)"
    using append_sets_numbered [OF fresh] pos by (simp only: sets len count if_False)
  then have "Wormhole_InitGenesis (Wormhole_ExportGenesis k) (no_wormchain x) =
      Inr (k\<lparr>wk_ibcContract := Some (GetIbcComposabilityMwContract k), wk_events := [], wk_modules := x\<rparr>)"
    using k(3) stores unfolding consensus_ok_def
    by (auto simp: Wormhole_InitGenesis_def Wormhole_ExportGenesis_def Let_def fold_setters no_wormchain_def keyed_load
        GetAllReplayProtection_def GetAllSequenceCounter_def GetAllGuardianValidator_def GetAllAllowedAddresses_def
        GetAllWasmInstiateAllowedAddresses_def GetConfig_def SetConfig_def GetConsensusGuardianSetIndex_def
        SetConsensusGuardianSetIndex_def StoreIbcComposabilityMwContract_def split: option.split)
  moreover have "Genesis_Validate (Wormhole_ExportGenesis k) = Inr ()"
    using distinct stores
    by (auto simp: Genesis_Validate_def Wormhole_ExportGenesis_def chk_eq_Inr unique_loop_Inr GetAllReplayProtection_def
        GetAllSequenceCounter_def GetAllGuardianValidator_def dest!: keyed_distinct simp: comp_def)
  ultimately show ?thesis by simp
qed

theorem genesis_roundtrip_witness:
  "Wormhole_InitGenesis (Wormhole_ExportGenesis sample_chain) (no_wormchain 5) =
     Inr (sample_chain\<lparr>wk_ibcContract := Some [], wk_modules := 5\<rparr>)"
  using genesis_roundtrip [OF sample_chain_inv, of 5]
  by (simp add: GetIbcComposabilityMwContract_def sample_chain_def no_wormchain_def)

section \<open>Who may act\<close>

text \<open>A validator of the current or a later guardian set, or an address that one of them allowed.\<close>

definition may_act :: "chain_libs \<Rightarrow> string \<Rightarrow> 'x wormchain \<Rightarrow> bool" where
  "may_act B addr k \<longleftrightarrow> IsAddressValidatorOrFutureValidator B addr k \<or>
     (case kv_get (bytes_of addr) (wk_allowlist k) of
        None \<Rightarrow> False | Some a \<Rightarrow> IsAddressValidatorOrFutureValidator B (va_ValidatorAddress a) k)"

lemma signers_allowed_iff: "signers_allowed B ss k \<longleftrightarrow> list_ex (\<lambda>s. may_act B (AccAddress_String B s) k) ss"
  by (induction ss)
    (auto simp: may_act_def Let_def HasValidatorAllowedAddress_def GetValidatorAllowedAddress_def kv_has_def split: option.split)


text \<open>
  An empty guardian set. A governance VAA that announces a guardian set without keys is executed like any
  other: the empty set is the latest and at once the consensus set, and from then on every address counts as
  a consensus guardian. The comment at IsConsensusGuardian says that this is never encountered on a chain
  that starts with a guardian set.
\<close>

lemma empty_set_admits_everyone:
  assumes "worm_inv k" and "unat (GetGuardianSetCount k) + 1 < 2 ^ 32" and "GetConfig k = Some config"
    and "GetGuardianSet (GetLatestGuardianSetIndex k) k = Some old"
    and "VAA_Unmarshal b = Inr v" and "Keeper_VerifyVAA c ctx v k = Inr ()" and "GetReplayProtection (HexDigest c v) k = None"
    and "wc_GovernanceEmitter config = vaa_EmitterAddress v" and "ucast (wc_GovernanceChain config) = vaa_EmitterChain v"
    and "vaa_Payload v = CoreModule @ [2] @ put (0 :: 16 word) @ put (GetLatestGuardianSetIndex k + 1) @ [0]"
  shows "\<exists>k'. ExecuteGovernanceVAA c ctx b k = Inr k' \<and>
    GetConsensusGuardianSetIndex k' = Some (GetLatestGuardianSetIndex k + 1) \<and> IsConsensusGuardian addr k' = Inr True"
proof -
  let ?m = "SetReplayProtection (HexDigest c v) k"
  let ?k = "set_announced ctx config old [] ?m"
  have run: "ExecuteGovernanceVAA c ctx b k = Inr ?k"
    using guardian_set_executes [OF assms(1,3,4,2) _ assms(6,7,8,9), of b "[]"] assms(5,10) by (simp add: ParseVAA_def)
  have k: "stores_ok ?m" and old: "wgs_Index old = GetLatestGuardianSetIndex k"
    using assms(1) stored_index [OF _ assms(4)] by (simp_all add: worm_inv_def)
  have m: "GetLatestGuardianSetIndex ?m = GetLatestGuardianSetIndex k"
    using guardian_part_getters [of ?m k] by simp
  have "GetConsensusGuardianSetIndex ?k = Some (GetLatestGuardianSetIndex k + 1)"
    "GetGuardianSet (GetLatestGuardianSetIndex k + 1) ?k =
       Some \<lparr>wgs_Index = GetLatestGuardianSetIndex k + 1, wgs_Keys = [], wgs_ExpirationTime = 0\<rparr>"
    using k by (simp_all add: set_announced_def appended_def Let_def guardians_registered_def m old)
  then show ?thesis
    using run by (simp add: IsConsensusGuardian_def)
qed

definition sample_empty :: VAA where
  "sample_empty = sample_update\<lparr>vaa_Payload := CoreModule @ [2] @ put (0 :: 16 word) @ put (1 :: 32 word) @ [0]\<rparr>"

theorem empty_set_admits_everyone_witness:
  "\<exists>b k'. VAA_Unmarshal b = Inr sample_empty \<and> ExecuteGovernanceVAA toy_crypto sample_ctx b sample_chain = Inr k' \<and>
     IsConsensusGuardian [9, 9] k' = Inr True"
proof -
  define b where "b = (case VAA_Marshal sample_empty of Inr b \<Rightarrow> b | Inl _ \<Rightarrow> [])"
  have 1: "VAA_Unmarshal b = Inr sample_empty"
    unfolding b_def by code_simp
  have 2: "GetConfig sample_chain = Some sample_config"
    "GetGuardianSet (GetLatestGuardianSetIndex sample_chain) sample_chain =
       Some \<lparr>wgs_Index = 0, wgs_Keys = [toy_guardian 5], wgs_ExpirationTime = 0\<rparr>"
    "Keeper_VerifyVAA toy_crypto sample_ctx sample_empty sample_chain = Inr ()"
    "GetReplayProtection (HexDigest toy_crypto sample_empty) sample_chain = None"
    "wc_GovernanceEmitter sample_config = vaa_EmitterAddress sample_empty"
    "ucast (wc_GovernanceChain sample_config) = vaa_EmitterChain sample_empty"
    "vaa_Payload sample_empty = CoreModule @ [2] @ put (0 :: 16 word) @ put (GetLatestGuardianSetIndex sample_chain + 1) @ [0]"
    by code_simp+
  have "unat (GetGuardianSetCount sample_chain) + 1 < 2 ^ 32"
    by (simp add: GetGuardianSetCount_def sample_chain_def)
  from empty_set_admits_everyone [OF sample_chain_inv this 2(1,2) 1 2(3-7), of "[9, 9]"] 1 show ?thesis
    by blast
qed

lemma allowlist_loop_eq:
  "allowlist_loop validator as n a = (n + length (filter (\<lambda>a. va_ValidatorAddress a = validator) as), if as = [] then a else Some (last as))"
  by (induction as arbitrary: n a) auto

text \<open>
  The allowlist of a validator. The query answers with as many entries as the validator has, but each is a
  copy of the last entry of the whole allowlist, whoever made it: the answer holds pointers to one variable.
\<close>

lemma allowlist_query_repeats_last:
  "Query_Allowlist validator k =
     replicate (length (filter (\<lambda>a. va_ValidatorAddress a = validator) (GetAllAllowedAddresses k))) (last (GetAllAllowedAddresses k))"
  by (cases "GetAllAllowedAddresses k") (simp_all add: Query_Allowlist_def allowlist_loop_eq)

text \<open>
  A gateway contract of the wrong length. The error of Deserialize is dropped, so a governance VAA that sets
  the contract of the composability middleware with a payload that is not 32 bytes long has the effect of 32
  zero bytes: the address of zero is stored and the message succeeds.
\<close>

lemma wrong_contract_length_stores_zero:
  "length payload \<noteq> 32 \<Longrightarrow> Bech32ifyAddressBytes B (replicate 32 0) = Inr zero_address \<Longrightarrow>
   setIbcComposabilityMwContract B payload k = Inr (StoreIbcComposabilityMwContract zero_address k)"
  by (simp add: setIbcComposabilityMwContract_def IbcComposabilityMw_Deserialize_def deserialized_def)

theorem wrong_contract_length_stores_zero_witness:
  "setIbcComposabilityMwContract toy_chain_libs [1, 2] sample_chain =
     Inr (StoreIbcComposabilityMwContract (string_of (replicate 32 0)) sample_chain)"
  by (rule wrong_contract_length_stores_zero) (simp_all add: toy_chain_libs_def)

end
