(* ===== verification/QueryHandler.thy ===== *)
theory QueryHandler imports QueryResponse Gossip Traces begin

text \<open>
  The query handler of a guardian: node/pkg/query/query.go, and the listener and publisher of
  node/pkg/p2p/ccq_p2p.go on both sides of it. Signed requests come in from the network; a valid request of an
  allowed requestor is taken apart, one query per chain, and each query is sent to the watcher of its chain.
  When all answers are there, the publication goes back to p2p, which signs it. A ticker sends queries again
  and drops requests that are too old.

  The channels are those of Gossip.thy. Every case of the select is a function of the state; the ticker gets
  the order in which Go happens to visit the map of pending queries. ethCommon.Hex2Bytes is an argument.
\<close>

section \<open>Configuration\<close>

definition RequestTimeout :: time where "RequestTimeout = 60 * 1000000000"
definition RetryInterval :: time where "RetryInterval = 10 * 1000000000"
definition AuditInterval :: time where "AuditInterval = 1000000000"

record PerChainConfig =
  cfg_NumWorkers :: int
  cfg_TimestampCacheSupported :: bool

text \<open>Chain, workers, and whether the timestamp cache is supported.\<close>

definition perChainConfig :: "(ChainID \<times> int \<times> bool) list" where
  "perChainConfig = [
   (1, 10, False), (2, 5, True), (4, 1, True), (5, 5, True), (6, 1, True),
   (7, 1, True), (9, 1, True), (10, 1, True), (11, 1, True), (12, 1, True),
   (13, 1, True), (14, 1, True), (16, 1, True), (23, 5, True), (24, 5, True),
   (30, 5, True), (34, 1, True), (35, 1, True), (36, 1, True), (37, 1, True),
   (38, 1, True), (39, 1, True), (43, 1, True), (44, 1, True), (45, 1, True),
   (46, 1, True), (10002, 1, True), (10006, 1, True), (10003, 1, True), (10004, 1, True),
   (10005, 1, True), (10007, 1, True), (47, 1, True), (48, 1, True), (40, 1, True),
   (50, 1, True), (51, 10, True), (53, 1, True), (55, 1, True)]"

definition GetPerChainConfig :: "ChainID \<Rightarrow> PerChainConfig" where
  "GetPerChainConfig chainID = (case map_of perChainConfig chainID of
     Some (n, t) \<Rightarrow> \<lparr>cfg_NumWorkers = n, cfg_TimestampCacheSupported = t\<rparr>
   | None \<Rightarrow> \<lparr>cfg_NumWorkers = 0, cfg_TimestampCacheSupported = False\<rparr>)"

definition QueriesSupported :: "PerChainConfig \<Rightarrow> bool" where
  "QueriesSupported config \<longleftrightarrow> 0 < cfg_NumWorkers config"

section \<open>State\<close>

definition QuerySuccess :: int where "QuerySuccess = 1"
definition QueryRetryNeeded :: int where "QueryRetryNeeded = 0"
definition QueryFatalError :: int where "QueryFatalError = -1"

record PerChainQueryResponseInternal =
  pcri_RequestID :: string
  pcri_RequestIdx :: int
  pcri_ChainId :: ChainID
  pcri_Status :: int
  pcri_Response :: "ChainSpecificResponse option"

definition CreatePerChainQueryResponseInternal :: "string \<Rightarrow> int \<Rightarrow> ChainID \<Rightarrow> int \<Rightarrow> ChainSpecificResponse option \<Rightarrow>
    PerChainQueryResponseInternal" where
  "CreatePerChainQueryResponseInternal reqId reqIdx chainId status response =
     \<lparr>pcri_RequestID = reqId, pcri_RequestIdx = reqIdx, pcri_ChainId = chainId, pcri_Status = status, pcri_Response = response\<rparr>"

text \<open>The channel of a query is the one of its chain.\<close>

record perChainQuery =
  pc_req :: PerChainQueryInternal
  pc_channel :: ChainID
  pc_lastUpdateTime :: time

record pendingQuery =
  pq_signedRequest :: SignedQueryRequest
  pq_request :: QueryRequest
  pq_requestID :: string
  pq_receiveTime :: time
  pq_queries :: "perChainQuery list"
  pq_responses :: "PerChainQueryResponseInternal option list"
  pq_respPub :: "QueryResponsePublication option"

record query_handler =
  qh_env :: Environment
  qh_allowedRequestors :: "eth_address set"
  qh_supportedChains :: "ChainID set"
  qh_chainQueryReqC :: "ChainID \<Rightarrow> PerChainQueryInternal channel option"
  qh_queryResponseWriteC :: "QueryResponsePublication channel"
  qh_pendingQueries :: "string \<Rightarrow> pendingQuery option"

section \<open>Start\<close>

fun requesters_loop :: "crypto \<Rightarrow> (string \<Rightarrow> byte list) \<Rightarrow> string list \<Rightarrow> eth_address set \<Rightarrow> go_error + eth_address set" where
  "requesters_loop c Hex2Bytes [] result = Inr result"
| "requesters_loop c Hex2Bytes (str # strs) result =
     (let addr = BytesToEthAddress c (Hex2Bytes (trim_0x str)) in
      if addr = replicate 20 0 then Inl (Errorf ''invalid value in ccqAllowedRequesters'')
      else requesters_loop c Hex2Bytes strs (insert addr result))"

definition parseAllowedRequesters :: "crypto \<Rightarrow> (string \<Rightarrow> byte list) \<Rightarrow> string \<Rightarrow> go_error + eth_address set" where
  "parseAllowedRequesters c Hex2Bytes ccqAllowedRequesters =
     (if ccqAllowedRequesters = [] then Inl (Errorf ''ccqAllowedRequesters must be specified'')
      else chk (requesters_loop c Hex2Bytes (split_on CHR '','' ccqAllowedRequesters) {}) (\<lambda>result.
           if result = {} then Inl (Errorf ''no allowed requestors specified'') else Inr result))"

text \<open>The chains of the configuration that have a watcher.\<close>

fun supported_loop :: "(ChainID \<Rightarrow> bool) \<Rightarrow> (ChainID \<times> int \<times> bool) list \<Rightarrow> ChainID set \<Rightarrow> go_error + ChainID set" where
  "supported_loop watched [] found = Inr found"
| "supported_loop watched ((chainID, workers, _) # rest) found =
     (if watched chainID then
        if workers \<le> 0 then Inl (Panic ''no workers specified'') else supported_loop watched rest (insert chainID found)
      else supported_loop watched rest found)"

definition start_queries :: "crypto \<Rightarrow> (string \<Rightarrow> byte list) \<Rightarrow> Environment \<Rightarrow> string \<Rightarrow>
    (ChainID \<Rightarrow> PerChainQueryInternal channel option) \<Rightarrow> QueryResponsePublication channel \<Rightarrow> go_error + query_handler" where
  "start_queries c Hex2Bytes env allowedRequestorsStr chainQueryReqC queryResponseWriteC =
     chk (wrap ''failed to parse allowed requesters'' (parseAllowedRequesters c Hex2Bytes allowedRequestorsStr)) (\<lambda>allowed.
     chk (supported_loop (\<lambda>ch. chainQueryReqC ch \<noteq> None) perChainConfig {}) (\<lambda>chains.
     Inr \<lparr>qh_env = env, qh_allowedRequestors = allowed, qh_supportedChains = chains, qh_chainQueryReqC = chainQueryReqC,
          qh_queryResponseWriteC = queryResponseWriteC, qh_pendingQueries = (\<lambda>_. None)\<rparr>))"

section \<open>Requests\<close>

definition request_digest :: "crypto \<Rightarrow> query_handler \<Rightarrow> SignedQueryRequest \<Rightarrow> byte list" where
  "request_digest c qh signedRequest = QueryRequestDigest c (qh_env qh) (sqr_QueryRequest signedRequest)"

definition request_id :: "crypto \<Rightarrow> query_handler \<Rightarrow> SignedQueryRequest \<Rightarrow> string" where
  "request_id c qh signedRequest =
     hex_encode (sqr_Signature signedRequest) @ '':'' @ ''0x'' @ hex_encode (request_digest c qh signedRequest)"

text \<open>The zero time of a query is overwritten when the query is forwarded.\<close>

fun build_queries :: "query_handler \<Rightarrow> string \<Rightarrow> nat \<Rightarrow> PerChainQueryRequest list \<Rightarrow> perChainQuery list option" where
  "build_queries qh requestID requestIdx [] = Some []"
| "build_queries qh requestID requestIdx (pcq # pcqs) =
     (if pcq_ChainId pcq \<notin> qh_supportedChains qh then None
      else if qh_chainQueryReqC qh (pcq_ChainId pcq) = None then None
      else (case build_queries qh requestID (Suc requestIdx) pcqs of
          None \<Rightarrow> None
        | Some queries \<Rightarrow> Some (\<lparr>pc_req = \<lparr>pcqi_RequestID = requestID, pcqi_RequestIdx = requestIdx, pcqi_Request = pcq\<rparr>,
              pc_channel = pcq_ChainId pcq, pc_lastUpdateTime = -62135596800000000000\<rparr> # queries)))"

text \<open>Sending to a channel that is not there, a nil one, takes the default branch.\<close>

definition ccqForwardToWatcher :: "time \<Rightarrow> perChainQuery \<Rightarrow> query_handler \<Rightarrow> perChainQuery \<times> query_handler" where
  "ccqForwardToWatcher receiveTime pcq qh =
     (pcq\<lparr>pc_lastUpdateTime := receiveTime\<rparr>,
      case qh_chainQueryReqC qh (pc_channel pcq) of
        None \<Rightarrow> qh
      | Some ch \<Rightarrow> qh\<lparr>qh_chainQueryReqC := (qh_chainQueryReqC qh)(pc_channel pcq \<mapsto> snd (try_send (pc_req pcq) ch))\<rparr>)"

fun forward_all :: "time \<Rightarrow> perChainQuery list \<Rightarrow> query_handler \<Rightarrow> perChainQuery list \<times> query_handler" where
  "forward_all now [] qh = ([], qh)"
| "forward_all now (q # qs) qh =
     (let (q', qh) = ccqForwardToWatcher now q qh; (qs', qh) = forward_all now qs qh in (q' # qs', qh))"

definition store_query :: "pendingQuery \<Rightarrow> query_handler \<Rightarrow> query_handler" where
  "store_query pq qh = qh\<lparr>qh_pendingQueries := (qh_pendingQueries qh)(pq_requestID pq \<mapsto> pq)\<rparr>"

definition delete_pending :: "string \<Rightarrow> query_handler \<Rightarrow> query_handler" where
  "delete_pending requestID qh = qh\<lparr>qh_pendingQueries := (qh_pendingQueries qh)(requestID := None)\<rparr>"

definition recovered_requestor :: "crypto \<Rightarrow> query_handler \<Rightarrow> SignedQueryRequest \<Rightarrow> go_error + eth_address" where
  "recovered_requestor c qh signedRequest =
     chk (Ecrecover c (request_digest c qh signedRequest) (sqr_Signature signedRequest)) (\<lambda>signerBytes.
     Inr (BytesToEthAddress c (drop 12 (Keccak256 c (drop 1 signerBytes)))))"

definition handle_request :: "crypto \<Rightarrow> time \<Rightarrow> SignedQueryRequest \<Rightarrow> query_handler \<Rightarrow> query_handler" where
  "handle_request c now signedRequest qh =
     (let requestID = request_id c qh signedRequest in
      case recovered_requestor c qh signedRequest of
        Inl _ \<Rightarrow> qh
      | Inr signerAddress \<Rightarrow>
          if signerAddress \<notin> qh_allowedRequestors qh then qh
          else if qh_pendingQueries qh requestID \<noteq> None then qh
          else (case QueryRequest_Unmarshal (sqr_QueryRequest signedRequest) of
              Inl _ \<Rightarrow> qh
            | Inr queryRequest \<Rightarrow>
                if QueryRequest_Validate queryRequest \<noteq> Inr () then qh
                else (case build_queries qh requestID 0 (qr_PerChainQueries queryRequest) of
                    None \<Rightarrow> qh
                  | Some queries \<Rightarrow>
                      (case forward_all now queries qh of (queries, qh) \<Rightarrow>
                         store_query \<lparr>pq_signedRequest = signedRequest, pq_request = queryRequest, pq_requestID = requestID,
                           pq_receiveTime = now, pq_queries = queries,
                           pq_responses = replicate (length (qr_PerChainQueries queryRequest)) None, pq_respPub = None\<rparr> qh))))"

section \<open>Responses\<close>

definition numPendingRequests :: "pendingQuery \<Rightarrow> nat" where
  "numPendingRequests pq = length (filter (\<lambda>r. r = None) (pq_responses pq))"

text \<open>The loop over the answers; the branch of a missing one dereferences it.\<close>

definition response_pub :: "PerChainQueryResponseInternal option \<Rightarrow> go_error + PerChainQueryResponse" where
  "response_pub resp = (case resp of
     None \<Rightarrow> Inl (Panic ''nil pointer dereference'')
   | Some resp \<Rightarrow> Inr \<lparr>pcr_ChainId = pcri_ChainId resp, pcr_Response = pcri_Response resp\<rparr>)"

text \<open>The select that hands a publication to p2p: it is no longer pending, or kept for the ticker.\<close>

definition publish_response :: "QueryResponsePublication \<Rightarrow> pendingQuery \<Rightarrow> query_handler \<Rightarrow> query_handler" where
  "publish_response respPub pq qh =
     (case try_send respPub (qh_queryResponseWriteC qh) of
        (True, ch) \<Rightarrow> delete_pending (pq_requestID pq) (qh\<lparr>qh_queryResponseWriteC := ch\<rparr>)
      | (False, _) \<Rightarrow> store_query (pq\<lparr>pq_respPub := Some respPub\<rparr>) qh)"

definition handle_query_response :: "PerChainQueryResponseInternal \<Rightarrow> query_handler \<Rightarrow> go_error + query_handler" where
  "handle_query_response resp qh =
     (if pcri_Status resp = QuerySuccess then
        if pcri_Response resp = None then Inr qh
        else (case qh_pendingQueries qh (pcri_RequestID resp) of
            None \<Rightarrow> Inr qh
          | Some pq \<Rightarrow>
              if int (length (pq_responses pq)) \<le> pcri_RequestIdx resp then Inr qh
              else if pcri_RequestIdx resp < 0 then Inl (Panic ''index out of range'')
              else
                let pq = pq\<lparr>pq_responses := (pq_responses pq)[nat (pcri_RequestIdx resp) := Some resp]\<rparr> in
                if 0 < numPendingRequests pq then Inr (store_query pq qh)
                else chk (map_err response_pub (pq_responses pq)) (\<lambda>responses.
                     Inr (publish_response \<lparr>qrp_Request = pq_signedRequest pq, qrp_PerChainResponses = responses\<rparr> pq qh)))
      else if pcri_Status resp = QueryRetryNeeded then Inr qh
      else Inr (delete_pending (pcri_RequestID resp) qh))"

section \<open>The ticker\<close>

text \<open>One turn of the loop over the queries of a request: again to the watcher when it is due.\<close>

fun retry_queries :: "time \<Rightarrow> perChainQuery list \<Rightarrow> PerChainQueryResponseInternal option list \<Rightarrow> query_handler \<Rightarrow>
    perChainQuery list \<times> query_handler" where
  "retry_queries now (q # qs) (r # rs) qh =
     (let (q', qh) = (if r = None \<and> pc_lastUpdateTime q + RetryInterval < now then ccqForwardToWatcher now q qh else (q, qh));
          (qs', qh) = retry_queries now qs rs qh
      in (q' # qs', qh))"
| "retry_queries now qs rs qh = (qs, qh)"

definition audit_query :: "time \<Rightarrow> string \<Rightarrow> query_handler \<Rightarrow> query_handler" where
  "audit_query now reqId qh =
     (case qh_pendingQueries qh reqId of
        None \<Rightarrow> qh
      | Some pq \<Rightarrow>
          if pq_receiveTime pq + RequestTimeout < now then delete_pending reqId qh
          else (case pq_respPub pq of
              Some respPub \<Rightarrow>
                (case try_send respPub (qh_queryResponseWriteC qh) of
                   (True, ch) \<Rightarrow> delete_pending reqId (qh\<lparr>qh_queryResponseWriteC := ch\<rparr>)
                 | (False, _) \<Rightarrow> qh)
            | None \<Rightarrow>
                (case retry_queries now (pq_queries pq) (pq_responses pq) qh of (queries, qh) \<Rightarrow>
                   store_query (pq\<lparr>pq_queries := queries\<rparr>) qh)))"

text \<open>The map is visited in some order of its keys.\<close>

definition audit :: "time \<Rightarrow> string list \<Rightarrow> query_handler \<Rightarrow> query_handler" where
  "audit now reqIds qh = fold (audit_query now) reqIds qh"

section \<open>Both sides of p2p\<close>

record SignedQueryResponse =
  sqp_QueryResponse :: "byte list"
  sqp_Signature :: "byte list"

fun allowed_peers :: "string list \<Rightarrow> string set" where
  "allowed_peers [] = {}"
| "allowed_peers (peerID # rest) = (if peerID \<noteq> [] then insert peerID (allowed_peers rest) else allowed_peers rest)"

text \<open>The filter of the request topic, by the peer that a message is from.\<close>

definition accept_request_from :: "string set \<Rightarrow> string \<Rightarrow> bool" where
  "accept_request_from allowedPeers from \<longleftrightarrow> allowedPeers = {} \<or> from \<in> allowedPeers"

text \<open>The filter of subscriptions: configured peers, peers of guardians and bootstrap peers.\<close>

definition accept_subscription :: "string set \<Rightarrow> string list \<Rightarrow> string set \<Rightarrow> string \<Rightarrow> bool" where
  "accept_subscription allowedPeers guardianPeers bootstrapPeers peerID \<longleftrightarrow>
     allowedPeers = {} \<or> peerID \<in> allowedPeers \<or> list_ex (\<lambda>guardianPeerID. peerID = guardianPeerID) guardianPeers \<or>
     peerID \<in> bootstrapPeers"

text \<open>The publisher: a publication that Marshal refuses is logged and dropped; a signer that fails panics.\<close>

definition signed_response :: "crypto \<Rightarrow> byte list \<Rightarrow> QueryResponsePublication \<Rightarrow> go_error + SignedQueryResponse option" where
  "signed_response c signing_key msg =
     (case Publication_Marshal msg of
        Inl _ \<Rightarrow> Inr None
      | Inr msgBytes \<Rightarrow>
          (case Sign c (GetQueryResponseDigestFromBytes c msgBytes) signing_key of
             Inl _ \<Rightarrow> Inl (Panic ''Sign'')
           | Inr sig \<Rightarrow> Inr (Some \<lparr>sqp_QueryResponse = msgBytes, sqp_Signature = sig\<rparr>)))"

text \<open>
  The handler with its channels. cn_taken and cn_sent are a history: what the publisher has taken from its
  channel and what it has given to gossip, in order.
\<close>

record ccq_node =
  cn_handler :: query_handler
  cn_signedQueryReqC :: "SignedQueryRequest channel"
  cn_allowedPeers :: "string set"
  cn_taken :: "QueryResponsePublication list"
  cn_sent :: "SignedQueryResponse list"

text \<open>
  Events: a request from a peer, the handler taking the next one, a watcher taking a query and answering, a
  tick with the order of the visit, the publisher taking a publication, with whether gossip takes the result.
\<close>

datatype ccq_event =
    Gossip_Request string SignedQueryRequest
  | Handle_Request time
  | Watcher_Takes ChainID
  | Watcher_Answers PerChainQueryResponseInternal
  | Audit_Tick time "string list"
  | Publisher_Takes bool

inductive ccq_step :: "crypto \<Rightarrow> byte list \<Rightarrow> ccq_event \<Rightarrow> ccq_node \<Rightarrow> ccq_node \<Rightarrow> bool" for c signing_key where
  gossip: "accept_request_from (cn_allowedPeers n) from \<Longrightarrow>
     ccq_step c signing_key (Gossip_Request from sr) n (n\<lparr>cn_signedQueryReqC := snd (try_send sr (cn_signedQueryReqC n))\<rparr>)"
| handle: "ch_Items (cn_signedQueryReqC n) = sr # rest \<Longrightarrow>
     ccq_step c signing_key (Handle_Request now) n
       (n\<lparr>cn_handler := handle_request c now sr (cn_handler n),
          cn_signedQueryReqC := (cn_signedQueryReqC n)\<lparr>ch_Items := rest\<rparr>\<rparr>)"
| watcher: "qh_chainQueryReqC (cn_handler n) chain = Some ch \<Longrightarrow> ch_Items ch = q # rest \<Longrightarrow>
     ccq_step c signing_key (Watcher_Takes chain) n
       (n\<lparr>cn_handler := (cn_handler n)\<lparr>qh_chainQueryReqC := (qh_chainQueryReqC (cn_handler n))(chain \<mapsto> ch\<lparr>ch_Items := rest\<rparr>)\<rparr>\<rparr>)"
| answer: "handle_query_response resp (cn_handler n) = Inr qh \<Longrightarrow>
     ccq_step c signing_key (Watcher_Answers resp) n (n\<lparr>cn_handler := qh\<rparr>)"
| tick: "distinct reqIds \<Longrightarrow> set reqIds = dom (qh_pendingQueries (cn_handler n)) \<Longrightarrow>
     ccq_step c signing_key (Audit_Tick now reqIds) n (n\<lparr>cn_handler := audit now reqIds (cn_handler n)\<rparr>)"
| publish: "ch_Items (qh_queryResponseWriteC (cn_handler n)) = msg # rest \<Longrightarrow> signed_response c signing_key msg = Inr r \<Longrightarrow>
     ccq_step c signing_key (Publisher_Takes ok) n
       (n\<lparr>cn_handler := (cn_handler n)\<lparr>qh_queryResponseWriteC := (qh_queryResponseWriteC (cn_handler n))\<lparr>ch_Items := rest\<rparr>\<rparr>,
          cn_taken := cn_taken n @ [msg],
          cn_sent := cn_sent n @ (case r of Some s \<Rightarrow> if ok then [s] else [] | None \<Rightarrow> [])\<rparr>)"

definition fresh_ccq :: "query_handler \<Rightarrow> ccq_node \<Rightarrow> bool" where
  "fresh_ccq qh n \<longleftrightarrow> cn_handler n = qh \<and> qh_pendingQueries qh = (\<lambda>_. None) \<and> ch_Items (qh_queryResponseWriteC qh) = [] \<and>
     ch_Items (cn_signedQueryReqC n) = [] \<and> cn_taken n = [] \<and> cn_sent n = []"

end
