(* ===== verification/QueryRun.thy ===== *)
theory QueryRun imports QueryHandler begin

text \<open>
  What the query handler keeps: every response that a guardian signs answers a request of an allowed
  requestor, each part of it with an answer that a watcher gave to that part; a request that was received once
  is answered at most once; after a tick no request is older than the timeout and no query has waited longer
  than the retry interval.
\<close>

section \<open>Frames\<close>

text \<open>Forwarding changes only the channels of the watchers and the time of the query.\<close>

definition same_but_channels :: "query_handler \<Rightarrow> query_handler \<Rightarrow> bool" where
  "same_but_channels qh qh' \<longleftrightarrow> qh_env qh' = qh_env qh \<and> qh_allowedRequestors qh' = qh_allowedRequestors qh \<and>
     qh_queryResponseWriteC qh' = qh_queryResponseWriteC qh \<and> qh_pendingQueries qh' = qh_pendingQueries qh"

lemma same_but_channels_refl [simp]: "same_but_channels qh qh"
  by (simp add: same_but_channels_def)

lemma same_but_channels_trans: "same_but_channels a b \<Longrightarrow> same_but_channels b d \<Longrightarrow> same_but_channels a d"
  by (simp add: same_but_channels_def)

lemma forward_same: "ccqForwardToWatcher now q qh = (q', qh') \<Longrightarrow> same_but_channels qh qh'"
  by (auto simp: ccqForwardToWatcher_def same_but_channels_def split: option.splits)

lemma forward_all_same: "forward_all now qs qh = (qs', qh') \<Longrightarrow> same_but_channels qh qh' \<and> length qs' = length qs"
  by (induction qs arbitrary: qh qs' qh')
    (auto simp: Let_def split: prod.splits dest!: forward_same intro: same_but_channels_trans)

lemma retry_same: "retry_queries now qs rs qh = (qs', qh') \<Longrightarrow> same_but_channels qh qh' \<and> length qs' = length qs"
proof (induction now qs rs qh arbitrary: qs' qh' rule: retry_queries.induct)
  case (1 now q qs r rs qh)
  obtain q1 h1 where 1: "(if r = None \<and> pc_lastUpdateTime q + RetryInterval < now then ccqForwardToWatcher now q qh else (q, qh)) = (q1, h1)"
    by fastforce
  obtain qs2 h2 where 2: "retry_queries now qs rs h1 = (qs2, h2)" by fastforce
  have "same_but_channels qh h1"
    using 1 forward_same [of now q qh q1 h1] by (auto split: if_splits)
  moreover have "same_but_channels h1 h2 \<and> length qs2 = length qs"
    using "1.IH" [OF 1 [symmetric] refl 2] by simp
  ultimately show ?case
    using "1.prems" 1 2 by (auto simp: Let_def intro: same_but_channels_trans)
qed auto

lemma build_queries_length: "build_queries qh rid i pcqs = Some qs \<Longrightarrow> length qs = length pcqs"
  by (induction pcqs arbitrary: i qs) (auto split: if_splits option.splits)

section \<open>Sound publications\<close>

definition request_ok :: "crypto \<Rightarrow> query_handler \<Rightarrow> SignedQueryRequest \<Rightarrow> QueryRequest \<Rightarrow> bool" where
  "request_ok c qh sr rq \<longleftrightarrow> (\<exists>a \<in> qh_allowedRequestors qh. recovered_requestor c qh sr = Inr a) \<and>
     QueryRequest_Unmarshal (sqr_QueryRequest sr) = Inr rq \<and> QueryRequest_Validate rq = Inr ()"

text \<open>A watcher's answer to part i of the request rid.\<close>

definition answer_to :: "(PerChainQueryResponseInternal \<Rightarrow> bool) \<Rightarrow> string \<Rightarrow> nat \<Rightarrow> PerChainQueryResponseInternal \<Rightarrow> bool" where
  "answer_to A rid i resp \<longleftrightarrow> A resp \<and> pcri_RequestID resp = rid \<and> pcri_RequestIdx resp = int i \<and>
     pcri_Status resp = QuerySuccess \<and> pcri_Response resp \<noteq> None"

definition sound_pub :: "(SignedQueryRequest \<Rightarrow> bool) \<Rightarrow> (PerChainQueryResponseInternal \<Rightarrow> bool) \<Rightarrow> crypto \<Rightarrow> query_handler \<Rightarrow>
    QueryResponsePublication \<Rightarrow> bool" where
  "sound_pub R A c qh m \<longleftrightarrow> R (qrp_Request m) \<and> (\<exists>rq. request_ok c qh (qrp_Request m) rq \<and>
     length (qrp_PerChainResponses m) = length (qr_PerChainQueries rq)) \<and>
     (\<forall>i < length (qrp_PerChainResponses m). \<exists>resp. answer_to A (request_id c qh (qrp_Request m)) i resp \<and>
        qrp_PerChainResponses m ! i = \<lparr>pcr_ChainId = pcri_ChainId resp, pcr_Response = pcri_Response resp\<rparr>)"

definition pending_ok :: "(SignedQueryRequest \<Rightarrow> bool) \<Rightarrow> (PerChainQueryResponseInternal \<Rightarrow> bool) \<Rightarrow> crypto \<Rightarrow> query_handler \<Rightarrow>
    string \<Rightarrow> pendingQuery \<Rightarrow> bool" where
  "pending_ok R A c qh rid pq \<longleftrightarrow> pq_requestID pq = rid \<and> request_id c qh (pq_signedRequest pq) = rid \<and>
     R (pq_signedRequest pq) \<and> request_ok c qh (pq_signedRequest pq) (pq_request pq) \<and>
     length (pq_queries pq) = length (qr_PerChainQueries (pq_request pq)) \<and>
     length (pq_responses pq) = length (qr_PerChainQueries (pq_request pq)) \<and>
     (\<forall>i resp. i < length (pq_responses pq) \<and> pq_responses pq ! i = Some resp \<longrightarrow> answer_to A rid i resp) \<and>
     (\<forall>m. pq_respPub pq = Some m \<longrightarrow> qrp_Request m = pq_signedRequest pq \<and> sound_pub R A c qh m)"

definition handler_ok :: "(SignedQueryRequest \<Rightarrow> bool) \<Rightarrow> (PerChainQueryResponseInternal \<Rightarrow> bool) \<Rightarrow> crypto \<Rightarrow> query_handler \<Rightarrow> bool" where
  "handler_ok R A c qh \<longleftrightarrow> (\<forall>rid pq. qh_pendingQueries qh rid = Some pq \<longrightarrow> pending_ok R A c qh rid pq) \<and>
     list_all (sound_pub R A c qh) (ch_Items (qh_queryResponseWriteC qh))"

definition same_rules :: "query_handler \<Rightarrow> query_handler \<Rightarrow> bool" where
  "same_rules qh qh' \<longleftrightarrow> qh_env qh' = qh_env qh \<and> qh_allowedRequestors qh' = qh_allowedRequestors qh"

lemma same_rules_simps [simp]:
  "same_rules qh qh"
  "same_rules qh (qh'\<lparr>qh_queryResponseWriteC := ch\<rparr>) = same_rules qh qh'"
  "same_rules qh (qh'\<lparr>qh_chainQueryReqC := f\<rparr>) = same_rules qh qh'"
  "same_rules qh (store_query pq qh') = same_rules qh qh'"
  "same_rules qh (delete_pending rid qh') = same_rules qh qh'"
  by (simp_all add: same_rules_def store_query_def delete_pending_def)

lemma same_rules_trans: "same_rules a b \<Longrightarrow> same_rules b d \<Longrightarrow> same_rules a d"
  by (simp add: same_rules_def)

lemma rules_cong:
  assumes "same_rules qh qh'"
  shows "request_id c qh' sr = request_id c qh sr" "recovered_requestor c qh' sr = recovered_requestor c qh sr"
    "request_ok c qh' sr rq = request_ok c qh sr rq" "sound_pub R A c qh' m = sound_pub R A c qh m"
    "pending_ok R A c qh' rid pq = pending_ok R A c qh rid pq"
proof -
  show id: "request_id c qh' sr = request_id c qh sr" "recovered_requestor c qh' sr = recovered_requestor c qh sr" for sr
    using assms by (simp_all add: same_rules_def request_id_def request_digest_def recovered_requestor_def)
  show ok: "request_ok c qh' sr rq = request_ok c qh sr rq" for sr rq
    using assms by (simp add: request_ok_def id same_rules_def)
  show sound: "sound_pub R A c qh' m = sound_pub R A c qh m" for m
    by (simp add: sound_pub_def id ok)
  show "pending_ok R A c qh' rid pq = pending_ok R A c qh rid pq"
    by (simp add: pending_ok_def id ok sound)
qed

lemma channels_rules: "same_but_channels qh qh' \<Longrightarrow> same_rules qh qh'"
  by (simp add: same_but_channels_def same_rules_def)

lemma handler_ok_rules:
  assumes "same_rules qh qh'"
  shows "handler_ok R A c qh' \<longleftrightarrow> (\<forall>rid pq. qh_pendingQueries qh' rid = Some pq \<longrightarrow> pending_ok R A c qh rid pq) \<and>
     (\<forall>m \<in> set (ch_Items (qh_queryResponseWriteC qh')). sound_pub R A c qh m)"
  by (simp add: handler_ok_def list_all_iff rules_cong [OF assms])

lemma handler_ok_channels: "handler_ok R A c qh \<Longrightarrow> same_but_channels qh qh' \<Longrightarrow> handler_ok R A c qh'"
  using handler_ok_rules [OF channels_rules, of qh qh'] by (simp add: handler_ok_def same_but_channels_def list_all_iff)

lemma handler_ok_put: "handler_ok R A c qh \<Longrightarrow> pending_ok R A c qh (pq_requestID pq) pq \<Longrightarrow> handler_ok R A c (store_query pq qh)"
  using handler_ok_rules [of qh "store_query pq qh"] by (simp add: handler_ok_def list_all_iff) (simp add: store_query_def)

lemma handler_ok_delete: "handler_ok R A c qh \<Longrightarrow> handler_ok R A c (delete_pending rid qh)"
  using handler_ok_rules [of qh "delete_pending rid qh"] by (simp add: handler_ok_def list_all_iff) (simp add: delete_pending_def)

lemma handler_ok_send:
  "handler_ok R A c qh \<Longrightarrow> sound_pub R A c qh m \<Longrightarrow>
   handler_ok R A c (qh\<lparr>qh_queryResponseWriteC := chan_send m (qh_queryResponseWriteC qh)\<rparr>)"
  using handler_ok_rules [of qh "qh\<lparr>qh_queryResponseWriteC := chan_send m (qh_queryResponseWriteC qh)\<rparr>"]
  by (auto simp: handler_ok_def list_all_iff)

lemma handler_ok_mono:
  assumes "handler_ok R A c qh" and "\<And>x. R x \<Longrightarrow> R' x" and "\<And>x. A x \<Longrightarrow> A' x"
  shows "handler_ok R' A' c qh"
proof -
  have sound: "sound_pub R A c qh m \<Longrightarrow> sound_pub R' A' c qh m" for m
    using assms(2,3) unfolding sound_pub_def answer_to_def by blast
  have "pending_ok R A c qh rid pq \<Longrightarrow> pending_ok R' A' c qh rid pq" for rid pq
    using assms(2,3) sound unfolding pending_ok_def answer_to_def by blast
  then show ?thesis
    using assms(1) sound by (auto simp: handler_ok_def list_all_iff)
qed

lemma handle_request_rules: "same_rules qh (handle_request c now sr qh)"
proof -
  have "same_rules qh qh1" if "forward_all now qs qh = (qs1, qh1)" for qs qs1 qh1
    using forward_all_same [OF that] channels_rules by blast
  then show ?thesis
    by (simp add: handle_request_def Let_def split: sum.split option.split prod.split)
qed

lemma handle_request_ok:
  assumes ok: "handler_ok R A c qh" and sr: "R sr"
  shows "handler_ok R A c (handle_request c now sr qh)"
proof -
  have step: "handler_ok R A c (store_query \<lparr>pq_signedRequest = sr, pq_request = rq, pq_requestID = request_id c qh sr,
      pq_receiveTime = now, pq_queries = qs1, pq_responses = replicate (length (qr_PerChainQueries rq)) None, pq_respPub = None\<rparr> qh1)"
    if "recovered_requestor c qh sr = Inr a" "a \<in> qh_allowedRequestors qh" "QueryRequest_Unmarshal (sqr_QueryRequest sr) = Inr rq"
      "QueryRequest_Validate rq = Inr ()" "build_queries qh (request_id c qh sr) 0 (qr_PerChainQueries rq) = Some qs"
      "forward_all now qs qh = (qs1, qh1)" for a rq qs qs1 qh1
  proof -
    have same: "same_but_channels qh qh1" "length qs1 = length (qr_PerChainQueries rq)"
      using forward_all_same [OF that(6)] build_queries_length [OF that(5)] by simp_all
    have "request_ok c qh sr rq"
      using that by (auto simp: request_ok_def)
    then show ?thesis
      using same sr handler_ok_channels [OF ok same(1)]
      by (intro handler_ok_put) (auto simp: pending_ok_def rules_cong [OF channels_rules [OF same(1)]])
  qed
  then show ?thesis
    using ok by (auto simp: handle_request_def Let_def split: sum.split option.split prod.split)
qed

lemma map_err_response_pub:
  "map_err response_pub rs = Inr ps \<longleftrightarrow> list_all2 (\<lambda>r p. \<exists>resp. r = Some resp \<and>
     p = \<lparr>pcr_ChainId = pcri_ChainId resp, pcr_Response = pcri_Response resp\<rparr>) rs ps"
  unfolding map_err_eq_Inr response_pub_def
  by (rule arg_cong [of _ _ "\<lambda>P. list_all2 P rs ps"]) (auto simp: fun_eq_iff split: option.split)

lemma publish_response_ok:
  assumes "handler_ok R A c qh" and "pending_ok R A c qh (pq_requestID pq) pq"
    and "qrp_Request m = pq_signedRequest pq" and "sound_pub R A c qh m"
  shows "handler_ok R A c (publish_response m pq qh)"
proof -
  have "handler_ok R A c (store_query (pq\<lparr>pq_respPub := Some m\<rparr>) qh)"
    using assms by (intro handler_ok_put) (simp_all add: pending_ok_def)
  then show ?thesis
    using assms(1,4) by (auto simp: publish_response_def try_send_def intro!: handler_ok_delete handler_ok_send)
qed

lemma handle_response_kept:
  assumes ok: "handler_ok R A c qh" and A: "A resp" and step: "handle_query_response resp qh = Inr qh'"
  shows "handler_ok R A c qh'"
proof (cases "pcri_Status resp = QuerySuccess \<and> pcri_Response resp \<noteq> None \<and> (\<exists>pq. qh_pendingQueries qh (pcri_RequestID resp) = Some pq \<and>
    pcri_RequestIdx resp < int (length (pq_responses pq)))")
  case False
  then show ?thesis
    using ok step by (auto simp: handle_query_response_def split: if_splits option.splits intro: handler_ok_delete)
next
  case True
  then obtain pq where pq: "qh_pendingQueries qh (pcri_RequestID resp) = Some pq" "pcri_RequestIdx resp < int (length (pq_responses pq))"
    and s: "pcri_Status resp = QuerySuccess" "pcri_Response resp \<noteq> None" by blast
  let ?i = "nat (pcri_RequestIdx resp)"
  let ?pq = "pq\<lparr>pq_responses := (pq_responses pq)[?i := Some resp]\<rparr>"
  have idx: "0 \<le> pcri_RequestIdx resp"
    using step pq s by (auto simp: handle_query_response_def split: if_splits)
  have old: "pending_ok R A c qh (pcri_RequestID resp) pq"
    using ok pq(1) by (simp add: handler_ok_def)
  have "answer_to A (pcri_RequestID resp) j r" if "j < length (pq_responses pq)" "(pq_responses pq)[?i := Some resp] ! j = Some r" for j r
  proof (cases "j = ?i")
    case True
    then show ?thesis
      using that A s idx by (simp add: answer_to_def)
  next
    case False
    then show ?thesis
      using that old by (simp add: pending_ok_def)
  qed
  then have new: "pending_ok R A c qh (pcri_RequestID resp) ?pq"
    using old by (simp add: pending_ok_def)
  have id: "pq_requestID ?pq = pcri_RequestID resp"
    using old by (simp add: pending_ok_def)
  show ?thesis
  proof (cases "0 < numPendingRequests ?pq")
    case True
    then have "qh' = store_query ?pq qh"
      using step pq s idx by (simp add: handle_query_response_def Let_def)
    then show ?thesis
      using handler_ok_put [OF ok, of ?pq] new id by simp
  next
    case False
    then obtain ps where ps: "map_err response_pub (pq_responses ?pq) = Inr ps"
        "qh' = publish_response \<lparr>qrp_Request = pq_signedRequest ?pq, qrp_PerChainResponses = ps\<rparr> ?pq qh"
      using step pq s idx by (auto simp: handle_query_response_def Let_def chk_eq_Inr)
    have all: "length ps = length (pq_responses ?pq)" "\<forall>i < length ps. \<exists>r. pq_responses ?pq ! i = Some r \<and>
        ps ! i = \<lparr>pcr_ChainId = pcri_ChainId r, pcr_Response = pcri_Response r\<rparr>"
      using ps(1) unfolding map_err_response_pub list_all2_conv_all_nth by auto
    have "sound_pub R A c qh \<lparr>qrp_Request = pq_signedRequest ?pq, qrp_PerChainResponses = ps\<rparr>"
      using new all unfolding sound_pub_def pending_ok_def by (auto; metis)
    then show ?thesis
      using publish_response_ok [OF ok, of ?pq] new id ps(2) by simp
  qed
qed

lemma publish_response_rules: "same_rules qh (publish_response m pq qh)"
  by (auto simp: publish_response_def split: prod.split bool.split)

lemma handle_response_rules: "handle_query_response resp qh = Inr qh' \<Longrightarrow> same_rules qh qh'"
  by (auto simp: handle_query_response_def Let_def chk_eq_Inr publish_response_rules split: if_splits option.splits)

lemma audit_query_cases:
  obtains (none) "qh_pendingQueries qh rid = None" "audit_query now rid qh = qh"
  | (old) pq where "qh_pendingQueries qh rid = Some pq" "pq_receiveTime pq + RequestTimeout < now"
      "audit_query now rid qh = delete_pending rid qh"
  | (sent) pq m where "qh_pendingQueries qh rid = Some pq" "pq_respPub pq = Some m"
      "audit_query now rid qh = delete_pending rid (qh\<lparr>qh_queryResponseWriteC := chan_send m (qh_queryResponseWriteC qh)\<rparr>)"
  | (full) pq m where "qh_pendingQueries qh rid = Some pq" "now \<le> pq_receiveTime pq + RequestTimeout" "pq_respPub pq = Some m"
      "audit_query now rid qh = qh"
  | (retry) pq qs qh1 where "qh_pendingQueries qh rid = Some pq" "now \<le> pq_receiveTime pq + RequestTimeout" "pq_respPub pq = None"
      "retry_queries now (pq_queries pq) (pq_responses pq) qh = (qs, qh1)"
      "audit_query now rid qh = store_query (pq\<lparr>pq_queries := qs\<rparr>) qh1"
proof (cases "qh_pendingQueries qh rid")
  case None
  then show ?thesis
    using none by (simp add: audit_query_def)
next
  case (Some pq)
  show ?thesis
  proof (cases "pq_receiveTime pq + RequestTimeout < now")
    case True
    then show ?thesis
      using old Some by (simp add: audit_query_def)
  next
    case False
    show ?thesis
    proof (cases "pq_respPub pq")
      case None
      obtain qs qh1 where "retry_queries now (pq_queries pq) (pq_responses pq) qh = (qs, qh1)" by fastforce
      then show ?thesis
        using retry Some False None by (simp add: audit_query_def)
    next
      case m: (Some m)
      show ?thesis
      proof (cases "length (ch_Items (qh_queryResponseWriteC qh)) < ch_Cap (qh_queryResponseWriteC qh)")
        case True
        then have "audit_query now rid qh =
            delete_pending rid (qh\<lparr>qh_queryResponseWriteC := chan_send m (qh_queryResponseWriteC qh)\<rparr>)"
          using Some m False by (simp add: audit_query_def try_send_def)
        then show ?thesis
          by (rule sent [OF Some m])
      next
        case False
        then have "audit_query now rid qh = qh"
          using Some m \<open>\<not> pq_receiveTime pq + RequestTimeout < now\<close> by (simp add: audit_query_def try_send_def)
        then show ?thesis
          using full [OF Some _ m] \<open>\<not> pq_receiveTime pq + RequestTimeout < now\<close> by simp
      qed
    qed
  qed
qed

lemma audit_query_ok:
  assumes ok: "handler_ok R A c qh"
  shows "handler_ok R A c (audit_query now rid qh) \<and> same_rules qh (audit_query now rid qh)"
proof (cases rule: audit_query_cases [of qh rid now])
  case (sent pq m)
  have "sound_pub R A c qh m"
    using ok sent(1,2) by (auto simp: handler_ok_def pending_ok_def)
  then show ?thesis
    using ok sent(3) by (simp add: handler_ok_delete handler_ok_send)
next
  case (retry pq qs qh1)
  have same: "same_but_channels qh qh1" "length qs = length (pq_queries pq)"
    using retry_same [OF retry(4)] by simp_all
  have "pending_ok R A c qh (pq_requestID pq) (pq\<lparr>pq_queries := qs\<rparr>)"
    using ok retry(1) same(2) by (auto simp: handler_ok_def pending_ok_def)
  then show ?thesis
    using handler_ok_put [OF handler_ok_channels [OF ok same(1)], of "pq\<lparr>pq_queries := qs\<rparr>"]
      rules_cong [OF channels_rules [OF same(1)]] channels_rules [OF same(1)] retry(5) by simp
qed (use ok in \<open>auto intro: handler_ok_delete\<close>)

lemma audit_ok: "handler_ok R A c qh \<Longrightarrow> handler_ok R A c (audit now rids qh) \<and> same_rules qh (audit now rids qh)"
proof (induction rids arbitrary: qh)
  case (Cons r rids)
  then show ?case
    using audit_query_ok [OF Cons.prems, of now r] same_rules_trans by (simp add: audit_def) blast
qed (simp add: audit_def)

section \<open>Counting publications\<close>

text \<open>How many publications for the request rid are on their way or may still come.\<close>

definition to_come :: "crypto \<Rightarrow> query_handler \<Rightarrow> string \<Rightarrow> nat" where
  "to_come c qh rid = count_list (map (\<lambda>m. request_id c qh (qrp_Request m)) (ch_Items (qh_queryResponseWriteC qh))) rid +
     (if qh_pendingQueries qh rid = None then 0 else 1)"

lemma to_come_channels:
  assumes "same_but_channels qh qh'"
  shows "to_come c qh' rid = to_come c qh rid"
  using assms unfolding to_come_def rules_cong(1) [OF channels_rules [OF assms]] by (simp add: same_but_channels_def)

lemma to_come_put: "to_come c (store_query pq qh) rid = (if rid = pq_requestID pq \<and> qh_pendingQueries qh rid = None then Suc (to_come c qh rid) else to_come c qh rid)"
  using rules_cong(1) [of qh "store_query pq qh" c] by (simp add: to_come_def) (simp add: store_query_def)

lemma to_come_delete: "to_come c (delete_pending r qh) rid \<le> to_come c qh rid"
  using rules_cong(1) [of qh "delete_pending r qh" c] by (simp add: to_come_def) (simp add: delete_pending_def)

lemma to_come_send:
  assumes "qh_pendingQueries qh r = Some pq" and "request_id c qh (qrp_Request m) = r"
  shows "to_come c (delete_pending r (qh\<lparr>qh_queryResponseWriteC := chan_send m (qh_queryResponseWriteC qh)\<rparr>)) rid = to_come c qh rid"
proof -
  let ?qh = "delete_pending r (qh\<lparr>qh_queryResponseWriteC := chan_send m (qh_queryResponseWriteC qh)\<rparr>)"
  have "request_id c ?qh sr = request_id c qh sr" for sr
    by (rule rules_cong) simp
  then show ?thesis
    using assms by (simp add: to_come_def) (simp add: delete_pending_def)
qed

lemma handle_request_cases:
  obtains (same) "handle_request c now sr qh = qh"
  | (accepted) qs qs1 qh1 pq where "forward_all now qs qh = (qs1, qh1)" "pq_requestID pq = request_id c qh sr"
      "handle_request c now sr qh = store_query pq qh1"
proof -
  have "handle_request c now sr qh = qh \<or> (\<exists>qs qs1 qh1 pq. forward_all now qs qh = (qs1, qh1) \<and>
      pq_requestID pq = request_id c qh sr \<and> handle_request c now sr qh = store_query pq qh1)"
    by (auto simp: handle_request_def Let_def split: sum.split option.split prod.split) (metis pendingQuery.select_convs(3))
  then show ?thesis
    using that by blast
qed

lemma handle_request_to_come:
  "to_come c (handle_request c now sr qh) rid \<le> to_come c qh rid + (if rid = request_id c qh sr then 1 else 0)"
proof (cases rule: handle_request_cases [of c now sr qh])
  case (accepted qs qs1 qh1 pq)
  have "to_come c qh1 r = to_come c qh r" for r
    using to_come_channels forward_all_same [OF accepted(1)] by blast
  then show ?thesis
    using accepted(2,3) by (simp add: to_come_put)
qed simp

lemma publish_response_to_come:
  assumes "qh_pendingQueries qh (pq_requestID pq) = Some old" and "request_id c qh (qrp_Request m) = pq_requestID pq"
  shows "to_come c (publish_response m pq qh) rid \<le> to_come c qh rid"
  using to_come_send [OF assms] assms(1) by (auto simp: publish_response_def try_send_def to_come_put)

lemma handle_response_to_come:
  assumes ok: "handler_ok R A c qh" and step: "handle_query_response resp qh = Inr qh'"
  shows "to_come c qh' rid \<le> to_come c qh rid"
proof -
  have id: "pq_requestID pq = pcri_RequestID resp" "request_id c qh (pq_signedRequest pq) = pcri_RequestID resp"
    if "qh_pendingQueries qh (pcri_RequestID resp) = Some pq" for pq
    using ok that by (auto simp: handler_ok_def pending_ok_def)
  show ?thesis
    using step id
    by (auto simp: handle_query_response_def Let_def chk_eq_Inr to_come_put to_come_delete split: if_splits option.splits
        intro!: publish_response_to_come)
qed

lemma audit_query_to_come:
  assumes ok: "handler_ok R A c qh"
  shows "to_come c (audit_query now r qh) rid \<le> to_come c qh rid"
proof (cases rule: audit_query_cases [of qh r now])
  case (sent pq m)
  have "request_id c qh (qrp_Request m) = r"
    using ok sent(1,2) by (auto simp: handler_ok_def pending_ok_def)
  then show ?thesis
    using to_come_send [OF sent(1)] sent(3) by simp
next
  case (retry pq qs qh1)
  have same: "same_but_channels qh qh1" "pq_requestID pq = r"
    using retry_same [OF retry(4)] ok retry(1) by (auto simp: handler_ok_def pending_ok_def)
  then have "qh_pendingQueries qh1 r = Some pq"
    using retry(1) by (simp add: same_but_channels_def)
  then show ?thesis
    using same(2) unfolding retry(5) to_come_put to_come_channels [OF same(1)] by simp
qed (simp_all add: to_come_delete)

lemma audit_to_come: "handler_ok R A c qh \<Longrightarrow> to_come c (audit now rids qh) rid \<le> to_come c qh rid"
proof (induction rids arbitrary: qh)
  case (Cons r rids)
  then show ?case
    using audit_query_to_come [OF Cons.prems, of now r rid] Cons.IH [OF conjunct1 [OF audit_query_ok [OF Cons.prems, of now r]]]
    by (simp add: audit_def)
qed (simp add: audit_def)

section \<open>Runs\<close>

definition gossiped :: "(ccq_event \<times> ccq_node) list \<Rightarrow> SignedQueryRequest \<Rightarrow> bool" where
  "gossiped tr sr \<longleftrightarrow> (\<exists>from. Gossip_Request from sr \<in> fst ` set tr)"

definition answered :: "(ccq_event \<times> ccq_node) list \<Rightarrow> PerChainQueryResponseInternal \<Rightarrow> bool" where
  "answered tr resp \<longleftrightarrow> Watcher_Answers resp \<in> fst ` set tr"

text \<open>The requests that the handler has taken from its channel, in order.\<close>

definition handled :: "(ccq_event \<times> ccq_node) list \<Rightarrow> SignedQueryRequest list" where
  "handled tr = List.map_filter (\<lambda>(ev, n). case ev of Handle_Request _ \<Rightarrow> Some (hd (ch_Items (cn_signedQueryReqC n))) | _ \<Rightarrow> None) tr"

definition signed_from :: "crypto \<Rightarrow> byte list \<Rightarrow> QueryResponsePublication list \<Rightarrow> SignedQueryResponse \<Rightarrow> bool" where
  "signed_from c signing_key ms s \<longleftrightarrow> (\<exists>m \<in> set ms. signed_response c signing_key m = Inr (Some s))"

definition ccq_inv :: "crypto \<Rightarrow> byte list \<Rightarrow> query_handler \<Rightarrow> (ccq_event \<times> ccq_node) list \<Rightarrow> ccq_node \<Rightarrow> bool" where
  "ccq_inv c signing_key qh0 tr n \<longleftrightarrow> same_rules qh0 (cn_handler n) \<and>
     handler_ok (gossiped tr) (answered tr) c (cn_handler n) \<and>
     list_all (gossiped tr) (ch_Items (cn_signedQueryReqC n)) \<and>
     list_all (sound_pub (gossiped tr) (answered tr) c qh0) (cn_taken n) \<and>
     list_all (signed_from c signing_key (cn_taken n)) (cn_sent n) \<and>
     (\<forall>rid. count_list (map (\<lambda>m. request_id c qh0 (qrp_Request m)) (cn_taken n)) rid + to_come c (cn_handler n) rid
        \<le> count_list (map (request_id c qh0) (handled tr)) rid)"

lemma gossiped_snoc: "gossiped (tr @ [(ev, n)]) sr \<longleftrightarrow> gossiped tr sr \<or> (\<exists>from. ev = Gossip_Request from sr)"
  by (auto simp: gossiped_def)

lemma answered_snoc: "answered (tr @ [(ev, n)]) resp \<longleftrightarrow> answered tr resp \<or> ev = Watcher_Answers resp"
  by (auto simp: answered_def)

lemma handled_snoc: "handled (tr @ [(ev, n)]) =
    handled tr @ (case ev of Handle_Request _ \<Rightarrow> [hd (ch_Items (cn_signedQueryReqC n))] | _ \<Rightarrow> [])"
  by (simp add: handled_def List.map_filter_def split: ccq_event.split)

lemma sound_pub_mono:
  "sound_pub R A c qh m \<Longrightarrow> (\<And>x. R x \<Longrightarrow> R' x) \<Longrightarrow> (\<And>x. A x \<Longrightarrow> A' x) \<Longrightarrow> sound_pub R' A' c qh m"
  unfolding sound_pub_def answer_to_def by blast

text \<open>Everything of the invariant but the handler grows with the trace.\<close>

lemma ccq_inv_longer:
  assumes "ccq_inv c signing_key qh0 tr n"
  shows "ccq_inv c signing_key qh0 (tr @ [(ev, m)]) n"
proof -
  let ?tr = "tr @ [(ev, m)]"
  have mono: "gossiped tr x \<Longrightarrow> gossiped ?tr x" "answered tr y \<Longrightarrow> answered ?tr y" for x y
    by (simp_all add: gossiped_snoc answered_snoc)
  have "handler_ok (gossiped tr) (answered tr) c (cn_handler n)"
    using assms by (simp add: ccq_inv_def)
  then have "handler_ok (gossiped ?tr) (answered ?tr) c (cn_handler n)"
    by (rule handler_ok_mono) (simp_all add: mono)
  moreover have "sound_pub (gossiped ?tr) (answered ?tr) c qh0 m" if "sound_pub (gossiped tr) (answered tr) c qh0 m" for m
    using that by (rule sound_pub_mono) (simp_all add: mono)
  then have "list_all (sound_pub (gossiped ?tr) (answered ?tr) c qh0) (cn_taken n)"
    using assms by (auto simp: ccq_inv_def list_all_iff)
  moreover have "list_all (gossiped ?tr) (ch_Items (cn_signedQueryReqC n))"
    using assms mono(1) by (auto simp: ccq_inv_def list_all_iff)
  moreover have "count_list (map (\<lambda>m. request_id c qh0 (qrp_Request m)) (cn_taken n)) rid + to_come c (cn_handler n) rid
      \<le> count_list (map (request_id c qh0) (handled ?tr)) rid" for rid
    using assms by (auto simp: ccq_inv_def handled_snoc intro: trans_le_add1)
  ultimately show ?thesis
    using assms by (simp add: ccq_inv_def)
qed

lemma ccq_inv_handler:
  assumes "ccq_inv c signing_key qh0 tr n" and "same_rules (cn_handler n) qh" and "handler_ok (gossiped tr) (answered tr) c qh"
    and "\<And>rid. to_come c qh rid \<le> to_come c (cn_handler n) rid"
  shows "ccq_inv c signing_key qh0 tr (n\<lparr>cn_handler := qh\<rparr>)"
proof -
  have "count_list (map (\<lambda>m. request_id c qh0 (qrp_Request m)) (cn_taken n)) rid + to_come c qh rid
      \<le> count_list (map (request_id c qh0) (handled tr)) rid" for rid
    using assms(1) assms(4) [of rid] unfolding ccq_inv_def by (meson add_left_mono le_trans)
  moreover have "same_rules qh0 qh"
    using assms(1,2) same_rules_trans unfolding ccq_inv_def by blast
  ultimately show ?thesis
    using assms(1,3) by (simp add: ccq_inv_def)
qed

lemma ccq_inv_step:
  assumes inv: "ccq_inv c signing_key qh0 tr n" and step: "ccq_step c signing_key ev n n'"
  shows "ccq_inv c signing_key qh0 (tr @ [(ev, n)]) n'"
proof -
  let ?tr = "tr @ [(ev, n)]"
  have later: "ccq_inv c signing_key qh0 ?tr n"
    using ccq_inv_longer [OF inv] .
  then have ok: "handler_ok (gossiped ?tr) (answered ?tr) c (cn_handler n)"
    by (simp add: ccq_inv_def)
  have rules: "same_rules qh0 (cn_handler n)"
    using inv by (simp add: ccq_inv_def)
  from step show ?thesis
  proof cases
    case (gossip peer sr)
    then have "gossiped ?tr sr"
      by (auto simp: gossiped_def)
    then show ?thesis
      using later gossip(2) by (simp add: ccq_inv_def try_send_def)
  next
    case (handle sr rest now)
    let ?h = "handle_request c now sr (cn_handler n)"
    have sr: "gossiped ?tr sr" "list_all (gossiped ?tr) rest"
      using later handle(3) by (simp_all add: ccq_inv_def)
    have "count_list (map (\<lambda>m. request_id c qh0 (qrp_Request m)) (cn_taken n)) rid + to_come c ?h rid
      \<le> count_list (map (request_id c qh0) (handled ?tr)) rid" for rid
      using inv handle_request_to_come [of c now sr "cn_handler n" rid] rules_cong(1) [OF rules, of c sr]
      by (auto simp: ccq_inv_def handled_snoc handle intro: order_trans add_le_mono)
    moreover have "same_rules qh0 ?h"
      using rules handle_request_rules same_rules_trans by blast
    ultimately show ?thesis
      using later handle_request_ok [OF ok sr(1)] sr(2) handle(2) by (simp add: ccq_inv_def)
  next
    case (watcher chain ch q rest)
    let ?h = "(cn_handler n)\<lparr>qh_chainQueryReqC := (qh_chainQueryReqC (cn_handler n))(chain \<mapsto> ch\<lparr>ch_Items := rest\<rparr>)\<rparr>"
    have same: "same_but_channels (cn_handler n) ?h"
      by (simp add: same_but_channels_def)
    show ?thesis
      using ccq_inv_handler [OF later _ handler_ok_channels [OF ok same]] watcher(2) channels_rules [OF same] to_come_channels [OF same] by simp
  next
    case (answer resp qh)
    have "answered ?tr resp"
      by (simp add: answered_snoc answer)
    then show ?thesis
      using ccq_inv_handler [OF later handle_response_rules [OF answer(3)] handle_response_kept [OF ok _ answer(3)]]
        handle_response_to_come [OF ok answer(3)] answer(2) by simp
  next
    case (tick reqIds now)
    show ?thesis
      using ccq_inv_handler [OF later, of "audit now reqIds (cn_handler n)"] audit_ok [OF ok] audit_to_come [OF ok] tick(2) by simp
  next
    case (publish msg rest r ok)
    let ?h = "(cn_handler n)\<lparr>qh_queryResponseWriteC := (qh_queryResponseWriteC (cn_handler n))\<lparr>ch_Items := rest\<rparr>\<rparr>"
    have same: "same_rules (cn_handler n) ?h" by simp
    have h: "handler_ok (gossiped ?tr) (answered ?tr) c ?h" "sound_pub (gossiped ?tr) (answered ?tr) c (cn_handler n) msg"
      unfolding handler_ok_rules [OF same]
      using \<open>handler_ok (gossiped ?tr) (answered ?tr) c (cn_handler n)\<close> publish(3)
      by (simp_all add: handler_ok_def list_all_iff)
    have id: "request_id c (cn_handler n) sr = request_id c qh0 sr" for sr
      by (rule rules_cong(1) [OF rules])
    have tc: "to_come c (cn_handler n) rid = to_come c ?h rid + (if request_id c qh0 (qrp_Request msg) = rid then 1 else 0)" for rid
      using publish(3) rules_cong(1) [OF same, of c] by (simp add: to_come_def id)
    have old: "count_list (map (\<lambda>m. request_id c qh0 (qrp_Request m)) (cn_taken n)) rid + to_come c (cn_handler n) rid
        \<le> count_list (map (request_id c qh0) (handled ?tr)) rid" for rid
      using later by (simp add: ccq_inv_def)
    have count: "count_list (map (\<lambda>m. request_id c qh0 (qrp_Request m)) (cn_taken n @ [msg])) rid + to_come c ?h rid
        \<le> count_list (map (request_id c qh0) (handled ?tr)) rid" for rid
      using old [of rid] tc [of rid] by (simp split: if_splits)
    have "list_all (signed_from c signing_key (cn_taken n @ [msg])) (cn_sent n @ (case r of Some s \<Rightarrow> if ok then [s] else [] | None \<Rightarrow> []))"
      using later publish(4) by (auto simp: ccq_inv_def list_all_iff signed_from_def split: option.splits)
    moreover have "list_all (sound_pub (gossiped ?tr) (answered ?tr) c qh0) (cn_taken n @ [msg])"
      using later h(2) rules_cong(4) [OF rules] by (simp add: ccq_inv_def)
    moreover have "same_rules qh0 ?h"
      using rules same same_rules_trans by blast
    ultimately show ?thesis
      using later h(1) count publish(2) by (simp add: ccq_inv_def)
  qed
qed

interpretation ccq: trace_invariant "fresh_ccq qh0" "ccq_step c signing_key" "\<lambda>_. True" "ccq_inv c signing_key qh0"
  for c signing_key qh0
proof unfold_locales
  fix n
  assume n: "fresh_ccq qh0 n"
  have "handler_ok (gossiped []) (answered []) c qh0" "to_come c qh0 rid = 0" for rid
    using n by (simp_all add: fresh_ccq_def handler_ok_def to_come_def)
  then show "ccq_inv c signing_key qh0 [] n"
    using n by (simp add: fresh_ccq_def ccq_inv_def handled_def)
qed (rule ccq_inv_step)

text \<open>The checks of Marshal, and the signature.\<close>

lemma signed_response_Some:
  assumes "signed_response c signing_key m = Inr (Some s)"
  shows "Publication_Marshal m = Inr (sqp_QueryResponse s)" "Publication_Validate m = Inr ()"
    "Sign c (GetQueryResponseDigestFromBytes c (sqp_QueryResponse s)) signing_key = Inr (sqp_Signature s)"
  using assms by (auto simp: signed_response_def Publication_Marshal_def chk_eq_Inr split: sum.splits)

text \<open>
  C4. What a guardian signs for a query. In every run of the handler with its watchers and p2p, each signed
  response carries a request that gossip brought and that an allowed requestor signed, decodes and is valid;
  it has one part for each query of the request, and part i is the answer, of the kind that the query asks
  for and with its chain, that a watcher has given to part i of this very request.
\<close>

theorem signed_responses_sound:
  assumes "trace_run (fresh_ccq qh0) (ccq_step c signing_key) tr n" and "s \<in> set (cn_sent n)"
  shows "\<exists>m rq a. Publication_Marshal m = Inr (sqp_QueryResponse s) \<and>
    Sign c (GetQueryResponseDigestFromBytes c (sqp_QueryResponse s)) signing_key = Inr (sqp_Signature s) \<and>
    gossiped tr (qrp_Request m) \<and> recovered_requestor c qh0 (qrp_Request m) = Inr a \<and> a \<in> qh_allowedRequestors qh0 \<and>
    QueryRequest_Unmarshal (sqr_QueryRequest (qrp_Request m)) = Inr rq \<and> QueryRequest_Validate rq = Inr () \<and>
    length (qrp_PerChainResponses m) = length (qr_PerChainQueries rq) \<and>
    (\<forall>i < length (qr_PerChainQueries rq). \<exists>resp r q.
       answered tr resp \<and> pcri_RequestID resp = request_id c qh0 (qrp_Request m) \<and> pcri_RequestIdx resp = int i \<and>
       pcri_Response resp = Some r \<and> pcq_Query (qr_PerChainQueries rq ! i) = Some q \<and> Response_Type r = Query_Type q \<and>
       qrp_PerChainResponses m ! i = \<lparr>pcr_ChainId = pcri_ChainId resp, pcr_Response = Some r\<rparr>)"
proof -
  have inv: "ccq_inv c signing_key qh0 tr n"
    using ccq.run_inv [OF assms(1)] by simp
  then obtain m where m: "m \<in> set (cn_taken n)" "signed_response c signing_key m = Inr (Some s)"
    using assms(2) by (auto simp: ccq_inv_def list_all_iff signed_from_def)
  have sound: "sound_pub (gossiped tr) (answered tr) c qh0 m"
    using inv m(1) by (auto simp: ccq_inv_def list_all_iff)
  then obtain rq a where rq: "QueryRequest_Unmarshal (sqr_QueryRequest (qrp_Request m)) = Inr rq" "QueryRequest_Validate rq = Inr ()"
    "length (qrp_PerChainResponses m) = length (qr_PerChainQueries rq)" "recovered_requestor c qh0 (qrp_Request m) = Inr a"
    "a \<in> qh_allowedRequestors qh0" "gossiped tr (qrp_Request m)"
    by (auto simp: sound_pub_def request_ok_def)
  have kinds: "list_all2 (\<lambda>p q. check_answer (p, q) = Inr ()) (qrp_PerChainResponses m) (qr_PerChainQueries rq)"
    using signed_response_Some(2) [OF m(2)] rq(1) by (auto simp: Publication_Validate_iff)
  have "\<exists>resp r q. answered tr resp \<and> pcri_RequestID resp = request_id c qh0 (qrp_Request m) \<and> pcri_RequestIdx resp = int i \<and>
      pcri_Response resp = Some r \<and> pcq_Query (qr_PerChainQueries rq ! i) = Some q \<and> Response_Type r = Query_Type q \<and>
      qrp_PerChainResponses m ! i = \<lparr>pcr_ChainId = pcri_ChainId resp, pcr_Response = Some r\<rparr>" if i: "i < length (qr_PerChainQueries rq)" for i
  proof -
    obtain resp where resp: "answer_to (answered tr) (request_id c qh0 (qrp_Request m)) i resp"
      "qrp_PerChainResponses m ! i = \<lparr>pcr_ChainId = pcri_ChainId resp, pcr_Response = pcri_Response resp\<rparr>"
      using sound i rq(3) by (auto simp: sound_pub_def)
    moreover have "check_answer (qrp_PerChainResponses m ! i, qr_PerChainQueries rq ! i) = Inr ()"
      using kinds i rq(3) by (auto simp: list_all2_conv_all_nth)
    ultimately show ?thesis
      by (auto simp: answer_to_def check_answer_iff)
  qed
  then show ?thesis
    using rq signed_response_Some(1,3) [OF m(2)] by blast
qed

text \<open>
  C18. At most one answer. In every run, for each request, by its identifier of signature and digest, the
  publications that the handler has handed over, with those that wait in the channel, are no more than the
  copies of the request that it took from gossip: repeated answers of watchers and retries publish nothing
  twice.
\<close>

theorem one_publication_per_request:
  assumes "trace_run (fresh_ccq qh0) (ccq_step c signing_key) tr n"
  shows "count_list (map (\<lambda>m. request_id c qh0 (qrp_Request m)) (cn_taken n @ ch_Items (qh_queryResponseWriteC (cn_handler n)))) rid
    \<le> count_list (map (request_id c qh0) (handled tr)) rid"
proof -
  have inv: "ccq_inv c signing_key qh0 tr n"
    using ccq.run_inv [OF assms] by simp
  then have "request_id c (cn_handler n) sr = request_id c qh0 sr" for sr
    by (intro rules_cong) (simp add: ccq_inv_def)
  then have "count_list (map (\<lambda>m. request_id c qh0 (qrp_Request m)) (ch_Items (qh_queryResponseWriteC (cn_handler n)))) rid
      \<le> to_come c (cn_handler n) rid"
    by (simp add: to_come_def)
  then show ?thesis
    using inv by (auto simp: ccq_inv_def intro: order_trans [rotated])
qed

section \<open>The ticker\<close>

definition recent :: "time \<Rightarrow> pendingQuery \<Rightarrow> bool" where
  "recent now pq \<longleftrightarrow> now \<le> pq_receiveTime pq + RequestTimeout \<and>
     (pq_respPub pq = None \<longrightarrow> (\<forall>i < length (pq_responses pq). pq_responses pq ! i = None \<longrightarrow>
        now \<le> pc_lastUpdateTime (pq_queries pq ! i) + RetryInterval))"

lemma retry_queries_recent:
  "retry_queries now qs rs qh = (qs', qh') \<Longrightarrow> length qs = length rs \<Longrightarrow> i < length rs \<Longrightarrow> rs ! i = None \<Longrightarrow>
   now \<le> pc_lastUpdateTime (qs' ! i) + RetryInterval"
proof (induction now qs rs qh arbitrary: i qs' qh' rule: retry_queries.induct)
  case (1 now q qs r rs qh)
  obtain q1 h1 where 1: "(if r = None \<and> pc_lastUpdateTime q + RetryInterval < now then ccqForwardToWatcher now q qh else (q, qh)) = (q1, h1)"
    by fastforce
  obtain qs2 h2 where 2: "retry_queries now qs rs h1 = (qs2, h2)" by fastforce
  have qs': "qs' = q1 # qs2"
    using "1.prems"(1) 1 2 by (simp add: Let_def)
  show ?case
  proof (cases i)
    case 0
    then show ?thesis
      using 1 "1.prems"(4) qs' by (auto simp: ccqForwardToWatcher_def RetryInterval_def split: if_splits)
  next
    case (Suc j)
    then show ?thesis
      using "1.IH" [OF 1 [symmetric] refl 2, of j] "1.prems" qs' by simp
  qed
qed auto

lemma retry_queries_pending: "retry_queries now qs rs qh = (qs', qh') \<Longrightarrow> qh_pendingQueries qh' = qh_pendingQueries qh"
  using retry_same by (auto simp: same_but_channels_def)

lemma audit_query_other:
  assumes "\<And>pq. qh_pendingQueries qh r = Some pq \<Longrightarrow> pq_requestID pq = r" and "rid \<noteq> r"
  shows "qh_pendingQueries (audit_query now r qh) rid = qh_pendingQueries qh rid"
proof (cases rule: audit_query_cases [of qh r now])
  case (retry pq qs qh1)
  then show ?thesis
    using assms retry_queries_pending [OF retry(4)] by (auto simp: store_query_def)
qed (use assms in \<open>auto simp: delete_pending_def\<close>)

lemma audit_query_recent:
  assumes ok: "handler_ok R A c qh" and pq: "qh_pendingQueries (audit_query now r qh) r = Some pq"
  shows "recent now pq"
proof (cases rule: audit_query_cases [of qh r now])
  case (full old m)
  then show ?thesis
    using pq by (simp add: recent_def)
next
  case (retry old qs qh1)
  have old: "pq_requestID old = r" "length (pq_queries old) = length (pq_responses old)"
    using ok retry(1) by (auto simp: handler_ok_def pending_ok_def)
  then have "pq = old\<lparr>pq_queries := qs\<rparr>"
    using pq retry(5) by (simp add: store_query_def)
  then show ?thesis
    using retry(2) retry_queries_recent [OF retry(4)] old(2) by (simp add: recent_def)
qed (use pq in \<open>simp_all add: delete_pending_def\<close>)

lemma audit_recent:
  assumes "handler_ok R A c qh" and "\<And>rid pq. qh_pendingQueries qh rid = Some pq \<Longrightarrow> rid \<notin> set rids \<Longrightarrow> recent now pq"
    and "qh_pendingQueries (audit now rids qh) rid = Some pq"
  shows "recent now pq"
  using assms
proof (induction rids arbitrary: qh)
  case (Cons r rids)
  let ?h = "audit_query now r qh"
  have ids: "pq_requestID pq = r" if "qh_pendingQueries qh r = Some pq" for pq
    using Cons.prems(1) that by (auto simp: handler_ok_def pending_ok_def)
  have "recent now pq'" if "qh_pendingQueries ?h rid' = Some pq'" "rid' \<notin> set rids" for rid' pq'
  proof (cases "rid' = r")
    case True
    then show ?thesis
      using audit_query_recent [OF Cons.prems(1)] that(1) by simp
  next
    case False
    then show ?thesis
      using audit_query_other [OF ids False, where now = now] Cons.prems(2) that by simp
  qed
  then show ?case
    using Cons.IH [of ?h] audit_query_ok [OF Cons.prems(1), of now r] Cons.prems(3) by (simp add: audit_def)
qed (simp add: audit_def)


text \<open>
  A query that a full channel does not take is marked as sent all the same: until RetryInterval has passed the
  ticker does not try it again, although the comment of ccqForwardToWatcher says that the time is not updated.
\<close>

lemma failed_forward_waits:
  assumes "qh_chainQueryReqC qh (pc_channel q) = Some ch" and "ch_Cap ch \<le> length (ch_Items ch)"
    and "ccqForwardToWatcher now q qh = (q', qh')" and "later \<le> now + RetryInterval"
  shows "qh_chainQueryReqC qh' = qh_chainQueryReqC qh \<and> retry_queries later [q'] [None] qh2 = ([q'], qh2)"
  using assms by (auto simp: ccqForwardToWatcher_def try_send_def)

section \<open>A run\<close>

definition query_start :: query_handler where
  "query_start = \<lparr>qh_env = MainNet, qh_allowedRequestors = {replicate 20 9}, qh_supportedChains = {2},
     qh_chainQueryReqC = (\<lambda>ch. if ch = 2 then Some (make_chan 1) else None), qh_queryResponseWriteC = make_chan 1,
     qh_pendingQueries = (\<lambda>_. None)\<rparr>"

definition query_node :: ccq_node where
  "query_node = \<lparr>cn_handler = query_start, cn_signedQueryReqC = make_chan 1, cn_allowedPeers = {}, cn_taken = [], cn_sent = []\<rparr>"

definition query_request :: SignedQueryRequest where
  "query_request = qrp_Request (sample_publication [7])"

definition query_answer :: PerChainQueryResponseInternal where
  "query_answer = CreatePerChainQueryResponseInternal (request_id toy_crypto query_start query_request) 0 2 QuerySuccess
     (pcr_Response (hd (qrp_PerChainResponses (sample_publication [7]))))"

definition query_pending :: pendingQuery where
  "query_pending = \<lparr>pq_signedRequest = query_request, pq_request = sample_query,
     pq_requestID = request_id toy_crypto query_start query_request, pq_receiveTime = 5,
     pq_queries = [\<lparr>pc_req = \<lparr>pcqi_RequestID = request_id toy_crypto query_start query_request, pcqi_RequestIdx = 0,
        pcqi_Request = hd (qr_PerChainQueries sample_query)\<rparr>, pc_channel = 2, pc_lastUpdateTime = 5\<rparr>],
     pq_responses = [None], pq_respPub = None\<rparr>"

definition query_waiting :: query_handler where
  "query_waiting = store_query query_pending (query_start\<lparr>qh_chainQueryReqC :=
     (qh_chainQueryReqC query_start)(2 \<mapsto> snd (try_send (pc_req (hd (pq_queries query_pending))) (make_chan 1)))\<rparr>)"

lemma query_start_fields [simp]:
  "qh_allowedRequestors query_start = {replicate 20 9}" "qh_supportedChains query_start = {2}"
  "qh_chainQueryReqC query_start 2 = Some (make_chan 1)" "qh_queryResponseWriteC query_start = make_chan 1"
  "qh_pendingQueries query_start = (\<lambda>_. None)"
  by (simp_all add: query_start_def)

lemma query_accepted: "handle_request toy_crypto 5 query_request query_start = query_waiting"
proof -
  let ?id = "request_id toy_crypto query_start query_request" and ?pcq = "hd (qr_PerChainQueries sample_query)"
  have rec: "recovered_requestor toy_crypto query_start query_request = Inr (replicate 20 9)"
    by (simp add: recovered_requestor_def toy_crypto_def query_request_def sample_publication_def numeral_eq_Suc)
  have req: "QueryRequest_Unmarshal (sqr_QueryRequest query_request) = Inr sample_query"
    by (simp add: query_request_def sample_publication_def sample_query_Unmarshal)
  have pcq: "qr_PerChainQueries sample_query = [?pcq]" "pcq_ChainId ?pcq = 2"
    by (simp_all add: sample_query_def)
  have "build_queries query_start ?id 0 (qr_PerChainQueries sample_query) = Some [\<lparr>pc_req = \<lparr>pcqi_RequestID = ?id, pcqi_RequestIdx = 0,
      pcqi_Request = ?pcq\<rparr>, pc_channel = 2, pc_lastUpdateTime = -62135596800000000000\<rparr>]"
    by (subst pcq(1)) (simp add: pcq(2))
  moreover have "length (qr_PerChainQueries sample_query) = 1"
    by (subst pcq(1)) simp
  ultimately show ?thesis
    unfolding handle_request_def Let_def rec req sample_query_valid
    by (simp add: ccqForwardToWatcher_def query_waiting_def query_pending_def sample_query_valid)
qed

definition query_published :: query_handler where
  "query_published = (delete_pending (pq_requestID query_pending) query_waiting)\<lparr>qh_queryResponseWriteC := chan_send (sample_publication [7]) (make_chan 1)\<rparr>"

lemma query_answered: "handle_query_response query_answer query_waiting = Inr query_published"
proof -
  have "try_send (sample_publication [7]) (make_chan 1) = (True, chan_send (sample_publication [7]) (make_chan 1))"
    by (simp add: try_send_def make_chan_def)
  moreover have "qh_queryResponseWriteC query_waiting = make_chan 1"
    by (simp add: query_waiting_def store_query_def query_start_def)
  ultimately show ?thesis
    by (simp add: handle_query_response_def query_answer_def CreatePerChainQueryResponseInternal_def query_waiting_def [unfolded store_query_def]
        query_pending_def numPendingRequests_def response_pub_def publish_response_def sample_publication_def query_request_def
        query_published_def delete_pending_def query_start_def)
qed

lemma query_signed:
  "\<exists>s. signed_response toy_crypto [8] (sample_publication [7]) = Inr (Some s) \<and> length (sqp_Signature s) = 65"
proof -
  obtain d where "Publication_Marshal (sample_publication [7]) = Inr d"
    using sample_publication_Marshal [of "[7]"] by auto
  then show ?thesis
    by (simp add: signed_response_def toy_crypto_def)
qed

lemma query_run_waiting:
  "\<exists>tr n. trace_run (fresh_ccq query_start) (ccq_step toy_crypto [8]) tr n \<and> cn_handler n = query_waiting \<and>
     cn_taken n = [] \<and> cn_sent n = [] \<and> handled tr = [query_request]"
proof -
  let ?run = "trace_run (fresh_ccq query_start) (ccq_step toy_crypto [8])"
  define n1 where "n1 = query_node\<lparr>cn_signedQueryReqC := snd (try_send query_request (cn_signedQueryReqC query_node))\<rparr>"
  define n2 where "n2 = n1\<lparr>cn_handler := handle_request toy_crypto 5 query_request (cn_handler n1),
    cn_signedQueryReqC := (cn_signedQueryReqC n1)\<lparr>ch_Items := []\<rparr>\<rparr>"
  have h: "cn_handler n1 = query_start" "cn_handler n2 = query_waiting" "ch_Items (cn_signedQueryReqC n1) = [query_request]"
    "cn_taken n2 = []" "cn_sent n2 = []"
    by (simp_all add: n1_def n2_def query_node_def query_accepted try_send_def make_chan_def)
  have "?run [] query_node"
    by (rule trace_run.start) (simp add: fresh_ccq_def query_node_def make_chan_def query_start_def)
  moreover have "ccq_step toy_crypto [8] (Gossip_Request ''p'' query_request) query_node n1"
    unfolding n1_def by (rule ccq_step.gossip) (simp add: query_node_def accept_request_from_def)
  ultimately have 1: "?run [(Gossip_Request ''p'' query_request, query_node)] n1"
    using trace_run.step by fastforce
  have "ccq_step toy_crypto [8] (Handle_Request 5) n1 n2"
    unfolding n2_def by (rule ccq_step.handle) (simp add: h)
  from trace_run.step [OF 1 this] h show ?thesis
    by (force simp: handled_def List.map_filter_def)
qed

lemma query_run:
  "\<exists>tr n s. trace_run (fresh_ccq query_start) (ccq_step toy_crypto [8]) tr n \<and> cn_sent n = [s] \<and>
     cn_taken n = [sample_publication [7]] \<and> handled tr = [query_request]"
proof -
  let ?run = "trace_run (fresh_ccq query_start) (ccq_step toy_crypto [8])"
  obtain tr n2 where 2: "?run tr n2" "cn_handler n2 = query_waiting" "cn_taken n2 = []" "cn_sent n2 = []" "handled tr = [query_request]"
    using query_run_waiting by blast
  define n3 where "n3 = n2\<lparr>cn_handler := query_published\<rparr>"
  obtain s where s: "signed_response toy_crypto [8] (sample_publication [7]) = Inr (Some s)"
    using query_signed by blast
  have h: "cn_taken n3 = []" "cn_sent n3 = []" "ch_Items (qh_queryResponseWriteC query_published) = [sample_publication [7]]"
    using 2 by (simp_all add: n3_def try_send_def make_chan_def query_published_def)
  have "ccq_step toy_crypto [8] (Watcher_Answers query_answer) n2 n3"
    unfolding n3_def by (rule ccq_step.answer) (simp add: 2 query_answered)
  note 3 = trace_run.step [OF 2(1) this]
  have "ch_Items (qh_queryResponseWriteC (cn_handler n3)) = [sample_publication [7]]"
    by (simp add: n3_def h)
  from ccq_step.publish [OF this s, where ok = True] h
  obtain n4 where 4: "ccq_step toy_crypto [8] (Publisher_Takes True) n3 n4" "cn_sent n4 = [s]" "cn_taken n4 = [sample_publication [7]]"
    by fastforce
  show ?thesis
    using trace_run.step [OF 3 4(1)] 4(2,3) 2(5) by (intro exI conjI) (assumption | simp only: handled_snoc, simp)+
qed

lemma query_tick: "audit 6 [pq_requestID query_pending] query_waiting = query_waiting"
  by (simp add: audit_def audit_query_def query_waiting_def store_query_def query_pending_def RequestTimeout_def RetryInterval_def)

theorem signed_responses_sound_witness:
  "\<exists>tr s resp. answered tr resp \<and> gossiped tr query_request \<and>
     Publication_Marshal (sample_publication [7]) = Inr (sqp_QueryResponse (s :: SignedQueryResponse))"
proof -
  obtain tr n s where run: "trace_run (fresh_ccq query_start) (ccq_step toy_crypto [8]) tr n" "cn_sent n = [s]"
      "cn_taken n = [sample_publication [7]]"
    using query_run by blast
  have s: "s \<in> set (cn_sent n)"
    by (simp add: run(2))
  have inv: "ccq_inv toy_crypto [8] query_start tr n"
    using ccq.run_inv [OF run(1)] by simp
  then have "signed_response toy_crypto [8] (sample_publication [7]) = Inr (Some s)"
    using run(2,3) by (simp add: ccq_inv_def signed_from_def)
  from signed_response_Some(1) [OF this] have d: "Publication_Marshal (sample_publication [7]) = Inr (sqp_QueryResponse s)" .
  have "\<exists>resp. answered tr resp"
    using signed_responses_sound [OF run(1) s] by (auto simp: QueryRequest_Validate_iff)
  moreover have "gossiped tr query_request"
    using inv run(3) by (simp add: ccq_inv_def sound_pub_def query_request_def)
  ultimately show ?thesis
    using d by blast
qed

theorem one_publication_per_request_witness:
  "\<exists>tr n. trace_run (fresh_ccq query_start) (ccq_step toy_crypto [8]) tr n \<and> handled tr = [query_request] \<and>
     count_list (map (\<lambda>m. request_id toy_crypto query_start (qrp_Request m)) (cn_taken n @ ch_Items (qh_queryResponseWriteC (cn_handler n))))
       (request_id toy_crypto query_start query_request) = 1"
proof -
  obtain tr n where run: "trace_run (fresh_ccq query_start) (ccq_step toy_crypto [8]) tr n" "handled tr = [query_request]"
      "cn_taken n = [sample_publication [7]]"
    using query_run by blast
  have "count_list (map (\<lambda>m. request_id toy_crypto query_start (qrp_Request m)) (cn_taken n @ ch_Items (qh_queryResponseWriteC (cn_handler n))))
      (request_id toy_crypto query_start query_request) \<le> 1"
    using one_publication_per_request [OF run(1), of "request_id toy_crypto query_start query_request"] run(2) by simp
  then show ?thesis
    using run by (intro exI [of _ tr] exI [of _ n]) (simp add: query_request_def)
qed


end
