(* ===== verification/CcqPermissions.thy ===== *)
theory CcqPermissions imports Complex_Main QueryRequest begin

text \<open>
  Permissions of the query proxy: node/cmd/ccq/permissions.go and the checks of node/cmd/ccq/utils.go. The proxy
  takes requests from clients over HTTP and passes them to the guardians. A file says which user, known by an
  API key, may make which calls; it is turned into a map of keys to entries, and each allowed call into a text
  that the requested calls are looked up by.

  encoding/json and the base58 form of Solana keys are the fields of ccq_libs. A zero Environment, the empty
  string in Go, is None. The rate limiter is the pair of its rate and burst size; whether it lets a request
  through is an input of the HTTP handler. Logs and metrics are left out.
\<close>

section \<open>The file\<close>

text \<open>EthCall, EthCallByTimestamp and EthCallWithFinality have the same fields.\<close>

record AllowedEthCall =
  aec_Chain :: int
  aec_ContractAddress :: string
  aec_Call :: string

record AllowedSolanaAccount =
  asa_Chain :: int
  asa_Account :: string

record AllowedSolanaPda =
  asp_Chain :: int
  asp_ProgramAddress :: string

record AllowedCall =
  ac_EthCall :: "AllowedEthCall option"
  ac_EthCallByTimestamp :: "AllowedEthCall option"
  ac_EthCallWithFinality :: "AllowedEthCall option"
  ac_SolanaAccount :: "AllowedSolanaAccount option"
  ac_SolanaPda :: "AllowedSolanaPda option"

record CcqUser =
  usr_UserName :: string
  usr_ApiKey :: string
  usr_AllowUnsigned :: bool
  usr_AllowAnything :: bool
  usr_RateLimit :: "rat option"
  usr_BurstSize :: "int option"
  usr_LogResponses :: bool
  usr_AllowedCalls :: "AllowedCall list"

record CcqConfig =
  cc_AllowAnythingSupported :: bool
  cc_DefaultRateLimit :: rat
  cc_DefaultBurstSize :: int
  cc_Permissions :: "CcqUser list"

record ccq_libs =
  Config_Unmarshal :: "byte list \<Rightarrow> CcqConfig \<Rightarrow> go_error + CcqConfig"
  PublicKey_String :: "byte list \<Rightarrow> string"
  PublicKeyFromBase58 :: "string \<Rightarrow> go_error + byte list"

record permissionEntry =
  pe_userName :: string
  pe_apiKey :: string
  pe_rateLimiter :: "(rat \<times> int) option"
  pe_allowUnsigned :: bool
  pe_allowAnything :: bool
  pe_logResponses :: bool
  pe_allowedCalls :: "string set"

type_synonym PermissionsMap = "string \<Rightarrow> permissionEntry option"

section \<open>Keys of calls\<close>

definition ETH_CALL_SIG_LENGTH :: nat where "ETH_CALL_SIG_LENGTH = 4"

text \<open>The verb d of Printf on a signed number.\<close>

definition dec_int :: "int \<Rightarrow> string" where
  "dec_int i = (if i < 0 then CHR ''-'' # dec_string (nat (- i)) else dec_string (nat i))"

definition call_key :: "string \<Rightarrow> int \<Rightarrow> string \<Rightarrow> string" where
  "call_key callType chain rest = callType @ CHR '':'' # dec_int chain @ CHR '':'' # rest"

definition eth_call_rest :: "string \<Rightarrow> byte list \<Rightarrow> string" where
  "eth_call_rest contractAddress call = contractAddress @ CHR '':'' # hex_encode call"

text \<open>An account of the file is base58, or 32 bytes of hexadecimal after 0x.\<close>

definition solana_text :: "ccq_libs \<Rightarrow> string \<Rightarrow> go_error + string" where
  "solana_text L account =
     (if take 2 account = ''0x'' then
        chk (wrap ''invalid solana account hex string'' (hex_decode (drop 2 account))) (\<lambda>buf.
          if length buf \<noteq> SolanaPublicKeyLength then Inl (Errorf ''must be 32 bytes'')
          else Inr (PublicKey_String L buf))
      else chk (wrap ''is not valid base58'' (PublicKeyFromBase58 L account)) (\<lambda>_. Inr account))"

definition eth_key :: "string \<Rightarrow> AllowedEthCall \<Rightarrow> go_error + string" where
  "eth_key callType ac =
     chk (if aec_ContractAddress ac = ''*'' then Inr ''*''
          else case StringToAddress (aec_ContractAddress ac) of
              Inl _ \<Rightarrow> Inl (Errorf ''invalid contract address'')
            | Inr contractAddr \<Rightarrow> Inr (Address_String contractAddr)) (\<lambda>contractAddress.
     case hex_decode (trim_0x (aec_Call ac)) of
       Inl _ \<Rightarrow> Inl (Errorf ''invalid eth call'')
     | Inr call \<Rightarrow>
         if length call \<noteq> ETH_CALL_SIG_LENGTH then Inl (Errorf ''eth call has an invalid length'')
         else Inr (call_key callType (aec_Chain ac) (eth_call_rest contractAddress call)))"

definition allowed_call_key :: "ccq_libs \<Rightarrow> AllowedCall \<Rightarrow> go_error + string" where
  "allowed_call_key L ac =
     (case ac_EthCall ac of Some c \<Rightarrow> eth_key ''ethCall'' c | None \<Rightarrow>
     (case ac_EthCallByTimestamp ac of Some c \<Rightarrow> eth_key ''ethCallByTimestamp'' c | None \<Rightarrow>
     (case ac_EthCallWithFinality ac of Some c \<Rightarrow> eth_key ''ethCallWithFinality'' c | None \<Rightarrow>
     (case ac_SolanaAccount ac of
        Some a \<Rightarrow> chk (solana_text L (asa_Account a)) (\<lambda>account. Inr (call_key ''solAccount'' (asa_Chain a) account))
      | None \<Rightarrow>
     (case ac_SolanaPda ac of
        Some a \<Rightarrow> chk (solana_text L (asp_ProgramAddress a)) (\<lambda>pa. Inr (call_key ''solPDA'' (asp_Chain a) pa))
      | None \<Rightarrow> Inl (Errorf ''unsupported call type''))))))"

section \<open>From the file to the map\<close>

fun allowed_calls_loop :: "ccq_libs \<Rightarrow> AllowedCall list \<Rightarrow> string set \<Rightarrow> go_error + string set" where
  "allowed_calls_loop L [] allowedCalls = Inr allowedCalls"
| "allowed_calls_loop L (ac # acs) allowedCalls =
     chk (allowed_call_key L ac) (\<lambda>callKey.
       if callKey \<in> allowedCalls then Inl (Errorf ''is a duplicate allowed call'')
       else allowed_calls_loop L acs (insert callKey allowedCalls))"

definition rate_limiter :: "CcqConfig \<Rightarrow> CcqUser \<Rightarrow> go_error + (rat \<times> int) option" where
  "rate_limiter config user =
     (let rateLimit = (case usr_RateLimit user of Some r \<Rightarrow> r | None \<Rightarrow> cc_DefaultRateLimit config) in
      if rateLimit \<noteq> 0 then
        let burstSize = (case usr_BurstSize user of Some b \<Rightarrow> b | None \<Rightarrow> cc_DefaultBurstSize config) in
        if burstSize = 0 then Inl (Errorf ''if rate limiting is enabled, the burst size may not be zero'')
        else Inr (Some (rateLimit, burstSize))
      else Inr None)"

definition user_entry :: "ccq_libs \<Rightarrow> CcqConfig \<Rightarrow> CcqUser \<Rightarrow> go_error + permissionEntry" where
  "user_entry L config user =
     chk (guard_err (usr_AllowAnything user \<and> \<not> cc_AllowAnythingSupported config)
       (Errorf ''allowAnything specified when the feature is not enabled'')) (\<lambda>_.
     chk (guard_err (usr_AllowAnything user \<and> usr_AllowedCalls user \<noteq> [])
       (Errorf ''allowedCalls specified with allowAnything'')) (\<lambda>_.
     chk (rate_limiter config user) (\<lambda>rateLimiter.
     chk (allowed_calls_loop L (usr_AllowedCalls user) {}) (\<lambda>allowedCalls.
     Inr \<lparr>pe_userName = usr_UserName user, pe_apiKey = to_lower (usr_ApiKey user), pe_rateLimiter = rateLimiter,
          pe_allowUnsigned = usr_AllowUnsigned user, pe_allowAnything = usr_AllowAnything user,
          pe_logResponses = usr_LogResponses user, pe_allowedCalls = allowedCalls\<rparr>))))"

fun users_loop :: "ccq_libs \<Rightarrow> CcqConfig \<Rightarrow> CcqUser list \<Rightarrow> string set \<Rightarrow> PermissionsMap \<Rightarrow> go_error + PermissionsMap" where
  "users_loop L config [] userNames ret = Inr ret"
| "users_loop L config (user # users) userNames ret =
     (if usr_UserName user \<in> userNames then Inl (Errorf ''UserName is a duplicate'')
      else
        let apiKey = to_lower (usr_ApiKey user) in
        if ret apiKey \<noteq> None then Inl (Errorf ''API key is a duplicate'')
        else chk (user_entry L config user) (\<lambda>pe.
          users_loop L config users (insert (usr_UserName user) userNames) (ret(apiKey \<mapsto> pe))))"

definition parseConfig :: "ccq_libs \<Rightarrow> byte list \<Rightarrow> Environment option \<Rightarrow> go_error + PermissionsMap" where
  "parseConfig L byteValue env =
     chk (wrap ''failed to unmarshal json'' (Config_Unmarshal L byteValue
       \<lparr>cc_AllowAnythingSupported = False, cc_DefaultRateLimit = 0, cc_DefaultBurstSize = 1, cc_Permissions = []\<rparr>)) (\<lambda>config.
     chk (guard_err (cc_DefaultBurstSize config = 0) (Errorf ''the default burst size may not be zero'')) (\<lambda>_.
     chk (guard_err (cc_AllowAnythingSupported config \<and> env = Some MainNet)
       (Errorf ''the allowAnythingSupported flag is not supported in mainnet'')) (\<lambda>_.
     users_loop L config (cc_Permissions config) {} (\<lambda>_. None))))"

text \<open>Reading the file gives its content or an error.\<close>

definition parseConfigFile :: "ccq_libs \<Rightarrow> go_error + byte list \<Rightarrow> Environment option \<Rightarrow> go_error + PermissionsMap" where
  "parseConfigFile L content env =
     chk (wrap ''failed to read permissions file'' content) (\<lambda>byteValue.
     wrap ''failed to parse permissions file'' (parseConfig L byteValue env))"

record Permissions =
  perm_env :: "Environment option"
  perm_permMap :: PermissionsMap

text \<open>The environment of the new object is not set.\<close>

definition NewPermissions :: "ccq_libs \<Rightarrow> go_error + byte list \<Rightarrow> Environment \<Rightarrow> go_error + Permissions" where
  "NewPermissions L content env =
     chk (parseConfigFile L content (Some env)) (\<lambda>permMap. Inr \<lparr>perm_env = None, perm_permMap = permMap\<rparr>)"

definition Permissions_Reload :: "ccq_libs \<Rightarrow> go_error + byte list \<Rightarrow> Permissions \<Rightarrow> Permissions" where
  "Permissions_Reload L content perms =
     (case parseConfigFile L content (perm_env perms) of
        Inl _ \<Rightarrow> perms
      | Inr permMap \<Rightarrow> perms\<lparr>perm_permMap := permMap\<rparr>)"

definition GetUserEntry :: "Permissions \<Rightarrow> string \<Rightarrow> permissionEntry option" where
  "GetUserEntry perms apiKey = perm_permMap perms apiKey"

section \<open>Checking a request\<close>

definition StatusOK :: int where "StatusOK = 200"
definition StatusBadRequest :: int where "StatusBadRequest = 400"
definition StatusForbidden :: int where "StatusForbidden = 403"
definition StatusInternalServerError :: int where "StatusInternalServerError = 500"

text \<open>An error carries the HTTP status it is reported with.\<close>

definition validateCallData :: "permissionEntry \<Rightarrow> string \<Rightarrow> ChainID \<Rightarrow> EthCallData list \<Rightarrow> (int \<times> go_error) + unit" where
  "validateCallData permsForUser callTag chainId callData =
     for_each (\<lambda>cd.
       case BytesToAddress (cd_To cd) of
         Inl e \<Rightarrow> Inl (StatusBadRequest, Wrap ''failed to parse contract address'' (Some e))
       | Inr contractAddress \<Rightarrow>
           if length (cd_Data cd) < ETH_CALL_SIG_LENGTH then
             Inl (StatusBadRequest, Errorf ''eth call data must be at least four bytes'')
           else if pe_allowAnything permsForUser then Inr ()
           else
             let call = take ETH_CALL_SIG_LENGTH (cd_Data cd);
                 callKey = call_key callTag (uint chainId) (eth_call_rest (Address_String contractAddress) call)
             in if callKey \<in> pe_allowedCalls permsForUser then Inr ()
                else if call_key callTag (uint chainId) (eth_call_rest ''*'' call) \<in> pe_allowedCalls permsForUser then Inr ()
                else Inl (StatusBadRequest, Errorf ''call not authorized'')) callData"

definition check_solana_key :: "ccq_libs \<Rightarrow> permissionEntry \<Rightarrow> string \<Rightarrow> ChainID \<Rightarrow> byte list \<Rightarrow> (int \<times> go_error) + unit" where
  "check_solana_key L permsForUser callTag chainId acct =
     (if call_key callTag (uint chainId) (PublicKey_String L acct) \<in> pe_allowedCalls permsForUser then Inr ()
      else Inl (StatusForbidden, Errorf ''call not authorized''))"

definition validateSolanaAccountQuery :: "ccq_libs \<Rightarrow> permissionEntry \<Rightarrow> string \<Rightarrow> ChainID \<Rightarrow> SolanaAccountQueryRequest \<Rightarrow>
    (int \<times> go_error) + unit" where
  "validateSolanaAccountQuery L permsForUser callTag chainId q =
     (if pe_allowAnything permsForUser then Inr ()
      else for_each (check_solana_key L permsForUser callTag chainId) (sa_Accounts q))"

definition validateSolanaPdaQuery :: "ccq_libs \<Rightarrow> permissionEntry \<Rightarrow> string \<Rightarrow> ChainID \<Rightarrow> SolanaPdaQueryRequest \<Rightarrow>
    (int \<times> go_error) + unit" where
  "validateSolanaPdaQuery L permsForUser callTag chainId q =
     (if pe_allowAnything permsForUser then Inr ()
      else for_each (\<lambda>acct. check_solana_key L permsForUser callTag chainId (pda_ProgramAddress acct)) (sp_PDAs q))"

definition validate_per_chain :: "ccq_libs \<Rightarrow> permissionEntry \<Rightarrow> PerChainQueryRequest \<Rightarrow> (int \<times> go_error) + unit" where
  "validate_per_chain L permsForUser pcq =
     (case pcq_Query pcq of
        Some (EthCallQuery q) \<Rightarrow> validateCallData permsForUser ''ethCall'' (pcq_ChainId pcq) (ec_CallData q)
      | Some (EthCallByTimestampQuery q) \<Rightarrow> validateCallData permsForUser ''ethCallByTimestamp'' (pcq_ChainId pcq) (et_CallData q)
      | Some (EthCallWithFinalityQuery q) \<Rightarrow> validateCallData permsForUser ''ethCallWithFinality'' (pcq_ChainId pcq) (ef_CallData q)
      | Some (SolanaAccountQuery q) \<Rightarrow> validateSolanaAccountQuery L permsForUser ''solAccount'' (pcq_ChainId pcq) q
      | Some (SolanaPdaQuery q) \<Rightarrow> validateSolanaPdaQuery L permsForUser ''solPDA'' (pcq_ChainId pcq) q
      | None \<Rightarrow> Inl (StatusBadRequest, Errorf ''unsupported query type''))"

text \<open>A request without a signature is signed with the key of the proxy, where there is one and the user may.\<close>

definition sign_unsigned :: "crypto \<Rightarrow> Environment \<Rightarrow> byte list option \<Rightarrow> permissionEntry \<Rightarrow> SignedQueryRequest \<Rightarrow>
    (int \<times> go_error) + SignedQueryRequest" where
  "sign_unsigned c env signerKey permsForUser qr =
     (if sqr_Signature qr \<noteq> [] then Inr qr
      else case signerKey of
          None \<Rightarrow> Inl (StatusBadRequest, Errorf ''request not signed'')
        | Some key \<Rightarrow>
            if \<not> pe_allowUnsigned permsForUser then Inl (StatusBadRequest, Errorf ''request not signed'')
            else (case Sign c (QueryRequestDigest c env (sqr_QueryRequest qr)) key of
                Inl e \<Rightarrow> Inl (StatusInternalServerError, Wrap ''failed to sign request'' (Some e))
              | Inr sig \<Rightarrow> Inr (qr\<lparr>sqr_Signature := sig\<rparr>)))"

text \<open>The result is the decoded request together with the signed one, which the code changes in place.\<close>

definition validateRequest :: "crypto \<Rightarrow> ccq_libs \<Rightarrow> Environment \<Rightarrow> Permissions \<Rightarrow> byte list option \<Rightarrow> string \<Rightarrow> SignedQueryRequest \<Rightarrow>
    (int \<times> go_error) + QueryRequest \<times> SignedQueryRequest" where
  "validateRequest c L env perms signerKey apiKey qr =
     (case GetUserEntry perms apiKey of
        None \<Rightarrow> Inl (StatusForbidden, Errorf ''invalid api key'')
      | Some permsForUser \<Rightarrow>
          (case sign_unsigned c env signerKey permsForUser qr of
             Inl e \<Rightarrow> Inl e
           | Inr qr \<Rightarrow>
               (case QueryRequest_Unmarshal (sqr_QueryRequest qr) of
                  Inl e \<Rightarrow> Inl (StatusBadRequest, Wrap ''failed to unmarshal request'' (Some e))
                | Inr queryRequest \<Rightarrow>
                    (case QueryRequest_Validate queryRequest of
                       Inl e \<Rightarrow> Inl (StatusBadRequest, Wrap ''failed to validate request'' (Some e))
                     | Inr _ \<Rightarrow>
                         (case for_each (validate_per_chain L permsForUser) (qr_PerChainQueries queryRequest) of
                            Inl e \<Rightarrow> Inl e
                          | Inr _ \<Rightarrow> Inr (queryRequest, qr))))))"

section \<open>Keys are unambiguous\<close>

text \<open>What the file permits, without the detour of the text: an entry for calls of an EVM chain.\<close>

definition entry_for :: "string \<Rightarrow> AllowedCall \<Rightarrow> AllowedEthCall option" where
  "entry_for callTag ac =
     (case ac_EthCall ac of Some c \<Rightarrow> if callTag = ''ethCall'' then Some c else None | None \<Rightarrow>
     (case ac_EthCallByTimestamp ac of Some c \<Rightarrow> if callTag = ''ethCallByTimestamp'' then Some c else None | None \<Rightarrow>
     (case ac_EthCallWithFinality ac of Some c \<Rightarrow> if callTag = ''ethCallWithFinality'' then Some c else None | None \<Rightarrow> None)))"

definition solana_account_for :: "AllowedCall \<Rightarrow> AllowedSolanaAccount option" where
  "solana_account_for ac = (if ac_EthCall ac = None \<and> ac_EthCallByTimestamp ac = None \<and> ac_EthCallWithFinality ac = None
     then ac_SolanaAccount ac else None)"

definition solana_pda_for :: "AllowedCall \<Rightarrow> AllowedSolanaPda option" where
  "solana_pda_for ac = (if ac_EthCall ac = None \<and> ac_EthCallByTimestamp ac = None \<and> ac_EthCallWithFinality ac = None \<and>
     ac_SolanaAccount ac = None then ac_SolanaPda ac else None)"

definition permits_call :: "string \<Rightarrow> ChainID \<Rightarrow> EthCallData \<Rightarrow> AllowedCall \<Rightarrow> bool" where
  "permits_call callTag chain cd ac \<longleftrightarrow> (\<exists>c. entry_for callTag ac = Some c \<and> aec_Chain c = uint chain \<and>
     (aec_ContractAddress c = ''*'' \<or> StringToAddress (aec_ContractAddress c) = BytesToAddress (cd_To cd)) \<and>
     hex_decode (trim_0x (aec_Call c)) = Inr (take 4 (cd_Data cd)))"

text \<open>An account in the file stands for a key: in hexadecimal, or by its base58 text.\<close>

definition stands_for :: "ccq_libs \<Rightarrow> string \<Rightarrow> byte list \<Rightarrow> bool" where
  "stands_for L account key \<longleftrightarrow> (if take 2 account = ''0x'' then hex_decode (drop 2 account) = Inr key
     else account = PublicKey_String L key)"

definition permits_account :: "ccq_libs \<Rightarrow> ChainID \<Rightarrow> byte list \<Rightarrow> AllowedCall \<Rightarrow> bool" where
  "permits_account L chain key ac \<longleftrightarrow> (\<exists>a. solana_account_for ac = Some a \<and> asa_Chain a = uint chain \<and> stands_for L (asa_Account a) key)"

definition permits_program :: "ccq_libs \<Rightarrow> ChainID \<Rightarrow> byte list \<Rightarrow> AllowedCall \<Rightarrow> bool" where
  "permits_program L chain key ac \<longleftrightarrow> (\<exists>a. solana_pda_for ac = Some a \<and> asp_Chain a = uint chain \<and> stands_for L (asp_ProgramAddress a) key)"

definition permits_query :: "ccq_libs \<Rightarrow> AllowedCall list \<Rightarrow> PerChainQueryRequest \<Rightarrow> bool" where
  "permits_query L acs pcq =
     (case pcq_Query pcq of
        Some (EthCallQuery q) \<Rightarrow> list_all (\<lambda>cd. list_ex (permits_call ''ethCall'' (pcq_ChainId pcq) cd) acs) (ec_CallData q)
      | Some (EthCallByTimestampQuery q) \<Rightarrow>
          list_all (\<lambda>cd. list_ex (permits_call ''ethCallByTimestamp'' (pcq_ChainId pcq) cd) acs) (et_CallData q)
      | Some (EthCallWithFinalityQuery q) \<Rightarrow>
          list_all (\<lambda>cd. list_ex (permits_call ''ethCallWithFinality'' (pcq_ChainId pcq) cd) acs) (ef_CallData q)
      | Some (SolanaAccountQuery q) \<Rightarrow> list_all (\<lambda>key. list_ex (permits_account L (pcq_ChainId pcq) key) acs) (sa_Accounts q)
      | Some (SolanaPdaQuery q) \<Rightarrow>
          list_all (\<lambda>pda. list_ex (permits_program L (pcq_ChainId pcq) (pda_ProgramAddress pda)) acs) (sp_PDAs q)
      | None \<Rightarrow> False)"

lemma no_colon: "CHR '':'' \<notin> set (dec_string n)" "CHR '':'' \<notin> set (hex_encode bs)" "CHR '':'' \<notin> set (dec_int i)"
  using dec_string_chars [of "CHR '':''"] hex_encode_chars [of "CHR '':''" bs]
  by (auto simp: dec_int_def char_digit_def char_hex_def)

lemma dec_int_inj [simp]: "dec_int i = dec_int j \<longleftrightarrow> i = j"
proof -
  have "dec_string n \<noteq> CHR ''-'' # s \<and> CHR ''-'' # s \<noteq> dec_string n" for n s
    using dec_string_chars [of "CHR ''-''" n] by (auto simp: char_digit_def) (metis list.set_intros(1) option.distinct(1))+
  then show ?thesis
    by (auto simp: dec_int_def dec_string_inj nat_eq_iff)
qed

lemma colon_append:
  assumes "CHR '':'' \<notin> set a" and "CHR '':'' \<notin> set b"
  shows "a @ CHR '':'' # s = b @ CHR '':'' # t \<longleftrightarrow> a = b \<and> s = t"
proof
  assume eq: "a @ CHR '':'' # s = b @ CHR '':'' # t"
  have "takeWhile (\<lambda>c. c \<noteq> CHR '':'') (x @ CHR '':'' # y) = x \<and> dropWhile (\<lambda>c. c \<noteq> CHR '':'') (x @ CHR '':'' # y) = CHR '':'' # y"
    if "CHR '':'' \<notin> set x" for x y
    using that by (induction x) auto
  then show "a = b \<and> s = t"
    using assms eq by (metis list.inject)
qed simp

lemma call_key_inj:
  assumes "CHR '':'' \<notin> set tag" and "CHR '':'' \<notin> set tag'"
  shows "call_key tag chain rest = call_key tag' chain' rest' \<longleftrightarrow> tag = tag' \<and> chain = chain' \<and> rest = rest'"
  using assms by (simp add: call_key_def colon_append no_colon)

lemma eth_call_rest_inj:
  assumes "CHR '':'' \<notin> set a" and "CHR '':'' \<notin> set b"
  shows "eth_call_rest a call = eth_call_rest b call' \<longleftrightarrow> a = b \<and> call = call'"
  using assms by (simp add: eth_call_rest_def colon_append hex_encode_inj)

definition eth_tags :: "string list" where
  "eth_tags = [''ethCall'', ''ethCallByTimestamp'', ''ethCallWithFinality'']"

lemma tags_no_colon:
  "tag \<in> set eth_tags \<Longrightarrow> CHR '':'' \<notin> set tag" "CHR '':'' \<notin> set ''solAccount''" "CHR '':'' \<notin> set ''solPDA''"
  by (auto simp: eth_tags_def)

lemma eth_key_eq_Inr:
  "eth_key tag c = Inr k \<longleftrightarrow> (\<exists>addr call. k = call_key tag (aec_Chain c) (eth_call_rest addr call) \<and>
     (if aec_ContractAddress c = ''*'' then addr = ''*''
      else \<exists>a. StringToAddress (aec_ContractAddress c) = Inr a \<and> addr = Address_String a) \<and>
     hex_decode (trim_0x (aec_Call c)) = Inr call \<and> length call = 4)"
  by (auto simp: eth_key_def chk_eq_Inr ETH_CALL_SIG_LENGTH_def split: sum.splits if_splits)

lemma allowed_call_key_cases:
  assumes "allowed_call_key L ac = Inr k"
  obtains (eth) tag c where "tag \<in> set eth_tags" "entry_for tag ac = Some c" "eth_key tag c = Inr k"
  | (account) a s where "solana_account_for ac = Some a" "solana_text L (asa_Account a) = Inr s"
      "k = call_key ''solAccount'' (asa_Chain a) s"
  | (program) a s where "solana_pda_for ac = Some a" "solana_text L (asp_ProgramAddress a) = Inr s"
      "k = call_key ''solPDA'' (asp_Chain a) s"
proof -
  have "list_ex (\<lambda>tag. \<exists>c. entry_for tag ac = Some c \<and> eth_key tag c = Inr k) eth_tags \<or>
      (\<exists>a s. solana_account_for ac = Some a \<and> solana_text L (asa_Account a) = Inr s \<and> k = call_key ''solAccount'' (asa_Chain a) s) \<or>
      (\<exists>a s. solana_pda_for ac = Some a \<and> solana_text L (asp_ProgramAddress a) = Inr s \<and> k = call_key ''solPDA'' (asp_Chain a) s)"
    using assms unfolding allowed_call_key_def eth_tags_def entry_for_def solana_account_for_def solana_pda_for_def
    by (auto simp: chk_eq_Inr split: option.splits)
  then show thesis
    using that by (auto simp: list_ex_iff)
qed

lemma allowed_calls_loop_Inr:
  "allowed_calls_loop L acs S = Inr T \<Longrightarrow> k \<in> T \<longleftrightarrow> k \<in> S \<or> list_ex (\<lambda>ac. allowed_call_key L ac = Inr k) acs"
  by (induction acs arbitrary: S) (auto simp: chk_eq_Inr split: if_splits)

lemma user_entry_Inr:
  assumes "user_entry L config user = Inr pe"
  shows "pe_userName pe = usr_UserName user" "pe_allowUnsigned pe = usr_AllowUnsigned user" "pe_allowAnything pe = usr_AllowAnything user"
    "pe_apiKey pe = to_lower (usr_ApiKey user)" "usr_AllowAnything user \<Longrightarrow> cc_AllowAnythingSupported config"
    "k \<in> pe_allowedCalls pe \<longleftrightarrow> list_ex (\<lambda>ac. allowed_call_key L ac = Inr k) (usr_AllowedCalls user)"
  using assms by (auto simp: user_entry_def chk_eq_Inr allowed_calls_loop_Inr)

lemma users_loop_Some:
  assumes "users_loop L config users names ret = Inr m" and "m key = Some pe"
  shows "ret key = Some pe \<or> (\<exists>u \<in> set users. to_lower (usr_ApiKey u) = key \<and> user_entry L config u = Inr pe)"
  using assms
proof (induction users arbitrary: names ret)
  case (Cons u users)
  then obtain e where "user_entry L config u = Inr e"
      "users_loop L config users (insert (usr_UserName u) names) (ret(to_lower (usr_ApiKey u) \<mapsto> e)) = Inr m"
    by (auto simp: Let_def chk_eq_Inr split: if_splits)
  with Cons show ?case
    by (force split: if_splits)
qed simp

definition initial_config :: CcqConfig where
  "initial_config = \<lparr>cc_AllowAnythingSupported = False, cc_DefaultRateLimit = 0, cc_DefaultBurstSize = 1, cc_Permissions = []\<rparr>"

lemma parseConfig_Some:
  assumes "parseConfig L d env = Inr m" and "m key = Some pe"
  obtains config u where "Config_Unmarshal L d initial_config = Inr config" "u \<in> set (cc_Permissions config)"
    "to_lower (usr_ApiKey u) = key" "user_entry L config u = Inr pe"
    "cc_AllowAnythingSupported config \<Longrightarrow> env \<noteq> Some MainNet"
  using assms unfolding parseConfig_def initial_config_def [symmetric]
  by (auto simp: chk_eq_Inr dest!: users_loop_Some)

lemma permitted_eth:
  assumes "user_entry L config u = Inr pe" and "\<not> usr_AllowAnything u" and "tag \<in> set eth_tags"
    and "validateCallData pe tag chain cds = Inr ()"
  shows "list_all (\<lambda>cd. list_ex (permits_call tag chain cd) (usr_AllowedCalls u)) cds"
proof (unfold list_all_iff, intro ballI)
  fix cd
  assume cd: "cd \<in> set cds"
  let ?call = "take 4 (cd_Data cd)"
  obtain addr where addr: "BytesToAddress (cd_To cd) = Inr addr"
    and allowed: "call_key tag (uint chain) (eth_call_rest (Address_String addr) ?call) \<in> pe_allowedCalls pe \<or>
      call_key tag (uint chain) (eth_call_rest ''*'' ?call) \<in> pe_allowedCalls pe"
  proof (cases "BytesToAddress (cd_To cd)")
    case (Inr addr)
    then show thesis
      using assms(2,4) cd user_entry_Inr(3) [OF assms(1)] that
      by (fastforce simp: validateCallData_def for_each_eq_Inr ETH_CALL_SIG_LENGTH_def Let_def split: if_splits)
  qed (use assms(4) cd in \<open>force simp: validateCallData_def for_each_eq_Inr\<close>)
  have tag: "CHR '':'' \<notin> set tag"
    using assms(3) by (rule tags_no_colon)
  obtain a ac where ac: "ac \<in> set (usr_AllowedCalls u)" "a = ''*'' \<or> a = Address_String addr"
      "allowed_call_key L ac = Inr (call_key tag (uint chain) (eth_call_rest a ?call))"
    using allowed user_entry_Inr(6) [OF assms(1)] by (auto simp: list_ex_iff)
  have a: "CHR '':'' \<notin> set a"
    using ac(2) no_colon(2) by (auto simp: Address_String_def)
  from ac(3) have "permits_call tag chain cd ac"
  proof (cases rule: allowed_call_key_cases)
    case (eth tag' c)
    then obtain addr' call' where c: "call_key tag (uint chain) (eth_call_rest a ?call) = call_key tag' (aec_Chain c) (eth_call_rest addr' call')"
        "if aec_ContractAddress c = ''*'' then addr' = ''*''
         else \<exists>b. StringToAddress (aec_ContractAddress c) = Inr b \<and> addr' = Address_String b"
        "hex_decode (trim_0x (aec_Call c)) = Inr call'"
      by (auto simp: eth_key_eq_Inr)
    have "CHR '':'' \<notin> set addr'"
      using c(2) no_colon(2) by (auto simp: Address_String_def split: if_splits)
    with c(1) a eth(1) tag have same: "tag = tag'" "aec_Chain c = uint chain" "addr' = a" "call' = ?call"
      by (auto simp: call_key_inj tags_no_colon eth_call_rest_inj)
    have "aec_ContractAddress c = ''*'' \<or> StringToAddress (aec_ContractAddress c) = Inr addr"
    proof (cases "aec_ContractAddress c = ''*''")
      case False
      then obtain b where b: "StringToAddress (aec_ContractAddress c) = Inr b" "a = Address_String b"
        using c(2) same by auto
      have "length b = 32"
        using b(1) by (rule StringToAddress_length)
      then have "a \<noteq> ''*''"
        using b(2) by (auto simp: Address_String_def dest: arg_cong [where f = length])
      then show ?thesis
        using ac(2) b by (auto simp: Address_String_def hex_encode_inj)
    qed simp
    then show ?thesis
      using eth(2) same c(3) addr by (auto simp: permits_call_def)
  next
    case (account x s)
    then show ?thesis
      using tag assms(3) by (auto simp: call_key_inj tags_no_colon eth_tags_def)
  next
    case (program x s)
    then show ?thesis
      using tag assms(3) by (auto simp: call_key_inj tags_no_colon eth_tags_def)
  qed
  then show "list_ex (permits_call tag chain cd) (usr_AllowedCalls u)"
    using ac(1) by (auto simp: list_ex_iff)
qed

text \<open>The base58 text of a key of 32 bytes determines the key.\<close>

definition base58_injective :: "ccq_libs \<Rightarrow> bool" where
  "base58_injective L \<longleftrightarrow> (\<forall>a b. length a = 32 \<longrightarrow> length b = 32 \<longrightarrow> PublicKey_String L a = PublicKey_String L b \<longrightarrow> a = b)"

lemma solana_text_stands:
  assumes "solana_text L account = Inr (PublicKey_String L key)" and "length key = 32" and "base58_injective L"
  shows "stands_for L account key"
  using assms by (auto simp: solana_text_def stands_for_def base58_injective_def chk_eq_Inr SolanaPublicKeyLength_def split: if_splits)

lemma permitted_account:
  assumes "user_entry L config u = Inr pe" and "check_solana_key L pe ''solAccount'' chain key = Inr ()"
    and "length key = 32" and "base58_injective L"
  shows "list_ex (permits_account L chain key) (usr_AllowedCalls u)"
proof -
  obtain ac where ac: "ac \<in> set (usr_AllowedCalls u)"
      "allowed_call_key L ac = Inr (call_key ''solAccount'' (uint chain) (PublicKey_String L key))"
    using assms(1,2) by (auto simp: check_solana_key_def user_entry_Inr(6) list_ex_iff split: if_splits)
  from ac(2) have "permits_account L chain key ac"
  proof (cases rule: allowed_call_key_cases)
    case (eth tag c)
    then show ?thesis
      by (auto simp: eth_key_eq_Inr call_key_inj tags_no_colon) (simp add: eth_tags_def)
  qed (use assms(3,4) in \<open>auto simp: call_key_inj tags_no_colon permits_account_def intro: solana_text_stands\<close>)
  with ac(1) show ?thesis
    by (auto simp: list_ex_iff)
qed

lemma permitted_program:
  assumes "user_entry L config u = Inr pe" and "check_solana_key L pe ''solPDA'' chain key = Inr ()"
    and "length key = 32" and "base58_injective L"
  shows "list_ex (permits_program L chain key) (usr_AllowedCalls u)"
proof -
  obtain ac where ac: "ac \<in> set (usr_AllowedCalls u)"
      "allowed_call_key L ac = Inr (call_key ''solPDA'' (uint chain) (PublicKey_String L key))"
    using assms(1,2) by (auto simp: check_solana_key_def user_entry_Inr(6) list_ex_iff split: if_splits)
  from ac(2) have "permits_program L chain key ac"
  proof (cases rule: allowed_call_key_cases)
    case (eth tag c)
    then show ?thesis
      by (auto simp: eth_key_eq_Inr call_key_inj tags_no_colon) (simp add: eth_tags_def)
  qed (use assms(3,4) in \<open>auto simp: call_key_inj tags_no_colon permits_program_def intro: solana_text_stands\<close>)
  with ac(1) show ?thesis
    by (auto simp: list_ex_iff)
qed

lemma permitted_query:
  assumes "user_entry L config u = Inr pe" and "\<not> usr_AllowAnything u" and "base58_injective L"
    and "PerChainQuery_Validate pcq = Inr ()" and "validate_per_chain L pe pcq = Inr ()"
  shows "permits_query L (usr_AllowedCalls u) pcq"
proof -
  obtain q where q: "pcq_Query pcq = Some q" "Query_Validate q = Inr ()"
    using PerChainQuery_Validate_Some [OF assms(4)] by blast
  have no: "\<not> pe_allowAnything pe"
    using assms(2) user_entry_Inr(3) [OF assms(1)] by simp
  show ?thesis
  proof (cases q)
    case (SolanaAccountQuery s)
    then show ?thesis
      using q no assms(5) permitted_account [OF assms(1) _ _ assms(3)]
      by (auto simp: permits_query_def validate_per_chain_def validateSolanaAccountQuery_def list_all_iff for_each_eq_Inr
          SolanaAccount_Validate_def chk_eq_Inr validate_account_def SolanaPublicKeyLength_def)
  next
    case (SolanaPdaQuery s)
    then show ?thesis
      using q no assms(5) permitted_program [OF assms(1) _ _ assms(3)]
      by (auto simp: permits_query_def validate_per_chain_def validateSolanaPdaQuery_def list_all_iff for_each_eq_Inr
          SolanaPda_Validate_def chk_eq_Inr validate_pda_def SolanaPublicKeyLength_def)
  qed (use q assms(5) permitted_eth [OF assms(1,2)] in
      \<open>simp_all add: permits_query_def validate_per_chain_def eth_tags_def\<close>)
qed

lemma validateRequest_Inr:
  "validateRequest c L env perms signerKey apiKey qr = Inr (q, qr') \<longleftrightarrow> (\<exists>pe. GetUserEntry perms apiKey = Some pe \<and>
     sign_unsigned c env signerKey pe qr = Inr qr' \<and> QueryRequest_Unmarshal (sqr_QueryRequest qr') = Inr q \<and>
     QueryRequest_Validate q = Inr () \<and> for_each (validate_per_chain L pe) (qr_PerChainQueries q) = Inr ())"
  by (auto simp: validateRequest_def split: option.splits sum.splits)

text \<open>
  What the proxy passes on is permitted by the file. When the map of users was made from the file and
  validateRequest accepts a request for an API key, the file has a user with that key, up to the case of its letters,
  and every call of every query of the request is permitted to him by an entry of the file: the same kind of call on
  the same chain, at that contract or at any one, with those four bytes of call data; the same Solana account or program.
  A user who may do anything is only possible where the file switches that on and the environment was not the main
  network. So the text that calls are looked up by loses nothing. The base58 text of keys is assumed to be injective.
\<close>

lemma validated_requests_permitted:
  assumes "parseConfig L d env = Inr (perm_permMap perms)" and "base58_injective L"
    and "validateRequest c L env' perms signerKey apiKey qr = Inr (q, qr')"
  shows "\<exists>config u. Config_Unmarshal L d initial_config = Inr config \<and> u \<in> set (cc_Permissions config) \<and>
    to_lower (usr_ApiKey u) = apiKey \<and> QueryRequest_Unmarshal (sqr_QueryRequest qr) = Inr q \<and> QueryRequest_Validate q = Inr () \<and>
    (if sqr_Signature qr \<noteq> [] then qr' = qr
     else usr_AllowUnsigned u \<and> (\<exists>key. signerKey = Some key \<and>
       Sign c (QueryRequestDigest c env' (sqr_QueryRequest qr)) key = Inr (sqr_Signature qr'))) \<and>
    (if usr_AllowAnything u then cc_AllowAnythingSupported config \<and> env \<noteq> Some MainNet
     else list_all (permits_query L (usr_AllowedCalls u)) (qr_PerChainQueries q))"
proof -
  obtain pe where pe: "perm_permMap perms apiKey = Some pe" "sign_unsigned c env' signerKey pe qr = Inr qr'"
      "QueryRequest_Unmarshal (sqr_QueryRequest qr') = Inr q" "QueryRequest_Validate q = Inr ()"
      "for_each (validate_per_chain L pe) (qr_PerChainQueries q) = Inr ()"
    using assms(3) by (auto simp: validateRequest_Inr GetUserEntry_def)
  obtain config u where u: "Config_Unmarshal L d initial_config = Inr config" "u \<in> set (cc_Permissions config)"
      "to_lower (usr_ApiKey u) = apiKey" "user_entry L config u = Inr pe" "cc_AllowAnythingSupported config \<Longrightarrow> env \<noteq> Some MainNet"
    using parseConfig_Some [OF assms(1) pe(1)] by blast
  have signed: "if sqr_Signature qr \<noteq> [] then qr' = qr
     else usr_AllowUnsigned u \<and> (\<exists>key. signerKey = Some key \<and>
       Sign c (QueryRequestDigest c env' (sqr_QueryRequest qr)) key = Inr (sqr_Signature qr'))"
    using pe(2) user_entry_Inr(2) [OF u(4)] by (auto simp: sign_unsigned_def split: if_splits option.splits sum.splits)
  have "sqr_QueryRequest qr' = sqr_QueryRequest qr"
    using pe(2) by (auto simp: sign_unsigned_def split: if_splits option.splits sum.splits)
  moreover have "list_all (permits_query L (usr_AllowedCalls u)) (qr_PerChainQueries q)" if "\<not> usr_AllowAnything u"
    using permitted_query [OF u(4) that assms(2)] pe(4,5) by (auto simp: QueryRequest_Validate_iff list_all_iff for_each_eq_Inr)
  ultimately show ?thesis
    using u pe signed user_entry_Inr(5) [OF u(4)] by auto
qed

text \<open>
  A reload forgets the network. A file that allows users to do anything is refused when the proxy starts on the
  main network. When the same file replaces one that was accepted, it is taken: NewPermissions does not store the
  environment, so that the check of the reload never applies.
\<close>

lemma reload_ignores_main_network:
  assumes "NewPermissions L content MainNet = Inr perms" and "Config_Unmarshal L d initial_config = Inr config"
    and "cc_AllowAnythingSupported config" and "cc_DefaultBurstSize config \<noteq> 0"
    and "users_loop L config (cc_Permissions config) {} (\<lambda>_. None) = Inr m"
  shows "(\<exists>e. NewPermissions L (Inr d) MainNet = Inl e) \<and> perm_permMap (Permissions_Reload L (Inr d) perms) = m"
proof -
  have "perm_env perms = None"
    using assms(1) by (auto simp: NewPermissions_def chk_eq_Inr)
  then show ?thesis
    using assms(2-5) by (simp add: NewPermissions_def Permissions_Reload_def parseConfigFile_def parseConfig_def
        initial_config_def guard_err_def)
qed

section \<open>A file\<close>

definition file_user :: CcqUser where
  "file_user = \<lparr>usr_UserName = ''Test User'', usr_ApiKey = ''My_Secret_Key'', usr_AllowUnsigned = True, usr_AllowAnything = False,
     usr_RateLimit = None, usr_BurstSize = None, usr_LogResponses = True,
     usr_AllowedCalls = [\<lparr>ac_EthCall = Some \<lparr>aec_Chain = 2, aec_ContractAddress = hex_encode (replicate 20 1), aec_Call = ''0x06fdde03''\<rparr>,
       ac_EthCallByTimestamp = None, ac_EthCallWithFinality = None, ac_SolanaAccount = None, ac_SolanaPda = None\<rparr>]\<rparr>"

definition file_config :: "byte list \<Rightarrow> CcqConfig" where
  "file_config d = (if d = [] then initial_config\<lparr>cc_Permissions := [file_user]\<rparr>
     else initial_config\<lparr>cc_AllowAnythingSupported := True,
       cc_Permissions := [file_user\<lparr>usr_AllowAnything := True, usr_AllowedCalls := []\<rparr>]\<rparr>)"

definition file_libs :: ccq_libs where
  "file_libs = \<lparr>Config_Unmarshal = (\<lambda>d _. Inr (file_config d)), PublicKey_String = hex_encode,
     PublicKeyFromBase58 = hex_decode\<rparr>"

definition file_entry :: permissionEntry where
  "file_entry = \<lparr>pe_userName = ''Test User'', pe_apiKey = ''my_secret_key'', pe_rateLimiter = None, pe_allowUnsigned = True,
     pe_allowAnything = False, pe_logResponses = True,
     pe_allowedCalls = {call_key ''ethCall'' 2 (eth_call_rest (Address_String (replicate 12 0 @ replicate 20 1)) [6, 253, 222, 3])}\<rparr>"

lemma file_key: "to_lower ''My_Secret_Key'' = ''my_secret_key''"
  by code_simp

lemma file_libs_fields [simp]:
  "Config_Unmarshal file_libs d c = Inr (file_config d)" "PublicKey_String file_libs = hex_encode"
  by (simp_all add: file_libs_def)

lemma file_parse: "parseConfig file_libs [] env = Inr [''my_secret_key'' \<mapsto> file_entry]"
proof -
  have "StringToAddress (hex_encode (replicate 20 1)) = Inr (replicate 12 0 @ replicate 20 1)"
    by (simp add: StringToAddress_def hex_decode_encode)
  moreover have "hex_encode (replicate 20 1) \<noteq> ''*''"
    by (auto dest: arg_cong [where f = length])
  moreover have "hex_decode (trim_0x ''0x06fdde03'') = Inr [6, 253, 222, 3]"
    by code_simp
  ultimately have "allowed_call_key file_libs (hd (usr_AllowedCalls file_user)) =
      Inr (call_key ''ethCall'' 2 (eth_call_rest (Address_String (replicate 12 0 @ replicate 20 1)) [6, 253, 222, 3]))"
    by (simp add: allowed_call_key_def file_user_def eth_key_def ETH_CALL_SIG_LENGTH_def)
  then have "user_entry file_libs (file_config []) file_user = Inr file_entry"
    by (simp add: user_entry_def file_user_def rate_limiter_def file_config_def initial_config_def file_entry_def file_key)
  then show ?thesis
    by (simp add: parseConfig_def initial_config_def [symmetric])
      (simp add: file_config_def initial_config_def file_user_def file_key)
qed

lemma file_base58: "base58_injective file_libs"
  by (simp add: base58_injective_def hex_encode_inj)

lemma file_calls: "for_each (validate_per_chain file_libs file_entry) (qr_PerChainQueries sample_query) = Inr ()"
  by (simp add: sample_query_def validate_per_chain_def validateCallData_def BytesToAddress_def ETH_CALL_SIG_LENGTH_def file_entry_def)

theorem reload_ignores_main_network_witness:
  "\<exists>perms e pe. NewPermissions file_libs (Inr []) MainNet = Inr perms \<and> NewPermissions file_libs (Inr [1]) MainNet = Inl e \<and>
     GetUserEntry (Permissions_Reload file_libs (Inr [1]) perms) ''my_secret_key'' = Some pe \<and> pe_allowAnything pe"
proof -
  let ?perms = "\<lparr>perm_env = None, perm_permMap = [''my_secret_key'' \<mapsto> file_entry]\<rparr>"
  have new: "NewPermissions file_libs (Inr []) MainNet = Inr ?perms"
    by (simp add: NewPermissions_def parseConfigFile_def file_parse)
  obtain pe where users: "users_loop file_libs (file_config [1]) (cc_Permissions (file_config [1])) {} (\<lambda>_. None) = Inr [''my_secret_key'' \<mapsto> pe]"
      "pe_allowAnything pe"
    by (simp add: file_config_def initial_config_def file_user_def user_entry_def rate_limiter_def file_key)
  have config: "Config_Unmarshal file_libs [1] initial_config = Inr (file_config [1])" "cc_AllowAnythingSupported (file_config [1])"
      "cc_DefaultBurstSize (file_config [1]) \<noteq> 0"
    by (simp_all add: file_config_def initial_config_def)
  show ?thesis
    using reload_ignores_main_network [OF new config users(1)] new users(2) by (auto simp: GetUserEntry_def)
qed

end
