(* ===== verification/CcqServer.thy ===== *)
theory CcqServer imports "HOL-Library.AList" CcqPermissions QueryHandler begin

text \<open>
  The query proxy itself: node/cmd/ccq/http.go, pending_request.go, loggingMap.go and the listener of p2p.go. A
  client posts a request over HTTP; the handler checks it, notes it as pending, gives it to gossip and waits. The
  listener collects the signed responses of the guardians per request and digest of the response, and hands the
  response over when a quorum has signed it, or an error when no quorum can be reached any more.

  Handlers and listener are goroutines; the steps of server_step are what they do between two communications. The
  channels of a pending response are unbuffered, so a value goes through only when the handler waits in its select:
  the field pr_phase says where the handler is. encoding/json, HTTP headers and libp2p are inputs of the steps.
\<close>

section \<open>Pending responses\<close>

record GuardianSignature =
  gsig_Index :: int
  gsig_Signature :: string

record SignedResponse =
  srs_Response :: QueryResponsePublication
  srs_Signatures :: "GuardianSignature list"

text \<open>The handler publishes, waits, has received one of the three outcomes of its select, or has panicked.\<close>

datatype handler_phase = Publishing | Selecting | Has_Response SignedResponse | Has_Error int | Timed_Out | Panicked

record PendingResponse =
  pr_req :: SignedQueryRequest
  pr_userName :: string
  pr_queryRequest :: QueryRequest
  pr_maxMatchingResponses :: int
  pr_outstandingResponses :: int
  pr_quorum :: int
  pr_phase :: handler_phase

definition NewPendingResponse :: "SignedQueryRequest \<Rightarrow> string \<Rightarrow> QueryRequest \<Rightarrow> PendingResponse" where
  "NewPendingResponse req userName qr = \<lparr>pr_req = req, pr_userName = userName, pr_queryRequest = qr,
     pr_maxMatchingResponses = 0, pr_outstandingResponses = 0, pr_quorum = 0, pr_phase = Publishing\<rparr>"

type_synonym PendingResponses = "string \<Rightarrow> PendingResponse option"

definition request_key :: "SignedQueryRequest \<Rightarrow> string" where
  "request_key req = hex_encode (sqr_Signature req)"

definition Pending_Add :: "PendingResponse \<Rightarrow> PendingResponses \<Rightarrow> bool \<times> PendingResponses" where
  "Pending_Add r p = (if p (request_key (pr_req r)) \<noteq> None then (False, p) else (True, p(request_key (pr_req r) \<mapsto> r)))"

definition Pending_Get :: "string \<Rightarrow> PendingResponses \<Rightarrow> PendingResponse option" where
  "Pending_Get signature p = p signature"

definition Pending_Remove :: "PendingResponse \<Rightarrow> PendingResponses \<Rightarrow> PendingResponses" where
  "Pending_Remove r p = p(request_key (pr_req r) := None)"

definition updateStats :: "int \<Rightarrow> int \<Rightarrow> int \<Rightarrow> PendingResponse \<Rightarrow> PendingResponse" where
  "updateStats maxMatching outstanding quorum r =
     r\<lparr>pr_maxMatchingResponses := maxMatching, pr_outstandingResponses := outstanding, pr_quorum := quorum\<rparr>"

text \<open>A send with a default branch on one of the channels of the handler.\<close>

definition give_handler :: "handler_phase \<Rightarrow> PendingResponse \<Rightarrow> PendingResponse" where
  "give_handler outcome r = (if pr_phase r = Selecting then r\<lparr>pr_phase := outcome\<rparr> else r)"

section \<open>The logging map\<close>

definition expireAfter :: time where "expireAfter = 2 * 60 * 1000000000"

definition LoggingMap_CleanUp :: "time \<Rightarrow> (string \<Rightarrow> time option) \<Rightarrow> string \<Rightarrow> time option" where
  "LoggingMap_CleanUp now m = (\<lambda>requestId. case m requestId of
     Some cleanUpTime \<Rightarrow> if cleanUpTime < now then None else Some cleanUpTime | None \<Rightarrow> None)"

definition LoggingMap_AddRequest :: "time \<Rightarrow> string \<Rightarrow> (string \<Rightarrow> time option) \<Rightarrow> string \<Rightarrow> time option" where
  "LoggingMap_AddRequest now requestSignature m = m(requestSignature \<mapsto> now + expireAfter)"

definition ShouldLogResponse :: "string \<Rightarrow> (string \<Rightarrow> time option) \<Rightarrow> bool" where
  "ShouldLogResponse requestSignature m \<longleftrightarrow> m requestSignature \<noteq> None"

section \<open>State\<close>

datatype http_reply = Reply_Error int | Reply_JSON string "string list"

text \<open>
  The responses of the listener: for a request, the digests of responses with the guardian signatures on them; no
  entry is the empty list. sv_published is what was given to gossip, sv_replies what the handlers that waited have
  answered, with the key of the request, sv_refused the statuses of the requests that were refused at once.
\<close>

type_synonym digest_signatures = "(byte list \<times> GuardianSignature list) list"

record ccq_server =
  sv_permissions :: Permissions
  sv_pending :: PendingResponses
  sv_loggingMap :: "string \<Rightarrow> time option"
  sv_responses :: "string \<Rightarrow> digest_signatures"
  sv_published :: "(string \<times> SignedQueryRequest) list"
  sv_replies :: "(string \<times> http_reply) list"
  sv_refused :: "int list"

text \<open>What is fixed at the start: libraries, environment, signing key, guardian set and quorum.\<close>

record server_config =
  sc_crypto :: crypto
  sc_libs :: ccq_libs
  sc_env :: Environment
  sc_signerKey :: "byte list option"
  sc_guardianSet :: GuardianSet
  sc_quorum :: int

text \<open>FetchCurrentGuardianSet: the keys and the index that the contract reports; the set has no key map.\<close>

definition fetched_set :: "eth_address list \<Rightarrow> 32 word \<Rightarrow> GuardianSet" where
  "fetched_set keys currentIndex = \<lparr>gs_Keys = keys, gs_Index = currentIndex, gs_quorum = 0, gs_keyMap = None\<rparr>"

definition new_server :: "crypto \<Rightarrow> ccq_libs \<Rightarrow> Environment \<Rightarrow> byte list option \<Rightarrow> eth_address list \<Rightarrow> 32 word \<Rightarrow>
    go_error + byte list \<Rightarrow> go_error + server_config \<times> ccq_server" where
  "new_server c L env signerKey keys currentIndex permFile =
     chk (NewPermissions L permFile env) (\<lambda>permissions.
     chk (CalculateQuorum (int (length keys))) (\<lambda>quorum.
     Inr (\<lparr>sc_crypto = c, sc_libs = L, sc_env = env, sc_signerKey = signerKey, sc_guardianSet = fetched_set keys currentIndex,
            sc_quorum = quorum\<rparr>,
          \<lparr>sv_permissions = permissions, sv_pending = (\<lambda>_. None), sv_loggingMap = (\<lambda>_. None), sv_responses = (\<lambda>_. []),
            sv_published = [], sv_replies = [], sv_refused = []\<rparr>)))"

section \<open>The listener\<close>

definition signer_address :: "crypto \<Rightarrow> byte list \<Rightarrow> byte list \<Rightarrow> go_error + eth_address" where
  "signer_address c digest signature =
     chk (Ecrecover c digest signature) (\<lambda>signerBytes. Inr (BytesToEthAddress c (drop 12 (Keccak256 c (drop 1 signerBytes)))))"

definition signatures_for :: "byte list \<Rightarrow> digest_signatures \<Rightarrow> GuardianSignature list" where
  "signatures_for digest m = (case map_of m digest of Some sigs \<Rightarrow> sigs | None \<Rightarrow> [])"

definition total_signers :: "digest_signatures \<Rightarrow> nat" where
  "total_signers m = sum_list (map (\<lambda>(d, sigs). length sigs) m)"

definition max_matching :: "digest_signatures \<Rightarrow> nat" where
  "max_matching m = fold (\<lambda>(d, sigs) k. if k < length sigs then length sigs else k) m 0"

definition set_pending :: "string \<Rightarrow> PendingResponse \<Rightarrow> ccq_server \<Rightarrow> ccq_server" where
  "set_pending key r st = st\<lparr>sv_pending := (sv_pending st)(key \<mapsto> r)\<rparr>"

definition set_responses :: "string \<Rightarrow> digest_signatures \<Rightarrow> ccq_server \<Rightarrow> ccq_server" where
  "set_responses key m st = st\<lparr>sv_responses := (sv_responses st)(key := m)\<rparr>"

text \<open>What follows when the signature of a new guardian has been appended: quorum, no quorum any more, or waiting.\<close>

definition count_signature :: "server_config \<Rightarrow> string \<Rightarrow> PendingResponse \<Rightarrow> QueryResponsePublication \<Rightarrow> digest_signatures \<Rightarrow>
    GuardianSignature list \<Rightarrow> ccq_server \<Rightarrow> ccq_server" where
  "count_signature sc key pendingResponse queryResponse m sigs st =
     (if sc_quorum sc \<le> int (length sigs) then
        set_pending key (give_handler (Has_Response \<lparr>srs_Response = queryResponse, srs_Signatures = sigs\<rparr>) pendingResponse)
          (set_responses key [] st)
      else
        let outstanding = int (length (gs_Keys (sc_guardianSet sc))) - int (total_signers m);
            r = updateStats (int (max_matching m)) outstanding (sc_quorum sc) pendingResponse in
        if int (max_matching m) + outstanding < sc_quorum sc then
          set_pending key (give_handler (Has_Error StatusBadRequest) r) (set_responses key [] st)
        else set_pending key r (set_responses key m st))"

definition handle_signed_response :: "server_config \<Rightarrow> SignedQueryResponse \<Rightarrow> ccq_server \<Rightarrow> ccq_server" where
  "handle_signed_response sc msg st =
     (case Publication_Unmarshal (sqp_QueryResponse msg) of
        Inl _ \<Rightarrow> st
      | Inr queryResponse \<Rightarrow>
          let requestSignature = request_key (qrp_Request queryResponse) in
          (case Pending_Get requestSignature (sv_pending st) of
             None \<Rightarrow> st
           | Some pendingResponse \<Rightarrow>
               if sqr_QueryRequest (qrp_Request queryResponse) \<noteq> sqr_QueryRequest (pr_req pendingResponse) \<or>
                  sqr_Signature (qrp_Request queryResponse) \<noteq> sqr_Signature (pr_req pendingResponse) then st
               else
                 let digest = GetQueryResponseDigestFromBytes (sc_crypto sc) (sqp_QueryResponse msg) in
                 (case signer_address (sc_crypto sc) digest (sqp_Signature msg) of
                    Inl _ \<Rightarrow> st
                  | Inr signerAddress \<Rightarrow>
                      (case KeyIndex (sc_guardianSet sc) signerAddress of
                         (_, False) \<Rightarrow> st
                       | (keyIdx, True) \<Rightarrow>
                           let sigs = signatures_for digest (sv_responses st requestSignature) in
                           if list_ex (\<lambda>gs. gsig_Index gs = keyIdx) sigs then st
                           else
                             let sigs = sigs @ [\<lparr>gsig_Index = keyIdx, gsig_Signature = hex_encode (sqp_Signature msg)\<rparr>];
                                 m = AList.update digest sigs (sv_responses st requestSignature)
                             in count_signature sc requestSignature pendingResponse queryResponse m sigs st))))"

section \<open>The HTTP handler\<close>

definition StatusUnauthorized :: int where "StatusUnauthorized = 401"
definition StatusTooManyRequests :: int where "StatusTooManyRequests = 429"
definition StatusGatewayTimeout :: int where "StatusGatewayTimeout = 504"

definition refuse :: "int \<Rightarrow> ccq_server \<Rightarrow> ccq_server" where
  "refuse status st = st\<lparr>sv_refused := sv_refused st @ [status]\<rparr>"

text \<open>
  From the request to the gossip: the decoded body with its two hexadecimal texts, the values of the header
  X-Api-Key if there is one, whether the rate limiter of the user lets the request through, and whether gossip
  takes the message.
\<close>

definition handle_query :: "server_config \<Rightarrow> time \<Rightarrow> go_error + string \<times> string \<Rightarrow> string list option \<Rightarrow> bool \<Rightarrow> bool \<Rightarrow>
    ccq_server \<Rightarrow> ccq_server" where
  "handle_query sc now body apiKeys allowed published st =
     (case body of
        Inl _ \<Rightarrow> refuse StatusBadRequest st
      | Inr (q_Bytes, q_Signature) \<Rightarrow>
          (case apiKeys of
             Some [key] \<Rightarrow>
               let apiKey = to_lower key in
               (case GetUserEntry (sv_permissions st) apiKey of
                  None \<Rightarrow> refuse StatusForbidden st
                | Some permEntry \<Rightarrow>
                    if pe_rateLimiter permEntry \<noteq> None \<and> \<not> allowed then refuse StatusTooManyRequests st
                    else (case hex_decode q_Bytes of
                        Inl _ \<Rightarrow> refuse StatusBadRequest st
                      | Inr queryRequestBytes \<Rightarrow>
                          (case hex_decode q_Signature of
                             Inl _ \<Rightarrow> refuse StatusBadRequest st
                           | Inr signature \<Rightarrow>
                               (case validateRequest (sc_crypto sc) (sc_libs sc) (sc_env sc) (sv_permissions st) (sc_signerKey sc) apiKey
                                   \<lparr>sqr_QueryRequest = queryRequestBytes, sqr_Signature = signature\<rparr> of
                                  Inl (status, _) \<Rightarrow> refuse status st
                                | Inr (queryReq, signedQueryRequest) \<Rightarrow>
                                    let r = NewPendingResponse signedQueryRequest (pe_userName permEntry) queryReq in
                                    (case Pending_Add r (sv_pending st) of
                                       (False, _) \<Rightarrow> refuse StatusBadRequest st
                                     | (True, pending) \<Rightarrow>
                                         let st = st\<lparr>sv_pending := pending, sv_loggingMap :=
                                               if pe_logResponses permEntry
                                               then LoggingMap_AddRequest now (request_key signedQueryRequest) (sv_loggingMap st)
                                               else sv_loggingMap st\<rparr> in
                                         if published then st\<lparr>sv_published := sv_published st @ [(apiKey, signedQueryRequest)]\<rparr>
                                         else refuse StatusInternalServerError (st\<lparr>sv_pending := Pending_Remove r (sv_pending st)\<rparr>))))))
           | _ \<Rightarrow> refuse StatusUnauthorized st))"

text \<open>
  The answer of a response that has arrived. An index over 255 makes the handler report an error that is nil, which
  panics; the HTTP server recovers, and the pending response is not removed.
\<close>

fun signature_texts :: "GuardianSignature list \<Rightarrow> go_error + string list" where
  "signature_texts [] = Inr []"
| "signature_texts (sig # sigs) =
     (if 255 < gsig_Index sig then Inl (Panic ''nil pointer dereference'')
      else chk (signature_texts sigs) (\<lambda>texts. Inr ((gsig_Signature sig @ hex_encode [word_of_int (gsig_Index sig)]) # texts)))"

definition write_response :: "SignedResponse \<Rightarrow> go_error + http_reply" where
  "write_response res =
     (case Publication_Marshal (srs_Response res) of
        Inl _ \<Rightarrow> Inr (Reply_Error StatusInternalServerError)
      | Inr resBytes \<Rightarrow>
          chk (signature_texts (sort_key gsig_Index (srs_Signatures res))) (\<lambda>signatures.
          Inr (Reply_JSON (hex_encode resBytes) signatures)))"

definition reply :: "string \<Rightarrow> PendingResponse \<Rightarrow> http_reply \<Rightarrow> ccq_server \<Rightarrow> ccq_server" where
  "reply key r rep st = st\<lparr>sv_replies := sv_replies st @ [(key, rep)], sv_pending := Pending_Remove r (sv_pending st)\<rparr>"

definition finish_query :: "string \<Rightarrow> PendingResponse \<Rightarrow> ccq_server \<Rightarrow> ccq_server" where
  "finish_query key r st =
     (case pr_phase r of
        Has_Response res \<Rightarrow>
          (case write_response res of
             Inl _ \<Rightarrow> set_pending key (r\<lparr>pr_phase := Panicked\<rparr>) st
           | Inr rep \<Rightarrow> reply key r rep st)
      | Has_Error status \<Rightarrow> reply key r (Reply_Error status) st
      | Timed_Out \<Rightarrow> reply key r (Reply_Error StatusGatewayTimeout) st
      | _ \<Rightarrow> st)"

section \<open>Steps\<close>

datatype server_event =
    Http_Query time "go_error + string \<times> string" "string list option" bool bool
  | Http_Select string
  | Http_Timeout string
  | Http_Reply string
  | P2p_Response SignedQueryResponse
  | Reload_Permissions "go_error + byte list"
  | Logging_Tick time

inductive server_step :: "server_config \<Rightarrow> server_event \<Rightarrow> ccq_server \<Rightarrow> ccq_server \<Rightarrow> bool" for sc where
  query: "server_step sc (Http_Query now body apiKeys allowed published) st (handle_query sc now body apiKeys allowed published st)"
| select: "sv_pending st key = Some r \<Longrightarrow> pr_phase r = Publishing \<Longrightarrow>
     server_step sc (Http_Select key) st (set_pending key (r\<lparr>pr_phase := Selecting\<rparr>) st)"
| timeout: "sv_pending st key = Some r \<Longrightarrow> pr_phase r = Selecting \<Longrightarrow>
     server_step sc (Http_Timeout key) st (set_pending key (r\<lparr>pr_phase := Timed_Out\<rparr>) st)"
| reply: "sv_pending st key = Some r \<Longrightarrow> server_step sc (Http_Reply key) st (finish_query key r st)"
| response: "server_step sc (P2p_Response msg) st (handle_signed_response sc msg st)"
| reload: "server_step sc (Reload_Permissions content) st
     (st\<lparr>sv_permissions := Permissions_Reload (sc_libs sc) content (sv_permissions st)\<rparr>)"
| logging: "server_step sc (Logging_Tick now) st (st\<lparr>sv_loggingMap := LoggingMap_CleanUp now (sv_loggingMap st)\<rparr>)"

end
