(* ===== verification/CcqServerRun.thy ===== *)
theory CcqServerRun imports CcqServer begin

text \<open>
  What the query proxy keeps in every run: what it gives to gossip is permitted by a permissions file that it has
  ccq_loaded; what it answers to a client carries the signatures of a quorum of the guardian set on a response to that
  very request. And what the count of signatures means when it gives up: with guardians that answer once, that no
  quorum is possible any more; a single guardian that answers differently several times makes it give up too.
\<close>

section \<open>What is kept\<close>

definition guardian_signed :: "server_config \<Rightarrow> byte list \<Rightarrow> nat \<Rightarrow> byte list \<Rightarrow> bool" where
  "guardian_signed sc digest i sig \<longleftrightarrow> i < length (gs_Keys (sc_guardianSet sc)) \<and>
     signer_address (sc_crypto sc) digest sig = Inr (gs_Keys (sc_guardianSet sc) ! i)"

definition sig_ok :: "server_config \<Rightarrow> byte list \<Rightarrow> GuardianSignature \<Rightarrow> bool" where
  "sig_ok sc digest gs \<longleftrightarrow> (\<exists>i sig. gs = \<lparr>gsig_Index = int i, gsig_Signature = hex_encode sig\<rparr> \<and> guardian_signed sc digest i sig)"

definition sigs_ok :: "server_config \<Rightarrow> byte list \<Rightarrow> GuardianSignature list \<Rightarrow> bool" where
  "sigs_ok sc digest sigs \<longleftrightarrow> list_all (sig_ok sc digest) sigs \<and> distinct (map gsig_Index sigs)"

definition response_ok :: "server_config \<Rightarrow> SignedQueryRequest \<Rightarrow> SignedResponse \<Rightarrow> bool" where
  "response_ok sc req res \<longleftrightarrow> qrp_Request (srs_Response res) = req \<and> sc_quorum sc \<le> int (length (srs_Signatures res)) \<and>
     (\<exists>b. Publication_Unmarshal b = Inr (srs_Response res) \<and>
       sigs_ok sc (GetQueryResponseDigestFromBytes (sc_crypto sc) b) (srs_Signatures res))"

definition pending_ok :: "server_config \<Rightarrow> (string \<times> SignedQueryRequest) list \<Rightarrow> string \<Rightarrow> PendingResponse \<Rightarrow> bool" where
  "pending_ok sc published key r \<longleftrightarrow> key = request_key (pr_req r) \<and> pr_req r \<in> snd ` set published \<and>
     (\<forall>res. pr_phase r = Has_Response res \<longrightarrow> response_ok sc (pr_req r) res)"

definition reply_ok :: "server_config \<Rightarrow> (string \<times> SignedQueryRequest) list \<Rightarrow> string \<times> http_reply \<Rightarrow> bool" where
  "reply_ok sc published rep \<longleftrightarrow> (\<forall>key bytes texts. rep = (key, Reply_JSON bytes texts) \<longrightarrow>
     (\<exists>req res. request_key req = key \<and> req \<in> snd ` set published \<and> response_ok sc req res \<and>
        write_response res = Inr (Reply_JSON bytes texts)))"

text \<open>The files that the proxy has read so far.\<close>

definition ccq_loaded :: "byte list \<Rightarrow> (server_event \<times> ccq_server) list \<Rightarrow> byte list \<Rightarrow> bool" where
  "ccq_loaded first tr d \<longleftrightarrow> d = first \<or> Reload_Permissions (Inr d) \<in> fst ` set tr"

definition permitted_by :: "server_config \<Rightarrow> byte list \<Rightarrow> string \<Rightarrow> SignedQueryRequest \<Rightarrow> bool" where
  "permitted_by sc d apiKey req \<longleftrightarrow> (\<exists>config u q. Config_Unmarshal (sc_libs sc) d initial_config = Inr config \<and>
     u \<in> set (cc_Permissions config) \<and> to_lower (usr_ApiKey u) = apiKey \<and>
     QueryRequest_Unmarshal (sqr_QueryRequest req) = Inr q \<and> QueryRequest_Validate q = Inr () \<and>
     (usr_AllowAnything u \<or> list_all (permits_query (sc_libs sc) (usr_AllowedCalls u)) (qr_PerChainQueries q)))"

definition server_inv :: "server_config \<Rightarrow> byte list \<Rightarrow> (server_event \<times> ccq_server) list \<Rightarrow> ccq_server \<Rightarrow> bool" where
  "server_inv sc first tr st \<longleftrightarrow>
     (\<forall>key r. sv_pending st key = Some r \<longrightarrow> pending_ok sc (sv_published st) key r) \<and>
     (\<forall>key digest sigs. (digest, sigs) \<in> set (sv_responses st key) \<longrightarrow> sigs_ok sc digest sigs) \<and>
     list_all (reply_ok sc (sv_published st)) (sv_replies st) \<and>
     (\<exists>d env. ccq_loaded first tr d \<and> parseConfig (sc_libs sc) d env = Inr (perm_permMap (sv_permissions st))) \<and>
     list_all (\<lambda>(apiKey, req). \<exists>d. ccq_loaded first tr d \<and> permitted_by sc d apiKey req) (sv_published st)"

section \<open>Steps keep it\<close>

lemma pending_ok_published: "pending_ok sc ps key r \<Longrightarrow> set ps \<subseteq> set ps' \<Longrightarrow> pending_ok sc ps' key r"
  by (auto simp: pending_ok_def)

lemma reply_ok_published: "reply_ok sc ps rep \<Longrightarrow> set ps \<subseteq> set ps' \<Longrightarrow> reply_ok sc ps' rep"
  by (simp add: reply_ok_def) (metis image_mono subsetD)

lemma loaded_snoc: "ccq_loaded first tr d \<Longrightarrow> ccq_loaded first (tr @ [ev]) d"
  by (auto simp: ccq_loaded_def)

lemma server_inv_longer:
  assumes "server_inv sc first tr st"
  shows "server_inv sc first (tr @ [ev]) st"
proof -
  have "list_all (\<lambda>(apiKey, req). \<exists>d. ccq_loaded first (tr @ [ev]) d \<and> permitted_by sc d apiKey req) (sv_published st)"
    using assms by (auto simp: server_inv_def elim!: list.pred_mono_strong intro: loaded_snoc)
  moreover have "\<exists>d env. ccq_loaded first (tr @ [ev]) d \<and> parseConfig (sc_libs sc) d env = Inr (perm_permMap (sv_permissions st))"
    using assms by (auto simp: server_inv_def intro: loaded_snoc)
  ultimately show ?thesis
    using assms by (simp add: server_inv_def)
qed

text \<open>Changing one pending response and the signatures of its request.\<close>

lemma server_inv_set_pending:
  "server_inv sc first tr st \<Longrightarrow> pending_ok sc (sv_published st) key r \<Longrightarrow> server_inv sc first tr (set_pending key r st)"
  by (auto simp: server_inv_def set_pending_def)

lemma server_inv_set_responses:
  "server_inv sc first tr st \<Longrightarrow> (\<And>digest sigs. (digest, sigs) \<in> set m \<Longrightarrow> sigs_ok sc digest sigs) \<Longrightarrow>
     server_inv sc first tr (set_responses key m st)"
  by (auto simp: server_inv_def set_responses_def)

lemma pending_ok_give:
  "pending_ok sc ps key r \<Longrightarrow> (\<And>res. outcome = Has_Response res \<Longrightarrow> response_ok sc (pr_req r) res) \<Longrightarrow>
     pending_ok sc ps key (give_handler outcome r)"
  by (auto simp: pending_ok_def give_handler_def)

lemma pending_ok_updateStats [simp]: "pending_ok sc ps key (updateStats a b d r) = pending_ok sc ps key r"
  by (simp add: pending_ok_def updateStats_def)

lemma updateStats_req [simp]: "pr_req (updateStats a b d r) = pr_req r"
  by (simp add: updateStats_def)

lemma published_set [simp]:
  "sv_published (set_pending key r st) = sv_published st" "sv_published (set_responses key m st) = sv_published st"
  by (simp_all add: set_pending_def set_responses_def)

lemma count_signature_inv:
  assumes "server_inv sc first tr st" and "pending_ok sc (sv_published st) key r"
    and "\<And>digest sigs. (digest, sigs) \<in> set m \<Longrightarrow> sigs_ok sc digest sigs"
    and "sc_quorum sc \<le> int (length sigs) \<Longrightarrow> response_ok sc (pr_req r) \<lparr>srs_Response = q, srs_Signatures = sigs\<rparr>"
  shows "server_inv sc first tr (count_signature sc key r q m sigs st)"
  unfolding count_signature_def Let_def using assms
  by (auto intro!: server_inv_set_pending server_inv_set_responses pending_ok_give)

lemma signatures_for_ok:
  "(\<And>d sigs. (d, sigs) \<in> set m \<Longrightarrow> sigs_ok sc d sigs) \<Longrightarrow> sigs_ok sc digest (signatures_for digest m)"
  by (auto simp: signatures_for_def sigs_ok_def split: option.split dest: map_of_SomeD)

lemma sigs_ok_append:
  assumes "sigs_ok sc digest sigs" and "\<not> list_ex (\<lambda>gs. gsig_Index gs = int i) sigs" and "guardian_signed sc digest i sig"
  shows "sigs_ok sc digest (sigs @ [\<lparr>gsig_Index = int i, gsig_Signature = hex_encode sig\<rparr>])"
  using assms by (auto simp: sigs_ok_def sig_ok_def list_ex_iff)

lemma set_update_subset: "(x, y) \<in> set (AList.update k v m) \<Longrightarrow> (x, y) = (k, v) \<or> (x, y) \<in> set m"
  by (induction m) (auto split: if_splits)

text \<open>A message that the listener counts: everything it has checked of it.\<close>

lemma handle_signed_response_cases:
  assumes "gs_keyMap (sc_guardianSet sc) = None"
  obtains (same) "handle_signed_response sc msg st = st"
  | (counted) q r i digest sigs where "Publication_Unmarshal (sqp_QueryResponse msg) = Inr q"
      "sv_pending st (request_key (qrp_Request q)) = Some r" "qrp_Request q = pr_req r"
      "digest = GetQueryResponseDigestFromBytes (sc_crypto sc) (sqp_QueryResponse msg)"
      "guardian_signed sc digest i (sqp_Signature msg)"
      "\<not> list_ex (\<lambda>gs. gsig_Index gs = int i) (signatures_for digest (sv_responses st (request_key (qrp_Request q))))"
      "sigs = signatures_for digest (sv_responses st (request_key (qrp_Request q))) @
         [\<lparr>gsig_Index = int i, gsig_Signature = hex_encode (sqp_Signature msg)\<rparr>]"
      "handle_signed_response sc msg st = count_signature sc (request_key (qrp_Request q)) r q
         (AList.update digest sigs (sv_responses st (request_key (qrp_Request q)))) sigs st"
proof (cases "handle_signed_response sc msg st = st")
  case False
  then obtain q r where q: "Publication_Unmarshal (sqp_QueryResponse msg) = Inr q"
      "sv_pending st (request_key (qrp_Request q)) = Some r"
      "sqr_QueryRequest (qrp_Request q) = sqr_QueryRequest (pr_req r)" "sqr_Signature (qrp_Request q) = sqr_Signature (pr_req r)"
    by (auto simp: handle_signed_response_def Let_def Pending_Get_def split: sum.splits option.splits if_splits)
  let ?digest = "GetQueryResponseDigestFromBytes (sc_crypto sc) (sqp_QueryResponse msg)"
  obtain addr n where n: "signer_address (sc_crypto sc) ?digest (sqp_Signature msg) = Inr addr"
      "find_key 0 (gs_Keys (sc_guardianSet sc)) addr = (n, True)"
    using False q assms
    by (auto simp: handle_signed_response_def Let_def Pending_Get_def KeyIndex_def split: sum.splits prod.splits bool.splits)
  then obtain i where i: "n = int i" "guardian_signed sc ?digest i (sqp_Signature msg)"
    by (auto simp: find_key_iff guardian_signed_def)
  show thesis
    by (rule counted [OF q(1,2) _ refl i(2) _ refl])
      (use False q n i(1) assms in \<open>auto simp: handle_signed_response_def Let_def Pending_Get_def KeyIndex_def split: if_splits\<close>)
qed (rule same)

lemma response_step_inv:
  assumes "server_inv sc first tr st" and "gs_keyMap (sc_guardianSet sc) = None"
  shows "server_inv sc first tr (handle_signed_response sc msg st)"
proof (rule handle_signed_response_cases [OF assms(2), of msg st])
  fix q :: QueryResponsePublication and r i digest sigs
  let ?key = "request_key (qrp_Request q)"
  assume a: "Publication_Unmarshal (sqp_QueryResponse msg) = Inr q" "sv_pending st ?key = Some r" "qrp_Request q = pr_req r"
    "digest = GetQueryResponseDigestFromBytes (sc_crypto sc) (sqp_QueryResponse msg)"
    "guardian_signed sc digest i (sqp_Signature msg)"
    "\<not> list_ex (\<lambda>gs. gsig_Index gs = int i) (signatures_for digest (sv_responses st ?key))"
    "sigs = signatures_for digest (sv_responses st ?key) @ [\<lparr>gsig_Index = int i, gsig_Signature = hex_encode (sqp_Signature msg)\<rparr>]"
    "handle_signed_response sc msg st = count_signature sc ?key r q (AList.update digest sigs (sv_responses st ?key)) sigs st"
  have old: "sigs_ok sc d s" if "(d, s) \<in> set (sv_responses st ?key)" for d s
    using assms(1) that by (auto simp: server_inv_def)
  have ok: "sigs_ok sc digest sigs"
    unfolding a(7) using a(5,6) signatures_for_ok [OF old] by (intro sigs_ok_append) auto
  show ?thesis
    unfolding a(8)
  proof (rule count_signature_inv [OF assms(1)])
    show "pending_ok sc (sv_published st) ?key r"
      using assms(1) a(2) by (auto simp: server_inv_def)
    show "sigs_ok sc d s" if "(d, s) \<in> set (AList.update digest sigs (sv_responses st ?key))" for d s
      using set_update_subset [OF that] old ok by auto
  qed (use a(1,3) ok in \<open>auto simp: response_ok_def a(4)\<close>)
qed (use assms(1) in simp)

lemma refuse_inv: "server_inv sc first tr st \<Longrightarrow> server_inv sc first tr (refuse status st)"
  by (simp add: server_inv_def refuse_def)

text \<open>A query is refused, dropped by gossip, or published as a permitted request.\<close>

lemma handle_query_cases:
  obtains (refused) status where "handle_query sc now body apiKeys allowed published st = refuse status st"
  | (pending) apiKey qr q req r logging where
      "validateRequest (sc_crypto sc) (sc_libs sc) (sc_env sc) (sv_permissions st) (sc_signerKey sc) apiKey qr = Inr (q, req)"
      "pr_req r = req" "pr_phase r = Publishing" "sv_pending st (request_key req) = None"
      "handle_query sc now body apiKeys allowed published st =
         (if published then st\<lparr>sv_pending := (sv_pending st)(request_key req \<mapsto> r), sv_loggingMap := logging,
            sv_published := sv_published st @ [(apiKey, req)]\<rparr>
          else refuse StatusInternalServerError (st\<lparr>sv_loggingMap := logging\<rparr>))"
proof -
  let ?h = "handle_query sc now body apiKeys allowed published st"
  show thesis
  proof (cases "\<exists>status. ?h = refuse status st")
    case True
    then show thesis using refused by blast
  next
    case False
    define is_refusal where "is_refusal x \<longleftrightarrow> (\<exists>status. x = refuse status st)" for x
    have [simp]: "is_refusal (refuse status st)" for status
      by (auto simp: is_refusal_def)
    have no: "\<not> is_refusal ?h"
      using False by (simp add: is_refusal_def)
    obtain b s key where h: "body = Inr (b, s)" "apiKeys = Some [key]"
      using no by (auto simp: handle_query_def split: sum.splits option.splits list.splits)
    obtain pe bytes sig where pe: "GetUserEntry (sv_permissions st) (to_lower key) = Some pe"
        "\<not> (pe_rateLimiter pe \<noteq> None \<and> \<not> allowed)" "hex_decode b = Inr bytes" "hex_decode s = Inr sig"
      using no by (auto simp: handle_query_def h Let_def split: sum.splits option.splits if_splits)
    obtain q req where v: "validateRequest (sc_crypto sc) (sc_libs sc) (sc_env sc) (sv_permissions st) (sc_signerKey sc) (to_lower key)
        \<lparr>sqr_QueryRequest = bytes, sqr_Signature = sig\<rparr> = Inr (q, req)"
      using no pe by (auto simp: handle_query_def h Let_def split: sum.splits)
    have new: "sv_pending st (request_key req) = None"
      using no pe v by (auto simp: handle_query_def h Let_def Pending_Add_def NewPendingResponse_def split: if_splits)
    then have undo: "(sv_pending st)(request_key req := None) = sv_pending st"
      by auto
    show thesis
      by (rule pending [OF v, of "NewPendingResponse req (pe_userName pe) q"
            "if pe_logResponses pe then LoggingMap_AddRequest now (request_key req) (sv_loggingMap st) else sv_loggingMap st"])
        (use pe v new in \<open>auto simp: handle_query_def h Let_def Pending_Add_def Pending_Remove_def NewPendingResponse_def undo\<close>)
  qed
qed

lemma Permissions_Reload_from:
  assumes "ccq_loaded first tr d" and "parseConfig L d env = Inr (perm_permMap perms)"
  shows "\<exists>d env. ccq_loaded first (tr @ [(Reload_Permissions content, st)]) d \<and>
    parseConfig L d env = Inr (perm_permMap (Permissions_Reload L content perms))"
proof (cases "parseConfigFile L content (perm_env perms)")
  case (Inl e)
  then show ?thesis
    using assms loaded_snoc unfolding Permissions_Reload_def by (metis sum.case(1))
next
  case (Inr m)
  then obtain d' where "content = Inr d'" "parseConfig L d' (perm_env perms) = Inr m"
    by (auto simp: parseConfigFile_def chk_eq_Inr)
  then show ?thesis
    using Inr by (auto simp: Permissions_Reload_def ccq_loaded_def)
qed

lemma published_ok:
  assumes "server_inv sc first tr st" and "base58_injective (sc_libs sc)"
    and "validateRequest (sc_crypto sc) (sc_libs sc) (sc_env sc) (sv_permissions st) (sc_signerKey sc) apiKey qr = Inr (q, req)"
  shows "\<exists>d. ccq_loaded first tr d \<and> permitted_by sc d apiKey req"
proof -
  obtain d env where d: "ccq_loaded first tr d" "parseConfig (sc_libs sc) d env = Inr (perm_permMap (sv_permissions st))"
    using assms(1) by (auto simp: server_inv_def)
  have "sqr_QueryRequest req = sqr_QueryRequest qr"
    using assms(3) by (auto simp: validateRequest_Inr sign_unsigned_def split: if_splits option.splits sum.splits)
  then have "permitted_by sc d apiKey req"
    unfolding permitted_by_def using validated_requests_permitted [OF d(2) assms(2,3)] by (metis (full_types))
  with d(1) show ?thesis by blast
qed

lemma query_step_inv:
  assumes "server_inv sc first tr st" and "base58_injective (sc_libs sc)"
  shows "server_inv sc first (tr @ [ev]) (handle_query sc now body apiKeys allowed published st)"
proof (rule handle_query_cases [of sc now body apiKeys allowed published st])
  fix status
  assume "handle_query sc now body apiKeys allowed published st = refuse status st"
  then show ?thesis
    using assms(1) by (simp add: refuse_inv server_inv_longer)
next
  fix apiKey qr q req r logging
  assume v: "validateRequest (sc_crypto sc) (sc_libs sc) (sc_env sc) (sv_permissions st) (sc_signerKey sc) apiKey qr = Inr (q, req)"
    and r: "pr_req r = req" "pr_phase r = Publishing"
    and h: "handle_query sc now body apiKeys allowed published st =
         (if published then st\<lparr>sv_pending := (sv_pending st)(request_key req \<mapsto> r), sv_loggingMap := logging,
            sv_published := sv_published st @ [(apiKey, req)]\<rparr>
          else refuse StatusInternalServerError (st\<lparr>sv_loggingMap := logging\<rparr>))"
  have inv: "server_inv sc first (tr @ [ev]) st"
    using assms(1) by (rule server_inv_longer)
  have keep: "server_inv sc first (tr @ [ev]) (st\<lparr>sv_loggingMap := logging\<rparr>)"
    using inv by (simp add: server_inv_def)
  have new: "\<exists>d. ccq_loaded first (tr @ [ev]) d \<and> permitted_by sc d apiKey req"
    using published_ok [OF assms v] loaded_snoc by blast
  have more: "set (sv_published st) \<subseteq> set (sv_published st @ [(apiKey, req)])"
    by auto
  have "pending_ok sc (sv_published st @ [(apiKey, req)]) (request_key req) r"
    using r by (simp add: pending_ok_def)
  moreover have "pending_ok sc (sv_published st @ [(apiKey, req)]) key r" if "sv_pending st key = Some r" for key r
    using inv that by (auto simp: server_inv_def intro: pending_ok_published [OF _ more])
  moreover have "list_all (reply_ok sc (sv_published st @ [(apiKey, req)])) (sv_replies st)"
    using inv by (auto simp: server_inv_def list_all_iff intro: reply_ok_published [OF _ more])
  ultimately have "server_inv sc first (tr @ [ev]) (st\<lparr>sv_pending := (sv_pending st)(request_key req \<mapsto> r), sv_loggingMap := logging,
      sv_published := sv_published st @ [(apiKey, req)]\<rparr>)"
    using inv new by (simp add: server_inv_def)
  then show ?thesis
    unfolding h using keep by (simp add: refuse_inv)
qed

lemma finish_query_inv:
  assumes "server_inv sc first tr st" and "sv_pending st key = Some r"
  shows "server_inv sc first tr (finish_query key r st)"
proof -
  have ok: "pending_ok sc (sv_published st) key r"
    using assms by (auto simp: server_inv_def)
  have rep: "server_inv sc first tr (CcqServer.reply key r rep st)" if "reply_ok sc (sv_published st) (key, rep)" for rep
    using assms(1) that by (auto simp: server_inv_def CcqServer.reply_def Pending_Remove_def)
  have error: "reply_ok sc (sv_published st) (key, Reply_Error status)" for status
    by (simp add: reply_ok_def)
  show ?thesis
  proof (cases "pr_phase r")
    case (Has_Response res)
    show ?thesis
    proof (cases "write_response res")
      case (Inl e)
      have "pending_ok sc (sv_published st) key (r\<lparr>pr_phase := Panicked\<rparr>)"
        using ok by (simp add: pending_ok_def)
      then show ?thesis
        using assms(1) Has_Response Inl by (simp add: finish_query_def server_inv_set_pending)
    next
      case (Inr x)
      have "reply_ok sc (sv_published st) (key, x)"
        unfolding reply_ok_def using ok Has_Response Inr by (auto simp: pending_ok_def)
      then show ?thesis
        using Has_Response Inr rep by (simp add: finish_query_def)
    qed
  qed (use assms(1) rep error in \<open>simp_all add: finish_query_def\<close>)
qed

lemma server_inv_step:
  assumes "server_inv sc first tr st" and "gs_keyMap (sc_guardianSet sc) = None" and "base58_injective (sc_libs sc)"
    and "server_step sc ev st st'"
  shows "server_inv sc first (tr @ [(ev, st)]) st'"
proof -
  have inv: "server_inv sc first (tr @ [(ev, st)]) st"
    using assms(1) by (rule server_inv_longer)
  have phase: "server_inv sc first (tr @ [(ev, st)]) (set_pending key (r\<lparr>pr_phase := p\<rparr>) st)"
    if "sv_pending st key = Some r" "\<And>res. p \<noteq> Has_Response res" for key r p
    using inv that by (intro server_inv_set_pending) (auto simp: server_inv_def pending_ok_def)
  from assms(4) show ?thesis
  proof cases
    case (query now body apiKeys allowed published)
    then show ?thesis
      using query_step_inv [OF assms(1,3)] by simp
  next
    case (reply key r)
    then show ?thesis
      using finish_query_inv [OF inv] by simp
  next
    case (response msg)
    then show ?thesis
      using response_step_inv [OF inv assms(2)] by simp
  next
    case (reload content)
    obtain d env where d: "ccq_loaded first tr d" "parseConfig (sc_libs sc) d env = Inr (perm_permMap (sv_permissions st))"
      using assms(1) by (auto simp: server_inv_def)
    show ?thesis
      using inv Permissions_Reload_from [OF d, of content st] unfolding reload by (auto simp: server_inv_def)
  next
    case (logging now)
    then show ?thesis
      using inv by (simp add: server_inv_def)
  qed (use phase in auto)
qed

section \<open>Runs\<close>

text \<open>The state of a fresh proxy for the file it started with.\<close>

definition fresh_server :: "server_config \<Rightarrow> byte list \<Rightarrow> ccq_server \<Rightarrow> bool" where
  "fresh_server sc first st \<longleftrightarrow> base58_injective (sc_libs sc) \<and>
     new_server (sc_crypto sc) (sc_libs sc) (sc_env sc) (sc_signerKey sc) (gs_Keys (sc_guardianSet sc)) (gs_Index (sc_guardianSet sc))
       (Inr first) = Inr (sc, st)"

lemma fresh_server_facts:
  assumes "fresh_server sc first st"
  shows "gs_keyMap (sc_guardianSet sc) = None" "base58_injective (sc_libs sc)"
    "sc_quorum sc = int (length (gs_Keys (sc_guardianSet sc))) * 2 div 3 + 1" "server_inv sc first [] st"
proof -
  obtain permissions quorum where new: "NewPermissions (sc_libs sc) (Inr first) (sc_env sc) = Inr permissions"
      "CalculateQuorum (int (length (gs_Keys (sc_guardianSet sc)))) = Inr quorum"
      "sc = \<lparr>sc_crypto = sc_crypto sc, sc_libs = sc_libs sc, sc_env = sc_env sc, sc_signerKey = sc_signerKey sc,
         sc_guardianSet = fetched_set (gs_Keys (sc_guardianSet sc)) (gs_Index (sc_guardianSet sc)), sc_quorum = quorum\<rparr>"
      "st = \<lparr>sv_permissions = permissions, sv_pending = (\<lambda>_. None), sv_loggingMap = (\<lambda>_. None), sv_responses = (\<lambda>_. []),
            sv_published = [], sv_replies = [], sv_refused = []\<rparr>"
    using assms unfolding fresh_server_def new_server_def chk_eq_Inr sum.inject prod.inject by (metis (no_types))
  show "gs_keyMap (sc_guardianSet sc) = None"
    by (subst new(3)) (simp add: fetched_set_def)
  show "base58_injective (sc_libs sc)"
    using assms by (simp add: fresh_server_def)
  show "sc_quorum sc = int (length (gs_Keys (sc_guardianSet sc))) * 2 div 3 + 1"
    using new(2) by (subst new(3)) (simp add: CalculateQuorum_def)
  have "\<exists>env. parseConfig (sc_libs sc) first env = Inr (perm_permMap permissions)"
    using new(1) by (auto simp: NewPermissions_def parseConfigFile_def chk_eq_Inr)
  then show "server_inv sc first [] st"
    by (auto simp: new(4) server_inv_def ccq_loaded_def)
qed

text \<open>The configuration is fixed in a run; a fresh state determines what is assumed of it.\<close>

interpretation server: trace_invariant "fresh_server sc first" "server_step sc" "\<lambda>_. True"
  "\<lambda>tr st. gs_keyMap (sc_guardianSet sc) = None \<and> base58_injective (sc_libs sc) \<and>
     sc_quorum sc = int (length (gs_Keys (sc_guardianSet sc))) * 2 div 3 + 1 \<and> server_inv sc first tr st"
  for sc first
  by unfold_locales (simp_all add: fresh_server_facts server_inv_step)

text \<open>The texts of an answer are those of the signatures in the order of their guardians.\<close>

lemma signature_texts_Inr:
  "signature_texts sigs = Inr texts \<longleftrightarrow> list_all (\<lambda>s. gsig_Index s \<le> 255) sigs \<and>
     texts = map (\<lambda>s. gsig_Signature s @ hex_encode [word_of_int (gsig_Index s)]) sigs"
  by (induction sigs arbitrary: texts) (auto simp: chk_eq_Inr)

lemma sigs_ok_split:
  assumes "sigs_ok sc digest sigs"
  obtains ps where "sort_key gsig_Index sigs = map (\<lambda>(i, sig). \<lparr>gsig_Index = int i, gsig_Signature = hex_encode sig\<rparr>) ps"
    "sorted_wrt (<) (map fst ps)" "list_all (\<lambda>(i, sig). guardian_signed sc digest i sig) ps" "length ps = length sigs"
proof -
  let ?sorted = "sort_key gsig_Index sigs"
  have "list_all (sig_ok sc digest) ?sorted"
    using assms by (auto simp: sigs_ok_def list_all_iff)
  then have "\<forall>gs \<in> set ?sorted. \<exists>p. gs = \<lparr>gsig_Index = int (fst p), gsig_Signature = hex_encode (snd p)\<rparr> \<and>
      guardian_signed sc digest (fst p) (snd p)"
    by (force simp: sig_ok_def list_all_iff)
  then obtain f where f: "\<forall>gs \<in> set ?sorted. gs = \<lparr>gsig_Index = int (fst (f gs)), gsig_Signature = hex_encode (snd (f gs))\<rparr> \<and>
      guardian_signed sc digest (fst (f gs)) (snd (f gs))"
    by metis
  let ?ps = "map f ?sorted"
  have "map (\<lambda>gs. \<lparr>gsig_Index = int (fst (f gs)), gsig_Signature = hex_encode (snd (f gs))\<rparr>) ?sorted = ?sorted"
    using f by (intro map_idI) metis
  then have same: "?sorted = map (\<lambda>(i, sig). \<lparr>gsig_Index = int i, gsig_Signature = hex_encode sig\<rparr>) ?ps"
    by (simp add: case_prod_beta o_def)
  have "sorted (map gsig_Index ?sorted)" "distinct (map gsig_Index ?sorted)"
    using assms by (auto simp: sigs_ok_def distinct_map)
  then have "sorted_wrt (<) (map gsig_Index ?sorted)"
    by (simp add: strict_sorted_iff)
  moreover have "map gsig_Index ?sorted = map int (map fst ?ps)"
    by (subst same) (simp add: case_prod_beta o_def)
  ultimately have "sorted_wrt (<) (map fst ?ps)"
    by (simp add: sorted_wrt_map)
  then show thesis
    using that [OF same] f by (auto simp: list_all_iff case_prod_beta)
qed

text \<open>
  C5. What a client gets. In every run of the proxy, when a client is answered with a response: his request was given
  to gossip, and a permissions file that the proxy had ccq_loaded permits all its calls to the user whose API key came with
  it; the response is one to that very request, bytes and signature; and the signatures are those of more than two
  thirds of the guardians on the digest of a message that decodes to the response, in strictly ascending order of the
  guardians, each followed by the byte of its index, as the contracts that verify them need it.
\<close>

theorem answers_have_quorum:
  assumes "trace_run (fresh_server sc first) (server_step sc) tr st"
    and "(key, Reply_JSON bytes texts) \<in> set (sv_replies st)"
  shows "\<exists>apiKey req d m b out ps. (apiKey, req) \<in> set (sv_published st) \<and> request_key req = key \<and>
    ccq_loaded first tr d \<and> permitted_by sc d apiKey req \<and>
    qrp_Request m = req \<and> Publication_Unmarshal b = Inr m \<and> Publication_Marshal m = Inr out \<and> bytes = hex_encode out \<and>
    texts = map (\<lambda>(i, sig). hex_encode (sig @ [word_of_nat i])) ps \<and> sorted_wrt (<) (map fst ps) \<and>
    2 * length (gs_Keys (sc_guardianSet sc)) < 3 * length ps \<and>
    list_all (\<lambda>(i, sig). i \<le> 255 \<and> guardian_signed sc (GetQueryResponseDigestFromBytes (sc_crypto sc) b) i sig) ps"
proof -
  have inv: "server_inv sc first tr st" and quorum: "sc_quorum sc = int (length (gs_Keys (sc_guardianSet sc))) * 2 div 3 + 1"
    using server.run_inv [OF assms(1)] by simp_all
  have "reply_ok sc (sv_published st) (key, Reply_JSON bytes texts)"
    using inv assms(2) by (auto simp: server_inv_def list_all_iff)
  then obtain apiKey req res where req: "request_key req = key" "(apiKey, req) \<in> set (sv_published st)" "response_ok sc req res"
      "write_response res = Inr (Reply_JSON bytes texts)"
    by (auto simp: reply_ok_def)
  obtain d where d: "ccq_loaded first tr d" "permitted_by sc d apiKey req"
    using inv req(2) by (auto simp: server_inv_def list_all_iff)
  obtain out where out: "Publication_Marshal (srs_Response res) = Inr out" "bytes = hex_encode out"
      "signature_texts (sort_key gsig_Index (srs_Signatures res)) = Inr texts"
    using req(4) by (auto simp: write_response_def chk_eq_Inr split: sum.splits)
  obtain b where b: "Publication_Unmarshal b = Inr (srs_Response res)"
      "sigs_ok sc (GetQueryResponseDigestFromBytes (sc_crypto sc) b) (srs_Signatures res)"
    using req(3) by (auto simp: response_ok_def)
  obtain ps where ps: "sort_key gsig_Index (srs_Signatures res) = map (\<lambda>(i, sig). \<lparr>gsig_Index = int i, gsig_Signature = hex_encode sig\<rparr>) ps"
      "sorted_wrt (<) (map fst ps)" "list_all (\<lambda>(i, sig). guardian_signed sc (GetQueryResponseDigestFromBytes (sc_crypto sc) b) i sig) ps"
      "length ps = length (srs_Signatures res)"
    using sigs_ok_split [OF b(2)] by blast
  have "texts = map (\<lambda>(i, sig). hex_encode (sig @ [word_of_nat i])) ps" "list_all (\<lambda>(i, sig). i \<le> 255) ps"
    using out(3) by (auto simp: ps(1) signature_texts_Inr hex_encode_def list_all_iff)
  moreover have "2 * length (gs_Keys (sc_guardianSet sc)) < 3 * length ps"
  proof -
    have "int (length (gs_Keys (sc_guardianSet sc))) * 2 div 3 + 1 \<le> int (length ps)"
      using req(3) ps(4) by (simp add: response_ok_def quorum)
    then show ?thesis by presburger
  qed
  ultimately show ?thesis
    using req d out b(1) ps(2,3)
    by (intro exI [of _ apiKey] exI [of _ req] exI [of _ d] exI [of _ "srs_Response res"] exI [of _ b] exI [of _ out] exI [of _ ps])
      (auto simp: response_ok_def list_all_iff)
qed

section \<open>When the proxy gives up\<close>

text \<open>Later signatures: none is taken back, there is one entry per digest, and every guardian signs one digest.\<close>

definition extends_once :: "nat \<Rightarrow> digest_signatures \<Rightarrow> digest_signatures \<Rightarrow> bool" where
  "extends_once n m m' \<longleftrightarrow> distinct (map fst m) \<and> distinct (map fst m') \<and>
     (\<forall>d. set (signatures_for d m) \<subseteq> set (signatures_for d m')) \<and>
     distinct (map gsig_Index (concat (map snd m'))) \<and> gsig_Index ` set (concat (map snd m')) \<subseteq> {0..<int n}"

lemma max_matching_ge: "(d, sigs) \<in> set m \<Longrightarrow> length sigs \<le> max_matching m"
proof -
  have mono: "k \<le> fold (\<lambda>(d, sigs) k. if k < length sigs then length sigs else k) m k" for k and m :: digest_signatures
    by (induction m arbitrary: k) (auto, meson less_imp_le order_trans)
  have "length sigs \<le> fold (\<lambda>(d, sigs) k. if k < length sigs then length sigs else k) m k" if "(d, sigs) \<in> set m" for k
    using that
  proof (induction m arbitrary: k)
    case (Cons x m)
    show ?case
    proof (cases "x = (d, sigs)")
      case True
      then show ?thesis
        using mono [of "length sigs" m] mono [of k m] by auto
    next
      case False
      then show ?thesis
        using Cons by auto
    qed
  qed simp
  then show "(d, sigs) \<in> set m \<Longrightarrow> length sigs \<le> max_matching m"
    by (simp add: max_matching_def)
qed

lemma signatures_for_le: "length (signatures_for d m) \<le> max_matching m"
  by (auto simp: signatures_for_def split: option.split intro: max_matching_ge dest: map_of_SomeD)

lemma total_signers_sum:
  assumes "distinct (map fst m)" and "finite U" and "fst ` set m \<subseteq> U"
  shows "total_signers m = (\<Sum>d\<in>U. length (signatures_for d m))"
proof -
  have "total_signers m = sum_list (map (\<lambda>e. length (signatures_for (fst e) m)) m)"
    unfolding total_signers_def using assms(1)
    by (intro arg_cong [where f = sum_list] map_cong) (auto simp: signatures_for_def)
  also have "\<dots> = sum_list (map (\<lambda>d. length (signatures_for d m)) (map fst m))"
    by (simp add: o_def)
  also have "\<dots> = (\<Sum>d\<in>fst ` set m. length (signatures_for d m))"
    using assms(1) by (simp only: sum_list_distinct_conv_sum_set set_map)
  also have "\<dots> = (\<Sum>d\<in>U. length (signatures_for d m))"
    using assms(2,3) by (rule sum.mono_neutral_left)
      (force simp: signatures_for_def split: option.split dest: map_of_SomeD)
  finally show ?thesis .
qed

lemma total_signers_le:
  assumes "distinct (map gsig_Index (concat (map snd m)))" and "gsig_Index ` set (concat (map snd m)) \<subseteq> {0..<int n}"
  shows "total_signers m \<le> n"
proof -
  have "total_signers m = length (concat (map snd m))"
    by (simp add: total_signers_def length_concat o_def case_prod_unfold)
  moreover have "card (set (map gsig_Index (concat (map snd m)))) \<le> card {0..<int n}"
    using assms(2) by (intro card_mono) auto
  ultimately show ?thesis
    using distinct_card [OF assms(1)] by simp
qed

lemma signatures_grow:
  assumes "extends_once n m m'" and "list_all (\<lambda>(d, sigs). distinct sigs) m"
  shows "length (signatures_for d m) \<le> length (signatures_for d m')"
proof -
  have "distinct (signatures_for d m)"
    using assms(2) by (auto simp: signatures_for_def list_all_iff split: option.split dest: map_of_SomeD)
  then show ?thesis
    using assms(1) card_mono [of "set (signatures_for d m')" "set (signatures_for d m)"] card_length [of "signatures_for d m'"]
    by (simp add: extends_once_def distinct_card)
qed

lemma signatures_bound:
  assumes "extends_once n m m'" and "list_all (\<lambda>(d, sigs). distinct sigs) m"
  shows "length (signatures_for d m') + total_signers m \<le> n + max_matching m"
proof -
  define U where "U = insert d (fst ` set m \<union> fst ` set m')"
  have U: "finite U" "fst ` set m \<subseteq> U" "fst ` set m' \<subseteq> U" "d \<in> U"
    by (auto simp: U_def)
  have dist: "distinct (map fst m)" "distinct (map fst m')" "total_signers m' \<le> n"
    using assms(1) total_signers_le [of m' n] by (simp_all add: extends_once_def)
  have "total_signers m = length (signatures_for d m) + (\<Sum>x\<in>U - {d}. length (signatures_for x m))"
    unfolding total_signers_sum [OF dist(1) U(1,2)] by (rule sum.remove [OF U(1,4)])
  moreover have "total_signers m' = length (signatures_for d m') + (\<Sum>x\<in>U - {d}. length (signatures_for x m'))"
    unfolding total_signers_sum [OF dist(2) U(1,3)] by (rule sum.remove [OF U(1,4)])
  moreover have "(\<Sum>x\<in>U - {d}. length (signatures_for x m)) \<le> (\<Sum>x\<in>U - {d}. length (signatures_for x m'))"
    by (intro sum_mono signatures_grow [OF assms])
  ultimately show ?thesis
    using dist(3) signatures_for_le [of d m] by linarith
qed

text \<open>
  C21. Giving up is final when guardians answer once. When the count of signatures makes the proxy answer that the
  quorum is not met, no later signatures can reach it: however the signatures that it holds are extended, as long as
  every guardian has signed one response only, no digest gets as many as the quorum.
\<close>

theorem giving_up_is_final:
  assumes "pr_phase r = Selecting"
    and "sv_pending (count_signature sc key r q m sigs st) key = Some r'" and "pr_phase r' = Has_Error status"
    and "list_all (\<lambda>(d, sigs). distinct sigs) m"
    and "extends_once (length (gs_Keys (sc_guardianSet sc))) m m'"
  shows "int (length (signatures_for d m')) < sc_quorum sc"
proof -
  have "int (max_matching m) + (int (length (gs_Keys (sc_guardianSet sc))) - int (total_signers m)) < sc_quorum sc"
    using assms(1-3) by (auto simp: count_signature_def Let_def set_pending_def give_handler_def updateStats_def split: if_splits)
  then show ?thesis
    using signatures_bound [OF assms(5,4), of d] by linarith
qed

section \<open>One guardian\<close>

text \<open>A message that guardian i has signed in answer to a request.\<close>

definition answer_of :: "server_config \<Rightarrow> nat \<Rightarrow> SignedQueryRequest \<Rightarrow> SignedQueryResponse \<Rightarrow> bool" where
  "answer_of sc i req msg \<longleftrightarrow> (\<exists>q. Publication_Unmarshal (sqp_QueryResponse msg) = Inr q \<and> qrp_Request q = req) \<and>
     guardian_signed sc (GetQueryResponseDigestFromBytes (sc_crypto sc) (sqp_QueryResponse msg)) i (sqp_Signature msg)"

definition entry_of :: "server_config \<Rightarrow> nat \<Rightarrow> SignedQueryResponse \<Rightarrow> byte list \<times> GuardianSignature list" where
  "entry_of sc i msg = (GetQueryResponseDigestFromBytes (sc_crypto sc) (sqp_QueryResponse msg),
     [\<lparr>gsig_Index = int i, gsig_Signature = hex_encode (sqp_Signature msg)\<rparr>])"

lemma update_append: "k \<notin> fst ` set al \<Longrightarrow> AList.update k v al = al @ [(k, v)]"
  by (induction al) auto

lemma handle_new_answer:
  assumes "gs_keyMap (sc_guardianSet sc) = None" and "distinct (gs_Keys (sc_guardianSet sc))"
    and "sv_pending st key = Some r" and "key = request_key (pr_req r)" and "answer_of sc i (pr_req r) msg"
    and "fst (entry_of sc i msg) \<notin> fst ` set (sv_responses st key)"
  shows "\<exists>q. Publication_Unmarshal (sqp_QueryResponse msg) = Inr q \<and> handle_signed_response sc msg st = count_signature sc key r q (sv_responses st key @ [entry_of sc i msg]) (snd (entry_of sc i msg)) st"
proof -
  let ?digest = "GetQueryResponseDigestFromBytes (sc_crypto sc) (sqp_QueryResponse msg)"
  obtain q where q: "Publication_Unmarshal (sqp_QueryResponse msg) = Inr q" "qrp_Request q = pr_req r"
    and signed: "guardian_signed sc ?digest i (sqp_Signature msg)"
    using assms(5) by (auto simp: answer_of_def)
  have i: "i < length (gs_Keys (sc_guardianSet sc))"
      "signer_address (sc_crypto sc) ?digest (sqp_Signature msg) = Inr (gs_Keys (sc_guardianSet sc) ! i)"
    using signed by (simp_all add: guardian_signed_def)
  have idx: "KeyIndex (sc_guardianSet sc) (gs_Keys (sc_guardianSet sc) ! i) = (int i, True)"
    using assms(1) i(1) distinct_nth_once(1) [OF assms(2) i(1)] by (auto simp: KeyIndex_def find_key_iff)
  have new: "signatures_for ?digest (sv_responses st key) = []"
    using assms(6) by (auto simp: signatures_for_def entry_of_def split: option.split dest: map_of_SomeD)
      (metis fst_conv image_eqI map_of_SomeD)
  have upd: "AList.update ?digest v (sv_responses st key) = sv_responses st key @ [(?digest, v)]" for v
    using assms(6) by (simp add: update_append entry_of_def)
  show ?thesis
    using assms(3,4) q i idx new upd
    by (intro exI [of _ q]) (simp add: handle_signed_response_def Let_def Pending_Get_def entry_of_def)
qed

lemma count_singles:
  "total_signers (map (entry_of sc i) msgs) = length msgs" "msgs \<noteq> [] \<Longrightarrow> max_matching (map (entry_of sc i) msgs) = 1"
proof -
  show "total_signers (map (entry_of sc i) msgs) = length msgs"
    by (induction msgs) (simp_all add: total_signers_def entry_of_def)
  have "fold (\<lambda>(d, sigs) k. if k < length sigs then length sigs else k) (map (entry_of sc i) msgs) 1 = 1" for msgs
    by (induction msgs) (simp_all add: entry_of_def)
  then show "msgs \<noteq> [] \<Longrightarrow> max_matching (map (entry_of sc i) msgs) = 1"
    by (cases msgs) (simp_all add: max_matching_def entry_of_def)
qed

lemma answers_so_far:
  assumes "gs_keyMap (sc_guardianSet sc) = None" and "distinct (gs_Keys (sc_guardianSet sc))"
    and "sv_pending st key = Some r" and "key = request_key (pr_req r)" and "pr_phase r = Selecting"
    and "sv_responses st key = []" and "2 \<le> sc_quorum sc"
    and "list_all (answer_of sc i (pr_req r)) msgs" and "distinct (map (\<lambda>msg. fst (entry_of sc i msg)) msgs)"
    and "int (length msgs) < int (length (gs_Keys (sc_guardianSet sc))) + 2 - sc_quorum sc"
  shows "\<exists>r'. sv_pending (fold (handle_signed_response sc) msgs st) key = Some r' \<and> pr_req r' = pr_req r \<and> pr_phase r' = Selecting \<and>
    sv_responses (fold (handle_signed_response sc) msgs st) key = map (entry_of sc i) msgs"
  using assms(8-10)
proof (induction msgs rule: rev_induct)
  case Nil
  then show ?case
    using assms(3,5,6) by simp
next
  case (snoc msg msgs)
  let ?st = "fold (handle_signed_response sc) msgs st"
  obtain r' where r': "sv_pending ?st key = Some r'" "pr_req r' = pr_req r" "pr_phase r' = Selecting"
      "sv_responses ?st key = map (entry_of sc i) msgs"
    using snoc by auto
  have "\<exists>q. Publication_Unmarshal (sqp_QueryResponse msg) = Inr q \<and> handle_signed_response sc msg ?st =
      count_signature sc key r' q (sv_responses ?st key @ [entry_of sc i msg]) (snd (entry_of sc i msg)) ?st"
    using snoc.prems r' assms(4) by (intro handle_new_answer [OF assms(1,2)]) auto
  then obtain q where step: "handle_signed_response sc msg ?st =
      count_signature sc key r' q (map (entry_of sc i) (msgs @ [msg])) (snd (entry_of sc i msg)) ?st"
    using r'(4) by auto
  have "length (snd (entry_of sc i msg)) = 1"
    by (simp add: entry_of_def)
  then show ?case
    using assms(7) r'(2,3) snoc.prems(3) count_singles(1) [where sc = sc and i = i and msgs = "msgs @ [msg]"]
      count_singles(2) [where sc = sc and i = i and msgs = "msgs @ [msg]"]
    by (simp add: step count_signature_def Let_def set_pending_def set_responses_def updateStats_def del: map_append)
qed

text \<open>
  C26. One guardian can stop any query. The count takes every signature of a guardian on another digest for an answer
  that some guardian will not give any more. So when one guardian answers a waiting request with as many different
  signed responses as the set has guardians beyond the quorum, plus two, the client gets the error that the quorum is
  not met, although no other guardian has answered yet: with 19 guardians, eight responses.
\<close>

theorem one_guardian_stops_query:
  assumes "gs_keyMap (sc_guardianSet sc) = None" and "distinct (gs_Keys (sc_guardianSet sc))"
    and "sc_quorum sc = int (length (gs_Keys (sc_guardianSet sc))) * 2 div 3 + 1"
    and "sv_pending st key = Some r" and "key = request_key (pr_req r)" and "pr_phase r = Selecting"
    and "sv_responses st key = []"
    and "list_all (answer_of sc i (pr_req r)) msgs" and "distinct (map (\<lambda>msg. GetQueryResponseDigestFromBytes (sc_crypto sc) (sqp_QueryResponse msg)) msgs)"
    and "int (length msgs) = int (length (gs_Keys (sc_guardianSet sc))) + 2 - sc_quorum sc"
    and "2 \<le> length (gs_Keys (sc_guardianSet sc))"
  shows "\<exists>r'. sv_pending (fold (handle_signed_response sc) msgs st) key = Some r' \<and> pr_phase r' = Has_Error 400"
proof -
  have quorum: "2 \<le> sc_quorum sc" "sc_quorum sc \<le> int (length (gs_Keys (sc_guardianSet sc)))"
    using assms(3,11) by presburger+
  then obtain msg ms where msgs: "msgs = ms @ [msg]"
    using assms(10) by (cases msgs rule: rev_cases) auto
  have digests: "distinct (map (\<lambda>msg. fst (entry_of sc i msg)) msgs)"
    using assms(9) by (simp add: entry_of_def)
  let ?st = "fold (handle_signed_response sc) ms st"
  obtain r' where r': "sv_pending ?st key = Some r'" "pr_req r' = pr_req r" "pr_phase r' = Selecting"
      "sv_responses ?st key = map (entry_of sc i) ms"
    using answers_so_far [OF assms(1,2,4-7) quorum(1), of i ms] assms(8,10) digests by (auto simp: msgs)
  have "\<exists>q. Publication_Unmarshal (sqp_QueryResponse msg) = Inr q \<and> handle_signed_response sc msg ?st =
      count_signature sc key r' q (sv_responses ?st key @ [entry_of sc i msg]) (snd (entry_of sc i msg)) ?st"
    using assms(5,8) digests r' by (intro handle_new_answer [OF assms(1,2)]) (auto simp: msgs)
  then obtain q where step: "handle_signed_response sc msg ?st =
      count_signature sc key r' q (map (entry_of sc i) msgs) (snd (entry_of sc i msg)) ?st"
    using r'(4) by (auto simp: msgs)
  have "length (snd (entry_of sc i msg)) = 1"
    by (simp add: entry_of_def)
  moreover have "msgs \<noteq> []"
    by (simp add: msgs)
  note count_singles(1) [where sc = sc and i = i and msgs = msgs] count_singles(2) [OF this, where sc = sc and i = i]
  ultimately have "sv_pending (handle_signed_response sc msg ?st) key = Some (give_handler (Has_Error StatusBadRequest)
      (updateStats 1 (int (length (gs_Keys (sc_guardianSet sc))) - int (length msgs)) (sc_quorum sc) r'))"
    using quorum assms(10) by (simp add: step count_signature_def Let_def set_pending_def)
  then show ?thesis
    using r'(3) by (simp add: msgs give_handler_def updateStats_def StatusBadRequest_def)
qed

section \<open>Two guardians\<close>

text \<open>A crypto library whose digests are the bytes themselves and whose signatures begin with the address.\<close>

definition plain_crypto :: crypto where
  "plain_crypto = \<lparr>Keccak256 = (\<lambda>bs. bs), Ecrecover = (\<lambda>_ s. Inr (4 # replicate 12 0 @ take 20 s)),
     Sign = (\<lambda>_ key. Inr key), BytesToEthAddress = (\<lambda>bs. bs)\<rparr>"

definition proxy :: "byte list \<Rightarrow> server_config" where
  "proxy ks = \<lparr>sc_crypto = plain_crypto, sc_libs = file_libs, sc_env = MainNet, sc_signerKey = None,
     sc_guardianSet = fetched_set (map toy_guardian ks) 0, sc_quorum = int (length ks) * 2 div 3 + 1\<rparr>"

definition proxy_start :: ccq_server where
  "proxy_start = \<lparr>sv_permissions = \<lparr>perm_env = None, perm_permMap = [''my_secret_key'' \<mapsto> file_entry]\<rparr>, sv_pending = (\<lambda>_. None),
     sv_loggingMap = (\<lambda>_. None), sv_responses = (\<lambda>_. []), sv_published = [], sv_replies = [], sv_refused = []\<rparr>"

lemma proxy_fields [simp]:
  "sc_crypto (proxy ks) = plain_crypto" "sc_libs (proxy ks) = file_libs" "sc_env (proxy ks) = MainNet" "sc_signerKey (proxy ks) = None"
  "sc_guardianSet (proxy ks) = fetched_set (map toy_guardian ks) 0" "sc_quorum (proxy ks) = int (length ks) * 2 div 3 + 1"
  "gs_Keys (fetched_set keys n) = keys" "gs_keyMap (fetched_set keys n) = None" "gs_Index (fetched_set keys n) = n"
  by (simp_all add: proxy_def fetched_set_def)

lemma proxy_fresh: "fresh_server (proxy ks) [] proxy_start"
  by (simp add: fresh_server_def file_base58 new_server_def NewPermissions_def parseConfigFile_def file_parse CalculateQuorum_def
      proxy_start_def proxy_def)

text \<open>The response of the guardian with the byte k.\<close>

definition proxy_answer :: "byte \<Rightarrow> byte list \<Rightarrow> SignedQueryResponse" where
  "proxy_answer k d = \<lparr>sqp_QueryResponse = d, sqp_Signature = k # replicate 64 0\<rparr>"

lemma proxy_signed:
  "i < length ks \<Longrightarrow> guardian_signed (proxy ks) digest i (sqp_Signature (proxy_answer (ks ! i) d))"
  by (simp add: guardian_signed_def signer_address_def plain_crypto_def proxy_answer_def toy_guardian_def)

lemma sample_publication_read:
  assumes "length result \<le> 255" and "result \<noteq> []"
  obtains d where "Publication_Marshal (sample_publication result) = Inr d" "Publication_Unmarshal d = Inr (sample_publication result)"
proof -
  obtain d where d: "Publication_Marshal (sample_publication result) = Inr d"
    using sample_publication_Marshal [OF assms(1)] by blast
  then show thesis
    using that Publication_Unmarshal_Marshal [OF sample_publication_wf d] assms(2)
    by (simp add: sample_publication_def per_chain_resp_ends_def)
qed

text \<open>A client of the user posts the signed sample request.\<close>

definition proxy_waiting :: "byte list \<Rightarrow> ccq_server" where
  "proxy_waiting ks = set_pending (request_key (qrp_Request (sample_publication [7])))
     ((NewPendingResponse (qrp_Request (sample_publication [7])) ''Test User'' sample_query)\<lparr>pr_phase := Selecting\<rparr>)
     (handle_query (proxy ks) 0 (Inr (hex_encode sample_query_bytes, hex_encode (replicate 65 9))) (Some [''My_Secret_Key'']) True True proxy_start)"

lemma sample_request: "qrp_Request (sample_publication result) = \<lparr>sqr_QueryRequest = sample_query_bytes, sqr_Signature = replicate 65 9\<rparr>"
  by (simp add: sample_publication_def)

lemma proxy_accepts:
  "handle_query (proxy ks) 0 (Inr (hex_encode sample_query_bytes, hex_encode (replicate 65 9))) (Some [''My_Secret_Key'']) True True proxy_start =
   (let req = qrp_Request (sample_publication [7]); r = NewPendingResponse req ''Test User'' sample_query in
    proxy_start\<lparr>sv_pending := [request_key req \<mapsto> r], sv_loggingMap := [request_key req \<mapsto> expireAfter],
      sv_published := [(''my_secret_key'', req)]\<rparr>)"
proof -
  let ?perms = "sv_permissions proxy_start"
  have "sign_unsigned plain_crypto MainNet None file_entry \<lparr>sqr_QueryRequest = sample_query_bytes, sqr_Signature = replicate 65 9\<rparr> =
      Inr \<lparr>sqr_QueryRequest = sample_query_bytes, sqr_Signature = replicate 65 9\<rparr>"
    by (simp add: sign_unsigned_def)
  then have "validateRequest plain_crypto file_libs MainNet ?perms None ''my_secret_key''
      \<lparr>sqr_QueryRequest = sample_query_bytes, sqr_Signature = replicate 65 9\<rparr> =
      Inr (sample_query, \<lparr>sqr_QueryRequest = sample_query_bytes, sqr_Signature = replicate 65 9\<rparr>)"
    using file_calls sample_query_valid sample_query_Unmarshal by (simp add: validateRequest_Inr GetUserEntry_def proxy_start_def)
  moreover have "GetUserEntry ?perms ''my_secret_key'' = Some file_entry" "pe_rateLimiter file_entry = None"
      "pe_userName file_entry = ''Test User''" "pe_logResponses file_entry"
    by (simp_all add: GetUserEntry_def proxy_start_def file_entry_def)
  moreover have "sv_pending proxy_start = (\<lambda>_. None)" "sv_loggingMap proxy_start = (\<lambda>_. None)" "sv_published proxy_start = []"
    by (simp_all add: proxy_start_def)
  ultimately show ?thesis
    by (simp add: handle_query_def file_key hex_decode_encode Pending_Add_def NewPendingResponse_def Let_def sample_request
        LoggingMap_AddRequest_def request_key_def del: hex_encode_simps replicate.simps)
qed

lemma proxy_waiting_run:
  "\<exists>tr. trace_run (fresh_server (proxy ks) []) (server_step (proxy ks)) tr (proxy_waiting ks)"
proof -
  let ?run = "trace_run (fresh_server (proxy ks) []) (server_step (proxy ks))"
  let ?key = "request_key (qrp_Request (sample_publication [7]))"
  let ?q = "handle_query (proxy ks) 0 (Inr (hex_encode sample_query_bytes, hex_encode (replicate 65 9))) (Some [''My_Secret_Key'']) True True proxy_start"
  have r: "sv_pending ?q ?key = Some (NewPendingResponse (qrp_Request (sample_publication [7])) ''Test User'' sample_query)"
    unfolding proxy_accepts by (simp add: Let_def)
  have "?run [] proxy_start"
    by (rule trace_run.start) (rule proxy_fresh)
  moreover have "server_step (proxy ks) (Http_Query 0 (Inr (hex_encode sample_query_bytes, hex_encode (replicate 65 9))) (Some [''My_Secret_Key'']) True True) proxy_start ?q"
    by (rule server_step.query)
  ultimately have 1: "?run [(Http_Query 0 (Inr (hex_encode sample_query_bytes, hex_encode (replicate 65 9))) (Some [''My_Secret_Key'']) True True, proxy_start)] ?q"
    using trace_run.step [of "fresh_server (proxy ks) []" "server_step (proxy ks)" "[]"] by fastforce
  have "server_step (proxy ks) (Http_Select ?key) ?q (proxy_waiting ks)"
    unfolding proxy_waiting_def by (rule server_step.select [OF r]) (simp add: NewPendingResponse_def)
  with 1 show ?thesis
    by (blast intro: trace_run.step)
qed

lemma proxy_waiting_fields:
  "sv_pending (proxy_waiting ks) = [request_key (qrp_Request (sample_publication [7])) \<mapsto>
     (NewPendingResponse (qrp_Request (sample_publication [7])) ''Test User'' sample_query)\<lparr>pr_phase := Selecting\<rparr>]"
  "sv_responses (proxy_waiting ks) = (\<lambda>_. [])" "sv_replies (proxy_waiting ks) = []"
  unfolding proxy_waiting_def proxy_accepts by (simp_all add: set_pending_def Let_def proxy_start_def)

theorem answers_have_quorum_witness:
  "\<exists>tr st bytes texts. trace_run (fresh_server (proxy [1]) []) (server_step (proxy [1])) tr st \<and>
     sv_replies st = [(request_key (qrp_Request (sample_publication [7])), Reply_JSON bytes texts)] \<and> 2 < 3 * length texts"
proof -
  let ?sc = "proxy [1]" and ?key = "request_key (qrp_Request (sample_publication [7]))"
  let ?run = "trace_run (fresh_server ?sc []) (server_step ?sc)"
  obtain d where d: "Publication_Marshal (sample_publication [7]) = Inr d" "Publication_Unmarshal d = Inr (sample_publication [7])"
    using sample_publication_read [of "[7]"] by auto
  obtain tr where 1: "?run tr (proxy_waiting [1])"
    using proxy_waiting_run by blast
  let ?st = "handle_signed_response ?sc (proxy_answer 1 d) (proxy_waiting [1])"
  define r where "r = (NewPendingResponse (qrp_Request (sample_publication [7])) ''Test User'' sample_query)\<lparr>pr_phase := Selecting\<rparr>"
  have "\<exists>q. Publication_Unmarshal (sqp_QueryResponse (proxy_answer 1 d)) = Inr q \<and>
      ?st = count_signature ?sc ?key r q (sv_responses (proxy_waiting [1]) ?key @ [entry_of ?sc 0 (proxy_answer 1 d)])
        (snd (entry_of ?sc 0 (proxy_answer 1 d))) (proxy_waiting [1])"
    using proxy_signed [of 0 "[1]" _ d] d(2)
    by (intro handle_new_answer) (simp_all add: proxy_waiting_fields r_def NewPendingResponse_def answer_of_def proxy_answer_def)
  then have st: "?st = count_signature ?sc ?key r (sample_publication [7]) [entry_of ?sc 0 (proxy_answer 1 d)]
      (snd (entry_of ?sc 0 (proxy_answer 1 d))) (proxy_waiting [1])"
    using d(2) by (auto simp: proxy_waiting_fields proxy_answer_def)
  define res where "res = \<lparr>srs_Response = sample_publication [7], srs_Signatures = snd (entry_of ?sc 0 (proxy_answer 1 d))\<rparr>"
  define r' where "r' = r\<lparr>pr_phase := Has_Response res\<rparr>"
  have r': "sv_pending ?st ?key = Some r'" "sv_replies ?st = []"
    by (simp_all add: st count_signature_def entry_of_def set_pending_def set_responses_def give_handler_def r_def r'_def res_def
        proxy_waiting_fields)
  have 2: "?run (tr @ [(P2p_Response (proxy_answer 1 d), proxy_waiting [1])]) ?st"
    by (rule trace_run.step [OF 1]) (rule server_step.response)
  have 3: "?run ((tr @ [(P2p_Response (proxy_answer 1 d), proxy_waiting [1])]) @ [(Http_Reply ?key, ?st)]) (finish_query ?key r' ?st)"
    by (rule trace_run.step [OF 2]) (rule server_step.reply [OF r'(1)])
  obtain bytes texts where "write_response res = Inr (Reply_JSON bytes texts)"
    using d(1) by (simp add: write_response_def res_def entry_of_def)
  then have replies: "sv_replies (finish_query ?key r' ?st) = [(?key, Reply_JSON bytes texts)]"
    using r'(2) by (simp add: finish_query_def r'_def CcqServer.reply_def)
  have "2 < 3 * length texts"
    using answers_have_quorum [OF 3, of ?key bytes texts] replies by auto
  then show ?thesis
    using 3 replies by blast
qed

text \<open>Two guardians that disagree, and two messages of one guardian.\<close>

definition disagreeing :: digest_signatures where
  "disagreeing = [([1], [\<lparr>gsig_Index = 0, gsig_Signature = ''a''\<rparr>]), ([2], [\<lparr>gsig_Index = 1, gsig_Signature = ''b''\<rparr>])]"

theorem giving_up_is_final_witness:
  "\<exists>r'. sv_pending (count_signature (proxy [1, 2]) ''k'' ((NewPendingResponse (qrp_Request (sample_publication [7])) ''u'' sample_query)
      \<lparr>pr_phase := Selecting\<rparr>) (sample_publication [7]) disagreeing [\<lparr>gsig_Index = 1, gsig_Signature = ''b''\<rparr>] proxy_start) ''k'' = Some r' \<and>
     pr_phase r' = Has_Error 400 \<and> int (length (signatures_for [1] disagreeing)) < sc_quorum (proxy [1, 2])"
proof -
  let ?r = "(NewPendingResponse (qrp_Request (sample_publication [7])) ''u'' sample_query)\<lparr>pr_phase := Selecting\<rparr>"
  let ?st = "count_signature (proxy [1, 2]) ''k'' ?r (sample_publication [7]) disagreeing [\<lparr>gsig_Index = 1, gsig_Signature = ''b''\<rparr>] proxy_start"
  obtain r' where r': "sv_pending ?st ''k'' = Some r'" "pr_phase r' = Has_Error 400"
    by (simp add: count_signature_def disagreeing_def max_matching_def total_signers_def set_pending_def give_handler_def updateStats_def
        StatusBadRequest_def)
  have "extends_once (length (gs_Keys (sc_guardianSet (proxy [1, 2])))) disagreeing disagreeing"
      "list_all (\<lambda>(d, sigs). distinct sigs) disagreeing"
    by (simp_all add: extends_once_def disagreeing_def)
  then show ?thesis
    using giving_up_is_final [of ?r "proxy [1, 2]" "''k''", OF _ r'] r' by auto
qed

theorem one_guardian_stops_query_witness:
  "\<exists>msgs r'. list_all (\<lambda>msg. sqp_Signature msg = 1 # replicate 64 0) msgs \<and>
     sv_pending (fold (handle_signed_response (proxy [1, 2])) msgs (proxy_waiting [1, 2])) (request_key (qrp_Request (sample_publication [7]))) = Some r' \<and>
     pr_phase r' = Has_Error 400"
proof -
  let ?sc = "proxy [1, 2]"
  obtain d1 where d1: "Publication_Unmarshal d1 = Inr (sample_publication [7])"
    using sample_publication_read [of "[7]"] by auto
  obtain d2 where d2: "Publication_Unmarshal d2 = Inr (sample_publication [8])"
    using sample_publication_read [of "[8]"] by auto
  have "sample_publication [7] \<noteq> sample_publication [8]"
    by (simp add: sample_publication_def)
  then have "d1 \<noteq> d2"
    using d1 d2 by auto
  then have digests: "distinct (map (\<lambda>msg. GetQueryResponseDigestFromBytes (sc_crypto ?sc) (sqp_QueryResponse msg)) [proxy_answer 1 d1, proxy_answer 1 d2])"
    by (simp add: GetQueryResponseDigestFromBytes_def plain_crypto_def proxy_answer_def)
  let ?r = "(NewPendingResponse (qrp_Request (sample_publication [7])) ''Test User'' sample_query)\<lparr>pr_phase := Selecting\<rparr>"
  have answers: "list_all (answer_of ?sc 0 (pr_req ?r)) [proxy_answer 1 d1, proxy_answer 1 d2]"
    using d1 d2 proxy_signed [of 0 "[1, 2]"]
    by (simp add: answer_of_def NewPendingResponse_def sample_request) (simp add: proxy_answer_def sample_request)
  have "\<exists>r'. sv_pending (fold (handle_signed_response ?sc) [proxy_answer 1 d1, proxy_answer 1 d2] (proxy_waiting [1, 2]))
      (request_key (qrp_Request (sample_publication [7]))) = Some r' \<and> pr_phase r' = Has_Error 400"
    by (rule one_guardian_stops_query [OF _ _ _ _ _ _ _ answers digests])
      (simp_all add: proxy_waiting_fields NewPendingResponse_def toy_guardian_def)
  then show ?thesis
    by (intro exI [of _ "[proxy_answer 1 d1, proxy_answer 1 d2]"]) (simp add: proxy_answer_def)
qed

section \<open>What gets lost\<close>

text \<open>
  A quorum that is reached while the handler still publishes its request is lost: the response does not go through,
  and the signatures are dropped.
\<close>

lemma early_quorum_lost:
  assumes "pr_phase r = Publishing" and "sc_quorum sc \<le> int (length sigs)"
  shows "sv_pending (count_signature sc key r q m sigs st) key = Some r \<and> sv_responses (count_signature sc key r q m sigs st) key = []"
  using assms by (simp add: count_signature_def set_pending_def set_responses_def give_handler_def)

text \<open>
  A guardian with an index over 255 makes the handler panic; the request stays pending, and every later one with
  its signature is refused as a duplicate.
\<close>

lemma panic_leaves_pending:
  assumes "pr_phase r = Has_Response res" and "Publication_Marshal (srs_Response res) = Inr out"
    and "gs \<in> set (srs_Signatures res)" and "255 < gsig_Index gs"
  shows "sv_pending (finish_query key r st) key = Some (r\<lparr>pr_phase := Panicked\<rparr>) \<and> sv_replies (finish_query key r st) = sv_replies st"
proof -
  have "signature_texts sigs \<noteq> Inr texts" if "gs \<in> set sigs" for sigs texts
    using assms(4) that by (force simp: signature_texts_Inr list_all_iff)
  then have "\<exists>e. write_response res = Inl e"
    using assms(2,3) by (cases "signature_texts (sort_key gsig_Index (srs_Signatures res))") (simp_all add: write_response_def)
  then show ?thesis
    using assms(1) by (auto simp: finish_query_def set_pending_def)
qed

end
