(* ===== verification/EvmBlocks.thy ===== *)
theory EvmBlocks imports Prelude "HOL-Library.AList" "HOL-Library.Multiset" begin

text \<open>
  The timestamp cache of an EVM watcher and its backfilling: node/pkg/watchers/evm/blocks_by_timestamp.go and
  ccq_backfill.go. The cache maps times to blocks for the queries by timestamp; it is filled with the latest
  blocks as they come, at the start with half an hour of history, and later on request where it has a gap.

  Timestamps and block numbers are 64 bit words. An RPC node is an argument: what it answers to the n-th batch
  of block numbers, an error or a block for each number (the zero block where it has none). The mutex is left
  out: every operation holds it from beginning to end.
\<close>

section \<open>Blocks\<close>

datatype Block = Block (Timestamp: "64 word") (BlockNum: "64 word")

definition Block_Cmp :: "Block \<Rightarrow> Block \<Rightarrow> int" where
  "Block_Cmp lhs rhs =
     (if Timestamp lhs < Timestamp rhs then -1
      else if Timestamp lhs > Timestamp rhs then 1
      else if BlockNum lhs < BlockNum rhs then -1
      else if BlockNum lhs > BlockNum rhs then 1
      else 0)"

text \<open>The comparison that \<open>sort.SliceStable\<close> is given in AddBatch; it is a linear order.\<close>

definition block_less :: "Block \<Rightarrow> Block \<Rightarrow> bool" where
  "block_less lhs rhs \<longleftrightarrow> Block_Cmp lhs rhs < 0"

instantiation Block :: linorder
begin

definition less_Block :: "Block \<Rightarrow> Block \<Rightarrow> bool" where
  "less_Block lhs rhs \<longleftrightarrow> block_less lhs rhs"

definition less_eq_Block :: "Block \<Rightarrow> Block \<Rightarrow> bool" where
  "less_eq_Block lhs rhs \<longleftrightarrow> Block_Cmp lhs rhs \<le> 0"

instance
  by standard (auto simp: less_Block_def block_less_def less_eq_Block_def Block_Cmp_def intro: Block.expand split: if_splits)

end

lemma Block_less_iff:
  "lhs < rhs \<longleftrightarrow> Timestamp lhs < Timestamp rhs \<or> Timestamp lhs = Timestamp rhs \<and> BlockNum lhs < BlockNum rhs" for lhs :: Block
  by (auto simp: less_Block_def block_less_def Block_Cmp_def)

section \<open>The cache\<close>

definition BTS_MAX_BLOCKS :: nat where "BTS_MAX_BLOCKS = 10000"

record BlocksByTimestamp =
  bts_cache :: "Block list"
  bts_maxCacheSize :: nat
  bts_unsafeDevMode :: bool

definition NewBlocksByTimestamp :: "nat \<Rightarrow> bool \<Rightarrow> BlocksByTimestamp" where
  "NewBlocksByTimestamp maxCacheSize unsafeDevMode =
     \<lparr>bts_cache = [], bts_maxCacheSize = maxCacheSize, bts_unsafeDevMode = unsafeDevMode\<rparr>"

text \<open>\<open>rollback_idx cache ts num l\<close> is \<open>idx + 1\<close> at the end of the loop that searches backwards from \<open>l - 1\<close>.\<close>

fun rollback_idx :: "Block list \<Rightarrow> 64 word \<Rightarrow> 64 word \<Rightarrow> nat \<Rightarrow> nat" where
  "rollback_idx cache timestamp blockNum 0 = 0"
| "rollback_idx cache timestamp blockNum (Suc idx) =
     (if BlockNum (cache ! idx) < blockNum \<and> Timestamp (cache ! idx) \<le> timestamp then Suc idx
      else rollback_idx cache timestamp blockNum idx)"

definition AddLatest :: "64 word \<Rightarrow> 64 word \<Rightarrow> BlocksByTimestamp \<Rightarrow> BlocksByTimestamp" where
  "AddLatest timestamp blockNum bts =
     (let l = length (bts_cache bts);
          kept = (if 0 < l \<and> (blockNum \<le> BlockNum (bts_cache bts ! (l - 1)) \<or> timestamp < Timestamp (bts_cache bts ! (l - 1)))
                  then take (rollback_idx (bts_cache bts) timestamp blockNum l) (bts_cache bts)
                  else bts_cache bts);
          cache = kept @ [Block timestamp blockNum]
      in bts\<lparr>bts_cache := (if bts_maxCacheSize bts < length cache then drop 1 cache else cache)\<rparr>)"

text \<open>
  \<open>blockMap[block.BlockNum] = block.Timestamp\<close> for every block of a list. Go visits the map in any order; the
  sort that follows makes one list of every order (lemma \<open>sort_unique\<close>).
\<close>

definition block_map :: "Block list \<Rightarrow> (64 word \<times> 64 word) list \<Rightarrow> (64 word \<times> 64 word) list" where
  "block_map blocks m = fold (\<lambda>b. AList.update (BlockNum b) (Timestamp b)) blocks m"

definition AddBatch :: "Block list \<Rightarrow> BlocksByTimestamp \<Rightarrow> BlocksByTimestamp" where
  "AddBatch blocks bts =
     (let blockMap = block_map blocks (block_map (bts_cache bts) []);
          cache = sort (map (\<lambda>(blockNum, timestamp). Block timestamp blockNum) blockMap)
      in bts\<lparr>bts_cache := drop (length cache - bts_maxCacheSize bts) cache\<rparr>)"

text \<open>\<open>sort.Search\<close> of the standard library: the loop narrows \<open>i\<close> and \<open>j\<close>.\<close>

function search_loop :: "(nat \<Rightarrow> bool) \<Rightarrow> nat \<Rightarrow> nat \<Rightarrow> nat" where
  "search_loop f i j =
     (if i < j then
        (let h = (i + j) div 2 in if \<not> f h then search_loop f (h + 1) j else search_loop f i h)
      else i)"
  by pat_completeness auto

termination
  by (relation "measure (\<lambda>(f, i, j). j - i)") auto

declare search_loop.simps [simp del]

definition SearchForTimestamp :: "Block list \<Rightarrow> 64 word \<Rightarrow> nat" where
  "SearchForTimestamp blocks timestamp = search_loop (\<lambda>i. Timestamp (blocks ! i) > timestamp) 0 (length blocks)"

definition LookUp :: "BlocksByTimestamp \<Rightarrow> 64 word \<Rightarrow> 64 word \<times> 64 word \<times> bool" where
  "LookUp bts timestamp =
     (let cache = bts_cache bts in
      if cache = [] then (0, 0, False)
      else if timestamp < Timestamp (cache ! 0) then (0, BlockNum (cache ! 0), False)
      else if timestamp \<ge> Timestamp (cache ! (length cache - 1)) then (BlockNum (cache ! (length cache - 1)), 0, False)
      else (let idx = SearchForTimestamp cache timestamp;
                found = (BlockNum (cache ! (idx - 1)) + 1 = BlockNum (cache ! idx))
            in (BlockNum (cache ! (idx - 1)), BlockNum (cache ! idx), found)))"

definition GetRange :: "BlocksByTimestamp \<Rightarrow> 64 word \<times> 64 word \<times> 64 word \<times> 64 word" where
  "GetRange bts =
     (let cache = bts_cache bts; l = length cache - 1 in
      if cache = [] then (0, 0, 0, 0)
      else (BlockNum (cache ! 0), Timestamp (cache ! 0), BlockNum (cache ! l), Timestamp (cache ! l)))"

section \<open>Backfilling\<close>

definition CCQ_MAX_BATCH_SIZE :: int where "CCQ_MAX_BATCH_SIZE = 1000"
definition CCQ_TIMESTAMP_RANGE_IN_SECONDS :: "64 word" where "CCQ_TIMESTAMP_RANGE_IN_SECONDS = 30 * 60"

text \<open>
  The answer of a node to the n-th batch: an error of the whole call, or the block unmarshalled for each
  number. An error of one element leaves the zero block: the library sets it in the batch, while the code
  looks at \<open>results[idx].err\<close>, of which the batch holds a copy, and which stays nil.
\<close>

type_synonym batch_conn = "nat \<Rightarrow> 64 word list \<Rightarrow> go_error + (64 word \<Rightarrow> Block)"

text \<open>The numbers of a batch, from \<open>blockNum\<close> downwards, and the blocks that were found.\<close>

definition batch_numbers :: "64 word \<Rightarrow> nat \<Rightarrow> 64 word list" where
  "batch_numbers blockNum numBlocks = map (\<lambda>idx. blockNum - of_nat idx) [0..<numBlocks]"

definition read_blocks :: "(64 word \<Rightarrow> Block) \<Rightarrow> 64 word list \<Rightarrow> Block list" where
  "read_blocks answer nums = filter (\<lambda>b. BlockNum b \<noteq> 0) (map answer nums)"

text \<open>
  The loop of \<open>ccqBackFillDetermineMaxBatchSize\<close> with the number of the next attempt. It need not end, which is
  the value None. The result has the size, the blocks and the number of attempts.
\<close>

partial_function (option) batch_size_loop :: "batch_conn \<Rightarrow> int \<Rightarrow> nat \<Rightarrow> int \<Rightarrow> int \<Rightarrow> int \<Rightarrow>
    (go_error + int \<times> Block list \<times> nat) option" where
  "batch_size_loop conn latestBlockNum n trial prevFailure prevSuccess =
     (let batchSize = (if latestBlockNum < trial then latestBlockNum else trial);
          nums = batch_numbers (word_of_int latestBlockNum) (nat batchSize)
      in if batchSize < 0 then Some (Inl (Panic ''makeslice: len out of range''))
      else (case conn n nums of
          Inr answer \<Rightarrow>
            if prevFailure = 0 \<or> batchSize + 1 \<ge> prevFailure then Some (Inr (batchSize, read_blocks answer nums, Suc n))
            else if (prevFailure + batchSize) div 2 = 0 then Some (Inl (Wrap ''failed to determine batch size'' None))
            else batch_size_loop conn latestBlockNum (Suc n) ((prevFailure + batchSize) div 2) prevFailure batchSize
        | Inl err \<Rightarrow>
            if (batchSize + prevSuccess) div 2 = 0 then Some (Inl (Wrap ''failed to determine batch size'' (Some err)))
            else batch_size_loop conn latestBlockNum (Suc n) ((batchSize + prevSuccess) div 2) batchSize prevSuccess))"

definition ccqBackFillDetermineMaxBatchSize :: "batch_conn \<Rightarrow> int \<Rightarrow> (go_error + int \<times> Block list \<times> nat) option" where
  "ccqBackFillDetermineMaxBatchSize conn latestBlockNum = batch_size_loop conn latestBlockNum 0 CCQ_MAX_BATCH_SIZE 0 0"

definition ccqBackfillGetBlocks :: "batch_conn \<Rightarrow> nat \<Rightarrow> 64 word \<Rightarrow> int \<Rightarrow> go_error + Block list" where
  "ccqBackfillGetBlocks conn n initialBlockNum numBlocks =
     chk (guard_err (numBlocks < 0) (Panic ''makeslice: len out of range'')) (\<lambda>_.
     let nums = batch_numbers initialBlockNum (nat numBlocks) in
     chk (conn n nums) (\<lambda>answer. Inr (read_blocks answer nums)))"

text \<open>The loop of \<open>ccqBackfillInit\<close> that goes back to the cut-off time; \<open>blocks\<close> is not empty.\<close>

partial_function (option) init_backfill_loop :: "batch_conn \<Rightarrow> int \<Rightarrow> 64 word \<Rightarrow> nat \<Rightarrow> Block list \<Rightarrow>
    (go_error + Block list \<times> nat) option" where
  "init_backfill_loop conn batchSize cutOffTime n blocks =
     (if Timestamp (last blocks) > cutOffTime then
        (case ccqBackfillGetBlocks conn n (BlockNum (last blocks) - 1) batchSize of
           Inl (Panic p) \<Rightarrow> Some (Inl (Panic p))
         | Inl err \<Rightarrow> Some (Inl (Wrap ''failed to get batch'' (Some err)))
         | Inr newBlocks \<Rightarrow>
             if newBlocks = [] then Some (Inr (blocks, Suc n))
             else init_backfill_loop conn batchSize cutOffTime (Suc n) (blocks @ newBlocks))
      else Some (Inr (blocks, n)))"

text \<open>The fields of a watcher that backfilling uses.\<close>

record backfiller =
  bf_BatchSize :: int
  bf_TimestampCache :: BlocksByTimestamp
  bf_BackfillCache :: bool

definition cut_off_time :: "64 word \<Rightarrow> 64 word" where
  "cut_off_time latest = (if latest < CCQ_TIMESTAMP_RANGE_IN_SECONDS then 0 else latest - CCQ_TIMESTAMP_RANGE_IN_SECONDS)"

text \<open>The latest block comes from \<open>connectors.GetLatestBlock\<close>; \<open>Int64\<close> of its number is the signed value.\<close>

definition ccqBackfillInit :: "go_error + Block \<Rightarrow> batch_conn \<Rightarrow> backfiller \<Rightarrow> (go_error option \<times> backfiller) option" where
  "ccqBackfillInit latest conn w =
     (case latest of
        Inl err \<Rightarrow> Some (Some (Wrap ''failed to look up latest block'' (Some err)), w)
      | Inr latestBlock \<Rightarrow>
        (case (if bf_BatchSize w = 0 then ccqBackFillDetermineMaxBatchSize conn (sint (BlockNum latestBlock))
               else Some (Inr (bf_BatchSize w, [latestBlock], 0))) of
           None \<Rightarrow> None
         | Some (Inl (Panic p)) \<Rightarrow> Some (Some (Panic p), w)
         | Some (Inl err) \<Rightarrow> Some (Some (Wrap ''failed to determine max batch size'' (Some err)), w)
         | Some (Inr (batchSize, blocks, n)) \<Rightarrow>
             if blocks = [] then Some (Some (Errorf ''list of blocks is empty''), w\<lparr>bf_BatchSize := batchSize\<rparr>)
             else (case init_backfill_loop conn batchSize (cut_off_time (Timestamp latestBlock)) n blocks of
                 None \<Rightarrow> None
               | Some (Inl err) \<Rightarrow> Some (Some err, w\<lparr>bf_BatchSize := batchSize\<rparr>)
               | Some (Inr (all_blocks, _)) \<Rightarrow>
                   Some (None, w\<lparr>bf_BatchSize := batchSize, bf_TimestampCache := AddBatch all_blocks (bf_TimestampCache w)\<rparr>))))"

text \<open>A start that fails switches backfilling off. The routine it starts otherwise is \<open>ccqPerformBackfill\<close> per request.\<close>

definition ccqBackfillStart :: "go_error + Block \<Rightarrow> batch_conn \<Rightarrow> backfiller \<Rightarrow> (go_error + backfiller) option" where
  "ccqBackfillStart latest conn w =
     (case ccqBackfillInit latest conn w of
        None \<Rightarrow> None
      | Some (Some (Panic p), w') \<Rightarrow> Some (Inl (Panic p))
      | Some (Some err, w') \<Rightarrow> Some (Inr (w'\<lparr>bf_BackfillCache := False\<rparr>))
      | Some (None, w') \<Rightarrow> Some (Inr w'))"

definition ccqPerformBackfill :: "batch_conn \<Rightarrow> nat \<Rightarrow> 64 word \<Rightarrow> backfiller \<Rightarrow> go_error + backfiller" where
  "ccqPerformBackfill conn n timestamp w =
     (case LookUp (bf_TimestampCache w) timestamp of (firstBlock, lastBlock, found) \<Rightarrow>
        if found then Inr w
        else
          (let gap = sint (lastBlock - firstBlock - 1);
               numBlocks = (if gap > bf_BatchSize w then bf_BatchSize w else gap)
           in case ccqBackfillGetBlocks conn n (lastBlock - 1) numBlocks of
                Inl (Panic p) \<Rightarrow> Inl (Panic p)
              | Inl err \<Rightarrow> Inr w
              | Inr blocks \<Rightarrow>
                  if blocks = [] then Inl (Panic ''index out of range'')
                  else Inr (w\<lparr>bf_TimestampCache := AddBatch blocks (bf_TimestampCache w)\<rparr>)))"

section \<open>The search\<close>

lemma search_loop_bounds:
  assumes "i \<le> j" "j \<le> n" "\<forall>k<i. \<not> f k" "\<forall>k. j \<le> k \<and> k < n \<longrightarrow> f k"
    and mono: "\<And>a b. f a \<Longrightarrow> a \<le> b \<Longrightarrow> b < n \<Longrightarrow> f b"
  shows "search_loop f i j \<le> n \<and> (\<forall>k < search_loop f i j. \<not> f k) \<and> (\<forall>k. search_loop f i j \<le> k \<and> k < n \<longrightarrow> f k)"
  using assms(1-4)
proof (induction "j - i" arbitrary: i j rule: less_induct)
  case less
  show ?case
  proof (cases "i < j")
    case True
    let ?h = "(i + j) div 2"
    have h: "i \<le> ?h" "?h < j" using True by auto
    show ?thesis
    proof (cases "f ?h")
      case f: True
      have "\<forall>k. ?h \<le> k \<and> k < n \<longrightarrow> f k" using mono [OF f] by blast
      then have "search_loop f i ?h \<le> n \<and> (\<forall>k < search_loop f i ?h. \<not> f k) \<and> (\<forall>k. search_loop f i ?h \<le> k \<and> k < n \<longrightarrow> f k)"
        using less(1) [OF diff_less_mono [OF h(2,1)] h(1) le_trans [OF less_imp_le [OF h(2)] less.prems(2)] less.prems(3)] by blast
      then show ?thesis using True f by (simp add: search_loop.simps [of f i j])
    next
      case False
      have "\<not> f k" if "k < ?h + 1" for k
      proof
        assume "f k"
        then have "f ?h" using that less.prems(2) h by (intro mono [of k ?h]) auto
        then show False using False by contradiction
      qed
      then have "\<forall>k < ?h + 1. \<not> f k" by blast
      moreover have "j - (?h + 1) < j - i" "?h + 1 \<le> j" using True h by linarith+
      ultimately have "search_loop f (?h + 1) j \<le> n \<and> (\<forall>k < search_loop f (?h + 1) j. \<not> f k) \<and> (\<forall>k. search_loop f (?h + 1) j \<le> k \<and> k < n \<longrightarrow> f k)"
        using less(1) [OF _ _ less.prems(2) _ less.prems(4), of "?h + 1"] by blast
      then show ?thesis using True False by (simp add: search_loop.simps [of f i j])
    qed
  next
    case False
    then have "search_loop f i j = i" by (subst search_loop.simps) simp
    then show ?thesis using less.prems False by auto
  qed
qed

definition cache_sorted :: "BlocksByTimestamp \<Rightarrow> bool" where
  "cache_sorted bts \<longleftrightarrow> sorted_wrt (<) (bts_cache bts) \<and> length (bts_cache bts) \<le> bts_maxCacheSize bts"

lemma sorted_Timestamp:
  "sorted_wrt (<) (bs :: Block list) \<Longrightarrow> i \<le> j \<Longrightarrow> j < length bs \<Longrightarrow> Timestamp (bs ! i) \<le> Timestamp (bs ! j)"
  using sorted_wrt_nth_less [of "(<)" bs i j] by (cases "i = j") (auto simp: Block_less_iff)

lemma SearchForTimestamp_split:
  assumes "sorted_wrt (<) bs"
  shows "SearchForTimestamp bs t \<le> length bs" "k < SearchForTimestamp bs t \<Longrightarrow> Timestamp (bs ! k) \<le> t"
    "SearchForTimestamp bs t \<le> k \<Longrightarrow> k < length bs \<Longrightarrow> t < Timestamp (bs ! k)"
proof -
  have "t < Timestamp (bs ! a) \<Longrightarrow> a \<le> b \<Longrightarrow> b < length bs \<Longrightarrow> t < Timestamp (bs ! b)" for a b
    using sorted_Timestamp [OF assms, of a b] by simp
  note mono = this
  have "\<forall>k. length bs \<le> k \<and> k < length bs \<longrightarrow> t < Timestamp (bs ! k)" by linarith
  then have "SearchForTimestamp bs t \<le> length bs \<and> (\<forall>k < SearchForTimestamp bs t. \<not> t < Timestamp (bs ! k)) \<and>
      (\<forall>k. SearchForTimestamp bs t \<le> k \<and> k < length bs \<longrightarrow> t < Timestamp (bs ! k))"
    unfolding SearchForTimestamp_def using mono by (intro search_loop_bounds) (simp | blast)+
  then show "SearchForTimestamp bs t \<le> length bs" "k < SearchForTimestamp bs t \<Longrightarrow> Timestamp (bs ! k) \<le> t"
    "SearchForTimestamp bs t \<le> k \<Longrightarrow> k < length bs \<Longrightarrow> t < Timestamp (bs ! k)"
    by (simp_all add: not_less)
qed

text \<open>In the middle of the cache the search lands between two entries.\<close>

lemma SearchForTimestamp_between:
  assumes "sorted_wrt (<) bs" "bs \<noteq> []" "Timestamp (bs ! 0) \<le> t" "t < Timestamp (bs ! (length bs - 1))"
  shows "0 < SearchForTimestamp bs t" "SearchForTimestamp bs t < length bs"
    "Timestamp (bs ! (SearchForTimestamp bs t - 1)) \<le> t" "t < Timestamp (bs ! SearchForTimestamp bs t)"
proof -
  note split = SearchForTimestamp_split [OF assms(1)]
  show p: "0 < SearchForTimestamp bs t"
    using split(3) [of t 0] assms by (cases "SearchForTimestamp bs t") auto
  show q: "SearchForTimestamp bs t < length bs"
  proof (rule ccontr)
    assume "\<not> SearchForTimestamp bs t < length bs"
    then have "length bs - 1 < SearchForTimestamp bs t" using assms(2) by (cases bs) auto
    then show False using split(2) assms(4) by fastforce
  qed
  show "Timestamp (bs ! (SearchForTimestamp bs t - 1)) \<le> t" using p split(2) by simp
  show "t < Timestamp (bs ! SearchForTimestamp bs t)" using q split(3) by simp
qed

section \<open>The order of the cache\<close>

lemma rollback_idx_le: "rollback_idx cache t num l \<le> l"
  by (induction l) auto

lemma rollback_idx_before:
  "rollback_idx cache t num l = Suc idx \<Longrightarrow> cache ! idx < Block t num"
  by (induction l) (auto simp: Block_less_iff split: if_splits)

lemma sorted_snoc_last:
  "sorted_wrt (<) (bs :: Block list) \<Longrightarrow> (bs \<noteq> [] \<Longrightarrow> last bs < b) \<Longrightarrow> sorted_wrt (<) (bs @ [b])"
  by (cases bs rule: rev_cases) (simp_all add: sorted_wrt_append, use order_less_trans in blast)

lemma AddLatest_kept:
  assumes "sorted_wrt (<) (bts_cache bts)"
  obtains kept extra where "bts_cache bts = kept @ extra" "sorted_wrt (<) (kept @ [Block t num])"
    "bts_cache (AddLatest t num bts) =
       (if bts_maxCacheSize bts < length (kept @ [Block t num]) then drop 1 (kept @ [Block t num]) else kept @ [Block t num])"
proof -
  let ?c = "bts_cache bts"
  let ?roll = "0 < length ?c \<and> (num \<le> BlockNum (?c ! (length ?c - 1)) \<or> t < Timestamp (?c ! (length ?c - 1)))"
  define kept where "kept = (if ?roll then take (rollback_idx ?c t num (length ?c)) ?c else ?c)"
  have "kept \<noteq> [] \<Longrightarrow> last kept < Block t num"
  proof (cases ?roll)
    case True
    assume "kept \<noteq> []"
    then obtain idx where idx: "rollback_idx ?c t num (length ?c) = Suc idx"
      using True by (cases "rollback_idx ?c t num (length ?c)") (auto simp: kept_def)
    have "Suc idx \<le> length ?c" using rollback_idx_le [of ?c t num "length ?c"] idx by simp
    then have "last kept = ?c ! idx" using True idx by (simp add: kept_def take_Suc_conv_app_nth)
    then show ?thesis using rollback_idx_before [OF idx] by simp
  next
    case False
    assume "kept \<noteq> []"
    then show ?thesis using False by (auto simp: kept_def last_conv_nth Block_less_iff)
  qed
  moreover have "sorted_wrt (<) kept" using assms by (simp add: kept_def sorted_wrt_take)
  ultimately have "sorted_wrt (<) (kept @ [Block t num])" by (rule sorted_snoc_last [rotated])
  moreover have "\<exists>extra. ?c = kept @ extra"
    by (metis kept_def append_Nil2 append_take_drop_id)
  moreover have "bts_cache (AddLatest t num bts) =
     (if bts_maxCacheSize bts < length (kept @ [Block t num]) then drop 1 (kept @ [Block t num]) else kept @ [Block t num])"
    by (simp add: AddLatest_def Let_def kept_def)
  ultimately show thesis using that by blast
qed

lemma AddLatest_params [simp]: "bts_maxCacheSize (AddLatest t num bts) = bts_maxCacheSize bts"
  by (simp add: AddLatest_def Let_def)

lemma AddBatch_params [simp]: "bts_maxCacheSize (AddBatch bs bts) = bts_maxCacheSize bts"
  by (simp add: AddBatch_def Let_def)

lemma AddLatest_sorted: "cache_sorted bts \<Longrightarrow> cache_sorted (AddLatest t num bts)"
proof -
  assume s: "cache_sorted bts"
  obtain kept extra where k: "bts_cache bts = kept @ extra" "sorted_wrt (<) (kept @ [Block t num])"
    "bts_cache (AddLatest t num bts) =
       (if bts_maxCacheSize bts < length (kept @ [Block t num]) then drop 1 (kept @ [Block t num]) else kept @ [Block t num])"
    using AddLatest_kept s by (metis cache_sorted_def)
  have "length kept \<le> bts_maxCacheSize bts" using s k(1) by (simp add: cache_sorted_def)
  then show "cache_sorted (AddLatest t num bts)"
    using k(2,3) sorted_wrt_drop [OF k(2), of 1] by (auto simp: cache_sorted_def)
qed

text \<open>A block of the new cache is the new one or was there before.\<close>

lemma AddLatest_set: "cache_sorted bts \<Longrightarrow> set (bts_cache (AddLatest t num bts)) \<subseteq> insert (Block t num) (set (bts_cache bts))"
proof -
  assume s: "cache_sorted bts"
  obtain kept extra where k: "bts_cache bts = kept @ extra"
    "bts_cache (AddLatest t num bts) =
       (if bts_maxCacheSize bts < length (kept @ [Block t num]) then drop 1 (kept @ [Block t num]) else kept @ [Block t num])"
    using AddLatest_kept s by (metis cache_sorted_def)
  have "set (drop 1 (kept @ [Block t num])) \<subseteq> set (kept @ [Block t num])" by (rule set_drop_subset)
  then show "set (bts_cache (AddLatest t num bts)) \<subseteq> insert (Block t num) (set (bts_cache bts))"
    unfolding k by auto
qed

lemma sorted_Block_iff: "sorted_wrt (<) (bs :: Block list) \<longleftrightarrow> sorted bs \<and> distinct bs"
  by (rule strict_sorted_iff)

text \<open>The map of a batch: its keys are the block numbers, a later block overwrites an earlier one.\<close>

lemma distinct_block_map: "distinct (map fst m) \<Longrightarrow> distinct (map fst (block_map bs m))"
  by (induction bs arbitrary: m) (simp_all add: block_map_def distinct_update)

lemma find_snoc: "find P (xs @ [x]) = (case find P xs of Some y \<Rightarrow> Some y | None \<Rightarrow> if P x then Some x else None)"
  by (induction xs) auto

lemma map_of_block_map:
  "map_of (block_map bs m) n = (case find (\<lambda>b. BlockNum b = n) (rev bs) of Some b \<Rightarrow> Some (Timestamp b) | None \<Rightarrow> map_of m n)"
proof (induction bs arbitrary: m)
  case (Cons b bs)
  have "block_map (b # bs) m = block_map bs (AList.update (BlockNum b) (Timestamp b) m)" by (simp add: block_map_def)
  then show ?case using Cons by (auto simp: update_conv' find_snoc split: option.splits)
qed (simp add: block_map_def)

definition merged_blocks :: "Block list \<Rightarrow> BlocksByTimestamp \<Rightarrow> Block list" where
  "merged_blocks bs bts = sort (map (\<lambda>(blockNum, timestamp). Block timestamp blockNum) (block_map bs (block_map (bts_cache bts) [])))"

lemma AddBatch_cache:
  "bts_cache (AddBatch bs bts) = drop (length (merged_blocks bs bts) - bts_maxCacheSize bts) (merged_blocks bs bts)"
  by (simp add: AddBatch_def merged_blocks_def Let_def)

lemma merged_sorted: "sorted_wrt (<) (merged_blocks bs bts)"
proof -
  let ?m = "block_map bs (block_map (bts_cache bts) [])"
  have "distinct (map fst ?m)" by (simp add: distinct_block_map)
  then have "distinct (map (\<lambda>(blockNum, timestamp). Block timestamp blockNum) ?m)"
    by (auto simp: distinct_map inj_on_def)
  then show ?thesis by (simp add: sorted_Block_iff merged_blocks_def)
qed

text \<open>Whatever the order in which Go visits the map, the sorted cache is the same.\<close>

lemma sort_unique: "mset bs = mset bs' \<Longrightarrow> sort bs = sort (bs' :: Block list)"
  by (metis properties_for_sort sorted_sort mset_sort)

lemma merged_set:
  "Block t n \<in> set (merged_blocks bs bts) \<longleftrightarrow>
     (case find (\<lambda>b. BlockNum b = n) (rev bs) of Some b \<Rightarrow> t = Timestamp b
      | None \<Rightarrow> (case find (\<lambda>b. BlockNum b = n) (rev (bts_cache bts)) of Some b \<Rightarrow> t = Timestamp b | None \<Rightarrow> False))"
proof -
  let ?m = "block_map bs (block_map (bts_cache bts) [])"
  have "Block t n \<in> set (merged_blocks bs bts) \<longleftrightarrow> (n, t) \<in> set ?m"
    by (force simp: merged_blocks_def)
  also have "\<dots> \<longleftrightarrow> map_of ?m n = Some t"
    by (simp add: distinct_block_map)
  finally show ?thesis by (auto simp: map_of_block_map split: option.splits)
qed

lemma AddBatch_sorted: "cache_sorted (AddBatch bs bts)"
  by (auto simp: cache_sorted_def AddBatch_cache intro: sorted_wrt_drop merged_sorted)

lemma merged_from: "b \<in> set (merged_blocks bs bts) \<Longrightarrow> b \<in> set bs \<union> set (bts_cache bts)"
  using merged_set [of "Timestamp b" "BlockNum b" bs bts]
  by (auto simp: find_Some_iff split: option.splits) (metis Block.expand nth_mem rev_nth set_rev length_rev)+

lemma AddBatch_set: "set (bts_cache (AddBatch bs bts)) \<subseteq> set bs \<union> set (bts_cache bts)"
  using merged_from by (auto simp: AddBatch_cache dest!: in_set_dropD)

section \<open>Looking up\<close>

text \<open>The blocks are blocks of the chain whose block \<open>n\<close> has the time \<open>ts n\<close>.\<close>

definition on_chain :: "(64 word \<Rightarrow> 64 word) \<Rightarrow> Block list \<Rightarrow> bool" where
  "on_chain ts bs \<longleftrightarrow> (\<forall>b\<in>set bs. Timestamp b = ts (BlockNum b))"

datatype cache_op = Latest_op "64 word" "64 word" | Batch_op "Block list"

fun cache_step :: "cache_op \<Rightarrow> BlocksByTimestamp \<Rightarrow> BlocksByTimestamp" where
  "cache_step (Latest_op timestamp blockNum) bts = AddLatest timestamp blockNum bts"
| "cache_step (Batch_op blocks) bts = AddBatch blocks bts"

fun op_blocks :: "cache_op \<Rightarrow> Block list" where
  "op_blocks (Latest_op timestamp blockNum) = [Block timestamp blockNum]"
| "op_blocks (Batch_op blocks) = blocks"

lemma cache_step_sorted: "cache_sorted bts \<Longrightarrow> cache_sorted (cache_step op bts)"
  by (cases op) (simp_all add: AddLatest_sorted AddBatch_sorted)

lemma cache_step_on_chain:
  "cache_sorted bts \<Longrightarrow> on_chain ts (bts_cache bts) \<Longrightarrow> on_chain ts (op_blocks op) \<Longrightarrow> on_chain ts (bts_cache (cache_step op bts))"
  using AddLatest_set AddBatch_set by (cases op) (fastforce simp: on_chain_def)+

lemma cache_run:
  assumes "\<forall>op\<in>set ops. on_chain ts (op_blocks op)" "cache_sorted bts" "on_chain ts (bts_cache bts)"
  shows "cache_sorted (fold cache_step ops bts) \<and> on_chain ts (bts_cache (fold cache_step ops bts))"
  using assms by (induction ops arbitrary: bts) (simp_all add: cache_step_sorted cache_step_on_chain)

lemma new_cache: "cache_sorted (NewBlocksByTimestamp m dev)" "on_chain ts (bts_cache (NewBlocksByTimestamp m dev))"
  by (simp_all add: cache_sorted_def NewBlocksByTimestamp_def on_chain_def)

text \<open>In a cache of blocks of one chain the block numbers ascend too.\<close>

lemma chain_BlockNum:
  assumes "sorted_wrt (<) bs" "on_chain ts bs" "mono ts" "i < j" "j < length bs"
  shows "BlockNum (bs ! i) < BlockNum (bs ! j)"
proof (rule ccontr)
  assume "\<not> BlockNum (bs ! i) < BlockNum (bs ! j)"
  then have le: "BlockNum (bs ! j) \<le> BlockNum (bs ! i)" by simp
  then have "Timestamp (bs ! j) \<le> Timestamp (bs ! i)"
    using assms(2-5) by (simp add: on_chain_def monoD)
  moreover have "bs ! i < bs ! j" using assms(1,4,5) by (rule sorted_wrt_nth_less)
  ultimately show False using le by (auto simp: Block_less_iff)
qed

text \<open>A time within the cache is looked up between two neighbours of the cache.\<close>

lemma LookUp_middle:
  assumes s: "sorted_wrt (<) (bts_cache bts)" and "bts_cache bts \<noteq> []" "Timestamp (hd (bts_cache bts)) \<le> t"
    "t < Timestamp (last (bts_cache bts))"
  obtains i where "Suc i < length (bts_cache bts)" "Timestamp (bts_cache bts ! i) \<le> t" "t < Timestamp (bts_cache bts ! Suc i)"
    "LookUp bts t = (BlockNum (bts_cache bts ! i), BlockNum (bts_cache bts ! Suc i),
       BlockNum (bts_cache bts ! i) + 1 = BlockNum (bts_cache bts ! Suc i))"
proof -
  let ?c = "bts_cache bts" and ?idx = "SearchForTimestamp (bts_cache bts) t"
  have ends: "Timestamp (?c ! 0) \<le> t" "t < Timestamp (?c ! (length ?c - 1))"
    using assms(2-4) by (simp_all add: hd_conv_nth last_conv_nth)
  note b = SearchForTimestamp_between [OF s assms(2) ends]
  have "Suc (?idx - 1) = ?idx" using b(1) by simp
  moreover have "LookUp bts t = (BlockNum (?c ! (?idx - 1)), BlockNum (?c ! ?idx), BlockNum (?c ! (?idx - 1)) + 1 = BlockNum (?c ! ?idx))"
    using leD [OF ends(1)] leD [OF less_imp_le [OF ends(2)]] ends(2) assms(2) by (auto simp: LookUp_def Let_def)
  ultimately show thesis using that [of "?idx - 1"] b by simp
qed

lemma LookUp_found_iff:
  assumes s: "sorted_wrt (<) (bts_cache bts)" and chain: "on_chain ts (bts_cache bts)" "mono ts"
  shows "LookUp bts t = (a, b, True) \<longleftrightarrow>
    b = a + 1 \<and> Block (ts a) a \<in> set (bts_cache bts) \<and> Block (ts b) b \<in> set (bts_cache bts) \<and> ts a \<le> t \<and> t < ts b"
proof
  let ?c = "bts_cache bts"
  have entry: "?c ! k = Block (ts (BlockNum (?c ! k))) (BlockNum (?c ! k))" if "k < length ?c" for k
    using chain(1) that nth_mem by (intro Block.expand) (auto simp: on_chain_def)
  {
    assume l: "LookUp bts t = (a, b, True)"
    have ne: "?c \<noteq> []" and ends: "Timestamp (hd ?c) \<le> t" "t < Timestamp (last ?c)"
      using l by (auto simp: LookUp_def Let_def hd_conv_nth last_conv_nth not_less not_le split: if_splits)
    obtain i where i: "Suc i < length ?c" "Timestamp (?c ! i) \<le> t" "t < Timestamp (?c ! Suc i)"
      "LookUp bts t = (BlockNum (?c ! i), BlockNum (?c ! Suc i), BlockNum (?c ! i) + 1 = BlockNum (?c ! Suc i))"
      by (rule LookUp_middle [OF s ne ends])
    have eq: "a = BlockNum (?c ! i)" "b = BlockNum (?c ! Suc i)" "b = a + 1" using l i(4) by auto
    have "?c ! i = Block (ts a) a" "?c ! Suc i = Block (ts b) b"
      using entry [of i] entry [of "Suc i"] i(1) unfolding eq(1,2) by simp_all
    then show "b = a + 1 \<and> Block (ts a) a \<in> set ?c \<and> Block (ts b) b \<in> set ?c \<and> ts a \<le> t \<and> t < ts b"
      using i(1-3) eq(3) nth_mem [of i ?c] nth_mem [of "Suc i" ?c] by (auto simp del: nth_mem)
  next
    assume r: "b = a + 1 \<and> Block (ts a) a \<in> set ?c \<and> Block (ts b) b \<in> set ?c \<and> ts a \<le> t \<and> t < ts b"
    then obtain i j where i: "i < length ?c" "?c ! i = Block (ts a) a" and j: "j < length ?c" "?c ! j = Block (ts b) b"
      by (metis in_set_conv_nth)
    note le = sorted_Timestamp [OF s]
    have ij: "i < j" using le [of j i] i j r by (metis Block.sel(1) leD le_less_trans less_le_trans not_le_imp_less order_le_less_trans)
    have ji: "j = Suc i"
    proof (rule ccontr)
      assume "j \<noteq> Suc i"
      then have k: "Suc i < j" using ij by simp
      have "a < BlockNum (?c ! Suc i)" "BlockNum (?c ! Suc i) < a + 1"
        using chain_BlockNum [OF s chain, of i "Suc i"] chain_BlockNum [OF s chain, of "Suc i" j] k i j r by auto
      then show False using inc_le leD by blast
    qed
    have "0 < length ?c" using i(1) by (cases ?c) auto
    then have "hd ?c = ?c ! 0" "last ?c = ?c ! (length ?c - 1)" by (simp_all add: hd_conv_nth last_conv_nth)
    moreover have "Timestamp (?c ! 0) \<le> ts a" "ts b \<le> Timestamp (?c ! (length ?c - 1))"
      using le [of 0 i] le [of j "length ?c - 1"] i j by auto
    ultimately have ends: "Timestamp (hd ?c) \<le> t" "t < Timestamp (last ?c)" using r by auto
    have ne: "?c \<noteq> []" using i(1) by auto
    obtain k where k: "Suc k < length ?c" "Timestamp (?c ! k) \<le> t" "t < Timestamp (?c ! Suc k)"
      "LookUp bts t = (BlockNum (?c ! k), BlockNum (?c ! Suc k), BlockNum (?c ! k) + 1 = BlockNum (?c ! Suc k))"
      by (rule LookUp_middle [OF s ne ends])
    have "\<not> Suc k \<le> i" using le [of "Suc k" i] k(3) i r by auto
    moreover have "\<not> j \<le> k" using le [of j k] k(1,2) j r by auto
    ultimately have "k = i" using ji by simp
    then show "LookUp bts t = (a, b, True)" using k(4) i j ji r by simp
  }
qed

text \<open>
  C34. The timestamp cache answers right. Whatever latest blocks and batches went into it, if they are blocks of
  one chain whose times never go down, the lookup of a time t reports the blocks a and b as found exactly when b
  is the block after a, both are in the cache, and t is not before a and before b. So a is the last block of the
  chain that is not later than t.
\<close>

theorem lookup_finds_block:
  assumes "mono ts" "\<forall>op\<in>set ops. on_chain ts (op_blocks op)"
    and "bts = fold cache_step ops (NewBlocksByTimestamp maxCacheSize dev)"
  shows "LookUp bts t = (a, b, True) \<longleftrightarrow>
    b = a + 1 \<and> Block (ts a) a \<in> set (bts_cache bts) \<and> Block (ts b) b \<in> set (bts_cache bts) \<and> ts a \<le> t \<and> t < ts b"
  using LookUp_found_iff cache_run [OF assms(2) new_cache] assms(1,3) by (simp add: cache_sorted_def)

definition sample_times :: "64 word \<Rightarrow> 64 word" where
  "sample_times n = (if n < 12 then 100 else if n < 13 then 112 else 130)"

lemma mono_sample_times: "mono sample_times"
  by (intro monoI) (auto simp: sample_times_def)

definition sample_ops :: "cache_op list" where
  "sample_ops = [Latest_op 112 12, Batch_op [Block 100 11, Block 100 10], Latest_op 130 13]"

lemma sample_cache: "fold cache_step sample_ops (NewBlocksByTimestamp 3 False) =
    \<lparr>bts_cache = [Block 100 11, Block 112 12, Block 130 13], bts_maxCacheSize = 3, bts_unsafeDevMode = False\<rparr>"
  by code_simp

theorem lookup_finds_block_witness:
  "LookUp (fold cache_step sample_ops (NewBlocksByTimestamp 3 False)) 105 = (11, 12, True)"
proof (subst lookup_finds_block [OF mono_sample_times _ refl])
  show "\<forall>op\<in>set sample_ops. on_chain sample_times (op_blocks op)"
    by (simp add: sample_ops_def on_chain_def sample_times_def)
  show "(12 :: 64 word) = 11 + 1 \<and>
    Block (sample_times 11) 11 \<in> set (bts_cache (fold cache_step sample_ops (NewBlocksByTimestamp 3 False))) \<and>
    Block (sample_times 12) 12 \<in> set (bts_cache (fold cache_step sample_ops (NewBlocksByTimestamp 3 False))) \<and>
    sample_times 11 \<le> 105 \<and> 105 < sample_times 12"
    by (simp add: sample_cache sample_times_def)
qed

text \<open>
  After a rollback the blocks of a batch need not be of the chain of those in the cache. Then the cache is in
  order of time but not of block number, and a later block is put into it a second time.
\<close>

lemma block_cached_twice:
  "bts_cache (fold cache_step [Latest_op 100 10, Batch_op [Block 99 11], Latest_op 101 11] (NewBlocksByTimestamp 10000 False)) =
     [Block 99 11, Block 100 10, Block 101 11]"
  by code_simp

section \<open>Filling a gap\<close>

lemma length_merged: "length (merged_blocks bs bts) \<le> length bs + length (bts_cache bts)"
proof -
  have "distinct (merged_blocks bs bts)" using merged_sorted [of bs bts] by (simp add: sorted_Block_iff)
  then have "length (merged_blocks bs bts) = card (set (merged_blocks bs bts))" by (simp add: distinct_card)
  also have "\<dots> \<le> card (set bs \<union> set (bts_cache bts))" using merged_from by (intro card_mono) auto
  also have "\<dots> \<le> length bs + length (bts_cache bts)"
    using card_Un_le [of "set bs" "set (bts_cache bts)"] card_length [of bs] card_length [of "bts_cache bts"] by linarith
  finally show ?thesis .
qed

lemma find_SomeD: "find P l = Some x \<Longrightarrow> x \<in> set l \<and> P x"
  by (induction l) (auto split: if_splits)

text \<open>Without trimming, the blocks of one chain that are in the batch or in the cache are in the new cache.\<close>

lemma AddBatch_keeps:
  assumes "on_chain ts bs" "on_chain ts (bts_cache bts)" "length bs + length (bts_cache bts) \<le> bts_maxCacheSize bts"
    and "b \<in> set bs \<union> set (bts_cache bts)"
  shows "b \<in> set (bts_cache (AddBatch bs bts))"
proof -
  have ts: "Timestamp b' = Timestamp b" if "b' \<in> set bs \<union> set (bts_cache bts)" "BlockNum b' = BlockNum b" for b'
    using assms(1,2,4) that by (auto simp: on_chain_def)
  have found: "\<exists>b'. find (\<lambda>x. BlockNum x = BlockNum b) (rev l) = Some b' \<and> b' \<in> set l \<and> BlockNum b' = BlockNum b"
    if n: "BlockNum b \<in> BlockNum ` set l" for l
  proof (cases "find (\<lambda>x. BlockNum x = BlockNum b) (rev l)")
    case None
    then show ?thesis using n by (auto simp: find_None_iff)
  next
    case (Some b')
    then show ?thesis using find_SomeD by fastforce
  qed
  have "Block (Timestamp b) (BlockNum b) \<in> set (merged_blocks bs bts)"
  proof (cases "BlockNum b \<in> BlockNum ` set bs")
    case True
    then obtain b' where "find (\<lambda>x. BlockNum x = BlockNum b) (rev bs) = Some b'" "b' \<in> set bs" "BlockNum b' = BlockNum b"
      using found by blast
    then show ?thesis unfolding merged_set using ts [of b'] by simp
  next
    case False
    then have "find (\<lambda>x. BlockNum x = BlockNum b) (rev bs) = None" by (auto simp: find_None_iff image_iff)
    moreover have "b \<in> set (bts_cache bts)" using False assms(4) by auto
    then obtain b' where "find (\<lambda>x. BlockNum x = BlockNum b) (rev (bts_cache bts)) = Some b'"
      "b' \<in> set (bts_cache bts)" "BlockNum b' = BlockNum b"
      using found by blast
    ultimately show ?thesis unfolding merged_set using ts [of b'] by simp
  qed
  moreover have "length (merged_blocks bs bts) - bts_maxCacheSize bts = 0"
    using length_merged [of bs bts] assms(3) by simp
  ultimately show ?thesis by (simp add: AddBatch_cache)
qed

text \<open>Between a block not after t and a later one after t there is a last block not after t.\<close>

lemma last_block_before:
  fixes ts :: "64 word \<Rightarrow> 64 word"
  shows "ts a \<le> t \<Longrightarrow> t < ts (a + of_nat d) \<Longrightarrow> \<exists>k<d. ts (a + of_nat k) \<le> t \<and> t < ts (a + of_nat k + 1)"
proof (induction d)
  case (Suc d)
  show ?case
  proof (cases "t < ts (a + of_nat d)")
    case True
    then show ?thesis using Suc less_Suc_eq by metis
  next
    case False
    moreover have "t < ts (a + of_nat d + 1)" using Suc.prems(2) by (simp add: ac_simps)
    ultimately show ?thesis by (intro exI [of _ d]) simp
  qed
qed simp

lemma unat_lt64: "unat (b :: 64 word) < 2 ^ 64"
  using unsigned_less [where 'a = nat, of b] by simp

text \<open>The blocks of the batch that fills a gap between the blocks a and b.\<close>

lemma gap_numbers:
  assumes "a < b" "n = nat (uint b - uint a - 1)"
  shows "set (batch_numbers (b - 1) n) = {k. a < k \<and> k < b}"
proof -
  have ab: "unat a < unat b" using assms(1) by (simp add: word_less_nat_alt)
  have n: "n = unat b - unat a - 1" using assms by (simp add: nat_diff_distrib word_less_def)
  have sub: "unat (b - 1 - of_nat i) = unat b - 1 - i" if "i < n" for i
  proof -
    have "i < 2 ^ 64" using that n unat_lt64 [of b] by simp
    then have u: "unat (of_nat i :: 64 word) = i" by (simp add: unat_of_nat)
    have b1: "unat (b - 1) = unat b - 1" using ab by (intro unat_minus_one) auto
    show ?thesis using that n u b1 by (subst unat_sub) (simp_all add: word_le_nat_alt)
  qed
  show ?thesis
  proof (intro set_eqI iffI)
    fix k assume "k \<in> set (batch_numbers (b - 1) n)"
    then obtain i where i: "i < n" "k = b - 1 - of_nat i" by (auto simp: batch_numbers_def)
    then have "unat k = unat b - 1 - i" using sub by simp
    then show "k \<in> {k. a < k \<and> k < b}" using i(1) n by (simp add: word_less_nat_alt)
  next
    fix k assume "k \<in> {k. a < k \<and> k < b}"
    then have k: "unat a < unat k" "unat k < unat b" by (simp_all add: word_less_nat_alt)
    let ?i = "unat b - 1 - unat k"
    have "?i < n" using k n by linarith
    moreover have "unat (b - 1 - of_nat ?i) = unat k" using sub [OF \<open>?i < n\<close>] k by linarith
    then have "k = b - 1 - of_nat ?i" by (simp add: word_unat_eq_iff)
    ultimately show "k \<in> set (batch_numbers (b - 1) n)" unfolding batch_numbers_def by force
  qed
qed

lemma LookUp_gap:
  assumes s: "sorted_wrt (<) (bts_cache bts)" and chain: "on_chain ts (bts_cache bts)" "mono ts"
    and l: "LookUp bts t = (a, b, False)" and mid: "bts_cache bts \<noteq> []" "Timestamp (hd (bts_cache bts)) \<le> t" "t < Timestamp (last (bts_cache bts))"
  shows "Block (ts a) a \<in> set (bts_cache bts)" "Block (ts b) b \<in> set (bts_cache bts)" "ts a \<le> t" "t < ts b" "a < b" "a + 1 \<noteq> b"
proof -
  let ?c = "bts_cache bts"
  obtain i where i: "Suc i < length ?c" "Timestamp (?c ! i) \<le> t" "t < Timestamp (?c ! Suc i)"
      "LookUp bts t = (BlockNum (?c ! i), BlockNum (?c ! Suc i), BlockNum (?c ! i) + 1 = BlockNum (?c ! Suc i))"
    by (rule LookUp_middle [OF s mid])
  have eq: "a = BlockNum (?c ! i)" "b = BlockNum (?c ! Suc i)" "a + 1 \<noteq> b" using l i(4) by auto
  have ab: "?c ! i = Block (ts a) a" "?c ! Suc i = Block (ts b) b"
    using chain(1) i(1) nth_mem [of i ?c] nth_mem [of "Suc i" ?c] unfolding eq(1,2)
    by (auto simp: on_chain_def intro!: Block.expand simp del: nth_mem)
  show "Block (ts a) a \<in> set ?c" "Block (ts b) b \<in> set ?c"
    using i(1) nth_mem [of i ?c] nth_mem [of "Suc i" ?c] by (simp_all add: ab del: nth_mem)
  show "ts a \<le> t" "t < ts b" using i(2,3) by (simp_all add: ab)
  show "a < b" using chain_BlockNum [OF s chain, of i "Suc i"] i(1) by (simp add: ab)
  show "a + 1 \<noteq> b" by (rule eq(3))
qed

text \<open>Once all blocks between two others are in a cache, it finds every time between the two.\<close>

lemma filled_cache_finds:
  assumes "sorted_wrt (<) (bts_cache bts)" "on_chain ts (bts_cache bts)" "mono ts"
    and "a < b" "ts a \<le> t" "t < ts b"
    and inside: "\<And>k. a \<le> k \<Longrightarrow> k \<le> b \<Longrightarrow> Block (ts k) k \<in> set (bts_cache bts)"
  shows "\<exists>k. LookUp bts t = (k, k + 1, True)"
proof -
  have "b = a + of_nat (unat (b - a))" by simp
  then obtain k where k: "k < unat (b - a)" "ts (a + of_nat k) \<le> t" "t < ts (a + of_nat k + 1)"
    using last_block_before [of ts a t "unat (b - a)"] assms(5,6) by auto
  have "unat (b - a) = unat b - unat a" using assms(4) by (simp add: unat_sub order_less_imp_le)
  then have le: "unat a + k + 1 \<le> unat b" using k(1) by linarith
  moreover have "unat b < 2 ^ 64" using unat_lt64 [of b] by simp
  ultimately have u: "unat (a + of_nat k) = unat a + k" "unat (a + of_nat k + 1) = unat a + k + 1"
    by (simp_all add: unat_word_ariths unat_of_nat mod_less)
  have "a \<le> a + of_nat k" "a + of_nat k \<le> b" "a \<le> a + of_nat k + 1" "a + of_nat k + 1 \<le> b"
    unfolding word_le_nat_alt u using le by simp_all
  then have "LookUp bts t = (a + of_nat k, a + of_nat k + 1, True)"
    using LookUp_found_iff assms(1-3) inside k(2,3) by blast
  then show ?thesis by blast
qed

text \<open>The length that the backfill computes for a gap of at most one batch.\<close>

lemma gap_size:
  fixes a b :: "64 word"
  assumes "a < b" "uint b - uint a - 1 \<le> 1000"
  shows "0 \<le> uint b - uint a - 1" "sint (b - a - 1) = uint b - uint a - 1"
proof -
  show range: "0 \<le> uint b - uint a - 1" using assms(1) by (simp add: word_less_def)
  have diff: "b - a - 1 = word_of_int (uint b - uint a - 1)" by (simp add: word_of_int_minus)
  show "sint (b - a - 1) = uint b - uint a - 1"
    unfolding diff sint_sbintrunc' using range assms(2) by (intro signed_take_bit_int_eq_self) simp_all
qed

text \<open>
  C35. Backfilling closes a gap. When the cache holds blocks of one chain, a time t falls between two cached blocks
  a and b that are not neighbours, the gap fits into a batch and into the cache, and the node answers with the
  blocks of the chain, then after the backfill the lookup of t finds a block and the one after it.
\<close>

theorem backfill_closes_gap:
  assumes cache: "cache_sorted (bf_TimestampCache w)" "on_chain ts (bts_cache (bf_TimestampCache w))" "mono ts"
    and gap: "LookUp (bf_TimestampCache w) t = (a, b, False)" "bts_cache (bf_TimestampCache w) \<noteq> []"
      "Timestamp (hd (bts_cache (bf_TimestampCache w))) \<le> t" "t < Timestamp (last (bts_cache (bf_TimestampCache w)))"
    and fits: "uint b - uint a - 1 \<le> bf_BatchSize w" "bf_BatchSize w \<le> CCQ_MAX_BATCH_SIZE"
      "nat (uint b - uint a - 1) + length (bts_cache (bf_TimestampCache w)) \<le> bts_maxCacheSize (bf_TimestampCache w)"
    and node: "\<forall>nums. \<exists>answer. conn n nums = Inr answer \<and> (\<forall>k\<in>set nums. answer k = Block (ts k) k)"
  shows "\<exists>w' k. ccqPerformBackfill conn n t w = Inr w' \<and> LookUp (bf_TimestampCache w') t = (k, k + 1, True)"
proof -
  let ?bts = "bf_TimestampCache w" and ?n = "nat (uint b - uint a - 1)"
  have s: "sorted_wrt (<) (bts_cache ?bts)" using cache(1) by (simp add: cache_sorted_def)
  note g = LookUp_gap [OF s cache(2,3) gap(1,2,3,4)]
  let ?nums = "batch_numbers (b - 1) ?n"
  have nums: "set ?nums = {k. a < k \<and> k < b}" using gap_numbers [OF g(5) refl] .
  obtain answer where answer: "conn n ?nums = Inr answer" "\<forall>k\<in>set ?nums. answer k = Block (ts k) k" using node by blast
  define blocks where "blocks = read_blocks answer ?nums"
  have blocks: "set blocks = {Block (ts k) k | k. a < k \<and> k < b}"
    unfolding blocks_def read_blocks_def using answer(2) nums by (force simp: word_gt_0)
  have range: "uint b - uint a - 1 \<le> 1000" using fits(1,2) by (simp add: CCQ_MAX_BATCH_SIZE_def)
  note size = gap_size [OF g(5) range]
  have "unat (a + 1) = unat a + 1"
    using g(5) unat_lt64 [of b] by (simp add: unat_word_ariths word_less_nat_alt)
  then have "a < a + 1" "a + 1 < b"
    using g(5,6) by (simp_all add: word_less_nat_alt word_unat_eq_iff)
  then have "blocks \<noteq> []" using blocks by force
  then have run: "ccqPerformBackfill conn n t w = Inr (w\<lparr>bf_TimestampCache := AddBatch blocks ?bts\<rparr>)"
    using answer(1) fits(1) size
    by (simp add: ccqPerformBackfill_def gap(1) ccqBackfillGetBlocks_def chk_def guard_err_def Let_def blocks_def)
  have oc: "on_chain ts blocks" by (auto simp: on_chain_def blocks)
  have "length blocks \<le> ?n" by (simp add: blocks_def read_blocks_def batch_numbers_def le_trans [OF length_filter_le])
  then have keeps: "x \<in> set blocks \<union> set (bts_cache ?bts) \<Longrightarrow> x \<in> set (bts_cache (AddBatch blocks ?bts))" for x
    using AddBatch_keeps [OF oc cache(2)] fits(3) by simp
  have inside: "Block (ts k) k \<in> set (bts_cache (AddBatch blocks ?bts))" if "a \<le> k" "k \<le> b" for k
  proof (rule keeps)
    show "Block (ts k) k \<in> set blocks \<union> set (bts_cache ?bts)"
      using that g(1,2) blocks by (cases "k = a"; cases "k = b") (auto simp: order_le_less)
  qed
  have "sorted_wrt (<) (bts_cache (AddBatch blocks ?bts))" using AddBatch_sorted [of blocks ?bts] by (simp add: cache_sorted_def)
  moreover have "on_chain ts (bts_cache (AddBatch blocks ?bts))"
    using AddBatch_set [of blocks ?bts] oc cache(2) unfolding on_chain_def by blast
  ultimately have "\<exists>k. LookUp (AddBatch blocks ?bts) t = (k, k + 1, True)"
    by (rule filled_cache_finds [OF _ _ cache(3) g(5,3,4) inside])
  then show ?thesis using run by force
qed

definition gap_cache :: BlocksByTimestamp where
  "gap_cache = \<lparr>bts_cache = [Block 100 10, Block 130 13], bts_maxCacheSize = 10000, bts_unsafeDevMode = False\<rparr>"

definition gap_watcher :: backfiller where
  "gap_watcher = \<lparr>bf_BatchSize = 1000, bf_TimestampCache = gap_cache, bf_BackfillCache = True\<rparr>"

theorem backfill_closes_gap_witness:
  "\<exists>w' k. ccqPerformBackfill (\<lambda>n nums. Inr (\<lambda>k. Block (sample_times k) k)) 0 115 gap_watcher = Inr w' \<and>
     LookUp (bf_TimestampCache w') 115 = (k, k + 1, True)"
proof (rule backfill_closes_gap [OF _ _ mono_sample_times])
  show "LookUp (bf_TimestampCache gap_watcher) 115 = (10, 13, False)" by code_simp
qed (simp_all add: gap_watcher_def gap_cache_def cache_sorted_def on_chain_def sample_times_def Block_less_iff CCQ_MAX_BATCH_SIZE_def)

text \<open>
  A request that waits while the chain rolls back is past the end of the cache when its turn comes. The number of
  the last block is 0 then, the number of blocks to ask for is negative, and \<open>make\<close> panics.
\<close>

lemma backfill_past_end_panics:
  assumes "bts_cache (bf_TimestampCache w) \<noteq> []" "Timestamp (hd (bts_cache (bf_TimestampCache w))) \<le> t"
    "Timestamp (last (bts_cache (bf_TimestampCache w))) \<le> t" "uint (BlockNum (last (bts_cache (bf_TimestampCache w)))) < 2 ^ 63 - 1"
    and "0 \<le> bf_BatchSize w"
  shows "ccqPerformBackfill conn n t w = Inl (Panic ''makeslice: len out of range'')"
proof -
  let ?c = "bts_cache (bf_TimestampCache w)" and ?b = "BlockNum (last (bts_cache (bf_TimestampCache w)))"
  have look: "LookUp (bf_TimestampCache w) t = (?b, 0, False)"
    using assms(1-3) by (auto simp: LookUp_def Let_def hd_conv_nth last_conv_nth not_less)
  define u where "u = uint ?b"
  have u: "0 \<le> u" "u < 9223372036854775807" using assms(4) by (simp_all add: u_def)
  have eq: "0 - ?b - 1 = word_of_int (- u - 1)" by (simp add: word_of_int_minus u_def)
  have "sint (0 - ?b - 1) = - u - 1"
    unfolding eq sint_sbintrunc' using u by (intro signed_take_bit_int_eq_self) simp_all
  then have "sint (0 - ?b - 1) < 0" using u(1) by linarith
  then show ?thesis
    using assms(5) by (simp add: ccqPerformBackfill_def look ccqBackfillGetBlocks_def chk_def guard_err_def Let_def)
qed

text \<open>A node that has none of the blocks of the gap makes it panic too.\<close>

lemma backfill_nothing_panics:
  assumes "LookUp (bf_TimestampCache w) t = (a, b, False)" "\<forall>nums. conn n nums = Inr (\<lambda>_. Block 0 0)"
  shows "\<exists>p. ccqPerformBackfill conn n t w = Inl (Panic p)"
  using assms by (simp add: ccqPerformBackfill_def ccqBackfillGetBlocks_def chk_def guard_err_def Let_def read_blocks_def)

section \<open>The size of a batch\<close>

text \<open>A node that accepts batches up to a size, whatever it answers.\<close>

definition accepts_up_to :: "int \<Rightarrow> batch_conn \<Rightarrow> bool" where
  "accepts_up_to cap conn \<longleftrightarrow> (\<forall>n nums. (\<exists>answer. conn n nums = Inr answer) \<longleftrightarrow> int (length nums) \<le> cap)"

lemma length_batch_numbers [simp]: "length (batch_numbers b n) = n"
  by (simp add: batch_numbers_def)

lemma accepts_answer:
  "accepts_up_to cap conn \<Longrightarrow> 0 \<le> k \<Longrightarrow> k \<le> cap \<Longrightarrow> \<exists>answer. conn n (batch_numbers b (nat k)) = Inr answer"
  "accepts_up_to cap conn \<Longrightarrow> 0 \<le> k \<Longrightarrow> cap < k \<Longrightarrow> \<exists>e. conn n (batch_numbers b (nat k)) = Inl e"
  unfolding accepts_up_to_def
  by (metis int_nat_eq length_batch_numbers) (metis int_nat_eq length_batch_numbers not_less sumE)

lemma batch_size_loop_converges:
  assumes "accepts_up_to cap conn" "0 \<le> s" "s \<le> cap" "cap < f" "1 \<le> cap" "f \<le> latest" "trial = (f + s) div 2"
  shows "\<exists>blocks n'. batch_size_loop conn latest n trial f s = Some (Inr (cap, blocks, n'))"
  using assms(2-4,6,7)
proof (induction "nat (f - s)" arbitrary: n f s trial rule: less_induct)
  case less
  have t: "s \<le> trial" "trial < f" using less.prems by linarith+
  have lt: "\<not> latest < trial" "\<not> trial < 0" "f \<noteq> 0" using less.prems t assms(5) by linarith+
  show ?case
  proof (cases "trial \<le> cap")
    case True
    then obtain answer where a: "conn n (batch_numbers (word_of_int latest) (nat trial)) = Inr answer"
      using accepts_answer(1) [OF assms(1)] lt(2) by (meson not_less)
    show ?thesis
    proof (cases "f \<le> trial + 1")
      case f: True
      then have "trial = cap" using True less.prems(3) by linarith
      then show ?thesis using a lt f by (subst batch_size_loop.simps) simp
    next
      case False
      then have "(f + trial) div 2 \<noteq> 0" "nat (f - trial) < nat (f - s)" "0 \<le> trial"
        using less.prems t by linarith+
      then have "\<exists>blocks n'. batch_size_loop conn latest (Suc n) ((f + trial) div 2) f trial = Some (Inr (cap, blocks, n'))"
        using less.hyps [of f trial] True less.prems by blast
      then show ?thesis using a lt False \<open>(f + trial) div 2 \<noteq> 0\<close> by (subst batch_size_loop.simps) simp
    qed
  next
    case False
    then obtain e where e: "conn n (batch_numbers (word_of_int latest) (nat trial)) = Inl e"
      using accepts_answer(2) [OF assms(1)] lt(2) by (meson not_less)
    have "(trial + s) div 2 \<noteq> 0" "nat (trial - s) < nat (f - s)" "trial \<le> latest" "cap < trial"
      using less.prems t False assms(5) by linarith+
    moreover from this have "\<exists>blocks n'. batch_size_loop conn latest (Suc n) ((trial + s) div 2) trial s = Some (Inr (cap, blocks, n'))"
      using less.hyps [of trial s] less.prems by blast
    ultimately show ?thesis using e lt by (subst batch_size_loop.simps) simp
  qed
qed

text \<open>
  C36. The search for the size of a batch ends with the right size. If the node accepts batches up to some size and
  refuses larger ones, the search returns that size, at most 1000 and at most the number of the latest block.
\<close>

theorem max_batch_size_found:
  assumes "accepts_up_to cap conn" "1 \<le> cap" "1 \<le> latest"
  shows "\<exists>blocks n. ccqBackFillDetermineMaxBatchSize conn latest = Some (Inr (min cap (min CCQ_MAX_BATCH_SIZE latest), blocks, n))"
proof -
  define m where "m = min CCQ_MAX_BATCH_SIZE latest"
  have m: "(if latest < CCQ_MAX_BATCH_SIZE then latest else CCQ_MAX_BATCH_SIZE) = m" "0 \<le> m" "1 \<le> m" "m \<le> latest"
    using assms(3) by (simp_all add: CCQ_MAX_BATCH_SIZE_def m_def)
  have "\<exists>blocks n. batch_size_loop conn latest 0 CCQ_MAX_BATCH_SIZE 0 0 = Some (Inr (min cap m, blocks, n))"
  proof (cases "m \<le> cap")
    case True
    then obtain answer where "conn 0 (batch_numbers (word_of_int latest) (nat m)) = Inr answer"
      using accepts_answer(1) [OF assms(1) m(2)] by blast
    then show ?thesis
      using m True by (subst batch_size_loop.simps) (simp add: min.absorb2)
  next
    case False
    then obtain e where e: "conn 0 (batch_numbers (word_of_int latest) (nat m)) = Inl e"
      using accepts_answer(2) [OF assms(1) m(2)] by (meson not_less)
    have "\<exists>blocks n. batch_size_loop conn latest (Suc 0) (m div 2) m 0 = Some (Inr (cap, blocks, n))"
      using batch_size_loop_converges [OF assms(1), of 0 m latest] False assms(2) m by auto
    moreover have "m div 2 \<noteq> 0" using False assms(2) by linarith
    ultimately show ?thesis
      using e m False by (subst batch_size_loop.simps) (simp add: min.absorb1)
  qed
  then show ?thesis by (simp add: ccqBackFillDetermineMaxBatchSize_def m_def)
qed

theorem max_batch_size_found_witness:
  "\<exists>blocks n. ccqBackFillDetermineMaxBatchSize (\<lambda>n nums. if int (length nums) \<le> 300 then Inr (\<lambda>k. Block 7 k) else Inl EOF) 5000 =
     Some (Inr (300, blocks, n))"
  using max_batch_size_found [of 300 "\<lambda>n nums. if int (length nums) \<le> 300 then Inr (\<lambda>k. Block 7 k) else Inl EOF" 5000]
  by (simp add: accepts_up_to_def CCQ_MAX_BATCH_SIZE_def)

text \<open>
  When a size has worked once and the node fails from then on, the two bounds of the search meet above zero, and it
  asks for the same size without end.
\<close>

lemma batch_size_loop_fails:
  assumes "\<forall>m\<ge>n. \<forall>nums. \<exists>e. conn m nums = Inl e" "0 < s" "s \<le> trial" "trial \<le> latest"
  shows "batch_size_loop conn latest n trial f s = None"
proof -
  let ?P = "\<lambda>conn latest n trial f s y. (\<forall>m\<ge>n. \<forall>nums. \<exists>e. conn m nums = Inl e) \<longrightarrow> 0 < s \<longrightarrow> s \<le> trial \<longrightarrow> latest < trial"
  have "batch_size_loop conn latest n trial f s = Some y \<Longrightarrow> ?P conn latest n trial f s y" for y
  proof (erule batch_size_loop.raw_induct [where P = ?P, rotated], intro impI, rule ccontr)
    fix loop conn latest n trial f s y
    assume IH: "\<And>conn latest n trial f s y. loop conn latest n trial f s = Some y \<Longrightarrow> ?P conn latest n trial f s y"
      and body: "(let batchSize = (if latest < trial then latest else trial);
          nums = batch_numbers (word_of_int latest) (nat batchSize)
      in if batchSize < 0 then Some (Inl (Panic ''makeslice: len out of range''))
      else (case conn n nums of
          Inr answer \<Rightarrow>
            if f = 0 \<or> batchSize + 1 \<ge> f then Some (Inr (batchSize, read_blocks answer nums, Suc n))
            else if (f + batchSize) div 2 = 0 then Some (Inl (Wrap ''failed to determine batch size'' None))
            else loop conn latest (Suc n) ((f + batchSize) div 2) f batchSize
        | Inl err \<Rightarrow>
            if (batchSize + s) div 2 = 0 then Some (Inl (Wrap ''failed to determine batch size'' (Some err)))
            else loop conn latest (Suc n) ((batchSize + s) div 2) batchSize s)) = Some y"
      and fail: "\<forall>m\<ge>n. \<forall>nums. \<exists>e. conn m nums = Inl e" and s: "0 < s" "s \<le> trial" "\<not> latest < trial"
    obtain e where e: "conn n (batch_numbers (word_of_int latest) (nat trial)) = Inl e" using fail by blast
    have half: "s \<le> (trial + s) div 2" "(trial + s) div 2 \<le> latest" "(trial + s) div 2 \<noteq> 0" using s by linarith+
    then have "loop conn latest (Suc n) ((trial + s) div 2) trial s = Some y"
      using body s e by (simp add: Let_def)
    then have "latest < (trial + s) div 2" using IH fail s(1) half(1) by (meson Suc_leD)
    then show False using half(2) by linarith
  qed
  then show ?thesis using assms by (cases "batch_size_loop conn latest n trial f s") auto
qed

text \<open>
  C38. The search may not end. When the node refuses the first batch of 1000, accepts the second one of 500 and
  fails from then on, the search neither returns a size nor an error.
\<close>

theorem batch_size_search_never_ends:
  assumes "CCQ_MAX_BATCH_SIZE \<le> latest"
    and "\<forall>n nums. (\<exists>answer. conn n nums = Inr answer) \<longleftrightarrow> n = 1"
  shows "ccqBackFillDetermineMaxBatchSize conn latest = None"
proof -
  have fail: "\<exists>e. conn n nums = Inl e" if "n \<noteq> 1" for n nums
    using assms(2) that by (metis sumE)
  obtain answer where a: "conn (Suc 0) (batch_numbers (word_of_int latest) 500) = Inr answer" using assms(2) by auto
  obtain e where e: "conn 0 (batch_numbers (word_of_int latest) 1000) = Inl e" using fail [of 0] by auto
  have "batch_size_loop conn latest (Suc (Suc 0)) 750 1000 500 = None"
    using assms(1) by (intro batch_size_loop_fails) (auto intro: fail simp: CCQ_MAX_BATCH_SIZE_def)
  then have "batch_size_loop conn latest (Suc 0) 500 1000 0 = None"
    using a assms(1) by (subst batch_size_loop.simps) (simp add: CCQ_MAX_BATCH_SIZE_def)
  then show ?thesis unfolding ccqBackFillDetermineMaxBatchSize_def CCQ_MAX_BATCH_SIZE_def
    using e assms(1) by (subst batch_size_loop.simps) (simp add: CCQ_MAX_BATCH_SIZE_def)
qed

theorem batch_size_search_never_ends_witness:
  "ccqBackFillDetermineMaxBatchSize (\<lambda>n nums. if n = 1 then Inr (\<lambda>k. Block 7 k) else Inl EOF) 5000 = None"
  by (rule batch_size_search_never_ends) (simp_all add: CCQ_MAX_BATCH_SIZE_def)

end
