(* ===== verification/EvmQuery.thy ===== *)
theory EvmQuery imports EvmBlocks QueryHandler GovernorDb begin

text \<open>
  The state of an EVM watcher and its answers to queries: node/pkg/watchers/evm/ccq.go, and the Watcher of
  watcher.go in the same directory. A worker takes a query of the chain, asks the RPC node for the calls and for
  the blocks they are made at in one batch, checks the answers and hands a response to the query handler
  (QueryHandler.thy).

  The RPC node is the argument of type \<open>query_conn\<close>: what it answers to a batch of calls and block queries.
  HexToHash of go-ethereum is an argument too, and its BytesToAddress is the field of the record crypto. Worker routines, metrics and logs are left out.
\<close>

section \<open>The watcher\<close>

record pendingKey =
  pk_TxHash :: "byte list"
  pk_BlockHash :: "byte list"
  pk_EmitterAddress :: Address
  pk_Sequence :: "64 word"

record pendingMessage =
  wp_message :: MessagePublication
  wp_height :: "64 word"

text \<open>
  The transfer verifier is represented by the token bridge address it was made with; its verdict on a
  transaction is an argument where it is asked.
\<close>

record evm_watcher =
  ew_contract :: eth_address
  ew_chainID :: ChainID
  ew_env :: Environment
  ew_msgC :: "MessagePublication channel"
  ew_setC :: "GuardianSet channel option"
  ew_pending :: "pendingKey \<Rightarrow> pendingMessage option"
  ew_currentGuardianSet :: "32 word option"
  ew_latestBlockNumber :: "64 word"
  ew_latestSafeBlockNumber :: "64 word"
  ew_latestFinalizedBlockNumber :: "64 word"
  ew_ccqConfig :: PerChainConfig
  ew_ccqTimestampCache :: "BlocksByTimestamp option"
  ew_ccqBackfillChannel :: "64 word channel"
  ew_ccqBatchSize :: int
  ew_ccqBackfillCache :: bool
  ew_queryResponseC :: "PerChainQueryResponseInternal channel"
  ew_txVerifierEnabled :: bool
  ew_txVerifier :: "eth_address option"

definition NewEthWatcher :: "eth_address \<Rightarrow> ChainID \<Rightarrow> MessagePublication channel \<Rightarrow> GuardianSet channel option \<Rightarrow>
    PerChainQueryResponseInternal channel \<Rightarrow> Environment \<Rightarrow> bool \<Rightarrow> bool \<Rightarrow> evm_watcher" where
  "NewEthWatcher contract chainID msgC setC queryResponseC env ccqBackfillCache txVerifierEnabled =
     \<lparr>ew_contract = contract, ew_chainID = chainID, ew_env = env, ew_msgC = msgC, ew_setC = setC, ew_pending = (\<lambda>_. None),
      ew_currentGuardianSet = None, ew_latestBlockNumber = 0, ew_latestSafeBlockNumber = 0,
      ew_latestFinalizedBlockNumber = 0, ew_ccqConfig = GetPerChainConfig chainID, ew_ccqTimestampCache = None,
      ew_ccqBackfillChannel = make_chan 50, ew_ccqBatchSize = 0, ew_ccqBackfillCache = ccqBackfillCache,
      ew_queryResponseC = queryResponseC, ew_txVerifierEnabled = txVerifierEnabled, ew_txVerifier = None\<rparr>"

section \<open>The timestamp cache of the watcher\<close>

definition ccqRequestBackfill :: "64 word \<Rightarrow> evm_watcher \<Rightarrow> evm_watcher" where
  "ccqRequestBackfill timestamp w = w\<lparr>ew_ccqBackfillChannel := snd (try_send timestamp (ew_ccqBackfillChannel w))\<rparr>"

definition ccqAddLatestBlock :: "64 word \<Rightarrow> 64 word \<Rightarrow> evm_watcher \<Rightarrow> evm_watcher" where
  "ccqAddLatestBlock time number w =
     w\<lparr>ew_ccqTimestampCache := map_option (AddLatest time number) (ew_ccqTimestampCache w)\<rparr>"

text \<open>What EvmBlocks.thy does with the three fields of its record backfiller, on the watcher.\<close>

definition put_backfiller :: "backfiller \<Rightarrow> evm_watcher \<Rightarrow> evm_watcher" where
  "put_backfiller b w = w\<lparr>ew_ccqBatchSize := bf_BatchSize b, ew_ccqTimestampCache := Some (bf_TimestampCache b),
     ew_ccqBackfillCache := bf_BackfillCache b\<rparr>"

definition backfiller_of :: "BlocksByTimestamp \<Rightarrow> evm_watcher \<Rightarrow> backfiller" where
  "backfiller_of cache w = \<lparr>bf_BatchSize = ew_ccqBatchSize w, bf_TimestampCache = cache, bf_BackfillCache = ew_ccqBackfillCache w\<rparr>"

definition ccqStart :: "go_error + Block \<Rightarrow> batch_conn \<Rightarrow> evm_watcher \<Rightarrow> (go_error + evm_watcher) option" where
  "ccqStart latest conn w =
     (case ew_ccqTimestampCache w of
        Some cache \<Rightarrow>
          if ew_ccqBackfillCache w then
            map_option (\<lambda>r. chk r (\<lambda>b. Inr (put_backfiller b w))) (ccqBackfillStart latest conn (backfiller_of cache w))
          else Some (Inr w)
      | None \<Rightarrow> Some (Inr w))"

text \<open>The backfiller takes the next request of the channel.\<close>

definition backfill_step :: "batch_conn \<Rightarrow> nat \<Rightarrow> evm_watcher \<Rightarrow> go_error + evm_watcher" where
  "backfill_step conn n w =
     (case (ch_Items (ew_ccqBackfillChannel w), ew_ccqTimestampCache w) of
        (timestamp # rest, Some cache) \<Rightarrow>
          (let w' = w\<lparr>ew_ccqBackfillChannel := (ew_ccqBackfillChannel w)\<lparr>ch_Items := rest\<rparr>\<rparr> in
           chk (ccqPerformBackfill conn n timestamp (backfiller_of cache w')) (\<lambda>b. Inr (put_backfiller b w')))
      | _ \<Rightarrow> Inr w)"

section \<open>Batches\<close>

text \<open>\<open>"0x" + fmt.Sprintf("%x", n)\<close>.\<close>

fun hex_string :: "nat \<Rightarrow> string" where
  "hex_string n = (if n < 16 then [hex_digit n] else hex_string (n div 16) @ [hex_digit (n mod 16)])"

declare hex_string.simps [simp del]

definition block_id :: "64 word \<Rightarrow> string" where
  "block_id n = ''0x'' @ hex_string (unat n)"

text \<open>The second argument of an \<open>eth_call\<close>: a hash, which has to be canonical, or the text of a number.\<close>

datatype call_block_arg = Block_hash_arg "byte list" | Block_number_arg string

text \<open>\<open>strings.Trim(block, "0x")\<close> removes every 0 and x at both ends.\<close>

definition zero_or_x :: "char \<Rightarrow> bool" where
  "zero_or_x c \<longleftrightarrow> c = CHR ''0'' \<or> c = CHR ''x''"

definition trim_0x_chars :: "string \<Rightarrow> string" where
  "trim_0x_chars s = rev (dropWhile zero_or_x (rev (dropWhile zero_or_x s)))"

definition eth_getBlockByHash :: string where "eth_getBlockByHash = ''eth_getBlockByHash''"
definition eth_getBlockByNumber :: string where "eth_getBlockByNumber = ''eth_getBlockByNumber''"

definition ccqCreateBlockRequest :: "(string \<Rightarrow> byte list) \<Rightarrow> string \<Rightarrow> go_error + string \<times> call_block_arg" where
  "ccqCreateBlockRequest HexToHash block =
     (if block = [] then Inl (Errorf ''block id is required'')
      else if take 2 block \<noteq> ''0x'' then Inl (Errorf ''block id must start with 0x'')
      else
        (let blk = trim_0x_chars block;
             blk = (if length blk mod 2 \<noteq> 0 then CHR ''0'' # blk else blk)
         in case hex_decode blk of
              Inl _ \<Rightarrow> Inl (Errorf ''block id is not valid hex'')
            | Inr _ \<Rightarrow>
                if length blk = 64 then Inr (eth_getBlockByHash, Block_hash_arg (HexToHash block))
                else Inr (eth_getBlockByNumber, Block_number_arg block)))"

record BlockMarshaller =
  bm_Number :: "nat option"
  bm_Hash :: "byte list"
  bm_Time :: "64 word"
  bm_L1BlockNumber :: "nat option"

text \<open>One call of a batch: \<open>to\<close>, \<open>data\<close> and the block.\<close>

record EvmCallData =
  evm_To :: eth_address
  evm_Data :: "byte list"
  evm_block :: call_block_arg

definition ccqBuildBatchFromCallData :: "crypto \<Rightarrow> EthCallData list \<Rightarrow> call_block_arg \<Rightarrow> EvmCallData list" where
  "ccqBuildBatchFromCallData c callDataList callBlockArg =
     map (\<lambda>callData. \<lparr>evm_To = BytesToEthAddress c (cd_To callData), evm_Data = cd_Data callData, evm_block = callBlockArg\<rparr>) callDataList"

text \<open>
  A batch is its calls followed by its block queries, of a method and a block each. The node answers with an
  error for the whole batch, or with the result of each call and of each block query. The result of an element
  that failed is what the caller put there before: no bytes, or a marshaller without number. The error of an
  element goes to the batch, of which \<open>callErr\<close> and \<open>blockError\<close> are not part, so these stay nil.
\<close>

type_synonym query_conn = "EvmCallData list \<Rightarrow> (string \<times> string) list \<Rightarrow> go_error + (nat \<Rightarrow> byte list) \<times> (nat \<Rightarrow> BlockMarshaller)"

definition ccqMaxBlockNumber :: nat where "ccqMaxBlockNumber = 2 ^ 64 - 1"

definition ccqVerifyBlockResult :: "BlockMarshaller \<Rightarrow> go_error + 64 word" where
  "ccqVerifyBlockResult blockResult =
     (case bm_Number blockResult of
        None \<Rightarrow> Inl (Errorf ''block result is nil'')
      | Some n \<Rightarrow> if n > ccqMaxBlockNumber then Inl (Errorf ''block number is too large'') else Inr (of_nat n))"

fun ccqVerifyAndExtractQueryResults :: "byte list list \<Rightarrow> go_error + byte list list" where
  "ccqVerifyAndExtractQueryResults [] = Inr []"
| "ccqVerifyAndExtractQueryResults (r # rs) =
     (if r = [] then Inl (Errorf ''call failed: result is empty'')
      else chk (ccqVerifyAndExtractQueryResults rs) (\<lambda>results. Inr (r # results)))"

definition block_time :: "BlockMarshaller \<Rightarrow> time" where
  "block_time b = time_unix (sint (bm_Time b))"

section \<open>The handlers\<close>

text \<open>A handler ends with the response of a success, or with another status.\<close>

type_synonym query_outcome = "int + ChainSpecificResponse"

definition or_status :: "int \<Rightarrow> go_error + 'a \<Rightarrow> int + 'a" where
  "or_status status r = (case r of Inl _ \<Rightarrow> Inl status | Inr x \<Rightarrow> Inr x)"

definition status_if :: "bool \<Rightarrow> int \<Rightarrow> int + unit" where
  "status_if b status = (if b then Inl status else Inr ())"

definition call_results :: "(nat \<Rightarrow> byte list) \<Rightarrow> EvmCallData list \<Rightarrow> byte list list" where
  "call_results results calls = map results [0..<length calls]"

definition ccqHandleEthCallQueryRequest :: "crypto \<Rightarrow> (string \<Rightarrow> byte list) \<Rightarrow> query_conn \<Rightarrow> EthCallQueryRequest \<Rightarrow> query_outcome" where
  "ccqHandleEthCallQueryRequest c HexToHash conn req =
     (let block = string_of (ec_BlockId req) in
      chk (or_status QueryFatalError (ccqCreateBlockRequest HexToHash block)) (\<lambda>(blockMethod, callBlockArg).
      let evmCallData = ccqBuildBatchFromCallData c (ec_CallData req) callBlockArg in
      chk (or_status QueryRetryNeeded (conn evmCallData [(blockMethod, block)])) (\<lambda>(callResult, blocks).
      let blockResult = blocks 0 in
      chk (or_status QueryRetryNeeded (ccqVerifyBlockResult blockResult)) (\<lambda>blockNumber.
      chk (or_status QueryRetryNeeded (ccqVerifyAndExtractQueryResults (call_results callResult evmCallData))) (\<lambda>results.
      Inr (EthCallResponse \<lparr>er_BlockNumber = blockNumber, er_Hash = bm_Hash blockResult, er_Time = block_time blockResult,
             er_Results = results\<rparr>))))))"

text \<open>
  The blocks of a query by timestamp, from its hints or from the cache, whose times are seconds while that of the query is in microseconds.
  A gap in the cache posts a request to backfill it.
\<close>

definition timestamp_blocks :: "EthCallByTimestampQueryRequest \<Rightarrow> evm_watcher \<Rightarrow> (int + string \<times> string) \<times> evm_watcher" where
  "timestamp_blocks req w =
     (let block = string_of (et_TargetBlockIdHint req); nextBlock = string_of (et_FollowingBlockIdHint req) in
      if (block = []) \<noteq> (nextBlock = []) then (Inl QueryFatalError, w)
      else if block \<noteq> [] then (Inr (block, nextBlock), w)
      else (case ew_ccqTimestampCache w of
          None \<Rightarrow> (Inl QueryFatalError, w)
        | Some cache \<Rightarrow>
            (let timestampForCache = et_TargetTimestamp req div 1000000 in
             case LookUp cache timestampForCache of (blockNum, nextBlockNum, found) \<Rightarrow>
               if found then (Inr (block_id blockNum, block_id nextBlockNum), w)
               else if nextBlockNum = 0 then (Inl QueryRetryNeeded, w)
               else if blockNum = 0 then (Inl QueryFatalError, w)
               else if ew_ccqBackfillCache w then (Inl QueryRetryNeeded, ccqRequestBackfill timestampForCache w)
               else (Inl QueryFatalError, w))))"

definition answer_by_timestamp :: "crypto \<Rightarrow> (string \<Rightarrow> byte list) \<Rightarrow> query_conn \<Rightarrow> EthCallByTimestampQueryRequest \<Rightarrow>
    string \<times> string \<Rightarrow> query_outcome" where
  "answer_by_timestamp c HexToHash conn req = (\<lambda>(block, nextBlock).
      chk (or_status QueryFatalError (ccqCreateBlockRequest HexToHash block)) (\<lambda>(blockMethod, callBlockArg).
      chk (or_status QueryFatalError (ccqCreateBlockRequest HexToHash nextBlock)) (\<lambda>(nextBlockMethod, _).
      let evmCallData = ccqBuildBatchFromCallData c (et_CallData req) callBlockArg in
      chk (or_status QueryRetryNeeded (conn evmCallData [(blockMethod, block), (nextBlockMethod, nextBlock)])) (\<lambda>(callResult, blocks).
      let blockResult = blocks 0; nextBlockResult = blocks 1 in
      chk (or_status QueryRetryNeeded (ccqVerifyBlockResult blockResult)) (\<lambda>targetBlockNum.
      chk (or_status QueryRetryNeeded (ccqVerifyBlockResult nextBlockResult)) (\<lambda>followingBlockNum.
      let targetTimestamp = bm_Time blockResult * 1000000; followingTimestamp = bm_Time nextBlockResult * 1000000 in
      chk (status_if (targetBlockNum + 1 \<noteq> followingBlockNum) QueryFatalError) (\<lambda>_.
      chk (status_if (et_TargetTimestamp req < targetTimestamp \<or> et_TargetTimestamp req \<ge> followingTimestamp) QueryFatalError) (\<lambda>_.
      chk (or_status QueryRetryNeeded (ccqVerifyAndExtractQueryResults (call_results callResult evmCallData))) (\<lambda>results.
      Inr (EthCallByTimestampResponse
        \<lparr>etr_TargetBlockNumber = targetBlockNum, etr_TargetBlockHash = bm_Hash blockResult,
         etr_TargetBlockTime = block_time blockResult, etr_FollowingBlockNumber = followingBlockNum,
         etr_FollowingBlockHash = bm_Hash nextBlockResult, etr_FollowingBlockTime = block_time nextBlockResult,
         etr_Results = results\<rparr>))))))))))"

definition ccqHandleEthCallByTimestampQueryRequest :: "crypto \<Rightarrow> (string \<Rightarrow> byte list) \<Rightarrow> query_conn \<Rightarrow>
    EthCallByTimestampQueryRequest \<Rightarrow> evm_watcher \<Rightarrow> query_outcome \<times> evm_watcher" where
  "ccqHandleEthCallByTimestampQueryRequest c HexToHash conn req w =
     (case timestamp_blocks req w of
        (Inl status, w) \<Rightarrow> (Inl status, w)
      | (Inr ids, w) \<Rightarrow> (answer_by_timestamp c HexToHash conn req ids, w))"

definition ccqHandleEthCallWithFinalityQueryRequest :: "crypto \<Rightarrow> (string \<Rightarrow> byte list) \<Rightarrow> query_conn \<Rightarrow>
    EthCallWithFinalityQueryRequest \<Rightarrow> evm_watcher \<Rightarrow> query_outcome" where
  "ccqHandleEthCallWithFinalityQueryRequest c HexToHash conn req w =
     (let block = string_of (ef_BlockId req); finality = string_of (ef_Finality req); safeMode = (finality = ''safe'') in
      chk (status_if (finality \<noteq> ''finalized'' \<and> \<not> safeMode) QueryFatalError) (\<lambda>_.
      chk (or_status QueryFatalError (ccqCreateBlockRequest HexToHash block)) (\<lambda>(blockMethod, callBlockArg).
      let evmCallData = ccqBuildBatchFromCallData c (ef_CallData req) callBlockArg in
      chk (or_status QueryRetryNeeded (conn evmCallData [(blockMethod, block)])) (\<lambda>(callResult, blocks).
      let blockResult = blocks 0 in
      chk (or_status QueryRetryNeeded (ccqVerifyBlockResult blockResult)) (\<lambda>blockNumber.
      let latestBlockNum = (if safeMode then ew_latestSafeBlockNumber w else ew_latestFinalizedBlockNumber w) in
      chk (status_if (blockNumber > latestBlockNum) QueryRetryNeeded) (\<lambda>_.
      chk (or_status QueryRetryNeeded (ccqVerifyAndExtractQueryResults (call_results callResult evmCallData))) (\<lambda>results.
      Inr (EthCallWithFinalityResponse \<lparr>efr_BlockNumber = blockNumber, efr_Hash = bm_Hash blockResult,
             efr_Time = block_time blockResult, efr_Results = results\<rparr>))))))))"

definition ccqSendQueryResponse :: "PerChainQueryInternal \<Rightarrow> query_outcome \<Rightarrow> evm_watcher \<Rightarrow> evm_watcher" where
  "ccqSendQueryResponse req outcome w =
     w\<lparr>ew_queryResponseC := snd (try_send (CreatePerChainQueryResponseInternal (pcqi_RequestID req) (int (pcqi_RequestIdx req))
        (pcq_ChainId (pcqi_Request req)) (case outcome of Inl status \<Rightarrow> status | Inr _ \<Rightarrow> QuerySuccess)
        (case outcome of Inl _ \<Rightarrow> None | Inr response \<Rightarrow> Some response)) (ew_queryResponseC w))\<rparr>"

text \<open>Queries of other kinds get a fatal error; a query without contents makes \<open>Query.Type()\<close> panic.\<close>

definition query_outcome_of :: "crypto \<Rightarrow> (string \<Rightarrow> byte list) \<Rightarrow> query_conn \<Rightarrow> ChainSpecificQuery \<Rightarrow> evm_watcher \<Rightarrow>
    query_outcome \<times> evm_watcher" where
  "query_outcome_of c HexToHash conn query w =
     (case query of
        EthCallQuery req \<Rightarrow> (ccqHandleEthCallQueryRequest c HexToHash conn req, w)
      | EthCallByTimestampQuery req \<Rightarrow> ccqHandleEthCallByTimestampQueryRequest c HexToHash conn req w
      | EthCallWithFinalityQuery req \<Rightarrow> (ccqHandleEthCallWithFinalityQueryRequest c HexToHash conn req w, w)
      | _ \<Rightarrow> (Inl QueryFatalError, w))"

definition EvmQueryHandler :: "crypto \<Rightarrow> (string \<Rightarrow> byte list) \<Rightarrow> query_conn \<Rightarrow> PerChainQueryInternal \<Rightarrow> evm_watcher \<Rightarrow>
    go_error + evm_watcher" where
  "EvmQueryHandler c HexToHash conn queryRequest w =
     (if pcq_ChainId (pcqi_Request queryRequest) \<noteq> ew_chainID w then Inl (Panic ''ccqevm: invalid chain ID'')
      else (case pcq_Query (pcqi_Request queryRequest) of
          None \<Rightarrow> Inl (Panic ''nil pointer dereference'')
        | Some query \<Rightarrow>
            (case query_outcome_of c HexToHash conn query w of (outcome, w) \<Rightarrow> Inr (ccqSendQueryResponse queryRequest outcome w))))"

section \<open>Block ids\<close>

lemma hex_decode_ok: "(\<forall>c\<in>set s. char_hex c \<noteq> None) \<Longrightarrow> even (length s) \<Longrightarrow> \<exists>bs. hex_decode s = Inr bs"
proof (induction s rule: hex_decode.induct)
  case (3 c d cs)
  then obtain h l where hl: "char_hex c = Some h" "char_hex d = Some l" by auto
  moreover have "\<exists>bs. hex_decode cs = Inr bs" using 3 hl by simp
  ultimately show ?case by (auto simp: chk_def)
qed auto

lemma trim_prefix: "trim_0x_chars (''0x'' @ s) = trim_0x_chars s"
  by (simp add: trim_0x_chars_def zero_or_x_def)

lemma set_trim_0x_chars: "set (trim_0x_chars s) \<subseteq> set s"
  unfolding trim_0x_chars_def by (metis (no_types, lifting) set_dropWhileD set_rev subsetI)

text \<open>A block id of hex digits is accepted; what it stands for depends on the length of what is left of it.\<close>

lemma ccqCreateBlockRequest_hex:
  assumes "\<forall>c\<in>set digits. char_hex c \<noteq> None"
  shows "ccqCreateBlockRequest H (''0x'' @ digits) =
    (let l = length (trim_0x_chars (''0x'' @ digits)) in
     if l = 64 \<or> l = 63 then Inr (eth_getBlockByHash, Block_hash_arg (H (''0x'' @ digits)))
     else Inr (eth_getBlockByNumber, Block_number_arg (''0x'' @ digits)))"
proof -
  let ?t = "trim_0x_chars (''0x'' @ digits)"
  let ?b = "if length ?t mod 2 \<noteq> 0 then CHR ''0'' # ?t else ?t"
  have "\<forall>c\<in>set ?t. char_hex c \<noteq> None"
    using set_trim_0x_chars [of digits] assms unfolding trim_prefix by blast
  moreover have "char_hex CHR ''0'' \<noteq> None" by (simp add: char_hex_def)
  ultimately have "\<exists>bs. hex_decode ?b = Inr bs" by (intro hex_decode_ok) auto
  moreover have "length ?b = 64 \<longleftrightarrow> length ?t = 64 \<or> length ?t = 63" by (auto; presburger)
  ultimately show ?thesis by (auto simp: ccqCreateBlockRequest_def Let_def)
qed

lemma length_trim_le: "length (trim_0x_chars s) \<le> length s"
  unfolding trim_0x_chars_def by (metis le_trans length_dropWhile_le length_rev)

lemma length_trim_start: "length (trim_0x_chars (''00'' @ s)) \<le> length s"
proof -
  have "trim_0x_chars (''00'' @ s) = trim_0x_chars s" by (simp add: trim_0x_chars_def zero_or_x_def)
  then show ?thesis using length_trim_le by metis
qed

lemma length_trim_end: "length (trim_0x_chars (s @ ''00'')) \<le> length s"
proof (cases "\<forall>c\<in>set s. zero_or_x c")
  case True
  then have "dropWhile zero_or_x (s @ ''00'') = []" by (simp add: zero_or_x_def)
  then show ?thesis by (simp add: trim_0x_chars_def)
next
  case False
  then obtain c where "c \<in> set s" "\<not> zero_or_x c" by blast
  then have "dropWhile zero_or_x (s @ ''00'') = dropWhile zero_or_x s @ ''00''" by (rule dropWhile_append1)
  then have "trim_0x_chars (s @ ''00'') = trim_0x_chars s" by (simp add: trim_0x_chars_def zero_or_x_def)
  then show ?thesis using length_trim_le by metis
qed

lemma hex_string_chars: "c \<in> set (hex_string n) \<Longrightarrow> char_hex c \<noteq> None"
proof (induction n rule: hex_string.induct)
  case (1 n)
  then show ?case by (cases "n < 16") (auto simp: hex_string.simps [of n])
qed

lemma length_hex_string: "n < 16 ^ k \<Longrightarrow> 0 < k \<Longrightarrow> length (hex_string n) \<le> k"
proof (induction n arbitrary: k rule: hex_string.induct)
  case (1 n)
  show ?case
  proof (cases "n < 16")
    case True
    then show ?thesis using 1(3) by (simp add: hex_string.simps [of n])
  next
    case False
    then have k: "1 < k" using 1(2) by (cases "k = 1") (use 1(3) in auto)
    have "n div 16 < 16 ^ (k - 1)" using 1(2) k by (simp add: less_mult_imp_div_less flip: power_Suc2)
    then have "length (hex_string (n div 16)) \<le> k - 1" using 1(1) False k by simp
    then show ?thesis using False k by (simp add: hex_string.simps [of n])
  qed
qed

text \<open>A block number in hex, as the cache look up makes it, is taken for a number.\<close>

lemma ccqCreateBlockRequest_number: "ccqCreateBlockRequest H (block_id n) = Inr (eth_getBlockByNumber, Block_number_arg (block_id n))"
proof -
  have "unat n < 16 ^ 16" using unat_lt64 [of n] by simp
  then have "length (hex_string (unat n)) \<le> 16" by (rule length_hex_string) simp
  then have "length (trim_0x_chars (block_id n)) \<le> 16"
    using length_trim_le [of "hex_string (unat n)"] by (simp add: block_id_def trim_prefix [simplified])
  then show ?thesis unfolding block_id_def
    by (subst ccqCreateBlockRequest_hex) (auto dest: hex_string_chars simp: Let_def)
qed

section \<open>What the answers say\<close>

text \<open>Case rules for the steps of a handler.\<close>

lemma or_status_Inr: "or_status st r = Inr x \<longleftrightarrow> r = Inr x"
  by (simp add: or_status_def split: sum.splits)

lemma status_if_Inr: "status_if b st = Inr u \<longleftrightarrow> \<not> b"
  by (simp add: status_if_def)

lemmas handler_success = chk_eq_Inr or_status_Inr status_if_Inr Let_def case_prod_unfold

lemma extract_results:
  "ccqVerifyAndExtractQueryResults rs = Inr results \<longleftrightarrow> results = rs \<and> [] \<notin> set rs"
  by (induction rs arbitrary: results) (auto simp: chk_eq_Inr)

lemma length_batch [simp]: "length (ccqBuildBatchFromCallData c calls arg) = length calls"
  by (simp add: ccqBuildBatchFromCallData_def)

text \<open>One result that is not empty for every call.\<close>

definition results_fit :: "EthCallData list \<Rightarrow> byte list list \<Rightarrow> bool" where
  "results_fit calls results \<longleftrightarrow> length results = length calls \<and> [] \<notin> set results"

lemma results_fit_extract:
  "ccqVerifyAndExtractQueryResults (call_results r (ccqBuildBatchFromCallData c calls arg)) = Inr results \<Longrightarrow> results_fit calls results"
  by (auto simp: extract_results results_fit_def call_results_def)

text \<open>
  What a requestor may rely on. A query by timestamp is answered at the last block before the time asked for, whose
  successor is after it; the time asked for is in microseconds, the times of the response are nanoseconds.
\<close>

fun answer_fits :: "evm_watcher \<Rightarrow> ChainSpecificQuery \<Rightarrow> ChainSpecificResponse \<Rightarrow> bool" where
  "answer_fits w (EthCallQuery q) (EthCallResponse r) \<longleftrightarrow> results_fit (ec_CallData q) (er_Results r)"
| "answer_fits w (EthCallByTimestampQuery q) (EthCallByTimestampResponse r) \<longleftrightarrow>
     results_fit (et_CallData q) (etr_Results r) \<and>
     etr_FollowingBlockNumber r = etr_TargetBlockNumber r + 1 \<and>
     etr_TargetBlockTime r \<le> time_unix_micro (uint (et_TargetTimestamp q)) \<and>
     time_unix_micro (uint (et_TargetTimestamp q)) < etr_FollowingBlockTime r"
| "answer_fits w (EthCallWithFinalityQuery q) (EthCallWithFinalityResponse r) \<longleftrightarrow>
     results_fit (ef_CallData q) (efr_Results r) \<and>
     (string_of (ef_Finality q) = ''safe'' \<and> efr_BlockNumber r \<le> ew_latestSafeBlockNumber w \<or>
      string_of (ef_Finality q) = ''finalized'' \<and> efr_BlockNumber r \<le> ew_latestFinalizedBlockNumber w)"
| "answer_fits w _ _ \<longleftrightarrow> False"

text \<open>The node gives times that still fit into 64 bits as microseconds, which they do for half a million years.\<close>

definition times_fit :: "query_conn \<Rightarrow> bool" where
  "times_fit conn \<longleftrightarrow> (\<forall>calls queries results blocks j. conn calls queries = Inr (results, blocks) \<longrightarrow>
     uint (bm_Time (blocks j)) * 1000000 < 2 ^ 64)"

lemma uint_times_million: "uint (t :: 64 word) * 1000000 < 2 ^ 64 \<Longrightarrow> uint (t * 1000000) = uint t * 1000000"
  by (simp add: uint_word_ariths take_bit_int_eq_self)

lemma block_time_small: "uint (bm_Time b) * 1000000 < 2 ^ 64 \<Longrightarrow> block_time b = time_unix (uint (bm_Time b))"
proof -
  assume "uint (bm_Time b) * 1000000 < 2 ^ 64"
  then have "uint (bm_Time b) < 2 ^ 63" by simp
  moreover have "sint (bm_Time b) = signed_take_bit 63 (uint (bm_Time b))" by (simp add: sint_uint)
  ultimately have "sint (bm_Time b) = uint (bm_Time b)" by (simp add: signed_take_bit_int_eq_self_iff order_trans [of _ 0])
  then show ?thesis by (simp add: block_time_def)
qed

lemma eth_call_fits:
  "ccqHandleEthCallQueryRequest c H conn q = Inr resp \<Longrightarrow> answer_fits w (EthCallQuery q) resp"
  by (auto simp: ccqHandleEthCallQueryRequest_def handler_success dest: results_fit_extract)

lemma eth_call_with_finality_fits:
  "ccqHandleEthCallWithFinalityQueryRequest c H conn q w = Inr resp \<Longrightarrow> answer_fits w (EthCallWithFinalityQuery q) resp"
  by (auto simp: ccqHandleEthCallWithFinalityQueryRequest_def handler_success dest: results_fit_extract split: if_splits)

lemma eth_call_by_timestamp_fits:
  assumes "times_fit conn" "answer_by_timestamp c H conn q ids = Inr resp"
  shows "answer_fits w (EthCallByTimestampQuery q) resp"
proof -
  obtain results blocks calls queries n m rs where conn: "conn calls queries = Inr (results, blocks)"
    and fit: "results_fit (et_CallData q) rs" and adj: "n + 1 = m"
    and before: "\<not> et_TargetTimestamp q < bm_Time (blocks 0) * 1000000" "\<not> bm_Time (blocks 1) * 1000000 \<le> et_TargetTimestamp q"
    and resp: "resp = EthCallByTimestampResponse \<lparr>etr_TargetBlockNumber = n, etr_TargetBlockHash = bm_Hash (blocks 0),
         etr_TargetBlockTime = block_time (blocks 0), etr_FollowingBlockNumber = m, etr_FollowingBlockHash = bm_Hash (blocks 1),
         etr_FollowingBlockTime = block_time (blocks 1), etr_Results = rs\<rparr>"
    using assms(2) by (auto simp: answer_by_timestamp_def handler_success dest!: results_fit_extract)
  have small: "uint (bm_Time (blocks j)) * 1000000 < 2 ^ 64" for j
    using assms(1) conn unfolding times_fit_def by blast
  have "uint (bm_Time (blocks 0)) * 1000000 \<le> uint (et_TargetTimestamp q)" "uint (et_TargetTimestamp q) < uint (bm_Time (blocks 1)) * 1000000"
    using before by (simp_all add: word_less_def word_le_def uint_times_million [OF small] not_less not_le)
  then show ?thesis using fit adj
    by (simp add: resp block_time_small [OF small] time_unix_def time_unix_micro_def)
qed

lemma timestamp_blocks_frame:
  "timestamp_blocks q w = (ids, w') \<Longrightarrow> ew_latestSafeBlockNumber w' = ew_latestSafeBlockNumber w \<and>
     ew_latestFinalizedBlockNumber w' = ew_latestFinalizedBlockNumber w \<and> ew_queryResponseC w' = ew_queryResponseC w"
  by (auto simp: timestamp_blocks_def Let_def ccqRequestBackfill_def split: if_splits option.splits prod.splits)

lemma query_outcome_fits:
  assumes "times_fit conn" "query_outcome_of c H conn query w = (Inr resp, w')"
  shows "answer_fits w query resp"
  using assms eth_call_fits eth_call_with_finality_fits eth_call_by_timestamp_fits
  by (cases query) (auto simp: query_outcome_of_def ccqHandleEthCallByTimestampQueryRequest_def split: prod.splits sum.splits)

lemma query_outcome_channel: "query_outcome_of c H conn query w = (out, w') \<Longrightarrow> ew_queryResponseC w' = ew_queryResponseC w"
  using timestamp_blocks_frame
  by (auto simp: query_outcome_of_def ccqHandleEthCallByTimestampQueryRequest_def split: ChainSpecificQuery.splits prod.splits sum.splits)

lemma chk_eq_Inl: "chk r f = Inl e \<longleftrightarrow> r = Inl e \<or> (\<exists>x. r = Inr x \<and> f x = Inl e)"
  by (cases r) (simp_all add: chk_def)

lemma or_status_Inl: "or_status st r = Inl e \<Longrightarrow> e = st"
  by (simp add: or_status_def split: sum.splits)

lemma status_if_Inl: "status_if b st = Inl e \<Longrightarrow> e = st"
  by (simp add: status_if_def split: if_splits)

text \<open>A handler that does not succeed ends with one of the other two statuses.\<close>

definition unsuccessful :: "int set" where "unsuccessful = {QueryFatalError, QueryRetryNeeded}"

lemmas handler_failure = chk_eq_Inl Let_def case_prod_unfold

lemma query_outcome_status: "query_outcome_of c H conn query w = (Inl st, w') \<Longrightarrow> st \<in> unsuccessful"
proof -
  have "timestamp_blocks q w = (Inl st, w') \<Longrightarrow> st \<in> unsuccessful" for q w'
    by (auto simp: timestamp_blocks_def unsuccessful_def Let_def split: if_splits option.splits prod.splits)
  moreover have "answer_by_timestamp c H conn q ids = Inl st \<Longrightarrow> st \<in> unsuccessful" for q ids
    by (auto simp: answer_by_timestamp_def unsuccessful_def handler_failure dest: or_status_Inl status_if_Inl)
  moreover have "ccqHandleEthCallQueryRequest c H conn q = Inl st \<Longrightarrow> st \<in> unsuccessful" for q
    by (auto simp: ccqHandleEthCallQueryRequest_def unsuccessful_def handler_failure dest: or_status_Inl)
  moreover have "ccqHandleEthCallWithFinalityQueryRequest c H conn q w = Inl st \<Longrightarrow> st \<in> unsuccessful" for q
    by (auto simp: ccqHandleEthCallWithFinalityQueryRequest_def unsuccessful_def handler_failure dest: or_status_Inl status_if_Inl)
  ultimately show "query_outcome_of c H conn query w = (Inl st, w') \<Longrightarrow> st \<in> unsuccessful"
    by (cases query) (auto simp: query_outcome_of_def ccqHandleEthCallByTimestampQueryRequest_def unsuccessful_def split: prod.splits sum.splits)
qed

text \<open>
  C7. The watcher of an EVM chain answers queries soundly. It puts at most one answer on the channel, for the request
  it was given, and one of status success carries a response of the kind of the query with a result for every call:
  for a query with finality at a block that is safe or finalized as asked, for a query by timestamp at the block
  with the block after it, between whose times the time asked for lies.
\<close>

theorem evm_answers_sound:
  assumes "times_fit conn" "EvmQueryHandler c H conn req w = Inr w'"
  shows "ch_Items (ew_queryResponseC w') = ch_Items (ew_queryResponseC w) \<or>
    (\<exists>answer. ch_Items (ew_queryResponseC w') = ch_Items (ew_queryResponseC w) @ [answer] \<and>
       pcri_RequestID answer = pcqi_RequestID req \<and> pcri_RequestIdx answer = int (pcqi_RequestIdx req) \<and>
       (pcri_Status answer = QuerySuccess \<longrightarrow> (\<exists>query resp. pcq_Query (pcqi_Request req) = Some query \<and>
          pcri_Response answer = Some resp \<and> answer_fits w query resp)))"
proof -
  obtain query where q: "pcq_Query (pcqi_Request req) = Some query"
    using assms(2) by (auto simp: EvmQueryHandler_def split: if_splits option.splits)
  obtain out w'' where o: "query_outcome_of c H conn query w = (out, w'')" by fastforce
  have w': "w' = ccqSendQueryResponse req out w''"
    using assms(2) q o by (auto simp: EvmQueryHandler_def split: if_splits)
  have fits: "out = Inr resp \<Longrightarrow> answer_fits w query resp" for resp
    using query_outcome_fits [OF assms(1)] o by blast
  have status: "out = Inl st \<Longrightarrow> st \<noteq> QuerySuccess" for st
    using query_outcome_status o by (fastforce simp: unsuccessful_def QuerySuccess_def QueryFatalError_def QueryRetryNeeded_def)
  show ?thesis
    using query_outcome_channel [OF o] fits status q
    by (cases out) (auto simp: w' ccqSendQueryResponse_def try_send_def CreatePerChainQueryResponseInternal_def)
qed

definition sample_node :: query_conn where
  "sample_node calls queries = Inr (\<lambda>_. [1], \<lambda>j.
     if snd (queries ! j) = ''0xb'' then \<lparr>bm_Number = Some 11, bm_Hash = replicate 32 11, bm_Time = 100, bm_L1BlockNumber = None\<rparr>
     else if snd (queries ! j) = ''0xc'' then \<lparr>bm_Number = Some 12, bm_Hash = replicate 32 12, bm_Time = 112, bm_L1BlockNumber = None\<rparr>
     else \<lparr>bm_Number = None, bm_Hash = replicate 32 0, bm_Time = 0, bm_L1BlockNumber = None\<rparr>)"

definition timestamp_query :: EthCallByTimestampQueryRequest where
  "timestamp_query = \<lparr>et_TargetTimestamp = 105000000, et_TargetBlockIdHint = [], et_FollowingBlockIdHint = [],
     et_CallData = [\<lparr>cd_To = replicate 20 7, cd_Data = [1, 2, 3, 4]\<rparr>]\<rparr>"

definition timestamp_request :: PerChainQueryInternal where
  "timestamp_request = \<lparr>pcqi_RequestID = ''r'', pcqi_RequestIdx = 0,
     pcqi_Request = \<lparr>pcq_ChainId = 2, pcq_Query = Some (EthCallByTimestampQuery timestamp_query)\<rparr>\<rparr>"

definition query_watcher :: evm_watcher where
  "query_watcher = (NewEthWatcher (replicate 20 9) 2 (make_chan 10) None (make_chan 10) MainNet True False)
     \<lparr>ew_ccqTimestampCache := Some (fold cache_step sample_ops (NewBlocksByTimestamp 3 False))\<rparr>"

lemma sample_node_times: "times_fit sample_node"
  by (auto simp: times_fit_def sample_node_def)

lemma timestamp_answered:
  "EvmQueryHandler toy_crypto (\<lambda>_. replicate 32 0) sample_node timestamp_request query_watcher = Inr (query_watcher
     \<lparr>ew_queryResponseC := \<lparr>ch_Cap = 10, ch_Items = [CreatePerChainQueryResponseInternal ''r'' 0 2 QuerySuccess
        (Some (EthCallByTimestampResponse \<lparr>etr_TargetBlockNumber = 11, etr_TargetBlockHash = replicate 32 11,
           etr_TargetBlockTime = 100000000000, etr_FollowingBlockNumber = 12, etr_FollowingBlockHash = replicate 32 12,
           etr_FollowingBlockTime = 112000000000, etr_Results = [[1]]\<rparr>))]\<rparr>\<rparr>)"
proof -
  have look: "LookUp (fold cache_step sample_ops (NewBlocksByTimestamp 3 False)) 105 = (11, 12, True)"
    unfolding sample_cache by code_simp
  have ids: "block_id 11 = ''0xb''" "block_id 12 = ''0xc''" by code_simp+
  have blocks: "timestamp_blocks timestamp_query query_watcher = (Inr (''0xb'', ''0xc''), query_watcher)"
    by (simp add: timestamp_blocks_def timestamp_query_def query_watcher_def string_of_def look ids)
  have request: "ccqCreateBlockRequest H ''0xb'' = Inr (eth_getBlockByNumber, Block_number_arg ''0xb'')"
      "ccqCreateBlockRequest H ''0xc'' = Inr (eth_getBlockByNumber, Block_number_arg ''0xc'')" for H
    using ccqCreateBlockRequest_number [of H 11] ccqCreateBlockRequest_number [of H 12] by (simp_all only: ids)
  have "answer_by_timestamp toy_crypto (\<lambda>_. replicate 32 0) sample_node timestamp_query (''0xb'', ''0xc'') =
     Inr (EthCallByTimestampResponse \<lparr>etr_TargetBlockNumber = 11, etr_TargetBlockHash = replicate 32 11,
           etr_TargetBlockTime = 100000000000, etr_FollowingBlockNumber = 12, etr_FollowingBlockHash = replicate 32 12,
           etr_FollowingBlockTime = 112000000000, etr_Results = [[1]]\<rparr>)"
    by (simp add: answer_by_timestamp_def request or_status_def chk_def status_if_def Let_def sample_node_def timestamp_query_def
      ccqBuildBatchFromCallData_def ccqVerifyBlockResult_def ccqMaxBlockNumber_def call_results_def block_time_def time_unix_def)
  moreover have "ew_chainID query_watcher = 2" "ew_queryResponseC query_watcher = \<lparr>ch_Cap = 10, ch_Items = []\<rparr>"
    by (simp_all add: query_watcher_def NewEthWatcher_def make_chan_def)
  ultimately show ?thesis
    by (simp add: EvmQueryHandler_def timestamp_request_def query_outcome_of_def ccqHandleEthCallByTimestampQueryRequest_def blocks
      ccqSendQueryResponse_def try_send_def chan_send_def)
qed

theorem evm_answers_sound_witness:
  "\<exists>w' answer resp. EvmQueryHandler toy_crypto (\<lambda>_. replicate 32 0) sample_node timestamp_request query_watcher = Inr w' \<and>
     ch_Items (ew_queryResponseC w') = [answer] \<and> pcri_Response answer = Some resp \<and>
     answer_fits query_watcher (EthCallByTimestampQuery timestamp_query) resp"
proof -
  have "ch_Items (ew_queryResponseC query_watcher) = []" "pcq_Query (pcqi_Request timestamp_request) = Some (EthCallByTimestampQuery timestamp_query)"
    by (simp_all add: query_watcher_def NewEthWatcher_def make_chan_def timestamp_request_def)
  then show ?thesis
    using evm_answers_sound [OF sample_node_times timestamp_answered] timestamp_answered
    by (auto simp: CreatePerChainQueryResponseInternal_def)
qed

text \<open>
  C40. A query by timestamp is served from the cache. When the cache holds blocks of the chain the node serves and
  finds the blocks of the time asked for, the query without block hints succeeds: its response is of the block that
  the cache found and of the one after it.
\<close>

theorem timestamp_query_served:
  assumes cache: "ew_ccqTimestampCache w = Some (fold cache_step ops (NewBlocksByTimestamp maxCacheSize dev))"
      "mono ts" "\<forall>op\<in>set ops. on_chain ts (op_blocks op)"
    and query: "et_TargetBlockIdHint q = []" "et_FollowingBlockIdHint q = []"
      "LookUp (fold cache_step ops (NewBlocksByTimestamp maxCacheSize dev)) (et_TargetTimestamp q div 1000000) = (a, b, True)"
    and node: "\<forall>calls. \<exists>results blocks.
        conn calls [(eth_getBlockByNumber, block_id a), (eth_getBlockByNumber, block_id b)] = Inr (results, blocks) \<and>
        (\<forall>i. results i \<noteq> []) \<and> bm_Number (blocks 0) = Some (unat a) \<and> bm_Time (blocks 0) = ts a \<and>
        bm_Number (blocks 1) = Some (unat b) \<and> bm_Time (blocks 1) = ts b"
    and times: "uint (ts b) * 1000000 < 2 ^ 64"
  shows "\<exists>r. ccqHandleEthCallByTimestampQueryRequest c H conn q w = (Inr (EthCallByTimestampResponse r), w) \<and>
    etr_TargetBlockNumber r = a \<and> etr_FollowingBlockNumber r = a + 1"
proof -
  let ?bts = "fold cache_step ops (NewBlocksByTimestamp maxCacheSize dev)"
  have "b = a + 1 \<and> ts a \<le> et_TargetTimestamp q div 1000000 \<and> et_TargetTimestamp q div 1000000 < ts b"
    using LookUp_found_iff [of ?bts ts] cache_run [OF cache(3) new_cache] cache(2) query(3) by (auto simp: cache_sorted_def)
  then have ab: "b = a + 1" and between: "uint (ts a) \<le> uint (et_TargetTimestamp q) div 1000000" "uint (et_TargetTimestamp q) div 1000000 < uint (ts b)"
    by (auto simp only: word_le_def word_less_def uint_div_distrib uint_numeral) (simp_all add: word_le_def)
  have t: "uint (ts a) * 1000000 \<le> uint (et_TargetTimestamp q)" "uint (et_TargetTimestamp q) < uint (ts b) * 1000000"
    using between by linarith+
  then have ta: "uint (ts a) * 1000000 < 2 ^ 64" using times by linarith
  have bounds: "\<not> et_TargetTimestamp q < ts a * 1000000" "\<not> ts b * 1000000 \<le> et_TargetTimestamp q"
    using t by (simp_all add: word_le_def word_less_def uint_times_million [OF ta] uint_times_million [OF times])
  have blocks: "timestamp_blocks q w = (Inr (block_id a, block_id b), w)"
    by (simp add: timestamp_blocks_def query string_of_def cache(1) Let_def)
  let ?calls = "ccqBuildBatchFromCallData c (et_CallData q) (Block_number_arg (block_id a))"
  obtain results bs where n: "conn ?calls [(eth_getBlockByNumber, block_id a), (eth_getBlockByNumber, block_id b)] = Inr (results, bs)"
      "\<forall>i. results i \<noteq> []" "bm_Number (bs 0) = Some (unat a)" "bm_Time (bs 0) = ts a"
      "bm_Number (bs 1) = Some (unat b)" "bm_Time (bs 1) = ts b"
    using node by blast
  have max: "unat (x :: 64 word) \<le> ccqMaxBlockNumber" for x
    using unat_lt64 [of x] by (simp add: ccqMaxBlockNumber_def)
  have verify: "ccqVerifyBlockResult (bs 0) = Inr a" "ccqVerifyBlockResult (bs 1) = Inr b"
    using max [of a] max [of b] by (simp_all add: ccqVerifyBlockResult_def n not_less del: One_nat_def)
  have all_results: "ccqVerifyAndExtractQueryResults (call_results results ?calls) = Inr (call_results results ?calls)"
    using n(2) by (simp add: extract_results call_results_def image_iff) metis
  have "\<exists>r. answer_by_timestamp c H conn q (block_id a, block_id b) = Inr (EthCallByTimestampResponse r) \<and>
      etr_TargetBlockNumber r = a \<and> etr_FollowingBlockNumber r = a + 1"
    using n bounds ab all_results verify
    by (simp add: answer_by_timestamp_def ccqCreateBlockRequest_number or_status_def chk_def status_if_def Let_def del: One_nat_def)
  then show ?thesis by (auto simp: ccqHandleEthCallByTimestampQueryRequest_def blocks)
qed

theorem timestamp_query_served_witness:
  "\<exists>r. ccqHandleEthCallByTimestampQueryRequest toy_crypto (\<lambda>_. replicate 32 0) sample_node timestamp_query query_watcher =
       (Inr (EthCallByTimestampResponse r), query_watcher) \<and> etr_TargetBlockNumber r = 11 \<and> etr_FollowingBlockNumber r = 11 + 1"
proof (rule timestamp_query_served [OF _ mono_sample_times])
  show "ew_ccqTimestampCache query_watcher = Some (fold cache_step sample_ops (NewBlocksByTimestamp 3 False))"
    by (simp add: query_watcher_def)
  show "\<forall>op\<in>set sample_ops. on_chain sample_times (op_blocks op)"
    by (simp add: sample_ops_def on_chain_def sample_times_def)
  show "LookUp (fold cache_step sample_ops (NewBlocksByTimestamp 3 False)) (et_TargetTimestamp timestamp_query div 1000000) = (11, 12, True)"
    unfolding sample_cache by code_simp
  have "block_id 11 = ''0xb''" "block_id 12 = ''0xc''" by code_simp+
  then show "\<forall>calls. \<exists>results blocks.
        sample_node calls [(eth_getBlockByNumber, block_id 11), (eth_getBlockByNumber, block_id 12)] = Inr (results, blocks) \<and>
        (\<forall>i. results i \<noteq> []) \<and> bm_Number (blocks 0) = Some (unat (11 :: 64 word)) \<and> bm_Time (blocks 0) = sample_times 11 \<and>
        bm_Number (blocks 1) = Some (unat (12 :: 64 word)) \<and> bm_Time (blocks 1) = sample_times 12"
    by (simp add: sample_node_def sample_times_def)
qed (simp_all add: timestamp_query_def sample_times_def)

text \<open>
  C39. A block hash that begins or ends with a zero byte is taken for a block number, since the text is trimmed of
  zeros. A query at that block is then sent with the method for numbers; from a node that knows no block of such a
  number it gets no answer but the one to try again.
\<close>

theorem zero_hash_taken_for_number:
  assumes hash: "length hash = 32" "hd hash = 0 \<or> last hash = 0" "string_of (ec_BlockId q) = ''0x'' @ hex_encode hash"
    and node: "\<forall>calls results blocks. conn calls [(eth_getBlockByNumber, ''0x'' @ hex_encode hash)] = Inr (results, blocks) \<longrightarrow>
        bm_Number (blocks 0) = None"
  shows "ccqHandleEthCallQueryRequest c H conn q = Inl QueryRetryNeeded"
proof -
  let ?block = "''0x'' @ hex_encode hash"
  have d: "hex_digit 0 = CHR ''0''" by code_simp
  have "length (trim_0x_chars ?block) \<le> 62"
    using hash(2)
  proof
    assume "hd hash = 0"
    then obtain rest where r: "hash = 0 # rest" "length rest = 31" using hash(1) by (cases hash) auto
    then have "trim_0x_chars ?block = trim_0x_chars (''00'' @ hex_encode rest)"
      unfolding trim_prefix by (simp add: d)
    then show ?thesis using length_trim_start [of "hex_encode rest"] r(2) by simp
  next
    assume "last hash = 0"
    then obtain rest where r: "hash = rest @ [0]" "length rest = 31" using hash(1) by (cases hash rule: rev_cases) auto
    then have "trim_0x_chars ?block = trim_0x_chars (hex_encode rest @ ''00'')"
      unfolding trim_prefix by (simp add: d hex_encode_def)
    then show ?thesis using length_trim_end [of "hex_encode rest"] r(2) by simp
  qed
  then have "ccqCreateBlockRequest H ?block = Inr (eth_getBlockByNumber, Block_number_arg ?block)"
    by (subst ccqCreateBlockRequest_hex) (use hex_encode_chars in \<open>auto simp: Let_def\<close>)
  then show ?thesis
    using node by (auto simp: ccqHandleEthCallQueryRequest_def hash(3) or_status_def chk_def Let_def ccqVerifyBlockResult_def split: sum.splits)
qed

definition zero_hash_query :: EthCallQueryRequest where
  "zero_hash_query = \<lparr>ec_BlockId = bytes_of (''0x'' @ hex_encode (replicate 31 7 @ [0])), ec_CallData = []\<rparr>"

theorem zero_hash_taken_for_number_witness:
  "ccqHandleEthCallQueryRequest toy_crypto (\<lambda>_. replicate 32 0) sample_node zero_hash_query = Inl QueryRetryNeeded"
  by (rule zero_hash_taken_for_number [of "replicate 31 7 @ [0]"])
    (simp_all add: zero_hash_query_def sample_node_def hex_encode_def del: bytes_of_append)

end
