(* ===== verification/EvmWatcher.thy ===== *)
theory EvmWatcher imports EvmQuery Traces begin

text \<open>
  The observation of messages by an EVM watcher: node/pkg/watchers/evm/watcher.go, reobserve.go,
  by_transaction.go, msg_verifier.go, and chain_config.go for what a chain supports. Log events of the core
  contract become messages; one that asks for it is published at once, the others wait in a map until a safe or a
  finalized block reaches them and their transaction is still in the block it was seen in. Reobservation requests
  take the messages out of the receipt of a transaction.

  The connection to the RPC node is an argument (record evm_conn); each step has its own, since the node may
  answer differently every time. The verdict of the transfer verifier on a transaction is an argument,
  for which TxVerifier has the code.
\<close>

section \<open>What the node says\<close>

definition ConsistencyLevelPublishImmediately :: byte where "ConsistencyLevelPublishImmediately = 200"
definition ConsistencyLevelSafe :: byte where "ConsistencyLevelSafe = 201"

datatype FinalityLevel = Latest | Safe | Finalized

definition FinalityLevel_String :: "FinalityLevel \<Rightarrow> string" where
  "FinalityLevel_String f = (case f of Latest \<Rightarrow> ''latest'' | Safe \<Rightarrow> ''safe'' | Finalized \<Rightarrow> ''finalized'')"

text \<open>A block from the connector; its number is a big integer, nil when it is missing.\<close>

record NewBlock =
  nb_Number :: "nat option"
  nb_Hash :: "byte list"
  nb_Time :: "64 word"
  nb_L1BlockNumber :: "nat option"
  nb_Finality :: FinalityLevel

record evm_log =
  log_Address :: eth_address
  log_Topics :: "byte list list"
  log_Data :: "byte list"
  log_TxHash :: "byte list"
  log_BlockHash :: "byte list"
  log_BlockNumber :: "64 word"

text \<open>\<open>AbiLogMessagePublished\<close>, the parsed event with the log it comes from.\<close>

record LogMessagePublished =
  lm_Sender :: eth_address
  lm_Sequence :: "64 word"
  lm_Nonce :: "32 word"
  lm_Payload :: "byte list"
  lm_ConsistencyLevel :: byte
  lm_Raw :: evm_log

record eth_receipt =
  rcpt_Status :: "64 word"
  rcpt_BlockHash :: "byte list"
  rcpt_BlockNumber :: nat
  rcpt_Logs :: "evm_log option list"

text \<open>The receipt and the error of TransactionReceipt are two values; BytesToHash is of go-ethereum.\<close>

record evm_conn =
  TransactionReceipt :: "byte list \<Rightarrow> eth_receipt option \<times> go_error option"
  TimeOfBlockByHash :: "byte list \<Rightarrow> go_error + 64 word"
  ParseLogMessagePublished :: "evm_log \<Rightarrow> go_error + LogMessagePublished"
  BytesToHash :: "byte list \<Rightarrow> byte list"
  GetCurrentGuardianSetIndex :: "go_error + 32 word"
  GetEvmGuardianSet :: "32 word \<Rightarrow> go_error + eth_address list"

definition ErrNoResult :: go_error where "ErrNoResult = Errorf ''JSON-RPC response has no result''"

text \<open>\<open>errors.Is\<close>.\<close>

fun errors_is :: "go_error \<Rightarrow> go_error \<Rightarrow> bool" where
  "errors_is (Wrap m (Some e)) target \<longleftrightarrow> Wrap m (Some e) = target \<or> errors_is e target"
| "errors_is e target \<longleftrightarrow> e = target"

text \<open>\<open>err.Error()\<close> is one of the texts, for an error of errors.New.\<close>

definition error_text_in :: "string list \<Rightarrow> go_error \<Rightarrow> bool" where
  "error_text_in texts e \<longleftrightarrow> (\<exists>m\<in>set texts. e = Errorf m)"

section \<open>Publishing\<close>

text \<open>An address of 20 bytes, padded on the left.\<close>

definition PadAddress :: "eth_address \<Rightarrow> Address" where
  "PadAddress address = replicate (32 - length address) 0 @ take 32 address"

text \<open>\<open>txverifier.Cmp(a, b) == 0\<close> compares the padded values.\<close>

definition same_padded :: "byte list \<Rightarrow> byte list \<Rightarrow> bool" where
  "same_padded a b \<longleftrightarrow> replicate (32 - length a) 0 @ a = replicate (32 - length b) 0 @ b"

text \<open>\<open>ProcessEvent\<close> of the transfer verifier: whether the transfers of the transaction are valid.\<close>

type_synonym process_event = "byte list \<Rightarrow> eth_receipt option \<Rightarrow> bool"

definition verify_msg :: "process_event \<Rightarrow> MessagePublication \<Rightarrow> byte list \<Rightarrow> eth_receipt option \<Rightarrow> eth_address \<Rightarrow>
    go_error + MessagePublication" where
  "verify_msg ProcessEvent msg txHash receipt tokenBridgeAddr =
     chk (guard_err (mp_verificationState msg \<noteq> NotVerified) (Errorf ''MessagePublication already has a non-default verification state'')) (\<lambda>_.
     let verificationState =
           (if \<not> same_padded (mp_EmitterAddress msg) tokenBridgeAddr then NotApplicable
            else if ProcessEvent txHash receipt then Valid else Rejected)
     in case SetVerificationState verificationState msg of
          (Inl err, _) \<Rightarrow> Inl (Wrap ''could not set verification state for message'' (Some err))
        | (Inr _, msg') \<Rightarrow> Inr msg')"

definition verifyAndPublish :: "process_event \<Rightarrow> MessagePublication \<Rightarrow> byte list \<Rightarrow> eth_receipt option \<Rightarrow> evm_watcher \<Rightarrow>
    go_error + evm_watcher" where
  "verifyAndPublish ProcessEvent msg txHash receipt w =
     chk (case ew_txVerifier w of None \<Rightarrow> Inr msg | Some tokenBridgeAddr \<Rightarrow> verify_msg ProcessEvent msg txHash receipt tokenBridgeAddr) (\<lambda>msg.
     Inr (w\<lparr>ew_msgC := chan_send msg (ew_msgC w)\<rparr>))"

text \<open>Where the error is only logged.\<close>

definition publish_or_log :: "process_event \<Rightarrow> MessagePublication \<Rightarrow> byte list \<Rightarrow> eth_receipt option \<Rightarrow> evm_watcher \<Rightarrow> evm_watcher" where
  "publish_or_log ProcessEvent msg txHash receipt w =
     (case verifyAndPublish ProcessEvent msg txHash receipt w of Inl _ \<Rightarrow> w | Inr w' \<Rightarrow> w')"

section \<open>Log events\<close>

definition event_message :: "ChainID \<Rightarrow> LogMessagePublished \<Rightarrow> 64 word \<Rightarrow> MessagePublication" where
  "event_message chainID ev blockTime =
     \<lparr>mp_TxID = log_TxHash (lm_Raw ev), mp_Timestamp = time_unix (sint blockTime), mp_Nonce = lm_Nonce ev,
      mp_Sequence = lm_Sequence ev, mp_ConsistencyLevel = lm_ConsistencyLevel ev, mp_EmitterChain = chainID,
      mp_EmitterAddress = PadAddress (lm_Sender ev), mp_Payload = lm_Payload ev, mp_IsReobservation = False,
      mp_Unreliable = False, mp_verificationState = NotVerified\<rparr>"

definition pending_key :: "evm_conn \<Rightarrow> LogMessagePublished \<Rightarrow> MessagePublication \<Rightarrow> pendingKey" where
  "pending_key conn ev msg =
     \<lparr>pk_TxHash = BytesToHash conn (mp_TxID msg), pk_BlockHash = log_BlockHash (lm_Raw ev),
      pk_EmitterAddress = mp_EmitterAddress msg, pk_Sequence = mp_Sequence msg\<rparr>"

definition postMessage :: "process_event \<Rightarrow> evm_conn \<Rightarrow> LogMessagePublished \<Rightarrow> 64 word \<Rightarrow> evm_watcher \<Rightarrow> evm_watcher" where
  "postMessage ProcessEvent conn ev blockTime w =
     (let msg = event_message (ew_chainID w) ev blockTime in
      if mp_ConsistencyLevel msg = ConsistencyLevelPublishImmediately
      then publish_or_log ProcessEvent msg (log_TxHash (lm_Raw ev)) None w
      else w\<lparr>ew_pending := (ew_pending w)(pending_key conn ev msg \<mapsto>
             \<lparr>wp_message = msg, wp_height = log_BlockNumber (lm_Raw ev)\<rparr>)\<rparr>)"

definition canRetryGetBlockTime :: "go_error \<Rightarrow> bool" where
  "canRetryGetBlockTime err = error_text_in [''not found'', ''Unknown block'', ''cannot query unfinalized data''] err"

text \<open>
  A log event from the subscription: it is posted, or waits for the time of its block in a routine of its own, or
  the error stops the watcher.
\<close>

datatype 'w log_outcome = Posted 'w | Deferred | Gave_up | Watcher_error go_error

definition time_error :: "go_error \<Rightarrow> go_error" where
  "time_error err = Wrap ''failed to request timestamp for block'' (Some err)"

definition handle_log_event :: "process_event \<Rightarrow> evm_conn \<Rightarrow> LogMessagePublished \<Rightarrow> evm_watcher \<Rightarrow> evm_watcher log_outcome" where
  "handle_log_event ProcessEvent conn ev w =
     (case TimeOfBlockByHash conn (log_BlockHash (lm_Raw ev)) of
        Inr blockTime \<Rightarrow> Posted (postMessage ProcessEvent conn ev blockTime w)
      | Inl err \<Rightarrow> if canRetryGetBlockTime err then Deferred else Watcher_error (time_error err))"

definition MaxRetries :: nat where "MaxRetries = 3"

text \<open>One retry of the routine \<open>waitForBlockTime\<close>; Deferred waits for the next one.\<close>

definition retry_log_event :: "process_event \<Rightarrow> evm_conn \<Rightarrow> LogMessagePublished \<Rightarrow> nat \<Rightarrow> evm_watcher \<Rightarrow> evm_watcher log_outcome" where
  "retry_log_event ProcessEvent conn ev retries w =
     (case TimeOfBlockByHash conn (log_BlockHash (lm_Raw ev)) of
        Inr blockTime \<Rightarrow> Posted (postMessage ProcessEvent conn ev blockTime w)
      | Inl err \<Rightarrow>
          if \<not> canRetryGetBlockTime err then Watcher_error (time_error err)
          else if retries \<ge> MaxRetries then Gave_up
          else Deferred)"

section \<open>Blocks\<close>

definition MaxWaitConfirmations :: "64 word" where "MaxWaitConfirmations = 60"

definition delete_pending_msg :: "pendingKey \<Rightarrow> evm_watcher \<Rightarrow> evm_watcher" where
  "delete_pending_msg key w = w\<lparr>ew_pending := (ew_pending w)(key := None)\<rparr>"

text \<open>A pending message that a block has reached, after the receipt of its transaction was asked for.\<close>

definition orphaned :: "eth_receipt option \<Rightarrow> go_error option \<Rightarrow> bool" where
  "orphaned tx err \<longleftrightarrow> tx = None \<or> (\<exists>e. err = Some e \<and> (errors_is e ErrNoResult \<or> error_text_in [''not found''] e))"

definition confirm_message :: "process_event \<Rightarrow> evm_conn \<Rightarrow> 64 word \<Rightarrow> pendingKey \<Rightarrow> pendingMessage \<Rightarrow> evm_watcher \<Rightarrow> evm_watcher" where
  "confirm_message ProcessEvent conn blockNumberU key pLock w =
     (case TransactionReceipt conn (BytesToHash conn (mp_TxID (wp_message pLock))) of (tx, err) \<Rightarrow>
        if orphaned tx err then delete_pending_msg key w
        else if rcpt_Status (the tx) \<noteq> 1 then delete_pending_msg key w
        else if err \<noteq> None then
          if wp_height pLock + MaxWaitConfirmations \<le> blockNumberU then delete_pending_msg key w else w
        else if rcpt_BlockHash (the tx) \<noteq> pk_BlockHash key then delete_pending_msg key w
        else publish_or_log ProcessEvent (wp_message pLock) (BytesToHash conn (mp_TxID (wp_message pLock))) tx (delete_pending_msg key w))"

definition check_pending :: "process_event \<Rightarrow> evm_conn \<Rightarrow> FinalityLevel \<Rightarrow> 64 word \<Rightarrow> pendingKey \<Rightarrow> evm_watcher \<Rightarrow> evm_watcher" where
  "check_pending ProcessEvent conn finality blockNumberU key w =
     (case ew_pending w key of
        None \<Rightarrow> w
      | Some pLock \<Rightarrow>
          if (finality = Safe) \<noteq> (mp_ConsistencyLevel (wp_message pLock) = ConsistencyLevelSafe) then w
          else if wp_height pLock \<le> blockNumberU then confirm_message ProcessEvent conn blockNumberU key pLock w
          else w)"

text \<open>The loop over the pending messages, in the order in which Go visits the map.\<close>

definition handle_block :: "process_event \<Rightarrow> evm_conn \<Rightarrow> pendingKey list \<Rightarrow> NewBlock option \<Rightarrow> evm_watcher \<Rightarrow> evm_watcher" where
  "handle_block ProcessEvent conn order ev w =
     (case ev of
        None \<Rightarrow> w
      | Some ev \<Rightarrow> (case nb_Number ev of
          None \<Rightarrow> w
        | Some number \<Rightarrow>
            (let blockNumberU = of_nat number in
             case nb_Finality ev of
               Latest \<Rightarrow> ccqAddLatestBlock (nb_Time ev) blockNumberU (w\<lparr>ew_latestBlockNumber := blockNumberU\<rparr>)
             | Safe \<Rightarrow> fold (check_pending ProcessEvent conn Safe blockNumberU) order (w\<lparr>ew_latestSafeBlockNumber := blockNumberU\<rparr>)
             | Finalized \<Rightarrow> fold (check_pending ProcessEvent conn Finalized blockNumberU) order (w\<lparr>ew_latestFinalizedBlockNumber := blockNumberU\<rparr>))))"

section \<open>Guardian sets\<close>

definition fetchCurrentGuardianSet :: "evm_conn \<Rightarrow> go_error + 32 word \<times> eth_address list" where
  "fetchCurrentGuardianSet conn =
     chk (wrap ''error requesting current guardian set index'' (GetCurrentGuardianSetIndex conn)) (\<lambda>currentIndex.
     chk (wrap ''error requesting current guardian set value'' (GetEvmGuardianSet conn currentIndex)) (\<lambda>gs.
     Inr (currentIndex, gs)))"

text \<open>A set is sent on when its index has changed; NewGuardianSet panics on an empty one.\<close>

definition fetchAndUpdateGuardianSet :: "evm_conn \<Rightarrow> evm_watcher \<Rightarrow> go_error + evm_watcher" where
  "fetchAndUpdateGuardianSet conn w =
     chk (fetchCurrentGuardianSet conn) (\<lambda>(idx, keys).
     if ew_currentGuardianSet w = Some idx then Inr w
     else
       (let w = w\<lparr>ew_currentGuardianSet := Some idx\<rparr> in
        case ew_setC w of
          None \<Rightarrow> Inr w
        | Some setC \<Rightarrow> chk (NewGuardianSet keys idx) (\<lambda>gs. Inr (w\<lparr>ew_setC := Some (chan_send gs setC)\<rparr>))))"

section \<open>Reobservation\<close>

definition LogMessagePublishedTopic :: "byte list" where
  "LogMessagePublishedTopic =
     [0x6e, 0xb2, 0x24, 0xfb, 0x00, 0x1e, 0xd2, 0x10, 0xe3, 0x79, 0xb3, 0x35, 0xe3, 0x5e, 0xfe, 0x88,
      0x67, 0x2a, 0x8c, 0xe9, 0x35, 0xd9, 0x81, 0xa6, 0x89, 0x6b, 0x27, 0xff, 0xdf, 0x52, 0xa3, 0xb2]"

text \<open>The loop over the logs of a receipt; \<open>l.Topics[0]\<close> panics on a log without topics.\<close>

fun log_messages :: "evm_conn \<Rightarrow> eth_address \<Rightarrow> ChainID \<Rightarrow> 64 word \<Rightarrow> evm_log option list \<Rightarrow> go_error + MessagePublication list" where
  "log_messages conn contract chainId blockTime [] = Inr []"
| "log_messages conn contract chainId blockTime (None # logs) = log_messages conn contract chainId blockTime logs"
| "log_messages conn contract chainId blockTime (Some l # logs) =
     (if log_Address l \<noteq> contract then log_messages conn contract chainId blockTime logs
      else (case log_Topics l of
          [] \<Rightarrow> Inl (Panic ''index out of range'')
        | topic # _ \<Rightarrow>
            if topic \<noteq> LogMessagePublishedTopic then log_messages conn contract chainId blockTime logs
            else
              chk (wrap ''failed to parse log'' (ParseLogMessagePublished conn l)) (\<lambda>ev.
              chk (log_messages conn contract chainId blockTime logs) (\<lambda>msgs.
              Inr (event_message chainId ev blockTime # msgs)))))"

definition MessageEventsForTransaction :: "evm_conn \<Rightarrow> eth_address \<Rightarrow> ChainID \<Rightarrow> byte list \<Rightarrow>
    go_error + eth_receipt \<times> 64 word \<times> MessagePublication list" where
  "MessageEventsForTransaction conn contract chainId tx =
     (case TransactionReceipt conn tx of
        (_, Some err) \<Rightarrow> Inl (Wrap ''failed to get transaction receipt'' (Some err))
      | (None, None) \<Rightarrow> Inl (Panic ''nil pointer dereference'')
      | (Some receipt, None) \<Rightarrow>
          chk (guard_err (rcpt_Status receipt \<noteq> 1) (Errorf ''non-success transaction status'')) (\<lambda>_.
          chk (wrap ''failed to get block time'' (TimeOfBlockByHash conn (rcpt_BlockHash receipt))) (\<lambda>blockTime.
          chk (log_messages conn contract chainId blockTime (rcpt_Logs receipt)) (\<lambda>msgs.
          Inr (receipt, of_nat (rcpt_BlockNumber receipt), msgs)))))"

text \<open>One message of the transaction: the count of observations and the watcher after it.\<close>

definition observed_again :: "64 word \<Rightarrow> 64 word \<Rightarrow> 64 word \<Rightarrow> MessagePublication \<Rightarrow> bool" where
  "observed_again finalizedBlockNum safeBlockNum blockNumber msg \<longleftrightarrow>
     mp_ConsistencyLevel msg = ConsistencyLevelPublishImmediately \<or>
     (if mp_ConsistencyLevel msg = ConsistencyLevelSafe then safeBlockNum \<noteq> 0 \<and> blockNumber \<le> safeBlockNum
      else finalizedBlockNum \<noteq> 0 \<and> blockNumber \<le> finalizedBlockNum)"

fun reobserve_loop :: "process_event \<Rightarrow> evm_conn \<Rightarrow> eth_receipt \<Rightarrow> 64 word \<Rightarrow> 64 word \<Rightarrow> 64 word \<Rightarrow> MessagePublication list \<Rightarrow>
    32 word \<times> evm_watcher \<Rightarrow> 32 word \<times> evm_watcher" where
  "reobserve_loop ProcessEvent conn receipt finalizedBlockNum safeBlockNum blockNumber [] (n, w) = (n, w)"
| "reobserve_loop ProcessEvent conn receipt finalizedBlockNum safeBlockNum blockNumber (msg # msgs) (n, w) =
     (let msg = msg\<lparr>mp_IsReobservation := True\<rparr> in
      reobserve_loop ProcessEvent conn receipt finalizedBlockNum safeBlockNum blockNumber msgs
        (if observed_again finalizedBlockNum safeBlockNum blockNumber msg then
           (case verifyAndPublish ProcessEvent msg (BytesToHash conn (mp_TxID msg)) (Some receipt) w of
              Inl _ \<Rightarrow> (n, w) | Inr w' \<Rightarrow> (n + 1, w'))
         else (n, w)))"

definition handleReobservationRequest :: "process_event \<Rightarrow> evm_conn \<Rightarrow> ChainID \<Rightarrow> byte list \<Rightarrow> 64 word \<Rightarrow> 64 word \<Rightarrow>
    evm_watcher \<Rightarrow> go_error + 32 word \<times> evm_watcher" where
  "handleReobservationRequest ProcessEvent conn chainId txID finalizedBlockNum safeBlockNum w =
     (if chainId \<noteq> ew_chainID w then Inl (Errorf ''unexpected chain id'')
      else (case MessageEventsForTransaction conn (ew_contract w) (ew_chainID w) (BytesToHash conn txID) of
          Inl (Panic p) \<Rightarrow> Inl (Panic p)
        | Inl err \<Rightarrow> Inl (Errorf ''failed to process observation request'')
        | Inr (receipt, blockNumber, msgs) \<Rightarrow>
            Inr (reobserve_loop ProcessEvent conn receipt finalizedBlockNum safeBlockNum blockNumber msgs (0, w))))"

text \<open>The routine that takes requests off the channel; an error is only logged, a panic stops the watcher.\<close>

definition handle_observation_request :: "process_event \<Rightarrow> evm_conn \<Rightarrow> ObservationRequest \<Rightarrow> evm_watcher \<Rightarrow> go_error + evm_watcher" where
  "handle_observation_request ProcessEvent conn r w =
     (if 65535 < uint (or_ChainId r) then Inr w
      else (case handleReobservationRequest ProcessEvent conn (ucast (or_ChainId r)) (or_TxHash r)
              (ew_latestFinalizedBlockNumber w) (ew_latestSafeBlockNumber w) w of
          Inl (Panic p) \<Rightarrow> Inl (Panic p)
        | Inl _ \<Rightarrow> Inr w
        | Inr (numObservations, w') \<Rightarrow> Inr w'))"

section \<open>Runs\<close>

text \<open>
  The routines of the watcher and what wakes them. A routine that fails stops the watcher, which the supervisor
  runs again: what is pending stays, the routines that wait for a block time are gone.
\<close>

datatype evm_event =
    Log_event process_event evm_conn LogMessagePublished
  | Retry_event process_event evm_conn "LogMessagePublished \<times> nat"
  | Block_event process_event evm_conn "pendingKey list" "NewBlock option"
  | Guardian_event evm_conn
  | Reobserve_event process_event evm_conn ObservationRequest
  | Query_event crypto "string \<Rightarrow> byte list" query_conn PerChainQueryInternal
  | Backfill_event batch_conn nat

record evm_node =
  en_watcher :: evm_watcher
  en_deferred :: "(LogMessagePublished \<times> nat) list"

definition after_log :: "LogMessagePublished \<times> nat \<Rightarrow> evm_watcher log_outcome \<Rightarrow> evm_node \<Rightarrow> evm_node" where
  "after_log entry out n =
     (case out of
        Posted w \<Rightarrow> n\<lparr>en_watcher := w\<rparr>
      | Deferred \<Rightarrow> n\<lparr>en_deferred := en_deferred n @ [entry]\<rparr>
      | Gave_up \<Rightarrow> n
      | Watcher_error e \<Rightarrow> n\<lparr>en_deferred := []\<rparr>)"

definition after_step :: "go_error + evm_watcher \<Rightarrow> evm_node \<Rightarrow> evm_node" where
  "after_step r n = (case r of Inr w \<Rightarrow> n\<lparr>en_watcher := w\<rparr> | Inl e \<Rightarrow> n\<lparr>en_deferred := []\<rparr>)"

fun evm_next :: "evm_event \<Rightarrow> evm_node \<Rightarrow> evm_node" where
  "evm_next (Log_event P conn ev) n = after_log (ev, 1) (handle_log_event P conn ev (en_watcher n)) n"
| "evm_next (Retry_event P conn (ev, retries)) n =
     (if (ev, retries) \<in> set (en_deferred n) then
        after_log (ev, retries + 1) (retry_log_event P conn ev retries (en_watcher n)) (n\<lparr>en_deferred := remove1 (ev, retries) (en_deferred n)\<rparr>)
      else n)"
| "evm_next (Block_event P conn order b) n = n\<lparr>en_watcher := handle_block P conn order b (en_watcher n)\<rparr>"
| "evm_next (Guardian_event conn) n = after_step (fetchAndUpdateGuardianSet conn (en_watcher n)) n"
| "evm_next (Reobserve_event P conn r) n = after_step (handle_observation_request P conn r (en_watcher n)) n"
| "evm_next (Query_event c H conn req) n = after_step (EvmQueryHandler c H conn req (en_watcher n)) n"
| "evm_next (Backfill_event conn k) n = after_step (backfill_step conn k (en_watcher n)) n"

definition evm_step :: "evm_event \<Rightarrow> evm_node \<Rightarrow> evm_node \<Rightarrow> bool" where
  "evm_step ev n n' \<longleftrightarrow> n' = evm_next ev n"

definition fresh_evm :: "evm_watcher \<Rightarrow> evm_node \<Rightarrow> bool" where
  "fresh_evm w0 n \<longleftrightarrow> n = \<lparr>en_watcher = w0, en_deferred = []\<rparr> \<and> ew_pending w0 = (\<lambda>_. None) \<and>
     ch_Items (ew_msgC w0) = [] \<and> ew_latestSafeBlockNumber w0 = 0 \<and> ew_latestFinalizedBlockNumber w0 = 0"

section \<open>What a published message rests on\<close>

type_synonym evm_trace = "(evm_event \<times> evm_node) list"

text \<open>The subscription delivered the log event, and the node gave the time of its block.\<close>

definition log_seen :: "evm_trace \<Rightarrow> LogMessagePublished \<Rightarrow> bool" where
  "log_seen tr ev \<longleftrightarrow> (\<exists>P conn. Log_event P conn ev \<in> fst ` set tr)"

text \<open>A block of a finality with at least the number was reported.\<close>

definition level_reached :: "evm_trace \<Rightarrow> MessagePublication \<Rightarrow> 64 word \<Rightarrow> bool" where
  "level_reached tr msg height \<longleftrightarrow> mp_ConsistencyLevel msg = ConsistencyLevelPublishImmediately \<or>
     (\<exists>P conn order b number. Block_event P conn order (Some b) \<in> fst ` set tr \<and> nb_Number b = Some number \<and>
        nb_Finality b = (if mp_ConsistencyLevel msg = ConsistencyLevelSafe then Safe else Finalized) \<and> height \<le> of_nat number)"

text \<open>At such a block the node gave the receipt of the message's transaction, in the block the log was seen in.\<close>

definition confirmed :: "evm_trace \<Rightarrow> LogMessagePublished \<Rightarrow> MessagePublication \<Rightarrow> bool" where
  "confirmed tr ev msg \<longleftrightarrow> mp_ConsistencyLevel msg = ConsistencyLevelPublishImmediately \<or>
     (\<exists>P conn order b number receipt. Block_event P conn order (Some b) \<in> fst ` set tr \<and> nb_Number b = Some number \<and>
        nb_Finality b = (if mp_ConsistencyLevel msg = ConsistencyLevelSafe then Safe else Finalized) \<and>
        log_BlockNumber (lm_Raw ev) \<le> of_nat number \<and>
        TransactionReceipt conn (BytesToHash conn (mp_TxID msg)) = (Some receipt, None) \<and> rcpt_Status receipt = 1 \<and>
        rcpt_BlockHash receipt = log_BlockHash (lm_Raw ev))"

text \<open>The message without what verification and reobservation add to it.\<close>

definition plain :: "MessagePublication \<Rightarrow> MessagePublication" where
  "plain msg = msg\<lparr>mp_IsReobservation := False, mp_verificationState := NotVerified\<rparr>"

definition observed_from_log :: "ChainID \<Rightarrow> evm_trace \<Rightarrow> MessagePublication \<Rightarrow> bool" where
  "observed_from_log chain tr msg \<longleftrightarrow>
     (\<exists>ev t. log_seen tr ev \<and> plain msg = event_message chain ev t \<and> confirmed tr ev msg)"

text \<open>A log of the core contract in the receipt of a successful transaction that was asked for.\<close>

definition observed_from_receipt :: "eth_address \<Rightarrow> ChainID \<Rightarrow> evm_trace \<Rightarrow> MessagePublication \<Rightarrow> bool" where
  "observed_from_receipt contract chain tr msg \<longleftrightarrow>
     (\<exists>P conn r receipt l topics ev t. Reobserve_event P conn r \<in> fst ` set tr \<and>
        TransactionReceipt conn (BytesToHash conn (or_TxHash r)) = (Some receipt, None) \<and> rcpt_Status receipt = 1 \<and>
        Some l \<in> set (rcpt_Logs receipt) \<and> log_Address l = contract \<and> log_Topics l = LogMessagePublishedTopic # topics \<and>
        ParseLogMessagePublished conn l = Inr ev \<and> TimeOfBlockByHash conn (rcpt_BlockHash receipt) = Inr t \<and>
        plain msg = event_message chain ev t \<and> level_reached tr msg (of_nat (rcpt_BlockNumber receipt)))"

definition publication_ok :: "evm_watcher \<Rightarrow> evm_trace \<Rightarrow> MessagePublication \<Rightarrow> bool" where
  "publication_ok w0 tr msg \<longleftrightarrow> observed_from_log (ew_chainID w0) tr msg \<or> observed_from_receipt (ew_contract w0) (ew_chainID w0) tr msg"

definition wpending_ok :: "evm_watcher \<Rightarrow> evm_trace \<Rightarrow> pendingKey \<Rightarrow> pendingMessage \<Rightarrow> bool" where
  "wpending_ok w0 tr key p \<longleftrightarrow>
     (\<exists>ev t. log_seen tr ev \<and> wp_message p = event_message (ew_chainID w0) ev t \<and>
        wp_height p = log_BlockNumber (lm_Raw ev) \<and> pk_BlockHash key = log_BlockHash (lm_Raw ev))"

definition reached_ok :: "evm_trace \<Rightarrow> FinalityLevel \<Rightarrow> 64 word \<Rightarrow> bool" where
  "reached_ok tr finality height \<longleftrightarrow> height \<noteq> 0 \<longrightarrow>
     (\<exists>P conn order b number. Block_event P conn order (Some b) \<in> fst ` set tr \<and> nb_Number b = Some number \<and>
        nb_Finality b = finality \<and> height = of_nat number)"

definition watcher_ok :: "evm_watcher \<Rightarrow> evm_trace \<Rightarrow> evm_watcher \<Rightarrow> bool" where
  "watcher_ok w0 tr w \<longleftrightarrow> ew_chainID w = ew_chainID w0 \<and> ew_contract w = ew_contract w0 \<and>
     (\<forall>key p. ew_pending w key = Some p \<longrightarrow> wpending_ok w0 tr key p) \<and>
     (\<forall>msg\<in>set (ch_Items (ew_msgC w)). publication_ok w0 tr msg) \<and>
     reached_ok tr Safe (ew_latestSafeBlockNumber w) \<and> reached_ok tr Finalized (ew_latestFinalizedBlockNumber w)"

definition evm_inv :: "evm_watcher \<Rightarrow> evm_trace \<Rightarrow> evm_node \<Rightarrow> bool" where
  "evm_inv w0 tr n \<longleftrightarrow> watcher_ok w0 tr (en_watcher n) \<and> (\<forall>(ev, r)\<in>set (en_deferred n). log_seen tr ev)"

section \<open>Steps keep it\<close>

lemma trace_mono:
  assumes "set tr \<subseteq> set tr'"
  shows "log_seen tr ev \<Longrightarrow> log_seen tr' ev" "wpending_ok w0 tr key p \<Longrightarrow> wpending_ok w0 tr' key p"
    "publication_ok w0 tr msg \<Longrightarrow> publication_ok w0 tr' msg" "reached_ok tr f h \<Longrightarrow> reached_ok tr' f h"
proof -
  have sub: "fst ` set tr \<subseteq> fst ` set tr'" using assms by blast
  show log: "log_seen tr ev \<Longrightarrow> log_seen tr' ev" for ev unfolding log_seen_def using sub by blast
  show "wpending_ok w0 tr key p \<Longrightarrow> wpending_ok w0 tr' key p" unfolding wpending_ok_def using log by blast
  have "confirmed tr ev msg \<Longrightarrow> confirmed tr' ev msg" for ev unfolding confirmed_def using sub by blast
  then have a: "observed_from_log c tr msg \<Longrightarrow> observed_from_log c tr' msg" for c unfolding observed_from_log_def using log by blast
  have lv: "level_reached tr msg h \<Longrightarrow> level_reached tr' msg h" for h unfolding level_reached_def using sub by blast
  have b: "observed_from_receipt a c tr msg \<Longrightarrow> observed_from_receipt a c tr' msg" for a c
    unfolding observed_from_receipt_def by (elim exE conjE, drule subsetD [OF sub], drule lv, intro exI conjI; assumption)
  show "publication_ok w0 tr msg \<Longrightarrow> publication_ok w0 tr' msg" using a b by (auto simp: publication_ok_def)
  show "reached_ok tr f h \<Longrightarrow> reached_ok tr' f h" unfolding reached_ok_def using sub by blast
qed

lemma watcher_ok_mono: "watcher_ok w0 tr w \<Longrightarrow> set tr \<subseteq> set tr' \<Longrightarrow> watcher_ok w0 tr' w"
  unfolding watcher_ok_def using trace_mono by blast

text \<open>Publishing changes the verification state at most.\<close>

lemma verify_msg_plain: "verify_msg P msg tx rc tb = Inr msg' \<Longrightarrow> plain msg' = plain msg \<and> mp_ConsistencyLevel msg' = mp_ConsistencyLevel msg \<and> mp_TxID msg' = mp_TxID msg"
  by (auto simp: verify_msg_def chk_def guard_err_def SetVerificationState_def plain_def Let_def split: if_splits)

lemma verifyAndPublish_cases:
  assumes "verifyAndPublish P msg tx rc w = Inr w'"
  obtains msg' where "w' = w\<lparr>ew_msgC := chan_send msg' (ew_msgC w)\<rparr>" "plain msg' = plain msg"
    "mp_ConsistencyLevel msg' = mp_ConsistencyLevel msg" "mp_TxID msg' = mp_TxID msg"
  using assms verify_msg_plain by (fastforce simp: verifyAndPublish_def chk_eq_Inr split: option.splits)

lemma publication_ok_plain:
  "publication_ok w0 tr msg \<Longrightarrow> plain msg' = plain msg \<Longrightarrow> mp_ConsistencyLevel msg' = mp_ConsistencyLevel msg \<Longrightarrow>
     mp_TxID msg' = mp_TxID msg \<Longrightarrow> publication_ok w0 tr msg'"
  by (simp add: publication_ok_def observed_from_log_def observed_from_receipt_def confirmed_def level_reached_def)

lemma watcher_ok_publish:
  assumes "watcher_ok w0 tr w" "publication_ok w0 tr msg" "verifyAndPublish P msg tx rc w = Inr w'"
  shows "watcher_ok w0 tr w'"
proof -
  obtain msg' where m: "w' = w\<lparr>ew_msgC := chan_send msg' (ew_msgC w)\<rparr>" "plain msg' = plain msg"
    "mp_ConsistencyLevel msg' = mp_ConsistencyLevel msg" "mp_TxID msg' = mp_TxID msg"
    by (rule verifyAndPublish_cases [OF assms(3)])
  show ?thesis using assms(1) publication_ok_plain [OF assms(2) m(2-4)] by (auto simp: watcher_ok_def m(1))
qed

lemma watcher_ok_publish_or_log:
  "watcher_ok w0 tr w \<Longrightarrow> publication_ok w0 tr msg \<Longrightarrow> watcher_ok w0 tr (publish_or_log P msg tx rc w)"
  by (auto simp: publish_or_log_def watcher_ok_publish split: sum.splits)

lemma event_message_plain [simp]: "plain (event_message chain ev t) = event_message chain ev t"
  by (simp add: plain_def event_message_def)

lemma watcher_ok_post:
  assumes ok: "watcher_ok w0 tr w" and seen: "log_seen tr ev"
  shows "watcher_ok w0 tr (postMessage P conn ev t w)"
proof -
  let ?msg = "event_message (ew_chainID w) ev t"
  have chain: "ew_chainID w = ew_chainID w0" using ok by (simp add: watcher_ok_def)
  show ?thesis
  proof (cases "mp_ConsistencyLevel ?msg = ConsistencyLevelPublishImmediately")
    case True
    then have "publication_ok w0 tr ?msg"
      unfolding publication_ok_def observed_from_log_def confirmed_def using seen chain by auto
    then show ?thesis using True ok by (simp add: postMessage_def Let_def watcher_ok_publish_or_log)
  next
    case False
    have "wpending_ok w0 tr (pending_key conn ev ?msg) \<lparr>wp_message = ?msg, wp_height = log_BlockNumber (lm_Raw ev)\<rparr>"
      unfolding wpending_ok_def using seen chain by (auto simp: pending_key_def)
    then show ?thesis using False ok by (simp add: postMessage_def Let_def watcher_ok_def)
  qed
qed

lemma watcher_ok_delete: "watcher_ok w0 tr w \<Longrightarrow> watcher_ok w0 tr (delete_pending_msg key w)"
  by (auto simp: watcher_ok_def delete_pending_msg_def)

lemma watcher_ok_confirm:
  assumes ok: "watcher_ok w0 tr w" and p: "ew_pending w key = Some p"
    and block: "Block_event P conn order (Some b) \<in> fst ` set tr" "nb_Number b = Some number" "nb_Finality b = f" "f \<noteq> Latest"
    and level: "(f = Safe) = (mp_ConsistencyLevel (wp_message p) = ConsistencyLevelSafe)" and height: "wp_height p \<le> of_nat number"
  shows "watcher_ok w0 tr (confirm_message P conn (of_nat number) key p w)"
proof -
  let ?tx = "BytesToHash conn (mp_TxID (wp_message p))"
  obtain tx err where t: "TransactionReceipt conn ?tx = (tx, err)" by fastforce
  obtain ev t' where ev: "log_seen tr ev" "wp_message p = event_message (ew_chainID w0) ev t'"
      "wp_height p = log_BlockNumber (lm_Raw ev)" "pk_BlockHash key = log_BlockHash (lm_Raw ev)"
    using ok p unfolding watcher_ok_def wpending_ok_def by blast
  have "publication_ok w0 tr (wp_message p)"
    if "tx = Some receipt" "err = None" "rcpt_Status receipt = 1" "rcpt_BlockHash receipt = pk_BlockHash key" for receipt
  proof -
    have "nb_Finality b = (if mp_ConsistencyLevel (wp_message p) = ConsistencyLevelSafe then Safe else Finalized)"
      using block(3,4) level by (cases f) auto
    then have "confirmed tr ev (wp_message p)"
      unfolding confirmed_def using block(1,2) height ev(3,4) t that by metis
    then show ?thesis unfolding publication_ok_def observed_from_log_def using ev(1,2) by auto
  qed
  then show ?thesis
    using ok t by (auto simp: confirm_message_def orphaned_def watcher_ok_delete watcher_ok_publish_or_log)
qed

lemma watcher_ok_check:
  assumes "watcher_ok w0 tr w" "Block_event P conn order (Some b) \<in> fst ` set tr" "nb_Number b = Some number" "nb_Finality b = f" "f \<noteq> Latest"
  shows "watcher_ok w0 tr (check_pending P conn f (of_nat number) key w)"
  using assms watcher_ok_confirm [OF assms(1) _ assms(2-5)] by (auto simp: check_pending_def split: option.splits)

lemma watcher_ok_check_all:
  assumes "Block_event P conn order (Some b) \<in> fst ` set tr" "nb_Number b = Some number" "nb_Finality b = f" "f \<noteq> Latest"
  shows "watcher_ok w0 tr w \<Longrightarrow> watcher_ok w0 tr (fold (check_pending P conn f (of_nat number)) keys w)"
  using watcher_ok_check [OF _ assms] by (induction keys arbitrary: w) simp_all

lemma watcher_ok_block:
  assumes "watcher_ok w0 tr w" "Block_event P conn order b \<in> fst ` set tr"
  shows "watcher_ok w0 tr (handle_block P conn order b w)"
proof (cases b)
  case None
  then show ?thesis using assms(1) by (simp add: handle_block_def)
next
  case b: (Some nb)
  show ?thesis
  proof (cases "nb_Number nb")
    case None
    then show ?thesis using assms(1) b by (simp add: handle_block_def)
  next
    case number: (Some number)
    note block = assms(2) [unfolded b] number
    have reached: "reached_ok tr (nb_Finality nb) (of_nat number)" unfolding reached_ok_def using block by blast
    show ?thesis
    proof (cases "nb_Finality nb")
      case Latest
      then show ?thesis using assms(1) by (simp add: b number handle_block_def Let_def ccqAddLatestBlock_def watcher_ok_def)
    next
      case Safe
      then have "watcher_ok w0 tr (w\<lparr>ew_latestSafeBlockNumber := of_nat number\<rparr>)"
        using assms(1) reached by (simp add: watcher_ok_def)
      then show ?thesis using watcher_ok_check_all [OF block Safe] by (simp add: b number Safe handle_block_def Let_def)
    next
      case Finalized
      then have "watcher_ok w0 tr (w\<lparr>ew_latestFinalizedBlockNumber := of_nat number\<rparr>)"
        using assms(1) reached by (simp add: watcher_ok_def)
      then show ?thesis using watcher_ok_check_all [OF block Finalized] by (simp add: b number Finalized handle_block_def Let_def)
    qed
  qed
qed

lemma watcher_ok_guardian: "watcher_ok w0 tr w \<Longrightarrow> fetchAndUpdateGuardianSet conn w = Inr w' \<Longrightarrow> watcher_ok w0 tr w'"
  by (auto simp: fetchAndUpdateGuardianSet_def watcher_ok_def chk_eq_Inr Let_def split: if_splits option.splits)

text \<open>The messages of a receipt come from logs of the contract.\<close>

lemma log_messages_from:
  "log_messages conn contract chain t logs = Inr msgs \<Longrightarrow> msg \<in> set msgs \<Longrightarrow>
     \<exists>l topics ev. Some l \<in> set logs \<and> log_Address l = contract \<and> log_Topics l = LogMessagePublishedTopic # topics \<and>
       ParseLogMessagePublished conn l = Inr ev \<and> msg = event_message chain ev t"
proof (induction logs arbitrary: msgs)
  case (Cons l logs)
  show ?case
  proof (cases l)
    case None
    then show ?thesis using Cons by auto
  next
    case (Some log)
    then show ?thesis
      using Cons by (auto simp: chk_eq_Inr wrap_def split: if_splits list.splits sum.splits; blast)
  qed
qed simp

lemma observed_again_reached:
  assumes "watcher_ok w0 tr w" "observed_again (ew_latestFinalizedBlockNumber w) (ew_latestSafeBlockNumber w) height msg"
  shows "level_reached tr msg height"
proof (cases "mp_ConsistencyLevel msg = ConsistencyLevelPublishImmediately")
  case True
  then show ?thesis by (simp add: level_reached_def)
next
  case False
  show ?thesis
  proof (cases "mp_ConsistencyLevel msg = ConsistencyLevelSafe")
    case safe: True
    then have "ew_latestSafeBlockNumber w \<noteq> 0" "height \<le> ew_latestSafeBlockNumber w" "reached_ok tr Safe (ew_latestSafeBlockNumber w)"
      using assms False by (auto simp: observed_again_def watcher_ok_def)
    then show ?thesis using safe unfolding level_reached_def reached_ok_def by metis
  next
    case other: False
    then have "ew_latestFinalizedBlockNumber w \<noteq> 0" "height \<le> ew_latestFinalizedBlockNumber w" "reached_ok tr Finalized (ew_latestFinalizedBlockNumber w)"
      using assms False by (auto simp: observed_again_def watcher_ok_def)
    then show ?thesis using other unfolding level_reached_def reached_ok_def by metis
  qed
qed

lemma watcher_ok_reobserve_loop:
  assumes "\<And>msg. msg \<in> set msgs \<Longrightarrow> observed_again f s height (msg\<lparr>mp_IsReobservation := True\<rparr>) \<Longrightarrow> publication_ok w0 tr (msg\<lparr>mp_IsReobservation := True\<rparr>)"
    and "watcher_ok w0 tr w"
  shows "watcher_ok w0 tr (snd (reobserve_loop P conn receipt f s height msgs (n, w)))"
  using assms
proof (induction msgs arbitrary: n w)
  case (Cons msg msgs)
  let ?msg = "msg\<lparr>mp_IsReobservation := True\<rparr>"
  show ?case
  proof (cases "verifyAndPublish P ?msg (BytesToHash conn (mp_TxID msg)) (Some receipt) w")
    case (Inl e)
    then show ?thesis using Cons by (simp add: Let_def)
  next
    case (Inr w')
    show ?thesis
    proof (cases "observed_again f s height ?msg")
      case True
      then have "watcher_ok w0 tr w'" using watcher_ok_publish [OF Cons.prems(2) _ Inr] Cons.prems(1) by simp
      then show ?thesis using Cons Inr True by (simp add: Let_def)
    next
      case False
      then show ?thesis using Cons by (simp add: Let_def)
    qed
  qed
qed simp

lemma watcher_ok_reobserve:
  assumes ok: "watcher_ok w0 tr w" and ev: "Reobserve_event P conn r \<in> fst ` set tr" and run: "handle_observation_request P conn r w = Inr w'"
  shows "watcher_ok w0 tr w'"
proof -
  let ?tx = "BytesToHash conn (or_TxHash r)"
  show ?thesis
  proof (cases "w' = w")
    case True
    then show ?thesis using ok by simp
  next
    case False
    then obtain receipt height msgs where m: "MessageEventsForTransaction conn (ew_contract w) (ew_chainID w) ?tx = Inr (receipt, height, msgs)"
      and w': "w' = snd (reobserve_loop P conn receipt (ew_latestFinalizedBlockNumber w) (ew_latestSafeBlockNumber w) height msgs (0, w))"
      using run by (auto simp: handle_observation_request_def handleReobservationRequest_def split: if_splits sum.splits go_error.splits prod.splits)
    obtain t where rc: "TransactionReceipt conn ?tx = (Some receipt, None)" "rcpt_Status receipt = 1" "height = of_nat (rcpt_BlockNumber receipt)"
      and t: "TimeOfBlockByHash conn (rcpt_BlockHash receipt) = Inr t" "log_messages conn (ew_contract w) (ew_chainID w) t (rcpt_Logs receipt) = Inr msgs"
      using m by (auto simp: MessageEventsForTransaction_def chk_eq_Inr guard_err_def wrap_def split: prod.splits option.splits if_splits sum.splits)
    have ids: "ew_contract w = ew_contract w0" "ew_chainID w = ew_chainID w0" using ok by (simp_all add: watcher_ok_def)
    have "publication_ok w0 tr (msg\<lparr>mp_IsReobservation := True\<rparr>)"
      if msg: "msg \<in> set msgs" "observed_again (ew_latestFinalizedBlockNumber w) (ew_latestSafeBlockNumber w) height (msg\<lparr>mp_IsReobservation := True\<rparr>)" for msg
    proof -
      obtain l topics e where l: "Some l \<in> set (rcpt_Logs receipt)" "log_Address l = ew_contract w0" "log_Topics l = LogMessagePublishedTopic # topics"
        "ParseLogMessagePublished conn l = Inr e" "msg = event_message (ew_chainID w0) e t"
        using log_messages_from [OF t(2) msg(1)] ids by auto
      have "plain (msg\<lparr>mp_IsReobservation := True\<rparr>) = event_message (ew_chainID w0) e t"
        using l(5) by (simp add: plain_def event_message_def)
      moreover have "level_reached tr (msg\<lparr>mp_IsReobservation := True\<rparr>) (of_nat (rcpt_BlockNumber receipt))"
        using observed_again_reached [OF ok msg(2)] rc(3) by simp
      ultimately have "observed_from_receipt (ew_contract w0) (ew_chainID w0) tr (msg\<lparr>mp_IsReobservation := True\<rparr>)"
        unfolding observed_from_receipt_def using ev rc(1,2) l(1-4) t(1) by blast
      then show ?thesis by (simp add: publication_ok_def)
    qed
    then show ?thesis unfolding w' by (rule watcher_ok_reobserve_loop [OF _ ok])
  qed
qed

text \<open>Queries and backfilling touch neither messages nor block numbers.\<close>

definition same_messages :: "evm_watcher \<Rightarrow> evm_watcher \<Rightarrow> bool" where
  "same_messages w w' \<longleftrightarrow> ew_chainID w' = ew_chainID w \<and> ew_contract w' = ew_contract w \<and> ew_pending w' = ew_pending w \<and>
     ew_msgC w' = ew_msgC w \<and> ew_latestSafeBlockNumber w' = ew_latestSafeBlockNumber w \<and>
     ew_latestFinalizedBlockNumber w' = ew_latestFinalizedBlockNumber w"

lemma watcher_ok_same: "watcher_ok w0 tr w \<Longrightarrow> same_messages w w' \<Longrightarrow> watcher_ok w0 tr w'"
  by (simp add: watcher_ok_def same_messages_def)

lemma timestamp_blocks_same: "timestamp_blocks q w = (ids, w') \<Longrightarrow> same_messages w w'"
  by (auto simp: timestamp_blocks_def Let_def ccqRequestBackfill_def same_messages_def split: if_splits option.splits prod.splits)

lemma query_same: "EvmQueryHandler c H conn req w = Inr w' \<Longrightarrow> same_messages w w'"
proof -
  assume q: "EvmQueryHandler c H conn req w = Inr w'"
  then obtain query where "pcq_Query (pcqi_Request req) = Some query"
    by (auto simp: EvmQueryHandler_def split: if_splits option.splits)
  moreover obtain out w'' where out: "query_outcome_of c H conn query w = (out, w'')" by fastforce
  ultimately have o: "query_outcome_of c H conn query w = (out, w'')" "w' = ccqSendQueryResponse req out w''"
    using q by (auto simp: EvmQueryHandler_def split: if_splits)
  have "same_messages w w''"
    using o(1) timestamp_blocks_same
    by (auto simp: query_outcome_of_def ccqHandleEthCallByTimestampQueryRequest_def same_messages_def split: ChainSpecificQuery.splits prod.splits sum.splits)
  then show ?thesis by (simp add: o(2) same_messages_def ccqSendQueryResponse_def)
qed

lemma backfill_same: "backfill_step conn k w = Inr w' \<Longrightarrow> same_messages w w'"
  by (auto simp: backfill_step_def put_backfiller_def same_messages_def chk_eq_Inr Let_def split: list.splits option.splits)

text \<open>The outcome of a log event, first or after a retry.\<close>

lemma evm_inv_log:
  assumes inv: "watcher_ok w0 tr (en_watcher n)" "\<forall>(ev, r)\<in>set (en_deferred n). log_seen tr ev" and seen: "log_seen tr ev"
    and out: "\<And>w. out = Posted w \<Longrightarrow> \<exists>P conn t. w = postMessage P conn ev t (en_watcher n)"
  shows "evm_inv w0 tr (after_log (ev, k) out n)"
  using inv seen out by (cases out) (auto simp: after_log_def evm_inv_def watcher_ok_post)

lemma evm_inv_after:
  "watcher_ok w0 tr (en_watcher n) \<Longrightarrow> \<forall>(ev, r)\<in>set (en_deferred n). log_seen tr ev \<Longrightarrow>
     (\<And>w. r = Inr w \<Longrightarrow> watcher_ok w0 tr w) \<Longrightarrow> evm_inv w0 tr (after_step r n)"
  by (cases r) (auto simp: after_step_def evm_inv_def)

lemma evm_inv_step:
  assumes inv: "evm_inv w0 tr n" and step: "evm_step ev n n'"
  shows "evm_inv w0 (tr @ [(ev, n)]) n'"
proof -
  let ?tr = "tr @ [(ev, n)]"
  have n': "n' = evm_next ev n" using step by (simp add: evm_step_def)
  have sub: "set tr \<subseteq> set ?tr" by auto
  have w: "watcher_ok w0 ?tr (en_watcher n)" using inv watcher_ok_mono sub by (auto simp: evm_inv_def)
  have d: "\<forall>(ev, r)\<in>set (en_deferred n). log_seen ?tr ev" using inv trace_mono(1) [OF sub] by (auto simp: evm_inv_def)
  show ?thesis
  proof (cases ev)
    case (Log_event P conn lm)
    have seen: "log_seen ?tr lm" unfolding log_seen_def Log_event by force
    show ?thesis unfolding n' Log_event evm_next.simps
      by (rule evm_inv_log [OF w d seen, unfolded Log_event]) (auto simp: handle_log_event_def split: sum.splits if_splits)
  next
    case (Retry_event P conn entry)
    obtain lm r where e: "entry = (lm, r)" by fastforce
    show ?thesis
    proof (cases "(lm, r) \<in> set (en_deferred n)")
      case True
      let ?n = "n\<lparr>en_deferred := remove1 (lm, r) (en_deferred n)\<rparr>"
      have seen: "log_seen ?tr lm" using d True by auto
      have "\<forall>(ev, r)\<in>set (en_deferred ?n). log_seen ?tr ev" using d set_remove1_subset [of "(lm, r)" "en_deferred n"] by auto
      then have "evm_inv w0 ?tr (after_log (lm, r + 1) (retry_log_event P conn lm r (en_watcher n)) ?n)"
        using w seen by (intro evm_inv_log) (auto simp: retry_log_event_def split: sum.splits if_splits)
      then show ?thesis using True by (simp add: n' Retry_event e)
    next
      case False
      then show ?thesis using w d by (simp add: n' Retry_event e evm_inv_def)
    qed
  next
    case (Block_event P conn order b)
    then have "Block_event P conn order b \<in> fst ` set ?tr" by simp
    then show ?thesis using w d watcher_ok_block by (simp add: n' Block_event evm_inv_def)
  next
    case (Guardian_event conn)
    show ?thesis unfolding n' Guardian_event evm_next.simps
      by (rule evm_inv_after [OF w d, unfolded Guardian_event]) (use w watcher_ok_guardian Guardian_event in blast)
  next
    case (Reobserve_event P conn r)
    then have r: "Reobserve_event P conn r \<in> fst ` set ?tr" by simp
    show ?thesis unfolding n' using evm_inv_after [OF w d watcher_ok_reobserve [OF w r]] by (simp add: Reobserve_event)
  next
    case (Query_event c H conn req)
    show ?thesis unfolding n' using evm_inv_after [OF w d watcher_ok_same [OF w query_same]] by (simp add: Query_event)
  next
    case (Backfill_event conn k)
    show ?thesis unfolding n' using evm_inv_after [OF w d watcher_ok_same [OF w backfill_same]] by (simp add: Backfill_event)
  qed
qed

lemma evm_inv_start: "fresh_evm w0 n \<Longrightarrow> evm_inv w0 [] n"
  by (auto simp: fresh_evm_def evm_inv_def watcher_ok_def reached_ok_def)

interpretation evm: trace_invariant "fresh_evm w0" evm_step "\<lambda>_. True" "evm_inv w0" for w0
  by unfold_locales (auto intro: evm_inv_start evm_inv_step)

section \<open>What holds in every run\<close>

text \<open>
  C6. What the watcher of an EVM chain publishes is final. In every run, with the node answering anything at any
  time, a message on the channel to the processor is the content of a log event of the core contract. Either it asks
  to be published at once, or a safe or a finalized block, as it asks for, has reached the block of the log, and then
  the node gave the receipt of its transaction, successful and in the very block the log was seen in; a message that
  was observed again comes from such a receipt itself.
\<close>

theorem evm_publications_final:
  assumes "trace_run (fresh_evm w0) evm_step tr n" "msg \<in> set (ch_Items (ew_msgC (en_watcher n)))"
  shows "observed_from_log (ew_chainID w0) tr msg \<or> observed_from_receipt (ew_contract w0) (ew_chainID w0) tr msg"
  using evm.run_inv [OF assms(1)] assms(2) by (auto simp: evm_inv_def watcher_ok_def publication_ok_def)

text \<open>A node with one log event, in block 7 with hash 4, whose transaction is 5.\<close>

definition sample_log :: evm_log where
  "sample_log = \<lparr>log_Address = replicate 20 9, log_Topics = [LogMessagePublishedTopic], log_Data = [],
     log_TxHash = replicate 32 5, log_BlockHash = replicate 32 4, log_BlockNumber = 7\<rparr>"

definition sample_event :: LogMessagePublished where
  "sample_event = \<lparr>lm_Sender = replicate 20 3, lm_Sequence = 1, lm_Nonce = 0, lm_Payload = [1], lm_ConsistencyLevel = 1, lm_Raw = sample_log\<rparr>"

definition sample_receipt :: eth_receipt where
  "sample_receipt = \<lparr>rcpt_Status = 1, rcpt_BlockHash = replicate 32 4, rcpt_BlockNumber = 7, rcpt_Logs = [Some sample_log]\<rparr>"

definition sample_conn :: evm_conn where
  "sample_conn = \<lparr>TransactionReceipt = (\<lambda>_. (Some sample_receipt, None)), TimeOfBlockByHash = (\<lambda>_. Inr 100),
     ParseLogMessagePublished = (\<lambda>_. Inr sample_event), BytesToHash = (\<lambda>h. h),
     GetCurrentGuardianSetIndex = Inr 0, GetEvmGuardianSet = (\<lambda>_. Inr [replicate 20 1])\<rparr>"

definition sample_watcher :: evm_watcher where
  "sample_watcher = NewEthWatcher (replicate 20 9) 2 (make_chan 10) None (make_chan 10) MainNet False False"

definition sample_key :: pendingKey where
  "sample_key = pending_key sample_conn sample_event (event_message 2 sample_event 100)"

definition final_block :: NewBlock where
  "final_block = \<lparr>nb_Number = Some 9, nb_Hash = [], nb_Time = 130, nb_L1BlockNumber = None, nb_Finality = Finalized\<rparr>"

definition sample_start :: evm_node where
  "sample_start = \<lparr>en_watcher = sample_watcher, en_deferred = []\<rparr>"

definition sample_events :: "evm_event list" where
  "sample_events = [Log_event (\<lambda>_ _. True) sample_conn sample_event, Block_event (\<lambda>_ _. True) sample_conn [sample_key] (Some final_block)]"

definition sample_seen :: evm_node where
  "sample_seen = evm_next (sample_events ! 0) sample_start"

definition sample_trace :: evm_trace where
  "sample_trace = [(sample_events ! 0, sample_start), (sample_events ! 1, sample_seen)]"

lemma sample_watcher_run: "trace_run (fresh_evm sample_watcher) evm_step sample_trace (evm_next (sample_events ! 1) sample_seen)"
proof -
  have "trace_run (fresh_evm sample_watcher) evm_step [] sample_start"
    by (rule trace_run.start) (simp add: fresh_evm_def sample_start_def sample_watcher_def NewEthWatcher_def make_chan_def)
  then have "trace_run (fresh_evm sample_watcher) evm_step ([] @ [(sample_events ! 0, sample_start)]) sample_seen"
    by (rule trace_run.step) (simp add: evm_step_def sample_seen_def)
  then have "trace_run (fresh_evm sample_watcher) evm_step (([] @ [(sample_events ! 0, sample_start)]) @ [(sample_events ! 1, sample_seen)])
      (evm_next (sample_events ! 1) sample_seen)"
    by (rule trace_run.step) (simp add: evm_step_def)
  then show ?thesis by (simp add: sample_trace_def)
qed

lemma sample_pending: "en_watcher sample_seen = sample_watcher\<lparr>ew_pending := (\<lambda>_. None)(sample_key \<mapsto> \<lparr>wp_message = event_message 2 sample_event 100, wp_height = 7\<rparr>)\<rparr>"
  by (simp add: sample_seen_def sample_events_def sample_start_def after_log_def handle_log_event_def sample_conn_def postMessage_def Let_def
    event_message_def sample_event_def ConsistencyLevelPublishImmediately_def sample_key_def sample_watcher_def NewEthWatcher_def sample_log_def)

lemma sample_published:
  "ch_Items (ew_msgC (en_watcher (evm_next (sample_events ! 1) sample_seen))) = [event_message 2 sample_event 100]"
proof -
  have hash: "pk_BlockHash sample_key = replicate 32 4"
    by (simp add: sample_key_def pending_key_def sample_event_def sample_log_def)
  have level: "mp_ConsistencyLevel (event_message 2 sample_event 100) = 1" by (simp add: event_message_def sample_event_def)
  show ?thesis
    by (simp add: sample_events_def handle_block_def final_block_def check_pending_def sample_pending confirm_message_def sample_conn_def
      orphaned_def sample_receipt_def hash level ConsistencyLevelSafe_def publish_or_log_def verifyAndPublish_def delete_pending_msg_def
      sample_watcher_def NewEthWatcher_def chk_def make_chan_def)
qed

theorem evm_publications_final_witness:
  "observed_from_log 2 sample_trace (event_message 2 sample_event 100) \<or>
     observed_from_receipt (replicate 20 9) 2 sample_trace (event_message 2 sample_event 100)"
  using evm_publications_final [OF sample_watcher_run, of "event_message 2 sample_event 100"]
  by (simp add: sample_published sample_watcher_def NewEthWatcher_def del: One_nat_def)

section \<open>When a message is published, and when it is lost\<close>

lemma publish_or_log_pending [simp]: "ew_pending (publish_or_log P msg tx rc w) = ew_pending w" "ew_txVerifier (publish_or_log P msg tx rc w) = ew_txVerifier w"
  by (auto simp: publish_or_log_def verifyAndPublish_def chk_def split: sum.splits)

lemma publish_or_log_items: "set (ch_Items (ew_msgC w)) \<subseteq> set (ch_Items (ew_msgC (publish_or_log P msg tx rc w)))"
  by (auto simp: publish_or_log_def verifyAndPublish_def chk_def split: sum.splits)

lemma confirm_message_other:
  "k \<noteq> key \<Longrightarrow> ew_pending (confirm_message P conn n key p w) k = ew_pending w k"
  "ew_txVerifier (confirm_message P conn n key p w) = ew_txVerifier w"
  "set (ch_Items (ew_msgC w)) \<subseteq> set (ch_Items (ew_msgC (confirm_message P conn n key p w)))"
  using publish_or_log_items [of "delete_pending_msg key w"]
  by (auto simp: confirm_message_def delete_pending_msg_def split: prod.splits)

lemma check_pending_other:
  "k \<noteq> key \<Longrightarrow> ew_pending (check_pending P conn f n key w) k = ew_pending w k"
  "ew_txVerifier (check_pending P conn f n key w) = ew_txVerifier w"
  "set (ch_Items (ew_msgC w)) \<subseteq> set (ch_Items (ew_msgC (check_pending P conn f n key w)))"
  "ew_pending w k = None \<Longrightarrow> ew_pending (check_pending P conn f n key w) k = None"
  using confirm_message_other by (auto simp: check_pending_def split: option.splits) (metis option.distinct(1))+

lemma check_all_other:
  "k \<notin> set keys \<Longrightarrow> ew_pending (fold (check_pending P conn f n) keys w) k = ew_pending w k"
  "ew_txVerifier (fold (check_pending P conn f n) keys w) = ew_txVerifier w"
  "set (ch_Items (ew_msgC w)) \<subseteq> set (ch_Items (ew_msgC (fold (check_pending P conn f n) keys w)))"
  "ew_pending w k = None \<Longrightarrow> ew_pending (fold (check_pending P conn f n) keys w) k = None"
  using check_pending_other by (induction keys arbitrary: w) (auto, fastforce+)

text \<open>A message that waits for a block which the block at hand reaches, in an order of the map that visits it.\<close>

definition ripe :: "evm_watcher \<Rightarrow> pendingKey list \<Rightarrow> NewBlock \<Rightarrow> pendingKey \<Rightarrow> pendingMessage \<Rightarrow> bool" where
  "ripe w order b key p \<longleftrightarrow> ew_pending w key = Some p \<and> key \<in> set order \<and> nb_Finality b \<noteq> Latest \<and>
     (nb_Finality b = Safe) = (mp_ConsistencyLevel (wp_message p) = ConsistencyLevelSafe) \<and>
     (\<exists>number. nb_Number b = Some number \<and> wp_height p \<le> of_nat number)"

lemma handle_block_ripe:
  assumes "ripe w order b key p"
  obtains f number w1 ys where "nb_Number b = Some number" "wp_height p \<le> of_nat number"
    "handle_block P conn order (Some b) w = fold (check_pending P conn f (of_nat number)) ys (confirm_message P conn (of_nat number) key p w1)"
    "ew_txVerifier w1 = ew_txVerifier w" "ew_pending w1 key = Some p" "key \<notin> set (takeWhile (\<lambda>k. k \<noteq> key) order)"
    "\<And>m. m \<in> set (ch_Items (ew_msgC w)) \<Longrightarrow> m \<in> set (ch_Items (ew_msgC w1))"
proof -
  obtain number where number: "nb_Number b = Some number" "wp_height p \<le> of_nat number" using assms by (auto simp: ripe_def)
  define f where "f = nb_Finality b"
  define w' where "w' = (if f = Safe then w\<lparr>ew_latestSafeBlockNumber := of_nat number\<rparr> else w\<lparr>ew_latestFinalizedBlockNumber := of_nat number\<rparr>)"
  have block: "handle_block P conn order (Some b) w = fold (check_pending P conn f (of_nat number)) order w'"
    using assms number(1) by (cases "nb_Finality b") (auto simp: handle_block_def ripe_def f_def w'_def Let_def)
  obtain xs ys where order: "order = xs @ key # ys" "key \<notin> set xs" using assms by (metis ripe_def split_list_first)
  let ?w1 = "fold (check_pending P conn f (of_nat number)) xs w'"
  have p: "ew_pending ?w1 key = Some p" using check_all_other(1) [OF order(2)] assms by (simp add: ripe_def w'_def)
  have "check_pending P conn f (of_nat number) key ?w1 = confirm_message P conn (of_nat number) key p ?w1"
    using p assms number(2) by (auto simp: check_pending_def ripe_def f_def)
  then have "handle_block P conn order (Some b) w =
      fold (check_pending P conn f (of_nat number)) ys (confirm_message P conn (of_nat number) key p ?w1)"
    unfolding block by (simp add: order(1))
  moreover have "ew_txVerifier ?w1 = ew_txVerifier w" by (simp add: check_all_other(2) w'_def)
  moreover have "m \<in> set (ch_Items (ew_msgC w)) \<Longrightarrow> m \<in> set (ch_Items (ew_msgC ?w1))" for m
    using check_all_other(3) [of w' P conn f "of_nat number" xs] by (auto simp: w'_def)
  moreover have "key \<notin> set (takeWhile (\<lambda>k. k \<noteq> key) order)" by (auto dest: set_takeWhileD)
  ultimately show thesis using that number p by blast
qed

text \<open>
  C16. A message whose transaction stays where it was is published. When a block reaches a message that waits for a block
  of its finality, and the node gives a successful receipt of the message's transaction in the block its log was seen
  in, then without a transfer verifier the message is on the channel after the block, and it waits no longer.
\<close>

theorem confirmed_message_published:
  assumes "ripe w order b key p" "ew_txVerifier w = None"
    and "TransactionReceipt conn (BytesToHash conn (mp_TxID (wp_message p))) = (Some receipt, None)"
      "rcpt_Status receipt = 1" "rcpt_BlockHash receipt = pk_BlockHash key"
  shows "wp_message p \<in> set (ch_Items (ew_msgC (handle_block P conn order (Some b) w))) \<and>
    ew_pending (handle_block P conn order (Some b) w) key = None"
proof -
  obtain f number w1 ys where h: "handle_block P conn order (Some b) w =
      fold (check_pending P conn f (of_nat number)) ys (confirm_message P conn (of_nat number) key p w1)"
    "ew_txVerifier w1 = ew_txVerifier w"
    by (rule handle_block_ripe [OF assms(1)])
  let ?w2 = "confirm_message P conn (of_nat number) key p w1"
  have "?w2 = (delete_pending_msg key w1)\<lparr>ew_msgC := chan_send (wp_message p) (ew_msgC w1)\<rparr>"
    using assms(2-5) h(2)
    by (simp add: confirm_message_def orphaned_def publish_or_log_def verifyAndPublish_def chk_def delete_pending_msg_def)
  then have "wp_message p \<in> set (ch_Items (ew_msgC ?w2))" "ew_pending ?w2 key = None"
    by (simp_all add: delete_pending_msg_def)
  then show ?thesis
    using check_all_other(3) [of ?w2 P conn f "of_nat number" ys] check_all_other(4) [of ?w2 key P conn f "of_nat number" ys] h(1) by auto
qed

lemma sample_ripe: "ripe (en_watcher sample_seen) [sample_key] final_block sample_key \<lparr>wp_message = event_message 2 sample_event 100, wp_height = 7\<rparr>"
  by (simp add: ripe_def sample_pending final_block_def event_message_def sample_event_def ConsistencyLevelSafe_def)

theorem confirmed_message_published_witness:
  "event_message 2 sample_event 100 \<in>
     set (ch_Items (ew_msgC (handle_block (\<lambda>_ _. True) sample_conn [sample_key] (Some final_block) (en_watcher sample_seen)))) \<and>
   ew_pending (handle_block (\<lambda>_ _. True) sample_conn [sample_key] (Some final_block) (en_watcher sample_seen)) sample_key = None"
  using confirmed_message_published [OF sample_ripe, of sample_conn sample_receipt]
  by (simp add: sample_pending sample_watcher_def NewEthWatcher_def sample_conn_def sample_receipt_def sample_key_def pending_key_def
    sample_event_def sample_log_def)

text \<open>
  C37. A failed request loses the message. The client library gives no receipt together with an error. Whatever the error
  is, a timeout or a lost connection, a message that the block reaches is taken for orphaned: it waits no longer and is
  not published, though the code means to ask again at the next blocks.
\<close>

theorem receipt_error_loses_message:
  assumes "ripe w order b key p" "\<forall>tx. \<exists>err. TransactionReceipt conn tx = (None, Some err)"
  shows "ew_pending (handle_block P conn order (Some b) w) key = None \<and>
    ew_msgC (handle_block P conn order (Some b) w) = ew_msgC w"
proof -
  have delete: "confirm_message P conn n k q v = delete_pending_msg k v" for n k q v
    using assms(2) [rule_format, of "BytesToHash conn (mp_TxID (wp_message q))"] by (auto simp: confirm_message_def orphaned_def)
  have "ew_msgC (check_pending P conn f n k v) = ew_msgC v" for f n k v
    by (auto simp: check_pending_def delete delete_pending_msg_def split: option.splits)
  then have same: "ew_msgC (fold (check_pending P conn f n) keys v) = ew_msgC v" for f n keys v
    by (induction keys arbitrary: v) simp_all
  obtain f number w1 ys where h: "handle_block P conn order (Some b) w =
      fold (check_pending P conn f (of_nat number)) ys (confirm_message P conn (of_nat number) key p w1)"
    by (rule handle_block_ripe [OF assms(1)])
  have "ew_pending (handle_block P conn order (Some b) w) key = None"
    unfolding h delete by (rule check_all_other(4)) (simp add: delete_pending_msg_def)
  moreover have "ew_msgC (handle_block P conn order (Some b) w) = ew_msgC w"
    by (auto simp: handle_block_def same Let_def ccqAddLatestBlock_def split: option.splits FinalityLevel.splits)
  ultimately show ?thesis by simp
qed

theorem receipt_error_loses_message_witness:
  "ew_pending (handle_block (\<lambda>_ _. True) (sample_conn\<lparr>TransactionReceipt := \<lambda>_. (None, Some DeadlineExceeded)\<rparr>) [sample_key]
       (Some final_block) (en_watcher sample_seen)) sample_key = None \<and>
   ew_msgC (handle_block (\<lambda>_ _. True) (sample_conn\<lparr>TransactionReceipt := \<lambda>_. (None, Some DeadlineExceeded)\<rparr>) [sample_key]
       (Some final_block) (en_watcher sample_seen)) = ew_msgC (en_watcher sample_seen)"
  by (rule receipt_error_loses_message [OF sample_ripe]) simp

text \<open>A log of the contract without topics in a receipt makes the request for its transaction panic.\<close>

lemma no_topics_panics:
  assumes "TransactionReceipt conn (BytesToHash conn (or_TxHash r)) = (Some receipt, None)" "rcpt_Status receipt = 1"
    "TimeOfBlockByHash conn (rcpt_BlockHash receipt) = Inr t" "rcpt_Logs receipt = Some l # logs" "log_Address l = ew_contract w"
    "log_Topics l = []" "uint (or_ChainId r) \<le> 65535" "ucast (or_ChainId r) = ew_chainID w"
  shows "handle_observation_request P conn r w = Inl (Panic ''index out of range'')"
  using assms by (simp add: handle_observation_request_def handleReobservationRequest_def MessageEventsForTransaction_def chk_def guard_err_def wrap_def)

end
