(* ===== verification/EvmPoller.thy ===== *)
theory EvmPoller imports EvmWatcher begin

text \<open>
  The connectors that report blocks to an EVM watcher: node/pkg/watchers/evm/connectors/batch_poller.go,
  instant_finality.go, common.go and block_utils.go. The batch poller asks for the finalized block, and the safe
  one where the chain has it, every second and reports every block since the last one it has reported, fetching
  the blocks of a gap five at a time; the instant finality connector reports every new head at all three levels.

  A node is a function from the number of the call and the blocks that are asked for to an error of the whole batch
  or to a result per element. What goes to the watcher's channel is a list; sending to it blocks when it is full.
\<close>

section \<open>Blocks\<close>

definition NewBlock_Copy :: "FinalityLevel \<Rightarrow> NewBlock \<Rightarrow> NewBlock" where
  "NewBlock_Copy f b = \<lparr>nb_Number = nb_Number b, nb_Hash = nb_Hash b, nb_Time = nb_Time b, nb_L1BlockNumber = nb_L1BlockNumber b, nb_Finality = f\<rparr>"

type_synonym poll_conn = "nat \<Rightarrow> string list \<Rightarrow> go_error + (nat \<Rightarrow> BlockMarshaller)"

text \<open>A missing number is treated as zero.\<close>

definition new_block :: "FinalityLevel \<Rightarrow> BlockMarshaller \<Rightarrow> NewBlock" where
  "new_block finality m =
     \<lparr>nb_Number = Some (case bm_Number m of None \<Rightarrow> 0 | Some n \<Rightarrow> n), nb_Hash = bm_Hash m, nb_Time = bm_Time m,
      nb_L1BlockNumber = bm_L1BlockNumber m, nb_Finality = finality\<rparr>"

text \<open>\<open>newBlock.Number\<close>, which is never nil in the poller.\<close>

definition number :: "NewBlock \<Rightarrow> nat" where "number b = the (nb_Number b)"

definition GetBlock :: "poll_conn \<Rightarrow> nat \<Rightarrow> string \<Rightarrow> FinalityLevel \<Rightarrow> go_error + NewBlock" where
  "GetBlock conn n str blockFinality =
     chk (wrap ''failed to get block'' (conn n [str])) (\<lambda>m.
     case bm_Number (m 0) of
       None \<Rightarrow> Inl (Errorf ''failed to unmarshal block: Number is nil'')
     | Some _ \<Rightarrow> Inr (new_block blockFinality (m 0)))"

definition GetBlockByFinality :: "poll_conn \<Rightarrow> nat \<Rightarrow> FinalityLevel \<Rightarrow> go_error + NewBlock" where
  "GetBlockByFinality conn n blockFinality = GetBlock conn n (FinalityLevel_String blockFinality) blockFinality"

section \<open>The batch poller\<close>

definition MaxGapBatchSize :: "64 word" where "MaxGapBatchSize = 5"

record batch_poller =
  bp_batchData :: "(string \<times> FinalityLevel) list"
  bp_generateSafe :: bool

definition NewBatchPollConnector :: "bool \<Rightarrow> batch_poller" where
  "NewBatchPollConnector safeSupported =
     \<lparr>bp_batchData = [(''finalized'', Finalized)] @ (if safeSupported then [(''safe'', Safe)] else []), bp_generateSafe = \<not> safeSupported\<rparr>"

definition getBlocks :: "poll_conn \<Rightarrow> nat \<Rightarrow> batch_poller \<Rightarrow> go_error + NewBlock list" where
  "getBlocks conn n b =
     chk (conn n (map fst (bp_batchData b))) (\<lambda>results.
     Inr (map (\<lambda>idx. new_block (snd (bp_batchData b ! idx)) (results idx)) [0..<length (bp_batchData b)]))"

definition getBlockRange :: "poll_conn \<Rightarrow> nat \<Rightarrow> 64 word \<Rightarrow> 64 word \<Rightarrow> FinalityLevel \<Rightarrow> go_error + NewBlock list" where
  "getBlockRange conn n blockNum numBlocks finality =
     chk (conn n (map (\<lambda>idx. block_id (blockNum + of_nat idx)) [0..<unat numBlocks])) (\<lambda>results.
     Inr (map (\<lambda>idx. new_block finality (results idx)) [0..<unat numBlocks]))"

text \<open>What is sent for a block: a generated safe block follows a finalized one.\<close>

definition sink_block :: "batch_poller \<Rightarrow> FinalityLevel \<Rightarrow> NewBlock \<Rightarrow> NewBlock list" where
  "sink_block b finality block = block # (if bp_generateSafe b \<and> finality = Finalized then [NewBlock_Copy Safe block] else [])"

text \<open>
  Playing out the blocks of a gap: what is sent, the last block published, and whether a block was missing.
\<close>

fun play_gap :: "batch_poller \<Rightarrow> FinalityLevel \<Rightarrow> NewBlock list \<Rightarrow> NewBlock \<Rightarrow> NewBlock list \<times> NewBlock \<times> bool" where
  "play_gap b finality [] lastPublished = ([], lastPublished, False)"
| "play_gap b finality (block # blocks) lastPublished =
     (if (of_nat (number block) :: 64 word) = 0 then ([], lastPublished, True)
      else (case play_gap b finality blocks block of (sent, lastPublished, errorFound) \<Rightarrow>
              (sink_block b finality block @ sent, lastPublished, errorFound)))"

lemma gap_batch:
  fixes blockNum newBlockNum :: "64 word"
  assumes "blockNum < newBlockNum" "batchSize = (if newBlockNum - blockNum > MaxGapBatchSize then MaxGapBatchSize else newBlockNum - blockNum)"
  shows "0 < unat batchSize" "unat (blockNum + batchSize) = unat blockNum + unat batchSize" "unat blockNum + unat batchSize \<le> unat newBlockNum"
proof -
  have diff: "unat (newBlockNum - blockNum) = unat newBlockNum - unat blockNum"
    using assms(1) by (simp add: unat_sub order_less_imp_le)
  have lt: "unat blockNum < unat newBlockNum" using assms(1) by (simp add: word_less_nat_alt)
  show "0 < unat batchSize" and le: "unat blockNum + unat batchSize \<le> unat newBlockNum"
    using assms(2) diff lt by (auto simp: MaxGapBatchSize_def word_less_nat_alt)
  show "unat (blockNum + batchSize) = unat blockNum + unat batchSize"
    using le unat_lt64 [of newBlockNum] by (simp add: unat_word_ariths)
qed

text \<open>The loop over the batches of a gap, with the number of the next call to the node.\<close>

function batch_gap_loop :: "poll_conn \<Rightarrow> nat \<Rightarrow> batch_poller \<Rightarrow> FinalityLevel \<Rightarrow> 64 word \<Rightarrow> 64 word \<Rightarrow> NewBlock \<Rightarrow>
    NewBlock list \<times> NewBlock \<times> bool \<times> nat" where
  "batch_gap_loop conn n b finality blockNum newBlockNum lastPublished =
     (if blockNum < newBlockNum then
        (let batchSize = (if newBlockNum - blockNum > MaxGapBatchSize then MaxGapBatchSize else newBlockNum - blockNum) in
         case getBlockRange conn n blockNum batchSize finality of
           Inl err \<Rightarrow> ([], lastPublished, True, Suc n)
         | Inr gapBlocks \<Rightarrow>
             (case play_gap b finality gapBlocks lastPublished of (sent, lastPublished, errorFound) \<Rightarrow>
                if errorFound then (sent, lastPublished, True, Suc n)
                else (case batch_gap_loop conn (Suc n) b finality (blockNum + batchSize) newBlockNum lastPublished of
                        (sent', lastPublished, errorFound, n') \<Rightarrow> (sent @ sent', lastPublished, errorFound, n'))))
      else ([], lastPublished, False, n))"
  by pat_completeness auto

termination
proof (relation "measure (\<lambda>(_, _, _, _, blockNum, newBlockNum, _). unat newBlockNum - unat blockNum)", goal_cases)
  case (2 conn n b finality blockNum newBlockNum lastPublished batchSize gapBlocks)
  then show ?case using gap_batch [OF 2(1,2)] by (simp add: word_less_nat_alt)
qed simp

declare batch_gap_loop.simps [simp del]

text \<open>One finality: what is sent, the block to remember, and the next call.\<close>

definition poll_one :: "poll_conn \<Rightarrow> nat \<Rightarrow> batch_poller \<Rightarrow> FinalityLevel \<Rightarrow> NewBlock \<Rightarrow> NewBlock \<Rightarrow> NewBlock list \<times> NewBlock \<times> nat" where
  "poll_one conn n b finality prev newBlock =
     (if number newBlock > number prev then
        (case batch_gap_loop conn n b finality (of_nat (number prev) + 1) (of_nat (number newBlock)) prev of
           (sent, lastPublished, errorFound, n') \<Rightarrow>
             if \<not> errorFound then (sent @ sink_block b finality newBlock, newBlock, n') else (sent, lastPublished, n'))
      else if number newBlock < number prev then ([], prev, n)
      else ([], newBlock, n))"

fun poll_all :: "poll_conn \<Rightarrow> nat \<Rightarrow> batch_poller \<Rightarrow> FinalityLevel list \<Rightarrow> NewBlock list \<Rightarrow> NewBlock list \<Rightarrow>
    NewBlock list \<times> NewBlock list \<times> nat" where
  "poll_all conn n b (f # fs) (prev # prevs) (new # news) =
     (case poll_one conn n b f prev new of (sent, reported, n') \<Rightarrow>
      (case poll_all conn n' b fs prevs news of (sent', lasts, n'') \<Rightarrow> (sent @ sent', reported # lasts, n'')))"
| "poll_all conn n b _ _ _ = ([], [], n)"

definition pollBlocks :: "poll_conn \<Rightarrow> nat \<Rightarrow> batch_poller \<Rightarrow> NewBlock list \<Rightarrow> go_error + NewBlock list \<times> NewBlock list \<times> nat" where
  "pollBlocks conn n b prevBlocks =
     chk (getBlocks conn n b) (\<lambda>newBlocks.
     chk (guard_err (length newBlocks \<noteq> length prevBlocks) (Panic ''getBlocks returned another number of entries'')) (\<lambda>_.
     Inr (poll_all conn (Suc n) b (map snd (bp_batchData b)) prevBlocks newBlocks)))"

text \<open>The latest, finalized and safe block numbers.\<close>

definition GetLatest :: "poll_conn \<Rightarrow> batch_poller \<Rightarrow> go_error + 64 word \<times> 64 word \<times> 64 word" where
  "GetLatest conn b =
     chk (wrap ''failed to get latest block'' (GetBlockByFinality conn 0 Latest)) (\<lambda>latest.
     chk (wrap ''failed to get finalized block'' (GetBlockByFinality conn 1 Finalized)) (\<lambda>finalized.
     chk (if bp_generateSafe b then Inr finalized else wrap ''failed to get safe block'' (GetBlockByFinality conn 2 Safe)) (\<lambda>safe.
     Inr (of_nat (number latest), of_nat (number finalized), of_nat (number safe)))))"

section \<open>The routine\<close>

text \<open>The blocks of the last poll, the count of errors in a row, and what was sent.\<close>

record poller_state =
  ps_lastBlocks :: "NewBlock list"
  ps_errCount :: nat
  ps_sink :: "NewBlock list"
  ps_failed :: bool

text \<open>The initial blocks are published first.\<close>

definition SubscribeForBlocks :: "poll_conn \<Rightarrow> batch_poller \<Rightarrow> go_error + poller_state" where
  "SubscribeForBlocks conn b =
     chk (wrap ''failed to get initial blocks'' (getBlocks conn 0 b)) (\<lambda>lastBlocks.
     Inr \<lparr>ps_lastBlocks = lastBlocks, ps_errCount = 0,
          ps_sink = concat (map2 (sink_block b) (map snd (bp_batchData b)) lastBlocks), ps_failed = False\<rparr>)"

text \<open>A tick of the timer, or a header from the subscription to new heads, which may be nil or have no number.\<close>

datatype poller_event = Tick poll_conn | Head "NewBlock option"

definition poll_failed :: "poller_state \<Rightarrow> poller_state" where
  "poll_failed s = (let errCount = ps_errCount s + 1 in s\<lparr>ps_errCount := errCount, ps_failed := ps_failed s \<or> errCount > 3\<rparr>)"

fun poller_step :: "batch_poller \<Rightarrow> poller_event \<Rightarrow> poller_state \<Rightarrow> poller_state" where
  "poller_step b (Tick conn) s =
     (if ps_failed s then s
      else (case pollBlocks conn 0 b (ps_lastBlocks s) of
          Inl err \<Rightarrow> poll_failed s
        | Inr (sent, lastBlocks, _) \<Rightarrow> s\<lparr>ps_lastBlocks := lastBlocks, ps_errCount := 0, ps_sink := ps_sink s @ sent\<rparr>))"
| "poller_step b (Head ev) s =
     (if ps_failed s then s
      else (case ev of
          None \<Rightarrow> s
        | Some h \<Rightarrow> if nb_Number h = None then s else s\<lparr>ps_sink := ps_sink s @ [NewBlock_Copy Latest h]\<rparr>))"

section \<open>Instant finality\<close>

definition instant_head :: "NewBlock option \<Rightarrow> NewBlock list \<Rightarrow> NewBlock list" where
  "instant_head ev sink =
     (case ev of
        None \<Rightarrow> sink
      | Some h \<Rightarrow> if nb_Number h = None then sink
                 else sink @ [NewBlock_Copy Finalized h, NewBlock_Copy Safe h, NewBlock_Copy Latest h])"

definition Instant_GetLatest :: "poll_conn \<Rightarrow> go_error + 64 word \<times> 64 word \<times> 64 word" where
  "Instant_GetLatest conn =
     chk (wrap ''failed to get latest block'' (GetBlockByFinality conn 0 Latest)) (\<lambda>latest.
     Inr (of_nat (number latest), of_nat (number latest), of_nat (number latest)))"

section \<open>No gaps\<close>

text \<open>
  The node answers a request for a block by its number with that block or with nothing, and numbers fit into 64
  bits; the blocks for the tags may be any.
\<close>

definition numbers_right :: "poll_conn \<Rightarrow> bool" where
  "numbers_right conn \<longleftrightarrow> (\<forall>n ids results. conn n ids = Inr results \<longrightarrow>
     (\<forall>j k. j < length ids \<longrightarrow> ids ! j = block_id k \<longrightarrow> bm_Number (results j) \<in> {None, Some 0, Some (unat k)}) \<and>
     (\<forall>j m. bm_Number (results j) = Some m \<longrightarrow> m < 2 ^ 64))"

definition numbers :: "FinalityLevel \<Rightarrow> NewBlock list \<Rightarrow> nat list" where
  "numbers f sink = map number (filter (\<lambda>b. nb_Finality b = f) sink)"

lemma numbers_append [simp]: "numbers f (s @ t) = numbers f s @ numbers f t" "numbers f [] = []"
  by (simp_all add: numbers_def)

text \<open>
  What is sent after the block p of a finality and up to the block l: the numbers between, in order and each once;
  safe blocks come along with finalized ones when they are generated.
\<close>

definition sent_ok :: "batch_poller \<Rightarrow> FinalityLevel \<Rightarrow> nat \<Rightarrow> NewBlock list \<Rightarrow> NewBlock \<Rightarrow> bool" where
  "sent_ok b f p sent l \<longleftrightarrow> p \<le> number l \<and> number l < 2 ^ 64 \<and> numbers f sent = [p + 1..<number l + 1] \<and>
     (\<forall>g. g \<noteq> f \<longrightarrow> numbers g sent = (if bp_generateSafe b \<and> f = Finalized \<and> g = Safe then numbers f sent else []))"

lemma sent_ok_nothing: "number l = p \<Longrightarrow> p < 2 ^ 64 \<Longrightarrow> sent_ok b f p [] l"
  by (simp add: sent_ok_def)

lemma sent_ok_append: "sent_ok b f p s l \<Longrightarrow> sent_ok b f (number l) s' l' \<Longrightarrow> sent_ok b f p (s @ s') l'"
proof -
  assume "sent_ok b f p s l" "sent_ok b f (number l) s' l'"
  moreover from this have "[p + 1..<number l + 1] @ [number l + 1..<number l' + 1] = [p + 1..<number l' + 1]"
    using upt_add_eq_append [of "p + 1" "number l + 1" "number l' - number l"] by (simp add: sent_ok_def)
  ultimately show ?thesis by (simp add: sent_ok_def)
qed

lemma sent_ok_block:
  "number blk = p + 1 \<Longrightarrow> nb_Finality blk = f \<Longrightarrow> p + 1 < 2 ^ 64 \<Longrightarrow> f \<noteq> Latest \<Longrightarrow> sent_ok b f p (sink_block b f blk) blk"
  by (auto simp: sent_ok_def sink_block_def numbers_def NewBlock_Copy_def number_def)

lemma play_gap_ok:
  assumes "play_gap b f blocks l = (sent, l', e)" "number l = p" "p + length blocks < 2 ^ 64" "f \<noteq> Latest"
    and "\<forall>i<length blocks. nb_Finality (blocks ! i) = f \<and> number (blocks ! i) \<in> {0, p + 1 + i}"
  shows "sent_ok b f p sent l' \<and> (\<not> e \<longrightarrow> number l' = p + length blocks)"
  using assms
proof (induction blocks arbitrary: l p sent)
  case Nil
  then show ?case by (simp add: sent_ok_nothing)
next
  case (Cons blk blocks)
  have blk: "nb_Finality blk = f" "number blk \<in> {0, p + 1}" using Cons.prems(5) by force+
  show ?case
  proof (cases "(of_nat (number blk) :: 64 word) = 0")
    case True
    then show ?thesis using Cons.prems by (simp add: sent_ok_nothing)
  next
    case False
    then have n: "number blk = p + 1" using blk(2) by auto
    obtain sent' where g: "play_gap b f blocks blk = (sent', l', e)" "sent = sink_block b f blk @ sent'"
      using Cons.prems(1) False by (auto split: prod.splits)
    have "sent_ok b f (p + 1) sent' l' \<and> (\<not> e \<longrightarrow> number l' = p + 1 + length blocks)"
      using Cons.prems(3-5) g(1) n by (intro Cons.IH) (auto simp: nth_Cons' dest: spec [of _ "Suc _"])
    moreover have "sent_ok b f p (sink_block b f blk) blk"
      using n blk(1) Cons.prems(3,4) by (intro sent_ok_block) simp_all
    ultimately show ?thesis using sent_ok_append [of b f p _ blk] g(2) n by simp
  qed
qed

lemma getBlockRange_numbers:
  assumes "numbers_right conn" "getBlockRange conn n blockNum batchSize f = Inr blocks" "unat blockNum + unat batchSize \<le> 2 ^ 64"
  shows "length blocks = unat batchSize" "\<forall>i<length blocks. nb_Finality (blocks ! i) = f \<and> number (blocks ! i) \<in> {0, unat blockNum + i}"
proof -
  let ?ids = "map (\<lambda>idx. block_id (blockNum + of_nat idx)) [0..<unat batchSize]"
  obtain results where r: "conn n ?ids = Inr results" and b: "blocks = map (\<lambda>idx. new_block f (results idx)) [0..<unat batchSize]"
    using assms(2) by (auto simp: getBlockRange_def chk_eq_Inr)
  show "length blocks = unat batchSize" by (simp add: b)
  have "bm_Number (results i) \<in> {None, Some 0, Some (unat blockNum + i)}" if "i < unat batchSize" for i
  proof -
    have "unat blockNum + i < 2 ^ 64" using that assms(3) by linarith
    then have "unat (blockNum + of_nat i) = unat blockNum + i"
      by (simp add: unat_word_ariths unat_of_nat)
    moreover have "bm_Number (results i) \<in> {None, Some 0, Some (unat (blockNum + of_nat i))}"
      using assms(1) r that unfolding numbers_right_def by (metis (no_types, lifting) add_0 diff_zero length_map length_upt nth_map nth_upt)
    ultimately show ?thesis by simp
  qed
  then show "\<forall>i<length blocks. nb_Finality (blocks ! i) = f \<and> number (blocks ! i) \<in> {0, unat blockNum + i}"
    by (fastforce simp: b new_block_def number_def split: option.splits)
qed

lemma gap_loop_ok:
  assumes "numbers_right conn" "f \<noteq> Latest" "batch_gap_loop conn n b f blockNum newBlockNum l = (sent, l', e, n')"
    and "number l + 1 = unat blockNum" "blockNum \<le> newBlockNum"
  shows "sent_ok b f (number l) sent l' \<and> (\<not> e \<longrightarrow> number l' + 1 = unat newBlockNum)"
  using assms(3-5)
proof (induction "unat newBlockNum - unat blockNum" arbitrary: n blockNum l sent rule: less_induct)
  case less
  have l: "number l < 2 ^ 64" using less.prems(2) unat_lt64 [of blockNum] by linarith
  show ?case
  proof (cases "blockNum < newBlockNum")
    case True
    define batchSize where "batchSize = (if newBlockNum - blockNum > MaxGapBatchSize then MaxGapBatchSize else newBlockNum - blockNum)"
    note batch = gap_batch [OF True batchSize_def]
    show ?thesis
    proof (cases "getBlockRange conn n blockNum batchSize f")
      case (Inl err)
      then have "sent = [] \<and> l' = l \<and> e" using less.prems(1) True by (simp add: batch_gap_loop.simps [of conn n] batchSize_def Let_def)
      then show ?thesis using l by (simp add: sent_ok_nothing)
    next
      case (Inr blocks)
      obtain s1 l1 e1 where p: "play_gap b f blocks l = (s1, l1, e1)" by (metis prod_cases3)
      have le: "unat blockNum + unat batchSize \<le> 2 ^ 64" using batch(3) unat_lt64 [of newBlockNum] by linarith
      note r = getBlockRange_numbers [OF assms(1) Inr le]
      have "number l + length blocks < 2 ^ 64" using r(1) batch(3) less.prems(2) unat_lt64 [of newBlockNum] by linarith
      moreover have "\<forall>i<length blocks. nb_Finality (blocks ! i) = f \<and> number (blocks ! i) \<in> {0, number l + 1 + i}"
        using r(2) less.prems(2) by simp
      ultimately have s1: "sent_ok b f (number l) s1 l1" "\<not> e1 \<longrightarrow> number l1 = number l + length blocks"
        using play_gap_ok [OF p refl _ assms(2)] by auto
      show ?thesis
      proof (cases e1)
        case e1: True
        then have "sent = s1 \<and> l' = l1 \<and> e" using less.prems(1) True Inr p
          by (simp add: batch_gap_loop.simps [of conn n] batchSize_def [symmetric] Let_def)
        then show ?thesis using s1 by simp
      next
        case False
        then obtain s2 where rec: "batch_gap_loop conn (Suc n) b f (blockNum + batchSize) newBlockNum l1 = (s2, l', e, n')" "sent = s1 @ s2"
          using less.prems(1) True Inr p by (auto simp: batch_gap_loop.simps [of conn n] batchSize_def [symmetric] Let_def split: prod.splits)
        have "number l1 + 1 = unat (blockNum + batchSize)" using s1(2) False r(1) less.prems(2) batch(2) by simp
        moreover have "blockNum + batchSize \<le> newBlockNum" using batch(2,3) by (simp add: word_le_nat_alt)
        moreover have "unat newBlockNum - unat (blockNum + batchSize) < unat newBlockNum - unat blockNum" using batch by linarith
        ultimately have "sent_ok b f (number l1) s2 l' \<and> (\<not> e \<longrightarrow> number l' + 1 = unat newBlockNum)"
          using less.hyps rec(1) by blast
        then show ?thesis using sent_ok_append s1(1) rec(2) by blast
      qed
    qed
  next
    case False
    then show ?thesis using less.prems l by (simp add: batch_gap_loop.simps [of conn n] sent_ok_nothing)
  qed
qed

lemma poll_one_ok:
  assumes "numbers_right conn" "f \<noteq> Latest" "poll_one conn n b f prev new = (sent, l, n')" "number prev < 2 ^ 64" "number new < 2 ^ 64" "nb_Finality new = f"
  shows "sent_ok b f (number prev) sent l"
proof (cases "number prev < number new")
  case True
  obtain s1 l1 e n1 where g: "batch_gap_loop conn n b f (of_nat (number prev) + 1) (of_nat (number new)) prev = (s1, l1, e, n1)" by (metis prod_cases4)
  have u: "unat (of_nat (number prev) + 1 :: 64 word) = number prev + 1" "unat (of_nat (number new) :: 64 word) = number new"
    using True assms(5) by (simp_all add: unat_word_ariths unat_of_nat)
  have "sent_ok b f (number prev) s1 l1 \<and> (\<not> e \<longrightarrow> number l1 + 1 = number new)"
    using gap_loop_ok [OF assms(1,2) g] u True by (simp add: word_le_nat_alt)
  moreover from this have "\<not> e \<Longrightarrow> sent_ok b f (number l1) (sink_block b f new) new"
    using assms(2,5,6) by (intro sent_ok_block) simp_all
  ultimately show ?thesis using assms(3) True g sent_ok_append by (auto simp: poll_one_def split: if_splits)
next
  case False
  then show ?thesis using assms(3-5) by (auto simp: poll_one_def intro!: sent_ok_nothing split: if_splits)
qed

section \<open>Runs of the poller\<close>

text \<open>Where a finality stands: from a first block on everything up to the last one was sent.\<close>

definition reported :: "FinalityLevel \<Rightarrow> poller_state \<Rightarrow> nat \<Rightarrow> bool" where
  "reported f s idx \<longleftrightarrow> number (ps_lastBlocks s ! idx) < 2 ^ 64 \<and>
     (\<exists>a \<le> number (ps_lastBlocks s ! idx). numbers f (ps_sink s) = [a..<number (ps_lastBlocks s ! idx) + 1])"

definition poller_inv :: "bool \<Rightarrow> poller_state \<Rightarrow> bool" where
  "poller_inv safeSupported s \<longleftrightarrow> reported Finalized s 0 \<and>
     (if safeSupported then length (ps_lastBlocks s) = 2 \<and> reported Safe s 1
      else length (ps_lastBlocks s) = 1 \<and> numbers Safe (ps_sink s) = numbers Finalized (ps_sink s))"

lemma poller_inv_same:
  assumes "poller_inv safeSupported s" "ps_lastBlocks s' = ps_lastBlocks s"
    and "numbers Finalized (ps_sink s') = numbers Finalized (ps_sink s)" "numbers Safe (ps_sink s') = numbers Safe (ps_sink s)"
  shows "poller_inv safeSupported s'"
  using assms(1) unfolding poller_inv_def reported_def assms(2-4) .

lemma reported_first:
  "numbers f (ps_sink s) = [number (ps_lastBlocks s ! idx)] \<Longrightarrow> number (ps_lastBlocks s ! idx) < 2 ^ 64 \<Longrightarrow> reported f s idx"
  unfolding reported_def by (intro conjI exI [of _ "number (ps_lastBlocks s ! idx)"]) simp_all

lemma new_block_number: "numbers_right conn \<Longrightarrow> conn n ids = Inr results \<Longrightarrow> number (new_block f (results j)) < 2 ^ 64"
  by (auto simp: numbers_right_def new_block_def number_def split: option.splits)

lemma extend_reported:
  "a \<le> p \<Longrightarrow> sent_ok b f p sent l \<Longrightarrow> [a..<p + 1] @ numbers f sent = [a..<number l + 1]"
  using upt_add_eq_append [of a "p + 1" "number l - p"] by (simp add: sent_ok_def)

lemma poller_inv_tick:
  assumes "numbers_right conn" "poller_inv safeSupported s"
  shows "poller_inv safeSupported (poller_step (NewBatchPollConnector safeSupported) (Tick conn) s)"
proof -
  let ?b = "NewBatchPollConnector safeSupported"
  show ?thesis
  proof (cases "ps_failed s \<or> (\<exists>e. pollBlocks conn 0 ?b (ps_lastBlocks s) = Inl e)")
    case True
    then show ?thesis by (intro poller_inv_same [OF assms(2)]) (auto simp: poll_failed_def Let_def)
  next
    case False
    then obtain sent lasts n where p: "pollBlocks conn 0 ?b (ps_lastBlocks s) = Inr (sent, lasts, n)"
      by (cases "pollBlocks conn 0 ?b (ps_lastBlocks s)") auto
    have step: "poller_step ?b (Tick conn) s = s\<lparr>ps_lastBlocks := lasts, ps_errCount := 0, ps_sink := ps_sink s @ sent\<rparr>"
      using False p by simp
    obtain results where r: "conn 0 (map fst (bp_batchData ?b)) = Inr results"
      and all: "poll_all conn 1 ?b (map snd (bp_batchData ?b)) (ps_lastBlocks s)
        (map (\<lambda>idx. new_block (snd (bp_batchData ?b ! idx)) (results idx)) [0..<length (bp_batchData ?b)]) = (sent, lasts, n)"
      using p by (auto simp: pollBlocks_def getBlocks_def chk_eq_Inr guard_err_def split: if_splits)
    have new: "number (new_block f (results j)) < 2 ^ 64" "nb_Finality (new_block f (results j)) = f" for f j
      using new_block_number [OF assms(1) r] by (simp_all add: new_block_def)
    obtain a where a: "a \<le> number (ps_lastBlocks s ! 0)" "numbers Finalized (ps_sink s) = [a..<number (ps_lastBlocks s ! 0) + 1]"
        "number (ps_lastBlocks s ! 0) < 2 ^ 64"
      using assms(2) by (auto simp: poller_inv_def reported_def)
    show ?thesis
    proof (cases safeSupported)
      case True
      then obtain p0 p1 where ps: "ps_lastBlocks s = [p0, p1]"
        using assms(2) by (auto simp: poller_inv_def length_Suc_conv numeral_2_eq_2)
      obtain a' where a': "a' \<le> number p1" "numbers Safe (ps_sink s) = [a'..<number p1 + 1]" "number p1 < 2 ^ 64"
        using assms(2) True by (auto simp: poller_inv_def reported_def ps)
      obtain s0 l0 n0 where one: "poll_one conn 1 ?b Finalized p0 (new_block Finalized (results 0)) = (s0, l0, n0)" by (metis prod_cases3)
      obtain s1 l1 n1 where two: "poll_one conn n0 ?b Safe p1 (new_block Safe (results 1)) = (s1, l1, n1)" by (metis prod_cases3)
      have eq: "sent = s0 @ s1" "lasts = [l0, l1]"
        using all True one two by (simp_all add: ps NewBatchPollConnector_def upt_rec)
      have ok0: "sent_ok ?b Finalized (number p0) s0 l0" using poll_one_ok [OF assms(1) _ one] a(3) new by (simp add: ps)
      have ok1: "sent_ok ?b Safe (number p1) s1 l1" using poll_one_ok [OF assms(1) _ two] a'(3) new by simp
      have "numbers Safe s0 = []" "numbers Finalized s1 = []" "number l0 < 2 ^ 64" "number l1 < 2 ^ 64" "number p0 \<le> number l0" "number p1 \<le> number l1"
        using ok0 ok1 True by (auto simp: sent_ok_def NewBatchPollConnector_def)
      then show ?thesis
        unfolding step poller_inv_def reported_def using True a a' eq extend_reported [OF _ ok0] extend_reported [OF _ ok1]
        by (auto simp: ps intro: le_trans)
    next
      case False
      then obtain p0 where ps: "ps_lastBlocks s = [p0]"
        using assms(2) by (auto simp: poller_inv_def length_Suc_conv)
      obtain s0 l0 n0 where one: "poll_one conn 1 ?b Finalized p0 (new_block Finalized (results 0)) = (s0, l0, n0)" by (metis prod_cases3)
      have eq: "sent = s0" "lasts = [l0]" using all False one by (simp_all add: ps NewBatchPollConnector_def upt_rec)
      have ok0: "sent_ok ?b Finalized (number p0) s0 l0" using poll_one_ok [OF assms(1) _ one] a(3) new by (simp add: ps)
      have "numbers Safe s0 = numbers Finalized s0" "number l0 < 2 ^ 64" "number p0 \<le> number l0"
        using ok0 False by (auto simp: sent_ok_def NewBatchPollConnector_def)
      then show ?thesis
        unfolding step poller_inv_def reported_def using False a eq extend_reported [OF _ ok0] assms(2)
        by (auto simp: ps poller_inv_def intro: le_trans)
    qed
  qed
qed

lemma poller_inv_head: "poller_inv safeSupported s \<Longrightarrow> poller_inv safeSupported (poller_step b (Head ev) s)"
  by (rule poller_inv_same, assumption) (auto simp: numbers_def NewBlock_Copy_def split: option.splits)

lemma poller_inv_start:
  assumes "numbers_right conn" "SubscribeForBlocks conn (NewBatchPollConnector safeSupported) = Inr s"
  shows "poller_inv safeSupported s"
proof -
  let ?b = "NewBatchPollConnector safeSupported"
  obtain results where r: "conn 0 (map fst (bp_batchData ?b)) = Inr results"
    using assms(2) by (auto simp: SubscribeForBlocks_def getBlocks_def chk_eq_Inr wrap_def split: sum.splits)
  then have s: "s = (let lastBlocks = map (\<lambda>idx. new_block (snd (bp_batchData ?b ! idx)) (results idx)) [0..<length (bp_batchData ?b)] in
      \<lparr>ps_lastBlocks = lastBlocks, ps_errCount = 0,
       ps_sink = concat (map2 (sink_block ?b) (map snd (bp_batchData ?b)) lastBlocks), ps_failed = False\<rparr>)"
    using assms(2) by (simp add: SubscribeForBlocks_def getBlocks_def chk_def wrap_def Let_def)
  have "number (new_block f (results j)) < 2 ^ 64" "nb_Finality (new_block f (results j)) = f" for f j
    using new_block_number [OF assms(1) r] by (simp_all add: new_block_def)
  then show ?thesis
    by (cases safeSupported)
      (simp_all add: poller_inv_def reported_first s NewBatchPollConnector_def upt_rec sink_block_def numbers_def NewBlock_Copy_def number_def Let_def)
qed

lemma poller_inv_run:
  "poller_inv safeSupported s \<Longrightarrow> \<forall>conn. Tick conn \<in> set evs \<longrightarrow> numbers_right conn \<Longrightarrow>
     poller_inv safeSupported (fold (poller_step (NewBatchPollConnector safeSupported)) evs s)"
proof (induction evs arbitrary: s)
  case (Cons ev evs)
  then have "poller_inv safeSupported (poller_step (NewBatchPollConnector safeSupported) ev s)"
    using poller_inv_tick poller_inv_head by (cases ev) auto
  then show ?case using Cons by simp
qed simp

text \<open>
  C19. The watcher is told of every finalized and every safe block. Whatever the polls return, with errors, missing
  blocks and numbers that go back, as long as a node asked for a block by number gives that one or none, the finalized
  blocks that the batch poller has reported have consecutive numbers up to the one it remembers, and so have the safe
  blocks, which are the finalized ones where the chain has no safe blocks of its own.
\<close>

theorem poller_reports_every_block:
  assumes "SubscribeForBlocks conn0 (NewBatchPollConnector safeSupported) = Inr s0" "numbers_right conn0"
    and "\<forall>conn. Tick conn \<in> set evs \<longrightarrow> numbers_right conn"
    and "s = fold (poller_step (NewBatchPollConnector safeSupported)) evs s0"
  shows "(\<exists>a. numbers Finalized (ps_sink s) = [a..<number (ps_lastBlocks s ! 0) + 1]) \<and>
    (if safeSupported then \<exists>a. numbers Safe (ps_sink s) = [a..<number (ps_lastBlocks s ! 1) + 1]
     else numbers Safe (ps_sink s) = numbers Finalized (ps_sink s))"
  using poller_inv_run [OF poller_inv_start [OF assms(2,1)] assms(3)]
  by (auto simp: poller_inv_def reported_def assms(4) split: if_splits)

lemma hex_digit_inj: "d < 16 \<Longrightarrow> e < 16 \<Longrightarrow> hex_digit d = hex_digit e \<longleftrightarrow> d = e"
  by (metis char_hex_digit option.inject)

lemma hex_string_snoc: "16 \<le> n \<Longrightarrow> hex_string n = hex_string (n div 16) @ [hex_digit (n mod 16)]"
  by (simp add: hex_string.simps [of n])

lemma hex_string_not_Nil: "hex_string n \<noteq> []"
  by (simp add: hex_string.simps [of n])

lemma hex_string_inj: "hex_string m = hex_string n \<Longrightarrow> m = n"
proof (induction m arbitrary: n rule: less_induct)
  case (less m)
  show ?case
  proof (cases "m < 16 \<or> n < 16")
    case True
    then have "m < 16 \<and> n < 16"
      using less.prems hex_string_not_Nil [of "m div 16"] hex_string_not_Nil [of "n div 16"]
      by (auto simp: hex_string.simps [of m] hex_string.simps [of n] split: if_splits)
    then show ?thesis using less.prems by (simp add: hex_string.simps [of m] hex_string.simps [of n] hex_digit_inj)
  next
    case False
    then have "hex_string (m div 16) = hex_string (n div 16)" "m mod 16 = n mod 16"
      using less.prems by (simp_all add: hex_string_snoc hex_digit_inj)
    moreover from this have "m div 16 = n div 16" using less.IH [of "m div 16"] False by simp
    ultimately show ?thesis by (metis div_mult_mod_eq)
  qed
qed

lemma block_id_inj: "block_id m = block_id n \<longleftrightarrow> m = n"
  by (auto simp: block_id_def word_unat_eq_iff dest: hex_string_inj)

text \<open>A node whose finalized block is first 6, later 9, and which has all blocks up to it.\<close>

definition finalized_node :: "nat \<Rightarrow> poll_conn" where
  "finalized_node h n ids = Inr (\<lambda>j. \<lparr>bm_Number =
     (if j < length ids \<and> ids ! j = ''finalized'' then Some h
      else if j < length ids \<and> ids ! j = block_id 7 then Some 7
      else if j < length ids \<and> ids ! j = block_id 8 then Some 8 else None),
     bm_Hash = [], bm_Time = 0, bm_L1BlockNumber = None\<rparr>)"

lemma finalized_node_right: "h < 2 ^ 64 \<Longrightarrow> numbers_right (finalized_node h)"
proof -
  assume "h < 2 ^ 64"
  moreover have "block_id k \<noteq> ''finalized''" for k by (simp add: block_id_def)
  moreover have "block_id k = block_id 7 \<Longrightarrow> unat k = 7" "block_id k = block_id 8 \<Longrightarrow> unat k = 8" for k
    by (simp_all add: block_id_inj)
  ultimately show ?thesis by (auto simp: numbers_right_def finalized_node_def block_id_inj)
qed

definition poll_start :: poller_state where
  "poll_start = \<lparr>ps_lastBlocks = [\<lparr>nb_Number = Some 6, nb_Hash = [], nb_Time = 0, nb_L1BlockNumber = None, nb_Finality = Finalized\<rparr>],
     ps_errCount = 0,
     ps_sink = [\<lparr>nb_Number = Some 6, nb_Hash = [], nb_Time = 0, nb_L1BlockNumber = None, nb_Finality = Finalized\<rparr>,
                \<lparr>nb_Number = Some 6, nb_Hash = [], nb_Time = 0, nb_L1BlockNumber = None, nb_Finality = Safe\<rparr>], ps_failed = False\<rparr>"

lemma poll_start_subscribed: "SubscribeForBlocks (finalized_node 6) (NewBatchPollConnector False) = Inr poll_start"
  by (simp add: SubscribeForBlocks_def getBlocks_def NewBatchPollConnector_def finalized_node_def chk_def wrap_def new_block_def
    sink_block_def NewBlock_Copy_def poll_start_def)

theorem poller_reports_every_block_witness:
  "\<exists>a. numbers Finalized (ps_sink (fold (poller_step (NewBatchPollConnector False)) [Tick (finalized_node 9)] poll_start)) =
     [a..<number (ps_lastBlocks (fold (poller_step (NewBatchPollConnector False)) [Tick (finalized_node 9)] poll_start) ! 0) + 1]"
  using poller_reports_every_block [OF poll_start_subscribed finalized_node_right _ refl, of "[Tick (finalized_node 9)]"]
    finalized_node_right [of 9] by auto

end
