(* ===== verification/EvmConfig.thy ===== *)
theory EvmConfig imports EvmPoller begin

text \<open>
  The EVM chains a guardian can watch and how it connects to one: node/pkg/watchers/evm/chain_config.go, the
  connection part of watcher.go, Reobserve of reobserve.go, and Create of config.go. A table per environment has
  for each chain whether it has finalized and safe blocks and which chain id its nodes report; the watcher compares
  both with its node before it connects.

  Dialing an endpoint is an argument: an error, or what the node behind it answers (record rpc_endpoint).
\<close>

section \<open>The tables\<close>

text \<open>InstantFinality, Finalized, Safe, EvmChainID, PublicRPC and ContractAddr.\<close>

datatype EnvEntry = EnvEntry (InstantFinality: bool) (has_Finalized: bool) (has_Safe: bool) (EvmChainID: nat)
  (PublicRPC: string) (ContractAddr: string)

text \<open>The chains are numbers, of the identifiers in the source's order.\<close>

definition mainnetChainConfig :: "(ChainID \<times> EnvEntry) list" where
  "mainnetChainConfig = [
   (2, EnvEntry False True True 1
      ''https://ethereum-rpc.publicnode.com'' ''0x98f3c9e6E3fAce36bAAd05FE09d375Ef1464288B''),
   (4, EnvEntry False True True 56
      ''https://bsc-rpc.publicnode.com'' ''0x98f3c9e6E3fAce36bAAd05FE09d375Ef1464288B''),
   (5, EnvEntry False True False 137
      ''https://polygon-bor-rpc.publicnode.com'' ''0x7A4B5a56256163F07b2C80A7cA55aBE66c4ec4d7''),
   (6, EnvEntry True True True 43114
      ''https://avalanche-c-chain-rpc.publicnode.com'' ''0x54a8e5f9c4CbA08F9943965859F6c34eAF03E26c''),
   (7, EnvEntry True False False 42262
      ''https://emerald.oasis.dev/'' ''0xfe8cd454b4a1ca468b57d79c0cc77ef5b6f64585''),
   (10, EnvEntry True False False 250
      ''https://fantom-rpc.publicnode.com'' ''0x126783A6Cb203a3E35344528B26ca3a0489a1485''),
   (11, EnvEntry False True True 686
      ''https://eth-rpc-karura.aca-api.network/'' ''0xa321448d90d4e5b0A732867c18eA198e75CAC48E''),
   (12, EnvEntry False True True 787
      ''https://eth-rpc-acala.aca-api.network/'' ''0xa321448d90d4e5b0A732867c18eA198e75CAC48E''),
   (13, EnvEntry True False False 8217
      ''https://public-en.node.kaia.io'' ''0x0C21603c4f3a6387e241c0091A7EA39E43E90bb7''),
   (14, EnvEntry False True False 42220
      ''https://celo-rpc.publicnode.com'' ''0xa321448d90d4e5b0A732867c18eA198e75CAC48E''),
   (16, EnvEntry False True True 1284
      ''https://moonbeam-rpc.publicnode.com'' ''0xC8e2b0cD52Cf01b0Ce87d389Daa3d414d4cE29f3''),
   (23, EnvEntry False True True 42161
      ''https://arbitrum-one-rpc.publicnode.com'' ''0xa5f208e072434bC67592E4C49C1B991BA79BCA46''),
   (24, EnvEntry False True True 10
      ''https://optimism-rpc.publicnode.com'' ''0xEe91C335eab126dF5fDB3797EA9d6aD93aeC9722''),
   (30, EnvEntry False True True 8453
      ''https://base-rpc.publicnode.com'' ''0xbebdb6C8ddC678FfA9f8748f85C815C556Dd8ac6''),
   (34, EnvEntry False True False 534352
      ''https://scroll-rpc.publicnode.com'' ''0xbebdb6C8ddC678FfA9f8748f85C815C556Dd8ac6''),
   (35, EnvEntry False True True 5000
      ''https://mantle-rpc.publicnode.com'' ''0xbebdb6C8ddC678FfA9f8748f85C815C556Dd8ac6''),
   (36, EnvEntry False True True 81457
      ''https://blast-rpc.publicnode.com'' ''0xbebdb6C8ddC678FfA9f8748f85C815C556Dd8ac6''),
   (37, EnvEntry False True True 196
      ''https://xlayerrpc.okx.com'' ''0x194B123c5E96B9b2E49763619985790Dc241CAC0''),
   (39, EnvEntry False True True 80094
      ''https://berachain-rpc.publicnode.com'' ''0xCa1D5a146B03f6303baF59e5AD5615ae0b9d146D''),
   (40, EnvEntry False True True 1329
      ''https://evm-rpc.sei-apis.com'' ''0xCa1D5a146B03f6303baF59e5AD5615ae0b9d146D''),
   (43, EnvEntry False True True 2192
      ''https://mainnet.snaxchain.io'' ''0xc1BA3CC4bFE724A08FbbFbF64F8db196738665f4''),
   (44, EnvEntry False True True 130
      ''https://unichain-rpc.publicnode.com'' ''0xCa1D5a146B03f6303baF59e5AD5615ae0b9d146D''),
   (45, EnvEntry False True True 480
      ''https://worldchain-mainnet.g.alchemy.com/public'' ''0xcbcEe4e081464A15d8Ad5f58BB493954421eB506''),
   (46, EnvEntry False True True 57073
      ''https://rpc-qnd.inkonchain.com'' ''0xCa1D5a146B03f6303baF59e5AD5615ae0b9d146D''),
   (47, EnvEntry False True True 999
      ''https://rpc.hyperliquid.xyz/evm'' ''0x7C0faFc4384551f063e05aee704ab943b8B53aB3''),
   (50, EnvEntry False True True 31612
      ''https://jsonrpc-mezo.boar.network/'' ''0xaBf89de706B583424328B54dD05a8fC986750Da8''),
   (55, EnvEntry False True True 98866
      ''https://rpc.plume.org'' ''0xaBf89de706B583424328B54dD05a8fC986750Da8'')]"

definition testnetChainConfig :: "(ChainID \<times> EnvEntry) list" where
  "testnetChainConfig = [
   (2, EnvEntry False True True 17000
      ''https://1rpc.io/holesky'' ''0xa10f2eF61dE1f19f586ab8B6F2EbA89bACE63F7a''),
   (4, EnvEntry False True True 97
      ''https://bsc-testnet-rpc.publicnode.com'' ''0x68605AD7b15c732a30b1BbC62BE8F2A509D74b4D''),
   (5, EnvEntry False True False 80001
      '''' ''0x0CBE91CF822c73C2315FB05100C2F714765d5c20''),
   (6, EnvEntry True True True 43113
      ''https://avalanche-fuji-c-chain-rpc.publicnode.com'' ''0x7bbcE28e64B3F8b84d876Ab298393c38ad7aac4C''),
   (7, EnvEntry True False False 42261
      ''https://testnet.emerald.oasis.dev'' ''0xc1C338397ffA53a2Eb12A7038b4eeb34791F8aCb''),
   (10, EnvEntry True False False 4002
      ''https://fantom-testnet-rpc.publicnode.com'' ''0x1BB3B4119b7BA9dfad76B0545fb3F531383c3bB7''),
   (11, EnvEntry False True True 596
      ''https://eth-rpc-karura-testnet.aca-staging.network'' ''0x64fb09E405D2043ed7785a29E296C766D56F2056''),
   (12, EnvEntry False True True 597
      ''https://eth-rpc-acala-testnet.aca-staging.network'' ''0x64fb09E405D2043ed7785a29E296C766D56F2056''),
   (13, EnvEntry True False False 1001
      ''https://public-en-kairos.node.kaia.io'' ''0x1830CC6eE66c84D2F177B94D544967c774E624cA''),
   (14, EnvEntry False True True 44787
      ''https://alfajores-forno.celo-testnet.org'' ''0x88505117CA88e7dd2eC6EA1E13f0948db2D50D56''),
   (16, EnvEntry False True True 1287
      ''https://rpc.api.moonbase.moonbeam.network'' ''0xa5B7D85a8f27dd7907dc8FdC21FA5657D5E2F901''),
   (23, EnvEntry False True True 421613
      '''' ''0xC7A204bDBFe983FCD8d8E61D02b475D4073fF97e''),
   (24, EnvEntry False True True 420
      '''' ''0x6b9C8671cdDC8dEab9c719bB87cBd3e782bA6a35''),
   (30, EnvEntry False True True 84531
      '''' ''0x23908A62110e21C04F3A4e011d24F901F911744A''),
   (34, EnvEntry False True False 534351
      ''https://scroll-sepolia-rpc.publicnode.com'' ''0x055F47F1250012C6B20c436570a76e52c17Af2D5''),
   (35, EnvEntry False True True 5003
      ''https://rpc.sepolia.mantle.xyz'' ''0x376428e7f26D5867e69201b275553C45B09EE090''),
   (36, EnvEntry False True True 168587773
      ''https://sepolia.blast.io'' ''0x473e002D7add6fB67a4964F13bFd61280Ca46886''),
   (37, EnvEntry False True True 195
      ''https://xlayertestrpc.okx.com'' ''0xA31aa3FDb7aF7Db93d18DDA4e19F811342EDF780''),
   (38, EnvEntry False True False 59141
      ''https://rpc.sepolia.linea.build'' ''0x79A1027a6A159502049F10906D333EC57E95F083''),
   (39, EnvEntry False True True 80069
      ''https://bepolia.rpc.berachain.com/'' ''0xBB73cB66C26740F31d1FabDC6b7A46a038A300dd''),
   (40, EnvEntry False True True 1328
      ''https://evm-rpc-testnet.sei-apis.com/'' ''0xBB73cB66C26740F31d1FabDC6b7A46a038A300dd''),
   (43, EnvEntry False True True 13001
      ''https://testnet.snaxchain.io'' ''0xBB73cB66C26740F31d1FabDC6b7A46a038A300dd''),
   (44, EnvEntry False True True 1301
      ''https://unichain-sepolia-rpc.publicnode.com'' ''0xBB73cB66C26740F31d1FabDC6b7A46a038A300dd''),
   (45, EnvEntry False True True 4801
      ''https://worldchain-sepolia.g.alchemy.com/public'' ''0xe5E02cD12B6FcA153b0d7fF4bF55730AE7B3C93A''),
   (46, EnvEntry False True True 763373
      ''https://rpc-qnd-sepolia.inkonchain.com'' ''0xBB73cB66C26740F31d1FabDC6b7A46a038A300dd''),
   (47, EnvEntry False True True 998
      ''https://rpc.hyperliquid-testnet.xyz/evm'' ''0xBB73cB66C26740F31d1FabDC6b7A46a038A300dd''),
   (48, EnvEntry False True True 10143
      ''https://testnet-rpc.monad.xyz'' ''0xBB73cB66C26740F31d1FabDC6b7A46a038A300dd''),
   (50, EnvEntry False True True 31611
      ''https://rpc.test.mezo.org'' ''0x268557122Ffd64c85750d630b716471118F323c8''),
   (53, EnvEntry False True True 52085145
      ''https://rpc-converge-testnet-1.t.conduit.xyz'' ''0x556B259cFaCd9896B2773310080c7c3bcE90Ff01''),
   (55, EnvEntry False True True 98867
      ''https://testnet-rpc.plume.org'' ''0x81705b969cDcc6FbFde91a0C6777bE0EF3A75855''),
   (10002, EnvEntry False True True 11155111
      ''https://ethereum-sepolia-rpc.publicnode.com'' ''0x4a8bc80Ed5a4067f1CCf107057b8270E0cC11A78''),
   (10003, EnvEntry False True True 421614
      ''https://arbitrum-sepolia-rpc.publicnode.com'' ''0x6b9C8671cdDC8dEab9c719bB87cBd3e782bA6a35''),
   (10004, EnvEntry False True True 84532
      ''https://base-sepolia-rpc.publicnode.com'' ''0x79A1027a6A159502049F10906D333EC57E95F083''),
   (10005, EnvEntry False True True 11155420
      ''https://optimism-sepolia-rpc.publicnode.com'' ''0x31377888146f3253211EFEf5c676D41ECe7D58Fe''),
   (10006, EnvEntry False True True 17000
      ''https://1rpc.io/holesky'' ''0xa10f2eF61dE1f19f586ab8B6F2EbA89bACE63F7a''),
   (10007, EnvEntry False True False 80002
      ''https://polygon-amoy-bor-rpc.publicnode.com'' ''0x6b9C8671cdDC8dEab9c719bB87cBd3e782bA6a35'')]"

definition ErrInvalidEnv :: go_error where "ErrInvalidEnv = Errorf ''invalid environment''"
definition ErrNotFound :: go_error where "ErrNotFound = Errorf ''not found''"

definition SupportedInMainnet :: "ChainID \<Rightarrow> bool" where
  "SupportedInMainnet chainID \<longleftrightarrow> map_of mainnetChainConfig chainID \<noteq> None"

definition GetChainConfigMap :: "Environment \<Rightarrow> go_error + (ChainID \<times> EnvEntry) list" where
  "GetChainConfigMap env =
     (if env = MainNet then Inr mainnetChainConfig else if env = TestNet then Inr testnetChainConfig else Inl ErrInvalidEnv)"

definition config_entry :: "Environment \<Rightarrow> ChainID \<Rightarrow> go_error + EnvEntry" where
  "config_entry env chainID =
     chk (GetChainConfigMap env) (\<lambda>m. case map_of m chainID of None \<Rightarrow> Inl ErrNotFound | Some entry \<Rightarrow> Inr entry)"

definition GetFinality :: "Environment \<Rightarrow> ChainID \<Rightarrow> go_error + bool \<times> bool" where
  "GetFinality env chainID =
     (if env = UnsafeDevNet then Inr (True, True)
      else chk (config_entry env chainID) (\<lambda>entry.
        if InstantFinality entry then Inr (False, False) else Inr (has_Finalized entry, has_Safe entry)))"

definition GetEvmChainID :: "Environment \<Rightarrow> ChainID \<Rightarrow> go_error + nat" where
  "GetEvmChainID env chainID = chk (config_entry env chainID) (\<lambda>entry. Inr (EvmChainID entry))"

definition GetContractAddrString :: "Environment \<Rightarrow> ChainID \<Rightarrow> go_error + string" where
  "GetContractAddrString env chainID = chk (config_entry env chainID) (\<lambda>entry. Inr (ContractAddr entry))"

section \<open>Connecting\<close>

record rpc_endpoint =
  ep_eth_chainId :: "go_error + string"
  ep_poll :: poll_conn
  ep_conn :: evm_conn

type_synonym dialer = "string \<Rightarrow> go_error + rpc_endpoint"

text \<open>\<open>strconv.ParseUint(str, 16, 64)\<close>.\<close>

fun parse_hex_digits :: "nat \<Rightarrow> string \<Rightarrow> nat option" where
  "parse_hex_digits acc [] = Some acc"
| "parse_hex_digits acc (c # cs) = (case char_hex c of None \<Rightarrow> None | Some d \<Rightarrow> parse_hex_digits (acc * 16 + d) cs)"

definition parse_hex_uint64 :: "string \<Rightarrow> nat option" where
  "parse_hex_uint64 s = (if s = [] then None
     else case parse_hex_digits 0 s of None \<Rightarrow> None | Some n \<Rightarrow> if n < 2 ^ 64 then Some n else None)"

definition QueryEvmChainID :: "dialer \<Rightarrow> string \<Rightarrow> go_error + nat" where
  "QueryEvmChainID dial url =
     chk (wrap ''failed to connect to endpoint'' (dial url)) (\<lambda>c.
     chk (wrap ''failed to read evm chain id'' (ep_eth_chainId c)) (\<lambda>str.
     case parse_hex_uint64 (trim_0x str) of
       None \<Rightarrow> Inl (Errorf ''eth_chainId returned an invalid int'')
     | Some evmChainID \<Rightarrow> Inr evmChainID))"

text \<open>The method of the watcher reads the chain id with the same code.\<close>

definition verifyEvmChainID :: "dialer \<Rightarrow> evm_watcher \<Rightarrow> string \<Rightarrow> go_error + unit" where
  "verifyEvmChainID dial w url =
     (if ew_env w = UnsafeDevNet then Inr ()
      else
        chk (QueryEvmChainID dial url) (\<lambda>evmChainID.
        chk (wrap ''failed to look up evm chain id'' (GetEvmChainID (ew_env w) (ew_chainID w))) (\<lambda>expectedEvmChainID.
        guard_err (evmChainID \<noteq> expectedEvmChainID) (Errorf ''evm chain ID miss match''))))"

text \<open>Whether the node has a block for the tag.\<close>

definition node_supports :: "rpc_endpoint \<Rightarrow> string \<Rightarrow> bool" where
  "node_supports c tag = (case ep_poll c 0 [tag] of Inl _ \<Rightarrow> False | Inr m \<Rightarrow> bm_Number (m 0) \<noteq> None)"

text \<open>The url is that of the watcher.\<close>

definition getFinality :: "dialer \<Rightarrow> string \<Rightarrow> evm_watcher \<Rightarrow> go_error + bool \<times> bool" where
  "getFinality dial w_url w =
     chk (or_err (Errorf ''failed to get finality'') (GetFinality (ew_env w) (ew_chainID w))) (\<lambda>(finalized, safe).
     if finalized then
       chk (wrap ''failed to connect to endpoint'' (dial w_url)) (\<lambda>c.
       chk (guard_err (\<not> node_supports c ''finalized'') (Errorf ''finalized not supported by the node when it should be'')) (\<lambda>_.
       chk (guard_err (safe \<and> \<not> node_supports c ''safe'') (Errorf ''safe not supported by the node when it should be'')) (\<lambda>_.
       Inr (finalized, safe))))
     else Inr (finalized, safe))"

datatype connector = Batch_connector batch_poller | Instant_connector

definition createConnector :: "dialer \<Rightarrow> string \<Rightarrow> evm_watcher \<Rightarrow> string \<Rightarrow> go_error + connector \<times> rpc_endpoint \<times> bool \<times> bool" where
  "createConnector dial w_url w url =
     chk (wrap ''failed to determine finality'' (getFinality dial w_url w)) (\<lambda>(finalizedPollingSupported, safePollingSupported).
     chk (wrap ''dialing eth client failed'' (dial url)) (\<lambda>baseConnector.
     Inr (if finalizedPollingSupported then Batch_connector (NewBatchPollConnector safePollingSupported) else Instant_connector,
          baseConnector, finalizedPollingSupported, safePollingSupported)))"

definition connector_latest :: "connector \<Rightarrow> rpc_endpoint \<Rightarrow> go_error + 64 word \<times> 64 word \<times> 64 word" where
  "connector_latest con ep =
     (case con of Batch_connector b \<Rightarrow> GetLatest (ep_poll ep) b | Instant_connector \<Rightarrow> Instant_GetLatest (ep_poll ep))"

text \<open>A reobservation over another endpoint.\<close>

definition Reobserve :: "process_event \<Rightarrow> dialer \<Rightarrow> string \<Rightarrow> ChainID \<Rightarrow> byte list \<Rightarrow> string \<Rightarrow> evm_watcher \<Rightarrow>
    go_error + 32 word \<times> evm_watcher" where
  "Reobserve ProcessEvent dial w_url chainID txID customEndpoint w =
     chk (wrap ''failed to verify evm chain id'' (verifyEvmChainID dial w customEndpoint)) (\<lambda>_.
     chk (wrap ''failed to connect to endpoint'' (createConnector dial w_url w customEndpoint)) (\<lambda>(con, ep, _, _).
     chk (wrap ''failed to get latest blocks'' (connector_latest con ep)) (\<lambda>(_, finalized, safe).
     handleReobservationRequest ProcessEvent (ep_conn ep) chainID txID finalized safe w)))"

section \<open>The start of a watcher\<close>

record WatcherConfig =
  wc_ChainID :: ChainID
  wc_Rpc :: string
  wc_Contract :: string
  wc_GuardianSetUpdateChain :: bool
  wc_CcqBackfillCache :: bool
  wc_TxVerifierEnabled :: bool

text \<open>HexToAddress of go-ethereum is an argument.\<close>

definition WatcherConfig_Create :: "(string \<Rightarrow> eth_address) \<Rightarrow> WatcherConfig \<Rightarrow> MessagePublication channel \<Rightarrow>
    PerChainQueryResponseInternal channel \<Rightarrow> GuardianSet channel \<Rightarrow> Environment \<Rightarrow> evm_watcher" where
  "WatcherConfig_Create HexToAddress wc msgC queryResponseC setC env =
     (let setWriteC = (if wc_GuardianSetUpdateChain wc then Some setC else None) in
      NewEthWatcher (HexToAddress (wc_Contract wc)) (wc_ChainID wc) msgC setWriteC queryResponseC env
        (wc_CcqBackfillCache wc) (wc_TxVerifierEnabled wc))"

text \<open>
  The start of \<open>Run\<close> up to the routines: the chain id, the connector, the transfer verifier, which is made for the
  token bridge of the chain on the chains it supports, the timestamp cache and the first guardian set.
\<close>

definition watcher_start :: "dialer \<Rightarrow> string \<Rightarrow> (ChainID \<Rightarrow> bool) \<Rightarrow> (ChainID \<Rightarrow> go_error + eth_address) \<Rightarrow> evm_watcher \<Rightarrow>
    go_error + connector \<times> evm_watcher" where
  "watcher_start dial w_url verifier_supported verifier_for w =
     chk (wrap ''failed to verify evm chain id'' (verifyEvmChainID dial w w_url)) (\<lambda>_.
     chk (wrap ''failed to create connection to url'' (createConnector dial w_url w w_url)) (\<lambda>(con, ep, _, _).
     chk (if ew_txVerifierEnabled w then
            chk (guard_err (\<not> verifier_supported (ew_chainID w)) (Errorf ''watcher attempted to create Transfer Verifier but this chainId is not supported'')) (\<lambda>_.
            chk (wrap ''failed to create Transfer Verifier instance'' (verifier_for (ew_chainID w))) (\<lambda>tb.
            Inr (w\<lparr>ew_txVerifier := Some tb\<rparr>)))
          else Inr w) (\<lambda>w.
     let w = (if cfg_TimestampCacheSupported (ew_ccqConfig w)
              then w\<lparr>ew_ccqTimestampCache := Some (NewBlocksByTimestamp BTS_MAX_BLOCKS (ew_env w = UnsafeDevNet))\<rparr> else w) in
     chk (or_err (Errorf ''failed to request guardian set'') (fetchAndUpdateGuardianSet (ep_conn ep) w)) (\<lambda>w.
     Inr (con, w)))))"

section \<open>What is right with the tables and the start\<close>

definition config_ok :: "(ChainID \<times> EnvEntry) list \<Rightarrow> bool" where
  "config_ok m \<longleftrightarrow> distinct (map fst m) \<and>
     list_all (\<lambda>(_, e). (InstantFinality e \<or> has_Finalized e) \<and> (has_Safe e \<longrightarrow> has_Finalized e) \<and>
       take 2 (ContractAddr e) = ''0x'' \<and> length (ContractAddr e) = 42) m"

text \<open>
  No chain is listed twice, each has a source of finality, none has safe blocks without finalized ones, which the
  watcher does not support, and every contract address has the length of one.
\<close>

lemma chain_tables_ok: "config_ok mainnetChainConfig" "config_ok testnetChainConfig"
  by (simp_all add: config_ok_def mainnetChainConfig_def testnetChainConfig_def)

lemma mainnet_ethereum:
  "config_entry MainNet 2 = Inr (EnvEntry False True True 1 ''https://ethereum-rpc.publicnode.com'' ''0x98f3c9e6E3fAce36bAAd05FE09d375Ef1464288B'')"
  by (simp add: config_entry_def GetChainConfigMap_def chk_def mainnetChainConfig_def)

lemma verifyEvmChainID_ok:
  "verifyEvmChainID dial w url = Inr () \<Longrightarrow> ew_env w \<noteq> UnsafeDevNet \<Longrightarrow>
     \<exists>entry. config_entry (ew_env w) (ew_chainID w) = Inr entry \<and> QueryEvmChainID dial url = Inr (EvmChainID entry)"
  by (auto simp: verifyEvmChainID_def GetEvmChainID_def chk_eq_Inr wrap_def guard_err_def split: if_splits sum.splits)

text \<open>
  A watcher only starts on the chain it is configured for. Outside of a development network, a start succeeds
  only for a chain of the environment's table, on a node that reports the chain id of the table; it polls for
  finalized blocks exactly when the table has them and no instant finality, and then the node has given one.
\<close>

lemma start_on_configured_chain:
  assumes "watcher_start dial w_url verifier_supported verifier_for w = Inr (con, w')" "ew_env w \<noteq> UnsafeDevNet"
  shows "\<exists>entry. config_entry (ew_env w) (ew_chainID w) = Inr entry \<and> QueryEvmChainID dial w_url = Inr (EvmChainID entry) \<and>
    (if InstantFinality entry \<or> \<not> has_Finalized entry then con = Instant_connector
     else con = Batch_connector (NewBatchPollConnector (has_Safe entry)) \<and>
       (\<exists>c. dial w_url = Inr c \<and> node_supports c ''finalized'' \<and> (has_Safe entry \<longrightarrow> node_supports c ''safe'')))"
proof -
  obtain ep f s where v: "verifyEvmChainID dial w w_url = Inr ()" and c: "createConnector dial w_url w w_url = Inr (con, ep, f, s)"
    using assms(1) by (auto simp: watcher_start_def chk_eq_Inr wrap_def split: sum.splits)
  obtain entry where e: "config_entry (ew_env w) (ew_chainID w) = Inr entry" "QueryEvmChainID dial w_url = Inr (EvmChainID entry)"
    using verifyEvmChainID_ok [OF v assms(2)] by blast
  have fin: "GetFinality (ew_env w) (ew_chainID w) = Inr (if InstantFinality entry then (False, False) else (has_Finalized entry, has_Safe entry))"
    using e(1) assms(2) by (simp add: GetFinality_def chk_def)
  show ?thesis
    using c fin e by (auto simp: createConnector_def getFinality_def chk_eq_Inr wrap_def or_err_def guard_err_def split: sum.splits if_splits)
qed

definition toy_endpoint :: rpc_endpoint where
  "toy_endpoint = \<lparr>ep_eth_chainId = Inr ''0x1'', ep_poll = (\<lambda>_ _. Inr (\<lambda>_. \<lparr>bm_Number = Some 9, bm_Hash = [], bm_Time = 0, bm_L1BlockNumber = None\<rparr>)),
     ep_conn = sample_conn\<rparr>"

definition toy_dial :: dialer where
  "toy_dial url = (if url = ''ws://other'' then Inr toy_endpoint else Inl (Errorf ''connection refused''))"

lemma toy_start:
  "watcher_start toy_dial ''ws://other'' (\<lambda>_. False) (\<lambda>_. Inl EOF) sample_watcher =
     Inr (Batch_connector (NewBatchPollConnector True),
       sample_watcher\<lparr>ew_ccqTimestampCache := Some (NewBlocksByTimestamp BTS_MAX_BLOCKS False), ew_currentGuardianSet := Some 0\<rparr>)"
proof -
  have id: "parse_hex_uint64 (trim_0x ''0x1'') = Some 1" by (simp add: parse_hex_uint64_def trim_0x_def char_hex_def)
  have cache: "cfg_TimestampCacheSupported (GetPerChainConfig 2)" by (simp add: GetPerChainConfig_def perChainConfig_def)
  show ?thesis
    by (simp add: watcher_start_def verifyEvmChainID_def QueryEvmChainID_def toy_dial_def toy_endpoint_def chk_def wrap_def id GetEvmChainID_def
      mainnet_ethereum guard_err_def createConnector_def getFinality_def GetFinality_def or_err_def node_supports_def sample_watcher_def NewEthWatcher_def
      cache fetchAndUpdateGuardianSet_def fetchCurrentGuardianSet_def sample_conn_def Let_def)
qed

theorem start_on_configured_chain_witness:
  "\<exists>entry. config_entry MainNet 2 = Inr entry \<and> QueryEvmChainID toy_dial ''ws://other'' = Inr (EvmChainID entry)"
  using start_on_configured_chain [OF toy_start] by (auto simp: sample_watcher_def NewEthWatcher_def)

text \<open>
  Another endpoint does not help when the watcher's own is down. A reobservation request names an endpoint to be
  used instead of the watcher's, but whether finalized blocks are supported is asked of the watcher's own one: while
  that cannot be reached, the request fails, whatever the other endpoint answers.
\<close>

lemma reobserve_needs_own_endpoint:
  assumes "dial w_url = Inl e" "GetFinality (ew_env w) (ew_chainID w) = Inr (True, safe)"
  shows "\<exists>err. Reobserve ProcessEvent dial w_url chainID txID customEndpoint w = Inl err"
proof -
  have "\<exists>err. createConnector dial w_url w customEndpoint = Inl err"
    using assms by (simp add: createConnector_def getFinality_def chk_def wrap_def or_err_def)
  then show ?thesis
    by (cases "verifyEvmChainID dial w customEndpoint") (auto simp: Reobserve_def chk_def wrap_def)
qed

theorem reobserve_needs_own_endpoint_witness:
  "\<exists>err. Reobserve (\<lambda>_ _. True) toy_dial ''ws://mine'' 2 (replicate 32 5) ''ws://other'' sample_watcher = Inl err"
proof (rule reobserve_needs_own_endpoint)
  show "toy_dial ''ws://mine'' = Inl (Errorf ''connection refused'')" by (simp add: toy_dial_def)
  have "GetFinality MainNet 2 = Inr (True, True)" by (simp add: GetFinality_def mainnet_ethereum chk_def)
  then show "GetFinality (ew_env sample_watcher) (ew_chainID sample_watcher) = Inr (True, True)"
    by (simp add: sample_watcher_def NewEthWatcher_def)
qed

text \<open>The same request succeeds when the watcher's own endpoint can be reached.\<close>

lemma reobserve_with_own_endpoint:
  "\<exists>w'. Reobserve (\<lambda>_ _. True) toy_dial ''ws://other'' 2 (replicate 32 5) ''ws://other'' sample_watcher = Inr (1, w')"
proof -
  have id: "parse_hex_uint64 (trim_0x ''0x1'') = Some 1" by (simp add: parse_hex_uint64_def trim_0x_def char_hex_def)
  show ?thesis
    by (simp add: Reobserve_def verifyEvmChainID_def QueryEvmChainID_def toy_dial_def toy_endpoint_def chk_def wrap_def id GetEvmChainID_def
      mainnet_ethereum guard_err_def createConnector_def getFinality_def GetFinality_def or_err_def node_supports_def sample_watcher_def NewEthWatcher_def
      connector_latest_def GetLatest_def NewBatchPollConnector_def GetBlockByFinality_def GetBlock_def new_block_def number_def
      handleReobservationRequest_def MessageEventsForTransaction_def sample_conn_def sample_receipt_def sample_log_def sample_event_def
      observed_again_def event_message_def ConsistencyLevelPublishImmediately_def ConsistencyLevelSafe_def verifyAndPublish_def Let_def)
qed

end
