(* ===== verification/TxVerifier.thy ===== *)
theory TxVerifier imports EvmConfig begin

text \<open>
  The transfer verifier of the EVM watchers: node/pkg/txverifier/evm.go, evmtypes.go and utils.go. It is asked for a
  verdict on a transaction before a message of the token bridge is published, and compares what the logs of the
  receipt say has been paid into the bridge with what its messages let out on other chains.

  Amounts are \<open>*big.Int\<close>, integers that may be nil. The functions of go-ethereum on addresses are an argument (record
  geth), and so are the answers to the calls of contracts: \<open>call n to data\<close> is the answer to the call that is made
  after n others, since the node may answer the same call differently every time. The maps that are keyed by
  \<open>addr.Hex()\<close> are keyed by the address.
\<close>

section \<open>Logs of transfers\<close>

record geth =
  BytesToAddress :: "byte list \<Rightarrow> eth_address"
  LeftPadBytes :: "byte list \<Rightarrow> nat \<Rightarrow> byte list"

definition EVM_WORD_LENGTH :: nat where "EVM_WORD_LENGTH = 32"
definition TOPICS_COUNT_TRANSFER :: nat where "TOPICS_COUNT_TRANSFER = 3"
definition TOPICS_COUNT_DEPOSIT :: nat where "TOPICS_COUNT_DEPOSIT = 2"

definition EVENTHASH_WORMHOLE_LOG_MESSAGE_PUBLISHED :: "byte list" where
  "EVENTHASH_WORMHOLE_LOG_MESSAGE_PUBLISHED = be_nat 32 0x6eb224fb001ed210e379b335e35efe88672a8ce935d981a6896b27ffdf52a3b2"

definition EVENTHASH_ERC20_TRANSFER :: "byte list" where
  "EVENTHASH_ERC20_TRANSFER = be_nat 32 0xddf252ad1be2c89b69c2b068fc378daa952ba7f163c4a11628f55a4df523b3ef"

definition EVENTHASH_WETH_DEPOSIT :: "byte list" where
  "EVENTHASH_WETH_DEPOSIT = be_nat 32 0xe1fffcc4923d04b559f4d29a8bfc6cda04eb5b0d3c460751c2402c5c5cc9109c"

definition TOKEN_BRIDGE_WRAPPED_ASSET_SIGNATURE :: "byte list" where "TOKEN_BRIDGE_WRAPPED_ASSET_SIGNATURE = [0x1f, 0xf1, 0xe2, 0x86]"
definition TOKEN_BRIDGE_IS_WRAPPED_ASSET_SIGNATURE :: "byte list" where "TOKEN_BRIDGE_IS_WRAPPED_ASSET_SIGNATURE = [0x1a, 0x2b, 0xe4, 0xda]"
definition ERC20_DECIMALS_SIGNATURE :: "byte list" where "ERC20_DECIMALS_SIGNATURE = [0x31, 0x3c, 0xe5, 0x67]"
definition WRAPPED_ERC20_CHAIN_ID_SIGNATURE :: "byte list" where "WRAPPED_ERC20_CHAIN_ID_SIGNATURE = [0x9a, 0x8a, 0x05, 0x92]"

definition ZERO_ADDRESS :: "geth \<Rightarrow> eth_address" where "ZERO_ADDRESS G = BytesToAddress G [0]"
definition VAAAddrFrom :: "geth \<Rightarrow> eth_address \<Rightarrow> Address" where "VAAAddrFrom G gethAddr = LeftPadBytes G gethAddr EVM_WORD_LENGTH"
definition ZERO_ADDRESS_VAA :: "geth \<Rightarrow> Address" where "ZERO_ADDRESS_VAA G = VAAAddrFrom G (ZERO_ADDRESS G)"

text \<open>\<open>Cmp(a, b) == 0\<close>.\<close>

definition Cmp_eq :: "geth \<Rightarrow> byte list \<Rightarrow> byte list \<Rightarrow> bool" where
  "Cmp_eq G a b \<longleftrightarrow> LeftPadBytes G a EVM_WORD_LENGTH = LeftPadBytes G b EVM_WORD_LENGTH"

record TVAddresses =
  CoreBridgeAddr :: eth_address
  TokenBridgeAddr :: eth_address
  WrappedNativeAddr :: eth_address

record NativeDeposit =
  nd_TokenAddress :: eth_address
  nd_TokenChain :: ChainID
  nd_Receiver :: eth_address
  nd_Amount :: "int option"

record ERC20Transfer =
  et_TokenAddress :: eth_address
  et_TokenChain :: ChainID
  et_From :: eth_address
  et_To :: eth_address
  et_Amount :: "int option"

record TransferDetails =
  td_PayloadType :: byte
  td_Amount :: "int option"
  td_AmountRaw :: "int option"
  td_TokenChain :: ChainID
  td_OriginAddress :: eth_address
  td_OriginAddressRaw :: "byte list"
  td_TargetAddress :: Address

text \<open>\<open>LogMessagePublished\<close> of the verifier; the event of the contract has this name in EvmWatcher.\<close>

record TVMessage =
  tm_EventEmitter :: eth_address
  tm_MsgSender :: eth_address
  tm_TransferDetails :: "TransferDetails option"

definition TransferTokens :: byte where "TransferTokens = 1"
definition TransferTokensWithPayload :: byte where "TransferTokensWithPayload = 3"

definition is_transfer_type :: "byte \<Rightarrow> bool" where
  "is_transfer_type t \<longleftrightarrow> \<not> (t \<noteq> TransferTokens \<and> t \<noteq> TransferTokensWithPayload)"

text \<open>The interface \<open>TransferLog\<close> with the types that implement it.\<close>

datatype TransferLog = Deposit NativeDeposit | Transfer20 ERC20Transfer | Published TVMessage

fun TransferAmount :: "TransferLog \<Rightarrow> int option" where
  "TransferAmount (Deposit d) = nd_Amount d"
| "TransferAmount (Transfer20 t) = et_Amount t"
| "TransferAmount (Published l) = (case tm_TransferDetails l of None \<Rightarrow> None | Some td \<Rightarrow> td_Amount td)"

fun Sender :: "geth \<Rightarrow> TransferLog \<Rightarrow> Address" where
  "Sender G (Deposit d) = ZERO_ADDRESS_VAA G"
| "Sender G (Transfer20 t) = VAAAddrFrom G (et_From t)"
| "Sender G (Published l) = VAAAddrFrom G (tm_MsgSender l)"

definition zero_vaa_address :: Address where "zero_vaa_address = replicate 32 0"

fun Destination :: "geth \<Rightarrow> TransferLog \<Rightarrow> Address" where
  "Destination G (Deposit d) = VAAAddrFrom G (nd_Receiver d)"
| "Destination G (Transfer20 t) = VAAAddrFrom G (et_To t)"
| "Destination G (Published l) = (case tm_TransferDetails l of None \<Rightarrow> zero_vaa_address | Some td \<Rightarrow> td_TargetAddress td)"

fun Emitter :: "TransferLog \<Rightarrow> eth_address" where
  "Emitter (Deposit d) = nd_TokenAddress d"
| "Emitter (Transfer20 t) = et_TokenAddress t"
| "Emitter (Published l) = tm_EventEmitter l"

fun OriginChain :: "TransferLog \<Rightarrow> ChainID" where
  "OriginChain (Deposit d) = nd_TokenChain d"
| "OriginChain (Transfer20 t) = et_TokenChain t"
| "OriginChain (Published l) = (case tm_TransferDetails l of None \<Rightarrow> 0 | Some td \<Rightarrow> td_TokenChain td)"

fun OriginAddress :: "geth \<Rightarrow> TransferLog \<Rightarrow> Address" where
  "OriginAddress G (Deposit d) = VAAAddrFrom G (nd_TokenAddress d)"
| "OriginAddress G (Transfer20 t) = VAAAddrFrom G (et_TokenAddress t)"
| "OriginAddress G (Published l) =
     (case tm_TransferDetails l of None \<Rightarrow> zero_vaa_address | Some td \<Rightarrow> VAAAddrFrom G (td_OriginAddress td))"

section \<open>From logs to transfers\<close>

definition parseWNativeDepositEvent :: "geth \<Rightarrow> byte list list \<Rightarrow> byte list \<Rightarrow> eth_address \<times> int option" where
  "parseWNativeDepositEvent G logTopics logData =
     (if length logData \<noteq> EVM_WORD_LENGTH \<or> length logTopics \<noteq> TOPICS_COUNT_DEPOSIT then (replicate 20 0, None)
      else (BytesToAddress G (logTopics ! 1), Some (int (nat_of_be logData))))"

definition DepositFromLog :: "geth \<Rightarrow> evm_log \<Rightarrow> ChainID \<Rightarrow> go_error + NativeDeposit" where
  "DepositFromLog G log chainId =
     (case parseWNativeDepositEvent G (log_Topics log) (log_Data log) of (dest, amount) \<Rightarrow>
        if amount = None then Inl (Errorf ''could not parse Deposit from log'')
        else Inr \<lparr>nd_TokenAddress = log_Address log, nd_TokenChain = chainId, nd_Receiver = dest, nd_Amount = amount\<rparr>)"

definition parseERC20TransferEvent :: "geth \<Rightarrow> byte list list \<Rightarrow> byte list \<Rightarrow> eth_address \<times> eth_address \<times> int option" where
  "parseERC20TransferEvent G logTopics logData =
     (if length logData \<noteq> EVM_WORD_LENGTH \<or> length logTopics \<noteq> TOPICS_COUNT_TRANSFER then (replicate 20 0, replicate 20 0, None)
      else (BytesToAddress G (logTopics ! 1), BytesToAddress G (logTopics ! 2), Some (int (nat_of_be logData))))"

definition ERC20TransferFromLog :: "geth \<Rightarrow> evm_log \<Rightarrow> ChainID \<Rightarrow> go_error + ERC20Transfer" where
  "ERC20TransferFromLog G log chainId =
     (case parseERC20TransferEvent G (log_Topics log) (log_Data log) of (src, dest, amount) \<Rightarrow>
        if dest = ZERO_ADDRESS G \<and> src = ZERO_ADDRESS G
        then Inl (Errorf ''could not parse ERC20 Transfer from log: transfer's To and From fields are both zero'')
        else if amount = None then Inl (Errorf ''could not parse ERC20 Transfer from log: nil Amount'')
        else Inr \<lparr>et_TokenAddress = log_Address log, et_TokenChain = chainId, et_From = src, et_To = dest, et_Amount = amount\<rparr>)"

text \<open>The result is nil when the payload is not a transfer.\<close>

definition parseLogMessagePublishedPayload :: "byte list \<Rightarrow> go_error + TransferDetails option" where
  "parseLogMessagePublishedPayload data =
     (if \<not> IsTransfer data then Inr None
      else chk (wrap ''could not parse LogMessagePublished payload:'' (DecodeTransferPayloadHdr data)) (\<lambda>hdr.
        Inr (Some \<lparr>td_PayloadType = tph_Type hdr, td_Amount = None, td_AmountRaw = Some (int (tph_Amount hdr)),
          td_TokenChain = tph_OriginChain hdr, td_OriginAddress = replicate 20 0,
          td_OriginAddressRaw = tph_OriginAddress hdr, td_TargetAddress = tph_TargetAddress hdr\<rparr>)))"

record TransferReceipt =
  tr_Deposits :: "NativeDeposit list option"
  tr_Transfers :: "ERC20Transfer list option"
  tr_MessagePublications :: "TVMessage list option"

definition Validate :: "TransferReceipt \<Rightarrow> go_error + unit" where
  "Validate r =
     (if tr_Deposits r = None then Inl (Errorf ''parsed receipt's Deposits field is nil'')
      else if tr_Transfers r = None then Inl (Errorf ''parsed receipt's Transfers field is nil'')
      else case tr_MessagePublications r of
        None \<Rightarrow> Inl (Errorf ''parsed receipt's MessagePublications field is nil'')
      | Some ms \<Rightarrow> if ms = [] then Inl (Errorf ''parsed receipt has no Message Publications'') else Inr ())"

section \<open>The verifier and its calls of contracts\<close>

record tx_verifier =
  tv_Addresses :: TVAddresses
  tv_evmChainId :: "64 word"
  tv_wormholeChainId :: ChainID
  tv_processedTransactions :: "byte list \<rightharpoonup> eth_receipt"
  tv_lastBlockNumber :: "64 word"
  tv_pruneHeightDelta :: "64 word"
  tv_decimalsCache :: "eth_address \<rightharpoonup> byte"
  tv_isWrappedCache :: "eth_address \<rightharpoonup> bool"
  tv_wrappedCache :: "string \<rightharpoonup> eth_address"
  tv_nativeChainCache :: "eth_address \<rightharpoonup> ChainID"
  tv_calls :: nat

text \<open>\<open>tv_calls\<close> is not in the code: the number of calls so far, which is the index of the next answer.\<close>

definition TryWormholeChainIdFromNative :: "64 word \<Rightarrow> go_error + ChainID" where
  "TryWormholeChainIdFromNative evmChainId =
     (if evmChainId = 1 \<or> evmChainId = 1337 then Inr 2
      else if evmChainId = 11155111 then Inr 10002
      else Inl (Errorf ''Transfer Verifier does not have a registered mapping from EVM chain ID''))"

definition NewTransferVerifier :: "go_error + nat \<Rightarrow> TVAddresses \<Rightarrow> 64 word \<Rightarrow> go_error + tx_verifier" where
  "NewTransferVerifier chainIdFromClient tvAddrs pruneHeightDelta =
     chk (wrap ''failed to get chain ID'' chainIdFromClient) (\<lambda>chainIdFromClient.
     chk (wrap ''Failed to parse chainId from string returned by connector client'' (parse_uint 16 (dec_string chainIdFromClient))) (\<lambda>evmChainId.
     chk (wrap ''Could not get Wormhole chain ID from EVM chain ID'' (TryWormholeChainIdFromNative (of_nat evmChainId))) (\<lambda>wormholeChainId.
     Inr \<lparr>tv_Addresses = tvAddrs, tv_evmChainId = of_nat evmChainId, tv_wormholeChainId = wormholeChainId,
       tv_processedTransactions = Map.empty, tv_lastBlockNumber = 0, tv_pruneHeightDelta = pruneHeightDelta,
       tv_decimalsCache = Map.empty, tv_isWrappedCache = Map.empty, tv_wrappedCache = Map.empty,
       tv_nativeChainCache = Map.empty, tv_calls = 0\<rparr>)))"

text \<open>A result with the verifier after it, and what is done with it.\<close>

type_synonym 'a tv_result = "(go_error + 'a) \<times> tx_verifier"

definition then_tv :: "'a tv_result \<Rightarrow> ('a \<Rightarrow> tx_verifier \<Rightarrow> 'b tv_result) \<Rightarrow> 'b tv_result" where
  "then_tv m f = (case m of (Inl e, tv) \<Rightarrow> (Inl e, tv) | (Inr x, tv) \<Rightarrow> f x tv)"

type_synonym contract_call = "nat \<Rightarrow> eth_address \<Rightarrow> byte list \<Rightarrow> go_error + byte list"

definition CallContract :: "contract_call \<Rightarrow> eth_address \<Rightarrow> byte list \<Rightarrow> tx_verifier \<Rightarrow> byte list tv_result" where
  "CallContract call dest data tv = (call (tv_calls tv) dest data, tv\<lparr>tv_calls := Suc (tv_calls tv)\<rparr>)"

definition unwrap_calldata :: "geth \<Rightarrow> byte list \<Rightarrow> ChainID \<Rightarrow> byte list" where
  "unwrap_calldata G tokenAddress tokenChain =
     TOKEN_BRIDGE_WRAPPED_ASSET_SIGNATURE @ replicate 30 0 @ put tokenChain @ take 32 (LeftPadBytes G tokenAddress EVM_WORD_LENGTH)"

definition unwrapIfWrapped :: "geth \<Rightarrow> contract_call \<Rightarrow> byte list \<Rightarrow> ChainID \<Rightarrow> tx_verifier \<Rightarrow> eth_address tv_result" where
  "unwrapIfWrapped G call tokenAddress tokenChain tv =
     (let tokenAddressAsKey = hex_encode tokenAddress in
      case tv_wrappedCache tv tokenAddressAsKey of
        Some addr \<Rightarrow> (Inr addr, tv)
      | None \<Rightarrow>
          (case CallContract call (TokenBridgeAddr (tv_Addresses tv)) (unwrap_calldata G tokenAddress tokenChain) tv of
             (Inl _, tv) \<Rightarrow> (Inl (Errorf ''failed to get mapping for token''), tv)
           | (Inr result, tv) \<Rightarrow>
               (let tokenAddressNative = BytesToAddress G result in
                (Inr tokenAddressNative, tv\<lparr>tv_wrappedCache := (tv_wrappedCache tv)(tokenAddressAsKey \<mapsto> tokenAddressNative)\<rparr>))))"

definition chainId :: "geth \<Rightarrow> contract_call \<Rightarrow> eth_address \<Rightarrow> tx_verifier \<Rightarrow> ChainID tv_result" where
  "chainId G call addr tv =
     (if Cmp_eq G addr (ZERO_ADDRESS G) then (Inl (Errorf ''got zero address as parameter for chainId() call''), tv)
      else case tv_nativeChainCache tv addr of
        Some chainId \<Rightarrow> (Inr chainId, tv)
      | None \<Rightarrow>
          then_tv (CallContract call addr WRAPPED_ERC20_CHAIN_ID_SIGNATURE tv) (\<lambda>result tv.
          if length result < EVM_WORD_LENGTH then (Inl (Errorf ''result for chainId has insufficient length''), tv)
          else let chainID = word_of_nat (nat_of_be (take 2 result)) in
               (Inr chainID, tv\<lparr>tv_nativeChainCache := (tv_nativeChainCache tv)(addr \<mapsto> chainID)\<rparr>)))"

text \<open>Where the answer is too short, the error that is returned is nil.\<close>

definition isWrappedAsset :: "geth \<Rightarrow> contract_call \<Rightarrow> eth_address \<Rightarrow> tx_verifier \<Rightarrow> bool tv_result" where
  "isWrappedAsset G call addr tv =
     (case tv_isWrappedCache tv addr of
        Some wrapped \<Rightarrow> (Inr wrapped, tv)
      | None \<Rightarrow>
          then_tv (CallContract call (TokenBridgeAddr (tv_Addresses tv))
            (TOKEN_BRIDGE_IS_WRAPPED_ASSET_SIGNATURE @ take 32 (LeftPadBytes G addr EVM_WORD_LENGTH)) tv) (\<lambda>result tv.
          if length result < EVM_WORD_LENGTH then (Inr False, tv)
          else let wrapped = (result ! (EVM_WORD_LENGTH - 1) = 1) in
               (Inr wrapped, tv\<lparr>tv_isWrappedCache := (tv_isWrappedCache tv)(addr \<mapsto> wrapped)\<rparr>)))"

definition getDecimals :: "contract_call \<Rightarrow> eth_address \<Rightarrow> tx_verifier \<Rightarrow> byte tv_result" where
  "getDecimals call tokenAddress tv =
     (case tv_decimalsCache tv tokenAddress of
        Some decimals \<Rightarrow> (Inr decimals, tv)
      | None \<Rightarrow>
          then_tv (CallContract call tokenAddress ERC20_DECIMALS_SIGNATURE tv) (\<lambda>result tv.
          if length result < EVM_WORD_LENGTH then (Inr 0, tv)
          else let decimals = result ! (EVM_WORD_LENGTH - 1) in
               (Inr decimals, tv\<lparr>tv_decimalsCache := (tv_decimalsCache tv)(tokenAddress \<mapsto> decimals)\<rparr>)))"

definition MAX_DECIMALS :: byte where "MAX_DECIMALS = 8"

definition normalize_amount :: "int \<Rightarrow> byte \<Rightarrow> int" where
  "normalize_amount amount decimals = (if decimals > MAX_DECIMALS then amount div 10 ^ unat (decimals - 8) else amount)"

definition denormalize_amount :: "int \<Rightarrow> byte \<Rightarrow> int" where
  "denormalize_amount amount decimals = (if decimals > 8 then amount * 10 ^ unat (decimals - 8) else amount)"

text \<open>The chain on which a wrapped token was made; the address that the code returns with it is never set.\<close>

definition fetchNativeInfo :: "geth \<Rightarrow> contract_call \<Rightarrow> eth_address \<Rightarrow> ChainID \<Rightarrow> tx_verifier \<Rightarrow> ChainID tv_result" where
  "fetchNativeInfo G call tokenAddr tokenChain tv =
     (case isWrappedAsset G call tokenAddr tv of
        (Inl _, tv) \<Rightarrow> (Inl (Errorf ''could not check if asset was wrapped''), tv)
      | (Inr wrapped, tv) \<Rightarrow>
          if \<not> wrapped then (Inr 0, tv)
          else (case unwrapIfWrapped G call tokenAddr tokenChain tv of
             (Inl _, tv) \<Rightarrow> (Inl (Errorf ''error when unwrapping asset''), tv)
           | (Inr unwrapped, tv) \<Rightarrow>
               if Cmp_eq G unwrapped (ZERO_ADDRESS G)
               then (Inl (Errorf ''asset is wrapped but unwrapping gave the zero address. this is an unusual asset or there is a bug in the program''), tv)
               else (case chainId G call unwrapped tv of
                   (Inl _, tv) \<Rightarrow> (Inl (Errorf ''error when fetching chain ID''), tv)
                 | (Inr nativeChain, tv) \<Rightarrow> (Inr nativeChain, tv))))"

definition fetchLogMessageDetails :: "geth \<Rightarrow> contract_call \<Rightarrow> TransferDetails \<Rightarrow> tx_verifier \<Rightarrow> TransferDetails tv_result" where
  "fetchLogMessageDetails G call details tv =
     then_tv
       (if td_TokenChain details = tv_wormholeChainId tv then (Inr (BytesToAddress G (td_OriginAddressRaw details)), tv)
        else then_tv (unwrapIfWrapped G call (td_OriginAddressRaw details) (td_TokenChain details) tv) (\<lambda>unwrappedAddress tv.
          if Cmp_eq G unwrappedAddress (ZERO_ADDRESS G)
          then (Inl (Errorf ''unwrap call for foreign asset returned the zero address. Either token has not been registered or there is a bug in the program.''), tv)
          else (Inr unwrappedAddress, tv)))
       (\<lambda>originAddress tv.
     then_tv (getDecimals call originAddress tv) (\<lambda>decimals tv.
     case td_AmountRaw details of
       None \<Rightarrow> (Inl (Panic ''invalid memory address or nil pointer dereference''), tv)
     | Some amountRaw \<Rightarrow>
         (Inr (details\<lparr>td_OriginAddress := originAddress, td_Amount := Some (denormalize_amount amountRaw decimals)\<rparr>), tv)))"

text \<open>
  The two loops of \<open>UpdateReceiptDetails\<close>. The code writes into the transfers and messages of the receipt, which
  nobody reads after an error.
\<close>

fun update_transfers :: "geth \<Rightarrow> contract_call \<Rightarrow> ERC20Transfer list \<Rightarrow> tx_verifier \<Rightarrow> ERC20Transfer list tv_result" where
  "update_transfers G call [] tv = (Inr [], tv)"
| "update_transfers G call (t # ts) tv =
     (case fetchNativeInfo G call (et_TokenAddress t) (et_TokenChain t) tv of
        (Inl _, tv) \<Rightarrow> (Inl (Errorf ''error when fetching native info for ERC20 Transfer. Can't continue to process this receipt''), tv)
      | (Inr nativeChainID, tv) \<Rightarrow>
          let t' = (if nativeChainID \<noteq> 0 then t\<lparr>et_TokenChain := nativeChainID\<rparr> else t) in
          then_tv (update_transfers G call ts tv) (\<lambda>ts' tv. (Inr (t' # ts'), tv)))"

fun update_messages :: "geth \<Rightarrow> contract_call \<Rightarrow> TVMessage list \<Rightarrow> tx_verifier \<Rightarrow> TVMessage list tv_result" where
  "update_messages G call [] tv = (Inr [], tv)"
| "update_messages G call (m # ms) tv =
     (case tm_TransferDetails m of
        None \<Rightarrow> (Inl (Panic ''invalid memory address or nil pointer dereference''), tv)
      | Some details \<Rightarrow>
          (case fetchLogMessageDetails G call details tv of
             (Inl (Panic p), tv) \<Rightarrow> (Inl (Panic p), tv)
           | (Inl _, tv) \<Rightarrow> (Inl (Errorf ''error when populating wormhole details. cannot verify receipt''), tv)
           | (Inr newDetails, tv) \<Rightarrow>
               then_tv (update_messages G call ms tv) (\<lambda>ms' tv. (Inr (m\<lparr>tm_TransferDetails := Some newDetails\<rparr> # ms'), tv))))"

definition UpdateReceiptDetails :: "geth \<Rightarrow> contract_call \<Rightarrow> TransferReceipt option \<Rightarrow> tx_verifier \<Rightarrow> TransferReceipt tv_result" where
  "UpdateReceiptDetails G call receipt tv =
     (case receipt of
        None \<Rightarrow> (Inl (Errorf ''UpdateReceiptDetails was called with a nil Transfer Receipt''), tv)
      | Some r \<Rightarrow>
          (case Validate r of
             Inl _ \<Rightarrow> (Inl (Errorf ''ProcessReceipt was called with an invalid Transfer Receipt:''), tv)
           | Inr _ \<Rightarrow>
               then_tv (update_transfers G call (the (tr_Transfers r)) tv) (\<lambda>ts tv.
               then_tv (update_messages G call (the (tr_MessagePublications r)) tv) (\<lambda>ms tv.
               (Inr (r\<lparr>tr_Transfers := Some ts, tr_MessagePublications := Some ms\<rparr>), tv)))))"

section \<open>Parsing a receipt\<close>

text \<open>The deposits, transfers and messages so far, and the errors that are joined in \<open>receiptErr\<close>.\<close>

type_synonym parsed_logs = "NativeDeposit list \<times> ERC20Transfer list \<times> TVMessage list \<times> go_error list"

definition parse_message :: "evm_conn \<Rightarrow> tx_verifier \<Rightarrow> evm_log \<Rightarrow> go_error + (go_error + TVMessage) option" where
  "parse_message conn tv log =
     (if log_Data log = [] then Inr (Some (Inl (Errorf ''receipt data has length 0'')))
      else case ParseLogMessagePublished conn log of
        Inl parseLogErr \<Rightarrow> Inr (Some (Inl parseLogErr))
      | Inr lm \<Rightarrow>
          if lm_Payload lm = [] then Inr (Some (Inl (Errorf ''a LogMessagePayload event from the token bridge was received with a zero-sized payload'')))
          else if log_Address log \<noteq> CoreBridgeAddr (tv_Addresses tv) then Inr None
          else if length (log_Topics log) \<le> 1 then Inl (Panic ''index out of range'')
          else if log_Topics log ! 1 \<noteq> BytesToHash conn (TokenBridgeAddr (tv_Addresses tv)) then Inr None
          else (case parseLogMessagePublishedPayload (lm_Payload lm) of
                  Inl parsePayloadErr \<Rightarrow> Inr (Some (Inl parsePayloadErr))
                | Inr None \<Rightarrow> Inr None
                | Inr (Some details) \<Rightarrow>
                    Inr (Some (Inr \<lparr>tm_EventEmitter = log_Address log, tm_MsgSender = lm_Sender lm, tm_TransferDetails = Some details\<rparr>))))"

definition parse_log :: "geth \<Rightarrow> evm_conn \<Rightarrow> tx_verifier \<Rightarrow> evm_log \<Rightarrow> parsed_logs \<Rightarrow> go_error + parsed_logs" where
  "parse_log G conn tv log = (\<lambda>(deposits, transfers, msgs, errs).
     case log_Topics log of
       [] \<Rightarrow> Inr (deposits, transfers, msgs, errs)
     | topic # _ \<Rightarrow>
         if topic = EVENTHASH_WETH_DEPOSIT then
           (case DepositFromLog G log (tv_wormholeChainId tv) of
              Inl e \<Rightarrow> Inr (deposits, transfers, msgs, errs @ [e])
            | Inr d \<Rightarrow> Inr (deposits @ [d], transfers, msgs, errs))
         else if topic = EVENTHASH_ERC20_TRANSFER then
           (case ERC20TransferFromLog G log (tv_wormholeChainId tv) of
              Inl e \<Rightarrow> Inr (deposits, transfers, msgs, errs @ [e])
            | Inr t \<Rightarrow> Inr (deposits, transfers @ [t], msgs, errs))
         else if topic = EVENTHASH_WORMHOLE_LOG_MESSAGE_PUBLISHED then
           (case parse_message conn tv log of
              Inl p \<Rightarrow> Inl p
            | Inr None \<Rightarrow> Inr (deposits, transfers, msgs, errs)
            | Inr (Some (Inl e)) \<Rightarrow> Inr (deposits, transfers, msgs, errs @ [e])
            | Inr (Some (Inr m)) \<Rightarrow> Inr (deposits, transfers, msgs @ [m], errs))
         else Inr (deposits, transfers, msgs, errs))"

fun parse_logs :: "geth \<Rightarrow> evm_conn \<Rightarrow> tx_verifier \<Rightarrow> evm_log option list \<Rightarrow> parsed_logs \<Rightarrow> go_error + parsed_logs" where
  "parse_logs G conn tv [] acc = Inr acc"
| "parse_logs G conn tv (None # logs) acc = Inl (Panic ''invalid memory address or nil pointer dereference'')"
| "parse_logs G conn tv (Some log # logs) acc = chk (parse_log G conn tv log acc) (parse_logs G conn tv logs)"

text \<open>The receipt, which may be nil, and the joined errors; an empty list is the error nil.\<close>

definition ParseReceipt :: "geth \<Rightarrow> evm_conn \<Rightarrow> tx_verifier \<Rightarrow> eth_receipt option \<Rightarrow> go_error + TransferReceipt option \<times> go_error list" where
  "ParseReceipt G conn tv receipt =
     (case receipt of
        None \<Rightarrow> Inr (None, [Errorf ''receipt parameter is nil''])
      | Some rc \<Rightarrow>
          if rcpt_Status rc \<noteq> 1 then Inr (None, [Errorf ''non-success transaction status''])
          else if rcpt_Logs rc = [] then Inr (None, [Errorf ''no logs in receipt''])
          else chk (parse_logs G conn tv (rcpt_Logs rc) ([], [], [], [])) (\<lambda>(deposits, transfers, msgs, errs).
            if msgs = [] \<and> errs = [] then Inr (None, [])
            else let errs = (if msgs = [] then errs @ [Errorf ''parsed receipt but received no LogMessagePublished events''] else errs) in
                 if errs \<noteq> [] then Inr (None, errs)
                 else Inr (Some \<lparr>tr_Deposits = Some deposits, tr_Transfers = Some transfers, tr_MessagePublications = Some msgs\<rparr>, [])))"

section \<open>What goes in and what goes out\<close>

definition token_key :: "Address \<Rightarrow> ChainID \<Rightarrow> string" where
  "token_key addr chain = Address_String addr @ CHR ''-'' # dec_string (unat chain)"

text \<open>The key of a log that counts, None for one that does not. A nil pointer in it is a panic.\<close>

definition relevant :: "geth \<Rightarrow> TransferLog \<Rightarrow> TVAddresses \<Rightarrow> go_error + string option" where
  "relevant G tLog tv =
     chk (case tLog of
        Deposit log \<Rightarrow>
          Inr (\<not> (\<not> Cmp_eq G (Emitter (Deposit log)) (WrappedNativeAddr tv) \<or> \<not> Cmp_eq G (Destination G (Deposit log)) (TokenBridgeAddr tv)))
      | Transfer20 log \<Rightarrow> Inr (Cmp_eq G (Destination G (Transfer20 log)) (TokenBridgeAddr tv))
      | Published log \<Rightarrow>
          if \<not> Cmp_eq G (Emitter (Published log)) (CoreBridgeAddr tv) then Inr False
          else if \<not> Cmp_eq G (Sender G (Published log)) (TokenBridgeAddr tv) then Inr False
          else (case tm_TransferDetails log of
                  None \<Rightarrow> Inl (Panic ''invalid memory address or nil pointer dereference'')
                | Some td \<Rightarrow> Inr (is_transfer_type (td_PayloadType td))))
       (\<lambda>relevant. Inr (if relevant then Some (token_key (OriginAddress G tLog) (OriginChain tLog)) else None))"

definition validate_type :: "geth \<Rightarrow> TransferLog \<Rightarrow> go_error + unit" where
  "validate_type G tLog =
     (case tLog of
        Deposit log \<Rightarrow>
          if \<not> Cmp_eq G (Sender G (Deposit log)) (ZERO_ADDRESS_VAA G) then Inl (Errorf ''sender address for Deposit must be 0'')
          else if \<not> Cmp_eq G (Emitter (Deposit log)) (nd_TokenAddress log) then Inl (Errorf ''deposit emitter is not equal to its token address'')
          else if Cmp_eq G (Destination G (Deposit log)) (ZERO_ADDRESS_VAA G) then Inl (Errorf ''destination is not set'')
          else if Cmp_eq G (OriginAddress G (Deposit log)) (ZERO_ADDRESS_VAA G) then Inl (Errorf ''originAddress is the zero address'')
          else Inr ()
      | Transfer20 log \<Rightarrow>
          if \<not> Cmp_eq G (Emitter (Transfer20 log)) (et_TokenAddress log) then Inl (Errorf ''transfer emitter is not equal to its token address'')
          else if Cmp_eq G (OriginAddress G (Transfer20 log)) (ZERO_ADDRESS_VAA G) then Inl (Errorf ''originAddress is the zero address'')
          else Inr ()
      | Published log \<Rightarrow>
          if Cmp_eq G (Sender G (Published log)) (ZERO_ADDRESS_VAA G) then Inl (Errorf ''sender cannot be zero'')
          else if Cmp_eq G (Destination G (Published log)) (ZERO_ADDRESS_VAA G) then Inl (Errorf ''destination is not set'')
          else (case tm_TransferDetails log of
             None \<Rightarrow> Inl (Errorf ''TransferDetails cannot be nil'')
           | Some td \<Rightarrow>
               if Cmp_eq G (td_TargetAddress td) (ZERO_ADDRESS_VAA G) then Inl (Errorf ''target address cannot be zero'')
               else if td_OriginAddressRaw td = [] then Inl (Errorf ''origin address raw cannot be empty'')
               else case td_AmountRaw td of
                 None \<Rightarrow> Inl (Errorf ''amountRaw cannot be nil'')
               | Some amountRaw \<Rightarrow>
                   if amountRaw < 0 then Inl (Errorf ''amountRaw cannot be negative'')
                   else if \<not> is_transfer_type (td_PayloadType td) then Inl (Errorf ''payload type is not a transfer type'')
                   else Inr ()))"

definition validate :: "geth \<Rightarrow> TransferLog \<Rightarrow> go_error + unit" where
  "validate G tLog =
     (if Cmp_eq G (Emitter tLog) (ZERO_ADDRESS G) then Inl (Errorf ''emitter is the zero address'')
      else if OriginChain tLog = 0 then Inl (Errorf ''originChain is zero'')
      else case TransferAmount tLog of
        None \<Rightarrow> Inl (Errorf ''transfer amount is nil'')
      | Some amount \<Rightarrow>
          if amount < 0 then Inl (Errorf ''transfer amount is negative'') else validate_type G tLog)"

text \<open>The maps of a summary; the order of their entries is that of an iteration.\<close>

record ReceiptSummary =
  rs_logsProcessed :: nat
  rs_in :: "(string \<times> int) list"
  rs_out :: "(string \<times> int) list"

definition NewReceiptSummary :: ReceiptSummary where
  "NewReceiptSummary = \<lparr>rs_logsProcessed = 0, rs_in = [], rs_out = []\<rparr>"

definition upsert :: "(string \<times> int) list \<Rightarrow> string \<Rightarrow> int \<Rightarrow> (string \<times> int) list" where
  "upsert d key amount =
     (case map_of d key of None \<Rightarrow> AList.update key amount d | Some v \<Rightarrow> AList.update key (v + amount) d)"

text \<open>
  The loops over deposits and transfers, which are the same, and over the messages. The error is that which
  \<open>ProcessReceipt\<close> returns out of the loop.
\<close>

fun process_in :: "geth \<Rightarrow> TVAddresses \<Rightarrow> TransferLog list \<Rightarrow> ReceiptSummary \<Rightarrow> ReceiptSummary \<times> go_error option" where
  "process_in G A [] summary = (summary, None)"
| "process_in G A (l # ls) summary =
     (case validate G l of
        Inl validateErr \<Rightarrow> (summary, Some validateErr)
      | Inr _ \<Rightarrow> (case relevant G l A of
            Inl p \<Rightarrow> (summary, Some p)
          | Inr None \<Rightarrow> process_in G A ls summary
          | Inr (Some key) \<Rightarrow>
              if key = [] then (summary, Some (Errorf ''couldn't get key''))
              else (case TransferAmount l of
                  None \<Rightarrow> (summary, Some (Panic ''invalid memory address or nil pointer dereference''))
                | Some amount \<Rightarrow> process_in G A ls (summary\<lparr>rs_in := upsert (rs_in summary) key amount\<rparr>))))"

fun process_out :: "geth \<Rightarrow> TVAddresses \<Rightarrow> TransferLog list \<Rightarrow> ReceiptSummary \<Rightarrow> ReceiptSummary \<times> go_error option" where
  "process_out G A [] summary = (summary, None)"
| "process_out G A (l # ls) summary =
     (case validate G l of
        Inl validateErr \<Rightarrow> (summary, Some validateErr)
      | Inr _ \<Rightarrow> (case relevant G l A of
            Inl p \<Rightarrow> (summary, Some p)
          | Inr None \<Rightarrow> process_out G A ls summary
          | Inr (Some key) \<Rightarrow> (case TransferAmount l of
                None \<Rightarrow> (summary, Some (Panic ''invalid memory address or nil pointer dereference''))
              | Some amount \<Rightarrow> process_out G A ls
                  (summary\<lparr>rs_out := upsert (rs_out summary) key amount, rs_logsProcessed := Suc (rs_logsProcessed summary)\<rparr>))))"

definition check_amount :: "(string \<times> int) list \<Rightarrow> string \<times> int \<Rightarrow> go_error option" where
  "check_amount ins = (\<lambda>(key, amountOut). case map_of ins key of
       None \<Rightarrow> Some (Errorf ''invariant violated: transfer-out request for tokens that were never deposited'')
     | Some amountIn \<Rightarrow>
         if amountOut > amountIn then Some (Errorf ''invariant violated: requested amount out is larger than amount in'') else None)"

text \<open>The summary, which may be nil, and the joined errors.\<close>

definition ProcessReceipt :: "geth \<Rightarrow> TVAddresses \<Rightarrow> TransferReceipt option \<Rightarrow> ReceiptSummary option \<times> go_error list" where
  "ProcessReceipt G A receipt =
     (case receipt of
        None \<Rightarrow> (None, [Errorf ''got nil transfer receipt''])
      | Some r \<Rightarrow> (case Validate r of
          Inl invalidErr \<Rightarrow> (None, [Errorf ''ProcessReceipt was called with an invalid Transfer Receipt:'', invalidErr])
        | Inr _ \<Rightarrow>
            let summary = NewReceiptSummary; deposits = the (tr_Deposits r); transfers = the (tr_Transfers r);
                msgs = the (tr_MessagePublications r)
            in if msgs = [] then (Some summary, [Errorf ''no message publications in receipt''])
               else if deposits = [] \<and> transfers = [] then (Some summary, [Errorf ''invalid receipt: no deposits and no transfers''])
               else (case process_in G A (map Deposit deposits) summary of
                   (summary, Some err) \<Rightarrow> (Some summary, [err])
                 | (summary, None) \<Rightarrow> (case process_in G A (map Transfer20 transfers) summary of
                     (summary, Some err) \<Rightarrow> (Some summary, [err])
                   | (summary, None) \<Rightarrow> (case process_out G A (map Published msgs) summary of
                       (summary, Some err) \<Rightarrow> (Some summary, [err])
                     | (summary, None) \<Rightarrow> (Some summary, List.map_filter (check_amount (rs_in summary)) (rs_out summary)))))))"

section \<open>The verdict\<close>

definition pruneCache :: "tx_verifier \<Rightarrow> tx_verifier" where
  "pruneCache tv = tv\<lparr>tv_processedTransactions := (\<lambda>hash. case tv_processedTransactions tv hash of
     None \<Rightarrow> None
   | Some receipt \<Rightarrow>
       if of_nat (rcpt_BlockNumber receipt) < tv_lastBlockNumber tv - tv_pruneHeightDelta tv then None else Some receipt)\<rparr>"

text \<open>
  From the receipt to the verdict. The summary is printed before its error is looked at; printing a nil summary
  would be a panic.
\<close>

definition verdict_on :: "geth \<Rightarrow> evm_conn \<Rightarrow> contract_call \<Rightarrow> eth_receipt \<Rightarrow> tx_verifier \<Rightarrow> bool tv_result" where
  "verdict_on G conn call receipt tv =
     (case ParseReceipt G conn tv (Some receipt) of
        Inl p \<Rightarrow> (Inl p, tv)
      | Inr (None, parseErr) \<Rightarrow> (Inr True, tv)
      | Inr (Some transferReceipt, parseErr) \<Rightarrow>
          (case UpdateReceiptDetails G call (Some transferReceipt) tv of
             (Inl (Panic p), tv) \<Rightarrow> (Inl (Panic p), tv)
           | (Inl updateErr, tv) \<Rightarrow> (Inr True, tv)
           | (Inr transferReceipt, tv) \<Rightarrow>
               (case ProcessReceipt G (tv_Addresses tv) (Some transferReceipt) of
                  (None, processErr) \<Rightarrow> (Inl (Panic ''invalid memory address or nil pointer dereference''), tv)
                | (Some summary, processErr) \<Rightarrow>
                    if \<exists>e\<in>set processErr. \<exists>m. e = Panic m then (Inl (Panic ''invalid memory address or nil pointer dereference''), tv)
                    else (Inr (processErr = []), tv))))"

definition ProcessEvent :: "geth \<Rightarrow> evm_conn \<Rightarrow> contract_call \<Rightarrow> byte list \<Rightarrow> eth_receipt option \<Rightarrow> tx_verifier \<Rightarrow> bool tv_result" where
  "ProcessEvent G conn call txHash receipt tv =
     (let tv = pruneCache tv in
      if Cmp_eq G txHash (ZERO_ADDRESS G) then (Inr False, tv)
      else if tv_processedTransactions tv txHash \<noteq> None then (Inr True, tv)
      else (case (case receipt of Some r \<Rightarrow> (Some r, None) | None \<Rightarrow> TransactionReceipt conn txHash) of
          (_, Some txReceiptErr) \<Rightarrow> (Inr True, tv)
        | (None, None) \<Rightarrow> (Inl (Panic ''invalid memory address or nil pointer dereference''), tv)
        | (Some receipt, None) \<Rightarrow>
            verdict_on G conn call receipt
              (tv\<lparr>tv_lastBlockNumber := of_nat (rcpt_BlockNumber receipt),
                  tv_processedTransactions := (tv_processedTransactions tv)(txHash \<mapsto> receipt)\<rparr>)))"

section \<open>The chains with a verifier\<close>

definition SupportedChains :: "ChainID list" where "SupportedChains = [2, 10002, 10006]"

text \<open>The index into the result is a byte.\<close>

fun validate_chains_loop :: "nat list \<Rightarrow> byte \<Rightarrow> ChainID list \<Rightarrow> go_error + ChainID list" where
  "validate_chains_loop [] i enabled = Inr enabled"
| "validate_chains_loop (chain # input) i enabled =
     (if chain > 65535 then Inl (Errorf ''uint exceeds MaxUint16'')
      else let chainId = word_of_nat chain in
        if \<not> List.member GetAllNetworkIDs chainId then Inl (Errorf ''chainId is not a known Chain ID'')
        else if \<not> List.member SupportedChains chainId then Inl (Errorf ''chainId does not have a Transfer Verifier implementation'')
        else if unat i \<ge> length enabled then Inl (Panic ''index out of range'')
        else validate_chains_loop input (i + 1) (enabled[unat i := chainId]))"

definition ValidateChains :: "nat list \<Rightarrow> go_error + ChainID list" where
  "ValidateChains input =
     (if input = [] then Inl (Errorf ''no chain IDs provided for transfer verification'')
      else validate_chains_loop input 0 (replicate (length input) 0))"

section \<open>Sums of transfers\<close>

text \<open>Which logs count for the bridge, and the token that they move.\<close>

fun counted :: "geth \<Rightarrow> TVAddresses \<Rightarrow> TransferLog \<Rightarrow> bool" where
  "counted G A (Deposit d) \<longleftrightarrow> Cmp_eq G (nd_TokenAddress d) (WrappedNativeAddr A) \<and> Cmp_eq G (VAAAddrFrom G (nd_Receiver d)) (TokenBridgeAddr A)"
| "counted G A (Transfer20 t) \<longleftrightarrow> Cmp_eq G (VAAAddrFrom G (et_To t)) (TokenBridgeAddr A)"
| "counted G A (Published m) \<longleftrightarrow> Cmp_eq G (tm_EventEmitter m) (CoreBridgeAddr A) \<and> Cmp_eq G (VAAAddrFrom G (tm_MsgSender m)) (TokenBridgeAddr A)"

definition token_of :: "geth \<Rightarrow> TransferLog \<Rightarrow> Address \<times> ChainID" where
  "token_of G l = (OriginAddress G l, OriginChain l)"

definition total_amount :: "geth \<Rightarrow> TVAddresses \<Rightarrow> TransferLog list \<Rightarrow> Address \<times> ChainID \<Rightarrow> int" where
  "total_amount G A ls t = sum_list (map (\<lambda>l. the (TransferAmount l)) (filter (\<lambda>l. counted G A l \<and> token_of G l = t) ls))"

text \<open>Every token that is let out was paid in, and no less of it.\<close>

definition backed :: "geth \<Rightarrow> TVAddresses \<Rightarrow> TransferLog list \<Rightarrow> TransferLog list \<Rightarrow> bool" where
  "backed G A ins outs \<longleftrightarrow> list_all (\<lambda>m. counted G A m \<longrightarrow>
     list_ex (\<lambda>l. counted G A l \<and> token_of G l = token_of G m) ins \<and>
     total_amount G A outs (token_of G m) \<le> total_amount G A ins (token_of G m)) outs"

lemma dash_not_hex: "CHR ''-'' \<notin> set (Address_String a)"
proof
  assume "CHR ''-'' \<in> set (Address_String a)"
  then have "char_hex CHR ''-'' \<noteq> None"
    unfolding Address_String_def by (rule hex_encode_chars)
  then show False by (simp add: char_hex_def)
qed

lemma token_key_inj: "token_key a c = token_key b d \<longleftrightarrow> a = b \<and> c = d"
proof
  assume "token_key a c = token_key b d"
  then have "split_on CHR ''-'' (token_key a c) = split_on CHR ''-'' (token_key b d)" by simp
  then have h: "Address_String a = Address_String b"
    by (simp add: token_key_def split_on_append [OF dash_not_hex])
  moreover have "dec_string (unat c) = dec_string (unat d)"
    using \<open>token_key a c = token_key b d\<close> h by (simp add: token_key_def)
  ultimately show "a = b \<and> c = d"
    by (simp add: Address_String_def hex_encode_inj dec_string_inj unat_cancel)
qed simp

lemma token_key_of: "token_key (OriginAddress G l) (OriginChain l) = token_key (fst t) (snd t) \<longleftrightarrow> token_of G l = t"
  by (cases t) (simp add: token_of_def token_key_inj)

lemma token_key_not_Nil [simp]: "token_key a c \<noteq> []"
  by (simp add: token_key_def)

lemma validate_amount: "validate G l = Inr () \<Longrightarrow> \<exists>v. TransferAmount l = Some v \<and> 0 \<le> v"
  by (auto simp: validate_def split: if_splits option.splits)

lemma relevant_valid:
  "validate G l = Inr () \<Longrightarrow>
   relevant G l A = Inr (if counted G A l then Some (token_key (OriginAddress G l) (OriginChain l)) else None)"
  by (cases l) (auto simp: relevant_def validate_def validate_type_def is_transfer_type_def split: if_splits option.splits)

text \<open>A map of sums after more amounts.\<close>

lemma map_of_upsert:
  "map_of (upsert d key amount) = (map_of d)(key \<mapsto> (case map_of d key of None \<Rightarrow> 0 | Some v \<Rightarrow> v) + amount)"
  by (auto simp: upsert_def AList.update_conv' split: option.splits)

lemma distinct_upsert: "distinct (map fst d) \<Longrightarrow> distinct (map fst (upsert d key amount))"
  by (auto simp: upsert_def intro: AList.distinct_update split: option.splits)

definition add_sums :: "geth \<Rightarrow> TVAddresses \<Rightarrow> TransferLog list \<Rightarrow> (string \<times> int) list \<Rightarrow> (string \<times> int) list" where
  "add_sums G A ls d = fold (\<lambda>l d. if counted G A l
     then upsert d (token_key (OriginAddress G l) (OriginChain l)) (the (TransferAmount l)) else d) ls d"

lemma add_sums_simps [simp]:
  "add_sums G A [] d = d"
  "add_sums G A (l # ls) d = add_sums G A ls (if counted G A l
     then upsert d (token_key (OriginAddress G l) (OriginChain l)) (the (TransferAmount l)) else d)"
  by (simp_all add: add_sums_def)

lemma add_sums_append: "add_sums G A (ls @ ls') d = add_sums G A ls' (add_sums G A ls d)"
  by (simp add: add_sums_def)

lemma distinct_add_sums: "distinct (map fst d) \<Longrightarrow> distinct (map fst (add_sums G A ls d))"
  by (induction ls arbitrary: d) (auto intro: distinct_upsert)

lemma total_amount_simps [simp]:
  "total_amount G A [] t = 0"
  "total_amount G A (l # ls) t = (if counted G A l \<and> token_of G l = t then the (TransferAmount l) else 0) + total_amount G A ls t"
  by (simp_all add: total_amount_def)

lemma map_of_add_sums:
  "map_of (add_sums G A ls d) (token_key (fst t) (snd t)) =
    (if list_ex (\<lambda>l. counted G A l \<and> token_of G l = t) ls \<or> map_of d (token_key (fst t) (snd t)) \<noteq> None
     then Some ((case map_of d (token_key (fst t) (snd t)) of None \<Rightarrow> 0 | Some v \<Rightarrow> v) + total_amount G A ls t) else None)"
proof (cases t)
  case (Pair a c)
  show ?thesis
    unfolding Pair fst_conv snd_conv
    by (induction ls arbitrary: d) (auto simp: map_of_upsert token_key_inj token_of_def split: option.splits if_splits)
qed

lemma keys_add_sums:
  "fst ` set (add_sums G A ls d) = fst ` set d \<union> {token_key (OriginAddress G l) (OriginChain l) | l. l \<in> set ls \<and> counted G A l}"
proof (induction ls arbitrary: d)
  case (Cons l ls)
  have "fst ` set (upsert d key amount) = insert key (fst ` set d)" for key amount
    using map_of_upsert [of d key amount] by (simp add: dom_map_of_conv_image_fst [symmetric])
  with Cons show ?case by auto
qed simp

text \<open>The loops, when they get to their end.\<close>

lemma process_in_eq:
  "(\<exists>s'. process_in G A ls s = (s', None)) \<longleftrightarrow> (\<forall>l\<in>set ls. validate G l = Inr ())"
  "process_in G A ls s = (s', None) \<Longrightarrow> s' = s\<lparr>rs_in := add_sums G A ls (rs_in s)\<rparr>"
proof (induction ls arbitrary: s)
  case (Cons l ls)
  { case 1 then show ?case using Cons.IH(1)
      by (cases "validate G l") (auto simp: relevant_valid split: option.splits dest: validate_amount) }
  { case 2 then show ?case using Cons.IH(2)
      by (cases "validate G l") (fastforce simp: relevant_valid split: option.splits if_splits)+ }
qed simp_all

lemma process_out_eq:
  "(\<exists>s'. process_out G A ls s = (s', None)) \<longleftrightarrow> (\<forall>l\<in>set ls. validate G l = Inr ())"
  "process_out G A ls s = (s', None) \<Longrightarrow> rs_in s' = rs_in s \<and> rs_out s' = add_sums G A ls (rs_out s)"
proof (induction ls arbitrary: s)
  case (Cons l ls)
  { case 1 then show ?case using Cons.IH(1)
      by (cases "validate G l") (auto simp: relevant_valid split: option.splits dest: validate_amount) }
  { case 2 then show ?case using Cons.IH(2)
      by (cases "validate G l") (fastforce simp: relevant_valid split: option.splits if_splits)+ }
qed simp_all

lemma map_of_ok_iff:
  "distinct (map fst d) \<Longrightarrow> list_all P d \<longleftrightarrow> (\<forall>k\<in>fst ` set d. \<forall>v. map_of d k = Some v \<longrightarrow> P (k, v))"
  by (auto simp: list_all_iff image_iff)

lemma check_amounts_backed:
  "List.map_filter (check_amount (add_sums G A ins [])) (add_sums G A outs []) = [] \<longleftrightarrow> backed G A ins outs"
proof -
  let ?in = "add_sums G A ins []" and ?out = "add_sums G A outs []"
  have d: "distinct (map fst ?out)" by (simp add: distinct_add_sums)
  have "List.map_filter (check_amount ?in) ?out = [] \<longleftrightarrow> list_all (\<lambda>kv. check_amount ?in kv = None) ?out"
    by (auto simp: map_filter_def filter_empty_conv list_all_iff)
  also have "\<dots> \<longleftrightarrow> (\<forall>k\<in>fst ` set ?out. \<forall>v. map_of ?out k = Some v \<longrightarrow> check_amount ?in (k, v) = None)"
    by (rule map_of_ok_iff [OF d])
  also have "\<dots> \<longleftrightarrow> (\<forall>m\<in>set outs. counted G A m \<longrightarrow> (\<forall>v. map_of ?out (token_key (fst (token_of G m)) (snd (token_of G m))) = Some v \<longrightarrow>
      check_amount ?in (token_key (fst (token_of G m)) (snd (token_of G m)), v) = None))"
    unfolding keys_add_sums by (auto simp: token_of_def)
  also have "\<dots> \<longleftrightarrow> backed G A ins outs"
    unfolding backed_def list_all_iff
  proof (intro ball_cong refl imp_cong)
    fix m assume m: "m \<in> set outs" "counted G A m"
    let ?t = "token_of G m"
    have "list_ex (\<lambda>l. counted G A l \<and> token_of G l = ?t) outs" using m by (auto simp: list_ex_iff)
    then show "(\<forall>v. map_of ?out (token_key (fst ?t) (snd ?t)) = Some v \<longrightarrow> check_amount ?in (token_key (fst ?t) (snd ?t), v) = None) \<longleftrightarrow>
        list_ex (\<lambda>l. counted G A l \<and> token_of G l = ?t) ins \<and> total_amount G A outs ?t \<le> total_amount G A ins ?t"
      by (auto simp: map_of_add_sums check_amount_def)
  qed
  finally show ?thesis .
qed

text \<open>The logs of a parsed receipt, as those that pay in and those that let out.\<close>

definition logs_in :: "TransferReceipt \<Rightarrow> TransferLog list" where
  "logs_in r = map Deposit (the (tr_Deposits r)) @ map Transfer20 (the (tr_Transfers r))"

definition logs_out :: "TransferReceipt \<Rightarrow> TransferLog list" where
  "logs_out r = map Published (the (tr_MessagePublications r))"

lemma ProcessReceipt_runs:
  assumes "Validate r = Inr ()"
  shows "snd (ProcessReceipt G A (Some r)) = [] \<longleftrightarrow> logs_in r \<noteq> [] \<and>
    (\<exists>s1 s2 s3. process_in G A (map Deposit (the (tr_Deposits r))) NewReceiptSummary = (s1, None) \<and>
      process_in G A (map Transfer20 (the (tr_Transfers r))) s1 = (s2, None) \<and> process_out G A (logs_out r) s2 = (s3, None) \<and>
      List.map_filter (check_amount (rs_in s3)) (rs_out s3) = [])"
proof -
  have "the (tr_MessagePublications r) \<noteq> []"
    using assms by (auto simp: Validate_def split: if_splits option.splits)
  then show ?thesis
    by (simp add: ProcessReceipt_def assms Let_def logs_in_def logs_out_def split: prod.splits option.splits)
qed

text \<open>
  Equivalence of \<open>ProcessReceipt\<close>, which fills two maps from text keys to sums and then compares them, with
  what it is to check: it returns no error exactly when the receipt is well formed, has a message and a deposit or
  transfer, every log in it is valid, and for every token of a message that counts some log paid this token in, and
  the sum that is let out over all messages is at most the sum that was paid in.
\<close>

lemma ProcessReceipt_iff:
  assumes "Validate r = Inr ()"
  shows "snd (ProcessReceipt G A (Some r)) = [] \<longleftrightarrow>
    logs_in r \<noteq> [] \<and> (\<forall>l\<in>set (logs_in r @ logs_out r). validate G l = Inr ()) \<and> backed G A (logs_in r) (logs_out r)"
proof -
  note loops = process_in_eq [of G A] process_out_eq [of G A]
  let ?ds = "map Deposit (the (tr_Deposits r))" and ?ts = "map Transfer20 (the (tr_Transfers r))"
  have sums: "List.map_filter (check_amount (rs_in s3)) (rs_out s3) = [] \<longleftrightarrow> backed G A (logs_in r) (logs_out r)"
    if s: "process_in G A ?ds NewReceiptSummary = (s1, None)" "process_in G A ?ts s1 = (s2, None)" "process_out G A (logs_out r) s2 = (s3, None)"
    for s1 s2 s3
  proof -
    have "rs_in s3 = add_sums G A (logs_in r) []" "rs_out s3 = add_sums G A (logs_out r) []"
      using loops(2) [OF s(1)] loops(2) [OF s(2)] loops(4) [OF s(3)]
      by (simp_all add: NewReceiptSummary_def logs_in_def add_sums_append)
    then show ?thesis by (simp add: check_amounts_backed)
  qed
  have "(\<forall>l\<in>set (logs_in r @ logs_out r). validate G l = Inr ()) \<longleftrightarrow>
      (\<exists>s1 s2 s3. process_in G A ?ds NewReceiptSummary = (s1, None) \<and> process_in G A ?ts s1 = (s2, None) \<and>
        process_out G A (logs_out r) s2 = (s3, None))"
  proof -
    have "\<forall>s. (\<exists>s'. process_in G A ?ds s = (s', None)) \<longleftrightarrow> (\<forall>l\<in>set ?ds. validate G l = Inr ())"
      "\<forall>s. (\<exists>s'. process_in G A ?ts s = (s', None)) \<longleftrightarrow> (\<forall>l\<in>set ?ts. validate G l = Inr ())"
      "\<forall>s. (\<exists>s'. process_out G A (logs_out r) s = (s', None)) \<longleftrightarrow> (\<forall>l\<in>set (logs_out r). validate G l = Inr ())"
      using loops(1,3) by blast+
    then show ?thesis
      unfolding logs_in_def set_append ball_Un by blast
  qed
  then show ?thesis
    unfolding ProcessReceipt_runs [OF assms] using sums by blast
qed

section \<open>What the verdict means\<close>

definition receipt_good :: "geth \<Rightarrow> TVAddresses \<Rightarrow> TransferReceipt \<Rightarrow> bool" where
  "receipt_good G A r \<longleftrightarrow> logs_in r \<noteq> [] \<and> list_all (\<lambda>l. validate G l = Inr ()) (logs_in r @ logs_out r) \<and> backed G A (logs_in r) (logs_out r)"

text \<open>The verifier that has put a transaction on its list.\<close>

definition remember :: "byte list \<Rightarrow> eth_receipt \<Rightarrow> tx_verifier \<Rightarrow> tx_verifier" where
  "remember h rc tv = (pruneCache tv)\<lparr>tv_lastBlockNumber := of_nat (rcpt_BlockNumber rc),
     tv_processedTransactions := (tv_processedTransactions (pruneCache tv))(h \<mapsto> rc)\<rparr>"

lemma then_tv_eq_Inr: "then_tv m f = (Inr y, tv') \<longleftrightarrow> (\<exists>x tv. m = (Inr x, tv) \<and> f x tv = (Inr y, tv'))"
  by (auto simp: then_tv_def split: prod.splits sum.splits)

lemma update_messages_length: "update_messages G call ms tv = (Inr ms', tv') \<Longrightarrow> length ms' = length ms"
  by (induction ms arbitrary: tv tv' ms')
    (auto simp: then_tv_eq_Inr split: option.splits prod.splits sum.splits go_error.splits)

lemma UpdateReceiptDetails_Validate:
  assumes "UpdateReceiptDetails G call (Some r) tv = (Inr r', tv')"
  shows "Validate r' = Inr ()"
proof -
  have "Validate r = Inr ()"
    using assms by (auto simp: UpdateReceiptDetails_def split: sum.splits)
  with assms show ?thesis
    by (auto simp: UpdateReceiptDetails_def then_tv_eq_Inr Validate_def dest!: update_messages_length split: if_splits option.splits)
qed

text \<open>What the calls keep of the verifier: they write caches only.\<close>

definition same_list :: "tx_verifier \<Rightarrow> tx_verifier \<Rightarrow> bool" where
  "same_list tv tv' \<longleftrightarrow> tv_Addresses tv' = tv_Addresses tv \<and> tv_processedTransactions tv' = tv_processedTransactions tv \<and>
     tv_lastBlockNumber tv' = tv_lastBlockNumber tv \<and> tv_pruneHeightDelta tv' = tv_pruneHeightDelta tv"

lemma same_list_trans [trans]: "same_list a b \<Longrightarrow> same_list b c \<Longrightarrow> same_list a c"
  by (simp add: same_list_def)

lemma same_list_refl [simp]: "same_list a a"
  by (simp add: same_list_def)

lemma same_list_then: "same_list tv (snd m) \<Longrightarrow> (\<And>x tv. same_list tv (snd (f x tv))) \<Longrightarrow> same_list tv (snd (then_tv m f))"
  by (auto simp: then_tv_def split: prod.splits sum.splits intro: same_list_trans)

lemma same_list_call: "same_list tv (snd (CallContract call a d tv))"
  by (simp add: CallContract_def same_list_def)

lemma same_list_calls:
  "same_list tv (snd (unwrapIfWrapped G call b c tv))" "same_list tv (snd (chainId G call a tv))"
  "same_list tv (snd (isWrappedAsset G call a tv))" "same_list tv (snd (getDecimals call a tv))"
  by (auto simp: unwrapIfWrapped_def chainId_def isWrappedAsset_def getDecimals_def CallContract_def then_tv_def same_list_def Let_def
      split: option.splits sum.splits prod.splits)

lemma same_list_fetchNativeInfo: "same_list tv (snd (fetchNativeInfo G call a c tv))"
  using same_list_calls(3) [of tv G call a] same_list_calls(1) [of _ G call a c] same_list_calls(2) [of _ G call]
  by (auto simp: fetchNativeInfo_def split: sum.splits prod.splits) (metis same_list_trans snd_conv)+

lemma same_list_fetchLogMessageDetails: "same_list tv (snd (fetchLogMessageDetails G call d tv))"
  unfolding fetchLogMessageDetails_def
  by (auto intro!: same_list_then same_list_calls split: option.splits)

lemma same_list_update_transfers: "same_list tv (snd (update_transfers G call ts tv))"
proof (induction ts arbitrary: tv)
  case (Cons t ts)
  show ?case
    using same_list_fetchNativeInfo [of tv G call "et_TokenAddress t" "et_TokenChain t"] Cons
    by (auto simp: Let_def split: prod.splits sum.splits intro!: same_list_then elim!: same_list_trans)
qed simp

lemma same_list_update_messages: "same_list tv (snd (update_messages G call ms tv))"
proof (induction ms arbitrary: tv)
  case (Cons m ms)
  show ?case
    using same_list_fetchLogMessageDetails [of tv G call "the (tm_TransferDetails m)"] Cons
    by (auto split: prod.splits sum.splits option.splits go_error.splits intro!: same_list_then elim!: same_list_trans)
qed simp

lemma same_list_UpdateReceiptDetails: "same_list tv (snd (UpdateReceiptDetails G call r tv))"
  by (auto simp: UpdateReceiptDetails_def intro!: same_list_then same_list_update_transfers same_list_update_messages split: option.splits sum.splits)

lemma ParseReceipt_no_error: "ParseReceipt G conn tv rc = Inr (Some r, errs) \<Longrightarrow> errs = []"
  by (auto simp: ParseReceipt_def chk_eq_Inr Let_def split: option.splits if_splits)

lemma verdict_false_iff:
  assumes "verdict_on G conn call rc tv = (Inr ok, tv')"
  shows "\<not> ok \<longleftrightarrow> (\<exists>r r' tv2. ParseReceipt G conn tv (Some rc) = Inr (Some r, []) \<and>
    UpdateReceiptDetails G call (Some r) tv = (Inr r', tv2) \<and> \<not> receipt_good G (tv_Addresses tv) r')"
proof (cases "ParseReceipt G conn tv (Some rc)")
  case (Inr p)
  show ?thesis
  proof (cases "fst p")
    case None
    then show ?thesis using assms Inr by (cases p) (auto simp: verdict_on_def)
  next
    case (Some r)
    then have p: "ParseReceipt G conn tv (Some rc) = Inr (Some r, [])"
      using Inr ParseReceipt_no_error by (cases p) fastforce
    obtain u tv2 where u: "UpdateReceiptDetails G call (Some r) tv = (u, tv2)" by (cases "UpdateReceiptDetails G call (Some r) tv")
    have A: "tv_Addresses tv2 = tv_Addresses tv"
      using same_list_UpdateReceiptDetails [of tv G call "Some r"] by (simp add: u same_list_def)
    show ?thesis
    proof (cases u)
      case (Inl e)
      then show ?thesis using assms p u by (cases e) (auto simp: verdict_on_def)
    next
      case (Inr r')
      then have v: "Validate r' = Inr ()" using UpdateReceiptDetails_Validate u by blast
      have "ok \<longleftrightarrow> snd (ProcessReceipt G (tv_Addresses tv) (Some r')) = []"
        using assms p u Inr A by (auto simp: verdict_on_def split: prod.splits option.splits if_splits)
      then have "ok \<longleftrightarrow> receipt_good G (tv_Addresses tv) r'"
        unfolding receipt_good_def by (simp add: ProcessReceipt_iff [OF v] list_all_iff)
      then show ?thesis using p u Inr by auto
    qed
  qed
qed (use assms in \<open>auto simp: verdict_on_def\<close>)

lemma ProcessEvent_fresh:
  assumes "\<not> Cmp_eq G h (ZERO_ADDRESS G)" "tv_processedTransactions (pruneCache tv) h = None"
  shows "ProcessEvent G conn call h (Some rc) tv = verdict_on G conn call rc (remember h rc tv)"
  using assms by (simp add: ProcessEvent_def Let_def remember_def)

lemma verdict_same_list: "same_list tv (snd (verdict_on G conn call rc tv))"
  using same_list_UpdateReceiptDetails [of tv G call]
  by (auto simp: verdict_on_def split: sum.splits prod.splits option.splits go_error.splits) (metis snd_conv)+

text \<open>
  C8. The meaning of a verdict on a transaction whose receipt is given: it is False exactly when the transaction hash
  is zero, or the transaction is not on the list of those already seen, its receipt parses, the details of all its
  tokens are found, and then some log is not valid, nothing is paid in, or some token is let out that was not paid
  in, or more of it than was. In particular a transaction that passes for the first time, and of which the receipt
  and the details can be had, lets out no more of any token than it pays in.
\<close>

theorem rejected_iff:
  assumes "ProcessEvent G conn call h (Some rc) tv = (Inr ok, tv')"
  shows "\<not> ok \<longleftrightarrow> Cmp_eq G h (ZERO_ADDRESS G) \<or>
    (tv_processedTransactions (pruneCache tv) h = None \<and>
     (\<exists>r r' tv2. ParseReceipt G conn (remember h rc tv) (Some rc) = Inr (Some r, []) \<and>
        UpdateReceiptDetails G call (Some r) (remember h rc tv) = (Inr r', tv2) \<and>
        \<not> receipt_good G (tv_Addresses tv) r'))"
proof (cases "Cmp_eq G h (ZERO_ADDRESS G) \<or> tv_processedTransactions (pruneCache tv) h \<noteq> None")
  case True
  with assms show ?thesis by (auto simp: ProcessEvent_def Let_def split: if_splits)
next
  case False
  then have "verdict_on G conn call rc (remember h rc tv) = (Inr ok, tv')"
    using assms ProcessEvent_fresh by metis
  from verdict_false_iff [OF this] False show ?thesis
    by (auto simp: remember_def pruneCache_def)
qed

section \<open>Where nothing is checked\<close>

text \<open>The list keeps a transaction while its block is not old.\<close>

lemma seen_transaction:
  assumes "\<not> Cmp_eq G h (ZERO_ADDRESS G)" "tv_processedTransactions tv h = Some rc"
    "tv_lastBlockNumber tv - tv_pruneHeightDelta tv \<le> of_nat (rcpt_BlockNumber rc)"
  shows "fst (ProcessEvent G conn call h receipt tv) = Inr True"
  using assms by (simp add: ProcessEvent_def pruneCache_def Let_def not_less [symmetric])

lemma remembered:
  assumes "\<not> Cmp_eq G h (ZERO_ADDRESS G)" "tv_processedTransactions (pruneCache tv) h = None"
    "tv_pruneHeightDelta tv \<le> of_nat (rcpt_BlockNumber rc)" "ProcessEvent G conn call h (Some rc) tv = (v, tv')"
  shows "tv_processedTransactions tv' h = Some rc" "tv_lastBlockNumber tv' - tv_pruneHeightDelta tv' \<le> of_nat (rcpt_BlockNumber rc)"
proof -
  have "same_list (remember h rc tv) tv'"
    using verdict_same_list [of "remember h rc tv" G conn call rc] assms(4) by (simp add: ProcessEvent_fresh [OF assms(1,2)])
  then show "tv_processedTransactions tv' h = Some rc" "tv_lastBlockNumber tv' - tv_pruneHeightDelta tv' \<le> of_nat (rcpt_BlockNumber rc)"
    using word_sub_le [OF assms(3)] by (simp_all add: same_list_def remember_def pruneCache_def)
qed

text \<open>What the watcher asks, as an argument of its \<open>verify_msg\<close>.\<close>

definition verdict_of :: "geth \<Rightarrow> evm_conn \<Rightarrow> contract_call \<Rightarrow> tx_verifier \<Rightarrow> process_event" where
  "verdict_of G conn call tv = (\<lambda>h receipt. fst (ProcessEvent G conn call h receipt tv) = Inr True)"


text \<open>
  A log with the topic of Transfer and not exactly three topics, as every ERC-721 token and any contract that wants to
  writes it, is an error of the whole receipt.
\<close>

definition malformed_transfer :: "evm_log \<Rightarrow> bool" where
  "malformed_transfer log \<longleftrightarrow> log_Topics log \<noteq> [] \<and> hd (log_Topics log) = EVENTHASH_ERC20_TRANSFER \<and>
     length (log_Topics log) \<noteq> TOPICS_COUNT_TRANSFER"

lemma be_nat_neq: "a mod 256 ^ k \<noteq> b mod 256 ^ k \<Longrightarrow> be_nat k a \<noteq> be_nat k b"
  by (metis nat_of_be_nat)

lemma event_hashes_differ:
  "EVENTHASH_ERC20_TRANSFER \<noteq> EVENTHASH_WETH_DEPOSIT"
  "EVENTHASH_WORMHOLE_LOG_MESSAGE_PUBLISHED \<noteq> EVENTHASH_WETH_DEPOSIT"
  "EVENTHASH_WORMHOLE_LOG_MESSAGE_PUBLISHED \<noteq> EVENTHASH_ERC20_TRANSFER"
  unfolding EVENTHASH_ERC20_TRANSFER_def EVENTHASH_WETH_DEPOSIT_def EVENTHASH_WORMHOLE_LOG_MESSAGE_PUBLISHED_def
  by (rule be_nat_neq, simp)+

lemma parse_log_errs:
  assumes "parse_log G conn tv log (ds, ts, ms, errs) = Inr (ds', ts', ms', errs')"
  shows "errs \<noteq> [] \<Longrightarrow> errs' \<noteq> []" "malformed_transfer log \<Longrightarrow> errs' \<noteq> []"
  using assms event_hashes_differ(1)
  by (auto simp: parse_log_def malformed_transfer_def ERC20TransferFromLog_def parseERC20TransferEvent_def
      split: list.splits if_splits sum.splits option.splits)

lemma parse_logs_errs:
  assumes "parse_logs G conn tv logs (ds, ts, ms, errs) = Inr (ds', ts', ms', errs')"
    and "errs \<noteq> [] \<or> (\<exists>log. Some log \<in> set logs \<and> malformed_transfer log)"
  shows "errs' \<noteq> []"
  using assms
proof (induction logs arbitrary: ds ts ms errs)
  case (Cons log logs)
  from Cons.prems(1) obtain l where l: "log = Some l" by (cases log) auto
  obtain ds1 ts1 ms1 errs1 where acc: "parse_log G conn tv l (ds, ts, ms, errs) = Inr (ds1, ts1, ms1, errs1)"
      "parse_logs G conn tv logs (ds1, ts1, ms1, errs1) = Inr (ds', ts', ms', errs')"
    using Cons.prems(1) l by (auto simp: chk_eq_Inr)
  have "errs1 \<noteq> [] \<or> (\<exists>log. Some log \<in> set logs \<and> malformed_transfer log)"
    using Cons.prems(2) parse_log_errs [OF acc(1)] l by auto
  from Cons.IH [OF acc(2) this] show ?case .
qed simp

lemma ParseReceipt_malformed:
  assumes "ParseReceipt G conn tv (Some rc) = Inr (r, errs)" "Some log \<in> set (rcpt_Logs rc)" "malformed_transfer log"
  shows "r = None"
  using assms parse_logs_errs [of G conn tv "rcpt_Logs rc" "[]" "[]" "[]" "[]"]
  by (auto simp: ParseReceipt_def chk_eq_Inr Let_def split: if_splits)

lemma malformed_log_passes:
  assumes "ProcessEvent G conn call h (Some rc) tv = (Inr ok, tv')" "\<not> Cmp_eq G h (ZERO_ADDRESS G)"
    and "Some log \<in> set (rcpt_Logs rc)" "malformed_transfer log"
  shows "ok"
proof (cases "tv_processedTransactions (pruneCache tv) h")
  case None
  have "verdict_on G conn call rc (remember h rc tv) = (Inr ok, tv')"
    using assms(1) ProcessEvent_fresh [OF assms(2) None] by metis
  from verdict_false_iff [OF this] ParseReceipt_malformed [OF _ assms(3,4)] show ?thesis by fastforce
next
  case (Some rc')
  then show ?thesis using assms(1,2) by (auto simp: ProcessEvent_def Let_def)
qed

text \<open>
  \<open>chainId\<close> reads the first two bytes of the answer. By the ABI a uint16 stands in the last two of 32 bytes, so that
  every token is taken for one of chain 0, and a transfer of a wrapped token keeps the chain of the watcher.
\<close>

lemma chainId_of_abi_answer:
  assumes "call (tv_calls tv) addr WRAPPED_ERC20_CHAIN_ID_SIGNATURE = Inr (replicate 30 0 @ put (c :: ChainID))"
    "\<not> Cmp_eq G addr (ZERO_ADDRESS G)" "tv_nativeChainCache tv addr = None"
  shows "fst (chainId G call addr tv) = Inr 0"
  using assms by (simp add: chainId_def CallContract_def then_tv_def EVM_WORD_LENGTH_def Let_def nat_of_be_def numeral_2_eq_2)

text \<open>
  The transfer of a wrapped token stops the check: the bridge is asked under which address it holds the local address of
  the token, as if that were its address on the chain it comes from, and it does not hold it.
\<close>

lemma wrapped_transfer_skips:
  assumes "tv_isWrappedCache tv (et_TokenAddress t) = Some True" "tv_wrappedCache tv (hex_encode (et_TokenAddress t)) = None"
    and "call (tv_calls tv) (TokenBridgeAddr (tv_Addresses tv)) (unwrap_calldata G (et_TokenAddress t) (et_TokenChain t)) = Inr answer"
    and "BytesToAddress G answer = ZERO_ADDRESS G"
  shows "\<exists>e tv'. update_transfers G call (t # ts) tv = (Inl (Errorf e), tv')"
  using assms
  by (simp add: fetchNativeInfo_def isWrappedAsset_def unwrapIfWrapped_def CallContract_def Let_def Cmp_eq_def)

section \<open>Which chains can be verified\<close>

text \<open>
  Error behaviour of the start: a verifier can only be made on the chains with EVM chain ids 1 and 1337. The id is
  parsed as a number of 16 bits, which that of Sepolia (11155111) is not, although \<open>TryWormholeChainIdFromNative\<close> has
  a case for it; and Holesky (17000) is a supported chain but not in that function. With the verifier enabled on one of
  these chains the watcher does not start.
\<close>

lemma NewTransferVerifier_iff:
  "(\<exists>tv. NewTransferVerifier answer tvAddrs delta = Inr tv) \<longleftrightarrow> answer = Inr 1 \<or> answer = Inr 1337"
proof (cases answer)
  case (Inr n)
  show ?thesis
  proof (cases "n < 2 ^ 16")
    case True
    then have "unat (of_nat n :: 64 word) = n" by (simp add: unat_of_nat)
    then have "(of_nat n :: 64 word) = 1 \<longleftrightarrow> n = 1" "(of_nat n :: 64 word) = 1337 \<longleftrightarrow> n = 1337" "(of_nat n :: 64 word) \<noteq> 11155111"
      using True by (auto simp: word_unat_eq_iff)
    then show ?thesis
      using Inr parse_uint_dec_string [OF True] by (auto simp: NewTransferVerifier_def chk_eq_Inr TryWormholeChainIdFromNative_def)
  next
    case False
    then show ?thesis
      using Inr by (auto simp: NewTransferVerifier_def chk_eq_Inr parse_uint_def parse_dec_string)
  qed
qed (simp add: NewTransferVerifier_def chk_def wrap_def)

lemma sepolia_not_started:
  assumes "ew_txVerifierEnabled w" "ew_chainID w \<in> {10002, 10006}" "evm_id \<in> {11155111, 17000}"
    and "verifier_for = (\<lambda>_. chk (NewTransferVerifier (Inr evm_id) A delta) (\<lambda>tv. Inr (TokenBridgeAddr (tv_Addresses tv))))"
  shows "\<exists>e. watcher_start dial url (List.member SupportedChains) verifier_for w = Inl e"
proof -
  have "\<exists>e. NewTransferVerifier (Inr evm_id) A delta = Inl e"
    using assms(3) by (auto simp: NewTransferVerifier_def parse_uint_def parse_dec_string chk_def wrap_def TryWormholeChainIdFromNative_def)
  then show ?thesis
    using assms by (auto simp: watcher_start_def chk_def wrap_def split: sum.splits)
qed

text \<open>A list of chains to verify that is accepted comes back as it is, up to the range of the index.\<close>

lemma validate_chains_loop_ok:
  assumes "validate_chains_loop input i enabled = Inr out" "unat i + length input \<le> length enabled" "unat i + length input \<le> 256"
  shows "out = take (unat i) enabled @ map word_of_nat input @ drop (unat i + length input) enabled \<and>
    (\<forall>c\<in>set input. c \<le> 65535 \<and> word_of_nat c \<in> set SupportedChains)"
  using assms
proof (induction input i enabled rule: validate_chains_loop.induct)
  case (2 chain input i enabled)
  let ?new = "enabled[unat i := word_of_nat chain]"
  have ok: "chain \<le> 65535" "word_of_nat chain \<in> set SupportedChains"
    and rest: "validate_chains_loop input (i + 1) ?new = Inr out" and i: "unat i < length enabled"
    using "2.prems"(1) by (auto simp: Let_def split: if_splits)
  have new: "take (Suc (unat i)) ?new = take (unat i) enabled @ [word_of_nat chain]"
    using i by (simp add: take_Suc_conv_app_nth)
  show ?case
  proof (cases "input = []")
    case True
    then show ?thesis using rest ok i by (simp add: upd_conv_take_nth_drop)
  next
    case False
    then have "unat i + 1 < 256" using "2.prems"(3) by (cases input) auto
    then have u: "unat (i + 1) = Suc (unat i)" by (simp add: unat_word_ariths)
    have "out = take (Suc (unat i)) ?new @ map word_of_nat input @ drop (Suc (unat i) + length input) ?new \<and>
        (\<forall>c\<in>set input. c \<le> 65535 \<and> word_of_nat c \<in> set SupportedChains)"
      using "2.IH" [OF _ refl _ _ _ rest] "2.prems" i u ok "2.prems"(1) by (auto simp: Let_def split: if_splits)
    then show ?thesis using ok new by simp
  qed
qed simp

lemma ValidateChains_ok:
  assumes "ValidateChains input = Inr out" "length input \<le> 256"
  shows "out = map word_of_nat input \<and> set out \<subseteq> set SupportedChains"
  using assms validate_chains_loop_ok [of input 0 "replicate (length input) 0" out]
  by (auto simp: ValidateChains_def split: if_splits)

text \<open>Amounts with eight decimals at most, and back.\<close>

lemma normalize_denormalize: "normalize_amount (denormalize_amount a d) d = a"
  by (simp add: normalize_amount_def denormalize_amount_def MAX_DECIMALS_def)

lemma denormalize_normalize: "denormalize_amount (normalize_amount a d) d \<le> a"
proof -
  have "a div k * k \<le> a" if "0 < k" for k :: int
    using div_mult_mod_eq [of a k] pos_mod_sign [OF that, of a] by linarith
  then show ?thesis by (simp add: normalize_amount_def denormalize_amount_def MAX_DECIMALS_def)
qed

section \<open>A transaction that lets out more than it pays in\<close>

definition toy_geth :: geth where
  "toy_geth = \<lparr>BytesToAddress = (\<lambda>b. replicate (20 - length b) 0 @ drop (length b - 20) b),
     LeftPadBytes = (\<lambda>b l. replicate (l - length b) 0 @ b)\<rparr>"

definition toy_token :: eth_address where "toy_token = replicate 20 7"

definition toy_addresses :: TVAddresses where
  "toy_addresses = \<lparr>CoreBridgeAddr = replicate 20 1, TokenBridgeAddr = replicate 20 2, WrappedNativeAddr = replicate 20 3\<rparr>"

definition toy_verifier :: tx_verifier where
  "toy_verifier = (case NewTransferVerifier (Inr 1) toy_addresses 20 of Inr tv \<Rightarrow> tv)"

text \<open>A transfer of 40 to the bridge, and a message that lets out 100 of the same token.\<close>

definition toy_hdr :: TransferPayloadHdr where
  "toy_hdr = \<lparr>tph_Type = 1, tph_Amount = 100, tph_OriginAddress = replicate 12 0 @ toy_token, tph_OriginChain = 2,
     tph_TargetAddress = replicate 32 9, tph_TargetChain = 1\<rparr>"

definition toy_log :: "eth_address \<Rightarrow> byte list list \<Rightarrow> byte list \<Rightarrow> evm_log" where
  "toy_log a topics data = \<lparr>log_Address = a, log_Topics = topics, log_Data = data, log_TxHash = replicate 32 5,
     log_BlockHash = replicate 32 6, log_BlockNumber = 100\<rparr>"

definition toy_logs :: "evm_log list" where
  "toy_logs = [toy_log toy_token [EVENTHASH_ERC20_TRANSFER, replicate 12 0 @ replicate 20 8, replicate 12 0 @ replicate 20 2] (be_nat 32 40),
     toy_log (replicate 20 1) [EVENTHASH_WORMHOLE_LOG_MESSAGE_PUBLISHED, replicate 12 0 @ replicate 20 2] [1]]"

definition toy_receipt :: eth_receipt where
  "toy_receipt = \<lparr>rcpt_Status = 1, rcpt_BlockHash = replicate 32 6, rcpt_BlockNumber = 100, rcpt_Logs = map Some toy_logs\<rparr>"

definition toy_tv_conn :: evm_conn where
  "toy_tv_conn = \<lparr>TransactionReceipt = (\<lambda>_. (Some toy_receipt, None)), TimeOfBlockByHash = (\<lambda>_. Inr 0),
     ParseLogMessagePublished = (\<lambda>log. Inr \<lparr>lm_Sender = replicate 20 2, lm_Sequence = 0, lm_Nonce = 0,
       lm_Payload = put_transfer_hdr toy_hdr @ [], lm_ConsistencyLevel = 1, lm_Raw = log\<rparr>),
     BytesToHash = (\<lambda>b. replicate (32 - length b) 0 @ b), GetCurrentGuardianSetIndex = Inr 0, GetEvmGuardianSet = (\<lambda>_. Inr [])\<rparr>"

text \<open>The token is not wrapped and has eight decimals.\<close>

definition toy_call :: contract_call where
  "toy_call n dest data = Inr (replicate 31 0 @ [if data = ERC20_DECIMALS_SIGNATURE then 8 else 0])"

lemma toy_geth_simps [simp]:
  "BytesToAddress toy_geth b = replicate (20 - length b) 0 @ drop (length b - 20) b"
  "LeftPadBytes toy_geth b l = replicate (l - length b) 0 @ b"
  by (simp_all add: toy_geth_def)

lemma toy_zero: "ZERO_ADDRESS toy_geth = replicate 20 0" "ZERO_ADDRESS_VAA toy_geth = replicate 32 0"
  by code_simp+

lemma toy_zero_neq: "replicate 20 (x :: byte) = replicate 20 y \<longleftrightarrow> x = y" "replicate 32 (x :: byte) = replicate 32 y \<longleftrightarrow> x = y"
    "replicate 12 (0 :: byte) @ replicate 20 y = replicate 32 0 \<longleftrightarrow> y = 0"
  by (auto simp: numeral_eq_Suc)

definition toy_parsed :: TransferReceipt where
  "toy_parsed = \<lparr>tr_Deposits = Some [],
     tr_Transfers = Some [\<lparr>et_TokenAddress = toy_token, et_TokenChain = 2, et_From = replicate 20 8, et_To = replicate 20 2, et_Amount = Some 40\<rparr>],
     tr_MessagePublications = Some [\<lparr>tm_EventEmitter = replicate 20 1, tm_MsgSender = replicate 20 2,
       tm_TransferDetails = Some \<lparr>td_PayloadType = 1, td_Amount = None, td_AmountRaw = Some 100, td_TokenChain = 2,
         td_OriginAddress = replicate 20 0, td_OriginAddressRaw = replicate 12 0 @ toy_token, td_TargetAddress = replicate 32 9\<rparr>\<rparr>]\<rparr>"

definition toy_updated :: TransferReceipt where
  "toy_updated = toy_parsed\<lparr>tr_MessagePublications := Some [\<lparr>tm_EventEmitter = replicate 20 1, tm_MsgSender = replicate 20 2,
       tm_TransferDetails = Some \<lparr>td_PayloadType = 1, td_Amount = Some 100, td_AmountRaw = Some 100, td_TokenChain = 2,
         td_OriginAddress = toy_token, td_OriginAddressRaw = replicate 12 0 @ toy_token, td_TargetAddress = replicate 32 9\<rparr>\<rparr>]\<rparr>"

lemma toy_verifier_eq:
  "toy_verifier = \<lparr>tv_Addresses = toy_addresses, tv_evmChainId = 1, tv_wormholeChainId = 2, tv_processedTransactions = Map.empty,
     tv_lastBlockNumber = 0, tv_pruneHeightDelta = 20, tv_decimalsCache = Map.empty, tv_isWrappedCache = Map.empty,
     tv_wrappedCache = Map.empty, tv_nativeChainCache = Map.empty, tv_calls = 0\<rparr>"
  by (simp add: toy_verifier_def NewTransferVerifier_def parse_uint_def parse_dec_string chk_def wrap_def TryWormholeChainIdFromNative_def)

lemma toy_ParseReceipt: "ParseReceipt toy_geth toy_tv_conn (remember h toy_receipt toy_verifier) (Some toy_receipt) = Inr (Some toy_parsed, [])"
proof -
  have wf: "wf_transfer_hdr toy_hdr" by (simp add: wf_transfer_hdr_def toy_hdr_def toy_token_def)
  have payload: "parseLogMessagePublishedPayload (put_transfer_hdr toy_hdr @ []) = Inr (tm_TransferDetails (hd (the (tr_MessagePublications toy_parsed))))"
    unfolding parseLogMessagePublishedPayload_def DecodeTransferPayloadHdr_put [OF wf]
    by (simp add: IsTransfer_def put_transfer_hdr_def) (simp add: toy_hdr_def toy_parsed_def)
  have "put_transfer_hdr toy_hdr \<noteq> []" by (simp add: put_transfer_hdr_def)
  then show ?thesis
    using payload event_hashes_differ nat_of_be_32 [of 40]
    by (simp add: ParseReceipt_def toy_receipt_def toy_logs_def toy_log_def chk_def parse_log_def parse_message_def toy_tv_conn_def
      remember_def pruneCache_def toy_verifier_eq toy_addresses_def ERC20TransferFromLog_def parseERC20TransferEvent_def EVM_WORD_LENGTH_def
      TOPICS_COUNT_TRANSFER_def toy_zero toy_zero_neq toy_parsed_def)
qed

lemma toy_UpdateReceiptDetails: "fst (UpdateReceiptDetails toy_geth toy_call (Some toy_parsed) (remember h toy_receipt toy_verifier)) = Inr toy_updated"
  by (simp add: UpdateReceiptDetails_def toy_parsed_def Validate_def then_tv_def fetchNativeInfo_def isWrappedAsset_def CallContract_def toy_call_def
      remember_def pruneCache_def toy_verifier_eq EVM_WORD_LENGTH_def TOKEN_BRIDGE_IS_WRAPPED_ASSET_SIGNATURE_def ERC20_DECIMALS_SIGNATURE_def
      fetchLogMessageDetails_def getDecimals_def denormalize_amount_def Let_def toy_updated_def nth_append toy_token_def)

lemma toy_not_backed: "ProcessReceipt toy_geth toy_addresses (Some toy_updated) =
    (Some \<lparr>rs_logsProcessed = 1, rs_in = [(token_key (replicate 12 0 @ toy_token) 2, 40)], rs_out = [(token_key (replicate 12 0 @ toy_token) 2, 100)]\<rparr>,
     [Errorf ''invariant violated: requested amount out is larger than amount in''])"
  by (simp add: ProcessReceipt_def toy_updated_def toy_parsed_def Validate_def validate_def validate_type_def relevant_def Cmp_eq_def
      toy_addresses_def toy_zero toy_zero_neq VAAAddrFrom_def EVM_WORD_LENGTH_def upsert_def NewReceiptSummary_def
      toy_token_def is_transfer_type_def TransferTokens_def check_amount_def map_filter_def Let_def)

definition toy_hash :: "byte list" where "toy_hash = replicate 32 5"

lemma toy_hash_not_zero: "\<not> Cmp_eq toy_geth toy_hash (ZERO_ADDRESS toy_geth)"
  by code_simp

lemma toy_rejected: "fst (ProcessEvent toy_geth toy_tv_conn toy_call toy_hash (Some toy_receipt) toy_verifier) = Inr False"
proof -
  obtain tv where u: "UpdateReceiptDetails toy_geth toy_call (Some toy_parsed) (remember toy_hash toy_receipt toy_verifier) = (Inr toy_updated, tv)"
    using toy_UpdateReceiptDetails [of toy_hash] by (metis prod.collapse)
  have "tv_Addresses tv = toy_addresses"
    using same_list_UpdateReceiptDetails [of "remember toy_hash toy_receipt toy_verifier" toy_geth toy_call "Some toy_parsed"]
    by (simp add: u same_list_def) (simp add: remember_def pruneCache_def toy_verifier_eq)
  then show ?thesis
    using ProcessEvent_fresh [OF toy_hash_not_zero, of toy_verifier toy_tv_conn toy_call toy_receipt]
    by (simp add: pruneCache_def toy_verifier_eq) (simp add: toy_verifier_eq [symmetric] verdict_on_def toy_ParseReceipt u toy_not_backed)
qed

lemma ProcessReceipt_iff_witness:
  "Validate toy_updated = Inr () \<and> \<not> (logs_in toy_updated \<noteq> [] \<and>
    (\<forall>l\<in>set (logs_in toy_updated @ logs_out toy_updated). validate toy_geth l = Inr ()) \<and>
    backed toy_geth toy_addresses (logs_in toy_updated) (logs_out toy_updated))"
proof -
  have v: "Validate toy_updated = Inr ()" by (simp add: Validate_def toy_updated_def toy_parsed_def)
  from ProcessReceipt_iff [OF v, of toy_geth toy_addresses] v show ?thesis by (simp add: toy_not_backed)
qed

theorem rejected_iff_witness:
  "\<exists>r' tv2. UpdateReceiptDetails toy_geth toy_call (Some toy_parsed) (remember toy_hash toy_receipt toy_verifier) = (Inr r', tv2) \<and>
     \<not> receipt_good toy_geth toy_addresses r'"
proof -
  obtain tv' where "ProcessEvent toy_geth toy_tv_conn toy_call toy_hash (Some toy_receipt) toy_verifier = (Inr False, tv')"
    using toy_rejected by (metis prod.collapse)
  from rejected_iff [OF this] show ?thesis
    by (auto simp: toy_hash_not_zero toy_ParseReceipt) (auto simp: toy_verifier_eq)
qed

definition toy_msg :: "64 word \<Rightarrow> MessagePublication" where
  "toy_msg sequence = \<lparr>mp_TxID = toy_hash, mp_Timestamp = 0, mp_Nonce = 0, mp_Sequence = sequence, mp_ConsistencyLevel = 1, mp_EmitterChain = 2,
     mp_EmitterAddress = replicate 12 0 @ replicate 20 2, mp_Payload = put_transfer_hdr toy_hdr, mp_IsReobservation = False,
     mp_Unreliable = False, mp_verificationState = NotVerified\<rparr>"


section \<open>No panic\<close>

text \<open>
  A receipt of go-ethereum has no nil logs, and an event that was parsed has the topic of its indexed argument.
  Then no request for a verdict ends in a panic: each message has its details, each validated log its amount, and the
  summary that is printed is not nil.
\<close>

definition receipt_logs_ok :: "evm_conn \<Rightarrow> eth_receipt \<Rightarrow> bool" where
  "receipt_logs_ok conn rc \<longleftrightarrow> list_all (\<lambda>log. case log of None \<Rightarrow> False | Some log \<Rightarrow>
     (case ParseLogMessagePublished conn log of Inl _ \<Rightarrow> True | Inr _ \<Rightarrow> 1 < length (log_Topics log))) (rcpt_Logs rc)"

definition message_complete :: "TVMessage \<Rightarrow> bool" where
  "message_complete m \<longleftrightarrow> (case tm_TransferDetails m of None \<Rightarrow> False | Some td \<Rightarrow> td_AmountRaw td \<noteq> None)"

lemma parse_message_complete:
  "case ParseLogMessagePublished conn log of Inl _ \<Rightarrow> True | Inr _ \<Rightarrow> 1 < length (log_Topics log) \<Longrightarrow> \<exists>r. parse_message conn tv log = Inr r"
  "parse_message conn tv log = Inr (Some (Inr m)) \<Longrightarrow> message_complete m"
  by (auto simp: parse_message_def parseLogMessagePublishedPayload_def message_complete_def chk_eq_Inr split: sum.splits if_splits option.splits)

lemma parse_log_complete:
  assumes "case ParseLogMessagePublished conn log of Inl _ \<Rightarrow> True | Inr _ \<Rightarrow> 1 < length (log_Topics log)" "list_all message_complete ms"
  shows "\<exists>ds' ts' ms' errs'. parse_log G conn tv log (ds, ts, ms, errs) = Inr (ds', ts', ms', errs') \<and> list_all message_complete ms'"
proof -
  obtain r where "parse_message conn tv log = Inr r" using parse_message_complete(1) [OF assms(1)] by blast
  with parse_message_complete(2) [of conn tv log] assms(2) show ?thesis
    by (auto simp: parse_log_def split: list.splits sum.splits option.splits)
qed

lemma parse_logs_complete:
  assumes "list_all (\<lambda>log. case log of None \<Rightarrow> False | Some log \<Rightarrow>
      (case ParseLogMessagePublished conn log of Inl _ \<Rightarrow> True | Inr _ \<Rightarrow> 1 < length (log_Topics log))) logs" "list_all message_complete ms"
  shows "\<exists>ds' ts' ms' errs'. parse_logs G conn tv logs (ds, ts, ms, errs) = Inr (ds', ts', ms', errs') \<and> list_all message_complete ms'"
  using assms
proof (induction logs arbitrary: ds ts ms errs)
  case (Cons log logs)
  then obtain l where l: "log = Some l" by (cases log) auto
  obtain ds1 ts1 ms1 errs1 where "parse_log G conn tv l (ds, ts, ms, errs) = Inr (ds1, ts1, ms1, errs1)" "list_all message_complete ms1"
    using parse_log_complete [where conn = conn and log = l and ms = ms and G = G and tv = tv and ds = ds and ts = ts and errs = errs] Cons.prems l by auto
  with Cons.IH [of ms1 ds1 ts1 errs1] Cons.prems l show ?case by simp
qed simp

lemma ParseReceipt_complete:
  assumes "receipt_logs_ok conn rc"
  shows "\<exists>r errs. ParseReceipt G conn tv (Some rc) = Inr (r, errs) \<and>
    (\<forall>r'. r = Some r' \<longrightarrow> (\<exists>ms. tr_MessagePublications r' = Some ms \<and> list_all message_complete ms))"
  using parse_logs_complete [of conn "rcpt_Logs rc" "[]" G tv "[]" "[]" "[]"] assms
  by (auto simp: ParseReceipt_def receipt_logs_ok_def Let_def)

definition no_panic :: "'a tv_result \<Rightarrow> bool" where
  "no_panic m \<longleftrightarrow> (\<forall>p. fst m \<noteq> Inl (Panic p))"

definition honest_errors :: "contract_call \<Rightarrow> bool" where
  "honest_errors call \<longleftrightarrow> (\<forall>n a d p. call n a d \<noteq> Inl (Panic p))"

lemma no_panic_then: "no_panic m \<Longrightarrow> (\<And>x tv. no_panic (f x tv)) \<Longrightarrow> no_panic (then_tv m f)"
  by (auto simp: then_tv_def no_panic_def split: prod.splits sum.splits)

lemma no_panic_simps [simp]: "no_panic (Inr x, tv)" "no_panic (Inl (Errorf e), tv)"
  by (simp_all add: no_panic_def)

lemma no_panic_fetchLogMessageDetails:
  assumes "honest_errors call" "td_AmountRaw d \<noteq> None"
  shows "no_panic (fetchLogMessageDetails G call d tv)"
proof -
  have c: "no_panic (CallContract call a data tv)" for a data tv
    using assms(1) by (auto simp: no_panic_def CallContract_def honest_errors_def split: sum.splits go_error.splits)
  have u: "no_panic (unwrapIfWrapped G call b ch tv)" for b ch tv
    by (auto simp: unwrapIfWrapped_def Let_def split: option.splits prod.splits sum.splits)
  have g: "no_panic (getDecimals call a tv)" for a tv
    by (auto simp: getDecimals_def Let_def intro!: no_panic_then c split: option.splits)
  show ?thesis
    using assms(2) unfolding fetchLogMessageDetails_def
    by (auto intro!: no_panic_then u g)
qed

lemma no_panic_update_messages:
  assumes "honest_errors call" "list_all message_complete ms"
  shows "no_panic (update_messages G call ms tv)"
  using assms(2)
proof (induction ms arbitrary: tv)
  case (Cons m ms)
  then obtain d where d: "tm_TransferDetails m = Some d" "td_AmountRaw d \<noteq> None"
    by (auto simp: message_complete_def split: option.splits)
  from no_panic_fetchLogMessageDetails [OF assms(1) d(2), of G tv] d Cons show ?case
    by (auto simp: no_panic_def then_tv_def split: prod.splits sum.splits go_error.splits) (metis fst_conv)+
qed simp

lemma no_panic_update_transfers: "no_panic (update_transfers G call ts tv)"
  by (induction ts arbitrary: tv) (auto simp: Let_def intro!: no_panic_then split: prod.splits sum.splits)

lemma no_panic_UpdateReceiptDetails:
  assumes "honest_errors call" "tr_MessagePublications r = Some ms" "list_all message_complete ms"
  shows "no_panic (UpdateReceiptDetails G call (Some r) tv)"
  using assms by (auto simp: UpdateReceiptDetails_def intro!: no_panic_then no_panic_update_transfers no_panic_update_messages split: sum.splits)

lemma validate_no_panic: "validate G l \<noteq> Inl (Panic p)"
  by (auto simp: validate_def validate_type_def split: if_splits option.splits TransferLog.splits)

lemma process_no_panic:
  "process_in G A ls s \<noteq> (s', Some (Panic p))" "process_out G A ls s \<noteq> (s', Some (Panic p))"
  by (induction ls arbitrary: s)
    (auto simp: validate_no_panic relevant_valid split: sum.splits option.splits dest: validate_amount)

lemma ProcessReceipt_no_panic:
  assumes "Validate r = Inr ()"
  shows "\<exists>s errs. ProcessReceipt G A (Some r) = (Some s, errs) \<and> (\<forall>p. Panic p \<notin> set errs)"
  using process_no_panic [of G A]
  by (auto simp: ProcessReceipt_def assms Let_def check_amount_def map_filter_def split: prod.splits option.splits if_splits)

lemma ProcessEvent_no_panic:
  assumes "receipt_logs_ok conn rc" "honest_errors call"
  shows "no_panic (ProcessEvent G conn call h (Some rc) tv)"
proof -
  have "no_panic (verdict_on G conn call rc tv)" for tv
  proof -
    obtain r errs where p: "ParseReceipt G conn tv (Some rc) = Inr (r, errs)"
      "\<And>r'. r = Some r' \<Longrightarrow> \<exists>ms. tr_MessagePublications r' = Some ms \<and> list_all message_complete ms"
      using ParseReceipt_complete [OF assms(1), of G tv] by blast
    show ?thesis
    proof (cases r)
      case (Some r')
      obtain u tv2 where u: "UpdateReceiptDetails G call (Some r') tv = (u, tv2)" by (cases "UpdateReceiptDetails G call (Some r') tv")
      have n: "no_panic (u, tv2)"
        using no_panic_UpdateReceiptDetails [OF assms(2)] p(2) [OF Some] u by metis
      show ?thesis
      proof (cases u)
        case (Inl e)
        then show ?thesis using n p(1) Some u by (cases e) (auto simp: verdict_on_def no_panic_def)
      next
        case (Inr r2)
        then have "Validate r2 = Inr ()" using UpdateReceiptDetails_Validate u by blast
        from ProcessReceipt_no_panic [OF this, of G "tv_Addresses tv2"] show ?thesis
          using p(1) Some u Inr by (auto simp: verdict_on_def no_panic_def split: if_splits)
      qed
    qed (simp add: verdict_on_def p)
  qed
  then show ?thesis by (simp add: ProcessEvent_def Let_def no_panic_def)
qed

end
