(* ===== verification/SuiVerifier.thy ===== *)
theory SuiVerifier imports TxVerifier begin

text \<open>
  The transfer verifier of Sui: node/pkg/txverifier/sui.go, suitypes.go and the JSON paths of utils.go. It compares
  what the messages of a transaction let out of Sui with what changed in the objects of the token bridge.

  An answer of the RPC node is decoded JSON; numbers are float64, a type that is a parameter, with its conversions to
  integers as an argument. Decoding, the regular expression and \<open>SetString\<close> are of the Go library. HTTP requests are left
  out: the answers are arguments, with the number of the request, since the node may answer differently every time.
\<close>

section \<open>JSON paths\<close>

datatype 'f json = JNull | JBool bool | JNumber 'f | JString string | JArray "'f json list" | JObject "(string \<times> 'f json) list"

record 'f floats =
  to_uint8 :: "'f \<Rightarrow> byte"
  to_uint16 :: "'f \<Rightarrow> ChainID"

fun extract_keys :: "(string \<times> 'f json) list \<Rightarrow> string list \<Rightarrow> go_error + 'f json" where
  "extract_keys obj [] = Inl (Errorf ''key not found'')"
| "extract_keys obj [key] = (case map_of obj key of None \<Rightarrow> Inl (Errorf ''key not found'') | Some v \<Rightarrow> Inr v)"
| "extract_keys obj (key # keys) =
     (case map_of obj key of
        None \<Rightarrow> Inl (Errorf ''key not found'')
      | Some JNull \<Rightarrow> Inl (Errorf ''key not found'')
      | Some (JObject v) \<Rightarrow> extract_keys v keys
      | Some _ \<Rightarrow> Inl (Errorf ''can't convert to key to map[string]interface{} type''))"

text \<open>The value at a path, of the type that \<open>conv\<close> takes; null is decoded to a map without entries.\<close>

definition extractFromJsonPath :: "('f json \<Rightarrow> 'a option) \<Rightarrow> 'f json \<Rightarrow> string \<Rightarrow> go_error + 'a" where
  "extractFromJsonPath conv data path =
     chk (case data of JObject obj \<Rightarrow> Inr obj | JNull \<Rightarrow> Inr [] | _ \<Rightarrow> Inl (Errorf ''json: cannot unmarshal'')) (\<lambda>obj.
     chk (extract_keys obj (split_on CHR ''.'' path)) (\<lambda>v.
     case conv v of None \<Rightarrow> Inl (Errorf ''can't convert to type T'') | Some x \<Rightarrow> Inr x))"

definition as_string :: "'f json \<Rightarrow> string option" where "as_string v = (case v of JString s \<Rightarrow> Some s | _ \<Rightarrow> None)"
definition as_float :: "'f json \<Rightarrow> 'f option" where "as_float v = (case v of JNumber f \<Rightarrow> Some f | _ \<Rightarrow> None)"
definition as_array :: "'f json \<Rightarrow> 'f json list option" where "as_array v = (case v of JArray a \<Rightarrow> Some a | _ \<Rightarrow> None)"

section \<open>Answers of the node\<close>

definition SUI_CHAIN_ID :: ChainID where "SUI_CHAIN_ID = 21"

text \<open>Of an event, a message and a change the fields that the verifier reads.\<close>

record WormholeMessage =
  wm_Payload :: "byte list"
  wm_Sender :: "string option"

record SuiEvent =
  se_Type :: "string option"
  se_Message :: "WormholeMessage option"

record ObjectChange =
  oc_ObjectType :: string
  oc_ObjectId :: string
  oc_Version :: string
  oc_PreviousVersion :: string

record SuiGetTransactionBlockResult =
  tb_ObjectChanges :: "ObjectChange list"
  tb_Events :: "SuiEvent list"

text \<open>
  The groups of \<open>^0x2::dynamic_field::Field<([^:]+)::token_registry::Key<([^>]+)>, ([^:]+)::([^<]+)<([^>]+)>>$\<close>. Each
  group is followed by a character that it cannot contain, so that a group is all up to that character.
\<close>

definition strip :: "string \<Rightarrow> string \<Rightarrow> string option" where
  "strip p s = (if take (length p) s = p then Some (drop (length p) s) else None)"

definition group_up_to :: "char \<Rightarrow> string \<Rightarrow> (string \<times> string) option" where
  "group_up_to c s = (let g = takeWhile (\<lambda>d. d \<noteq> c) s in if g = [] then None else Some (g, drop (length g) s))"

definition object_type_groups :: "string \<Rightarrow> (string \<times> string \<times> string \<times> string \<times> string) option" where
  "object_type_groups s =
     Option.bind (strip ''0x2::dynamic_field::Field<'' s) (\<lambda>s.
     Option.bind (group_up_to CHR '':'' s) (\<lambda>(g1, s).
     Option.bind (strip ''::token_registry::Key<'' s) (\<lambda>s.
     Option.bind (group_up_to CHR ''>'' s) (\<lambda>(g2, s).
     Option.bind (strip ''>, '' s) (\<lambda>s.
     Option.bind (group_up_to CHR '':'' s) (\<lambda>(g3, s).
     Option.bind (strip ''::'' s) (\<lambda>s.
     Option.bind (group_up_to CHR ''<'' s) (\<lambda>(g4, s).
     Option.bind (strip ''<'' s) (\<lambda>s.
     Option.bind (group_up_to CHR ''>'' s) (\<lambda>(g5, s).
     if s = ''>>'' then Some (g1, g2, g3, g4, g5) else None))))))))))"

definition ValidateTypeInformation :: "string \<Rightarrow> ObjectChange \<Rightarrow> bool" where
  "ValidateTypeInformation expectedPackageId o' =
     (case object_type_groups (oc_ObjectType o') of
        None \<Rightarrow> False
      | Some (scanPackage1, scanCoinType1, scanPackage2, scanAssetType, scanCoinType2) \<Rightarrow>
          if scanAssetType \<noteq> ''wrapped_asset::WrappedAsset'' \<and> scanAssetType \<noteq> ''native_asset::NativeAsset'' then False
          else if scanPackage1 \<noteq> expectedPackageId \<or> scanPackage2 \<noteq> expectedPackageId then False
          else if scanCoinType1 \<noteq> scanCoinType2 then False
          else True)"

text \<open>A result of \<open>sui_tryMultiGetPastObjects\<close> is its details, which may be nil; one without is a nil pointer.\<close>

type_synonym 'f past_object = "'f json option"

definition details :: "'f past_object \<Rightarrow> go_error + 'f json" where
  "details r = (case r of None \<Rightarrow> Inl (Panic ''invalid memory address or nil pointer dereference'') | Some d \<Rightarrow> Inr d)"

text \<open>\<open>fmt.Errorf("...: %w", err)\<close> around an error, not around a panic.\<close>

definition wrap_err :: "string \<Rightarrow> go_error + 'a \<Rightarrow> go_error + 'a" where
  "wrap_err m r = (case r of Inl (Panic p) \<Rightarrow> Inl (Panic p) | _ \<Rightarrow> wrap m r)"

definition contains :: "string \<Rightarrow> string \<Rightarrow> bool" where
  "contains s sub \<longleftrightarrow> list_ex (\<lambda>n. take (length sub) (drop n s) = sub) [0..<Suc (length s)]"

definition IsWrapped :: "'f past_object \<Rightarrow> go_error + bool" where
  "IsWrapped r =
     chk (details r) (\<lambda>d.
     chk (wrap_err ''error in extracting object type'' (extractFromJsonPath as_string d ''content.type'')) (\<lambda>objectType.
     Inr (contains objectType ''wrapped_asset::WrappedAsset'')))"

definition parse_big :: "string \<Rightarrow> int option" where
  "parse_big s =
     (let (sign, digits) = (case s of c # cs \<Rightarrow> if c = CHR ''-'' then (- 1, cs) else if c = CHR ''+'' then (1, cs) else (1, s) | [] \<Rightarrow> (1, s))
      in if digits = [] then None else map_option (\<lambda>n. sign * int n) (parse_digits 0 digits))"

definition GetVersionBalance :: "bool \<Rightarrow> 'f past_object \<Rightarrow> go_error + int" where
  "GetVersionBalance isWrapped r =
     (let path = (if isWrapped then ''content.fields.value.fields.treasury_cap.fields.total_supply.fields.value''
                  else ''content.fields.value.fields.custody'') in
      chk (details r) (\<lambda>d.
      chk (wrap_err ''error in extracting wormhole balance'' (extractFromJsonPath as_string d path)) (\<lambda>supply.
      case parse_big supply of
        None \<Rightarrow> Inl (Wrap ''error converting supply to int'' None)
      | Some supplyInt \<Rightarrow> Inr supplyInt)))"

definition GetDecimals :: "'f floats \<Rightarrow> 'f past_object \<Rightarrow> go_error + byte" where
  "GetDecimals F r =
     chk (details r) (\<lambda>d.
     chk (wrap_err ''error in extracting decimals'' (extractFromJsonPath as_float d ''content.fields.value.fields.decimals'')) (\<lambda>decimals.
     Inr (to_uint8 F decimals)))"

fun float_bytes :: "'f floats \<Rightarrow> 'f json list \<Rightarrow> go_error + byte list" where
  "float_bytes F [] = Inr []"
| "float_bytes F (v # vs) =
     (case as_float v of
        None \<Rightarrow> Inl (Errorf ''error in converting token data to float type'')
      | Some f \<Rightarrow> chk (float_bytes F vs) (\<lambda>bs. Inr (to_uint8 F f # bs)))"

definition GetTokenAddress :: "'f floats \<Rightarrow> 'f past_object \<Rightarrow> go_error + string" where
  "GetTokenAddress F r =
     chk (wrap_err ''error in checking if object is wrapped'' (IsWrapped r)) (\<lambda>wrapped.
     let path = (if wrapped then ''content.fields.value.fields.info.fields.token_address.fields.value.fields.data''
                 else ''content.fields.value.fields.token_address.fields.value.fields.data'') in
     chk (details r) (\<lambda>d.
     chk (wrap_err ''error in extracting token address'' (extractFromJsonPath as_array d path)) (\<lambda>data.
     chk (float_bytes F data) (\<lambda>addrBytes. Inr (hex_encode addrBytes)))))"

definition GetTokenChain :: "'f floats \<Rightarrow> 'f past_object \<Rightarrow> go_error + ChainID" where
  "GetTokenChain F r =
     chk (wrap_err ''error in checking if object is wrapped'' (IsWrapped r)) (\<lambda>wrapped.
     if \<not> wrapped then Inr SUI_CHAIN_ID
     else chk (details r) (\<lambda>d.
       chk (wrap_err ''error in extracting chain'' (extractFromJsonPath as_float d ''content.fields.value.fields.info.fields.token_chain'')) (\<lambda>chain.
       Inr (to_uint16 F chain))))"

section \<open>The two versions of an object\<close>

text \<open>\<open>r.Result[i]\<close>.\<close>

definition result_at :: "'f past_object list \<Rightarrow> nat \<Rightarrow> go_error + 'f past_object" where
  "result_at rs i = (if i < length rs then Inr (rs ! i) else Inl (Panic ''index out of range''))"

text \<open>
  \<open>GetDecimals\<close>, \<open>GetTokenAddress\<close> and \<open>GetTokenChain\<close> of the response: the value of the first and of the second
  result, both computed before their errors are looked at, and whether they agree.
\<close>

definition both_results :: "string \<Rightarrow> ('f past_object \<Rightarrow> go_error + 'a) \<Rightarrow> 'f past_object list \<Rightarrow> go_error + 'a" where
  "both_results name get rs =
     chk (result_at rs 0) (\<lambda>r0. case get r0 of Inl (Panic p) \<Rightarrow> Inl (Panic p) | v0 \<Rightarrow>
     chk (result_at rs 1) (\<lambda>r1. case get r1 of Inl (Panic p) \<Rightarrow> Inl (Panic p) | v1 \<Rightarrow>
     chk (wrap name v0) (\<lambda>x0. chk (wrap name v1) (\<lambda>x1.
     if x0 \<noteq> x1 then Inl (Errorf (name @ '' do not match'')) else Inr x0))))"

definition GetBalanceDiff :: "'f past_object list \<Rightarrow> go_error + int" where
  "GetBalanceDiff rs =
     (if length rs \<noteq> 2 then Inl (Errorf ''incorrect number of results received'')
      else
        chk (wrap_err ''error in checking if object is wrapped'' (IsWrapped (rs ! 0))) (\<lambda>isWrapped.
        chk (wrap_err ''error in getting new balance'' (GetVersionBalance isWrapped (rs ! 0))) (\<lambda>newBalance.
        chk (wrap_err ''error in getting old balance'' (GetVersionBalance isWrapped (rs ! 1))) (\<lambda>oldBalance.
        Inr (if isWrapped then (newBalance - oldBalance) * - 1 else newBalance - oldBalance)))))"

section \<open>A transaction\<close>

record SuiTransferVerifier =
  sv_CoreContract :: string
  sv_TokenBridgeEmitter :: string
  sv_TokenBridgeContract :: string
  sv_EventType :: string

definition NewSuiTransferVerifier :: "string \<Rightarrow> string \<Rightarrow> string \<Rightarrow> SuiTransferVerifier" where
  "NewSuiTransferVerifier suiCoreContract suiTokenBridgeEmitter suiTokenBridgeContract =
     \<lparr>sv_CoreContract = suiCoreContract, sv_TokenBridgeEmitter = suiTokenBridgeEmitter, sv_TokenBridgeContract = suiTokenBridgeContract,
       sv_EventType = suiCoreContract @ ''::publish_message::WormholeMessage''\<rparr>"

text \<open>The transfer that an event asks for, None for an event that is skipped.\<close>

definition requested :: "SuiTransferVerifier \<Rightarrow> SuiEvent \<Rightarrow> TransferPayloadHdr option" where
  "requested s event =
     (case (se_Message event, se_Type event) of
        (Some m, Some t) \<Rightarrow>
          (case wm_Sender m of
             None \<Rightarrow> None
           | Some sender \<Rightarrow>
               if t = sv_EventType s \<and> sender = sv_TokenBridgeEmitter s
               then (case DecodeTransferPayloadHdr (wm_Payload m) of Inl _ \<Rightarrow> None | Inr hdr \<Rightarrow> Some hdr)
               else None)
      | _ \<Rightarrow> None)"

fun processEvents :: "SuiTransferVerifier \<Rightarrow> SuiEvent list \<Rightarrow> (string \<times> int) list \<Rightarrow> nat \<Rightarrow> (string \<times> int) list \<times> nat" where
  "processEvents s [] requestedOutOfBridge numEventsProcessed = (requestedOutOfBridge, numEventsProcessed)"
| "processEvents s (event # events) requestedOutOfBridge numEventsProcessed =
     (case requested s event of
        None \<Rightarrow> processEvents s events requestedOutOfBridge numEventsProcessed
      | Some hdr \<Rightarrow>
          processEvents s events
            (upsert requestedOutOfBridge (token_key (tph_OriginAddress hdr) (tph_OriginChain hdr)) (int (tph_Amount hdr)))
            (Suc numEventsProcessed))"

type_synonym 'f past_objects = "nat \<Rightarrow> string \<Rightarrow> string \<Rightarrow> string \<Rightarrow> go_error + 'f past_object list"

text \<open>The key and the amount of a change, an error where the code logs it and goes on.\<close>

definition change_amount :: "'f floats \<Rightarrow> 'f past_object list \<Rightarrow> go_error + string \<times> int" where
  "change_amount F resp =
     chk (both_results ''decimals'' (GetDecimals F) resp) (\<lambda>decimals.
     chk (both_results ''token addresses'' (GetTokenAddress F) resp) (\<lambda>address.
     chk (both_results ''token chain ids'' (GetTokenChain F) resp) (\<lambda>chain.
     chk (GetBalanceDiff resp) (\<lambda>balanceDiff.
     Inr (address @ CHR ''-'' # dec_string (unat chain), normalize_amount balanceDiff decimals)))))"

text \<open>The amounts are set, not added. n counts the requests to the node.\<close>

fun processObjectUpdates :: "'f floats \<Rightarrow> 'f past_objects \<Rightarrow> SuiTransferVerifier \<Rightarrow> nat \<Rightarrow> ObjectChange list \<Rightarrow> (string \<times> int) list \<Rightarrow>
    go_error + (string \<times> int) list" where
  "processObjectUpdates F api s n [] transferredIntoBridge = Inr transferredIntoBridge"
| "processObjectUpdates F api s n (change # changes) transferredIntoBridge =
     (if \<not> ValidateTypeInformation (sv_TokenBridgeContract s) change
      then processObjectUpdates F api s n changes transferredIntoBridge
      else (case api n (oc_ObjectId change) (oc_Version change) (oc_PreviousVersion change) of
          Inl _ \<Rightarrow> processObjectUpdates F api s (Suc n) changes transferredIntoBridge
        | Inr resp \<Rightarrow> (case change_amount F resp of
            Inl (Panic p) \<Rightarrow> Inl (Panic p)
          | Inl _ \<Rightarrow> processObjectUpdates F api s (Suc n) changes transferredIntoBridge
          | Inr (key, amount) \<Rightarrow> processObjectUpdates F api s (Suc n) changes (AList.update key amount transferredIntoBridge))))"

fun check_requests :: "(string \<times> int) list \<Rightarrow> (string \<times> int) list \<Rightarrow> go_error + unit" where
  "check_requests ins [] = Inr ()"
| "check_requests ins ((key, amountOut) # outs) =
     (case map_of ins key of
        None \<Rightarrow> Inl (Errorf ''transfer-out request for tokens that were never deposited'')
      | Some amountIn \<Rightarrow>
          if amountOut > amountIn then Inl (Errorf ''requested amount out is larger than amount in'') else check_requests ins outs)"

text \<open>The number of events, or an error; when the transaction cannot be had the process ends.\<close>

definition ProcessDigest :: "'f floats \<Rightarrow> 'f past_objects \<Rightarrow> SuiTransferVerifier \<Rightarrow> go_error + SuiGetTransactionBlockResult \<Rightarrow> go_error + nat" where
  "ProcessDigest F api s txBlock =
     (case txBlock of
        Inl _ \<Rightarrow> Inl (Panic ''Error in getting transaction block'')
      | Inr result \<Rightarrow>
          (case processEvents s (tb_Events result) [] 0 of (requestedOutOfBridge, numEventsProcessed) \<Rightarrow>
           chk (processObjectUpdates F api s 0 (tb_ObjectChanges result) []) (\<lambda>transferredIntoBridge.
           chk (check_requests transferredIntoBridge requestedOutOfBridge) (\<lambda>_.
           Inr numEventsProcessed))))"

section \<open>What a passed transaction lets out\<close>

definition requests :: "SuiTransferVerifier \<Rightarrow> SuiEvent list \<Rightarrow> TransferPayloadHdr list" where
  "requests s events = List.map_filter (requested s) events"

definition sui_key :: "TransferPayloadHdr \<Rightarrow> string" where
  "sui_key h = token_key (tph_OriginAddress h) (tph_OriginChain h)"

definition same_token :: "TransferPayloadHdr \<Rightarrow> TransferPayloadHdr \<Rightarrow> bool" where
  "same_token h h' \<longleftrightarrow> tph_OriginAddress h = tph_OriginAddress h' \<and> tph_OriginChain h = tph_OriginChain h'"

text \<open>All that is let out of the token of a request.\<close>

definition let_out :: "TransferPayloadHdr list \<Rightarrow> TransferPayloadHdr \<Rightarrow> int" where
  "let_out hs h = sum_list (map (\<lambda>h'. int (tph_Amount h')) (filter (same_token h) hs))"

text \<open>The changes that could be read, in order.\<close>

fun read_changes :: "'f floats \<Rightarrow> 'f past_objects \<Rightarrow> SuiTransferVerifier \<Rightarrow> nat \<Rightarrow> ObjectChange list \<Rightarrow> (string \<times> int) list" where
  "read_changes F api s n [] = []"
| "read_changes F api s n (change # changes) =
     (if \<not> ValidateTypeInformation (sv_TokenBridgeContract s) change then read_changes F api s n changes
      else (case api n (oc_ObjectId change) (oc_Version change) (oc_PreviousVersion change) of
          Inl _ \<Rightarrow> []
        | Inr resp \<Rightarrow> (case change_amount F resp of Inl _ \<Rightarrow> [] | Inr ka \<Rightarrow> [ka])) @ read_changes F api s (Suc n) changes)"

lemma same_token_key: "sui_key h = sui_key h' \<longleftrightarrow> same_token h h'"
  by (simp add: sui_key_def same_token_def token_key_inj)

lemma requests_simps [simp]:
  "requests s [] = []"
  "requests s (e # es) = (case requested s e of None \<Rightarrow> requests s es | Some h \<Rightarrow> h # requests s es)"
  by (simp_all add: requests_def map_filter_def split: option.splits)

lemma let_out_simps [simp]:
  "let_out [] h = 0"
  "let_out (h' # hs) h = (if same_token h h' then int (tph_Amount h') else 0) + let_out hs h"
  by (simp_all add: let_out_def)

lemma processEvents_count: "snd (processEvents s es d n) = n + length (requests s es)"
  by (induction es arbitrary: d n) (auto split: option.splits)

lemma processEvents_distinct: "distinct (map fst d) \<Longrightarrow> distinct (map fst (fst (processEvents s es d n)))"
  by (induction es arbitrary: d n) (auto intro: distinct_upsert split: option.splits)

lemma processEvents_sums:
  "map_of (fst (processEvents s es d n)) (sui_key h) =
    (if list_ex (same_token h) (requests s es) \<or> map_of d (sui_key h) \<noteq> None
     then Some ((case map_of d (sui_key h) of None \<Rightarrow> 0 | Some v \<Rightarrow> v) + let_out (requests s es) h) else None)"
proof (induction es arbitrary: d n)
  case (Cons e es)
  show ?case
  proof (cases "requested s e")
    case (Some h')
    have "token_key (tph_OriginAddress h') (tph_OriginChain h') = sui_key h'" by (simp add: sui_key_def)
    moreover have "same_token h h' \<Longrightarrow> sui_key h' = sui_key h" "\<not> same_token h h' \<Longrightarrow> sui_key h \<noteq> sui_key h'"
      using same_token_key by metis+
    ultimately show ?thesis
      using Some Cons by (cases "same_token h h'") (auto simp: map_of_upsert split: option.split)
  qed (use Cons in simp)
qed (simp split: option.split)

lemma processEvents_keys: "fst ` set (fst (processEvents s es d n)) = fst ` set d \<union> sui_key ` set (requests s es)"
proof (induction es arbitrary: d n)
  case (Cons e es)
  have "fst ` set (upsert d key amount) = insert key (fst ` set d)" for key amount
    using map_of_upsert [of d key amount] by (simp add: dom_map_of_conv_image_fst [symmetric])
  with Cons show ?case by (auto simp: sui_key_def split: option.splits)
qed simp

lemma processObjectUpdates_map:
  "processObjectUpdates F api s n cs d = Inr ins \<Longrightarrow> map_of ins = map_of (rev (read_changes F api s n cs) @ d)"
proof (induction cs arbitrary: n d)
  case (Cons c cs)
  then show ?case
    by (auto simp: AList.update_conv' split: if_splits sum.splits go_error.splits)
qed simp

lemma check_requests_iff:
  "check_requests ins outs = Inr () \<longleftrightarrow> list_all (\<lambda>(k, out). \<exists>a. map_of ins k = Some a \<and> out \<le> a) outs"
  by (induction ins outs rule: check_requests.induct) (auto split: option.splits)

text \<open>
  C22. What the verifier of Sui establishes: when the changes of the bridge can be read, a transaction passes exactly
  when for the token of every transfer that its messages ask for, some object of the bridge changed, and all that the
  messages let out of this token together is at most the amount of its last change; the result is the number of these
  transfers. (A transaction with two changes of one token is measured by the second alone.)
\<close>

theorem ProcessDigest_iff:
  assumes "processObjectUpdates F api s 0 (tb_ObjectChanges tx) [] = Inr ins"
  shows "ProcessDigest F api s (Inr tx) = Inr n \<longleftrightarrow>
    n = length (requests s (tb_Events tx)) \<and>
    (\<forall>h\<in>set (requests s (tb_Events tx)). \<exists>amount.
       map_of (rev (read_changes F api s 0 (tb_ObjectChanges tx))) (sui_key h) = Some amount \<and>
       let_out (requests s (tb_Events tx)) h \<le> amount)"
proof -
  obtain outs k where p: "processEvents s (tb_Events tx) [] 0 = (outs, k)" by (cases "processEvents s (tb_Events tx) [] 0")
  have outs: "outs = fst (processEvents s (tb_Events tx) [] 0)" and k: "k = length (requests s (tb_Events tx))"
    using p processEvents_count [of s "tb_Events tx" "[]" 0] by simp_all
  have d: "distinct (map fst outs)" unfolding outs by (rule processEvents_distinct) simp
  have sum: "h \<in> set (requests s (tb_Events tx)) \<Longrightarrow> map_of outs (sui_key h) = Some (let_out (requests s (tb_Events tx)) h)" for h
    unfolding outs processEvents_sums by (auto simp: list_ex_iff same_token_def)
  have "check_requests ins outs = Inr () \<longleftrightarrow>
      (\<forall>h\<in>set (requests s (tb_Events tx)). \<exists>a. map_of ins (sui_key h) = Some a \<and> let_out (requests s (tb_Events tx)) h \<le> a)"
    unfolding check_requests_iff map_of_ok_iff [OF d] using sum by (simp add: outs processEvents_keys)
  then show ?thesis
    using processObjectUpdates_map [OF assms] by (auto simp: ProcessDigest_def p assms chk_eq_Inr k)
qed

text \<open>With fewer than two versions of an object the verifier panics; the check of their number comes too late.\<close>

lemma one_version_panics:
  "\<exists>p. change_amount F [] = Inl (Panic p)"
  "GetDecimals F r = Inr decimals \<Longrightarrow> \<exists>p. change_amount F [r] = Inl (Panic p)"
  by (simp_all add: change_amount_def both_results_def result_at_def chk_def)

text \<open>A deposit of 100 of a native token, of which messages let out 60 and 40.\<close>

definition sui_token :: "byte list" where "sui_token = replicate 32 7"

definition sui_versions :: "string \<Rightarrow> int json" where
  "sui_versions custody = JObject [(''content'', JObject [(''type'', JString ''0x2::native_asset::NativeAsset''),
     (''fields'', JObject [(''value'', JObject [(''fields'', JObject [(''custody'', JString custody), (''decimals'', JNumber 8),
       (''token_address'', JObject [(''fields'', JObject [(''value'', JObject [(''fields'', JObject [(''data'', JArray (replicate 32 (JNumber 7)))])])])])])])])])]"

definition sui_change :: ObjectChange where
  "sui_change = \<lparr>oc_ObjectType = ''0x2::dynamic_field::Field<0xab::token_registry::Key<0x7::c::C>, 0xab::native_asset::NativeAsset<0x7::c::C>>'',
     oc_ObjectId = ''0x1'', oc_Version = ''2'', oc_PreviousVersion = ''1''\<rparr>"

definition sui_hdr :: "nat \<Rightarrow> TransferPayloadHdr" where
  "sui_hdr amount = \<lparr>tph_Type = 1, tph_Amount = amount, tph_OriginAddress = sui_token, tph_OriginChain = 21,
     tph_TargetAddress = replicate 32 9, tph_TargetChain = 2\<rparr>"

definition sui_event :: "nat \<Rightarrow> SuiEvent" where
  "sui_event amount = \<lparr>se_Type = Some ''0xcore::publish_message::WormholeMessage'',
     se_Message = Some \<lparr>wm_Payload = put_transfer_hdr (sui_hdr amount) @ [], wm_Sender = Some ''bridge''\<rparr>\<rparr>"

definition sui_verifier :: SuiTransferVerifier where
  "sui_verifier = NewSuiTransferVerifier ''0xcore'' ''bridge'' ''0xab''"

definition sui_tx :: SuiGetTransactionBlockResult where
  "sui_tx = \<lparr>tb_ObjectChanges = [sui_change], tb_Events = [sui_event 60, sui_event 40]\<rparr>"

definition int_floats :: "int floats" where
  "int_floats = \<lparr>to_uint8 = word_of_int, to_uint16 = word_of_int\<rparr>"

definition sui_api :: "int past_objects" where
  "sui_api n i v p = Inr [Some (sui_versions ''500''), Some (sui_versions ''400'')]"

lemma sui_change_amount:
  "change_amount int_floats [Some (sui_versions ''500''), Some (sui_versions ''400'')] = Inr (sui_key (sui_hdr 1), 100)"
  by code_simp

lemma sui_change_valid: "ValidateTypeInformation (sv_TokenBridgeContract sui_verifier) sui_change"
  by code_simp

lemma sui_changes_read:
  "processObjectUpdates int_floats sui_api sui_verifier 0 (tb_ObjectChanges sui_tx) [] = Inr [(sui_key (sui_hdr 1), 100)]"
  "read_changes int_floats sui_api sui_verifier 0 (tb_ObjectChanges sui_tx) = [(sui_key (sui_hdr 1), 100)]"
  by (simp_all add: sui_tx_def sui_change_valid sui_api_def sui_change_amount)

lemma sui_requests: "requests sui_verifier (tb_Events sui_tx) = [sui_hdr 60, sui_hdr 40]"
proof -
  have "wf_transfer_hdr (sui_hdr n)" if "n < 2 ^ 256" for n
    using that by (simp add: wf_transfer_hdr_def sui_hdr_def sui_token_def)
  then have "requested sui_verifier (sui_event n) = Some (sui_hdr n)" if "n < 2 ^ 256" for n
    using that DecodeTransferPayloadHdr_put [of "sui_hdr n" "[]"]
    by (simp add: requested_def sui_event_def sui_verifier_def NewSuiTransferVerifier_def)
  then show ?thesis by (simp add: sui_tx_def)
qed

theorem ProcessDigest_iff_witness: "ProcessDigest int_floats sui_api sui_verifier (Inr sui_tx) = Inr 2"
proof -
  have "sui_key (sui_hdr n) = sui_key (sui_hdr 1)" "same_token (sui_hdr n) (sui_hdr m)" for n m
    by (simp_all add: sui_key_def same_token_def sui_hdr_def)
  then show ?thesis
    unfolding ProcessDigest_iff [OF sui_changes_read(1)] sui_requests sui_changes_read(2) by (simp) (simp add: sui_hdr_def)
qed

end
