(* ===== verification/Spec2Isabelle.thy ===== *)
theory Spec2Isabelle imports Payloads GuardianSet QueryResponse GovLimits GovRelease GovAdmin VaaDb NodeSafety GovStart GovMonitor AdminService WormSpec QueryRun CcqServerRun SuiVerifier begin

text \<open>
  The Wormhole guardian node, src/lib/pyth-crosschain: the Go code of this repository that carries its
  cross chain logic. A guardian watches chains for published messages, signs what it has seen,
  exchanges signatures with the other guardians, and broadcasts a message as a VAA once a quorum of the
  guardian set has signed it. Two gates stand before its signature: the chain governor, which limits the
  value that leaves a chain per day, and the global accountant, which lets a token transfer pass only
  when a contract on wormchain has committed it.

  Parts, their theories and their sources (paths below node/pkg unless said otherwise).

  Shared ground. Prelude: errors as values, readers of byte strings, big-endian integers and the locales
  codec, exact_codec and canonical_codec, the interfaces of a binary format. GoText: decimal, hexadecimal, splitting.
  Traces: runs of a step relation and the locale trace_invariant.

  Data and formats. ChainIds: names of chains (sdk/vaa/structs.go). Vaa: the VAA, its binary form,
  digest, quorum and verification (sdk/vaa/structs.go, quorum.go). Payloads: governance messages
  (sdk/vaa/payloads.go). Emitters: the tables of known emitters and the maps built from them
  (sdk/mainnet_consts.go, testnet_consts.go, devnet_consts.go). GuardianSet: guardian sets and heartbeats
  (common/guardianset.go). MessagePub: observed messages and their binary forms (common/chainlock.go).
  Gossip: gossip messages and Go channels (common/channel_utils.go, obsvReqSendC.go). QueryRequest and
  QueryResponse: cross chain queries (query/request.go, response.go). QueryHandler: the handler of the queries
  between p2p and the watchers (query/query.go, p2p/ccq_p2p.go); QueryRun: what its runs keep.

  Query proxy (node/cmd/ccq), which takes queries from clients over HTTP. CcqPermissions: the permissions file and
  the checks of a request (permissions.go, utils.go). CcqServer: HTTP handler, pending responses and the count of
  guardian signatures (http.go, pending_request.go, loggingMap.go, p2p.go). CcqServerRun: what its runs keep.

  Watcher of the EVM chains (watchers/evm), which finds the messages the node signs and answers queries about
  these chains. EvmBlocks: the cache of block timestamps and its backfill (blocks_by_timestamp.go,
  ccq_backfill.go). EvmQuery: the Watcher record and the three kinds of query (ccq.go). EvmWatcher: the pending
  messages between log and finality, reobservation, and the check of a transaction (watcher.go, reobserve.go,
  by_transaction.go, msg_verifier.go). EvmPoller: the connectors that find new blocks (connectors/batch_poller.go,
  instant_finality.go, block_utils). EvmConfig: the tables of chains and finality, and the start of a watcher
  (chain_config.go, config.go, watcher.go). The node of the chain is an argument throughout: functions from a
  request to its answer or error.

  Transfer verifiers (txverifier), which a watcher asks about the transaction of a token bridge message before it
  publishes it. TxVerifier: EVM chains (evm.go, evmtypes.go, utils.go), the verdict as an instance of the argument
  process_event of EvmWatcher. SuiVerifier: the transactions of Sui (sui.go, suitypes.go).

  Storage. VaaDb: signed VAAs by identifier, gaps of sequences (db/db.go). GovernorDb: records of the
  governor (db/governor.go). The records of the accountant (db/accountant.go) are in Accountant.

  Chain governor (governor/*.go). GovValue: notional values with math/big and the checked additions.
  Governor: chains, tokens, transfers of the day, pending messages, flow cancelling, ProcessMsgForTime and
  CheckPendingForTime. GovAdmin: loading, admin commands, remaining values. GovLimits: the daily limit over
  runs. GovRelease: what becomes of a message, conservation and progress of the release loop. GovConfig: the
  tables of chains, tokens, corridors and the test configurations (mainnet_chains.go, manual_tokens.go and
  others). GovPrices: initConfig and the queries of CoinGecko (governor_prices.go) over an explicit store of
  price objects, since the code shares them between tokens by pointer. GovStart: what initConfig sets up and
  how it meets the invariant of the prices. GovMonitor: the queries and published messages of
  governor_monitoring.go.

  Global accountant (accountant/*.go). AcctNtt: which payloads are native token transfers, configured
  emitters. Accountant: the pending transfers, SubmitObservation, the database, Start. AcctWork: the worker,
  the watcher of contract events, the audit. AcctInv: what all of these keep.

  Processor (processor/*.go). Aggregation: states of observations, our own and foreign observations,
  quorum, VAAs from the network. Cleanup: settling, retries, expiry, the VAA writer. AltPub and
  GatewayRelayer: the two other consumers (altpub/alternate_pub.go, gwrelayer/gwrelayer.go). AggregationInv
  and CleanupInv: what they keep.

  Admin socket. AdminVaa: governance requests and the VAAs they become, injection into the processor
  (sdk/vaa/governance.go, adminrpc/adminserver.go). AdminService: missing messages, observation requests,
  governor commands, the purge of VAAs and SignExistingVAA (adminrpc/adminserver.go, db/purge_vaas.go).

  Wormchain's module x/wormhole (wormchain/x/wormhole), which executes what the guardians have signed.
  WormStore: the ordered stores of the Cosmos SDK and the locale ordered_store. WormKeeper: the state of the
  keeper, guardian sets, verification and replay protection of governance VAAs, validators, allowlists, the
  ante decorator (keeper, types, ante). WormMsgs: the other message handlers, proposals, genesis, queries and
  the dispatch of messages. WormInv: what every run keeps. WormSpec: a guardian set from the admin socket to
  the chain, genesis, and what the handlers make of odd input.

  Composition. Processor: the cases of Processor.Run with the governor and the accountant as it calls them,
  and node_step, the steps of the whole node: a case of the select, a message given back by the accountant,
  a turn of the batch processor, of the VAA writer, of the accountant's worker, watcher and audit, and p2p
  taking messages from the queues. NodeInv: the invariant of the node. NodeSafety: what holds in every run.

  State and operations. A Go struct is a record, a map a partial function (an order of iteration that can
  matter is an argument), a pointer that may be nil an option. Handlers take the state and give it back,
  with an error as value: go_error has EOF, plain, wrapped and panic errors, the last standing for a panic
  of the process. A database operation returns its error together with the database. The clock, random
  numbers, Badger (record badger), the crypto library (record crypto), JSON and answers of remote services
  are arguments, and what is assumed of them are named predicates (signer_correct, Int63n_ok and the
  like), each met by a concrete instance in a witness. Times are nanoseconds as int; machine integers are
  words of their width, converted with the wrap-around of the source.

  Lemmas. Every format has its round trip in both directions, through the interpretations of the locale
  canonical_codec where the accepted strings are exactly the encodings. The governor theories show that the
  daily limit holds in every run without flow cancelling, that checking the pending list neither loses nor
  duplicates a message except after a failed sum, that loading restores what was stored, that every
  environment starts from a consistent configuration, and what a sequence of price queries makes of a
  token's price. The accountant
  theories show that only what the contract has committed is given back. The processor theories show that
  each signature that is held verifies, that a VAA that is broadcast has a quorum of its guardian set, that
  own observations are sent again until they expire and that the cleanup never panics. NodeSafety puts
  them together for every run of the node. WormInv shows over all runs that a governance VAA is executed once
  and that the consensus guardian set consists of registered validators; WormSpec connects the request of an
  operator with the guardian set that wormchain then has. QueryRun shows that a response is only signed for a
  request of an allowed requestor, with an answer of a watcher for each part, and at most once for each time the
  request was taken. CcqServerRun shows that what a client gets was permitted to him and has a quorum, and when the
  proxy gives up a query. EvmWatcher shows for every run of a watcher that what it publishes was a log
  of a successful receipt in the block the message waited for, at the finality it asked for, and that such a message
  is published; EvmQuery that an answer belongs to the block it names; EvmBlocks that the cache finds the last block
  not after a time; EvmPoller that the poller skips no block. TxVerifier
  shows when a transaction is rejected, in terms of the sums that go in and out per token, and how a rejected one passes
  nevertheless; SuiVerifier when a transaction of Sui passes. The lemmas that record a defect of the code are named in the list of findings.

  Bounds and termination. The loops of the source are recursions on lists, or functions with a measure:
  check_chain on the pending entries, status_chunks on the keys that are left, split_on on the text. No
  fuel is used. Two loops of the watcher need not end, the search for a batch size and the filling of a gap: they are
  partial_function (option), None meaning that the loop runs for ever; max_batch_size_found and backfill_closes_gap
  show when they end, batch_size_search_never_ends that the first may not. Loops that run for ever by design (Run,
  workers) are step relations.

  Not modelled. The Solidity contracts, Chainlink and the libraries of other projects; the watchers of
  chains that are not EVM chains, p2p, RPC services, signers, command line and supervision of the node, whose messages are inputs of
  the steps; the other modules of wormchain, which are arguments of the handlers; metrics and logs; generated
  code. Within the modelled parts: JSON and protobuf encodings, the HTTP client and URL parsing of the alternate publisher, the web server of CoinGecko and the generated
  token table of the governor.
\<close>

end
